(* ===== verification/Pogo_Prelude.thy ===== *)
theory Pogo_Prelude
  imports Main "HOL-Library.Multiset" "HOL-Library.Sublist" "HOL-Library.List_Lexorder" "HOL-Library.Char_ord" "HOL-Library.Product_Lexorder"
begin

text \<open>
  What every component shares: Go errors as values, the loops that stop at the first error,
  Go maps as association lists (the order of the list is the order in which one run ranges over
  the map), and the sorting lemmas behind the \<open>sort.Slice\<close> calls of the code.

  Go strings and byte slices are both \<open>string\<close>, that is \<open>char list\<close>, one \<open>char\<close> per byte. The
  imported orders make \<open><\<close> on \<open>string\<close> the bytewise order of Go's string comparison.
\<close>

named_theorems err_simps \<open>when a sequence of checks reports no error\<close>
named_theorems gomap_simps \<open>lookups in Go maps\<close>

section \<open>Errors\<close>

text \<open>
  An error built by \<open>fmt.Errorf\<close> or \<open>errors.New\<close> is its format, the arguments that fill it and
  the error wrapped by \<open>%w\<close>, if any. A panic of the Go runtime is a value too, so that a theorem
  can say that it does not happen.
\<close>

datatype goarg = AStr string | AInt int

datatype goerror = GoErr string "goarg list" "goerror option" | GoPanic string

abbreviation errorf :: "string \<Rightarrow> goarg list \<Rightarrow> goerror" where
  "errorf fmt args \<equiv> GoErr fmt args None"

abbreviation wrapf :: "string \<Rightarrow> goarg list \<Rightarrow> goerror \<Rightarrow> goerror" where
  "wrapf fmt args e \<equiv> GoErr fmt args (Some e)"

text \<open>A function that returns only an \<open>error\<close> is modelled by \<open>goerror option\<close>; nil is \<open>None\<close>.\<close>

fun first_err :: "'e option list \<Rightarrow> 'e option" where
  "first_err [] = None"
| "first_err (None # es) = first_err es"
| "first_err (Some e # es) = Some e"

definition check :: "bool \<Rightarrow> 'e \<Rightarrow> 'e option" where
  "check bad e = (if bad then Some e else None)"

definition on_err :: "('e \<Rightarrow> 'f) \<Rightarrow> 'e option \<Rightarrow> 'f option" where
  "on_err f r = map_option f r"

lemma first_err_None [simp, err_simps]: "first_err es = None \<longleftrightarrow> (\<forall>e \<in> set es. e = None)"
  by (induction es rule: first_err.induct) auto

lemma check_None [simp, err_simps]: "check b e = None \<longleftrightarrow> \<not> b"
  by (simp add: check_def)

lemma check_Some [simp]: "check b e = Some x \<longleftrightarrow> b \<and> x = e"
  by (auto simp: check_def)

lemma check_simps [simp]: "check False e = None" "check True e = Some e"
  by (simp_all add: check_def)

lemma on_err_simps [simp]: "on_err f None = None" "on_err f (Some e) = Some (f e)"
  by (simp_all add: on_err_def)

lemma on_err_None [simp, err_simps]: "on_err f r = None \<longleftrightarrow> r = None"
  by (simp add: on_err_def)

text \<open>\<open>x, err := f(); if err != nil { return err }\<close> followed by the rest.\<close>

definition bind_err :: "'e + 'a \<Rightarrow> ('a \<Rightarrow> 'e + 'b) \<Rightarrow> 'e + 'b" where
  "bind_err r f = (case r of Inl e \<Rightarrow> Inl e | Inr x \<Rightarrow> f x)"

lemma bind_err_simps [simp]: "bind_err (Inl e) f = Inl e" "bind_err (Inr x) f = f x"
  by (simp_all add: bind_err_def)

lemma bind_err_Inr: "bind_err r f = Inr y \<longleftrightarrow> (\<exists>x. r = Inr x \<and> f x = Inr y)"
  by (cases r) simp_all

lemma bind_err_InrE:
  assumes "bind_err r f = Inr y"
  obtains x where "r = Inr x" "f x = Inr y"
  using assms by (auto simp: bind_err_Inr)

definition guard_err :: "'e option \<Rightarrow> 'e + 'a \<Rightarrow> 'e + 'a" where
  "guard_err c r = (case c of Some e \<Rightarrow> Inl e | None \<Rightarrow> r)"

lemma guard_err_simps [simp]: "guard_err None r = r" "guard_err (Some e) r = Inl e"
  by (simp_all add: guard_err_def)

lemma guard_err_Inr [simp]: "guard_err c r = Inr y \<longleftrightarrow> c = None \<and> r = Inr y"
  by (cases c) (simp_all add: guard_err_def)

text \<open>\<open>for x := range xs { if err := f(x); err != nil { return err } }\<close>\<close>

definition check_each :: "('a \<Rightarrow> 'e option) \<Rightarrow> 'a list \<Rightarrow> 'e option" where
  "check_each f xs = first_err (map f xs)"

lemma check_each_None [simp, err_simps]: "check_each f xs = None \<longleftrightarrow> (\<forall>x \<in> set xs. f x = None)"
  by (simp add: check_each_def)

text \<open>The same loop carrying a state that each iteration updates.\<close>

fun fold_err :: "('a \<Rightarrow> 's \<Rightarrow> 'e + 's) \<Rightarrow> 'a list \<Rightarrow> 's \<Rightarrow> 'e + 's" where
  "fold_err f [] s = Inr s"
| "fold_err f (x # xs) s = (case f x s of Inl e \<Rightarrow> Inl e | Inr s' \<Rightarrow> fold_err f xs s')"

lemma fold_err_inv:
  assumes "fold_err f xs s = Inr t" and "P s"
    and "\<And>x s s'. x \<in> set xs \<Longrightarrow> P s \<Longrightarrow> f x s = Inr s' \<Longrightarrow> P s'"
  shows "P t"
  using assms
proof (induction xs arbitrary: s)
  case Nil
  then show ?case by simp
next
  case (Cons x xs)
  from Cons.prems(1) obtain s' where s': "f x s = Inr s'" "fold_err f xs s' = Inr t"
    by (auto split: sum.splits)
  moreover have "P s'" using Cons.prems(2,3) s'(1) by auto
  ultimately show ?case using Cons.IH Cons.prems(3) by auto
qed

text \<open>An invariant that also sees which elements the loop has already handled.\<close>

lemma fold_err_inv_prefix:
  assumes run: "fold_err f xs s = Inr t" and start: "P [] s"
    and step: "\<And>ys x s s'. P ys s \<Longrightarrow> x \<in> set xs \<Longrightarrow> f x s = Inr s' \<Longrightarrow> P (ys @ [x]) s'"
  shows "P xs t"
proof -
  have "P (ys @ zs) t" if "fold_err f zs s = Inr t" "P ys s" "set zs \<subseteq> set xs" for ys zs s
    using that
  proof (induction zs arbitrary: ys s)
    case Nil
    then show ?case by simp
  next
    case (Cons z zs)
    from Cons.prems(1) obtain s' where s': "f z s = Inr s'" "fold_err f zs s' = Inr t"
      by (auto split: sum.splits)
    have "P (ys @ [z]) s'" using step Cons.prems s'(1) by auto
    from Cons.IH [OF s'(2) this] Cons.prems(3) show ?case by simp
  qed
  from this [of xs s "[]"] run start show ?thesis by simp
qed

text \<open>A loop that rewrites every element, or stops at the first error.\<close>

fun map_err :: "('a \<Rightarrow> 'e + 'b) \<Rightarrow> 'a list \<Rightarrow> 'e + 'b list" where
  "map_err f [] = Inr []"
| "map_err f (x # xs) = bind_err (f x) (\<lambda>y. bind_err (map_err f xs) (\<lambda>ys. Inr (y # ys)))"

lemma map_err_Inr: "map_err f xs = Inr ys \<longleftrightarrow> list_all2 (\<lambda>x y. f x = Inr y) xs ys"
proof (induction xs arbitrary: ys)
  case (Cons x xs)
  then show ?case by (cases ys) (auto simp: bind_err_Inr)
qed auto

text \<open>
  Loops that refuse a key they have seen: what one more iteration says of the keys seen before is
  what it says of the distinctness of all keys.
\<close>

lemma seen_Cons:
  "P x \<and> f x \<notin> set seen \<and> (\<forall>y \<in> set xs. P y \<and> f y \<notin> set (f x # seen)) \<and> distinct (map f xs) \<longleftrightarrow>
   (\<forall>y \<in> set (x # xs). P y \<and> f y \<notin> set seen) \<and> distinct (map f (x # xs))"
  by (simp add: image_iff) metis

section \<open>Go maps\<close>

type_synonym 'v gomap = "(string \<times> 'v) list"

text \<open>A string pointer that is not nil and does not point to the empty string.\<close>

fun nonempty :: "string option \<Rightarrow> string option" where
  "nonempty (Some (c # s)) = Some (c # s)"
| "nonempty p = None"

lemma nonempty_Some: "nonempty p = Some s \<longleftrightarrow> p = Some s \<and> s \<noteq> ''''"
  by (cases p rule: nonempty.cases) auto

definition gomap_ok :: "('k \<times> 'v) list \<Rightarrow> bool" where
  "gomap_ok m \<longleftrightarrow> distinct (map fst m)"

text \<open>\<open>m[k] = v\<close>: the entry keeps its place when the key is present and is appended otherwise.\<close>

fun gomap_put :: "'k \<Rightarrow> 'v \<Rightarrow> ('k \<times> 'v) list \<Rightarrow> ('k \<times> 'v) list" where
  "gomap_put k v [] = [(k, v)]"
| "gomap_put k v ((k', v') # m) = (if k' = k then (k, v) # m else (k', v') # gomap_put k v m)"

lemma map_of_gomap_put [simp, gomap_simps]: "map_of (gomap_put k v m) = (map_of m)(k \<mapsto> v)"
  by (induction m) (auto simp: fun_eq_iff)

lemma fst_gomap_put: "fst ` set (gomap_put k v m) = insert k (fst ` set m)"
  by (simp flip: dom_map_of_conv_image_fst)

lemma gomap_ok_put [simp, intro]: "gomap_ok m \<Longrightarrow> gomap_ok (gomap_put k v m)"
proof (induction m)
  case Nil
  then show ?case by (simp add: gomap_ok_def)
next
  case (Cons p m)
  then show ?case
    using fst_gomap_put [of k v m] by (cases p) (auto simp: gomap_ok_def)
qed

lemma gomap_ok_Nil [simp]: "gomap_ok []"
  by (simp add: gomap_ok_def)

lemma gomap_lookup_iff: "gomap_ok m \<Longrightarrow> map_of m k = Some v \<longleftrightarrow> (k, v) \<in> set m"
  by (simp add: gomap_ok_def)

lemma ran_gomap_put: "gomap_ok m \<Longrightarrow> map_of m k = None \<Longrightarrow>
    set (gomap_put k v m) = insert (k, v) (set m)"
  by (induction m) (auto simp: gomap_ok_def split: if_splits)

lemma set_gomap_put_subset: "set (gomap_put k v m) \<subseteq> insert (k, v) (set m)"
  by (induction m) (auto split: if_splits)

lemma length_gomap_put_new: "map_of m k = None \<Longrightarrow> length (gomap_put k v m) = Suc (length m)"
  by (induction m) (auto split: if_splits)

section \<open>Sorting\<close>

text \<open>
  The \<open>sort.Slice\<close> calls of the code compare keys that differ between any two elements, so every
  correct sort gives the same list and \<open>sort_key\<close> models them all.
\<close>

lemma sorted_by_key [simp]: "sorted (map f (sort_key f xs))"
  by (rule sorted_sort_key)

lemma sort_key_unique:
  assumes "distinct (map f xs)" and "mset xs = mset ys"
  shows "sort_key f xs = sort_key f ys"
  using assms by (intro sort_key_inj_key_eq) (simp_all add: distinct_map)

lemma distinct_map_sort_key [simp]: "distinct (map f (sort_key g xs)) = distinct (map f xs)"
  by (metis mset_map mset_sort mset_eq_imp_distinct_iff)

end
