(* ===== verification/Schema_DTO.thy ===== *)
theory Schema_DTO
  imports Pogo_Prelude
begin

text \<open>
  The schema that the Python worker sends (\<open>internal/schema/dto.go\<close>), struct by struct. A Go
  \<open>int\<close> is an \<open>int\<close>, a pointer to a value is an \<open>option\<close>, a slice is a list and a map is an
  association list whose order is the order in which the run at hand ranges over it. Structs
  are values: the deep copies that \<open>schema.Build\<close> takes of its argument (\<open>cloneSnapshot\<close> and the
  functions below it) are therefore the identity and have no definition of their own.
\<close>

section \<open>Positions and ranges\<close>

record Position =
  pos_Line :: int
  pos_Column :: int

record SourceRange =
  sr_FilePath :: string
  sr_SourceDigest :: string
  sr_Start :: Position
  sr_End :: Position

section \<open>Methods and managers\<close>

record MethodKey =
  mkey_Name :: string
  mkey_OwnerClass :: string

record Method =
  method_Name :: string
  method_OwnerClass :: string
  method_Signature :: "string option"
  method_Docstring :: "string option"
  method_SourceRange :: "SourceRange option"
  method_Chainable :: bool
  method_AssumedChainable :: bool

record BoundQuerySetMethod =
  bound_Method :: MethodKey
  bound_AvailableOnManager :: bool

record BaseManager =
  base_Name :: string
  base_OwnerClass :: string

record Manager =
  manager_Name :: string
  manager_OwnerClass :: string
  manager_QuerySetClass :: "string option"
  manager_Default :: bool
  manager_Local :: bool
  manager_AutoCreated :: bool
  manager_SourceRange :: "SourceRange option"
  manager_Methods :: "Method list"
  manager_QuerySetMethods :: "BoundQuerySetMethod list"

section \<open>Fields\<close>

record LookupPath =
  path_Transforms :: "string list"
  path_Kinds :: "string list"
  path_Lookups :: "string list"

record Field =
  field_Type :: string
  field_IsRelation :: bool
  field_RelatedModel :: "string option"
  field_RuntimeRelatedModel :: "string option"
  field_Lookups :: "string list"
  field_UnsupportedLookups :: "string list"
  field_HelpText :: string
  field_Name :: string
  field_Attname :: "string option"
  field_DBColumn :: "string option"
  field_DBType :: "string option"
  field_InternalType :: string
  field_Null :: bool
  field_DBIndex :: bool
  field_Unique :: bool
  field_PrimaryKey :: bool
  field_EffectivePrimaryKey :: bool
  field_Concrete :: bool
  field_AutoCreated :: bool
  field_RelationCardinality :: "string option"
  field_RelationDirection :: "string option"
  field_AccessorName :: "string option"
  field_QueryName :: "string option"
  field_SourceModel :: string
  field_SourceModelAbstract :: bool
  field_SourceRange :: "SourceRange option"
  field_ParentLink :: bool
  field_Transforms :: "string list"
  field_LookupPaths :: "LookupPath list"
  field_LookupPathsTruncated :: bool

section \<open>Models, apps and the snapshot\<close>

record Parent =
  parent_CanonicalLabel :: string
  parent_ClassPath :: string
  parent_Abstract :: bool
  parent_Proxy :: bool
  parent_ParentLink :: "string option"
  parent_SourceRange :: "SourceRange option"

record IndexField =
  ixfield_Name :: string
  ixfield_Order :: string

record Index =
  ix_Name :: string
  ix_Fields :: "IndexField list"
  ix_Expressions :: "string list"
  ix_Condition :: "string option"
  ix_Include :: "string list"
  ix_Opclasses :: "string list"
  ix_DBTablespace :: "string option"
  ix_SourceRange :: "SourceRange option"

record Constraint =
  con_Name :: string
  con_Type :: string
  con_Fields :: "string list"
  con_Expressions :: "string list"
  con_Condition :: "string option"
  con_Include :: "string list"
  con_Opclasses :: "string list"
  con_Deferrable :: "string option"
  con_NullsDistinct :: "bool option"
  con_ViolationErrorCode :: "string option"
  con_ViolationErrorMessage :: "string option"
  con_SourceRange :: "SourceRange option"

record Model =
  model_CanonicalLabel :: string
  model_Module :: string
  model_Qualname :: string
  model_FilePath :: string
  model_LineNumber :: int
  model_SourceRange :: "SourceRange option"
  model_Docstring :: "string option"
  model_Abstract :: bool
  model_Proxy :: bool
  model_Managed :: bool
  model_Swapped :: bool
  model_HasAbstractParent :: bool
  model_MultiTableChild :: bool
  model_Parents :: "Parent list"
  model_DefaultManager :: string
  model_BaseManager :: BaseManager
  model_CustomManagers :: "string list"
  model_Managers :: "Manager list"
  model_QuerySetMethods :: "MethodKey list"
  model_Indexes :: "Index list"
  model_Constraints :: "Constraint list"
  model_Fields :: "Field gomap"

record App =
  app_Label :: string
  app_ImportName :: string
  app_RootPath :: string
  app_Models :: "Model gomap"

record Snapshot =
  snap_SchemaVersion :: int
  snap_PositionEncoding :: string
  snap_LookupTransformMaxDepth :: int
  snap_LookupPathMaxCount :: int
  snap_SchemaSources :: "string list"
  snap_SchemaSourcesComplete :: bool
  snap_QuerySetMethodDefs :: "Method list"
  snap_Apps :: "App gomap"

text \<open>
  The maps of a snapshot have distinct keys, as every Go map has.
\<close>

definition snapshot_maps_ok :: "Snapshot \<Rightarrow> bool" where
  "snapshot_maps_ok s \<longleftrightarrow> gomap_ok (snap_Apps s) \<and>
     (\<forall>(k, app) \<in> set (snap_Apps s). gomap_ok (app_Models app) \<and>
        (\<forall>(n, m) \<in> set (app_Models app). gomap_ok (model_Fields m)))"

end
