(* ===== verification/Go_Strings.thy ===== *)
theory Go_Strings
  imports Pogo_Prelude
begin

text \<open>
  What the code uses of Go's package \<open>strings\<close>, on byte strings: prefixes and suffixes, cutting,
  splitting and joining, trimming by a set of bytes, and searching for a byte.
\<close>

section \<open>Prefixes, suffixes, membership\<close>

definition HasPrefix :: "string \<Rightarrow> string \<Rightarrow> bool" where
  "HasPrefix s p \<longleftrightarrow> take (length p) s = p"

definition HasSuffix :: "string \<Rightarrow> string \<Rightarrow> bool" where
  "HasSuffix s p \<longleftrightarrow> length p \<le> length s \<and> drop (length s - length p) s = p"

definition ContainsByte :: "string \<Rightarrow> char \<Rightarrow> bool" where
  "ContainsByte s c \<longleftrightarrow> c \<in> set s"

definition TrimPrefix :: "string \<Rightarrow> string \<Rightarrow> string" where
  "TrimPrefix s p = (if HasPrefix s p then drop (length p) s else s)"

definition TrimSuffix :: "string \<Rightarrow> string \<Rightarrow> string" where
  "TrimSuffix s p = (if HasSuffix s p then take (length s - length p) s else s)"

lemma HasPrefix_iff: "HasPrefix s p \<longleftrightarrow> prefix p s"
  by (auto simp: HasPrefix_def prefix_def) (metis append_take_drop_id)

lemma HasSuffix_iff: "HasSuffix s p \<longleftrightarrow> suffix p s"
  by (auto simp: HasSuffix_def suffix_def) (metis append_take_drop_id)

lemma HasPrefix_append [simp]: "HasPrefix (p @ s) p"
  by (simp add: HasPrefix_def)

lemma HasPrefix_Nil [simp]: "HasPrefix s []"
  by (simp add: HasPrefix_def)

section \<open>Trimming by a set of bytes\<close>

definition TrimLeft :: "(char \<Rightarrow> bool) \<Rightarrow> string \<Rightarrow> string" where
  "TrimLeft inset s = dropWhile inset s"

definition TrimRight :: "(char \<Rightarrow> bool) \<Rightarrow> string \<Rightarrow> string" where
  "TrimRight inset s = rev (dropWhile inset (rev s))"

definition TrimBytes :: "(char \<Rightarrow> bool) \<Rightarrow> string \<Rightarrow> string" where
  "TrimBytes inset s = TrimRight inset (TrimLeft inset s)"

lemma ball_dropWhile: "(\<forall>c \<in> set (dropWhile P s). P c) \<longleftrightarrow> (\<forall>c \<in> set s. P c)"
  by (induction s) auto

lemma TrimBytes_empty: "TrimBytes inset s = [] \<longleftrightarrow> (\<forall>c \<in> set s. inset c)"
  by (simp add: TrimBytes_def TrimLeft_def TrimRight_def dropWhile_eq_Nil_conv ball_dropWhile)

section \<open>Splitting and joining at a byte\<close>

fun split_byte :: "char \<Rightarrow> string \<Rightarrow> string list" where
  "split_byte c [] = [[]]"
| "split_byte c (x # xs) =
     (if x = c then [] # split_byte c xs
      else (case split_byte c xs of [] \<Rightarrow> [[x]] | p # ps \<Rightarrow> (x # p) # ps))"

fun join_byte :: "char \<Rightarrow> string list \<Rightarrow> string" where
  "join_byte c [] = []"
| "join_byte c [p] = p"
| "join_byte c (p # q # ps) = p @ c # join_byte c (q # ps)"

lemma split_byte_not_Nil [simp]: "split_byte c s \<noteq> []"
  by (cases s) (auto split: list.splits)

lemma join_byte_Cons: "ps \<noteq> [] \<Longrightarrow> join_byte c (p # ps) = p @ c # join_byte c ps"
  by (cases ps) auto

lemma join_split_byte [simp]: "join_byte c (split_byte c s) = s"
proof (induction s)
  case (Cons x xs)
  then show ?case
    by (cases "split_byte c xs"; cases "tl (split_byte c xs)") (auto simp: join_byte_Cons)
qed simp

lemma split_byte_pieces: "p \<in> set (split_byte c s) \<Longrightarrow> c \<notin> set p"
  by (induction s arbitrary: p) (auto split: list.splits if_splits)

lemma split_byte_no_sep: "c \<notin> set s \<Longrightarrow> split_byte c s = [s]"
  by (induction s) auto

lemma split_byte_append_sep: "c \<notin> set p \<Longrightarrow> split_byte c (p @ c # s) = p # split_byte c s"
  by (induction p) auto

lemma split_join_byte:
  "ps \<noteq> [] \<Longrightarrow> (\<And>p. p \<in> set ps \<Longrightarrow> c \<notin> set p) \<Longrightarrow> split_byte c (join_byte c ps) = ps"
  by (induction ps rule: join_byte.induct) (auto simp: split_byte_no_sep split_byte_append_sep)

text \<open>The length of a joined list, counting one separator per piece.\<close>

definition joined_size :: "string list \<Rightarrow> nat" where
  "joined_size ps = sum_list (map (\<lambda>p. Suc (length p)) ps)"

lemma joined_size_simps [simp]:
  "joined_size [] = 0" "joined_size (p # ps) = Suc (length p) + joined_size ps"
  "joined_size (ps @ qs) = joined_size ps + joined_size qs"
  by (simp_all add: joined_size_def)

lemma joined_size_0 [simp]: "joined_size ps = 0 \<longleftrightarrow> ps = []"
  by (cases ps) simp_all

lemma length_join_byte: "ps \<noteq> [] \<Longrightarrow> Suc (length (join_byte c ps)) = joined_size ps"
  by (induction ps rule: join_byte.induct) auto

lemma joined_size_split [simp]: "joined_size (split_byte c s) = Suc (length s)"
  using length_join_byte [of "split_byte c s" c] by simp

lemma joined_size_subseq:
  "subseq ps qs \<Longrightarrow> joined_size ps \<le> joined_size qs \<and> (joined_size ps = joined_size qs \<longrightarrow> ps = qs)"
  by (induction rule: list_emb.induct) auto

section \<open>Cutting and searching\<close>

text \<open>\<open>strings.Cut(s, sep)\<close> for a one-byte separator: what is before, what is after, found.\<close>

fun cut_byte :: "char \<Rightarrow> string \<Rightarrow> string \<times> string \<times> bool" where
  "cut_byte c [] = ([], [], False)"
| "cut_byte c (x # xs) =
     (if x = c then ([], xs, True)
      else (case cut_byte c xs of (before, after, found) \<Rightarrow> (x # before, after, found)))"

lemma cut_byte_found: "cut_byte c s = (b, a, True) \<Longrightarrow> s = b @ c # a \<and> c \<notin> set b"
  by (induction s arbitrary: b) (auto split: if_splits prod.splits)

lemma cut_byte_not_found: "cut_byte c s = (b, a, False) \<Longrightarrow> b = s \<and> a = [] \<and> c \<notin> set s"
  by (induction s arbitrary: b) (auto split: if_splits prod.splits)

lemma cut_byte_append: "c \<notin> set b \<Longrightarrow> cut_byte c (b @ c # a) = (b, a, True)"
  by (induction b) auto

text \<open>\<open>strings.IndexByte\<close> and \<open>strings.LastIndexByte\<close>; \<open>None\<close> stands for -1.\<close>

fun IndexByte :: "string \<Rightarrow> char \<Rightarrow> nat option" where
  "IndexByte [] c = None"
| "IndexByte (x # xs) c = (if x = c then Some 0 else map_option Suc (IndexByte xs c))"

fun LastIndexByte :: "string \<Rightarrow> char \<Rightarrow> nat option" where
  "LastIndexByte [] c = None"
| "LastIndexByte (x # xs) c =
     (case LastIndexByte xs c of Some i \<Rightarrow> Some (Suc i) | None \<Rightarrow> if x = c then Some 0 else None)"

lemma IndexByte_None: "IndexByte s c = None \<longleftrightarrow> c \<notin> set s"
  by (induction s) auto

lemma IndexByte_Some: "IndexByte s c = Some i \<Longrightarrow> i < length s \<and> s ! i = c \<and> c \<notin> set (take i s)"
  by (induction s arbitrary: i) (auto split: if_splits simp: nth_Cons')

lemma LastIndexByte_None: "LastIndexByte s c = None \<longleftrightarrow> c \<notin> set s"
  by (induction s) (auto split: option.splits)

lemma LastIndexByte_Some:
  "LastIndexByte s c = Some i \<Longrightarrow> i < length s \<and> s ! i = c \<and> c \<notin> set (drop (Suc i) s)"
  by (induction s arbitrary: i) (auto split: option.splits if_splits simp: LastIndexByte_None)

lemma LastIndexByte_append_one [simp]: "LastIndexByte (s @ [c]) c = Some (length s)"
  by (induction s) auto

lemma LastIndexByte_split: "c \<notin> set b \<Longrightarrow> LastIndexByte (a @ c # b) c = Some (length a)"
  by (induction a) (auto simp: LastIndexByte_None [THEN iffD2] split: option.splits)

end
