(* ===== verification/Schema_Validate.thy ===== *)
theory Schema_Validate
  imports Schema_DTO Go_Strings
begin

text \<open>
  The checks \<open>schema.Build\<close> makes of a snapshot before it indexes it
  (\<open>internal/schema/graph.go\<close>: \<open>validateRange\<close>, \<open>validateMethod\<close>, \<open>buildQuerySetMethodDefs\<close>,
  \<open>resolveQuerySetMethod\<close>, \<open>validateModel\<close>). A check returns the error it reports, or \<open>None\<close>. The
  list given to \<open>first_err\<close> has the checks in the order of the code; a check that reads a value
  that an earlier check has refused is never the first to report.
\<close>

definition Version :: int where "Version = 3"
definition PositionEncoding :: string where "PositionEncoding = ''utf-8-bytes''"
definition maxLookupDepth :: int where "maxLookupDepth = 2"
definition maxLookupPaths :: int where "maxLookupPaths = 512"

section \<open>Ranges and methods\<close>

definition is_digest_byte :: "char \<Rightarrow> bool" where
  "is_digest_byte c \<longleftrightarrow> c \<in> set ''0123456789abcdef''"

definition validateRange :: "SourceRange option \<Rightarrow> goerror option" where
  "validateRange sourceRange =
     (case sourceRange of
        None \<Rightarrow> Some (errorf ''missing range'' [])
      | Some r \<Rightarrow> first_err
          [check (sr_FilePath r = '''') (errorf ''missing range'' []),
           check (pos_Line (sr_Start r) \<le> 0 \<or> pos_Column (sr_Start r) < 0 \<or>
                  pos_Line (sr_End r) \<le> 0 \<or> pos_Column (sr_End r) < 0)
             (errorf ''invalid position'' []),
           check (pos_Line (sr_End r) < pos_Line (sr_Start r) \<or>
                  pos_Line (sr_End r) = pos_Line (sr_Start r) \<and>
                  pos_Column (sr_End r) < pos_Column (sr_Start r))
             (errorf ''end precedes start'' []),
           check (length (sr_SourceDigest r) \<noteq> 64 \<or> TrimBytes is_digest_byte (sr_SourceDigest r) \<noteq> '''')
             (errorf ''invalid source digest'' [])])"

definition validateMethod :: "Method \<Rightarrow> goerror option" where
  "validateMethod m = first_err
     [check (method_Name m = '''' \<or> method_OwnerClass m = '''' \<or> method_SourceRange m = None)
        (errorf ''invalid metadata'' []),
      check (method_AssumedChainable m \<and> \<not> method_Chainable m)
        (errorf ''assumed chainable method is not chainable'' []),
      on_err (wrapf ''source range: %w'' []) (validateRange (method_SourceRange m))]"

section \<open>QuerySet method definitions\<close>

type_synonym method_defs = "(string \<times> Method) list"

definition method_key :: "string \<Rightarrow> string \<Rightarrow> string" where
  "method_key owner name = owner @ CHR 0x00 # name"

definition add_method_def :: "Method \<Rightarrow> method_defs \<Rightarrow> goerror + method_defs" where
  "add_method_def m defs =
     (case validateMethod m of
        Some e \<Rightarrow> Inl (wrapf ''queryset method def %s.%s: %w''
                         [AStr (method_OwnerClass m), AStr (method_Name m)] e)
      | None \<Rightarrow>
          (let key = method_key (method_OwnerClass m) (method_Name m)
           in if map_of defs key \<noteq> None
              then Inl (errorf ''duplicate queryset method def %s.%s''
                          [AStr (method_OwnerClass m), AStr (method_Name m)])
              else Inr (gomap_put key m defs)))"

definition buildQuerySetMethodDefs :: "Snapshot \<Rightarrow> goerror + method_defs" where
  "buildQuerySetMethodDefs s = fold_err add_method_def (snap_QuerySetMethodDefs s) []"

definition resolveQuerySetMethod :: "method_defs \<Rightarrow> MethodKey \<Rightarrow> goerror + Method" where
  "resolveQuerySetMethod defs key =
     (case map_of defs (method_key (mkey_OwnerClass key) (mkey_Name key)) of
        None \<Rightarrow> Inl (errorf ''unknown queryset method %s.%s''
                       [AStr (mkey_OwnerClass key), AStr (mkey_Name key)])
      | Some m \<Rightarrow> Inr m)"

section \<open>Managers\<close>

fun validateManagerMethods :: "string \<Rightarrow> string \<Rightarrow> string list \<Rightarrow> Method list \<Rightarrow> goerror option" where
  "validateManagerMethods label mgr methodNames [] = None"
| "validateManagerMethods label mgr methodNames (m # ms) = first_err
     [on_err (wrapf ''model %s manager %s method %s: %w'' [AStr label, AStr mgr, AStr (method_Name m)])
        (validateMethod m),
      check (method_Name m \<in> set methodNames)
        (errorf ''model %s manager %s has duplicate method %q''
           [AStr label, AStr mgr, AStr (method_Name m)]),
      validateManagerMethods label mgr (method_Name m # methodNames) ms]"

definition check_resolved_method ::
    "(goerror \<Rightarrow> goerror) \<Rightarrow> (goerror \<Rightarrow> goerror) \<Rightarrow> method_defs \<Rightarrow> MethodKey \<Rightarrow> goerror option" where
  "check_resolved_method unknown invalid defs key =
     (case resolveQuerySetMethod defs key of
        Inl e \<Rightarrow> Some (unknown e)
      | Inr m \<Rightarrow> on_err invalid (validateMethod m))"

fun validateManagerBindings ::
    "method_defs \<Rightarrow> string \<Rightarrow> string \<Rightarrow> string list \<Rightarrow> BoundQuerySetMethod list \<Rightarrow> goerror option" where
  "validateManagerBindings defs label mgr names [] = None"
| "validateManagerBindings defs label mgr names (b # bs) =
     (let name = mkey_Name (bound_Method b) in first_err
        [check_resolved_method
           (wrapf ''model %s manager %s QuerySet method: %w'' [AStr label, AStr mgr])
           (wrapf ''model %s manager %s QuerySet method %s: %w'' [AStr label, AStr mgr, AStr name])
           defs (bound_Method b),
         check (name \<in> set names)
           (errorf ''model %s manager %s has duplicate QuerySet method %q''
              [AStr label, AStr mgr, AStr name]),
         validateManagerBindings defs label mgr (name # names) bs])"

fun validateManagers :: "method_defs \<Rightarrow> string \<Rightarrow> string list \<Rightarrow> Manager list \<Rightarrow> goerror option" where
  "validateManagers defs label managerNames [] = None"
| "validateManagers defs label managerNames (m # ms) =
     (let name = manager_Name m in first_err
        [check (name = '''' \<or> manager_OwnerClass m = '''' \<or> manager_SourceRange m = None)
           (errorf ''model %s has invalid manager'' [AStr label]),
         check (name \<in> set managerNames)
           (errorf ''model %s has duplicate manager %q'' [AStr label, AStr name]),
         on_err (wrapf ''model %s manager %s source range: %w'' [AStr label, AStr name])
           (validateRange (manager_SourceRange m)),
         check (manager_QuerySetClass m = Some '''')
           (errorf ''model %s manager %s has empty QuerySet class'' [AStr label, AStr name]),
         validateManagerMethods label name [] (manager_Methods m),
         check (manager_QuerySetMethods m \<noteq> [] \<and> manager_QuerySetClass m = None)
           (errorf ''model %s manager %s has QuerySet methods without a QuerySet class''
              [AStr label, AStr name]),
         validateManagerBindings defs label name [] (manager_QuerySetMethods m),
         validateManagers defs label (name # managerNames) ms])"

section \<open>Fields\<close>

definition validateLookupPath :: "string \<Rightarrow> string \<Rightarrow> Snapshot \<Rightarrow> LookupPath \<Rightarrow> goerror option" where
  "validateLookupPath label fieldName s p = first_err
     [check (length (path_Transforms p) \<noteq> length (path_Kinds p) \<or>
             int (length (path_Transforms p)) > snap_LookupTransformMaxDepth s)
        (errorf ''field %s.%s has invalid lookup path'' [AStr label, AStr fieldName]),
      check_each (\<lambda>kind. check (kind \<noteq> ''transform'' \<and> kind \<noteq> ''key_transform'')
          (errorf ''field %s.%s has invalid lookup path kind %q'' [AStr label, AStr fieldName, AStr kind]))
        (path_Kinds p)]"

definition validateField :: "string \<Rightarrow> Snapshot \<Rightarrow> string \<times> Field \<Rightarrow> goerror option" where
  "validateField label s entry =
     (case entry of (fieldName, field) \<Rightarrow> first_err
        [check (fieldName = '''' \<or> field_Name field \<noteq> fieldName \<or> field_Type field = '''' \<or>
                field_InternalType field = '''' \<or> field_SourceModel field = '''')
           (errorf ''model %s has invalid field key %q'' [AStr label, AStr fieldName]),
         on_err (wrapf ''field %s.%s source range: %w'' [AStr label, AStr fieldName])
           (validateRange (field_SourceRange field)),
         check (int (length (field_LookupPaths field)) > snap_LookupPathMaxCount s)
           (errorf ''field %s.%s exceeds lookup path bound'' [AStr label, AStr fieldName]),
         check_each (validateLookupPath label fieldName s) (field_LookupPaths field),
         (if field_IsRelation field then first_err
            [check (field_RelationDirection field \<noteq> Some ''forward'' \<and>
                    field_RelationDirection field \<noteq> Some ''reverse'')
               (errorf ''field %s.%s has invalid relation direction'' [AStr label, AStr fieldName]),
             check (case field_RelationCardinality field of
                      None \<Rightarrow> False
                    | Some c \<Rightarrow> c \<notin> {''many-to-one'', ''one-to-many'', ''one-to-one'', ''many-to-many''})
               (errorf ''field %s.%s has invalid relation cardinality'' [AStr label, AStr fieldName])]
          else check (field_RelatedModel field \<noteq> None \<or> field_RelationDirection field \<noteq> None \<or>
                      field_RelationCardinality field \<noteq> None)
                 (errorf ''field %s.%s has contradictory relation metadata''
                    [AStr label, AStr fieldName]))])"

section \<open>Parents, QuerySet methods, indexes and constraints\<close>

definition validateParent :: "string \<Rightarrow> Parent \<Rightarrow> goerror option" where
  "validateParent label p = first_err
     [check (parent_CanonicalLabel p = '''' \<or> parent_ClassPath p = '''' \<or> parent_SourceRange p = None)
        (errorf ''model %s has invalid parent metadata'' [AStr label]),
      on_err (wrapf ''model %s parent %s source range: %w'' [AStr label, AStr (parent_CanonicalLabel p)])
        (validateRange (parent_SourceRange p))]"

fun validateModelMethods :: "method_defs \<Rightarrow> string \<Rightarrow> string list \<Rightarrow> MethodKey list \<Rightarrow> goerror option" where
  "validateModelMethods defs label seen [] = None"
| "validateModelMethods defs label seen (k # ks) =
     (let key = method_key (mkey_OwnerClass k) (mkey_Name k) in first_err
        [check_resolved_method (wrapf ''model %s: %w'' [AStr label])
           (wrapf ''model %s QuerySet method %s: %w'' [AStr label, AStr (mkey_Name k)]) defs k,
         check (key \<in> set seen)
           (errorf ''model %s has duplicate QuerySet method %s.%s''
              [AStr label, AStr (mkey_OwnerClass k), AStr (mkey_Name k)]),
         validateModelMethods defs label (key # seen) ks])"

definition validateIndex :: "string \<Rightarrow> Index \<Rightarrow> goerror option" where
  "validateIndex label ix = first_err
     [check (ix_Name ix = '''' \<or> ix_SourceRange ix = None)
        (errorf ''model %s has invalid index'' [AStr label]),
      on_err (wrapf ''model %s index %s source range: %w'' [AStr label, AStr (ix_Name ix)])
        (validateRange (ix_SourceRange ix))]"

definition validateConstraint :: "string \<Rightarrow> Constraint \<Rightarrow> goerror option" where
  "validateConstraint label con = first_err
     [check (con_Name con = '''' \<or> con_Type con = '''' \<or> con_SourceRange con = None)
        (errorf ''model %s has invalid constraint'' [AStr label]),
      on_err (wrapf ''model %s constraint %s source range: %w'' [AStr label, AStr (con_Name con)])
        (validateRange (con_SourceRange con))]"

section \<open>Models\<close>

definition validateModel ::
    "string \<Rightarrow> string \<Rightarrow> Model \<Rightarrow> Snapshot \<Rightarrow> method_defs \<Rightarrow> goerror option" where
  "validateModel appKey modelName model s defs =
     (let label = model_CanonicalLabel model; managerNames = map manager_Name (model_Managers model)
      in first_err
        [check (modelName = '''' \<or> label \<noteq> appKey @ ''.'' @ modelName)
           (errorf ''model key %q does not match canonical label %q'' [AStr modelName, AStr label]),
         check (model_Module model = '''' \<or> model_Qualname model = '''' \<or> model_FilePath model = '''' \<or>
                model_LineNumber model \<le> 0)
           (errorf ''model %s has incomplete source metadata'' [AStr label]),
         on_err (wrapf ''model %s source range: %w'' [AStr label])
           (validateRange (model_SourceRange model)),
         (case model_SourceRange model of
            None \<Rightarrow> Some (GoPanic ''nil source range'')
          | Some r \<Rightarrow> check (model_FilePath model \<noteq> sr_FilePath r \<or>
                             model_LineNumber model \<noteq> pos_Line (sr_Start r))
                        (errorf ''model %s has inconsistent source metadata'' [AStr label])),
         validateManagers defs label [] (model_Managers model),
         check (model_DefaultManager model \<notin> set managerNames)
           (errorf ''model %s default manager %q is not indexed''
              [AStr label, AStr (model_DefaultManager model)]),
         check_each (\<lambda>custom. check (custom \<notin> set managerNames)
             (errorf ''model %s custom manager %q is not indexed'' [AStr label, AStr custom]))
           (model_CustomManagers model),
         check_each (validateField label s) (model_Fields model),
         check_each (validateParent label) (model_Parents model),
         check (base_Name (model_BaseManager model) = '''' \<or>
                base_OwnerClass (model_BaseManager model) = '''')
           (errorf ''model %s has invalid base manager'' [AStr label]),
         validateModelMethods defs label [] (model_QuerySetMethods model),
         check_each (validateIndex label) (model_Indexes model),
         check_each (validateConstraint label) (model_Constraints model)])"

section \<open>What an accepted value satisfies\<close>

definition range_ok :: "SourceRange option \<Rightarrow> bool" where
  "range_ok r \<longleftrightarrow> (\<exists>s. r = Some s \<and> sr_FilePath s \<noteq> '''' \<and>
     0 < pos_Line (sr_Start s) \<and> 0 \<le> pos_Column (sr_Start s) \<and> 0 \<le> pos_Column (sr_End s) \<and>
     (pos_Line (sr_Start s) < pos_Line (sr_End s) \<or>
      pos_Line (sr_Start s) = pos_Line (sr_End s) \<and> pos_Column (sr_Start s) \<le> pos_Column (sr_End s)) \<and>
     length (sr_SourceDigest s) = 64 \<and> (\<forall>c \<in> set (sr_SourceDigest s). is_digest_byte c))"

lemma validateRange_Some:
  "validateRange (Some s) = None \<longleftrightarrow> sr_FilePath s \<noteq> '''' \<and>
     \<not> (pos_Line (sr_Start s) \<le> 0 \<or> pos_Column (sr_Start s) < 0 \<or>
        pos_Line (sr_End s) \<le> 0 \<or> pos_Column (sr_End s) < 0) \<and>
     \<not> (pos_Line (sr_End s) < pos_Line (sr_Start s) \<or> pos_Line (sr_End s) = pos_Line (sr_Start s) \<and>
        pos_Column (sr_End s) < pos_Column (sr_Start s)) \<and>
     length (sr_SourceDigest s) = 64 \<and> (\<forall>c \<in> set (sr_SourceDigest s). is_digest_byte c)"
  unfolding validateRange_def option.case first_err_None by (simp add: TrimBytes_empty)

lemma position_order:
  fixes a b c d :: int
  shows "\<not> (a \<le> 0 \<or> b < 0 \<or> c \<le> 0 \<or> d < 0) \<and> \<not> (c < a \<or> c = a \<and> d < b) \<longleftrightarrow>
    0 < a \<and> 0 \<le> b \<and> 0 \<le> d \<and> (a < c \<or> a = c \<and> b \<le> d)"
  by auto

lemma validateRange_iff [err_simps]: "validateRange r = None \<longleftrightarrow> range_ok r"
proof (cases r)
  case None
  then show ?thesis by (simp add: validateRange_def range_ok_def)
next
  case (Some s)
  note order = position_order [of "pos_Line (sr_Start s)" "pos_Column (sr_Start s)"
      "pos_Line (sr_End s)" "pos_Column (sr_End s)"]
  have "range_ok (Some s) \<longleftrightarrow> sr_FilePath s \<noteq> '''' \<and>
      (0 < pos_Line (sr_Start s) \<and> 0 \<le> pos_Column (sr_Start s) \<and> 0 \<le> pos_Column (sr_End s) \<and>
       (pos_Line (sr_Start s) < pos_Line (sr_End s) \<or> pos_Line (sr_Start s) = pos_Line (sr_End s) \<and>
        pos_Column (sr_Start s) \<le> pos_Column (sr_End s))) \<and>
      length (sr_SourceDigest s) = 64 \<and> (\<forall>c \<in> set (sr_SourceDigest s). is_digest_byte c)"
    by (simp add: range_ok_def)
  then show ?thesis unfolding Some validateRange_Some order [symmetric] by (simp only: conj_assoc)
qed

lemma validateManagerMethods_iff [err_simps]:
  "validateManagerMethods label mgr seen ms = None \<longleftrightarrow>
     (\<forall>m \<in> set ms. validateMethod m = None \<and> method_Name m \<notin> set seen) \<and> distinct (map method_Name ms)"
proof (induction ms arbitrary: seen)
  case (Cons m ms)
  show ?case unfolding seen_Cons [symmetric] Cons.IH [symmetric] by simp
qed simp

lemma check_resolved_method_iff [err_simps]:
  "check_resolved_method u i defs key = None \<longleftrightarrow>
     (\<exists>m. resolveQuerySetMethod defs key = Inr m \<and> validateMethod m = None)"
  by (simp add: check_resolved_method_def split: sum.split)

definition method_resolves :: "method_defs \<Rightarrow> MethodKey \<Rightarrow> bool" where
  "method_resolves defs key \<longleftrightarrow> (\<exists>m. resolveQuerySetMethod defs key = Inr m \<and> validateMethod m = None)"

lemma validateManagerBindings_iff [err_simps]:
  "validateManagerBindings defs label mgr seen bs = None \<longleftrightarrow>
     (\<forall>b \<in> set bs. method_resolves defs (bound_Method b) \<and> mkey_Name (bound_Method b) \<notin> set seen) \<and>
     distinct (map (\<lambda>b. mkey_Name (bound_Method b)) bs)"
proof (induction bs arbitrary: seen)
  case (Cons b bs)
  show ?case unfolding seen_Cons [symmetric] Cons.IH [symmetric]
    by (simp add: Let_def check_resolved_method_iff method_resolves_def)
qed simp

definition manager_ok :: "method_defs \<Rightarrow> Manager \<Rightarrow> bool" where
  "manager_ok defs m \<longleftrightarrow> manager_Name m \<noteq> '''' \<and> manager_OwnerClass m \<noteq> '''' \<and>
     manager_SourceRange m \<noteq> None \<and> range_ok (manager_SourceRange m) \<and>
     manager_QuerySetClass m \<noteq> Some '''' \<and>
     (\<forall>x \<in> set (manager_Methods m). validateMethod x = None) \<and>
     distinct (map method_Name (manager_Methods m)) \<and>
     (manager_QuerySetMethods m = [] \<or> manager_QuerySetClass m \<noteq> None) \<and>
     (\<forall>b \<in> set (manager_QuerySetMethods m). method_resolves defs (bound_Method b)) \<and>
     distinct (map (\<lambda>b. mkey_Name (bound_Method b)) (manager_QuerySetMethods m))"

lemma validateManagers_iff [err_simps]:
  "validateManagers defs label seen ms = None \<longleftrightarrow>
     (\<forall>m \<in> set ms. manager_ok defs m \<and> manager_Name m \<notin> set seen) \<and> distinct (map manager_Name ms)"
proof (induction ms arbitrary: seen)
  case (Cons m ms)
  show ?case unfolding seen_Cons [symmetric] Cons.IH [symmetric]
    by (simp add: Let_def err_simps manager_ok_def) blast
qed simp

lemma validateModelMethods_iff [err_simps]:
  "validateModelMethods defs label seen ks = None \<longleftrightarrow>
     (\<forall>k \<in> set ks. method_resolves defs k \<and> method_key (mkey_OwnerClass k) (mkey_Name k) \<notin> set seen) \<and>
     distinct (map (\<lambda>k. method_key (mkey_OwnerClass k) (mkey_Name k)) ks)"
proof (induction ks arbitrary: seen)
  case (Cons k ks)
  show ?case unfolding seen_Cons [symmetric] Cons.IH [symmetric]
    by (simp add: Let_def check_resolved_method_iff method_resolves_def)
qed simp

end
