(* ===== verification/Schema_Index.thy ===== *)
theory Schema_Index
  imports Schema_Validate
begin

text \<open>
  The index of one model (\<open>internal/schema/graph.go\<close>: \<open>buildModelIndex\<close> and its helpers). The code
  shares \<open>*FieldRef\<close> values between maps and compares them as pointers. Here the map
  \<open>mi_fields\<close> is the store of a model's field references and a pointer is a key of that store,
  the name of the field; the records are polymorphic in what they hold for the pointer, and the
  operations of the finished graph give out the reference itself. The pointer of a manager to its
  QuerySet is the key of \<open>mi_querySets\<close> in the same way, since \<open>buildModelIndex\<close> still adds
  methods to a QuerySet that a manager holds.
\<close>

section \<open>Types\<close>

datatype FieldAccessKind = FieldAccessDeclared | FieldAccessAttname | FieldAccessReverse

instantiation FieldAccessKind :: linorder
begin

fun kind_rank :: "FieldAccessKind \<Rightarrow> nat" where
  "kind_rank FieldAccessDeclared = 0"
| "kind_rank FieldAccessAttname = 1"
| "kind_rank FieldAccessReverse = 2"

definition less_eq_FieldAccessKind :: "FieldAccessKind \<Rightarrow> FieldAccessKind \<Rightarrow> bool" where
  "less_eq_FieldAccessKind a b \<longleftrightarrow> kind_rank a \<le> kind_rank b"

definition less_FieldAccessKind :: "FieldAccessKind \<Rightarrow> FieldAccessKind \<Rightarrow> bool" where
  "less_FieldAccessKind a b \<longleftrightarrow> kind_rank a < kind_rank b"

lemma kind_rank_inj: "kind_rank a = kind_rank b \<Longrightarrow> a = b"
  by (cases a; cases b) simp_all

instance
  by standard (auto simp: less_eq_FieldAccessKind_def less_FieldAccessKind_def intro: kind_rank_inj)

end

record 'f FieldAccess =
  fa_Name :: string
  fa_Kind :: FieldAccessKind
  fa_Field :: 'f

definition map_access :: "('f \<Rightarrow> 'g) \<Rightarrow> 'f FieldAccess \<Rightarrow> 'g FieldAccess" where
  "map_access f a = \<lparr>fa_Name = fa_Name a, fa_Kind = fa_Kind a, fa_Field = f (fa_Field a)\<rparr>"

datatype RelationContext = RelationQuery | RelationSelectRelated | RelationPrefetchRelated

definition relation_contexts :: "RelationContext list" where
  "relation_contexts = [RelationQuery, RelationSelectRelated, RelationPrefetchRelated]"

fun RelationContext_String :: "RelationContext \<Rightarrow> string" where
  "RelationContext_String RelationQuery = ''query''"
| "RelationContext_String RelationSelectRelated = ''select_related''"
| "RelationContext_String RelationPrefetchRelated = ''prefetch_related''"

record 'f relationIndex =
  rel_byName :: "'f FieldAccess gomap"
  rel_ordered :: "'f FieldAccess list"

text \<open>\<open>fref_related\<close> points to the index of the related model, by its canonical label.\<close>

record FieldRef =
  fref_field :: Field
  fref_related :: "string option"

record QuerySetRef =
  qs_class :: string
  qs_methods :: "Method gomap"
  qs_methodOrder :: "Method list"

record ManagerRef =
  mref_manager :: Manager
  mref_methods :: "Method gomap"
  mref_methodOrder :: "Method list"
  mref_querySet :: "string option"
  mref_querySetMethods :: "Method gomap"
  mref_querySetMethodOrder :: "Method list"

type_synonym field_ptr = string

record modelIndex =
  mi_name :: string
  mi_model :: Model
  mi_fields :: "FieldRef gomap"
  mi_attnames :: "field_ptr gomap"
  mi_queries :: "field_ptr gomap"
  mi_accessors :: "field_ptr gomap"
  mi_relations :: "RelationContext \<Rightarrow> field_ptr relationIndex"
  mi_managers :: "ManagerRef gomap"
  mi_querySets :: "QuerySetRef gomap"
  mi_queryAccess :: "field_ptr FieldAccess list"
  mi_instanceAccess :: "field_ptr FieldAccess list"
  mi_managerOrder :: "ManagerRef list"
  mi_querySetOrder :: "QuerySetRef list"
  mi_methodOrder :: "Method list"
  mi_queryByName :: "field_ptr FieldAccess gomap"
  mi_instanceByName :: "field_ptr FieldAccess gomap"

definition empty_index :: "string \<Rightarrow> Model \<Rightarrow> modelIndex" where
  "empty_index name model =
     \<lparr>mi_name = name, mi_model = model, mi_fields = [], mi_attnames = [], mi_queries = [],
      mi_accessors = [], mi_relations = (\<lambda>_. \<lparr>rel_byName = [], rel_ordered = []\<rparr>),
      mi_managers = [], mi_querySets = [], mi_queryAccess = [], mi_instanceAccess = [],
      mi_managerOrder = [], mi_querySetOrder = [], mi_methodOrder = [],
      mi_queryByName = [], mi_instanceByName = []\<rparr>"

section \<open>Access tables\<close>

text \<open>
  A map of accesses by name and the list of the same accesses. An access whose name is taken
  replaces the one that is there only if its kind is smaller.
\<close>

fun replaceAccess :: "'f FieldAccess list \<Rightarrow> 'f FieldAccess \<Rightarrow> 'f FieldAccess list" where
  "replaceAccess [] replacement = [replacement]"
| "replaceAccess (access # accesses) replacement =
     (if fa_Name access = fa_Name replacement then replacement # accesses
      else access # replaceAccess accesses replacement)"

type_synonym 'f access_table = "'f FieldAccess gomap \<times> 'f FieldAccess list"

definition table_add :: "'f FieldAccess \<Rightarrow> 'f access_table \<Rightarrow> 'f access_table" where
  "table_add access t =
     (if fa_Name access = '''' \<or> fa_Name access = ''+'' then t
      else (case map_of (fst t) (fa_Name access) of
              Some existing \<Rightarrow>
                if fa_Kind existing \<le> fa_Kind access then t
                else (gomap_put (fa_Name access) access (fst t), replaceAccess (snd t) access)
            | None \<Rightarrow> (gomap_put (fa_Name access) access (fst t), replaceAccess (snd t) access)))"

definition addAccess :: "string \<Rightarrow> FieldAccessKind \<Rightarrow> field_ptr \<Rightarrow> bool \<Rightarrow> modelIndex \<Rightarrow> modelIndex" where
  "addAccess name kind field query index =
     (let access = \<lparr>fa_Name = name, fa_Kind = kind, fa_Field = field\<rparr>
      in if query
         then (let t = table_add access (mi_queryByName index, mi_queryAccess index)
               in index\<lparr>mi_queryByName := fst t, mi_queryAccess := snd t\<rparr>)
         else (let t = table_add access (mi_instanceByName index, mi_instanceAccess index)
               in index\<lparr>mi_instanceByName := fst t, mi_instanceAccess := snd t\<rparr>))"

definition addRelation ::
    "RelationContext \<Rightarrow> string \<Rightarrow> FieldAccessKind \<Rightarrow> field_ptr \<Rightarrow> modelIndex \<Rightarrow> goerror + modelIndex" where
  "addRelation ctxt name kind field index =
     (if name = '''' \<or> name = ''+'' then Inr index
      else (let rels = mi_relations index ctxt;
                added = index\<lparr>mi_relations := (mi_relations index)(ctxt := rels\<lparr>rel_byName :=
                  gomap_put name \<lparr>fa_Name = name, fa_Kind = kind, fa_Field = field\<rparr> (rel_byName rels)\<rparr>)\<rparr>
            in case map_of (rel_byName rels) name of
                 Some existing \<Rightarrow>
                   if fa_Field existing \<noteq> field
                   then Inl (errorf ''model %s has duplicate %s relation name %q''
                               [AStr (model_CanonicalLabel (mi_model index)),
                                AStr (RelationContext_String ctxt), AStr name])
                   else if fa_Kind existing \<le> kind then Inr index
                   else Inr added
               | None \<Rightarrow> Inr added))"

definition access_key :: "'f FieldAccess \<Rightarrow> FieldAccessKind \<times> string" where
  "access_key a = (fa_Kind a, fa_Name a)"

definition accessLess :: "'f FieldAccess \<Rightarrow> 'f FieldAccess \<Rightarrow> bool" where
  "accessLess left right =
     (if fa_Kind left \<noteq> fa_Kind right then fa_Kind left < fa_Kind right
      else fa_Name left < fa_Name right)"

section \<open>The stages of buildModelIndex\<close>

definition zero_Field :: Field where
  "zero_Field = \<lparr>field_Type = '''', field_IsRelation = False, field_RelatedModel = None,
     field_RuntimeRelatedModel = None, field_Lookups = [], field_UnsupportedLookups = [],
     field_HelpText = '''', field_Name = '''', field_Attname = None, field_DBColumn = None,
     field_DBType = None, field_InternalType = '''', field_Null = False, field_DBIndex = False,
     field_Unique = False, field_PrimaryKey = False, field_EffectivePrimaryKey = False,
     field_Concrete = False, field_AutoCreated = False, field_RelationCardinality = None,
     field_RelationDirection = None, field_AccessorName = None, field_QueryName = None,
     field_SourceModel = '''', field_SourceModelAbstract = False, field_SourceRange = None,
     field_ParentLink = False, field_Transforms = [], field_LookupPaths = [],
     field_LookupPathsTruncated = False\<rparr>"

text \<open>Reading a Go map: a missing key gives the zero value.\<close>

definition model_field :: "Model \<Rightarrow> string \<Rightarrow> Field" where
  "model_field model name = (case map_of (model_Fields model) name of None \<Rightarrow> zero_Field | Some f \<Rightarrow> f)"

definition sortedFieldNames :: "Field gomap \<Rightarrow> string list" where
  "sortedFieldNames fs = sort (map fst fs)"

definition is_reverse :: "Field \<Rightarrow> bool" where
  "is_reverse f \<longleftrightarrow> field_RelationDirection f = Some ''reverse''"

definition claim_query_name :: "string \<Rightarrow> field_ptr \<Rightarrow> modelIndex \<Rightarrow> goerror + modelIndex" where
  "claim_query_name name ref index =
     (case map_of (mi_queries index) name of
        Some existing \<Rightarrow>
          if existing \<noteq> ref
          then Inl (errorf ''model %s has duplicate query name %q''
                      [AStr (model_CanonicalLabel (mi_model index)), AStr name])
          else Inr (index\<lparr>mi_queries := gomap_put name ref (mi_queries index)\<rparr>)
      | None \<Rightarrow> Inr (index\<lparr>mi_queries := gomap_put name ref (mi_queries index)\<rparr>))"

definition claim_attname :: "string \<Rightarrow> field_ptr \<Rightarrow> modelIndex \<Rightarrow> goerror + modelIndex" where
  "claim_attname name ref index =
     (if map_of (mi_attnames index) name \<noteq> None
      then Inl (errorf ''model %s has duplicate attname %q''
                  [AStr (model_CanonicalLabel (mi_model index)), AStr name])
      else Inr (index\<lparr>mi_attnames := gomap_put name ref (mi_attnames index)\<rparr>))"

definition claim_accessor :: "string \<Rightarrow> field_ptr \<Rightarrow> modelIndex \<Rightarrow> goerror + modelIndex" where
  "claim_accessor name ref index =
     (case map_of (mi_accessors index) name of
        Some existing \<Rightarrow>
          if existing \<noteq> ref
          then Inl (errorf ''model %s has duplicate accessor name %q''
                      [AStr (model_CanonicalLabel (mi_model index)), AStr name])
          else Inr (index\<lparr>mi_accessors := gomap_put name ref (mi_accessors index)\<rparr>)
      | None \<Rightarrow> Inr (index\<lparr>mi_accessors := gomap_put name ref (mi_accessors index)\<rparr>))"

definition when_some :: "'a option \<Rightarrow> ('a \<Rightarrow> 's \<Rightarrow> 'e + 's) \<Rightarrow> 's \<Rightarrow> 'e + 's" where
  "when_some p f s = (case p of None \<Rightarrow> Inr s | Some x \<Rightarrow> f x s)"

definition when_true :: "bool \<Rightarrow> ('s \<Rightarrow> 'e + 's) \<Rightarrow> 's \<Rightarrow> 'e + 's" where
  "when_true b f s = (if b then f s else Inr s)"

text \<open>The first loop over the field names: the field store and the three name maps.\<close>

definition index_field_names :: "Model \<Rightarrow> string \<Rightarrow> modelIndex \<Rightarrow> goerror + modelIndex" where
  "index_field_names model fieldName index =
     (let field = model_field model fieldName;
          index1 = index\<lparr>mi_fields := gomap_put fieldName
                     \<lparr>fref_field = field, fref_related = None\<rparr> (mi_fields index)\<rparr>
      in bind_err (claim_query_name fieldName fieldName index1) (\<lambda>index2.
         bind_err (when_some (nonempty (field_Attname field))
                     (\<lambda>attname. claim_attname attname fieldName) index2) (\<lambda>index3.
         when_true (is_reverse field) (\<lambda>index.
           bind_err (when_some (nonempty (field_QueryName field))
                       (\<lambda>name. claim_query_name name fieldName) index) (\<lambda>index.
           when_some (nonempty (field_AccessorName field))
             (\<lambda>name. claim_accessor name fieldName) index)) index3)))"

text \<open>QuerySet classes and their methods.\<close>

definition ensureQuerySet :: "string \<Rightarrow> modelIndex \<Rightarrow> modelIndex" where
  "ensureQuerySet cls index =
     (case map_of (mi_querySets index) cls of
        Some existing \<Rightarrow> index
      | None \<Rightarrow> index\<lparr>mi_querySets :=
          gomap_put cls \<lparr>qs_class = cls, qs_methods = [], qs_methodOrder = []\<rparr> (mi_querySets index)\<rparr>)"

definition add_queryset_method :: "string \<Rightarrow> string \<Rightarrow> Method \<Rightarrow> modelIndex \<Rightarrow> modelIndex" where
  "add_queryset_method cls name m index =
     (case map_of (mi_querySets index) cls of
        None \<Rightarrow> index
      | Some q \<Rightarrow> index\<lparr>mi_querySets := gomap_put cls
          (q\<lparr>qs_methods := gomap_put name m (qs_methods q),
             qs_methodOrder := qs_methodOrder q @ [m]\<rparr>) (mi_querySets index)\<rparr>)"

definition index_queryset_method :: "method_defs \<Rightarrow> MethodKey \<Rightarrow> modelIndex \<Rightarrow> goerror + modelIndex" where
  "index_queryset_method defs key index =
     (case resolveQuerySetMethod defs key of
        Inl e \<Rightarrow> Inl (wrapf ''model %s: %w'' [AStr (model_CanonicalLabel (mi_model index))] e)
      | Inr m \<Rightarrow>
          (let index' = add_queryset_method (method_OwnerClass m) (method_Name m) m
                          (ensureQuerySet (method_OwnerClass m) index)
           in Inr (index'\<lparr>mi_methodOrder := mi_methodOrder index' @ [m]\<rparr>)))"

definition method_sort_key :: "Method \<Rightarrow> string \<times> string" where
  "method_sort_key m = (method_Name m, method_OwnerClass m)"

definition sortMethods :: "Method list \<Rightarrow> Method list" where
  "sortMethods = sort_key method_sort_key"

text \<open>
  One binding of a manager. A manager with bindings but no QuerySet class would make the code
  dereference a nil pointer; \<open>validateModel\<close> has refused such a manager.
\<close>

definition index_binding ::
    "method_defs \<Rightarrow> string \<Rightarrow> BoundQuerySetMethod \<Rightarrow> modelIndex \<times> ManagerRef \<Rightarrow> goerror + modelIndex \<times> ManagerRef" where
  "index_binding defs managerName b st =
     (case st of (index, ref) \<Rightarrow>
      (let name = mkey_Name (bound_Method b)
       in case mref_querySet ref of
            None \<Rightarrow> Inl (GoPanic ''nil QuerySet'')
          | Some cls \<Rightarrow>
              bind_err
                (case Option.bind (map_of (mi_querySets index) cls) (\<lambda>q. map_of (qs_methods q) name) of
                   Some m \<Rightarrow> Inr (index, m)
                 | None \<Rightarrow>
                     (case resolveQuerySetMethod defs (bound_Method b) of
                        Inl e \<Rightarrow> Inl (wrapf ''model %s manager %s: %w''
                                       [AStr (model_CanonicalLabel (mi_model index)), AStr managerName] e)
                      | Inr m \<Rightarrow> Inr (add_queryset_method cls name m index, m)))
                (\<lambda>(index', m).
                   Inr (index',
                        if bound_AvailableOnManager b
                        then ref\<lparr>mref_querySetMethods := gomap_put name m (mref_querySetMethods ref),
                                 mref_querySetMethodOrder := mref_querySetMethodOrder ref @ [m]\<rparr>
                        else ref))))"

definition index_manager :: "method_defs \<Rightarrow> Manager \<Rightarrow> modelIndex \<Rightarrow> goerror + modelIndex" where
  "index_manager defs manager index =
     (let ref = \<lparr>mref_manager = manager,
                 mref_methods = fold (\<lambda>m. gomap_put (method_Name m) m) (manager_Methods manager) [],
                 mref_methodOrder = manager_Methods manager,
                 mref_querySet = manager_QuerySetClass manager,
                 mref_querySetMethods = [], mref_querySetMethodOrder = []\<rparr>;
          index1 = (case manager_QuerySetClass manager of
                      None \<Rightarrow> index | Some cls \<Rightarrow> ensureQuerySet cls index)
      in bind_err (fold_err (index_binding defs (manager_Name manager))
                     (manager_QuerySetMethods manager) (index1, ref))
           (\<lambda>(index2, ref2).
              let ref3 = ref2\<lparr>mref_methodOrder := sortMethods (mref_methodOrder ref2),
                              mref_querySetMethodOrder := sortMethods (mref_querySetMethodOrder ref2)\<rparr>
              in Inr (index2\<lparr>mi_managers := gomap_put (manager_Name manager) ref3 (mi_managers index2),
                             mi_managerOrder := mi_managerOrder index2 @ [ref3]\<rparr>)))"

text \<open>
  The second loop over the field names: what a field contributes to queries, to attribute access
  on instances and to the three relation contexts.
\<close>

definition or_name :: "string option \<Rightarrow> string \<Rightarrow> string" where
  "or_name p name = (case nonempty p of Some s \<Rightarrow> s | None \<Rightarrow> name)"

definition index_reverse_access :: "Field \<Rightarrow> field_ptr \<Rightarrow> modelIndex \<Rightarrow> goerror + modelIndex" where
  "index_reverse_access f ptr index =
     (let queryName = or_name (field_QueryName f) (field_Name f);
          instanceName = or_name (field_AccessorName f) (field_Name f);
          index1 = addAccess instanceName FieldAccessReverse ptr False
                     (addAccess queryName FieldAccessReverse ptr True index)
      in when_true (field_IsRelation f) (\<lambda>index.
           bind_err (addRelation RelationQuery queryName FieldAccessReverse ptr index) (\<lambda>index.
           bind_err (when_true (field_RelationCardinality f = Some ''one-to-one'' \<and>
                                field_RelatedModel f \<noteq> None)
                       (addRelation RelationSelectRelated queryName FieldAccessReverse ptr) index)
             (addRelation RelationPrefetchRelated instanceName FieldAccessReverse ptr))) index1)"

definition index_forward_access :: "Field \<Rightarrow> field_ptr \<Rightarrow> modelIndex \<Rightarrow> goerror + modelIndex" where
  "index_forward_access f ptr index =
     (let name = field_Name f;
          index1 = addAccess name FieldAccessDeclared ptr False
                     (addAccess name FieldAccessDeclared ptr True index);
          index2 = (if field_EffectivePrimaryKey f \<and> name \<noteq> ''pk''
                    then addAccess ''pk'' FieldAccessDeclared ptr False
                           (addAccess ''pk'' FieldAccessDeclared ptr True index1)
                    else index1)
      in bind_err (when_true (field_IsRelation f) (\<lambda>index.
           bind_err (addRelation RelationQuery name FieldAccessDeclared ptr index) (\<lambda>index.
           bind_err (when_true (field_RelatedModel f \<noteq> None \<and>
                                (field_RelationCardinality f = Some ''many-to-one'' \<or>
                                 field_RelationCardinality f = Some ''one-to-one''))
                       (addRelation RelationSelectRelated name FieldAccessDeclared ptr) index)
             (addRelation RelationPrefetchRelated name FieldAccessDeclared ptr))) index2)
         (\<lambda>index3. when_some (nonempty (field_Attname f)) (\<lambda>attname index.
            if attname = name then Inr index
            else when_true (field_IsRelation f)
                   (addRelation RelationQuery attname FieldAccessAttname ptr)
                   (addAccess attname FieldAccessAttname ptr False
                      (addAccess attname FieldAccessAttname ptr True index))) index3))"

definition index_field_access :: "string \<Rightarrow> modelIndex \<Rightarrow> goerror + modelIndex" where
  "index_field_access fieldName index =
     (case map_of (mi_fields index) fieldName of
        None \<Rightarrow> Inl (GoPanic ''nil field reference'')
      | Some ref \<Rightarrow>
          if is_reverse (fref_field ref) then index_reverse_access (fref_field ref) fieldName index
          else index_forward_access (fref_field ref) fieldName index)"

text \<open>The sorted listings.\<close>

definition order_relation :: "field_ptr relationIndex \<Rightarrow> field_ptr relationIndex" where
  "order_relation r = r\<lparr>rel_ordered := sort_key access_key (map snd (rel_byName r))\<rparr>"

definition finish_index :: "modelIndex \<Rightarrow> modelIndex" where
  "finish_index index =
     (let sorted_sets = map (\<lambda>(cls, q). (cls, q\<lparr>qs_methodOrder := sortMethods (qs_methodOrder q)\<rparr>))
            (mi_querySets index)
      in index\<lparr>mi_queryAccess := sort_key access_key (mi_queryAccess index),
               mi_instanceAccess := sort_key access_key (mi_instanceAccess index),
               mi_relations := (\<lambda>ctxt. order_relation (mi_relations index ctxt)),
               mi_managerOrder := sort_key (\<lambda>r. manager_Name (mref_manager r)) (mi_managerOrder index),
               mi_querySets := sorted_sets,
               mi_querySetOrder := sort_key qs_class (map snd sorted_sets),
               mi_methodOrder := sortMethods (mi_methodOrder index)\<rparr>)"

definition buildModelIndex :: "string \<Rightarrow> Model \<Rightarrow> method_defs \<Rightarrow> goerror + modelIndex" where
  "buildModelIndex name model defs =
     (let fieldNames = sortedFieldNames (model_Fields model)
      in bind_err (fold_err (index_field_names model) fieldNames (empty_index name model)) (\<lambda>index.
         bind_err (fold_err (index_queryset_method defs) (model_QuerySetMethods model) index) (\<lambda>index.
         bind_err (fold_err (index_manager defs) (model_Managers model) index) (\<lambda>index.
         bind_err (fold_err index_field_access fieldNames index) (\<lambda>index.
         Inr (finish_index index))))))"

end
