(* ===== verification/Schema_Listings.thy ===== *)
theory Schema_Listings
  imports Schema_Index
begin

text \<open>
  What \<open>buildModelIndex\<close> guarantees of its tables: a map by name and the listing that visitors
  range over hold the same entries, whatever the order in which the code came across them.

  The contract is the locale \<open>keyed_listing\<close>. Its two providers are the access tables
  (\<open>addAccess\<close>, where a smaller kind replaces an entry) and the tables that store a value under
  its name and append it to a slice (managers, QuerySet methods).
\<close>

section \<open>The contract\<close>

definition agrees :: "('v \<Rightarrow> string) \<Rightarrow> (string \<Rightarrow> 'v option) \<Rightarrow> 'v list \<Rightarrow> bool" where
  "agrees key m xs \<longleftrightarrow> distinct (map key xs) \<and> (\<forall>n v. m n = Some v \<longleftrightarrow> v \<in> set xs \<and> key v = n)"

lemma agrees_lookup: "agrees key m xs \<Longrightarrow> m n = Some v \<longleftrightarrow> v \<in> set xs \<and> key v = n"
  by (simp add: agrees_def)

lemma agrees_sort: "agrees key m xs \<Longrightarrow> agrees key m (sort_key k xs)"
  by (simp add: agrees_def)

lemma agrees_Nil [simp]: "agrees key m [] \<longleftrightarrow> m = Map.empty"
  by (auto simp: agrees_def fun_eq_iff)

locale keyed_listing =
  fixes key :: "'v \<Rightarrow> string"
    and start :: 't
    and add :: "'v \<Rightarrow> 't \<Rightarrow> 't"
    and lookup :: "'t \<Rightarrow> string \<Rightarrow> 'v option"
    and listing :: "'t \<Rightarrow> 'v list"
    and admits :: "'t \<Rightarrow> 'v \<Rightarrow> bool"
  assumes start_agrees: "agrees key (lookup start) (listing start)"
    and add_agrees: "agrees key (lookup t) (listing t) \<Longrightarrow> admits t v \<Longrightarrow>
          agrees key (lookup (add v t)) (listing (add v t))"
begin

lemma lookup_iff_listed:
  "agrees key (lookup t) (listing t) \<Longrightarrow> lookup t n = Some v \<longleftrightarrow> v \<in> set (listing t) \<and> key v = n"
  by (rule agrees_lookup)

text \<open>A loop of additions keeps the two views together as long as each addition is admitted.\<close>

lemma fold_agrees:
  assumes "agrees key (lookup t) (listing t)"
    and "\<And>ys v. prefix (ys @ [v]) vs \<Longrightarrow> admits (fold add ys t) v"
  shows "agrees key (lookup (fold add vs t)) (listing (fold add vs t))"
  using assms(2)
proof (induction vs rule: rev_induct)
  case Nil
  then show ?case using assms(1) by simp
next
  case (snoc v vs)
  have "agrees key (lookup (fold add vs t)) (listing (fold add vs t))"
    by (rule snoc.IH, rule snoc.prems) (rule prefix_order.trans [of _ vs], simp_all)
  moreover have "admits (fold add vs t) v" using snoc.prems by simp
  ultimately show ?case by (simp add: add_agrees)
qed

text \<open>Two tables that answer every lookup alike have the same sorted listing.\<close>

lemma sorted_listing_unique:
  assumes "agrees key (lookup t) (listing t)" "agrees key (lookup u) (listing u)"
    and "lookup t = lookup u" and "inj_on k (set (listing t))"
  shows "sort_key k (listing t) = sort_key k (listing u)"
proof (rule sort_key_unique)
  have "distinct (listing t)" "distinct (listing u)"
    using assms(1,2) by (auto simp: agrees_def distinct_map)
  moreover have "v \<in> set (listing t) \<longleftrightarrow> v \<in> set (listing u)" for v
    using lookup_iff_listed [OF assms(1), of "key v" v] lookup_iff_listed [OF assms(2), of "key v" v]
      assms(3) by simp
  ultimately show "mset (listing t) = mset (listing u)"
    by (simp add: set_eq_iff flip: set_eq_iff_mset_eq_distinct)
  show "distinct (map k (listing t))"
    using assms(4) \<open>distinct (listing t)\<close> by (simp add: distinct_map)
qed

end

section \<open>Access tables\<close>

lemma set_replaceAccess:
  "distinct (map fa_Name xs) \<Longrightarrow>
   set (replaceAccess xs r) = insert r {a \<in> set xs. fa_Name a \<noteq> fa_Name r}"
  by (induction xs) (auto simp: image_iff)

lemma names_replaceAccess:
  "map fa_Name (replaceAccess xs r) =
     (if fa_Name r \<in> fa_Name ` set xs then map fa_Name xs else map fa_Name xs @ [fa_Name r])"
  by (induction xs) auto

lemma replaceAccess_agrees:
  assumes "agrees fa_Name m xs"
  shows "agrees fa_Name (m(fa_Name r \<mapsto> r)) (replaceAccess xs r)"
proof -
  have "distinct (map fa_Name xs)" using assms by (simp add: agrees_def)
  then have "distinct (map fa_Name (replaceAccess xs r))"
    unfolding names_replaceAccess by auto
  moreover have "(m(fa_Name r \<mapsto> r)) n = Some v \<longleftrightarrow> v \<in> set (replaceAccess xs r) \<and> fa_Name v = n" for n v
    using agrees_lookup [OF assms, of n v] by (auto simp: set_replaceAccess [OF \<open>distinct (map fa_Name xs)\<close>])
  ultimately show ?thesis by (simp add: agrees_def)
qed

lemma table_add_agrees:
  "agrees fa_Name (map_of (fst t)) (snd t) \<Longrightarrow>
   agrees fa_Name (map_of (fst (table_add a t))) (snd (table_add a t))"
  by (simp add: table_add_def replaceAccess_agrees split: option.split)

interpretation access_table: keyed_listing fa_Name "([], [])" table_add "\<lambda>t. map_of (fst t)" snd "\<lambda>t a. True"
  by unfold_locales (simp_all add: table_add_agrees)

section \<open>Tables that append\<close>

definition append_entry :: "('v \<Rightarrow> string) \<Rightarrow> 'v \<Rightarrow> 'v gomap \<times> 'v list \<Rightarrow> 'v gomap \<times> 'v list" where
  "append_entry key v t = (gomap_put (key v) v (fst t), snd t @ [v])"

lemma append_entry_agrees:
  assumes "agrees key (map_of (fst t)) (snd t)" "map_of (fst t) (key v) = None"
  shows "agrees key (map_of (fst (append_entry key v t))) (snd (append_entry key v t))"
proof -
  have "key v \<notin> key ` set (snd t)"
    using assms(2) agrees_lookup [OF assms(1)] by (metis image_iff option.distinct(1))
  moreover have "map_of (fst t) n = Some w \<longleftrightarrow> w \<in> set (snd t) \<and> key w = n" for n w
    by (rule agrees_lookup [OF assms(1)])
  moreover have "distinct (map key (snd t))" using assms(1) by (simp add: agrees_def)
  ultimately show ?thesis
    by (auto simp: append_entry_def agrees_def image_iff)
qed

interpretation appended: keyed_listing key "([], [])" "append_entry key"
    "\<lambda>t. map_of (fst t)" snd "\<lambda>t v. map_of (fst t) (key v) = None"
  for key :: "'v \<Rightarrow> string"
  by unfold_locales (simp_all add: append_entry_agrees)

section \<open>What a loop of addAccess calls leaves in a table\<close>

definition entry_name_ok :: "string \<Rightarrow> bool" where
  "entry_name_ok n \<longleftrightarrow> n \<noteq> '''' \<and> n \<noteq> ''+''"

lemma table_add_lookup:
  "map_of (fst (table_add a t)) n =
     (if n = fa_Name a \<and> entry_name_ok n \<and>
         (case map_of (fst t) n of None \<Rightarrow> True | Some b \<Rightarrow> fa_Kind a < fa_Kind b)
      then Some a else map_of (fst t) n)"
  by (auto simp: table_add_def entry_name_ok_def not_le split: option.splits)

text \<open>The access that wins a name: of those with the name, the first whose kind is least.\<close>

definition winner :: "'f FieldAccess list \<Rightarrow> string \<Rightarrow> 'f FieldAccess option" where
  "winner entries n =
     (let named = filter (\<lambda>a. fa_Name a = n) entries
      in if entry_name_ok n \<and> named \<noteq> [] then Some (arg_min_list fa_Kind named) else None)"

lemma arg_min_list_append_one:
  fixes f :: "'a \<Rightarrow> 'b::linorder"
  shows "xs \<noteq> [] \<Longrightarrow> arg_min_list f (xs @ [a]) = (if f a < f (arg_min_list f xs) then a else arg_min_list f xs)"
proof (induction f xs rule: arg_min_list.induct)
  case (2 f x y zs)
  then show ?case by (auto simp: Let_def)
qed auto

lemma winner_append_one:
  "winner (entries @ [a]) n =
     (if n = fa_Name a \<and> entry_name_ok n \<and>
         (case winner entries n of None \<Rightarrow> True | Some b \<Rightarrow> fa_Kind a < fa_Kind b)
      then Some a else winner entries n)"
  by (auto simp: winner_def Let_def arg_min_list_append_one)

lemma fold_table_add_lookup:
  "map_of (fst (fold table_add entries ([], []))) n = winner entries n"
proof (induction entries arbitrary: n rule: rev_induct)
  case Nil
  then show ?case by (simp add: winner_def)
next
  case (snoc a entries)
  show ?case
    unfolding fold_append o_apply fold.simps id_apply table_add_lookup winner_append_one snoc.IH by (rule refl)
qed

lemma fold_table_add_agrees:
  "agrees fa_Name (map_of (fst (fold table_add entries ([], [])))) (snd (fold table_add entries ([], [])))"
  using access_table.fold_agrees [of "([], [])" entries] by simp

lemma winner_mem: "winner entries n = Some a \<Longrightarrow> a \<in> set entries \<and> fa_Name a = n \<and> entry_name_ok n"
  using arg_min_list_in [of "filter (\<lambda>a. fa_Name a = n) entries" fa_Kind]
  by (auto simp: winner_def Let_def split: if_splits)

lemma winner_least:
  assumes "winner entries n = Some a" "b \<in> set entries" "fa_Name b = n"
  shows "fa_Kind a \<le> fa_Kind b"
proof -
  let ?named = "filter (\<lambda>a. fa_Name a = n) entries"
  have b: "b \<in> set ?named" using assms(2,3) by simp
  have "a = arg_min_list fa_Kind ?named"
    using assms(1) by (auto simp: winner_def Let_def split: if_splits)
  moreover have "fa_Kind (arg_min_list fa_Kind ?named) = Min (fa_Kind ` set ?named)"
    using b by (intro f_arg_min_list_f) (metis empty_iff list.set(1))
  ultimately show ?thesis using b by simp
qed

lemma winner_exists:
  "b \<in> set entries \<Longrightarrow> entry_name_ok (fa_Name b) \<Longrightarrow> \<exists>a. winner entries (fa_Name b) = Some a"
  by (auto simp: winner_def Let_def filter_empty_conv)

section \<open>The field names\<close>

lemma claim_query_name_Inr:
  "claim_query_name n p index = Inr index' \<Longrightarrow>
   index' = index\<lparr>mi_queries := gomap_put n p (mi_queries index)\<rparr>"
  by (auto simp: claim_query_name_def split: option.splits if_splits)

lemma claim_attname_Inr:
  "claim_attname n p index = Inr index' \<Longrightarrow>
   index' = index\<lparr>mi_attnames := gomap_put n p (mi_attnames index)\<rparr>"
  by (auto simp: claim_attname_def split: if_splits)

lemma claim_accessor_Inr:
  "claim_accessor n p index = Inr index' \<Longrightarrow>
   index' = index\<lparr>mi_accessors := gomap_put n p (mi_accessors index)\<rparr>"
  by (auto simp: claim_accessor_def split: option.splits if_splits)

definition maps_to :: "(string \<times> field_ptr) list \<Rightarrow> FieldRef gomap \<Rightarrow> bool" where
  "maps_to names store \<longleftrightarrow> (\<forall>n p. map_of names n = Some p \<longrightarrow> map_of store p \<noteq> None)"

lemma maps_to_put [simp]:
  "maps_to names store \<Longrightarrow> map_of store p \<noteq> None \<Longrightarrow> maps_to (gomap_put n p names) store"
  by (auto simp: maps_to_def)

lemma maps_to_store [simp]: "maps_to names store \<Longrightarrow> maps_to names (gomap_put p r store)"
  by (auto simp: maps_to_def)

definition names_ok :: "Model \<Rightarrow> string list \<Rightarrow> modelIndex \<Rightarrow> bool" where
  "names_ok model names index \<longleftrightarrow> gomap_ok (mi_fields index) \<and>
     (\<forall>n. map_of (mi_fields index) n =
        (if n \<in> set names then Some \<lparr>fref_field = model_field model n, fref_related = None\<rparr> else None)) \<and>
     maps_to (mi_queries index) (mi_fields index) \<and> maps_to (mi_attnames index) (mi_fields index) \<and>
     maps_to (mi_accessors index) (mi_fields index)"

text \<open>A step may change the name maps only to point to the field it is about.\<close>

lemma when_some_Inr:
  assumes "when_some p f s = Inr s'" "Q s" "\<And>x s'. f x s = Inr s' \<Longrightarrow> Q s'"
  shows "Q s'"
  using assms by (auto simp: when_some_def split: option.splits)

lemma when_true_Inr:
  assumes "when_true b f s = Inr s'" "Q s" "\<And>s'. f s = Inr s' \<Longrightarrow> Q s'"
  shows "Q s'"
  using assms by (auto simp: when_true_def split: if_splits)

definition same_tables :: "modelIndex \<Rightarrow> modelIndex \<Rightarrow> bool" where
  "same_tables a b \<longleftrightarrow> mi_name a = mi_name b \<and> mi_model a = mi_model b \<and>
     mi_relations a = mi_relations b \<and>
     mi_queryByName a = mi_queryByName b \<and> mi_queryAccess a = mi_queryAccess b \<and>
     mi_instanceByName a = mi_instanceByName b \<and> mi_instanceAccess a = mi_instanceAccess b"

definition same_managers :: "modelIndex \<Rightarrow> modelIndex \<Rightarrow> bool" where
  "same_managers a b \<longleftrightarrow> mi_managers a = mi_managers b \<and> mi_managerOrder a = mi_managerOrder b"

definition same_querysets :: "modelIndex \<Rightarrow> modelIndex \<Rightarrow> bool" where
  "same_querysets a b \<longleftrightarrow> mi_querySets a = mi_querySets b \<and> mi_methodOrder a = mi_methodOrder b \<and>
     mi_querySetOrder a = mi_querySetOrder b"

definition same_names :: "modelIndex \<Rightarrow> modelIndex \<Rightarrow> bool" where
  "same_names a b \<longleftrightarrow> mi_fields a = mi_fields b \<and> mi_queries a = mi_queries b \<and>
     mi_attnames a = mi_attnames b \<and> mi_accessors a = mi_accessors b"

lemmas same_defs = same_tables_def same_managers_def same_querysets_def same_names_def

lemma index_field_names_step:
  assumes "names_ok model ys index" "index_field_names model n index = Inr index'"
  shows "names_ok model (ys @ [n]) index' \<and> same_tables index index' \<and> same_managers index index' \<and>
    same_querysets index index'"
proof -
  let ?ref = "\<lparr>fref_field = model_field model n, fref_related = None\<rparr>"
  define Q where "Q = (\<lambda>i. names_ok model (ys @ [n]) i \<and> same_tables index i \<and> same_managers index i \<and>
    same_querysets index i)"
  have claim_q: "Q i" if "Q j" "claim_query_name k n j = Inr i" for i j k
    using that claim_query_name_Inr [OF that(2)] by (simp add: Q_def names_ok_def same_defs)
  have claim_t: "Q i" if "Q j" "claim_attname k n j = Inr i" for i j k
    using that claim_attname_Inr [OF that(2)] by (simp add: Q_def names_ok_def same_defs)
  have claim_a: "Q i" if "Q j" "claim_accessor k n j = Inr i" for i j k
    using that claim_accessor_Inr [OF that(2)] by (simp add: Q_def names_ok_def same_defs)
  have "Q (index\<lparr>mi_fields := gomap_put n ?ref (mi_fields index)\<rparr>)"
    using assms(1) by (auto simp: Q_def names_ok_def same_defs)
  moreover obtain i2 i3 where
      "claim_query_name n n (index\<lparr>mi_fields := gomap_put n ?ref (mi_fields index)\<rparr>) = Inr i2"
    and 3: "when_some (nonempty (field_Attname (model_field model n))) (\<lambda>a. claim_attname a n) i2 = Inr i3"
    and 4: "when_true (is_reverse (model_field model n)) (\<lambda>index.
        bind_err (when_some (nonempty (field_QueryName (model_field model n)))
                    (\<lambda>name. claim_query_name name n) index) (\<lambda>index.
        when_some (nonempty (field_AccessorName (model_field model n)))
          (\<lambda>name. claim_accessor name n) index)) i3 = Inr index'"
    using assms(2) by (auto simp: index_field_names_def Let_def bind_err_Inr)
  ultimately have "Q i2" using claim_q by blast
  have "Q i3" by (rule when_some_Inr [where Q = Q, OF 3 \<open>Q i2\<close>]) (rule claim_t [OF \<open>Q i2\<close>])
  have "Q index'"
  proof (rule when_true_Inr [where Q = Q, OF 4 \<open>Q i3\<close>])
    fix s
    assume "bind_err (when_some (nonempty (field_QueryName (model_field model n)))
              (\<lambda>name. claim_query_name name n) i3) (\<lambda>index.
            when_some (nonempty (field_AccessorName (model_field model n)))
              (\<lambda>name. claim_accessor name n) index) = Inr s"
    then obtain i4 where a: "when_some (nonempty (field_QueryName (model_field model n)))
              (\<lambda>name. claim_query_name name n) i3 = Inr i4"
      and b: "when_some (nonempty (field_AccessorName (model_field model n)))
              (\<lambda>name. claim_accessor name n) i4 = Inr s"
      by (rule bind_err_InrE)
    have "Q i4" by (rule when_some_Inr [where Q = Q, OF a \<open>Q i3\<close>]) (rule claim_q [OF \<open>Q i3\<close>])
    show "Q s" by (rule when_some_Inr [where Q = Q, OF b \<open>Q i4\<close>]) (rule claim_a [OF \<open>Q i4\<close>])
  qed
  then show ?thesis by (simp add: Q_def)
qed

section \<open>The accesses of a field\<close>

definition query_entries :: "Field \<Rightarrow> field_ptr \<Rightarrow> field_ptr FieldAccess list" where
  "query_entries f p =
     (if is_reverse f
      then [\<lparr>fa_Name = or_name (field_QueryName f) (field_Name f), fa_Kind = FieldAccessReverse, fa_Field = p\<rparr>]
      else [\<lparr>fa_Name = field_Name f, fa_Kind = FieldAccessDeclared, fa_Field = p\<rparr>] @
           (if field_EffectivePrimaryKey f \<and> field_Name f \<noteq> ''pk''
            then [\<lparr>fa_Name = ''pk'', fa_Kind = FieldAccessDeclared, fa_Field = p\<rparr>] else []) @
           (case nonempty (field_Attname f) of
              None \<Rightarrow> []
            | Some attname \<Rightarrow> if attname = field_Name f then []
                else [\<lparr>fa_Name = attname, fa_Kind = FieldAccessAttname, fa_Field = p\<rparr>]))"

definition instance_entries :: "Field \<Rightarrow> field_ptr \<Rightarrow> field_ptr FieldAccess list" where
  "instance_entries f p =
     (if is_reverse f
      then [\<lparr>fa_Name = or_name (field_AccessorName f) (field_Name f), fa_Kind = FieldAccessReverse, fa_Field = p\<rparr>]
      else query_entries f p)"

definition query_table :: "modelIndex \<Rightarrow> field_ptr access_table" where
  "query_table index = (mi_queryByName index, mi_queryAccess index)"

definition instance_table :: "modelIndex \<Rightarrow> field_ptr access_table" where
  "instance_table index = (mi_instanceByName index, mi_instanceAccess index)"

definition rel_entry_ok :: "RelationContext \<Rightarrow> Field \<Rightarrow> bool" where
  "rel_entry_ok ctxt f \<longleftrightarrow> field_IsRelation f \<and>
     (ctxt = RelationSelectRelated \<longrightarrow> field_RelatedModel f \<noteq> None \<and>
        (field_RelationCardinality f = Some ''one-to-one'' \<or>
         field_RelationCardinality f = Some ''many-to-one'' \<and> \<not> is_reverse f))"

definition relation_entry_ok :: "FieldRef gomap \<Rightarrow> RelationContext \<Rightarrow> string \<Rightarrow> field_ptr FieldAccess \<Rightarrow> bool" where
  "relation_entry_ok store ctxt n a \<longleftrightarrow> fa_Name a = n \<and> entry_name_ok n \<and>
     (\<exists>ref. map_of store (fa_Field a) = Some ref \<and> rel_entry_ok ctxt (fref_field ref))"

definition relations_ok :: "modelIndex \<Rightarrow> bool" where
  "relations_ok index \<longleftrightarrow> (\<forall>ctxt. gomap_ok (rel_byName (mi_relations index ctxt)) \<and>
     (\<forall>n a. map_of (rel_byName (mi_relations index ctxt)) n = Some a \<longrightarrow>
        relation_entry_ok (mi_fields index) ctxt n a))"

text \<open>One step of the loop over the fields, as the rest of the index sees it.\<close>

definition access_step ::
    "field_ptr FieldAccess list \<Rightarrow> field_ptr FieldAccess list \<Rightarrow> modelIndex \<Rightarrow> modelIndex \<Rightarrow> bool" where
  "access_step qs is a b \<longleftrightarrow> query_table b = fold table_add qs (query_table a) \<and>
     instance_table b = fold table_add is (instance_table a) \<and>
     same_names a b \<and> same_managers a b \<and> same_querysets a b \<and> mi_name a = mi_name b \<and>
     mi_model a = mi_model b \<and> (relations_ok a \<longrightarrow> relations_ok b)"

lemma access_step_refl: "access_step [] [] a a"
  by (simp add: access_step_def same_defs)

lemma access_step_trans:
  "access_step qs is a b \<Longrightarrow> access_step qs' is' b c \<Longrightarrow> access_step (qs @ qs') (is @ is') a c"
  by (simp add: access_step_def same_defs)

lemma access_step_same_store: "access_step qs is a b \<Longrightarrow> mi_fields b = mi_fields a"
  by (simp add: access_step_def same_names_def)

lemma relations_ok_cong:
  "mi_relations a = mi_relations b \<Longrightarrow> mi_fields a = mi_fields b \<Longrightarrow> relations_ok a = relations_ok b"
  by (simp add: relations_ok_def)

lemma addAccess_query_step:
  "access_step [\<lparr>fa_Name = n, fa_Kind = k, fa_Field = p\<rparr>] [] a (addAccess n k p True a)"
  by (simp add: access_step_def same_defs addAccess_def query_table_def instance_table_def Let_def relations_ok_def)

lemma addAccess_instance_step:
  "access_step [] [\<lparr>fa_Name = n, fa_Kind = k, fa_Field = p\<rparr>] a (addAccess n k p False a)"
  by (simp add: access_step_def same_defs addAccess_def query_table_def instance_table_def Let_def relations_ok_def)

lemma addAccess_both_step:
  "access_step [\<lparr>fa_Name = n, fa_Kind = k, fa_Field = p\<rparr>] [\<lparr>fa_Name = m, fa_Kind = k, fa_Field = p\<rparr>] a
     (addAccess m k p False (addAccess n k p True a))"
  using access_step_trans [OF addAccess_query_step addAccess_instance_step] by simp

lemma addRelation_Inr:
  assumes "addRelation ctxt n k p index = Inr index'"
  shows "index' = index \<or> entry_name_ok n \<and>
    index' = index\<lparr>mi_relations := (mi_relations index)(ctxt := (mi_relations index ctxt)\<lparr>rel_byName :=
      gomap_put n \<lparr>fa_Name = n, fa_Kind = k, fa_Field = p\<rparr> (rel_byName (mi_relations index ctxt))\<rparr>)\<rparr>"
  using assms by (auto simp: addRelation_def Let_def entry_name_ok_def split: if_splits option.splits)

lemma addRelation_step:
  assumes "addRelation ctxt n k p index = Inr index'"
    and "map_of (mi_fields index) p = Some ref" "rel_entry_ok ctxt (fref_field ref)"
  shows "access_step [] [] index index'"
  using addRelation_Inr [OF assms(1)]
proof
  assume "index' = index"
  then show ?thesis by (simp add: access_step_refl)
next
  assume *: "entry_name_ok n \<and> index' = index\<lparr>mi_relations := (mi_relations index)(ctxt :=
    (mi_relations index ctxt)\<lparr>rel_byName :=
      gomap_put n \<lparr>fa_Name = n, fa_Kind = k, fa_Field = p\<rparr> (rel_byName (mi_relations index ctxt))\<rparr>)\<rparr>"
  then have "relation_entry_ok (mi_fields index) ctxt n \<lparr>fa_Name = n, fa_Kind = k, fa_Field = p\<rparr>"
    using assms(2,3) by (simp add: relation_entry_ok_def)
  then have "relations_ok index \<longrightarrow> relations_ok index'"
    using * by (auto simp: relations_ok_def)
  then show ?thesis
    using * by (simp add: access_step_def same_defs query_table_def instance_table_def)
qed

lemma access_step_bind:
  assumes "bind_err r f = Inr c" "\<And>b. r = Inr b \<Longrightarrow> access_step qs is a b"
    and "\<And>b. access_step qs is a b \<Longrightarrow> f b = Inr c \<Longrightarrow> access_step qs' is' b c"
  shows "access_step (qs @ qs') (is @ is') a c"
  using assms by (metis bind_err_InrE access_step_trans)

lemma when_true_step:
  assumes "when_true b f a = Inr c" "b \<Longrightarrow> f a = Inr c \<Longrightarrow> access_step [] [] a c"
  shows "access_step [] [] a c"
  using assms by (auto simp: when_true_def access_step_refl split: if_splits)

lemma reverse_access_step:
  assumes run: "index_reverse_access (fref_field ref) p index = Inr index'"
    and ref: "map_of (mi_fields index) p = Some ref" and rev: "is_reverse (fref_field ref)"
  shows "access_step (query_entries (fref_field ref) p) (instance_entries (fref_field ref) p) index index'"
proof -
  let ?f = "fref_field ref"
  let ?q = "or_name (field_QueryName ?f) (field_Name ?f)"
  let ?i = "or_name (field_AccessorName ?f) (field_Name ?f)"
  let ?start = "addAccess ?i FieldAccessReverse p False (addAccess ?q FieldAccessReverse p True index)"
  have first: "access_step (query_entries ?f p) (instance_entries ?f p) index ?start"
    using addAccess_both_step rev by (simp add: query_entries_def instance_entries_def)
  have "access_step [] [] ?start index'"
  proof (rule when_true_step)
    show "when_true (field_IsRelation ?f) (\<lambda>index.
           bind_err (addRelation RelationQuery ?q FieldAccessReverse p index) (\<lambda>index.
           bind_err (when_true (field_RelationCardinality ?f = Some ''one-to-one'' \<and>
                                field_RelatedModel ?f \<noteq> None)
                       (addRelation RelationSelectRelated ?q FieldAccessReverse p) index)
             (addRelation RelationPrefetchRelated ?i FieldAccessReverse p))) ?start = Inr index'"
      using run by (simp add: index_reverse_access_def Let_def)
  next
    assume isrel: "field_IsRelation ?f"
      and "bind_err (addRelation RelationQuery ?q FieldAccessReverse p ?start) (\<lambda>index.
           bind_err (when_true (field_RelationCardinality ?f = Some ''one-to-one'' \<and>
                                field_RelatedModel ?f \<noteq> None)
                       (addRelation RelationSelectRelated ?q FieldAccessReverse p) index)
             (addRelation RelationPrefetchRelated ?i FieldAccessReverse p)) = Inr index'"
    then obtain i1 i2 where
        1: "addRelation RelationQuery ?q FieldAccessReverse p ?start = Inr i1"
      and 2: "when_true (field_RelationCardinality ?f = Some ''one-to-one'' \<and> field_RelatedModel ?f \<noteq> None)
                (addRelation RelationSelectRelated ?q FieldAccessReverse p) i1 = Inr i2"
      and 3: "addRelation RelationPrefetchRelated ?i FieldAccessReverse p i2 = Inr index'"
      by (auto simp: bind_err_Inr)
    have s0: "map_of (mi_fields ?start) p = Some ref"
      using access_step_same_store [OF first] ref by simp
    have a1: "access_step [] [] ?start i1"
      by (rule addRelation_step [OF 1 s0]) (simp add: rel_entry_ok_def isrel)
    have s1: "map_of (mi_fields i1) p = Some ref" using access_step_same_store [OF a1] s0 by simp
    have a2: "access_step [] [] i1 i2"
      by (rule when_true_step [OF 2], rule addRelation_step [OF _ s1]) (auto simp: rel_entry_ok_def isrel)
    have s2: "map_of (mi_fields i2) p = Some ref" using access_step_same_store [OF a2] s1 by simp
    have "access_step [] [] i2 index'"
      by (rule addRelation_step [OF 3 s2]) (simp add: rel_entry_ok_def isrel)
    then show "access_step [] [] ?start index'"
      using access_step_trans [OF a1 access_step_trans [OF a2]] by simp
  qed
  from access_step_trans [OF first this] show ?thesis by simp
qed

lemma forward_relations_step:
  assumes isrel: "field_IsRelation (fref_field ref)" and fwd: "\<not> is_reverse (fref_field ref)"
    and store: "map_of (mi_fields a) p = Some ref"
    and run: "bind_err (addRelation RelationQuery n FieldAccessDeclared p a) (\<lambda>index.
       bind_err (when_true (field_RelatedModel (fref_field ref) \<noteq> None \<and>
                            (field_RelationCardinality (fref_field ref) = Some ''many-to-one'' \<or>
                             field_RelationCardinality (fref_field ref) = Some ''one-to-one''))
                   (addRelation RelationSelectRelated n FieldAccessDeclared p) index)
         (addRelation RelationPrefetchRelated n FieldAccessDeclared p)) = Inr c"
  shows "access_step [] [] a c"
proof -
  obtain i1 i2 where
      1: "addRelation RelationQuery n FieldAccessDeclared p a = Inr i1"
    and 2: "when_true (field_RelatedModel (fref_field ref) \<noteq> None \<and>
              (field_RelationCardinality (fref_field ref) = Some ''many-to-one'' \<or>
               field_RelationCardinality (fref_field ref) = Some ''one-to-one''))
              (addRelation RelationSelectRelated n FieldAccessDeclared p) i1 = Inr i2"
    and 3: "addRelation RelationPrefetchRelated n FieldAccessDeclared p i2 = Inr c"
    using run by (auto simp: bind_err_Inr)
  have a1: "access_step [] [] a i1"
    by (rule addRelation_step [OF 1 store]) (simp add: rel_entry_ok_def isrel)
  have s1: "map_of (mi_fields i1) p = Some ref" using access_step_same_store [OF a1] store by simp
  have a2: "access_step [] [] i1 i2"
    by (rule when_true_step [OF 2], rule addRelation_step [OF _ s1]) (auto simp: rel_entry_ok_def isrel fwd)
  have s2: "map_of (mi_fields i2) p = Some ref" using access_step_same_store [OF a2] s1 by simp
  have "access_step [] [] i2 c"
    by (rule addRelation_step [OF 3 s2]) (simp add: rel_entry_ok_def isrel)
  then show ?thesis using access_step_trans [OF a1 access_step_trans [OF a2]] by simp
qed

definition attname_entries :: "Field \<Rightarrow> field_ptr \<Rightarrow> field_ptr FieldAccess list" where
  "attname_entries f p =
     (case nonempty (field_Attname f) of
        None \<Rightarrow> []
      | Some attname \<Rightarrow> if attname = field_Name f then []
          else [\<lparr>fa_Name = attname, fa_Kind = FieldAccessAttname, fa_Field = p\<rparr>])"

definition declared_entries :: "Field \<Rightarrow> field_ptr \<Rightarrow> field_ptr FieldAccess list" where
  "declared_entries f p = [\<lparr>fa_Name = field_Name f, fa_Kind = FieldAccessDeclared, fa_Field = p\<rparr>] @
     (if field_EffectivePrimaryKey f \<and> field_Name f \<noteq> ''pk''
      then [\<lparr>fa_Name = ''pk'', fa_Kind = FieldAccessDeclared, fa_Field = p\<rparr>] else [])"

lemma forward_entries: "\<not> is_reverse f \<Longrightarrow> query_entries f p = declared_entries f p @ attname_entries f p"
  by (simp add: query_entries_def declared_entries_def attname_entries_def)

lemma attname_step:
  assumes store: "map_of (mi_fields a) p = Some ref"
    and run: "when_some (nonempty (field_Attname (fref_field ref))) (\<lambda>attname index.
      if attname = field_Name (fref_field ref) then Inr index
      else when_true (field_IsRelation (fref_field ref))
             (addRelation RelationQuery attname FieldAccessAttname p)
             (addAccess attname FieldAccessAttname p False
                (addAccess attname FieldAccessAttname p True index))) a = Inr c"
  shows "access_step (attname_entries (fref_field ref) p) (attname_entries (fref_field ref) p) a c"
proof (cases "nonempty (field_Attname (fref_field ref))")
  case None
  then show ?thesis using run by (simp add: when_some_def attname_entries_def access_step_refl)
next
  case (Some attname)
  show ?thesis
  proof (cases "attname = field_Name (fref_field ref)")
    case True
    then show ?thesis using run Some by (simp add: when_some_def attname_entries_def access_step_refl)
  next
    case False
    let ?b = "addAccess attname FieldAccessAttname p False (addAccess attname FieldAccessAttname p True a)"
    have first: "access_step (attname_entries (fref_field ref) p) (attname_entries (fref_field ref) p) a ?b"
      using addAccess_both_step Some False by (simp add: attname_entries_def)
    have s: "map_of (mi_fields ?b) p = Some ref" using access_step_same_store [OF first] store by simp
    have "access_step [] [] ?b c"
    proof (rule when_true_step)
      show "when_true (field_IsRelation (fref_field ref))
             (addRelation RelationQuery attname FieldAccessAttname p) ?b = Inr c"
        using run Some False by (simp add: when_some_def)
    next
      assume isrel: "field_IsRelation (fref_field ref)"
        and added: "addRelation RelationQuery attname FieldAccessAttname p ?b = Inr c"
      show "access_step [] [] ?b c"
        by (rule addRelation_step [OF added s]) (simp add: rel_entry_ok_def isrel)
    qed
    from access_step_trans [OF first this] show ?thesis by simp
  qed
qed

lemma declared_step:
  "access_step (declared_entries f p) (declared_entries f p) a
     (if field_EffectivePrimaryKey f \<and> field_Name f \<noteq> ''pk''
      then addAccess ''pk'' FieldAccessDeclared p False (addAccess ''pk'' FieldAccessDeclared p True
             (addAccess (field_Name f) FieldAccessDeclared p False
                (addAccess (field_Name f) FieldAccessDeclared p True a)))
      else addAccess (field_Name f) FieldAccessDeclared p False
             (addAccess (field_Name f) FieldAccessDeclared p True a))"
  using access_step_trans [OF addAccess_both_step addAccess_both_step] addAccess_both_step
  by (simp add: declared_entries_def)

lemma forward_access_step:
  assumes run: "index_forward_access (fref_field ref) p index = Inr index'"
    and ref: "map_of (mi_fields index) p = Some ref" and fwd: "\<not> is_reverse (fref_field ref)"
  shows "access_step (query_entries (fref_field ref) p) (query_entries (fref_field ref) p) index index'"
proof -
  let ?f = "fref_field ref"
  obtain i0 i1 where 0: "access_step (declared_entries ?f p) (declared_entries ?f p) index i0"
    and 1: "when_true (field_IsRelation ?f) (\<lambda>index.
       bind_err (addRelation RelationQuery (field_Name ?f) FieldAccessDeclared p index) (\<lambda>index.
       bind_err (when_true (field_RelatedModel ?f \<noteq> None \<and>
                            (field_RelationCardinality ?f = Some ''many-to-one'' \<or>
                             field_RelationCardinality ?f = Some ''one-to-one''))
                   (addRelation RelationSelectRelated (field_Name ?f) FieldAccessDeclared p) index)
         (addRelation RelationPrefetchRelated (field_Name ?f) FieldAccessDeclared p))) i0 = Inr i1"
    and 2: "when_some (nonempty (field_Attname ?f)) (\<lambda>attname index.
      if attname = field_Name ?f then Inr index
      else when_true (field_IsRelation ?f)
             (addRelation RelationQuery attname FieldAccessAttname p)
             (addAccess attname FieldAccessAttname p False
                (addAccess attname FieldAccessAttname p True index))) i1 = Inr index'"
    using run unfolding index_forward_access_def Let_def
    by (elim bind_err_InrE) (rule that [OF declared_step])
  have s0: "map_of (mi_fields i0) p = Some ref" using access_step_same_store [OF 0] ref by simp
  have a1: "access_step [] [] i0 i1"
    by (rule when_true_step [OF 1]) (rule forward_relations_step [OF _ fwd s0])
  have s1: "map_of (mi_fields i1) p = Some ref" using access_step_same_store [OF a1] s0 by simp
  from access_step_trans [OF 0 access_step_trans [OF a1 attname_step [OF s1 2]]]
  show ?thesis by (simp add: forward_entries [OF fwd])
qed

lemma index_field_access_step:
  assumes "index_field_access n index = Inr index'" "map_of (mi_fields index) n = Some ref"
  shows "access_step (query_entries (fref_field ref) n) (instance_entries (fref_field ref) n) index index'"
proof (cases "is_reverse (fref_field ref)")
  case True
  then show ?thesis using assms by (intro reverse_access_step) (simp_all add: index_field_access_def)
next
  case False
  then show ?thesis
    using assms forward_access_step [of ref n index index']
    by (simp add: index_field_access_def instance_entries_def)
qed

section \<open>QuerySets and managers\<close>

definition querysets_ok :: "modelIndex \<Rightarrow> bool" where
  "querysets_ok index \<longleftrightarrow> gomap_ok (mi_querySets index) \<and>
     (\<forall>cls q. map_of (mi_querySets index) cls = Some q \<longrightarrow> qs_class q = cls)"

definition manager_table :: "modelIndex \<Rightarrow> ManagerRef gomap \<times> ManagerRef list" where
  "manager_table index = (mi_managers index, mi_managerOrder index)"

abbreviation ref_name :: "ManagerRef \<Rightarrow> string" where
  "ref_name r \<equiv> manager_Name (mref_manager r)"

definition queryset_step :: "modelIndex \<Rightarrow> modelIndex \<Rightarrow> bool" where
  "queryset_step a b \<longleftrightarrow> same_names a b \<and> same_tables a b \<and> (querysets_ok a \<longrightarrow> querysets_ok b) \<and>
     set (map fst (mi_querySets a)) \<subseteq> set (map fst (mi_querySets b))"

lemma queryset_step_refl: "queryset_step a a"
  by (simp add: queryset_step_def same_defs)

lemma queryset_step_trans: "queryset_step a b \<Longrightarrow> queryset_step b c \<Longrightarrow> queryset_step a c"
  by (auto simp: queryset_step_def same_defs)

lemma queryset_step_updates [simp]:
  "queryset_step a (b\<lparr>mi_methodOrder := x\<rparr>) = queryset_step a b"
  "same_managers a (b\<lparr>mi_methodOrder := x\<rparr>) = same_managers a b"
  "queryset_step a (b\<lparr>mi_managers := y, mi_managerOrder := z\<rparr>) = queryset_step a b"
  by (simp_all add: queryset_step_def same_defs querysets_ok_def)

lemma ensureQuerySet_step:
  "queryset_step a (ensureQuerySet cls a)" "same_managers a (ensureQuerySet cls a)"
  "cls \<in> set (map fst (mi_querySets (ensureQuerySet cls a)))"
  by (auto simp: queryset_step_def same_defs ensureQuerySet_def querysets_ok_def fst_gomap_put
      map_of_eq_None_iff split: option.splits dest: map_of_SomeD intro: rev_image_eqI)

lemma add_queryset_method_step:
  "queryset_step a (add_queryset_method cls name m a)" "same_managers a (add_queryset_method cls name m a)"
  by (auto simp: queryset_step_def same_defs add_queryset_method_def querysets_ok_def fst_gomap_put
      split: option.splits)

lemma index_queryset_method_step:
  assumes "index_queryset_method defs key a = Inr b"
  shows "queryset_step a b \<and> same_managers a b"
proof -
  obtain m where b: "b = (let index' = add_queryset_method (method_OwnerClass m) (method_Name m) m
                          (ensureQuerySet (method_OwnerClass m) a)
           in index'\<lparr>mi_methodOrder := mi_methodOrder index' @ [m]\<rparr>)"
    using assms by (auto simp: index_queryset_method_def Let_def split: sum.splits)
  let ?i = "add_queryset_method (method_OwnerClass m) (method_Name m) m (ensureQuerySet (method_OwnerClass m) a)"
  have i: "queryset_step a ?i"
    by (rule queryset_step_trans [OF ensureQuerySet_step(1) add_queryset_method_step(1)])
  moreover have "same_managers a ?i"
    using ensureQuerySet_step(2) add_queryset_method_step(2) by (simp add: same_managers_def)
  ultimately show ?thesis by (simp add: b Let_def)
qed

definition binding_kept :: "modelIndex \<times> ManagerRef \<Rightarrow> modelIndex \<times> ManagerRef \<Rightarrow> bool" where
  "binding_kept s t \<longleftrightarrow> queryset_step (fst s) (fst t) \<and> same_managers (fst s) (fst t) \<and>
     mref_manager (snd t) = mref_manager (snd s) \<and> mref_querySet (snd t) = mref_querySet (snd s)"

lemma index_binding_kept:
  assumes "index_binding defs mgr b s = Inr t"
  shows "binding_kept s t"
proof -
  obtain index ref where s: "s = (index, ref)" by fastforce
  let ?name = "mkey_Name (bound_Method b)"
  obtain cls where cls: "mref_querySet ref = Some cls"
    using assms by (auto simp: s index_binding_def Let_def split: option.splits)
  have "bind_err
      (case Option.bind (map_of (mi_querySets index) cls) (\<lambda>q. map_of (qs_methods q) ?name) of
         Some m \<Rightarrow> Inr (index, m)
       | None \<Rightarrow>
           (case resolveQuerySetMethod defs (bound_Method b) of
              Inl e \<Rightarrow> Inl (wrapf ''model %s manager %s: %w''
                             [AStr (model_CanonicalLabel (mi_model index)), AStr mgr] e)
            | Inr m \<Rightarrow> Inr (add_queryset_method cls ?name m index, m)))
      (\<lambda>(index', m).
         Inr (index',
              if bound_AvailableOnManager b
              then ref\<lparr>mref_querySetMethods := gomap_put ?name m (mref_querySetMethods ref),
                       mref_querySetMethodOrder := mref_querySetMethodOrder ref @ [m]\<rparr>
              else ref)) = Inr t"
    using assms by (simp add: s cls index_binding_def Let_def)
  then obtain im where im: "(case Option.bind (map_of (mi_querySets index) cls) (\<lambda>q. map_of (qs_methods q) ?name) of
         Some m \<Rightarrow> Inr (index, m)
       | None \<Rightarrow>
           (case resolveQuerySetMethod defs (bound_Method b) of
              Inl e \<Rightarrow> Inl (wrapf ''model %s manager %s: %w''
                             [AStr (model_CanonicalLabel (mi_model index)), AStr mgr] e)
            | Inr m \<Rightarrow> Inr (add_queryset_method cls ?name m index, m))) = Inr im"
    and t: "t = (fst im, if bound_AvailableOnManager b
              then ref\<lparr>mref_querySetMethods := gomap_put ?name (snd im) (mref_querySetMethods ref),
                       mref_querySetMethodOrder := mref_querySetMethodOrder ref @ [snd im]\<rparr>
              else ref)"
    by (rule bind_err_InrE) (simp add: case_prod_unfold)
  have "fst im = index \<or> (\<exists>m. fst im = add_queryset_method cls ?name m index)"
    using im by (auto split: option.splits sum.splits)
  then show ?thesis
    using add_queryset_method_step queryset_step_refl
    by (auto simp: s t binding_kept_def same_managers_def)
qed

lemma index_manager_step:
  assumes "index_manager defs m a = Inr b"
  shows "queryset_step a b \<and>
    (\<exists>ref. mref_manager ref = m \<and> manager_table b = append_entry ref_name ref (manager_table a))"
proof -
  let ?ref = "\<lparr>mref_manager = m,
                 mref_methods = fold (\<lambda>m. gomap_put (method_Name m) m) (manager_Methods m) [],
                 mref_methodOrder = manager_Methods m,
                 mref_querySet = manager_QuerySetClass m,
                 mref_querySetMethods = [], mref_querySetMethodOrder = []\<rparr>"
  let ?a1 = "case manager_QuerySetClass m of None \<Rightarrow> a | Some cls \<Rightarrow> ensureQuerySet cls a"
  obtain st where run: "fold_err (index_binding defs (manager_Name m)) (manager_QuerySetMethods m) (?a1, ?ref) = Inr st"
    and b: "b = (let ref3 = (snd st)\<lparr>mref_methodOrder := sortMethods (mref_methodOrder (snd st)),
                              mref_querySetMethodOrder := sortMethods (mref_querySetMethodOrder (snd st))\<rparr>
              in (fst st)\<lparr>mi_managers := gomap_put (manager_Name m) ref3 (mi_managers (fst st)),
                             mi_managerOrder := mi_managerOrder (fst st) @ [ref3]\<rparr>)"
    using assms by (auto simp: index_manager_def Let_def bind_err_Inr)
  have a1: "queryset_step a ?a1" "same_managers a ?a1"
    using ensureQuerySet_step queryset_step_refl by (auto simp: same_managers_def split: option.splits)
  have "binding_kept (?a1, ?ref) st"
  proof (rule fold_err_inv [where P = "binding_kept (?a1, ?ref)", OF run])
    show "binding_kept (?a1, ?ref) (?a1, ?ref)"
      by (simp add: binding_kept_def queryset_step_refl same_managers_def)
  next
    fix x s s'
    assume "binding_kept (?a1, ?ref) s" "index_binding defs (manager_Name m) x s = Inr s'"
    then show "binding_kept (?a1, ?ref) s'"
      using index_binding_kept [of defs "manager_Name m" x s s'] queryset_step_trans
      by (auto simp: binding_kept_def same_managers_def)
  qed
  then have st: "queryset_step a (fst st)" "same_managers a (fst st)" "mref_manager (snd st) = m"
    using queryset_step_trans [OF a1(1)] a1(2) by (auto simp: binding_kept_def same_managers_def)
  let ?ref3 = "(snd st)\<lparr>mref_methodOrder := sortMethods (mref_methodOrder (snd st)),
                mref_querySetMethodOrder := sortMethods (mref_querySetMethodOrder (snd st))\<rparr>"
  have "queryset_step a b" using st(1) by (simp add: b Let_def)
  moreover have "mref_manager ?ref3 = m" using st(3) by simp
  moreover have "manager_table b = append_entry ref_name ?ref3 (manager_table a)"
    using st(2,3) by (simp add: b Let_def manager_table_def append_entry_def same_managers_def)
  ultimately show ?thesis by blast
qed

section \<open>The finished index\<close>

definition model_query_entries :: "Model \<Rightarrow> field_ptr FieldAccess list" where
  "model_query_entries model =
     concat (map (\<lambda>n. query_entries (model_field model n) n) (sortedFieldNames (model_Fields model)))"

definition model_instance_entries :: "Model \<Rightarrow> field_ptr FieldAccess list" where
  "model_instance_entries model =
     concat (map (\<lambda>n. instance_entries (model_field model n) n) (sortedFieldNames (model_Fields model)))"

text \<open>
  The specification of an index: its tables answer with the winning access of each name, and each
  listing holds exactly the entries of its map, in the order of the code's comparison.
\<close>

definition listed :: "('f FieldAccess) gomap \<Rightarrow> 'f FieldAccess list \<Rightarrow> bool" where
  "listed m xs \<longleftrightarrow> agrees fa_Name (map_of m) xs \<and> sorted (map access_key xs)"

definition index_spec :: "Model \<Rightarrow> modelIndex \<Rightarrow> bool" where
  "index_spec model index \<longleftrightarrow>
     mi_model index = model \<and>
     names_ok model (sortedFieldNames (model_Fields model)) index \<and>
     map_of (mi_queryByName index) = winner (model_query_entries model) \<and>
     listed (mi_queryByName index) (mi_queryAccess index) \<and>
     map_of (mi_instanceByName index) = winner (model_instance_entries model) \<and>
     listed (mi_instanceByName index) (mi_instanceAccess index) \<and>
     relations_ok index \<and>
     (\<forall>ctxt. listed (rel_byName (mi_relations index ctxt)) (rel_ordered (mi_relations index ctxt))) \<and>
     agrees ref_name (map_of (mi_managers index)) (mi_managerOrder index) \<and>
     sorted (map ref_name (mi_managerOrder index)) \<and>
     querysets_ok index"

lemma gomap_agrees_values:
  assumes "gomap_ok m" "\<And>n v. map_of m n = Some v \<Longrightarrow> key v = n"
  shows "agrees key (map_of m) (map snd m)"
proof -
  have keys: "map key (map snd m) = map fst m"
    using assms by (auto simp: gomap_ok_def)
  have "v \<in> set (map snd m) \<and> key v = n \<longleftrightarrow> map_of m n = Some v" for n v
    using assms gomap_lookup_iff [OF assms(1)] by force
  moreover have "distinct (map key (map snd m))"
    unfolding keys using assms(1) by (simp add: gomap_ok_def)
  ultimately show ?thesis unfolding agrees_def by blast
qed

lemma names_stage:
  assumes "fold_err (index_field_names model) names (empty_index name model) = Inr index"
  shows "names_ok model names index \<and> same_tables (empty_index name model) index \<and>
    same_managers (empty_index name model) index \<and> same_querysets (empty_index name model) index"
proof (rule fold_err_inv_prefix [where P = "\<lambda>ys i. names_ok model ys i \<and> same_tables (empty_index name model) i \<and>
    same_managers (empty_index name model) i \<and> same_querysets (empty_index name model) i", OF assms])
  show "names_ok model [] (empty_index name model) \<and> same_tables (empty_index name model) (empty_index name model) \<and>
    same_managers (empty_index name model) (empty_index name model) \<and>
    same_querysets (empty_index name model) (empty_index name model)"
    by (simp add: names_ok_def empty_index_def same_defs maps_to_def)
next
  fix ys n s s'
  assume inv: "names_ok model ys s \<and> same_tables (empty_index name model) s \<and>
    same_managers (empty_index name model) s \<and> same_querysets (empty_index name model) s"
    and run: "index_field_names model n s = Inr s'"
  show "names_ok model (ys @ [n]) s' \<and> same_tables (empty_index name model) s' \<and>
    same_managers (empty_index name model) s' \<and> same_querysets (empty_index name model) s'"
    using index_field_names_step [OF conjunct1 [OF inv] run] inv by (simp add: same_defs)
qed

lemma queryset_stage:
  assumes "fold_err (index_queryset_method defs) ks a = Inr b"
  shows "queryset_step a b \<and> same_managers a b"
proof (rule fold_err_inv [where P = "\<lambda>i. queryset_step a i \<and> same_managers a i", OF assms])
  show "queryset_step a a \<and> same_managers a a" by (simp add: queryset_step_refl same_managers_def)
next
  fix x s s'
  assume "queryset_step a s \<and> same_managers a s" "index_queryset_method defs x s = Inr s'"
  then show "queryset_step a s' \<and> same_managers a s'"
    using index_queryset_method_step [of defs x s s'] queryset_step_trans by (auto simp: same_managers_def)
qed

lemma manager_stage:
  assumes "fold_err (index_manager defs) ms a = Inr b"
  shows "queryset_step a b \<and>
    (\<exists>refs. map mref_manager refs = ms \<and> manager_table b = fold (append_entry ref_name) refs (manager_table a))"
proof (rule fold_err_inv_prefix [where P = "\<lambda>ys i. queryset_step a i \<and>
    (\<exists>refs. map mref_manager refs = ys \<and> manager_table i = fold (append_entry ref_name) refs (manager_table a))", OF assms])
  show "queryset_step a a \<and> (\<exists>refs. map mref_manager refs = [] \<and>
      manager_table a = fold (append_entry ref_name) refs (manager_table a))"
    by (simp add: queryset_step_refl)
next
  fix ys m s s'
  assume inv: "queryset_step a s \<and> (\<exists>refs. map mref_manager refs = ys \<and>
      manager_table s = fold (append_entry ref_name) refs (manager_table a))"
    and run: "index_manager defs m s = Inr s'"
  from inv obtain refs where refs: "map mref_manager refs = ys"
      "manager_table s = fold (append_entry ref_name) refs (manager_table a)" by blast
  from index_manager_step [OF run] obtain ref where ref: "queryset_step s s'" "mref_manager ref = m"
      "manager_table s' = append_entry ref_name ref (manager_table s)" by blast
  have "manager_table s' = fold (append_entry ref_name) (refs @ [ref]) (manager_table a)"
    using refs ref by simp
  moreover have "map mref_manager (refs @ [ref]) = ys @ [m]" using refs ref by simp
  ultimately show "queryset_step a s' \<and> (\<exists>refs. map mref_manager refs = ys @ [m] \<and>
      manager_table s' = fold (append_entry ref_name) refs (manager_table a))"
    using queryset_step_trans inv ref(1) by blast
qed

lemma appended_lookup:
  "map_of (fst (fold (append_entry key) vs t)) n = None \<longleftrightarrow> map_of (fst t) n = None \<and> n \<notin> key ` set vs"
  by (induction vs rule: rev_induct) (auto simp: append_entry_def)

lemma appended_distinct_agrees:
  assumes "distinct (map key vs)"
  shows "agrees key (map_of (fst (fold (append_entry key) vs ([], [])))) (snd (fold (append_entry key) vs ([], [])))"
proof (rule appended.fold_agrees)
  show "agrees key (map_of (fst ([], []))) (snd ([], []))" by simp
next
  fix ys v
  assume "prefix (ys @ [v]) vs"
  then show "map_of (fst (fold (append_entry key) ys ([], []))) (key v) = None"
    using assms unfolding appended_lookup by (auto simp: prefix_def)
qed

lemma access_stage:
  assumes run: "fold_err index_field_access names a = Inr b"
    and store: "\<And>n. n \<in> set names \<Longrightarrow> \<exists>ref. map_of (mi_fields a) n = Some ref \<and> fref_field ref = model_field model n"
  shows "access_step (concat (map (\<lambda>n. query_entries (model_field model n) n) names))
    (concat (map (\<lambda>n. instance_entries (model_field model n) n) names)) a b"
proof (rule fold_err_inv_prefix [where P = "\<lambda>ys i. access_step
      (concat (map (\<lambda>n. query_entries (model_field model n) n) ys))
      (concat (map (\<lambda>n. instance_entries (model_field model n) n) ys)) a i", OF run])
  show "access_step (concat (map (\<lambda>n. query_entries (model_field model n) n) []))
      (concat (map (\<lambda>n. instance_entries (model_field model n) n) [])) a a"
    by (simp add: access_step_refl)
next
  fix ys n s s'
  assume inv: "access_step (concat (map (\<lambda>n. query_entries (model_field model n) n) ys))
      (concat (map (\<lambda>n. instance_entries (model_field model n) n) ys)) a s"
    and n: "n \<in> set names" and run: "index_field_access n s = Inr s'"
  from store [OF n] obtain ref where ref: "map_of (mi_fields a) n = Some ref" "fref_field ref = model_field model n"
    by blast
  have "map_of (mi_fields s) n = Some ref" using access_step_same_store [OF inv] ref(1) by simp
  from access_step_trans [OF inv index_field_access_step [OF run this]]
  show "access_step (concat (map (\<lambda>n. query_entries (model_field model n) n) (ys @ [n])))
      (concat (map (\<lambda>n. instance_entries (model_field model n) n) (ys @ [n]))) a s'"
    by (simp add: ref(2))
qed

lemma relations_listed:
  assumes "relations_ok index"
  shows "listed (rel_byName (order_relation (mi_relations index c))) (rel_ordered (order_relation (mi_relations index c)))"
proof -
  have "agrees fa_Name (map_of (rel_byName (mi_relations index c))) (map snd (rel_byName (mi_relations index c)))"
    using assms by (intro gomap_agrees_values) (auto simp: relations_ok_def relation_entry_ok_def)
  then show ?thesis by (simp add: listed_def order_relation_def agrees_sort)
qed

lemma buildModelIndex_spec:
  assumes run: "buildModelIndex name model defs = Inr index"
    and managers: "distinct (map manager_Name (model_Managers model))"
  shows "index_spec model index"
proof -
  let ?names = "sortedFieldNames (model_Fields model)"
  let ?e = "empty_index name model"
  obtain i1 i2 i3 i4 where
      1: "fold_err (index_field_names model) ?names ?e = Inr i1"
    and 2: "fold_err (index_queryset_method defs) (model_QuerySetMethods model) i1 = Inr i2"
    and 3: "fold_err (index_manager defs) (model_Managers model) i2 = Inr i3"
    and 4: "fold_err index_field_access ?names i3 = Inr i4"
    and index: "index = finish_index i4"
    using run unfolding buildModelIndex_def Let_def by (elim bind_err_InrE) (rule that, auto)
  note s1 = names_stage [OF 1]
  note s2 = queryset_stage [OF 2]
  from manager_stage [OF 3] obtain refs where s3: "queryset_step i2 i3"
    and refs: "map mref_manager refs = model_Managers model"
    and table3: "manager_table i3 = fold (append_entry ref_name) refs (manager_table i2)" by blast
  have store: "mi_fields i3 = mi_fields i1" "names_ok model ?names i3"
    using s1 s2 s3 by (simp_all add: queryset_step_def same_names_def names_ok_def)
  have "\<exists>ref. map_of (mi_fields i3) n = Some ref \<and> fref_field ref = model_field model n" if "n \<in> set ?names" for n
    using store(2) that by (simp add: names_ok_def)
  note s4 = access_stage [OF 4 this]
  have tables3: "query_table i3 = ([], [])" "instance_table i3 = ([], [])" "mi_model i3 = model"
      "mi_relations i3 = mi_relations ?e"
    using s1 s2 s3 by (simp_all add: queryset_step_def same_defs query_table_def instance_table_def empty_index_def)
  then have rel: "relations_ok i4"
    using s4 by (simp add: access_step_def relations_ok_def empty_index_def)
  have q: "query_table i4 = fold table_add (model_query_entries model) ([], [])"
    and i: "instance_table i4 = fold table_add (model_instance_entries model) ([], [])"
    using s4 tables3 by (simp_all add: access_step_def model_query_entries_def model_instance_entries_def)
  have qs: "map_of (mi_queryByName i4) = winner (model_query_entries model)"
      "agrees fa_Name (map_of (mi_queryByName i4)) (mi_queryAccess i4)"
    using fold_table_add_lookup [of "model_query_entries model"] fold_table_add_agrees [of "model_query_entries model"] q
    by (auto simp: query_table_def simp flip: q)
  have "is": "map_of (mi_instanceByName i4) = winner (model_instance_entries model)"
      "agrees fa_Name (map_of (mi_instanceByName i4)) (mi_instanceAccess i4)"
    using fold_table_add_lookup [of "model_instance_entries model"] fold_table_add_agrees [of "model_instance_entries model"] i
    by (auto simp: instance_table_def simp flip: i)
  have "manager_table i2 = ([], [])"
    using s1 s2 by (simp add: same_managers_def manager_table_def empty_index_def)
  moreover have "distinct (map ref_name refs)"
    using managers refs by (metis (no_types, lifting) map_map comp_def map_eq_conv)
  ultimately have "agrees ref_name (map_of (fst (manager_table i3))) (snd (manager_table i3))"
    using appended_distinct_agrees [of ref_name refs] table3 by simp
  then have mgr: "agrees ref_name (map_of (mi_managers i4)) (mi_managerOrder i4)"
    using s4 by (simp add: access_step_def same_managers_def manager_table_def)
  have "querysets_ok i1" using s1 by (simp add: querysets_ok_def same_querysets_def empty_index_def)
  then have "querysets_ok i4"
    using s2 s3 s4 by (simp add: queryset_step_def access_step_def same_querysets_def querysets_ok_def)
  moreover have "names_ok model ?names i4" "mi_model i4 = model"
    using store(2) s4 tables3 by (simp_all add: access_step_def same_names_def names_ok_def)
  ultimately show ?thesis
    using qs "is" rel relations_listed [OF rel] mgr
    by (auto simp: index index_spec_def finish_index_def Let_def listed_def agrees_sort names_ok_def
        querysets_ok_def gomap_ok_def relations_ok_def order_relation_def case_prod_unfold map_of_map
        fun_eq_iff comp_def)
qed

end
