(* ===== verification/Go_Filepath.thy ===== *)
theory Go_Filepath
  imports Go_Strings
begin

text \<open>
  What the code uses of Go's package \<open>path/filepath\<close> on a Unix system, and the path helpers of
  \<open>internal/schema/graph.go\<close> built on it. \<open>filepath.EvalSymlinks\<close> asks the operating system, so it
  is a parameter: \<open>Some\<close> the resolved path, or \<open>None\<close> for an error.
\<close>

section \<open>Clean\<close>

text \<open>
  \<open>Clean\<close> drops empty and \<open>.\<close> elements and lets \<open>..\<close> remove the element before it; a \<open>..\<close> at the
  start stays in a relative path and is dropped in a rooted one. The second argument holds the
  elements kept so far, the last one first.
\<close>

fun clean_elements :: "bool \<Rightarrow> string list \<Rightarrow> string list \<Rightarrow> string list" where
  "clean_elements rooted out [] = rev out"
| "clean_elements rooted out (e # es) =
     (if e = '''' \<or> e = ''.'' then clean_elements rooted out es
      else if e = ''..'' then
        (case out of
           [] \<Rightarrow> clean_elements rooted (if rooted then [] else [''..'']) es
         | prev # rest \<Rightarrow> clean_elements rooted (if prev = ''..'' then ''..'' # out else rest) es)
      else clean_elements rooted (e # out) es)"

definition IsAbs :: "string \<Rightarrow> bool" where
  "IsAbs p \<longleftrightarrow> HasPrefix p ''/''"

definition path_elements :: "string \<Rightarrow> string list" where
  "path_elements p = clean_elements (IsAbs p) [] (split_byte (CHR ''/'') p)"

definition render_path :: "bool \<Rightarrow> string list \<Rightarrow> string" where
  "render_path rooted es =
     (if rooted then CHR ''/'' # join_byte (CHR ''/'') es
      else if es = [] then ''.'' else join_byte (CHR ''/'') es)"

definition Clean :: "string \<Rightarrow> string" where
  "Clean p = (if p = '''' then ''.'' else render_path (IsAbs p) (path_elements p))"

definition up_to_last_slash :: "string \<Rightarrow> string" where
  "up_to_last_slash p =
     (case LastIndexByte p (CHR ''/'') of None \<Rightarrow> [] | Some i \<Rightarrow> take (Suc i) p)"

definition filepath_Dir :: "string \<Rightarrow> string" where
  "filepath_Dir p = Clean (up_to_last_slash p)"

definition filepath_Base :: "string \<Rightarrow> string" where
  "filepath_Base p =
     (if p = '''' then ''.''
      else (let s = TrimRight (\<lambda>c. c = CHR ''/'') p;
                b = (case LastIndexByte s (CHR ''/'') of None \<Rightarrow> s | Some i \<Rightarrow> drop (Suc i) s)
            in if b = '''' then ''/'' else b))"

definition filepath_Join :: "string list \<Rightarrow> string" where
  "filepath_Join es =
     (case dropWhile (\<lambda>e. e = '''') es of [] \<Rightarrow> '''' | rest \<Rightarrow> Clean (join_byte (CHR ''/'') rest))"

text \<open>\<open>filepath.Ext\<close>: from the last dot of the last element on.\<close>

definition filepath_Ext :: "string \<Rightarrow> string" where
  "filepath_Ext p =
     (let b = (case LastIndexByte p (CHR ''/'') of None \<Rightarrow> p | Some i \<Rightarrow> drop (Suc i) p)
      in case LastIndexByte b (CHR ''.'') of None \<Rightarrow> '''' | Some i \<Rightarrow> drop i b)"

text \<open>
  \<open>filepath.Rel\<close>: both paths are cleaned, common leading elements are dropped, and what is left of
  the base turns into \<open>..\<close> elements. A \<open>..\<close> in the rest of the base, met while elements of the
  target are left, is an error, as is one rooted path and one relative path.
\<close>

fun strip_common :: "string list \<Rightarrow> string list \<Rightarrow> string list \<times> string list" where
  "strip_common (b # bs) (t # ts) = (if b = t then strip_common bs ts else (b # bs, t # ts))"
| "strip_common bs ts = (bs, ts)"

definition filepath_Rel :: "string \<Rightarrow> string \<Rightarrow> string option" where
  "filepath_Rel base targ =
     (if Clean targ = Clean base then Some ''.''
      else if IsAbs base \<noteq> IsAbs targ then None
      else (case strip_common (path_elements base) (path_elements targ) of
              (bs, ts) \<Rightarrow>
                if ts \<noteq> [] \<and> bs \<noteq> [] \<and> hd bs = ''..'' then None
                else Some (join_byte (CHR ''/'') (map (\<lambda>_. ''..'') bs @ ts))))"

section \<open>Lemmas about cleaned paths\<close>

lemma clean_elements_subseq:
  "subseq (clean_elements rooted out es) (rev out @ es)"
proof (induction rooted out es rule: clean_elements.induct)
  case (2 rooted out e es)
  have drop_e: "subseq (rev out @ es) (rev out @ e # es)"
    and drop_two: "\<And>x xs. out = x # xs \<Longrightarrow> subseq (rev xs @ es) (rev out @ e # es)"
    by (auto intro!: list_emb_append_mono)
  show ?case
  proof (cases "e = ''..'' \<and> out \<noteq> []")
    case True
    then obtain x xs where "out = x # xs" by (cases out) auto
    then show ?thesis
      using 2(3) [of x xs] drop_two [of x xs] True
      by (auto intro: subseq_order.trans)
  next
    case False
    then show ?thesis
      using 2(1,2,4) drop_e by (cases rooted; cases out) (auto intro: subseq_order.trans)
  qed
qed simp

definition plain_element :: "string \<Rightarrow> bool" where
  "plain_element e \<longleftrightarrow> e \<noteq> '''' \<and> e \<noteq> ''.'' \<and> e \<noteq> ''..'' \<and> CHR ''/'' \<notin> set e"

lemma clean_elements_plain:
  "(\<And>e. e \<in> set es \<Longrightarrow> plain_element e) \<Longrightarrow> clean_elements rooted out es = rev out @ es"
  by (induction es arbitrary: out) (auto simp: plain_element_def)

lemma clean_elements_rooted:
  "\<forall>e \<in> set out. plain_element e \<Longrightarrow> \<forall>e \<in> set es. CHR ''/'' \<notin> set e \<Longrightarrow>
   \<forall>e \<in> set (clean_elements True out es). plain_element e"
proof (induction es arbitrary: out)
  case (Cons e es)
  have slash: "CHR ''/'' \<notin> set e" "\<forall>e \<in> set es. CHR ''/'' \<notin> set e" using Cons.prems(2) by simp_all
  consider "e = '''' \<or> e = ''.''" | "e = ''..''" "out = []" | x xs where "e = ''..''" "out = x # xs"
    | "plain_element e"
  proof (cases "e = '''' \<or> e = ''.''")
    case not_skipped: False
    show ?thesis
    proof (cases "e = ''..''")
      case True
      then show ?thesis using that(2,3) by (cases out) simp_all
    next
      case False
      then show ?thesis using that(4) not_skipped slash(1) by (simp add: plain_element_def)
    qed
  qed (rule that(1))
  then show ?case
  proof cases
    case (3 x xs)
    then have "x \<noteq> ''..''" using Cons.prems(1) by (auto simp: plain_element_def)
    then show ?thesis using 3 Cons.IH [of xs] Cons.prems(1) slash by simp
  next
    case 4
    then have eq: "clean_elements True out (e # es) = clean_elements True (e # out) es"
      unfolding plain_element_def by simp
    have "\<forall>e \<in> set (e # out). plain_element e" using 4 Cons.prems(1) by simp
    from Cons.IH [OF this slash(2)] show ?thesis unfolding eq .
  next
    case 1
    then have eq: "clean_elements True out (e # es) = clean_elements True out es" by auto
    from Cons.IH [OF Cons.prems(1) slash(2)] show ?thesis unfolding eq .
  next
    case 2
    then have eq: "clean_elements True out (e # es) = clean_elements True [] es" by simp
    have "\<forall>e \<in> set []. plain_element e" by simp
    from Cons.IH [OF this slash(2)] show ?thesis unfolding eq .
  qed
qed simp

lemma path_elements_rooted: "IsAbs p \<Longrightarrow> e \<in> set (path_elements p) \<Longrightarrow> plain_element e"
  unfolding path_elements_def
  using clean_elements_rooted [of "[]" "split_byte (CHR ''/'') p"] by (auto dest: split_byte_pieces)

lemma IsAbs_simps [simp]: "\<not> IsAbs []" "IsAbs (c # p) \<longleftrightarrow> c = CHR ''/''"
  by (auto simp: IsAbs_def HasPrefix_def)

lemma Clean_rooted: "IsAbs p \<Longrightarrow> Clean p = CHR ''/'' # join_byte (CHR ''/'') (path_elements p)"
  by (cases p) (auto simp: Clean_def render_path_def)

lemma path_elements_Clean_rooted:
  assumes "IsAbs p"
  shows "path_elements (Clean p) = path_elements p"
proof (cases "path_elements p = []")
  case True
  then show ?thesis using assms by (simp add: Clean_rooted path_elements_def)
next
  case False
  have plain: "e \<in> set (path_elements p) \<Longrightarrow> plain_element e" for e
    using assms by (rule path_elements_rooted)
  then have "split_byte (CHR ''/'') (join_byte (CHR ''/'') (path_elements p)) = path_elements p"
    using False by (intro split_join_byte) (auto simp: plain_element_def)
  then show ?thesis
    using assms plain by (simp add: Clean_rooted path_elements_def [of "_ # _"] clean_elements_plain)
qed

lemma Clean_rooted_eq_iff:
  "IsAbs p \<Longrightarrow> IsAbs q \<Longrightarrow> Clean p = Clean q \<longleftrightarrow> path_elements p = path_elements q"
  by (metis Clean_rooted path_elements_Clean_rooted)

lemma IsAbs_Clean_rooted [simp]: "IsAbs p \<Longrightarrow> IsAbs (Clean p)"
  by (simp add: Clean_rooted)

lemma Clean_Clean_rooted [simp]: "IsAbs p \<Longrightarrow> Clean (Clean p) = Clean p"
  by (simp add: Clean_rooted_eq_iff path_elements_Clean_rooted)

text \<open>Cleaning a path changes it only by making it shorter, unless nothing is left of it.\<close>

lemma elements_size:
  assumes "es = clean_elements rooted [] qs"
  shows "joined_size es \<le> joined_size qs \<and> (joined_size es = joined_size qs \<longrightarrow> es = qs)"
  using clean_elements_subseq [of rooted "[]" qs] assms by (intro joined_size_subseq) simp

lemma Clean_shrinks_rooted:
  assumes "IsAbs p"
  shows "Clean p = p \<or> length (Clean p) < length p"
proof -
  obtain q where p: "p = CHR ''/'' # q" using assms by (cases p) auto
  let ?es = "path_elements p" and ?qs = "split_byte (CHR ''/'') q"
  have "?es = clean_elements True [] ?qs" using p by (simp add: path_elements_def)
  note size = elements_size [OF this]
  show ?thesis
  proof (cases "?es = [] \<or> ?es = ?qs")
    case True
    then show ?thesis
    proof
      assume "?es = []"
      then show ?thesis using p assms by (cases q) (simp_all add: Clean_rooted)
    next
      assume "?es = ?qs"
      then have "Clean p = CHR ''/'' # join_byte (CHR ''/'') ?qs" using assms by (simp only: Clean_rooted)
      then show ?thesis using p by simp
    qed
  next
    case False
    then have "joined_size ?es < Suc (length q)" using size by auto
    moreover have "Suc (length (join_byte (CHR ''/'') ?es)) = joined_size ?es"
      using False by (intro length_join_byte) simp
    ultimately show ?thesis using assms p by (simp add: Clean_rooted)
  qed
qed

lemma Clean_shrinks_relative:
  assumes "\<not> IsAbs p"
  shows "Clean p = ''.'' \<or> Clean p = p \<or> length (Clean p) < length p"
proof -
  let ?es = "path_elements p" and ?qs = "split_byte (CHR ''/'') p"
  have "?es = clean_elements False [] ?qs" using assms by (simp add: path_elements_def)
  note size = elements_size [OF this]
  show ?thesis
  proof (cases "p = '''' \<or> ?es = [] \<or> ?es = ?qs")
    case True
    then show ?thesis using assms by (auto simp: Clean_def render_path_def)
  next
    case False
    then have "joined_size ?es < Suc (length p)" using size by auto
    moreover have "Suc (length (join_byte (CHR ''/'') ?es)) = joined_size ?es"
      using False by (intro length_join_byte) simp
    ultimately show ?thesis using assms False by (simp add: Clean_def render_path_def)
  qed
qed

lemma up_to_last_slash_prefix: "up_to_last_slash p = p \<or> length (up_to_last_slash p) < length p"
  by (cases p) (auto simp: up_to_last_slash_def split: option.splits dest!: LastIndexByte_Some)

lemma Dir_shrinks: "filepath_Dir p \<noteq> p \<Longrightarrow> filepath_Dir p = ''.'' \<or> length (filepath_Dir p) < length p"
  using up_to_last_slash_prefix [of p] Clean_shrinks_rooted [of "up_to_last_slash p"]
    Clean_shrinks_relative [of "up_to_last_slash p"]
  unfolding filepath_Dir_def by (cases "IsAbs (up_to_last_slash p)") fastforce+

section \<open>The path helpers of the schema package\<close>

text \<open>
  \<open>ResolvedPath\<close> cleans the path and resolves symbolic links; when the path itself cannot be
  resolved it climbs to the closest ancestor that can, and appends the elements below it.
\<close>

function resolve_ancestor :: "(string \<Rightarrow> string option) \<Rightarrow> string \<Rightarrow> string \<Rightarrow> string list \<Rightarrow> string" where
  "resolve_ancestor ev path ancestor suff =
     (let parent = filepath_Dir ancestor
      in if parent = ancestor then path
         else (let suff' = filepath_Base ancestor # suff
               in case ev parent of
                    Some resolved \<Rightarrow> Clean (filepath_Join (resolved # suff'))
                  | None \<Rightarrow> resolve_ancestor ev path parent suff'))"
  by pat_completeness auto
termination
proof (relation "measure (\<lambda>(ev, path, ancestor, suff). if ancestor = ''.'' then 0 else Suc (length ancestor))",
    goal_cases)
  case (2 ev path ancestor x xa)
  have "ancestor \<noteq> ''.''" using 2(1,2) by (auto simp: filepath_Dir_def up_to_last_slash_def Clean_def)
  then show ?case using 2 Dir_shrinks [of ancestor] by auto
qed simp

declare resolve_ancestor.simps [simp del]

definition ResolvedPath :: "(string \<Rightarrow> string option) \<Rightarrow> string \<Rightarrow> string" where
  "ResolvedPath ev p =
     (let path = Clean p
      in case ev path of
           Some resolved \<Rightarrow> Clean resolved
         | None \<Rightarrow> resolve_ancestor ev path path [])"

text \<open>The model is that of a system other than Windows, where paths compare by their bytes.\<close>

definition SamePath :: "string \<Rightarrow> string \<Rightarrow> bool" where
  "SamePath left right \<longleftrightarrow> left = right"

definition sourceClassKey :: "string \<Rightarrow> string \<Rightarrow> string" where
  "sourceClassKey filePath qualname = Clean filePath @ CHR 0x00 # qualname"

definition PathWithin :: "string \<Rightarrow> string \<Rightarrow> bool" where
  "PathWithin root candidate =
     (case filepath_Rel root candidate of
        None \<Rightarrow> False
      | Some relative \<Rightarrow>
          if relative = ''..'' \<or> IsAbs relative then False
          else relative \<noteq> '''' \<and> relative \<noteq> ''.'' \<and> \<not> HasPrefix relative ''../'' \<or> relative = ''.'')"

lemma strip_common_spec:
  "strip_common bs ts = (bs', ts') \<Longrightarrow>
   \<exists>cs. bs = cs @ bs' \<and> ts = cs @ ts' \<and> (bs' = [] \<or> ts' = [] \<or> hd bs' \<noteq> hd ts')"
proof (induction bs ts rule: strip_common.induct)
  case (1 b bs t ts)
  show ?case
  proof (cases "b = t")
    case True
    then obtain cs where "bs = cs @ bs'" "ts = cs @ ts'" "bs' = [] \<or> ts' = [] \<or> hd bs' \<noteq> hd ts'"
      using 1 by auto
    then show ?thesis using True by (intro exI [of _ "b # cs"]) simp
  next
    case False
    then show ?thesis using 1(2) by auto
  qed
qed auto

lemma plain_join_not_up:
  assumes "ts \<noteq> []" and plain: "\<And>e. e \<in> set ts \<Longrightarrow> plain_element e"
  defines "r \<equiv> join_byte (CHR ''/'') ts"
  shows "r \<noteq> ''..'' \<and> r \<noteq> '''' \<and> r \<noteq> ''.'' \<and> \<not> IsAbs r \<and> \<not> HasPrefix r ''../''"
proof -
  have split: "split_byte (CHR ''/'') r = ts"
    unfolding r_def using assms by (intro split_join_byte) (auto simp: plain_element_def)
  have hd: "hd ts \<noteq> ''..''" "hd ts \<noteq> ''''" "hd ts \<noteq> ''.''"
    using assms(1) plain [of "hd ts"] by (auto simp: plain_element_def)
  have "\<not> HasPrefix r ''../''"
  proof
    assume "HasPrefix r ''../''"
    then obtain s where "r = ''..'' @ CHR ''/'' # s" by (auto simp: HasPrefix_iff prefix_def)
    then have "split_byte (CHR ''/'') r = ''..'' # split_byte (CHR ''/'') s" by simp
    then show False using split hd by auto
  qed
  moreover have "\<not> IsAbs r" using split hd by (cases r) auto
  ultimately show ?thesis using split hd by auto
qed

lemma join_up_is_up:
  fixes ts :: "string list"
  assumes "bs \<noteq> []"
  defines "r \<equiv> join_byte (CHR ''/'') (map (\<lambda>_. ''..'') bs @ ts)"
  shows "r = ''..'' \<or> HasPrefix r ''../''"
proof -
  obtain b bs' where bs: "bs = b # bs'" using assms(1) by (cases bs) auto
  let ?rest = "map (\<lambda>_. ''..'') bs' @ ts"
  show ?thesis
    by (cases "?rest = []") (auto simp: r_def bs join_byte_Cons HasPrefix_def)
qed

lemma PathWithin_rooted:
  assumes "IsAbs root" and "IsAbs candidate"
  shows "PathWithin root candidate \<longleftrightarrow> prefix (path_elements root) (path_elements candidate)"
proof (cases "path_elements root = path_elements candidate")
  case True
  then show ?thesis using assms by (simp add: PathWithin_def filepath_Rel_def Clean_rooted_eq_iff)
next
  case neq: False
  obtain bs ts where strip: "strip_common (path_elements root) (path_elements candidate) = (bs, ts)"
    by force
  then obtain cs where cs: "path_elements root = cs @ bs" "path_elements candidate = cs @ ts"
      "bs = [] \<or> ts = [] \<or> hd bs \<noteq> hd ts"
    using strip_common_spec by blast
  have rel: "filepath_Rel root candidate =
      (if ts \<noteq> [] \<and> bs \<noteq> [] \<and> hd bs = ''..'' then None
       else Some (join_byte (CHR ''/'') (map (\<lambda>_. ''..'') bs @ ts)))"
    using assms neq strip by (simp add: filepath_Rel_def Clean_rooted_eq_iff)
  show ?thesis
  proof (cases "bs = []")
    case True
    then have "ts \<noteq> []" using neq cs by auto
    moreover have "plain_element e" if "e \<in> set ts" for e
      using that cs(2) assms(2) by (auto intro: path_elements_rooted)
    ultimately show ?thesis
      using True rel cs plain_join_not_up [of ts] by (simp add: PathWithin_def)
  next
    case False
    then have "\<not> prefix (path_elements root) (path_elements candidate)"
      using cs by (cases bs; cases ts) auto
    moreover have "\<not> PathWithin root candidate"
      using rel join_up_is_up [OF False, of ts]
      by (auto simp: PathWithin_def HasPrefix_def split: if_splits)
    ultimately show ?thesis by simp
  qed
qed

end
