(* ===== verification/Schema_Graph.thy ===== *)
theory Schema_Graph
  imports Schema_Index Go_Filepath
begin

text \<open>
  The schema graph (\<open>internal/schema/graph.go\<close>): \<open>Build\<close> and every operation on a \<open>*Graph\<close> and on
  the references it gives out. The graph owns the model indexes in \<open>g_canonical\<close>, and a pointer
  to an index is the canonical label it is stored under, as \<open>Build\<close> refuses a second index with
  the same label. A \<open>*Graph\<close> may be nil, so it is a \<open>Graph option\<close>. An operation that returns a
  value and an \<open>ok\<close> flag returns an option.

  \<open>filepath.EvalSymlinks\<close> and \<open>filepath.Abs\<close> ask the operating system: they are the parameters
  \<open>ev\<close> and \<open>absf\<close>.
\<close>

section \<open>Copying the snapshot\<close>

text \<open>
  \<open>Build\<close> works on a deep copy. Each copy function here rebuilds what the code rebuilds, field by
  field. Copies of slices and of values behind pointers are values again.
\<close>

definition clonePointer :: "'a option \<Rightarrow> 'a option" where
  "clonePointer p = (case p of None \<Rightarrow> None | Some v \<Rightarrow> Some v)"

definition cloneSlice :: "'a list \<Rightarrow> 'a list" where
  "cloneSlice values = take (length values) values"

definition cloneStrings :: "string list \<Rightarrow> string list" where
  "cloneStrings values = [] @ values"

definition cloneMap :: "('v \<Rightarrow> 'v) \<Rightarrow> 'v gomap \<Rightarrow> 'v gomap" where
  "cloneMap f m = fold (\<lambda>(k, v). gomap_put k (f v)) m []"

definition cloneLookupPath :: "LookupPath \<Rightarrow> LookupPath" where
  "cloneLookupPath p = \<lparr>path_Transforms = cloneStrings (path_Transforms p),
     path_Kinds = cloneStrings (path_Kinds p), path_Lookups = cloneStrings (path_Lookups p)\<rparr>"

definition cloneMethod :: "Method \<Rightarrow> Method" where
  "cloneMethod m = m\<lparr>method_Signature := clonePointer (method_Signature m),
     method_Docstring := clonePointer (method_Docstring m),
     method_SourceRange := clonePointer (method_SourceRange m)\<rparr>"

definition cloneMethods :: "Method list \<Rightarrow> Method list" where
  "cloneMethods ms = map cloneMethod (cloneSlice ms)"

definition cloneManager :: "Manager \<Rightarrow> Manager" where
  "cloneManager m = m\<lparr>manager_QuerySetClass := clonePointer (manager_QuerySetClass m),
     manager_SourceRange := clonePointer (manager_SourceRange m),
     manager_Methods := cloneMethods (manager_Methods m),
     manager_QuerySetMethods := cloneSlice (manager_QuerySetMethods m)\<rparr>"

definition cloneField :: "Field \<Rightarrow> Field" where
  "cloneField f = f\<lparr>field_RelatedModel := clonePointer (field_RelatedModel f),
     field_RuntimeRelatedModel := clonePointer (field_RuntimeRelatedModel f),
     field_Lookups := cloneStrings (field_Lookups f),
     field_UnsupportedLookups := cloneStrings (field_UnsupportedLookups f),
     field_Attname := clonePointer (field_Attname f),
     field_DBColumn := clonePointer (field_DBColumn f),
     field_DBType := clonePointer (field_DBType f),
     field_RelationCardinality := clonePointer (field_RelationCardinality f),
     field_RelationDirection := clonePointer (field_RelationDirection f),
     field_AccessorName := clonePointer (field_AccessorName f),
     field_QueryName := clonePointer (field_QueryName f),
     field_SourceRange := clonePointer (field_SourceRange f),
     field_Transforms := cloneStrings (field_Transforms f),
     field_LookupPaths := map cloneLookupPath (cloneSlice (field_LookupPaths f))\<rparr>"

definition cloneIndex :: "Index \<Rightarrow> Index" where
  "cloneIndex i = i\<lparr>ix_Fields := cloneSlice (ix_Fields i),
     ix_Expressions := cloneStrings (ix_Expressions i), ix_Condition := clonePointer (ix_Condition i),
     ix_Include := cloneStrings (ix_Include i), ix_Opclasses := cloneStrings (ix_Opclasses i),
     ix_DBTablespace := clonePointer (ix_DBTablespace i),
     ix_SourceRange := clonePointer (ix_SourceRange i)\<rparr>"

definition cloneConstraint :: "Constraint \<Rightarrow> Constraint" where
  "cloneConstraint c = c\<lparr>con_Fields := cloneStrings (con_Fields c),
     con_Expressions := cloneStrings (con_Expressions c),
     con_Condition := clonePointer (con_Condition c), con_Include := cloneStrings (con_Include c),
     con_Opclasses := cloneStrings (con_Opclasses c), con_Deferrable := clonePointer (con_Deferrable c),
     con_NullsDistinct := clonePointer (con_NullsDistinct c),
     con_ViolationErrorCode := clonePointer (con_ViolationErrorCode c),
     con_ViolationErrorMessage := clonePointer (con_ViolationErrorMessage c),
     con_SourceRange := clonePointer (con_SourceRange c)\<rparr>"

definition cloneModel :: "Model \<Rightarrow> Model" where
  "cloneModel m = m\<lparr>model_SourceRange := clonePointer (model_SourceRange m),
     model_Docstring := clonePointer (model_Docstring m),
     model_Parents := map (\<lambda>p. p\<lparr>parent_ParentLink := clonePointer (parent_ParentLink p),
        parent_SourceRange := clonePointer (parent_SourceRange p)\<rparr>) (cloneSlice (model_Parents m)),
     model_CustomManagers := cloneStrings (model_CustomManagers m),
     model_Managers := map cloneManager (cloneSlice (model_Managers m)),
     model_QuerySetMethods := cloneSlice (model_QuerySetMethods m),
     model_Indexes := map cloneIndex (cloneSlice (model_Indexes m)),
     model_Constraints := map cloneConstraint (cloneSlice (model_Constraints m)),
     model_Fields := cloneMap cloneField (model_Fields m)\<rparr>"

definition cloneApp :: "App \<Rightarrow> App" where
  "cloneApp a = a\<lparr>app_Models := cloneMap cloneModel (app_Models a)\<rparr>"

definition cloneSnapshot :: "Snapshot \<Rightarrow> Snapshot" where
  "cloneSnapshot s = s\<lparr>snap_SchemaSources := cloneStrings (snap_SchemaSources s),
     snap_QuerySetMethodDefs := cloneMethods (snap_QuerySetMethodDefs s),
     snap_Apps := cloneMap cloneApp (snap_Apps s)\<rparr>"

lemma gomap_put_new: "map_of m k = None \<Longrightarrow> gomap_put k v m = m @ [(k, v)]"
  by (induction m) (auto split: if_splits)

lemma cloneMap_same:
  assumes "gomap_ok m" and "\<And>k v. (k, v) \<in> set m \<Longrightarrow> f v = v"
  shows "cloneMap f m = m"
proof -
  have "fold (\<lambda>(k, v). gomap_put k (f v)) m acc = acc @ m"
    if "distinct (map fst (acc @ m))" "\<forall>(k, v) \<in> set m. f v = v" for acc
    using that
  proof (induction m arbitrary: acc)
    case Nil
    then show ?case by simp
  next
    case (Cons p m)
    obtain k v where p: "p = (k, v)" by fastforce
    have "map_of acc k = None"
      using Cons.prems(1) p by (auto simp: map_of_eq_None_iff)
    then show ?case
      using Cons.IH [of "acc @ [(k, v)]"] Cons.prems p by (simp add: gomap_put_new)
  qed
  from this [of "[]"] show ?thesis
    using assms by (auto simp: cloneMap_def gomap_ok_def)
qed

lemma clone_values [simp]:
  "clonePointer p = p" "cloneSlice xs = xs" "cloneStrings ss = ss"
  by (simp_all add: clonePointer_def cloneSlice_def cloneStrings_def split: option.split)

lemma clone_structs [simp]:
  "cloneLookupPath p = p" "cloneMethod m = m" "cloneMethods ms = ms" "cloneManager g = g"
  "cloneField f = f" "cloneIndex i = i" "cloneConstraint c = c"
proof -
  show lookup: "cloneLookupPath p = p" for p by (simp add: cloneLookupPath_def)
  show one: "cloneMethod m = m" for m by (simp add: cloneMethod_def)
  show several: "cloneMethods ms = ms" for ms by (simp add: cloneMethods_def one map_idI)
  show "cloneManager g = g" by (simp add: cloneManager_def several)
  show "cloneField f = f" by (simp add: cloneField_def lookup map_idI)
  show "cloneIndex i = i" by (simp add: cloneIndex_def)
  show "cloneConstraint c = c" by (simp add: cloneConstraint_def)
qed

lemma cloneModel_same: "gomap_ok (model_Fields m) \<Longrightarrow> cloneModel m = m"
  by (simp add: cloneModel_def cloneMap_same map_idI)

lemma cloneSnapshot_same:
  assumes "snapshot_maps_ok s"
  shows "cloneSnapshot s = s"
proof -
  have "cloneApp app = app" if "(k, app) \<in> set (snap_Apps s)" for k app
  proof -
    have "cloneMap cloneModel (app_Models app) = app_Models app"
      using assms that by (intro cloneMap_same cloneModel_same) (auto simp: snapshot_maps_ok_def)
    then show ?thesis by (simp add: cloneApp_def)
  qed
  then have "cloneMap cloneApp (snap_Apps s) = snap_Apps s"
    using assms by (intro cloneMap_same) (auto simp: snapshot_maps_ok_def)
  then show ?thesis by (simp add: cloneSnapshot_def)
qed

section \<open>The graph\<close>

type_synonym index_ptr = string

record Graph =
  g_snapshot :: Snapshot
  g_canonical :: "modelIndex gomap"
  g_classPath :: "index_ptr gomap"
  g_modelExport :: "index_ptr option gomap"
  g_sourceClass :: "index_ptr gomap"
  g_module :: "index_ptr list gomap"

definition empty_graph :: "Snapshot \<Rightarrow> Graph" where
  "empty_graph s = \<lparr>g_snapshot = s, g_canonical = [], g_classPath = [], g_modelExport = [],
     g_sourceClass = [], g_module = []\<rparr>"

text \<open>\<open>hex.EncodeToString\<close>, and the digest of a source under the hash function \<open>sha256\<close>.\<close>

definition hex_digit :: "nat \<Rightarrow> char" where
  "hex_digit n = ''0123456789abcdef'' ! n"

definition EncodeToString :: "string \<Rightarrow> string" where
  "EncodeToString s = concat (map (\<lambda>c. [hex_digit (of_char c div 16), hex_digit (of_char c mod 16)]) s)"

definition MatchesSourceDigest :: "(string \<Rightarrow> string) \<Rightarrow> string \<Rightarrow> string \<Rightarrow> bool" where
  "MatchesSourceDigest sha256 source digest \<longleftrightarrow>
     length digest = 64 \<and> EncodeToString (sha256 source) = digest"

section \<open>Build\<close>

definition class_path :: "Model \<Rightarrow> string" where
  "class_path m = model_Module m @ ''.'' @ model_Qualname m"

text \<open>
  The name under which \<open>app.models\<close> exports a top level model class. Two models with one export
  name leave a nil entry.
\<close>

definition export_path :: "App \<Rightarrow> Model \<Rightarrow> string option" where
  "export_path app m =
     (if \<not> ContainsByte (model_Qualname m) (CHR ''.'') \<and>
         (model_Module m = app_ImportName app @ ''.models'' \<or>
          HasPrefix (model_Module m) (app_ImportName app @ ''.models.''))
      then Some (app_ImportName app @ ''.models.'' @ model_Qualname m) else None)"

definition add_export :: "App \<Rightarrow> Model \<Rightarrow> Graph \<Rightarrow> Graph" where
  "add_export app m g =
     (let ptr = model_CanonicalLabel m
      in case export_path app m of
           None \<Rightarrow> g
         | Some path \<Rightarrow>
             (case map_of (g_modelExport g) path of
                Some existing \<Rightarrow>
                  if existing \<noteq> Some ptr then g\<lparr>g_modelExport := gomap_put path None (g_modelExport g)\<rparr>
                  else g
              | None \<Rightarrow> g\<lparr>g_modelExport := gomap_put path (Some ptr) (g_modelExport g)\<rparr>))"

definition source_paths :: "(string \<Rightarrow> string option) \<Rightarrow> Model \<Rightarrow> string list" where
  "source_paths ev m =
     (let resolved = ResolvedPath ev (model_FilePath m)
      in if \<not> SamePath (Clean (model_FilePath m)) resolved then [model_FilePath m, resolved]
         else [model_FilePath m])"

definition add_source_class :: "Model \<Rightarrow> string \<Rightarrow> Graph \<Rightarrow> goerror + Graph" where
  "add_source_class m sourcePath g =
     (let key = sourceClassKey sourcePath (model_Qualname m); ptr = model_CanonicalLabel m
      in case map_of (g_sourceClass g) key of
           Some existing \<Rightarrow>
             if existing \<noteq> ptr
             then Inl (errorf ''duplicate model source class %s in %q''
                         [AStr (model_Qualname m), AStr (model_FilePath m)])
             else Inr (g\<lparr>g_sourceClass := gomap_put key ptr (g_sourceClass g)\<rparr>)
         | None \<Rightarrow> Inr (g\<lparr>g_sourceClass := gomap_put key ptr (g_sourceClass g)\<rparr>))"

definition add_module :: "Model \<Rightarrow> Graph \<Rightarrow> Graph" where
  "add_module m g =
     (let present = (case map_of (g_module g) (model_Module m) of None \<Rightarrow> [] | Some ps \<Rightarrow> ps)
      in g\<lparr>g_module := gomap_put (model_Module m) (present @ [model_CanonicalLabel m]) (g_module g)\<rparr>)"

definition add_model ::
    "(string \<Rightarrow> string option) \<Rightarrow> Snapshot \<Rightarrow> method_defs \<Rightarrow> string \<Rightarrow> App \<Rightarrow> string \<times> Model \<Rightarrow> Graph \<Rightarrow>
     goerror + Graph" where
  "add_model ev s defs appKey app entry g =
     (case entry of (modelName, m) \<Rightarrow>
        guard_err (first_err
          [validateModel appKey modelName m s defs,
           check (map_of (g_canonical g) (model_CanonicalLabel m) \<noteq> None)
             (errorf ''duplicate canonical model label %q'' [AStr (model_CanonicalLabel m)]),
           check (map_of (g_classPath g) (class_path m) \<noteq> None)
             (errorf ''duplicate model class path %q'' [AStr (class_path m)])])
        (bind_err (buildModelIndex modelName m defs) (\<lambda>index.
         bind_err (fold_err (add_source_class m) (source_paths ev m)
           (add_export app m
             (g\<lparr>g_canonical := gomap_put (model_CanonicalLabel m) index (g_canonical g),
                g_classPath := gomap_put (class_path m) (model_CanonicalLabel m) (g_classPath g)\<rparr>)))
         (\<lambda>g. Inr (add_module m g)))))"

definition add_app ::
    "(string \<Rightarrow> string option) \<Rightarrow> Snapshot \<Rightarrow> method_defs \<Rightarrow> string \<times> App \<Rightarrow> Graph \<Rightarrow> goerror + Graph" where
  "add_app ev s defs entry g =
     (case entry of (appKey, app) \<Rightarrow>
        guard_err (check (appKey = '''' \<or> app_Label app \<noteq> appKey \<or> app_ImportName app = '''' \<or>
                          app_RootPath app = '''' \<or> \<not> IsAbs (app_RootPath app))
                     (errorf ''invalid app metadata for key %q'' [AStr appKey]))
          (fold_err (add_model ev s defs appKey app) (app_Models app) g))"

text \<open>The second pass: every source model, related model and parent must be in the graph.\<close>

definition link_field :: "modelIndex gomap \<Rightarrow> string \<Rightarrow> string \<times> FieldRef \<Rightarrow> goerror + string \<times> FieldRef" where
  "link_field canonical label entry =
     (case entry of (fieldName, ref) \<Rightarrow>
       (let f = fref_field ref in
        guard_err (check (\<not> field_SourceModelAbstract f \<and> map_of canonical (field_SourceModel f) = None)
            (errorf ''field %s.%s has dangling source model %q''
               [AStr label, AStr fieldName, AStr (field_SourceModel f)]))
          (case field_RelatedModel f of
             None \<Rightarrow> Inr (fieldName, ref)
           | Some target \<Rightarrow>
               (case map_of canonical target of
                  None \<Rightarrow> Inl (errorf ''field %s.%s has dangling related model %q''
                                 [AStr label, AStr fieldName, AStr target])
                | Some related \<Rightarrow>
                    Inr (fieldName, ref\<lparr>fref_related := Some (model_CanonicalLabel (mi_model related))\<rparr>)))))"

definition link_parent :: "modelIndex gomap \<Rightarrow> string \<Rightarrow> Parent \<Rightarrow> goerror option" where
  "link_parent canonical label p =
     check (\<not> parent_Abstract p \<and> map_of canonical (parent_CanonicalLabel p) = None)
       (errorf ''model %s has dangling parent %q'' [AStr label, AStr (parent_CanonicalLabel p)])"

definition link_model ::
    "modelIndex gomap \<Rightarrow> string \<times> modelIndex \<Rightarrow> goerror + string \<times> modelIndex" where
  "link_model canonical entry =
     (case entry of (key, index) \<Rightarrow>
       (let label = model_CanonicalLabel (mi_model index) in
        bind_err (map_err (link_field canonical label) (mi_fields index)) (\<lambda>linked.
        guard_err (check_each (link_parent canonical label) (model_Parents (mi_model index)))
          (Inr (key, index\<lparr>mi_fields := linked\<rparr>)))))"

definition Build :: "(string \<Rightarrow> string option) \<Rightarrow> Snapshot \<Rightarrow> goerror + Graph" where
  "Build ev snapshot =
     (let s = cloneSnapshot snapshot in
      guard_err (first_err
        [check (snap_SchemaVersion s \<noteq> Version)
           (errorf ''schema version %d, want %d'' [AInt (snap_SchemaVersion s), AInt Version]),
         check (snap_PositionEncoding s \<noteq> PositionEncoding)
           (errorf ''position encoding %q, want %q'' [AStr (snap_PositionEncoding s), AStr PositionEncoding]),
         check (snap_LookupTransformMaxDepth s \<noteq> maxLookupDepth \<or>
                snap_LookupPathMaxCount s \<noteq> maxLookupPaths)
           (errorf ''invalid lookup bounds'' [])])
      (bind_err (buildQuerySetMethodDefs s) (\<lambda>defs.
       bind_err (fold_err (add_app ev s defs) (snap_Apps s) (empty_graph s)) (\<lambda>g.
       guard_err (check_each (\<lambda>source. check (source = '''' \<or> \<not> IsAbs source)
                    (errorf ''invalid schema source %q'' [AStr source])) (snap_SchemaSources s))
       (bind_err (map_err (link_model (g_canonical g)) (g_canonical g)) (\<lambda>linked.
        Inr (g\<lparr>g_canonical := linked\<rparr>)))))))"

section \<open>Operations on a graph\<close>

type_synonym graph_ptr = "Graph option"

text \<open>\<open>graph.canonical[label]\<close> behind the nil checks that every operation starts with.\<close>

definition graph_model :: "graph_ptr \<Rightarrow> string \<Rightarrow> modelIndex option" where
  "graph_model graph label = Option.bind graph (\<lambda>g. map_of (g_canonical g) label)"

text \<open>The reference behind a field pointer of an index.\<close>

definition zero_FieldRef :: FieldRef where
  "zero_FieldRef = \<lparr>fref_field = zero_Field, fref_related = None\<rparr>"

definition field_at :: "modelIndex \<Rightarrow> field_ptr \<Rightarrow> FieldRef" where
  "field_at index p = (case map_of (mi_fields index) p of Some r \<Rightarrow> r | None \<Rightarrow> zero_FieldRef)"

definition access_at :: "modelIndex \<Rightarrow> field_ptr FieldAccess \<Rightarrow> FieldRef FieldAccess" where
  "access_at index = map_access (field_at index)"

text \<open>\<open>filepath.Abs\<close> may fail; \<open>strings.ToLower\<close> matters only for ASCII letters here.\<close>

definition lower_byte :: "char \<Rightarrow> char" where
  "lower_byte c = (if (of_char c :: nat) \<in> {65..90} then char_of ((of_char c :: nat) + 32) else c)"

definition ToLower :: "string \<Rightarrow> string" where
  "ToLower = map lower_byte"

definition SchemaAffectingPath ::
    "(string \<Rightarrow> string option) \<Rightarrow> (string \<Rightarrow> string option) \<Rightarrow> graph_ptr \<Rightarrow> string \<Rightarrow> bool" where
  "SchemaAffectingPath ev absf graph path =
     (case graph of
        None \<Rightarrow> False
      | Some g \<Rightarrow>
          if ToLower (filepath_Ext path) \<noteq> ''.py'' then False
          else (case absf path of
                  None \<Rightarrow> False
                | Some p \<Rightarrow>
                    (let absolute = ResolvedPath ev p in
                     list_ex (\<lambda>source. SamePath absolute (ResolvedPath ev source))
                       (snap_SchemaSources (g_snapshot g)) \<or>
                     list_ex (\<lambda>(k, app). PathWithin (ResolvedPath ev (app_RootPath app)) absolute)
                       (snap_Apps (g_snapshot g)))))"

definition ModelCount :: "graph_ptr \<Rightarrow> nat" where
  "ModelCount graph = (case graph of None \<Rightarrow> 0 | Some g \<Rightarrow> length (g_canonical g))"

definition HasModel :: "graph_ptr \<Rightarrow> string \<Rightarrow> bool" where
  "HasModel graph label \<longleftrightarrow> graph_model graph label \<noteq> None"

definition HasClass :: "graph_ptr \<Rightarrow> string \<Rightarrow> bool" where
  "HasClass graph classPath \<longleftrightarrow> (case graph of None \<Rightarrow> False | Some g \<Rightarrow> map_of (g_classPath g) classPath \<noteq> None)"

definition CanonicalLabelForClass :: "graph_ptr \<Rightarrow> string \<Rightarrow> string option" where
  "CanonicalLabelForClass graph classPath =
     (case graph of
        None \<Rightarrow> None
      | Some g \<Rightarrow> (case map_of (g_classPath g) classPath of
                     Some ptr \<Rightarrow> Some ptr
                   | None \<Rightarrow> Option.bind (map_of (g_modelExport g) classPath) (\<lambda>p. p)))"

definition CanonicalLabelForSourceClass :: "graph_ptr \<Rightarrow> string \<Rightarrow> string \<Rightarrow> string option" where
  "CanonicalLabelForSourceClass graph filePath qualname =
     (case graph of
        None \<Rightarrow> None
      | Some g \<Rightarrow> if filePath = '''' \<or> qualname = '''' then None
                  else map_of (g_sourceClass g) (sourceClassKey filePath qualname))"

record ModelInfo =
  info_CanonicalLabel :: string
  info_FilePath :: string
  info_Managed :: bool
  info_HasAbstractParent :: bool
  info_MultiTableChild :: bool
  info_IndexCount :: nat
  info_ConstraintCount :: nat

definition graph_ModelInfo :: "graph_ptr \<Rightarrow> string \<Rightarrow> ModelInfo option" where
  "graph_ModelInfo graph label =
     map_option (\<lambda>index. let m = mi_model index in
       \<lparr>info_CanonicalLabel = model_CanonicalLabel m, info_FilePath = model_FilePath m,
        info_Managed = model_Managed m, info_HasAbstractParent = model_HasAbstractParent m,
        info_MultiTableChild = model_MultiTableChild m, info_IndexCount = length (model_Indexes m),
        info_ConstraintCount = length (model_Constraints m)\<rparr>) (graph_model graph label)"

definition ModelSourceRange :: "graph_ptr \<Rightarrow> string \<Rightarrow> SourceRange option" where
  "ModelSourceRange graph label =
     Option.bind (graph_model graph label) (\<lambda>index. model_SourceRange (mi_model index))"

definition ModuleModelCount :: "graph_ptr \<Rightarrow> string \<Rightarrow> nat" where
  "ModuleModelCount graph module =
     (case graph of None \<Rightarrow> 0
      | Some g \<Rightarrow> (case map_of (g_module g) module of None \<Rightarrow> 0 | Some ptrs \<Rightarrow> length ptrs))"

definition graph_Field :: "graph_ptr \<Rightarrow> string \<Rightarrow> string \<Rightarrow> FieldRef option" where
  "graph_Field graph label name = Option.bind (graph_model graph label) (\<lambda>index. map_of (mi_fields index) name)"

definition QueryField :: "graph_ptr \<Rightarrow> string \<Rightarrow> string \<Rightarrow> FieldRef option" where
  "QueryField graph label name = Option.bind (graph_model graph label)
     (\<lambda>index. map_option (field_at index) (map_of (mi_queries index) name))"

definition AccessorField :: "graph_ptr \<Rightarrow> string \<Rightarrow> string \<Rightarrow> FieldRef option" where
  "AccessorField graph label name = Option.bind (graph_model graph label)
     (\<lambda>index. map_option (field_at index) (map_of (mi_accessors index) name))"

definition AttnameField :: "graph_ptr \<Rightarrow> string \<Rightarrow> string \<Rightarrow> FieldRef option" where
  "AttnameField graph label name = Option.bind (graph_model graph label)
     (\<lambda>index. map_option (field_at index) (map_of (mi_attnames index) name))"

definition Relation :: "graph_ptr \<Rightarrow> string \<Rightarrow> string \<Rightarrow> RelationContext \<Rightarrow> FieldRef FieldAccess option" where
  "Relation graph label name ctxt = Option.bind (graph_model graph label)
     (\<lambda>index. map_option (access_at index) (map_of (rel_byName (mi_relations index ctxt)) name))"

definition QueryRelation :: "graph_ptr \<Rightarrow> string \<Rightarrow> string \<Rightarrow> FieldRef FieldAccess option" where
  "QueryRelation graph label name = Relation graph label name RelationQuery"

definition SelectRelatedRelation :: "graph_ptr \<Rightarrow> string \<Rightarrow> string \<Rightarrow> FieldRef FieldAccess option" where
  "SelectRelatedRelation graph label name = Relation graph label name RelationSelectRelated"

definition PrefetchRelatedRelation :: "graph_ptr \<Rightarrow> string \<Rightarrow> string \<Rightarrow> FieldRef FieldAccess option" where
  "PrefetchRelatedRelation graph label name = Relation graph label name RelationPrefetchRelated"

definition graph_Manager :: "graph_ptr \<Rightarrow> string \<Rightarrow> string \<Rightarrow> ManagerRef option" where
  "graph_Manager graph label name = Option.bind (graph_model graph label) (\<lambda>index. map_of (mi_managers index) name)"

definition QuerySet :: "graph_ptr \<Rightarrow> string \<Rightarrow> string \<Rightarrow> QuerySetRef option" where
  "QuerySet graph label cls = Option.bind (graph_model graph label) (\<lambda>index. map_of (mi_querySets index) cls)"

definition QuerySetMethod :: "graph_ptr \<Rightarrow> string \<Rightarrow> string \<Rightarrow> string \<Rightarrow> Method option" where
  "QuerySetMethod graph label cls name =
     Option.bind (QuerySet graph label cls) (\<lambda>q. map_of (qs_methods q) name)"

definition QueryAccess :: "graph_ptr \<Rightarrow> string \<Rightarrow> string \<Rightarrow> FieldRef FieldAccess option" where
  "QueryAccess graph label name = Option.bind (graph_model graph label)
     (\<lambda>index. map_option (access_at index) (map_of (mi_queryByName index) name))"

definition InstanceAccess :: "graph_ptr \<Rightarrow> string \<Rightarrow> string \<Rightarrow> FieldRef FieldAccess option" where
  "InstanceAccess graph label name = Option.bind (graph_model graph label)
     (\<lambda>index. map_option (access_at index) (map_of (mi_instanceByName index) name))"

section \<open>Visitors\<close>

text \<open>
  \<open>for _, x := range xs { if !visit(x) { break } }\<close>: the callback returns its state and whether to
  go on. A visitor returns whether there was anything to visit, and the callback's last state.
\<close>

fun visit_while :: "('a \<Rightarrow> 's \<Rightarrow> bool \<times> 's) \<Rightarrow> 'a list \<Rightarrow> 's \<Rightarrow> 's" where
  "visit_while visit [] s = s"
| "visit_while visit (x # xs) s = (case visit x s of (go, s') \<Rightarrow> if go then visit_while visit xs s' else s')"

definition visit_listing :: "'a list option \<Rightarrow> ('a \<Rightarrow> 's \<Rightarrow> bool \<times> 's) \<Rightarrow> 's \<Rightarrow> bool \<times> 's" where
  "visit_listing listing visit s =
     (case listing of None \<Rightarrow> (False, s) | Some xs \<Rightarrow> (True, visit_while visit xs s))"

definition visitFields ::
    "graph_ptr \<Rightarrow> string \<Rightarrow> bool \<Rightarrow> (FieldRef FieldAccess \<Rightarrow> 's \<Rightarrow> bool \<times> 's) \<Rightarrow> 's \<Rightarrow> bool \<times> 's" where
  "visitFields graph label query visit s = visit_listing
     (map_option (\<lambda>index. map (access_at index)
        (if query then mi_queryAccess index else mi_instanceAccess index)) (graph_model graph label)) visit s"

definition VisitQueryFields ::
    "graph_ptr \<Rightarrow> string \<Rightarrow> (FieldRef FieldAccess \<Rightarrow> 's \<Rightarrow> bool \<times> 's) \<Rightarrow> 's \<Rightarrow> bool \<times> 's" where
  "VisitQueryFields graph label visit s = visitFields graph label True visit s"

definition VisitInstanceFields ::
    "graph_ptr \<Rightarrow> string \<Rightarrow> (FieldRef FieldAccess \<Rightarrow> 's \<Rightarrow> bool \<times> 's) \<Rightarrow> 's \<Rightarrow> bool \<times> 's" where
  "VisitInstanceFields graph label visit s = visitFields graph label False visit s"

definition VisitManagers :: "graph_ptr \<Rightarrow> string \<Rightarrow> (ManagerRef \<Rightarrow> 's \<Rightarrow> bool \<times> 's) \<Rightarrow> 's \<Rightarrow> bool \<times> 's" where
  "VisitManagers graph label visit s =
     visit_listing (map_option mi_managerOrder (graph_model graph label)) visit s"

definition VisitRelations ::
    "graph_ptr \<Rightarrow> string \<Rightarrow> RelationContext \<Rightarrow> (FieldRef FieldAccess \<Rightarrow> 's \<Rightarrow> bool \<times> 's) \<Rightarrow> 's \<Rightarrow> bool \<times> 's" where
  "VisitRelations graph label ctxt visit s = visit_listing
     (map_option (\<lambda>index. map (access_at index) (rel_ordered (mi_relations index ctxt)))
        (graph_model graph label)) visit s"

definition VisitQuerySets :: "graph_ptr \<Rightarrow> string \<Rightarrow> (QuerySetRef \<Rightarrow> 's \<Rightarrow> bool \<times> 's) \<Rightarrow> 's \<Rightarrow> bool \<times> 's" where
  "VisitQuerySets graph label visit s =
     visit_listing (map_option mi_querySetOrder (graph_model graph label)) visit s"

definition VisitQuerySetMethods :: "graph_ptr \<Rightarrow> string \<Rightarrow> (Method \<Rightarrow> 's \<Rightarrow> bool \<times> 's) \<Rightarrow> 's \<Rightarrow> bool \<times> 's" where
  "VisitQuerySetMethods graph label visit s =
     visit_listing (map_option mi_methodOrder (graph_model graph label)) visit s"

text \<open>A callback that collects everything sees the whole listing in order.\<close>

definition collect :: "'a \<Rightarrow> 'a list \<Rightarrow> bool \<times> 'a list" where
  "collect x xs = (True, xs @ [x])"

lemma visit_while_collect: "visit_while collect xs acc = acc @ xs"
  by (induction xs arbitrary: acc) (simp_all add: collect_def)

definition ModelName :: "string \<Rightarrow> string" where
  "ModelName label = fst (snd (cut_byte (CHR ''.'') label))"

end
