(* ===== verification/Schema_Refs.thy ===== *)
theory Schema_Refs
  imports Schema_Graph
begin

text \<open>
  The methods of the references a graph gives out (\<open>internal/schema/graph.go\<close>: \<open>FieldRef\<close>,
  \<open>ManagerRef\<close>, \<open>QuerySetRef\<close>, \<open>MethodRef\<close>), and the operation that finds a relation by the
  place of its declaration. The receiver of a method is a pointer, so it is an option; the three
  methods that do not test it for nil take the reference itself.
\<close>

section \<open>FieldRef\<close>

definition FieldRef_Name :: "FieldRef \<Rightarrow> string" where
  "FieldRef_Name field = field_Name (fref_field field)"

definition FieldRef_HelpText :: "FieldRef \<Rightarrow> string" where
  "FieldRef_HelpText field = field_HelpText (fref_field field)"

definition FieldRef_Type :: "FieldRef \<Rightarrow> string" where
  "FieldRef_Type field = field_Type (fref_field field)"

definition FieldRef_DBColumn :: "FieldRef option \<Rightarrow> string option" where
  "FieldRef_DBColumn field = Option.bind field (\<lambda>f. field_DBColumn (fref_field f))"

definition FieldRef_DBType :: "FieldRef option \<Rightarrow> string option" where
  "FieldRef_DBType field = Option.bind field (\<lambda>f. field_DBType (fref_field f))"

definition FieldRef_IsNullable :: "FieldRef option \<Rightarrow> bool" where
  "FieldRef_IsNullable field = (case field of None \<Rightarrow> False | Some f \<Rightarrow> field_Null (fref_field f))"

definition FieldRef_IsDBIndexed :: "FieldRef option \<Rightarrow> bool" where
  "FieldRef_IsDBIndexed field = (case field of None \<Rightarrow> False | Some f \<Rightarrow> field_DBIndex (fref_field f))"

definition FieldRef_IsUnique :: "FieldRef option \<Rightarrow> bool" where
  "FieldRef_IsUnique field = (case field of None \<Rightarrow> False | Some f \<Rightarrow> field_Unique (fref_field f))"

definition FieldRef_IsPrimaryKey :: "FieldRef option \<Rightarrow> bool" where
  "FieldRef_IsPrimaryKey field = (case field of None \<Rightarrow> False | Some f \<Rightarrow> field_PrimaryKey (fref_field f))"

definition FieldRef_SourceRange :: "FieldRef option \<Rightarrow> SourceRange option" where
  "FieldRef_SourceRange field = Option.bind field (\<lambda>f. field_SourceRange (fref_field f))"

definition FieldRef_RuntimeRelatedModel :: "FieldRef option \<Rightarrow> string option" where
  "FieldRef_RuntimeRelatedModel field =
     Option.bind field (\<lambda>f. nonempty (field_RuntimeRelatedModel (fref_field f)))"

definition FieldRef_SourceModel :: "FieldRef option \<Rightarrow> string" where
  "FieldRef_SourceModel field = (case field of None \<Rightarrow> '''' | Some f \<Rightarrow> field_SourceModel (fref_field f))"

definition FieldRef_IsRelation :: "FieldRef option \<Rightarrow> bool" where
  "FieldRef_IsRelation field = (case field of None \<Rightarrow> False | Some f \<Rightarrow> field_IsRelation (fref_field f))"

definition FieldRef_RelationDirection :: "FieldRef option \<Rightarrow> string option" where
  "FieldRef_RelationDirection field = Option.bind field (\<lambda>f. field_RelationDirection (fref_field f))"

definition FieldRef_RelationCardinality :: "FieldRef option \<Rightarrow> string option" where
  "FieldRef_RelationCardinality field = Option.bind field (\<lambda>f. field_RelationCardinality (fref_field f))"

definition FieldRef_Attname :: "FieldRef option \<Rightarrow> string option" where
  "FieldRef_Attname field = Option.bind field (\<lambda>f. field_Attname (fref_field f))"

definition FieldRef_QueryName :: "FieldRef option \<Rightarrow> string option" where
  "FieldRef_QueryName field = Option.bind field (\<lambda>f. field_QueryName (fref_field f))"

definition FieldRef_AccessorName :: "FieldRef option \<Rightarrow> string option" where
  "FieldRef_AccessorName field = Option.bind field (\<lambda>f. field_AccessorName (fref_field f))"

definition FieldRef_Lookups :: "FieldRef option \<Rightarrow> string list" where
  "FieldRef_Lookups field = (case field of None \<Rightarrow> [] | Some f \<Rightarrow> cloneStrings (field_Lookups (fref_field f)))"

definition FieldRef_UnsupportedLookups :: "FieldRef option \<Rightarrow> string list" where
  "FieldRef_UnsupportedLookups field =
     (case field of None \<Rightarrow> [] | Some f \<Rightarrow> cloneStrings (field_UnsupportedLookups (fref_field f)))"

definition FieldRef_Transforms :: "FieldRef option \<Rightarrow> string list" where
  "FieldRef_Transforms field = (case field of None \<Rightarrow> [] | Some f \<Rightarrow> cloneStrings (field_Transforms (fref_field f)))"

definition FieldRef_LookupPaths :: "FieldRef option \<Rightarrow> LookupPath list" where
  "FieldRef_LookupPaths field =
     (case field of None \<Rightarrow> [] | Some f \<Rightarrow> map cloneLookupPath (field_LookupPaths (fref_field f)))"

definition FieldRef_VisitLookupPaths ::
    "FieldRef option \<Rightarrow> (LookupPath \<Rightarrow> 's \<Rightarrow> bool \<times> 's) \<Rightarrow> 's \<Rightarrow> bool \<times> 's" where
  "FieldRef_VisitLookupPaths field visit s = visit_listing
     (map_option (\<lambda>f. map cloneLookupPath (field_LookupPaths (fref_field f))) field) visit s"

definition FieldRef_LookupPathsTruncated :: "FieldRef option \<Rightarrow> bool" where
  "FieldRef_LookupPathsTruncated field =
     (case field of None \<Rightarrow> False | Some f \<Rightarrow> field_LookupPathsTruncated (fref_field f))"

definition FieldRef_RelatedModel :: "FieldRef option \<Rightarrow> string option" where
  "FieldRef_RelatedModel field = Option.bind field fref_related"

section \<open>ManagerRef\<close>

definition ManagerRef_Name :: "ManagerRef option \<Rightarrow> string" where
  "ManagerRef_Name manager = (case manager of None \<Rightarrow> '''' | Some m \<Rightarrow> manager_Name (mref_manager m))"

definition ManagerRef_OwnerClass :: "ManagerRef option \<Rightarrow> string" where
  "ManagerRef_OwnerClass manager =
     (case manager of None \<Rightarrow> '''' | Some m \<Rightarrow> manager_OwnerClass (mref_manager m))"

definition ManagerRef_SourceRange :: "ManagerRef option \<Rightarrow> SourceRange option" where
  "ManagerRef_SourceRange manager = Option.bind manager (\<lambda>m. manager_SourceRange (mref_manager m))"

definition ManagerRef_QuerySetClass :: "ManagerRef option \<Rightarrow> string option" where
  "ManagerRef_QuerySetClass manager = Option.bind manager (\<lambda>m. manager_QuerySetClass (mref_manager m))"

text \<open>The QuerySet behind the pointer of a manager, in the index the manager belongs to.\<close>

definition ManagerRef_QuerySet :: "modelIndex \<Rightarrow> ManagerRef option \<Rightarrow> QuerySetRef option" where
  "ManagerRef_QuerySet index manager =
     Option.bind (Option.bind manager mref_querySet) (map_of (mi_querySets index))"

definition ManagerRef_Method :: "ManagerRef option \<Rightarrow> string \<Rightarrow> Method option" where
  "ManagerRef_Method manager name = Option.bind manager (\<lambda>m. map_of (mref_methods m) name)"

definition ManagerRef_QuerySetMethod :: "ManagerRef option \<Rightarrow> string \<Rightarrow> Method option" where
  "ManagerRef_QuerySetMethod manager name = Option.bind manager (\<lambda>m. map_of (mref_querySetMethods m) name)"

definition ManagerRef_VisitMethods :: "ManagerRef option \<Rightarrow> (Method \<Rightarrow> 's \<Rightarrow> bool \<times> 's) \<Rightarrow> 's \<Rightarrow> bool \<times> 's" where
  "ManagerRef_VisitMethods manager visit s = visit_listing (map_option mref_methodOrder manager) visit s"

definition ManagerRef_VisitQuerySetMethods ::
    "ManagerRef option \<Rightarrow> (Method \<Rightarrow> 's \<Rightarrow> bool \<times> 's) \<Rightarrow> 's \<Rightarrow> bool \<times> 's" where
  "ManagerRef_VisitQuerySetMethods manager visit s =
     visit_listing (map_option mref_querySetMethodOrder manager) visit s"

definition ManagerRef_IsDefault :: "ManagerRef option \<Rightarrow> bool" where
  "ManagerRef_IsDefault manager = (case manager of None \<Rightarrow> False | Some m \<Rightarrow> manager_Default (mref_manager m))"

definition ManagerRef_IsLocal :: "ManagerRef option \<Rightarrow> bool" where
  "ManagerRef_IsLocal manager = (case manager of None \<Rightarrow> False | Some m \<Rightarrow> manager_Local (mref_manager m))"

definition ManagerRef_IsAutoCreated :: "ManagerRef option \<Rightarrow> bool" where
  "ManagerRef_IsAutoCreated manager =
     (case manager of None \<Rightarrow> False | Some m \<Rightarrow> manager_AutoCreated (mref_manager m))"

section \<open>QuerySetRef and MethodRef\<close>

definition QuerySetRef_Class :: "QuerySetRef option \<Rightarrow> string" where
  "QuerySetRef_Class querySet = (case querySet of None \<Rightarrow> '''' | Some q \<Rightarrow> qs_class q)"

definition QuerySetRef_Method :: "QuerySetRef option \<Rightarrow> string \<Rightarrow> Method option" where
  "QuerySetRef_Method querySet name = Option.bind querySet (\<lambda>q. map_of (qs_methods q) name)"

definition QuerySetRef_VisitMethods :: "QuerySetRef option \<Rightarrow> (Method \<Rightarrow> 's \<Rightarrow> bool \<times> 's) \<Rightarrow> 's \<Rightarrow> bool \<times> 's" where
  "QuerySetRef_VisitMethods querySet visit s = visit_listing (map_option qs_methodOrder querySet) visit s"

definition MethodRef_Name :: "Method option \<Rightarrow> string" where
  "MethodRef_Name m = (case m of None \<Rightarrow> '''' | Some x \<Rightarrow> method_Name x)"

definition MethodRef_OwnerClass :: "Method option \<Rightarrow> string" where
  "MethodRef_OwnerClass m = (case m of None \<Rightarrow> '''' | Some x \<Rightarrow> method_OwnerClass x)"

definition MethodRef_Signature :: "Method option \<Rightarrow> string option" where
  "MethodRef_Signature m = Option.bind m method_Signature"

definition MethodRef_Docstring :: "Method option \<Rightarrow> string option" where
  "MethodRef_Docstring m = Option.bind m method_Docstring"

definition MethodRef_SourceRange :: "Method option \<Rightarrow> SourceRange option" where
  "MethodRef_SourceRange m = Option.bind m method_SourceRange"

definition MethodRef_Chainable :: "Method option \<Rightarrow> bool" where
  "MethodRef_Chainable m = (case m of None \<Rightarrow> False | Some x \<Rightarrow> method_Chainable x)"

definition MethodRef_AssumedChainable :: "Method option \<Rightarrow> bool" where
  "MethodRef_AssumedChainable m = (case m of None \<Rightarrow> False | Some x \<Rightarrow> method_AssumedChainable x)"

section \<open>RelationFieldForSource\<close>

definition sameSourceRange :: "FieldRef \<Rightarrow> FieldRef \<Rightarrow> bool" where
  "sameSourceRange left right =
     (case (FieldRef_SourceRange (Some left), FieldRef_SourceRange (Some right)) of
        (Some l, Some r) \<Rightarrow> l = r | _ \<Rightarrow> False)"

definition declared_at ::
    "(string \<Rightarrow> string option) \<Rightarrow> string \<Rightarrow> string \<Rightarrow> string \<Rightarrow> Position \<Rightarrow> Position \<Rightarrow> FieldRef \<Rightarrow> bool" where
  "declared_at ev filePath className fieldName start end' field \<longleftrightarrow>
     FieldRef_RelationDirection (Some field) = Some ''forward'' \<and>
     (case FieldRef_SourceRange (Some field) of
        None \<Rightarrow> False
      | Some r \<Rightarrow> FieldRef_Name field = fieldName \<and>
          HasSuffix (FieldRef_SourceModel (Some field)) (''.'' @ className) \<and>
          sr_Start r = start \<and> sr_End r = end' \<and> SamePath (ResolvedPath ev (sr_FilePath r)) filePath)"

definition relation_target :: "FieldRef \<Rightarrow> string option" where
  "relation_target field =
     (case FieldRef_RuntimeRelatedModel (Some field) of
        Some target \<Rightarrow> Some target | None \<Rightarrow> FieldRef_RelatedModel (Some field))"

text \<open>The two nested loops visit every field; the inner state is the field selected so far.\<close>

fun select_relation ::
    "(FieldRef \<Rightarrow> bool) \<Rightarrow> (FieldRef \<times> string) option \<Rightarrow> FieldRef list \<Rightarrow> FieldRef option" where
  "select_relation matching selected [] = map_option fst selected"
| "select_relation matching selected (field # rest) =
     (if \<not> matching field then select_relation matching selected rest
      else (case relation_target field of
              None \<Rightarrow> None
            | Some target \<Rightarrow>
                if (case selected of None \<Rightarrow> False
                    | Some (chosen, chosenTarget) \<Rightarrow> chosenTarget \<noteq> target \<or> \<not> sameSourceRange chosen field)
                then None
                else select_relation matching (Some (field, target)) rest))"

definition all_fields :: "Graph \<Rightarrow> FieldRef list" where
  "all_fields g = concat (map (\<lambda>(k, index). map snd (mi_fields index)) (g_canonical g))"

definition RelationFieldForSource ::
    "(string \<Rightarrow> string option) \<Rightarrow> graph_ptr \<Rightarrow> string \<Rightarrow> string \<Rightarrow> string \<Rightarrow> Position \<Rightarrow> Position \<Rightarrow> FieldRef option" where
  "RelationFieldForSource ev graph filePath className fieldName start end' =
     (case graph of
        None \<Rightarrow> None
      | Some g \<Rightarrow>
          if filePath = '''' \<or> className = '''' \<or> fieldName = '''' then None
          else select_relation
                 (declared_at ev (ResolvedPath ev filePath) className fieldName start end') None
                 (all_fields g))"

text \<open>What the loop computes, whatever the order of the fields.\<close>

definition agreed :: "FieldRef \<Rightarrow> FieldRef \<Rightarrow> bool" where
  "agreed a b \<longleftrightarrow> relation_target a = relation_target b \<and> relation_target a \<noteq> None \<and>
     FieldRef_SourceRange (Some a) = FieldRef_SourceRange (Some b)"

lemma agreed_sym: "agreed a b \<Longrightarrow> agreed b a"
  unfolding agreed_def by metis

lemma agreed_trans: "agreed a b \<Longrightarrow> agreed b c \<Longrightarrow> agreed a c"
  unfolding agreed_def by metis

lemma sameSourceRange_agreed:
  assumes "FieldRef_SourceRange (Some b) \<noteq> None" "relation_target a = Some t" "relation_target b = Some u"
  shows "t = u \<and> sameSourceRange a b \<longleftrightarrow> agreed a b"
  using assms by (auto simp: sameSourceRange_def agreed_def split: option.splits)

text \<open>From a selected field the loop succeeds if and only if every match agrees with it.\<close>

lemma select_relation_from:
  assumes ranged: "\<And>f. matching f \<Longrightarrow> FieldRef_SourceRange (Some f) \<noteq> None"
    and chosen: "relation_target chosen = Some t"
  shows "select_relation matching (Some (chosen, t)) fs \<noteq> None \<longleftrightarrow>
           (\<forall>f \<in> set fs. matching f \<longrightarrow> agreed chosen f)"
    and "select_relation matching (Some (chosen, t)) fs = Some r \<Longrightarrow>
           r = chosen \<or> (r \<in> set fs \<and> matching r)"
  using chosen
proof (induction fs arbitrary: chosen t)
  case Nil
  { case 1 then show ?case by simp next case 2 then show ?case by simp }
next
  case (Cons f fs)
  {
    case 1
    show ?case
    proof (cases "matching f")
      case False
      then show ?thesis using Cons.IH(1) [OF 1] by simp
    next
      case True
      show ?thesis
      proof (cases "relation_target f")
        case None
        then show ?thesis using True by (auto simp: agreed_def)
      next
        case (Some u)
        have agree: "t = u \<and> sameSourceRange chosen f \<longleftrightarrow> agreed chosen f"
          by (rule sameSourceRange_agreed [OF ranged [OF True] 1 Some])
        have "(\<forall>g \<in> set fs. matching g \<longrightarrow> agreed f g) \<longleftrightarrow> (\<forall>g \<in> set fs. matching g \<longrightarrow> agreed chosen g)"
          if "agreed chosen f"
          using that by (meson agreed_sym agreed_trans)
        then show ?thesis using True Some Cons.IH(1) [OF Some] agree by auto
      qed
    qed
  next
    case 2
    then show ?case
      using Cons.IH(2) [of chosen t] Cons.IH(2) [of f]
      by (auto split: if_splits option.splits)
  }
qed

lemma select_relation_none:
  assumes ranged: "\<And>f. matching f \<Longrightarrow> FieldRef_SourceRange (Some f) \<noteq> None"
  shows "select_relation matching None fs = Some r \<Longrightarrow> r \<in> set fs \<and> matching r"
    and "select_relation matching None fs \<noteq> None \<longleftrightarrow>
      (\<exists>f \<in> set fs. matching f) \<and> (\<forall>f \<in> set fs. \<forall>g \<in> set fs. matching f \<longrightarrow> matching g \<longrightarrow> agreed f g)"
proof (induction fs)
  case Nil
  { case 1 then show ?case by simp next case 2 then show ?case by simp }
next
  case (Cons f fs)
  {
    case 1
    then show ?case
      using Cons.IH(1) select_relation_from(2) [OF ranged, of matching f _ fs r]
      by (auto split: if_splits option.splits)
  next
    case 2
    show ?case
    proof (cases "matching f")
      case False
      then show ?thesis using Cons.IH(2) by auto
    next
      case True
      show ?thesis
      proof (cases "relation_target f")
        case None
        then show ?thesis using True by (auto simp: agreed_def)
      next
        case (Some u)
        have refl: "agreed f f" using Some by (simp add: agreed_def)
        have "select_relation matching None (f # fs) \<noteq> None \<longleftrightarrow>
            (\<forall>g \<in> set fs. matching g \<longrightarrow> agreed f g)"
          using True Some select_relation_from(1) [OF ranged Some, of matching fs] by simp
        also have "\<dots> \<longleftrightarrow> (\<forall>g \<in> set (f # fs). \<forall>h \<in> set (f # fs). matching g \<longrightarrow> matching h \<longrightarrow> agreed g h)"
          using True refl by simp (meson agreed_sym agreed_trans)
        finally show ?thesis using True by simp
      qed
    qed
  }
qed

lemma declared_at_ranged:
  "declared_at ev p c n s e f \<Longrightarrow> FieldRef_SourceRange (Some f) \<noteq> None"
  by (auto simp: declared_at_def split: option.splits)

end
