(* ===== verification/Schema_Build.thy ===== *)
theory Schema_Build
  imports Schema_Listings Schema_Refs
begin

text \<open>
  Correctness of \<open>schema.Build\<close>: what every graph it returns satisfies, in terms of the snapshot
  it was given. Each group of facts is one invariant of the loop over the models, proved by the
  rule \<open>models_loop\<close>.
\<close>

section \<open>The loop over the models\<close>

definition models_of :: "App gomap \<Rightarrow> (App \<times> Model) list" where
  "models_of apps = concat (map (\<lambda>(k, app). map (\<lambda>(n, m). (app, m)) (app_Models app)) apps)"

lemma models_loop:
  assumes run: "fold_err (add_app ev s defs) apps g0 = Inr g"
    and start: "I [] g0"
    and step: "\<And>past k app n m g g'. (k, app) \<in> set apps \<Longrightarrow> (n, m) \<in> set (app_Models app) \<Longrightarrow>
        I past g \<Longrightarrow> add_model ev s defs k app (n, m) g = Inr g' \<Longrightarrow> I (past @ [(app, m)]) g'"
  shows "I (models_of apps) g"
proof (rule fold_err_inv_prefix [where P = "\<lambda>ys g. I (models_of ys) g", OF run])
  show "I (models_of []) g0" using start by (simp add: models_of_def)
next
  fix ys x a b
  assume inv: "I (models_of ys) a" and x: "x \<in> set apps" and run: "add_app ev s defs x a = Inr b"
  obtain k app where kapp: "x = (k, app)" by fastforce
  from run have inner: "fold_err (add_model ev s defs k app) (app_Models app) a = Inr b"
    by (simp add: kapp add_app_def)
  have "I (models_of ys @ map (\<lambda>(n, m). (app, m)) (app_Models app)) b"
  proof (rule fold_err_inv_prefix [where P = "\<lambda>zs g. I (models_of ys @ map (\<lambda>(n, m). (app, m)) zs) g", OF inner])
    show "I (models_of ys @ map (\<lambda>(n, m). (app, m)) []) a" using inv by simp
  next
    fix zs :: "(string \<times> Model) list" and e c d
    assume "I (models_of ys @ map (\<lambda>(n, m). (app, m)) zs) c" "e \<in> set (app_Models app)"
      and "add_model ev s defs k app e c = Inr d"
    then show "I (models_of ys @ map (\<lambda>(n, m). (app, m)) (zs @ [e])) d"
      using step [where k = k and app = app and n = "fst e" and m = "snd e" and g = c and g' = d and
          past = "models_of ys @ map (\<lambda>(n, m). (app, m)) zs"] x kapp
      by (cases e) simp
  qed
  then show "I (models_of (ys @ [x])) b" by (simp add: models_of_def kapp)
qed

text \<open>What one model adds.\<close>

definition source_keys :: "(string \<Rightarrow> string option) \<Rightarrow> Model \<Rightarrow> string set" where
  "source_keys ev m = (\<lambda>p. sourceClassKey p (model_Qualname m)) ` set (source_paths ev m)"

lemma add_source_class_fold:
  assumes "fold_err (add_source_class m) paths g = Inr g'"
  shows "(\<forall>key. map_of (g_sourceClass g') key =
      (if key \<in> (\<lambda>p. sourceClassKey p (model_Qualname m)) ` set paths
       then Some (model_CanonicalLabel m) else map_of (g_sourceClass g) key)) \<and>
    (\<forall>key \<in> (\<lambda>p. sourceClassKey p (model_Qualname m)) ` set paths.
       map_of (g_sourceClass g) key \<in> {None, Some (model_CanonicalLabel m)}) \<and>
    g' = g\<lparr>g_sourceClass := g_sourceClass g'\<rparr>"
  using assms
proof (induction paths arbitrary: g)
  case Nil
  then show ?case by simp
next
  case (Cons p paths)
  from Cons.prems obtain g1 where g1: "add_source_class m p g = Inr g1"
    and rest: "fold_err (add_source_class m) paths g1 = Inr g'"
    by (auto split: sum.splits)
  have "map_of (g_sourceClass g) (sourceClassKey p (model_Qualname m)) \<in> {None, Some (model_CanonicalLabel m)}"
    and "g1 = g\<lparr>g_sourceClass := gomap_put (sourceClassKey p (model_Qualname m))
           (model_CanonicalLabel m) (g_sourceClass g)\<rparr>"
    using g1 by (auto simp: add_source_class_def Let_def split: option.splits if_splits)
  then show ?case using Cons.IH [OF rest] by (auto split: if_splits)
qed

definition added_index :: "method_defs \<Rightarrow> string \<Rightarrow> Model \<Rightarrow> Graph \<Rightarrow> Graph \<Rightarrow> modelIndex \<Rightarrow> bool" where
  "added_index defs n m g g' index \<longleftrightarrow>
     map_of (g_canonical g) (model_CanonicalLabel m) = None \<and>
     map_of (g_classPath g) (class_path m) = None \<and>
     buildModelIndex n m defs = Inr index \<and>
     g_canonical g' = gomap_put (model_CanonicalLabel m) index (g_canonical g) \<and>
     g_classPath g' = gomap_put (class_path m) (model_CanonicalLabel m) (g_classPath g) \<and>
     g_module g' = g_module (add_module m g)"

lemma add_model_Inr:
  assumes "add_model ev s defs k app (n, m) g = Inr g'"
  shows "validateModel k n m s defs = None \<and> (\<exists>index. added_index defs n m g g' index) \<and>
    g_snapshot g' = g_snapshot g \<and> g_modelExport g' = g_modelExport (add_export app m g) \<and>
    (\<forall>key. map_of (g_sourceClass g') key =
      (if key \<in> source_keys ev m then Some (model_CanonicalLabel m) else map_of (g_sourceClass g) key)) \<and>
    (\<forall>key \<in> source_keys ev m. map_of (g_sourceClass g) key \<in> {None, Some (model_CanonicalLabel m)})"
proof -
  from assms obtain index g2 where checks: "validateModel k n m s defs = None"
      "map_of (g_canonical g) (model_CanonicalLabel m) = None" "map_of (g_classPath g) (class_path m) = None"
    and index: "buildModelIndex n m defs = Inr index"
    and sources: "fold_err (add_source_class m) (source_paths ev m) (add_export app m
           (g\<lparr>g_canonical := gomap_put (model_CanonicalLabel m) index (g_canonical g),
              g_classPath := gomap_put (class_path m) (model_CanonicalLabel m) (g_classPath g)\<rparr>)) = Inr g2"
    and g': "g' = add_module m g2"
    by (auto simp: add_model_def bind_err_Inr)
  let ?g1 = "g\<lparr>g_canonical := gomap_put (model_CanonicalLabel m) index (g_canonical g),
              g_classPath := gomap_put (class_path m) (model_CanonicalLabel m) (g_classPath g)\<rparr>"
  have ex: "g_canonical (add_export app m ?g1) = g_canonical ?g1" "g_classPath (add_export app m ?g1) = g_classPath ?g1"
      "g_module (add_export app m ?g1) = g_module g" "g_snapshot (add_export app m ?g1) = g_snapshot g"
      "g_sourceClass (add_export app m ?g1) = g_sourceClass g"
      "g_modelExport (add_export app m ?g1) = g_modelExport (add_export app m g)"
    by (auto simp: add_export_def Let_def split: option.splits)
  note src = add_source_class_fold [OF sources]
  then obtain sc where g2: "g2 = (add_export app m ?g1)\<lparr>g_sourceClass := sc\<rparr>" by blast
  have "added_index defs n m g g' index"
    using checks index ex by (simp add: added_index_def g' g2 add_module_def Let_def)
  moreover have "g_snapshot g' = g_snapshot g" "g_modelExport g' = g_modelExport (add_export app m g)"
    using ex by (simp_all add: g' g2 add_module_def Let_def)
  moreover have "g_sourceClass g' = g_sourceClass g2" by (simp add: g' add_module_def Let_def)
  ultimately show ?thesis using checks src ex unfolding source_keys_def by auto
qed

section \<open>Models by label and by class path\<close>

abbreviation label_of :: "App \<times> Model \<Rightarrow> string" where
  "label_of am \<equiv> model_CanonicalLabel (snd am)"

definition keyed_fields :: "Model \<Rightarrow> bool" where
  "keyed_fields m \<longleftrightarrow> (\<forall>(n, f) \<in> set (model_Fields m). n \<noteq> '''' \<and> field_Name f = n)"

lemma validateModel_facts:
  assumes "validateModel k n m s defs = None"
  shows "keyed_fields m" "distinct (map manager_Name (model_Managers m))" "model_CanonicalLabel m = k @ ''.'' @ n"
proof -
  have "check_each (validateField (model_CanonicalLabel m) s) (model_Fields m) = None"
    using assms unfolding validateModel_def Let_def first_err_None list.set ball_simps by blast
  then show "keyed_fields m"
    by (fastforce simp: keyed_fields_def validateField_def)
  have "validateManagers defs (model_CanonicalLabel m) [] (model_Managers m) = None"
    using assms unfolding validateModel_def Let_def first_err_None list.set ball_simps by blast
  then show "distinct (map manager_Name (model_Managers m))"
    unfolding validateManagers_iff by simp
  show "model_CanonicalLabel m = k @ ''.'' @ n"
    using assms by (simp add: validateModel_def Let_def)
qed

definition models_inv :: "(App \<times> Model) list \<Rightarrow> Graph \<Rightarrow> bool" where
  "models_inv past g \<longleftrightarrow> gomap_ok (g_canonical g) \<and> distinct (map label_of past) \<and>
     distinct (map (\<lambda>am. class_path (snd am)) past) \<and>
     map fst (g_canonical g) = map label_of past \<and>
     (\<forall>(l, index) \<in> set (g_canonical g). \<exists>m \<in> snd ` set past.
        model_CanonicalLabel m = l \<and> index_spec m index \<and> keyed_fields m) \<and>
     (\<forall>p l. map_of (g_classPath g) p = Some l \<longleftrightarrow> (\<exists>m \<in> snd ` set past. class_path m = p \<and> model_CanonicalLabel m = l))"

lemma models_inv_step:
  assumes inv: "models_inv past g" and run: "add_model ev s defs k app (n, m) g = Inr g'"
  shows "models_inv (past @ [(app, m)]) g'"
proof -
  from add_model_Inr [OF run] obtain index where v: "validateModel k n m s defs = None"
    and added: "added_index defs n m g g' index" by blast
  note facts = validateModel_facts [OF v]
  have new: "map_of (g_canonical g) (model_CanonicalLabel m) = None"
      "map_of (g_classPath g) (class_path m) = None" "buildModelIndex n m defs = Inr index"
    using added by (simp_all add: added_index_def)
  have spec: "index_spec m index" by (rule buildModelIndex_spec [OF new(3) facts(2)])
  have canon: "g_canonical g' = g_canonical g @ [(model_CanonicalLabel m, index)]"
    and cls: "g_classPath g' = gomap_put (class_path m) (model_CanonicalLabel m) (g_classPath g)"
    using added new(1) by (simp_all add: added_index_def gomap_put_new)
  have keys: "map fst (g_canonical g) = map label_of past" using inv by (simp add: models_inv_def)
  have "model_CanonicalLabel m \<notin> set (map fst (g_canonical g))"
    using new(1) by (simp add: map_of_eq_None_iff)
  then have l: "model_CanonicalLabel m \<notin> set (map label_of past)" unfolding keys .
  have c: "class_path m \<notin> set (map (\<lambda>am. class_path (snd am)) past)"
  proof
    assume "class_path m \<in> set (map (\<lambda>am. class_path (snd am)) past)"
    then obtain am where "am \<in> set past" "class_path (snd am) = class_path m" by auto
    then have "map_of (g_classPath g) (class_path m) = Some (label_of am)"
      using inv unfolding models_inv_def by blast
    then show False using new(2) by simp
  qed
  have "map_of (g_classPath g') p = Some l \<longleftrightarrow>
      (\<exists>m' \<in> snd ` set (past @ [(app, m)]). class_path m' = p \<and> model_CanonicalLabel m' = l)" for p l
  proof (cases "p = class_path m")
    case True
    then show ?thesis using c by (auto simp: cls image_iff)
  next
    case False
    have "map_of (g_classPath g) p = Some l \<longleftrightarrow> (\<exists>m' \<in> snd ` set past. class_path m' = p \<and> model_CanonicalLabel m' = l)"
      using inv by (simp add: models_inv_def)
    then show ?thesis using False by (simp add: cls)
  qed
  moreover have "gomap_ok (g_canonical g')"
    using inv l unfolding models_inv_def canon gomap_ok_def by simp
  ultimately show ?thesis
    using inv l c spec facts(1) by (auto simp: models_inv_def canon)
qed

lemma models_inv_start: "models_inv [] (empty_graph s)"
  by (simp add: models_inv_def empty_graph_def)

section \<open>Exported names, source classes and modules\<close>

definition export_labels :: "(App \<times> Model) list \<Rightarrow> string \<Rightarrow> string list" where
  "export_labels past p = map label_of (filter (\<lambda>am. export_path (fst am) (snd am) = Some p) past)"

definition export_entry :: "string list \<Rightarrow> index_ptr option option" where
  "export_entry ls = (case ls of [] \<Rightarrow> None | [l] \<Rightarrow> Some (Some l) | _ \<Rightarrow> Some None)"

lemma export_entry_append:
  assumes "l \<notin> set ls"
  shows "export_entry (ls @ [l]) =
    (case export_entry ls of None \<Rightarrow> Some (Some l)
     | Some existing \<Rightarrow> if existing \<noteq> Some l then Some None else export_entry ls)"
  using assms by (cases ls rule: remdups_adj.cases) (auto simp: export_entry_def split: list.split)

definition exports_inv :: "(App \<times> Model) list \<Rightarrow> Graph \<Rightarrow> bool" where
  "exports_inv past g \<longleftrightarrow> (\<forall>p. map_of (g_modelExport g) p = export_entry (export_labels past p))"

lemma add_export_lookup:
  "map_of (g_modelExport (add_export app m g)) p =
     (if export_path app m = Some p
      then (case map_of (g_modelExport g) p of
              None \<Rightarrow> Some (Some (model_CanonicalLabel m))
            | Some existing \<Rightarrow> if existing \<noteq> Some (model_CanonicalLabel m) then Some None
                               else map_of (g_modelExport g) p)
      else map_of (g_modelExport g) p)"
  by (auto simp: add_export_def Let_def split: option.splits)

lemma exports_inv_step:
  assumes inv: "exports_inv past g" and new: "model_CanonicalLabel m \<notin> set (map label_of past)"
    and run: "add_model ev s defs k app (n, m) g = Inr g'"
  shows "exports_inv (past @ [(app, m)]) g'"
proof -
  have g': "g_modelExport g' = g_modelExport (add_export app m g)"
    using add_model_Inr [OF run] by blast
  have "map_of (g_modelExport g') p = export_entry (export_labels (past @ [(app, m)]) p)" for p
  proof (cases "export_path app m = Some p")
    case False
    then show ?thesis using inv by (simp add: g' add_export_lookup exports_inv_def export_labels_def)
  next
    case True
    have "model_CanonicalLabel m \<notin> set (export_labels past p)"
      using new by (auto simp: export_labels_def)
    note entry = export_entry_append [OF this]
    have labels: "export_labels (past @ [(app, m)]) p = export_labels past p @ [model_CanonicalLabel m]"
      using True by (simp add: export_labels_def)
    have look: "map_of (g_modelExport g) p = export_entry (export_labels past p)"
      using inv by (simp add: exports_inv_def)
    show ?thesis unfolding labels entry g' add_export_lookup look by (simp add: True)
  qed
  then show ?thesis by (simp add: exports_inv_def)
qed

definition sources_inv :: "(string \<Rightarrow> string option) \<Rightarrow> (App \<times> Model) list \<Rightarrow> Graph \<Rightarrow> bool" where
  "sources_inv ev past g \<longleftrightarrow> (\<forall>key l. map_of (g_sourceClass g) key = Some l \<longleftrightarrow>
     (\<exists>m \<in> snd ` set past. key \<in> source_keys ev m \<and> model_CanonicalLabel m = l))"

lemma sources_inv_step:
  assumes inv: "sources_inv ev past g" and run: "add_model ev s defs k app (n, m) g = Inr g'"
  shows "sources_inv ev (past @ [(app, m)]) g'"
proof -
  from add_model_Inr [OF run] have look: "\<And>key. map_of (g_sourceClass g') key =
      (if key \<in> source_keys ev m then Some (model_CanonicalLabel m) else map_of (g_sourceClass g) key)"
    and free: "\<And>key. key \<in> source_keys ev m \<Longrightarrow> map_of (g_sourceClass g) key \<in> {None, Some (model_CanonicalLabel m)}"
    by blast+
  have "map_of (g_sourceClass g') key = Some l \<longleftrightarrow>
      (\<exists>m' \<in> snd ` set (past @ [(app, m)]). key \<in> source_keys ev m' \<and> model_CanonicalLabel m' = l)" for key l
  proof -
    have old: "map_of (g_sourceClass g) key = Some l \<longleftrightarrow>
        (\<exists>m' \<in> snd ` set past. key \<in> source_keys ev m' \<and> model_CanonicalLabel m' = l)" for l
      using inv by (simp add: sources_inv_def)
    show ?thesis
    proof (cases "key \<in> source_keys ev m")
      case False
      then show ?thesis using old by (auto simp: look)
    next
      case True
      have only: "l = model_CanonicalLabel m"
        if m': "m' \<in> snd ` set past" "key \<in> source_keys ev m'" "model_CanonicalLabel m' = l" for m'
      proof -
        have "map_of (g_sourceClass g) key = Some l" using m' old by blast
        then show ?thesis using free [OF True] by simp
      qed
      have past: "snd ` set (past @ [(app, m)]) = insert m (snd ` set past)" by simp
      show ?thesis unfolding look if_P [OF True] option.inject past
      proof
        assume "\<exists>m' \<in> insert m (snd ` set past). key \<in> source_keys ev m' \<and> model_CanonicalLabel m' = l"
        then obtain m' where m': "m' \<in> insert m (snd ` set past)" "key \<in> source_keys ev m'"
          "model_CanonicalLabel m' = l" by blast
        show "model_CanonicalLabel m = l"
        proof (cases "m' = m")
          case False
          then show ?thesis using only [OF _ m'(2,3)] m'(1) by simp
        qed (use m'(3) in simp)
      qed (use True in blast)
    qed
  qed
  then show ?thesis by (simp add: sources_inv_def)
qed

definition module_entries :: "Graph \<Rightarrow> string \<Rightarrow> index_ptr list" where
  "module_entries g module = (case map_of (g_module g) module of None \<Rightarrow> [] | Some ps \<Rightarrow> ps)"

definition modules_inv :: "(App \<times> Model) list \<Rightarrow> Graph \<Rightarrow> bool" where
  "modules_inv past g \<longleftrightarrow> (\<forall>module. module_entries g module =
     map label_of (filter (\<lambda>am. model_Module (snd am) = module) past))"

lemma modules_inv_step:
  assumes inv: "modules_inv past g" and run: "add_model ev s defs k app (n, m) g = Inr g'"
  shows "modules_inv (past @ [(app, m)]) g'"
proof -
  have "g_module g' = g_module (add_module m g)"
    using add_model_Inr [OF run] by (auto simp: added_index_def)
  then have "module_entries g' module =
      (if module = model_Module m then module_entries g module @ [model_CanonicalLabel m] else module_entries g module)" for module
    by (simp add: module_entries_def add_module_def Let_def)
  then show ?thesis using inv by (simp add: modules_inv_def)
qed

definition build_inv :: "(string \<Rightarrow> string option) \<Rightarrow> (App \<times> Model) list \<Rightarrow> Graph \<Rightarrow> bool" where
  "build_inv ev past g \<longleftrightarrow> models_inv past g \<and> exports_inv past g \<and> sources_inv ev past g \<and> modules_inv past g"

lemma build_loop:
  assumes "fold_err (add_app ev s defs) apps (empty_graph s) = Inr g"
  shows "build_inv ev (models_of apps) g"
proof (rule models_loop [OF assms])
  show "build_inv ev [] (empty_graph s)"
    using models_inv_start
    by (simp add: build_inv_def exports_inv_def sources_inv_def modules_inv_def module_entries_def
        empty_graph_def export_labels_def export_entry_def)
next
  fix past k app n m a b
  assume inv: "build_inv ev past a" and run: "add_model ev s defs k app (n, m) a = Inr b"
  have models: "models_inv (past @ [(app, m)]) b"
    using inv models_inv_step [OF _ run] by (simp add: build_inv_def)
  then have "model_CanonicalLabel m \<notin> set (map label_of past)"
    by (auto simp: models_inv_def)
  then show "build_inv ev (past @ [(app, m)]) b"
    using models inv exports_inv_step [OF _ _ run] sources_inv_step [OF _ run] modules_inv_step [OF _ run]
    by (simp add: build_inv_def)
qed

section \<open>Linking\<close>

definition linked_ref :: "FieldRef \<Rightarrow> FieldRef" where
  "linked_ref ref = (case field_RelatedModel (fref_field ref) of
     None \<Rightarrow> ref | Some target \<Rightarrow> ref\<lparr>fref_related := Some target\<rparr>)"

definition targets_exist :: "modelIndex gomap \<Rightarrow> FieldRef \<Rightarrow> bool" where
  "targets_exist canonical ref \<longleftrightarrow>
     (field_SourceModelAbstract (fref_field ref) \<or> map_of canonical (field_SourceModel (fref_field ref)) \<noteq> None) \<and>
     (\<forall>target. field_RelatedModel (fref_field ref) = Some target \<longrightarrow> map_of canonical target \<noteq> None)"

definition parents_exist :: "modelIndex gomap \<Rightarrow> Model \<Rightarrow> bool" where
  "parents_exist canonical m \<longleftrightarrow> (\<forall>p \<in> set (model_Parents m).
     parent_Abstract p \<or> map_of canonical (parent_CanonicalLabel p) \<noteq> None)"

definition labelled :: "modelIndex gomap \<Rightarrow> bool" where
  "labelled canonical \<longleftrightarrow> (\<forall>l index. map_of canonical l = Some index \<longrightarrow> model_CanonicalLabel (mi_model index) = l)"

lemma link_field_Inr:
  assumes "link_field canonical label (n, ref) = Inr y" "labelled canonical"
  shows "y = (n, linked_ref ref) \<and> targets_exist canonical ref"
  using assms by (auto simp: link_field_def Let_def linked_ref_def targets_exist_def labelled_def
      split: option.splits)

lemma link_fields_Inr:
  assumes "map_err (link_field canonical label) store = Inr linked" "labelled canonical"
  shows "linked = map (\<lambda>(n, ref). (n, linked_ref ref)) store \<and>
    (\<forall>(n, ref) \<in> set store. targets_exist canonical ref)"
  using assms(1)
proof (induction store arbitrary: linked)
  case (Cons e store)
  obtain n ref where e: "e = (n, ref)" by fastforce
  from Cons.prems obtain y ys where "link_field canonical label (n, ref) = Inr y"
      "map_err (link_field canonical label) store = Inr ys" "linked = y # ys"
    by (auto simp: e bind_err_Inr)
  then show ?case using Cons.IH link_field_Inr [OF _ assms(2)] by (auto simp: e)
qed simp

definition linked_index :: "modelIndex \<Rightarrow> modelIndex" where
  "linked_index index = index\<lparr>mi_fields := map (\<lambda>(n, ref). (n, linked_ref ref)) (mi_fields index)\<rparr>"

definition index_closed :: "modelIndex gomap \<Rightarrow> modelIndex \<Rightarrow> bool" where
  "index_closed canonical index \<longleftrightarrow> (\<forall>(n, ref) \<in> set (mi_fields index). targets_exist canonical ref) \<and>
     parents_exist canonical (mi_model index)"

lemma link_model_Inr:
  assumes "link_model canonical (l, index) = Inr y" "labelled canonical"
  shows "y = (l, linked_index index) \<and> index_closed canonical index"
proof -
  from assms(1) obtain store where
      store: "map_err (link_field canonical (model_CanonicalLabel (mi_model index))) (mi_fields index) = Inr store"
    and parents: "\<forall>p \<in> set (model_Parents (mi_model index)).
        link_parent canonical (model_CanonicalLabel (mi_model index)) p = None"
    and y: "y = (l, index\<lparr>mi_fields := store\<rparr>)"
    by (auto simp: link_model_def Let_def bind_err_Inr)
  have "parents_exist canonical (mi_model index)"
    using parents by (auto simp: parents_exist_def link_parent_def)
  then show ?thesis
    using link_fields_Inr [OF store assms(2)] by (simp add: y linked_index_def index_closed_def)
qed

lemma link_models_Inr:
  assumes "map_err (link_model canonical) entries = Inr linked" "labelled canonical"
  shows "linked = map (\<lambda>(l, index). (l, linked_index index)) entries \<and>
    (\<forall>(l, index) \<in> set entries. index_closed canonical index)"
  using assms(1)
proof (induction entries arbitrary: linked)
  case (Cons e entries)
  obtain l index where e: "e = (l, index)" by fastforce
  from Cons.prems obtain y ys where "link_model canonical (l, index) = Inr y"
      "map_err (link_model canonical) entries = Inr ys" "linked = y # ys"
    by (auto simp: e bind_err_Inr)
  then show ?case using Cons.IH link_model_Inr [OF _ assms(2)] by (auto simp: e)
qed simp

section \<open>The graph that Build returns\<close>

text \<open>
  \<open>graph_spec ev s g\<close>: before linking, the graph is a fold over the models of the snapshot; the
  result differs only in the related models of its field references.
\<close>

definition graph_spec :: "(string \<Rightarrow> string option) \<Rightarrow> Snapshot \<Rightarrow> Graph \<Rightarrow> bool" where
  "graph_spec ev s g \<longleftrightarrow> (\<exists>g0. build_inv ev (models_of (snap_Apps s)) g0 \<and> g_snapshot g0 = s \<and>
     g = g0\<lparr>g_canonical := map (\<lambda>(l, index). (l, linked_index index)) (g_canonical g0)\<rparr> \<and>
     (\<forall>(l, index) \<in> set (g_canonical g0). index_closed (g_canonical g0) index))"

lemma models_inv_labelled: "models_inv past g \<Longrightarrow> labelled (g_canonical g)"
  unfolding labelled_def
proof (intro allI impI)
  fix l index
  assume inv: "models_inv past g" and "map_of (g_canonical g) l = Some index"
  then have "(l, index) \<in> set (g_canonical g)" by (simp add: map_of_SomeD)
  then obtain m where "model_CanonicalLabel m = l" "index_spec m index"
    using inv by (fastforce simp: models_inv_def)
  then show "model_CanonicalLabel (mi_model index) = l" by (simp add: index_spec_def)
qed

lemma snapshot_kept:
  assumes "fold_err (add_app ev s defs) apps g0 = Inr g"
  shows "g_snapshot g = g_snapshot g0"
proof (rule models_loop [where I = "\<lambda>_ g. g_snapshot g = g_snapshot g0", OF assms])
  fix past k app n m a b
  assume "g_snapshot a = g_snapshot g0" and run: "add_model ev s defs k app (n, m) a = Inr b"
  then show "g_snapshot b = g_snapshot g0" using add_model_Inr [OF run] by simp
qed simp

lemma Build_spec:
  assumes run: "Build ev s = Inr g" and maps: "snapshot_maps_ok s"
  shows "graph_spec ev s g"
proof -
  from run obtain defs g0 linked where
      loop: "fold_err (add_app ev s defs) (snap_Apps s) (empty_graph s) = Inr g0"
    and link: "map_err (link_model (g_canonical g0)) (g_canonical g0) = Inr linked"
    and g: "g = g0\<lparr>g_canonical := linked\<rparr>"
    unfolding Build_def cloneSnapshot_same [OF maps] Let_def by (auto simp: bind_err_Inr)
  have inv: "build_inv ev (models_of (snap_Apps s)) g0" by (rule build_loop [OF loop])
  then have "models_inv (models_of (snap_Apps s)) g0" by (simp add: build_inv_def)
  then have lab: "labelled (g_canonical g0)" by (rule models_inv_labelled)
  have "g_snapshot g0 = s" using snapshot_kept [OF loop] by (simp add: empty_graph_def)
  then show ?thesis
    using inv link_models_Inr [OF link lab] g unfolding graph_spec_def by blast
qed

text \<open>Lookups in the linked graph.\<close>

lemma map_of_linked:
  "map_of (map (\<lambda>(l, index). (l, linked_index index)) canonical) l = map_option linked_index (map_of canonical l)"
  by (induction canonical) auto

lemma graph_spec_model:
  assumes spec: "graph_spec ev s g" and m: "m \<in> snd ` set (models_of (snap_Apps s))"
  obtains index where "graph_model (Some g) (model_CanonicalLabel m) = Some (linked_index index)"
    and "index_spec m index" "keyed_fields m"
proof -
  from spec obtain g0 where inv: "models_inv (models_of (snap_Apps s)) g0"
    and g: "g = g0\<lparr>g_canonical := map (\<lambda>(l, index). (l, linked_index index)) (g_canonical g0)\<rparr>"
    by (auto simp: graph_spec_def build_inv_def)
  have "model_CanonicalLabel m \<in> set (map fst (g_canonical g0))"
    using inv m by (auto simp: models_inv_def)
  then obtain index where look: "map_of (g_canonical g0) (model_CanonicalLabel m) = Some index"
    by (metis list.set_map map_of_eq_None_iff option.exhaust)
  from map_of_SomeD [OF this] obtain m' where m': "m' \<in> snd ` set (models_of (snap_Apps s))"
      "model_CanonicalLabel m' = model_CanonicalLabel m" "index_spec m' index" "keyed_fields m'"
    using inv by (fastforce simp: models_inv_def)
  have "m' = m"
  proof -
    from m m'(1) obtain am am' where am: "am \<in> set (models_of (snap_Apps s))" "snd am = m"
        "am' \<in> set (models_of (snap_Apps s))" "snd am' = m'" by auto
    moreover have "inj_on label_of (set (models_of (snap_Apps s)))"
      using inv by (simp add: models_inv_def distinct_map)
    ultimately have "am = am'" using m'(2) by (metis inj_onD)
    then show ?thesis using am by simp
  qed
  then show ?thesis
    using that [of index] look m' by (simp add: graph_model_def g map_of_linked)
qed

lemma graph_spec_known:
  assumes spec: "graph_spec ev s g" and known: "graph_model (Some g) l = Some index'"
  obtains m index where "m \<in> snd ` set (models_of (snap_Apps s))" "model_CanonicalLabel m = l"
    "index_spec m index" "keyed_fields m" "index' = linked_index index"
    "\<And>n ref. (n, ref) \<in> set (mi_fields index) \<Longrightarrow>
       (field_SourceModelAbstract (fref_field ref) \<or> HasModel (Some g) (field_SourceModel (fref_field ref))) \<and>
       (\<forall>target. field_RelatedModel (fref_field ref) = Some target \<longrightarrow> HasModel (Some g) target)"
    "\<And>p. p \<in> set (model_Parents m) \<Longrightarrow> parent_Abstract p \<or> HasModel (Some g) (parent_CanonicalLabel p)"
proof -
  from spec obtain g0 where inv: "models_inv (models_of (snap_Apps s)) g0"
    and g: "g = g0\<lparr>g_canonical := map (\<lambda>(l, index). (l, linked_index index)) (g_canonical g0)\<rparr>"
    and closed: "\<forall>(l, index) \<in> set (g_canonical g0). index_closed (g_canonical g0) index"
    by (auto simp: graph_spec_def build_inv_def)
  have has: "HasModel (Some g) t \<longleftrightarrow> map_of (g_canonical g0) t \<noteq> None" for t
    by (simp add: HasModel_def graph_model_def g map_of_linked)
  from known obtain index where index: "map_of (g_canonical g0) l = Some index" "index' = linked_index index"
    by (auto simp: graph_model_def g map_of_linked)
  have mem: "(l, index) \<in> set (g_canonical g0)" using index(1) by (simp add: map_of_SomeD)
  then obtain m where m: "m \<in> snd ` set (models_of (snap_Apps s))" "model_CanonicalLabel m = l"
      "index_spec m index" "keyed_fields m"
    using inv by (fastforce simp: models_inv_def)
  have c: "index_closed (g_canonical g0) index" using closed mem by blast
  have "mi_model index = m" using m(3) by (simp add: index_spec_def)
  show ?thesis
  proof (rule that [OF m index(2)])
    fix n ref
    assume "(n, ref) \<in> set (mi_fields index)"
    then show "(field_SourceModelAbstract (fref_field ref) \<or> HasModel (Some g) (field_SourceModel (fref_field ref))) \<and>
       (\<forall>target. field_RelatedModel (fref_field ref) = Some target \<longrightarrow> HasModel (Some g) target)"
      using c unfolding has index_closed_def targets_exist_def by blast
  next
    fix p
    assume "p \<in> set (model_Parents m)"
    then show "parent_Abstract p \<or> HasModel (Some g) (parent_CanonicalLabel p)"
      using c \<open>mi_model index = m\<close> unfolding has index_closed_def parents_exist_def by blast
  qed
qed

section \<open>What the operations of the graph return\<close>

lemma field_at_linked [simp]:
  "map_of (mi_fields index) p = Some ref \<Longrightarrow> field_at (linked_index index) p = linked_ref ref"
  by (simp add: field_at_def linked_index_def map_of_map)

lemma linked_index_tables [simp]:
  "mi_model (linked_index i) = mi_model i" "mi_queryByName (linked_index i) = mi_queryByName i"
  "mi_queryAccess (linked_index i) = mi_queryAccess i" "mi_instanceByName (linked_index i) = mi_instanceByName i"
  "mi_instanceAccess (linked_index i) = mi_instanceAccess i" "mi_relations (linked_index i) = mi_relations i"
  "mi_managers (linked_index i) = mi_managers i" "mi_managerOrder (linked_index i) = mi_managerOrder i"
  by (simp_all add: linked_index_def)

lemma linked_fields:
  assumes "index_spec m index"
  shows "map_of (mi_fields (linked_index index)) n =
    (if n \<in> fst ` set (model_Fields m)
     then Some \<lparr>fref_field = model_field m n, fref_related = field_RelatedModel (model_field m n)\<rparr> else None)"
proof -
  have "map_of (mi_fields index) n = (if n \<in> fst ` set (model_Fields m)
     then Some \<lparr>fref_field = model_field m n, fref_related = None\<rparr> else None)"
    using assms by (simp add: index_spec_def names_ok_def sortedFieldNames_def)
  then show ?thesis
    by (simp add: linked_index_def map_of_map linked_ref_def split: option.split)
qed

text \<open>Strict order of a listing by the code's own comparison.\<close>

lemma listed_strict:
  assumes "listed m xs"
  shows "sorted_wrt accessLess xs"
proof -
  have names: "distinct (map fa_Name xs)" and order: "sorted (map access_key xs)"
    using assms by (simp_all add: listed_def agrees_def)
  have "sorted_wrt (\<lambda>a b. access_key a \<le> access_key b) xs" using order by (simp add: sorted_map)
  moreover have "sorted_wrt (\<lambda>a b. fa_Name a \<noteq> fa_Name b) xs"
    using names by (induction xs) auto
  ultimately have "sorted_wrt (\<lambda>a b. access_key a \<le> access_key b \<and> fa_Name a \<noteq> fa_Name b) xs"
    by (induction xs) auto
  then show ?thesis
    by (rule sorted_wrt_mono_rel [rotated]) (auto simp: accessLess_def access_key_def less_eq_prod_def)
qed

lemma accessLess_map_access [simp]: "accessLess (access_at i a) (access_at i b) = accessLess a b"
  by (simp add: accessLess_def access_at_def map_access_def)

lemma fa_Name_access_at [simp]: "fa_Name (access_at i a) = fa_Name a"
  by (simp add: access_at_def map_access_def)

lemma visited_listing:
  assumes "listed m xs"
  shows "sorted_wrt accessLess (map (access_at i) xs)"
    and "map_option (access_at i) (map_of m n) = Some a \<longleftrightarrow> a \<in> set (map (access_at i) xs) \<and> fa_Name a = n"
proof -
  show "sorted_wrt accessLess (map (access_at i) xs)"
    using listed_strict [OF assms] by (simp add: sorted_wrt_map)
  have "map_of m n = Some b \<longleftrightarrow> b \<in> set xs \<and> fa_Name b = n" for b
    using assms by (simp add: listed_def agrees_def)
  then show "map_option (access_at i) (map_of m n) = Some a \<longleftrightarrow> a \<in> set (map (access_at i) xs) \<and> fa_Name a = n"
    by auto
qed

text \<open>Lookups and visits of one table are two views of the same entries.\<close>

definition lookup_matches_visit :: "(string \<Rightarrow> 'f FieldAccess option) \<Rightarrow> bool \<times> 'f FieldAccess list \<Rightarrow> bool" where
  "lookup_matches_visit lookup visited \<longleftrightarrow> fst visited \<and> sorted_wrt accessLess (snd visited) \<and>
     (\<forall>n a. lookup n = Some a \<longleftrightarrow> a \<in> set (snd visited) \<and> fa_Name a = n)"

lemma visit_listing_collect: "visit_listing (Some xs) collect [] = (True, xs)"
  by (simp add: visit_listing_def visit_while_collect)

lemma graph_views:
  assumes spec: "graph_spec ev s g" and known: "HasModel (Some g) l"
  shows "lookup_matches_visit (QueryAccess (Some g) l) (VisitQueryFields (Some g) l collect [])"
    and "lookup_matches_visit (InstanceAccess (Some g) l) (VisitInstanceFields (Some g) l collect [])"
    and "lookup_matches_visit (\<lambda>n. Relation (Some g) l n ctxt) (VisitRelations (Some g) l ctxt collect [])"
proof -
  from known obtain index' where index': "graph_model (Some g) l = Some index'"
    by (auto simp: HasModel_def)
  from graph_spec_known [OF spec this] obtain m index where
      index: "index_spec m index" "index' = linked_index index" by metis
  have tables: "listed (mi_queryByName index) (mi_queryAccess index)"
      "listed (mi_instanceByName index) (mi_instanceAccess index)"
      "\<And>c. listed (rel_byName (mi_relations index c)) (rel_ordered (mi_relations index c))"
    using index(1) by (simp_all add: index_spec_def)
  show "lookup_matches_visit (QueryAccess (Some g) l) (VisitQueryFields (Some g) l collect [])"
    unfolding lookup_matches_visit_def VisitQueryFields_def visitFields_def QueryAccess_def index' index(2)
    using visited_listing [OF tables(1)] by (simp add: visit_listing_collect)
  show "lookup_matches_visit (InstanceAccess (Some g) l) (VisitInstanceFields (Some g) l collect [])"
    unfolding lookup_matches_visit_def VisitInstanceFields_def visitFields_def InstanceAccess_def index' index(2)
    using visited_listing [OF tables(2)] by (simp add: visit_listing_collect)
  show "lookup_matches_visit (\<lambda>n. Relation (Some g) l n ctxt) (VisitRelations (Some g) l ctxt collect [])"
    unfolding lookup_matches_visit_def VisitRelations_def Relation_def index' index(2)
    using visited_listing [OF tables(3)] by (simp add: visit_listing_collect)
qed

text \<open>The declared access of a forward field wins its name.\<close>

lemma declared_entry_owner:
  assumes "a \<in> set (query_entries f p)" "fa_Kind a = FieldAccessDeclared" "fa_Name a \<noteq> ''pk''"
  shows "fa_Name a = field_Name f \<and> fa_Field a = p"
  using assms by (auto simp: query_entries_def split: if_splits option.splits)

lemma instance_entry_owner:
  assumes "a \<in> set (instance_entries f p)" "fa_Kind a = FieldAccessDeclared" "fa_Name a \<noteq> ''pk''"
  shows "fa_Name a = field_Name f \<and> fa_Field a = p"
  using assms declared_entry_owner by (auto simp: instance_entries_def split: if_splits)

lemma winner_declared:
  assumes mem: "\<lparr>fa_Name = n, fa_Kind = FieldAccessDeclared, fa_Field = p\<rparr> \<in> set entries"
    and only: "\<And>a. a \<in> set entries \<Longrightarrow> fa_Kind a = FieldAccessDeclared \<Longrightarrow> fa_Name a = n \<Longrightarrow> fa_Field a = p"
    and n: "entry_name_ok n"
  shows "winner entries n = Some \<lparr>fa_Name = n, fa_Kind = FieldAccessDeclared, fa_Field = p\<rparr>"
proof -
  from winner_exists [OF mem] n obtain a where a: "winner entries n = Some a" by auto
  have "fa_Kind a \<le> FieldAccessDeclared" using winner_least [OF a mem] by simp
  then have "fa_Kind a = FieldAccessDeclared" by (cases "fa_Kind a") (simp_all add: less_eq_FieldAccessKind_def)
  moreover note winner_mem [OF a]
  ultimately have "a = \<lparr>fa_Name = n, fa_Kind = FieldAccessDeclared, fa_Field = p\<rparr>" using only by simp
  then show ?thesis using a by simp
qed

lemma keyed_model_field:
  assumes "keyed_fields m" "n \<in> fst ` set (model_Fields m)"
  shows "field_Name (model_field m n) = n \<and> n \<noteq> ''''"
proof -
  from assms(2) obtain f where "map_of (model_Fields m) n = Some f"
    by (metis map_of_eq_None_iff option.exhaust)
  then show ?thesis using assms(1) by (fastforce simp: keyed_fields_def model_field_def dest: map_of_SomeD)
qed

lemma declared_wins:
  assumes keyed: "keyed_fields m" and n: "n \<in> fst ` set (model_Fields m)"
    and fwd: "\<not> is_reverse (model_field m n)" and names: "n \<noteq> ''pk''" "n \<noteq> ''+''"
  shows "winner (model_query_entries m) n = Some \<lparr>fa_Name = n, fa_Kind = FieldAccessDeclared, fa_Field = n\<rparr>"
    and "winner (model_instance_entries m) n = Some \<lparr>fa_Name = n, fa_Kind = FieldAccessDeclared, fa_Field = n\<rparr>"
proof -
  let ?a = "\<lparr>fa_Name = n, fa_Kind = FieldAccessDeclared, fa_Field = n\<rparr>"
  have set: "set (sortedFieldNames (model_Fields m)) = fst ` set (model_Fields m)" by (simp add: sortedFieldNames_def)
  have ok: "entry_name_ok n" using keyed_model_field [OF keyed n] names by (simp add: entry_name_ok_def)
  have mem: "?a \<in> set (query_entries (model_field m n) n)" "?a \<in> set (instance_entries (model_field m n) n)"
    using keyed_model_field [OF keyed n] fwd by (simp_all add: query_entries_def instance_entries_def)
  have only: "fa_Field a = n"
    if "n' \<in> fst ` set (model_Fields m)" "a \<in> set (instance_entries (model_field m n') n') \<or> a \<in> set (query_entries (model_field m n') n')"
      "fa_Kind a = FieldAccessDeclared" "fa_Name a = n" for a n'
    using that names(1) declared_entry_owner [of a "model_field m n'" n'] instance_entry_owner [of a "model_field m n'" n']
      keyed_model_field [OF keyed that(1)] by auto
  show "winner (model_query_entries m) n = Some ?a"
    by (rule winner_declared [OF _ _ ok]) (use mem n set only in \<open>auto simp: model_query_entries_def\<close>)
  show "winner (model_instance_entries m) n = Some ?a"
    by (rule winner_declared [OF _ _ ok]) (use mem n set only in \<open>auto simp: model_instance_entries_def\<close>)
qed

lemma snapshot_model_field:
  assumes "snapshot_maps_ok s" "m \<in> snd ` set (models_of (snap_Apps s))" "(n, f) \<in> set (model_Fields m)"
  shows "model_field m n = f"
proof -
  from assms(2) obtain k app n' where "(k, app) \<in> set (snap_Apps s)" "(n', m) \<in> set (app_Models app)"
    by (auto simp: models_of_def)
  then have "gomap_ok (model_Fields m)" using assms(1) by (fastforce simp: snapshot_maps_ok_def)
  then show ?thesis using assms(3) by (simp add: model_field_def gomap_lookup_iff [THEN iffD2])
qed

end
