(* ===== verification/Schema_Sample.thy ===== *)
theory Schema_Sample
  imports Schema_Build
begin

text \<open>
  A small snapshot in which all hypotheses of the schema theorems hold: an app with two models, one
  of which has a foreign key to the other. The theorems are applied to it in their witnesses.
\<close>

definition sample_place :: SourceRange where
  "sample_place = \<lparr>sr_FilePath = ''/m'', sr_SourceDigest = replicate 64 (CHR ''a''),
     sr_Start = \<lparr>pos_Line = 1, pos_Column = 0\<rparr>, sr_End = \<lparr>pos_Line = 2, pos_Column = 0\<rparr>\<rparr>"

abbreviation sample_range :: "SourceRange option" where
  "sample_range \<equiv> Some sample_place"

lemma sample_place [simp]:
  "validateRange sample_range = None" "sr_FilePath sample_place = ''/m''" "pos_Line (sr_Start sample_place) = 1"
  by code_simp+

definition sample_manager :: "string \<Rightarrow> Manager" where
  "sample_manager owner = \<lparr>manager_Name = ''objects'', manager_OwnerClass = owner,
     manager_QuerySetClass = Some ''QuerySet'', manager_Default = True,
     manager_Local = True, manager_AutoCreated = True, manager_SourceRange = sample_range,
     manager_Methods = [],
     manager_QuerySetMethods = [\<lparr>bound_Method = \<lparr>mkey_Name = ''filter'',
       mkey_OwnerClass = ''QuerySet''\<rparr>, bound_AvailableOnManager = True\<rparr>]\<rparr>"

definition sample_method :: Method where
  "sample_method = \<lparr>method_Name = ''filter'', method_OwnerClass = ''QuerySet'',
     method_Signature = Some ''(*args, **kwargs)'', method_Docstring = None,
     method_SourceRange = sample_range, method_Chainable = True, method_AssumedChainable = False\<rparr>"

definition sample_model :: "string \<Rightarrow> string \<Rightarrow> Field gomap \<Rightarrow> Model" where
  "sample_model label qualname fs = \<lparr>model_CanonicalLabel = label, model_Module = ''s.models'',
     model_Qualname = qualname, model_FilePath = ''/m'', model_LineNumber = 1,
     model_SourceRange = sample_range, model_Docstring = None, model_Abstract = False,
     model_Proxy = False, model_Managed = True, model_Swapped = False, model_HasAbstractParent = False,
     model_MultiTableChild = False, model_Parents = [], model_DefaultManager = ''objects'',
     model_BaseManager = \<lparr>base_Name = ''_base_manager'', base_OwnerClass = ''Manager''\<rparr>,
     model_CustomManagers = [], model_Managers = [sample_manager label],
     model_QuerySetMethods = [\<lparr>mkey_Name = ''filter'', mkey_OwnerClass = ''QuerySet''\<rparr>],
     model_Indexes = [], model_Constraints = [], model_Fields = fs\<rparr>"

definition sample_relation :: Field where
  "sample_relation = zero_Field\<lparr>field_Type := ''ForeignKey'', field_Lookups := [''exact''],
     field_InternalType := ''ForeignKey'', field_SourceModel := ''s.Book'', field_SourceRange := sample_range,
     field_IsRelation := True\<rparr>"

definition sample_author :: Model where
  "sample_author = sample_model ''s.Author'' ''Author''
     [(''book'', sample_relation\<lparr>field_Name := ''book'', field_RelatedModel := Some ''s.Book'',
         field_RelationDirection := Some ''reverse'', field_RelationCardinality := Some ''one-to-many'',
         field_AccessorName := Some ''book_set'', field_QueryName := Some ''book''\<rparr>)]"

definition sample_book :: Model where
  "sample_book = sample_model ''s.Book'' ''Book''
     [(''author'', sample_relation\<lparr>field_Name := ''author'', field_RelatedModel := Some ''s.Author'',
         field_RelationDirection := Some ''forward'', field_RelationCardinality := Some ''many-to-one'',
         field_Attname := Some ''author_id''\<rparr>)]"

definition sample_app :: App where
  "sample_app = \<lparr>app_Label = ''s'', app_ImportName = ''s'', app_RootPath = ''/'',
     app_Models = [(''Author'', sample_author), (''Book'', sample_book)]\<rparr>"

definition sample_snapshot :: Snapshot where
  "sample_snapshot = \<lparr>snap_SchemaVersion = 3, snap_PositionEncoding = ''utf-8-bytes'',
     snap_LookupTransformMaxDepth = 2, snap_LookupPathMaxCount = 512,
     snap_SchemaSources = [''/m''], snap_SchemaSourcesComplete = True,
     snap_QuerySetMethodDefs = [sample_method], snap_Apps = [(''s'', sample_app)]\<rparr>"

lemma sample_maps_ok: "snapshot_maps_ok sample_snapshot"
  by code_simp

text \<open>
  \<open>Build\<close> accepts the snapshot. The evaluation keeps the models folded and rewrites with what each
  stage reads of them.
\<close>

definition sample_methods :: method_defs where
  "sample_methods = [(''QuerySet'' @ CHR 0x00 # ''filter'', sample_method)]"

lemma sample_methods_built: "buildQuerySetMethodDefs sample_snapshot = Inr sample_methods"
  by (simp add: sample_methods_def buildQuerySetMethodDefs_def sample_snapshot_def add_method_def_def
      validateMethod_def sample_method_def method_key_def Let_def)

lemmas sample_model_defs = sample_author_def sample_book_def sample_relation_def sample_model_def
  sample_manager_def sample_method_def sample_methods_def zero_Field_def

lemmas validate_eval = check_resolved_method_def validateModel_def Let_def validateField_def
  resolveQuerySetMethod_def validateMethod_def method_key_def

lemma sample_valid:
  "validateModel ''s'' ''Author'' sample_author sample_snapshot sample_methods = None"
  "validateModel ''s'' ''Book'' sample_book sample_snapshot sample_methods = None"
  by (simp_all add: validate_eval sample_model_defs sample_snapshot_def)

lemma sample_names:
  "sortedFieldNames (model_Fields sample_author) = [''book'']"
  "sortedFieldNames (model_Fields sample_book) = [''author'']"
  by (simp_all add: sortedFieldNames_def sample_author_def sample_book_def sample_model_def)

lemmas index_eval = Let_def bind_err_def index_field_names_def when_some_def when_true_def
  claim_query_name_def claim_attname_def claim_accessor_def is_reverse_def model_field_def empty_index_def
  index_queryset_method_def resolveQuerySetMethod_def method_key_def index_manager_def index_binding_def
  index_field_access_def ensureQuerySet_def add_queryset_method_def addAccess_def table_add_def
  addRelation_def or_name_def index_reverse_access_def index_forward_access_def finish_index_def

lemma sample_author_index:
  "\<exists>i f. buildModelIndex ''Author'' sample_author sample_methods = Inr i \<and> mi_model i = sample_author \<and>
     mi_fields i = [(''book'', \<lparr>fref_field = f, fref_related = None\<rparr>)] \<and>
     field_SourceModel f = ''s.Book'' \<and> field_RelatedModel f = Some ''s.Book''"
  unfolding buildModelIndex_def Let_def sample_names by (simp add: index_eval sample_model_defs)

lemma sample_book_index:
  "\<exists>i f. buildModelIndex ''Book'' sample_book sample_methods = Inr i \<and> mi_model i = sample_book \<and>
     mi_fields i = [(''author'', \<lparr>fref_field = f, fref_related = None\<rparr>)] \<and>
     field_SourceModel f = ''s.Book'' \<and> field_RelatedModel f = Some ''s.Author'' \<and>
     map_of (rel_byName (mi_relations i RelationSelectRelated)) ''author'' \<noteq> None \<and>
     map_of (mi_queryByName i) ''author'' \<noteq> None"
  unfolding buildModelIndex_def Let_def sample_names by (simp add: index_eval sample_model_defs order_relation_def)

lemma sample_labels [simp]:
  "model_CanonicalLabel sample_author = ''s.Author''" "model_CanonicalLabel sample_book = ''s.Book''"
  "model_Qualname sample_author = ''Author''" "model_Qualname sample_book = ''Book''"
  "model_Parents sample_author = []" "model_Parents sample_book = []"
  "class_path sample_author = ''s.models.Author''" "class_path sample_book = ''s.models.Book''"
  by (simp_all add: class_path_def sample_author_def sample_book_def sample_model_def)

lemma sample_sources:
  "source_paths Some sample_author = [''/m'']" "source_paths Some sample_book = [''/m'']"
  "sourceClassKey ''/m'' ''Author'' = ''/m'' @ CHR 0x00 # ''Author''"
  "sourceClassKey ''/m'' ''Book'' = ''/m'' @ CHR 0x00 # ''Book''"
  by code_simp+

lemma sample_graph:
  obtains g where "Build Some sample_snapshot = Inr g"
    and "SelectRelatedRelation (Some g) ''s.Book'' ''author'' \<noteq> None"
    and "QueryAccess (Some g) ''s.Book'' ''author'' \<noteq> None"
proof -
  obtain i f where i: "buildModelIndex ''Author'' sample_author sample_methods = Inr i" "mi_model i = sample_author"
      "mi_fields i = [(''book'', \<lparr>fref_field = f, fref_related = None\<rparr>)]"
      "field_SourceModel f = ''s.Book''" "field_RelatedModel f = Some ''s.Book''"
    using sample_author_index by blast
  obtain j h where j: "buildModelIndex ''Book'' sample_book sample_methods = Inr j" "mi_model j = sample_book"
      "mi_fields j = [(''author'', \<lparr>fref_field = h, fref_related = None\<rparr>)]"
      "field_SourceModel h = ''s.Book''" "field_RelatedModel h = Some ''s.Author''"
      "map_of (rel_byName (mi_relations j RelationSelectRelated)) ''author'' \<noteq> None"
      "map_of (mi_queryByName j) ''author'' \<noteq> None"
    using sample_book_index by blast
  have app: "add_app Some sample_snapshot sample_methods (''s'', sample_app) g0 =
      fold_err (add_model Some sample_snapshot sample_methods ''s'' sample_app)
        [(''Author'', sample_author), (''Book'', sample_book)] g0" for g0
    by (simp add: add_app_def sample_app_def)
  have added: "\<exists>g. fold_err (add_model Some sample_snapshot sample_methods ''s'' sample_app)
        [(''Author'', sample_author), (''Book'', sample_book)] (empty_graph sample_snapshot) = Inr g \<and>
      g_canonical g = [(''s.Author'', i), (''s.Book'', j)]"
    by (simp add: add_model_def sample_valid i(1) j(1) empty_graph_def add_export_def export_path_def Let_def
        sample_sources add_source_class_def add_module_def split: option.split)
  then obtain g where built: "fold_err (add_model Some sample_snapshot sample_methods ''s'' sample_app)
        [(''Author'', sample_author), (''Book'', sample_book)] (empty_graph sample_snapshot) = Inr g"
      "g_canonical g = [(''s.Author'', i), (''s.Book'', j)]" by blast
  have "fold_err (add_app Some sample_snapshot sample_methods) [(''s'', sample_app)] (empty_graph sample_snapshot) = Inr g"
    unfolding fold_err.simps(2) [of _ "(''s'', sample_app)"] app built(1) by simp
  then have g: "fold_err (add_app Some sample_snapshot sample_methods) (snap_Apps sample_snapshot)
        (empty_graph sample_snapshot) = Inr g" by (simp add: sample_snapshot_def)
  have "\<exists>linked j'. map_err (link_model (g_canonical g)) (g_canonical g) = Inr linked \<and>
      map_of linked ''s.Book'' = Some j' \<and> mi_relations j' = mi_relations j \<and> mi_queryByName j' = mi_queryByName j"
    using i(2-) j(2-) by (simp add: built(2) link_model_def link_field_def Let_def check_each_def)
  then obtain linked j' where linked: "map_err (link_model (g_canonical g)) (g_canonical g) = Inr linked"
      "map_of linked ''s.Book'' = Some j'" "mi_relations j' = mi_relations j"
      "mi_queryByName j' = mi_queryByName j" by blast
  have "first_err
        [check (snap_SchemaVersion sample_snapshot \<noteq> Version)
           (errorf ''schema version %d, want %d'' [AInt (snap_SchemaVersion sample_snapshot), AInt Version]),
         check (snap_PositionEncoding sample_snapshot \<noteq> PositionEncoding)
           (errorf ''position encoding %q, want %q''
              [AStr (snap_PositionEncoding sample_snapshot), AStr PositionEncoding]),
         check (snap_LookupTransformMaxDepth sample_snapshot \<noteq> maxLookupDepth \<or>
                snap_LookupPathMaxCount sample_snapshot \<noteq> maxLookupPaths)
           (errorf ''invalid lookup bounds'' [])] = None"
    and "snap_SchemaSources sample_snapshot = [''/m'']"
    by (simp_all add: sample_snapshot_def Version_def PositionEncoding_def maxLookupDepth_def maxLookupPaths_def)
  then have "Build Some sample_snapshot = Inr (g\<lparr>g_canonical := linked\<rparr>)"
    unfolding Build_def cloneSnapshot_same [OF sample_maps_ok] Let_def sample_methods_built bind_err_simps g linked(1)
    by (simp add: check_each_def)
  moreover have "SelectRelatedRelation (Some (g\<lparr>g_canonical := linked\<rparr>)) ''s.Book'' ''author'' \<noteq> None"
    using j(6) linked(2,3) by (simp add: SelectRelatedRelation_def Relation_def graph_model_def)
  moreover have "QueryAccess (Some (g\<lparr>g_canonical := linked\<rparr>)) ''s.Book'' ''author'' \<noteq> None"
    using j(7) linked(2,4) by (simp add: QueryAccess_def graph_model_def)
  ultimately show ?thesis by (rule that)
qed

lemma sample_models: "models_of (snap_Apps sample_snapshot) = [(sample_app, sample_author), (sample_app, sample_book)]"
  by (simp add: models_of_def sample_snapshot_def sample_app_def)

end
