(* ===== verification/Schema_Cache.thy ===== *)
theory Schema_Cache
  imports Pogo_Prelude "HOL-Library.Word"
begin

text \<open>
  The cache that publishes schema graphs to the editor features (\<open>internal/schema/cache.go\<close>): one
  atomic pointer to a graph and its generation, replaced under a mutex. Each \<open>Load\<close> and each
  \<open>Replace\<close> is one atomic step, so a run is a sequence of them. The generation is a \<open>uint64\<close> and
  wraps after \<open>2 ^ 64\<close> replacements. The type of graphs is a parameter.
\<close>

record 'g cacheState =
  cs_graph :: "'g option"
  cs_generation :: "64 word"

record 'g Cache =
  cache_state :: "'g cacheState option"

definition newCache :: "'g Cache" where
  "newCache = \<lparr>cache_state = None\<rparr>"

definition cache_Load :: "'g Cache \<Rightarrow> 'g option \<times> 64 word" where
  "cache_Load cache =
     (case cache_state cache of
        None \<Rightarrow> (None, 0)
      | Some st \<Rightarrow> (cs_graph st, cs_generation st))"

definition cache_Replace :: "'g option \<Rightarrow> 'g Cache \<Rightarrow> 'g Cache \<times> 64 word" where
  "cache_Replace graph cache =
     (let generation = (case cache_state cache of None \<Rightarrow> 0 | Some current \<Rightarrow> cs_generation current)
      in case graph of
           None \<Rightarrow> (cache, generation)
         | Some g \<Rightarrow>
             (cache\<lparr>cache_state := Some \<lparr>cs_graph = Some g, cs_generation = generation + 1\<rparr>\<rparr>,
              generation + 1))"

section \<open>What users of the cache rely on\<close>

text \<open>The graphs among a sequence of arguments of \<open>Replace\<close>; a nil graph publishes nothing.\<close>

fun published :: "'g option list \<Rightarrow> 'g list" where
  "published [] = []"
| "published (None # gs) = published gs"
| "published (Some g # gs) = g # published gs"

text \<open>
  The worker manager replaces graphs and the editor features load them. Both rely on three laws,
  from which the rest follows for any number of replacements.
\<close>

locale generation_cache =
  fixes new :: "'c"
    and load :: "'c \<Rightarrow> 'g option \<times> 64 word"
    and replace :: "'g option \<Rightarrow> 'c \<Rightarrow> 'c \<times> 64 word"
  assumes load_new: "load new = (None, 0)"
    and replace_nil: "replace None c = (c, snd (load c))"
    and load_replace: "load (fst (replace (Some g) c)) = (Some g, snd (load c) + 1)"
    and replace_result: "snd (replace (Some g) c) = snd (load c) + 1"
begin

lemma generation_counts:
  "snd (load (fold (\<lambda>g c. fst (replace g c)) gs c)) = snd (load c) + of_nat (length (published gs))"
proof (induction gs arbitrary: c)
  case (Cons g gs)
  then show ?case
    by (cases g) (simp_all add: replace_nil load_replace)
qed simp

lemma last_published:
  "fst (load (fold (\<lambda>g c. fst (replace g c)) gs c)) =
     (if published gs = [] then fst (load c) else Some (last (published gs)))"
proof (induction gs arbitrary: c)
  case (Cons g gs)
  then show ?case
    by (cases g) (simp_all add: replace_nil load_replace)
qed simp

text \<open>
  A reader that finds the generation it saw before finds the same graph, as long as fewer than
  \<open>2 ^ 64\<close> graphs were published in between.
\<close>

lemma same_generation_same_graph:
  assumes "length (published gs) < 2 ^ 64"
    and "snd (load (fold (\<lambda>g c. fst (replace g c)) gs c)) = snd (load c)"
  shows "load (fold (\<lambda>g c. fst (replace g c)) gs c) = load c"
proof -
  have "of_nat (length (published gs)) = (0 :: 64 word)"
    using assms(2) by (simp add: generation_counts)
  then have "2 ^ 64 dvd length (published gs)"
    by (simp add: word_of_nat_eq_0_iff)
  then have "published gs = []"
    using assms(1) nat_dvd_not_less by blast
  then show ?thesis
    using assms(2) last_published [of gs c] by (simp add: prod_eq_iff)
qed

end

interpretation schema_cache: generation_cache newCache cache_Load cache_Replace
  by unfold_locales
    (simp_all add: newCache_def cache_Load_def cache_Replace_def Let_def split: option.splits)

end
