(* ===== verification/Schema_Properties.thy ===== *)
theory Schema_Properties
  imports Schema_Sample Schema_Cache
begin

text \<open>
  The properties of the schema graph, stated over the operations of a built graph, with their
  applications to the sample snapshot.
\<close>

section \<open>Models, fields and pointers\<close>

text \<open>C1. No reference of a built graph dangles: the related model of a field is the one the snapshot
  names, it is in the graph, and so is the model that declares the field unless it is abstract.\<close>

theorem Build_no_dangling_reference:
  assumes "Build ev s = Inr g" and "snapshot_maps_ok s" and "graph_Field (Some g) l n = Some ref"
  shows "FieldRef_RelatedModel (Some ref) = field_RelatedModel (fref_field ref) \<and>
    (\<forall>target. FieldRef_RelatedModel (Some ref) = Some target \<longrightarrow> HasModel (Some g) target) \<and>
    (field_SourceModelAbstract (fref_field ref) \<or> HasModel (Some g) (FieldRef_SourceModel (Some ref)))"
proof -
  from assms(3) obtain index' where known: "graph_model (Some g) l = Some index'"
    and n: "map_of (mi_fields index') n = Some ref"
    by (auto simp: graph_Field_def bind_eq_Some_conv)
  from graph_spec_known [OF Build_spec [OF assms(1,2)] known] obtain m index where
      index: "index_spec m index" "index' = linked_index index"
    and closed: "\<And>n ref. (n, ref) \<in> set (mi_fields index) \<Longrightarrow>
       (field_SourceModelAbstract (fref_field ref) \<or> HasModel (Some g) (field_SourceModel (fref_field ref))) \<and>
       (\<forall>target. field_RelatedModel (fref_field ref) = Some target \<longrightarrow> HasModel (Some g) target)"
    by metis
  have ref: "fref_related ref = field_RelatedModel (fref_field ref)"
    using n linked_fields [OF index(1), of n] index(2) by (auto split: if_splits)
  from n index(2) obtain ref0 where "(n, ref0) \<in> set (mi_fields index)" "ref = linked_ref ref0"
    by (auto simp: linked_index_def map_of_map dest: map_of_SomeD)
  moreover have "fref_field (linked_ref ref0) = fref_field ref0" for ref0
    by (simp add: linked_ref_def split: option.split)
  ultimately show ?thesis
    using closed [of n ref0] ref by (simp add: FieldRef_RelatedModel_def FieldRef_SourceModel_def)
qed

theorem Build_no_dangling_reference_witness:
  "\<exists>g ref. Build Some sample_snapshot = Inr g \<and> graph_Field (Some g) ''s.Book'' ''author'' = Some ref \<and>
     FieldRef_RelatedModel (Some ref) = Some ''s.Author'' \<and> HasModel (Some g) ''s.Author''"
proof -
  obtain g where g: "Build Some sample_snapshot = Inr g" by (rule sample_graph)
  obtain index where index: "graph_model (Some g) ''s.Book'' = Some (linked_index index)" "index_spec sample_book index"
    by (rule graph_spec_model [OF Build_spec [OF g sample_maps_ok], of sample_book]) (simp_all add: sample_models)
  have f: "model_Fields sample_book = [(''author'', model_field sample_book ''author'')]"
    "field_RelatedModel (model_field sample_book ''author'') = Some ''s.Author''"
    by (simp_all add: sample_book_def sample_model_def model_field_def)
  have ref: "graph_Field (Some g) ''s.Book'' ''author'' =
      Some \<lparr>fref_field = model_field sample_book ''author'', fref_related = Some ''s.Author''\<rparr>"
    using linked_fields [OF index(2), of "''author''"] f by (simp add: graph_Field_def index(1))
  show ?thesis
    using Build_no_dangling_reference [OF g sample_maps_ok ref] g ref f(2) by (auto simp: FieldRef_RelatedModel_def)
qed

text \<open>A built graph knows exactly the models of the snapshot, each under its canonical label and
  under its class path, with exactly its fields.\<close>

theorem Build_knows_models:
  assumes "Build ev s = Inr g" and "snapshot_maps_ok s"
  shows "ModelCount (Some g) = length (models_of (snap_Apps s)) \<and>
    (\<forall>l. HasModel (Some g) l \<longleftrightarrow> (\<exists>m \<in> snd ` set (models_of (snap_Apps s)). model_CanonicalLabel m = l)) \<and>
    (\<forall>m \<in> snd ` set (models_of (snap_Apps s)).
       CanonicalLabelForClass (Some g) (class_path m) = Some (model_CanonicalLabel m) \<and>
       (\<forall>n. graph_Field (Some g) (model_CanonicalLabel m) n =
          (if n \<in> fst ` set (model_Fields m)
           then Some \<lparr>fref_field = model_field m n, fref_related = field_RelatedModel (model_field m n)\<rparr> else None)))"
proof (intro conjI)
  note spec = Build_spec [OF assms]
  from spec obtain g0 where inv: "models_inv (models_of (snap_Apps s)) g0"
    and g: "g = g0\<lparr>g_canonical := map (\<lambda>(l, index). (l, linked_index index)) (g_canonical g0)\<rparr>"
    by (auto simp: graph_spec_def build_inv_def)
  have keys: "map fst (g_canonical g0) = map label_of (models_of (snap_Apps s))"
    using inv by (simp add: models_inv_def)
  then have "length (g_canonical g0) = length (models_of (snap_Apps s))" by (metis length_map)
  then show "ModelCount (Some g) = length (models_of (snap_Apps s))" by (simp add: ModelCount_def g)
  have "HasModel (Some g) l \<longleftrightarrow> l \<in> set (map fst (g_canonical g0))" for l
    by (auto simp: HasModel_def graph_model_def g map_of_linked map_of_eq_None_iff simp flip: not_None_eq)
  then show "\<forall>l. HasModel (Some g) l \<longleftrightarrow> (\<exists>m \<in> snd ` set (models_of (snap_Apps s)). model_CanonicalLabel m = l)"
    unfolding keys by auto
  show "\<forall>m \<in> snd ` set (models_of (snap_Apps s)).
       CanonicalLabelForClass (Some g) (class_path m) = Some (model_CanonicalLabel m) \<and>
       (\<forall>n. graph_Field (Some g) (model_CanonicalLabel m) n =
          (if n \<in> fst ` set (model_Fields m)
           then Some \<lparr>fref_field = model_field m n, fref_related = field_RelatedModel (model_field m n)\<rparr> else None))"
  proof
    fix m
    assume m: "m \<in> snd ` set (models_of (snap_Apps s))"
    have "map_of (g_classPath g0) (class_path m) = Some (model_CanonicalLabel m)"
      using inv m unfolding models_inv_def by blast
    moreover obtain index where "graph_model (Some g) (model_CanonicalLabel m) = Some (linked_index index)"
        "index_spec m index" by (rule graph_spec_model [OF spec m])
    ultimately show "CanonicalLabelForClass (Some g) (class_path m) = Some (model_CanonicalLabel m) \<and>
       (\<forall>n. graph_Field (Some g) (model_CanonicalLabel m) n =
          (if n \<in> fst ` set (model_Fields m)
           then Some \<lparr>fref_field = model_field m n, fref_related = field_RelatedModel (model_field m n)\<rparr> else None))"
      using linked_fields [of m index] by (simp add: CanonicalLabelForClass_def g graph_Field_def)
  qed
qed

theorem Build_knows_models_witness:
  "\<exists>g. Build Some sample_snapshot = Inr g \<and> ModelCount (Some g) = 2 \<and> HasModel (Some g) ''s.Author'' \<and>
     CanonicalLabelForClass (Some g) ''s.models.Book'' = Some ''s.Book''"
proof -
  obtain g where g: "Build Some sample_snapshot = Inr g" by (rule sample_graph)
  from Build_knows_models [OF g sample_maps_ok] show ?thesis
    using g by (simp add: sample_models)
qed

section \<open>Listings\<close>

text \<open>C2. For every model and every kind of access, what a visitor is shown and what a lookup finds are
  the same entries, and the visitor sees them once each, in the order of the code's comparison,
  whatever the order in which the maps of the run were ranged over.\<close>

theorem Build_lookup_matches_visit:
  assumes "Build ev s = Inr g" and "snapshot_maps_ok s" and "HasModel (Some g) l"
  shows "lookup_matches_visit (QueryAccess (Some g) l) (VisitQueryFields (Some g) l collect []) \<and>
    lookup_matches_visit (InstanceAccess (Some g) l) (VisitInstanceFields (Some g) l collect []) \<and>
    lookup_matches_visit (\<lambda>n. Relation (Some g) l n ctxt) (VisitRelations (Some g) l ctxt collect [])"
  by (intro conjI graph_views [OF Build_spec [OF assms(1,2)] assms(3)])

theorem Build_lookup_matches_visit_witness:
  "\<exists>g. Build Some sample_snapshot = Inr g \<and>
     lookup_matches_visit (QueryAccess (Some g) ''s.Book'') (VisitQueryFields (Some g) ''s.Book'' collect [])"
proof -
  obtain g where g: "Build Some sample_snapshot = Inr g" by (rule sample_graph)
  obtain index where "graph_model (Some g) ''s.Book'' = Some (linked_index index)" "index_spec sample_book index"
    by (rule graph_spec_model [OF Build_spec [OF g sample_maps_ok], of sample_book]) (simp_all add: sample_models)
  then have "HasModel (Some g) ''s.Book''" by (simp add: HasModel_def)
  from Build_lookup_matches_visit [OF g sample_maps_ok this] g show ?thesis by blast
qed

text \<open>A forward field can be queried and read by its own name: nothing else takes the name from it,
  unless the name is one that no access has (\<open>+\<close>) or the alias \<open>pk\<close>.\<close>

theorem forward_field_accessible:
  assumes "Build ev s = Inr g" and "snapshot_maps_ok s" and "m \<in> snd ` set (models_of (snap_Apps s))"
    and "(n, f) \<in> set (model_Fields m)" and "\<not> is_reverse f" and "n \<noteq> ''pk''" and "n \<noteq> ''+''"
  shows "QueryAccess (Some g) (model_CanonicalLabel m) n =
      Some \<lparr>fa_Name = n, fa_Kind = FieldAccessDeclared,
            fa_Field = \<lparr>fref_field = f, fref_related = field_RelatedModel f\<rparr>\<rparr> \<and>
    InstanceAccess (Some g) (model_CanonicalLabel m) n =
      Some \<lparr>fa_Name = n, fa_Kind = FieldAccessDeclared,
            fa_Field = \<lparr>fref_field = f, fref_related = field_RelatedModel f\<rparr>\<rparr>"
proof -
  have f: "model_field m n = f" "n \<in> fst ` set (model_Fields m)"
    using snapshot_model_field [OF assms(2,3,4)] assms(4) by force+
  obtain index where index: "graph_model (Some g) (model_CanonicalLabel m) = Some (linked_index index)"
      "index_spec m index" "keyed_fields m"
    by (rule graph_spec_model [OF Build_spec [OF assms(1,2)] assms(3)])
  let ?a = "\<lparr>fa_Name = n, fa_Kind = FieldAccessDeclared, fa_Field = n\<rparr>"
  have wins: "winner (model_query_entries m) n = Some ?a" "winner (model_instance_entries m) n = Some ?a"
    by (rule declared_wins [OF index(3) f(2)], simp_all add: f(1) assms(5-7))+
  have "field_at (linked_index index) n = \<lparr>fref_field = f, fref_related = field_RelatedModel f\<rparr>"
    using linked_fields [OF index(2), of n] f by (simp add: field_at_def)
  then have "access_at (linked_index index) ?a = \<lparr>fa_Name = n, fa_Kind = FieldAccessDeclared,
      fa_Field = \<lparr>fref_field = f, fref_related = field_RelatedModel f\<rparr>\<rparr>"
    by (simp add: access_at_def map_access_def)
  then show ?thesis
    using wins index(2) by (simp add: QueryAccess_def InstanceAccess_def index(1) index_spec_def)
qed

theorem forward_field_accessible_witness:
  "\<exists>g f. Build Some sample_snapshot = Inr g \<and> map_of (model_Fields sample_book) ''author'' = Some f \<and>
     QueryAccess (Some g) ''s.Book'' ''author'' =
      Some \<lparr>fa_Name = ''author'', fa_Kind = FieldAccessDeclared,
            fa_Field = \<lparr>fref_field = f, fref_related = Some ''s.Author''\<rparr>\<rparr>"
proof -
  obtain g where g: "Build Some sample_snapshot = Inr g" by (rule sample_graph)
  obtain f where f: "model_Fields sample_book = [(''author'', f)]" "field_RelatedModel f = Some ''s.Author''"
      "field_RelationDirection f = Some ''forward''"
    by (simp add: sample_book_def sample_model_def)
  show ?thesis
    using forward_field_accessible [OF g sample_maps_ok, of sample_book "''author''" f] g f
    by (simp add: sample_models is_reverse_def)
qed

text \<open>What \<open>select_related\<close> may follow is a relation to a model of the graph that gives at most one
  object: one-to-one, or many-to-one in the forward direction.\<close>

theorem select_related_single:
  assumes "Build ev s = Inr g" and "snapshot_maps_ok s"
    and "SelectRelatedRelation (Some g) l n = Some a"
  shows "FieldRef_IsRelation (Some (fa_Field a)) \<and>
    (\<exists>target. FieldRef_RelatedModel (Some (fa_Field a)) = Some target \<and> HasModel (Some g) target) \<and>
    (FieldRef_RelationCardinality (Some (fa_Field a)) = Some ''one-to-one'' \<or>
     FieldRef_RelationCardinality (Some (fa_Field a)) = Some ''many-to-one'' \<and>
     FieldRef_RelationDirection (Some (fa_Field a)) \<noteq> Some ''reverse'')"
proof -
  from assms(3) obtain index' b where known: "graph_model (Some g) l = Some index'"
    and b: "map_of (rel_byName (mi_relations index' RelationSelectRelated)) n = Some b" "a = access_at index' b"
    by (auto simp: SelectRelatedRelation_def Relation_def bind_eq_Some_conv)
  from graph_spec_known [OF Build_spec [OF assms(1,2)] known] obtain m index where
      index: "index_spec m index" "index' = linked_index index"
    and closed: "\<And>n ref. (n, ref) \<in> set (mi_fields index) \<Longrightarrow>
       (\<forall>target. field_RelatedModel (fref_field ref) = Some target \<longrightarrow> HasModel (Some g) target)"
    by metis
  have "relation_entry_ok (mi_fields index) RelationSelectRelated n b"
    using index b(1) by (simp add: index_spec_def relations_ok_def)
  then obtain ref where ref: "map_of (mi_fields index) (fa_Field b) = Some ref"
      "rel_entry_ok RelationSelectRelated (fref_field ref)"
    by (auto simp: relation_entry_ok_def)
  then have a: "fa_Field a = linked_ref ref" by (simp add: b(2) index(2) access_at_def map_access_def)
  from ref(2) obtain target where target: "field_RelatedModel (fref_field ref) = Some target"
    by (auto simp: rel_entry_ok_def)
  have "HasModel (Some g) target" using closed [OF map_of_SomeD [OF ref(1)]] target by blast
  then show ?thesis
    using ref(2) target by (auto simp: a linked_ref_def rel_entry_ok_def FieldRef_IsRelation_def is_reverse_def
        FieldRef_RelatedModel_def FieldRef_RelationCardinality_def FieldRef_RelationDirection_def)
qed

theorem select_related_single_witness:
  "\<exists>g a. Build Some sample_snapshot = Inr g \<and> SelectRelatedRelation (Some g) ''s.Book'' ''author'' = Some a \<and>
     FieldRef_IsRelation (Some (fa_Field a))"
proof -
  obtain g a where g: "Build Some sample_snapshot = Inr g" "SelectRelatedRelation (Some g) ''s.Book'' ''author'' = Some a"
    by (rule sample_graph) auto
  from select_related_single [OF g(1) sample_maps_ok g(2)] g show ?thesis by blast
qed

text \<open>A class path names a model exactly if the model has that path, or if no model has it and it is
  the exported name of one model only. A name that several models export resolves to none of them.\<close>

theorem class_path_resolution:
  assumes "Build ev s = Inr g" and "snapshot_maps_ok s"
  shows "CanonicalLabelForClass (Some g) p = Some l \<longleftrightarrow>
    (\<exists>m \<in> snd ` set (models_of (snap_Apps s)). class_path m = p \<and> model_CanonicalLabel m = l) \<or>
    (\<forall>m \<in> snd ` set (models_of (snap_Apps s)). class_path m \<noteq> p) \<and>
    export_labels (models_of (snap_Apps s)) p = [l]"
proof -
  from Build_spec [OF assms] obtain g0 where inv: "build_inv ev (models_of (snap_Apps s)) g0"
    and g: "g = g0\<lparr>g_canonical := map (\<lambda>(l, index). (l, linked_index index)) (g_canonical g0)\<rparr>"
    by (auto simp: graph_spec_def)
  have cls: "map_of (g_classPath g0) p = Some l \<longleftrightarrow>
      (\<exists>m \<in> snd ` set (models_of (snap_Apps s)). class_path m = p \<and> model_CanonicalLabel m = l)" for l
    using inv unfolding build_inv_def models_inv_def by blast
  have ex: "map_of (g_modelExport g0) p = export_entry (export_labels (models_of (snap_Apps s)) p)"
    using inv by (simp add: build_inv_def exports_inv_def)
  show ?thesis
  proof (cases "map_of (g_classPath g0) p")
    case None
    then have none: "class_path m \<noteq> p" if "m \<in> snd ` set (models_of (snap_Apps s))" for m
      using cls that by fastforce
    have "CanonicalLabelForClass (Some g) p = Option.bind (map_of (g_modelExport g0) p) (\<lambda>p. p)"
      by (simp add: CanonicalLabelForClass_def g None)
    also have "\<dots> = Some l \<longleftrightarrow> export_labels (models_of (snap_Apps s)) p = [l]"
      by (auto simp: ex export_entry_def bind_eq_Some_conv split: list.splits)
    finally show ?thesis using none by blast
  next
    case (Some l')
    then have some: "(\<forall>m \<in> snd ` set (models_of (snap_Apps s)). class_path m \<noteq> p) = False" using cls by blast
    have "CanonicalLabelForClass (Some g) p = map_of (g_classPath g0) p"
      by (simp add: CanonicalLabelForClass_def g Some)
    then show ?thesis unfolding some by (simp only: cls simp_thms)
  qed
qed

theorem class_path_resolution_witness:
  "\<exists>g. Build Some sample_snapshot = Inr g \<and>
     CanonicalLabelForClass (Some g) ''s.models.Author'' = Some ''s.Author'' \<and>
     CanonicalLabelForClass (Some g) ''s.models.Publisher'' \<noteq> Some ''s.Book''"
proof -
  obtain g where g: "Build Some sample_snapshot = Inr g" by (rule sample_graph)
  have "export_path sample_app sample_author = Some ''s.models.Author''"
    "export_path sample_app sample_book = Some ''s.models.Book''"
    by (simp_all add: export_path_def sample_app_def sample_author_def sample_book_def sample_model_def
        ContainsByte_def)
  then show ?thesis
    using class_path_resolution [OF g sample_maps_ok, of "''s.models.Author''" "''s.Author''"]
      class_path_resolution [OF g sample_maps_ok, of "''s.models.Publisher''" "''s.Book''"] g
    by (simp add: sample_models export_labels_def)
qed

text \<open>A class in a source file names the model that was declared there: the one with that qualified
  name whose file, as written or resolved, is that file.\<close>

theorem source_class_resolution:
  assumes "Build ev s = Inr g" and "snapshot_maps_ok s" and "filePath \<noteq> ''''" and "qualname \<noteq> ''''"
  shows "CanonicalLabelForSourceClass (Some g) filePath qualname = Some l \<longleftrightarrow>
    (\<exists>m \<in> snd ` set (models_of (snap_Apps s)). model_CanonicalLabel m = l \<and>
       (\<exists>p \<in> set (source_paths ev m). sourceClassKey p (model_Qualname m) = sourceClassKey filePath qualname))"
proof -
  from Build_spec [OF assms(1,2)] obtain g0 where inv: "sources_inv ev (models_of (snap_Apps s)) g0"
    and g: "g = g0\<lparr>g_canonical := map (\<lambda>(l, index). (l, linked_index index)) (g_canonical g0)\<rparr>"
    by (auto simp: graph_spec_def build_inv_def)
  have "CanonicalLabelForSourceClass (Some g) filePath qualname =
      map_of (g_sourceClass g0) (sourceClassKey filePath qualname)"
    using assms(3,4) by (simp add: CanonicalLabelForSourceClass_def g)
  moreover have "map_of (g_sourceClass g0) (sourceClassKey filePath qualname) = Some l \<longleftrightarrow>
      (\<exists>m \<in> snd ` set (models_of (snap_Apps s)). sourceClassKey filePath qualname \<in> source_keys ev m \<and>
         model_CanonicalLabel m = l)"
    using inv unfolding sources_inv_def by blast
  moreover have "sourceClassKey filePath qualname \<in> source_keys ev m \<longleftrightarrow>
      (\<exists>p \<in> set (source_paths ev m). sourceClassKey p (model_Qualname m) = sourceClassKey filePath qualname)" for m
    unfolding source_keys_def image_iff by metis
  ultimately show ?thesis by (simp only: conj_commute)
qed

theorem source_class_resolution_witness:
  "\<exists>g. Build Some sample_snapshot = Inr g \<and>
     CanonicalLabelForSourceClass (Some g) ''/m'' ''Book'' = Some ''s.Book'' \<and>
     CanonicalLabelForSourceClass (Some g) ''/m'' ''Book'' \<noteq> Some ''s.Author''"
proof -
  obtain g where g: "Build Some sample_snapshot = Inr g" by (rule sample_graph)
  show ?thesis
    using source_class_resolution [OF g sample_maps_ok, of "''/m''" "''Book''" "''s.Book''"]
      source_class_resolution [OF g sample_maps_ok, of "''/m''" "''Book''" "''s.Author''"] g
    by (simp add: sample_models sample_sources)
qed

section \<open>Relations by their declaration\<close>

text \<open>Finding a relation by where it is declared does not depend on the order in which the fields
  are visited: it succeeds exactly if some field is declared there and all such fields lead to one
  target from one source range, and then it returns one of them.\<close>

theorem relation_for_source_agreement:
  fixes ev filePath className fieldName start end' g
  assumes "filePath \<noteq> ''''" and "className \<noteq> ''''" and "fieldName \<noteq> ''''"
  defines "found \<equiv> {f \<in> set (all_fields g). declared_at ev (ResolvedPath ev filePath) className fieldName start end' f}"
  shows "(RelationFieldForSource ev (Some g) filePath className fieldName start end' \<noteq> None \<longleftrightarrow>
      found \<noteq> {} \<and> (\<forall>a \<in> found. \<forall>b \<in> found. agreed a b)) \<and>
    (\<forall>r. RelationFieldForSource ev (Some g) filePath className fieldName start end' = Some r \<longrightarrow> r \<in> found)"
proof -
  let ?P = "declared_at ev (ResolvedPath ev filePath) className fieldName start end'"
  have eq: "RelationFieldForSource ev (Some g) filePath className fieldName start end' =
      select_relation ?P None (all_fields g)"
    using assms(1-3) by (simp add: RelationFieldForSource_def)
  have ranged: "\<And>f. ?P f \<Longrightarrow> FieldRef_SourceRange (Some f) \<noteq> None" by (rule declared_at_ranged)
  note none = select_relation_none(1) [of ?P "all_fields g", OF ranged]
    select_relation_none(2) [of ?P "all_fields g", OF ranged]
  show ?thesis unfolding eq found_def using none by auto
qed

definition sample_relation_graph :: Graph where
  "sample_relation_graph = (empty_graph sample_snapshot)\<lparr>g_canonical :=
     [(''s.Book'', (empty_index ''Book'' sample_book)\<lparr>mi_fields :=
        [(''author'', \<lparr>fref_field = model_field sample_book ''author'', fref_related = Some ''s.Author''\<rparr>)]\<rparr>)]\<rparr>"

theorem relation_for_source_agreement_witness:
  "RelationFieldForSource Some (Some sample_relation_graph) ''/m'' ''Book'' ''author''
     \<lparr>pos_Line = 1, pos_Column = 0\<rparr> \<lparr>pos_Line = 2, pos_Column = 0\<rparr> \<noteq> None"
proof -
  let ?ref = "\<lparr>fref_field = model_field sample_book ''author'', fref_related = Some ''s.Author''\<rparr>"
  have fields: "all_fields sample_relation_graph = [?ref]"
    by (simp add: all_fields_def sample_relation_graph_def)
  have "declared_at Some (ResolvedPath Some ''/m'') ''Book'' ''author''
      \<lparr>pos_Line = 1, pos_Column = 0\<rparr> \<lparr>pos_Line = 2, pos_Column = 0\<rparr> ?ref"
    by code_simp
  moreover have "agreed ?ref ?ref"
    by (simp add: agreed_def relation_target_def FieldRef_RelatedModel_def split: option.split)
  ultimately show ?thesis
    using relation_for_source_agreement [of "''/m''" "''Book''" "''author''" Some sample_relation_graph
        "\<lparr>pos_Line = 1, pos_Column = 0\<rparr>" "\<lparr>pos_Line = 2, pos_Column = 0\<rparr>"]
    by (auto simp: fields)
qed

section \<open>Paths and the cache\<close>

text \<open>Between rooted paths, \<open>PathWithin\<close> is the prefix relation on their cleaned elements.\<close>

theorem path_within_is_prefix:
  assumes "IsAbs root" and "IsAbs candidate"
  shows "PathWithin root candidate \<longleftrightarrow> prefix (path_elements root) (path_elements candidate)"
  by (rule PathWithin_rooted [OF assms])

theorem path_within_is_prefix_witness:
  "PathWithin ''/a'' ''/a/b'' \<and> \<not> PathWithin ''/a'' ''/ab''"
proof -
  have "prefix (path_elements ''/a'') (path_elements ''/a/b'')" "\<not> prefix (path_elements ''/a'') (path_elements ''/ab'')"
    by code_simp+
  then show ?thesis
    using path_within_is_prefix [of "''/a''" "''/a/b''"] path_within_is_prefix [of "''/a''" "''/ab''"] by simp
qed

text \<open>A reader of the schema cache that finds the generation it saw before finds the graph it saw
  before, as long as fewer than \<open>2 ^ 64\<close> graphs were published in between.\<close>

theorem cache_generation_identifies_graph:
  assumes "length (published gs) < 2 ^ 64"
    and "snd (cache_Load (fold (\<lambda>g c. fst (cache_Replace g c)) gs c)) = snd (cache_Load c)"
  shows "cache_Load (fold (\<lambda>g c. fst (cache_Replace g c)) gs c) = cache_Load c"
  using assms by (rule schema_cache.same_generation_same_graph)

theorem cache_generation_identifies_graph_witness:
  "cache_Load (fold (\<lambda>g c. fst (cache_Replace g c)) [None, None] (newCache :: nat Cache)) = cache_Load newCache"
  by (rule cache_generation_identifies_graph) (simp_all add: cache_Replace_def)

end
