(* ===== verification/Path_Resolver.thy ===== *)
theory Path_Resolver
  imports Schema_Build
begin

text \<open>
  Resolving, completing and validating lookup paths such as \<open>author__name__icontains\<close> against a
  schema graph (\<open>internal/analysis/path.go\<close>, from \<open>CompletePath\<close> on). A path is a list of
  segments; the state of the walk is a model, a field, or a relation field whose related model is
  the model, together with the transforms consumed so far on the field.
\<close>

section \<open>Types\<close>

datatype PathMode = PathLookup | PathProjection | PathFields | PathSelectRelated | PathPrefetchRelated

record ByteRange =
  br_Start :: nat
  br_End :: nat

record PathSegment =
  seg_Text :: string
  seg_Range :: ByteRange

datatype PathCandidateKind = PathCandidateField | PathCandidateTransform | PathCandidateLookup

record PathCandidate =
  pc_Name :: string
  pc_Kind :: PathCandidateKind
  pc_Field :: FieldRef
  pc_Rank :: int

record ResolvedPathSegment =
  rps_Segment :: PathSegment
  rps_Kind :: PathCandidateKind
  rps_Field :: FieldRef

datatype PathIssueCode = IssueUnknownPathSegment | IssueNonRelationTraversal | IssueInvalidLookup
  | IssueInvalidProjection | IssueInvalidSelectRelated

record PathIssue =
  issue_Code :: PathIssueCode
  issue_Segment :: PathSegment
  issue_Model :: string
  issue_Field :: "FieldRef option"

record resolverState =
  rs_model :: string
  rs_field :: "FieldRef option"
  rs_relationField :: "FieldRef option"
  rs_transforms :: "string list"

definition MaxPathBytes :: int where "MaxPathBytes = 4096"
definition MaxPathSegments :: nat where "MaxPathSegments = 64"

definition start_state :: "string \<Rightarrow> resolverState" where
  "start_state label = \<lparr>rs_model = label, rs_field = None, rs_relationField = None, rs_transforms = []\<rparr>"

section \<open>Helpers\<close>

fun equalStrings :: "string list \<Rightarrow> string list \<Rightarrow> bool" where
  "equalStrings [] [] = True"
| "equalStrings (a # as) (b # bs) = (a = b \<and> equalStrings as bs)"
| "equalStrings _ _ = False"

lemma equalStrings_iff [simp]: "equalStrings a b \<longleftrightarrow> a = b"
  by (induction a b rule: equalStrings.induct) auto

definition relationLookup :: "string \<Rightarrow> bool" where
  "relationLookup name \<longleftrightarrow> name \<in> {''exact'', ''gt'', ''gte'', ''in'', ''isnull'', ''lt'', ''lte''}"

definition isAnnotationAlias :: "string list \<Rightarrow> string \<Rightarrow> bool" where
  "isAnnotationAlias annotations name = (name \<noteq> [] \<and> list_ex (\<lambda>alias. alias = name) annotations)"

definition field_or_relation :: "resolverState \<Rightarrow> FieldRef option" where
  "field_or_relation st = (case rs_field st of None \<Rightarrow> rs_relationField st | Some f \<Rightarrow> Some f)"

section \<open>Consuming a segment\<close>

text \<open>
  The callback of \<open>consumeFieldSuffix\<close>: its state are the variables it captures, \<open>wildcard\<close>,
  \<open>lookup\<close>, \<open>transform\<close> and \<open>nextPrefix\<close>.
\<close>

record suffixScan =
  ss_wildcard :: bool
  ss_lookup :: bool
  ss_transform :: bool
  ss_nextPrefix :: "string list"

definition suffix_visit ::
    "FieldRef \<Rightarrow> string list \<Rightarrow> string \<Rightarrow> PathMode \<Rightarrow> bool \<Rightarrow> LookupPath \<Rightarrow> suffixScan \<Rightarrow> bool \<times> suffixScan" where
  "suffix_visit field pre segment mode hasMore path st =
     (if length (path_Transforms path) < length pre \<or>
         \<not> equalStrings (take (length pre) (path_Transforms path)) pre
      then (True, st)
      else if length (path_Transforms path) > length pre
      then (let following = path_Transforms path ! length pre in
            if following = segment
            then (False, st\<lparr>ss_nextPrefix := pre @ [segment], ss_transform := True,
                            ss_wildcard := False, ss_lookup := False\<rparr>)
            else if following = ''*'' then (True, st\<lparr>ss_wildcard := True\<rparr>)
            else (True, st))
      else if mode = PathLookup \<and> \<not> hasMore \<and>
              list_ex (\<lambda>candidate. candidate = segment \<and>
                 (\<not> FieldRef_IsRelation (Some field) \<or> relationLookup candidate)) (path_Lookups path)
      then (False, st\<lparr>ss_lookup := True\<rparr>)
      else (True, st))"

definition consumeFieldSuffix ::
    "FieldRef option \<Rightarrow> string list \<Rightarrow> string \<Rightarrow> PathMode \<Rightarrow> bool \<Rightarrow> (PathCandidateKind \<times> string list) option" where
  "consumeFieldSuffix field pre segment mode hasMore =
     (case field of
        None \<Rightarrow> None
      | Some f \<Rightarrow>
          if mode = PathFields then None
          else (let st = snd (FieldRef_VisitLookupPaths (Some f) (suffix_visit f pre segment mode hasMore)
                  \<lparr>ss_wildcard = False, ss_lookup = False, ss_transform = False, ss_nextPrefix = pre\<rparr>)
                in if ss_transform st then Some (PathCandidateTransform, ss_nextPrefix st)
                   else if ss_lookup st then Some (PathCandidateLookup, pre)
                   else if ss_wildcard st then Some (PathCandidateTransform, pre @ [''*''])
                   else None))"

definition stateFromField :: "FieldRef FieldAccess \<Rightarrow> resolverState" where
  "stateFromField access =
     (case (if FieldRef_IsRelation (Some (fa_Field access)) then FieldRef_RelatedModel (Some (fa_Field access))
            else None) of
        Some related \<Rightarrow> \<lparr>rs_model = related, rs_field = None,
                         rs_relationField = Some (fa_Field access), rs_transforms = []\<rparr>
      | None \<Rightarrow> \<lparr>rs_model = '''', rs_field = Some (fa_Field access),
                 rs_relationField = None, rs_transforms = []\<rparr>)"

definition relation_context :: "PathMode \<Rightarrow> RelationContext" where
  "relation_context mode = (if mode = PathPrefetchRelated then RelationPrefetchRelated else RelationSelectRelated)"

definition consume_relation ::
    "graph_ptr \<Rightarrow> PathMode \<Rightarrow> resolverState \<Rightarrow> PathSegment \<Rightarrow> bool \<Rightarrow> (resolverState \<times> ResolvedPathSegment) option" where
  "consume_relation graph mode state segment hasMore =
     (case Relation graph (rs_model state) (seg_Text segment) (relation_context mode) of
        None \<Rightarrow> None
      | Some access \<Rightarrow>
          (let related = FieldRef_RelatedModel (Some (fa_Field access)) in
           if hasMore \<and> related = None then None
           else Some (start_state (case related of None \<Rightarrow> '''' | Some model \<Rightarrow> model),
                      \<lparr>rps_Segment = segment, rps_Kind = PathCandidateField, rps_Field = fa_Field access\<rparr>)))"

definition consume_suffix ::
    "PathMode \<Rightarrow> resolverState \<Rightarrow> PathSegment \<Rightarrow> bool \<Rightarrow> (resolverState \<times> ResolvedPathSegment) option" where
  "consume_suffix mode state segment hasMore =
     (case field_or_relation state of
        None \<Rightarrow> None
      | Some field \<Rightarrow>
          (case consumeFieldSuffix (Some field) (rs_transforms state) (seg_Text segment) mode hasMore of
             None \<Rightarrow> None
           | Some (kind, transforms) \<Rightarrow>
               Some (\<lparr>rs_model = '''', rs_field = Some field, rs_relationField = None, rs_transforms = transforms\<rparr>,
                     \<lparr>rps_Segment = segment, rps_Kind = kind, rps_Field = field\<rparr>)))"

text \<open>The \<open>ok\<close> flag of the code is whether the result is \<open>Some\<close>.\<close>

definition consumePathSegment ::
    "graph_ptr \<Rightarrow> PathMode \<Rightarrow> resolverState \<Rightarrow> PathSegment \<Rightarrow> bool \<Rightarrow> (resolverState \<times> ResolvedPathSegment) option" where
  "consumePathSegment graph mode state segment hasMore =
     (if seg_Text segment = '''' then None
      else if mode = PathSelectRelated \<or> mode = PathPrefetchRelated
      then consume_relation graph mode state segment hasMore
      else if rs_model state \<noteq> ''''
      then (case QueryAccess graph (rs_model state) (seg_Text segment) of
              Some access \<Rightarrow> Some (stateFromField access,
                \<lparr>rps_Segment = segment, rps_Kind = PathCandidateField, rps_Field = fa_Field access\<rparr>)
            | None \<Rightarrow> if rs_relationField state = None then None
                      else consume_suffix mode state segment hasMore)
      else consume_suffix mode state segment hasMore)"

section \<open>Candidates\<close>

definition add_new :: "PathCandidate \<Rightarrow> PathCandidate list \<Rightarrow> PathCandidate list" where
  "add_new c cs = (if pc_Name c \<in> set (map pc_Name cs) then cs else cs @ [c])"

text \<open>The callback of \<open>fieldSuffixCandidates\<close>; \<open>seen\<close> are the names of the candidates so far.\<close>

definition suffix_candidates_visit ::
    "FieldRef \<Rightarrow> string list \<Rightarrow> PathMode \<Rightarrow> LookupPath \<Rightarrow> PathCandidate list \<Rightarrow> bool \<times> PathCandidate list" where
  "suffix_candidates_visit field pre mode path cs =
     (if length (path_Transforms path) < length pre \<or>
         \<not> equalStrings (take (length pre) (path_Transforms path)) pre
      then (True, cs)
      else if length (path_Transforms path) > length pre
      then (let name = path_Transforms path ! length pre in
            (True, if name \<noteq> ''*''
                   then add_new \<lparr>pc_Name = name, pc_Kind = PathCandidateTransform, pc_Field = field, pc_Rank = 1\<rparr> cs
                   else cs))
      else if mode = PathLookup
      then (True, fold (\<lambda>lookup cs.
              if FieldRef_IsRelation (Some field) \<and> \<not> relationLookup lookup then cs
              else add_new \<lparr>pc_Name = lookup, pc_Kind = PathCandidateLookup, pc_Field = field, pc_Rank = 2\<rparr> cs)
            (path_Lookups path) cs)
      else (True, cs))"

definition fieldSuffixCandidates :: "FieldRef \<Rightarrow> string list \<Rightarrow> PathMode \<Rightarrow> PathCandidate list" where
  "fieldSuffixCandidates field pre mode =
     (if mode = PathFields then []
      else snd (FieldRef_VisitLookupPaths (Some field) (suffix_candidates_visit field pre mode) []))"

text \<open>The closure \<open>add\<close> of \<open>candidatesForState\<close>.\<close>

definition add_candidate :: "PathCandidate \<Rightarrow> PathCandidate list \<Rightarrow> PathCandidate list" where
  "add_candidate c cs = (if pc_Name c = '''' then cs else add_new c cs)"

definition relation_rank :: "PathMode \<Rightarrow> FieldRef \<Rightarrow> int" where
  "relation_rank mode field =
     (if mode = PathPrefetchRelated \<and>
         (FieldRef_RelationDirection (Some field) = Some ''reverse'' \<or>
          FieldRef_RelationCardinality (Some field) = Some ''many-to-many'' \<or>
          FieldRef_RelationCardinality (Some field) = Some ''one-to-many'') then - 1 else 0)"

definition access_candidate :: "int \<Rightarrow> FieldRef FieldAccess \<Rightarrow> PathCandidate" where
  "access_candidate rank access =
     \<lparr>pc_Name = fa_Name access, pc_Kind = PathCandidateField, pc_Field = fa_Field access, pc_Rank = rank\<rparr>"

definition candidatesForState :: "graph_ptr \<Rightarrow> PathMode \<Rightarrow> resolverState \<Rightarrow> PathCandidate list" where
  "candidatesForState graph mode state =
     (if mode = PathSelectRelated \<or> mode = PathPrefetchRelated
      then snd (VisitRelations graph (rs_model state) (relation_context mode)
             (\<lambda>access cs. (True, add_candidate (access_candidate (relation_rank mode (fa_Field access)) access) cs)) [])
      else (let fields = (if rs_model state \<noteq> ''''
                          then snd (VisitQueryFields graph (rs_model state)
                                 (\<lambda>access cs. (True, add_candidate (access_candidate 0 access) cs)) [])
                          else [])
            in case field_or_relation state of
                 None \<Rightarrow> fields
               | Some field \<Rightarrow>
                   fold add_candidate (fieldSuffixCandidates field (rs_transforms state) mode) fields))"

definition candidate_key :: "PathCandidate \<Rightarrow> int \<times> string" where
  "candidate_key c = (pc_Rank c, pc_Name c)"

text \<open>The loop over the segments before the active one.\<close>

fun consume_all :: "graph_ptr \<Rightarrow> PathMode \<Rightarrow> resolverState \<Rightarrow> PathSegment list \<Rightarrow> resolverState option" where
  "consume_all graph mode state [] = Some state"
| "consume_all graph mode state (segment # segments) =
     (case consumePathSegment graph mode state segment True of
        None \<Rightarrow> None
      | Some (state', resolved) \<Rightarrow> consume_all graph mode state' segments)"

definition CompletePath ::
    "graph_ptr \<Rightarrow> string \<Rightarrow> PathMode \<Rightarrow> PathSegment list \<Rightarrow> int \<Rightarrow> PathCandidate list" where
  "CompletePath graph canonicalLabel mode segments active =
     (if graph = None \<or> active < 0 \<or> active \<ge> int (length segments) then []
      else (case consume_all graph mode (start_state canonicalLabel) (take (nat active) segments) of
              None \<Rightarrow> []
            | Some state \<Rightarrow>
                sort_key candidate_key
                  (filter (\<lambda>c. HasPrefix (pc_Name c) (seg_Text (segments ! nat active)))
                    (candidatesForState graph mode state))))"

section \<open>Resolving\<close>

text \<open>The loop of \<open>ResolvePathSegment\<close>: \<open>left\<close> segments remain to be consumed, of \<open>segments\<close>.\<close>

fun resolve_segments ::
    "graph_ptr \<Rightarrow> PathMode \<Rightarrow> resolverState \<Rightarrow> PathSegment list \<Rightarrow> nat \<Rightarrow> ResolvedPathSegment option" where
  "resolve_segments graph mode state [] target = None"
| "resolve_segments graph mode state (segment # segments) target =
     (case consumePathSegment graph mode state segment (segments \<noteq> []) of
        None \<Rightarrow> None
      | Some (state', resolved) \<Rightarrow>
          (case target of 0 \<Rightarrow> Some resolved | Suc n \<Rightarrow> resolve_segments graph mode state' segments n))"

definition ResolvePathSegment ::
    "graph_ptr \<Rightarrow> string \<Rightarrow> PathMode \<Rightarrow> PathSegment list \<Rightarrow> int \<Rightarrow> ResolvedPathSegment option" where
  "ResolvePathSegment graph canonicalLabel mode segments target =
     (if graph = None \<or> target < 0 \<or> target \<ge> int (length segments) then None
      else resolve_segments graph mode (start_state canonicalLabel) segments (nat target))"

section \<open>Validating\<close>

definition pathMetadataIndeterminate :: "FieldRef \<Rightarrow> string list \<Rightarrow> string \<Rightarrow> bool \<Rightarrow> bool" where
  "pathMetadataIndeterminate field transforms failed hasMore \<longleftrightarrow>
     FieldRef_LookupPathsTruncated (Some field) \<or>
     list_ex (\<lambda>lookup. lookup = failed \<and> \<not> hasMore) (FieldRef_UnsupportedLookups (Some field)) \<or>
     \<not> FieldRef_IsRelation (Some field) \<and>
     list_ex (\<lambda>path. list_ex (\<lambda>transform. transform = ''*'' \<and> length transforms \<ge> length (path_Transforms path))
       (path_Transforms path)) (FieldRef_LookupPaths (Some field))"

definition empty_segment_code :: "PathMode \<Rightarrow> resolverState \<Rightarrow> PathIssueCode" where
  "empty_segment_code mode state =
     (case mode of
        PathLookup \<Rightarrow> if rs_field state \<noteq> None then IssueInvalidLookup else IssueUnknownPathSegment
      | PathProjection \<Rightarrow> if rs_field state \<noteq> None then IssueInvalidProjection else IssueUnknownPathSegment
      | PathFields \<Rightarrow> if rs_field state \<noteq> None then IssueNonRelationTraversal else IssueUnknownPathSegment
      | _ \<Rightarrow> IssueUnknownPathSegment)"

definition not_relation :: "FieldRef FieldAccess option \<Rightarrow> bool" where
  "not_relation access = (case access of None \<Rightarrow> False | Some a \<Rightarrow> \<not> FieldRef_IsRelation (Some (fa_Field a)))"

definition failed_segment_code :: "graph_ptr \<Rightarrow> PathMode \<Rightarrow> resolverState \<Rightarrow> string \<Rightarrow> PathIssueCode" where
  "failed_segment_code graph mode previous text =
     (case mode of
        PathSelectRelated \<Rightarrow>
          if QueryAccess graph (rs_model previous) text \<noteq> None then IssueInvalidSelectRelated
          else IssueUnknownPathSegment
      | PathPrefetchRelated \<Rightarrow>
          if not_relation (QueryAccess graph (rs_model previous) text) then IssueNonRelationTraversal
          else if not_relation (InstanceAccess graph (rs_model previous) text) then IssueNonRelationTraversal
          else IssueUnknownPathSegment
      | PathFields \<Rightarrow> if rs_field previous \<noteq> None then IssueNonRelationTraversal else IssueUnknownPathSegment
      | PathProjection \<Rightarrow> if rs_field previous \<noteq> None then IssueInvalidProjection else IssueUnknownPathSegment
      | PathLookup \<Rightarrow> if rs_field previous \<noteq> None then IssueInvalidLookup else IssueUnknownPathSegment)"

fun validate_segments ::
    "graph_ptr \<Rightarrow> PathMode \<Rightarrow> resolverState \<Rightarrow> PathSegment list \<Rightarrow> PathIssue option" where
  "validate_segments graph mode state [] = None"
| "validate_segments graph mode state (segment # segments) =
     (if seg_Text segment = ''''
      then Some \<lparr>issue_Code = empty_segment_code mode state, issue_Segment = segment,
                 issue_Model = rs_model state, issue_Field = field_or_relation state\<rparr>
      else (case consumePathSegment graph mode state segment (segments \<noteq> []) of
              Some (next_state, resolved) \<Rightarrow> validate_segments graph mode next_state segments
            | None \<Rightarrow>
                if (case field_or_relation state of
                      None \<Rightarrow> False
                    | Some f \<Rightarrow> pathMetadataIndeterminate f (rs_transforms state) (seg_Text segment) (segments \<noteq> []))
                then None
                else Some \<lparr>issue_Code = failed_segment_code graph mode state (seg_Text segment),
                           issue_Segment = segment, issue_Model = rs_model state,
                           issue_Field = field_or_relation state\<rparr>))"

definition ValidatePath ::
    "graph_ptr \<Rightarrow> string \<Rightarrow> PathMode \<Rightarrow> PathSegment list \<Rightarrow> string list \<Rightarrow> PathIssue option" where
  "ValidatePath graph canonicalLabel mode segments annotations =
     (if graph = None \<or> canonicalLabel = '''' \<or> segments = [] \<or> length segments > MaxPathSegments then None
      else if (mode = PathLookup \<or> mode = PathProjection) \<and> isAnnotationAlias annotations (seg_Text (hd segments))
      then None
      else validate_segments graph mode (start_state canonicalLabel) segments)"

end
