(* ===== verification/Path_Resolver_Facts.thy ===== *)
theory Path_Resolver_Facts
  imports Path_Resolver
begin

text \<open>
  Correctness of path completion and validation. The resolver relies on one law of the graph: what
  a visitor of a model is shown is what a lookup by name finds. The locale \<open>named_accesses\<close> states
  it, and the interpretations discharge it for the query fields and the relations of a built graph.
\<close>

section \<open>Candidates from a listing\<close>

lemma visit_while_True: "visit_while (\<lambda>x s. (True, f x s)) xs s = fold f xs s"
  by (induction xs arbitrary: s) simp_all

lemma add_candidate_mem:
  "c \<in> set (add_candidate d cs) \<longleftrightarrow>
     c \<in> set cs \<or> c = d \<and> pc_Name d \<noteq> '''' \<and> pc_Name d \<notin> pc_Name ` set cs"
  by (auto simp: add_candidate_def add_new_def)

lemma add_candidate_names:
  "pc_Name ` set (add_candidate d cs) = pc_Name ` set cs \<union> ({pc_Name d} - {''''})"
  by (auto simp: add_candidate_def add_new_def)

lemma fold_add_candidate_names:
  "pc_Name ` set (fold add_candidate ds cs) = pc_Name ` set cs \<union> (pc_Name ` set ds - {''''})"
  by (induction ds arbitrary: cs) (auto simp: add_candidate_names)

text \<open>If the names of the listing are those of one entry each, nothing is lost.\<close>

lemma fold_add_candidate_mem:
  assumes "\<And>d e. d \<in> set ds \<Longrightarrow> e \<in> set ds \<Longrightarrow> pc_Name d = pc_Name e \<Longrightarrow> d = e"
  shows "c \<in> set (fold add_candidate ds cs) \<longleftrightarrow>
    c \<in> set cs \<or> c \<in> set ds \<and> pc_Name c \<noteq> '''' \<and> pc_Name c \<notin> pc_Name ` set cs"
  using assms
proof (induction ds arbitrary: cs)
  case Nil
  then show ?case by simp
next
  case (Cons d ds)
  have inj: "\<And>e. e \<in> set ds \<Longrightarrow> pc_Name e = pc_Name d \<Longrightarrow> e = d"
    using Cons.prems by (metis list.set_intros)
  have "c \<in> set (fold add_candidate ds (add_candidate d cs)) \<longleftrightarrow>
      c \<in> set (add_candidate d cs) \<or> c \<in> set ds \<and> pc_Name c \<noteq> '''' \<and>
      pc_Name c \<notin> pc_Name ` set (add_candidate d cs)"
    using Cons.prems by (intro Cons.IH) simp
  then show ?case
    unfolding add_candidate_mem add_candidate_names using inj by auto
qed

lemma fold_add_candidate_from:
  "c \<in> set (fold add_candidate ds cs) \<Longrightarrow>
   c \<in> set cs \<or> c \<in> set ds \<and> pc_Name c \<noteq> '''' \<and> pc_Name c \<notin> pc_Name ` set cs"
proof (induction ds arbitrary: cs)
  case (Cons d ds)
  then have "c \<in> set (add_candidate d cs) \<or>
      c \<in> set ds \<and> pc_Name c \<noteq> '''' \<and> pc_Name c \<notin> pc_Name ` set (add_candidate d cs)" by simp
  then show ?case unfolding add_candidate_mem add_candidate_names by auto
qed simp

lemma fold_add_candidate_keeps: "c \<in> set cs \<Longrightarrow> c \<in> set (fold add_candidate ds cs)"
  by (induction ds arbitrary: cs) (simp_all add: add_candidate_mem)

locale named_accesses =
  fixes ok :: "'g \<Rightarrow> bool"
    and find_access :: "'g \<Rightarrow> string \<Rightarrow> string \<Rightarrow> 'f FieldAccess option"
    and listing :: "'g \<Rightarrow> string \<Rightarrow> 'f FieldAccess list"
  assumes find_iff: "ok g \<Longrightarrow> find_access g l n = Some a \<longleftrightarrow> a \<in> set (listing g l) \<and> fa_Name a = n"
begin

lemma one_per_name:
  assumes "ok g" "a \<in> set (listing g l)" "b \<in> set (listing g l)" "fa_Name a = fa_Name b"
  shows "a = b"
  using find_iff [OF assms(1), of l "fa_Name b" a] find_iff [OF assms(1), of l "fa_Name b" b] assms(2-4) by simp

lemma unknown_name:
  assumes "ok g"
  shows "find_access g l n = None \<longleftrightarrow> n \<notin> fa_Name ` set (listing g l)"
proof -
  have "(\<exists>a. find_access g l n = Some a) \<longleftrightarrow> n \<in> fa_Name ` set (listing g l)"
    unfolding find_iff [OF assms] by auto
  then show ?thesis by (cases "find_access g l n") auto
qed

text \<open>The names offered from a listing are those a lookup finds, with the access it finds.\<close>

lemma offered_iff:
  assumes g: "ok g" and name: "\<And>a. pc_Name (candidate a) = fa_Name a"
  shows "c \<in> set (fold add_candidate (map candidate (listing g l)) []) \<longleftrightarrow>
    pc_Name c \<noteq> '''' \<and> (\<exists>a. find_access g l (pc_Name c) = Some a \<and> c = candidate a)"
proof -
  have "c \<in> set (fold add_candidate (map candidate (listing g l)) []) \<longleftrightarrow>
      c \<in> set [] \<or> c \<in> set (map candidate (listing g l)) \<and> pc_Name c \<noteq> '''' \<and> pc_Name c \<notin> pc_Name ` set ([] :: PathCandidate list)"
  proof (rule fold_add_candidate_mem)
    fix d e
    assume "d \<in> set (map candidate (listing g l))" "e \<in> set (map candidate (listing g l))" "pc_Name d = pc_Name e"
    then obtain a b where "d = candidate a" "a \<in> set (listing g l)" "e = candidate b" "b \<in> set (listing g l)"
        "fa_Name a = fa_Name b"
      unfolding set_map by (elim imageE) (simp add: name)
    then show "d = e" using one_per_name [OF g] by blast
  qed
  also have "\<dots> \<longleftrightarrow> c \<in> candidate ` set (listing g l) \<and> pc_Name c \<noteq> ''''" by simp
  also have "\<dots> \<longleftrightarrow> pc_Name c \<noteq> '''' \<and> (\<exists>a. find_access g l (pc_Name c) = Some a \<and> c = candidate a)"
    unfolding find_iff [OF g]
  proof safe
    fix a
    assume "a \<in> set (listing g l)" "c = candidate a"
    then show "\<exists>b. (b \<in> set (listing g l) \<and> fa_Name b = pc_Name (candidate a)) \<and> candidate a = candidate b"
      using name [of a] by (intro exI [of _ a]) simp
  qed (rule imageI)
  finally show ?thesis .
qed

end

definition built_graph :: "graph_ptr \<Rightarrow> bool" where
  "built_graph graph \<longleftrightarrow> (\<exists>g ev s. graph = Some g \<and> Build ev s = Inr g \<and> snapshot_maps_ok s)"

lemma unknown_model:
  assumes "\<not> HasModel graph l"
  shows "QueryAccess graph l n = None" "VisitQueryFields graph l visit st = (False, st)"
    "Relation graph l n ctxt = None" "VisitRelations graph l ctxt visit st = (False, st)"
  using assms by (simp_all add: HasModel_def QueryAccess_def VisitQueryFields_def visitFields_def
      visit_listing_def Relation_def VisitRelations_def)

interpretation query_names: named_accesses built_graph QueryAccess "\<lambda>g l. snd (VisitQueryFields g l collect [])"
proof
  fix g l n a
  assume "built_graph g"
  then obtain g0 ev s where g: "g = Some g0" "graph_spec ev s g0"
    by (auto simp: built_graph_def dest: Build_spec)
  show "QueryAccess g l n = Some a \<longleftrightarrow> a \<in> set (snd (VisitQueryFields g l collect [])) \<and> fa_Name a = n"
  proof (cases "HasModel g l")
    case True
    then show ?thesis using graph_views(1) [OF g(2), of l] g(1) by (simp add: lookup_matches_visit_def)
  next
    case False
    then show ?thesis by (simp add: unknown_model)
  qed
qed

interpretation relation_names: named_accesses built_graph "\<lambda>g l n. Relation g l n ctxt"
    "\<lambda>g l. snd (VisitRelations g l ctxt collect [])" for ctxt
proof
  fix g l n a
  assume "built_graph g"
  then obtain g0 ev s where g: "g = Some g0" "graph_spec ev s g0"
    by (auto simp: built_graph_def dest: Build_spec)
  show "Relation g l n ctxt = Some a \<longleftrightarrow> a \<in> set (snd (VisitRelations g l ctxt collect [])) \<and> fa_Name a = n"
  proof (cases "HasModel g l")
    case True
    then show ?thesis using graph_views(3) [OF g(2), of l] g(1) by (simp add: lookup_matches_visit_def)
  next
    case False
    then show ?thesis by (simp add: unknown_model)
  qed
qed

lemma visit_query_candidates:
  "snd (VisitQueryFields graph l (\<lambda>access cs. (True, add_candidate (candidate access) cs)) []) =
     fold add_candidate (map candidate (snd (VisitQueryFields graph l collect []))) []"
  by (cases "graph_model graph l")
    (simp_all add: VisitQueryFields_def visitFields_def visit_listing_def visit_while_True
      visit_while_collect fold_map comp_def)

lemma visit_relation_candidates:
  "snd (VisitRelations graph l ctxt (\<lambda>access cs. (True, add_candidate (candidate access) cs)) []) =
     fold add_candidate (map candidate (snd (VisitRelations graph l ctxt collect []))) []"
  by (cases "graph_model graph l")
    (simp_all add: VisitRelations_def visit_listing_def visit_while_True visit_while_collect fold_map comp_def)

section \<open>Suffixes of a field\<close>

text \<open>The path at which both scans stop, for a segment that is the last one.\<close>

definition under :: "string list \<Rightarrow> LookupPath \<Rightarrow> bool" where
  "under pre path \<longleftrightarrow> length pre \<le> length (path_Transforms path) \<and> take (length pre) (path_Transforms path) = pre"

definition hit_transform :: "string list \<Rightarrow> string \<Rightarrow> LookupPath \<Rightarrow> bool" where
  "hit_transform pre segment path \<longleftrightarrow> under pre path \<and> length pre < length (path_Transforms path) \<and>
     path_Transforms path ! length pre = segment"

definition hit_lookup :: "FieldRef \<Rightarrow> PathMode \<Rightarrow> string list \<Rightarrow> string \<Rightarrow> LookupPath \<Rightarrow> bool" where
  "hit_lookup field mode pre segment path \<longleftrightarrow> under pre path \<and> length (path_Transforms path) = length pre \<and>
     mode = PathLookup \<and> segment \<in> set (path_Lookups path) \<and>
     (\<not> FieldRef_IsRelation (Some field) \<or> relationLookup segment)"

definition hit :: "FieldRef \<Rightarrow> PathMode \<Rightarrow> string list \<Rightarrow> string \<Rightarrow> LookupPath \<Rightarrow> bool" where
  "hit field mode pre segment path \<longleftrightarrow> hit_transform pre segment path \<or> hit_lookup field mode pre segment path"

text \<open>No listed path goes on with the segment, as a transform or as a lookup, and one goes on with the wildcard.\<close>

definition by_wildcard :: "FieldRef \<Rightarrow> PathMode \<Rightarrow> string list \<Rightarrow> string \<Rightarrow> bool" where
  "by_wildcard field mode pre segment \<longleftrightarrow>
     (\<exists>path \<in> set (field_LookupPaths (fref_field field)). hit_transform pre ''*'' path) \<and>
     (\<forall>path \<in> set (field_LookupPaths (fref_field field)). \<not> hit field mode pre segment path)"

lemma suffix_visit_cases:
  "suffix_visit field pre segment mode False path st =
     (if hit_transform pre segment path
      then (False, st\<lparr>ss_nextPrefix := pre @ [segment], ss_transform := True, ss_wildcard := False, ss_lookup := False\<rparr>)
      else if hit_lookup field mode pre segment path then (False, st\<lparr>ss_lookup := True\<rparr>)
      else if hit_transform pre ''*'' path then (True, st\<lparr>ss_wildcard := True\<rparr>) else (True, st))"
  by (auto simp: suffix_visit_def hit_transform_def hit_lookup_def under_def Let_def list_ex_iff)

lemma suffix_scan:
  assumes "\<not> ss_transform st" "\<not> ss_lookup st"
  shows "(let r = visit_while (suffix_visit field pre segment mode False) paths st in
     ss_transform r = (case find (hit field mode pre segment) paths of
        Some p \<Rightarrow> hit_transform pre segment p | None \<Rightarrow> False) \<and>
     ss_lookup r = (case find (hit field mode pre segment) paths of
        Some p \<Rightarrow> \<not> hit_transform pre segment p | None \<Rightarrow> False) \<and>
     (ss_wildcard r \<longrightarrow> ss_wildcard st \<or> (\<exists>path \<in> set paths. hit_transform pre ''*'' path)))"
  using assms
proof (induction paths arbitrary: st)
  case Nil
  then show ?case by simp
next
  case (Cons path paths)
  show ?case
  proof (cases "hit field mode pre segment path")
    case True
    then show ?thesis using Cons.prems by (auto simp: suffix_visit_cases hit_def Let_def)
  next
    case False
    let ?st = "if hit_transform pre ''*'' path then st\<lparr>ss_wildcard := True\<rparr> else st"
    have "visit_while (suffix_visit field pre segment mode False) (path # paths) st =
        visit_while (suffix_visit field pre segment mode False) paths ?st"
      using False by (simp add: suffix_visit_cases hit_def)
    moreover note Cons.IH [of ?st]
    ultimately show ?thesis using Cons.prems False by (auto simp: Let_def split: if_splits)
  qed
qed

text \<open>The candidate of one name among those collected.\<close>

definition named :: "string \<Rightarrow> PathCandidate list \<Rightarrow> PathCandidate list" where
  "named n cs = filter (\<lambda>c. pc_Name c = n) cs"

lemma named_add_new:
  "named n (add_new c cs) = (if pc_Name c = n \<and> named n cs = [] then [c] else named n cs)"
  by (auto simp: named_def add_new_def filter_empty_conv image_iff)

lemma named_fold_lookups:
  "named n (fold (\<lambda>lookup cs. if rel \<and> \<not> relationLookup lookup then cs
       else add_new \<lparr>pc_Name = lookup, pc_Kind = k, pc_Field = f, pc_Rank = r\<rparr> cs) lookups cs) =
   (if named n cs = [] \<and> n \<in> set lookups \<and> (\<not> rel \<or> relationLookup n)
    then [\<lparr>pc_Name = n, pc_Kind = k, pc_Field = f, pc_Rank = r\<rparr>] else named n cs)"
proof (induction lookups arbitrary: cs)
  case (Cons x lookups)
  let ?cs = "if rel \<and> \<not> relationLookup x then cs
       else add_new \<lparr>pc_Name = x, pc_Kind = k, pc_Field = f, pc_Rank = r\<rparr> cs"
  have step: "named n ?cs = (if named n cs = [] \<and> n = x \<and> (\<not> rel \<or> relationLookup n)
      then [\<lparr>pc_Name = n, pc_Kind = k, pc_Field = f, pc_Rank = r\<rparr>] else named n cs)"
    by (auto simp: named_add_new)
  show ?case unfolding fold.simps o_apply Cons.IH step by auto
qed simp

lemma named_visit:
  assumes "segment \<noteq> ''*''"
  shows "named segment (snd (suffix_candidates_visit field pre mode path cs)) =
     (if named segment cs \<noteq> [] then named segment cs
      else if hit_transform pre segment path
      then [\<lparr>pc_Name = segment, pc_Kind = PathCandidateTransform, pc_Field = field, pc_Rank = 1\<rparr>]
      else if hit_lookup field mode pre segment path
      then [\<lparr>pc_Name = segment, pc_Kind = PathCandidateLookup, pc_Field = field, pc_Rank = 2\<rparr>]
      else [])"
    and "fst (suffix_candidates_visit field pre mode path cs)"
  using assms
  by (auto simp: suffix_candidates_visit_def Let_def named_add_new named_fold_lookups hit_transform_def
      hit_lookup_def under_def)

lemma named_scan:
  assumes "segment \<noteq> ''*''"
  shows "named segment (visit_while (suffix_candidates_visit field pre mode) paths cs) =
     (if named segment cs \<noteq> [] then named segment cs
      else (case find (hit field mode pre segment) paths of
         None \<Rightarrow> []
       | Some p \<Rightarrow> if hit_transform pre segment p
           then [\<lparr>pc_Name = segment, pc_Kind = PathCandidateTransform, pc_Field = field, pc_Rank = 1\<rparr>]
           else [\<lparr>pc_Name = segment, pc_Kind = PathCandidateLookup, pc_Field = field, pc_Rank = 2\<rparr>]))"
proof (induction paths arbitrary: cs)
  case Nil
  then show ?case by simp
next
  case (Cons path paths)
  obtain cs' where v: "suffix_candidates_visit field pre mode path cs = (True, cs')"
    using named_visit(2) [OF assms, of field pre mode path cs] by (metis (full_types) prod.collapse)
  note one = named_visit(1) [OF assms, of field pre mode path cs, unfolded v snd_conv]
  have hit: "hit field mode pre segment path \<longleftrightarrow> hit_transform pre segment path \<or> hit_lookup field mode pre segment path"
    by (simp add: hit_def)
  show ?case using one Cons.IH [of cs'] by (simp add: v hit)
qed

lemma visit_lookup_paths:
  "snd (FieldRef_VisitLookupPaths (Some f) visit st) = visit_while visit (field_LookupPaths (fref_field f)) st"
proof -
  have "map cloneLookupPath ps = ps" for ps by (simp add: map_idI)
  then show ?thesis by (simp add: FieldRef_VisitLookupPaths_def visit_listing_def)
qed

text \<open>
  For the last segment of a path, \<open>consumeFieldSuffix\<close> accepts what \<open>fieldSuffixCandidates\<close> offers, and
  beyond that exactly what only a wildcard transform listed at that place accepts.
\<close>

lemma suffix_offered:
  assumes "segment \<noteq> ''*''"
  shows "named segment (fieldSuffixCandidates f pre mode) = [] \<or>
    (\<exists>c ts. named segment (fieldSuffixCandidates f pre mode) = [c] \<and> pc_Field c = f \<and>
       consumeFieldSuffix (Some f) pre segment mode False = Some (pc_Kind c, ts))"
proof (cases "mode = PathFields")
  case True
  then show ?thesis by (simp add: fieldSuffixCandidates_def named_def)
next
  case False
  let ?paths = "field_LookupPaths (fref_field f)"
  let ?st = "\<lparr>ss_wildcard = False, ss_lookup = False, ss_transform = False, ss_nextPrefix = pre\<rparr>"
  have scan: "named segment (fieldSuffixCandidates f pre mode) =
      (case find (hit f mode pre segment) ?paths of
         None \<Rightarrow> []
       | Some p \<Rightarrow> if hit_transform pre segment p
           then [\<lparr>pc_Name = segment, pc_Kind = PathCandidateTransform, pc_Field = f, pc_Rank = 1\<rparr>]
           else [\<lparr>pc_Name = segment, pc_Kind = PathCandidateLookup, pc_Field = f, pc_Rank = 2\<rparr>])"
    using False named_scan [OF assms, of f pre mode ?paths "[]"]
    by (simp add: fieldSuffixCandidates_def visit_lookup_paths named_def)
  have consume: "consumeFieldSuffix (Some f) pre segment mode False =
      (let st = visit_while (suffix_visit f pre segment mode False) ?paths ?st
       in if ss_transform st then Some (PathCandidateTransform, ss_nextPrefix st)
          else if ss_lookup st then Some (PathCandidateLookup, pre)
          else if ss_wildcard st then Some (PathCandidateTransform, pre @ [''*'']) else None)"
    using False by (simp add: consumeFieldSuffix_def visit_lookup_paths)
  show ?thesis
    using suffix_scan [of ?st f pre segment mode ?paths]
    unfolding scan consume by (cases "find (hit f mode pre segment) ?paths") (simp_all add: Let_def)
qed

lemma suffix_accepted:
  assumes "segment \<noteq> ''*''" "consumeFieldSuffix (Some f) pre segment mode False = Some (k, ts)"
  shows "if named segment (fieldSuffixCandidates f pre mode) = []
    then k = PathCandidateTransform \<and> by_wildcard f mode pre segment else \<not> by_wildcard f mode pre segment"
proof -
  let ?paths = "field_LookupPaths (fref_field f)"
  let ?st = "\<lparr>ss_wildcard = False, ss_lookup = False, ss_transform = False, ss_nextPrefix = pre\<rparr>"
  have fieldsmode: "mode \<noteq> PathFields" using assms(2) by (auto simp: consumeFieldSuffix_def)
  have "named segment (fieldSuffixCandidates f pre mode) =
      (case find (hit f mode pre segment) ?paths of
         None \<Rightarrow> []
       | Some p \<Rightarrow> if hit_transform pre segment p
           then [\<lparr>pc_Name = segment, pc_Kind = PathCandidateTransform, pc_Field = f, pc_Rank = 1\<rparr>]
           else [\<lparr>pc_Name = segment, pc_Kind = PathCandidateLookup, pc_Field = f, pc_Rank = 2\<rparr>])"
    using fieldsmode named_scan [OF assms(1), of f pre mode ?paths "[]"]
    by (simp add: fieldSuffixCandidates_def visit_lookup_paths named_def)
  moreover have "consumeFieldSuffix (Some f) pre segment mode False =
      (let st = visit_while (suffix_visit f pre segment mode False) ?paths ?st
       in if ss_transform st then Some (PathCandidateTransform, ss_nextPrefix st)
          else if ss_lookup st then Some (PathCandidateLookup, pre)
          else if ss_wildcard st then Some (PathCandidateTransform, pre @ [''*'']) else None)"
    using fieldsmode by (simp add: consumeFieldSuffix_def visit_lookup_paths)
  moreover have none: "(\<forall>path \<in> set ?paths. \<not> hit f mode pre segment path) \<longleftrightarrow> find (hit f mode pre segment) ?paths = None"
    by (auto simp: find_None_iff)
  ultimately show ?thesis
    using suffix_scan [of ?st f pre segment mode ?paths] assms(2) by (cases "find (hit f mode pre segment) ?paths")
      (auto simp: Let_def by_wildcard_def split: if_splits)
qed

lemma named_Cons_mem: "named n cs \<noteq> [] \<longleftrightarrow> (\<exists>c \<in> set cs. pc_Name c = n)"
  by (auto simp: named_def filter_empty_conv)

lemma named_one:
  assumes "named n cs = [c]" "d \<in> set cs" "pc_Name d = n"
  shows "d = c"
proof -
  have "d \<in> set (named n cs)" using assms(2,3) by (simp add: named_def)
  then show ?thesis using assms(1) by simp
qed

section \<open>One step of the walk\<close>

text \<open>In every state of a walk, a state at a model has no field.\<close>

definition walk_ok :: "resolverState \<Rightarrow> bool" where
  "walk_ok st \<longleftrightarrow> (rs_model st \<noteq> '''' \<longrightarrow> rs_field st = None)"

lemma walk_ok_start [simp]: "walk_ok (start_state l)"
  by (simp add: walk_ok_def start_state_def)

lemma walk_ok_stateFromField [simp]: "walk_ok (stateFromField a)"
  by (simp add: walk_ok_def stateFromField_def split: option.split)

lemma walk_ok_consume:
  assumes "consumePathSegment graph mode st seg hasMore = Some (st', r)"
  shows "walk_ok st'"
proof -
  have suffix: "walk_ok st'" if "consume_suffix mode st seg hasMore = Some (st', r)"
    using that by (auto simp: consume_suffix_def walk_ok_def split: option.splits prod.splits)
  show ?thesis
    using assms suffix
    by (auto simp: consumePathSegment_def consume_relation_def Let_def split: if_splits option.splits)
qed

lemma walk_ok_consume_all: "consume_all graph mode st segs = Some st' \<Longrightarrow> walk_ok st \<Longrightarrow> walk_ok st'"
  by (induction graph mode st segs rule: consume_all.induct)
    (auto split: option.splits prod.splits dest: walk_ok_consume)

definition accepts :: "graph_ptr \<Rightarrow> PathMode \<Rightarrow> resolverState \<Rightarrow> string \<Rightarrow> PathCandidateKind \<Rightarrow> FieldRef \<Rightarrow> bool" where
  "accepts graph mode st text k f \<longleftrightarrow> (\<forall>rng. \<exists>st'. consumePathSegment graph mode st
     \<lparr>seg_Text = text, seg_Range = rng\<rparr> False = Some (st', \<lparr>rps_Segment = \<lparr>seg_Text = text, seg_Range = rng\<rparr>,
       rps_Kind = k, rps_Field = f\<rparr>))"

lemma accepts_suffix:
  assumes "consumeFieldSuffix (Some f) (rs_transforms st) text mode False = Some (k, ts)"
    and "field_or_relation st = Some f"
  shows "\<exists>st'. consume_suffix mode st \<lparr>seg_Text = text, seg_Range = rng\<rparr> False =
    Some (st', \<lparr>rps_Segment = \<lparr>seg_Text = text, seg_Range = rng\<rparr>, rps_Kind = k, rps_Field = f\<rparr>)"
  using assms by (simp add: consume_suffix_def)

lemma candidate_accepted:
  assumes g: "built_graph graph" and ok: "walk_ok st"
    and c: "c \<in> set (candidatesForState graph mode st)" and star: "pc_Name c \<noteq> ''*''"
  shows "accepts graph mode st (pc_Name c) (pc_Kind c) (pc_Field c)"
proof (cases "mode = PathSelectRelated \<or> mode = PathPrefetchRelated")
  case True
  let ?cand = "\<lambda>access. access_candidate (relation_rank mode (fa_Field access)) access"
  have "pc_Name c \<noteq> '''' \<and> (\<exists>a. Relation graph (rs_model st) (pc_Name c) (relation_context mode) = Some a \<and> c = ?cand a)"
    using c True relation_names.offered_iff [OF g, of ?cand c "rs_model st" "relation_context mode"]
    by (simp add: candidatesForState_def visit_relation_candidates access_candidate_def)
  then show ?thesis
    using True by (auto simp: accepts_def consumePathSegment_def consume_relation_def access_candidate_def Let_def)
next
  case False
  let ?fields = "if rs_model st \<noteq> '''' then fold add_candidate (map (access_candidate 0)
      (snd (VisitQueryFields graph (rs_model st) collect []))) [] else []"
  have cands: "candidatesForState graph mode st = (case field_or_relation st of None \<Rightarrow> ?fields
      | Some f \<Rightarrow> fold add_candidate (fieldSuffixCandidates f (rs_transforms st) mode) ?fields)"
    using False by (simp add: candidatesForState_def visit_query_candidates Let_def split: option.split)
  have fields: "d \<in> set ?fields \<longleftrightarrow> rs_model st \<noteq> '''' \<and> pc_Name d \<noteq> '''' \<and>
      (\<exists>a. QueryAccess graph (rs_model st) (pc_Name d) = Some a \<and> d = access_candidate 0 a)" for d
    using query_names.offered_iff [OF g, of "access_candidate 0" d "rs_model st"]
    by (simp add: access_candidate_def)
  show ?thesis
  proof (cases "c \<in> set ?fields")
    case True
    then show ?thesis
      using fields [of c] False by (auto simp: accepts_def consumePathSegment_def access_candidate_def)
  next
    case notfield: False
    then obtain f where f: "field_or_relation st = Some f"
        "c \<in> set (fold add_candidate (fieldSuffixCandidates f (rs_transforms st) mode) ?fields)"
      using c cands by (cases "field_or_relation st") auto
    have mem: "c \<in> set (fieldSuffixCandidates f (rs_transforms st) mode)" "pc_Name c \<noteq> ''''"
        "pc_Name c \<notin> pc_Name ` set ?fields"
      using fold_add_candidate_from [OF f(2)] notfield by auto
    then have "named (pc_Name c) (fieldSuffixCandidates f (rs_transforms st) mode) \<noteq> []"
      unfolding named_Cons_mem by blast
    then obtain d ts where d: "named (pc_Name c) (fieldSuffixCandidates f (rs_transforms st) mode) = [d]"
        "pc_Field d = f" "consumeFieldSuffix (Some f) (rs_transforms st) (pc_Name c) mode False = Some (pc_Kind d, ts)"
      using suffix_offered [OF star] by blast
    have "c = d" using named_one [OF d(1) mem(1)] by simp
    have none: "rs_model st \<noteq> '''' \<Longrightarrow> QueryAccess graph (rs_model st) (pc_Name c) = None"
    proof (rule ccontr)
      assume "rs_model st \<noteq> ''''" "QueryAccess graph (rs_model st) (pc_Name c) \<noteq> None"
      then obtain a where a: "QueryAccess graph (rs_model st) (pc_Name c) = Some a" by blast
      have "fa_Name a = pc_Name c" using query_names.find_iff [OF g] a by blast
      then have "access_candidate 0 a \<in> set ?fields" "pc_Name (access_candidate 0 a) = pc_Name c"
        using fields [of "access_candidate 0 a"] a mem(2) \<open>rs_model st \<noteq> ''''\<close> by (simp_all add: access_candidate_def)
      then show False using mem(3) by (metis imageI)
    qed
    have "rs_model st \<noteq> '''' \<Longrightarrow> rs_relationField st \<noteq> None"
      using ok f(1) by (simp add: walk_ok_def field_or_relation_def)
    then show ?thesis
      using none False mem(2) accepts_suffix [OF d(3) f(1)] d(2) \<open>c = d\<close>
      by (auto simp: accepts_def consumePathSegment_def)
  qed
qed

lemma accepted_candidate:
  assumes g: "built_graph graph" and ok: "walk_ok st" and star: "seg_Text seg \<noteq> ''*''"
    and run: "consumePathSegment graph mode st seg False = Some (st', r)"
  shows "if rps_Kind r = PathCandidateTransform \<and> by_wildcard (rps_Field r) mode (rs_transforms st) (seg_Text seg)
    then seg_Text seg \<notin> pc_Name ` set (candidatesForState graph mode st)
    else (\<exists>c \<in> set (candidatesForState graph mode st).
      pc_Name c = seg_Text seg \<and> pc_Kind c = rps_Kind r \<and> pc_Field c = rps_Field r)"
proof (cases "mode = PathSelectRelated \<or> mode = PathPrefetchRelated")
  case True
  let ?cand = "\<lambda>access. access_candidate (relation_rank mode (fa_Field access)) access"
  from run True obtain a where a: "Relation graph (rs_model st) (seg_Text seg) (relation_context mode) = Some a"
      "rps_Kind r = PathCandidateField" "rps_Field r = fa_Field a" "seg_Text seg \<noteq> ''''"
    by (auto simp: consumePathSegment_def consume_relation_def Let_def split: if_splits option.splits)
  have "fa_Name a = seg_Text seg" using relation_names.find_iff [OF g] a(1) by blast
  then have "?cand a \<in> set (candidatesForState graph mode st)"
    using a True relation_names.offered_iff [OF g, of ?cand "?cand a" "rs_model st" "relation_context mode"]
    by (simp add: candidatesForState_def visit_relation_candidates access_candidate_def)
  then have "\<exists>c \<in> set (candidatesForState graph mode st).
      pc_Name c = seg_Text seg \<and> pc_Kind c = rps_Kind r \<and> pc_Field c = rps_Field r"
    using a \<open>fa_Name a = seg_Text seg\<close> by (intro bexI [of _ "?cand a"]) (simp_all add: access_candidate_def)
  then show ?thesis using a(2) by simp
next
  case False
  let ?fields = "if rs_model st \<noteq> '''' then fold add_candidate (map (access_candidate 0)
      (snd (VisitQueryFields graph (rs_model st) collect []))) [] else []"
  have cands: "candidatesForState graph mode st = (case field_or_relation st of None \<Rightarrow> ?fields
      | Some f \<Rightarrow> fold add_candidate (fieldSuffixCandidates f (rs_transforms st) mode) ?fields)"
    using False by (simp add: candidatesForState_def visit_query_candidates Let_def split: option.split)
  have fields: "d \<in> set ?fields \<longleftrightarrow> rs_model st \<noteq> '''' \<and> pc_Name d \<noteq> '''' \<and>
      (\<exists>a. QueryAccess graph (rs_model st) (pc_Name d) = Some a \<and> d = access_candidate 0 a)" for d
    using query_names.offered_iff [OF g, of "access_candidate 0" d "rs_model st"]
    by (simp add: access_candidate_def)
  have nonblank: "seg_Text seg \<noteq> ''''" using run by (auto simp: consumePathSegment_def)
  show ?thesis
  proof (cases "rs_model st \<noteq> '''' \<and> QueryAccess graph (rs_model st) (seg_Text seg) \<noteq> None")
    case True
    then obtain a where a: "QueryAccess graph (rs_model st) (seg_Text seg) = Some a" "rs_model st \<noteq> ''''" by blast
    have name: "fa_Name a = seg_Text seg" using query_names.find_iff [OF g] a(1) by blast
    then have "access_candidate 0 a \<in> set ?fields"
      using fields [of "access_candidate 0 a"] a nonblank by (simp add: access_candidate_def)
    then have "access_candidate 0 a \<in> set (candidatesForState graph mode st)"
      unfolding cands by (cases "field_or_relation st") (simp_all add: fold_add_candidate_keeps)
    moreover have "rps_Kind r = PathCandidateField \<and> rps_Field r = fa_Field a"
      using run False a nonblank by (auto simp: consumePathSegment_def)
    ultimately have "rps_Kind r = PathCandidateField" "\<exists>c \<in> set (candidatesForState graph mode st).
        pc_Name c = seg_Text seg \<and> pc_Kind c = rps_Kind r \<and> pc_Field c = rps_Field r"
      using name by (simp, intro bexI [of _ "access_candidate 0 a"]) (simp_all add: access_candidate_def)
    then show ?thesis by simp
  next
    case nofield: False
    then have suffix: "consume_suffix mode st seg False = Some (st', r)"
      using run False nonblank by (auto simp: consumePathSegment_def split: if_splits option.splits)
    then obtain f ts where f: "field_or_relation st = Some f" "rps_Field r = f"
        "consumeFieldSuffix (Some f) (rs_transforms st) (seg_Text seg) mode False = Some (rps_Kind r, ts)"
      by (auto simp: consume_suffix_def split: option.splits prod.splits)
    note wildcard = suffix_accepted [OF star f(3)]
    have out: "seg_Text seg \<notin> pc_Name ` set ?fields"
      using nofield fields by auto
    show ?thesis
    proof (cases "named (seg_Text seg) (fieldSuffixCandidates f (rs_transforms st) mode) = []")
      case True
      then have "seg_Text seg \<notin> pc_Name ` set (fieldSuffixCandidates f (rs_transforms st) mode)"
        using named_Cons_mem by (metis (no_types, lifting) imageE)
      then have "seg_Text seg \<notin> pc_Name ` set (candidatesForState graph mode st)"
        using nonblank out by (simp add: cands f(1) fold_add_candidate_names)
      then show ?thesis using wildcard True f(2) by simp
    next
      case notempty: False
      then obtain d ts' where d: "named (seg_Text seg) (fieldSuffixCandidates f (rs_transforms st) mode) = [d]"
          "pc_Field d = f" "consumeFieldSuffix (Some f) (rs_transforms st) (seg_Text seg) mode False = Some (pc_Kind d, ts')"
        using suffix_offered [OF star] by blast
      have "seg_Text seg \<in> pc_Name ` set (fieldSuffixCandidates f (rs_transforms st) mode)"
        using notempty unfolding named_Cons_mem by (metis imageI)
      then have "seg_Text seg \<in> pc_Name ` set (candidatesForState graph mode st)"
        using nonblank by (simp add: cands f(1) fold_add_candidate_names)
      then obtain c where c: "c \<in> set (candidatesForState graph mode st)" "pc_Name c = seg_Text seg" by auto
      then have "c \<in> set (fold add_candidate (fieldSuffixCandidates f (rs_transforms st) mode) ?fields)"
        unfolding cands f(1) option.case by simp
      moreover have "c \<notin> set ?fields" using out c(2) by (metis imageI)
      ultimately have "c \<in> set (fieldSuffixCandidates f (rs_transforms st) mode)"
        using fold_add_candidate_from by blast
      then have "c = d" using named_one [OF d(1)] c(2) by blast
      then show ?thesis using c d(2,3) f(2,3) wildcard notempty by auto
    qed
  qed
qed

section \<open>Completion and resolution of whole paths\<close>

lemma resolve_last:
  "resolve_segments graph mode st (segs @ [seg]) (length segs) =
     Option.bind (consume_all graph mode st segs)
       (\<lambda>st'. map_option snd (consumePathSegment graph mode st' seg False))"
  by (induction graph mode st segs rule: consume_all.induct) (auto split: option.splits prod.splits)

lemma CompletePath_mem:
  assumes "k < length segs"
  shows "c \<in> set (CompletePath (Some g) label mode segs (int k)) \<longleftrightarrow>
    (\<exists>st. consume_all (Some g) mode (start_state label) (take k segs) = Some st \<and>
       c \<in> set (candidatesForState (Some g) mode st) \<and> HasPrefix (pc_Name c) (seg_Text (segs ! k)))"
  using assms by (cases "consume_all (Some g) mode (start_state label) (take k segs)")
    (auto simp: CompletePath_def)

section \<open>Validation\<close>

lemma consume_field:
  assumes "consumePathSegment graph mode st seg hasMore = Some (st', r)" "field_or_relation st' = Some f"
  shows "f = rps_Field r"
proof -
  have suffix: "f = rps_Field r" if "consume_suffix mode st seg hasMore = Some (st', r)"
    using that assms(2) by (auto simp: consume_suffix_def field_or_relation_def split: option.splits prod.splits)
  have relation: "f = rps_Field r" if "consume_relation graph mode st seg hasMore = Some (st', r)"
    using that assms(2)
    by (auto simp: consume_relation_def field_or_relation_def start_state_def Let_def split: option.splits if_splits)
  have start: "field_or_relation (stateFromField a) = Some (fa_Field a)" for a
    by (simp add: field_or_relation_def stateFromField_def split: option.split)
  show ?thesis
    using assms suffix relation start
    by (auto simp: consumePathSegment_def split: if_splits option.splits)
qed

text \<open>\<open>fails_first\<close>: segment \<open>i\<close> does not resolve and all segments before it do.\<close>

definition fails_first :: "(nat \<Rightarrow> ResolvedPathSegment option) \<Rightarrow> nat \<Rightarrow> nat \<Rightarrow> bool" where
  "fails_first resolve n i \<longleftrightarrow> i < n \<and> resolve i = None \<and> (\<forall>j < i. resolve j \<noteq> None)"

lemma fails_first_Suc:
  assumes "consumePathSegment graph mode st seg (segs \<noteq> []) = Some (st', r)"
    and "fails_first (resolve_segments graph mode st' segs) (length segs) i"
  shows "fails_first (resolve_segments graph mode st (seg # segs)) (length (seg # segs)) (Suc i)"
  using assms unfolding fails_first_def by (auto split: nat.split)

lemma validate_issue:
  "validate_segments graph mode st segs = Some issue \<Longrightarrow>
     \<exists>i. fails_first (resolve_segments graph mode st segs) (length segs) i \<and> issue_Segment issue = segs ! i"
proof (induction segs arbitrary: st)
  case Nil
  then show ?case by simp
next
  case (Cons seg segs)
  show ?case
  proof (cases "consumePathSegment graph mode st seg (segs \<noteq> [])")
    case None
    then have "fails_first (resolve_segments graph mode st (seg # segs)) (length (seg # segs)) 0"
      by (simp add: fails_first_def)
    moreover have "issue_Segment issue = seg" using Cons.prems None by (auto split: if_splits option.splits)
    ultimately show ?thesis by (metis nth_Cons_0)
  next
    case (Some p)
    obtain st' r where p: "p = (st', r)" by fastforce
    have "seg_Text seg \<noteq> ''''" using Some by (auto simp: consumePathSegment_def)
    then have "validate_segments graph mode st' segs = Some issue" using Cons.prems Some p by simp
    from Cons.IH [OF this] obtain i where i: "fails_first (resolve_segments graph mode st' segs) (length segs) i"
        "issue_Segment issue = segs ! i" by blast
    show ?thesis
      using fails_first_Suc [OF _ i(1)] Some p i(2) by (metis nth_Cons_Suc)
  qed
qed

definition indeterminate_after :: "FieldRef option \<Rightarrow> string \<Rightarrow> bool \<Rightarrow> bool" where
  "indeterminate_after prev text hasMore \<longleftrightarrow>
     (\<exists>f ts. prev = Some f \<and> pathMetadataIndeterminate f ts text hasMore)"

lemma validate_silent:
  "validate_segments graph mode st segs = None \<Longrightarrow> (\<And>f. field_or_relation st = Some f \<Longrightarrow> prev = Some f) \<Longrightarrow>
     (\<forall>i < length segs. resolve_segments graph mode st segs i \<noteq> None) \<or>
     (\<exists>i. fails_first (resolve_segments graph mode st segs) (length segs) i \<and>
        indeterminate_after (case i of 0 \<Rightarrow> prev | Suc j \<Rightarrow> map_option rps_Field (resolve_segments graph mode st segs j))
          (seg_Text (segs ! i)) (Suc i < length segs))"
proof (induction segs arbitrary: st prev)
  case Nil
  then show ?case by simp
next
  case (Cons seg segs)
  show ?case
  proof (cases "consumePathSegment graph mode st seg (segs \<noteq> [])")
    case None
    then have "fails_first (resolve_segments graph mode st (seg # segs)) (length (seg # segs)) 0"
      by (simp add: fails_first_def)
    moreover have "indeterminate_after prev (seg_Text seg) (segs \<noteq> [])"
      using Cons.prems None by (auto simp: indeterminate_after_def split: if_splits option.splits)
    ultimately show ?thesis by (intro disjI2 exI [of _ 0] conjI) (assumption, simp)
  next
    case (Some p)
    obtain st' r where p: "p = (st', r)" by fastforce
    have "seg_Text seg \<noteq> ''''" using Some by (auto simp: consumePathSegment_def)
    then have silent: "validate_segments graph mode st' segs = None" using Cons.prems(1) Some p by simp
    have consumed: "consumePathSegment graph mode st seg (segs \<noteq> []) = Some (st', r)" using Some p by simp
    have "\<And>f. field_or_relation st' = Some f \<Longrightarrow> Some (rps_Field r) = Some f"
      using consume_field [OF consumed] by simp
    from Cons.IH [OF silent this] show ?thesis
    proof
      assume all: "\<forall>i < length segs. resolve_segments graph mode st' segs i \<noteq> None"
      then have "\<forall>i < length (seg # segs). resolve_segments graph mode st (seg # segs) i \<noteq> None"
        using consumed by (auto split: nat.split)
      then show ?thesis ..
    next
      assume "\<exists>i. fails_first (resolve_segments graph mode st' segs) (length segs) i \<and>
        indeterminate_after (case i of 0 \<Rightarrow> Some (rps_Field r) | Suc j \<Rightarrow> map_option rps_Field (resolve_segments graph mode st' segs j))
          (seg_Text (segs ! i)) (Suc i < length segs)"
      then obtain i where i: "fails_first (resolve_segments graph mode st' segs) (length segs) i"
        "indeterminate_after (case i of 0 \<Rightarrow> Some (rps_Field r) | Suc j \<Rightarrow> map_option rps_Field (resolve_segments graph mode st' segs j))
          (seg_Text (segs ! i)) (Suc i < length segs)" by blast
      have "map_option rps_Field (resolve_segments graph mode st (seg # segs) i) =
          (case i of 0 \<Rightarrow> Some (rps_Field r) | Suc j \<Rightarrow> map_option rps_Field (resolve_segments graph mode st' segs j))"
        using consumed by (cases i) simp_all
      then show ?thesis
        using fails_first_Suc [OF consumed i(1)] i(2)
        by (intro disjI2 exI [of _ "Suc i"] conjI) (assumption, simp del: resolve_segments.simps)
    qed
  qed
qed

end
