(* ===== verification/Path_Properties.thy ===== *)
theory Path_Properties
  imports Path_Resolver_Facts Schema_Sample
begin

text \<open>The properties of path completion, resolution and validation.\<close>

definition author_resolved :: "Graph \<Rightarrow> FieldRef FieldAccess \<Rightarrow> bool" where
  "author_resolved g a \<longleftrightarrow> (\<forall>seg. seg_Text seg = ''author'' \<longrightarrow>
     (\<exists>st. consumePathSegment (Some g) PathLookup (start_state ''s.Book'') seg False =
        Some (st, \<lparr>rps_Segment = seg, rps_Kind = PathCandidateField, rps_Field = fa_Field a\<rparr>)))"

lemma sample_resolves:
  obtains g a where "Build Some sample_snapshot = Inr g" "built_graph (Some g)" "author_resolved g a"
proof -
  obtain g a where g: "Build Some sample_snapshot = Inr g" "QueryAccess (Some g) ''s.Book'' ''author'' = Some a"
    by (rule sample_graph) auto
  moreover have "built_graph (Some g)" using g(1) sample_maps_ok by (auto simp: built_graph_def)
  moreover have "author_resolved g a"
    using g(2) by (simp add: author_resolved_def consumePathSegment_def start_state_def)
  ultimately show ?thesis using that by blast
qed

abbreviation no_range :: ByteRange where
  "no_range \<equiv> \<lparr>br_Start = 0, br_End = 0\<rparr>"

lemma sample_completion:
  obtains g c where "Build Some sample_snapshot = Inr g" "pc_Name c = ''author''"
    "c \<in> set (CompletePath (Some g) ''s.Book'' PathLookup [\<lparr>seg_Text = ''au'', seg_Range = no_range\<rparr>] (int 0))"
proof -
  obtain g a where g: "Build Some sample_snapshot = Inr g" "built_graph (Some g)" "author_resolved g a"
    by (rule sample_resolves)
  let ?seg = "\<lparr>seg_Text = ''author'', seg_Range = no_range\<rparr>"
  obtain st where "consumePathSegment (Some g) PathLookup (start_state ''s.Book'') ?seg False =
      Some (st, \<lparr>rps_Segment = ?seg, rps_Kind = PathCandidateField, rps_Field = fa_Field a\<rparr>)"
    using g(3) unfolding author_resolved_def by (metis PathSegment.select_convs(1))
  from accepted_candidate [OF g(2) walk_ok_start _ this] obtain c where
      c: "c \<in> set (candidatesForState (Some g) PathLookup (start_state ''s.Book''))" "pc_Name c = ''author''"
    by auto
  have "c \<in> set (CompletePath (Some g) ''s.Book'' PathLookup [\<lparr>seg_Text = ''au'', seg_Range = no_range\<rparr>] (int 0))"
    using c by (subst CompletePath_mem) (simp_all add: HasPrefix_def)
  with g(1) c(2) that show ?thesis by blast
qed

text \<open>The segments before an accepted one resolve, and so does it.\<close>

lemma resolved_segments:
  "consume_all graph mode st segs = Some st' \<Longrightarrow> consumePathSegment graph mode st' seg False \<noteq> None \<Longrightarrow>
   i \<le> length segs \<Longrightarrow> resolve_segments graph mode st (segs @ [seg]) i \<noteq> None"
proof (induction graph mode st segs arbitrary: i rule: consume_all.induct)
  case (2 graph mode st s segs)
  then show ?case by (cases i) (auto split: option.splits prod.splits)
qed (auto split: option.splits)

text \<open>C4. Completion is sound: accepting a candidate, other than the wildcard, as the active segment gives a path
  that resolves, to the kind and the field the candidate announced.\<close>

theorem completion_sound:
  assumes "Build ev s = Inr g" and "snapshot_maps_ok s"
    and "c \<in> set (CompletePath (Some g) label mode segments (int k))" and "pc_Name c \<noteq> ''*''"
  shows "ResolvePathSegment (Some g) label mode
      (take k segments @ [\<lparr>seg_Text = pc_Name c, seg_Range = rng\<rparr>]) (int k) =
    Some \<lparr>rps_Segment = \<lparr>seg_Text = pc_Name c, seg_Range = rng\<rparr>, rps_Kind = pc_Kind c, rps_Field = pc_Field c\<rparr>"
proof -
  have g: "built_graph (Some g)" using assms(1,2) by (auto simp: built_graph_def)
  have k: "k < length segments" using assms(3) by (simp add: CompletePath_def split: if_splits)
  from assms(3) obtain st where st: "consume_all (Some g) mode (start_state label) (take k segments) = Some st"
      "c \<in> set (candidatesForState (Some g) mode st)"
    unfolding CompletePath_mem [OF k] by blast
  have "accepts (Some g) mode st (pc_Name c) (pc_Kind c) (pc_Field c)"
    by (rule candidate_accepted [OF g walk_ok_consume_all [OF st(1) walk_ok_start] st(2) assms(4)])
  then obtain st' where "consumePathSegment (Some g) mode st \<lparr>seg_Text = pc_Name c, seg_Range = rng\<rparr> False =
      Some (st', \<lparr>rps_Segment = \<lparr>seg_Text = pc_Name c, seg_Range = rng\<rparr>, rps_Kind = pc_Kind c, rps_Field = pc_Field c\<rparr>)"
    unfolding accepts_def by blast
  moreover have "length (take k segments) = k" using k by simp
  ultimately show ?thesis
    using st(1) resolve_last [of "Some g" mode "start_state label" "take k segments"]
    by (simp add: ResolvePathSegment_def)
qed

theorem completion_sound_witness:
  "\<exists>g (c :: PathCandidate). Build Some sample_snapshot = Inr g \<and> pc_Name c = ''author'' \<and>
     ResolvePathSegment (Some g) ''s.Book'' PathLookup [\<lparr>seg_Text = pc_Name c, seg_Range = no_range\<rparr>] 0 =
       Some \<lparr>rps_Segment = \<lparr>seg_Text = pc_Name c, seg_Range = no_range\<rparr>, rps_Kind = pc_Kind c, rps_Field = pc_Field c\<rparr>"
proof -
  obtain g c where g: "Build Some sample_snapshot = Inr g" and c: "pc_Name c = ''author''"
    "c \<in> set (CompletePath (Some g) ''s.Book'' PathLookup [\<lparr>seg_Text = ''au'', seg_Range = no_range\<rparr>] (int 0))"
    by (rule sample_completion)
  have "pc_Name c \<noteq> ''*''" using c(1) by simp
  from completion_sound [OF g sample_maps_ok c(2) this, of no_range] g c(1)
  show ?thesis by (intro exI [of _ g] exI [of _ c]) simp
qed

text \<open>The segment resolves as a transform, and after the segments before it the lookup paths of its field list
  the wildcard but not the segment itself.\<close>

definition wildcard_only :: "Graph option \<Rightarrow> string \<Rightarrow> PathMode \<Rightarrow> PathSegment list \<Rightarrow> ResolvedPathSegment \<Rightarrow> string \<Rightarrow> bool" where
  "wildcard_only graph label mode segments r name \<longleftrightarrow> rps_Kind r = PathCandidateTransform \<and>
     (\<exists>st. consume_all graph mode (start_state label) segments = Some st \<and>
        by_wildcard (rps_Field r) mode (rs_transforms st) name)"

text \<open>C5. Completion is complete: a last segment that resolves, other than the literal wildcard, is offered for
  each of its prefixes, as the kind and the field it resolves to, exactly unless it is one that only a
  wildcard transform listed at that place accepts (a key of a JSON field); such a segment is never offered.\<close>

theorem completion_complete:
  assumes "Build ev s = Inr g" and "snapshot_maps_ok s"
    and "ResolvePathSegment (Some g) label mode (segments @ [seg]) (int (length segments)) = Some r"
    and "seg_Text seg \<noteq> ''*''" and "HasPrefix (seg_Text seg) (seg_Text partial)"
  shows "if wildcard_only (Some g) label mode segments r (seg_Text seg)
    then seg_Text seg \<notin> pc_Name ` set (CompletePath (Some g) label mode (segments @ [partial]) (int (length segments)))
    else \<exists>c \<in> set (CompletePath (Some g) label mode (segments @ [partial]) (int (length segments))).
      pc_Name c = seg_Text seg \<and> pc_Kind c = rps_Kind r \<and> pc_Field c = rps_Field r"
proof -
  have g: "built_graph (Some g)" using assms(1,2) by (auto simp: built_graph_def)
  have "resolve_segments (Some g) mode (start_state label) (segments @ [seg]) (length segments) = Some r"
    using assms(3) by (simp add: ResolvePathSegment_def split: if_splits)
  then obtain st st' where st: "consume_all (Some g) mode (start_state label) segments = Some st"
      "consumePathSegment (Some g) mode st seg False = Some (st', r)"
    unfolding resolve_last by (auto simp: bind_eq_Some_conv)
  have k: "length segments < length (segments @ [partial])" by simp
  have offered: "c \<in> set (CompletePath (Some g) label mode (segments @ [partial]) (int (length segments))) \<longleftrightarrow>
      c \<in> set (candidatesForState (Some g) mode st) \<and> HasPrefix (pc_Name c) (seg_Text partial)" for c
    unfolding CompletePath_mem [OF k] using st(1) by simp
  have wild: "wildcard_only (Some g) label mode segments r (seg_Text seg) \<longleftrightarrow>
      rps_Kind r = PathCandidateTransform \<and> by_wildcard (rps_Field r) mode (rs_transforms st) (seg_Text seg)"
    using st(1) by (simp add: wildcard_only_def)
  note last = accepted_candidate [OF g walk_ok_consume_all [OF st(1) walk_ok_start] assms(4) st(2)]
  show ?thesis
  proof (cases "wildcard_only (Some g) label mode segments r (seg_Text seg)")
    case True
    then show ?thesis using last offered unfolding wild by (auto simp del: not_None_eq)
  next
    case False
    then obtain c where "c \<in> set (candidatesForState (Some g) mode st)" "pc_Name c = seg_Text seg"
      "pc_Kind c = rps_Kind r" "pc_Field c = rps_Field r" using last unfolding wild by auto
    then show ?thesis using False assms(5) offered by auto
  qed
qed

theorem completion_complete_witness:
  "\<exists>g. Build Some sample_snapshot = Inr g \<and>
     (\<exists>c \<in> set (CompletePath (Some g) ''s.Book'' PathLookup [\<lparr>seg_Text = ''au'', seg_Range = no_range\<rparr>] 0). pc_Name c = ''author'')"
proof -
  obtain g a where g: "Build Some sample_snapshot = Inr g" "built_graph (Some g)" "author_resolved g a"
    by (rule sample_resolves)
  let ?seg = "\<lparr>seg_Text = ''author'', seg_Range = no_range\<rparr>"
  have "ResolvePathSegment (Some g) ''s.Book'' PathLookup ([] @ [?seg]) (int (length ([] :: PathSegment list))) =
      Some \<lparr>rps_Segment = ?seg, rps_Kind = PathCandidateField, rps_Field = fa_Field a\<rparr>"
  proof -
    obtain st where "consumePathSegment (Some g) PathLookup (start_state ''s.Book'') ?seg False =
        Some (st, \<lparr>rps_Segment = ?seg, rps_Kind = PathCandidateField, rps_Field = fa_Field a\<rparr>)"
      using g(3) unfolding author_resolved_def by (metis PathSegment.select_convs(1))
    then show ?thesis by (simp add: ResolvePathSegment_def)
  qed
  from completion_complete [OF g(1) sample_maps_ok this, of "\<lparr>seg_Text = ''au'', seg_Range = no_range\<rparr>"] g(1)
  show ?thesis by (auto simp: HasPrefix_def wildcard_only_def)
qed

text \<open>C6. An issue that validation reports is about the first segment that does not resolve. When validation
  says nothing about a path it looked at, all its segments resolve, or the first that does not
  follows a field whose lookup metadata is marked as incomplete.\<close>

theorem validation_first_failure:
  assumes "label \<noteq> ''''" and "segments \<noteq> []" and "length segments \<le> 64"
    and "mode = PathLookup \<or> mode = PathProjection \<longrightarrow> \<not> isAnnotationAlias annotations (seg_Text (hd segments))"
  shows "case ValidatePath (Some g) label mode segments annotations of
      Some issue \<Rightarrow> \<exists>i. fails_first (\<lambda>i. ResolvePathSegment (Some g) label mode segments (int i)) (length segments) i \<and>
        issue_Segment issue = segments ! i
    | None \<Rightarrow> (\<forall>i < length segments. ResolvePathSegment (Some g) label mode segments (int i) \<noteq> None) \<or>
        (\<exists>i. fails_first (\<lambda>i. ResolvePathSegment (Some g) label mode segments (int i)) (length segments) (Suc i) \<and>
           indeterminate_after (map_option rps_Field (ResolvePathSegment (Some g) label mode segments (int i)))
             (seg_Text (segments ! Suc i)) (Suc (Suc i) < length segments))"
proof -
  let ?r = "resolve_segments (Some g) mode (start_state label) segments"
  have resolve: "i < length segments \<Longrightarrow> ResolvePathSegment (Some g) label mode segments (int i) = ?r i" for i
    by (simp add: ResolvePathSegment_def)
  have first: "fails_first ?r (length segments) i \<Longrightarrow>
      fails_first (\<lambda>i. ResolvePathSegment (Some g) label mode segments (int i)) (length segments) i" for i
    by (simp add: fails_first_def resolve)
  have validate: "ValidatePath (Some g) label mode segments annotations =
      validate_segments (Some g) mode (start_state label) segments"
    using assms by (auto simp: ValidatePath_def MaxPathSegments_def)
  show ?thesis
  proof (cases "validate_segments (Some g) mode (start_state label) segments")
    case (Some issue)
    then show ?thesis using validate_issue [OF Some] first by (auto simp: validate)
  next
    case None
    have "\<And>f. field_or_relation (start_state label) = Some f \<Longrightarrow> None = Some f"
      by (simp add: field_or_relation_def start_state_def)
    from validate_silent [OF None this] show ?thesis
    proof
      assume "\<forall>i < length segments. ?r i \<noteq> None"
      then show ?thesis using resolve by (simp add: validate None)
    next
      assume "\<exists>i. fails_first ?r (length segments) i \<and>
        indeterminate_after (case i of 0 \<Rightarrow> None | Suc j \<Rightarrow> map_option rps_Field (?r j))
          (seg_Text (segments ! i)) (Suc i < length segments)"
      then obtain i where i: "fails_first ?r (length segments) i"
        "indeterminate_after (case i of 0 \<Rightarrow> None | Suc j \<Rightarrow> map_option rps_Field (?r j))
          (seg_Text (segments ! i)) (Suc i < length segments)" by blast
      then obtain j where j: "i = Suc j" by (cases i) (auto simp: indeterminate_after_def)
      have "j < length segments" using i(1) j by (simp add: fails_first_def)
      then show ?thesis using first [OF i(1)] i(2) resolve [of j] j by (auto simp: validate None)
    qed
  qed
qed

theorem validation_first_failure_witness:
  "\<exists>issue. ValidatePath (Some (empty_graph sample_snapshot)) ''s.Book'' PathFields
     [\<lparr>seg_Text = ''title'', seg_Range = no_range\<rparr>] [] = Some issue \<and> seg_Text (issue_Segment issue) = ''title''"
proof -
  let ?segs = "[\<lparr>seg_Text = ''title'', seg_Range = no_range\<rparr>]"
  have none: "ResolvePathSegment (Some (empty_graph sample_snapshot)) ''s.Book'' PathFields ?segs 0 = None"
    by (simp add: ResolvePathSegment_def consumePathSegment_def start_state_def QueryAccess_def graph_model_def
        empty_graph_def)
  show ?thesis
    using validation_first_failure [of "''s.Book''" ?segs PathFields "[]" "empty_graph sample_snapshot"] none
    by (auto simp: fails_first_def indeterminate_after_def split: option.splits)
qed

text \<open>C7. Diagnostics do not object to what completion offers. A path whose last segment is an accepted
  candidate, other than the wildcard, has no issue, whatever the annotations of its queryset are.\<close>

theorem completed_path_validates:
  assumes "Build ev s = Inr g" and "snapshot_maps_ok s"
    and "c \<in> set (CompletePath (Some g) label mode segments (int k))" and "pc_Name c \<noteq> ''*''"
  shows "ValidatePath (Some g) label mode (take k segments @ [\<lparr>seg_Text = pc_Name c, seg_Range = rng\<rparr>]) annotations = None"
proof (rule ccontr)
  let ?seg = "\<lparr>seg_Text = pc_Name c, seg_Range = rng\<rparr>"
  have g: "built_graph (Some g)" using assms(1,2) by (auto simp: built_graph_def)
  have k: "k < length segments" using assms(3) by (simp add: CompletePath_def split: if_splits)
  from assms(3) obtain st where st: "consume_all (Some g) mode (start_state label) (take k segments) = Some st"
      "c \<in> set (candidatesForState (Some g) mode st)"
    unfolding CompletePath_mem [OF k] by blast
  have last: "consumePathSegment (Some g) mode st ?seg False \<noteq> None"
    using candidate_accepted [OF g walk_ok_consume_all [OF st(1) walk_ok_start] st(2) assms(4)] unfolding accepts_def by fastforce
  assume "ValidatePath (Some g) label mode (take k segments @ [?seg]) annotations \<noteq> None"
  then obtain issue where "validate_segments (Some g) mode (start_state label) (take k segments @ [?seg]) = Some issue"
    by (auto simp: ValidatePath_def split: if_splits)
  from validate_issue [OF this] obtain i where i: "i \<le> k"
    "resolve_segments (Some g) mode (start_state label) (take k segments @ [?seg]) i = None"
    using k by (auto simp: fails_first_def less_Suc_eq_le)
  show False using resolved_segments [OF st(1) last, of i] i k by simp
qed

theorem completed_path_validates_witness:
  "\<exists>g (c :: PathCandidate). Build Some sample_snapshot = Inr g \<and> pc_Name c = ''author'' \<and>
     ValidatePath (Some g) ''s.Book'' PathLookup [\<lparr>seg_Text = pc_Name c, seg_Range = no_range\<rparr>] [] = None"
proof -
  obtain g c where g: "Build Some sample_snapshot = Inr g" and c: "pc_Name c = ''author''"
    "c \<in> set (CompletePath (Some g) ''s.Book'' PathLookup [\<lparr>seg_Text = ''au'', seg_Range = no_range\<rparr>] (int 0))"
    by (rule sample_completion)
  have "pc_Name c \<noteq> ''*''" using c(1) by simp
  from completed_path_validates [OF g sample_maps_ok c(2) this, of no_range "[]"] g c(1)
  show ?thesis by (intro exI [of _ g] exI [of _ c]) simp
qed

end
