(* ===== verification/Go_Utf8.thy ===== *)
theory Go_Utf8
  imports Go_Strings
begin

text \<open>
  The part of Go's \<open>unicode/utf8\<close> and the slices of \<open>[]byte\<close> that the document code uses: decoding
  the first rune of a byte slice, validity, and the fact that a valid slice cut at the start of a
  rune is two valid slices.
\<close>

section \<open>Slices\<close>

text \<open>\<open>source[a:b]\<close> for \<open>a \<le> b \<le> len(source)\<close>; the callers stay in that range.\<close>

definition subslice :: "'a list \<Rightarrow> nat \<Rightarrow> nat \<Rightarrow> 'a list" where
  "subslice xs a b = take (b - a) (drop a xs)"

lemma length_subslice [simp]: "length (subslice xs a b) = min (b - a) (length xs - a)"
  by (simp add: subslice_def min.commute)

lemma subslice_zero [simp]: "subslice xs 0 b = take b xs"
  by (simp add: subslice_def)

lemma subslice_empty [simp]: "b \<le> a \<Longrightarrow> subslice xs a b = []"
  by (simp add: subslice_def)

lemma subslice_nth: "a + i < b \<Longrightarrow> b \<le> length xs \<Longrightarrow> subslice xs a b ! i = xs ! (a + i)"
  by (simp add: subslice_def)

lemma subslice_append: "a \<le> b \<Longrightarrow> b \<le> c \<Longrightarrow> subslice xs a b @ subslice xs b c = subslice xs a c"
proof -
  assume "a \<le> b" "b \<le> c"
  then obtain i j where "b = a + i" "c = a + i + j" by (metis le_Suc_ex)
  then show ?thesis by (simp add: subslice_def take_add add.commute)
qed

lemma subslice_Cons: "a < b \<Longrightarrow> b \<le> length xs \<Longrightarrow> subslice xs a b = xs ! a # subslice xs (Suc a) b"
  by (simp add: subslice_def Cons_nth_drop_Suc [symmetric] take_Cons' Suc_diff_Suc [symmetric])

lemma subslice_split: "a \<le> b \<Longrightarrow> b \<le> length xs \<Longrightarrow> xs = take a xs @ subslice xs a b @ drop b xs"
  by (metis append_assoc append_take_drop_id le0 subslice_append subslice_zero)

section \<open>Runes\<close>

abbreviation byte :: "char \<Rightarrow> nat" where
  "byte c \<equiv> of_char c"

definition RuneError :: nat where "RuneError = 0xFFFD"

definition cont_in :: "nat \<Rightarrow> nat \<Rightarrow> char \<Rightarrow> bool" where
  "cont_in lo hi c \<longleftrightarrow> lo \<le> byte c \<and> byte c \<le> hi"

abbreviation cont :: "char \<Rightarrow> bool" where
  "cont \<equiv> cont_in 0x80 0xBF"

text \<open>The range of the second byte after a leading byte (\<open>acceptRanges\<close>).\<close>

definition accept_lo :: "nat \<Rightarrow> nat" where
  "accept_lo b = (if b = 0xE0 then 0xA0 else if b = 0xF0 then 0x90 else 0x80)"

definition accept_hi :: "nat \<Rightarrow> nat" where
  "accept_hi b = (if b = 0xED then 0x9F else if b = 0xF4 then 0x8F else 0xBF)"

fun decode2 :: "nat \<Rightarrow> string \<Rightarrow> nat \<times> nat" where
  "decode2 b (c1 # cs) = (if cont c1 then ((b mod 32) * 64 + byte c1 mod 64, 2) else (RuneError, 1))"
| "decode2 b _ = (RuneError, 1)"

fun decode3 :: "nat \<Rightarrow> string \<Rightarrow> nat \<times> nat" where
  "decode3 b (c1 # c2 # cs) = (if cont_in (accept_lo b) (accept_hi b) c1 \<and> cont c2
     then ((b mod 16) * 4096 + (byte c1 mod 64) * 64 + byte c2 mod 64, 3) else (RuneError, 1))"
| "decode3 b _ = (RuneError, 1)"

fun decode4 :: "nat \<Rightarrow> string \<Rightarrow> nat \<times> nat" where
  "decode4 b (c1 # c2 # c3 # cs) = (if cont_in (accept_lo b) (accept_hi b) c1 \<and> cont c2 \<and> cont c3
     then ((b mod 8) * 262144 + (byte c1 mod 64) * 4096 + (byte c2 mod 64) * 64 + byte c3 mod 64, 4)
     else (RuneError, 1))"
| "decode4 b _ = (RuneError, 1)"

definition DecodeRune :: "string \<Rightarrow> nat \<times> nat" where
  "DecodeRune p = (case p of [] \<Rightarrow> (RuneError, 0)
     | c # cs \<Rightarrow> let b = byte c in
         if b < 0x80 then (b, 1)
         else if b < 0xC2 \<or> 0xF4 < b then (RuneError, 1)
         else if b < 0xE0 then decode2 b cs
         else if b < 0xF0 then decode3 b cs
         else decode4 b cs)"

definition RuneStart :: "char \<Rightarrow> bool" where
  "RuneStart c \<longleftrightarrow> \<not> (0x80 \<le> byte c \<and> byte c < 0xC0)"

abbreviation bad_rune :: "nat \<times> nat \<Rightarrow> bool" where
  "bad_rune d \<equiv> fst d = RuneError \<and> snd d = 1"

lemma DecodeRune_Nil [simp]: "DecodeRune [] = (RuneError, 0)"
  by (simp add: DecodeRune_def)

lemma decode2_size: "snd (decode2 b cs) \<in> {1, 2} \<and> snd (decode2 b cs) \<le> Suc (length cs)"
  by (cases "(b, cs)" rule: decode2.cases) simp_all

lemma decode3_size: "snd (decode3 b cs) \<in> {1, 3} \<and> snd (decode3 b cs) \<le> Suc (length cs)"
  by (cases "(b, cs)" rule: decode3.cases) simp_all

lemma decode4_size: "snd (decode4 b cs) \<in> {1, 4} \<and> snd (decode4 b cs) \<le> Suc (length cs)"
  by (cases "(b, cs)" rule: decode4.cases) simp_all

lemma DecodeRune_cases:
  obtains (ascii) "byte c < 0x80" "DecodeRune (c # cs) = (byte c, 1)"
  | (invalid) "\<not> byte c < 0x80" "byte c < 0xC2 \<or> 0xF4 < byte c" "DecodeRune (c # cs) = (RuneError, 1)"
  | (two) "0xC2 \<le> byte c" "byte c < 0xE0" "DecodeRune (c # cs) = decode2 (byte c) cs"
  | (three) "0xE0 \<le> byte c" "byte c < 0xF0" "DecodeRune (c # cs) = decode3 (byte c) cs"
  | (four) "0xF0 \<le> byte c" "byte c \<le> 0xF4" "DecodeRune (c # cs) = decode4 (byte c) cs"
proof -
  consider "byte c < 0x80" | "\<not> byte c < 0x80" "byte c < 0xC2 \<or> 0xF4 < byte c"
    | "0xC2 \<le> byte c" "byte c < 0xE0" | "0xE0 \<le> byte c" "byte c < 0xF0" | "0xF0 \<le> byte c" "byte c \<le> 0xF4"
    by linarith
  then show thesis
    by cases (rule ascii invalid two three four; simp add: DecodeRune_def; fail)+
qed

lemma DecodeRune_size:
  assumes "p \<noteq> []"
  shows "1 \<le> snd (DecodeRune p) \<and> snd (DecodeRune p) \<le> length p"
proof -
  from assms obtain c cs where p: "p = c # cs" by (cases p) auto
  show ?thesis
    by (cases rule: DecodeRune_cases [of c cs])
      (use decode2_size [of "byte c" cs] decode3_size [of "byte c" cs] decode4_size [of "byte c" cs]
       in \<open>auto simp: p\<close>)
qed

lemma DecodeRune_size_le4: "snd (DecodeRune p) \<le> 4"
proof (cases p)
  case (Cons c cs)
  show ?thesis
    by (cases rule: DecodeRune_cases [of c cs])
      (use decode2_size [of "byte c" cs] decode3_size [of "byte c" cs] decode4_size [of "byte c" cs]
       in \<open>auto simp: Cons\<close>)
qed simp

lemma drop_rune_less: "(r, n) = DecodeRune (c # cs) \<Longrightarrow> length (drop n (c # cs)) < length (c # cs)"
  using DecodeRune_size [of "c # cs"] by (metis Suc_le_eq diff_less length_drop list.distinct(1) length_greater_0_conv less_le_trans snd_conv zero_less_one)

text \<open>A rune that decodes is a leading byte and continuation bytes, which alone decide it.\<close>

lemma decode2_ok:
  "decode2 b cs = (r, n) \<Longrightarrow> \<not> bad_rune (r, n) \<Longrightarrow> \<exists>c1 ds. n = 2 \<and> cs = c1 # ds \<and> cont c1"
  by (cases "(b, cs)" rule: decode2.cases) (simp_all split: if_splits)

lemma decode3_ok:
  "decode3 b cs = (r, n) \<Longrightarrow> \<not> bad_rune (r, n) \<Longrightarrow>
     \<exists>c1 c2 ds. n = 3 \<and> cs = c1 # c2 # ds \<and> cont_in (accept_lo b) (accept_hi b) c1 \<and> cont c2"
  by (cases "(b, cs)" rule: decode3.cases) (simp_all split: if_splits)

lemma decode4_ok:
  "decode4 b cs = (r, n) \<Longrightarrow> \<not> bad_rune (r, n) \<Longrightarrow>
     \<exists>c1 c2 c3 ds. n = 4 \<and> cs = c1 # c2 # c3 # ds \<and> cont_in (accept_lo b) (accept_hi b) c1 \<and> cont c2 \<and> cont c3"
  by (cases "(b, cs)" rule: decode4.cases) (simp_all split: if_splits)

lemma accept_cont: "cont_in (accept_lo b) (accept_hi b) c \<Longrightarrow> cont c"
  by (auto simp: cont_in_def accept_lo_def accept_hi_def split: if_splits)

lemma cont_not_start: "cont c \<longleftrightarrow> \<not> RuneStart c"
  by (auto simp: cont_in_def RuneStart_def)

text \<open>
  The shape of a rune that decodes: it is \<open>n\<close> bytes, the first a start byte and the others not, and
  the decoding depends on those bytes alone.
\<close>

lemma DecodeRune_shape:
  assumes d: "DecodeRune p = (r, n)" and ok: "\<not> bad_rune (r, n)" and p: "p \<noteq> []"
  shows "\<exists>c ds es. p = (c # ds) @ es \<and> n = Suc (length ds) \<and> RuneStart c \<and> (\<forall>x \<in> set ds. \<not> RuneStart x)
    \<and> (\<forall>es'. DecodeRune ((c # ds) @ es') = (r, n))"
proof -
  from p obtain c cs where p: "p = c # cs" by (cases p) auto
  show ?thesis
  proof (cases rule: DecodeRune_cases [of c cs])
    case ascii
    then have "\<forall>es'. DecodeRune ((c # []) @ es') = (r, n)" "n = 1" "RuneStart c"
      using d by (auto simp: p DecodeRune_def RuneStart_def)
    then show ?thesis by (intro exI [of _ c] exI [of _ "[]"] exI [of _ cs]) (simp add: p)
  next
    case invalid
    then show ?thesis using d ok by (simp add: p)
  next
    case two
    with d have "decode2 (byte c) cs = (r, n)" by (simp add: p)
    with ok obtain c1 ds where "n = 2" "cs = c1 # ds" "cont c1" using decode2_ok by blast
    moreover have "RuneStart c" using two by (simp add: RuneStart_def)
    ultimately show ?thesis using two d
      by (intro exI [of _ c] exI [of _ "[c1]"] exI [of _ ds]) (simp add: p cont_not_start DecodeRune_def)
  next
    case three
    with d have "decode3 (byte c) cs = (r, n)" by (simp add: p)
    with ok obtain c1 c2 ds where *: "n = 3" "cs = c1 # c2 # ds" "cont_in (accept_lo (byte c)) (accept_hi (byte c)) c1" "cont c2"
      using decode3_ok by blast
    moreover have "RuneStart c" using three by (simp add: RuneStart_def)
    ultimately show ?thesis using three d accept_cont [OF *(3)]
      by (intro exI [of _ c] exI [of _ "[c1, c2]"] exI [of _ ds]) (simp add: p cont_not_start DecodeRune_def)
  next
    case four
    with d have "decode4 (byte c) cs = (r, n)" by (simp add: p)
    with ok obtain c1 c2 c3 ds where *: "n = 4" "cs = c1 # c2 # c3 # ds"
      "cont_in (accept_lo (byte c)) (accept_hi (byte c)) c1" "cont c2" "cont c3"
      using decode4_ok by blast
    moreover have "RuneStart c" using four by (simp add: RuneStart_def)
    ultimately show ?thesis using four d accept_cont [OF *(3)]
      by (intro exI [of _ c] exI [of _ "[c1, c2, c3]"] exI [of _ ds]) (simp add: p cont_not_start DecodeRune_def)
  qed
qed

section \<open>Validity\<close>

function Valid :: "string \<Rightarrow> bool" where
  "Valid [] = True"
| "Valid (c # cs) = (let d = DecodeRune (c # cs) in \<not> bad_rune d \<and> Valid (drop (snd d) (c # cs)))"
  by pat_completeness auto
termination
  by (relation "measure length") (use DecodeRune_size [of "_ # _"] in \<open>auto simp: Let_def Suc_le_eq\<close>)

text \<open>A valid slice is a concatenation of the byte sequences of single runes.\<close>

definition encodes :: "string \<Rightarrow> nat \<Rightarrow> bool" where
  "encodes u r \<longleftrightarrow> u \<noteq> [] \<and> RuneStart (hd u) \<and> (\<forall>x \<in> set (tl u). \<not> RuneStart x) \<and>
     \<not> bad_rune (r, length u) \<and> (\<forall>es. DecodeRune (u @ es) = (r, length u))"

lemma DecodeRune_encodes:
  assumes "DecodeRune p = (r, n)" "\<not> bad_rune (r, n)" "p \<noteq> []"
  obtains u es where "p = u @ es" "length u = n" "encodes u r"
proof -
  from DecodeRune_shape [OF assms] obtain c ds es where *: "p = (c # ds) @ es" "n = Suc (length ds)"
    "RuneStart c" "\<forall>x \<in> set ds. \<not> RuneStart x" "\<forall>es'. DecodeRune ((c # ds) @ es') = (r, n)" by blast
  show thesis by (rule that [of "c # ds" es]) (use * assms(2) in \<open>simp_all add: encodes_def\<close>)
qed

lemma encodes_decode: "encodes u r \<Longrightarrow> DecodeRune (u @ es) = (r, length u)"
  by (simp add: encodes_def)

lemma encodes_not_Nil: "encodes u r \<Longrightarrow> u \<noteq> []"
  by (simp add: encodes_def)

lemma Valid_step: "p \<noteq> [] \<Longrightarrow> Valid p = (\<not> bad_rune (DecodeRune p) \<and> Valid (drop (snd (DecodeRune p)) p))"
  by (cases p) (simp_all add: Let_def)

lemma Valid_append_rune: "encodes u r \<Longrightarrow> Valid (u @ es) = Valid es"
  using encodes_decode [of u r es] by (subst Valid_step) (simp_all add: encodes_def)

lemma Valid_induct [consumes 1, case_names Nil rune]:
  assumes "Valid p" and "P []" and "\<And>u r es. encodes u r \<Longrightarrow> Valid es \<Longrightarrow> P es \<Longrightarrow> P (u @ es)"
  shows "P p"
  using assms(1)
proof (induction p rule: measure_induct_rule [of length])
  case (less p)
  show ?case
  proof (cases p)
    case Nil
    then show ?thesis by (simp add: assms(2))
  next
    case (Cons c cs)
    obtain r n where d: "DecodeRune p = (r, n)" by (cases "DecodeRune p")
    have "\<not> bad_rune (r, n)" using less.prems d by (simp add: Cons Let_def)
    then obtain u es where u: "p = u @ es" "length u = n" "encodes u r"
      using DecodeRune_encodes [OF d] Cons by blast
    have "Valid es" using less.prems Valid_append_rune [OF u(3)] by (simp add: u(1))
    moreover have "length es < length p" using encodes_not_Nil [OF u(3)] by (simp add: u(1))
    ultimately show ?thesis using less.IH [of es] assms(3) u by simp
  qed
qed

lemma Valid_append: "Valid p \<Longrightarrow> Valid q \<Longrightarrow> Valid (p @ q)"
  by (induction p rule: Valid_induct) (simp_all add: Valid_append_rune)

lemma Valid_hd: "Valid p \<Longrightarrow> p \<noteq> [] \<Longrightarrow> RuneStart (hd p)"
  by (induction p rule: Valid_induct) (auto simp: encodes_def)

lemma Valid_cut:
  assumes "Valid p" and "k \<le> length p" and "k < length p \<Longrightarrow> RuneStart (p ! k)"
  shows "Valid (take k p) \<and> Valid (drop k p)"
  using assms
proof (induction p arbitrary: k rule: Valid_induct)
  case Nil
  then show ?case by simp
next
  case (rune u r es)
  show ?case
  proof (cases "k < length u")
    case True
    have "k = 0"
    proof (rule ccontr)
      assume "k \<noteq> 0"
      with True have "(u @ es) ! k \<in> set (tl u)"
        using nth_mem [of "k - 1" "tl u"] by (simp add: nth_append nth_tl)
      with rune True show False by (simp add: encodes_def)
    qed
    then show ?thesis using rune by (simp add: Valid_append_rune)
  next
    case False
    then have "Valid (take (k - length u) es) \<and> Valid (drop (k - length u) es)"
      using rune by (intro rune.IH) (auto simp: nth_append)
    then show ?thesis using False rune.hyps(1) by (simp add: Valid_append_rune)
  qed
qed

lemma encodes_ascii: "encodes u r \<Longrightarrow> byte (hd u) < 0x80 \<Longrightarrow> length u = 1"
proof -
  assume u: "encodes u r" and a: "byte (hd u) < 0x80"
  have "DecodeRune u = (r, length u)" using encodes_decode [OF u, of "[]"] by simp
  moreover have "DecodeRune u = (byte (hd u), 1)"
    using encodes_not_Nil [OF u] a by (cases u) (simp_all add: DecodeRune_def)
  ultimately show ?thesis by simp
qed

text \<open>After an ASCII byte of a valid slice a rune starts.\<close>

lemma Valid_after_ascii:
  assumes "Valid p" and "Suc i < length p" and "byte (p ! i) < 0x80"
  shows "RuneStart (p ! Suc i)"
  using assms
proof (induction p arbitrary: i rule: Valid_induct)
  case Nil
  then show ?case by simp
next
  case (rune u r es)
  have u: "u \<noteq> []" using encodes_not_Nil [OF rune.hyps(1)] .
  show ?case
  proof (cases "i < length u")
    case True
    have "i = 0"
    proof (rule ccontr)
      assume "i \<noteq> 0"
      with True have "(u @ es) ! i \<in> set (tl u)"
        using nth_mem [of "i - 1" "tl u"] by (simp add: nth_append nth_tl)
      then have "\<not> RuneStart ((u @ es) ! i)" using rune.hyps(1) by (simp add: encodes_def)
      with rune.prems(2) show False by (simp add: RuneStart_def)
    qed
    with rune.prems(2) u have len: "length u = 1" using encodes_ascii [OF rune.hyps(1)] by (simp add: nth_append hd_conv_nth)
    then have "es \<noteq> []" using rune.prems(1) \<open>i = 0\<close> by auto
    have "RuneStart (hd es)"
      using rune.hyps(2) \<open>es \<noteq> []\<close> by (rule Valid_hd)
    then show ?thesis using len \<open>i = 0\<close> \<open>es \<noteq> []\<close> by (simp add: nth_append hd_conv_nth)
  next
    case False
    then have "RuneStart (es ! Suc (i - length u))"
      using rune.prems by (intro rune.IH) (auto simp: nth_append)
    then show ?thesis using False by (simp add: nth_append Suc_diff_le)
  qed
qed

lemma ascii_valid: "\<forall>c \<in> set p. byte c < 0x80 \<Longrightarrow> Valid p"
proof (induction p)
  case (Cons c cs)
  then show ?case by (auto simp: DecodeRune_def RuneError_def)
qed simp

end
