(* ===== verification/Document_Position.thy ===== *)
theory Document_Position
  imports Go_Utf8 "HOL-Library.Word"
begin

text \<open>
  Byte offsets and UTF-16 positions (\<open>ByteOffset\<close>, \<open>PositionAt\<close> and \<open>lineBounds\<close> of
  \<open>internal/analysis/document.go\<close>). Line and character are \<open>uint32\<close>, so they are words of 32 bits
  that wrap; a document is at most \<open>MaxDocumentSize\<close> bytes, and the lemmas show that they then count
  what they should.
\<close>

section \<open>Definitions\<close>

definition MaxDocumentSize :: nat where "MaxDocumentSize = 4 * 1024 * 1024"

record DocPosition =
  dp_Line :: "32 word"
  dp_Character :: "32 word"

abbreviation newline :: char where "newline \<equiv> CHR 0x0A"
abbreviation carriage_return :: char where "carriage_return \<equiv> CHR 0x0D"

text \<open>The loop of \<open>lineBounds\<close>: \<open>rest\<close> is \<open>source[index:]\<close>.\<close>

fun lineBounds_scan :: "string \<Rightarrow> 32 word \<Rightarrow> string \<Rightarrow> nat \<Rightarrow> 32 word \<Rightarrow> nat \<Rightarrow> (nat \<times> nat) option" where
  "lineBounds_scan source target [] index line start =
     (if line = target then Some (start, length source) else None)"
| "lineBounds_scan source target (c # rest) index line start =
     (if c \<noteq> newline then lineBounds_scan source target rest (Suc index) line start
      else if line = target
      then Some (start, if start < index \<and> source ! (index - 1) = carriage_return then index - 1 else index)
      else lineBounds_scan source target rest (Suc index) (line + 1) (Suc index))"

definition lineBounds :: "string \<Rightarrow> 32 word \<Rightarrow> (nat \<times> nat) option" where
  "lineBounds source target = lineBounds_scan source target source 0 0 0"

definition utf16_width :: "nat \<Rightarrow> 32 word" where
  "utf16_width r = (if 0xFFFF < r then 2 else 1)"

text \<open>The loop of \<open>ByteOffset\<close>: \<open>rest\<close> is \<open>source[offset:lineEnd]\<close>.\<close>

function ByteOffset_scan :: "nat \<Rightarrow> 32 word \<Rightarrow> string \<Rightarrow> nat \<Rightarrow> 32 word \<Rightarrow> nat option" where
  "ByteOffset_scan lineEnd character [] offset units = (if units = character then Some lineEnd else None)"
| "ByteOffset_scan lineEnd character (c # cs) offset units =
     (if units = character then Some offset
      else let (r, size) = DecodeRune (c # cs); width = utf16_width r in
        if r = RuneError \<and> size = 1 then None
        else if character < units + width then None
        else ByteOffset_scan lineEnd character (drop size (c # cs)) (offset + size) (units + width))"
  by pat_completeness auto
termination
  by (relation "measure (\<lambda>(_, _, rest, _, _). length rest)", simp, simp only: in_measure prod.case, rule drop_rune_less, simp)

definition ByteOffset :: "string \<Rightarrow> DocPosition \<Rightarrow> nat option" where
  "ByteOffset source position = (case lineBounds source (dp_Line position) of
     None \<Rightarrow> None
   | Some (lineStart, lineEnd) \<Rightarrow>
       ByteOffset_scan lineEnd (dp_Character position) (subslice source lineStart lineEnd) lineStart 0)"

text \<open>The two loops of \<open>PositionAt\<close>.\<close>

fun PositionAt_line :: "string \<Rightarrow> nat \<Rightarrow> 32 word \<Rightarrow> nat \<Rightarrow> 32 word \<times> nat" where
  "PositionAt_line [] index line lineStart = (line, lineStart)"
| "PositionAt_line (c # cs) index line lineStart =
     (if c = newline then PositionAt_line cs (Suc index) (line + 1) (Suc index)
      else PositionAt_line cs (Suc index) line lineStart)"

function PositionAt_character :: "string \<Rightarrow> 32 word \<Rightarrow> 32 word option" where
  "PositionAt_character [] character = Some character"
| "PositionAt_character (c # cs) character =
     (let (r, size) = DecodeRune (c # cs) in
      if r = RuneError \<and> size = 1 then None
      else PositionAt_character (drop size (c # cs)) (character + utf16_width r))"
  by pat_completeness auto
termination
  by (relation "measure (\<lambda>(rest, _). length rest)", simp, simp only: in_measure prod.case, rule drop_rune_less, simp)

definition PositionAt :: "string \<Rightarrow> int \<Rightarrow> DocPosition option" where
  "PositionAt source offset =
     (if offset < 0 \<or> int (length source) < offset \<or>
         offset < int (length source) \<and> \<not> RuneStart (source ! nat offset)
      then None
      else let (line, lineStart) = PositionAt_line (take (nat offset) source) 0 0 0 in
        case PositionAt_character (subslice source lineStart (nat offset)) 0 of
          None \<Rightarrow> None
        | Some character \<Rightarrow> Some \<lparr>dp_Line = line, dp_Character = character\<rparr>)"

section \<open>What they count\<close>

abbreviation newlines :: "string \<Rightarrow> nat" where
  "newlines p \<equiv> count_list p newline"

definition line_start :: "string \<Rightarrow> nat" where
  "line_start p = (case LastIndexByte p newline of None \<Rightarrow> 0 | Some i \<Rightarrow> Suc i)"

function utf16_len :: "string \<Rightarrow> nat" where
  "utf16_len [] = 0"
| "utf16_len (c # cs) = (let (r, size) = DecodeRune (c # cs) in
     (if 0xFFFF < r then 2 else 1) + utf16_len (drop size (c # cs)))"
  by pat_completeness auto
termination
  by (relation "measure length", simp, simp only: in_measure prod.case, rule drop_rune_less, simp)

text \<open>The rune loops one rune at a time.\<close>

lemma rune_steps:
  assumes "encodes u r"
  shows "PositionAt_character (u @ es) ch = PositionAt_character es (ch + utf16_width r)"
    and "utf16_len (u @ es) = (if 0xFFFF < r then 2 else 1) + utf16_len es"
    and "ByteOffset_scan lineEnd character (u @ es) offset units =
      (if units = character then Some offset
       else if character < units + utf16_width r then None
       else ByteOffset_scan lineEnd character es (offset + length u) (units + utf16_width r))"
proof -
  obtain c cs where u: "u = c # cs" using encodes_not_Nil [OF assms] by (cases u) auto
  have d: "DecodeRune (c # cs @ es) = (r, length u)" using encodes_decode [OF assms, of es] by (simp add: u)
  have ok: "\<not> (r = RuneError \<and> length u = 1)" using assms by (simp add: encodes_def)
  have drop: "drop (length u) (c # cs @ es) = es" by (simp add: u)
  show "PositionAt_character (u @ es) ch = PositionAt_character es (ch + utf16_width r)"
    using ok drop d by (auto simp add: u simp del: drop_Suc_Cons)
  show "utf16_len (u @ es) = (if 0xFFFF < r then 2 else 1) + utf16_len es"
    using drop d by (simp add: u del: drop_Suc_Cons)
  show "ByteOffset_scan lineEnd character (u @ es) offset units =
      (if units = character then Some offset
       else if character < units + utf16_width r then None
       else ByteOffset_scan lineEnd character es (offset + length u) (units + utf16_width r))"
    using ok drop d by (auto simp add: u Let_def simp del: drop_Suc_Cons)
qed

lemma utf16_width_unat: "unat (utf16_width r) = (if 0xFFFF < r then 2 else 1)"
  by (simp add: utf16_width_def)

lemma encodes_wide: "encodes u r \<Longrightarrow> 0xFFFF < r \<Longrightarrow> 2 \<le> length u"
proof (rule ccontr)
  assume u: "encodes u r" and r: "0xFFFF < r" and "\<not> 2 \<le> length u"
  then have len: "length u = 1" using encodes_not_Nil [OF u] by (cases u) (auto simp: Suc_le_eq)
  then obtain c where c: "u = [c]" by (auto simp: length_Suc_conv)
  have "DecodeRune [c] = (r, 1)" using encodes_decode [OF u, of "[]"] by (simp add: c)
  then have "r < 0x80 \<or> r = RuneError"
    by (auto simp: DecodeRune_def Let_def split: if_splits)
  with r show False by (auto simp: RuneError_def)
qed

lemma utf16_len_le: "Valid p \<Longrightarrow> utf16_len p \<le> length p"
proof (induction p rule: Valid_induct)
  case (rune u r es)
  have "1 \<le> length u" using encodes_not_Nil [OF rune.hyps(1)] by (simp add: Suc_le_eq)
  then show ?case
    using encodes_wide [OF rune.hyps(1)] rune.IH unfolding rune_steps(2) [OF rune.hyps(1)] length_append
    by auto
qed simp

lemma utf16_len_append: "Valid p \<Longrightarrow> utf16_len (p @ q) = utf16_len p + utf16_len q"
  by (induction p rule: Valid_induct) (simp_all add: rune_steps(2))

lemma utf16_len_0: "Valid p \<Longrightarrow> utf16_len p = 0 \<longleftrightarrow> p = []"
  by (cases rule: Valid_induct [of p "\<lambda>p. utf16_len p = 0 \<longleftrightarrow> p = []"])
    (auto simp: rune_steps(2) dest: encodes_not_Nil)

lemma PositionAt_character_counts: "Valid p \<Longrightarrow> PositionAt_character p ch = Some (ch + of_nat (utf16_len p))"
  by (induction p arbitrary: ch rule: Valid_induct)
    (auto simp: rune_steps utf16_width_def add.assoc)

text \<open>A place where a rune of \<open>p\<close> starts, or the end of \<open>p\<close>.\<close>

definition boundary :: "string \<Rightarrow> nat \<Rightarrow> bool" where
  "boundary p k \<longleftrightarrow> k \<le> length p \<and> (k < length p \<longrightarrow> RuneStart (p ! k))"

lemma boundary_rune:
  assumes "encodes u r"
  shows "boundary (u @ es) k \<longleftrightarrow> k = 0 \<or> (length u \<le> k \<and> boundary es (k - length u))"
proof (cases "k < length u")
  case True
  have "k = 0" if "boundary (u @ es) k"
  proof (rule ccontr)
    assume "k \<noteq> 0"
    with True have "(u @ es) ! k \<in> set (tl u)"
      using nth_mem [of "k - 1" "tl u"] by (simp add: nth_append nth_tl)
    with assms that True show False by (simp add: encodes_def boundary_def)
  qed
  then show ?thesis using True assms
    by (auto simp: boundary_def encodes_def nth_append hd_conv_nth)
next
  case False
  then show ?thesis using encodes_not_Nil [OF assms] by (auto simp: boundary_def nth_append)
qed

lemma ByteOffset_scan_finds:
  assumes "Valid rest" and "unat units + utf16_len rest < 2 ^ 32" and "lineEnd = offset + length rest"
  shows "ByteOffset_scan lineEnd character rest offset units = Some x \<longleftrightarrow>
    (\<exists>k. boundary rest k \<and> x = offset + k \<and> unat character = unat units + utf16_len (take k rest))"
  using assms
proof (induction rest arbitrary: offset units rule: Valid_induct)
  case Nil
  then show ?case by (auto simp: boundary_def word_unat_eq_iff)
next
  case (rune u r es)
  note u = rune.hyps(1)
  let ?w = "(if 0xFFFF < r then 2 else 1) :: nat"
  have units: "unat (units + utf16_width r) = unat units + ?w"
    using rune.prems(1) by (simp add: rune_steps(2) [OF u] unat_word_ariths utf16_width_unat)
  have take: "utf16_len (take k (u @ es)) = ?w + utf16_len (take (k - length u) es)" if "length u \<le> k" for k
    using that by (simp add: rune_steps(2) [OF u])
  have step: "(\<exists>k. boundary (u @ es) k \<and> x = offset + k \<and> unat character = unat units + utf16_len (take k (u @ es))) \<longleftrightarrow>
     x = offset \<and> unat character = unat units \<or>
     (\<exists>k. boundary es k \<and> x = offset + length u + k \<and> unat character = unat units + ?w + utf16_len (take k es))"
    (is "?L \<longleftrightarrow> ?A \<or> ?B")
  proof
    assume ?L
    then obtain k where k: "boundary (u @ es) k" "x = offset + k" "unat character = unat units + utf16_len (take k (u @ es))" by blast
    show "?A \<or> ?B"
    proof (cases "k = 0")
      case True
      then show ?thesis using k by simp
    next
      case False
      then have "length u \<le> k" "boundary es (k - length u)" using k(1) by (auto simp: boundary_rune [OF u])
      then have ?B using k take by (intro exI [of _ "k - length u"]) simp
      then show ?thesis ..
    qed
  next
    assume "?A \<or> ?B"
    then show ?L
    proof
      assume ?A
      then show ?L by (intro exI [of _ 0]) (simp add: boundary_rune [OF u])
    next
      assume ?B
      then obtain k where "boundary es k" "x = offset + length u + k" "unat character = unat units + ?w + utf16_len (take k es)" by blast
      then show ?L by (intro exI [of _ "length u + k"]) (simp add: boundary_rune [OF u] rune_steps(2) [OF u])
    qed
  qed
  have IH: "ByteOffset_scan lineEnd character es (offset + length u) (units + utf16_width r) = Some x \<longleftrightarrow>
     (\<exists>k. boundary es k \<and> x = offset + length u + k \<and> unat character = unat units + ?w + utf16_len (take k es))"
    using rune.IH [of "units + utf16_width r" "offset + length u"] rune.prems
    by (simp add: units rune_steps(2) [OF u])
  have less: "character < units + utf16_width r \<longleftrightarrow> unat character < unat units + ?w"
    by (simp add: word_less_nat_alt units)
  show ?case
    unfolding step rune_steps(3) [OF u] using IH by (auto simp: less word_unat_eq_iff)
qed

section \<open>Lines\<close>

lemma PositionAt_line_counts:
  "PositionAt_line p index line lineStart =
     (line + of_nat (newlines p), case LastIndexByte p newline of None \<Rightarrow> lineStart | Some i \<Rightarrow> index + Suc i)"
  by (induction p arbitrary: index line lineStart) (auto split: option.splits)

lemma line_start_append: "line_start (p @ [c]) = (if c = newline then Suc (length p) else line_start p)"
proof (cases "c = newline")
  case False
  have "LastIndexByte (p @ [c]) newline = LastIndexByte p newline"
    using False by (induction p) (auto split: option.splits)
  then show ?thesis using False by (simp add: line_start_def)
qed (simp add: line_start_def)

lemma line_start_le: "line_start p \<le> length p"
  by (auto simp: line_start_def Suc_le_eq split: option.splits dest: LastIndexByte_Some)

text \<open>The end of the line that starts at \<open>start\<close> and whose line feed, or the end of the file, is at \<open>e\<close>.\<close>

definition line_end :: "string \<Rightarrow> nat \<Rightarrow> nat \<Rightarrow> nat" where
  "line_end source start e =
     (if e < length source \<and> start < e \<and> source ! (e - 1) = carriage_return then e - 1 else e)"

definition at_line_end :: "string \<Rightarrow> nat \<Rightarrow> bool" where
  "at_line_end source e \<longleftrightarrow> e \<le> length source \<and> (e < length source \<longrightarrow> source ! e = newline)"

lemma unat_of_nat32: "n < 2 ^ 32 \<Longrightarrow> unat (of_nat n :: 32 word) = n"
  by (simp add: unat_of_nat take_bit_nat_eq_self)

lemma word_of_nat_inj32: "m < 2 ^ 32 \<Longrightarrow> n < 2 ^ 32 \<Longrightarrow> (of_nat m :: 32 word) = of_nat n \<longleftrightarrow> m = n"
  by (simp add: word_of_nat_eq_iff take_bit_nat_eq_self)

lemma lineBounds_scan_finds:
  assumes "source = pre @ rest" and "length source < 2 ^ 32"
    and "index = length pre" and "line = of_nat (newlines pre)" and "start = line_start pre"
  shows "lineBounds_scan source target rest index line start = Some b \<longleftrightarrow>
    (\<exists>e \<ge> index. at_line_end source e \<and> target = of_nat (newlines (take e source)) \<and>
       b = (line_start (take e source), line_end source (line_start (take e source)) e))"
  using assms
proof (induction rest arbitrary: pre index line start)
  case Nil
  then have pre: "pre = source" "index = length source" by simp_all
  have only: "(\<exists>e \<ge> index. at_line_end source e \<and> Q e) \<longleftrightarrow> Q (length source)" for Q
    unfolding at_line_end_def pre by (metis le_antisym order_refl less_irrefl)
  show ?case unfolding only lineBounds_scan.simps using Nil(4,5) by (auto simp: pre line_end_def)
next
  case (Cons c rest)
  let ?P = "\<lambda>e. at_line_end source e \<and> target = of_nat (newlines (take e source)) \<and>
       b = (line_start (take e source), line_end source (line_start (take e source)) e)"
  have src: "source = (pre @ [c]) @ rest" and at: "source ! index = c" and idx: "index < length source"
    and tk: "take index source = pre"
    using Cons.prems by (simp_all add: nth_append)
  have take_Suc_index: "take (Suc index) source = pre @ [c]"
    using src Cons.prems(3) by simp
  have bound: "newlines p < 2 ^ 32" if "length p \<le> length source" for p
    using count_le_length [of p newline] that Cons.prems(2) by simp
  have next_e: "(\<exists>e \<ge> index. ?P e) \<longleftrightarrow> ?P index \<or> (\<exists>e \<ge> Suc index. ?P e)"
    by (metis Suc_leI Suc_leD le_neq_implies_less order_refl)
  show ?case
  proof (cases "c = newline")
    case False
    then have "\<not> ?P index" using at idx by (simp add: at_line_end_def)
    moreover have "lineBounds_scan source target rest (Suc index) line start = Some b \<longleftrightarrow> (\<exists>e \<ge> Suc index. ?P e)"
      by (rule Cons.IH [OF src Cons.prems(2)]) (simp_all add: Cons.prems(3-5) line_start_append False)
    moreover have "lineBounds_scan source target (c # rest) index line start
        = lineBounds_scan source target rest (Suc index) line start" using False by simp
    ultimately show ?thesis using next_e by argo
  next
    case True
    have here: "?P index \<longleftrightarrow> target = line \<and> b = (start, line_end source start index)"
      using True at idx Cons.prems(3-5) tk by (auto simp: at_line_end_def)
    show ?thesis
    proof (cases "line = target")
      case same: True
      have "\<not> ?P e" if "Suc index \<le> e" for e
      proof
        assume e: "?P e"
        have "take (Suc index) (take e source) = pre @ [c]"
          using that take_Suc_index by (simp add: min_absorb1)
        then have q: "take e source = (pre @ [c]) @ drop (Suc index) (take e source)"
          using append_take_drop_id [of "Suc index" "take e source"] by simp
        have "(of_nat (newlines (take e source)) :: 32 word) = of_nat (newlines pre)"
          using e same Cons.prems(4) by simp
        then have "newlines (take e source) = newlines pre"
          using word_of_nat_inj32 [OF bound [of "take e source"] bound [of pre]] idx Cons.prems(3) by simp
        moreover have "newlines (take e source) \<ge> newlines (pre @ [c])"
          by (subst q) (simp only: count_list_append le_add1)
        ultimately show False using True by simp
      qed
      then have "(\<exists>e \<ge> index. ?P e) \<longleftrightarrow> ?P index" using next_e by blast
      moreover have "lineBounds_scan source target (c # rest) index line start
          = Some (start, line_end source start index)" using True same idx by (simp add: line_end_def)
      ultimately show ?thesis unfolding here using same by auto
    next
      case other: False
      have "lineBounds_scan source target rest (Suc index) (line + 1) (Suc index) = Some b \<longleftrightarrow> (\<exists>e \<ge> Suc index. ?P e)"
        by (rule Cons.IH [OF src Cons.prems(2)]) (simp_all add: Cons.prems(3-5) line_start_append True)
      moreover have "\<not> ?P index" using here other by blast
      moreover have "lineBounds_scan source target (c # rest) index line start
          = lineBounds_scan source target rest (Suc index) (line + 1) (Suc index)" using True other by simp
      ultimately show ?thesis using next_e by argo
    qed
  qed
qed

lemma lineBounds_finds:
  "length source < 2 ^ 32 \<Longrightarrow> lineBounds source target = Some (ls, le) \<longleftrightarrow>
    (\<exists>e. at_line_end source e \<and> target = of_nat (newlines (take e source)) \<and>
       ls = line_start (take e source) \<and> le = line_end source (line_start (take e source)) e)"
  unfolding lineBounds_def by (subst lineBounds_scan_finds [of source "[]" source]) (auto simp: line_start_def)

text \<open>Bytes that are not line feeds do not move the line.\<close>

lemma line_start_no_newline: "newline \<notin> set q \<Longrightarrow> line_start (p @ q) = line_start p"
proof (induction q rule: rev_induct)
  case (snoc c q)
  then show ?case using line_start_append [of "p @ q" c] by (auto split: if_splits)
qed simp

lemma same_line:
  assumes "a \<le> b" and "b \<le> length src" and "newline \<notin> set (subslice src a b)"
  shows "newlines (take b src) = newlines (take a src)" and "line_start (take b src) = line_start (take a src)"
proof -
  have split: "take b src = take a src @ subslice src a b"
    using assms(1) by (simp flip: subslice_append [of 0 a b src, simplified])
  show "newlines (take b src) = newlines (take a src)"
    using assms(3) by (simp add: split)
  show "line_start (take b src) = line_start (take a src)"
    unfolding split by (rule line_start_no_newline [OF assms(3)])
qed

lemma drop_line_start: "newline \<notin> set (drop (line_start p) p)"
  by (auto simp: line_start_def LastIndexByte_None split: option.splits dest: LastIndexByte_Some)

lemma line_no_newline: "newline \<notin> set (subslice src (line_start (take e src)) e)"
  using drop_line_start [of "take e src"] by (simp add: subslice_def drop_take)

lemma before_line_start: "0 < line_start p \<Longrightarrow> line_start p \<le> length p \<and> p ! (line_start p - 1) = newline"
  by (auto simp: line_start_def split: option.splits dest: LastIndexByte_Some)

lemma Valid_boundary: "Valid p \<Longrightarrow> boundary p k \<Longrightarrow> Valid (take k p) \<and> Valid (drop k p)"
  by (rule Valid_cut) (simp_all add: boundary_def)

lemma line_start_boundary: "Valid p \<Longrightarrow> boundary p (line_start p)"
proof (cases "line_start p")
  case 0
  then show "Valid p \<Longrightarrow> boundary p (line_start p)"
    using Valid_hd [of p] by (auto simp: boundary_def hd_conv_nth)
next
  case (Suc i)
  then show "Valid p \<Longrightarrow> boundary p (line_start p)"
    using before_line_start [of p] Valid_after_ascii [of p i] by (auto simp: boundary_def)
qed

lemma Valid_subslice:
  assumes "Valid src" and "boundary src a" and "boundary src b"
  shows "Valid (subslice src a b)"
proof (cases "a \<le> b")
  case True
  have "Valid (take b src)" using Valid_boundary [OF assms(1,3)] by simp
  moreover have "boundary (take b src) a" using assms(2,3) True by (auto simp: boundary_def)
  ultimately have "Valid (drop a (take b src))" using Valid_boundary by blast
  then show ?thesis by (simp add: subslice_def drop_take)
qed simp

lemma boundary_line_start:
  assumes "Valid src" and "boundary src b"
  shows "boundary src (line_start (take b src))"
proof -
  have "Valid (take b src)" using Valid_boundary [OF assms] by simp
  then have *: "boundary (take b src) (line_start (take b src))" by (rule line_start_boundary)
  show ?thesis
  proof (cases "line_start (take b src) < b")
    case True
    then show ?thesis using * assms(2) by (auto simp: boundary_def)
  next
    case False
    then have "line_start (take b src) = b"
      using line_start_le [of "take b src"] assms(2) by (simp add: boundary_def)
    then show ?thesis using assms(2) by simp
  qed
qed

section \<open>Positions and offsets agree\<close>

lemma PositionAt_counts:
  assumes "Valid src" and "boundary src b"
  shows "PositionAt src (int b) = Some \<lparr>dp_Line = of_nat (newlines (take b src)),
     dp_Character = of_nat (utf16_len (subslice src (line_start (take b src)) b))\<rparr>"
proof -
  have "PositionAt_line (take b src) 0 0 0 = (of_nat (newlines (take b src)), line_start (take b src))"
    by (simp add: PositionAt_line_counts line_start_def split: option.split)
  moreover have "PositionAt_character (subslice src (line_start (take b src)) b) 0
      = Some (of_nat (utf16_len (subslice src (line_start (take b src)) b)))"
    using PositionAt_character_counts [of _ 0] Valid_subslice [OF assms(1) boundary_line_start [OF assms] assms(2)]
    by simp
  ultimately show ?thesis using assms(2) by (auto simp: PositionAt_def boundary_def)
qed

lemma PositionAt_boundary: "PositionAt src off = Some pos \<Longrightarrow> 0 \<le> off \<and> boundary src (nat off)"
  by (auto simp: PositionAt_def boundary_def nat_less_iff split: if_splits)

text \<open>Between the carriage return and the line feed that end a line.\<close>

definition inside_crlf :: "string \<Rightarrow> nat \<Rightarrow> bool" where
  "inside_crlf src off \<longleftrightarrow> 0 < off \<and> off < length src \<and> src ! off = newline \<and> src ! (off - 1) = carriage_return"

lemma line_end_facts:
  assumes "at_line_end src e" and ls: "ls = line_start (take e src)"
  shows "ls \<le> line_end src ls e" and "line_end src ls e \<le> e" and "e \<le> length src"
    and "\<not> inside_crlf src (line_end src ls e)"
    and "line_end src ls e < length src \<Longrightarrow> src ! line_end src ls e \<in> {newline, carriage_return}"
    and "inside_crlf src e \<or> line_end src ls e = e"
proof -
  have le: "e \<le> length src" and ls_le: "ls \<le> e"
    using assms line_start_le [of "take e src"] by (auto simp: at_line_end_def)
  show "ls \<le> line_end src ls e" "line_end src ls e \<le> e" "e \<le> length src"
    using le ls_le by (auto simp: line_end_def)
  have before: "src ! (ls - 1) = newline" if "0 < ls"
    using before_line_start [of "take e src"] that le by (auto simp: ls)
  show "\<not> inside_crlf src (line_end src ls e)"
    using before ls_le by (auto simp: inside_crlf_def line_end_def split: if_splits dest: le_neq_implies_less)
  show "line_end src ls e < length src \<Longrightarrow> src ! line_end src ls e \<in> {newline, carriage_return}"
    using assms(1) by (auto simp: line_end_def at_line_end_def split: if_splits)
  show "inside_crlf src e \<or> line_end src ls e = e"
    using assms(1) by (auto simp: line_end_def inside_crlf_def at_line_end_def)
qed

lemma RuneStart_line_end: "c \<in> {newline, carriage_return} \<Longrightarrow> RuneStart c"
  by (auto simp: RuneStart_def)

lemma boundary_at_ends:
  assumes "Valid src" and "at_line_end src e"
  shows "boundary src e" and "boundary src (line_start (take e src))"
    and "boundary src (line_end src (line_start (take e src)) e)"
proof -
  show "boundary src e" using assms(2) by (auto simp: boundary_def at_line_end_def RuneStart_line_end)
  then show "boundary src (line_start (take e src))" by (rule boundary_line_start [OF assms(1)])
  show "boundary src (line_end src (line_start (take e src)) e)"
    using line_end_facts [OF assms(2) refl] RuneStart_line_end by (auto simp: boundary_def)
qed

lemma next_line_end:
  assumes "b \<le> length src"
  shows "at_line_end src (b + length (takeWhile (\<lambda>c. c \<noteq> newline) (drop b src)))"
    and "newline \<notin> set (subslice src b (b + length (takeWhile (\<lambda>c. c \<noteq> newline) (drop b src))))"
proof -
  let ?t = "takeWhile (\<lambda>c. c \<noteq> newline) (drop b src)"
  have "length ?t \<le> length (drop b src)" by (rule length_takeWhile_le)
  moreover have "src ! (b + length ?t) = newline" if "b + length ?t < length src"
    using nth_length_takeWhile [of "\<lambda>c. c \<noteq> newline" "drop b src"] that assms by simp
  ultimately show "at_line_end src (b + length ?t)" using assms by (auto simp: at_line_end_def)
  have "subslice src b (b + length ?t) = ?t" by (simp add: subslice_def flip: takeWhile_eq_take)
  then show "newline \<notin> set (subslice src b (b + length ?t))" by (auto dest: set_takeWhileD)
qed

lemma ByteOffset_iff:
  assumes src: "Valid src" and len: "length src < 2 ^ 32"
  shows "ByteOffset src pos = Some off \<longleftrightarrow> PositionAt src (int off) = Some pos \<and> \<not> inside_crlf src off"
proof
  assume "ByteOffset src pos = Some off"
  then obtain ls le where b: "lineBounds src (dp_Line pos) = Some (ls, le)"
    and scan: "ByteOffset_scan le (dp_Character pos) (subslice src ls le) ls 0 = Some off"
    by (auto simp: ByteOffset_def split: option.splits)
  from b obtain e where e: "at_line_end src e" "dp_Line pos = of_nat (newlines (take e src))"
    "ls = line_start (take e src)" "le = line_end src ls e"
    using lineBounds_finds [OF len] by auto
  note le = line_end_facts [OF e(1,3), folded e(4)]
  have blimits: "boundary src ls" "boundary src le"
    using boundary_at_ends [OF src e(1)] e(3,4) by auto
  have fits: "utf16_len (subslice src ls le) \<le> length (subslice src ls le)"
    by (rule utf16_len_le [OF Valid_subslice [OF src blimits]])
  moreover have "length (subslice src ls le) \<le> length src" by simp
  ultimately have "utf16_len (subslice src ls le) < 2 ^ 32" using len by linarith
  with scan obtain k where k: "boundary (subslice src ls le) k" "off = ls + k"
    "unat (dp_Character pos) = utf16_len (take k (subslice src ls le))"
    using ByteOffset_scan_finds [OF Valid_subslice [OF src blimits], of 0 le ls "dp_Character pos" off] le(1,2,3)
    by (auto simp: unat_0)
  have off: "ls \<le> off" "off \<le> le" using k(1,2) le(1) by (auto simp: boundary_def)
  have bo: "boundary src off"
    using k(1,2) off blimits(2) le(1,2,3) by (auto simp: boundary_def subslice_nth min_def split: if_splits)
  have nonl: "newline \<notin> set (subslice src ls e)" using line_no_newline by (simp add: e(3))
  have nonl': "newline \<notin> set (subslice src off e)"
    using nonl subslice_append [of ls off e src] off le(2) by (metis UnCI le_trans set_append)
  have "newlines (take off src) = newlines (take e src)" "line_start (take off src) = ls"
    using same_line [OF _ le(3) nonl'] off le(2) by (simp_all add: e(3))
  moreover have "take k (subslice src ls le) = subslice src ls off"
    using off k(2) by (simp add: subslice_def)
  then have "dp_Character pos = of_nat (utf16_len (subslice src ls off))"
    using k(3) by (metis of_nat_unat ucast_id)
  ultimately have "PositionAt src (int off) = Some pos"
    using PositionAt_counts [OF src bo] e(2) by (cases pos) simp
  moreover have "\<not> inside_crlf src off"
  proof (cases "off = le")
    case False
    then have "src ! off \<in> set (subslice src ls e)"
      using off le(1-3) by (auto simp: in_set_conv_nth intro!: exI [of _ k]) (simp_all add: k(2) subslice_nth)
    then show ?thesis using nonl by (auto simp: inside_crlf_def)
  qed (use le(4) in simp)
  ultimately show "PositionAt src (int off) = Some pos \<and> \<not> inside_crlf src off" by blast
next
  assume *: "PositionAt src (int off) = Some pos \<and> \<not> inside_crlf src off"
  have bo: "boundary src off" using PositionAt_boundary [of src "int off" pos] * by simp
  define e where "e = off + length (takeWhile (\<lambda>c. c \<noteq> newline) (drop off src))"
  define ls where "ls = line_start (take e src)"
  define le where "le = line_end src ls e"
  have e: "at_line_end src e" "off \<le> e" "newline \<notin> set (subslice src off e)"
    using next_line_end bo by (simp_all add: e_def boundary_def)
  note les = line_end_facts [OF e(1) ls_def, folded le_def]
  have blimits: "boundary src ls" "boundary src le"
    using boundary_at_ends [OF src e(1)] by (auto simp: ls_def le_def)
  have same: "newlines (take e src) = newlines (take off src)" "ls = line_start (take off src)"
    using same_line [OF e(2) les(3) e(3)] by (auto simp: ls_def)
  have pos: "dp_Line pos = of_nat (newlines (take e src))" "dp_Character pos = of_nat (utf16_len (subslice src ls off))"
    using * PositionAt_counts [OF src bo] same by auto
  have off: "ls \<le> off" "off \<le> le"
    using line_start_le [of "take off src"] same(2) e(2) les(6) *
    by (cases "off = e"; auto simp: le_def line_end_def)+
  have "lineBounds src (dp_Line pos) = Some (ls, le)"
    using lineBounds_finds [OF len] e(1) pos(1) by (auto simp: ls_def le_def)
  moreover have "ByteOffset_scan le (dp_Character pos) (subslice src ls le) ls 0 = Some off"
  proof -
    have v: "Valid (subslice src ls le)" "Valid (subslice src ls off)"
      using Valid_subslice [OF src] blimits bo by auto
    have small: "utf16_len (subslice src a b) < 2 ^ 32" if "Valid (subslice src a b)" for a b
      using utf16_len_le [OF that] len by (simp add: min_def split: if_splits)
    have "boundary (subslice src ls le) (off - ls)"
      using off bo les(1-3) by (auto simp: boundary_def subslice_nth min_def)
    moreover have "take (off - ls) (subslice src ls le) = subslice src ls off"
      using off by (simp add: subslice_def)
    moreover have "unat (dp_Character pos) = utf16_len (subslice src ls off)"
      using small [OF v(2)] by (simp add: pos(2) unat_of_nat32)
    moreover have "le = ls + length (subslice src ls le)" using off les(2,3) by simp
    ultimately show ?thesis
      using ByteOffset_scan_finds [OF v(1), of 0 le ls "dp_Character pos" off] small [OF v(1)] off
      by auto
  qed
  ultimately show "ByteOffset src pos = Some off" by (simp add: ByteOffset_def)
qed

text \<open>Positions are ordered as the offsets are.\<close>

lemma PositionAt_less:
  assumes src: "Valid src" and len: "length src < 2 ^ 32" and "a < b"
    and p: "PositionAt src a = Some p" and q: "PositionAt src b = Some q"
  shows "dp_Line p < dp_Line q \<or> dp_Line p = dp_Line q \<and> dp_Character p < dp_Character q"
proof -
  define m n where "m = nat a" and "n = nat b"
  have b: "boundary src m" "boundary src n" "a = int m" "b = int n"
    using PositionAt_boundary [OF p] PositionAt_boundary [OF q] by (simp_all add: m_def n_def)
  have mn: "m < n" using assms(3) b by simp
  have nl: "n \<le> length src" using b(2) by (simp add: boundary_def)
  have split: "take n src = take m src @ subslice src m n"
    using subslice_append [of 0 m n src] mn by simp
  let ?l = "line_start (take m src)" and ?k = "line_start (take n src)"
  have p': "dp_Line p = of_nat (newlines (take m src))" "dp_Character p = of_nat (utf16_len (subslice src ?l m))"
    using PositionAt_counts [OF src b(1)] p b(3) by auto
  have q': "dp_Line q = of_nat (newlines (take n src))" "dp_Character q = of_nat (utf16_len (subslice src ?k n))"
    using PositionAt_counts [OF src b(2)] q b(4) by auto
  have small: "newlines (take k src) < 2 ^ 32" for k
    using count_le_length [of "take k src" newline] len by simp
  show ?thesis
  proof (cases "newline \<in> set (subslice src m n)")
    case True
    then have "newlines (take m src) < newlines (take n src)"
      using count_list_0_iff [of "subslice src m n" newline] by (simp add: split)
    then show ?thesis using small [of m] small [of n] by (simp add: p' q' word_less_nat_alt unat_of_nat32)
  next
    case False
    have same: "newlines (take n src) = newlines (take m src)" "?k = ?l"
      using same_line [OF _ nl False] mn by auto
    have l: "?l \<le> m" using line_start_le [of "take m src"] by simp
    have v: "Valid (subslice src ?l m)" "Valid (subslice src m n)" "Valid (subslice src ?l n)"
      using Valid_subslice [OF src] b boundary_line_start [OF src b(1)] by auto
    have "utf16_len (subslice src ?l n) = utf16_len (subslice src ?l m) + utf16_len (subslice src m n)"
      using utf16_len_append [OF v(1), of "subslice src m n"] subslice_append [OF l, of n src] mn by simp
    moreover have "length (subslice src m n) \<noteq> 0" using mn nl by simp
    then have "utf16_len (subslice src m n) \<noteq> 0" unfolding utf16_len_0 [OF v(2)] by (metis list.size(3))
    moreover have "utf16_len (subslice src ?l n) < 2 ^ 32"
      using utf16_len_le [OF v(3)] len by (simp add: min_def split: if_splits)
    ultimately have "unat (dp_Character p) < unat (dp_Character q)"
      unfolding p'(2) q'(2) same(2) by (subst (1 2) unat_of_nat32) linarith+
    then show ?thesis by (simp add: p' q' same word_less_nat_alt)
  qed
qed

end
