(* ===== verification/Go_Unicode.thy ===== *)
theory Go_Unicode
  imports Go_Utf8
begin

text \<open>
  Runes of a string: the last rune, \<open>unicode.IsSpace\<close>, \<open>strings.TrimSpace\<close>, and the rune classes of
  identifiers (\<open>isIdentifierRune\<close> and \<open>isIdentifierByte\<close> of \<open>internal/analysis/infer.go\<close>,
  \<open>identifierText\<close> and \<open>isSpace\<close> of \<open>path.go\<close>). The letter, digit and mark tables of Go's
  \<open>unicode\<close> package beyond ASCII are a parameter \<open>wide\<close> of the functions that look at them.
\<close>

section \<open>Trimming\<close>

definition IsSpace :: "nat \<Rightarrow> bool" where
  "IsSpace r \<longleftrightarrow> 9 \<le> r \<and> r \<le> 13 \<or> r = 0x20 \<or> r = 0x85 \<or> r = 0xA0 \<or> r = 0x1680 \<or>
     0x2000 \<le> r \<and> r \<le> 0x200A \<or> r = 0x2028 \<or> r = 0x2029 \<or> r = 0x202F \<or> r = 0x205F \<or> r = 0x3000"

definition DecodeLastRune :: "string \<Rightarrow> nat \<times> nat" where
  "DecodeLastRune p =
     (if p = [] then (RuneError, 0)
      else if byte (last p) < 0x80 then (byte (last p), 1)
      else let e = length p; starts = filter (\<lambda>s. RuneStart (p ! s)) [e - 4 ..< e - 1] in
        if starts = [] then (RuneError, 1)
        else let (r, n) = DecodeRune (drop (last starts) p) in
          if last starts + n = e then (r, n) else (RuneError, 1))"

lemma DecodeLastRune_size: "p \<noteq> [] \<Longrightarrow> 1 \<le> snd (DecodeLastRune p) \<and> snd (DecodeLastRune p) \<le> length p"
proof -
  assume p: "p \<noteq> []"
  let ?starts = "filter (\<lambda>s. RuneStart (p ! s)) [length p - 4 ..< length p - 1]"
  have start: "1 \<le> snd (DecodeRune (drop (last ?starts) p))" if "?starts \<noteq> []"
    using DecodeRune_size [of "drop (last ?starts) p"] last_in_set [OF that] by auto
  show ?thesis
  proof (cases "byte (last p) < 0x80 \<or> ?starts = []")
    case True
    then show ?thesis using p by (auto simp: DecodeLastRune_def Let_def Suc_le_eq)
  next
    case False
    obtain r n where d: "DecodeRune (drop (last ?starts) p) = (r, n)" by (cases "DecodeRune (drop (last ?starts) p)")
    have "DecodeLastRune p = (if last ?starts + n = length p then (r, n) else (RuneError, 1))"
      using False p d by (simp add: DecodeLastRune_def Let_def)
    then show ?thesis using start False d p by (auto simp: Suc_le_eq)
  qed
qed

function TrimLeftFunc :: "(nat \<Rightarrow> bool) \<Rightarrow> string \<Rightarrow> string" where
  "TrimLeftFunc f [] = []"
| "TrimLeftFunc f (c # cs) = (let (r, n) = DecodeRune (c # cs) in
     if f r then TrimLeftFunc f (drop n (c # cs)) else c # cs)"
  by pat_completeness auto
termination
  by (relation "measure (\<lambda>(f, p). length p)", simp, simp only: in_measure prod.case, rule drop_rune_less, simp)

function TrimRightFunc :: "(nat \<Rightarrow> bool) \<Rightarrow> string \<Rightarrow> string" where
  "TrimRightFunc f p = (if p = [] then [] else let (r, n) = DecodeLastRune p in
     if f r then TrimRightFunc f (take (length p - n) p) else p)"
  by pat_completeness auto
termination
  by (relation "measure (\<lambda>(f, p). length p)", simp, simp only: in_measure prod.case length_take)
    (metis DecodeLastRune_size One_nat_def Suc_le_lessD diff_less length_greater_0_conv min_less_iff_disj snd_conv)

declare TrimRightFunc.simps [simp del]

definition TrimSpace :: "string \<Rightarrow> string" where
  "TrimSpace s = TrimRightFunc IsSpace (TrimLeftFunc IsSpace s)"

lemma TrimLeftFunc_suffix: "\<exists>q. p = q @ TrimLeftFunc f p"
proof (induction f p rule: TrimLeftFunc.induct)
  case (2 f c cs)
  obtain r n where d: "DecodeRune (c # cs) = (r, n)" by (cases "DecodeRune (c # cs)")
  show ?case
  proof (cases "f r")
    case True
    then obtain q where "drop n (c # cs) = q @ TrimLeftFunc f (drop n (c # cs))" using 2 [OF d [symmetric] refl] by auto
    then have "c # cs = (take n (c # cs) @ q) @ TrimLeftFunc f (c # cs)"
      using append_take_drop_id [of n "c # cs"] True d by simp
    then show ?thesis by blast
  qed (simp add: d)
qed simp

lemma TrimRightFunc_prefix: "\<exists>q. p = TrimRightFunc f p @ q"
proof (induction f p rule: TrimRightFunc.induct)
  case (1 f p)
  obtain r n where d: "DecodeLastRune p = (r, n)" by (cases "DecodeLastRune p")
  show ?case
  proof (cases "p \<noteq> [] \<and> f r")
    case True
    then obtain q where "take (length p - n) p = TrimRightFunc f (take (length p - n) p) @ q"
      using 1 [OF _ d [symmetric] refl] by auto
    then have "p = TrimRightFunc f p @ q @ drop (length p - n) p"
      using append_take_drop_id [of "length p - n" p] True d
      by (simp add: TrimRightFunc.simps [of f p] del: append_take_drop_id) (metis append_assoc)
    then show ?thesis by blast
  qed (auto simp: d TrimRightFunc.simps [of f p])
qed

lemma TrimSpace_sub: "\<exists>a b. s = a @ TrimSpace s @ b"
  using TrimLeftFunc_suffix [of s IsSpace] TrimRightFunc_prefix [of "TrimLeftFunc IsSpace s" IsSpace]
  by (metis TrimSpace_def)

lemma TrimLeftFunc_ascii:
  "byte c < 0x80 \<Longrightarrow> TrimLeftFunc f (c # cs) = (if f (byte c) then TrimLeftFunc f cs else c # cs)"
  by (simp add: DecodeRune_def)

lemma TrimRightFunc_ascii:
  "byte c < 0x80 \<Longrightarrow> TrimRightFunc f (cs @ [c]) = (if f (byte c) then TrimRightFunc f cs else cs @ [c])"
  by (simp add: TrimRightFunc.simps [of f "cs @ [c]"] DecodeLastRune_def)

lemma TrimSpace_solid:
  assumes "s \<noteq> []" and "\<forall>c \<in> set s. byte c < 0x80 \<and> \<not> IsSpace (byte c)"
  shows "TrimSpace s = s" and "TrimSpace (CHR '' '' # s) = s"
proof -
  obtain c cs where s: "s = c # cs" using assms(1) by (cases s) auto
  have left: "TrimLeftFunc IsSpace s = s" using assms(2) s by (simp add: TrimLeftFunc_ascii del: TrimLeftFunc.simps)
  obtain ds d where s': "s = ds @ [d]" using assms(1) by (metis rev_exhaust)
  have right: "TrimRightFunc IsSpace s = s" using assms(2) s' by (simp add: TrimRightFunc_ascii)
  show "TrimSpace s = s" by (simp add: TrimSpace_def left right)
  show "TrimSpace (CHR '' '' # s) = s"
    using left right by (simp add: TrimSpace_def TrimLeftFunc_ascii IsSpace_def [of 32] del: TrimLeftFunc.simps)
qed

text \<open>
  \<open>strings.ToLower\<close> as the code uses it: on ASCII text, and on text it compares with ASCII constants
  without an \<open>i\<close> or a \<open>k\<close>, the only ASCII letters that a rune beyond ASCII is lowered to.
\<close>

definition ascii_lower :: "char \<Rightarrow> char" where
  "ascii_lower c = (if byte CHR ''A'' \<le> byte c \<and> byte c \<le> byte CHR ''Z'' then char_of (byte c + 32) else c)"

definition ToLower :: "string \<Rightarrow> string" where
  "ToLower s = map ascii_lower s"

lemma set_TrimSpace: "set (TrimSpace s) \<subseteq> set s"
proof -
  obtain a b where "s = a @ TrimSpace s @ b" using TrimSpace_sub by blast
  then show ?thesis by (metis Un_subset_iff inf_sup_ord(3) set_append sup_ge2)
qed

section \<open>Rune classes\<close>

definition isSpace :: "char \<Rightarrow> bool" where
  "isSpace c \<longleftrightarrow> c = CHR '' '' \<or> c = CHR 0x09 \<or> c = CHR 0x0D \<or> c = CHR 0x0A"

definition isIdentifierByte :: "char \<Rightarrow> bool" where
  "isIdentifierByte c \<longleftrightarrow> c = CHR ''_'' \<or> byte CHR ''a'' \<le> byte c \<and> byte c \<le> byte CHR ''z'' \<or>
     byte CHR ''A'' \<le> byte c \<and> byte c \<le> byte CHR ''Z'' \<or> byte CHR ''0'' \<le> byte c \<and> byte c \<le> byte CHR ''9''"

definition isIdentifierRune :: "(nat \<Rightarrow> bool) \<Rightarrow> nat \<Rightarrow> bool" where
  "isIdentifierRune wide r \<longleftrightarrow> r = 95 \<or> (if r < 0x80 then 97 \<le> r \<and> r \<le> 122 \<or> 65 \<le> r \<and> r \<le> 90 \<or> 48 \<le> r \<and> r \<le> 57
     else wide r)"

text \<open>\<open>for _, r := range value\<close>: an invalid byte is the rune \<open>RuneError\<close> of width 1.\<close>

function all_runes :: "(nat \<Rightarrow> bool) \<Rightarrow> string \<Rightarrow> bool" where
  "all_runes f [] = True"
| "all_runes f (c # cs) = (let (r, n) = DecodeRune (c # cs) in f r \<and> all_runes f (drop n (c # cs)))"
  by pat_completeness auto
termination
  by (relation "measure (\<lambda>(f, p). length p)", simp, simp only: in_measure prod.case, rule drop_rune_less, simp)

definition identifierText :: "(nat \<Rightarrow> bool) \<Rightarrow> string \<Rightarrow> bool" where
  "identifierText wide value \<longleftrightarrow> value \<noteq> [] \<and> all_runes (isIdentifierRune wide) value"

lemma isIdentifierByte_rune: "isIdentifierByte c \<Longrightarrow> byte c < 0x80 \<and> isIdentifierRune wide (byte c)"
  by (auto simp: isIdentifierByte_def isIdentifierRune_def)

lemma all_runes_ascii:
  "\<forall>c \<in> set s. byte c < 0x80 \<Longrightarrow> all_runes f s \<longleftrightarrow> (\<forall>c \<in> set s. f (byte c))"
  by (induction s) (auto simp: DecodeRune_def)

lemma identifierText_bytes: "s \<noteq> [] \<Longrightarrow> \<forall>c \<in> set s. isIdentifierByte c \<Longrightarrow> identifierText wide s"
  using isIdentifierByte_rune by (auto simp: identifierText_def all_runes_ascii)

end
