(* ===== verification/Document_Syntax.thy ===== *)
theory Document_Syntax
  imports Go_Unicode Path_Resolver
begin

text \<open>
  What the document store extracts from a parsed tree (\<open>extractSyntax\<close>, \<open>parameterStatements\<close>,
  \<open>functionHasDecorator\<close>, \<open>extractCalls\<close> of \<open>internal/analysis/document.go\<close>). The tree-sitter
  queries are third party: the captures they return are the argument of these functions, each with
  the bytes it spans and what the code reads of the node. \<open>annotationPattern\<close> is a regular
  expression of \<open>infer.go\<close>; here it is the argument \<open>annotated\<close>.
\<close>

section \<open>Types\<close>

record SyntaxCall =
  sc_Range :: ByteRange
  sc_Receiver :: ByteRange
  sc_Arguments :: ByteRange
  sc_Method :: string

record SyntaxStatement =
  ss_Start :: nat
  ss_End :: nat
  ss_Text :: string
  ss_ScopeStart :: nat
  ss_ScopeEnd :: nat
  ss_ScopeKind :: string
  ss_ScopeMarker :: bool
  ss_Guarded :: bool

text \<open>A capture of one of the three queries: its name and its node, if any.\<close>

record captured =
  cap_start :: nat
  cap_end :: nat
  cap_type :: string
  cap_text :: string

type_synonym capture = "string \<times> captured option"

record captures =
  scope_captures :: "capture list"
  guarded_captures :: "capture list"
  statement_captures :: "capture list"

record syntaxScope =
  scope_start :: nat
  scope_end :: nat
  scope_kind :: string

definition selected_captures :: "string \<Rightarrow> capture list \<Rightarrow> captured list" where
  "selected_captures name cs = List.map_filter (\<lambda>(n, node). if n = name then node else None) cs"

section \<open>Parameters of a function\<close>

text \<open>The index of the first byte of \<open>rest\<close>, which starts at \<open>index\<close>, that is \<open>c\<close>.\<close>

fun find_byte :: "char \<Rightarrow> string \<Rightarrow> nat \<Rightarrow> nat option" where
  "find_byte c [] index = None"
| "find_byte c (x # rest) index = (if x = c then Some index else find_byte c rest (Suc index))"

definition line_before :: "string \<Rightarrow> nat \<Rightarrow> nat" where
  "line_before source e = (case LastIndexByte (take e source) CHR 0x0A of None \<Rightarrow> 0 | Some i \<Rightarrow> Suc i)"

lemma line_before_le: "e \<le> length source \<Longrightarrow> line_before source e \<le> e"
  by (auto simp: line_before_def Suc_le_eq split: option.splits dest: LastIndexByte_Some)

definition decorator_line_end :: "string \<Rightarrow> nat \<Rightarrow> nat" where
  "decorator_line_end source lineStart = (let e = lineStart - 1 in
     if 0 < e \<and> source ! (e - 1) = CHR 0x0D then e - 1 else e)"

lemma decorator_decreases:
  "0 < lineStart \<Longrightarrow> \<not> length source < lineStart \<Longrightarrow> line_before source (decorator_line_end source lineStart) < lineStart"
proof -
  assume "0 < lineStart" "\<not> length source < lineStart"
  then have e: "decorator_line_end source lineStart < lineStart" "decorator_line_end source lineStart \<le> length source"
    by (auto simp: decorator_line_end_def Let_def)
  show ?thesis using line_before_le [OF e(2)] e(1) by (rule order_le_less_trans)
qed

function decorator_loop :: "string \<Rightarrow> string \<Rightarrow> nat \<Rightarrow> bool" where
  "decorator_loop source name lineStart =
     (if lineStart = 0 \<or> length source < lineStart then False
      else let e = decorator_line_end source lineStart;
        start = line_before source e;
        line = TrimSpace (subslice source start e) in
        if \<not> HasPrefix line ''@'' then False
        else let whole = TrimSpace (TrimPrefix line ''@'');
          decorator = (case IndexByte whole CHR ''('' of None \<Rightarrow> whole | Some opening \<Rightarrow> TrimSpace (take opening whole)) in
          if decorator = name \<or> HasSuffix decorator (CHR ''.'' # name) then True
          else decorator_loop source name start)"
  by pat_completeness auto
termination
  by (relation "measure (\<lambda>(source, name, lineStart). lineStart)", simp, simp add: decorator_decreases)

declare decorator_loop.simps [simp del]

definition functionHasDecorator :: "string \<Rightarrow> nat \<Rightarrow> string \<Rightarrow> bool" where
  "functionHasDecorator source scopeStart name = decorator_loop source name (line_before source scopeStart)"

record parameterScan =
  ps_segmentStart :: nat
  ps_parameterIndex :: nat
  ps_statements :: "SyntaxStatement list"

text \<open>The closure \<open>appendSegment\<close> of \<open>parameterStatements\<close>.\<close>

definition binding_name :: "string \<Rightarrow> string" where
  "binding_name t = TrimLeft (\<lambda>c. c = CHR ''*'')
     (TrimSpace (takeWhile (\<lambda>c. c \<noteq> CHR '':'' \<and> c \<noteq> CHR ''='') t))"

definition appendSegment :: "(nat \<Rightarrow> bool) \<Rightarrow> (string \<Rightarrow> bool) \<Rightarrow> string \<Rightarrow> nat \<Rightarrow> nat \<Rightarrow> bool \<Rightarrow> nat \<Rightarrow>
    parameterScan \<Rightarrow> parameterScan" where
  "appendSegment wide annotated source scopeStart scopeEnd nonInstanceMethod e s =
     (let t = TrimSpace (subslice source (ps_segmentStart s) e); name = binding_name t in
      if t = [] \<or> t = ''/'' \<or> t = ''*'' \<or> \<not> identifierText wide name then s
      else let modelReceiver = (ps_parameterIndex s = 0 \<and> name = ''self'' \<and> \<not> nonInstanceMethod);
        bound = (if modelReceiver then name @ '' = __pogo_model_receiver__''
          else case IndexByte t CHR '':'' of
            Some colon \<Rightarrow> (if annotated (name @ drop colon t) then name @ drop colon t else name @ '' = __pogo_parameter__'')
          | None \<Rightarrow> name @ '' = __pogo_parameter__'') in
        s\<lparr>ps_parameterIndex := Suc (ps_parameterIndex s),
          ps_statements := ps_statements s @ [\<lparr>ss_Start = ps_segmentStart s, ss_End = e, ss_Text = bound,
            ss_ScopeStart = scopeStart, ss_ScopeEnd = scopeEnd, ss_ScopeKind = ''function_definition'',
            ss_ScopeMarker = False, ss_Guarded = False\<rparr>]\<rparr>)"

text \<open>The loop over the bytes after the opening parenthesis; \<open>rest\<close> is \<open>source[index:scopeEnd]\<close>.\<close>

fun parameter_scan :: "(nat \<Rightarrow> parameterScan \<Rightarrow> parameterScan) \<Rightarrow> string \<Rightarrow> nat \<Rightarrow> nat \<Rightarrow> parameterScan \<Rightarrow> parameterScan" where
  "parameter_scan app [] index depth s = s"
| "parameter_scan app (c # rest) index depth s =
     (if c \<in> {CHR ''('', CHR ''['', CHR ''{''} then parameter_scan app rest (Suc index) (Suc depth) s
      else if c = CHR '')'' then (if depth = 0 then app index s else parameter_scan app rest (Suc index) (depth - 1) s)
      else if c \<in> {CHR '']'', CHR ''}''} then parameter_scan app rest (Suc index) (depth - 1) s
      else if c = CHR '','' \<and> depth = 0
      then parameter_scan app rest (Suc index) depth ((app index s)\<lparr>ps_segmentStart := Suc index\<rparr>)
      else parameter_scan app rest (Suc index) depth s)"

definition parameterStatements :: "(nat \<Rightarrow> bool) \<Rightarrow> (string \<Rightarrow> bool) \<Rightarrow> string \<Rightarrow> nat \<Rightarrow> nat \<Rightarrow> SyntaxStatement list" where
  "parameterStatements wide annotated source scopeStart scopeEnd =
     (case find_byte CHR ''('' (subslice source scopeStart scopeEnd) scopeStart of
        None \<Rightarrow> []
      | Some opening \<Rightarrow>
          let nonInstanceMethod = (functionHasDecorator source scopeStart ''staticmethod''
              \<or> functionHasDecorator source scopeStart ''classmethod'') in
          ps_statements (parameter_scan (appendSegment wide annotated source scopeStart scopeEnd nonInstanceMethod)
            (subslice source (Suc opening) scopeEnd) (Suc opening) 0
            \<lparr>ps_segmentStart = Suc opening, ps_parameterIndex = 0, ps_statements = []\<rparr>))"

section \<open>Statements\<close>

text \<open>\<open>scopeFor\<close>: the smallest scope around a range, the first of the smallest.\<close>

definition no_scope :: syntaxScope where
  "no_scope = \<lparr>scope_start = 0, scope_end = 0, scope_kind = []\<rparr>"

definition scopeFor :: "syntaxScope list \<Rightarrow> nat \<Rightarrow> nat \<Rightarrow> syntaxScope" where
  "scopeFor scopes s e = foldl (\<lambda>selected candidate.
     if scope_start candidate \<le> s \<and> e \<le> scope_end candidate \<and>
        (scope_end selected = 0 \<or> int (scope_end candidate) - int (scope_start candidate) < int (scope_end selected) - int (scope_start selected))
     then candidate else selected) no_scope scopes"

definition statement_in :: "syntaxScope \<Rightarrow> captured \<Rightarrow> bool \<Rightarrow> SyntaxStatement" where
  "statement_in scope c guarded = \<lparr>ss_Start = cap_start c, ss_End = cap_end c, ss_Text = cap_text c,
     ss_ScopeStart = scope_start scope, ss_ScopeEnd = scope_end scope, ss_ScopeKind = scope_kind scope,
     ss_ScopeMarker = False, ss_Guarded = guarded\<rparr>"

definition scope_marker :: "string \<Rightarrow> syntaxScope \<Rightarrow> SyntaxStatement" where
  "scope_marker source scope = \<lparr>ss_Start = scope_start scope, ss_End = scope_end scope,
     ss_Text = subslice source (scope_start scope) (scope_end scope),
     ss_ScopeStart = scope_start scope, ss_ScopeEnd = scope_end scope, ss_ScopeKind = scope_kind scope,
     ss_ScopeMarker = True, ss_Guarded = False\<rparr>"

definition extractSyntax :: "(nat \<Rightarrow> bool) \<Rightarrow> (string \<Rightarrow> bool) \<Rightarrow> captures \<Rightarrow> string \<Rightarrow> SyntaxStatement list" where
  "extractSyntax wide annotated caps source =
     (let scopes = map (\<lambda>c. \<lparr>scope_start = cap_start c, scope_end = cap_end c, scope_kind = cap_type c\<rparr>)
        (selected_captures ''scope'' (scope_captures caps));
      guardedRanges = selected_captures ''guarded'' (guarded_captures caps) in
      map (scope_marker source) scopes
      @ map (\<lambda>g. statement_in (scopeFor scopes (cap_start g) (cap_end g)) g True) guardedRanges
      @ map (\<lambda>c. statement_in (scopeFor scopes (cap_start c) (cap_end c)) c
            (list_ex (\<lambda>g. cap_start g \<le> cap_start c \<and> cap_end c \<le> cap_end g) guardedRanges))
          (selected_captures ''statement'' (statement_captures caps))
      @ concat (map (\<lambda>scope. if scope_kind scope = ''function_definition''
          then parameterStatements wide annotated source (scope_start scope) (scope_end scope) else []) scopes))"

section \<open>Calls\<close>

record ancestor =
  anc_error :: bool
  anc_missing :: bool
  anc_hasError :: bool
  anc_type :: string

record function_node =
  fn_type :: string
  fn_text :: string
  fn_object :: "ByteRange option"
  fn_attribute :: "string option"

record call_node =
  cn_range :: ByteRange
  cn_error :: bool
  cn_missing :: bool
  cn_hasError :: bool
  cn_ancestors :: "ancestor list"
  cn_function :: "function_node option"
  cn_arguments :: "ByteRange option"

fun callHasRecoveredStatement :: "ancestor list \<Rightarrow> bool" where
  "callHasRecoveredStatement [] = False"
| "callHasRecoveredStatement (a # ancestors) =
     (if anc_error a \<or> anc_missing a \<or> anc_hasError a then True
      else if HasSuffix (anc_type a) ''statement'' \<or> anc_type a = ''expression_statement'' then False
      else callHasRecoveredStatement ancestors)"

definition empty_range :: ByteRange where
  "empty_range = \<lparr>br_Start = 0, br_End = 0\<rparr>"

definition function_receiver :: "function_node \<Rightarrow> (ByteRange \<times> string) option" where
  "function_receiver f =
     (if fn_type f = ''attribute'' then
        (case (fn_object f, fn_attribute f) of (Some receiver, Some m) \<Rightarrow> Some (receiver, m) | _ \<Rightarrow> None)
      else if fn_type f = ''identifier'' then Some (empty_range, fn_text f)
      else None)"

definition extract_call :: "string \<times> call_node option \<Rightarrow> SyntaxCall option" where
  "extract_call capture = (case capture of
     (name, None) \<Rightarrow> None
   | (name, Some node) \<Rightarrow>
       if name \<noteq> ''call'' \<or> cn_error node \<or> cn_missing node \<or> cn_hasError node then None
       else if callHasRecoveredStatement (cn_ancestors node) then None
       else case (cn_function node, cn_arguments node) of
         (Some f, Some arguments) \<Rightarrow>
           (case function_receiver f of
              None \<Rightarrow> None
            | Some (receiver, m) \<Rightarrow> Some \<lparr>sc_Range = cn_range node, sc_Receiver = receiver,
                sc_Arguments = arguments, sc_Method = m\<rparr>)
       | _ \<Rightarrow> None)"

definition extractCalls :: "(string \<times> call_node option) list \<Rightarrow> SyntaxCall list" where
  "extractCalls caps = sort_key (\<lambda>c. (br_Start (sc_Range c), br_End (sc_Range c))) (List.map_filter extract_call caps)"

end
