(* ===== verification/Document_Store.thy ===== *)
theory Document_Store
  imports Document_Position Document_Syntax
begin

text \<open>
  The store of open documents (\<open>Store\<close> of \<open>internal/analysis/document.go\<close>): its documents by URI,
  each with its version, its source and the tree parsed from it. Trees are objects of the
  tree-sitter library that must be released once: the model has a heap of them, from addresses to
  contents, so that a document holds an address, \<open>Copy\<close> and \<open>Parse\<close> allocate, and \<open>Release\<close> of an
  address that is not live is a fault the state remembers.

  The library is the argument \<open>g\<close>: how it parses (with an old tree or without), what it says of the
  root of a tree, how it copies and edits one, and what its queries capture. A method that holds the
  lock throughout is one function on the state; \<open>OpenFile\<close> and \<open>Save\<close> parse outside the lock, so
  each is two functions, with other operations in between or not.
\<close>

section \<open>State\<close>

record Point =
  pt_Row :: "32 word"
  pt_Column :: "32 word"

record InputEdit =
  StartByte :: "32 word"
  OldEndByte :: "32 word"
  NewEndByte :: "32 word"
  StartPoint :: Point
  OldEndPoint :: Point
  NewEndPoint :: Point

record DocRange =
  rng_Start :: DocPosition
  rng_End :: DocPosition

record Change =
  ch_Range :: "DocRange option"
  ch_Text :: string

text \<open>What \<open>ParseWith\<close> returns besides the error: no tree, a new tree, or the old one.\<close>

datatype 'tree parsed = NoTree | NewTree 'tree | OldTree

record 'tree grammar =
  g_parse :: "string \<Rightarrow> 'tree option \<Rightarrow> 'tree parsed \<times> goerror option"
  g_root_error :: "'tree \<Rightarrow> bool option"
  g_copy :: "'tree \<Rightarrow> 'tree option"
  g_edit :: "InputEdit \<Rightarrow> 'tree \<Rightarrow> 'tree"
  g_captures :: "'tree option \<Rightarrow> string \<Rightarrow> captures"
  g_calls :: "'tree \<Rightarrow> string \<Rightarrow> (string \<times> call_node option) list"
  g_wide :: "nat \<Rightarrow> bool"
  g_annotated :: "string \<Rightarrow> bool"

record document =
  doc_filePath :: string
  doc_version :: int
  doc_source :: string
  doc_tree :: "nat option"
  doc_syntax :: "SyntaxStatement list"
  doc_calls :: "SyntaxCall list"

record 'tree store =
  st_documents :: "document gomap"
  st_heap :: "nat \<Rightarrow> 'tree option"
  st_next :: nat
  st_fault :: bool

record DocSnapshot =
  ds_URI :: string
  ds_FilePath :: string
  ds_Version :: int
  ds_Source :: string
  ds_Parsed :: bool
  ds_Syntax :: "SyntaxStatement list"
  ds_Calls :: "SyntaxCall list"

definition NewStore :: "'tree store" where
  "NewStore = \<lparr>st_documents = [], st_heap = (\<lambda>_. None), st_next = 0, st_fault = False\<rparr>"

text \<open>\<open>delete(store.documents, uri)\<close>.\<close>

definition gomap_delete :: "'k \<Rightarrow> ('k \<times> 'v) list \<Rightarrow> ('k \<times> 'v) list" where
  "gomap_delete k m = filter (\<lambda>(k', v). k' \<noteq> k) m"

section \<open>Trees\<close>

definition alloc :: "'tree \<Rightarrow> 'tree store \<Rightarrow> nat \<times> 'tree store" where
  "alloc t s = (st_next s, s\<lparr>st_heap := (st_heap s)(st_next s \<mapsto> t), st_next := Suc (st_next s)\<rparr>)"

definition Release :: "nat \<Rightarrow> 'tree store \<Rightarrow> 'tree store" where
  "Release p s = (case st_heap s p of
     None \<Rightarrow> s\<lparr>st_fault := True\<rparr>
   | Some t \<Rightarrow> s\<lparr>st_heap := (st_heap s)(p := None)\<rparr>)"

definition release_unless :: "nat option \<Rightarrow> nat option \<Rightarrow> 'tree store \<Rightarrow> 'tree store" where
  "release_unless old tree s = (case old of Some p \<Rightarrow> if Some p \<noteq> tree then Release p s else s | None \<Rightarrow> s)"

definition tree_at :: "nat option \<Rightarrow> 'tree store \<Rightarrow> 'tree option" where
  "tree_at p s = (case p of None \<Rightarrow> None | Some a \<Rightarrow> st_heap s a)"

text \<open>\<open>store.parse\<close>: the tree it returns, as an address, and the error.\<close>

definition parse :: "'tree grammar \<Rightarrow> string \<Rightarrow> nat option \<Rightarrow> 'tree store \<Rightarrow> (nat option \<times> goerror option) \<times> 'tree store" where
  "parse g source old s = (let (result, err) = g_parse g source (tree_at old s) in
     case result of
       NoTree \<Rightarrow> ((None, err), s)
     | OldTree \<Rightarrow> ((old, err), s)
     | NewTree t \<Rightarrow> let (p, s') = alloc t s in ((Some p, err), s'))"

definition store_syntax :: "'tree grammar \<Rightarrow> 'tree option \<Rightarrow> string \<Rightarrow> SyntaxStatement list" where
  "store_syntax g t source = extractSyntax (g_wide g) (g_annotated g) (g_captures g t source) source"

definition store_calls :: "'tree grammar \<Rightarrow> 'tree option \<Rightarrow> string \<Rightarrow> SyntaxCall list" where
  "store_calls g t source = (case t of None \<Rightarrow> [] | Some t' \<Rightarrow> extractCalls (g_calls g t' source))"

section \<open>Sources\<close>

definition validateSource :: "string \<Rightarrow> goerror option" where
  "validateSource source =
     (if MaxDocumentSize < length source then Some (errorf ''document exceeds %d-byte limit'' [AInt (int MaxDocumentSize)])
      else if \<not> Valid source then Some (errorf ''document is not valid UTF-8'' [])
      else if 2 ^ 32 - 1 < length source then Some (errorf ''document exceeds parser byte range'' [])
      else None)"

definition hasNonASCII :: "string \<Rightarrow> bool" where
  "hasNonASCII source = list_ex (\<lambda>c. 0x80 \<le> byte c) source"

definition pointForOffset :: "string \<Rightarrow> nat \<Rightarrow> Point" where
  "pointForOffset source offset = (let pre = take offset source in
     \<lparr>pt_Row = of_nat (count_list pre newline),
      pt_Column = of_nat (case LastIndexByte pre newline of None \<Rightarrow> offset | Some i \<Rightarrow> offset - i - 1)\<rparr>)"

definition replacementEndPoint :: "Point \<Rightarrow> string \<Rightarrow> Point" where
  "replacementEndPoint start replacement = (let newlines = count_list replacement newline in
     case LastIndexByte replacement newline of
       None \<Rightarrow> \<lparr>pt_Row = pt_Row start, pt_Column = pt_Column start + of_nat (length replacement)\<rparr>
     | Some i \<Rightarrow> \<lparr>pt_Row = pt_Row start + of_nat newlines, pt_Column = of_nat (length replacement - i - 1)\<rparr>)"

section \<open>Open\<close>

definition open_commit :: "'tree grammar \<Rightarrow> string \<Rightarrow> string \<Rightarrow> int \<Rightarrow> string \<Rightarrow> nat option \<Rightarrow> 'tree store \<Rightarrow> 'tree store" where
  "open_commit g uri filePath version source tree s =
     (let previous = map_of (st_documents s) uri;
        t = tree_at tree s;
        d = \<lparr>doc_filePath = filePath, doc_version = version, doc_source = source, doc_tree = tree,
             doc_syntax = store_syntax g t source, doc_calls = store_calls g t source\<rparr>;
        s' = s\<lparr>st_documents := gomap_put uri d (st_documents s)\<rparr> in
      case previous of None \<Rightarrow> s' | Some old \<Rightarrow> release_unless (doc_tree old) tree s')"

text \<open>What runs before the lock is taken: the checks and the parse.\<close>

definition open_parse :: "'tree grammar \<Rightarrow> string \<Rightarrow> string \<Rightarrow> 'tree store \<Rightarrow> (goerror + nat option) \<times> 'tree store" where
  "open_parse g uri source s =
     (if uri = [] then (Inl (errorf ''document URI is required'' []), s)
      else case validateSource source of
        Some e \<Rightarrow> (Inl e, s)
      | None \<Rightarrow> let ((tree, err), s') = parse g source None s in
          case err of Some e \<Rightarrow> (Inl (wrapf ''parse opened document: %w'' [] e), s') | None \<Rightarrow> (Inr tree, s'))"

definition OpenFile :: "'tree grammar \<Rightarrow> string \<Rightarrow> string \<Rightarrow> int \<Rightarrow> string \<Rightarrow> 'tree store \<Rightarrow> goerror option \<times> 'tree store" where
  "OpenFile g uri filePath version source s = (let (r, s') = open_parse g uri source s in
     case r of Inl e \<Rightarrow> (Some e, s') | Inr tree \<Rightarrow> (None, open_commit g uri filePath version source tree s'))"

section \<open>Change\<close>

record changeLoop =
  cl_source :: string
  cl_incremental :: bool
  cl_edits :: "InputEdit list"

definition input_edit :: "string \<Rightarrow> nat \<Rightarrow> nat \<Rightarrow> string \<Rightarrow> InputEdit" where
  "input_edit source start e replacement =
     \<lparr>StartByte = of_nat start, OldEndByte = of_nat e, NewEndByte = of_nat (start + length replacement),
      StartPoint = pointForOffset source start, OldEndPoint = pointForOffset source e,
      NewEndPoint = replacementEndPoint (pointForOffset source start) replacement\<rparr>"

definition splice :: "string \<Rightarrow> nat \<Rightarrow> nat \<Rightarrow> string \<Rightarrow> string" where
  "splice source start e replacement = take start source @ replacement @ drop e source"

definition apply_change :: "Change \<Rightarrow> changeLoop \<Rightarrow> goerror + changeLoop" where
  "apply_change change l = (case ch_Range change of
     None \<Rightarrow> Inr \<lparr>cl_source = ch_Text change, cl_incremental = False, cl_edits = []\<rparr>
   | Some rg \<Rightarrow>
       (case ByteOffset (cl_source l) (rng_Start rg) of
          None \<Rightarrow> Inl (errorf ''change start is not a valid UTF-16 position'' [])
        | Some start \<Rightarrow>
           (case ByteOffset (cl_source l) (rng_End rg) of
              None \<Rightarrow> Inl (errorf ''change end is not a valid UTF-16 position'' [])
            | Some e \<Rightarrow>
                if e < start then Inl (errorf ''change end is not a valid UTF-16 position'' [])
                else if \<not> Valid (ch_Text change) then Inl (errorf ''change text is not valid UTF-8'' [])
                else let edits = (if cl_incremental l then cl_edits l @ [input_edit (cl_source l) start e (ch_Text change)] else cl_edits l);
                  updated = splice (cl_source l) start e (ch_Text change) in
                  case validateSource updated of
                    Some err \<Rightarrow> Inl err
                  | None \<Rightarrow> Inr (l\<lparr>cl_source := updated, cl_edits := edits\<rparr>))))"

definition start_incremental :: "'tree grammar \<Rightarrow> document \<Rightarrow> 'tree store \<Rightarrow> bool" where
  "start_incremental g current s = (case tree_at (doc_tree current) s of
     None \<Rightarrow> False
   | Some t \<Rightarrow> g_root_error g t = Some False \<and> \<not> hasNonASCII (doc_source current))"

text \<open>The edits are applied in place to the copy.\<close>

definition edit_tree :: "'tree grammar \<Rightarrow> nat \<Rightarrow> InputEdit list \<Rightarrow> 'tree store \<Rightarrow> 'tree store" where
  "edit_tree g p edits s = s\<lparr>st_heap := (st_heap s)(p := map_option (\<lambda>t. fold (g_edit g) edits t) (st_heap s p))\<rparr>"

text \<open>\<open>oldTree.Copy()\<close>, only when the change is incremental.\<close>

definition copy_tree :: "'tree grammar \<Rightarrow> bool \<Rightarrow> nat option \<Rightarrow> 'tree store \<Rightarrow> nat option \<times> 'tree store" where
  "copy_tree g incremental oldTree s =
     (if \<not> incremental then (None, s)
      else case tree_at oldTree s of
        None \<Rightarrow> (None, s)
      | Some t \<Rightarrow> (case g_copy g t of None \<Rightarrow> (None, s) | Some t' \<Rightarrow> let (p, s') = alloc t' s in (Some p, s')))"

text \<open>The incremental parse; a tree whose root has an error is released and forgotten.\<close>

definition parse_incremental :: "'tree grammar \<Rightarrow> string \<Rightarrow> nat option \<Rightarrow> 'tree store \<Rightarrow>
    (nat option \<times> goerror option \<times> bool) \<times> 'tree store" where
  "parse_incremental g source copied s = (let ((tree, err), s1) = parse g source copied s in
     case (err, tree) of
       (None, Some p) \<Rightarrow>
         (case tree_at tree s1 of
            Some t \<Rightarrow> if g_root_error g t = Some False then ((tree, err, True), s1)
              else ((None, err, False), Release p s1)
          | None \<Rightarrow> ((None, err, False), Release p s1))
     | _ \<Rightarrow> ((tree, err, True), s1))"

definition change_parse :: "'tree grammar \<Rightarrow> string \<Rightarrow> bool \<Rightarrow> nat option \<Rightarrow> 'tree store \<Rightarrow> (nat option \<times> goerror option) \<times> 'tree store" where
  "change_parse g source incremental copied s =
     (let ((tree, err, still), s1) = (if incremental then parse_incremental g source copied s
            else ((None, None, False), s));
        ((tree', err'), s2) = (if \<not> still \<or> err \<noteq> None then parse g source None s1 else ((tree, err), s1)) in
      ((tree', err'), release_unless copied tree' s2))"

definition update_document :: "'tree grammar \<Rightarrow> string \<Rightarrow> document \<Rightarrow> string \<Rightarrow> int \<Rightarrow> nat option \<Rightarrow> 'tree store \<Rightarrow> 'tree store" where
  "update_document g uri current source version tree s =
     (let t = tree_at tree s in
      release_unless (doc_tree current) tree
        (s\<lparr>st_documents := gomap_put uri (current\<lparr>doc_version := version, doc_source := source, doc_tree := tree,
             doc_syntax := store_syntax g t source, doc_calls := store_calls g t source\<rparr>) (st_documents s)\<rparr>))"

definition ChangeDocument :: "'tree grammar \<Rightarrow> string \<Rightarrow> int \<Rightarrow> Change list \<Rightarrow> 'tree store \<Rightarrow> goerror option \<times> 'tree store" where
  "ChangeDocument g uri version changes s =
     (if changes = [] then (Some (errorf ''document change list is empty'' []), s)
      else case map_of (st_documents s) uri of
        None \<Rightarrow> (Some (errorf ''document is not open'' []), s)
      | Some current \<Rightarrow>
          if version \<le> doc_version current
          then (Some (errorf ''document version %d is not newer than %d'' [AInt version, AInt (doc_version current)]), s)
          else case fold_err apply_change changes
              \<lparr>cl_source = doc_source current, cl_incremental = start_incremental g current s, cl_edits = []\<rparr> of
            Inl e \<Rightarrow> (Some e, s)
          | Inr l \<Rightarrow>
              (case validateSource (cl_source l) of
                 Some e \<Rightarrow> (Some e, s)
               | None \<Rightarrow>
                   let (copied, s1) = copy_tree g (cl_incremental l) (doc_tree current) s;
                     s2 = (case copied of None \<Rightarrow> s1 | Some p \<Rightarrow> edit_tree g p (cl_edits l) s1);
                     ((tree, err), s3) = change_parse g (cl_source l) (copied \<noteq> None) copied s2 in
                   case err of
                     Some e \<Rightarrow> (Some (wrapf ''parse changed document: %w'' [] e), s3)
                   | None \<Rightarrow> (None, update_document g uri current (cl_source l) version tree s3)))"

section \<open>Close, save and snapshot\<close>

definition CloseDocument :: "string \<Rightarrow> 'tree store \<Rightarrow> 'tree store" where
  "CloseDocument uri s = (let current = map_of (st_documents s) uri;
      s' = s\<lparr>st_documents := gomap_delete uri (st_documents s)\<rparr> in
    case current of None \<Rightarrow> s' | Some d \<Rightarrow> release_unless (doc_tree d) None s')"

definition CloseAll :: "'tree store \<Rightarrow> 'tree store" where
  "CloseAll s = fold (\<lambda>(uri, d). release_unless (doc_tree d) None) (st_documents s) (s\<lparr>st_documents := []\<rparr>)"

definition snapshot_of :: "string \<Rightarrow> document \<Rightarrow> DocSnapshot" where
  "snapshot_of uri current = \<lparr>ds_URI = uri, ds_FilePath = doc_filePath current, ds_Version = doc_version current,
     ds_Source = doc_source current, ds_Parsed = (doc_tree current \<noteq> None),
     ds_Syntax = doc_syntax current, ds_Calls = doc_calls current\<rparr>"

definition SnapshotDocument :: "'tree store \<Rightarrow> string \<Rightarrow> DocSnapshot option" where
  "SnapshotDocument s uri = map_option (snapshot_of uri) (map_of (st_documents s) uri)"

definition Snapshots :: "'tree store \<Rightarrow> DocSnapshot list" where
  "Snapshots s = sort_key ds_URI (map (\<lambda>(uri, d). snapshot_of uri d) (st_documents s))"

text \<open>
  \<open>Save\<close> without a text only looks the document up. With a text it reads the version, then
  \<open>saveText\<close> parses outside the lock and stores the result only when the version is the same.
\<close>

definition save_version :: "'tree store \<Rightarrow> string \<Rightarrow> goerror + int" where
  "save_version s uri = (case map_of (st_documents s) uri of
     None \<Rightarrow> Inl (errorf ''document is not open'' []) | Some d \<Rightarrow> Inr (doc_version d))"

definition save_parse :: "'tree grammar \<Rightarrow> string \<Rightarrow> 'tree store \<Rightarrow> (goerror + nat option) \<times> 'tree store" where
  "save_parse g source s = (case validateSource source of
     Some e \<Rightarrow> (Inl e, s)
   | None \<Rightarrow> let ((tree, err), s') = parse g source None s in
       case err of Some e \<Rightarrow> (Inl (wrapf ''parse saved document: %w'' [] e), s') | None \<Rightarrow> (Inr tree, s'))"

definition save_commit :: "'tree grammar \<Rightarrow> string \<Rightarrow> int \<Rightarrow> string \<Rightarrow> nat option \<Rightarrow> 'tree store \<Rightarrow> goerror option \<times> 'tree store" where
  "save_commit g uri version source tree s =
     (let refuse = (Some (errorf ''saved document was changed concurrently'' []), release_unless tree None s) in
      case map_of (st_documents s) uri of
        None \<Rightarrow> refuse
      | Some current \<Rightarrow>
          if doc_version current \<noteq> version then refuse
          else (None, update_document g uri current source (doc_version current) tree s))"

definition saveText :: "'tree grammar \<Rightarrow> string \<Rightarrow> int \<Rightarrow> string \<Rightarrow> 'tree store \<Rightarrow> goerror option \<times> 'tree store" where
  "saveText g uri version source s = (let (r, s') = save_parse g source s in
     case r of Inl e \<Rightarrow> (Some e, s') | Inr tree \<Rightarrow> save_commit g uri version source tree s')"

definition Save :: "'tree grammar \<Rightarrow> string \<Rightarrow> string option \<Rightarrow> 'tree store \<Rightarrow> goerror option \<times> 'tree store" where
  "Save g uri content s = (case content of
     None \<Rightarrow> ((if SnapshotDocument s uri = None then Some (errorf ''document is not open'' []) else None), s)
   | Some source \<Rightarrow> (case save_version s uri of
       Inl e \<Rightarrow> (Some e, s)
     | Inr version \<Rightarrow> saveText g uri version source s))"

end
