(* ===== verification/Document_Store_Facts.thy ===== *)
theory Document_Store_Facts
  imports Document_Store
begin

text \<open>
  The invariants of the document store: what every open document satisfies, and who owns the trees.
  The owned addresses are a multiset, the trees of the documents and those a method holds that has
  parsed and not yet committed; the heap is exactly those, each once.
\<close>

section \<open>What the code relies on\<close>

text \<open>
  \<open>ParseWith\<close> returns no new tree together with an error. It may return the tree it was given, as the
  guards of \<open>Change\<close> allow, but then, without an error, that tree's root has none: otherwise \<open>Change\<close>
  releases it twice (\<open>old_tree_with_error_faults\<close>).
\<close>

definition parser_contract :: "'tree grammar \<Rightarrow> bool" where
  "parser_contract g \<longleftrightarrow> (\<forall>source old. case fst (g_parse g source old) of
     NoTree \<Rightarrow> True
   | NewTree t \<Rightarrow> snd (g_parse g source old) = None
   | OldTree \<Rightarrow> snd (g_parse g source old) = None \<longrightarrow> (\<forall>t. old = Some t \<longrightarrow> g_root_error g t = Some False))"

section \<open>Ownership of trees\<close>

definition opt_mset :: "'a option \<Rightarrow> 'a multiset" where
  "opt_mset p = (case p of None \<Rightarrow> {#} | Some x \<Rightarrow> {#x#})"

lemma opt_mset_simps [simp]: "opt_mset None = {#}" "opt_mset (Some x) = {#x#}"
  by (simp_all add: opt_mset_def)

fun doc_trees :: "document gomap \<Rightarrow> nat multiset" where
  "doc_trees [] = {#}"
| "doc_trees ((u, d) # m) = opt_mset (doc_tree d) + doc_trees m"

definition tree_of :: "document option \<Rightarrow> nat multiset" where
  "tree_of d = (case d of None \<Rightarrow> {#} | Some d' \<Rightarrow> opt_mset (doc_tree d'))"

lemma tree_of_simps [simp]: "tree_of None = {#}" "tree_of (Some d) = opt_mset (doc_tree d)"
  by (simp_all add: tree_of_def)

lemma doc_trees_put: "doc_trees (gomap_put u d m) + tree_of (map_of m u) = doc_trees m + opt_mset (doc_tree d)"
  by (induction u d m rule: gomap_put.induct) (auto simp: ac_simps)

lemma gomap_delete_absent: "map_of m u = None \<Longrightarrow> gomap_delete u m = m"
  by (induction m) (auto simp: gomap_delete_def split: if_splits)

lemma gomap_delete_Cons: "gomap_delete u ((u', d) # m) = (if u' = u then gomap_delete u m else (u', d) # gomap_delete u m)"
  by (simp add: gomap_delete_def)

lemma doc_trees_delete: "gomap_ok m \<Longrightarrow> doc_trees (gomap_delete u m) + tree_of (map_of m u) = doc_trees m"
proof (induction m)
  case (Cons p m)
  obtain u' d where p: "p = (u', d)" by (cases p)
  have m: "gomap_ok m" "map_of m u' = None" using Cons.prems by (simp_all add: p gomap_ok_def map_of_eq_None_iff)
  then show ?case using Cons.IH by (auto simp: p gomap_delete_Cons gomap_delete_absent ac_simps)
qed (simp add: gomap_delete_def)

lemma doc_trees_member: "(u, d) \<in> set m \<Longrightarrow> opt_mset (doc_tree d) \<subseteq># doc_trees m"
  by (induction m rule: doc_trees.induct) (auto intro: subset_mset.order_trans [OF _ mset_subset_eq_add_right])

definition heap_ok :: "'tree store \<Rightarrow> nat multiset \<Rightarrow> bool" where
  "heap_ok s M \<longleftrightarrow> finite (dom (st_heap s)) \<and> M = mset_set (dom (st_heap s)) \<and>
     (\<forall>p \<in> dom (st_heap s). p < st_next s) \<and> \<not> st_fault s"

text \<open>The documents are the same and so are the trees at the addresses of \<open>M\<close>.\<close>

definition same :: "nat multiset \<Rightarrow> 'tree store \<Rightarrow> 'tree store \<Rightarrow> bool" where
  "same M s s' \<longleftrightarrow> st_documents s' = st_documents s \<and> (\<forall>p \<in># M. st_heap s' p = st_heap s p)"

definition keeps :: "nat multiset \<Rightarrow> 'tree store \<Rightarrow> 'tree store \<Rightarrow> bool" where
  "keeps M s s' \<longleftrightarrow> (\<forall>p \<in># M. st_heap s' p = st_heap s p)"

lemma keeps_refl [simp]: "keeps M s s"
  by (simp add: keeps_def)

lemma keeps_trans: "keeps M s s' \<Longrightarrow> keeps M s' s'' \<Longrightarrow> keeps M s s''"
  by (simp add: keeps_def)

lemma keeps_union [simp]: "keeps (M + N) s s' \<longleftrightarrow> keeps M s s' \<and> keeps N s s'"
  by (auto simp: keeps_def)

lemma same_keeps: "same (M + N) s s' \<Longrightarrow> keeps N s s'"
  by (auto simp: same_def keeps_def)

lemma keeps_documents [simp]: "keeps M s (s'\<lparr>st_documents := m\<rparr>) \<longleftrightarrow> keeps M s s'" "keeps M (s\<lparr>st_documents := m\<rparr>) s' \<longleftrightarrow> keeps M s s'"
  by (simp_all add: keeps_def)

lemma same_refl [simp]: "same M s s"
  by (simp add: same_def)

lemma same_trans: "same M s s' \<Longrightarrow> same N s' s'' \<Longrightarrow> M \<subseteq># N \<Longrightarrow> same M s s''"
  by (auto simp: same_def dest: mset_subset_eqD)

lemma heap_ok_live: "heap_ok s M \<Longrightarrow> p \<in># M \<longleftrightarrow> st_heap s p \<noteq> None"
  by (auto simp: heap_ok_def)

lemma heap_ok_once: "heap_ok s (add_mset p M) \<Longrightarrow> p \<notin># M"
proof
  assume h: "heap_ok s (add_mset p M)" and p: "p \<in># M"
  have "count (add_mset p M) p \<le> 1" using h by (auto simp: heap_ok_def count_mset_set')
  with p show False by (simp flip: count_greater_zero_iff)
qed

lemma heap_alloc:
  assumes "heap_ok s M" and "alloc t s = (p, s')"
  shows "heap_ok s' (add_mset p M)" and "same M s s'" and "st_heap s' p = Some t" and "p \<notin># M"
proof -
  have p: "p = st_next s" and s': "s' = s\<lparr>st_heap := (st_heap s)(p \<mapsto> t), st_next := Suc (st_next s)\<rparr>"
    using assms(2) by (auto simp: alloc_def)
  have fresh: "p \<notin> dom (st_heap s)" using assms(1) p by (auto simp: heap_ok_def)
  then show "p \<notin># M" using assms(1) heap_ok_live by blast
  show "heap_ok s' (add_mset p M)" using assms(1) fresh p by (auto simp: heap_ok_def s' less_Suc_eq)
  show "same M s s'" using \<open>p \<notin># M\<close> by (auto simp: same_def s')
  show "st_heap s' p = Some t" by (simp add: s')
qed

lemma heap_release:
  assumes "heap_ok s (add_mset p M)"
  shows "heap_ok (Release p s) M" and "same M s (Release p s)"
proof -
  have p: "p \<notin># M" and live: "st_heap s p \<noteq> None"
    using heap_ok_once [OF assms] heap_ok_live [OF assms, of p] by auto
  then have r: "Release p s = s\<lparr>st_heap := (st_heap s)(p := None)\<rparr>" by (auto simp: Release_def)
  have "add_mset p M = mset_set (dom (st_heap s))" using assms by (simp add: heap_ok_def)
  then have M: "M = mset_set (dom (st_heap s)) - {#p#}" by (metis add_mset_remove_trivial)
  have "p \<in> dom (st_heap s)" using live by (simp add: domIff)
  then show "heap_ok (Release p s) M" unfolding r heap_ok_def M
    using assms mset_set_Diff [of "dom (st_heap s)" "{p}"] by (auto simp: heap_ok_def)
  show "same M s (Release p s)" using p by (auto simp: same_def r)
qed

lemma release_unless_ok:
  assumes "heap_ok s (opt_mset old + M)" and "\<forall>p. old = Some p \<longrightarrow> tree \<noteq> Some p"
  shows "heap_ok (release_unless old tree s) M" and "same M s (release_unless old tree s)"
  using assms heap_release by (auto simp: release_unless_def split: option.splits)

section \<open>What parsing leaves\<close>

definition parsed_from :: "'tree grammar \<Rightarrow> string \<Rightarrow> 'tree option \<Rightarrow> bool" where
  "parsed_from g source t \<longleftrightarrow>
     (\<exists>old. g_parse g source old = ((case t of None \<Rightarrow> NoTree | Some t' \<Rightarrow> NewTree t'), None)) \<or>
     g_parse g source t = (OldTree, None)"

text \<open>A parse that holds the result \<open>tree\<close> and nothing else.\<close>

definition parse_result :: "'tree grammar \<Rightarrow> string \<Rightarrow> nat multiset \<Rightarrow> 'tree store \<Rightarrow> nat option \<Rightarrow> goerror option \<Rightarrow> 'tree store \<Rightarrow> bool" where
  "parse_result g source M s tree err s' \<longleftrightarrow> heap_ok s' (opt_mset tree + M) \<and> same M s s' \<and>
     (err \<noteq> None \<longrightarrow> tree = None) \<and> (err = None \<longrightarrow> parsed_from g source (tree_at tree s'))"

lemma parse_ok:
  assumes g: "parser_contract g" and h: "heap_ok s M" and p: "parse g source old s = ((tree, err), s')"
    and old: "fst (g_parse g source (tree_at old s)) = OldTree \<Longrightarrow> old = None"
  shows "parse_result g source M s tree err s'"
proof -
  obtain result e where r: "g_parse g source (tree_at old s) = (result, e)" by (cases "g_parse g source (tree_at old s)")
  show ?thesis
  proof (cases result)
    case NoTree
    then show ?thesis using p h r by (auto simp: parse_def parse_result_def parsed_from_def tree_at_def)
  next
    case (NewTree t)
    have "case fst (g_parse g source (tree_at old s)) of NoTree \<Rightarrow> True
       | NewTree t \<Rightarrow> snd (g_parse g source (tree_at old s)) = None
       | OldTree \<Rightarrow> snd (g_parse g source (tree_at old s)) = None \<longrightarrow>
           (\<forall>t. tree_at old s = Some t \<longrightarrow> g_root_error g t = Some False)"
      using g unfolding parser_contract_def by blast
    then have "e = None" using r NewTree by simp
    obtain a s1 where a: "alloc t s = (a, s1)" by (cases "alloc t s")
    have *: "tree = Some a" "err = None" "s' = s1" using p NewTree r a \<open>e = None\<close> by (auto simp: parse_def)
    have "tree_at tree s' = Some t" using heap_alloc [OF h a] * by (simp add: tree_at_def)
    moreover have "g_parse g source (tree_at old s) = (NewTree t, None)" using r NewTree \<open>e = None\<close> by simp
    ultimately have "parsed_from g source (tree_at tree s')" unfolding parsed_from_def by auto
    then show ?thesis using heap_alloc [OF h a] * by (simp add: parse_result_def)
  next
    case OldTree
    then have "old = None" using old r by simp
    then show ?thesis using p h r OldTree by (auto simp: parse_def parse_result_def parsed_from_def tree_at_def)
  qed
qed

lemma copy_tree_ok:
  assumes "heap_ok s M" and "copy_tree g incremental old s = (copied, s')"
  shows "heap_ok s' (opt_mset copied + M)" and "same M s s'"
  using assms heap_alloc [OF assms(1)]
  by (auto simp: copy_tree_def split: if_splits option.splits prod.splits)

lemma edit_tree_ok:
  assumes "heap_ok s (add_mset p M)"
  shows "heap_ok (edit_tree g p edits s) (add_mset p M)" and "same M s (edit_tree g p edits s)"
proof -
  have "dom (st_heap (edit_tree g p edits s)) = dom (st_heap s)" by (auto simp: edit_tree_def)
  then show "heap_ok (edit_tree g p edits s) (add_mset p M)" using assms by (auto simp: heap_ok_def edit_tree_def)
  show "same M s (edit_tree g p edits s)" using heap_ok_once [OF assms] by (auto simp: same_def edit_tree_def)
qed

text \<open>After the incremental parse the method holds the copy and the tree, which may be the same one.\<close>

definition held :: "nat option \<Rightarrow> nat option \<Rightarrow> nat multiset" where
  "held copied tree = (if tree = copied then opt_mset copied else opt_mset tree + opt_mset copied)"

lemma held_simps [simp]: "held copied None = opt_mset copied" "held copied copied = opt_mset copied"
  by (auto simp: held_def)

lemma parse_incremental_ok:
  assumes g: "parser_contract g" and h: "heap_ok s (opt_mset copied + M)"
    and p: "parse_incremental g source copied s = ((tree, err, still), s')"
  shows "heap_ok s' (held copied tree + M) \<and> same M s s' \<and>
    (err \<noteq> None \<longrightarrow> tree = None \<or> tree = copied) \<and> (\<not> still \<longrightarrow> tree = None) \<and>
    (still \<longrightarrow> err = None \<longrightarrow> parsed_from g source (tree_at tree s'))"
proof (cases "fst (g_parse g source (tree_at copied s)) = OldTree \<and> copied \<noteq> None")
  case False
  let ?N = "opt_mset copied + M"
  obtain tree1 err1 s1 where p1: "parse g source copied s = ((tree1, err1), s1)"
    by (cases "parse g source copied s") auto
  have "parse_result g source ?N s tree1 err1 s1" by (rule parse_ok [OF g h p1]) (use False in simp)
  note ok = this [unfolded parse_result_def]
  have rel: "heap_ok (Release q s1) ?N" "same M s (Release q s1)" if "tree1 = Some q" for q
  proof -
    have q: "heap_ok s1 (add_mset q ?N)" using ok that by simp
    show "heap_ok (Release q s1) ?N" by (rule heap_release [OF q])
    show "same M s (Release q s1)" using ok heap_release(2) [OF q] by (auto simp: same_def)
  qed
  have held: "held copied tree1 + M = opt_mset tree1 + ?N"
  proof (cases tree1)
    case (Some q)
    then have "tree1 \<noteq> copied" using ok heap_ok_once by fastforce
    then show ?thesis by (simp add: held_def ac_simps)
  qed simp
  have "same M s s1" using ok by (auto simp: same_def)
  then show ?thesis using p p1 ok rel held
    by (auto simp: parse_incremental_def split: option.splits if_splits)
next
  case True
  then obtain a where a: "copied = Some a" by auto
  then obtain t where t: "st_heap s a = Some t" using heap_ok_live [OF h, of a] by auto
  obtain e where e: "g_parse g source (Some t) = (OldTree, e)"
    using True a t by (cases "g_parse g source (Some t)") (simp add: tree_at_def)
  have "e = None \<Longrightarrow> g_root_error g t = Some False"
  proof -
    assume "e = None"
    moreover have "case fst (g_parse g source (Some t)) of NoTree \<Rightarrow> True
       | NewTree t' \<Rightarrow> snd (g_parse g source (Some t)) = None
       | OldTree \<Rightarrow> snd (g_parse g source (Some t)) = None \<longrightarrow> (\<forall>t'. Some t = Some t' \<longrightarrow> g_root_error g t' = Some False)"
      using g unfolding parser_contract_def by blast
    ultimately show ?thesis using e by simp
  qed
  then have "tree = copied \<and> err = e \<and> still \<and> s' = s"
    using p e a t by (cases e) (auto simp: parse_incremental_def parse_def tree_at_def)
  then show ?thesis using h e a t by (auto simp: parsed_from_def tree_at_def)
qed

lemma change_parse_ok:
  assumes g: "parser_contract g" and h: "heap_ok s (opt_mset copied + M)"
    and p: "change_parse g source incremental copied s = ((tree, err), s')"
  shows "parse_result g source M s tree err s'"
proof -
  let ?N = "opt_mset copied + M"
  obtain tree1 err1 still s1 where p1: "(if incremental then parse_incremental g source copied s
            else ((None, None, False), s)) = ((tree1, err1, still), s1)"
    by (metis prod.exhaust)
  have ok1: "heap_ok s1 (held copied tree1 + M) \<and> same M s s1 \<and>
    (err1 \<noteq> None \<longrightarrow> tree1 = None \<or> tree1 = copied) \<and> (\<not> still \<longrightarrow> tree1 = None) \<and>
    (still \<longrightarrow> err1 = None \<longrightarrow> parsed_from g source (tree_at tree1 s1))"
    using parse_incremental_ok [OF g h] p1 h by (auto split: if_splits)
  obtain s2 where p2: "(if \<not> still \<or> err1 \<noteq> None then parse g source None s1 else ((tree1, err1), s1)) = ((tree, err), s2)"
    and s': "s' = release_unless copied tree s2"
    using p p1 by (auto simp: change_parse_def split: prod.splits)
  have ok2: "heap_ok s2 (held copied tree + M) \<and> same M s s2 \<and> (err \<noteq> None \<longrightarrow> tree = None) \<and>
      (err = None \<longrightarrow> parsed_from g source (tree_at tree s2))"
  proof (cases "\<not> still \<or> err1 \<noteq> None")
    case True
    then have "heap_ok s1 ?N" using ok1 by (auto simp: held_def split: if_splits)
    then have r: "parse_result g source ?N s1 tree err s2" by (rule parse_ok [OF g]) (use p2 True in simp_all)
    then have "heap_ok s2 (opt_mset tree + ?N)" by (simp add: parse_result_def)
    then have "heap_ok s2 (held copied tree + M)"
      by (cases tree) (use heap_ok_once in \<open>fastforce simp: held_def ac_simps\<close>)+
    then show ?thesis using r ok1 by (auto simp: parse_result_def same_def)
  next
    case False
    then show ?thesis using ok1 p2 by simp
  qed
  show ?thesis
  proof (cases "tree = copied")
    case True
    then have "s' = s2" by (simp add: s' release_unless_def split: option.splits)
    then show ?thesis using ok2 True by (simp add: parse_result_def)
  next
    case False
    then have h2: "heap_ok s2 (opt_mset copied + (opt_mset tree + M))" using ok2 by (simp add: held_def ac_simps)
    have fresh: "\<forall>q. copied = Some q \<longrightarrow> tree \<noteq> Some q" using False by auto
    note rel = release_unless_ok [OF h2 fresh, folded s']
    have "tree_at tree s' = tree_at tree s2" using rel(2) by (cases tree) (auto simp: tree_at_def same_def)
    moreover have "same M s s'" using ok2 rel(2) by (auto simp: same_def)
    ultimately show ?thesis using ok2 rel(1) unfolding parse_result_def by simp
  qed
qed

text \<open>
  What the contract excludes: the parser returns the copy it was given and the copy's root has an error.
  \<open>Change\<close> releases it as the new tree, forgets that, and releases it again as the copy.
\<close>

lemma old_tree_with_error_faults:
  assumes "heap_ok s (add_mset p M)" and "st_heap s p = Some t"
    and "g_parse g source (Some t) = (OldTree, None)" and "g_root_error g t \<noteq> Some False"
  shows "st_fault (snd (change_parse g source True (Some p) s))"
proof -
  have p: "p < st_next s" using assms(1,2) by (auto simp: heap_ok_def)
  have inc: "parse_incremental g source (Some p) s = ((None, None, False), Release p s)"
    using assms by (simp add: parse_incremental_def parse_def tree_at_def)
  obtain tree err s2 where p2: "parse g source None (Release p s) = ((tree, err), s2)" by (metis prod.exhaust)
  have "tree \<noteq> Some p \<and> st_heap s2 p = None"
    using p2 p assms(2) by (auto simp: parse_def alloc_def Release_def tree_at_def split: parsed.splits prod.splits)
  then have "Some p \<noteq> tree" and freed: "st_heap s2 p = None" by auto
  then have "release_unless (Some p) tree s2 = Release p s2" by (simp add: release_unless_def)
  moreover have "st_fault (Release p s2)" using freed by (simp add: Release_def)
  ultimately show ?thesis using inc p2 by (simp add: change_parse_def)
qed

section \<open>The documents\<close>

definition doc_ok :: "'tree grammar \<Rightarrow> 'tree store \<Rightarrow> document \<Rightarrow> bool" where
  "doc_ok g s d \<longleftrightarrow> validateSource (doc_source d) = None \<and> parsed_from g (doc_source d) (tree_at (doc_tree d) s) \<and>
     doc_syntax d = store_syntax g (tree_at (doc_tree d) s) (doc_source d) \<and>
     doc_calls d = store_calls g (tree_at (doc_tree d) s) (doc_source d)"

definition docs_ok :: "'tree grammar \<Rightarrow> 'tree store \<Rightarrow> bool" where
  "docs_ok g s \<longleftrightarrow> gomap_ok (st_documents s) \<and> (\<forall>(u, d) \<in> set (st_documents s). doc_ok g s d)"

text \<open>The invariant, with the addresses \<open>P\<close> held by methods between their parse and their commit.\<close>

definition store_inv :: "'tree grammar \<Rightarrow> nat multiset \<Rightarrow> 'tree store \<Rightarrow> bool" where
  "store_inv g P s \<longleftrightarrow> docs_ok g s \<and> heap_ok s (doc_trees (st_documents s) + P)"

lemma doc_ok_frame:
  assumes "doc_ok g s d" and "\<forall>p \<in># opt_mset (doc_tree d). st_heap s' p = st_heap s p"
  shows "doc_ok g s' d"
proof -
  have "tree_at (doc_tree d) s' = tree_at (doc_tree d) s"
    using assms(2) by (cases "doc_tree d") (auto simp: tree_at_def)
  then show ?thesis using assms(1) by (simp add: doc_ok_def)
qed

lemma docs_ok_frame:
  assumes "docs_ok g s" and "same M s s'" and "doc_trees (st_documents s) \<subseteq># M"
  shows "docs_ok g s'"
proof -
  have "doc_ok g s' d" if "(u, d) \<in> set (st_documents s)" for u d
  proof (rule doc_ok_frame)
    show "doc_ok g s d" using assms(1) that by (auto simp: docs_ok_def)
    have "opt_mset (doc_tree d) \<subseteq># M"
      using doc_trees_member [OF that] assms(3) by (rule subset_mset.order_trans)
    then show "\<forall>p \<in># opt_mset (doc_tree d). st_heap s' p = st_heap s p"
      using assms(2) by (auto simp: same_def dest: mset_subset_eqD)
  qed
  then show ?thesis using assms(1,2) by (auto simp: docs_ok_def same_def)
qed

lemma store_inv_frame:
  assumes "store_inv g P s" and "same (doc_trees (st_documents s)) s s'"
    and "heap_ok s' (doc_trees (st_documents s) + P')"
  shows "store_inv g P' s'"
  using assms docs_ok_frame [of g s _ s'] by (auto simp: store_inv_def same_def)

lemma set_gomap_delete: "set (gomap_delete u m) \<subseteq> set m"
  by (auto simp: gomap_delete_def)

lemma gomap_ok_delete: "gomap_ok m \<Longrightarrow> gomap_ok (gomap_delete u m)"
  by (auto simp: gomap_ok_def gomap_delete_def distinct_map intro: inj_on_subset)

text \<open>Putting a document: its own tree leaves the addresses held, the tree it replaces joins them.\<close>

lemma put_document:
  assumes inv: "store_inv g P s" and P: "P = opt_mset (doc_tree d) + P'" and d: "doc_ok g s d"
    and s': "s' = s\<lparr>st_documents := gomap_put u d (st_documents s)\<rparr>"
  shows "store_inv g (tree_of (map_of (st_documents s) u) + P') s'"
proof -
  have "doc_trees (st_documents s) + P = doc_trees (st_documents s') + (tree_of (map_of (st_documents s) u) + P')"
    using doc_trees_put [of u d "st_documents s"] by (simp add: s' P ac_simps)
  moreover have "heap_ok s' M = heap_ok s M" for M by (simp add: heap_ok_def s')
  ultimately have "heap_ok s' (doc_trees (st_documents s') + (tree_of (map_of (st_documents s) u) + P'))"
    using inv by (simp add: store_inv_def)
  moreover have "doc_ok g s' d' = doc_ok g s d'" for d'
    by (cases "doc_tree d'") (simp_all add: doc_ok_def tree_at_def s')
  then have "docs_ok g s'"
    using inv d set_gomap_put_subset [of u d "st_documents s"]
    by (auto simp: store_inv_def docs_ok_def s')
  ultimately show ?thesis by (simp add: store_inv_def)
qed

lemma store_inv_release:
  assumes inv: "store_inv g (opt_mset old + P) s" and fresh: "\<forall>p. old = Some p \<longrightarrow> tree \<noteq> Some p"
  shows "store_inv g P (release_unless old tree s)" and "keeps P s (release_unless old tree s)"
proof -
  have "heap_ok s (opt_mset old + (doc_trees (st_documents s) + P))"
    using inv by (simp add: store_inv_def ac_simps)
  note ok = release_unless_ok [OF this fresh]
  then show "store_inv g P (release_unless old tree s)"
    by (intro store_inv_frame [OF inv]) (auto simp: same_def)
  show "keeps P s (release_unless old tree s)" using ok(2) by (rule same_keeps)
qed

lemma install_document:
  assumes inv: "store_inv g (opt_mset tree + P) s" and d: "doc_ok g s d" "doc_tree d = tree"
    and s'_def: "s' = (case map_of (st_documents s) u of
      None \<Rightarrow> s\<lparr>st_documents := gomap_put u d (st_documents s)\<rparr>
    | Some old \<Rightarrow> release_unless (doc_tree old) tree (s\<lparr>st_documents := gomap_put u d (st_documents s)\<rparr>))"
  shows "store_inv g P s' \<and> keeps P s s'"
proof (cases "map_of (st_documents s) u")
  case None
  then show ?thesis using put_document [OF inv _ d(1) refl, of P u] d(2) by (simp add: s'_def)
next
  case (Some old)
  let ?s = "s\<lparr>st_documents := gomap_put u d (st_documents s)\<rparr>"
  have inv': "store_inv g (opt_mset (doc_tree old) + P) ?s"
    using put_document [OF inv _ d(1) refl, of P u] d(2) Some by simp
  have fresh: "\<forall>p. doc_tree old = Some p \<longrightarrow> tree \<noteq> Some p"
  proof (intro allI impI notI)
    fix p assume p: "doc_tree old = Some p" "tree = Some p"
    have "{#p#} \<subseteq># doc_trees (st_documents s)"
      using doc_trees_member [OF map_of_SomeD [OF Some]] p by simp
    moreover have "heap_ok s (add_mset p (doc_trees (st_documents s) + P))"
      using inv p by (simp add: store_inv_def ac_simps)
    ultimately show False using heap_ok_once by fastforce
  qed
  show ?thesis using store_inv_release [OF inv' fresh] Some by (simp add: s'_def)
qed

section \<open>Every operation keeps the invariant\<close>

lemma parse_inv:
  assumes g: "parser_contract g" and inv: "store_inv g P s" and p: "parse g source None s = ((tree, err), s')"
  shows "store_inv g (opt_mset tree + P) s'" and "st_documents s' = st_documents s \<and> keeps P s s'"
    and "err \<noteq> None \<Longrightarrow> tree = None" and "err = None \<Longrightarrow> parsed_from g source (tree_at tree s')"
proof -
  have h: "heap_ok s (doc_trees (st_documents s) + P)" using inv by (simp add: store_inv_def)
  have "parse_result g source (doc_trees (st_documents s) + P) s tree err s'" by (rule parse_ok [OF g h p]) simp
  note ok = this [unfolded parse_result_def]
  have "same (doc_trees (st_documents s)) s s'" using ok by (auto simp: same_def)
  then show "store_inv g (opt_mset tree + P) s'"
    using ok by (intro store_inv_frame [OF inv]) (simp_all add: ac_simps)
  show "st_documents s' = st_documents s \<and> keeps P s s'" using ok by (simp add: same_def keeps_def)
  show "err \<noteq> None \<Longrightarrow> tree = None" "err = None \<Longrightarrow> parsed_from g source (tree_at tree s')" using ok by simp_all
qed

lemma checked_parse_inv:
  assumes g: "parser_contract g" and inv: "store_inv g P s"
    and r: "(let ((tree, err), s1) = parse g source None s in
        case err of Some e \<Rightarrow> (Inl (f e), s1) | None \<Rightarrow> (Inr tree, s1)) = (r, s')"
  shows "store_inv g (case r of Inl e \<Rightarrow> P | Inr tree \<Rightarrow> opt_mset tree + P) s'" and "st_documents s' = st_documents s \<and> keeps P s s'"
    and "r = Inr tree \<Longrightarrow> parsed_from g source (tree_at tree s')"
proof -
  obtain tree1 err1 s1 where p: "parse g source None s = ((tree1, err1), s1)" by (cases "parse g source None s") auto
  note ok = parse_inv [OF g inv p]
  show "store_inv g (case r of Inl e \<Rightarrow> P | Inr tree \<Rightarrow> opt_mset tree + P) s'" "st_documents s' = st_documents s \<and> keeps P s s'"
    "r = Inr tree \<Longrightarrow> parsed_from g source (tree_at tree s')"
    using ok r p by (auto split: option.splits)
qed

lemma open_parse_inv:
  assumes g: "parser_contract g" and inv: "store_inv g P s" and r: "open_parse g uri source s = (r, s')"
  shows "store_inv g (case r of Inl e \<Rightarrow> P | Inr tree \<Rightarrow> opt_mset tree + P) s'" and "st_documents s' = st_documents s \<and> keeps P s s'"
    and "r = Inr tree \<Longrightarrow> parsed_from g source (tree_at tree s') \<and> validateSource source = None"
proof -
  show "store_inv g (case r of Inl e \<Rightarrow> P | Inr tree \<Rightarrow> opt_mset tree + P) s'" "st_documents s' = st_documents s \<and> keeps P s s'"
    "r = Inr tree \<Longrightarrow> parsed_from g source (tree_at tree s') \<and> validateSource source = None"
    using r inv checked_parse_inv [OF g inv, of source "wrapf ''parse opened document: %w'' []" r s']
    by (auto simp: open_parse_def split: if_splits option.splits)
qed

lemma save_parse_inv:
  assumes g: "parser_contract g" and inv: "store_inv g P s" and r: "save_parse g source s = (r, s')"
  shows "store_inv g (case r of Inl e \<Rightarrow> P | Inr tree \<Rightarrow> opt_mset tree + P) s'" and "st_documents s' = st_documents s \<and> keeps P s s'"
    and "r = Inr tree \<Longrightarrow> parsed_from g source (tree_at tree s') \<and> validateSource source = None"
proof -
  show "store_inv g (case r of Inl e \<Rightarrow> P | Inr tree \<Rightarrow> opt_mset tree + P) s'" "st_documents s' = st_documents s \<and> keeps P s s'"
    "r = Inr tree \<Longrightarrow> parsed_from g source (tree_at tree s') \<and> validateSource source = None"
    using r inv checked_parse_inv [OF g inv, of source "wrapf ''parse saved document: %w'' []" r s']
    by (auto simp: save_parse_def split: if_splits option.splits)
qed

lemma open_commit_inv:
  assumes "store_inv g (opt_mset tree + P) s" and "parsed_from g source (tree_at tree s)" and "validateSource source = None"
  shows "store_inv g P (open_commit g uri filePath version source tree s)
    \<and> keeps P s (open_commit g uri filePath version source tree s)"
  using install_document [OF assms(1) _ _ refl, of "\<lparr>doc_filePath = filePath, doc_version = version, doc_source = source, doc_tree = tree,
             doc_syntax = store_syntax g (tree_at tree s) source, doc_calls = store_calls g (tree_at tree s) source\<rparr>" uri] assms(2,3)
  by (simp add: open_commit_def doc_ok_def Let_def)

lemma update_document_inv:
  assumes "store_inv g (opt_mset tree + P) s" and "parsed_from g source (tree_at tree s)" and "validateSource source = None"
    and "map_of (st_documents s) uri = Some current"
  shows "store_inv g P (update_document g uri current source version tree s)
    \<and> keeps P s (update_document g uri current source version tree s)"
  using install_document [OF assms(1) _ _ refl, of "current\<lparr>doc_version := version, doc_source := source, doc_tree := tree,
             doc_syntax := store_syntax g (tree_at tree s) source, doc_calls := store_calls g (tree_at tree s) source\<rparr>" uri] assms(2-4)
  by (simp add: update_document_def doc_ok_def Let_def)

lemma save_commit_inv:
  assumes "store_inv g (opt_mset tree + P) s" and "parsed_from g source (tree_at tree s)" and "validateSource source = None"
    and "save_commit g uri version source tree s = (r, s')"
  shows "store_inv g P s' \<and> keeps P s s'"
  using assms update_document_inv [OF assms(1-3)] store_inv_release [OF assms(1), of None]
  by (auto simp: save_commit_def Let_def split: option.splits if_splits)

lemma CloseDocument_inv:
  assumes inv: "store_inv g P s"
  shows "store_inv g P (CloseDocument uri s) \<and> keeps P s (CloseDocument uri s)"
proof -
  let ?s = "s\<lparr>st_documents := gomap_delete uri (st_documents s)\<rparr>"
  have ok: "gomap_ok (st_documents s)" using inv by (simp add: store_inv_def docs_ok_def)
  have "heap_ok ?s (doc_trees (st_documents ?s) + (tree_of (map_of (st_documents s) uri) + P))"
    using inv doc_trees_delete [OF ok, of uri] by (simp add: store_inv_def heap_ok_def) (metis add.assoc)
  moreover have "doc_ok g ?s d = doc_ok g s d" for d
    by (cases "doc_tree d") (simp_all add: doc_ok_def tree_at_def)
  then have "docs_ok g ?s"
    using inv set_gomap_delete [of uri "st_documents s"] gomap_ok_delete [OF ok]
    by (auto simp: store_inv_def docs_ok_def)
  ultimately have "store_inv g (tree_of (map_of (st_documents s) uri) + P) ?s" by (simp add: store_inv_def)
  then show ?thesis
    using store_inv_release [of g _ P ?s None] by (auto simp: CloseDocument_def Let_def split: option.splits)
qed

lemma CloseAll_inv:
  assumes inv: "store_inv g P s"
  shows "store_inv g P (CloseAll s) \<and> keeps P s (CloseAll s)"
proof -
  have "store_inv g P (fold (\<lambda>(uri, d). release_unless (doc_tree d) None) docs t)
      \<and> keeps P t (fold (\<lambda>(uri, d). release_unless (doc_tree d) None) docs t)"
    if "store_inv g (doc_trees docs + P) t" for docs t
    using that
  proof (induction docs arbitrary: t rule: doc_trees.induct)
    case (2 u d m)
    have "store_inv g (opt_mset (doc_tree d) + (doc_trees m + P)) t" using 2(2) by (simp add: ac_simps)
    from store_inv_release [OF this, of None]
    have step: "store_inv g (doc_trees m + P) (release_unless (doc_tree d) None t)"
      "keeps P t (release_unless (doc_tree d) None t)" by simp_all
    then show ?case using 2(1) [OF step(1)] by (auto intro: keeps_trans)
  qed simp
  moreover have "store_inv g (doc_trees (st_documents s) + P) (s\<lparr>st_documents := []\<rparr>)"
    using inv by (simp add: store_inv_def docs_ok_def heap_ok_def)
  ultimately have "store_inv g P (CloseAll s) \<and> keeps P (s\<lparr>st_documents := []\<rparr>) (CloseAll s)"
    unfolding CloseAll_def by blast
  then show ?thesis by simp
qed

text \<open>The part of \<open>Change\<close> after the edits: what it parses and how it ends.\<close>

definition reparse :: "'tree grammar \<Rightarrow> document \<Rightarrow> changeLoop \<Rightarrow> 'tree store \<Rightarrow> (nat option \<times> goerror option) \<times> 'tree store" where
  "reparse g current l s = (let (copied, s1) = copy_tree g (cl_incremental l) (doc_tree current) s;
      s2 = (case copied of None \<Rightarrow> s1 | Some p \<Rightarrow> edit_tree g p (cl_edits l) s1) in
    change_parse g (cl_source l) (copied \<noteq> None) copied s2)"

lemma reparse_inv:
  assumes g: "parser_contract g" and inv: "store_inv g P s" and r: "reparse g current l s = ((tree, err), s')"
  shows "store_inv g (opt_mset tree + P) s'" and "st_documents s' = st_documents s \<and> keeps P s s'"
    and "err \<noteq> None \<Longrightarrow> tree = None" and "err = None \<Longrightarrow> parsed_from g (cl_source l) (tree_at tree s')"
proof -
  let ?M = "doc_trees (st_documents s) + P"
  have h: "heap_ok s ?M" using inv by (simp add: store_inv_def)
  obtain copied s1 where c: "copy_tree g (cl_incremental l) (doc_tree current) s = (copied, s1)"
    by (cases "copy_tree g (cl_incremental l) (doc_tree current) s")
  define s2 where "s2 = (case copied of None \<Rightarrow> s1 | Some p \<Rightarrow> edit_tree g p (cl_edits l) s1)"
  note ok1 = copy_tree_ok [OF h c]
  have ok2: "heap_ok s2 (opt_mset copied + ?M)" "same ?M s1 s2"
    using ok1 edit_tree_ok [of s1 _ ?M] by (auto simp: s2_def split: option.splits)
  have p: "change_parse g (cl_source l) (copied \<noteq> None) copied s2 = ((tree, err), s')"
    using r c by (simp add: reparse_def s2_def)
  note ok3 = change_parse_ok [OF g ok2(1) p, unfolded parse_result_def]
  have "same ?M s s'" using ok1(2) ok2(2) ok3 by (auto simp: same_def)
  then have "same (doc_trees (st_documents s)) s s'" by (auto simp: same_def)
  then show "store_inv g (opt_mset tree + P) s'"
    using ok3 by (intro store_inv_frame [OF inv]) (simp_all add: ac_simps)
  show "st_documents s' = st_documents s \<and> keeps P s s'" using \<open>same ?M s s'\<close> by (simp add: same_def keeps_def)
  show "err \<noteq> None \<Longrightarrow> tree = None" "err = None \<Longrightarrow> parsed_from g (cl_source l) (tree_at tree s')" using ok3 by simp_all
qed

text \<open>How a change ends: refused before the parse, refused by the parser, or stored.\<close>

lemma ChangeDocument_cases:
  assumes "ChangeDocument g uri version changes s = (r, s')"
  obtains (refused) e where "r = Some e" "s' = s"
  | (unparsed) current l tree e where "map_of (st_documents s) uri = Some current"
      "reparse g current l s = ((tree, Some e), s')" "r = Some (wrapf ''parse changed document: %w'' [] e)"
  | (stored) current l tree s3 where "map_of (st_documents s) uri = Some current" "doc_version current < version"
      "fold_err apply_change changes \<lparr>cl_source = doc_source current, cl_incremental = start_incremental g current s, cl_edits = []\<rparr> = Inr l"
      "validateSource (cl_source l) = None" "reparse g current l s = ((tree, None), s3)" "r = None"
      "s' = update_document g uri current (cl_source l) version tree s3"
proof (cases "changes = []")
  case True
  then show thesis using assms refused by (auto simp: ChangeDocument_def)
next
  case changes: False
  show thesis
  proof (cases "map_of (st_documents s) uri")
    case None
    then show thesis using assms changes refused by (auto simp: ChangeDocument_def)
  next
    case current: (Some current)
    let ?l = "\<lparr>cl_source = doc_source current, cl_incremental = start_incremental g current s, cl_edits = []\<rparr>"
    show thesis
    proof (cases "version \<le> doc_version current")
      case True
      then show thesis using assms changes current refused by (auto simp: ChangeDocument_def)
    next
      case version: False
      show thesis
      proof (cases "fold_err apply_change changes ?l")
        case (Inl e)
        then show thesis using assms changes current version refused by (auto simp: ChangeDocument_def)
      next
        case (Inr l)
        show thesis
        proof (cases "validateSource (cl_source l)")
          case (Some e)
          then have "r = Some e \<and> s' = s" using assms changes current version Inr by (auto simp: ChangeDocument_def)
          then show thesis using refused by blast
        next
          case None
          obtain tree err s3 where p: "reparse g current l s = ((tree, err), s3)" by (metis prod.exhaust)
          have eq: "(r, s') = (case err of Some e \<Rightarrow> (Some (wrapf ''parse changed document: %w'' [] e), s3)
              | None \<Rightarrow> (None, update_document g uri current (cl_source l) version tree s3))"
            using assms changes current version Inr None p
            by (auto simp: ChangeDocument_def reparse_def Let_def split: prod.splits)
          show thesis
          proof (cases err)
            case None
            then show thesis using stored [OF current _ Inr \<open>validateSource (cl_source l) = None\<close>] p eq version by simp
          next
            case (Some e)
            then show thesis using unparsed [OF current] p eq by simp
          qed
        qed
      qed
    qed
  qed
qed

lemma ChangeDocument_inv:
  assumes g: "parser_contract g" and inv: "store_inv g P s" and r: "ChangeDocument g uri version changes s = (r, s')"
  shows "store_inv g P s' \<and> keeps P s s'"
  using r
proof (cases rule: ChangeDocument_cases)
  case refused
  then show ?thesis using inv by simp
next
  case unparsed
  then show ?thesis using reparse_inv [OF g inv unparsed(2)] by simp
next
  case (stored current l tree s3)
  note ok = reparse_inv [OF g inv stored(5)]
  have "store_inv g P s' \<and> keeps P s3 s'" unfolding stored(7)
    by (rule update_document_inv) (use ok stored in simp_all)
  then show ?thesis using ok(2) keeps_trans by blast
qed

section \<open>Interleaved operations\<close>

text \<open>
  The methods of several clients as atomic steps. A method that has parsed and not yet committed is
  pending; between its two steps any other step may run.
\<close>

datatype pending =
    PendOpen string string int string "nat option"
  | PendSaveRead string int string
  | PendSaveParsed string int string "nat option"

fun pending_tree :: "pending \<Rightarrow> nat option" where
  "pending_tree (PendOpen uri filePath version source tree) = tree"
| "pending_tree (PendSaveRead uri version source) = None"
| "pending_tree (PendSaveParsed uri version source tree) = tree"

fun pending_source :: "pending \<Rightarrow> string" where
  "pending_source (PendOpen uri filePath version source tree) = source"
| "pending_source (PendSaveRead uri version source) = source"
| "pending_source (PendSaveParsed uri version source tree) = source"

fun has_parsed :: "pending \<Rightarrow> bool" where
  "has_parsed (PendSaveRead uri version source) = False"
| "has_parsed p = True"

inductive store_step :: "'tree grammar \<Rightarrow> 'tree store \<times> pending multiset \<Rightarrow> 'tree store \<times> pending multiset \<Rightarrow> bool"
  for g where
  open_begin: "open_parse g uri source s = (Inr tree, s') \<Longrightarrow>
     store_step g (s, ps) (s', add_mset (PendOpen uri filePath version source tree) ps)"
| open_fails: "open_parse g uri source s = (Inl e, s') \<Longrightarrow> store_step g (s, ps) (s', ps)"
| open_end: "store_step g (s, add_mset (PendOpen uri filePath version source tree) ps)
     (open_commit g uri filePath version source tree s, ps)"
| change: "ChangeDocument g uri version changes s = (r, s') \<Longrightarrow> store_step g (s, ps) (s', ps)"
| close: "store_step g (s, ps) (CloseDocument uri s, ps)"
| close_all: "store_step g (s, ps) (CloseAll s, ps)"
| save_begin: "save_version s uri = Inr version \<Longrightarrow>
     store_step g (s, ps) (s, add_mset (PendSaveRead uri version source) ps)"
| save_parsed: "save_parse g source s = (Inr tree, s') \<Longrightarrow>
     store_step g (s, add_mset (PendSaveRead uri version source) ps) (s', add_mset (PendSaveParsed uri version source tree) ps)"
| save_fails: "save_parse g source s = (Inl e, s') \<Longrightarrow>
     store_step g (s, add_mset (PendSaveRead uri version source) ps) (s', ps)"
| save_end: "save_commit g uri version source tree s = (r, s') \<Longrightarrow>
     store_step g (s, add_mset (PendSaveParsed uri version source tree) ps) (s', ps)"

definition pending_trees :: "pending multiset \<Rightarrow> nat multiset" where
  "pending_trees ps = (\<Sum>p \<in># ps. opt_mset (pending_tree p))"

definition pending_ok :: "'tree grammar \<Rightarrow> 'tree store \<Rightarrow> pending \<Rightarrow> bool" where
  "pending_ok g s p \<longleftrightarrow> has_parsed p \<longrightarrow>
     validateSource (pending_source p) = None \<and> parsed_from g (pending_source p) (tree_at (pending_tree p) s)"

definition system_inv :: "'tree grammar \<Rightarrow> 'tree store \<times> pending multiset \<Rightarrow> bool" where
  "system_inv g S \<longleftrightarrow> store_inv g (pending_trees (snd S)) (fst S) \<and> (\<forall>p \<in># snd S. pending_ok g (fst S) p)"

lemma pending_trees_simps [simp]:
  "pending_trees {#} = {#}" "pending_trees (add_mset p ps) = opt_mset (pending_tree p) + pending_trees ps"
  by (simp_all add: pending_trees_def)

lemma pending_ok_keeps:
  assumes "pending_ok g s p" and "keeps (opt_mset (pending_tree p)) s s'"
  shows "pending_ok g s' p"
proof -
  have "tree_at (pending_tree p) s' = tree_at (pending_tree p) s"
    using assms(2) by (cases "pending_tree p") (simp_all add: keeps_def tree_at_def)
  then show ?thesis using assms(1) by (simp add: pending_ok_def)
qed

lemma all_pending_keeps:
  assumes "\<forall>p \<in># ps. pending_ok g s p" and "keeps (pending_trees ps) s s'"
  shows "\<forall>p \<in># ps. pending_ok g s' p"
proof
  fix p assume p: "p \<in># ps"
  from multi_member_split [OF p] obtain qs where "ps = add_mset p qs" ..
  then have "keeps (opt_mset (pending_tree p)) s s'" using assms(2) by simp
  then show "pending_ok g s' p" by (rule pending_ok_keeps [OF bspec [OF assms(1) p]])
qed

lemma system_inv_step:
  assumes g: "parser_contract g" and step: "store_step g S T" and inv: "system_inv g S"
  shows "system_inv g T"
  using step inv
proof (cases rule: store_step.cases)
  case (open_begin uri source s tree s' ps filePath version)
  have "store_inv g (pending_trees ps) s" using inv open_begin by (simp add: system_inv_def)
  note ok = open_parse_inv [OF g this open_begin(3)]
  show ?thesis using inv ok all_pending_keeps [of ps g s s'] open_begin
    by (simp add: system_inv_def pending_ok_def)
next
  case (open_fails uri source s e s' ps)
  have "store_inv g (pending_trees ps) s" using inv open_fails by (simp add: system_inv_def)
  note ok = open_parse_inv [OF g this open_fails(3)]
  show ?thesis using inv ok all_pending_keeps [of ps g s s'] open_fails by (simp add: system_inv_def)
next
  case (open_end s uri filePath version source tree ps)
  have "store_inv g (opt_mset tree + pending_trees ps) s" "parsed_from g source (tree_at tree s)" "validateSource source = None"
    using inv open_end by (simp_all add: system_inv_def pending_ok_def)
  from open_commit_inv [OF this] show ?thesis
    using inv all_pending_keeps [of ps g s] open_end by (simp add: system_inv_def)
next
  case (change uri version changes s r s' ps)
  have "store_inv g (pending_trees ps) s" using inv change by (simp add: system_inv_def)
  note ok = ChangeDocument_inv [OF g this change(3)]
  show ?thesis using inv ok all_pending_keeps [of ps g s s'] change by (simp add: system_inv_def)
next
  case (close s ps uri)
  have "store_inv g (pending_trees ps) s" using inv close by (simp add: system_inv_def)
  from CloseDocument_inv [OF this] show ?thesis
    using inv all_pending_keeps [of ps g s] close by (simp add: system_inv_def)
next
  case (close_all s ps)
  have "store_inv g (pending_trees ps) s" using inv close_all by (simp add: system_inv_def)
  from CloseAll_inv [OF this] show ?thesis
    using inv all_pending_keeps [of ps g s] close_all by (simp add: system_inv_def)
next
  case (save_begin s uri version ps source)
  then show ?thesis using inv by (simp add: system_inv_def pending_ok_def)
next
  case (save_parsed source s tree s' uri version ps)
  have "store_inv g (pending_trees ps) s" using inv save_parsed by (simp add: system_inv_def)
  note ok = save_parse_inv [OF g this save_parsed(3)]
  show ?thesis using inv ok all_pending_keeps [of ps g s s'] save_parsed
    by (simp add: system_inv_def pending_ok_def)
next
  case (save_fails source s e s' uri version ps)
  have "store_inv g (pending_trees ps) s" using inv save_fails by (simp add: system_inv_def)
  note ok = save_parse_inv [OF g this save_fails(3)]
  show ?thesis using inv ok all_pending_keeps [of ps g s s'] save_fails by (simp add: system_inv_def)
next
  case (save_end uri version source tree s r s' ps)
  have "store_inv g (opt_mset tree + pending_trees ps) s" "parsed_from g source (tree_at tree s)" "validateSource source = None"
    using inv save_end by (simp_all add: system_inv_def pending_ok_def)
  from save_commit_inv [OF this save_end(3)] show ?thesis
    using inv all_pending_keeps [of ps g s s'] save_end by (simp add: system_inv_def)
qed

inductive store_reachable :: "'tree grammar \<Rightarrow> 'tree store \<times> pending multiset \<Rightarrow> bool" for g where
  initial: "store_reachable g (NewStore, {#})"
| step: "store_reachable g S \<Longrightarrow> store_step g S T \<Longrightarrow> store_reachable g T"

lemma reachable_inv:
  assumes g: "parser_contract g" and "store_reachable g S"
  shows "system_inv g S"
  using assms(2)
proof (induction rule: store_reachable.induct)
  case initial
  then show ?case by (simp add: system_inv_def store_inv_def docs_ok_def heap_ok_def NewStore_def)
next
  case (step S T)
  then show ?case using system_inv_step [OF g] by blast
qed

section \<open>What the operations do to the documents\<close>

lemma parse_documents: "parse g source old s = (r, s') \<Longrightarrow> st_documents s' = st_documents s"
  by (auto simp: parse_def alloc_def split: parsed.splits prod.splits)

lemma release_documents [simp]: "st_documents (Release p s) = st_documents s"
  "st_documents (release_unless old tree s) = st_documents s"
  by (simp_all add: Release_def release_unless_def split: option.splits)

lemma reparse_documents:
  assumes "reparse g current l s = (r, s')"
  shows "st_documents s' = st_documents s"
  using assms
  by (auto simp: reparse_def copy_tree_def alloc_def edit_tree_def change_parse_def parse_incremental_def
      split: prod.splits option.splits if_splits dest!: parse_documents)

text \<open>The source, version and file path of a document: what the client of the store observes.\<close>

definition observed :: "'tree store \<Rightarrow> string \<Rightarrow> (string \<times> int \<times> string) option" where
  "observed s uri = map_option (\<lambda>d. (doc_filePath d, doc_version d, doc_source d)) (map_of (st_documents s) uri)"

lemma observed_cong: "st_documents s' = st_documents s \<Longrightarrow> observed s' = observed s"
  by (simp add: observed_def fun_eq_iff)

lemma observed_update:
  "map_of (st_documents s) uri = Some current \<Longrightarrow>
   observed (update_document g uri current source version tree s) = (observed s)(uri \<mapsto> (doc_filePath current, version, source))"
  by (auto simp: observed_def update_document_def Let_def fun_eq_iff)

lemma observed_open:
  "observed (open_commit g uri filePath version source tree s) = (observed s)(uri \<mapsto> (filePath, version, source))"
  by (auto simp: observed_def open_commit_def Let_def fun_eq_iff split: option.splits)

lemma map_of_gomap_delete: "map_of (gomap_delete u m) = (map_of m)(u := None)"
  by (induction m) (auto simp: gomap_delete_def fun_eq_iff)

lemma observed_close: "observed (CloseDocument uri s) = (observed s)(uri := None)"
  by (auto simp: observed_def CloseDocument_def Let_def fun_eq_iff map_of_gomap_delete split: option.splits)

lemma release_all_documents:
  "st_documents (fold (\<lambda>(uri, d). release_unless (doc_tree d) None) docs t) = st_documents t"
  by (induction docs arbitrary: t) auto

lemma observed_close_all: "observed (CloseAll s) = Map.empty"
  by (simp add: observed_def CloseAll_def fun_eq_iff release_all_documents)

end
