(* ===== verification/Document_Changes.thy ===== *)
theory Document_Changes
  imports Document_Store_Facts
begin

text \<open>
  The abstract specification of text synchronisation and the proof that the store implements it: an
  edit replaces the text between two positions, a change is a run of edits, and neither trees nor
  incremental parsing show.
\<close>

section \<open>The specification\<close>

text \<open>Offset \<open>off\<close> is where position \<open>pos\<close> of the text is.\<close>

definition is_at :: "string \<Rightarrow> DocPosition \<Rightarrow> nat \<Rightarrow> bool" where
  "is_at content pos off \<longleftrightarrow> PositionAt content (int off) = Some pos \<and> \<not> inside_crlf content off"

definition edit_spec :: "string \<Rightarrow> Change \<Rightarrow> string \<Rightarrow> bool" where
  "edit_spec content change content' = (case ch_Range change of
     None \<Rightarrow> content' = ch_Text change
   | Some rg \<Rightarrow> (\<exists>a b. is_at content (rng_Start rg) a \<and> is_at content (rng_End rg) b \<and> a \<le> b \<and>
       content' = take a content @ ch_Text change @ drop b content \<and> length content' \<le> MaxDocumentSize))"

fun edits_spec :: "string \<Rightarrow> Change list \<Rightarrow> string \<Rightarrow> bool" where
  "edits_spec content [] content' = (content' = content \<and> length content \<le> MaxDocumentSize)"
| "edits_spec content (change # changes) content' =
     (\<exists>middle. edit_spec content change middle \<and> edits_spec middle changes content')"

section \<open>Edits keep a text valid\<close>

lemma is_at_boundary: "is_at content pos off \<Longrightarrow> boundary content off"
  using PositionAt_boundary [of content "int off" pos] by (simp add: is_at_def)

lemma ByteOffset_is_at:
  "Valid content \<Longrightarrow> length content < 2 ^ 32 \<Longrightarrow> ByteOffset content pos = Some off \<longleftrightarrow> is_at content pos off"
  unfolding is_at_def by (rule ByteOffset_iff)

lemma splice_valid:
  "Valid content \<Longrightarrow> boundary content a \<Longrightarrow> boundary content b \<Longrightarrow> Valid new \<Longrightarrow> Valid (splice content a b new)"
  using Valid_boundary [of content a] Valid_boundary [of content b] by (simp add: splice_def Valid_append)

lemma validateSource_None: "validateSource source = None \<longleftrightarrow> length source \<le> MaxDocumentSize \<and> Valid source"
  by (auto simp: validateSource_def MaxDocumentSize_def)

lemma edit_spec_valid:
  assumes "Valid content" and "edit_spec content change content'" and "Valid (ch_Text change)"
    and "length (ch_Text change) < 2 ^ 32"
  shows "Valid content'" and "length content' < 2 ^ 32"
  using assms splice_valid [of content _ _ "ch_Text change"] is_at_boundary
  by (auto simp: edit_spec_def splice_def MaxDocumentSize_def split: option.splits)

text \<open>One edit of the code, which fails only where the specification has no result.\<close>

lemma apply_change_spec:
  assumes v: "Valid (cl_source l)" "length (cl_source l) < 2 ^ 32" and t: "Valid (ch_Text change)"
  shows "(\<exists>l'. apply_change change l = Inr l' \<and> cl_source l' = content') \<longleftrightarrow> edit_spec (cl_source l) change content'"
proof (cases "ch_Range change")
  case None
  then show ?thesis by (auto simp: apply_change_def edit_spec_def)
next
  case (Some rg)
  note at = ByteOffset_is_at [OF v]
  show ?thesis
  proof (cases "ByteOffset (cl_source l) (rng_Start rg)")
    case None
    then have "\<not> is_at (cl_source l) (rng_Start rg) a" for a using at [of "rng_Start rg" a] by simp
    then show ?thesis using None Some by (simp add: apply_change_def edit_spec_def)
  next
    case a: (Some a)
    show ?thesis
    proof (cases "ByteOffset (cl_source l) (rng_End rg)")
      case None
      then have "\<not> is_at (cl_source l) (rng_End rg) b" for b using at [of "rng_End rg" b] by simp
      then show ?thesis using None a Some by (simp add: apply_change_def edit_spec_def)
    next
      case b: (Some b)
      have ab: "is_at (cl_source l) (rng_Start rg) i \<longleftrightarrow> i = a" "is_at (cl_source l) (rng_End rg) i \<longleftrightarrow> i = b" for i
        using at [of "rng_Start rg" i] at [of "rng_End rg" i] a b by auto
      have bounds: "boundary (cl_source l) a" "boundary (cl_source l) b"
        using ab is_at_boundary by blast+
      have "edit_spec (cl_source l) change content' \<longleftrightarrow> a \<le> b \<and>
          content' = splice (cl_source l) a b (ch_Text change) \<and> length content' \<le> MaxDocumentSize"
        using Some ab by (simp add: edit_spec_def splice_def)
      moreover have "(\<exists>l'. apply_change change l = Inr l' \<and> cl_source l' = content') \<longleftrightarrow> a \<le> b \<and>
          content' = splice (cl_source l) a b (ch_Text change) \<and> length content' \<le> MaxDocumentSize"
        using Some a b t validateSource_None [of "splice (cl_source l) a b (ch_Text change)"]
          splice_valid [OF v(1) bounds t]
        by (auto simp: apply_change_def Let_def split: option.splits)
      ultimately show ?thesis by simp
    qed
  qed
qed

definition good_texts :: "Change list \<Rightarrow> bool" where
  "good_texts changes \<longleftrightarrow> (\<forall>c \<in> set changes. Valid (ch_Text c) \<and> length (ch_Text c) < 2 ^ 32)"

lemma apply_changes_spec:
  assumes "Valid (cl_source l)" "length (cl_source l) < 2 ^ 32" and "good_texts changes"
  shows "(\<exists>l'. fold_err apply_change changes l = Inr l' \<and> cl_source l' = content' \<and> validateSource content' = None) \<longleftrightarrow>
    edits_spec (cl_source l) changes content'"
  using assms
proof (induction changes arbitrary: l)
  case Nil
  then show ?case by (auto simp: validateSource_None)
next
  case (Cons c changes)
  have c: "Valid (ch_Text c)" "length (ch_Text c) < 2 ^ 32" and rest: "good_texts changes"
    using Cons.prems(3) by (simp_all add: good_texts_def)
  note spec = apply_change_spec [OF Cons.prems(1,2) c(1)]
  have next_ok: "Valid (cl_source l')" "length (cl_source l') < 2 ^ 32" if "apply_change c l = Inr l'" for l'
  proof -
    have "edit_spec (cl_source l) c (cl_source l')" using spec that by blast
    from edit_spec_valid [OF Cons.prems(1) this c] show "Valid (cl_source l')" "length (cl_source l') < 2 ^ 32" .
  qed
  show ?case
  proof (cases "apply_change c l")
    case (Inl e)
    then have "\<not> edit_spec (cl_source l) c m" for m using spec [of m] by simp
    then show ?thesis using Inl by simp
  next
    case (Inr l1)
    have "edit_spec (cl_source l) c m \<longleftrightarrow> m = cl_source l1" for m using spec [of m] Inr by auto
    then show ?thesis using Inr Cons.IH [OF next_ok [OF Inr] rest] by simp
  qed
qed

section \<open>The store implements it\<close>

definition parser_total :: "'tree grammar \<Rightarrow> bool" where
  "parser_total g \<longleftrightarrow> (\<forall>source old. snd (g_parse g source old) = None)"

lemma parse_total:
  assumes "parser_total g"
  shows "snd (fst (parse g source old s)) = None"
proof -
  obtain result where "g_parse g source (tree_at old s) = (result, None)"
    using assms unfolding parser_total_def by (metis prod.collapse)
  then show ?thesis by (simp add: parse_def alloc_def split: parsed.split)
qed

lemma parse_incremental_total:
  assumes "parser_total g"
  shows "fst (snd (fst (parse_incremental g source copied s))) = None"
proof -
  obtain tree s1 where "parse g source copied s = ((tree, None), s1)"
    using parse_total [OF assms, of source copied s] by (metis prod.collapse)
  then show ?thesis by (auto simp: parse_incremental_def split: option.splits)
qed

lemma reparse_total:
  assumes g: "parser_total g" and r: "reparse g current l s = ((tree, err), s')"
  shows "err = None"
proof -
  have "snd (fst (change_parse g source incremental copied t)) = None" for source incremental copied t
  proof -
    obtain tree1 still s1 where p: "(if incremental then parse_incremental g source copied t
        else ((None, None, False), t)) = ((tree1, None, still), s1)"
      using parse_incremental_total [OF g, of source copied t] by (metis prod.collapse)
    show ?thesis using parse_total [OF g, of source None s1]
      by (cases "parse g source None s1") (auto simp: change_parse_def p)
  qed
  then show ?thesis using r by (auto simp: reparse_def split: prod.splits) (metis fst_conv snd_conv)+
qed

lemma docs_ok_source: "docs_ok g s \<Longrightarrow> map_of (st_documents s) uri = Some d \<Longrightarrow> validateSource (doc_source d) = None"
  by (auto simp: docs_ok_def doc_ok_def dest!: map_of_SomeD)

lemma ChangeDocument_stored_spec:
  assumes s: "docs_ok g s" and texts: "good_texts changes"
    and r: "ChangeDocument g uri version changes s = (None, s')"
  shows "\<exists>filePath v content content'. observed s uri = Some (filePath, v, content) \<and> v < version \<and>
    edits_spec content changes content' \<and> observed s' = (observed s)(uri \<mapsto> (filePath, version, content'))"
  using r
proof (cases rule: ChangeDocument_cases)
  case (stored current l tree s3)
  have src: "Valid (doc_source current)" "length (doc_source current) < 2 ^ 32"
    using docs_ok_source [OF s stored(1)] by (simp_all add: validateSource_None MaxDocumentSize_def)
  have "edits_spec (doc_source current) changes (cl_source l)"
    using apply_changes_spec [of "\<lparr>cl_source = doc_source current, cl_incremental = start_incremental g current s, cl_edits = []\<rparr>"
        changes "cl_source l"] src texts stored(3,4) by auto
  moreover have docs: "st_documents s3 = st_documents s" using reparse_documents [OF stored(5)] .
  then have "observed s' = (observed s)(uri \<mapsto> (doc_filePath current, version, cl_source l))"
    using observed_update [of s3 uri current] observed_cong [OF docs] stored(1,7) by simp
  ultimately show ?thesis using stored(1,2) by (auto simp: observed_def)
qed simp_all

lemma ChangeDocument_succeeds:
  assumes s: "docs_ok g s" and texts: "good_texts changes" and total: "parser_total g"
    and u: "observed s uri = Some (filePath, v, content)" and "v < version" and "changes \<noteq> []"
    and spec: "edits_spec content changes content'"
  shows "\<exists>s'. ChangeDocument g uri version changes s = (None, s')"
proof -
  obtain current where current: "map_of (st_documents s) uri = Some current" "doc_version current = v" "doc_source current = content"
    using u by (auto simp: observed_def)
  let ?l = "\<lparr>cl_source = doc_source current, cl_incremental = start_incremental g current s, cl_edits = []\<rparr>"
  have src: "Valid (cl_source ?l)" "length (cl_source ?l) < 2 ^ 32"
    using docs_ok_source [OF s current(1)] by (simp_all add: validateSource_None MaxDocumentSize_def)
  have "edits_spec (cl_source ?l) changes content'" using spec current(3) by simp
  then obtain l where l: "fold_err apply_change changes ?l = Inr l" "cl_source l = content'" "validateSource content' = None"
    using apply_changes_spec [OF src texts] by auto
  obtain tree err s3 where p: "reparse g current l s = ((tree, err), s3)" by (metis prod.exhaust)
  have "err = None" using reparse_total [OF total p] .
  then have "ChangeDocument g uri version changes s = (None, update_document g uri current (cl_source l) version tree s3)"
    using assms(5,6) current l p
    by (auto simp: ChangeDocument_def reparse_def Let_def split: prod.splits)
  then show ?thesis by blast
qed

lemma ChangeDocument_error_keeps: "ChangeDocument g uri version changes s = (Some e, s') \<Longrightarrow> st_documents s' = st_documents s"
  by (erule ChangeDocument_cases) (auto dest: reparse_documents)

end
