(* ===== verification/Document_Sync.thy ===== *)
theory Document_Sync
  imports Document_Changes
begin

text \<open>
  The document notifications of an editor against any store of texts, and the store of the code as
  such a store. The contract is a locale: what a client may observe of a store, how every
  notification moves it, and that an error moves nothing.
\<close>

section \<open>The contract\<close>

type_synonym docview = "string \<Rightarrow> (string \<times> int \<times> string) option"

datatype notification =
    DidOpen string string int string
  | DidChange string int "Change list"
  | DidClose string
  | DidSave string "string option"

fun good_notification :: "notification \<Rightarrow> bool" where
  "good_notification (DidChange uri version changes) = good_texts changes"
| "good_notification n = True"

text \<open>What a notification that succeeds does to the texts.\<close>

fun notify_spec :: "notification \<Rightarrow> docview \<Rightarrow> docview \<Rightarrow> bool" where
  "notify_spec (DidOpen uri filePath version content) v v' =
     (uri \<noteq> [] \<and> validateSource content = None \<and> v' = v(uri \<mapsto> (filePath, version, content)))"
| "notify_spec (DidChange uri version changes) v v' =
     (\<exists>filePath old content content'. v uri = Some (filePath, old, content) \<and> old < version \<and>
        edits_spec content changes content' \<and> v' = v(uri \<mapsto> (filePath, version, content')))"
| "notify_spec (DidClose uri) v v' = (v' = v(uri := None))"
| "notify_spec (DidSave uri None) v v' = (v uri \<noteq> None \<and> v' = v)"
| "notify_spec (DidSave uri (Some content)) v v' =
     (\<exists>filePath version old. v uri = Some (filePath, version, old) \<and> validateSource content = None \<and>
        v' = v(uri \<mapsto> (filePath, version, content)))"

inductive run_spec :: "notification list \<Rightarrow> docview \<Rightarrow> goerror option list \<Rightarrow> docview \<Rightarrow> bool" where
  done_spec: "run_spec [] v [] v"
| accepted: "notify_spec n v v' \<Longrightarrow> run_spec ns v' es w \<Longrightarrow> run_spec (n # ns) v (None # es) w"
| rejected: "run_spec ns v es w \<Longrightarrow> run_spec (n # ns) v (Some e # es) w"

inductive_cases run_spec_ConsE: "run_spec (n # ns) v es w"

definition valid_view :: "docview \<Rightarrow> bool" where
  "valid_view v \<longleftrightarrow> (\<forall>uri filePath version content. v uri = Some (filePath, version, content) \<longrightarrow> validateSource content = None)"

locale text_store =
  fixes view :: "'s \<Rightarrow> docview"
    and ok :: "'s \<Rightarrow> bool"
    and notify :: "notification \<Rightarrow> 's \<Rightarrow> goerror option \<times> 's"
  assumes accepts: "ok s \<Longrightarrow> good_notification n \<Longrightarrow> notify n s = (None, s') \<Longrightarrow> ok s' \<and> notify_spec n (view s) (view s')"
    and rejects: "ok s \<Longrightarrow> good_notification n \<Longrightarrow> notify n s = (Some e, s') \<Longrightarrow> ok s' \<and> view s' = view s"
    and valid: "ok s \<Longrightarrow> valid_view (view s)"
begin

fun run :: "notification list \<Rightarrow> 's \<Rightarrow> goerror option list \<times> 's" where
  "run [] s = ([], s)"
| "run (n # ns) s = (let (e, s') = notify n s; (es, s'') = run ns s' in (e # es, s''))"

lemma run_refines:
  assumes "ok s" and "\<forall>n \<in> set ns. good_notification n" and "run ns s = (es, s')"
  shows "ok s' \<and> run_spec ns (view s) es (view s')"
  using assms
proof (induction ns arbitrary: s es)
  case Nil
  then show ?case by (simp add: done_spec)
next
  case (Cons n ns)
  obtain e s1 where n: "notify n s = (e, s1)" by (cases "notify n s")
  obtain es1 where es: "run ns s1 = (es1, s')" "es = e # es1"
    using Cons.prems(3) n by (auto split: prod.splits)
  show ?case
  proof (cases e)
    case None
    then have *: "ok s1" "notify_spec n (view s) (view s1)" using accepts [of s n s1] Cons.prems(1,2) n by auto
    show ?thesis using Cons.IH [OF *(1) _ es(1)] Cons.prems(2) * es(2) None by (auto intro: accepted)
  next
    case (Some x)
    then have *: "ok s1" "view s1 = view s" using rejects [of s n x s1] Cons.prems(1,2) n by auto
    show ?thesis using Cons.IH [OF *(1) _ es(1)] Cons.prems(2) * es(2) Some by (auto intro: rejected)
  qed
qed

lemma run_valid:
  assumes "ok s" and "\<forall>n \<in> set ns. good_notification n" and "run ns s = (es, s')"
  shows "valid_view (view s')"
  using run_refines [OF assms] valid by blast

end

section \<open>The store of the code\<close>

fun store_notify :: "'tree grammar \<Rightarrow> notification \<Rightarrow> 'tree store \<Rightarrow> goerror option \<times> 'tree store" where
  "store_notify g (DidOpen uri filePath version content) s = OpenFile g uri filePath version content s"
| "store_notify g (DidChange uri version changes) s = ChangeDocument g uri version changes s"
| "store_notify g (DidClose uri) s = (None, CloseDocument uri s)"
| "store_notify g (DidSave uri content) s = Save g uri content s"

definition idle_store :: "'tree grammar \<Rightarrow> 'tree store \<Rightarrow> bool" where
  "idle_store g s \<longleftrightarrow> parser_contract g \<and> store_inv g {#} s"

lemma open_parse_facts:
  "open_parse g uri source s = (r, s') \<Longrightarrow> st_documents s' = st_documents s \<and> (\<forall>tree. r = Inr tree \<longrightarrow> uri \<noteq> [])"
  by (auto simp: open_parse_def split: if_splits option.splits prod.splits dest: parse_documents)

lemma OpenFile_idle:
  assumes s: "idle_store g s" and r: "OpenFile g uri filePath version source s = (e, s')"
  shows "idle_store g s'" and "e = None \<Longrightarrow> notify_spec (DidOpen uri filePath version source) (observed s) (observed s')"
    and "e \<noteq> None \<Longrightarrow> observed s' = observed s"
proof -
  have g: "parser_contract g" and inv: "store_inv g {#} s" using s by (simp_all add: idle_store_def)
  obtain q s1 where p: "open_parse g uri source s = (q, s1)" by (cases "open_parse g uri source s")
  note ok = open_parse_inv [OF g inv p] and facts = open_parse_facts [OF p]
  have "idle_store g s' \<and> (e = None \<longrightarrow> notify_spec (DidOpen uri filePath version source) (observed s) (observed s'))
      \<and> (e \<noteq> None \<longrightarrow> observed s' = observed s)"
  proof (cases q)
    case (Inl x)
    then show ?thesis using r p ok g facts observed_cong [of s1 s] by (auto simp: OpenFile_def idle_store_def)
  next
    case (Inr tree)
    then have "store_inv g (opt_mset tree + {#}) s1" using ok by simp
    from open_commit_inv [OF this] have "store_inv g {#} s'" using r p ok Inr by (auto simp: OpenFile_def)
    then show ?thesis using r p ok g facts observed_cong [of s1 s] Inr
      by (auto simp: OpenFile_def idle_store_def observed_open)
  qed
  then show "idle_store g s'" "e = None \<Longrightarrow> notify_spec (DidOpen uri filePath version source) (observed s) (observed s')"
    "e \<noteq> None \<Longrightarrow> observed s' = observed s" by simp_all
qed

lemma save_commit_observed:
  assumes "save_commit g uri version source tree s = (e, s')"
  shows "e = None \<Longrightarrow> \<exists>filePath old. observed s uri = Some (filePath, version, old) \<and>
      observed s' = (observed s)(uri \<mapsto> (filePath, version, source))"
    and "e \<noteq> None \<Longrightarrow> observed s' = observed s"
  using assms observed_cong [of "release_unless tree None s" s]
  by (auto simp: save_commit_def observed_def observed_update Let_def split: option.splits if_splits)

lemma Save_idle:
  assumes s: "idle_store g s" and r: "Save g uri content s = (e, s')"
  shows "idle_store g s'" and "e = None \<Longrightarrow> notify_spec (DidSave uri content) (observed s) (observed s')"
    and "e \<noteq> None \<Longrightarrow> observed s' = observed s"
proof -
  have g: "parser_contract g" and inv: "store_inv g {#} s" using s by (simp_all add: idle_store_def)
  have "idle_store g s' \<and> (e = None \<longrightarrow> notify_spec (DidSave uri content) (observed s) (observed s'))
      \<and> (e \<noteq> None \<longrightarrow> observed s' = observed s)"
  proof (cases content)
    case None
    then show ?thesis using r s by (auto simp: Save_def SnapshotDocument_def observed_def split: if_splits)
  next
    case (Some source)
    show ?thesis
    proof (cases "map_of (st_documents s) uri")
      case None
      then show ?thesis using r s Some by (auto simp: Save_def save_version_def)
    next
      case (Some d)
      have r: "saveText g uri (doc_version d) source s = (e, s')"
        using r Some \<open>content = Some source\<close> by (simp add: Save_def save_version_def)
      obtain q s1 where p: "save_parse g source s = (q, s1)" by (cases "save_parse g source s")
      note ok = save_parse_inv [OF g inv p]
      have view: "observed s1 = observed s" by (rule observed_cong [OF conjunct1 [OF ok(2)]])
      show ?thesis
      proof (cases q)
        case (Inl x)
        then show ?thesis using r p ok g view by (auto simp: saveText_def idle_store_def)
      next
        case (Inr tree)
        then have c: "save_commit g uri (doc_version d) source tree s1 = (e, s')" using r p by (simp add: saveText_def)
        have "store_inv g (opt_mset tree + {#}) s1" using ok Inr by simp
        from save_commit_inv [OF this _ _ c] have "store_inv g {#} s'" using ok Inr by simp
        then show ?thesis using save_commit_observed [OF c] ok Inr g view \<open>content = Some source\<close>
          by (auto simp: idle_store_def)
      qed
    qed
  qed
  then show "idle_store g s'" "e = None \<Longrightarrow> notify_spec (DidSave uri content) (observed s) (observed s')"
    "e \<noteq> None \<Longrightarrow> observed s' = observed s" by simp_all
qed

lemma ChangeDocument_idle:
  assumes s: "idle_store g s" and n: "good_texts changes" and r: "ChangeDocument g uri version changes s = (e, s')"
  shows "idle_store g s'" and "e = None \<Longrightarrow> notify_spec (DidChange uri version changes) (observed s) (observed s')"
    and "e \<noteq> None \<Longrightarrow> observed s' = observed s"
proof -
  have g: "parser_contract g" and inv: "store_inv g {#} s" using s by (simp_all add: idle_store_def)
  show "idle_store g s'" using ChangeDocument_inv [OF g inv r] g by (simp add: idle_store_def)
  show "e = None \<Longrightarrow> notify_spec (DidChange uri version changes) (observed s) (observed s')"
    using ChangeDocument_stored_spec [of g s changes uri version s'] inv n r by (simp add: store_inv_def)
  show "e \<noteq> None \<Longrightarrow> observed s' = observed s"
    using ChangeDocument_error_keeps r observed_cong by blast
qed

lemma idle_valid_view: "idle_store g s \<Longrightarrow> valid_view (observed s)"
  by (auto simp: valid_view_def observed_def idle_store_def store_inv_def dest: docs_ok_source)

lemma store_notify_idle:
  assumes s: "idle_store g s" and n: "good_notification n" and r: "store_notify g n s = (e, s')"
  shows "idle_store g s' \<and> (e = None \<longrightarrow> notify_spec n (observed s) (observed s')) \<and>
    (e \<noteq> None \<longrightarrow> observed s' = observed s)"
proof (cases n)
  case (DidOpen uri filePath version content)
  then show ?thesis using r OpenFile_idle [OF s, of uri filePath version content e s'] by simp
next
  case (DidChange uri version changes)
  then show ?thesis using r n ChangeDocument_idle [OF s, of changes uri version e s'] by simp
next
  case (DidClose uri)
  moreover have "idle_store g (CloseDocument uri s)"
    using s CloseDocument_inv [of g "{#}" s uri] by (simp add: idle_store_def)
  ultimately show ?thesis using r by (auto simp: observed_close)
next
  case (DidSave uri content)
  then show ?thesis using r Save_idle [OF s, of uri content e s'] by simp
qed

interpretation docs: text_store observed "idle_store g" "store_notify g" for g
  by unfold_locales (use store_notify_idle idle_valid_view in blast)+

end
