(* ===== verification/Document_Properties.thy ===== *)
theory Document_Properties
  imports Document_Sync
begin

text \<open>The properties of positions and of the document store, each with a witness.\<close>

section \<open>Sample inputs\<close>

definition sample_text :: string where
  "sample_text = [CHR ''a'', CHR 0x0D, CHR 0x0A, CHR 0xC3, CHR 0xA9, CHR ''b'']"

text \<open>A library whose tree is the source it was parsed from; a tree it is given it returns.\<close>

definition sample_grammar :: "string grammar" where
  "sample_grammar = \<lparr>g_parse = (\<lambda>source old. (case old of None \<Rightarrow> NewTree source | Some t \<Rightarrow> OldTree, None)), g_root_error = (\<lambda>t. Some False),
     g_copy = (\<lambda>t. Some t), g_edit = (\<lambda>e t. t),
     g_captures = (\<lambda>t source. \<lparr>scope_captures = [], guarded_captures = [], statement_captures = []\<rparr>),
     g_calls = (\<lambda>t source. []), g_wide = (\<lambda>r. False), g_annotated = (\<lambda>t. False)\<rparr>"

definition sample_change :: Change where
  "sample_change = \<lparr>ch_Range = Some \<lparr>rng_Start = \<lparr>dp_Line = 0, dp_Character = 1\<rparr>, rng_End = \<lparr>dp_Line = 0, dp_Character = 2\<rparr>\<rparr>,
     ch_Text = ''cd''\<rparr>"

definition sample_notifications :: "notification list" where
  "sample_notifications = [DidOpen ''u'' ''f'' 1 ''ab'', DidChange ''u'' 2 [sample_change], DidClose ''v'']"

lemma sample_contract: "parser_contract sample_grammar"
  by (simp add: parser_contract_def sample_grammar_def split: option.split)

lemma sample_text_valid: "Valid sample_text"
  by (simp add: sample_text_def DecodeRune_def cont_in_def RuneError_def)

lemma sample_change_good: "good_texts [sample_change]"
  using ascii_valid [of "''cd''"] by (simp add: good_texts_def sample_change_def del: Valid.simps)

section \<open>Positions\<close>

text \<open>C8.
  Offsets and UTF-16 positions: on a valid document, \<open>ByteOffset\<close> finds an offset for a position
  exactly when \<open>PositionAt\<close> gives that position for the offset, except between the carriage return
  and the line feed of a line end, which no position names. The 32-bit line and character counters
  do not wrap, because the document is at most \<open>MaxDocumentSize\<close> bytes.
\<close>

theorem position_round_trip:
  assumes "Valid source" and "length source \<le> MaxDocumentSize"
  shows "ByteOffset source pos = Some off \<longleftrightarrow> PositionAt source (int off) = Some pos \<and> \<not> inside_crlf source off"
  using assms by (intro ByteOffset_iff) (simp_all add: MaxDocumentSize_def)

theorem position_round_trip_witness:
  "ByteOffset sample_text \<lparr>dp_Line = 1, dp_Character = 1\<rparr> = Some 5 \<longleftrightarrow>
     PositionAt sample_text (int 5) = Some \<lparr>dp_Line = 1, dp_Character = 1\<rparr> \<and> \<not> inside_crlf sample_text 5"
  by (rule position_round_trip [OF sample_text_valid]) (simp add: sample_text_def MaxDocumentSize_def)

text \<open>Positions are ordered as the offsets they name: a later offset is on a later line, or on the same
  line at a later character, so \<open>PositionAt\<close> never gives one position to two offsets.
\<close>

theorem positions_follow_offsets:
  assumes "Valid source" and "length source \<le> MaxDocumentSize" and "a < b"
    and "PositionAt source a = Some p" and "PositionAt source b = Some q"
  shows "dp_Line p < dp_Line q \<or> dp_Line p = dp_Line q \<and> dp_Character p < dp_Character q"
  using assms by (intro PositionAt_less) (simp_all add: MaxDocumentSize_def)

theorem positions_follow_offsets_witness:
  "dp_Line \<lparr>dp_Line = 0, dp_Character = 1\<rparr> < dp_Line \<lparr>dp_Line = 1, dp_Character = 1\<rparr> \<or>
   dp_Line \<lparr>dp_Line = 0, dp_Character = 1\<rparr> = dp_Line \<lparr>dp_Line = 1, dp_Character = 1\<rparr> \<and>
   dp_Character \<lparr>dp_Line = 0, dp_Character = 1\<rparr> < dp_Character \<lparr>dp_Line = 1, dp_Character = 1\<rparr>"
proof (rule positions_follow_offsets [OF sample_text_valid])
  show "length sample_text \<le> MaxDocumentSize" by (simp add: sample_text_def MaxDocumentSize_def)
  show "(1 :: int) < 5" by simp
  show "PositionAt sample_text 1 = Some \<lparr>dp_Line = 0, dp_Character = 1\<rparr>"
    by (simp add: PositionAt_def sample_text_def RuneStart_def subslice_def DecodeRune_def RuneError_def utf16_width_def)
  show "PositionAt sample_text 5 = Some \<lparr>dp_Line = 1, dp_Character = 1\<rparr>"
    by (simp add: PositionAt_def sample_text_def RuneStart_def subslice_def DecodeRune_def RuneError_def
        cont_in_def utf16_width_def)
qed

section \<open>The store under interleaving\<close>

definition sample_opened :: "string store \<times> pending multiset" where
  "sample_opened = (open_commit sample_grammar ''u'' ''f'' 1 ''ab'' (Some 0)
     (NewStore\<lparr>st_heap := (st_heap NewStore)(0 \<mapsto> ''ab''), st_next := Suc 0\<rparr>), {#})"

lemma sample_opened_reachable: "store_reachable sample_grammar sample_opened"
proof -
  have "open_parse sample_grammar ''u'' ''ab'' NewStore =
      (Inr (Some 0), NewStore\<lparr>st_heap := (st_heap NewStore)(0 \<mapsto> ''ab''), st_next := Suc 0\<rparr>)"
    using ascii_valid [of "''ab''"] validateSource_None [of "''ab''"]
    by (simp add: open_parse_def parse_def tree_at_def sample_grammar_def alloc_def NewStore_def MaxDocumentSize_def del: Valid.simps)
  from store_reachable.step [OF store_reachable.initial store_step.open_begin
      [OF this, where filePath = "''f''" and version = 1 and ps = "{#}"]]
  show ?thesis unfolding sample_opened_def by (rule store_reachable.step) (rule store_step.open_end)
qed

text \<open>C9.
  In every state the store can reach, with any interleaving of the atomic steps of its methods, an
  open document is within the size limit and valid UTF-8, its tree is what the parser made of its
  source, and its statements and calls are those extracted from that tree and that source.
\<close>

theorem documents_consistent:
  assumes "parser_contract g" and "store_reachable g (s, ps)" and "map_of (st_documents s) uri = Some d"
  shows "length (doc_source d) \<le> MaxDocumentSize \<and> Valid (doc_source d) \<and>
    parsed_from g (doc_source d) (tree_at (doc_tree d) s) \<and>
    doc_syntax d = store_syntax g (tree_at (doc_tree d) s) (doc_source d) \<and>
    doc_calls d = store_calls g (tree_at (doc_tree d) s) (doc_source d)"
  using reachable_inv [OF assms(1,2)] map_of_SomeD [OF assms(3)]
  by (auto simp: system_inv_def store_inv_def docs_ok_def doc_ok_def validateSource_None)

theorem documents_consistent_witness:
  "\<exists>d. map_of (st_documents (fst sample_opened)) ''u'' = Some d \<and> length (doc_source d) \<le> MaxDocumentSize \<and> Valid (doc_source d)"
proof -
  have "map_of (st_documents (fst sample_opened)) ''u'' \<noteq> None"
    by (simp add: sample_opened_def open_commit_def NewStore_def Let_def)
  then obtain d where d: "map_of (st_documents (fst sample_opened)) ''u'' = Some d" by auto
  have "store_reachable sample_grammar (fst sample_opened, snd sample_opened)" using sample_opened_reachable by simp
  from documents_consistent [OF sample_contract this d] d show ?thesis by blast
qed

text \<open>C10.
  Trees are released exactly once: in every reachable state no tree was released twice or after its
  release, and the live trees are those of the open documents and those a method has parsed and not
  yet committed, each held once. So no tree leaks and no document holds a released tree. The parser may
  return the copy it was given instead of a new tree. It is only assumed to return no new tree together
  with an error, and the copy without an error only when the copy's root has none; where it breaks that,
  \<open>Change\<close> does release the copy twice (\<open>old_tree_with_error_faults\<close>).
\<close>

theorem trees_owned_once:
  assumes "parser_contract g" and "store_reachable g (s, ps)"
  shows "\<not> st_fault s \<and> finite (dom (st_heap s)) \<and>
    mset_set (dom (st_heap s)) = doc_trees (st_documents s) + pending_trees ps"
  using reachable_inv [OF assms] by (simp add: system_inv_def store_inv_def heap_ok_def)

theorem trees_owned_once_witness:
  "\<not> st_fault (fst sample_opened) \<and> finite (dom (st_heap (fst sample_opened))) \<and>
    mset_set (dom (st_heap (fst sample_opened))) = doc_trees (st_documents (fst sample_opened)) + pending_trees (snd sample_opened)"
  using trees_owned_once [OF sample_contract, of "fst sample_opened" "snd sample_opened"] sample_opened_reachable by simp

section \<open>Text synchronisation\<close>

text \<open>C11.
  The store implements text synchronisation: after any run of open, change, close and save
  notifications, the file paths, versions and texts of its documents are those of the abstract
  editor model, in which a change replaces the text between two UTF-16 positions and a rejected
  notification changes nothing.
\<close>

theorem sync_refines_editor:
  assumes "parser_contract g" and "\<forall>n \<in> set ns. good_notification n"
    and "docs.run g ns NewStore = (es, s)"
  shows "run_spec ns Map.empty es (observed s) \<and> valid_view (observed s)"
proof -
  have "idle_store g (NewStore :: 'a store)"
    using assms(1) by (simp add: idle_store_def store_inv_def docs_ok_def heap_ok_def NewStore_def)
  moreover have "observed (NewStore :: 'a store) = Map.empty" by (simp add: observed_def NewStore_def fun_eq_iff)
  ultimately show ?thesis using docs.run_refines [of g NewStore ns es s] docs.run_valid [of g NewStore ns es s] assms(2,3) by simp
qed

theorem sync_refines_editor_witness:
  "\<exists>es s. docs.run sample_grammar sample_notifications NewStore = (es, s) \<and>
     run_spec sample_notifications Map.empty es (observed s) \<and> valid_view (observed s)"
proof -
  obtain es s where r: "docs.run sample_grammar sample_notifications NewStore = (es, s)"
    by (cases "docs.run sample_grammar sample_notifications NewStore")
  have "\<forall>n \<in> set sample_notifications. good_notification n"
    using sample_change_good by (simp add: sample_notifications_def)
  from sync_refines_editor [OF sample_contract this r] r show ?thesis by blast
qed

end
