(* ===== verification/Python_Lexer.thy ===== *)
theory Python_Lexer
  imports Go_Unicode Path_Resolver
begin

text \<open>
  Reading Python source byte by byte: the scanners of \<open>internal/analysis\<close> that find calls, arguments,
  keywords and strings around a cursor. Each is a loop over bytes that keeps track of quotes,
  brackets and comments and acts on the bytes that are code; \<open>lex_fold\<close> is that loop, and a scanner
  is the \<open>switch\<close> it runs on them. The loops differ in whether they know triple quotes and
  comments, which is the first argument.
\<close>

section \<open>The loop\<close>

datatype lexmode = InCode | InComment | InString char bool | InTriple char

datatype lexevent = CodeByte char | CommentStart | CommentEnd

record lexer =
  lx_triple :: bool
  lx_comment :: bool

definition full_lexer :: lexer where "full_lexer = \<lparr>lx_triple = True, lx_comment = True\<rparr>"
definition line_lexer :: lexer where "line_lexer = \<lparr>lx_triple = False, lx_comment = True\<rparr>"
definition quote_lexer :: lexer where "quote_lexer = \<lparr>lx_triple = False, lx_comment = False\<rparr>"

abbreviation backslash :: char where "backslash \<equiv> CHR 0x5C"
abbreviation single_quote :: char where "single_quote \<equiv> CHR 0x27"
abbreviation double_quote :: char where "double_quote \<equiv> CHR 0x22"

definition is_quote :: "char \<Rightarrow> bool" where
  "is_quote c \<longleftrightarrow> c = single_quote \<or> c = double_quote"

text \<open>
  One turn of the loop at the bytes \<open>c # cs\<close>, up to the end of the scan: the mode after it, how many
  bytes it consumed and what the \<open>switch\<close> sees.
\<close>

fun lex_step :: "lexer \<Rightarrow> lexmode \<Rightarrow> char \<Rightarrow> string \<Rightarrow> lexmode \<times> nat \<times> lexevent option" where
  "lex_step lx InComment c cs = (if c = CHR 0x0A then (InCode, 1, Some CommentEnd) else (InComment, 1, None))"
| "lex_step lx (InTriple q) c cs = (if c = q \<and> take 2 cs = [q, q] then (InCode, 3, None) else (InTriple q, 1, None))"
| "lex_step lx (InString q escaped) c cs =
     (if escaped then (InString q False, 1, None)
      else if c = backslash then (InString q True, 1, None)
      else if c = q then (InCode, 1, None) else (InString q False, 1, None))"
| "lex_step lx InCode c cs =
     (if is_quote c then (if lx_triple lx \<and> take 2 cs = [c, c] then (InTriple c, 3, None) else (InString c False, 1, None))
      else if lx_comment lx \<and> c = CHR ''#'' then (InComment, 1, Some CommentStart)
      else (InCode, 1, Some (CodeByte c)))"

lemma lex_step_consumes: "lex_step lx mode c cs = (mode', n, e) \<Longrightarrow> 1 \<le> n \<and> n \<le> Suc (length cs)"
proof -
  have three: "3 \<le> Suc (length cs)" if "take 2 cs = [x, y]" for x y
    using that by (metis length_Cons length_take list.size(3) min.cobounded1 numeral_3_eq_3 Suc_le_mono numeral_2_eq_2)
  assume "lex_step lx mode c cs = (mode', n, e)"
  then show ?thesis
    using three by (cases "(lx, mode, c, cs)" rule: lex_step.cases) (auto split: if_splits)
qed

function lex_fold :: "lexer \<Rightarrow> (nat \<Rightarrow> lexevent \<Rightarrow> 's \<Rightarrow> 'r + 's) \<Rightarrow> string \<Rightarrow> nat \<Rightarrow> lexmode \<Rightarrow> 's \<Rightarrow> 'r + (lexmode \<times> 's)" where
  "lex_fold lx f [] index mode s = Inr (mode, s)"
| "lex_fold lx f (c # cs) index mode s =
     (let (mode', n, e) = lex_step lx mode c cs; rest = drop n (c # cs) in
      case e of
        None \<Rightarrow> lex_fold lx f rest (index + n) mode' s
      | Some ev \<Rightarrow> (case f index ev s of Inl r \<Rightarrow> Inl r | Inr s' \<Rightarrow> lex_fold lx f rest (index + n) mode' s'))"
  by pat_completeness auto
termination
  by (relation "measure (\<lambda>(lx, f, rest, index, mode, s). length rest)")
    (auto dest!: lex_step_consumes [OF sym])

text \<open>A scan that stops early stops in a step at one of its bytes.\<close>

lemma lex_fold_stop:
  "lex_fold lx f p i mode s = Inl r \<Longrightarrow> \<exists>j ev t. i \<le> j \<and> j < i + length p \<and> f j ev t = Inl r"
proof (induction lx f p i mode s rule: lex_fold.induct)
  case (2 lx f c cs i mode s)
  obtain mode' n e where st: "lex_step lx mode c cs = (mode', n, e)" by (metis prod_cases3)
  have n: "1 \<le> n" "n \<le> Suc (length cs)" using lex_step_consumes [OF st] by simp_all
  have later: ?case if "\<exists>j ev t. i + n \<le> j \<and> j < i + n + length (drop n (c # cs)) \<and> f j ev t = Inl r"
  proof -
    from that obtain j ev t where "i + n \<le> j" "j < i + n + length (drop n (c # cs))" "f j ev t = Inl r" by blast
    with n show ?thesis by (intro exI [of _ j] exI [of _ ev] exI [of _ t]) simp
  qed
  show ?case
  proof (cases e)
    case None
    then show ?thesis using "2.IH"(1) [OF st [symmetric] refl refl refl None] "2.prems" st later by simp
  next
    case (Some ev)
    show ?thesis
    proof (cases "f i ev s")
      case (Inl r')
      then show ?thesis using "2.prems" st Some by (intro exI [of _ i]) (auto simp: st)
    next
      case (Inr s')
      then show ?thesis using "2.IH"(2) [OF st [symmetric] refl refl refl Some Inr] "2.prems" st Some later by simp
    qed
  qed
qed simp

text \<open>The mode and the state a scan ends in, for the scans that never stop early.\<close>

definition scan_to_end :: "'r + (lexmode \<times> 's) \<Rightarrow> 's \<Rightarrow> 's" where
  "scan_to_end r s = (case r of Inl _ \<Rightarrow> s | Inr (mode, s') \<Rightarrow> s')"

definition is_open :: "char \<Rightarrow> bool" where
  "is_open c \<longleftrightarrow> c = CHR ''('' \<or> c = CHR ''['' \<or> c = CHR ''{''"

definition is_close :: "char \<Rightarrow> bool" where
  "is_close c \<longleftrightarrow> c = CHR '')'' \<or> c = CHR '']'' \<or> c = CHR ''}''"

definition bracket_depth :: "char \<Rightarrow> nat \<Rightarrow> nat" where
  "bracket_depth c depth = (if is_open c then Suc depth else if is_close c then depth - 1 else depth)"

section \<open>Code bytes\<close>

text \<open>
  \<open>pythonCodeMask\<close>: which of the first \<open>e\<close> bytes are code, the line feed that ends a comment
  included.
\<close>

function mask_from :: "lexmode \<Rightarrow> string \<Rightarrow> bool list" where
  "mask_from mode [] = []"
| "mask_from mode (c # cs) =
     (let (mode', n, e) = lex_step full_lexer mode c cs;
        here = (case e of Some (CodeByte _) \<Rightarrow> True | Some CommentEnd \<Rightarrow> True | _ \<Rightarrow> False) in
      here # replicate (n - 1) False @ mask_from mode' (drop n (c # cs)))"
  by pat_completeness auto
termination
  by (relation "measure (\<lambda>(mode, rest). length rest)") (auto dest!: lex_step_consumes [OF sym])

definition pythonCodeMask :: "string \<Rightarrow> nat \<Rightarrow> bool list" where
  "pythonCodeMask source e = mask_from InCode (take e source)"

lemma length_mask_from [simp]: "length (mask_from mode p) = length p"
proof (induction mode p rule: mask_from.induct)
  case (2 mode c cs)
  obtain mode' n e where st: "lex_step full_lexer mode c cs = (mode', n, e)" by (metis prod_cases3)
  have "length (mask_from mode' (drop n (c # cs))) = length (drop n (c # cs))"
    using 2 [of "(mode', n, e)" mode' "(n, e)" n e] st by simp
  then show ?case using lex_step_consumes [OF st] st by simp
qed simp

lemma length_pythonCodeMask [simp]: "length (pythonCodeMask source e) = min (length source) e"
  by (simp add: pythonCodeMask_def)

section \<open>Calls around the cursor\<close>

record callContext =
  call_method :: string
  call_receiver :: ByteRange
  call_argumentsStart :: nat

record functionCallContext =
  fc_name :: string
  fc_opening :: nat
  fc_argumentsStart :: nat

text \<open>The stack of opening parentheses that are code and not closed, innermost first.\<close>

definition paren_step :: "nat \<times> char \<Rightarrow> nat list \<Rightarrow> nat list" where
  "paren_step p stack = (if snd p = CHR ''('' then fst p # stack
     else if snd p = CHR '')'' then (case stack of [] \<Rightarrow> [] | _ # below \<Rightarrow> below) else stack)"

definition code_bytes :: "string \<Rightarrow> nat \<Rightarrow> (nat \<times> char) list" where
  "code_bytes source offset = map fst (filter snd
     (zip (zip [0..<offset] (take offset source)) (pythonCodeMask source offset)))"

definition open_parens :: "string \<Rightarrow> nat \<Rightarrow> nat list" where
  "open_parens source offset = fold paren_step (code_bytes source offset) []"

text \<open>\<open>for i > 0 && p(source[i-1]) { i-- }\<close>.\<close>

fun back_while :: "(nat \<Rightarrow> bool) \<Rightarrow> nat \<Rightarrow> nat" where
  "back_while p 0 = 0"
| "back_while p (Suc i) = (if p i then back_while p i else Suc i)"

lemma back_while_le: "back_while p i \<le> i"
  by (induction i) (auto intro: le_SucI)

lemma back_while_all: "back_while p i \<le> j \<Longrightarrow> j < i \<Longrightarrow> p j"
  by (induction i) (auto simp: less_Suc_eq split: if_splits)

lemma back_while_stop: "0 < back_while p i \<Longrightarrow> \<not> p (back_while p i - 1)"
  by (induction i) (auto split: if_splits)

text \<open>\<open>for i < e && p(source[i]) { i++ }\<close>.\<close>

function skip_while :: "(nat \<Rightarrow> bool) \<Rightarrow> nat \<Rightarrow> nat \<Rightarrow> nat" where
  "skip_while p e i = (if i < e \<and> p i then skip_while p e (Suc i) else i)"
  by pat_completeness auto
termination by (relation "measure (\<lambda>(p, e, i). e - i)") auto

declare skip_while.simps [simp del]

lemma skip_while_ge: "i \<le> skip_while p e i"
proof (induction p e i rule: skip_while.induct)
  case (1 p e i)
  then show ?case by (subst skip_while.simps) (auto dest: Suc_leD)
qed

lemma skip_while_le: "i \<le> e \<Longrightarrow> skip_while p e i \<le> e"
proof (induction p e i rule: skip_while.induct)
  case (1 p e i)
  then show ?case by (subst skip_while.simps) auto
qed

lemma skip_while_all: "i \<le> j \<Longrightarrow> j < skip_while p e i \<Longrightarrow> p j"
proof (induction p e i rule: skip_while.induct)
  case (1 p e i)
  show ?case
  proof (cases "i < e \<and> p i")
    case True
    then show ?thesis using 1 by (cases "j = i") (auto simp: skip_while.simps [of p e i])
  next
    case False
    then show ?thesis using 1(2,3) by (subst (asm) skip_while.simps) auto
  qed
qed

lemma skip_while_stop: "skip_while p e i < e \<Longrightarrow> \<not> p (skip_while p e i)"
proof (induction p e i rule: skip_while.induct)
  case (1 p e i)
  then show ?case by (cases "i < e \<and> p i") (simp_all add: skip_while.simps [of p e i])
qed

lemma expression_space: "0 < s \<Longrightarrow> back_while p (s - Suc 0) < s"
  using back_while_le [of p "s - Suc 0"] by linarith

function expression_loop :: "string \<Rightarrow> nat \<Rightarrow> nat \<Rightarrow> nat \<Rightarrow> ByteRange" where
  "expression_loop source e start depth =
     (if start = 0 then \<lparr>br_Start = start, br_End = e\<rparr>
      else let v = source ! (start - 1) in
        if v = CHR '')'' \<or> v = CHR '']'' then expression_loop source e (start - 1) (Suc depth)
        else if v = CHR ''('' \<or> v = CHR ''['' then
          (if depth = 0 then \<lparr>br_Start = start, br_End = e\<rparr> else expression_loop source e (start - 1) (depth - 1))
        else let spaceStart = back_while (\<lambda>i. isSpace (source ! i)) (start - 1) in
          if depth = 0 \<and> isSpace v \<and> start < e \<and> source ! start = CHR ''.'' \<and> 0 < spaceStart \<and> source ! (spaceStart - 1) = CHR '')''
          then expression_loop source e spaceStart depth
          else if depth = 0 \<and> \<not> isIdentifierByte v \<and> v \<noteq> CHR ''.'' then \<lparr>br_Start = start, br_End = e\<rparr>
          else expression_loop source e (start - 1) depth)"
  by pat_completeness auto
termination
  by (relation "measure (\<lambda>(source, e, start, depth). start)") (auto simp: expression_space)

declare expression_loop.simps [simp del]

definition expressionBefore :: "string \<Rightarrow> nat \<Rightarrow> ByteRange" where
  "expressionBefore source e = expression_loop source e (back_while (\<lambda>i. isSpace (source ! i)) e) 0"

definition call_name :: "string \<Rightarrow> nat \<Rightarrow> bool list \<Rightarrow> nat \<times> nat" where
  "call_name source opening code =
     (let nameEnd = back_while (\<lambda>i. isSpace (source ! i)) opening in
      (back_while (\<lambda>i. isIdentifierByte (source ! i) \<and> code ! i) nameEnd, nameEnd))"

definition callAfterOpening :: "string \<Rightarrow> nat \<Rightarrow> callContext option" where
  "callAfterOpening source opening =
     (let (nameStart, nameEnd) = call_name source opening (pythonCodeMask source opening) in
      if nameStart = nameEnd \<or> nameStart = 0 \<or> source ! (nameStart - 1) \<noteq> CHR ''.'' then None
      else let receiver = expressionBefore source (nameStart - 1) in
        if br_Start receiver = br_End receiver then None
        else Some \<lparr>call_method = subslice source nameStart nameEnd, call_receiver = receiver,
          call_argumentsStart = Suc opening\<rparr>)"

definition enclosingCall :: "string \<Rightarrow> int \<Rightarrow> callContext option" where
  "enclosingCall source offset =
     (if offset < 0 \<or> int (length source) < offset then None
      else case open_parens source (nat offset) of
        [] \<Rightarrow> None
      | opening # _ \<Rightarrow> callAfterOpening source opening)"

fun first_call :: "string \<Rightarrow> nat \<Rightarrow> nat list \<Rightarrow> callContext option" where
  "first_call source opening [] = None"
| "first_call source opening (p # stack) =
     (if opening \<le> p then first_call source opening stack
      else case callAfterOpening source p of Some call \<Rightarrow> Some call | None \<Rightarrow> first_call source opening stack)"

definition enclosingCallBefore :: "string \<Rightarrow> int \<Rightarrow> nat \<Rightarrow> callContext option" where
  "enclosingCallBefore source offset opening =
     (if offset < 0 \<or> int (length source) < offset then None
      else first_call source opening (open_parens source (nat offset)))"

definition enclosingFunctionCall :: "string \<Rightarrow> int \<Rightarrow> functionCallContext option" where
  "enclosingFunctionCall source offset =
     (if offset < 0 \<or> int (length source) < offset then None
      else case open_parens source (nat offset) of
        [] \<Rightarrow> None
      | opening # _ \<Rightarrow>
          let (nameStart, nameEnd) = call_name source opening (pythonCodeMask source (nat offset)) in
          if nameStart = nameEnd \<or> 0 < nameStart \<and> source ! (nameStart - 1) = CHR ''.'' then None
          else Some \<lparr>fc_name = subslice source nameStart nameEnd, fc_opening = opening,
            fc_argumentsStart = Suc opening\<rparr>)"

end
