(* ===== verification/Python_Arguments.thy ===== *)
theory Python_Arguments
  imports Python_Lexer
begin

text \<open>
  Arguments of a call: the argument at the cursor, its keyword, the path or string it holds
  (\<open>internal/analysis/path.go\<close> from \<open>activeArgument\<close> to \<open>splitPath\<close>), and the same for whole calls in
  \<open>diagnostic.go\<close>.
\<close>

section \<open>The argument at the cursor\<close>

record argumentContext =
  arg_start :: nat
  arg_index :: nat

text \<open>The state of these loops: the bracket depth and what they collect.\<close>

definition active_switch :: "nat \<Rightarrow> lexevent \<Rightarrow> nat \<times> argumentContext \<Rightarrow> unit + (nat \<times> argumentContext)" where
  "active_switch index e s = (case e of
     CodeByte c \<Rightarrow> (case s of (depth, argument) \<Rightarrow>
       Inr (bracket_depth c depth,
         if c = CHR '','' \<and> depth = 0 then \<lparr>arg_start = Suc index, arg_index = Suc (arg_index argument)\<rparr> else argument))
   | _ \<Rightarrow> Inr s)"

definition activeArgument :: "string \<Rightarrow> nat \<Rightarrow> nat \<Rightarrow> argumentContext" where
  "activeArgument source start offset = snd (scan_to_end
     (lex_fold full_lexer active_switch (subslice source start offset) start InCode
       (0, \<lparr>arg_start = start, arg_index = 0\<rparr>)) (0, \<lparr>arg_start = start, arg_index = 0\<rparr>))"

text \<open>
  The bytes before the first \<open>=\<close> outside brackets and quotes: the scan that \<open>argumentKeyword\<close>,
  \<open>keywordArgumentValueStart\<close> and \<open>topLevelEquals\<close> share.
\<close>

definition equals_switch :: "nat \<Rightarrow> lexevent \<Rightarrow> nat \<Rightarrow> nat + nat" where
  "equals_switch index e depth = (case e of
     CodeByte c \<Rightarrow> (if c = CHR ''='' \<and> depth = 0 then Inl index else Inr (bracket_depth c depth))
   | _ \<Rightarrow> Inr depth)"

definition top_level_equals :: "string \<Rightarrow> nat \<Rightarrow> nat \<Rightarrow> nat option" where
  "top_level_equals source start e = (case lex_fold quote_lexer equals_switch (subslice source start e) start InCode 0 of
     Inl index \<Rightarrow> Some index | Inr _ \<Rightarrow> None)"

definition argumentKeyword :: "(nat \<Rightarrow> bool) \<Rightarrow> string \<Rightarrow> string option" where
  "argumentKeyword wide argument = (case top_level_equals argument 0 (length argument) of
     None \<Rightarrow> None
   | Some index \<Rightarrow> let name = TrimSpace (take index argument) in
       if name \<noteq> [] \<and> identifierText wide name then Some name else None)"

definition keywordArgumentValueStart :: "string \<Rightarrow> nat \<Rightarrow> nat \<Rightarrow> nat option" where
  "keywordArgumentValueStart source start e = (case top_level_equals source start e of
     None \<Rightarrow> None
   | Some index \<Rightarrow> Some (skip_while (\<lambda>i. isSpace (source ! i)) e (Suc index)))"

definition topLevelEquals :: "string \<Rightarrow> ByteRange \<Rightarrow> int" where
  "topLevelEquals source rg = (case top_level_equals source (br_Start rg) (br_End rg) of
     None \<Rightarrow> -1 | Some index \<Rightarrow> int index)"

definition positional_switch :: "(nat \<Rightarrow> bool) \<Rightarrow> string \<Rightarrow> nat \<Rightarrow> lexevent \<Rightarrow> nat \<times> nat \<times> nat \<Rightarrow> unit + (nat \<times> nat \<times> nat)" where
  "positional_switch wide source index e s = (case e of
     CodeByte c \<Rightarrow> (case s of (depth, position, segmentStart) \<Rightarrow>
       if c = CHR '','' \<and> depth = 0
       then Inr (depth, if argumentKeyword wide (subslice source segmentStart index) = None then Suc position else position, Suc index)
       else Inr (bracket_depth c depth, position, segmentStart))
   | _ \<Rightarrow> Inr s)"

definition positionalArgumentIndex :: "(nat \<Rightarrow> bool) \<Rightarrow> string \<Rightarrow> nat \<Rightarrow> nat \<Rightarrow> nat" where
  "positionalArgumentIndex wide source start activeStart = fst (snd (scan_to_end
     (lex_fold line_lexer (positional_switch wide source) (subslice source start activeStart) start InCode (0, 0, start))
     (0, 0, start)))"

definition argument_end_switch :: "nat \<Rightarrow> lexevent \<Rightarrow> nat \<Rightarrow> nat + nat" where
  "argument_end_switch index e depth = (case e of
     CodeByte c \<Rightarrow>
       (if depth = 0 \<and> (c = CHR '')'' \<or> c = CHR '','') then Inl index else Inr (bracket_depth c depth))
   | _ \<Rightarrow> Inr depth)"

definition activeArgumentEnd :: "string \<Rightarrow> nat \<Rightarrow> nat" where
  "activeArgumentEnd source start =
     (case lex_fold line_lexer argument_end_switch (drop start source) start InCode 0 of
        Inl index \<Rightarrow> index | Inr _ \<Rightarrow> length source)"

definition keyword_position_switch :: "nat \<Rightarrow> lexevent \<Rightarrow> nat \<times> nat \<Rightarrow> unit + (nat \<times> nat)" where
  "keyword_position_switch index e s = (case e of
     CodeByte c \<Rightarrow> (case s of (depth, segmentStart) \<Rightarrow>
       if is_close c \<and> depth = 0 then Inl ()
       else Inr (bracket_depth c depth, if c = CHR '','' \<and> depth = 0 then Suc index else segmentStart))
   | _ \<Rightarrow> Inr s)"

definition keywordNamePosition :: "string \<Rightarrow> int \<Rightarrow> int \<Rightarrow> bool" where
  "keywordNamePosition source argumentsStart identifierStart =
     (if argumentsStart < 0 \<or> identifierStart < argumentsStart \<or> int (length source) < identifierStart then False
      else case lex_fold line_lexer keyword_position_switch
          (subslice source (nat argumentsStart) (nat identifierStart)) (nat argumentsStart) InCode (0, nat argumentsStart) of
        Inl _ \<Rightarrow> False
      | Inr (mode, depth, segmentStart) \<Rightarrow>
          depth = 0 \<and> mode = InCode \<and> TrimSpace (subslice source segmentStart (nat identifierStart)) = [])"

section \<open>Keyword and string paths at the cursor\<close>

text \<open>The end of the identifier at the start of \<open>rest\<close>, which is \<open>source[e:]\<close>.\<close>

function identifier_end :: "(nat \<Rightarrow> bool) \<Rightarrow> string \<Rightarrow> nat \<Rightarrow> nat" where
  "identifier_end wide [] e = e"
| "identifier_end wide (c # cs) e =
     (let (r, size) = DecodeRune (c # cs) in
      if r = RuneError \<and> size = 1 \<or> \<not> isIdentifierRune wide r then e
      else identifier_end wide (drop size (c # cs)) (e + size))"
  by pat_completeness auto
termination
  by (relation "measure (\<lambda>(wide, p, e). length p)", simp, simp only: in_measure prod.case, rule drop_rune_less, simp)

definition keywordPathRange :: "(nat \<Rightarrow> bool) \<Rightarrow> string \<Rightarrow> argumentContext \<Rightarrow> nat \<Rightarrow> ByteRange option" where
  "keywordPathRange wide source argument offset =
     (let start = skip_while (\<lambda>i. isSpace (source ! i)) offset (arg_start argument) in
      if offset < start then None
      else if start < offset \<and> \<not> identifierText wide (subslice source start offset) then None
      else let e = identifier_end wide (drop offset source) offset;
        index = skip_while (\<lambda>i. isSpace (source ! i)) (length source) e in
        if e < length source \<and> index < length source \<and> source ! index \<notin> {CHR ''='', CHR '','', CHR '')''} then None
        else Some \<lparr>br_Start = start, br_End = e\<rparr>)"

text \<open>A string prefix the scanners accept: none, \<open>r\<close> or \<open>u\<close>, in either case.\<close>

definition plain_prefix :: "string \<Rightarrow> bool" where
  "plain_prefix p = (let low = map ascii_lower p in
     \<not> (CHR ''b'' \<in> set low \<or> CHR ''f'' \<in> set low) \<and> \<not> (low \<noteq> [] \<and> low \<noteq> ''r'' \<and> low \<noteq> ''u''))"

definition quote_width :: "string \<Rightarrow> nat \<Rightarrow> nat \<Rightarrow> nat" where
  "quote_width source start e =
     (if start + 2 < e \<and> source ! (start + 1) = source ! start \<and> source ! (start + 2) = source ! start then 3 else 1)"

text \<open>The end of the string content, and whether the loop left it at a bare line feed.\<close>

function content_end :: "string \<Rightarrow> char \<Rightarrow> nat \<Rightarrow> nat \<Rightarrow> bool \<Rightarrow> nat \<times> bool" where
  "content_end source quote width e escaped =
     (if length source \<le> e then (e, False)
      else if source ! e = backslash then content_end source quote width (Suc e) (\<not> escaped)
      else if source ! e = quote \<and> \<not> escaped \<and>
          (width = 1 \<or> e + 2 < length source \<and> source ! (e + 1) = quote \<and> source ! (e + 2) = quote) then (e, False)
      else if source ! e = CHR 0x0A \<and> width = 1 then (e, True)
      else content_end source quote width (Suc e) False)"
  by pat_completeness auto
termination by (relation "measure (\<lambda>(source, quote, width, e, escaped). length source - e)") auto

declare content_end.simps [simp del]

definition stringPathRange :: "string \<Rightarrow> argumentContext \<Rightarrow> nat \<Rightarrow> ByteRange option" where
  "stringPathRange source argument offset =
     (let prefixStart = skip_while (\<lambda>i. isSpace (source ! i)) offset (arg_start argument);
        start = skip_while (\<lambda>i. isIdentifierByte (source ! i)) offset prefixStart in
      if \<not> plain_prefix (subslice source prefixStart start) then None
      else if length source \<le> start \<or> \<not> is_quote (source ! start) then None
      else let width = quote_width source start (length source); contentStart = start + width in
        if offset < contentStart then None
        else let e = fst (content_end source (source ! start) width contentStart False) in
          if e < offset \<or> backslash \<in> set (subslice source contentStart e) then None
          else Some \<lparr>br_Start = contentStart, br_End = e\<rparr>)"

lemma content_end_ge: "e \<le> fst (content_end source quote width e escaped)"
proof (induction source quote width e escaped rule: content_end.induct)
  case (1 source quote width e escaped)
  then show ?case by (subst content_end.simps) (auto dest: Suc_leD)
qed

lemma list_element_moves:
  assumes "(contentEnd, bare) = content_end source quote width (skip_while p n (skip_while q n index) + width) False"
    and "0 < width"
  shows "index < skip_while r m (contentEnd + width)"
proof -
  have "index \<le> skip_while p n (skip_while q n index)" using skip_while_ge order_trans by blast
  then have "index < contentEnd"
    using content_end_ge [of "skip_while p n (skip_while q n index) + width" source quote width False] assms
    by (metis add_less_cancel_left add.right_neutral fst_conv order_less_le_trans order_le_less_trans)
  then show ?thesis using skip_while_ge [of "contentEnd + width" r m] by linarith
qed

lemma quote_width_pos: "0 < quote_width source start e"
  by (simp add: quote_width_def)

text \<open>One turn of the loop of \<open>stringListElements\<close>, which moves \<open>index\<close> on, and the loop.\<close>

datatype element_turn = ElementsDone | NoElement | ElementFound ByteRange nat

definition list_element :: "string \<Rightarrow> nat \<Rightarrow> element_turn" where
  "list_element source index =
     (let prefixStart = skip_while (\<lambda>i. isSpace (source ! i)) (length source) index in
      if length source \<le> prefixStart then NoElement
      else if source ! prefixStart = CHR '']'' then ElementsDone
      else let start = skip_while (\<lambda>i. isIdentifierByte (source ! i)) (length source) prefixStart in
        if length source \<le> start \<or> \<not> is_quote (source ! start) then NoElement
        else if \<not> plain_prefix (subslice source prefixStart start) then NoElement
        else let width = quote_width source start (length source); contentStart = start + width;
          (contentEnd, bare) = content_end source (source ! start) width contentStart False in
          if bare \<or> length source \<le> contentEnd \<or> backslash \<in> set (subslice source contentStart contentEnd) then NoElement
          else let after = skip_while (\<lambda>i. isSpace (source ! i)) (length source) (contentEnd + width) in
            ElementFound \<lparr>br_Start = contentStart, br_End = contentEnd\<rparr>
              (if after < length source \<and> source ! after = CHR '','' then Suc after else after))"

lemma list_element_found:
  assumes "list_element source index = ElementFound rg next_index"
  shows "index < br_Start rg" and "br_Start rg \<le> br_End rg" and "br_End rg < next_index" and "br_End rg < length source"
    and "backslash \<notin> set (subslice source (br_Start rg) (br_End rg))" and "is_quote (source ! (br_Start rg - 1))"
    and "index < length source"
proof -
  define prefixStart where "prefixStart = skip_while (\<lambda>i. isSpace (source ! i)) (length source) index"
  define start where "start = skip_while (\<lambda>i. isIdentifierByte (source ! i)) (length source) prefixStart"
  define width where "width = quote_width source start (length source)"
  obtain contentEnd bare where ce: "content_end source (source ! start) width (start + width) False = (contentEnd, bare)"
    by (cases "content_end source (source ! start) width (start + width) False")
  define after where "after = skip_while (\<lambda>i. isSpace (source ! i)) (length source) (contentEnd + width)"
  have f: "\<not> length source \<le> prefixStart" "is_quote (source ! start)" "\<not> length source \<le> contentEnd"
    "backslash \<notin> set (subslice source (start + width) contentEnd)"
    "rg = \<lparr>br_Start = start + width, br_End = contentEnd\<rparr>"
    "next_index = (if after < length source \<and> source ! after = CHR '','' then Suc after else after)"
    using assms ce
    by (simp_all add: list_element_def Let_def after_def flip: prefixStart_def start_def width_def split: if_splits)
  have order: "index \<le> prefixStart" "prefixStart \<le> start" "start + width \<le> contentEnd" "contentEnd + width \<le> after" "0 < width"
    using skip_while_ge content_end_ge [of "start + width" source "source ! start" width False] ce quote_width_pos
    by (auto simp: prefixStart_def start_def after_def width_def)
  have q: "is_quote (source ! (start + width - 1))"
    using f(2) by (auto simp: width_def quote_width_def numeral_2_eq_2)
  show "index < br_Start rg" "br_Start rg \<le> br_End rg" "br_End rg < next_index" "br_End rg < length source"
    "backslash \<notin> set (subslice source (br_Start rg) (br_End rg))" "is_quote (source ! (br_Start rg - 1))" "index < length source"
    using f order q by auto
qed

function list_elements :: "string \<Rightarrow> nat \<Rightarrow> ByteRange list \<Rightarrow> ByteRange list option" where
  "list_elements source index elements = (case list_element source index of
     NoElement \<Rightarrow> None
   | ElementsDone \<Rightarrow> Some elements
   | ElementFound rg next_index \<Rightarrow> list_elements source next_index (elements @ [rg]))"
  by pat_completeness auto
termination
proof (relation "measure (\<lambda>(source, index, elements). length source - index)", simp, simp only: in_measure prod.case)
  fix source index rg next_index
  assume "list_element source index = ElementFound rg next_index"
  from list_element_found [OF this] show "length source - next_index < length source - index" by linarith
qed

declare list_elements.simps [simp del]

definition stringListElements :: "string \<Rightarrow> nat \<Rightarrow> ByteRange list option" where
  "stringListElements source start =
     (let opening = skip_while (\<lambda>i. isSpace (source ! i)) (length source) start in
      if length source \<le> opening \<or> source ! opening \<noteq> CHR ''['' then None
      else list_elements source (Suc opening) [])"

definition stringListPathRange :: "string \<Rightarrow> nat \<Rightarrow> nat \<Rightarrow> ByteRange option" where
  "stringListPathRange source start offset = (case stringListElements source start of
     None \<Rightarrow> None
   | Some elements \<Rightarrow> find (\<lambda>e. br_Start e \<le> offset \<and> offset \<le> br_End e) elements)"

section \<open>Segments\<close>

text \<open>The loop of \<open>splitPath\<close> at \<open>index\<close>; \<open>active\<close> is -1 until the cursor's segment is found.\<close>

function split_loop :: "string \<Rightarrow> ByteRange \<Rightarrow> nat \<Rightarrow> nat \<Rightarrow> nat \<Rightarrow> PathSegment list \<Rightarrow> int \<Rightarrow> bool \<Rightarrow>
    PathSegment list \<times> int \<times> bool" where
  "split_loop source path offset index start segments active onSeparator =
     (if br_End path < index then (segments, active, onSeparator)
      else let separator = (index + 1 < br_End path \<and> source ! index = CHR ''_'' \<and> source ! (index + 1) = CHR ''_'') in
        if index = br_End path \<or> separator then
          let onSeparator' = (if separator \<and> (offset = index \<or> offset = index + 1) then True else onSeparator);
            segments' = segments @ [\<lparr>seg_Text = subslice source start index, seg_Range = \<lparr>br_Start = start, br_End = index\<rparr>\<rparr>];
            active' = (if start \<le> offset \<and> offset \<le> index then int (length segments') - 1 else active) in
          if separator
          then split_loop source path offset (index + 2) (index + 2) segments'
            (if offset = index + 1 then int (length segments') else active') onSeparator'
          else split_loop source path offset (index + 1) start segments' active' onSeparator'
        else split_loop source path offset (index + 1) start segments active onSeparator)"
  by pat_completeness auto
termination
  by (relation "measure (\<lambda>(source, path, offset, index, start, segments, active, onSeparator). Suc (br_End path) - index)") auto

declare split_loop.simps [simp del]

definition splitPath :: "string \<Rightarrow> ByteRange \<Rightarrow> nat \<Rightarrow> (PathSegment list \<times> nat \<times> bool) option" where
  "splitPath source path offset =
     (if offset < br_Start path \<or> br_End path < offset then None
      else let (segments, active, onSeparator) = split_loop source path offset (br_Start path) (br_Start path) [] (-1) False;
        segments' = (if active = int (length segments)
          then segments @ [\<lparr>seg_Text = [], seg_Range = \<lparr>br_Start = offset, br_End = offset\<rparr>\<rparr>] else segments) in
        if segments' = [] \<or> active < 0 then None
        else Some (segments', nat active, onSeparator))"

definition pathMethod :: "string \<Rightarrow> (PathMode \<times> bool) option" where
  "pathMethod m =
     (if m \<in> {''filter'', ''exclude'', ''get'', ''get_or_create'', ''update_or_create'', ''create'', ''update''}
      then Some (PathLookup, False)
      else if m \<in> {''values'', ''values_list'', ''order_by'', ''earliest'', ''latest'', ''dates'', ''datetimes''}
      then Some (PathProjection, True)
      else if m \<in> {''only'', ''defer''} then Some (PathFields, True)
      else if m = ''select_related'' then Some (PathSelectRelated, True)
      else if m = ''prefetch_related'' then Some (PathPrefetchRelated, True)
      else None)"

definition isFieldListKeyword :: "string \<Rightarrow> string \<Rightarrow> bool" where
  "isFieldListKeyword m keyword =
     (if m = ''bulk_create'' then keyword = ''unique_fields'' \<or> keyword = ''update_fields''
      else if m = ''bulk_update'' then keyword = ''fields'' else False)"

definition isAnnotationExpressionFunction :: "string \<Rightarrow> bool" where
  "isAnnotationExpressionFunction qualifiedName \<longleftrightarrow>
     HasPrefix qualifiedName ''django.db.models.functions.'' \<or>
     qualifiedName \<in> {''django.db.models.F'', ''django.db.models.Count'', ''django.db.models.Sum'', ''django.db.models.Avg'',
       ''django.db.models.Min'', ''django.db.models.Max'', ''django.db.models.StdDev'', ''django.db.models.Variance''}"

section \<open>Arguments of a whole call\<close>

definition trimByteRange :: "string \<Rightarrow> ByteRange \<Rightarrow> ByteRange" where
  "trimByteRange source rg =
     (let start = skip_while (\<lambda>i. isSpace (source ! i)) (br_End rg) (br_Start rg) in
      \<lparr>br_Start = start, br_End = back_while (\<lambda>i. start \<le> i \<and> isSpace (source ! i)) (br_End rg)\<rparr>)"

record staticScan =
  sa_depth :: nat
  sa_segmentStart :: nat
  sa_leadingComment :: bool
  sa_ranges :: "ByteRange list"

definition append_range :: "string \<Rightarrow> nat \<Rightarrow> staticScan \<Rightarrow> staticScan" where
  "append_range source segmentEnd s =
     (let rg = trimByteRange source \<lparr>br_Start = sa_segmentStart s, br_End = segmentEnd\<rparr> in
      if br_Start rg < br_End rg then s\<lparr>sa_ranges := sa_ranges s @ [rg]\<rparr> else s)"

definition static_switch :: "string \<Rightarrow> nat \<Rightarrow> lexevent \<Rightarrow> staticScan \<Rightarrow> unit + staticScan" where
  "static_switch source index e s = (case e of
     CommentStart \<Rightarrow> Inr (s\<lparr>sa_leadingComment :=
       br_Start (trimByteRange source \<lparr>br_Start = sa_segmentStart s, br_End = index\<rparr>) = index\<rparr>)
   | CommentEnd \<Rightarrow> Inr (if sa_leadingComment s then s\<lparr>sa_segmentStart := Suc index, sa_leadingComment := False\<rparr> else s)
   | CodeByte c \<Rightarrow>
       (if c = CHR '','' \<and> sa_depth s = 0 then Inr ((append_range source index s)\<lparr>sa_segmentStart := Suc index\<rparr>)
        else Inr (s\<lparr>sa_depth := bracket_depth c (sa_depth s)\<rparr>)))"

definition splitStaticArguments :: "string \<Rightarrow> ByteRange \<Rightarrow> ByteRange list" where
  "splitStaticArguments source arguments =
     (if length source < br_End arguments \<or> br_End arguments < br_Start arguments + 2 \<or>
         source ! br_Start arguments \<noteq> CHR ''('' \<or> source ! (br_End arguments - 1) \<noteq> CHR '')''
      then []
      else let start = br_Start arguments + 1; e = br_End arguments - 1;
        s0 = \<lparr>sa_depth = 0, sa_segmentStart = start, sa_leadingComment = False, sa_ranges = []\<rparr> in
        sa_ranges (append_range source e
          (scan_to_end (lex_fold full_lexer (static_switch source) (subslice source start e) start InCode s0) s0)))"

definition diagnosticKeywordPath :: "(nat \<Rightarrow> bool) \<Rightarrow> string \<Rightarrow> ByteRange \<Rightarrow> ByteRange option" where
  "diagnosticKeywordPath wide source argument =
     (let equals = topLevelEquals source argument in
      if equals < 0 then None
      else let name = trimByteRange source \<lparr>br_Start = br_Start argument, br_End = nat equals\<rparr>;
        v = trimByteRange source \<lparr>br_Start = Suc (nat equals), br_End = br_End argument\<rparr> in
        if br_Start name = br_End name \<or> br_Start v = br_End v \<or>
           \<not> identifierText wide (subslice source (br_Start name) (br_End name)) then None
        else Some name)"

definition diagnosticStringPath :: "string \<Rightarrow> ByteRange \<Rightarrow> ByteRange option" where
  "diagnosticStringPath source argument =
     (let start = skip_while (\<lambda>i. isIdentifierByte (source ! i)) (br_End argument) (br_Start argument) in
      if \<not> plain_prefix (subslice source (br_Start argument) start) \<or> br_End argument \<le> start then None
      else if \<not> is_quote (source ! start) then None
      else let quote = source ! start; width = quote_width source start (br_End argument); contentStart = start + width in
        if br_End argument < contentStart + width then None
        else let contentEnd = br_End argument - width in
          if list_ex (\<lambda>i. source ! (contentEnd + i) \<noteq> quote) [0..<width] then None
          else if backslash \<in> set (subslice source contentStart contentEnd) \<or> quote \<in> set (subslice source contentStart contentEnd) then None
          else Some \<lparr>br_Start = contentStart, br_End = contentEnd\<rparr>)"

text \<open>The loop of \<open>diagnosticPathSegments\<close>: an empty segment gets the range of a separator next to it.\<close>

definition empty_segment_range :: "ByteRange \<Rightarrow> nat \<Rightarrow> ByteRange" where
  "empty_segment_range path index =
     (if index < br_End path then \<lparr>br_Start = index, br_End = index + 2\<rparr>
      else if br_Start path + 2 \<le> index then \<lparr>br_Start = index - 2, br_End = index\<rparr>
      else \<lparr>br_Start = index, br_End = index\<rparr>)"

function diagnostic_loop :: "string \<Rightarrow> ByteRange \<Rightarrow> nat \<Rightarrow> nat \<Rightarrow> PathSegment list" where
  "diagnostic_loop source path index start =
     (if br_End path < index then []
      else if index \<noteq> br_End path \<and> \<not> (index + 1 < br_End path \<and> source ! index = CHR ''_'' \<and> source ! (index + 1) = CHR ''_'')
      then diagnostic_loop source path (index + 1) start
      else (if start = index then \<lparr>seg_Text = [], seg_Range = empty_segment_range path index\<rparr>
          else \<lparr>seg_Text = subslice source start index, seg_Range = \<lparr>br_Start = start, br_End = index\<rparr>\<rparr>)
        # (if index < br_End path then diagnostic_loop source path (index + 2) (index + 2)
           else diagnostic_loop source path (index + 1) start))"
  by pat_completeness auto
termination
  by (relation "measure (\<lambda>(source, path, index, start). Suc (br_End path) - index)") auto

declare diagnostic_loop.simps [simp del]

definition diagnosticPathSegments :: "string \<Rightarrow> ByteRange \<Rightarrow> PathSegment list option" where
  "diagnosticPathSegments source path =
     (let segments = diagnostic_loop source path (br_Start path) (br_Start path) in
      if segments = [] then None else Some segments)"

end
