(* ===== verification/Python_Segments.thy ===== *)
theory Python_Segments
  imports Python_Arguments
begin

text \<open>
  The two splitters of a lookup path, \<open>splitPath\<close> for completion and \<open>diagnosticPathSegments\<close> for
  diagnostics, against one reference: the ranges between the leftmost double underscores.
\<close>

section \<open>The reference\<close>

fun split_dunder :: "string \<Rightarrow> string list" where
  "split_dunder [] = [[]]"
| "split_dunder (c # cs) =
     (case cs of
        d # ds \<Rightarrow> if c = CHR ''_'' \<and> d = CHR ''_'' then [] # split_dunder ds
          else (c # hd (split_dunder cs)) # tl (split_dunder cs)
      | [] \<Rightarrow> [[c]])"

fun join_dunder :: "string list \<Rightarrow> string" where
  "join_dunder [] = []"
| "join_dunder [p] = p"
| "join_dunder (p # ps) = p @ ''__'' @ join_dunder ps"

lemma split_dunder_not_Nil [simp]: "split_dunder s \<noteq> []"
  by (induction s rule: split_dunder.induct) (auto split: list.splits)

lemma join_dunder_Cons: "ps \<noteq> [] \<Longrightarrow> join_dunder (p # ps) = p @ ''__'' @ join_dunder ps"
  by (cases ps) auto

lemma join_dunder_first: "ps \<noteq> [] \<Longrightarrow> join_dunder ((c # hd ps) # tl ps) = c # join_dunder ps"
  by (cases ps; cases "tl ps") auto

lemma split_dunder_step:
  "split_dunder (c # d # ds) = (if c = CHR ''_'' \<and> d = CHR ''_'' then [] # split_dunder ds
     else (c # hd (split_dunder (d # ds))) # tl (split_dunder (d # ds)))"
  by simp

lemma join_split_dunder: "join_dunder (split_dunder s) = s"
proof (induction s rule: split_dunder.induct)
  case (2 c cs)
  show ?case
  proof (cases cs)
    case (Cons d ds)
    then show ?thesis
      using 2 unfolding Cons split_dunder_step
      by (cases "c = CHR ''_'' \<and> d = CHR ''_''") (auto simp add: join_dunder_Cons join_dunder_first simp del: split_dunder.simps)
  qed simp
qed simp

text \<open>The ranges of the pieces of \<open>source[index:e]\<close>, where the first one starts at \<open>start\<close>.\<close>

definition at_dunder :: "string \<Rightarrow> nat \<Rightarrow> nat \<Rightarrow> bool" where
  "at_dunder source e index \<longleftrightarrow> index + 1 < e \<and> source ! index = CHR ''_'' \<and> source ! (index + 1) = CHR ''_''"

function piece_ranges :: "string \<Rightarrow> nat \<Rightarrow> nat \<Rightarrow> nat \<Rightarrow> ByteRange list" where
  "piece_ranges source e index start =
     (if e \<le> index then [\<lparr>br_Start = start, br_End = index\<rparr>]
      else if at_dunder source e index
      then \<lparr>br_Start = start, br_End = index\<rparr> # piece_ranges source e (index + 2) (index + 2)
      else piece_ranges source e (index + 1) start)"
  by pat_completeness auto
termination by (relation "measure (\<lambda>(source, e, index, start). e - index)") auto

declare piece_ranges.simps [simp del]

abbreviation range_text :: "string \<Rightarrow> ByteRange \<Rightarrow> string" where
  "range_text source rg \<equiv> subslice source (br_Start rg) (br_End rg)"

lemma piece_ranges_not_Nil [simp]: "piece_ranges source e index start \<noteq> []"
  by (induction source e index start rule: piece_ranges.induct) (subst piece_ranges.simps, simp)

text \<open>Consecutive ranges from \<open>s\<close> to \<open>e\<close>, two bytes apart.\<close>

fun chained :: "nat \<Rightarrow> nat \<Rightarrow> ByteRange list \<Rightarrow> bool" where
  "chained s e [] = False"
| "chained s e [r] = (br_Start r = s \<and> s \<le> br_End r \<and> br_End r = e)"
| "chained s e (r # rs) = (br_Start r = s \<and> s \<le> br_End r \<and> br_End r + 2 \<le> e \<and> chained (br_End r + 2) e rs)"

lemma chained_Cons: "rs \<noteq> [] \<Longrightarrow> chained s e (r # rs) \<longleftrightarrow>
    br_Start r = s \<and> s \<le> br_End r \<and> br_End r + 2 \<le> e \<and> chained (br_End r + 2) e rs"
  by (cases rs) auto

lemma piece_ranges_chained: "start \<le> index \<Longrightarrow> index \<le> e \<Longrightarrow> chained start e (piece_ranges source e index start)"
proof (induction source e index start rule: piece_ranges.induct)
  case (1 source e index start)
  then show ?case
    by (subst piece_ranges.simps) (auto simp: chained_Cons at_dunder_def)
qed

lemma piece_texts:
  assumes "start \<le> index" and "index \<le> e" and "e \<le> length source"
  shows "map (range_text source) (piece_ranges source e index start) =
    (subslice source start index @ hd (split_dunder (subslice source index e))) # tl (split_dunder (subslice source index e))"
  using assms
proof (induction source e index start rule: piece_ranges.induct)
  case (1 source e index start)
  show ?case
  proof (cases "e \<le> index")
    case True
    then show ?thesis by (simp add: piece_ranges.simps [of source e index start])
  next
    case False
    then have here: "subslice source index e = source ! index # subslice source (index + 1) e"
      using 1(5) by (simp add: subslice_Cons)
    show ?thesis
    proof (cases "at_dunder source e index")
      case True
      then have "subslice source (index + 1) e = source ! (index + 1) # subslice source (index + 2) e"
        using 1(5) by (simp add: at_dunder_def subslice_Cons)
      then have split: "split_dunder (subslice source index e) = [] # split_dunder (subslice source (index + 2) e)"
        using True here by (simp add: at_dunder_def)
      have "map (range_text source) (piece_ranges source e (index + 2) (index + 2)) = split_dunder (subslice source (index + 2) e)"
        using 1(1) False True 1(5) by (simp add: at_dunder_def)
      then show ?thesis using False True split by (simp add: piece_ranges.simps [of source e index start])
    next
      case not: False
      have split: "split_dunder (subslice source index e) =
          (source ! index # hd (split_dunder (subslice source (index + 1) e))) # tl (split_dunder (subslice source (index + 1) e))"
      proof (cases "index + 1 < e")
        case True
        then have "subslice source (index + 1) e = source ! (index + 1) # subslice source (index + 2) e"
          using 1(5) by (simp add: subslice_Cons)
        then show ?thesis using not True here by (simp add: at_dunder_def)
      qed (simp add: here)
      have "subslice source start (index + 1) = subslice source start index @ [source ! index]"
        using subslice_append [of start index "index + 1" source] subslice_Cons [of index "index + 1" source] 1(3,5) False by simp
      then show ?thesis using 1(2) False not 1(3-5) split
        by (simp add: piece_ranges.simps [of source e index start])
    qed
  qed
qed

lemma whole_piece_texts:
  assumes "s \<le> e" and "e \<le> length source"
  shows "map (range_text source) (piece_ranges source e s s) = split_dunder (subslice source s e)"
  using piece_texts [of s s e source] assms by simp

section \<open>The splitters\<close>

definition piece_segment :: "string \<Rightarrow> ByteRange \<Rightarrow> PathSegment" where
  "piece_segment source rg = \<lparr>seg_Text = range_text source rg, seg_Range = rg\<rparr>"

fun active_of :: "nat \<Rightarrow> nat \<Rightarrow> ByteRange list \<Rightarrow> int \<Rightarrow> int" where
  "active_of offset k [] a = a"
| "active_of offset k [r] a = (if br_Start r \<le> offset \<and> offset \<le> br_End r then int k else a)"
| "active_of offset k (r # rs) a = active_of offset (Suc k) rs
     (if offset = br_End r + 1 then int (Suc k) else if br_Start r \<le> offset \<and> offset \<le> br_End r then int k else a)"

fun on_dunder :: "nat \<Rightarrow> ByteRange list \<Rightarrow> bool" where
  "on_dunder offset (r # r' # rs) = (offset = br_End r \<or> offset = br_End r + 1 \<or> on_dunder offset (r' # rs))"
| "on_dunder offset rs = False"

lemma active_of_Cons: "rs \<noteq> [] \<Longrightarrow> active_of offset k (r # rs) a = active_of offset (Suc k) rs
     (if offset = br_End r + 1 then int (Suc k) else if br_Start r \<le> offset \<and> offset \<le> br_End r then int k else a)"
  by (cases rs) auto

lemma on_dunder_Cons: "rs \<noteq> [] \<Longrightarrow> on_dunder offset (r # rs) \<longleftrightarrow> offset = br_End r \<or> offset = br_End r + 1 \<or> on_dunder offset rs"
  by (cases rs) auto

lemma split_loop_pieces:
  assumes "start \<le> index" and "index \<le> br_End path"
  shows "split_loop source path offset index start segments active onSeparator =
    (segments @ map (piece_segment source) (piece_ranges source (br_End path) index start),
     active_of offset (length segments) (piece_ranges source (br_End path) index start) active,
     onSeparator \<or> on_dunder offset (piece_ranges source (br_End path) index start))"
  using assms
proof (induction source path offset index start segments active onSeparator rule: split_loop.induct)
  case (1 source path offset index start segments active onSeparator)
  note unfold = split_loop.simps [of source path offset index start] piece_ranges.simps [of source "br_End path" index start]
  show ?case
  proof (cases "at_dunder source (br_End path) index")
    case True
    then have sep: "index + 1 < br_End path \<and> source ! index = CHR ''_'' \<and> source ! (index + 1) = CHR ''_''"
      by (simp add: at_dunder_def)
    then have lt: "\<not> br_End path < index" "\<not> br_End path \<le> index" "index + 2 \<le> br_End path" by auto
    show ?thesis
      using 1(1) [OF lt(1) refl _ refl refl refl] sep lt(2,3)
      by (simp add: unfold True active_of_Cons on_dunder_Cons piece_segment_def)
  next
    case False
    then have sep: "\<not> (index + 1 < br_End path \<and> source ! index = CHR ''_'' \<and> source ! (index + 1) = CHR ''_'')"
      by (simp add: at_dunder_def)
    show ?thesis
    proof (cases "index = br_End path")
      case True
      then show ?thesis unfolding unfold
        by (simp add: piece_segment_def Let_def split_loop.simps [of source path offset "Suc (br_End path)"])
    next
      case lt: False
      have "split_loop source path offset index start segments active onSeparator =
          split_loop source path offset (index + 1) start segments active onSeparator"
        by (subst split_loop.simps) (use sep lt 1(5) in \<open>auto simp: Let_def\<close>)
      moreover have "piece_ranges source (br_End path) index start = piece_ranges source (br_End path) (index + 1) start"
        using False lt 1(5) by (simp add: piece_ranges.simps [of source "br_End path" index start])
      ultimately show ?thesis using 1(3) 1(4,5) sep lt by simp
    qed
  qed
qed

lemma diagnostic_loop_pieces:
  assumes "start \<le> index" and "index \<le> br_End path"
  shows "map seg_Text (diagnostic_loop source path index start) = map (range_text source) (piece_ranges source (br_End path) index start)"
  using assms
proof (induction source path index start rule: diagnostic_loop.induct)
  case (1 source path index start)
  note unfold = diagnostic_loop.simps [of source path index start] piece_ranges.simps [of source "br_End path" index start]
  show ?case
  proof (cases "index = br_End path")
    case True
    then show ?thesis unfolding unfold by (simp add: diagnostic_loop.simps [of source path "Suc (br_End path)"])
  next
    case lt: False
    show ?thesis
    proof (cases "at_dunder source (br_End path) index")
      case True
      then have "index + 2 \<le> br_End path" by (simp add: at_dunder_def)
      then show ?thesis using 1(2) 1(4,5) lt True by (simp add: unfold at_dunder_def)
    next
      case False
      then show ?thesis using 1(1) 1(4,5) lt
        by (simp add: unfold) (auto simp add: at_dunder_def)
    qed
  qed
qed

text \<open>The cursor is in the active piece, or on the second underscore before it.\<close>

lemma active_of_before: "chained s e rs \<Longrightarrow> offset < s \<Longrightarrow> active_of offset k rs a = a"
proof (induction s e rs arbitrary: k a rule: chained.induct)
  case (3 s e r r' rs)
  then show ?case by simp
qed auto

lemma active_of_found:
  assumes "chained s e rs" and "s \<le> offset" and "offset \<le> e"
  shows "\<exists>j < length rs. active_of offset k rs a = int (k + j) \<and>
    (br_Start (rs ! j) \<le> offset \<and> offset \<le> br_End (rs ! j) \<or> 0 < j \<and> offset + 1 = br_Start (rs ! j))"
  using assms
proof (induction s e rs arbitrary: k a rule: chained.induct)
  case (1 s e)
  then show ?case by simp
next
  case (2 s e r)
  then show ?case by auto
next
  case (3 s e r r' rs)
  show ?case
  proof (cases "br_End r + 2 \<le> offset")
    case True
    let ?a = "if offset = br_End r + 1 then int (Suc k) else if br_Start r \<le> offset \<and> offset \<le> br_End r then int k else a"
    obtain j where j: "j < length (r' # rs)" "active_of offset (Suc k) (r' # rs) ?a = int (Suc k + j)"
      "br_Start ((r' # rs) ! j) \<le> offset \<and> offset \<le> br_End ((r' # rs) ! j) \<or> 0 < j \<and> offset + 1 = br_Start ((r' # rs) ! j)"
      using 3 True by fastforce
    then show ?thesis by (intro exI [of _ "Suc j"]) auto
  next
    case False
    then have rest: "active_of offset (Suc k) (r' # rs) b = b" for b
      using 3(2) active_of_before [of "br_End r + 2" e "r' # rs" offset] by simp
    have next_start: "br_Start r' = br_End r + 2" using 3(2) by (cases rs) auto
    show ?thesis
    proof (cases "offset = br_End r + 1")
      case True
      then show ?thesis using rest next_start by (intro exI [of _ 1]) simp
    next
      case not: False
      then show ?thesis using rest False 3(2,3) by (intro exI [of _ 0]) auto
    qed
  qed
qed

lemma splitPath_spec:
  assumes "br_Start path \<le> offset" and "offset \<le> br_End path" and "br_End path \<le> length source"
  obtains segments active onSeparator where "splitPath source path offset = Some (segments, active, onSeparator)"
    and "map seg_Text segments = split_dunder (range_text source path)"
    and "\<forall>seg \<in> set segments. seg_Text seg = range_text source (seg_Range seg)"
    and "active < length segments"
    and "br_Start (seg_Range (segments ! active)) \<le> offset \<and> offset \<le> br_End (seg_Range (segments ! active)) \<or>
      0 < active \<and> offset + 1 = br_Start (seg_Range (segments ! active))"
proof -
  let ?rs = "piece_ranges source (br_End path) (br_Start path) (br_Start path)"
  let ?segs = "map (piece_segment source) ?rs"
  have le: "br_Start path \<le> br_End path" using assms by simp
  have ch: "chained (br_Start path) (br_End path) ?rs" by (rule piece_ranges_chained) (use le in auto)
  obtain j where j: "j < length ?rs" "active_of offset 0 ?rs (-1) = int j"
    "br_Start (?rs ! j) \<le> offset \<and> offset \<le> br_End (?rs ! j) \<or> 0 < j \<and> offset + 1 = br_Start (?rs ! j)"
    using active_of_found [OF ch assms(1,2), of 0 "-1"] by auto
  have loop: "split_loop source path offset (br_Start path) (br_Start path) [] (-1) False = (?segs, int j, on_dunder offset ?rs)"
    using split_loop_pieces [OF order_refl le, of source offset "[]" "-1" False] j(2) by simp
  show thesis
  proof (rule that [of ?segs j "on_dunder offset ?rs"])
    show "splitPath source path offset = Some (?segs, j, on_dunder offset ?rs)"
      using assms(1,2) j(1) by (simp add: splitPath_def loop)
    show "map seg_Text ?segs = split_dunder (range_text source path)"
      using whole_piece_texts [OF le assms(3)] by (simp add: piece_segment_def o_def)
    show "\<forall>seg \<in> set ?segs. seg_Text seg = range_text source (seg_Range seg)" by (auto simp: piece_segment_def)
    show "j < length ?segs" using j(1) by simp
    show "br_Start (seg_Range (?segs ! j)) \<le> offset \<and> offset \<le> br_End (seg_Range (?segs ! j)) \<or>
        0 < j \<and> offset + 1 = br_Start (seg_Range (?segs ! j))"
      using j(1,3) by (simp add: piece_segment_def)
  qed
qed

lemma diagnosticPathSegments_spec:
  assumes "br_Start path \<le> br_End path" and "br_End path \<le> length source"
  shows "\<exists>segments. diagnosticPathSegments source path = Some segments \<and>
    map seg_Text segments = split_dunder (range_text source path)"
proof -
  have texts: "map seg_Text (diagnostic_loop source path (br_Start path) (br_Start path)) = split_dunder (range_text source path)"
    using diagnostic_loop_pieces [OF order_refl assms(1)] whole_piece_texts [OF assms] by simp
  then have "diagnostic_loop source path (br_Start path) (br_Start path) \<noteq> []"
    by (metis list.simps(8) split_dunder_not_Nil)
  then show ?thesis using texts by (simp add: diagnosticPathSegments_def)
qed

end
