(* ===== verification/Python_Scan_Facts.thy ===== *)
theory Python_Scan_Facts
  imports Python_Arguments
begin

text \<open>
  What the scanners guarantee: the code mask of a prefix does not depend on what follows, the call
  around a cursor is at the innermost parenthesis that is still open, and the ranges of arguments and
  strings are inside the call, in order and free of what they must not hold.
\<close>

section \<open>The code mask of a prefix\<close>

text \<open>A triple quote is closed by the quote that opened it, so the mode always holds a quote.\<close>

fun mode_ok :: "lexmode \<Rightarrow> bool" where
  "mode_ok (InString q escaped) = is_quote q"
| "mode_ok (InTriple q) = is_quote q"
| "mode_ok mode = True"

lemma lex_step_mode_ok: "mode_ok mode \<Longrightarrow> lex_step lx mode d p = (mode', n, e) \<Longrightarrow> mode_ok mode'"
  by (cases "(lx, mode, d, p)" rule: lex_step.cases) (auto split: if_splits)

lemma lex_step_prefix:
  assumes "\<not> is_quote c" and "mode_ok mode" and "lex_step lx mode d p = (mode', n, e)"
  shows "lex_step lx mode d (p @ c # q) = (mode', n, e)"
proof -
  have "take 2 (p @ c # q) = [x, x] \<longleftrightarrow> take 2 p = [x, x]" if "is_quote x" for x
    using that assms(1) by (cases p; cases "tl p") auto
  then show ?thesis using assms(2,3)
    by (cases "(lx, mode, d, p)" rule: lex_step.cases) (auto split: if_splits)
qed

lemma mask_from_step:
  "lex_step full_lexer mode c cs = (mode', n, e) \<Longrightarrow> mask_from mode (c # cs) =
     (case e of Some (CodeByte _) \<Rightarrow> True | Some CommentEnd \<Rightarrow> True | _ \<Rightarrow> False) # replicate (n - 1) False @
     mask_from mode' (drop (n - 1) cs)"
  using lex_step_consumes [of full_lexer mode c cs mode' n e] by (cases n) auto

lemma mask_from_prefix:
  assumes "\<not> is_quote c" and "mode_ok mode"
  shows "take (length p) (mask_from mode (p @ c # q)) = mask_from mode p"
  using assms
proof (induction "length p" arbitrary: p mode rule: less_induct)
  case less
  show ?case
  proof (cases p)
    case (Cons d ds)
    obtain mode' n e where st: "lex_step full_lexer mode d ds = (mode', n, e)" by (metis prod_cases3)
    have n: "n - 1 \<le> length ds" using lex_step_consumes [OF st] by linarith
    have drop: "drop (n - 1) (ds @ c # q) = drop (n - 1) ds @ c # q" using n by simp
    have rest: "take (length (drop (n - 1) ds)) (mask_from mode' (drop (n - 1) ds @ c # q)) = mask_from mode' (drop (n - 1) ds)"
      using less(1) [of "drop (n - 1) ds" mode'] less(2) lex_step_mode_ok [OF less(3) st] by (simp add: Cons)
    show ?thesis
      using rest n unfolding Cons append_Cons
        mask_from_step [OF lex_step_prefix [OF less(2,3) st]] mask_from_step [OF st] drop
      by (simp add: take_append)
  qed simp
qed

lemma mask_prefix:
  assumes "opening < offset" and "offset \<le> length source" and "\<not> is_quote (source ! opening)"
  shows "take opening (pythonCodeMask source offset) = pythonCodeMask source opening"
proof -
  have "take offset source = take opening source @ source ! opening # subslice source (opening + 1) offset"
    using subslice_append [of 0 "opening" offset source] subslice_Cons [OF assms(1,2)] assms by simp
  then show ?thesis
    using mask_from_prefix [OF assms(3), of InCode "take opening source"] assms
    by (simp add: pythonCodeMask_def min_def)
qed

section \<open>The innermost open parenthesis\<close>

text \<open>The depth after the bytes, from depth \<open>d\<close>; none when a parenthesis closes what was not open.\<close>

fun depth_after :: "nat \<Rightarrow> (nat \<times> char) list \<Rightarrow> nat option" where
  "depth_after d [] = Some d"
| "depth_after d (b # bs) =
     (if snd b = CHR ''('' then depth_after (Suc d) bs
      else if snd b = CHR '')'' then (case d of 0 \<Rightarrow> None | Suc d' \<Rightarrow> depth_after d' bs)
      else depth_after d bs)"

definition balanced :: "(nat \<times> char) list \<Rightarrow> bool" where
  "balanced bs \<longleftrightarrow> depth_after 0 bs = Some 0"

lemma depth_after_append: "depth_after d (a @ b) = Option.bind (depth_after d a) (\<lambda>e. depth_after e b)"
  by (induction d a rule: depth_after.induct) (auto split: nat.split)

lemma depth_after_Suc: "depth_after d bs = Some e \<Longrightarrow> depth_after (Suc d) bs = Some (Suc e)"
  by (induction d bs arbitrary: e rule: depth_after.induct) (auto split: nat.splits if_splits)

lemma balanced_append: "balanced a \<Longrightarrow> balanced b \<Longrightarrow> balanced (a @ b)"
  by (simp add: balanced_def depth_after_append)

lemma balanced_wrap: "snd l = CHR ''('' \<Longrightarrow> snd r = CHR '')'' \<Longrightarrow> balanced bs \<Longrightarrow> balanced (l # bs @ [r])"
  using depth_after_Suc [of 0 bs 0] by (simp add: balanced_def depth_after_append)

lemma paren_stack:
  "fold paren_step bs [] = p # stack \<Longrightarrow>
   \<exists>pre suf. bs = pre @ (p, CHR ''('') # suf \<and> balanced suf \<and> fold paren_step pre [] = stack"
proof (induction "length bs" arbitrary: bs p stack rule: less_induct)
  case less
  then have "bs \<noteq> []" by auto
  then obtain bs' b where bs: "bs = bs' @ [b]" by (metis rev_exhaust)
  have step: "paren_step b (fold paren_step bs' []) = p # stack" using less.prems by (simp add: bs)
  show ?case
  proof (cases "snd b = CHR ''(''")
    case True
    then have "b = (p, CHR ''('')" "fold paren_step bs' [] = stack" using step by (cases b; simp add: paren_step_def)+
    then show ?thesis by (intro exI [of _ bs'] exI [of _ "[]"]) (simp add: bs balanced_def)
  next
    case False
    show ?thesis
    proof (cases "snd b = CHR '')''")
      case True
      then obtain q where q: "fold paren_step bs' [] = q # p # stack"
        using step by (auto simp: paren_step_def split: list.splits)
      obtain pre suf where 1: "bs' = pre @ (q, CHR ''('') # suf" "balanced suf" "fold paren_step pre [] = p # stack"
        using less.hyps [OF _ q] by (auto simp: bs)
      obtain pre2 suf2 where 2: "pre = pre2 @ (p, CHR ''('') # suf2" "balanced suf2" "fold paren_step pre2 [] = stack"
        using less.hyps [OF _ 1(3)] by (auto simp: bs 1(1))
      have "balanced (suf2 @ (q, CHR ''('') # suf @ [b])"
        by (intro balanced_append balanced_wrap) (use 1 2 True in simp_all)
      then show ?thesis using 1(1) 2 by (intro exI [of _ pre2] exI [of _ "suf2 @ (q, CHR ''('') # suf @ [b]"]) (simp add: bs)
    next
      case other: False
      then have "fold paren_step bs' [] = p # stack" using step False by (simp add: paren_step_def)
      from less.hyps [OF _ this] obtain pre suf where
        1: "bs' = pre @ (p, CHR ''('') # suf" "balanced suf" "fold paren_step pre [] = stack" by (auto simp: bs)
      have "balanced (suf @ [b])" using 1(2) False other by (simp add: balanced_def depth_after_append)
      then show ?thesis using 1 by (intro exI [of _ pre] exI [of _ "suf @ [b]"]) (simp add: bs)
    qed
  qed
qed

lemma paren_stack_empty: "fold paren_step bs [] = [] \<Longrightarrow> (\<And>pre p suf. bs = pre @ (p, CHR ''('') # suf \<Longrightarrow> \<not> balanced suf)"
proof
  fix pre p suf
  assume stack: "fold paren_step bs [] = []" and bs: "bs = pre @ (p, CHR ''('') # suf" and b: "balanced suf"
  have "fold paren_step cs (st @ below) = st' @ below"
    if "depth_after (length st) cs = Some d" "st' = fold paren_step cs st" for cs st st' d below
    using that
  proof (induction cs arbitrary: st st')
    case (Cons c cs)
    show ?case
    proof (cases "snd c = CHR ''(''")
      case True
      then show ?thesis using Cons.IH [of "fst c # st"] Cons.prems by (simp add: paren_step_def)
    next
      case False
      then show ?thesis using Cons.IH [of "tl st"] Cons.IH [of st] Cons.prems
        by (cases st) (auto simp: paren_step_def split: if_splits)
    qed
  qed simp
  from this [of "[]" suf 0 _ "p # fold paren_step pre []"] b
  have "fold paren_step suf (p # fold paren_step pre []) \<noteq> []" by (simp add: balanced_def)
  with stack bs show False by (simp add: paren_step_def)
qed

text \<open>What \<open>code_bytes\<close> lists: the bytes the mask marks, with their indices.\<close>

lemma code_bytes_mem:
  assumes "offset \<le> length source" and "(p, c) \<in> set (code_bytes source offset)"
  shows "p < offset" and "c = source ! p" and "pythonCodeMask source offset ! p"
  using assms by (auto simp: code_bytes_def in_set_zip)

lemma open_parens_innermost:
  assumes "offset \<le> length source" and "open_parens source offset = p # stack"
  shows "p < offset" and "source ! p = CHR ''(''" and "pythonCodeMask source offset ! p"
    and "\<exists>pre suf. code_bytes source offset = pre @ (p, CHR ''('') # suf \<and> balanced suf"
proof -
  obtain pre suf where bs: "code_bytes source offset = pre @ (p, CHR ''('') # suf" "balanced suf"
    using paren_stack assms(2) unfolding open_parens_def by blast
  then have "(p, CHR ''('') \<in> set (code_bytes source offset)" by simp
  from code_bytes_mem [OF assms(1) this] show "p < offset" "source ! p = CHR ''(''" "pythonCodeMask source offset ! p"
    by simp_all
  show "\<exists>pre suf. code_bytes source offset = pre @ (p, CHR ''('') # suf \<and> balanced suf" using bs by blast
qed

section \<open>Strings\<close>

lemma content_end_le: "e \<le> length source \<Longrightarrow> fst (content_end source quote width e escaped) \<le> length source"
proof (induction source quote width e escaped rule: content_end.induct)
  case (1 source quote width e escaped)
  then show ?case by (subst content_end.simps) auto
qed

lemma stringPathRange_found:
  assumes "stringPathRange source argument offset = Some rg" and "offset \<le> length source"
  shows "arg_start argument < br_Start rg" and "br_Start rg \<le> offset" and "offset \<le> br_End rg" and "br_End rg \<le> length source"
    and "is_quote (source ! (br_Start rg - 1))" and "backslash \<notin> set (subslice source (br_Start rg) (br_End rg))"
proof -
  define prefixStart where "prefixStart = skip_while (\<lambda>i. isSpace (source ! i)) offset (arg_start argument)"
  define start where "start = skip_while (\<lambda>i. isIdentifierByte (source ! i)) offset prefixStart"
  define width where "width = quote_width source start (length source)"
  define e where "e = fst (content_end source (source ! start) width (start + width) False)"
  have f: "is_quote (source ! start)" "\<not> offset < start + width" "\<not> e < offset"
    "backslash \<notin> set (subslice source (start + width) e)" "rg = \<lparr>br_Start = start + width, br_End = e\<rparr>"
    using assms(1) by (simp_all add: stringPathRange_def Let_def e_def flip: prefixStart_def start_def width_def split: if_splits)
  have "arg_start argument \<le> prefixStart" "prefixStart \<le> start" "0 < width"
    using skip_while_ge quote_width_pos by (simp_all add: prefixStart_def start_def width_def)
  moreover have "e \<le> length source" unfolding e_def by (rule content_end_le) (use f(2) assms(2) in linarith)
  moreover have "is_quote (source ! (start + width - 1))"
    using f(1) by (auto simp: width_def quote_width_def numeral_2_eq_2)
  ultimately show "arg_start argument < br_Start rg" "br_Start rg \<le> offset" "offset \<le> br_End rg" "br_End rg \<le> length source"
    "is_quote (source ! (br_Start rg - 1))" "backslash \<notin> set (subslice source (br_Start rg) (br_End rg))"
    using f by auto
qed

definition range_before :: "ByteRange \<Rightarrow> ByteRange \<Rightarrow> bool" where
  "range_before r r' \<longleftrightarrow> br_End r < br_Start r'"

lemma ranges_append:
  assumes "sorted_wrt range_before rs" and "\<forall>r \<in> set rs. br_End r < index" and "index \<le> br_Start r'"
  shows "sorted_wrt range_before (rs @ [r'])"
  using assms by (auto simp: sorted_wrt_append range_before_def)

lemma list_elements_found:
  assumes "list_elements source index elements = Some rs" and "start \<le> index"
    and "sorted_wrt range_before elements" and "\<forall>r \<in> set elements. br_End r < index"
    and "\<forall>r \<in> set elements. good r"
    and good: "\<And>i r j. start \<le> i \<Longrightarrow> list_element source i = ElementFound r j \<Longrightarrow> good r"
  shows "sorted_wrt range_before rs \<and> (\<forall>r \<in> set rs. good r)"
  using assms(1-5) good
proof (induction source index elements rule: list_elements.induct)
  case (1 source index elements)
  show ?case
  proof (cases "list_element source index")
    case (ElementFound r j)
    note found = list_element_found [OF ElementFound]
    have g: "good r" using 1(3,7) ElementFound by blast
    have step: "list_elements source j (elements @ [r]) = Some rs"
      using 1(2) ElementFound by (simp add: list_elements.simps [of source index])
    have ends: "\<forall>r' \<in> set (elements @ [r]). br_End r' < j" using 1(5) found by force
    show ?thesis
    proof (rule 1(1) [OF ElementFound step _ _ ends _ 1(7)])
      show "start \<le> j" using 1(3) found by linarith
      show "sorted_wrt range_before (elements @ [r])" by (rule ranges_append [OF 1(4,5)]) (use found in linarith)
      show "\<forall>r' \<in> set (elements @ [r]). good r'" using 1(6) g by simp
    qed
  qed (use 1 in \<open>simp_all add: list_elements.simps [of source index]\<close>)
qed

lemma string_list_elements:
  assumes "stringListElements source start = Some elements"
  shows "sorted_wrt range_before elements"
    and "\<forall>r \<in> set elements. start < br_Start r \<and> br_Start r \<le> br_End r \<and> br_End r < length source \<and>
      is_quote (source ! (br_Start r - 1)) \<and> backslash \<notin> set (subslice source (br_Start r) (br_End r))"
    and "stringListPathRange source start offset = Some r \<longleftrightarrow>
      r \<in> set elements \<and> br_Start r \<le> offset \<and> offset \<le> br_End r"
proof -
  define good where "good r \<longleftrightarrow> start < br_Start r \<and> br_Start r \<le> br_End r \<and> br_End r < length source \<and>
      is_quote (source ! (br_Start r - 1)) \<and> backslash \<notin> set (subslice source (br_Start r) (br_End r))" for r :: ByteRange
  let ?p = "skip_while (\<lambda>i. isSpace (source ! i)) (length source) start"
  have le: "start \<le> Suc ?p" using skip_while_ge [of start] by (rule le_SucI)
  have run: "list_elements source (Suc ?p) [] = Some elements"
    using assms by (auto simp: stringListElements_def Let_def split: if_splits)
  have g: "good r" if "start \<le> i" "list_element source i = ElementFound r j" for i r j
    using list_element_found [OF that(2)] that(1) by (simp add: good_def)
  have found: "sorted_wrt range_before elements \<and> (\<forall>r \<in> set elements. good r)"
    by (rule list_elements_found [OF run le _ _ _ g]) simp_all
  then show sorted: "sorted_wrt range_before elements"
    and "\<forall>r \<in> set elements. start < br_Start r \<and> br_Start r \<le> br_End r \<and> br_End r < length source \<and>
      is_quote (source ! (br_Start r - 1)) \<and> backslash \<notin> set (subslice source (br_Start r) (br_End r))"
    by (simp_all add: good_def)
  let ?holds = "\<lambda>e. br_Start e \<le> offset \<and> offset \<le> br_End e"
  have apart: "i = j" if "i < length elements" "j < length elements" "?holds (elements ! i)" "?holds (elements ! j)" for i j
  proof (rule ccontr)
    assume "i \<noteq> j"
    then have "range_before (elements ! i) (elements ! j) \<or> range_before (elements ! j) (elements ! i)"
      using sorted_wrt_nth_less [OF sorted] that(1,2) by (meson linorder_neqE_nat)
    then show False using that(3,4) by (auto simp: range_before_def)
  qed
  have "find ?holds elements = Some r \<longleftrightarrow> r \<in> set elements \<and> ?holds r"
  proof
    assume "find ?holds elements = Some r"
    then show "r \<in> set elements \<and> ?holds r" by (auto simp: find_Some_iff)
  next
    assume "r \<in> set elements \<and> ?holds r"
    then obtain i where i: "i < length elements" "elements ! i = r" "?holds r" by (auto simp only: in_set_conv_nth)
    have before: "\<not> ?holds (elements ! j)" if "j < i" for j
      using apart [of i j] i that by (metis less_trans order_less_irrefl)
    show "find ?holds elements = Some r"
      unfolding find_Some_iff by (rule exI [of _ i]) (simp add: i before [simplified])
  qed
  then show "stringListPathRange source start offset = Some r \<longleftrightarrow>
      r \<in> set elements \<and> br_Start r \<le> offset \<and> offset \<le> br_End r"
    by (simp add: stringListPathRange_def assms)
qed

section \<open>The arguments of a call\<close>

lemma lex_fold_invariant:
  assumes "lex_fold lx f rest index mode s = Inr (mode', s')" and "P index s"
    and "\<And>i e s s'. P i s \<Longrightarrow> f i e s = Inr s' \<Longrightarrow> P (Suc i) s'"
    and "\<And>i j s. P i s \<Longrightarrow> i \<le> j \<Longrightarrow> P j s"
  shows "P (index + length rest) s'"
  using assms(1,2)
proof (induction "length rest" arbitrary: rest index mode s rule: less_induct)
  case less
  show ?case
  proof (cases rest)
    case Nil
    then show ?thesis using less by simp
  next
    case (Cons c cs)
    obtain m n e where st: "lex_step lx mode c cs = (m, n, e)" by (metis prod_cases3)
    let ?rest = "drop n rest"
    have n: "1 \<le> n" "n \<le> length rest" using lex_step_consumes [OF st] by (simp_all add: Cons)
    have len: "index + n + length ?rest = index + length rest" "length ?rest < length rest" using n by auto
    show ?thesis
    proof (cases e)
      case None
      then have "lex_fold lx f ?rest (index + n) m s = Inr (mode', s')" using less(2) st by (simp add: Cons)
      from less(1) [OF len(2) this assms(4) [OF less(3)]] show ?thesis using len(1) by simp
    next
      case (Some ev)
      then obtain t where t: "f index ev s = Inr t" using less(2) st by (auto simp: Cons split: sum.splits)
      then have rest: "lex_fold lx f ?rest (index + n) m t = Inr (mode', s')" using less(2) st Some by (simp add: Cons)
      have "P (index + n) t" by (rule assms(4) [OF assms(3) [OF less(3) t]]) (use n in simp)
      from less(1) [OF len(2) rest this] show ?thesis using len(1) by simp
    qed
  qed
qed

lemma trimByteRange_bounds:
  assumes "br_Start rg \<le> br_End rg"
  shows "br_Start rg \<le> br_Start (trimByteRange source rg)"
    and "br_Start (trimByteRange source rg) \<le> br_End (trimByteRange source rg)"
    and "br_End (trimByteRange source rg) \<le> br_End rg"
proof -
  define s where "s = skip_while (\<lambda>i. isSpace (source ! i)) (br_End rg) (br_Start rg)"
  define p where "p = (\<lambda>i. s \<le> i \<and> isSpace (source ! i))"
  have s: "br_Start rg \<le> s" "s \<le> br_End rg" using skip_while_ge skip_while_le [OF assms] by (auto simp: s_def)
  have "s \<le> back_while p (br_End rg)"
  proof (rule ccontr)
    assume "\<not> s \<le> back_while p (br_End rg)"
    then have "p (s - 1)" by (intro back_while_all [of p "br_End rg"]) (use s in auto)
    then show False using \<open>\<not> s \<le> back_while p (br_End rg)\<close> by (auto simp: p_def)
  qed
  then show "br_Start rg \<le> br_Start (trimByteRange source rg)"
    "br_Start (trimByteRange source rg) \<le> br_End (trimByteRange source rg)"
    "br_End (trimByteRange source rg) \<le> br_End rg"
    using s back_while_le [of p "br_End rg"] by (simp_all add: trimByteRange_def Let_def flip: s_def p_def)
qed

lemma trimByteRange_ends:
  assumes "br_Start (trimByteRange source rg) < br_End (trimByteRange source rg)"
  shows "\<not> isSpace (source ! br_Start (trimByteRange source rg))"
    and "\<not> isSpace (source ! (br_End (trimByteRange source rg) - 1))"
proof -
  define s where "s = skip_while (\<lambda>i. isSpace (source ! i)) (br_End rg) (br_Start rg)"
  define p where "p = (\<lambda>i. s \<le> i \<and> isSpace (source ! i))"
  have e: "trimByteRange source rg = \<lparr>br_Start = s, br_End = back_while p (br_End rg)\<rparr>"
    by (simp add: trimByteRange_def Let_def flip: s_def p_def)
  have lt: "s < back_while p (br_End rg)" using assms e by simp
  have "s < br_End rg" using lt back_while_le [of p "br_End rg"] by linarith
  then show "\<not> isSpace (source ! br_Start (trimByteRange source rg))"
    using skip_while_stop [of "\<lambda>i. isSpace (source ! i)" "br_End rg" "br_Start rg"] by (simp add: e flip: s_def)
  show "\<not> isSpace (source ! (br_End (trimByteRange source rg) - 1))"
    using back_while_stop [of p "br_End rg"] lt by (auto simp: e p_def)
qed

text \<open>An argument as \<open>splitStaticArguments\<close> lists it: not empty, trimmed, from \<open>start\<close> on.\<close>

definition trimmed_range :: "string \<Rightarrow> nat \<Rightarrow> ByteRange \<Rightarrow> bool" where
  "trimmed_range source start r \<longleftrightarrow> start \<le> br_Start r \<and> br_Start r < br_End r \<and>
     \<not> isSpace (source ! br_Start r) \<and> \<not> isSpace (source ! (br_End r - 1))"

definition static_inv :: "string \<Rightarrow> nat \<Rightarrow> nat \<Rightarrow> staticScan \<Rightarrow> bool" where
  "static_inv source start index s \<longleftrightarrow>
     start \<le> sa_segmentStart s \<and> sa_segmentStart s \<le> index \<and> sorted_wrt range_before (sa_ranges s) \<and>
     (\<forall>r \<in> set (sa_ranges s). trimmed_range source start r \<and> br_End r < sa_segmentStart s)"

lemma append_range_inv:
  assumes "static_inv source start index s"
  shows "sorted_wrt range_before (sa_ranges (append_range source index s))"
    and "\<forall>r \<in> set (sa_ranges (append_range source index s)). trimmed_range source start r \<and> br_End r \<le> index"
    and "sa_segmentStart (append_range source index s) = sa_segmentStart s"
proof -
  define r where "r = trimByteRange source \<lparr>br_Start = sa_segmentStart s, br_End = index\<rparr>"
  have s: "start \<le> sa_segmentStart s" "sa_segmentStart s \<le> index" "sorted_wrt range_before (sa_ranges s)"
    "\<forall>r \<in> set (sa_ranges s). trimmed_range source start r \<and> br_End r < sa_segmentStart s"
    using assms by (auto simp: static_inv_def)
  have b: "sa_segmentStart s \<le> br_Start r" "br_End r \<le> index"
    using trimByteRange_bounds [of "\<lparr>br_Start = sa_segmentStart s, br_End = index\<rparr>" source] s(2) by (simp_all add: r_def)
  have app: "append_range source index s = (if br_Start r < br_End r then s\<lparr>sa_ranges := sa_ranges s @ [r]\<rparr> else s)"
    by (simp add: append_range_def Let_def flip: r_def)
  have new: "trimmed_range source start r" if "br_Start r < br_End r"
    using that trimByteRange_ends [of source "\<lparr>br_Start = sa_segmentStart s, br_End = index\<rparr>"] s(1) b(1)
    by (simp add: trimmed_range_def flip: r_def)
  show "sorted_wrt range_before (sa_ranges (append_range source index s))"
    using ranges_append [OF s(3) _ b(1)] s(3,4) by (simp add: app)
  show "\<forall>r \<in> set (sa_ranges (append_range source index s)). trimmed_range source start r \<and> br_End r \<le> index"
    using s(2,4) new b(2) by (auto simp: app)
  show "sa_segmentStart (append_range source index s) = sa_segmentStart s" by (simp add: app)
qed

lemma static_switch_inv:
  assumes "static_inv source start index s" and "static_switch source index e s = Inr s'"
  shows "static_inv source start (Suc index) s'"
proof -
  have grow: "static_inv source start (Suc index) (s\<lparr>sa_segmentStart := Suc index, sa_leadingComment := l\<rparr>)" for l
    using assms(1) by (force simp: static_inv_def)
  have keep: "static_inv source start (Suc index) (s\<lparr>sa_depth := d\<rparr>)" "static_inv source start (Suc index) (s\<lparr>sa_leadingComment := l\<rparr>)"
    "static_inv source start (Suc index) s" for d l
    using assms(1) by (auto simp: static_inv_def)
  have comma: "static_inv source start (Suc index) ((append_range source index s)\<lparr>sa_segmentStart := Suc index\<rparr>)"
    using append_range_inv [OF assms(1)] assms(1) by (auto simp: static_inv_def)
  show ?thesis
    using assms(2) grow keep comma by (cases e) (auto simp: static_switch_def split: if_splits)
qed

lemma splitStaticArguments_ranges:
  "sorted_wrt range_before (splitStaticArguments source arguments) \<and>
   (\<forall>r \<in> set (splitStaticArguments source arguments).
     trimmed_range source (br_Start arguments + 1) r \<and> br_End r \<le> br_End arguments - 1)"
proof (cases "length source < br_End arguments \<or> br_End arguments < br_Start arguments + 2 \<or>
    source ! br_Start arguments \<noteq> CHR ''('' \<or> source ! (br_End arguments - 1) \<noteq> CHR '')''")
  case True
  then show ?thesis by (simp add: splitStaticArguments_def)
next
  case False
  let ?b = "br_Start arguments + 1" and ?e = "br_End arguments - 1"
  define s0 where "s0 = \<lparr>sa_depth = 0, sa_segmentStart = ?b, sa_leadingComment = False, sa_ranges = []\<rparr>"
  define r where "r = lex_fold full_lexer (static_switch source) (subslice source ?b ?e) ?b InCode s0"
  have be: "?b \<le> ?e" "?e \<le> length source" using False by linarith+
  have init: "static_inv source ?b ?b s0" by (simp add: static_inv_def s0_def)
  have mono: "static_inv source ?b j s" if "static_inv source ?b i s" "i \<le> j" for i j s
    using that by (auto simp: static_inv_def)
  have "static_inv source ?b ?e (scan_to_end r s0)"
  proof (cases r)
    case (Inl u)
    then show ?thesis using mono [OF init be(1)] by (simp add: scan_to_end_def)
  next
    case (Inr x)
    obtain m s where x: "x = (m, s)" by (cases x)
    have ends: "?b + length (subslice source ?b ?e) = ?e" using be by simp
    have "static_inv source ?b (?b + length (subslice source ?b ?e)) s"
      by (rule lex_fold_invariant [where P = "static_inv source ?b", OF Inr [unfolded r_def x] init])
        (rule static_switch_inv mono, assumption+)+
    then have "static_inv source ?b ?e s" unfolding ends .
    then show ?thesis unfolding Inr x scan_to_end_def by simp
  qed
  moreover have "splitStaticArguments source arguments = sa_ranges (append_range source ?e (scan_to_end r s0))"
    using False by (simp add: splitStaticArguments_def Let_def r_def s0_def)
  ultimately show ?thesis using append_range_inv(1,2) by simp
qed

end
