(* ===== verification/Python_Properties.thy ===== *)
theory Python_Properties
  imports Python_Segments Python_Scan_Facts
begin

text \<open>
  What the reader of Python source guarantees: one call around a cursor, at the innermost open
  parenthesis; arguments and strings inside their call; paths split into segments that spell them.
\<close>

section \<open>Calls around the cursor\<close>

lemma back_while_cong:
  "(\<And>j. j < i \<Longrightarrow> p j = q j) \<Longrightarrow> back_while p i = back_while q i"
  by (induction i) auto

lemma call_name_mask:
  assumes "take opening code = take opening code'"
  shows "call_name source opening code = call_name source opening code'"
proof -
  let ?e = "back_while (\<lambda>i. isSpace (source ! i)) opening"
  have "code ! i = code' ! i" if "i < ?e" for i
    using that assms back_while_le [of "\<lambda>i. isSpace (source ! i)" "opening"]
    by (metis nth_take order_less_le_trans)
  then have "back_while (\<lambda>i. isIdentifierByte (source ! i) \<and> code ! i) ?e =
      back_while (\<lambda>i. isIdentifierByte (source ! i) \<and> code' ! i) ?e"
    by (intro back_while_cong) simp
  then show ?thesis by (simp add: call_name_def Let_def)
qed

lemma call_name_bounds:
  assumes "call_name source opening code = (nameStart, nameEnd)"
  shows "nameStart \<le> nameEnd" and "nameEnd \<le> opening"
    and "\<And>i. nameStart \<le> i \<Longrightarrow> i < nameEnd \<Longrightarrow> isIdentifierByte (source ! i) \<and> code ! i"
    and "\<And>i. nameEnd \<le> i \<Longrightarrow> i < opening \<Longrightarrow> isSpace (source ! i)"
proof -
  have n: "nameEnd = back_while (\<lambda>i. isSpace (source ! i)) opening"
    "nameStart = back_while (\<lambda>i. isIdentifierByte (source ! i) \<and> code ! i) nameEnd"
    using assms by (auto simp: call_name_def Let_def)
  show "nameStart \<le> nameEnd" "nameEnd \<le> opening" by (simp_all add: n back_while_le)
  show "isIdentifierByte (source ! i) \<and> code ! i" if "nameStart \<le> i" "i < nameEnd" for i
    using back_while_all [OF that [unfolded n(2)]] .
  show "isSpace (source ! i)" if "nameEnd \<le> i" "i < opening" for i
    using back_while_all [OF that [unfolded n(1)]] .
qed

lemma expression_loop_ends:
  "br_End (expression_loop source e start depth) = e \<and> br_Start (expression_loop source e start depth) \<le> start"
proof (induction start arbitrary: depth rule: less_induct)
  case (less start)
  have later: "br_End (expression_loop source e s d) = e" "br_Start (expression_loop source e s d) \<le> start" if "s < start" for s d
    using less [OF that, of d] that by simp_all
  show ?case
  proof (cases "start = 0")
    case True
    then show ?thesis by (simp add: expression_loop.simps [of _ _ 0])
  next
    case False
    then have lt: "start - 1 < start" "back_while (\<lambda>i. isSpace (source ! i)) (start - 1) < start"
      using expression_space by simp_all
    show ?thesis
      unfolding expression_loop.simps [of source e start depth]
      using later [OF lt(1)] later [OF lt(2)] by (simp add: Let_def False)
  qed
qed

lemma expressionBefore_ends:
  "br_End (expressionBefore source e) = e" "br_Start (expressionBefore source e) \<le> e"
proof -
  have "br_Start (expressionBefore source e) \<le> back_while (\<lambda>i. isSpace (source ! i)) e"
    unfolding expressionBefore_def using expression_loop_ends by blast
  then show "br_Start (expressionBefore source e) \<le> e" using back_while_le by (rule order_trans)
  show "br_End (expressionBefore source e) = e" unfolding expressionBefore_def using expression_loop_ends by blast
qed

lemma enclosing_opening:
  assumes "open_parens source offset = opening # stack" and "offset \<le> length source"
  shows "call_name source opening (pythonCodeMask source offset) = call_name source opening (pythonCodeMask source opening)"
proof -
  have "\<not> is_quote (source ! opening)" using open_parens_innermost(2) [OF assms(2,1)] by (simp add: is_quote_def)
  from mask_prefix [OF open_parens_innermost(1) [OF assms(2,1)] assms(2) this]
  have "take opening (pythonCodeMask source offset) = take opening (pythonCodeMask source opening)" by simp
  then show ?thesis by (rule call_name_mask)
qed

text \<open>A cursor is in a method call or in a function call, never in both: the scan of
  enclosingFunctionCall, which masks the source up to the cursor, and that of enclosingCall, which
  masks it again up to the parenthesis, read the same name before the same innermost parenthesis.\<close>

theorem enclosing_calls_exclusive:
  assumes "enclosingFunctionCall source offset = Some f"
  shows "enclosingCall source offset = None \<and> 0 < length (fc_name f) \<and> source ! fc_opening f = CHR ''('' \<and> fc_opening f < nat offset \<and>
      fc_argumentsStart f = fc_opening f + 1"
proof -
  have off: "0 \<le> offset" "offset \<le> int (length source)" using assms by (auto simp: enclosingFunctionCall_def split: if_splits)
  then have le: "nat offset \<le> length source" by simp
  obtain p stack where st: "open_parens source (nat offset) = p # stack"
    using assms off by (cases "open_parens source (nat offset)") (simp_all add: enclosingFunctionCall_def)
  obtain s e where n: "call_name source p (pythonCodeMask source p) = (s, e)" by (cases "call_name source p (pythonCodeMask source p)")
  have f: "s \<noteq> e" "s = 0 \<or> source ! (s - 1) \<noteq> CHR ''.''"
    "f = \<lparr>fc_name = subslice source s e, fc_opening = p, fc_argumentsStart = Suc p\<rparr>"
    using assms off st n enclosing_opening [OF st le] by (auto simp: enclosingFunctionCall_def split: if_splits)
  have none: "enclosingCall source offset = None"
    using off st n f(2) by (auto simp: enclosingCall_def callAfterOpening_def)
  note o = open_parens_innermost [OF le st]
  show "enclosingCall source offset = None \<and> 0 < length (fc_name f) \<and> source ! fc_opening f = CHR ''('' \<and>
      fc_opening f < nat offset \<and> fc_argumentsStart f = fc_opening f + 1"
    using none f o(1,2) call_name_bounds(1,2) [OF n] le by simp
qed

text \<open>C12. The method call around a cursor opens at the innermost parenthesis of code before the
  cursor that is not closed again, and its receiver is the text before the dot before the name.\<close>

theorem enclosing_call_innermost:
  assumes "enclosingCall source offset = Some call"
  shows "\<exists>p dot pre suf. call_argumentsStart call = p + 1 \<and> p < nat offset \<and>
    code_bytes source (nat offset) = pre @ (p, CHR ''('') # suf \<and> balanced suf \<and>
    source ! dot = CHR ''.'' \<and> br_Start (call_receiver call) < dot \<and> br_End (call_receiver call) = dot \<and>
    (\<exists>nameEnd \<le> p. dot + 1 < nameEnd \<and> call_method call = subslice source (dot + 1) nameEnd \<and>
      (\<forall>i. dot < i \<and> i < nameEnd \<longrightarrow> isIdentifierByte (source ! i)) \<and>
      (\<forall>i. nameEnd \<le> i \<and> i < p \<longrightarrow> isSpace (source ! i)))"
proof -
  have off: "0 \<le> offset" "offset \<le> int (length source)" using assms by (auto simp: enclosingCall_def split: if_splits)
  then have le: "nat offset \<le> length source" by simp
  obtain p stack where st: "open_parens source (nat offset) = p # stack"
    using assms off by (cases "open_parens source (nat offset)") (simp_all add: enclosingCall_def)
  obtain s e where n: "call_name source p (pythonCodeMask source p) = (s, e)" by (cases "call_name source p (pythonCodeMask source p)")
  define rc where "rc = expressionBefore source (s - 1)"
  have c: "s \<noteq> e" "0 < s" "source ! (s - 1) = CHR ''.''" "br_Start rc \<noteq> br_End rc"
    "call = \<lparr>call_method = subslice source s e, call_receiver = rc, call_argumentsStart = Suc p\<rparr>"
    using assms off st n by (auto simp: enclosingCall_def callAfterOpening_def rc_def Let_def split: if_splits)
  note o = open_parens_innermost [OF le st] and nm = call_name_bounds [OF n]
  obtain pre suf where bs: "code_bytes source (nat offset) = pre @ (p, CHR ''('') # suf" "balanced suf" using o(4) by blast
  have d: "s - 1 < p" "s - 1 + 1 = s" "s < e" "e \<le> p" using nm(1,2) c(1,2) by linarith+
  show ?thesis
  proof (rule exI [of _ p], rule exI [of _ "s - 1"], rule exI [of _ pre], rule exI [of _ suf], intro conjI)
    show "br_Start (call_receiver call) < s - 1" "br_End (call_receiver call) = s - 1"
      using c(4,5) expressionBefore_ends [of source "s - 1"] by (simp_all add: rc_def)
    show "\<exists>nameEnd\<le>p. s - 1 + 1 < nameEnd \<and> call_method call = subslice source (s - 1 + 1) nameEnd \<and>
      (\<forall>i. s - 1 < i \<and> i < nameEnd \<longrightarrow> isIdentifierByte (source ! i)) \<and>
      (\<forall>i. nameEnd \<le> i \<and> i < p \<longrightarrow> isSpace (source ! i))"
      using d c(5) nm(3,4) by (intro exI [of _ e]) (auto simp: less_diff_conv)
  qed (use bs o(1) d c in simp_all)
qed

section \<open>Strings and arguments\<close>

text \<open>A string argument's path is its content: it starts after the quote, holds the cursor,
  ends inside the source and holds no escape, so its bytes are the bytes of the Python string.\<close>

theorem string_path_is_content:
  assumes "stringPathRange source argument offset = Some rg" and "arg_start argument \<le> offset" and "offset \<le> length source"
  shows "arg_start argument < br_Start rg \<and> br_Start rg \<le> offset \<and> offset \<le> br_End rg \<and> br_End rg \<le> length source \<and>
    is_quote (source ! (br_Start rg - 1)) \<and> backslash \<notin> set (subslice source (br_Start rg) (br_End rg))"
  using stringPathRange_found [OF assms(1,3)] by simp_all

text \<open>The elements of a string list are in order, apart from each other, quoted and free of
  escapes; the path at the cursor is the only element that holds the cursor.\<close>

theorem string_list_path_unique:
  assumes "stringListElements source start = Some elements"
  shows "sorted_wrt range_before elements \<and>
    (\<forall>r \<in> set elements. start < br_Start r \<and> br_Start r \<le> br_End r \<and> br_End r < length source \<and>
      is_quote (source ! (br_Start r - 1)) \<and> backslash \<notin> set (subslice source (br_Start r) (br_End r))) \<and>
    (stringListPathRange source start offset = Some r \<longleftrightarrow>
      r \<in> set elements \<and> br_Start r \<le> offset \<and> offset \<le> br_End r)"
  using string_list_elements [OF assms] by blast

text \<open>The arguments of a call are in order and apart from each other, inside the call's
  parentheses, not empty, and begin and end with a byte that is not a space.\<close>

theorem static_arguments_apart:
  "sorted_wrt range_before (splitStaticArguments source arguments) \<and>
   list_all (\<lambda>r. br_Start arguments < br_Start r \<and> br_Start r < br_End r \<and> br_End r < br_End arguments \<and>
     \<not> isSpace (source ! br_Start r) \<and> \<not> isSpace (source ! (br_End r - 1)))
    (splitStaticArguments source arguments)"
  using splitStaticArguments_ranges [of source arguments]
  by (fastforce simp: list_all_iff trimmed_range_def)

section \<open>Paths\<close>

text \<open>C13. Both splitters cut a path at its double underscores and lose nothing: joined again the
  segments spell the path, diagnostics see the segments that completion sees, the ranges of
  splitPath hold the segments' text, and the active segment is the one at the cursor.\<close>

theorem path_segments_spell_path:
  assumes "br_Start path \<le> offset" and "offset \<le> br_End path" and "br_End path \<le> length source"
  shows "\<exists>segments active onSeparator diagnosed.
    splitPath source path offset = Some (segments, active, onSeparator) \<and>
    diagnosticPathSegments source path = Some diagnosed \<and>
    map seg_Text diagnosed = map seg_Text segments \<and>
    join_dunder (map seg_Text segments) = subslice source (br_Start path) (br_End path) \<and>
    list_all (\<lambda>seg. seg_Text seg = subslice source (br_Start (seg_Range seg)) (br_End (seg_Range seg))) segments \<and>
    active < length segments \<and>
    (br_Start (seg_Range (segments ! active)) \<le> offset \<and> offset \<le> br_End (seg_Range (segments ! active)) \<or>
      offset + 1 = br_Start (seg_Range (segments ! active)))"
proof -
  have le: "br_Start path \<le> br_End path" using assms by simp
  obtain segments active onSeparator where s: "splitPath source path offset = Some (segments, active, onSeparator)"
    "map seg_Text segments = split_dunder (range_text source path)"
    "\<forall>seg \<in> set segments. seg_Text seg = range_text source (seg_Range seg)" "active < length segments"
    "br_Start (seg_Range (segments ! active)) \<le> offset \<and> offset \<le> br_End (seg_Range (segments ! active)) \<or>
      0 < active \<and> offset + 1 = br_Start (seg_Range (segments ! active))"
    by (rule splitPath_spec [OF assms])
  obtain diagnosed where d: "diagnosticPathSegments source path = Some diagnosed"
    "map seg_Text diagnosed = split_dunder (range_text source path)"
    using diagnosticPathSegments_spec [OF le assms(3)] by blast
  have "join_dunder (map seg_Text segments) = range_text source path" unfolding s(2) by (rule join_split_dunder)
  then show ?thesis
    by (intro exI conjI)
      (rule s(1), rule d(1), simp only: s(2) d(2), assumption, use s(3) in \<open>simp add: list_all_iff\<close>, rule s(4), use s(5) in argo)
qed

section \<open>Instances\<close>

lemmas scan_defs = enclosingFunctionCall_def enclosingCall_def open_parens_def code_bytes_def paren_step_def
  pythonCodeMask_def full_lexer_def is_quote_def call_name_def callAfterOpening_def expressionBefore_def
  expression_loop.simps isSpace_def isIdentifierByte_def subslice_def skip_while.simps upt_rec numeral_nat

lemma enclosing_calls_exclusive_witness:
  "enclosingFunctionCall ''f(g(),'' 6 = Some \<lparr>fc_name = ''f'', fc_opening = 1, fc_argumentsStart = 2\<rparr> \<and>
   enclosingCall ''f(g(),'' 6 = None"
proof -
  have f: "enclosingFunctionCall ''f(g(),'' 6 = Some \<lparr>fc_name = ''f'', fc_opening = 1, fc_argumentsStart = 2\<rparr>"
    by (simp add: scan_defs)
  show ?thesis using enclosing_calls_exclusive [OF f] f by simp
qed

lemma enclosing_call_innermost_witness:
  "enclosingCall ''o.f(g(),'' 8 = Some \<lparr>call_method = ''f'', call_receiver = \<lparr>br_Start = 0, br_End = 1\<rparr>, call_argumentsStart = 4\<rparr> \<and>
   (\<exists>pre suf. code_bytes ''o.f(g(),'' 8 = pre @ (3, CHR ''('') # suf \<and> balanced suf)"
proof -
  have c: "enclosingCall ''o.f(g(),'' 8 = Some \<lparr>call_method = ''f'', call_receiver = \<lparr>br_Start = 0, br_End = 1\<rparr>, call_argumentsStart = 4\<rparr>"
    by (simp add: scan_defs)
  then show ?thesis using enclosing_call_innermost [OF c] by auto
qed

lemmas string_defs = plain_prefix_def ascii_lower_def quote_width_def content_end.simps

lemma string_path_is_content_witness:
  "stringPathRange (''(r'' @ double_quote # ''a__b'' @ [double_quote, CHR '')'']) \<lparr>arg_start = 1, arg_index = 0\<rparr> 5 = Some \<lparr>br_Start = 3, br_End = 7\<rparr> \<and>
   backslash \<notin> set (subslice (''(r'' @ double_quote # ''a__b'' @ [double_quote, CHR '')'']) 3 7)"
proof -
  have r: "stringPathRange (''(r'' @ double_quote # ''a__b'' @ [double_quote, CHR '')'']) \<lparr>arg_start = 1, arg_index = 0\<rparr> 5 = Some \<lparr>br_Start = 3, br_End = 7\<rparr>"
    by (simp add: stringPathRange_def Let_def string_defs scan_defs split del: if_split)
  show ?thesis using string_path_is_content [OF r] r by (simp del: append_Cons)
qed

lemma string_list_path_unique_witness:
  "stringListElements (''['' @ double_quote # ''a'' @ [double_quote, CHR '','', CHR '' '', double_quote] @ ''b'' @ [double_quote, CHR '']'']) 0 = Some [\<lparr>br_Start = 2, br_End = 3\<rparr>, \<lparr>br_Start = 7, br_End = 8\<rparr>] \<and>
   stringListPathRange (''['' @ double_quote # ''a'' @ [double_quote, CHR '','', CHR '' '', double_quote] @ ''b'' @ [double_quote, CHR '']'']) 0 7 = Some \<lparr>br_Start = 7, br_End = 8\<rparr>"
proof -
  have e: "stringListElements (''['' @ double_quote # ''a'' @ [double_quote, CHR '','', CHR '' '', double_quote] @ ''b'' @ [double_quote, CHR '']'']) 0 = Some [\<lparr>br_Start = 2, br_End = 3\<rparr>, \<lparr>br_Start = 7, br_End = 8\<rparr>]"
    by (simp add: stringListElements_def list_elements.simps list_element_def Let_def string_defs scan_defs split del: if_split)
  show ?thesis using string_list_path_unique [OF e, of 7] e by simp
qed

lemma path_segments_spell_path_witness:
  "\<exists>segments active onSeparator. splitPath ''a__b'' \<lparr>br_Start = 0, br_End = 4\<rparr> 3 = Some (segments, active, onSeparator) \<and>
     join_dunder (map seg_Text segments) = ''a__b''"
  using path_segments_spell_path [of "\<lparr>br_Start = 0, br_End = 4\<rparr>" 3 "''a__b''"] by (auto simp: subslice_def)

end
