(* ===== verification/Go_Io.thy ===== *)
theory Go_Io
  imports Go_Strings
begin

text \<open>
  What the program uses of \<open>bufio\<close>, \<open>io\<close> and \<open>strconv\<close>: a buffered reader over a stream, writers
  that may accept only a part of what they are given, and decimal numbers.
\<close>

section \<open>Readers\<close>

text \<open>
  A reader is the bytes its stream still holds, the error that follows them and the size of the
  buffer, which \<open>bufio\<close> makes at least 16. \<open>ReadSlice\<close> fails with \<open>ErrBufferFull\<close> when the buffer
  holds no delimiter, and with the stream's error when the stream ends before it is full.
\<close>

record reader =
  rd_rest :: string
  rd_err :: goerror
  rd_size :: nat

definition EOF :: goerror where "EOF = errorf ''EOF'' []"
definition ErrUnexpectedEOF :: goerror where "ErrUnexpectedEOF = errorf ''unexpected EOF'' []"
definition ErrShortWrite :: goerror where "ErrShortWrite = errorf ''short write'' []"

datatype slice_error = BufferFull | StreamError goerror

abbreviation buffer_size :: "reader \<Rightarrow> nat" where
  "buffer_size r \<equiv> max 16 (rd_size r)"

definition ReadSlice :: "char \<Rightarrow> reader \<Rightarrow> (string \<times> slice_error option) \<times> reader" where
  "ReadSlice delim r = (case IndexByte (take (buffer_size r) (rd_rest r)) delim of
     Some i \<Rightarrow> ((take (Suc i) (rd_rest r), None), r\<lparr>rd_rest := drop (Suc i) (rd_rest r)\<rparr>)
   | None \<Rightarrow>
       if buffer_size r \<le> length (rd_rest r)
       then ((take (buffer_size r) (rd_rest r), Some BufferFull), r\<lparr>rd_rest := drop (buffer_size r) (rd_rest r)\<rparr>)
       else ((rd_rest r, Some (StreamError (rd_err r))), r\<lparr>rd_rest := []\<rparr>))"

lemma ReadSlice_full:
  assumes "ReadSlice delim r = ((chunk, Some BufferFull), r')"
  shows "rd_rest r = chunk @ rd_rest r'" and "delim \<notin> set chunk" and "length (rd_rest r') < length (rd_rest r)"
    and "rd_err r' = rd_err r" and "rd_size r' = rd_size r"
  using assms by (auto simp: ReadSlice_def IndexByte_None split: option.splits if_splits)

lemma ReadSlice_found:
  assumes "ReadSlice delim r = ((chunk, None), r')"
  obtains b where "chunk = b @ [delim]" and "delim \<notin> set b" and "rd_rest r = b @ delim # rd_rest r'" and "rd_err r' = rd_err r"
    and "rd_size r' = rd_size r"
proof -
  obtain i where i: "IndexByte (take (buffer_size r) (rd_rest r)) delim = Some i"
    "chunk = take (Suc i) (rd_rest r)" "r' = r\<lparr>rd_rest := drop (Suc i) (rd_rest r)\<rparr>"
    using assms by (auto simp: ReadSlice_def split: option.splits if_splits)
  have f: "i < length (rd_rest r)" "rd_rest r ! i = delim" "delim \<notin> set (take i (rd_rest r))"
    using IndexByte_Some [OF i(1)] by (auto simp: min_def split: if_splits)
  show thesis
    by (rule that [of "take i (rd_rest r)"]) (use f i(2,3) id_take_nth_drop [OF f(1)] in \<open>simp_all add: take_Suc_conv_app_nth\<close>)
qed

lemma ReadSlice_end:
  assumes "ReadSlice delim r = ((chunk, Some (StreamError e)), r')"
  shows "chunk = rd_rest r" and "delim \<notin> set chunk" and "e = rd_err r" and "r' = r\<lparr>rd_rest := []\<rparr>"
  using assms by (auto simp: ReadSlice_def IndexByte_None split: option.splits if_splits)

lemma ReadSlice_fullI:
  assumes "buffer_size r \<le> length b" and "delim \<notin> set b" and "rd_rest r = b @ q"
  shows "ReadSlice delim r = ((take (buffer_size r) b, Some BufferFull), r\<lparr>rd_rest := drop (buffer_size r) b @ q\<rparr>)"
proof -
  define n where "n = buffer_size r"
  have take: "take n (rd_rest r) = take n b" "drop n (rd_rest r) = drop n b @ q" "n \<le> length (rd_rest r)"
    using assms(1,3) by (simp_all flip: n_def)
  have "IndexByte (take n b) delim = None" using assms(2) in_set_takeD by (fastforce simp: IndexByte_None)
  then show ?thesis unfolding ReadSlice_def n_def [symmetric] take(1) using take by simp
qed

lemma ReadSlice_foundI:
  assumes "length b < buffer_size r" and "delim \<notin> set b" and "rd_rest r = b @ delim # q"
  shows "ReadSlice delim r = ((b @ [delim], None), r\<lparr>rd_rest := q\<rparr>)"
proof -
  obtain k where k: "buffer_size r = length b + Suc k"
    using less_imp_add_positive [OF assms(1)] by (metis gr0_implies_Suc)
  have "take (buffer_size r) (rd_rest r) = b @ delim # take k q" unfolding k assms(3) by simp
  moreover have "IndexByte (b @ delim # q') delim = Some (length b)" for q'
    using assms(2) by (induction b) auto
  ultimately show ?thesis by (simp add: ReadSlice_def assms(3))
qed

text \<open>\<open>io.ReadFull\<close> into a buffer of \<open>n\<close> bytes.\<close>

definition ReadFull :: "nat \<Rightarrow> reader \<Rightarrow> (goerror + string) \<times> reader" where
  "ReadFull n r =
     (if n \<le> length (rd_rest r) then (Inr (take n (rd_rest r)), r\<lparr>rd_rest := drop n (rd_rest r)\<rparr>)
      else (Inl (if rd_rest r \<noteq> [] \<and> rd_err r = EOF then ErrUnexpectedEOF else rd_err r), r\<lparr>rd_rest := []\<rparr>))"

section \<open>Writers\<close>

text \<open>
  An \<open>io.Writer\<close> is a function on its state; it is faithful when it takes a first part of the bytes,
  as \<open>io.Writer\<close> documents. The loop that writes all, which fails with \<open>short\<close> when nothing is taken.
\<close>

type_synonym 'w writer = "'w \<Rightarrow> string \<Rightarrow> (nat \<times> goerror option) \<times> 'w"

definition faithful :: "'w writer \<Rightarrow> ('w \<Rightarrow> string) \<Rightarrow> bool" where
  "faithful put out \<longleftrightarrow> (\<forall>w p n e w'. put w p = ((n, e), w') \<longrightarrow> n \<le> length p \<and> out w' = out w @ take n p)"

function write_all :: "'w writer \<Rightarrow> goerror \<Rightarrow> string \<Rightarrow> 'w \<Rightarrow> goerror option \<times> 'w" where
  "write_all put short [] w = (None, w)"
| "write_all put short (c # cs) w =
     (case put w (c # cs) of ((written, err), w') \<Rightarrow>
       if err \<noteq> None then (err, w')
       else if written = 0 then (Some short, w')
       else write_all put short (drop written (c # cs)) w')"
  by pat_completeness auto
termination by (relation "measure (\<lambda>(put, short, p, w). length p)") auto

lemma write_all_prefix:
  assumes "faithful put out"
  shows "\<exists>n. out (snd (write_all put short p w)) = out w @ take n p \<and>
    (fst (write_all put short p w) = None \<longrightarrow> out (snd (write_all put short p w)) = out w @ p)"
  using assms
proof (induction put short p w rule: write_all.induct)
  case (2 put short c cs w)
  obtain k e w' where wr: "put w (c # cs) = ((k, e), w')" by (metis surj_pair)
  have k: "k \<le> length (c # cs)" "out w' = out w @ take k (c # cs)"
    using 2(2) wr unfolding faithful_def by blast+
  show ?case
  proof (cases "e = None \<and> k \<noteq> 0")
    case True
    let ?r = "write_all put short (drop k (c # cs)) w'"
    have "\<exists>n. out (snd ?r) = out w' @ take n (drop k (c # cs)) \<and>
      (fst ?r = None \<longrightarrow> out (snd ?r) = out w' @ drop k (c # cs))"
      using 2(1) [OF wr [symmetric] refl] True 2(2) by simp
    then obtain n where IH: "out (snd ?r) = out w' @ take n (drop k (c # cs)) \<and>
      (fst ?r = None \<longrightarrow> out (snd ?r) = out w' @ drop k (c # cs))" ..
    note n = IH [THEN conjunct1] IH [THEN conjunct2]
    have "write_all put short (c # cs) w = ?r" using True wr by simp
    moreover have "out (snd ?r) = out w @ take (k + n) (c # cs)" unfolding n(1) k(2) take_add append_assoc ..
    moreover have "out w' @ drop k (c # cs) = out w @ c # cs" unfolding k(2) append_assoc append_take_drop_id ..
    ultimately show ?thesis using n(2) by (intro exI [of _ "k + n"]) simp
  next
    case False
    then have "write_all put short (c # cs) w = (if e \<noteq> None then e else Some short, w')" using wr by auto
    then show ?thesis using False k(2) by auto
  qed
qed simp

section \<open>Decimal numbers\<close>

definition digit :: "nat \<Rightarrow> char" where
  "digit n = char_of (48 + n)"

function decimal :: "nat \<Rightarrow> string" where
  "decimal n = (if n < 10 then [digit n] else decimal (n div 10) @ [digit (n mod 10)])"
  by pat_completeness auto
termination by (relation "measure id") auto

declare decimal.simps [simp del]

definition is_digit :: "char \<Rightarrow> bool" where
  "is_digit c \<longleftrightarrow> 48 \<le> (of_char c :: nat) \<and> (of_char c :: nat) \<le> 57"

definition digits_value :: "string \<Rightarrow> nat" where
  "digits_value s = foldl (\<lambda>v c. 10 * v + (of_char c - 48)) 0 s"

text \<open>\<open>strconv.Atoi\<close>: an optional sign and digits, within 64 bits.\<close>

definition Atoi :: "string \<Rightarrow> int option" where
  "Atoi s = (let (negative, ds) = (case s of [] \<Rightarrow> (False, [])
       | c # cs \<Rightarrow> if c = CHR ''-'' then (True, cs) else if c = CHR ''+'' then (False, cs) else (False, c # cs)) in
     if ds = [] \<or> \<not> list_all is_digit ds then None
     else let v = int (digits_value ds) in
       if negative then (if v \<le> 2 ^ 63 then Some (- v) else None) else if v < 2 ^ 63 then Some v else None)"

lemma digit_value: "n < 10 \<Longrightarrow> (of_char (digit n) :: nat) = 48 + n"
  by (simp add: digit_def)

lemma decimal_digits: "decimal n \<noteq> [] \<and> list_all is_digit (decimal n)"
proof (induction n rule: decimal.induct)
  case (1 n)
  have "is_digit (digit (n mod 10))" by (simp add: is_digit_def digit_value)
  then show ?case using 1 by (subst (1 2) decimal.simps) (auto simp: digit_value is_digit_def [of "digit n"])
qed

lemma digits_value_decimal [simp]: "digits_value (decimal n) = n"
proof (induction n rule: decimal.induct)
  case (1 n)
  have d: "(of_char (digit (n mod 10)) :: nat) = 48 + n mod 10" by (rule digit_value) simp
  show ?case
  proof (cases "n < 10")
    case True
    then show ?thesis by (simp add: decimal.simps [of n] digits_value_def digit_value)
  next
    case False
    have "digits_value (decimal n) = 10 * digits_value (decimal (n div 10)) + n mod 10"
      using False d by (simp add: decimal.simps [of n] digits_value_def)
    then show ?thesis using 1 False by simp
  qed
qed

lemma Atoi_decimal: "int n < 2 ^ 63 \<Longrightarrow> Atoi (decimal n) = Some (int n)"
proof -
  assume n: "int n < 2 ^ 63"
  obtain c cs where c: "decimal n = c # cs" using decimal_digits [of n] by (cases "decimal n") auto
  have "is_digit c" using decimal_digits [of n] by (simp add: c)
  then have "c \<noteq> CHR ''-''" "c \<noteq> CHR ''+''" by (auto simp: is_digit_def)
  then show ?thesis
    using decimal_digits [of n] digits_value_decimal [of n] n by (simp add: Atoi_def c)
qed

end
