(* ===== verification/Worker_Frames.thy ===== *)
theory Worker_Frames
  imports Go_Io
begin

text \<open>
  The two framings of messages over a stream: one JSON text per line between the server and its
  worker (\<open>internal/python/frame.go\<close>), and the base protocol of the language server with its
  \<open>Content-Length\<close> header as the test harness speaks it (\<open>internal/harness/frame.go\<close>). Both are frame
  channels: what is written is read back message by message, whatever the size of the buffer and
  however the writer cuts the bytes.
\<close>

abbreviation line_feed :: char where "line_feed \<equiv> CHR 0x0A"
abbreviation crlf :: string where "crlf \<equiv> [CHR 0x0D, CHR 0x0A]"

section \<open>Frame channels\<close>

locale frame_channel =
  fixes framed :: "string \<Rightarrow> bool"
    and encode :: "string \<Rightarrow> string"
    and read_frame :: "reader \<Rightarrow> (goerror + string) \<times> reader"
  assumes read_encoded: "framed p \<Longrightarrow> rd_rest r = encode p @ rest \<Longrightarrow> read_frame r = (Inr p, r\<lparr>rd_rest := rest\<rparr>)"
begin

text \<open>Reading \<open>n\<close> messages, up to the first error.\<close>

fun read_frames :: "nat \<Rightarrow> reader \<Rightarrow> (goerror + string list) \<times> reader" where
  "read_frames 0 r = (Inr [], r)"
| "read_frames (Suc n) r = (case read_frame r of
     (Inl e, r') \<Rightarrow> (Inl e, r')
   | (Inr p, r') \<Rightarrow> (case read_frames n r' of (Inl e, r'') \<Rightarrow> (Inl e, r'') | (Inr ps, r'') \<Rightarrow> (Inr (p # ps), r'')))"

lemma read_frames_encoded:
  "\<forall>p \<in> set ps. framed p \<Longrightarrow> rd_rest r = concat (map encode ps) @ rest \<Longrightarrow>
   read_frames (length ps) r = (Inr ps, r\<lparr>rd_rest := rest\<rparr>)"
proof (induction ps arbitrary: r)
  case (Cons p ps)
  have "read_frame r = (Inr p, r\<lparr>rd_rest := concat (map encode ps) @ rest\<rparr>)"
    by (rule read_encoded) (use Cons.prems in simp_all)
  then show ?case using Cons.IH [of "r\<lparr>rd_rest := concat (map encode ps) @ rest\<rparr>"] Cons.prems(1) by simp
qed simp

lemma encode_decodable:
  assumes "framed p" and "framed q" and "encode p @ rest = encode q @ rest'"
  shows "p = q \<and> rest = rest'"
proof -
  let ?r = "\<lparr>rd_rest = encode p @ rest, rd_err = EOF, rd_size = 0\<rparr>"
  have "read_frame ?r = (Inr p, ?r\<lparr>rd_rest := rest\<rparr>)" by (rule read_encoded [OF assms(1)]) simp
  moreover have "read_frame ?r = (Inr q, ?r\<lparr>rd_rest := rest'\<rparr>)" by (rule read_encoded [OF assms(2)]) (simp add: assms(3))
  ultimately show ?thesis by simp
qed

end

section \<open>The worker's frames\<close>

definition MaxFrameSize :: nat where "MaxFrameSize = 32 * 1024 * 1024"

definition ErrFrameTooLarge :: goerror where
  "ErrFrameTooLarge = errorf ''IPC frame exceeds maximum size'' []"

text \<open>The loop of \<open>ReadFrame\<close> with what it has read so far.\<close>

function ReadFrame_loop :: "string \<Rightarrow> reader \<Rightarrow> (goerror + string) \<times> reader" where
  "ReadFrame_loop frame r =
     (case ReadSlice line_feed r of ((chunk, err), r') \<Rightarrow>
       if MaxFrameSize + 1 < length frame + length chunk then (Inl ErrFrameTooLarge, r')
       else let frame' = frame @ chunk in case err of
         None \<Rightarrow> let payload = TrimSuffix frame' [line_feed] in
           if payload = [] then (Inl (errorf ''empty IPC frame'' []), r') else (Inr payload, r')
       | Some BufferFull \<Rightarrow> ReadFrame_loop frame' r'
       | Some (StreamError e) \<Rightarrow>
           if e = EOF \<and> frame' \<noteq> [] then (Inl ErrUnexpectedEOF, r') else (Inl e, r'))"
  by pat_completeness auto
termination
  by (relation "measure (\<lambda>(frame, r). length (rd_rest r))")
    (auto dest!: ReadSlice_full(3) [OF sym])

declare ReadFrame_loop.simps [simp del]

definition ReadFrame :: "reader \<Rightarrow> (goerror + string) \<times> reader" where
  "ReadFrame r = ReadFrame_loop [] r"

text \<open>\<open>payload\<close> is what \<open>marshalStrict\<close> returns.\<close>

definition WriteFrame :: "'w writer \<Rightarrow> goerror + string \<Rightarrow> 'w \<Rightarrow> goerror option \<times> 'w" where
  "WriteFrame put payload w = (case payload of
     Inl e \<Rightarrow> (Some e, w)
   | Inr p \<Rightarrow>
       if p = [] \<or> MaxFrameSize < length p then (Some ErrFrameTooLarge, w)
       else write_all put (wrapf ''write IPC frame: %w'' [] ErrShortWrite) (p @ [line_feed]) w)"

subsection \<open>Reading does not depend on the buffer\<close>

text \<open>What a frame is, of the bytes of the stream alone.\<close>

definition frame_of :: "string \<Rightarrow> goerror \<Rightarrow> goerror + string" where
  "frame_of rest e = (case cut_byte line_feed rest of (b, a, found) \<Rightarrow>
     if MaxFrameSize + 1 < length b + (if found then 1 else 0) then Inl ErrFrameTooLarge
     else if found then (if b = [] then Inl (errorf ''empty IPC frame'' []) else Inr b)
     else if e = EOF \<and> b \<noteq> [] then Inl ErrUnexpectedEOF else Inl e)"

lemma frame_of_found: "line_feed \<notin> set b \<Longrightarrow> frame_of (b @ line_feed # a) e =
    (if MaxFrameSize < length b then Inl ErrFrameTooLarge
     else if b = [] then Inl (errorf ''empty IPC frame'' []) else Inr b)"
  by (simp add: frame_of_def cut_byte_append)

lemma cut_byte_none: "c \<notin> set s \<Longrightarrow> cut_byte c s = (s, [], False)"
  by (induction s) auto

lemma frame_of_end: "line_feed \<notin> set b \<Longrightarrow> frame_of b e =
    (if MaxFrameSize + 1 < length b then Inl ErrFrameTooLarge
     else if e = EOF \<and> b \<noteq> [] then Inl ErrUnexpectedEOF else Inl e)"
  by (simp add: frame_of_def cut_byte_none)

lemma frame_of_long:
  assumes "line_feed \<notin> set b" and "MaxFrameSize + 1 < length b"
  shows "frame_of (b @ rest) e = Inl ErrFrameTooLarge"
proof (cases "cut_byte line_feed rest")
  case (fields b' a found)
  have "cut_byte line_feed (b @ rest) = (b @ b', a, found)"
    using assms(1) fields by (induction b) auto
  then show ?thesis using assms(2) by (simp add: frame_of_def)
qed

lemma TrimSuffix_one [simp]: "TrimSuffix (b @ [c]) [c] = b"
  by (simp add: TrimSuffix_def HasSuffix_def)

lemma ReadFrame_loop_value:
  assumes "line_feed \<notin> set frame" and "length frame \<le> MaxFrameSize + 1"
  shows "fst (ReadFrame_loop frame r) = frame_of (frame @ rd_rest r) (rd_err r)"
  using assms
proof (induction frame r rule: ReadFrame_loop.induct)
  case (1 frame r)
  obtain chunk err r' where sl: "ReadSlice line_feed r = ((chunk, err), r')" by (metis surj_pair)
  show ?case
  proof (cases err)
    case None
    obtain b where b: "chunk = b @ [line_feed]" "line_feed \<notin> set b" "rd_rest r = b @ line_feed # rd_rest r'"
      using ReadSlice_found [OF sl [unfolded None]] by metis
    have "frame_of (frame @ rd_rest r) (rd_err r) = frame_of ((frame @ b) @ line_feed # rd_rest r') (rd_err r)"
      using b(3) by simp
    then show ?thesis
      using sl None b(1,2) 1(2) by (simp add: ReadFrame_loop.simps [of frame r] frame_of_found flip: append_assoc)
  next
    case (Some e)
    show ?thesis
    proof (cases e)
      case BufferFull
      note f = ReadSlice_full [OF sl [unfolded Some BufferFull]]
      show ?thesis
      proof (cases "MaxFrameSize + 1 < length frame + length chunk")
        case True
        then show ?thesis
          using sl Some BufferFull f(1,2) 1(2) frame_of_long [of "frame @ chunk" "rd_rest r'" "rd_err r"]
          by (simp add: ReadFrame_loop.simps [of frame r])
      next
        case False
        have "fst (ReadFrame_loop (frame @ chunk) r') = frame_of ((frame @ chunk) @ rd_rest r') (rd_err r')"
          by (rule 1(1) [OF sl [symmetric] refl False refl Some BufferFull]) (use f(2) 1(2) False in auto)
        then show ?thesis using sl Some BufferFull False f(1,4) by (simp add: ReadFrame_loop.simps [of frame r])
      qed
    next
      case (StreamError e')
      note f = ReadSlice_end [OF sl [unfolded Some StreamError]]
      have "frame_of (frame @ rd_rest r) (rd_err r) = (if MaxFrameSize + 1 < length (frame @ rd_rest r) then Inl ErrFrameTooLarge
        else if rd_err r = EOF \<and> frame @ rd_rest r \<noteq> [] then Inl ErrUnexpectedEOF else Inl (rd_err r))"
        by (rule frame_of_end) (use 1(2) f(1,2) in simp)
      then show ?thesis using sl Some StreamError f(1,3) by (auto simp: ReadFrame_loop.simps [of frame r])
    qed
  qed
qed

lemma ReadFrame_loop_rest:
  assumes "line_feed \<notin> set b" and "length (frame @ b) \<le> MaxFrameSize" and "frame @ b \<noteq> []" and "line_feed \<notin> set frame"
    and "rd_rest r = b @ line_feed # rest"
  shows "ReadFrame_loop frame r = (Inr (frame @ b), r\<lparr>rd_rest := rest\<rparr>)"
  using assms
proof (induction "length b" arbitrary: frame r b rule: less_induct)
  case less
  show ?case
  proof (cases "length b < buffer_size r")
    case True
    then show ?thesis
      using ReadSlice_foundI [OF True less.prems(1,5)] less.prems(2,3) TrimSuffix_one [of "frame @ b" line_feed]
      by (simp add: ReadFrame_loop.simps [of frame r])
  next
    case False
    let ?n = "buffer_size r"
    have n: "?n \<le> length b" using False by (simp only: not_less)
    note sl = ReadSlice_fullI [OF n less.prems(1,5)]
    have "ReadFrame_loop (frame @ take ?n b) (r\<lparr>rd_rest := drop ?n b @ line_feed # rest\<rparr>) =
      (Inr ((frame @ take ?n b) @ drop ?n b), r\<lparr>rd_rest := drop ?n b @ line_feed # rest\<rparr>\<lparr>rd_rest := rest\<rparr>)"
      by (rule less.hyps) (use False less.prems in \<open>auto dest: in_set_takeD in_set_dropD\<close>)
    then show ?thesis using sl less.prems(2) False by (simp add: ReadFrame_loop.simps [of frame r])
  qed
qed

definition worker_framed :: "string \<Rightarrow> bool" where
  "worker_framed p \<longleftrightarrow> p \<noteq> [] \<and> length p \<le> MaxFrameSize \<and> line_feed \<notin> set p"

interpretation worker: frame_channel worker_framed "\<lambda>p. p @ [line_feed]" ReadFrame
  by unfold_locales (auto simp: worker_framed_def ReadFrame_def intro!: ReadFrame_loop_rest [of _ "[]", simplified])

end
