(* ===== verification/Harness_Frames.thy ===== *)
theory Harness_Frames
  imports Worker_Frames Go_Unicode
begin

text \<open>
  The base protocol of the language server as the test harness speaks it
  (\<open>internal/harness/frame.go\<close>): header lines, a \<open>Content-Length\<close>, a body.
\<close>

definition harness_MaxFrameSize :: nat where "harness_MaxFrameSize = 8 * 2 ^ 20"
definition maxHeaderSize :: nat where "maxHeaderSize = 8 * 2 ^ 10"

section \<open>Reading\<close>

function readHeaderLine_loop :: "string \<Rightarrow> nat \<Rightarrow> reader \<Rightarrow> (string \<times> goerror option) \<times> reader" where
  "readHeaderLine_loop line remaining r =
     (case ReadSlice line_feed r of ((fragment, err), r') \<Rightarrow>
       if remaining < length line + length fragment then (([], Some (errorf ''header exceeds maximum size'' [])), r')
       else case err of
         None \<Rightarrow> ((line @ fragment, None), r')
       | Some (StreamError e) \<Rightarrow> ((line @ fragment, Some e), r')
       | Some BufferFull \<Rightarrow> readHeaderLine_loop (line @ fragment) remaining r')"
  by pat_completeness auto
termination
  by (relation "measure (\<lambda>(line, remaining, r). length (rd_rest r))") (auto dest!: ReadSlice_full(3) [OF sym])

declare readHeaderLine_loop.simps [simp del]

definition readHeaderLine :: "reader \<Rightarrow> nat \<Rightarrow> (string \<times> goerror option) \<times> reader" where
  "readHeaderLine r remaining = readHeaderLine_loop [] remaining r"

lemma readHeaderLine_loop_moves:
  "readHeaderLine_loop line remaining r = ((line', None), r') \<Longrightarrow>
   length (rd_rest r') < length (rd_rest r) \<and> length line' \<le> remaining"
proof (induction line remaining r rule: readHeaderLine_loop.induct)
  case (1 line remaining r)
  obtain fragment err r1 where sl: "ReadSlice line_feed r = ((fragment, err), r1)" by (metis surj_pair)
  have fits: "\<not> remaining < length line + length fragment"
    using 1(2) sl by (simp add: readHeaderLine_loop.simps [of line] split: if_splits)
  show ?case
  proof (cases err)
    case None
    obtain b where "rd_rest r = b @ line_feed # rd_rest r1" using ReadSlice_found [OF sl [unfolded None]] by metis
    then show ?thesis using 1(2) sl None fits by (auto simp: readHeaderLine_loop.simps [of line])
  next
    case (Some e)
    show ?thesis
    proof (cases e)
      case BufferFull
      have "readHeaderLine_loop (line @ fragment) remaining r1 = ((line', None), r')"
        using 1(2) sl Some BufferFull fits by (simp add: readHeaderLine_loop.simps [of line])
      from 1(1) [OF sl [symmetric] refl fits Some BufferFull this]
      show ?thesis using ReadSlice_full(3) [OF sl [unfolded Some BufferFull]] by simp
    qed (use 1(2) sl Some fits in \<open>simp add: readHeaderLine_loop.simps [of line]\<close>)
  qed
qed

text \<open>What a header line says: nothing, the length, or an error.\<close>

definition header_field :: "int \<Rightarrow> int \<Rightarrow> string \<Rightarrow> goerror + int" where
  "header_field maximum contentLength line =
     (case cut_byte CHR '':'' (TrimSuffix line crlf) of (name, v, found) \<Rightarrow>
       if \<not> found then Inl (errorf ''malformed header'' [])
       else let key = ToLower (TrimSpace name) in
         if key = ''content-length'' then
           (if 0 \<le> contentLength then Inl (errorf ''duplicate Content-Length header'' [])
            else case Atoi (TrimSpace v) of
              None \<Rightarrow> Inl (errorf ''invalid Content-Length header'' [])
            | Some n \<Rightarrow>
                if n < 0 then Inl (errorf ''invalid Content-Length header'' [])
                else if maximum < n then Inl (errorf ''frame length %d exceeds maximum %d'' [AInt n, AInt maximum])
                else Inr n)
         else if key = ''content-type'' then
           (let contentType = ToLower (filter (\<lambda>c. c \<noteq> CHR '' '') (TrimSpace v)) in
            if \<not> sublist ''charset=utf-8'' contentType \<and> \<not> sublist ''charset=utf8'' contentType
            then Inl (errorf ''Content-Type charset must be UTF-8'' [])
            else Inr contentLength)
         else Inr contentLength)"

function header_loop :: "int \<Rightarrow> int \<Rightarrow> nat \<Rightarrow> reader \<Rightarrow> (goerror + int) \<times> reader" where
  "header_loop maximum contentLength headerBytes r =
     (case readHeaderLine r (maxHeaderSize - headerBytes) of ((line, err), r') \<Rightarrow>
       (case err of
          Some e \<Rightarrow>
            (if e = EOF \<and> line = [] \<and> headerBytes = 0 then (Inl EOF, r')
             else (Inl (wrapf ''read header: %w'' [] e), r'))
        | None \<Rightarrow>
            let headerBytes' = headerBytes + length line in
            if maxHeaderSize < headerBytes' then (Inl (errorf ''header exceeds maximum size'' []), r')
            else if \<not> HasSuffix line crlf then (Inl (errorf ''header line must end with CRLF'' []), r')
            else if line = crlf then (Inr contentLength, r')
            else case header_field maximum contentLength line of
              Inl e \<Rightarrow> (Inl e, r')
            | Inr contentLength' \<Rightarrow> header_loop maximum contentLength' headerBytes' r'))"
  by pat_completeness auto
termination
  by (relation "measure (\<lambda>(maximum, contentLength, headerBytes, r). length (rd_rest r))")
    (auto simp: readHeaderLine_def dest!: readHeaderLine_loop_moves [OF sym])

declare header_loop.simps [simp del]

definition harness_ReadFrame :: "int \<Rightarrow> reader \<Rightarrow> (goerror + string) \<times> reader" where
  "harness_ReadFrame maximum r =
     (case header_loop (if maximum \<le> 0 then int harness_MaxFrameSize else maximum) (- 1) 0 r of
        (Inl e, r') \<Rightarrow> (Inl e, r')
      | (Inr contentLength, r') \<Rightarrow>
          if contentLength < 0 then (Inl (errorf ''missing Content-Length header'' []), r')
          else (case ReadFull (nat contentLength) r' of
              (Inl e, r'') \<Rightarrow> (Inl (wrapf ''read body: %w'' [] e), r'')
            | (Inr body, r'') \<Rightarrow> (Inr body, r'')))"

section \<open>Writing\<close>

definition frame_header :: "string \<Rightarrow> string" where
  "frame_header body = ''Content-Length: '' @ decimal (length body) @ crlf @ crlf"

definition harness_WriteFrame :: "'w writer \<Rightarrow> string \<Rightarrow> 'w \<Rightarrow> goerror option \<times> 'w" where
  "harness_WriteFrame put body w =
     (if harness_MaxFrameSize < length body
      then (Some (errorf ''frame length %d exceeds maximum %d'' [AInt (int (length body)), AInt (int harness_MaxFrameSize)]), w)
      else (case write_all put ErrShortWrite (frame_header body) w of
          (Some e, w') \<Rightarrow> (Some (wrapf ''write header: %w'' [] e), w')
        | (None, w') \<Rightarrow> (case write_all put ErrShortWrite body w' of
            (Some e, w'') \<Rightarrow> (Some (wrapf ''write body: %w'' [] e), w'')
          | (None, w'') \<Rightarrow> (None, w''))))"

section \<open>Reading back what was written\<close>

lemma readHeaderLine_loop_rest:
  assumes "line_feed \<notin> set b" and "length (line @ b) < remaining" and "rd_rest r = b @ line_feed # rest"
  shows "readHeaderLine_loop line remaining r = ((line @ b @ [line_feed], None), r\<lparr>rd_rest := rest\<rparr>)"
  using assms
proof (induction "length b" arbitrary: line r b rule: less_induct)
  case less
  show ?case
  proof (cases "length b < buffer_size r")
    case True
    then show ?thesis
      using ReadSlice_foundI [OF True less.prems(1,3)] less.prems(2) by (simp add: readHeaderLine_loop.simps [of line])
  next
    case False
    let ?n = "buffer_size r"
    have n: "?n \<le> length b" using False by (simp only: not_less)
    note sl = ReadSlice_fullI [OF n less.prems(1,3)]
    have "readHeaderLine_loop (line @ take ?n b) remaining (r\<lparr>rd_rest := drop ?n b @ line_feed # rest\<rparr>) =
      ((((line @ take ?n b) @ drop ?n b @ [line_feed]), None), r\<lparr>rd_rest := drop ?n b @ line_feed # rest\<rparr>\<lparr>rd_rest := rest\<rparr>)"
      by (rule less.hyps) (use n less.prems in \<open>auto dest: in_set_dropD\<close>)
    moreover have "(line @ take k b) @ drop k b @ [line_feed] = line @ b @ [line_feed]" for k
      by (metis append.assoc append_take_drop_id)
    ultimately have "readHeaderLine_loop (line @ take ?n b) remaining (r\<lparr>rd_rest := drop ?n b @ line_feed # rest\<rparr>) =
      ((line @ b @ [line_feed], None), r\<lparr>rd_rest := rest\<rparr>)"
      by simp
    then show ?thesis using sl less.prems(2) by (simp add: readHeaderLine_loop.simps [of line])
  qed
qed

lemma length_decimal: "0 < k \<Longrightarrow> n < 10 ^ k \<Longrightarrow> length (decimal n) \<le> k"
proof (induction k arbitrary: n)
  case (Suc k)
  show ?case
  proof (cases "n < 10")
    case True
    then show ?thesis by (simp add: decimal.simps [of n])
  next
    case False
    then have "0 < k" using Suc.prems(2) by (cases k) auto
    moreover have "n div 10 < 10 ^ k" using Suc.prems(2) by (simp add: less_mult_imp_div_less)
    ultimately show ?thesis using Suc.IH [of "n div 10"] False by (simp add: decimal.simps [of n])
  qed
qed simp

lemma digit_char: "is_digit c \<Longrightarrow> byte c < 0x80 \<and> \<not> IsSpace (byte c) \<and> c \<noteq> line_feed \<and> c \<noteq> CHR 0x0D \<and> c \<noteq> CHR '':''"
  by (auto simp: is_digit_def IsSpace_def)

lemma decimal_chars: "\<forall>c \<in> set (decimal n). byte c < 0x80 \<and> \<not> IsSpace (byte c) \<and> c \<noteq> line_feed \<and> c \<noteq> CHR 0x0D"
  using decimal_digits [of n] digit_char by (auto simp: list_all_iff)

lemma header_field_length:
  assumes "int n \<le> maximum" and "int n < 2 ^ 63"
  shows "header_field maximum (- 1) (''Content-Length: '' @ decimal n @ crlf) = Inr (int n)"
proof -
  have trim: "TrimSuffix (''Content-Length: '' @ decimal n @ crlf) crlf = ''Content-Length: '' @ decimal n"
    by (simp add: TrimSuffix_def HasSuffix_def)
  have cut: "cut_byte CHR '':'' (''Content-Length: '' @ decimal n) = (''Content-Length'', CHR '' '' # decimal n, True)"
    using cut_byte_append [of "CHR '':''" "''Content-Length''" "CHR '' '' # decimal n"] by simp
  have name: "ToLower (TrimSpace ''Content-Length'') = ''content-length''"
    using TrimSpace_solid(1) [of "''Content-Length''"] by (simp add: IsSpace_def ToLower_def ascii_lower_def char_of_def bit_0)
  have v: "Atoi (TrimSpace (CHR '' '' # decimal n)) = Some (int n)"
    using TrimSpace_solid(2) [of "decimal n"] decimal_chars decimal_digits Atoi_decimal [OF assms(2)] by simp
  show ?thesis unfolding header_field_def trim cut using name v assms(1) by simp
qed

definition harness_framed :: "int \<Rightarrow> string \<Rightarrow> bool" where
  "harness_framed maximum p \<longleftrightarrow> length p \<le> harness_MaxFrameSize \<and> (0 < maximum \<longrightarrow> int (length p) \<le> maximum)"

lemma harness_read_encoded:
  assumes "harness_framed maximum p" and "rd_rest r = (frame_header p @ p) @ rest"
  shows "harness_ReadFrame maximum r = (Inr p, r\<lparr>rd_rest := rest\<rparr>)"
proof -
  let ?m = "if maximum \<le> 0 then int harness_MaxFrameSize else maximum"
  let ?d = "decimal (length p)"
  let ?line = "''Content-Length: '' @ ?d @ [CHR 0x0D]"
  have size: "length p \<le> 8 * 2 ^ 20" using assms(1) by (simp add: harness_framed_def harness_MaxFrameSize_def)
  then have d: "length ?d \<le> 8" by (intro length_decimal) simp_all
  have le: "int (length p) \<le> ?m" "int (length p) < 2 ^ 63"
    using assms(1) size by (auto simp: harness_framed_def)
  have plain: "line_feed \<notin> set ?line" using decimal_chars [of "length p"] by auto
  let ?r1 = "r\<lparr>rd_rest := crlf @ p @ rest\<rparr>"
  have first: "readHeaderLine r (maxHeaderSize - 0) = ((?line @ [line_feed], None), ?r1)"
    using readHeaderLine_loop_rest [OF plain, of "[]" "maxHeaderSize - 0" r "crlf @ p @ rest"] d assms(2)
    by (simp add: readHeaderLine_def frame_header_def maxHeaderSize_def)
  let ?n1 = "0 + length (?line @ [line_feed])"
  have second: "readHeaderLine ?r1 (maxHeaderSize - ?n1) = ((crlf, None), r\<lparr>rd_rest := p @ rest\<rparr>)"
    using readHeaderLine_loop_rest [of "[CHR 0x0D]" "[]" "maxHeaderSize - ?n1" ?r1 "p @ rest"] d
    by (simp add: readHeaderLine_def maxHeaderSize_def)
  have field: "header_field ?m (- 1) (?line @ [line_feed]) = Inr (int (length p))"
    using header_field_length [OF le] by simp
  have suffix: "HasSuffix (?line @ [line_feed]) crlf" "?line @ [line_feed] \<noteq> crlf" "HasSuffix crlf crlf"
    by (simp_all add: HasSuffix_def)
  have "header_loop ?m (int (length p)) ?n1 ?r1 = (Inr (int (length p)), r\<lparr>rd_rest := p @ rest\<rparr>)"
    unfolding header_loop.simps [of ?m "int (length p)"] second using d suffix(3) by (simp add: maxHeaderSize_def)
  then have "header_loop ?m (- 1) 0 r = (Inr (int (length p)), r\<lparr>rd_rest := p @ rest\<rparr>)"
    unfolding header_loop.simps [of ?m "- 1"] first
    using d suffix(1,2) field by (simp add: maxHeaderSize_def del: append_assoc append_Cons)
  then show ?thesis by (simp add: harness_ReadFrame_def ReadFull_def)
qed

interpretation harness: frame_channel "harness_framed maximum" "\<lambda>p. frame_header p @ p" "harness_ReadFrame maximum"
  by unfold_locales (rule harness_read_encoded)

end
