(* ===== verification/Worker_Protocol.thy ===== *)
theory Worker_Protocol
  imports Worker_Frames "HOL-Library.Word"
begin

text \<open>
  The messages between the server and its worker: \<open>internal/python/protocol.go\<close> and the client of
  \<open>internal/python/client.go\<close>. A JSON text is the value that \<open>encoding/json\<close> parses from it, and the
  sequence of tokens that its decoder reads; the parser itself is a parameter of the client.
\<close>

definition ProtocolVersion :: int where "ProtocolVersion = 1"

section \<open>Duplicate keys\<close>

datatype json =
    JNull
  | JBool bool
  | JInt int
  | JFloat
  | JString string
  | JArray "json list"
  | JObject "(string \<times> json) list"

datatype json_token = Delim char | StringToken string | OtherToken

text \<open>A decoder is the tokens it will return and the error after them, \<open>EOF\<close> at the end of the text.\<close>

record decoder =
  dc_tokens :: "json_token list"
  dc_err :: goerror

definition Token :: "decoder \<Rightarrow> goerror + (json_token \<times> decoder)" where
  "Token d = (case dc_tokens d of [] \<Rightarrow> Inl (dc_err d) | t # ts \<Rightarrow> Inr (t, d\<lparr>dc_tokens := ts\<rparr>))"

definition More :: "decoder \<Rightarrow> bool" where
  "More d = (case dc_tokens d of [] \<Rightarrow> False | t # ts \<Rightarrow> t \<noteq> Delim CHR '']'' \<and> t \<noteq> Delim CHR ''}'')"

definition closing_token :: "char \<Rightarrow> decoder \<Rightarrow> goerror + decoder" where
  "closing_token delimiter d = bind_err (Token d) (\<lambda>(t, d').
     if delimiter = CHR ''{'' \<and> t = Delim CHR ''}'' \<or> delimiter = CHR ''['' \<and> t = Delim CHR '']'' then Inr d'
     else Inl (errorf ''decode IPC JSON: mismatched delimiter'' []))"

function (sequential) consumeJSONValue :: "decoder \<Rightarrow> json_token \<Rightarrow> goerror + decoder"
  and consume_object :: "decoder \<Rightarrow> string list \<Rightarrow> goerror + decoder"
  and consume_array :: "decoder \<Rightarrow> goerror + decoder" where
  "consumeJSONValue d (Delim c) =
     (if c = CHR ''{'' then consume_object d []
      else if c = CHR ''['' then consume_array d
      else Inl (errorf ''decode IPC JSON: unexpected delimiter'' []))"
| "consumeJSONValue d t = Inr d"
| "consume_object d keys =
     (if More d then
        (case Token d of
           Inl e \<Rightarrow> Inl e
         | Inr (StringToken key, d1) \<Rightarrow>
             if key \<in> set keys then Inl (errorf ''decode IPC JSON: duplicate key %q'' [AStr key])
             else (case Token d1 of
                 Inl e \<Rightarrow> Inl e
               | Inr (v, d2) \<Rightarrow> (case consumeJSONValue d2 v of
                   Inl e \<Rightarrow> Inl e
                 | Inr d3 \<Rightarrow> consume_object d3 (key # keys)))
         | Inr (_, d1) \<Rightarrow> Inl (errorf ''decode IPC JSON: object key is not a string'' []))
      else closing_token CHR ''{'' d)"
| "consume_array d =
     (if More d then
        (case Token d of
           Inl e \<Rightarrow> Inl e
         | Inr (v, d1) \<Rightarrow> (case consumeJSONValue d1 v of
             Inl e \<Rightarrow> Inl e
           | Inr d2 \<Rightarrow> consume_array d2))
      else closing_token CHR ''['' d)"
  by pat_completeness auto

lemma Token_Inr: "Token d = Inr (t, d') \<longleftrightarrow> dc_tokens d = t # dc_tokens d' \<and> dc_err d' = dc_err d"
  by (cases d; cases d') (auto simp: Token_def split: list.splits)

lemma closing_shrinks: "closing_token c d = Inr d' \<Longrightarrow> length (dc_tokens d') \<le> length (dc_tokens d)"
  by (auto simp: closing_token_def bind_err_Inr Token_Inr split: if_splits)

lemma consume_shrinks:
  "consumeJSONValue_consume_object_consume_array_dom (Inl (d, t)) \<Longrightarrow> consumeJSONValue d t = Inr d' \<Longrightarrow>
     length (dc_tokens d') \<le> length (dc_tokens d)"
  "consumeJSONValue_consume_object_consume_array_dom (Inr (Inl (d, keys))) \<Longrightarrow> consume_object d keys = Inr d' \<Longrightarrow>
     length (dc_tokens d') \<le> length (dc_tokens d)"
  "consumeJSONValue_consume_object_consume_array_dom (Inr (Inr d)) \<Longrightarrow> consume_array d = Inr d' \<Longrightarrow>
     length (dc_tokens d') \<le> length (dc_tokens d)"
proof (induction d t and d keys and d arbitrary: d' and d' and d' rule: consumeJSONValue_consume_object_consume_array.pinduct)
  case (1 d c)
  then show ?case by (auto simp: consumeJSONValue.psimps split: if_splits)
next
  case (3 d keys)
  consider "\<not> More d" "closing_token CHR ''{'' d = Inr d'"
    | key d1 v d2 d3 where "More d" "Token d = Inr (StringToken key, d1)" "key \<notin> set keys" "Token d1 = Inr (v, d2)"
      "consumeJSONValue d2 v = Inr d3" "consume_object d3 (key # keys) = Inr d'"
    using 3(4) unfolding consume_object.psimps [OF 3(1)] by (auto split: if_splits sum.splits json_token.splits)
  then show ?case
  proof cases
    case 2
    then show ?thesis
      using 3(2) [OF 2(1,2) refl refl 2(3,4) refl 2(5)] 3(3) [OF 2(1,2) refl refl 2(3,4) refl 2(5,6)] by (auto simp: Token_Inr)
  qed (rule closing_shrinks)
next
  case (4 d)
  consider "\<not> More d" "closing_token CHR ''['' d = Inr d'"
    | v d1 d2 where "More d" "Token d = Inr (v, d1)" "consumeJSONValue d1 v = Inr d2" "consume_array d2 = Inr d'"
    using 4(4) unfolding consume_array.psimps [OF 4(1)] by (auto split: if_splits sum.splits)
  then show ?case
  proof cases
    case 2
    then show ?thesis
      using 4(2) [OF 2(1,2) refl 2(3)] 4(3) [OF 2(1,2) refl 2(3,4)] by (auto simp: Token_Inr)
  qed (rule closing_shrinks)
qed (auto simp: consumeJSONValue.psimps)

termination consumeJSONValue
  by (relation "measure (\<lambda>x. case x of Inl (d, t) \<Rightarrow> Suc (2 * length (dc_tokens d))
      | Inr (Inl (d, keys)) \<Rightarrow> 2 * length (dc_tokens d) | Inr (Inr d) \<Rightarrow> 2 * length (dc_tokens d))")
    (auto simp: Token_Inr dest!: consume_shrinks)


declare consume_object.simps [simp del] consume_array.simps [simp del]

definition rejectDuplicateKeys :: "decoder \<Rightarrow> goerror option" where
  "rejectDuplicateKeys d = (case Token d of
     Inl e \<Rightarrow> Some (wrapf ''decode IPC JSON: %w'' [] e)
   | Inr (t, d1) \<Rightarrow> (case consumeJSONValue d1 t of
       Inl e \<Rightarrow> Some e
     | Inr d2 \<Rightarrow> (case Token d2 of
         Inl e \<Rightarrow> if e = EOF then None else Some (wrapf ''decode IPC JSON: %w'' [] e)
       | Inr _ \<Rightarrow> Some (errorf ''decode IPC JSON: trailing value'' []))))"

subsection \<open>What it accepts\<close>

fun tokens_of :: "json \<Rightarrow> json_token list" where
  "tokens_of (JString s) = [StringToken s]"
| "tokens_of (JArray js) = Delim CHR ''['' # concat (map tokens_of js) @ [Delim CHR '']'']"
| "tokens_of (JObject ms) = Delim CHR ''{'' # concat (map (\<lambda>(k, j). StringToken k # tokens_of j) ms) @ [Delim CHR ''}'']"
| "tokens_of j = [OtherToken]"

fun unique_keys :: "json \<Rightarrow> bool" where
  "unique_keys (JArray js) = list_all unique_keys js"
| "unique_keys (JObject ms) = (distinct (map fst ms) \<and> list_all (\<lambda>(k, j). unique_keys j) ms)"
| "unique_keys j = True"

text \<open>Reading a value after its first token: the rest of the tokens, or an error.\<close>

definition consumes :: "json \<Rightarrow> bool" where
  "consumes j \<longleftrightarrow> (\<forall>ts e. \<exists>t d. Token \<lparr>dc_tokens = tokens_of j @ ts, dc_err = e\<rparr> = Inr (t, d) \<and>
     t \<noteq> Delim CHR '']'' \<and> t \<noteq> Delim CHR ''}'' \<and>
     (if unique_keys j then consumeJSONValue d t = Inr \<lparr>dc_tokens = ts, dc_err = e\<rparr>
      else \<exists>k. consumeJSONValue d t = Inl (errorf ''decode IPC JSON: duplicate key %q'' [AStr k])))"

lemma Token_Cons [simp]: "Token \<lparr>dc_tokens = t # ts, dc_err = e\<rparr> = Inr (t, \<lparr>dc_tokens = ts, dc_err = e\<rparr>)"
  by (simp add: Token_def)

lemma More_Cons [simp]: "More \<lparr>dc_tokens = t # ts, dc_err = e\<rparr> \<longleftrightarrow> t \<noteq> Delim CHR '']'' \<and> t \<noteq> Delim CHR ''}''"
  by (simp add: More_def)

lemma consumes_first:
  assumes "consumes j"
  obtains t d where "Token \<lparr>dc_tokens = tokens_of j @ ts, dc_err = e\<rparr> = Inr (t, d)" "More \<lparr>dc_tokens = tokens_of j @ ts, dc_err = e\<rparr>"
    "unique_keys j \<Longrightarrow> consumeJSONValue d t = Inr \<lparr>dc_tokens = ts, dc_err = e\<rparr>"
    "\<not> unique_keys j \<Longrightarrow> \<exists>k. consumeJSONValue d t = Inl (errorf ''decode IPC JSON: duplicate key %q'' [AStr k])"
proof -
  from assms obtain t d where t: "Token \<lparr>dc_tokens = tokens_of j @ ts, dc_err = e\<rparr> = Inr (t, d)"
    "t \<noteq> Delim CHR '']''" "t \<noteq> Delim CHR ''}''"
    "if unique_keys j then consumeJSONValue d t = Inr \<lparr>dc_tokens = ts, dc_err = e\<rparr>
      else \<exists>k. consumeJSONValue d t = Inl (errorf ''decode IPC JSON: duplicate key %q'' [AStr k])"
    unfolding consumes_def by metis
  show thesis
    by (rule that [OF t(1)]) (use t in \<open>auto simp: More_def Token_Inr split: if_splits\<close>)
qed

lemma consume_array_values:
  assumes "\<forall>j \<in> set js. consumes j"
  shows "if list_all unique_keys js
    then consume_array \<lparr>dc_tokens = concat (map tokens_of js) @ Delim CHR '']'' # ts, dc_err = e\<rparr> = Inr \<lparr>dc_tokens = ts, dc_err = e\<rparr>
    else \<exists>k. consume_array \<lparr>dc_tokens = concat (map tokens_of js) @ Delim CHR '']'' # ts, dc_err = e\<rparr> =
      Inl (errorf ''decode IPC JSON: duplicate key %q'' [AStr k])"
  using assms
proof (induction js)
  case Nil
  then show ?case by (simp add: consume_array.simps closing_token_def)
next
  case (Cons j js)
  let ?d = "\<lparr>dc_tokens = concat (map tokens_of js) @ Delim CHR '']'' # ts, dc_err = e\<rparr>"
  have "consumes j" using Cons.prems by simp
  then obtain t d where t: "Token \<lparr>dc_tokens = tokens_of j @ dc_tokens ?d, dc_err = e\<rparr> = Inr (t, d)"
    "More \<lparr>dc_tokens = tokens_of j @ dc_tokens ?d, dc_err = e\<rparr>"
    "unique_keys j \<Longrightarrow> consumeJSONValue d t = Inr ?d"
    "\<not> unique_keys j \<Longrightarrow> \<exists>k. consumeJSONValue d t = Inl (errorf ''decode IPC JSON: duplicate key %q'' [AStr k])"
    by (rule consumes_first [where ts = "dc_tokens ?d" and e = e]) simp
  show ?case
    using t Cons by (cases "unique_keys j") (auto simp: consume_array.simps [of "\<lparr>dc_tokens = tokens_of j @ _, dc_err = e\<rparr>"])
qed

lemma consume_object_members:
  assumes "\<forall>(k, j) \<in> set ms. consumes j" and "distinct keys"
  shows "if distinct (keys @ map fst ms) \<and> list_all (\<lambda>(k, j). unique_keys j) ms
    then consume_object \<lparr>dc_tokens = concat (map (\<lambda>(k, j). StringToken k # tokens_of j) ms) @ Delim CHR ''}'' # ts, dc_err = e\<rparr> keys =
      Inr \<lparr>dc_tokens = ts, dc_err = e\<rparr>
    else \<exists>k. consume_object \<lparr>dc_tokens = concat (map (\<lambda>(k, j). StringToken k # tokens_of j) ms) @ Delim CHR ''}'' # ts, dc_err = e\<rparr> keys =
      Inl (errorf ''decode IPC JSON: duplicate key %q'' [AStr k])"
  using assms
proof (induction ms arbitrary: keys)
  case Nil
  then show ?case by (simp add: consume_object.simps closing_token_def)
next
  case (Cons m ms)
  obtain k j where m: "m = (k, j)" by (cases m)
  let ?d = "\<lparr>dc_tokens = concat (map (\<lambda>(k, j). StringToken k # tokens_of j) ms) @ Delim CHR ''}'' # ts, dc_err = e\<rparr>"
  have "consumes j" using Cons.prems by (simp add: m)
  then obtain t d where t: "Token \<lparr>dc_tokens = tokens_of j @ dc_tokens ?d, dc_err = e\<rparr> = Inr (t, d)"
    "unique_keys j \<Longrightarrow> consumeJSONValue d t = Inr ?d"
    "\<not> unique_keys j \<Longrightarrow> \<exists>k. consumeJSONValue d t = Inl (errorf ''decode IPC JSON: duplicate key %q'' [AStr k])"
    by (rule consumes_first [where ts = "dc_tokens ?d" and e = e]) simp
  show ?case
  proof (cases "k \<in> set keys")
    case True
    then show ?thesis by (auto simp: m consume_object.simps [of "\<lparr>dc_tokens = StringToken k # _, dc_err = e\<rparr>"])
  next
    case False
    have "distinct (k # keys)" using False Cons.prems(2) by simp
    note IH = Cons.IH [OF _ this]
    show ?thesis
      using t IH Cons.prems False
      by (cases "unique_keys j") (auto simp: m consume_object.simps [of "\<lparr>dc_tokens = StringToken k # _, dc_err = e\<rparr>"])
  qed
qed

lemma consumes_all: "consumes j"
proof (induction j)
  case (JArray js)
  then have "\<forall>j \<in> set js. consumes j" by auto
  from consume_array_values [OF this] show ?case unfolding consumes_def by simp
next
  case (JObject ms)
  have "\<forall>(k, j) \<in> set ms. consumes j" using JObject by auto
  from consume_object_members [OF this, of "[]"] show ?case unfolding consumes_def by simp
qed (simp_all add: consumes_def)

lemma rejectDuplicateKeys_iff:
  "rejectDuplicateKeys \<lparr>dc_tokens = tokens_of j, dc_err = EOF\<rparr> = None \<longleftrightarrow> unique_keys j"
proof -
  obtain t d where t: "Token \<lparr>dc_tokens = tokens_of j @ [], dc_err = EOF\<rparr> = Inr (t, d)"
    "unique_keys j \<Longrightarrow> consumeJSONValue d t = Inr \<lparr>dc_tokens = [], dc_err = EOF\<rparr>"
    "\<not> unique_keys j \<Longrightarrow> \<exists>k. consumeJSONValue d t = Inl (errorf ''decode IPC JSON: duplicate key %q'' [AStr k])"
    using consumes_first [OF consumes_all, of j "[]" EOF] by metis
  have "Token \<lparr>dc_tokens = [], dc_err = EOF\<rparr> = Inl EOF" by (simp add: Token_def)
  then show ?thesis using t by (cases "unique_keys j") (auto simp: rejectDuplicateKeys_def)
qed

end
