(* ===== verification/Worker_Client.thy ===== *)
theory Worker_Client
  imports Worker_Protocol
begin

text \<open>
  Responses of the worker (\<open>decodeResponsePayload\<close> of \<open>internal/python/protocol.go\<close>) and the client
  that sends one request at a time over the connection (\<open>internal/python/client.go\<close>). Encoding and
  parsing JSON text is the parameter \<open>codec\<close>: the text of a request, the tokens and the value of a
  payload, and when a key names a field of a Go structure (exactly, or up to case folding).
\<close>

section \<open>Responses\<close>

record request =
  rq_ProtocolVersion :: int
  rq_ID :: string
  rq_Method :: string

record codec =
  cd_marshal :: "request \<Rightarrow> goerror + string"
  cd_tokens :: "string \<Rightarrow> decoder"
  cd_parse :: "string \<Rightarrow> goerror + json"
  cd_names :: "string \<Rightarrow> string \<Rightarrow> bool"

record RemoteError =
  re_Code :: string
  re_Message :: string

datatype response_error = Remote RemoteError | Broken goerror

text \<open>The destination of a result: the check of a snapshot's wire form, if it is one, and the decoder.\<close>

record destination =
  ds_validate :: "(json \<Rightarrow> goerror option) option"
  ds_decode :: "json \<Rightarrow> goerror option"

text \<open>\<open>json.Unmarshal\<close> into a map, an \<open>int\<close> and a \<open>string\<close>; \<open>null\<close> leaves the zero value.\<close>

definition type_error :: goerror where
  "type_error = errorf ''json: cannot unmarshal'' []"

fun unmarshal_map :: "json \<Rightarrow> goerror + json gomap" where
  "unmarshal_map (JObject ms) = Inr (fold (\<lambda>(k, j). gomap_put k j) ms [])"
| "unmarshal_map JNull = Inr []"
| "unmarshal_map _ = Inl type_error"

fun unmarshal_int :: "json \<Rightarrow> goerror + int" where
  "unmarshal_int (JInt n) = (if - (2 ^ 63) \<le> n \<and> n < 2 ^ 63 then Inr n else Inl type_error)"
| "unmarshal_int JNull = Inr 0"
| "unmarshal_int _ = Inl type_error"

fun unmarshal_string :: "json \<Rightarrow> goerror + string" where
  "unmarshal_string (JString s) = Inr s"
| "unmarshal_string JNull = Inr []"
| "unmarshal_string _ = Inl type_error"

text \<open>The structured error: unknown fields are refused, \<open>null\<close> leaves a field as it is.\<close>

definition remote_field :: "(string \<Rightarrow> string \<Rightarrow> bool) \<Rightarrow> string \<times> json \<Rightarrow> RemoteError \<Rightarrow> goerror + RemoteError" where
  "remote_field names m remote = (case m of (key, v) \<Rightarrow>
     if names key ''code'' then
       (if v = JNull then Inr remote else bind_err (unmarshal_string v) (\<lambda>s. Inr (remote\<lparr>re_Code := s\<rparr>)))
     else if names key ''message'' then
       (if v = JNull then Inr remote else bind_err (unmarshal_string v) (\<lambda>s. Inr (remote\<lparr>re_Message := s\<rparr>)))
     else Inl (errorf ''json: unknown field %q'' [AStr key]))"

fun decode_remote :: "(string \<Rightarrow> string \<Rightarrow> bool) \<Rightarrow> json \<Rightarrow> goerror + RemoteError" where
  "decode_remote names (JObject ms) = fold_err (remote_field names) ms \<lparr>re_Code = [], re_Message = []\<rparr>"
| "decode_remote names JNull = Inr \<lparr>re_Code = [], re_Message = []\<rparr>"
| "decode_remote names _ = Inl type_error"

definition decode_result :: "destination option \<Rightarrow> json \<Rightarrow> goerror option" where
  "decode_result result v = (case result of
     None \<Rightarrow> None
   | Some d \<Rightarrow>
       if v = JNull then None
       else (case (case ds_validate d of None \<Rightarrow> None | Some validate \<Rightarrow> validate v) of
           Some e \<Rightarrow> Some (wrapf ''validate worker schema envelope: %w'' [] e)
         | None \<Rightarrow> on_err (wrapf ''decode worker result: %w'' []) (ds_decode d v)))"

definition envelope_fields :: "string list" where
  "envelope_fields = [''protocol_version'', ''id'', ''result'', ''error'']"

definition envelope_answers :: "json gomap \<Rightarrow> string \<Rightarrow> goerror option" where
  "envelope_answers envelope expectedID = first_err
     [check (length envelope \<noteq> 4 \<or> \<not> list_all (\<lambda>f. map_of envelope f \<noteq> None) envelope_fields)
        (errorf ''worker response has invalid envelope'' []),
      check (unmarshal_int (the (map_of envelope ''protocol_version'')) \<noteq> Inr ProtocolVersion)
        (errorf ''worker protocol version mismatch'' []),
      check (unmarshal_string (the (map_of envelope ''id'')) \<noteq> Inr expectedID)
        (errorf ''worker response id mismatch'' [])]"

definition decodeResponsePayload :: "codec \<Rightarrow> string \<Rightarrow> string \<Rightarrow> destination option \<Rightarrow> response_error + json option" where
  "decodeResponsePayload cd payload expectedID result = (case rejectDuplicateKeys (cd_tokens cd payload) of
     Some e \<Rightarrow> Inl (Broken e)
   | None \<Rightarrow> (case bind_err (cd_parse cd payload) unmarshal_map of
       Inl e \<Rightarrow> Inl (Broken (wrapf ''decode worker response: %w'' [] e))
     | Inr envelope \<Rightarrow> (case envelope_answers envelope expectedID of
         Some e \<Rightarrow> Inl (Broken e)
       | None \<Rightarrow>
           let r = the (map_of envelope ''result''); err = the (map_of envelope ''error'') in
           if err \<noteq> JNull then
             (if r \<noteq> JNull then Inl (Broken (errorf ''worker error response also contains a result'' []))
              else (case decode_remote (cd_names cd) err of
                  Inr remote \<Rightarrow>
                    if re_Code remote = [] \<or> re_Message remote = []
                    then Inl (Broken (errorf ''worker response has invalid structured error'' []))
                    else Inl (Remote remote)
                | Inl _ \<Rightarrow> Inl (Broken (errorf ''worker response has invalid structured error'' []))))
           else (case decode_result result r of
               Some e \<Rightarrow> Inl (Broken e)
             | None \<Rightarrow> Inr (if r = JNull then None else Some r)))))"

section \<open>The client\<close>

record 'w client =
  cl_connection :: 'w
  cl_reader :: reader
  cl_nextID :: "64 word"
  cl_poisoned :: bool
  cl_closed :: bool
  cl_requests :: nat

definition newClient :: "'w \<Rightarrow> reader \<Rightarrow> 'w client" where
  "newClient connection r = \<lparr>cl_connection = connection, cl_reader = r, cl_nextID = 0, cl_poisoned = False,
     cl_closed = False, cl_requests = 0\<rparr>"

definition poison :: "'w client \<Rightarrow> 'w client" where
  "poison c = c\<lparr>cl_poisoned := True, cl_closed := True\<rparr>"

definition client_Close :: "'w client \<Rightarrow> 'w client" where
  "client_Close c = c\<lparr>cl_poisoned := True, cl_closed := True\<rparr>"

text \<open>
  One request: \<open>deadline\<close> is the error of \<open>SetDeadline\<close>, if any. A deadline that passes, or a
  cancelled context, shows as an error of the writer or at the end of the reader's bytes.
\<close>

definition client_exchange :: "codec \<Rightarrow> 'w writer \<Rightarrow> string \<Rightarrow> string \<Rightarrow> destination option \<Rightarrow> 'w client \<Rightarrow>
    (response_error + json option) \<times> 'w client" where
  "client_exchange cd put ident m result c =
     (case WriteFrame put (cd_marshal cd \<lparr>rq_ProtocolVersion = ProtocolVersion, rq_ID = ident, rq_Method = m\<rparr>) (cl_connection c) of
        (Some e, w) \<Rightarrow> (Inl (Broken (wrapf ''write worker request: %w'' [] e)), poison (c\<lparr>cl_connection := w\<rparr>))
      | (None, w) \<Rightarrow> (case ReadFrame (cl_reader c) of
          (Inl e, r) \<Rightarrow>
            (Inl (Broken (wrapf ''read worker response: %w'' [] e)), poison (c\<lparr>cl_connection := w, cl_reader := r\<rparr>))
        | (Inr payload, r) \<Rightarrow> (let c' = c\<lparr>cl_connection := w, cl_reader := r\<rparr> in
            case decodeResponsePayload cd payload ident result of
              Inl (Remote e) \<Rightarrow> (Inl (Remote e), c')
            | Inl (Broken e) \<Rightarrow> (Inl (Broken e), poison c')
            | Inr v \<Rightarrow> (Inr v, c'))))"

definition client_request :: "codec \<Rightarrow> 'w writer \<Rightarrow> goerror option \<Rightarrow> string \<Rightarrow> destination option \<Rightarrow> 'w client \<Rightarrow>
    (response_error + json option) \<times> 'w client" where
  "client_request cd put deadline m result c =
     (if cl_poisoned c then (Inl (Broken (errorf ''worker connection is unavailable'' [])), c)
      else let ident = cl_nextID c + 1; c' = c\<lparr>cl_requests := cl_requests c + 1, cl_nextID := ident\<rparr> in
        case deadline of
          Some e \<Rightarrow> (Inl (Broken e), c')
        | None \<Rightarrow> client_exchange cd put (decimal (unat ident)) m result c')"

section \<open>A request and its response\<close>

lemma ReadFrame_loop_Inr:
  "ReadFrame_loop frame r = (Inr p, r') \<Longrightarrow> line_feed \<notin> set frame \<Longrightarrow>
   frame @ rd_rest r = p @ line_feed # rd_rest r' \<and> line_feed \<notin> set p \<and> p \<noteq> []"
proof (induction frame r rule: ReadFrame_loop.induct)
  case (1 frame r)
  obtain chunk err r1 where sl: "ReadSlice line_feed r = ((chunk, err), r1)" by (metis surj_pair)
  have fits: "\<not> MaxFrameSize + 1 < length frame + length chunk"
    using 1(2) sl by (simp add: ReadFrame_loop.simps [of frame] split: if_splits)
  show ?case
  proof (cases err)
    case None
    obtain b where b: "chunk = b @ [line_feed]" "line_feed \<notin> set b" "rd_rest r = b @ line_feed # rd_rest r1"
      using ReadSlice_found [OF sl [unfolded None]] by metis
    have "TrimSuffix (frame @ chunk) [line_feed] = frame @ b" using TrimSuffix_one [of "frame @ b"] b(1) by simp
    then have "p = frame @ b" "p \<noteq> []" "r' = r1"
      using 1(2) sl None fits by (auto simp: ReadFrame_loop.simps [of frame] Let_def split: if_splits)
    then show ?thesis using b 1(3) by simp
  next
    case (Some e)
    show ?thesis
    proof (cases e)
      case BufferFull
      note f = ReadSlice_full [OF sl [unfolded Some BufferFull]]
      have "ReadFrame_loop (frame @ chunk) r1 = (Inr p, r')"
        using 1(2) sl Some BufferFull fits by (simp add: ReadFrame_loop.simps [of frame])
      from 1(1) [OF sl [symmetric] refl fits refl Some BufferFull this] show ?thesis using f(1,2) 1(3) by simp
    qed (use 1(2) sl Some fits in \<open>simp add: ReadFrame_loop.simps [of frame] Let_def split: if_splits\<close>)
  qed
qed

lemma ReadFrame_Inr: "ReadFrame r = (Inr p, r') \<Longrightarrow> rd_rest r = p @ line_feed # rd_rest r' \<and> line_feed \<notin> set p \<and> p \<noteq> []"
  using ReadFrame_loop_Inr [of "[]" r p r'] by (simp add: ReadFrame_def)

lemma WriteFrame_ok:
  assumes "faithful put out" and "WriteFrame put payload w = (None, w')"
  shows "\<exists>p. payload = Inr p \<and> p \<noteq> [] \<and> length p \<le> MaxFrameSize \<and> out w' = out w @ p @ [line_feed]"
proof (cases payload)
  case (Inr p)
  have ok: "p \<noteq> []" "length p \<le> MaxFrameSize"
    and run: "write_all put (wrapf ''write IPC frame: %w'' [] ErrShortWrite) (p @ [line_feed]) w = (None, w')"
    using assms(2) by (auto simp: WriteFrame_def Inr split: if_splits)
  have "out w' = out w @ p @ [line_feed]"
    using write_all_prefix [OF assms(1), of "wrapf ''write IPC frame: %w'' [] ErrShortWrite" "p @ [line_feed]" w] run by simp
  then show ?thesis using ok Inr by simp
qed (use assms(2) in \<open>simp add: WriteFrame_def\<close>)

text \<open>What makes a payload the response to a request.\<close>

definition answers :: "codec \<Rightarrow> string \<Rightarrow> string \<Rightarrow> bool" where
  "answers cd payload ident \<longleftrightarrow> rejectDuplicateKeys (cd_tokens cd payload) = None \<and>
     (\<exists>envelope. bind_err (cd_parse cd payload) unmarshal_map = Inr envelope \<and> envelope_answers envelope ident = None)"

lemma decodeResponsePayload_answers:
  assumes "decodeResponsePayload cd payload ident result = Inr v \<or>
    decodeResponsePayload cd payload ident result = Inl (Remote e)"
  shows "answers cd payload ident"
  using assms by (auto simp: decodeResponsePayload_def answers_def split: option.splits sum.splits)

lemma client_exchange_lockstep:
  assumes "faithful put out" and "client_exchange cd put ident m result c = (res, c')" and "\<not> cl_poisoned c'"
  shows "\<exists>p payload. cd_marshal cd \<lparr>rq_ProtocolVersion = ProtocolVersion, rq_ID = ident, rq_Method = m\<rparr> = Inr p \<and>
    out (cl_connection c') = out (cl_connection c) @ p @ [line_feed] \<and>
    rd_rest (cl_reader c) = payload @ line_feed # rd_rest (cl_reader c') \<and> line_feed \<notin> set payload \<and> answers cd payload ident"
proof -
  obtain w where w: "WriteFrame put (cd_marshal cd \<lparr>rq_ProtocolVersion = ProtocolVersion, rq_ID = ident, rq_Method = m\<rparr>) (cl_connection c) = (None, w)"
    using assms(2,3) by (auto simp: client_exchange_def poison_def split: prod.splits option.splits)
  obtain payload r where r: "ReadFrame (cl_reader c) = (Inr payload, r)"
    using assms(2,3) w by (auto simp: client_exchange_def poison_def split: prod.splits sum.splits)
  have d: "decodeResponsePayload cd payload ident result = Inr v \<or> decodeResponsePayload cd payload ident result = Inl (Remote e) \<Longrightarrow>
    answers cd payload ident" for v e
    by (rule decodeResponsePayload_answers)
  have c': "c' = c\<lparr>cl_connection := w, cl_reader := r\<rparr>" "answers cd payload ident"
    using assms(2,3) w r d by (auto simp: client_exchange_def poison_def Let_def split: sum.splits response_error.splits)
  show ?thesis
    using WriteFrame_ok [OF assms(1) w] ReadFrame_Inr [OF r] c' by auto
qed

end
