(* ===== verification/Worker_Properties.thy ===== *)
theory Worker_Properties
  imports Harness_Frames Worker_Client
begin

text \<open>
  What the channel between the server and its worker guarantees: frames are read back as they were
  written, objects with duplicate keys are refused, and requests and responses stay in step.
\<close>

section \<open>Frames\<close>

fun write_frames :: "'w writer \<Rightarrow> string list \<Rightarrow> 'w \<Rightarrow> goerror option \<times> 'w" where
  "write_frames put [] w = (None, w)"
| "write_frames put (p # ps) w = (case WriteFrame put (Inr p) w of
     (Some e, w') \<Rightarrow> (Some e, w')
   | (None, w') \<Rightarrow> write_frames put ps w')"

lemma write_frames_out:
  assumes "faithful put out" and "write_frames put ps w = (None, w')"
  shows "out w' = out w @ concat (map (\<lambda>p. p @ [line_feed]) ps) \<and> (\<forall>p \<in> set ps. p \<noteq> [] \<and> length p \<le> MaxFrameSize)"
  using assms(2)
proof (induction ps arbitrary: w)
  case (Cons p ps)
  then obtain w1 where w1: "WriteFrame put (Inr p) w = (None, w1)" "write_frames put ps w1 = (None, w')"
    by (auto split: prod.splits option.splits)
  show ?case using WriteFrame_ok [OF assms(1) w1(1)] Cons.IH [OF w1(2)] by simp
qed simp

text \<open>C22. What WriteFrame wrote, in any pieces, ReadFrame reads back message by message, with any
  buffer; JSON texts hold no line feed.\<close>

theorem worker_frames_round_trip:
  assumes "faithful put out" and "list_all (\<lambda>p. line_feed \<notin> set p) ps"
    and "write_frames put ps w = (None, w')" and "rd_rest r = drop (length (out w)) (out w') @ rest"
  shows "worker.read_frames (length ps) r = (Inr ps, r\<lparr>rd_rest := rest\<rparr>)"
proof (rule worker.read_frames_encoded)
  note out = write_frames_out [OF assms(1,3)]
  show "\<forall>p \<in> set ps. worker_framed p" using out assms(2) by (auto simp: worker_framed_def list_all_iff)
  show "rd_rest r = concat (map (\<lambda>p. p @ [line_feed]) ps) @ rest" using out assms(4) by simp
qed

text \<open>What ReadFrame returns depends on the bytes of the stream alone, not on the buffer: the
  line up to the first line feed, or the error for an empty, unfinished or oversized frame.\<close>

theorem frame_reading_ignores_buffer: "fst (ReadFrame r) = frame_of (rd_rest r) (rd_err r)"
  using ReadFrame_loop_value [of "[]" r] by (simp add: ReadFrame_def)

text \<open>What the harness writes as one frame it reads back whole, and the next read starts after
  it, with any buffer, unless the reader's maximum is smaller.\<close>

theorem harness_frame_round_trip:
  assumes "faithful put out" and "harness_WriteFrame put body w = (None, w')"
    and "rd_rest r = drop (length (out w)) (out w') @ rest" and "maximum \<le> 0 \<or> int (length body) \<le> maximum"
  shows "harness_ReadFrame maximum r = (Inr body, r\<lparr>rd_rest := rest\<rparr>)"
proof -
  have size: "length body \<le> harness_MaxFrameSize"
    using assms(2) by (simp add: harness_WriteFrame_def split: if_splits)
  obtain w1 where w1: "write_all put ErrShortWrite (frame_header body) w = (None, w1)"
    "write_all put ErrShortWrite body w1 = (None, w')"
    using assms(2) by (auto simp: harness_WriteFrame_def split: if_splits prod.splits option.splits)
  have "out w' = out w @ frame_header body @ body"
    using write_all_prefix [OF assms(1), of ErrShortWrite "frame_header body" w]
      write_all_prefix [OF assms(1), of ErrShortWrite body w1] w1 by simp
  then show ?thesis
    by (intro harness.read_encoded) (use size assms(3,4) in \<open>auto simp: harness_framed_def\<close>)
qed

section \<open>Messages\<close>

text \<open>C23. The check for duplicate keys accepts the tokens of a JSON value exactly if no object in it,
  at any depth, has a key twice.\<close>

theorem duplicate_keys_rejected:
  "rejectDuplicateKeys \<lparr>dc_tokens = tokens_of j, dc_err = EOF\<rparr> = None \<longleftrightarrow> unique_keys j"
  by (rule rejectDuplicateKeys_iff)

text \<open>A sequence of requests, each with the error of its deadline, its method and its destination.\<close>

fun client_run :: "codec \<Rightarrow> 'w writer \<Rightarrow> (goerror option \<times> string \<times> destination option) list \<Rightarrow> 'w client \<Rightarrow> 'w client" where
  "client_run cd put [] c = c"
| "client_run cd put ((deadline, m, result) # rs) c = client_run cd put rs (snd (client_request cd put deadline m result c))"

lemma client_request_poisoned: "cl_poisoned c \<Longrightarrow> snd (client_request cd put deadline m result c) = c"
  by (simp add: client_request_def)

lemma client_run_poisoned: "cl_poisoned c \<Longrightarrow> client_run cd put rs c = c"
  by (induction rs) (auto simp: client_request_poisoned)

definition requests :: "codec \<Rightarrow> string \<Rightarrow> string \<Rightarrow> bool" where
  "requests cd p ident \<longleftrightarrow> (\<exists>m. cd_marshal cd \<lparr>rq_ProtocolVersion = ProtocolVersion, rq_ID = ident, rq_Method = m\<rparr> = Inr p)"

definition id_text :: "64 word \<Rightarrow> nat \<Rightarrow> string" where
  "id_text start k = decimal (unat (start + of_nat k))"

lemma client_exchange_nextID: "cl_nextID (snd (client_exchange cd put ident m result c)) = cl_nextID c"
  by (auto simp: client_exchange_def poison_def Let_def split: prod.splits option.splits sum.splits response_error.splits)

lemma client_run_lockstep:
  assumes "faithful put out" and "\<not> cl_poisoned (client_run cd put rs c)"
  shows "\<exists>ps qs ks. out (cl_connection (client_run cd put rs c)) = out (cl_connection c) @ concat (map (\<lambda>p. p @ [line_feed]) ps) \<and>
    rd_rest (cl_reader c) = concat (map (\<lambda>q. q @ [line_feed]) qs) @ rd_rest (cl_reader (client_run cd put rs c)) \<and>
    list_all2 (requests cd) ps (map (id_text (cl_nextID c)) ks) \<and>
    list_all2 (answers cd) qs (map (id_text (cl_nextID c)) ks) \<and>
    sorted_wrt (<) ks \<and> set ks \<subseteq> {1..length rs}"
  using assms(2)
proof (induction rs arbitrary: c)
  case Nil
  then show ?case by (intro exI [of _ "[]"]) simp
next
  case (Cons rq rs)
  obtain deadline m result where rq: "rq = (deadline, m, result)" by (cases rq)
  define c1 where "c1 = c\<lparr>cl_requests := cl_requests c + 1, cl_nextID := cl_nextID c + 1\<rparr>"
  define c2 where "c2 = snd (client_request cd put deadline m result c)"
  have run: "client_run cd put (rq # rs) c = client_run cd put rs c2" by (simp add: rq c2_def)
  have ok: "\<not> cl_poisoned c2" "\<not> cl_poisoned c" using Cons.prems run client_run_poisoned client_request_poisoned
    by (metis c2_def)+
  obtain ps qs ks where IH: "out (cl_connection (client_run cd put rs c2)) = out (cl_connection c2) @ concat (map (\<lambda>p. p @ [line_feed]) ps)"
    "rd_rest (cl_reader c2) = concat (map (\<lambda>q. q @ [line_feed]) qs) @ rd_rest (cl_reader (client_run cd put rs c2))"
    "list_all2 (requests cd) ps (map (id_text (cl_nextID c2)) ks)" "list_all2 (answers cd) qs (map (id_text (cl_nextID c2)) ks)"
    "sorted_wrt (<) ks" "set ks \<subseteq> {1..length rs}"
    using Cons.IH [of c2] Cons.prems unfolding run by (elim meta_impE exE conjE) (assumption, rule that)
  have next_id: "cl_nextID c2 = cl_nextID c + 1"
    using ok(2) by (auto simp: c2_def client_request_def Let_def client_exchange_nextID split: option.splits)
  have shift: "map (id_text (cl_nextID c2)) ks = map (id_text (cl_nextID c)) (map Suc ks)"
    by (simp add: next_id id_text_def o_def add.assoc)
  have ks: "sorted_wrt (<) (map Suc ks)" "set (map Suc ks) \<subseteq> {2..Suc (length rs)}"
    using IH(5,6) by (auto simp: sorted_wrt_map)
  show ?case
  proof (cases deadline)
    case (Some e)
    then have "c2 = c1" using ok(2) by (simp add: c2_def c1_def client_request_def Let_def)
      then have keep: "cl_connection c2 = cl_connection c" "cl_reader c2 = cl_reader c" by (simp_all add: c1_def)
    show ?thesis
      unfolding run
      by (rule exI [of _ ps], rule exI [of _ qs], rule exI [of _ "map Suc ks"], intro conjI)
        (use IH(1-4) [unfolded shift keep] ks in \<open>assumption | force\<close>)+
  next
    case None
    have c2: "client_exchange cd put (id_text (cl_nextID c) 1) m result c1 = (fst (client_request cd put deadline m result c), c2)"
      using None ok(2) by (simp add: c2_def c1_def client_request_def Let_def id_text_def)
    obtain p payload where e: "cd_marshal cd \<lparr>rq_ProtocolVersion = ProtocolVersion, rq_ID = id_text (cl_nextID c) 1, rq_Method = m\<rparr> = Inr p"
      "out (cl_connection c2) = out (cl_connection c1) @ p @ [line_feed]"
      "rd_rest (cl_reader c1) = payload @ line_feed # rd_rest (cl_reader c2)" "answers cd payload (id_text (cl_nextID c) 1)"
      using client_exchange_lockstep [OF assms(1) c2 ok(1)] by (elim exE conjE) (rule that)
    have rq: "requests cd p (id_text (cl_nextID c) 1)" using e(1) by (auto simp: requests_def)
    have e': "out (cl_connection c2) = out (cl_connection c) @ p @ [line_feed]"
      "rd_rest (cl_reader c) = payload @ line_feed # rd_rest (cl_reader c2)"
      using e(2,3) by (simp_all add: c1_def)
    show ?thesis
      unfolding run
    proof (rule exI [of _ "p # ps"], rule exI [of _ "payload # qs"], rule exI [of _ "1 # map Suc ks"], intro conjI)
      show "list_all2 (requests cd) (p # ps) (map (id_text (cl_nextID c)) (1 # map Suc ks))"
        using IH(3) rq unfolding shift by simp
      show "list_all2 (answers cd) (payload # qs) (map (id_text (cl_nextID c)) (1 # map Suc ks))"
        using IH(4) e(4) unfolding shift by simp
      show "sorted_wrt (<) (1 # map Suc ks)" "set (1 # map Suc ks) \<subseteq> {1..length (rq # rs)}" using ks by force+
    qed (simp_all add: IH(1,2) e')
  qed
qed

lemma id_text_inj:
  assumes "id_text start i = id_text start j" and "i < 2 ^ 64" and "j < 2 ^ 64"
  shows "i = j"
proof -
  have "digits_value (id_text start i) = digits_value (id_text start j)" by (simp only: assms(1))
  then have "unat (start + of_nat i) = unat (start + of_nat j)" by (simp only: id_text_def digits_value_decimal)
  then have "(of_nat i :: 64 word) = of_nat j" by (simp only: word_unat_eq_iff [symmetric] add_left_cancel)
  then have "unat (of_nat i :: 64 word) = unat (of_nat j :: 64 word)" by simp
  then show ?thesis using assms(2,3) by (simp add: unat_of_nat)
qed

text \<open>C24. As long as the client is not poisoned, requests and responses are in step: each request
  that was sent consumed exactly one frame, and that frame carries the id of this request, which
  no other request of the connection had; a response that is late or out of order poisons it.\<close>

theorem client_in_lockstep:
  assumes "faithful put out" and "\<not> cl_poisoned (client_run cd put rs c)" and "length rs < 2 ^ 64"
  shows "\<exists>ps qs ids. out (cl_connection (client_run cd put rs c)) = out (cl_connection c) @ concat (map (\<lambda>p. p @ [line_feed]) ps) \<and>
    rd_rest (cl_reader c) = concat (map (\<lambda>q. q @ [line_feed]) qs) @ rd_rest (cl_reader (client_run cd put rs c)) \<and>
    list_all2 (requests cd) ps ids \<and> list_all2 (answers cd) qs ids \<and> distinct ids"
proof -
  obtain ps qs ks where r: "out (cl_connection (client_run cd put rs c)) = out (cl_connection c) @ concat (map (\<lambda>p. p @ [line_feed]) ps)"
    "rd_rest (cl_reader c) = concat (map (\<lambda>q. q @ [line_feed]) qs) @ rd_rest (cl_reader (client_run cd put rs c))"
    "list_all2 (requests cd) ps (map (id_text (cl_nextID c)) ks)" "list_all2 (answers cd) qs (map (id_text (cl_nextID c)) ks)"
    "sorted_wrt (<) ks" "set ks \<subseteq> {1..length rs}"
    using client_run_lockstep [OF assms(1,2)] by (elim exE conjE) (rule that)
  have "inj_on (id_text (cl_nextID c)) (set ks)"
  proof (rule inj_onI)
    fix a b
    assume "a \<in> set ks" "b \<in> set ks" and same: "id_text (cl_nextID c) a = id_text (cl_nextID c) b"
    then have "a \<le> length rs" "b \<le> length rs" using r(6) by auto
    then show "a = b" using assms(3) by (intro id_text_inj [OF same]) simp_all
  qed
  then have "distinct (map (id_text (cl_nextID c)) ks)" using r(5) by (simp add: distinct_map strict_sorted_iff)
  then show ?thesis using r(1-4) by (intro exI conjI)
qed

section \<open>Instances\<close>

text \<open>A writer that takes at most two bytes at a time, and what it has taken.\<close>

definition two_bytes :: "string writer" where
  "two_bytes w p = ((min 2 (length p), None), w @ take 2 p)"

lemma two_bytes_faithful: "faithful two_bytes (\<lambda>w. w)"
  by (auto simp: faithful_def two_bytes_def min_def)

lemma worker_frames_round_trip_witness:
  "worker.read_frames 2 \<lparr>rd_rest = [CHR ''1'', line_feed, CHR ''2'', line_feed], rd_err = EOF, rd_size = 16\<rparr> =
   (Inr [''1'', ''2''], \<lparr>rd_rest = [], rd_err = EOF, rd_size = 16\<rparr>)"
proof -
  have w: "write_frames two_bytes [''1'', ''2''] [] = (None, [CHR ''1'', line_feed, CHR ''2'', line_feed])"
    by (simp add: WriteFrame_def MaxFrameSize_def two_bytes_def)
  show ?thesis
    using worker_frames_round_trip [OF two_bytes_faithful _ w,
        of "\<lparr>rd_rest = [CHR ''1'', line_feed, CHR ''2'', line_feed], rd_err = EOF, rd_size = 16\<rparr>" "[]"]
    by (simp del: worker.read_frames.simps add: numeral_2_eq_2)
qed

lemma harness_frame_round_trip_witness:
  "harness_ReadFrame 5 \<lparr>rd_rest = frame_header ''{}'' @ ''{}'' @ ''rest'', rd_err = EOF, rd_size = 16\<rparr> =
   (Inr ''{}'', \<lparr>rd_rest = ''rest'', rd_err = EOF, rd_size = 16\<rparr>)"
proof -
  have w: "harness_WriteFrame two_bytes ''{}'' [] = (None, frame_header ''{}'' @ ''{}'')"
    by (simp add: harness_WriteFrame_def harness_MaxFrameSize_def frame_header_def two_bytes_def decimal.simps)
  show ?thesis
    using harness_frame_round_trip [OF two_bytes_faithful w,
        of "\<lparr>rd_rest = frame_header ''{}'' @ ''{}'' @ ''rest'', rd_err = EOF, rd_size = 16\<rparr>" "''rest''" 5]
    by simp
qed

text \<open>A codec that writes the id of a request and reads the response to the request with that id.\<close>

definition echo_value :: "string \<Rightarrow> json" where
  "echo_value ident = JObject [(''protocol_version'', JInt 1), (''id'', JString ident), (''result'', JNull), (''error'', JNull)]"

definition echo_codec :: codec where
  "echo_codec = \<lparr>cd_marshal = (\<lambda>rq. Inr (rq_ID rq)), cd_tokens = (\<lambda>p. \<lparr>dc_tokens = tokens_of (echo_value p), dc_err = EOF\<rparr>),
     cd_parse = (\<lambda>p. Inr (echo_value p)), cd_names = (=)\<rparr>"

lemma echo_marshal: "cd_marshal echo_codec rq = Inr (rq_ID rq)"
  by (simp add: echo_codec_def)

lemma echo_response: "decodeResponsePayload echo_codec p p None = Inr None"
proof -
  have "rejectDuplicateKeys (cd_tokens echo_codec p) = None"
    unfolding echo_codec_def codec.simps rejectDuplicateKeys_iff by (simp add: echo_value_def)
  moreover have "bind_err (cd_parse echo_codec p) unmarshal_map =
    Inr [(''protocol_version'', JInt 1), (''id'', JString p), (''result'', JNull), (''error'', JNull)]"
    by (simp add: echo_codec_def echo_value_def)
  ultimately show ?thesis
    by (simp add: decodeResponsePayload_def envelope_answers_def envelope_fields_def ProtocolVersion_def decode_result_def)
qed

lemma client_in_lockstep_witness:
  "\<exists>ps. cl_connection (client_run echo_codec two_bytes [(None, ''schema/load'', None), (None, ''worker/shutdown'', None)]
      (newClient [] \<lparr>rd_rest = [CHR ''1'', line_feed, CHR ''2'', line_feed], rd_err = EOF, rd_size = 16\<rparr>)) =
    concat (map (\<lambda>p. p @ [line_feed]) ps)"
proof -
  let ?c = "newClient [] \<lparr>rd_rest = [CHR ''1'', line_feed, CHR ''2'', line_feed], rd_err = EOF, rd_size = 16\<rparr>"
  let ?rs = "[(None, ''schema/load'', None), (None, ''worker/shutdown'', None)]"
  have ok: "\<not> cl_poisoned (client_run echo_codec two_bytes ?rs ?c)"
    by (simp add: newClient_def client_request_def client_exchange_def echo_marshal echo_response WriteFrame_def
        MaxFrameSize_def two_bytes_def decimal.simps digit_def ReadFrame_def ReadFrame_loop.simps ReadSlice_def TrimSuffix_def
        HasSuffix_def char_of_def bit_0 Let_def split del: if_split)
  show ?thesis
    using client_in_lockstep [OF two_bytes_faithful ok] by (auto simp: newClient_def)
qed

end
