(* ===== verification/Worker_Manager.thy ===== *)
theory Worker_Manager
  imports Schema_Cache
begin

text \<open>
  The supervisor of the worker (\<open>internal/python/manager.go\<close>): the loop that runs one session after
  another, the debounced refresh after a save, the provisional schema and the publication of graphs.
  The goroutines are the supervisor loop, the callbacks of the refresh timer, the loads of the
  provisional schema and the callers of \<open>Start\<close>, \<open>DidSave\<close> and \<open>Stop\<close>; what each does while it
  holds the mutex is one step. What a session does outside this state (processes, files, sockets) is
  a step with any outcome that the code can have. Epochs and start ids count saves and starts. The
  callers start the loop again only when no \<open>Stop\<close> is under way: a \<open>Stop\<close> that was overtaken by a new
  start would make the refreshes of that start obsolete.
\<close>

section \<open>State\<close>

datatype schemaAuthority = authorityNone | authorityExisting | authorityProvisional | authorityRuntime

text \<open>An error of a session; \<open>errors.Is(err, errWorkerCleanup)\<close> holds of the second kind.\<close>

datatype session_error = WorkerError string | CleanupError string

datatype 'g session_stage = Loading | Persisting 'g nat nat | Serving

text \<open>Why the loop is in \<open>waitForRefresh\<close>, with the error of the session before it.\<close>

datatype waiting = ForRelease | ForSuperseded "session_error option" | ForLimit "session_error option"

datatype 'g loop_pc =
    Stopped
  | AtTop
  | AtStart
  | WaitRefresh nat waiting
  | InSession nat "'g session_stage"
  | SessionOver nat bool "session_error option"
  | WaitBackoff nat nat
  | Returning "session_error option"

datatype notice = SchemaLoaded "64 word" | Outage

record config =
  cf_RestartLimit :: nat
  cf_BackoffBase :: int
  cf_refreshDelay :: nat
  cf_persistent :: bool

record 'g manager =
  mg_cache :: "'g Cache"
  mg_authority :: schemaAuthority
  mg_publishedAuthority :: nat
  mg_installed :: "'g option"
  mg_started :: bool
  mg_ctxDone :: bool
  mg_startID :: nat
  mg_stops :: "(nat \<times> bool) list"
  mg_lastErr :: "session_error option"
  mg_refreshEpoch :: nat
  mg_releasedEpoch :: nat
  mg_activeEpoch :: nat
  mg_refreshPending :: bool
  mg_refreshDeadline :: nat
  mg_timer :: "(nat \<times> nat) option"
  mg_wake :: bool
  mg_session :: "nat option"
  mg_sessions :: nat
  mg_sessionDone :: bool
  mg_queued :: "nat list"
  mg_sends :: "(nat \<times> nat option) list"
  mg_provisional :: "nat list"
  mg_now :: nat
  mg_pc :: "'g loop_pc"
  mg_failures :: nat
  mg_notified :: bool
  mg_notices :: "notice list"

definition initial_manager :: "'g Cache \<Rightarrow> 'g manager" where
  "initial_manager cache =
     \<lparr>mg_cache = cache, mg_authority = (if fst (cache_Load cache) \<noteq> None then authorityExisting else authorityNone),
      mg_publishedAuthority = 0, mg_installed = None, mg_started = False, mg_ctxDone = False, mg_startID = 0, mg_stops = [],
      mg_lastErr = None, mg_refreshEpoch = 0, mg_releasedEpoch = 0, mg_activeEpoch = 0, mg_refreshPending = False,
      mg_refreshDeadline = 0, mg_timer = None, mg_wake = False, mg_session = None, mg_sessions = 0,
      mg_sessionDone = False, mg_queued = [], mg_sends = [], mg_provisional = [], mg_now = 0, mg_pc = Stopped,
      mg_failures = 0, mg_notified = False, mg_notices = []\<rparr>"

section \<open>The callers\<close>

definition Start :: "config \<Rightarrow> 'g manager \<Rightarrow> 'g manager" where
  "Start cf s =
     (if mg_started s then s
      else s\<lparr>mg_started := True, mg_ctxDone := False, mg_lastErr := None, mg_refreshPending := False,
        mg_releasedEpoch := mg_refreshEpoch s, mg_wake := False, mg_startID := mg_startID s + 1,
        mg_provisional := (if cf_persistent cf then (mg_startID s + 1) # mg_provisional s else mg_provisional s),
        mg_pc := AtTop, mg_failures := 0, mg_notified := False\<rparr>)"

definition DidSave :: "config \<Rightarrow> bool \<Rightarrow> 'g manager \<Rightarrow> 'g manager" where
  "DidSave cf affecting s =
     (if \<not> affecting \<or> \<not> mg_started s then s
      else let epoch = mg_refreshEpoch s + 1; deadline = mg_now s + cf_refreshDelay cf in
        s\<lparr>mg_refreshEpoch := epoch, mg_refreshPending := False, mg_refreshDeadline := deadline,
          mg_timer := Some (epoch, deadline)\<rparr>)"

text \<open>The callback of the timer: what it does under the mutex, and after it.\<close>

definition refresh_callback :: "nat \<Rightarrow> 'g manager \<Rightarrow> 'g manager" where
  "refresh_callback epoch s =
     (if \<not> mg_started s \<or> mg_refreshEpoch s \<noteq> epoch \<or> mg_now s < mg_refreshDeadline s then s
      else s\<lparr>mg_refreshPending := True, mg_releasedEpoch := epoch,
        mg_sends := (mg_startID s, mg_session s) # mg_sends s\<rparr>)"

definition refresh_send :: "nat \<times> nat option \<Rightarrow> 'g manager \<Rightarrow> 'g manager" where
  "refresh_send send s = (case send of (startID, session) \<Rightarrow>
     s\<lparr>mg_sessionDone := (mg_sessionDone s \<or> session \<noteq> None \<and> session = mg_session s),
       mg_wake := (mg_wake s \<or> startID = mg_startID s)\<rparr>)"

text \<open>\<open>Stop\<close> up to its wait for the loop: it reads which run of the loop to cancel, in a second critical
  section makes every refresh on its way obsolete, and then cancels. A call that is under way is kept as
  the start it read and whether it has passed the second section.\<close>

definition Stop :: "'g manager \<Rightarrow> 'g manager" where
  "Stop s = (if mg_started s then s\<lparr>mg_stops := (mg_startID s, False) # mg_stops s\<rparr> else s)"

definition Stop_obsolete :: "'g manager \<Rightarrow> 'g manager" where
  "Stop_obsolete s = s\<lparr>mg_refreshEpoch := mg_refreshEpoch s + 1, mg_timer := None\<rparr>"

definition Stop_cancel :: "nat \<Rightarrow> 'g manager \<Rightarrow> 'g manager" where
  "Stop_cancel startID s = s\<lparr>mg_ctxDone := (mg_ctxDone s \<or> startID = mg_startID s)\<rparr>"

definition loadProvisional :: "nat \<Rightarrow> 'g \<Rightarrow> 'g manager \<Rightarrow> 'g manager" where
  "loadProvisional startID graph s =
     (if mg_ctxDone s \<or> \<not> mg_started s \<or> mg_startID s \<noteq> startID \<or> mg_authority s \<noteq> authorityNone \<or>
         fst (cache_Load (mg_cache s)) \<noteq> None then s
      else let (cache, generation) = cache_Replace (Some graph) (mg_cache s) in
        s\<lparr>mg_cache := cache, mg_authority := authorityProvisional, mg_notices := mg_notices s @ [SchemaLoaded generation]\<rparr>)"

section \<open>Sessions\<close>

definition session_done :: "'g manager \<Rightarrow> bool" where
  "session_done s \<longleftrightarrow> mg_ctxDone s \<or> mg_sessionDone s"

text \<open>The critical section of \<open>publishGraph\<close>, then what \<open>runSession\<close> does with its result.\<close>

definition publishGraph :: "'g \<Rightarrow> 'g manager \<Rightarrow> (64 word \<times> bool) \<times> 'g manager" where
  "publishGraph graph s =
     (if session_done s \<or> mg_refreshPending s \<or> mg_activeEpoch s \<noteq> mg_refreshEpoch s \<or> mg_activeEpoch s \<noteq> mg_releasedEpoch s
      then ((0, False), s)
      else let (cache, generation) = cache_Replace (Some graph) (mg_cache s) in
        ((generation, True), s\<lparr>mg_cache := cache, mg_authority := authorityRuntime,
          mg_publishedAuthority := mg_publishedAuthority s + 1\<rparr>))"

definition session_publish :: "config \<Rightarrow> nat \<Rightarrow> 'g \<Rightarrow> session_error option \<Rightarrow> 'g manager \<Rightarrow> 'g manager" where
  "session_publish cf attempt graph cleanup s = (let ((generation, accepted), s1) = publishGraph graph s in
     if \<not> accepted then s1\<lparr>mg_pc := SessionOver attempt False cleanup\<rparr>
     else s1\<lparr>mg_notified := False, mg_notices := mg_notices s1 @ [SchemaLoaded generation],
       mg_pc := InSession attempt (if cf_persistent cf
         then Persisting graph (mg_publishedAuthority s1) (mg_activeEpoch s1) else Serving)\<rparr>)"

text \<open>The second critical section of \<open>persistGraph\<close>, which installs the file that was written.\<close>

definition persistGraph :: "nat \<Rightarrow> 'g \<Rightarrow> nat \<Rightarrow> nat \<Rightarrow> 'g manager \<Rightarrow> 'g manager" where
  "persistGraph attempt graph authority epoch s =
     (let s1 = (if session_done s \<or> authority \<noteq> mg_publishedAuthority s \<or> epoch \<noteq> mg_refreshEpoch s then s
          else s\<lparr>mg_installed := Some graph\<rparr>) in
      s1\<lparr>mg_pc := InSession attempt Serving\<rparr>)"

section \<open>The loop\<close>

definition notify_outage :: "'g manager \<Rightarrow> 'g manager" where
  "notify_outage s = (if mg_notified s then s else s\<lparr>mg_notices := mg_notices s @ [Outage], mg_notified := True\<rparr>)"

definition loop_top :: "'g manager \<Rightarrow> 'g manager" where
  "loop_top s = (if mg_releasedEpoch s < mg_refreshEpoch s
     then s\<lparr>mg_pc := WaitRefresh (mg_releasedEpoch s) ForRelease\<rparr> else s\<lparr>mg_pc := AtStart\<rparr>)"

definition loop_start :: "'g manager \<Rightarrow> 'g manager" where
  "loop_start s = s\<lparr>mg_session := Some (mg_sessions s), mg_sessions := mg_sessions s + 1, mg_sessionDone := False,
     mg_activeEpoch := mg_refreshEpoch s, mg_pc := InSession (mg_refreshEpoch s) Loading\<rparr>"

text \<open>\<open>BackoffBase << (failures - 1)\<close> in the 64 bits of a \<open>time.Duration\<close>, at most two seconds.\<close>

definition backoff_delay :: "int \<Rightarrow> nat \<Rightarrow> int" where
  "backoff_delay base failures = (let delay = sint (push_bit (failures - 1) (word_of_int base :: 64 word)) in
     if 2000000000 < delay then 2000000000 else delay)"

text \<open>A refresh: the loop goes on, unless the worker could not be cleaned up.\<close>

definition loop_refreshed :: "session_error option \<Rightarrow> 'g manager \<Rightarrow> 'g manager" where
  "loop_refreshed err s = (case err of
     Some (CleanupError e) \<Rightarrow> (notify_outage s)\<lparr>mg_pc := Returning err\<rparr>
   | _ \<Rightarrow> s\<lparr>mg_failures := 0, mg_pc := AtTop\<rparr>)"

definition loop_failed :: "config \<Rightarrow> nat \<Rightarrow> bool \<Rightarrow> session_error option \<Rightarrow> 'g manager \<Rightarrow> 'g manager" where
  "loop_failed cf attempt loaded err s =
     (let s1 = (if loaded then s\<lparr>mg_failures := 0, mg_notified := False\<rparr> else s);
        s2 = notify_outage (s1\<lparr>mg_failures := mg_failures s1 + 1\<rparr>) in
      if cf_RestartLimit cf < mg_failures s2 then s2\<lparr>mg_pc := WaitRefresh (mg_refreshEpoch s2) (ForLimit err)\<rparr>
      else s2\<lparr>mg_pc := WaitBackoff attempt (mg_now s2 + nat (backoff_delay (cf_BackoffBase cf) (mg_failures s2)))\<rparr>)"

definition loop_after :: "config \<Rightarrow> nat \<Rightarrow> bool \<Rightarrow> session_error option \<Rightarrow> 'g manager \<Rightarrow> 'g manager" where
  "loop_after cf attempt loaded err s =
     (let refresh = mg_refreshPending s; current = mg_refreshEpoch s;
        s1 = s\<lparr>mg_session := None, mg_refreshPending := False\<rparr> in
      if mg_ctxDone s then s1\<lparr>mg_pc := Returning err\<rparr>
      else if attempt \<noteq> current \<and> \<not> refresh then s1\<lparr>mg_pc := WaitRefresh attempt (ForSuperseded err)\<rparr>
      else if refresh then loop_refreshed err s1
      else (case err of
          None \<Rightarrow> s1\<lparr>mg_pc := Returning None\<rparr>
        | Some (CleanupError e) \<Rightarrow> (notify_outage s1)\<lparr>mg_pc := Returning err\<rparr>
        | Some (WorkerError e) \<Rightarrow> loop_failed cf attempt loaded err s1))"

text \<open>\<open>waitForRefresh\<close>: the test after a token was received, and what the loop does after the wait.\<close>

definition refresh_valid :: "nat \<Rightarrow> 'g manager \<Rightarrow> bool" where
  "refresh_valid afterEpoch s \<longleftrightarrow> afterEpoch < mg_refreshEpoch s \<and> mg_releasedEpoch s = mg_refreshEpoch s \<and>
     mg_refreshPending s \<and> mg_refreshDeadline s \<le> mg_now s"

definition after_refresh :: "waiting \<Rightarrow> 'g manager \<Rightarrow> 'g manager" where
  "after_refresh why s = (case why of
     ForRelease \<Rightarrow> s\<lparr>mg_pc := AtTop\<rparr>
   | ForSuperseded err \<Rightarrow> loop_refreshed err s
   | ForLimit err \<Rightarrow> s\<lparr>mg_failures := 0, mg_pc := AtTop\<rparr>)"

definition waitForRefresh :: "nat \<Rightarrow> waiting \<Rightarrow> 'g manager \<Rightarrow> 'g manager" where
  "waitForRefresh afterEpoch why s = (let s1 = s\<lparr>mg_wake := False\<rparr> in
     if refresh_valid afterEpoch s then after_refresh why (s1\<lparr>mg_refreshPending := False\<rparr>) else s1)"

definition waitForRefresh_done :: "waiting \<Rightarrow> 'g manager \<Rightarrow> 'g manager" where
  "waitForRefresh_done why s = s\<lparr>mg_pc := Returning (case why of ForRelease \<Rightarrow> None | ForSuperseded err \<Rightarrow> err | ForLimit err \<Rightarrow> err)\<rparr>"

definition waitForBackoff :: "nat \<Rightarrow> 'g manager \<Rightarrow> 'g manager" where
  "waitForBackoff afterEpoch s = (let s1 = s\<lparr>mg_wake := False\<rparr> in
     if refresh_valid afterEpoch s then s1\<lparr>mg_refreshPending := False, mg_failures := 0, mg_pc := AtTop\<rparr> else s1)"

definition loop_return :: "session_error option \<Rightarrow> 'g manager \<Rightarrow> 'g manager" where
  "loop_return err s = s\<lparr>mg_started := False, mg_lastErr := err, mg_pc := Stopped\<rparr>"

section \<open>Steps\<close>

text \<open>What happens without a caller and without the worker: time, the timer, its callbacks, the wait.\<close>

inductive refresh_step :: "'g manager \<Rightarrow> 'g manager \<Rightarrow> bool" where
  tick: "refresh_step s (s\<lparr>mg_now := mg_now s + d\<rparr>)"
| timer_fires: "mg_timer s = Some (epoch, due) \<Longrightarrow> due \<le> mg_now s \<Longrightarrow>
     refresh_step s (s\<lparr>mg_timer := None, mg_queued := epoch # mg_queued s\<rparr>)"
| callback: "mg_queued s = a @ epoch # b \<Longrightarrow> refresh_step s (refresh_callback epoch (s\<lparr>mg_queued := a @ b\<rparr>))"
| send: "mg_sends s = a @ w # b \<Longrightarrow> refresh_step s (refresh_send w (s\<lparr>mg_sends := a @ b\<rparr>))"
| wakes: "mg_pc s = WaitRefresh afterEpoch why \<Longrightarrow> mg_wake s \<Longrightarrow> refresh_step s (waitForRefresh afterEpoch why s)"

inductive manager_step :: "config \<Rightarrow> 'g manager \<Rightarrow> 'g manager \<Rightarrow> bool" for cf where
  refresh: "refresh_step s t \<Longrightarrow> manager_step cf s t"
| start: "mg_started s \<or> mg_stops s = [] \<Longrightarrow> manager_step cf s (Start cf s)"
| did_save: "manager_step cf s (DidSave cf affecting s)"
| stop: "manager_step cf s (Stop s)"
| stop_obsolete: "mg_stops s = a @ (startID, False) # b \<Longrightarrow>
     manager_step cf s (Stop_obsolete (s\<lparr>mg_stops := a @ (startID, True) # b\<rparr>))"
| stop_cancel: "mg_stops s = a @ (startID, True) # b \<Longrightarrow>
     manager_step cf s (Stop_cancel startID (s\<lparr>mg_stops := a @ b\<rparr>))"
| context_done: "mg_started s \<Longrightarrow> manager_step cf s (s\<lparr>mg_ctxDone := True\<rparr>)"
| provisional_loaded: "mg_provisional s = a @ startID # b \<Longrightarrow>
     manager_step cf s (loadProvisional startID graph (s\<lparr>mg_provisional := a @ b\<rparr>))"
| provisional_missing: "mg_provisional s = a @ startID # b \<Longrightarrow> manager_step cf s (s\<lparr>mg_provisional := a @ b\<rparr>)"
| top: "mg_pc s = AtTop \<Longrightarrow> manager_step cf s (loop_top s)"
| session_starts: "mg_pc s = AtStart \<Longrightarrow> manager_step cf s (loop_start s)"
| session_fails: "mg_pc s = InSession attempt Loading \<Longrightarrow>
     manager_step cf s (s\<lparr>mg_pc := SessionOver attempt False (Some err)\<rparr>)"
| session_cancelled: "mg_pc s = InSession attempt Loading \<Longrightarrow> session_done s \<Longrightarrow> cleanup = None \<or> cleanup = Some (CleanupError e) \<Longrightarrow>
     manager_step cf s (s\<lparr>mg_pc := SessionOver attempt False cleanup\<rparr>)"
| session_loads: "mg_pc s = InSession attempt Loading \<Longrightarrow> cleanup = None \<or> cleanup = Some (CleanupError e) \<Longrightarrow>
     manager_step cf s (session_publish cf attempt graph cleanup s)"
| session_persists: "mg_pc s = InSession attempt (Persisting graph authority epoch) \<Longrightarrow>
     manager_step cf s (persistGraph attempt graph authority epoch s)"
| session_keeps: "mg_pc s = InSession attempt (Persisting graph authority epoch) \<Longrightarrow>
     manager_step cf s (s\<lparr>mg_pc := InSession attempt Serving\<rparr>)"
| worker_exits: "mg_pc s = InSession attempt Serving \<Longrightarrow>
     manager_step cf s (s\<lparr>mg_pc := SessionOver attempt stayed (Some err)\<rparr>)"
| worker_shuts_down: "mg_pc s = InSession attempt Serving \<Longrightarrow> session_done s \<Longrightarrow> cleanup = None \<or> cleanup = Some (CleanupError e) \<Longrightarrow>
     manager_step cf s (s\<lparr>mg_pc := SessionOver attempt True cleanup\<rparr>)"
| session_over: "mg_pc s = SessionOver attempt loaded err \<Longrightarrow> manager_step cf s (loop_after cf attempt loaded err s)"
| wait_done: "mg_pc s = WaitRefresh afterEpoch why \<Longrightarrow> mg_ctxDone s \<Longrightarrow> manager_step cf s (waitForRefresh_done why s)"
| backoff_wakes: "mg_pc s = WaitBackoff afterEpoch due \<Longrightarrow> mg_wake s \<Longrightarrow> manager_step cf s (waitForBackoff afterEpoch s)"
| backoff_over: "mg_pc s = WaitBackoff afterEpoch due \<Longrightarrow> due \<le> mg_now s \<Longrightarrow> manager_step cf s (s\<lparr>mg_pc := AtTop\<rparr>)"
| backoff_done: "mg_pc s = WaitBackoff afterEpoch due \<Longrightarrow> mg_ctxDone s \<Longrightarrow> manager_step cf s (s\<lparr>mg_pc := Returning None\<rparr>)"
| returns: "mg_pc s = Returning err \<Longrightarrow> manager_step cf s (loop_return err s)"

inductive manager_reachable :: "config \<Rightarrow> 'g manager \<Rightarrow> bool" for cf where
  initial: "manager_reachable cf (initial_manager cache)"
| step: "manager_reachable cf s \<Longrightarrow> manager_step cf s t \<Longrightarrow> manager_reachable cf t"

end
