(* ===== verification/Worker_Manager_Facts.thy ===== *)
theory Worker_Manager_Facts
  imports Worker_Manager
begin

text \<open>
  What holds in every reachable state of the supervisor: the epochs are ordered, a save that is not
  released has a timer or a callback on its way, a pending refresh has a token on its way, and the
  loop that waits knows less than the newest save.
\<close>

section \<open>The invariant\<close>

text \<open>The epoch the loop works for or waits after, and where a newer one must be announced.\<close>

fun loop_epoch :: "'g loop_pc \<Rightarrow> nat option" where
  "loop_epoch (WaitRefresh e why) = Some e"
| "loop_epoch (InSession e stage) = Some e"
| "loop_epoch (SessionOver e loaded err) = Some e"
| "loop_epoch (WaitBackoff e due) = Some e"
| "loop_epoch pc = None"

definition running :: "'g manager \<Rightarrow> bool" where
  "running s \<longleftrightarrow> mg_started s \<and> \<not> mg_ctxDone s"

text \<open>Some \<open>Stop\<close> has made the refreshes obsolete and is about to cancel.\<close>

definition stopping :: "(nat \<times> bool) list \<Rightarrow> bool" where
  "stopping stops \<longleftrightarrow> True \<in> snd ` set stops"

lemma stopping_simps [simp]:
  "\<not> stopping []" "stopping (x # stops) \<longleftrightarrow> snd x \<or> stopping stops" "stopping (a @ b) \<longleftrightarrow> stopping a \<or> stopping b"
  by (auto simp: stopping_def)

definition steady :: "'g manager \<Rightarrow> bool" where
  "steady s \<longleftrightarrow> running s \<and> \<not> stopping (mg_stops s)"

definition release_coming :: "'g manager \<Rightarrow> bool" where
  "release_coming s \<longleftrightarrow> mg_timer s = Some (mg_refreshEpoch s, mg_refreshDeadline s) \<or>
     mg_refreshEpoch s \<in> set (mg_queued s) \<and> mg_refreshDeadline s \<le> mg_now s"

definition token_coming :: "'g manager \<Rightarrow> bool" where
  "token_coming s \<longleftrightarrow> mg_wake s \<or> mg_startID s \<in> fst ` set (mg_sends s)"

definition counters_ok :: "'g manager \<Rightarrow> bool" where
  "counters_ok s \<longleftrightarrow> mg_releasedEpoch s \<le> mg_refreshEpoch s \<and>
     (\<forall>e. loop_epoch (mg_pc s) = Some e \<longrightarrow> e \<le> mg_refreshEpoch s) \<and>
     (\<forall>e stage. mg_pc s = InSession e stage \<longrightarrow> mg_activeEpoch s = e)"

definition pending_ok :: "'g manager \<Rightarrow> bool" where
  "pending_ok s \<longleftrightarrow> steady s \<longrightarrow> mg_refreshPending s \<longrightarrow>
     mg_releasedEpoch s = mg_refreshEpoch s \<and> mg_refreshDeadline s \<le> mg_now s"

definition release_ok :: "'g manager \<Rightarrow> bool" where
  "release_ok s \<longleftrightarrow> steady s \<longrightarrow> mg_releasedEpoch s < mg_refreshEpoch s \<longrightarrow> release_coming s"

definition behind_ok :: "'g manager \<Rightarrow> bool" where
  "behind_ok s \<longleftrightarrow> steady s \<longrightarrow> (\<forall>e. loop_epoch (mg_pc s) = Some e \<longrightarrow> e < mg_refreshEpoch s \<longrightarrow>
     \<not> mg_refreshPending s \<longrightarrow> mg_releasedEpoch s < mg_refreshEpoch s)"

definition wake_ok :: "'g manager \<Rightarrow> bool" where
  "wake_ok s \<longleftrightarrow> steady s \<longrightarrow> (\<forall>e why. mg_pc s = WaitRefresh e why \<longrightarrow> e < mg_refreshEpoch s \<longrightarrow>
     mg_refreshPending s \<longrightarrow> token_coming s)"

definition started_ok :: "'g manager \<Rightarrow> bool" where
  "started_ok s \<longleftrightarrow> (mg_started s \<longleftrightarrow> mg_pc s \<noteq> Stopped)"

text \<open>A \<open>Stop\<close> under way cancels the run of the loop that it found.\<close>

definition stops_ok :: "'g manager \<Rightarrow> bool" where
  "stops_ok s \<longleftrightarrow> fst ` set (mg_stops s) \<subseteq> {mg_startID s}"

definition manager_inv :: "'g manager \<Rightarrow> bool" where
  "manager_inv s \<longleftrightarrow> started_ok s \<and> stops_ok s \<and> counters_ok s \<and> pending_ok s \<and> release_ok s \<and> behind_ok s \<and> wake_ok s"

lemmas inv_defs = manager_inv_def started_ok_def stops_ok_def steady_def counters_ok_def pending_ok_def release_ok_def behind_ok_def wake_ok_def
  running_def release_coming_def token_coming_def

lemma initial_inv: "manager_inv (initial_manager cache)"
  by (simp add: inv_defs initial_manager_def)

lemma refresh_step_inv:
  assumes "refresh_step s t" and "manager_inv s"
  shows "manager_inv t"
  using assms
proof cases
  case (tick d)
  then show ?thesis using assms(2) by (auto simp: inv_defs)
next
  case (timer_fires epoch due)
  then show ?thesis using assms(2) by (auto simp: inv_defs)
next
  case (callback a epoch b)
  then show ?thesis using assms(2) by (auto simp: inv_defs refresh_callback_def)
next
  case (send a w b)
  then show ?thesis using assms(2) by (cases w) (auto simp: inv_defs refresh_send_def)
next
  case (wakes e why)
  then show ?thesis using assms(2)
    by (auto simp: inv_defs waitForRefresh_def refresh_valid_def after_refresh_def loop_refreshed_def notify_outage_def Let_def
        split: waiting.splits option.splits session_error.splits)
qed

lemma Start_inv: "manager_inv s \<Longrightarrow> mg_started s \<or> mg_stops s = [] \<Longrightarrow> manager_inv (Start cf s)"
  by (auto simp: inv_defs Start_def)

lemma DidSave_inv: "manager_inv s \<Longrightarrow> manager_inv (DidSave cf affecting s)"
  by (auto simp: inv_defs DidSave_def Let_def)

lemma Stop_inv: "manager_inv s \<Longrightarrow> manager_inv (Stop s)"
  by (auto simp: inv_defs Stop_def)

lemma Stop_obsolete_inv:
  "manager_inv s \<Longrightarrow> mg_stops s = a @ (startID, False) # b \<Longrightarrow>
   manager_inv (Stop_obsolete (s\<lparr>mg_stops := a @ (startID, True) # b\<rparr>))"
  by (auto simp: inv_defs Stop_obsolete_def le_Suc_eq)

lemma Stop_cancel_inv:
  "manager_inv s \<Longrightarrow> mg_stops s = a @ (startID, True) # b \<Longrightarrow> manager_inv (Stop_cancel startID (s\<lparr>mg_stops := a @ b\<rparr>))"
  by (auto simp: inv_defs Stop_cancel_def)

lemma loadProvisional_inv: "manager_inv s \<Longrightarrow> manager_inv (loadProvisional startID graph s)"
  by (auto simp: inv_defs loadProvisional_def Let_def split: prod.splits)

text \<open>Steps of the loop that change where it is and nothing that the epochs and tokens depend on.\<close>

definition same_refresh :: "'g manager \<Rightarrow> 'g manager \<Rightarrow> bool" where
  "same_refresh s t \<longleftrightarrow> mg_started t = mg_started s \<and> mg_ctxDone t = mg_ctxDone s \<and> mg_startID t = mg_startID s \<and> mg_stops t = mg_stops s \<and>
     mg_refreshEpoch t = mg_refreshEpoch s \<and> mg_releasedEpoch t = mg_releasedEpoch s \<and> mg_activeEpoch t = mg_activeEpoch s \<and>
     mg_refreshDeadline t = mg_refreshDeadline s \<and> mg_timer t = mg_timer s \<and> mg_queued t = mg_queued s \<and>
     mg_sends t = mg_sends s \<and> mg_now t = mg_now s"

lemma moved_inv:
  assumes "manager_inv s" and "same_refresh s t" and "mg_refreshPending t = mg_refreshPending s" and "mg_wake t = mg_wake s"
    and "mg_pc s \<noteq> Stopped" and "mg_pc t \<noteq> Stopped" and "\<And>e why. mg_pc t \<noteq> WaitRefresh e why"
    and "loop_epoch (mg_pc t) = loop_epoch (mg_pc s) \<or> loop_epoch (mg_pc t) = None"
    and "\<And>e stage. mg_pc t = InSession e stage \<Longrightarrow> \<exists>stage'. mg_pc s = InSession e stage'"
  shows "manager_inv t"
proof -
  have same: "mg_started t = mg_started s" "mg_ctxDone t = mg_ctxDone s" "mg_startID t = mg_startID s" "mg_stops t = mg_stops s" "mg_refreshEpoch t = mg_refreshEpoch s"
    "mg_releasedEpoch t = mg_releasedEpoch s" "mg_activeEpoch t = mg_activeEpoch s" "mg_refreshDeadline t = mg_refreshDeadline s"
    "mg_timer t = mg_timer s" "mg_queued t = mg_queued s" "mg_now t = mg_now s"
    using assms(2) by (simp_all add: same_refresh_def)
  have inv: "started_ok s" "stops_ok s" "counters_ok s" "pending_ok s" "release_ok s" "behind_ok s"
    using assms(1) by (simp_all add: manager_inv_def)
  have "started_ok t" using inv(1) assms(5,6) by (simp add: started_ok_def same)
  moreover have "stops_ok t" using inv(2) by (simp add: stops_ok_def same)
  moreover have "counters_ok t"
  proof -
    have "e \<le> mg_refreshEpoch s" if "loop_epoch (mg_pc t) = Some e" for e
      using inv(3) assms(8) that by (auto simp: counters_ok_def)
    moreover have "mg_activeEpoch s = e" if "mg_pc t = InSession e stage" for e stage
      using assms(9) [OF that] inv(3) by (auto simp: counters_ok_def)
    ultimately show ?thesis using inv(3) by (simp add: counters_ok_def same)
  qed
  moreover have "steady t = steady s" by (simp add: steady_def running_def same)
  moreover have "pending_ok t" using inv(4) assms(3) calculation(4) by (simp add: pending_ok_def same)
  moreover have "release_ok t" using inv(5) calculation(4) by (simp add: release_ok_def release_coming_def same)
  moreover have "behind_ok t" using inv(6) assms(3,8) calculation(4) by (auto simp: behind_ok_def same)
  moreover have "wake_ok t" using assms(7) by (simp add: wake_ok_def)
  ultimately show ?thesis by (simp add: manager_inv_def)
qed

lemma notify_outage_simps [simp]:
  "same_refresh s (notify_outage t) = same_refresh s t" "mg_refreshPending (notify_outage s) = mg_refreshPending s"
  "mg_wake (notify_outage s) = mg_wake s" "mg_pc (notify_outage s) = mg_pc s" "mg_refreshEpoch (notify_outage s) = mg_refreshEpoch s"
  "mg_failures (notify_outage s) = mg_failures s" "mg_now (notify_outage s) = mg_now s"
  by (simp_all add: notify_outage_def same_refresh_def)

lemma loop_top_inv: "manager_inv s \<Longrightarrow> mg_pc s = AtTop \<Longrightarrow> manager_inv (loop_top s)"
  by (auto simp: inv_defs loop_top_def)

lemma loop_start_inv: "manager_inv s \<Longrightarrow> mg_pc s = AtStart \<Longrightarrow> manager_inv (loop_start s)"
  by (auto simp: inv_defs loop_start_def)

lemma publishGraph_same:
  "publishGraph graph s = (r, t) \<Longrightarrow> same_refresh s t \<and> mg_refreshPending t = mg_refreshPending s \<and> mg_wake t = mg_wake s \<and> mg_pc t = mg_pc s"
  by (auto simp: publishGraph_def same_refresh_def Let_def split: if_splits prod.splits)

lemma session_publish_inv:
  assumes "manager_inv s" and "mg_pc s = InSession attempt Loading"
  shows "manager_inv (session_publish cf attempt graph cleanup s)"
proof -
  obtain generation accepted t where p: "publishGraph graph s = ((generation, accepted), t)" by (metis surj_pair)
  note same = publishGraph_same [OF p]
  show ?thesis
    by (rule moved_inv [OF assms(1)]; cases accepted)
      (use same assms(2) p in \<open>simp_all add: session_publish_def same_refresh_def\<close>)
qed

lemma loop_refreshed_inv:
  assumes "manager_inv s" and "mg_pc s \<noteq> Stopped" and "\<not> mg_refreshPending s"
  shows "manager_inv (loop_refreshed err s)"
  using assms
  by (auto simp: inv_defs loop_refreshed_def notify_outage_def split: option.splits session_error.splits)

lemma loop_failed_inv:
  assumes "manager_inv s" and "mg_pc s = SessionOver attempt loaded err" and "\<not> mg_refreshPending s"
  shows "manager_inv (loop_failed cf attempt loaded' err s)"
  using assms by (auto simp: inv_defs loop_failed_def notify_outage_def Let_def)

lemma loop_after_inv:
  assumes "manager_inv s" and pc: "mg_pc s = SessionOver attempt loaded err"
  shows "manager_inv (loop_after cf attempt loaded err s)"
proof -
  let ?s1 = "s\<lparr>mg_session := None, mg_refreshPending := False\<rparr>"
  have not_refresh: "manager_inv ?s1" "?s1 = s\<lparr>mg_session := None\<rparr>" if "\<not> mg_refreshPending s"
    using assms(1) that by (auto simp: inv_defs)
  show ?thesis
  proof (cases "mg_ctxDone s")
    case True
    then show ?thesis using assms by (auto simp: inv_defs loop_after_def Let_def)
  next
    case alive: False
    show ?thesis
    proof (cases "mg_refreshPending s")
      case True
      have "stopping (mg_stops s) \<or> mg_releasedEpoch s = mg_refreshEpoch s" "mg_started s" using assms alive True by (auto simp: inv_defs)
      then show ?thesis
        using assms alive True
        by (auto simp: inv_defs loop_after_def loop_refreshed_def notify_outage_def Let_def split: option.splits session_error.splits)
    next
      case False
      note n = not_refresh [OF False]
      have pc1: "mg_pc ?s1 = SessionOver attempt loaded err" "\<not> mg_refreshPending ?s1" by (simp_all add: pc)
      show ?thesis
      proof (cases "attempt = mg_refreshEpoch s")
        case True
        have "loop_after cf attempt loaded err s = (case err of
            None \<Rightarrow> ?s1\<lparr>mg_pc := Returning None\<rparr>
          | Some (CleanupError e) \<Rightarrow> (notify_outage ?s1)\<lparr>mg_pc := Returning err\<rparr>
          | Some (WorkerError e) \<Rightarrow> loop_failed cf attempt loaded err ?s1)"
          using alive False True by (simp add: loop_after_def Let_def split: option.split session_error.split)
        moreover have "manager_inv (?s1\<lparr>mg_pc := Returning None\<rparr>)" "manager_inv ((notify_outage ?s1)\<lparr>mg_pc := Returning err\<rparr>)"
          using n(1) pc by (auto simp: inv_defs notify_outage_def)
        ultimately show ?thesis
          using loop_failed_inv [OF n(1) pc1] by (auto split: option.splits session_error.splits)
      next
        case behind: False
        then show ?thesis using assms alive False n(1) by (auto simp: inv_defs loop_after_def Let_def)
      qed
    qed
  qed
qed

lemma manager_step_inv:
  assumes "manager_step cf s t" and "manager_inv s"
  shows "manager_inv t"
  using assms
proof cases
  case refresh
  then show ?thesis using refresh_step_inv assms(2) by blast
next
  case (session_over attempt loaded err)
  then show ?thesis using loop_after_inv assms(2) by blast
next
  case (session_loads attempt cleanup e graph)
  show ?thesis unfolding session_loads(1) by (rule session_publish_inv [OF assms(2) session_loads(2)])
next
  case (backoff_wakes e due)
  then show ?thesis using assms(2) by (auto simp: inv_defs waitForBackoff_def refresh_valid_def Let_def)
next
  case (session_persists attempt graph authority epoch)
  then show ?thesis using assms(2) by (auto simp: inv_defs persistGraph_def Let_def)
next
  case (wait_done e why)
  then show ?thesis using assms(2) by (auto simp: inv_defs waitForRefresh_done_def)
next
  case (returns err)
  then show ?thesis using assms(2) by (auto simp: inv_defs loop_return_def)
next
  case (provisional_loaded a startID b graph)
  have "manager_inv (s\<lparr>mg_provisional := a @ b\<rparr>)" using assms(2) by (auto simp: inv_defs)
  then show ?thesis unfolding provisional_loaded(1) by (rule loadProvisional_inv)
next
  case (session_fails attempt err)
  show ?thesis by (rule moved_inv [OF assms(2)]) (use session_fails in \<open>simp_all add: same_refresh_def\<close>)
next
  case (session_cancelled attempt cleanup e)
  show ?thesis by (rule moved_inv [OF assms(2)]) (use session_cancelled in \<open>simp_all add: same_refresh_def\<close>)
next
  case (session_keeps attempt graph authority epoch)
  show ?thesis by (rule moved_inv [OF assms(2)]) (use session_keeps in \<open>simp_all add: same_refresh_def\<close>)
next
  case (worker_exits attempt stayed err)
  show ?thesis by (rule moved_inv [OF assms(2)]) (use worker_exits in \<open>simp_all add: same_refresh_def\<close>)
next
  case (worker_shuts_down attempt cleanup e)
  show ?thesis by (rule moved_inv [OF assms(2)]) (use worker_shuts_down in \<open>simp_all add: same_refresh_def\<close>)
next
  case (backoff_over e due)
  show ?thesis by (rule moved_inv [OF assms(2)]) (use backoff_over in \<open>simp_all add: same_refresh_def\<close>)
next
  case (backoff_done e due)
  show ?thesis by (rule moved_inv [OF assms(2)]) (use backoff_done in \<open>simp_all add: same_refresh_def\<close>)
next
  case context_done
  then show ?thesis using assms(2) by (simp add: inv_defs)
next
  case (provisional_missing a startID b)
  then show ?thesis using assms(2) by (simp add: inv_defs)
qed (use assms(2) in \<open>simp_all add: Start_inv DidSave_inv Stop_inv Stop_obsolete_inv Stop_cancel_inv loop_top_inv loop_start_inv\<close>)

lemma reachable_manager_inv: "manager_reachable cf s \<Longrightarrow> manager_inv s"
  by (induction rule: manager_reachable.induct) (auto intro: initial_inv manager_step_inv)

section \<open>A first session\<close>

text \<open>A run of a fresh supervisor: its first session, with a save just before it or without.\<close>

definition default_config :: config where
  "default_config = \<lparr>cf_RestartLimit = 5, cf_BackoffBase = 100000000, cf_refreshDelay = 300, cf_persistent = False\<rparr>"

definition fresh_top :: "config \<Rightarrow> nat manager" where
  "fresh_top cf = Start cf (initial_manager newCache)"

definition first_start :: "config \<Rightarrow> nat manager" where
  "first_start cf = loop_top (fresh_top cf)"

definition race_over :: "config \<Rightarrow> nat manager" where
  "race_over cf = session_publish cf 1 0 None (loop_start (DidSave cf True (first_start cf)))"

lemmas run_defs = race_over_def first_start_def fresh_top_def initial_manager_def Start_def loop_top_def DidSave_def
  loop_start_def session_publish_def publishGraph_def newCache_def cache_Load_def cache_Replace_def session_done_def Let_def

lemma first_start_reachable: "manager_reachable cf (fresh_top cf)" "manager_reachable cf (first_start cf)"
proof -
  show 1: "manager_reachable cf (fresh_top cf)"
    unfolding fresh_top_def by (rule manager_reachable.step [OF manager_reachable.initial start]) (simp add: initial_manager_def)
  show "manager_reachable cf (first_start cf)"
    unfolding first_start_def by (rule manager_reachable.step [OF 1 top]) (simp add: run_defs)
qed

lemma race_over_reachable: "manager_reachable cf (race_over cf)"
proof -
  let ?s3 = "DidSave cf True (first_start cf)"
  have 3: "manager_reachable cf ?s3" by (rule manager_reachable.step [OF first_start_reachable(2) did_save])
  have 4: "manager_reachable cf (loop_start ?s3)" by (rule manager_reachable.step [OF 3 session_starts]) (simp add: run_defs)
  show ?thesis unfolding race_over_def by (rule manager_reachable.step [OF 4 session_loads]) (simp_all add: run_defs)
qed

end
