(* ===== verification/Manager_Refresh.thy ===== *)
theory Manager_Refresh
  imports Worker_Manager_Facts
begin

text \<open>
  What the supervisor guarantees: no graph is published that a save has overtaken, the provisional
  schema never replaces another, and a waiting loop is always woken by the newest save.
\<close>

section \<open>Publication\<close>

lemma same_session_step:
  assumes "manager_step cf s t"
  shows "mg_sessions s \<le> mg_sessions t \<and> mg_refreshEpoch s \<le> mg_refreshEpoch t \<and>
    (mg_sessions t = mg_sessions s \<longrightarrow> (\<forall>e stage. mg_pc t = InSession e stage \<longrightarrow> (\<exists>stage'. mg_pc s = InSession e stage')))"
  using assms
proof cases
  case refresh
  then show ?thesis
    by cases (auto simp: refresh_callback_def refresh_send_def waitForRefresh_def after_refresh_def loop_refreshed_def notify_outage_def
        Let_def split: prod.splits waiting.splits option.splits session_error.splits)
next
  case (session_over attempt loaded err)
  then show ?thesis
    by (auto simp: loop_after_def loop_failed_def loop_refreshed_def notify_outage_def Let_def split: option.splits session_error.splits)
next
  case (session_loads attempt cleanup e graph)
  then show ?thesis
    by (auto simp: session_publish_def publishGraph_def Let_def split: prod.splits if_splits)
qed (auto simp: Start_def DidSave_def Stop_def Stop_obsolete_def Stop_cancel_def loadProvisional_def loop_top_def loop_start_def persistGraph_def waitForRefresh_done_def
    waitForBackoff_def loop_return_def Let_def split: prod.splits)

lemma same_session_run:
  assumes "(manager_step cf)\<^sup>*\<^sup>* s t"
  shows "mg_sessions s \<le> mg_sessions t \<and> mg_refreshEpoch s \<le> mg_refreshEpoch t \<and>
    (mg_sessions t = mg_sessions s \<longrightarrow> (\<forall>e stage. mg_pc t = InSession e stage \<longrightarrow> (\<exists>stage'. mg_pc s = InSession e stage')))"
  using assms
proof (induction rule: rtranclp_induct)
  case (step t u)
  note st = same_session_step [OF step.hyps(2)]
  have "mg_sessions s \<le> mg_sessions u" "mg_refreshEpoch s \<le> mg_refreshEpoch u" using step.IH st by linarith+
  moreover have "\<exists>stage'. mg_pc s = InSession e stage'" if "mg_sessions u = mg_sessions s" "mg_pc u = InSession e stage" for e stage
  proof -
    have "mg_sessions t = mg_sessions s" "mg_sessions u = mg_sessions t" using step.IH st that(1) by linarith+
    then show ?thesis using step.IH st that(2) by blast
  qed
  ultimately show ?case by blast
qed simp

lemma run_reachable: "(manager_step cf)\<^sup>*\<^sup>* s t \<Longrightarrow> manager_reachable cf s \<Longrightarrow> manager_reachable cf t"
  by (induction rule: rtranclp_induct) (auto intro: manager_reachable.step)

text \<open>C25. A session publishes its graph only if no save came since the session started, and every
  save before it had been released: the graph in the cache shows the sources as last saved.\<close>

theorem published_graph_has_every_save:
  assumes "manager_reachable cf s0" and "mg_pc s0 = AtStart" and "(manager_step cf)\<^sup>*\<^sup>* (loop_start s0) s"
    and "mg_sessions s = mg_sessions (loop_start s0)" and "mg_pc s = InSession attempt Loading"
    and "publishGraph graph s = ((generation, True), t)"
  shows "mg_refreshEpoch s = mg_refreshEpoch s0 \<and> mg_releasedEpoch s = mg_refreshEpoch s0 \<and> \<not> mg_refreshPending s \<and>
    \<not> mg_ctxDone s \<and> cache_Load (mg_cache t) = (Some graph, generation)"
proof -
  have "manager_step cf s0 (loop_start s0)" by (rule session_starts [OF assms(2)])
  then have "manager_reachable cf s" using assms(1,3) run_reachable manager_reachable.step by blast
  then have "mg_activeEpoch s = attempt" using reachable_manager_inv assms(5) unfolding manager_inv_def counters_ok_def by blast
  moreover have "attempt = mg_refreshEpoch s0"
    using same_session_run [OF assms(3)] assms(4,5) by (auto simp: loop_start_def)
  moreover have "mg_activeEpoch s = mg_refreshEpoch s" "mg_activeEpoch s = mg_releasedEpoch s" "\<not> mg_refreshPending s" "\<not> mg_ctxDone s"
    "cache_Load (mg_cache t) = (Some graph, generation)"
    using assms(6) by (auto simp: publishGraph_def session_done_def cache_Load_def cache_Replace_def Let_def split: if_splits)
  ultimately show ?thesis by simp
qed

text \<open>C26. The provisional schema is published only into an empty cache that nothing else has filled;
  every other change of the cache is the graph of a running session, and once there is one the
  authority stays with the worker.\<close>

theorem provisional_never_replaces:
  assumes "manager_reachable cf s" and "manager_step cf s t"
  shows "(mg_cache t \<noteq> mg_cache s \<longrightarrow>
      mg_authority s = authorityNone \<and> mg_authority t = authorityProvisional \<and> fst (cache_Load (mg_cache s)) = None \<or>
      mg_authority t = authorityRuntime \<and> mg_pc s = InSession (mg_refreshEpoch s) Loading) \<and>
    (mg_authority s = authorityRuntime \<longrightarrow> mg_authority t = authorityRuntime)"
  using assms(2)
proof cases
  case refresh
  then show ?thesis
    by cases (auto simp: refresh_callback_def refresh_send_def waitForRefresh_def after_refresh_def loop_refreshed_def notify_outage_def
        Let_def split: prod.splits waiting.splits option.splits session_error.splits)
next
  case (session_over attempt loaded err)
  then show ?thesis
    by (auto simp: loop_after_def loop_failed_def loop_refreshed_def notify_outage_def Let_def split: option.splits session_error.splits)
next
  case (session_loads attempt cleanup e graph)
  have "mg_activeEpoch s = attempt"
    using reachable_manager_inv [OF assms(1)] session_loads(2) unfolding manager_inv_def counters_ok_def by blast
  then show ?thesis
    using session_loads by (auto simp: session_publish_def publishGraph_def Let_def split: prod.splits if_splits)
next
  case provisional_loaded
  then show ?thesis by (auto simp: loadProvisional_def Let_def split: prod.splits)
qed (auto simp: Start_def DidSave_def Stop_def Stop_obsolete_def Stop_cancel_def loop_top_def loop_start_def persistGraph_def waitForRefresh_done_def
    waitForBackoff_def loop_return_def Let_def)

section \<open>Refreshes\<close>

lemma send_wakes:
  assumes "mg_startID s \<in> fst ` set (mg_sends s)"
  shows "\<exists>t. refresh_step s t \<and> mg_wake t \<and> mg_pc t = mg_pc s \<and> mg_refreshEpoch t = mg_refreshEpoch s \<and>
    mg_releasedEpoch t = mg_releasedEpoch s \<and> mg_refreshPending t = mg_refreshPending s \<and>
    mg_refreshDeadline t = mg_refreshDeadline s \<and> mg_now t = mg_now s"
proof -
  obtain w where w: "w \<in> set (mg_sends s)" "fst w = mg_startID s" using assms by force
  then obtain a b where ab: "mg_sends s = a @ w # b" by (metis split_list)
  let ?t = "refresh_send w (s\<lparr>mg_sends := a @ b\<rparr>)"
  show ?thesis
    by (rule exI [of _ ?t], rule conjI, rule send [OF ab]) (use w(2) in \<open>auto simp: refresh_send_def split: prod.splits\<close>)
qed

definition not_waiting :: "'g manager \<Rightarrow> bool" where
  "not_waiting s \<longleftrightarrow> mg_pc s = AtTop \<or> (\<exists>e. mg_pc s = Returning (Some (CleanupError e)))"

lemma pending_wakes:
  assumes pc: "mg_pc s = WaitRefresh afterEpoch why" and valid: "refresh_valid afterEpoch s" and "token_coming s"
  shows "\<exists>t. refresh_step\<^sup>*\<^sup>* s t \<and> not_waiting t"
proof -
  have woken: "\<exists>t. refresh_step s t \<and> not_waiting t"
    if "mg_wake s" "mg_pc s = WaitRefresh afterEpoch why" "refresh_valid afterEpoch s" for s :: "'g manager"
    by (rule exI [of _ "waitForRefresh afterEpoch why s"], rule conjI, rule wakes [OF that(2,1)])
      (use that in \<open>auto simp: waitForRefresh_def after_refresh_def loop_refreshed_def not_waiting_def notify_outage_def Let_def
        split: waiting.splits option.splits session_error.splits\<close>)
  show ?thesis
  proof (cases "mg_wake s")
    case True
    then show ?thesis using woken [OF True pc valid] by blast
  next
    case False
    then obtain t where t: "refresh_step s t" "mg_wake t" "mg_pc t = mg_pc s" "refresh_valid afterEpoch t"
      using send_wakes [of s] assms(3) valid by (auto simp: token_coming_def refresh_valid_def)
    then obtain u where "refresh_step t u" "not_waiting u" using woken [OF t(2) _ t(4)] pc by metis
    then show ?thesis using t(1) by (meson converse_rtranclp_into_rtranclp r_into_rtranclp)
  qed
qed

lemma release_fires:
  assumes "running s" and "release_coming s"
  shows "\<exists>t. refresh_step\<^sup>*\<^sup>* s t \<and> mg_pc t = mg_pc s \<and> mg_refreshEpoch t = mg_refreshEpoch s \<and>
    mg_releasedEpoch t = mg_refreshEpoch s \<and> mg_refreshPending t \<and> mg_refreshDeadline t \<le> mg_now t \<and> token_coming t"
proof -
  have called: "\<exists>t. refresh_step u t \<and> mg_pc t = mg_pc u \<and> mg_refreshEpoch t = mg_refreshEpoch u \<and>
    mg_releasedEpoch t = mg_refreshEpoch u \<and> mg_refreshPending t \<and> mg_refreshDeadline t \<le> mg_now t \<and> token_coming t"
    if "mg_started u" "mg_refreshEpoch u \<in> set (mg_queued u)" "mg_refreshDeadline u \<le> mg_now u" for u :: "'g manager"
  proof -
    note u = that
    obtain a b where ab: "mg_queued u = a @ mg_refreshEpoch u # b" using u(2) by (metis split_list)
    show ?thesis
      by (rule exI [of _ "refresh_callback (mg_refreshEpoch u) (u\<lparr>mg_queued := a @ b\<rparr>)"], rule conjI, rule callback [OF ab])
        (use u in \<open>auto simp: refresh_callback_def token_coming_def\<close>)
  qed
  have started: "mg_started s" using assms(1) by (simp add: running_def)
  show ?thesis
  proof (cases "mg_refreshEpoch s \<in> set (mg_queued s) \<and> mg_refreshDeadline s \<le> mg_now s")
    case True
    then show ?thesis using called [OF started] by blast
  next
    case False
    then have timer: "mg_timer s = Some (mg_refreshEpoch s, mg_refreshDeadline s)" using assms(2) by (auto simp: release_coming_def)
    define s1 where "s1 = s\<lparr>mg_now := mg_now s + mg_refreshDeadline s\<rparr>"
    define s2 where "s2 = s1\<lparr>mg_timer := None, mg_queued := mg_refreshEpoch s # mg_queued s1\<rparr>"
    have "refresh_step s s1" unfolding s1_def by (rule tick)
    moreover have "refresh_step s1 s2" unfolding s2_def by (rule timer_fires [where due = "mg_refreshDeadline s"]) (simp_all add: s1_def timer)
    moreover have "mg_started s2" "mg_refreshEpoch s2 \<in> set (mg_queued s2)" "mg_refreshDeadline s2 \<le> mg_now s2"
      "mg_pc s2 = mg_pc s" "mg_refreshEpoch s2 = mg_refreshEpoch s"
      using started by (simp_all add: s2_def s1_def)
    ultimately show ?thesis
      using called [of s2] by (metis converse_rtranclp_into_rtranclp r_into_rtranclp)
  qed
qed

text \<open>C27. No save is lost: whenever the loop waits and there is a save it does not know, time, the
  timer and its callbacks alone can let it leave the wait, whatever happened before and in whichever
  order the callbacks ran, unless the loop is cancelled or a \<open>Stop\<close> is about to cancel it.\<close>

theorem newest_save_wakes_loop:
  assumes "manager_reachable cf s" and "mg_pc s = WaitRefresh afterEpoch why" and "afterEpoch < mg_refreshEpoch s"
    and "\<not> mg_ctxDone s" and "\<not> stopping (mg_stops s)"
  shows "\<exists>t. refresh_step\<^sup>*\<^sup>* s t \<and> not_waiting t"
proof -
  have inv: "manager_inv s" by (rule reachable_manager_inv [OF assms(1)])
  have run: "running s" using inv assms(2,4) by (simp add: inv_defs)
  then have st: "steady s" using assms(5) by (simp add: steady_def)
  show ?thesis
  proof (cases "mg_refreshPending s")
    case True
    have "refresh_valid afterEpoch s" "token_coming s"
      using inv st assms(2,3) True unfolding manager_inv_def pending_ok_def wake_ok_def refresh_valid_def by blast+
    then show ?thesis by (rule pending_wakes [OF assms(2)])
  next
    case False
    have "mg_releasedEpoch s < mg_refreshEpoch s"
      using inv st assms(2,3) False unfolding manager_inv_def behind_ok_def by simp
    then have "release_coming s" using inv st unfolding manager_inv_def release_ok_def by blast
    then obtain t where t: "refresh_step\<^sup>*\<^sup>* s t" "mg_pc t = mg_pc s" "mg_refreshEpoch t = mg_refreshEpoch s"
      "mg_releasedEpoch t = mg_refreshEpoch s" "mg_refreshPending t" "mg_refreshDeadline t \<le> mg_now t" "token_coming t"
      using release_fires [OF run] by blast
    have "refresh_valid afterEpoch t" using t assms(3) by (simp add: refresh_valid_def)
    then obtain u where "refresh_step\<^sup>*\<^sup>* t u" "not_waiting u" using pending_wakes [OF t(2) [unfolded assms(2)] _ t(7)] by blast
    then show ?thesis using t(1) by (meson rtranclp_trans)
  qed
qed

section \<open>Instances\<close>

lemma published_graph_has_every_save_witness:
  "\<exists>t. publishGraph 7 (loop_start (first_start default_config)) = ((1, True), t) \<and> cache_Load (mg_cache t) = (Some 7, 1)"
proof -
  have p: "publishGraph 7 (loop_start (first_start default_config)) = ((1, True), snd (publishGraph 7 (loop_start (first_start default_config))))"
    by (simp add: run_defs)
  have "cache_Load (mg_cache (snd (publishGraph 7 (loop_start (first_start default_config))))) = (Some 7, 1)"
    using published_graph_has_every_save [OF first_start_reachable(2) _ rtranclp.rtrancl_refl refl _ p, of 0] by (simp add: run_defs)
  then show ?thesis using p by blast
qed

lemma provisional_never_replaces_witness:
  "(let s = fresh_top (default_config\<lparr>cf_persistent := True\<rparr>); t = loadProvisional 1 7 (s\<lparr>mg_provisional := []\<rparr>) in
     cache_Load (mg_cache s) = (None, 0) \<and> cache_Load (mg_cache t) = (Some 7, 1) \<and> mg_authority t = authorityProvisional)"
proof -
  let ?s = "fresh_top (default_config\<lparr>cf_persistent := True\<rparr>)"
  let ?t = "loadProvisional 1 7 (?s\<lparr>mg_provisional := []\<rparr>)"
  have "mg_provisional ?s = [] @ 1 # []" by (simp add: run_defs default_config_def)
  then have "manager_step (default_config\<lparr>cf_persistent := True\<rparr>) ?s (loadProvisional 1 7 (?s\<lparr>mg_provisional := [] @ []\<rparr>))"
    by (rule provisional_loaded)
  then have "mg_cache ?t \<noteq> mg_cache ?s \<longrightarrow> mg_authority ?t = authorityProvisional \<or> mg_pc ?s = InSession (mg_refreshEpoch ?s) Loading"
    using provisional_never_replaces [OF first_start_reachable(1)] by auto
  moreover have "mg_cache ?t \<noteq> mg_cache ?s" "mg_pc ?s \<noteq> InSession (mg_refreshEpoch ?s) Loading"
    by (simp_all add: run_defs loadProvisional_def default_config_def)
  moreover have "cache_Load (mg_cache ?s) = (None, 0)" "cache_Load (mg_cache ?t) = (Some 7, 1)"
    by (simp_all add: run_defs loadProvisional_def default_config_def)
  ultimately show ?thesis by (simp add: Let_def)
qed

lemma newest_save_wakes_loop_witness:
  "\<exists>t. refresh_step\<^sup>*\<^sup>* (loop_top (DidSave default_config True (fresh_top default_config))) t \<and> not_waiting t"
proof (rule newest_save_wakes_loop)
  have "manager_reachable default_config (DidSave default_config True (fresh_top default_config))"
    by (rule manager_reachable.step [OF first_start_reachable(1) did_save])
  then show "manager_reachable default_config (loop_top (DidSave default_config True (fresh_top default_config)))"
    by (rule manager_reachable.step [OF _ top]) (simp add: run_defs)
  show "mg_pc (loop_top (DidSave default_config True (fresh_top default_config))) = WaitRefresh 0 ForRelease"
    "0 < mg_refreshEpoch (loop_top (DidSave default_config True (fresh_top default_config)))" "\<not> mg_ctxDone (loop_top (DidSave default_config True (fresh_top default_config)))"
    "\<not> stopping (mg_stops (loop_top (DidSave default_config True (fresh_top default_config))))"
    by (simp_all add: run_defs)
qed

end
