(* ===== verification/Manager_Stop.thy ===== *)
theory Manager_Stop
  imports Worker_Manager_Facts
begin

text \<open>
  When the supervisor stops by itself, and how long it waits before it tries again.
\<close>

section \<open>When the loop stops\<close>

text \<open>A session that ends without an error was asked to, or was refused its graph.\<close>

definition session_ids_ok :: "'g manager \<Rightarrow> bool" where
  "session_ids_ok s \<longleftrightarrow> (\<forall>x \<in> Option.these (snd ` set (mg_sends s)). x < mg_sessions s) \<and>
     (\<forall>x. mg_session s = Some x \<longrightarrow> x < mg_sessions s) \<and> (\<forall>e stage. mg_pc s = InSession e stage \<longrightarrow> mg_session s \<noteq> None)"

definition asked_to_stop :: "'g manager \<Rightarrow> bool" where
  "asked_to_stop s \<longleftrightarrow> mg_sessionDone s \<or> mg_session s \<in> snd ` set (mg_sends s)"

definition stop_inv :: "'g manager \<Rightarrow> bool" where
  "stop_inv s \<longleftrightarrow> session_ids_ok s \<and>
     (running s \<longrightarrow> (\<forall>e stage. mg_pc s = InSession e stage \<longrightarrow> asked_to_stop s \<longrightarrow> mg_refreshPending s \<or> e < mg_refreshEpoch s)) \<and>
     (running s \<longrightarrow> (\<forall>e loaded. mg_pc s = SessionOver e loaded None \<longrightarrow>
        mg_refreshPending s \<or> e < mg_refreshEpoch s \<or> mg_releasedEpoch s < mg_refreshEpoch s))"

lemmas stop_defs = stop_inv_def session_ids_ok_def asked_to_stop_def running_def

lemma these_cases: "x \<in> Option.these A \<longleftrightarrow> Some x \<in> A"
  by (force simp: Option.these_def)

lemma refresh_step_stop_inv:
  assumes "refresh_step s t" and "stop_inv s" and "manager_inv s"
  shows "stop_inv t"
  using assms
proof cases
  case (callback a epoch b)
  then show ?thesis using assms(2) by (auto simp: stop_defs refresh_callback_def these_cases)
next
  case (send a w b)
  then show ?thesis using assms(2) by (cases w) (auto simp: stop_defs refresh_send_def these_cases)
next
  case (wakes e why)
  then show ?thesis using assms(2)
    by (auto simp: stop_defs waitForRefresh_def after_refresh_def loop_refreshed_def notify_outage_def Let_def these_cases
        split: waiting.splits option.splits session_error.splits)
qed (auto simp: stop_defs these_cases)

lemma moved_stop_inv:
  assumes "stop_inv s" and "mg_sends t = mg_sends s" and "mg_session t = mg_session s \<or> mg_session t = None" and "mg_sessions t = mg_sessions s"
    and "\<And>e stage. mg_pc t \<noteq> InSession e stage" and "\<And>e loaded. mg_pc t \<noteq> SessionOver e loaded None"
  shows "stop_inv t"
  using assms by (auto simp: stop_defs)

lemma loop_refreshed_same [simp]:
  "mg_sends (loop_refreshed err s) = mg_sends s" "mg_session (loop_refreshed err s) = mg_session s"
  "mg_sessions (loop_refreshed err s) = mg_sessions s" "mg_pc (loop_refreshed err s) \<noteq> InSession e stage"
  "mg_pc (loop_refreshed err s) \<noteq> SessionOver e loaded err'"
  by (auto simp: loop_refreshed_def notify_outage_def split: option.splits session_error.splits)

lemma loop_failed_same [simp]:
  "mg_sends (loop_failed cf a l err s) = mg_sends s" "mg_session (loop_failed cf a l err s) = mg_session s"
  "mg_sessions (loop_failed cf a l err s) = mg_sessions s" "mg_pc (loop_failed cf a l err s) \<noteq> InSession e stage"
  "mg_pc (loop_failed cf a l err s) \<noteq> SessionOver e loaded err'"
  by (auto simp: loop_failed_def notify_outage_def Let_def)

lemma loop_after_same:
  "mg_sends (loop_after cf a l err s) = mg_sends s" "mg_session (loop_after cf a l err s) = None"
  "mg_sessions (loop_after cf a l err s) = mg_sessions s" "mg_pc (loop_after cf a l err s) \<noteq> InSession e stage"
  "mg_pc (loop_after cf a l err s) \<noteq> SessionOver e loaded err'"
  by (auto simp: loop_after_def notify_outage_def Let_def split: option.splits session_error.splits)

lemma over_stop_inv:
  assumes "stop_inv s" and "mg_pc s = InSession attempt stage"
    and "err = None \<Longrightarrow> running s \<Longrightarrow> asked_to_stop s \<or> mg_refreshPending s \<or> attempt < mg_refreshEpoch s \<or> mg_releasedEpoch s < mg_refreshEpoch s"
  shows "stop_inv (s\<lparr>mg_pc := SessionOver attempt loaded err\<rparr>)"
  using assms by (auto simp: stop_defs)

lemma publish_stop_inv:
  assumes "stop_inv s" and "manager_inv s" and pc: "mg_pc s = InSession attempt Loading"
  shows "stop_inv (session_publish cf attempt graph cleanup s)"
proof (cases "snd (fst (publishGraph graph s))")
  case True
  then obtain generation t where p: "publishGraph graph s = ((generation, True), t)" by (metis prod.collapse)
  then have "mg_sends t = mg_sends s" "mg_session t = mg_session s" "mg_sessions t = mg_sessions s" "mg_sessionDone t = mg_sessionDone s"
    "mg_started t = mg_started s" "mg_ctxDone t = mg_ctxDone s" "mg_refreshPending t = mg_refreshPending s" "mg_refreshEpoch t = mg_refreshEpoch s"
    by (auto simp: publishGraph_def Let_def split: if_splits prod.splits)
  then show ?thesis using assms(1) pc by (auto simp: session_publish_def p stop_defs)
next
  case False
  then have p: "publishGraph graph s = ((0, False), s)" and why: "session_done s \<or> mg_refreshPending s \<or>
    mg_activeEpoch s \<noteq> mg_refreshEpoch s \<or> mg_activeEpoch s \<noteq> mg_releasedEpoch s"
    by (auto simp: publishGraph_def Let_def split: if_splits prod.splits)
  have "mg_activeEpoch s = attempt" "attempt \<le> mg_refreshEpoch s" "mg_releasedEpoch s \<le> mg_refreshEpoch s"
    using assms(2) pc by (auto simp: inv_defs)
  then show ?thesis
    unfolding session_publish_def p using why
    by (simp add: over_stop_inv [OF assms(1) pc] session_done_def asked_to_stop_def running_def) 
      (intro over_stop_inv [OF assms(1) pc], auto simp: asked_to_stop_def running_def)
qed

lemma manager_step_stop_inv:
  assumes "manager_step cf s t" and "stop_inv s" and "manager_inv s"
  shows "stop_inv t"
  using assms
proof cases
  case refresh
  then show ?thesis using refresh_step_stop_inv assms(2,3) by blast
next
  case (session_over attempt loaded err)
  show ?thesis by (rule moved_stop_inv [OF assms(2)]) (simp_all add: session_over(1) loop_after_same)
next
  case (session_loads attempt cleanup e graph)
  show ?thesis unfolding session_loads(1) by (rule publish_stop_inv [OF assms(2,3) session_loads(2)])
next
  case (session_fails attempt err)
  show ?thesis unfolding session_fails(1) by (rule over_stop_inv [OF assms(2) session_fails(2)]) simp
next
  case (session_cancelled attempt cleanup e)
  show ?thesis unfolding session_cancelled(1)
    by (rule over_stop_inv [OF assms(2) session_cancelled(2)]) (use session_cancelled(3) in \<open>simp add: session_done_def asked_to_stop_def running_def\<close>)
next
  case (worker_exits attempt stayed err)
  show ?thesis unfolding worker_exits(1) by (rule over_stop_inv [OF assms(2) worker_exits(2)]) simp
next
  case (worker_shuts_down attempt cleanup e)
  show ?thesis unfolding worker_shuts_down(1)
    by (rule over_stop_inv [OF assms(2) worker_shuts_down(2)]) (use worker_shuts_down(3) in \<open>simp add: session_done_def asked_to_stop_def running_def\<close>)
next
  case (session_persists attempt graph authority epoch)
  then show ?thesis using assms(2) by (auto simp: stop_defs persistGraph_def Let_def)
next
  case session_starts
  have "\<forall>x \<in> Option.these (snd ` set (mg_sends s)). x < mg_sessions s" using assms(2) by (simp add: stop_inv_def session_ids_ok_def)
  then have "mg_sessions s \<notin> Option.these (snd ` set (mg_sends s))" by blast
  then have "Some (mg_sessions s) \<notin> snd ` set (mg_sends s)" unfolding these_cases .
  then show ?thesis
    using assms(2) session_starts by (auto simp: stop_defs loop_start_def these_cases less_Suc_eq)
next
  case did_save
  then show ?thesis using assms(2,3) by (auto simp: stop_defs inv_defs DidSave_def Let_def)
next
  case start
  then show ?thesis using assms(2,3) by (auto simp: stop_defs inv_defs Start_def)
next
  case provisional_loaded
  then show ?thesis using assms(2) by (auto simp: stop_defs loadProvisional_def Let_def split: prod.splits)
qed (use assms(2) in \<open>auto simp: stop_defs Stop_def Stop_obsolete_def Stop_cancel_def loop_top_def waitForRefresh_done_def waitForBackoff_def loop_return_def Let_def\<close>)

lemma reachable_stop_inv: "manager_reachable cf s \<Longrightarrow> stop_inv s"
proof (induction rule: manager_reachable.induct)
  case (initial cache)
  then show ?case by (simp add: stop_defs initial_manager_def)
next
  case (step s t)
  then show ?case using manager_step_stop_inv reachable_manager_inv by blast
qed

text \<open>C28. The supervisor gives up by itself only if a worker could not be cleaned up, or if the session
  that ended had started before the newest epoch was released and nothing has come since. That epoch is
  the one of a save, or of a \<open>Stop\<close> that has not cancelled yet.\<close>

theorem supervisor_stops_only_when:
  assumes "manager_reachable cf s" and "running s" and "manager_step cf s t" and "mg_pc t = Returning err" and "mg_pc s \<noteq> Returning err"
  shows "(\<exists>e. err = Some (CleanupError e)) \<or>
    err = None \<and> (\<exists>loaded. mg_pc s = SessionOver (mg_refreshEpoch s) loaded None) \<and> mg_releasedEpoch s < mg_refreshEpoch s"
  using assms(3)
proof cases
  case refresh
  then show ?thesis using assms(4,5)
    by cases (auto simp: refresh_callback_def refresh_send_def waitForRefresh_def after_refresh_def loop_refreshed_def notify_outage_def
        Let_def split: prod.splits waiting.splits option.splits session_error.splits if_splits)
next
  case (session_over attempt loaded err')
  have "err' = None \<Longrightarrow> \<not> mg_refreshPending s \<Longrightarrow> attempt = mg_refreshEpoch s \<Longrightarrow> mg_releasedEpoch s < mg_refreshEpoch s"
    using reachable_stop_inv [OF assms(1)] assms(2) session_over(2) by (auto simp: stop_inv_def)
  moreover have "mg_pc (loop_failed cf a l e u) \<noteq> Returning r" for a l e r and u :: "'a manager"
    by (auto simp: loop_failed_def Let_def)
  ultimately show ?thesis
    using assms(2,4) session_over
    by (auto simp: loop_after_def loop_refreshed_def running_def Let_def split: option.splits session_error.splits if_splits)
next
  case (session_loads attempt cleanup e graph)
  then show ?thesis using assms(4)
    by (auto simp: session_publish_def publishGraph_def Let_def split: prod.splits if_splits)
next
  case provisional_loaded
  then show ?thesis using assms(4,5) by (auto simp: loadProvisional_def Let_def split: prod.splits if_splits)
qed (use assms(2,4,5) in \<open>auto simp: running_def Start_def DidSave_def Stop_def Stop_obsolete_def Stop_cancel_def loop_top_def loop_start_def persistGraph_def
    waitForRefresh_done_def waitForBackoff_def loop_return_def Let_def split: if_splits\<close>)


section \<open>Backoff\<close>

text \<open>The delay before the next attempt doubles with each failure, up to two seconds, as long as the
  product fits the 64 bits of a duration.\<close>

theorem backoff_doubles:
  assumes "0 < base" and "base * 2 ^ (failures - 1) < 2 ^ 63"
  shows "backoff_delay base failures = min (base * 2 ^ (failures - 1)) 2000000000"
proof -
  let ?x = "base * 2 ^ (failures - 1)"
  have shift: "push_bit (failures - 1) (word_of_int base :: 64 word) = word_of_int ?x"
    by (simp add: push_bit_eq_mult)
  have "0 \<le> ?x" using assms(1) by simp
  then have "signed_take_bit 63 ?x = ?x" using assms(2) by (intro signed_take_bit_int_eq_self) simp_all
  moreover have "sint (word_of_int ?x :: 64 word) = signed_take_bit (LENGTH(64) - 1) ?x" by (rule sint_sbintrunc')
  ultimately have val: "sint (word_of_int ?x :: 64 word) = ?x" by simp
  show ?thesis unfolding backoff_delay_def shift val Let_def by (simp add: min_def)
qed

text \<open>With the default base of 100 milliseconds the shift leaves the 64 bits at the 38th failure; the delay
  is negative then, and a timer with a negative delay fires at once.\<close>

lemma backoff_overflows: "backoff_delay 100000000 38 < 0"
  by (simp add: backoff_delay_def push_bit_eq_mult)

section \<open>Instances\<close>

lemma supervisor_stops_only_when_witness:
  "mg_pc (loop_after default_config 1 False None (race_over default_config)) = Returning None \<and> mg_releasedEpoch (race_over default_config) < mg_refreshEpoch (race_over default_config)"
proof -
  have pc: "mg_pc (race_over default_config) = SessionOver 1 False None" by (simp add: run_defs)
  have r: "running (race_over default_config)" "mg_pc (loop_after default_config 1 False None (race_over default_config)) = Returning None"
    by (simp_all add: running_def run_defs loop_after_def)
  have "(\<exists>e. (None :: session_error option) = Some (CleanupError e)) \<or> (None :: session_error option) = None \<and>
    (\<exists>loaded. mg_pc (race_over default_config) = SessionOver (mg_refreshEpoch (race_over default_config)) loaded None) \<and>
    mg_releasedEpoch (race_over default_config) < mg_refreshEpoch (race_over default_config)"
    by (rule supervisor_stops_only_when [OF race_over_reachable r(1) session_over [OF pc] r(2)]) (simp add: pc)
  then show ?thesis using r(2) by simp
qed

lemma backoff_doubles_witness: "backoff_delay 100000000 3 = 400000000 \<and> backoff_delay 100000000 6 = 2000000000"
  using backoff_doubles [of 100000000 3] backoff_doubles [of 100000000 6] by simp

end
