(* ===== verification/Worker_Environment.thy ===== *)
theory Worker_Environment
  imports Go_Unicode Go_Filepath
begin

text \<open>
  The environment of the Python worker (\<open>src/internal/python/environment.go\<close> and the parts of
  \<open>manager.go\<close> that use it): the parser of the environment file, the validation of names, values and
  totals, the overrides of the client's configuration, and the environment the worker process is
  started with.

  The parser's \<open>payload\<close> and \<open>offset\<close> are one field here: \<open>remaining\<close> is \<open>payload[offset:]\<close>, so
  \<open>offset++\<close> drops a byte and \<open>offset >= len(payload)\<close> says that nothing remains. Logging is left
  out. A platform is what the build tags of \<open>process_unix.go\<close> and \<open>process_windows.go\<close> choose.
\<close>

named_theorems env_simps \<open>the parser of the environment file, operation by operation\<close>

section \<open>Entries and limits\<close>

definition maxWorkerEnvironmentFileSize :: nat where "maxWorkerEnvironmentFileSize = 256 * 1024"
definition maxWorkerEnvironmentCount :: nat where "maxWorkerEnvironmentCount = 256"
definition maxWorkerEnvironmentKeySize :: nat where "maxWorkerEnvironmentKeySize = 256"
definition maxWorkerEnvironmentValueSize :: nat where "maxWorkerEnvironmentValueSize = 16 * 1024"
definition maxWorkerEnvironmentUnits :: nat where "maxWorkerEnvironmentUnits = 30000"

lemmas env_limits = maxWorkerEnvironmentFileSize_def maxWorkerEnvironmentCount_def
  maxWorkerEnvironmentKeySize_def maxWorkerEnvironmentValueSize_def maxWorkerEnvironmentUnits_def

record workerEnvironmentEntry =
  entry_name :: string
  entry_value :: string

abbreviation env_entry :: "string \<Rightarrow> string \<Rightarrow> workerEnvironmentEntry" where
  "env_entry n v \<equiv> \<lparr>entry_name = n, entry_value = v\<rparr>"

definition reservedWorkerEnvironmentNames :: "string list" where
  "reservedWorkerEnvironmentNames =
     [''pythondontwritebytecode'', ''pythonunbuffered'', ''pythonutf8'', ''tmpdir'', ''tmp'', ''temp'', ''systemroot'']"

datatype platform = Unix | Windows

definition normalizeEnvironmentKey :: "platform \<Rightarrow> string \<Rightarrow> string" where
  "normalizeEnvironmentKey pf name = (case pf of Unix \<Rightarrow> name | Windows \<Rightarrow> ToLower name)"

section \<open>Bytes of the file\<close>

abbreviation LF :: char where "LF \<equiv> CHR 0x0A"
abbreviation CR :: char where "CR \<equiv> CHR 0x0D"
abbreviation TAB :: char where "TAB \<equiv> CHR 0x09"
abbreviation DQUOTE :: char where "DQUOTE \<equiv> CHR 0x22"
abbreviation SQUOTE :: char where "SQUOTE \<equiv> CHR 0x27"
abbreviation BACKSLASH :: char where "BACKSLASH \<equiv> CHR 0x5C"
abbreviation NUL :: char where "NUL \<equiv> CHR 0x00"

definition isWorkerEnvironmentKeyStart :: "char \<Rightarrow> bool" where
  "isWorkerEnvironmentKeyStart c \<longleftrightarrow> c = CHR ''_'' \<or> CHR ''A'' \<le> c \<and> c \<le> CHR ''Z'' \<or> CHR ''a'' \<le> c \<and> c \<le> CHR ''z''"

definition isWorkerEnvironmentKeyContinue :: "char \<Rightarrow> bool" where
  "isWorkerEnvironmentKeyContinue c \<longleftrightarrow> isWorkerEnvironmentKeyStart c \<or> CHR ''0'' \<le> c \<and> c \<le> CHR ''9''"

definition isHorizontalSpace :: "char \<Rightarrow> bool" where
  "isHorizontalSpace c \<longleftrightarrow> c = CHR '' '' \<or> c = TAB"

definition isLineEndByte :: "char \<Rightarrow> bool" where
  "isLineEndByte c \<longleftrightarrow> c = LF \<or> c = CR"

text \<open>\<open>for _, character := range value\<close>: the runes of the string, two units beyond \<open>0xffff\<close>.\<close>

function utf16Units :: "string \<Rightarrow> nat" where
  "utf16Units [] = 0"
| "utf16Units (c # cs) = (let (r, n) = DecodeRune (c # cs) in
     (if 0xFFFF < r then 2 else 1) + utf16Units (drop n (c # cs)))"
  by pat_completeness auto
termination utf16Units
  by (relation "measure length") (simp_all only: wf_measure in_measure drop_rune_less)

section \<open>Validation\<close>

definition validateWorkerEnvironmentNameSyntax :: "string \<Rightarrow> goerror option" where
  "validateWorkerEnvironmentNameSyntax name = first_err
     [check (\<not> Valid name \<or> name = [] \<or> \<not> isWorkerEnvironmentKeyStart (hd name)) (errorf ''invalid variable name'' []),
      check (\<exists>c \<in> set (tl name). \<not> isWorkerEnvironmentKeyContinue c) (errorf ''invalid variable name'' []),
      check (maxWorkerEnvironmentKeySize < length name \<or> maxWorkerEnvironmentKeySize < utf16Units name)
        (errorf ''variable name exceeds %d units'' [AInt (int maxWorkerEnvironmentKeySize)])]"

definition validateWorkerEnvironmentName :: "string \<Rightarrow> goerror option" where
  "validateWorkerEnvironmentName name = first_err
     [validateWorkerEnvironmentNameSyntax name,
      check (HasPrefix (ToLower name) ''pogo_worker_'') (errorf ''variable name is reserved for worker transport'' []),
      check (ToLower name \<in> set reservedWorkerEnvironmentNames) (errorf ''variable name is reserved by Pogo'' [])]"

definition validateWorkerEnvironmentValue :: "string \<Rightarrow> goerror option" where
  "validateWorkerEnvironmentValue v = first_err
     [check (\<not> Valid v) (errorf ''value contains invalid UTF-8'' []),
      check (NUL \<in> set v) (errorf ''value contains NUL'' []),
      check (maxWorkerEnvironmentValueSize < length v \<or> maxWorkerEnvironmentValueSize < utf16Units v)
        (errorf ''value exceeds %d units'' [AInt (int maxWorkerEnvironmentValueSize)])]"

definition variable_error :: "string \<Rightarrow> goerror \<Rightarrow> goerror" where
  "variable_error name e = wrapf ''worker environment variable %q: %w'' [AStr name] e"

text \<open>\<open>bytesTotal\<close> and \<open>unitsTotal\<close> after the loop over the entries.\<close>

definition bytesTotal :: "workerEnvironmentEntry list \<Rightarrow> nat" where
  "bytesTotal entries = 1 + sum_list (map (\<lambda>e. length (entry_name e) + 1 + length (entry_value e) + 1) entries)"

definition unitsTotal :: "workerEnvironmentEntry list \<Rightarrow> nat" where
  "unitsTotal entries = 1 + sum_list (map (\<lambda>e. utf16Units (entry_name e) + 1 + utf16Units (entry_value e) + 1) entries)"

definition check_totals :: "workerEnvironmentEntry list \<Rightarrow> goerror option" where
  "check_totals entries = check (maxWorkerEnvironmentUnits < bytesTotal entries \<or> maxWorkerEnvironmentUnits < unitsTotal entries)
     (errorf ''worker environment exceeds %d total units'' [AInt (int maxWorkerEnvironmentUnits)])"

definition check_count :: "workerEnvironmentEntry list \<Rightarrow> goerror option" where
  "check_count entries = check (maxWorkerEnvironmentCount < length entries)
     (errorf ''worker environment exceeds %d variables'' [AInt (int maxWorkerEnvironmentCount)])"

definition validateWorkerEnvironment :: "workerEnvironmentEntry list \<Rightarrow> goerror option" where
  "validateWorkerEnvironment entries = first_err
     [check_count entries,
      check_each (\<lambda>e. first_err
        [on_err (variable_error (entry_name e)) (validateWorkerEnvironmentName (entry_name e)),
         on_err (variable_error (entry_name e)) (validateWorkerEnvironmentValue (entry_value e))]) entries,
      check_totals entries]"

text \<open>The loop of \<open>validateWorkerProcessEnvironment\<close>, with the names it has \<open>seen\<close>.\<close>

fun process_entries :: "platform \<Rightarrow> string gomap \<Rightarrow> workerEnvironmentEntry list \<Rightarrow> goerror option" where
  "process_entries pf seen [] = None"
| "process_entries pf seen (e # es) = first_err
     [on_err (variable_error (entry_name e)) (validateWorkerEnvironmentNameSyntax (entry_name e)),
      on_err (variable_error (entry_name e)) (validateWorkerEnvironmentValue (entry_value e)),
      (case map_of seen (normalizeEnvironmentKey pf (entry_name e)) of
         Some previous \<Rightarrow> Some (errorf ''worker environment variables %q and %q refer to the same variable''
           [AStr previous, AStr (entry_name e)])
       | None \<Rightarrow> process_entries pf (gomap_put (normalizeEnvironmentKey pf (entry_name e)) (entry_name e) seen) es)]"

definition validateWorkerProcessEnvironment :: "platform \<Rightarrow> workerEnvironmentEntry list \<Rightarrow> goerror option" where
  "validateWorkerProcessEnvironment pf entries =
     first_err [check_count entries, process_entries pf [] entries, check_totals entries]"

definition sortWorkerEnvironment :: "platform \<Rightarrow> workerEnvironmentEntry list \<Rightarrow> workerEnvironmentEntry list" where
  "sortWorkerEnvironment pf = sort_key (\<lambda>e. (normalizeEnvironmentKey pf (entry_name e), entry_name e))"

definition workerEnvironmentValue :: "platform \<Rightarrow> workerEnvironmentEntry list \<Rightarrow> string \<Rightarrow> string option" where
  "workerEnvironmentValue pf entries name = map_option entry_value
     (List.find (\<lambda>e. normalizeEnvironmentKey pf (entry_name e) = normalizeEnvironmentKey pf name) entries)"

section \<open>The parser\<close>

record workerEnvironmentParser =
  remaining :: string
  lineno :: nat

text \<open>The text of \<open>err\<close> fills the \<open>%s\<close> of the format.\<close>

definition lineError :: "string \<Rightarrow> nat \<Rightarrow> goerror \<Rightarrow> goerror" where
  "lineError path line err = wrapf ''worker environment file %q line %d: %s'' [AStr path, AInt (int line)] err"

definition skipHorizontalSpace :: "workerEnvironmentParser \<Rightarrow> workerEnvironmentParser" where
  "skipHorizontalSpace p = p\<lparr>remaining := dropWhile isHorizontalSpace (remaining p)\<rparr>"

definition skipComment :: "workerEnvironmentParser \<Rightarrow> workerEnvironmentParser" where
  "skipComment p = p\<lparr>remaining := dropWhile (\<lambda>c. \<not> isLineEndByte c) (remaining p)\<rparr>"

definition atLineEnd :: "workerEnvironmentParser \<Rightarrow> bool" where
  "atLineEnd p = (case remaining p of [] \<Rightarrow> True | c # _ \<Rightarrow> isLineEndByte c)"

definition consumeLineEnd :: "string \<Rightarrow> workerEnvironmentParser \<Rightarrow> goerror + workerEnvironmentParser" where
  "consumeLineEnd path p = (case remaining p of
     [] \<Rightarrow> Inr p
   | c # cs \<Rightarrow>
       if c = CR then
         (if cs = [] \<or> hd cs \<noteq> LF
          then Inl (lineError path (lineno p) (errorf ''bare carriage return is not a valid line ending'' []))
          else Inr (p\<lparr>remaining := tl cs, lineno := Suc (lineno p)\<rparr>))
       else if c = LF then Inr (p\<lparr>remaining := cs, lineno := Suc (lineno p)\<rparr>)
       else Inl (lineError path (lineno p) (errorf ''expected end of line'' [])))"

definition hasExportPrefix :: "workerEnvironmentParser \<Rightarrow> bool" where
  "hasExportPrefix p \<longleftrightarrow> HasPrefix (remaining p) ''export'' \<and>
     (case drop (length ''export'') (remaining p) of [] \<Rightarrow> False | c # _ \<Rightarrow> isHorizontalSpace c)"

text \<open>
  The loop over an unquoted value: the bytes before its end, whether a comment ended it, and what
  remains. \<open>spaced\<close> is \<open>offset > start && isHorizontalSpace(payload[offset-1]) || offset == start &&
  hadLeadingWhitespace\<close>.
\<close>

fun scan_unquoted :: "bool \<Rightarrow> string \<Rightarrow> string \<times> bool \<times> string" where
  "scan_unquoted spaced [] = ([], False, [])"
| "scan_unquoted spaced (c # cs) =
     (if isLineEndByte c then ([], False, c # cs)
      else if c = CHR ''#'' \<and> spaced then ([], True, c # cs)
      else let (v, comment, rest) = scan_unquoted (isHorizontalSpace c) cs in (c # v, comment, rest))"

definition escaped_byte :: "char \<Rightarrow> char option" where
  "escaped_byte c = (if c = BACKSLASH \<or> c = DQUOTE then Some c else if c = CHR ''n'' then Some LF
     else if c = CHR ''r'' then Some CR else if c = CHR ''t'' then Some TAB else None)"

lemma consumeLineEnd_shorter [termination_simp]:
  "consumeLineEnd path p = Inr p' \<Longrightarrow> remaining p \<noteq> [] \<Longrightarrow> length (remaining p') < length (remaining p)"
  by (cases "remaining p") (auto simp: consumeLineEnd_def split: if_splits)

text \<open>The loop over a quoted value, after its opening quote; \<open>val\<close> holds the bytes read so far.\<close>

function scan_quoted :: "string \<Rightarrow> nat \<Rightarrow> char \<Rightarrow> string \<Rightarrow> workerEnvironmentParser \<Rightarrow>
    goerror + string \<times> workerEnvironmentParser" where
  "scan_quoted path startLine quote val p = (case remaining p of
     [] \<Rightarrow> Inl (lineError path startLine (errorf ''unterminated quoted value'' []))
   | c # cs \<Rightarrow>
       if c = quote then
         (let q = skipHorizontalSpace (p\<lparr>remaining := cs\<rparr>);
              q = (if remaining q \<noteq> [] \<and> hd (remaining q) = CHR ''#'' then skipComment q else q) in
          if \<not> atLineEnd q then Inl (lineError path startLine (errorf ''trailing text after quoted value'' []))
          else case consumeLineEnd path q of Inl e \<Rightarrow> Inl e | Inr q' \<Rightarrow> Inr (val, q'))
       else if c = CR \<or> c = LF then
         (case consumeLineEnd path p of Inl e \<Rightarrow> Inl e
          | Inr p' \<Rightarrow> scan_quoted path startLine quote (val @ [LF]) p')
       else if quote = DQUOTE \<and> c = BACKSLASH then
         (case cs of
            [] \<Rightarrow> Inl (lineError path startLine (errorf ''unterminated escape in double-quoted value'' []))
          | d # ds \<Rightarrow> (case escaped_byte d of
               None \<Rightarrow> Inl (lineError path startLine (errorf ''invalid escape in double-quoted value'' []))
             | Some b \<Rightarrow> scan_quoted path startLine quote (val @ [b]) (p\<lparr>remaining := ds\<rparr>)))
       else scan_quoted path startLine quote (val @ [c]) (p\<lparr>remaining := cs\<rparr>))"
  by pat_completeness auto
termination scan_quoted
  by (relation "measure (\<lambda>(_, _, _, _, p). length (remaining p))") (auto dest: consumeLineEnd_shorter)

declare scan_quoted.simps [simp del]

definition parseValue :: "string \<Rightarrow> nat \<Rightarrow> bool \<Rightarrow> workerEnvironmentParser \<Rightarrow> goerror + string \<times> workerEnvironmentParser" where
  "parseValue path startLine hadLeadingWhitespace p =
     (if atLineEnd p then bind_err (consumeLineEnd path p) (\<lambda>p'. Inr ([], p'))
      else let quote = hd (remaining p) in
        if quote \<noteq> SQUOTE \<and> quote \<noteq> DQUOTE then
          (let (v, comment, rest) = scan_unquoted hadLeadingWhitespace (remaining p);
               p' = p\<lparr>remaining := rest\<rparr>;
               p' = (if comment then skipComment p' else p') in
           bind_err (consumeLineEnd path p') (\<lambda>p''. Inr (TrimBytes isHorizontalSpace v, p'')))
        else scan_quoted path startLine quote [] (p\<lparr>remaining := tl (remaining p)\<rparr>))"

text \<open>One assignment, from the first byte of its line that is not a space: the name and the value.\<close>

definition parse_assignment :: "string \<Rightarrow> workerEnvironmentParser \<Rightarrow> goerror + workerEnvironmentEntry \<times> workerEnvironmentParser" where
  "parse_assignment path p =
     (let startLine = lineno p;
          p1 = (if hasExportPrefix p then skipHorizontalSpace (p\<lparr>remaining := drop (length ''export'') (remaining p)\<rparr>) else p) in
      if remaining p1 = [] \<or> \<not> isWorkerEnvironmentKeyStart (hd (remaining p1))
      then Inl (lineError path startLine (errorf ''invalid variable name'' []))
      else let name = hd (remaining p1) # takeWhile isWorkerEnvironmentKeyContinue (tl (remaining p1));
               p2 = skipHorizontalSpace (p1\<lparr>remaining := dropWhile isWorkerEnvironmentKeyContinue (tl (remaining p1))\<rparr>) in
        if remaining p2 = [] \<or> hd (remaining p2) \<noteq> CHR ''=''
        then Inl (lineError path startLine (errorf (''expected '' @ [SQUOTE, CHR ''='', SQUOTE] @ '' after variable name'') []))
        else let rest = tl (remaining p2);
                 hadLeadingWhitespace = (rest \<noteq> [] \<and> isHorizontalSpace (hd rest)) in
          bind_err (parseValue path startLine hadLeadingWhitespace (skipHorizontalSpace (p2\<lparr>remaining := rest\<rparr>)))
            (\<lambda>(v, p3). Inr (env_entry name v, p3)))"

text \<open>What the loop does with an assignment it has parsed: \<open>seen\<close> and \<open>entries\<close> after it.\<close>

definition add_entry :: "platform \<Rightarrow> string \<Rightarrow> nat \<Rightarrow> workerEnvironmentEntry \<Rightarrow> string gomap \<times> workerEnvironmentEntry list
    \<Rightarrow> goerror + string gomap \<times> workerEnvironmentEntry list" where
  "add_entry pf path startLine e st =
     guard_err (on_err (lineError path startLine) (validateWorkerEnvironmentName (entry_name e)))
     (guard_err (on_err (lineError path startLine) (validateWorkerEnvironmentValue (entry_value e)))
     (case map_of (fst st) (normalizeEnvironmentKey pf (entry_name e)) of
        Some previous \<Rightarrow> Inl (lineError path startLine
          (errorf ''duplicate variable %q (previously %q)'' [AStr (entry_name e), AStr previous]))
      | None \<Rightarrow>
          guard_err (check (maxWorkerEnvironmentCount < Suc (length (snd st))) (lineError path startLine
            (errorf ''environment exceeds %d variables'' [AInt (int maxWorkerEnvironmentCount)])))
          (Inr (gomap_put (normalizeEnvironmentKey pf (entry_name e)) (entry_name e) (fst st), snd st @ [e]))))"

text \<open>One iteration of the loop of \<open>parse\<close>.\<close>

definition parse_line :: "platform \<Rightarrow> string \<Rightarrow> string gomap \<times> workerEnvironmentEntry list \<Rightarrow> workerEnvironmentParser \<Rightarrow>
    goerror + (string gomap \<times> workerEnvironmentEntry list) \<times> workerEnvironmentParser" where
  "parse_line pf path st p =
     (let p1 = skipHorizontalSpace p in
      if atLineEnd p1 then bind_err (consumeLineEnd path p1) (\<lambda>p2. Inr (st, p2))
      else if hd (remaining p1) = CHR ''#'' then bind_err (consumeLineEnd path (skipComment p1)) (\<lambda>p2. Inr (st, p2))
      else bind_err (parse_assignment path p1) (\<lambda>(e, p2).
             bind_err (add_entry pf path (lineno p1) e st) (\<lambda>st'. Inr (st', p2))))"

text \<open>Every operation of the parser leaves a shorter payload, so the loop over the lines ends.\<close>

lemma shorter_simps [termination_simp]:
  "length (remaining (skipHorizontalSpace p)) \<le> length (remaining p)"
  "length (remaining (skipComment p)) \<le> length (remaining p)"
  by (simp_all add: skipHorizontalSpace_def skipComment_def length_dropWhile_le)

lemma consumeLineEnd_le: "consumeLineEnd path p = Inr p' \<Longrightarrow> length (remaining p') \<le> length (remaining p)"
  by (cases "remaining p") (auto simp: consumeLineEnd_def split: if_splits)

lemma scan_unquoted_split: "scan_unquoted spaced cs = (v, comment, rest) \<Longrightarrow> cs = v @ rest"
  by (induction cs arbitrary: spaced v comment rest) (auto split: if_splits prod.splits)

lemma scan_quoted_le:
  "scan_quoted path n quote val p = Inr (v, p') \<Longrightarrow> length (remaining p') \<le> length (remaining p)"
proof (induction path n quote val p rule: scan_quoted.induct)
  case (1 path n quote val p)
  show ?case
  proof (cases "remaining p")
    case (Cons c cs)
    let ?q = "skipHorizontalSpace (p\<lparr>remaining := cs\<rparr>)"
    let ?q' = "if remaining ?q \<noteq> [] \<and> hd (remaining ?q) = CHR ''#'' then skipComment ?q else ?q"
    consider (quote) "c = quote" | (eol) "c \<noteq> quote" "c = CR \<or> c = LF"
      | (esc) "c \<noteq> quote" "\<not> (c = CR \<or> c = LF)" "quote = DQUOTE \<and> c = BACKSLASH"
      | (plain) "c \<noteq> quote" "\<not> (c = CR \<or> c = LF)" "\<not> (quote = DQUOTE \<and> c = BACKSLASH)" by blast
    then show ?thesis
    proof cases
      case quote
      with "1.prems" have "consumeLineEnd path ?q' = Inr p'"
        by (auto simp: scan_quoted.simps [of path n quote val p] Cons Let_def split: if_splits sum.splits)
      from consumeLineEnd_le [OF this] have "length (remaining p') \<le> length (remaining ?q')" .
      also have "\<dots> \<le> length (remaining ?q)" using shorter_simps(2) [of ?q] by simp
      also have "\<dots> \<le> length cs" using shorter_simps(1) [of "p\<lparr>remaining := cs\<rparr>"] by simp
      finally show ?thesis by (simp add: Cons)
    next
      case eol
      with "1.prems" obtain q where q: "consumeLineEnd path p = Inr q"
        "scan_quoted path n quote (val @ [LF]) q = Inr (v, p')"
        by (auto simp: scan_quoted.simps [of path n quote val p] Cons split: sum.splits)
      from "1.IH"(1) [OF Cons eol q] consumeLineEnd_le [OF q(1)] show ?thesis by simp
    next
      case esc
      with "1.prems" obtain d ds b where d: "cs = d # ds" "escaped_byte d = Some b"
        "scan_quoted path n quote (val @ [b]) (p\<lparr>remaining := ds\<rparr>) = Inr (v, p')"
        by (auto simp: scan_quoted.simps [of path n DQUOTE val p] Cons split: list.splits option.splits)
      from "1.IH"(2) [OF Cons esc d] show ?thesis by (simp add: Cons d)
    next
      case plain
      with "1.prems" have r: "scan_quoted path n quote (val @ [c]) (p\<lparr>remaining := cs\<rparr>) = Inr (v, p')"
        by (auto simp: scan_quoted.simps [of path n quote val p] Cons)
      from "1.IH"(3) [OF Cons plain r] show ?thesis by (simp add: Cons)
    qed
  qed (use "1.prems" in \<open>simp add: scan_quoted.simps [of path n quote val p]\<close>)
qed

lemma parseValue_le:
  assumes "parseValue path n lead p = Inr (v, p')"
  shows "length (remaining p') \<le> length (remaining p)"
proof -
  consider (eol) "atLineEnd p" | (bare) "\<not> atLineEnd p" "hd (remaining p) \<noteq> SQUOTE" "hd (remaining p) \<noteq> DQUOTE"
    | (quoted) "\<not> atLineEnd p" "hd (remaining p) = SQUOTE \<or> hd (remaining p) = DQUOTE" by blast
  then show ?thesis
  proof cases
    case eol
    with assms show ?thesis by (auto simp: parseValue_def bind_err_Inr consumeLineEnd_le)
  next
    case bare
    obtain w comment rest where w: "scan_unquoted lead (remaining p) = (w, comment, rest)" by (metis prod_cases3)
    with assms bare have "consumeLineEnd path (if comment then skipComment (p\<lparr>remaining := rest\<rparr>)
        else p\<lparr>remaining := rest\<rparr>) = Inr p'"
      by (auto simp: parseValue_def Let_def bind_err_Inr)
    from consumeLineEnd_le [OF this] have "length (remaining p') \<le> length rest"
      using shorter_simps(2) [of "p\<lparr>remaining := rest\<rparr>"] by (auto split: if_splits)
    with scan_unquoted_split [OF w] show ?thesis by simp
  next
    case quoted
    with assms have "scan_quoted path n (hd (remaining p)) [] (p\<lparr>remaining := tl (remaining p)\<rparr>) = Inr (v, p')"
      by (auto simp: parseValue_def Let_def)
    from scan_quoted_le [OF this] show ?thesis by simp
  qed
qed

lemma parse_assignment_shorter:
  assumes "parse_assignment path p = Inr (e, p')"
  shows "length (remaining p') < length (remaining p)"
proof -
  define p1 where "p1 = (if hasExportPrefix p then skipHorizontalSpace (p\<lparr>remaining := drop (length ''export'') (remaining p)\<rparr>) else p)"
  define p2 where "p2 = skipHorizontalSpace (p1\<lparr>remaining := dropWhile isWorkerEnvironmentKeyContinue (tl (remaining p1))\<rparr>)"
  from assms obtain n lead v where v: "remaining p1 \<noteq> []" "remaining p2 \<noteq> []"
    "parseValue path n lead (skipHorizontalSpace (p2\<lparr>remaining := tl (remaining p2)\<rparr>)) = Inr (v, p')"
    by (auto simp: parse_assignment_def Let_def p1_def [symmetric] p2_def [symmetric] bind_err_Inr split: if_splits)
  have "length (remaining p') \<le> length (tl (remaining p2))"
    using parseValue_le [OF v(3)] shorter_simps(1) [of "p2\<lparr>remaining := tl (remaining p2)\<rparr>"] by simp
  moreover have "length (remaining p2) \<le> length (remaining p1)"
    using shorter_simps(1) [of "p1\<lparr>remaining := dropWhile isWorkerEnvironmentKeyContinue (tl (remaining p1))\<rparr>"]
      length_dropWhile_le [of isWorkerEnvironmentKeyContinue "tl (remaining p1)"] by (simp add: p2_def)
  moreover have "length (remaining p1) \<le> length (remaining p)"
    using shorter_simps(1) [of "p\<lparr>remaining := drop (length ''export'') (remaining p)\<rparr>"]
    by (auto simp: p1_def)
  ultimately show ?thesis using v(2) by (cases "remaining p2") auto
qed

lemma parse_line_shorter:
  assumes "parse_line pf path st p = Inr (st', p')" and "remaining p \<noteq> []"
  shows "length (remaining p') < length (remaining p)"
proof -
  let ?p1 = "skipHorizontalSpace p"
  have le: "length (remaining ?p1) \<le> length (remaining p)" by (rule shorter_simps)
  consider (eol) "atLineEnd ?p1" | (comment) "\<not> atLineEnd ?p1" "hd (remaining ?p1) = CHR ''#''"
    | (entry) "\<not> atLineEnd ?p1" "hd (remaining ?p1) \<noteq> CHR ''#''" by blast
  then show ?thesis
  proof cases
    case eol
    with assms(1) have c: "consumeLineEnd path ?p1 = Inr p'" by (auto simp: parse_line_def Let_def bind_err_Inr)
    show ?thesis
    proof (cases "remaining ?p1 = []")
      case True
      with c consumeLineEnd_le [OF c] assms(2) show ?thesis by simp
    next
      case False
      from consumeLineEnd_shorter [OF c this] le show ?thesis by simp
    qed
  next
    case comment
    with assms(1) have c: "consumeLineEnd path (skipComment ?p1) = Inr p'"
      by (auto simp: parse_line_def Let_def bind_err_Inr)
    have "length (remaining (skipComment ?p1)) < length (remaining ?p1)"
      using comment by (cases "remaining ?p1")
        (auto simp: skipComment_def atLineEnd_def isLineEndByte_def intro: le_imp_less_Suc length_dropWhile_le)
    with consumeLineEnd_le [OF c] le show ?thesis by simp
  next
    case entry
    with assms(1) obtain e where "parse_assignment path ?p1 = Inr (e, p')"
      by (auto simp: parse_line_def Let_def bind_err_Inr)
    from parse_assignment_shorter [OF this] le show ?thesis by simp
  qed
qed

function parse_lines :: "platform \<Rightarrow> string \<Rightarrow> string gomap \<times> workerEnvironmentEntry list \<Rightarrow> workerEnvironmentParser \<Rightarrow>
    goerror + string gomap \<times> workerEnvironmentEntry list" where
  "parse_lines pf path st p = (if remaining p = [] then Inr st
     else case parse_line pf path st p of Inl e \<Rightarrow> Inl e
       | Inr (st', p') \<Rightarrow> parse_lines pf path st' p')"
  by pat_completeness auto
termination parse_lines
  by (relation "measure (\<lambda>(_, _, _, p). length (remaining p))") (auto dest: parse_line_shorter)

declare parse_lines.simps [simp del]

definition parse_env :: "platform \<Rightarrow> string \<Rightarrow> workerEnvironmentParser \<Rightarrow> goerror + workerEnvironmentEntry list" where
  "parse_env pf path p = bind_err (parse_lines pf path ([], []) p) (\<lambda>(_, entries).
     guard_err (on_err (wrapf ''worker environment file %q: %w'' [AStr path]) (validateWorkerEnvironment entries))
       (Inr entries))"

definition parseWorkerEnvironment :: "platform \<Rightarrow> string \<Rightarrow> string \<Rightarrow> goerror + workerEnvironmentEntry list" where
  "parseWorkerEnvironment pf path payload =
     guard_err (check (\<not> Valid payload) (errorf ''worker environment file %q contains invalid UTF-8'' [AStr path]))
     (guard_err (check (NUL \<in> set payload) (errorf ''worker environment file %q contains NUL'' [AStr path]))
     (parse_env pf path \<lparr>remaining = TrimPrefix payload [CHR 0xEF, CHR 0xBB, CHR 0xBF], lineno = 1\<rparr>))"

section \<open>The file\<close>

text \<open>
  What the operating system answers for a path: whether it opens, its status, and the bytes a read
  to the end delivers (the file may have grown since \<open>Stat\<close>).
\<close>

record environment_file =
  open_error :: "goerror option"
  stat_error :: "goerror option"
  is_regular :: bool
  stat_size :: nat
  read_all :: "goerror + string"

definition readWorkerEnvironmentFile :: "platform \<Rightarrow> (string \<Rightarrow> environment_file) \<Rightarrow> string \<Rightarrow>
    goerror + workerEnvironmentEntry list" where
  "readWorkerEnvironmentFile pf fs path = (let file = fs path in
     guard_err (on_err (wrapf ''open worker environment file %q: %w'' [AStr path]) (open_error file))
     (guard_err (on_err (wrapf ''inspect worker environment file %q: %w'' [AStr path]) (stat_error file))
     (guard_err (check (\<not> is_regular file) (errorf ''worker environment file %q is not a regular file'' [AStr path]))
     (guard_err (check (maxWorkerEnvironmentFileSize < stat_size file)
        (errorf ''worker environment file %q exceeds %d bytes'' [AStr path, AInt (int maxWorkerEnvironmentFileSize)]))
     (case read_all file of
        Inl e \<Rightarrow> Inl (wrapf ''read worker environment file %q: %w'' [AStr path] e)
      | Inr bytes \<Rightarrow>
          (let payload = take (maxWorkerEnvironmentFileSize + 1) bytes in
           guard_err (check (maxWorkerEnvironmentFileSize < length payload)
             (errorf ''worker environment file %q exceeds %d bytes'' [AStr path, AInt (int maxWorkerEnvironmentFileSize)]))
           (parseWorkerEnvironment pf path payload)))))))"

section \<open>Overrides\<close>

text \<open>\<open>config.Environment\<close>: a nil value removes the variable.\<close>

definition apply_override :: "platform \<Rightarrow> string \<times> string option \<Rightarrow> string gomap \<times> workerEnvironmentEntry gomap \<Rightarrow>
    goerror + string gomap \<times> workerEnvironmentEntry gomap" where
  "apply_override pf nv st = (let (name, v) = nv; (seen, values) = st; normalized = normalizeEnvironmentKey pf name in
     guard_err (on_err (wrapf ''worker environment override %q: %w'' [AStr name]) (validateWorkerEnvironmentName name))
     (case map_of seen normalized of
        Some previous \<Rightarrow> Inl (errorf ''worker environment overrides %q and %q refer to the same variable''
          [AStr previous, AStr name])
      | None \<Rightarrow>
         (case v of
            None \<Rightarrow> Inr (gomap_put normalized name seen, filter (\<lambda>kv. fst kv \<noteq> normalized) values)
          | Some s \<Rightarrow>
              guard_err (on_err (wrapf ''worker environment override %q: %w'' [AStr name]) (validateWorkerEnvironmentValue s))
              (Inr (gomap_put normalized name seen, gomap_put normalized (env_entry name s) values)))))"

definition sort_overrides :: "platform \<Rightarrow> string option gomap \<Rightarrow> string option gomap" where
  "sort_overrides pf = sort_key (\<lambda>nv. (normalizeEnvironmentKey pf (fst nv), fst nv))"

definition file_values :: "platform \<Rightarrow> workerEnvironmentEntry list \<Rightarrow> workerEnvironmentEntry gomap" where
  "file_values pf parsed = fold (\<lambda>e. gomap_put (normalizeEnvironmentKey pf (entry_name e)) e) parsed []"

definition loadWorkerEnvironment :: "platform \<Rightarrow> (string \<Rightarrow> environment_file) \<Rightarrow> string \<Rightarrow> string option gomap \<Rightarrow>
    goerror + workerEnvironmentEntry list" where
  "loadWorkerEnvironment pf fs EnvironmentFile Environment =
     bind_err (if EnvironmentFile \<noteq> [] then readWorkerEnvironmentFile pf fs EnvironmentFile else Inr [])
     (\<lambda>parsed. bind_err (fold_err (apply_override pf) (sort_overrides pf Environment) ([], file_values pf parsed))
     (\<lambda>(seen, values).
       (let entries = sortWorkerEnvironment pf (map snd values) in
        guard_err (validateWorkerEnvironment entries) (Inr entries))))"

definition resolveWorkerEnvironmentFile :: "string \<Rightarrow> string \<Rightarrow> string" where
  "resolveWorkerEnvironmentFile projectRoot path =
     (if path = [] then []
      else Clean (if IsAbs path then path else filepath_Join [projectRoot, path]))"

section \<open>The environment of the worker process\<close>

definition worker_path_value :: "platform \<Rightarrow> string \<Rightarrow> string \<Rightarrow> string" where
  "worker_path_value pf pythonPath coordinatorPath = filepath_Dir pythonPath @
     (if coordinatorPath \<noteq> [] then (case pf of Unix \<Rightarrow> '':'' | Windows \<Rightarrow> '';'') @ coordinatorPath else [])"

text \<open>The \<open>entries\<close> of \<open>buildWorkerEnvironment\<close> before they are validated.\<close>

definition process_environment :: "platform \<Rightarrow> workerEnvironmentEntry list \<Rightarrow> workerEnvironmentEntry list \<Rightarrow> string \<Rightarrow> string \<Rightarrow>
    string \<Rightarrow> string \<Rightarrow> string \<Rightarrow> string \<Rightarrow> workerEnvironmentEntry list" where
  "process_environment pf worker platform_env pythonPath coordinatorPath tempDirectory network address tokenPath =
     worker @
     (if workerEnvironmentValue pf worker ''PATH'' = None
      then [env_entry ''PATH'' (worker_path_value pf pythonPath coordinatorPath)] else []) @
     [env_entry ''PYTHONDONTWRITEBYTECODE'' ''1'', env_entry ''PYTHONUNBUFFERED'' ''1'', env_entry ''PYTHONUTF8'' ''1'',
      env_entry ''TMPDIR'' tempDirectory, env_entry ''TMP'' tempDirectory, env_entry ''TEMP'' tempDirectory,
      env_entry ''POGO_WORKER_NETWORK'' network, env_entry ''POGO_WORKER_ADDRESS'' address,
      env_entry ''POGO_WORKER_TOKEN_FILE'' tokenPath] @
     platform_env"

definition buildWorkerEnvironment :: "platform \<Rightarrow> workerEnvironmentEntry list \<Rightarrow> workerEnvironmentEntry list \<Rightarrow> string \<Rightarrow> string \<Rightarrow>
    string \<Rightarrow> string \<Rightarrow> string \<Rightarrow> string \<Rightarrow> goerror + string list" where
  "buildWorkerEnvironment pf worker platform_env pythonPath coordinatorPath tempDirectory network address tokenPath =
     (let entries = process_environment pf worker platform_env pythonPath coordinatorPath tempDirectory network address tokenPath in
      guard_err (on_err (wrapf ''build worker process environment: %w'' []) (validateWorkerProcessEnvironment pf entries))
        (Inr (map (\<lambda>e. entry_name e @ ''='' @ entry_value e) (sortWorkerEnvironment pf entries))))"

end
