(* ===== verification/Worker_Environment_Facts.thy ===== *)
theory Worker_Environment_Facts
  imports Worker_Environment
begin

text \<open>
  What the operations of the worker environment guarantee: the bytes a valid name may hold, a
  printer of environment files with every layout and every style of values the format allows, the
  parser's answer on each printed line, and the invariants of the loops over the file's lines and over the overrides.
\<close>

section \<open>Bytes\<close>

lemma key_start_bytes:
  "isWorkerEnvironmentKeyStart c \<longleftrightarrow> byte c = 95 \<or> 65 \<le> byte c \<and> byte c \<le> 90 \<or> 97 \<le> byte c \<and> byte c \<le> 122"
proof -
  have "c = CHR ''_'' \<longleftrightarrow> (of_char c :: nat) = of_char (CHR ''_'')" by (simp only: of_char_eq_iff)
  then show ?thesis by (simp add: isWorkerEnvironmentKeyStart_def less_eq_char_def)
qed

lemma key_continue_bytes:
  "isWorkerEnvironmentKeyContinue c \<longleftrightarrow> byte c = 95 \<or> 65 \<le> byte c \<and> byte c \<le> 90 \<or> 97 \<le> byte c \<and> byte c \<le> 122
     \<or> 48 \<le> byte c \<and> byte c \<le> 57"
  by (auto simp: isWorkerEnvironmentKeyContinue_def key_start_bytes less_eq_char_def)

lemma key_not_layout:
  assumes "isWorkerEnvironmentKeyContinue c"
  shows "\<not> isHorizontalSpace c" "\<not> isLineEndByte c" "c \<noteq> CHR ''#''" "c \<noteq> CHR ''=''" "c \<noteq> NUL" "byte c < 0x80"
  using assms by (auto simp: key_continue_bytes isHorizontalSpace_def isLineEndByte_def)

lemma key_start_continue: "isWorkerEnvironmentKeyStart c \<Longrightarrow> isWorkerEnvironmentKeyContinue c"
  by (simp add: isWorkerEnvironmentKeyContinue_def)

lemma space_not_key: "isHorizontalSpace c \<Longrightarrow> \<not> isWorkerEnvironmentKeyContinue c"
  using key_not_layout(1) by blast

lemma space_not_end: "isHorizontalSpace c \<Longrightarrow> \<not> isLineEndByte c"
  by (auto simp: isHorizontalSpace_def isLineEndByte_def)

definition env_name_ok :: "string \<Rightarrow> bool" where
  "env_name_ok name \<longleftrightarrow> name \<noteq> [] \<and> isWorkerEnvironmentKeyStart (hd name) \<and>
     (\<forall>c \<in> set name. isWorkerEnvironmentKeyContinue c) \<and> length name \<le> maxWorkerEnvironmentKeySize"

lemma utf16Units_ascii: "\<forall>c \<in> set s. byte c < 0x80 \<Longrightarrow> utf16Units s = length s"
  by (induction s) (simp_all add: DecodeRune_def)

declare utf16Units.simps(2) [simp del]

lemma name_ascii: "\<forall>c \<in> set name. isWorkerEnvironmentKeyContinue c \<Longrightarrow> \<forall>c \<in> set name. byte c < 0x80"
  using key_not_layout(6) by blast

lemma name_syntax_iff: "validateWorkerEnvironmentNameSyntax name = None \<longleftrightarrow> env_name_ok name"
proof
  assume "validateWorkerEnvironmentNameSyntax name = None"
  then have "name \<noteq> []" "isWorkerEnvironmentKeyStart (hd name)" "\<forall>c \<in> set (tl name). isWorkerEnvironmentKeyContinue c"
    "length name \<le> maxWorkerEnvironmentKeySize"
    by (auto simp: validateWorkerEnvironmentNameSyntax_def)
  then show "env_name_ok name" by (cases name) (auto simp: env_name_ok_def key_start_continue)
next
  assume ok: "env_name_ok name"
  then have "Valid name" "utf16Units name = length name"
    using name_ascii ascii_valid utf16Units_ascii by (auto simp: env_name_ok_def)
  with ok show "validateWorkerEnvironmentNameSyntax name = None"
    by (auto simp: env_name_ok_def validateWorkerEnvironmentNameSyntax_def dest: list.set_sel(2))
qed

lemma name_valid_syntax: "validateWorkerEnvironmentName name = None \<Longrightarrow> env_name_ok name"
  by (simp add: validateWorkerEnvironmentName_def name_syntax_iff)

lemma value_valid: "validateWorkerEnvironmentValue v = None \<Longrightarrow> Valid v \<and> NUL \<notin> set v"
  by (simp add: validateWorkerEnvironmentValue_def)

lemma validateWorkerEnvironment_entries:
  assumes "validateWorkerEnvironment es = None" and "e \<in> set es"
  shows "validateWorkerEnvironmentName (entry_name e) = None" "validateWorkerEnvironmentValue (entry_value e) = None"
  using assms by (auto simp: validateWorkerEnvironment_def)

section \<open>Layouts of an environment file\<close>

text \<open>
  How a line ends (the last one may end with the file), and how a value is written: not at all, without
  quotes, or between quotes, piece by piece: a byte as it is, a line break in the file, or a
  backslash escape (between double quotes only).
\<close>

datatype term_style = TermLF | TermCRLF | TermNone

datatype quoted_piece = Plain char | Break bool | Escape char

datatype env_text = Missing | Unquoted string | Quoted char "quoted_piece list"

text \<open>
  A line is blank, a comment, or an assignment: any indentation, an optional \<open>export\<close>, spaces around
  \<open>=\<close>, spaces and a comment after the value.
\<close>

record env_layout =
  indent :: string
  exported :: "string option"
  before_eq :: string
  after_eq :: string
  trailing :: string
  remark :: "string option"
  ending :: term_style

datatype env_line = Blank string term_style | Comment string string term_style | Assign env_layout string env_text

fun line_end :: "term_style \<Rightarrow> string" where
  "line_end TermLF = [LF]"
| "line_end TermCRLF = [CR, LF]"
| "line_end TermNone = []"

fun piece_text :: "quoted_piece \<Rightarrow> string" where
  "piece_text (Plain c) = [c]"
| "piece_text (Break carriage) = (if carriage then [CR, LF] else [LF])"
| "piece_text (Escape c) = [BACKSLASH, if c = LF then CHR ''n'' else if c = CR then CHR ''r'' else if c = TAB then CHR ''t'' else c]"

text \<open>The byte of the value a piece stands for: a line break is a line feed, however the file writes it.\<close>

fun piece_value :: "quoted_piece \<Rightarrow> char" where
  "piece_value (Plain c) = c"
| "piece_value (Break carriage) = LF"
| "piece_value (Escape c) = c"

fun piece_lines :: "quoted_piece \<Rightarrow> nat" where
  "piece_lines (Break carriage) = 1"
| "piece_lines _ = 0"

fun piece_ok :: "char \<Rightarrow> quoted_piece \<Rightarrow> bool" where
  "piece_ok quote (Plain c) \<longleftrightarrow> c \<noteq> quote \<and> \<not> isLineEndByte c \<and> (quote = DQUOTE \<longrightarrow> c \<noteq> BACKSLASH)"
| "piece_ok quote (Break carriage) \<longleftrightarrow> True"
| "piece_ok quote (Escape c) \<longleftrightarrow> quote = DQUOTE \<and> c \<in> {BACKSLASH, DQUOTE, LF, CR, TAB}"

definition pieces_text :: "quoted_piece list \<Rightarrow> string" where
  "pieces_text ps = concat (map piece_text ps)"

definition pieces_lines :: "quoted_piece list \<Rightarrow> nat" where
  "pieces_lines ps = sum_list (map piece_lines ps)"

fun print_text :: "env_text \<Rightarrow> string" where
  "print_text Missing = []"
| "print_text (Unquoted v) = v"
| "print_text (Quoted quote ps) = quote # pieces_text ps @ [quote]"

fun text_value :: "env_text \<Rightarrow> string" where
  "text_value Missing = []"
| "text_value (Unquoted v) = v"
| "text_value (Quoted quote ps) = map piece_value ps"

fun text_lines :: "env_text \<Rightarrow> nat" where
  "text_lines (Quoted quote ps) = pieces_lines ps"
| "text_lines _ = 0"

definition print_remark :: "string option \<Rightarrow> string" where
  "print_remark r = (case r of None \<Rightarrow> [] | Some t \<Rightarrow> CHR ''#'' # t)"

definition print_export :: "string option \<Rightarrow> string" where
  "print_export x = (case x of None \<Rightarrow> [] | Some sp \<Rightarrow> ''export'' @ sp)"

fun print_line :: "env_line \<Rightarrow> string" where
  "print_line (Blank sp t) = sp @ line_end t"
| "print_line (Comment sp c t) = sp @ CHR ''#'' # c @ line_end t"
| "print_line (Assign l name v) = indent l @ print_export (exported l) @ name @ before_eq l @ ''='' @ after_eq l
     @ print_text v @ trailing l @ print_remark (remark l) @ line_end (ending l)"

definition byte_order_mark :: string where
  "byte_order_mark = [CHR 0xEF, CHR 0xBB, CHR 0xBF]"

definition print_file :: "bool \<Rightarrow> env_line list \<Rightarrow> string" where
  "print_file bom lines = (if bom then byte_order_mark else []) @ concat (map print_line lines)"

abbreviation spaces :: "string \<Rightarrow> bool" where
  "spaces s \<equiv> \<forall>c \<in> set s. isHorizontalSpace c"

definition comment_text :: "string \<Rightarrow> bool" where
  "comment_text t \<longleftrightarrow> Valid t \<and> NUL \<notin> set t \<and> (\<forall>c \<in> set t. \<not> isLineEndByte c)"

abbreviation remark_ok :: "string option \<Rightarrow> bool" where
  "remark_ok r \<equiv> (case r of None \<Rightarrow> True | Some t \<Rightarrow> comment_text t)"

text \<open>
  An unquoted value neither begins nor ends with a space, does not begin with a quote, is on one line, and
  has no number sign behind a space, which would begin a comment.
\<close>

definition unquoted_ok :: "bool \<Rightarrow> string \<Rightarrow> bool" where
  "unquoted_ok spaced v \<longleftrightarrow> v \<noteq> [] \<and> \<not> isHorizontalSpace (hd v) \<and> \<not> isHorizontalSpace (last v) \<and>
     hd v \<noteq> SQUOTE \<and> hd v \<noteq> DQUOTE \<and> (\<forall>c \<in> set v. \<not> isLineEndByte c) \<and> (hd v = CHR ''#'' \<longrightarrow> \<not> spaced) \<and>
     (\<forall>i < length v - 1. v ! Suc i = CHR ''#'' \<longrightarrow> \<not> isHorizontalSpace (v ! i))"

text \<open>A comment behind a value without quotes, or behind no value, needs a space before it.\<close>

fun text_ok :: "env_layout \<Rightarrow> env_text \<Rightarrow> bool" where
  "text_ok l Missing \<longleftrightarrow> (remark l \<noteq> None \<longrightarrow> after_eq l @ trailing l \<noteq> [])"
| "text_ok l (Unquoted v) \<longleftrightarrow> unquoted_ok (after_eq l \<noteq> []) v \<and> (remark l \<noteq> None \<longrightarrow> trailing l \<noteq> [])"
| "text_ok l (Quoted quote ps) \<longleftrightarrow> (quote = SQUOTE \<or> quote = DQUOTE) \<and> (\<forall>p \<in> set ps. piece_ok quote p)"

text \<open>A variable called \<open>export\<close> cannot be followed by a space unless it is itself exported.\<close>

fun line_ok :: "env_line \<Rightarrow> bool" where
  "line_ok (Blank sp t) \<longleftrightarrow> spaces sp \<and> (t = TermNone \<longrightarrow> sp \<noteq> [])"
| "line_ok (Comment sp c t) \<longleftrightarrow> spaces sp \<and> comment_text c"
| "line_ok (Assign l name v) \<longleftrightarrow> spaces (indent l) \<and> spaces (before_eq l) \<and> spaces (after_eq l) \<and> spaces (trailing l)
     \<and> (case exported l of None \<Rightarrow> name = ''export'' \<longrightarrow> before_eq l = [] | Some sp \<Rightarrow> sp \<noteq> [] \<and> spaces sp)
     \<and> remark_ok (remark l) \<and> text_ok l v"

fun line_term :: "env_line \<Rightarrow> term_style" where
  "line_term (Blank sp t) = t"
| "line_term (Comment sp c t) = t"
| "line_term (Assign l name v) = ending l"

text \<open>Only the last line of a file can be without a line end.\<close>

definition file_ok :: "env_line list \<Rightarrow> bool" where
  "file_ok lines \<longleftrightarrow> (\<forall>ln \<in> set lines. line_ok ln) \<and> (\<forall>ln \<in> set (butlast lines). line_term ln \<noteq> TermNone)"

fun line_entries :: "env_line \<Rightarrow> workerEnvironmentEntry list" where
  "line_entries (Assign l name v) = [env_entry name (text_value v)]"
| "line_entries _ = []"

definition file_entries :: "env_line list \<Rightarrow> workerEnvironmentEntry list" where
  "file_entries lines = concat (map line_entries lines)"

section \<open>The parser on a printed line\<close>

lemma dropWhile_spaces: "spaces s \<Longrightarrow> dropWhile isHorizontalSpace (s @ cs) = dropWhile isHorizontalSpace cs"
  by (induction s) simp_all

lemma dropWhile_solid: "cs = [] \<or> \<not> P (hd cs) \<Longrightarrow> dropWhile P cs = cs"
  by (cases cs) simp_all

lemma dropWhile_comment: "\<forall>c \<in> set t. \<not> isLineEndByte c \<Longrightarrow>
    dropWhile (\<lambda>c. \<not> isLineEndByte c) (t @ cs) = dropWhile (\<lambda>c. \<not> isLineEndByte c) cs"
  by (induction t) simp_all

text \<open>What is left at the end of a line: the line end and the other lines, or nothing.\<close>

definition at_end :: "term_style \<Rightarrow> string \<Rightarrow> bool" where
  "at_end t cs \<longleftrightarrow> t = TermNone \<longrightarrow> cs = []"

definition end_lines :: "term_style \<Rightarrow> nat" where
  "end_lines t = (if t = TermNone then 0 else 1)"

lemma end_head:
  assumes "at_end t cs"
  shows "line_end t @ cs = [] \<or> isLineEndByte (hd (line_end t @ cs)) \<and> \<not> isHorizontalSpace (hd (line_end t @ cs)) \<and>
    hd (line_end t @ cs) \<noteq> CHR ''#''"
  using assms by (cases t) (simp_all add: at_end_def isLineEndByte_def isHorizontalSpace_def)

lemma end_drop:
  assumes "at_end t cs"
  shows "dropWhile isHorizontalSpace (line_end t @ cs) = line_end t @ cs"
    and "dropWhile (\<lambda>c. \<not> isLineEndByte c) (line_end t @ cs) = line_end t @ cs"
  using end_head [OF assms] by (auto intro!: dropWhile_solid)

lemma atLineEnd_hd: "atLineEnd p \<longleftrightarrow> remaining p = [] \<or> isLineEndByte (hd (remaining p))"
  by (cases "remaining p") (simp_all add: atLineEnd_def)

lemma end_atLineEnd: "at_end t cs \<Longrightarrow> atLineEnd \<lparr>remaining = line_end t @ cs, lineno = n\<rparr>"
  using end_head [of t cs] by (auto simp: atLineEnd_hd)

lemma consumeLineEnd_printed:
  "at_end t cs \<Longrightarrow> consumeLineEnd path \<lparr>remaining = line_end t @ cs, lineno = n\<rparr> =
     Inr \<lparr>remaining = cs, lineno = n + end_lines t\<rparr>"
  by (cases t) (simp_all add: consumeLineEnd_def at_end_def end_lines_def)

lemma hash_head [simp]: "\<not> isHorizontalSpace (CHR ''#'')" "\<not> isLineEndByte (CHR ''#'')"
  by (simp_all add: isHorizontalSpace_def isLineEndByte_def)

lemma skip_remark:
  assumes "remark_ok r" and "at_end t cs"
  shows "(if print_remark r @ line_end t @ cs \<noteq> [] \<and> hd (print_remark r @ line_end t @ cs) = CHR ''#''
      then skipComment \<lparr>remaining = print_remark r @ line_end t @ cs, lineno = n\<rparr>
      else \<lparr>remaining = print_remark r @ line_end t @ cs, lineno = n\<rparr>) = \<lparr>remaining = line_end t @ cs, lineno = n\<rparr>"
  using assms(1) end_head [OF assms(2)] end_drop [OF assms(2)]
  by (cases r) (auto simp: print_remark_def skipComment_def comment_text_def dropWhile_comment)

lemma remark_head: "at_end t cs \<Longrightarrow> print_remark r @ line_end t @ cs = [] \<or>
    \<not> isHorizontalSpace (hd (print_remark r @ line_end t @ cs))"
  using end_head [of t cs] by (cases r) (auto simp: print_remark_def)

lemma scan_quoted_pieces:
  assumes "\<forall>p \<in> set ps. piece_ok quote p" and "quote = SQUOTE \<or> quote = DQUOTE"
  shows "scan_quoted path n quote val \<lparr>remaining = pieces_text ps @ tail, lineno = m\<rparr> =
    scan_quoted path n quote (val @ map piece_value ps) \<lparr>remaining = tail, lineno = m + pieces_lines ps\<rparr>"
  using assms(1)
proof (induction ps arbitrary: val m)
  case Nil
  then show ?case by (simp add: pieces_text_def pieces_lines_def)
next
  case (Cons p ps)
  have "scan_quoted path n quote val \<lparr>remaining = piece_text p @ pieces_text ps @ tail, lineno = m\<rparr> =
      scan_quoted path n quote (val @ [piece_value p]) \<lparr>remaining = pieces_text ps @ tail, lineno = m + piece_lines p\<rparr>"
  proof (cases p)
    case (Plain c)
    then show ?thesis using Cons.prems by (auto simp: scan_quoted.simps [of path n quote val] isLineEndByte_def)
  next
    case (Break carriage)
    then show ?thesis using assms(2)
      by (auto simp: scan_quoted.simps [of path n quote val] consumeLineEnd_def)
  next
    case (Escape c)
    then have q: "quote = DQUOTE" and c: "c \<in> {BACKSLASH, DQUOTE, LF, CR, TAB}" using Cons.prems by simp_all
    show ?thesis using c unfolding q Escape
      by (elim insertE emptyE; simp add: scan_quoted.simps [of path n DQUOTE val] escaped_byte_def)
  qed
  with Cons.IH [of "val @ [piece_value p]"] Cons.prems show ?case
    by (simp add: pieces_text_def pieces_lines_def add.assoc)
qed

lemma scan_quoted_printed:
  assumes "remark_ok r" and "spaces sp" and "at_end t cs"
  shows "scan_quoted path n quote val \<lparr>remaining = quote # sp @ print_remark r @ line_end t @ cs, lineno = m\<rparr>
     = Inr (val, \<lparr>remaining = cs, lineno = m + end_lines t\<rparr>)"
proof -
  define tail where "tail = print_remark r @ line_end t @ cs"
  define ending where "ending = line_end t @ cs"
  have "skipHorizontalSpace \<lparr>remaining = sp @ tail, lineno = m\<rparr> = \<lparr>remaining = tail, lineno = m\<rparr>"
    using assms(2) remark_head [OF assms(3), of r]
    by (simp add: skipHorizontalSpace_def dropWhile_spaces dropWhile_solid flip: tail_def)
  moreover have "(if tail \<noteq> [] \<and> hd tail = CHR ''#'' then skipComment \<lparr>remaining = tail, lineno = m\<rparr>
      else \<lparr>remaining = tail, lineno = m\<rparr>) = \<lparr>remaining = ending, lineno = m\<rparr>"
    using skip_remark [OF assms(1,3), of m] unfolding tail_def ending_def .
  moreover have "atLineEnd \<lparr>remaining = ending, lineno = m\<rparr>" unfolding ending_def by (rule end_atLineEnd [OF assms(3)])
  moreover have "consumeLineEnd path \<lparr>remaining = ending, lineno = m\<rparr> = Inr \<lparr>remaining = cs, lineno = m + end_lines t\<rparr>"
    unfolding ending_def by (rule consumeLineEnd_printed [OF assms(3)])
  ultimately show ?thesis unfolding tail_def [symmetric]
    by (cases "tail \<noteq> [] \<and> hd tail = CHR ''#''") (auto simp: scan_quoted.simps [of path n quote val] Let_def)
qed

text \<open>The scan of a value without quotes, which takes the spaces behind it along.\<close>

definition hash_free :: "bool \<Rightarrow> string \<Rightarrow> bool" where
  "hash_free spaced v \<longleftrightarrow> (\<forall>c \<in> set v. \<not> isLineEndByte c) \<and> (v \<noteq> [] \<longrightarrow> hd v = CHR ''#'' \<longrightarrow> \<not> spaced) \<and>
     (\<forall>i < length v - 1. v ! Suc i = CHR ''#'' \<longrightarrow> \<not> isHorizontalSpace (v ! i))"

lemma hash_free_Cons: "hash_free spaced (c # v) \<longleftrightarrow>
    \<not> isLineEndByte c \<and> (c = CHR ''#'' \<longrightarrow> \<not> spaced) \<and> hash_free (isHorizontalSpace c) v"
proof (cases v)
  case (Cons d w)
  have "(\<forall>i < Suc (length w). (c # d # w) ! Suc i = CHR ''#'' \<longrightarrow> \<not> isHorizontalSpace ((c # d # w) ! i)) \<longleftrightarrow>
      (d = CHR ''#'' \<longrightarrow> \<not> isHorizontalSpace c) \<and>
      (\<forall>i < length w. (d # w) ! Suc i = CHR ''#'' \<longrightarrow> \<not> isHorizontalSpace ((d # w) ! i))"
    by (simp add: All_less_Suc2)
  then show ?thesis by (auto simp: hash_free_def Cons)
qed (auto simp: hash_free_def)

lemma scan_unquoted_plain:
  "hash_free spaced v \<Longrightarrow> v \<noteq> [] \<Longrightarrow> scan_unquoted spaced (v @ cs) =
     (let (w, comment, rest) = scan_unquoted (isHorizontalSpace (last v)) cs in (v @ w, comment, rest))"
proof (induction v arbitrary: spaced)
  case (Cons c v)
  then show ?case by (cases "v = []") (auto simp: hash_free_Cons split: prod.splits)
qed simp

lemma scan_unquoted_tail:
  assumes "spaces sp" and "remark_ok r" and "at_end t cs" and "r \<noteq> None \<longrightarrow> spaced \<or> sp \<noteq> []"
  shows "scan_unquoted spaced (sp @ print_remark r @ line_end t @ cs) = (sp, r \<noteq> None, print_remark r @ line_end t @ cs)"
  using assms(1,4)
proof (induction sp arbitrary: spaced)
  case Nil
  show ?case
  proof (cases r)
    case None
    then show ?thesis using end_head [OF assms(3)] by (cases "line_end t @ cs") (auto simp: print_remark_def)
  next
    case (Some c)
    then show ?thesis using Nil by (simp add: print_remark_def)
  qed
next
  case (Cons c sp)
  then show ?case using space_not_end by (auto simp: isHorizontalSpace_def)
qed

lemma trim_trailing:
  assumes "spaces sp" and "v = [] \<or> \<not> isHorizontalSpace (hd v) \<and> \<not> isHorizontalSpace (last v)"
  shows "TrimBytes isHorizontalSpace (v @ sp) = v"
proof (cases "v = []")
  case True
  then show ?thesis using assms(1) by (simp add: TrimBytes_empty)
next
  case False
  then have "dropWhile isHorizontalSpace (v @ sp) = v @ sp" using assms(2) by (intro dropWhile_solid) simp
  moreover have "dropWhile isHorizontalSpace (rev sp @ rev v) = rev v"
    using False assms by (simp add: dropWhile_spaces dropWhile_solid hd_rev)
  ultimately show ?thesis by (simp add: TrimBytes_def TrimLeft_def TrimRight_def)
qed

lemma takeWhile_name:
  assumes "\<forall>c \<in> set s. P c" and "cs = [] \<or> \<not> P (hd cs)"
  shows "takeWhile P (s @ cs) = s" "dropWhile P (s @ cs) = cs"
  using assms by (induction s) (cases cs; simp)+

lemma name_end: "spaces sp \<Longrightarrow> \<not> isWorkerEnvironmentKeyContinue (hd (sp @ CHR ''='' # cs))"
  using key_not_layout(4) space_not_key by (cases sp) auto

lemma HasPrefix_export_name:
  assumes "\<forall>c \<in> set name. isWorkerEnvironmentKeyContinue c" and "spaces sp" and "name = ''export'' \<longrightarrow> sp = []"
  shows "\<not> hasExportPrefix \<lparr>remaining = name @ sp @ CHR ''='' # cs, lineno = n\<rparr>"
proof
  assume "hasExportPrefix \<lparr>remaining = name @ sp @ CHR ''='' # cs, lineno = n\<rparr>"
  then have pre: "prefix ''export'' (name @ sp @ CHR ''='' # cs)"
    and nxt: "case drop (length ''export'') (name @ sp @ CHR ''='' # cs) of [] \<Rightarrow> False | c # _ \<Rightarrow> isHorizontalSpace c"
    unfolding hasExportPrefix_def HasPrefix_iff by simp_all
  from pre obtain zs where zs: "name @ sp @ CHR ''='' # cs = ''export'' @ zs" by (auto simp only: prefix_def)
  from nxt obtain d ds where "zs = d # ds" and d: "isHorizontalSpace d"
    unfolding zs by (cases zs) simp_all
  with zs have e: "name @ sp @ CHR ''='' # cs = ''export'' @ d # ds" by simp
  have tw: "takeWhile isWorkerEnvironmentKeyContinue (name @ sp @ CHR ''='' # cs) = name"
    by (rule takeWhile_name(1)) (use assms(1) name_end [OF assms(2)] in auto)
  have "takeWhile isWorkerEnvironmentKeyContinue (''export'' @ d # ds) = ''export''"
    by (rule takeWhile_name(1))
      (use space_not_key [OF d] in \<open>auto simp: isWorkerEnvironmentKeyContinue_def isWorkerEnvironmentKeyStart_def less_eq_char_def\<close>)
  with tw e have name: "name = ''export''" by simp
  with assms(3) e have "d = CHR ''=''" by simp
  with d show False by (simp add: isHorizontalSpace_def)
qed

text \<open>The value of an assignment, from the byte behind the equals sign to the end of its line.\<close>

abbreviation value_tail :: "env_layout \<Rightarrow> env_text \<Rightarrow> string \<Rightarrow> string" where
  "value_tail l v cs \<equiv> after_eq l @ print_text v @ trailing l @ print_remark (remark l) @ line_end (ending l) @ cs"

lemma skip_value:
  assumes "spaces sp" and "cs = [] \<or> \<not> isHorizontalSpace (hd cs)"
  shows "skipHorizontalSpace \<lparr>remaining = sp @ cs, lineno = m\<rparr> = \<lparr>remaining = cs, lineno = m\<rparr>"
    and "(sp @ cs \<noteq> [] \<and> isHorizontalSpace (hd (sp @ cs))) \<longleftrightarrow> sp \<noteq> []"
proof -
  show "skipHorizontalSpace \<lparr>remaining = sp @ cs, lineno = m\<rparr> = \<lparr>remaining = cs, lineno = m\<rparr>"
    using assms by (simp add: skipHorizontalSpace_def dropWhile_spaces dropWhile_solid)
  show "(sp @ cs \<noteq> [] \<and> isHorizontalSpace (hd (sp @ cs))) \<longleftrightarrow> sp \<noteq> []"
    using assms by (cases sp) auto
qed

lemma parse_unquoted:
  assumes v: "v = [] \<and> sp = [] \<or> unquoted_ok lead v" and tail: "v \<noteq> [] \<or> r \<noteq> None"
    and r: "remark_ok r" "r \<noteq> None \<longrightarrow> (if v = [] then lead else sp \<noteq> [])" and sp: "spaces sp" and e: "at_end t cs"
  shows "parseValue path n lead \<lparr>remaining = v @ sp @ print_remark r @ line_end t @ cs, lineno = m\<rparr> =
    Inr (v, \<lparr>remaining = cs, lineno = m + end_lines t\<rparr>)"
proof -
  let ?tail = "print_remark r @ line_end t @ cs"
  have scan: "scan_unquoted lead (v @ sp @ ?tail) = (v @ sp, r \<noteq> None, ?tail)"
  proof (cases "v = []")
    case True
    then have "sp = []" using v by (auto simp: unquoted_ok_def)
    then show ?thesis using True r scan_unquoted_tail [OF sp r(1) e, of lead] by simp
  next
    case False
    then have "hash_free lead v" "\<not> isHorizontalSpace (last v)" using v by (auto simp: unquoted_ok_def hash_free_def)
    moreover have "scan_unquoted False (sp @ ?tail) = (sp, r \<noteq> None, ?tail)"
      by (rule scan_unquoted_tail [OF sp r(1) e]) (use r(2) False in auto)
    ultimately show ?thesis using scan_unquoted_plain [of lead v "sp @ ?tail"] False by simp
  qed
  have first: "v @ sp @ ?tail \<noteq> [] \<and> \<not> isLineEndByte (hd (v @ sp @ ?tail)) \<and> hd (v @ sp @ ?tail) \<noteq> SQUOTE \<and> hd (v @ sp @ ?tail) \<noteq> DQUOTE"
  proof (cases "v = []")
    case True
    then obtain c where "r = Some c" "sp = []" using v tail by (auto simp: unquoted_ok_def)
    then show ?thesis using True by (simp add: print_remark_def)
  next
    case False
    then show ?thesis using v by (auto simp: unquoted_ok_def)
  qed
  have skip: "(if r \<noteq> None then skipComment \<lparr>remaining = ?tail, lineno = m\<rparr> else \<lparr>remaining = ?tail, lineno = m\<rparr>) =
      \<lparr>remaining = line_end t @ cs, lineno = m\<rparr>"
    using skip_remark [OF r(1) e, of m] by (cases r) (simp_all add: print_remark_def)
  have "TrimBytes isHorizontalSpace (v @ sp) = v"
    by (rule trim_trailing [OF sp]) (use v in \<open>auto simp: unquoted_ok_def\<close>)
  moreover define all where "all = v @ sp @ ?tail"
  ultimately show ?thesis
    using first scan skip consumeLineEnd_printed [OF e, of path m] unfolding all_def [symmetric]
    by (simp add: parseValue_def atLineEnd_hd)
qed

lemma parse_quoted:
  assumes "quote = SQUOTE \<or> quote = DQUOTE" and "\<forall>p \<in> set ps. piece_ok quote p"
    and "remark_ok r" and "spaces sp" and "at_end t cs"
  shows "parseValue path n lead \<lparr>remaining = quote # pieces_text ps @ quote # sp @ print_remark r @ line_end t @ cs, lineno = m\<rparr> =
    Inr (map piece_value ps, \<lparr>remaining = cs, lineno = m + pieces_lines ps + end_lines t\<rparr>)"
proof -
  have "\<not> isLineEndByte quote" using assms(1) by (auto simp: isLineEndByte_def)
  then have "parseValue path n lead \<lparr>remaining = quote # pieces_text ps @ quote # sp @ print_remark r @ line_end t @ cs, lineno = m\<rparr> =
      scan_quoted path n quote [] \<lparr>remaining = pieces_text ps @ quote # sp @ print_remark r @ line_end t @ cs, lineno = m\<rparr>"
    using assms(1) by (auto simp: parseValue_def atLineEnd_hd)
  then show ?thesis using scan_quoted_pieces [OF assms(2,1)] scan_quoted_printed [OF assms(3-5)] by simp
qed

lemma parseValue_printed:
  assumes ok: "text_ok l v" and sp: "spaces (after_eq l)" "spaces (trailing l)" and r: "remark_ok (remark l)"
    and e: "at_end (ending l) cs"
  shows "parseValue path n (value_tail l v cs \<noteq> [] \<and> isHorizontalSpace (hd (value_tail l v cs)))
      (skipHorizontalSpace \<lparr>remaining = value_tail l v cs, lineno = m\<rparr>) =
    Inr (text_value v, \<lparr>remaining = cs, lineno = m + text_lines v + end_lines (ending l)\<rparr>)"
proof (cases v)
  case Missing
  let ?tail = "print_remark (remark l) @ line_end (ending l) @ cs"
  have tail: "?tail = [] \<or> \<not> isHorizontalSpace (hd ?tail)" by (rule remark_head [OF e])
  have sp': "spaces (after_eq l @ trailing l)" using sp by auto
  note skip = skip_value [OF sp' tail]
  show ?thesis
  proof (cases "remark l")
    case None
    then show ?thesis using skip end_atLineEnd [OF e] consumeLineEnd_printed [OF e] Missing
      by (simp add: parseValue_def print_remark_def)
  next
    case (Some c)
    then have "after_eq l @ trailing l \<noteq> []" using ok Missing by simp
    then show ?thesis using skip parse_unquoted [of "[]" "[]" True "remark l" "ending l" cs path n m] r e Some Missing by simp
  qed
next
  case (Unquoted w)
  let ?rest = "w @ trailing l @ print_remark (remark l) @ line_end (ending l) @ cs"
  have w: "unquoted_ok (after_eq l \<noteq> []) w" using ok Unquoted by simp
  then have "w \<noteq> []" "\<not> isHorizontalSpace (hd ?rest)" by (auto simp: unquoted_ok_def)
  then show ?thesis
    using skip_value [OF sp(1), of ?rest] parse_unquoted [of w "trailing l" "after_eq l \<noteq> []" "remark l" "ending l" cs path n m]
      w ok r sp e Unquoted by simp
next
  case (Quoted quote ps)
  let ?rest = "quote # pieces_text ps @ quote # trailing l @ print_remark (remark l) @ line_end (ending l) @ cs"
  have "\<not> isHorizontalSpace (hd ?rest)" using ok Quoted by (auto simp: isHorizontalSpace_def)
  then show ?thesis
    using skip_value [OF sp(1), of ?rest] parse_quoted [of quote ps "remark l" "trailing l" "ending l" cs path n _ m] ok r sp e Quoted
    by simp
qed

text \<open>The parser after the \<open>export\<close> prefix, if any: it is at the name.\<close>

lemma export_printed:
  assumes name: "env_name_ok name" and sp: "spaces sp"
    and x: "case x of None \<Rightarrow> name = ''export'' \<longrightarrow> sp = [] | Some s \<Rightarrow> s \<noteq> [] \<and> spaces s"
    and p: "p = \<lparr>remaining = print_export x @ name @ sp @ CHR ''='' # cs, lineno = n\<rparr>"
  shows "(if hasExportPrefix p then skipHorizontalSpace (p\<lparr>remaining := drop (length ''export'') (remaining p)\<rparr>) else p)
     = \<lparr>remaining = name @ sp @ CHR ''='' # cs, lineno = n\<rparr>"
proof (cases x)
  case None
  then have "\<not> hasExportPrefix p"
    using HasPrefix_export_name [of name sp cs n] name sp x p by (simp add: env_name_ok_def print_export_def)
  with None p show ?thesis by (simp add: print_export_def)
next
  case (Some s)
  then obtain d ds where s: "s = d # ds" "isHorizontalSpace d" "spaces ds" using x by (cases s) auto
  have "hasExportPrefix p" by (simp add: hasExportPrefix_def p Some print_export_def HasPrefix_def s)
  moreover have "\<not> isHorizontalSpace (hd name)" "name \<noteq> []"
    using name key_start_continue key_not_layout(1) by (auto simp: env_name_ok_def)
  ultimately show ?thesis
    by (simp add: p Some print_export_def skipHorizontalSpace_def s dropWhile_spaces dropWhile_solid)
qed

lemma parse_assignment_printed:
  assumes ok: "line_ok (Assign l name v)" and name: "env_name_ok name" and e: "at_end (ending l) cs"
    and p: "p = \<lparr>remaining = dropWhile isHorizontalSpace (print_line (Assign l name v) @ cs), lineno = n\<rparr>"
  shows "parse_assignment path p =
    Inr (env_entry name (text_value v), \<lparr>remaining = cs, lineno = n + text_lines v + end_lines (ending l)\<rparr>)"
proof -
  let ?tail = "value_tail l v cs"
  have hd_name: "\<not> isHorizontalSpace (hd name)" "name \<noteq> []" "isWorkerEnvironmentKeyStart (hd name)"
    using name key_start_continue key_not_layout(1) by (auto simp: env_name_ok_def)
  have line: "p = \<lparr>remaining = print_export (exported l) @ name @ before_eq l @ CHR ''='' # ?tail, lineno = n\<rparr>"
    using ok hd_name by (cases "exported l")
      (simp_all add: p dropWhile_spaces dropWhile_solid print_export_def isHorizontalSpace_def)
  define p1 where "p1 = (if hasExportPrefix p then skipHorizontalSpace (p\<lparr>remaining := drop (length ''export'') (remaining p)\<rparr>) else p)"
  have p1: "p1 = \<lparr>remaining = name @ before_eq l @ CHR ''='' # ?tail, lineno = n\<rparr>"
    unfolding p1_def by (rule export_printed [OF name _ _ line]) (use ok in \<open>auto split: option.splits\<close>)
  have rest: "hd (remaining p1) # takeWhile isWorkerEnvironmentKeyContinue (tl (remaining p1)) = name"
    "dropWhile isWorkerEnvironmentKeyContinue (tl (remaining p1)) = before_eq l @ CHR ''='' # ?tail"
    using takeWhile_name [of "tl name" isWorkerEnvironmentKeyContinue "before_eq l @ CHR ''='' # ?tail"]
      name name_end [of "before_eq l" ?tail] ok
    by (simp_all add: p1 env_name_ok_def list.set_sel(2))
  define p2 where "p2 = skipHorizontalSpace (p1\<lparr>remaining := before_eq l @ CHR ''='' # ?tail\<rparr>)"
  have p2: "p2 = \<lparr>remaining = CHR ''='' # ?tail, lineno = n\<rparr>"
    using ok by (simp add: p2_def p1 skipHorizontalSpace_def dropWhile_spaces isHorizontalSpace_def)
  have val: "parseValue path n (?tail \<noteq> [] \<and> isHorizontalSpace (hd ?tail)) (skipHorizontalSpace \<lparr>remaining = ?tail, lineno = n\<rparr>) =
      Inr (text_value v, \<lparr>remaining = cs, lineno = n + text_lines v + end_lines (ending l)\<rparr>)"
    by (rule parseValue_printed) (use ok e in simp_all)
  have "lineno p = n" "remaining p1 \<noteq> []" "isWorkerEnvironmentKeyStart (hd (remaining p1))"
    using hd_name by (simp_all add: line p1)
  moreover have "tl (remaining p2) = ?tail" "remaining p2 \<noteq> []" "hd (remaining p2) = CHR ''=''"
    "p2\<lparr>remaining := ?tail\<rparr> = \<lparr>remaining = ?tail, lineno = n\<rparr>" by (simp_all add: p2)
  ultimately show ?thesis
    unfolding parse_assignment_def Let_def p1_def [symmetric] rest p2_def [symmetric]
    by (simp only: val) simp
qed

definition line_lines :: "env_line \<Rightarrow> nat" where
  "line_lines ln = (case ln of Assign l name v \<Rightarrow> text_lines v | _ \<Rightarrow> 0) + end_lines (line_term ln)"

lemma parse_line_printed:
  assumes ok: "line_ok ln" and names: "\<forall>e \<in> set (line_entries ln). env_name_ok (entry_name e)"
    and e: "at_end (line_term ln) cs"
  shows "parse_line pf path st \<lparr>remaining = print_line ln @ cs, lineno = n\<rparr> =
    bind_err (fold_err (add_entry pf path n) (line_entries ln) st) (\<lambda>st'. Inr (st', \<lparr>remaining = cs, lineno = n + line_lines ln\<rparr>))"
proof (cases ln)
  case (Blank sp t)
  then have t: "at_end t cs" using e by simp
  have skip: "skipHorizontalSpace \<lparr>remaining = print_line ln @ cs, lineno = n\<rparr> = \<lparr>remaining = line_end t @ cs, lineno = n\<rparr>"
    using ok Blank end_drop(1) [OF t] by (simp add: skipHorizontalSpace_def dropWhile_spaces)
  show ?thesis unfolding parse_line_def skip using end_atLineEnd [OF t] consumeLineEnd_printed [OF t]
    by (simp add: Blank line_lines_def)
next
  case (Comment sp c t)
  then have t: "at_end t cs" using e by simp
  have skip: "skipHorizontalSpace \<lparr>remaining = print_line ln @ cs, lineno = n\<rparr> = \<lparr>remaining = CHR ''#'' # c @ line_end t @ cs, lineno = n\<rparr>"
    "skipComment \<lparr>remaining = CHR ''#'' # c @ line_end t @ cs, lineno = n\<rparr> = \<lparr>remaining = line_end t @ cs, lineno = n\<rparr>"
    using ok Comment end_drop(2) [OF t]
    by (simp_all add: skipHorizontalSpace_def skipComment_def dropWhile_spaces dropWhile_comment comment_text_def)
  show ?thesis unfolding parse_line_def skip(1) using consumeLineEnd_printed [OF t]
    by (simp add: Comment line_lines_def atLineEnd_hd skip(2))
next
  case (Assign l name v)
  let ?p = "\<lparr>remaining = dropWhile isHorizontalSpace (print_line ln @ cs), lineno = n\<rparr>"
  have name: "env_name_ok name" using names Assign by simp
  then have c: "isWorkerEnvironmentKeyContinue (hd name)" "name \<noteq> []"
    using key_start_continue by (auto simp: env_name_ok_def)
  have x: "isWorkerEnvironmentKeyContinue (CHR ''e'')"
    by (simp add: isWorkerEnvironmentKeyContinue_def isWorkerEnvironmentKeyStart_def less_eq_char_def)
  obtain d ds where d: "dropWhile isHorizontalSpace (print_line ln @ cs) = d # ds" "isWorkerEnvironmentKeyContinue d"
    using ok Assign c x key_not_layout(1) by (cases "exported l"; cases name)
      (auto simp: dropWhile_spaces print_export_def)
  then have "\<not> atLineEnd ?p" "hd (remaining ?p) \<noteq> CHR ''#''"
    using key_not_layout [OF d(2)] by (simp_all add: atLineEnd_hd d(1) del: dropWhile_eq_Nil_conv)
  moreover have "parse_assignment path ?p =
      Inr (env_entry name (text_value v), \<lparr>remaining = cs, lineno = n + text_lines v + end_lines (ending l)\<rparr>)"
    by (rule parse_assignment_printed [where l = l]) (use ok Assign name e in simp_all)
  ultimately show ?thesis
    by (cases "add_entry pf path n (env_entry name (text_value v)) st")
      (simp_all add: parse_line_def skipHorizontalSpace_def Assign line_lines_def add.assoc)
qed

section \<open>The loops of the parser\<close>

definition env_keys :: "platform \<Rightarrow> workerEnvironmentEntry list \<Rightarrow> string list" where
  "env_keys pf es = map (\<lambda>e. normalizeEnvironmentKey pf (entry_name e)) es"

lemma env_keys_simps [simp]: "env_keys pf [] = []" "env_keys pf (e # es) = normalizeEnvironmentKey pf (entry_name e) # env_keys pf es"
  "env_keys pf (es @ fs) = env_keys pf es @ env_keys pf fs"
  by (simp_all add: env_keys_def)

text \<open>The invariant of the loop over the lines: \<open>seen\<close> holds the keys of \<open>entries\<close>, which differ.\<close>

definition seen_inv :: "platform \<Rightarrow> string gomap \<times> workerEnvironmentEntry list \<Rightarrow> bool" where
  "seen_inv pf st \<longleftrightarrow> dom (map_of (fst st)) = set (env_keys pf (snd st)) \<and> distinct (env_keys pf (snd st))"

lemma seen_inv_start [simp]: "seen_inv pf ([], [])"
  by (simp add: seen_inv_def)

lemma add_entry_Inr:
  "add_entry pf path n e st = Inr st' \<longleftrightarrow>
     validateWorkerEnvironmentName (entry_name e) = None \<and> validateWorkerEnvironmentValue (entry_value e) = None \<and>
     map_of (fst st) (normalizeEnvironmentKey pf (entry_name e)) = None \<and> length (snd st) < maxWorkerEnvironmentCount \<and>
     st' = (gomap_put (normalizeEnvironmentKey pf (entry_name e)) (entry_name e) (fst st), snd st @ [e])"
  by (auto simp: add_entry_def split: option.splits)

lemma add_entry_inv:
  assumes "add_entry pf path n e st = Inr st'" and "seen_inv pf st"
  shows "seen_inv pf st'"
  using assms by (auto simp: add_entry_Inr seen_inv_def domIff)

lemma parse_line_inv:
  assumes "parse_line pf path st p = Inr (st', p')" and "seen_inv pf st"
  shows "seen_inv pf st'"
  using assms by (auto simp: parse_line_def Let_def bind_err_Inr intro: add_entry_inv split: if_splits)

lemma parse_lines_inv: "parse_lines pf path st p = Inr st' \<Longrightarrow> seen_inv pf st \<Longrightarrow> seen_inv pf st'"
proof (induction pf path st p rule: parse_lines.induct)
  case (1 pf path st p)
  then show ?case
    by (auto simp: parse_lines.simps [of pf path st p] split: if_splits sum.splits dest: parse_line_inv)
qed

lemma parseWorkerEnvironment_safe:
  assumes "parseWorkerEnvironment pf path payload = Inr es"
  shows "validateWorkerEnvironment es = None" "distinct (env_keys pf es)"
proof -
  from assms obtain seen p where r: "parse_lines pf path ([], []) p = Inr (seen, es)"
    and v: "validateWorkerEnvironment es = None"
    by (auto simp: parseWorkerEnvironment_def parse_env_def bind_err_Inr)
  show "validateWorkerEnvironment es = None" by (rule v)
  from parse_lines_inv [OF r] show "distinct (env_keys pf es)" by (simp add: seen_inv_def)
qed

definition entry_valid :: "workerEnvironmentEntry \<Rightarrow> bool" where
  "entry_valid e \<longleftrightarrow> validateWorkerEnvironmentName (entry_name e) = None \<and> validateWorkerEnvironmentValue (entry_value e) = None"

lemma add_entries:
  assumes "seen_inv pf (seen, es)" and "\<forall>e \<in> set fs. entry_valid e" and "distinct (env_keys pf (es @ fs))"
    and "length (es @ fs) \<le> maxWorkerEnvironmentCount"
  shows "\<exists>seen'. fold_err (add_entry pf path n) fs (seen, es) = Inr (seen', es @ fs) \<and> seen_inv pf (seen', es @ fs)"
  using assms
proof (induction fs arbitrary: seen es)
  case (Cons e fs)
  let ?k = "normalizeEnvironmentKey pf (entry_name e)"
  have "map_of seen ?k = None" using Cons.prems(1,3) by (auto simp: seen_inv_def domIff)
  then have a: "add_entry pf path n e (seen, es) = Inr (gomap_put ?k (entry_name e) seen, es @ [e])"
    using Cons.prems(2,4) by (simp add: add_entry_Inr entry_valid_def)
  from Cons.IH [OF add_entry_inv [OF a Cons.prems(1)]] Cons.prems(2-4) show ?case by (simp add: a)
qed simp

lemma print_line_not_Nil: "line_ok ln \<Longrightarrow> print_line ln \<noteq> []"
proof (cases ln)
  case (Blank sp t)
  then show "line_ok ln \<Longrightarrow> ?thesis" by (cases t) simp_all
qed simp_all

lemma file_entries_simps [simp]: "file_entries [] = []" "file_entries (ln # lines) = line_entries ln @ file_entries lines"
  by (simp_all add: file_entries_def)

lemma file_ok_Cons:
  assumes "file_ok (ln # lines)"
  shows "line_ok ln" and "file_ok lines" and "at_end (line_term ln) (concat (map print_line lines))"
  using assms by (auto simp: file_ok_def at_end_def split: if_splits)

lemma parse_lines_printed:
  assumes "file_ok lines" and "seen_inv pf (seen, es)" and "\<forall>e \<in> set (file_entries lines). entry_valid e"
    and "distinct (env_keys pf (es @ file_entries lines))" and "length (es @ file_entries lines) \<le> maxWorkerEnvironmentCount"
  shows "\<exists>seen'. parse_lines pf path (seen, es) \<lparr>remaining = concat (map print_line lines), lineno = n\<rparr>
    = Inr (seen', es @ file_entries lines)"
  using assms
proof (induction lines arbitrary: seen es n)
  case Nil
  then show ?case by (simp add: parse_lines.simps)
next
  case (Cons ln lines)
  let ?p = "\<lparr>remaining = print_line ln @ concat (map print_line lines), lineno = n\<rparr>"
  note ok = file_ok_Cons [OF Cons.prems(1)]
  have valid: "\<forall>e \<in> set (line_entries ln). entry_valid e" using Cons.prems(3) by simp
  obtain seen1 where s1: "fold_err (add_entry pf path n) (line_entries ln) (seen, es) = Inr (seen1, es @ line_entries ln)"
    "seen_inv pf (seen1, es @ line_entries ln)"
    using add_entries [OF Cons.prems(2) valid, of path n] Cons.prems(4,5) by auto
  have "\<forall>e \<in> set (line_entries ln). env_name_ok (entry_name e)"
    using valid name_valid_syntax by (auto simp: entry_valid_def)
  then have step: "parse_line pf path (seen, es) ?p =
      Inr ((seen1, es @ line_entries ln), \<lparr>remaining = concat (map print_line lines), lineno = n + line_lines ln\<rparr>)"
    using parse_line_printed [OF ok(1) _ ok(3), of pf path "(seen, es)" n] s1(1) by simp
  from Cons.IH [OF ok(2) s1(2), of "n + line_lines ln"] Cons.prems print_line_not_Nil [OF ok(1)]
  show ?case by (simp add: parse_lines.simps [of pf path "(seen, es)" ?p] step)
qed

section \<open>A printed file is text\<close>

declare Valid.simps(2) [simp del]

lemma Valid_Cons_ascii: "byte c < 0x80 \<Longrightarrow> Valid s \<Longrightarrow> Valid (c # s)"
  using Valid_append [OF ascii_valid [of "[c]"]] by simp

lemma piece_ascii: "piece_ok quote p \<Longrightarrow> byte (piece_value p) < 0x80 \<Longrightarrow> \<forall>c \<in> set (piece_text p). byte c < 0x80"
  by (cases p) auto

lemma piece_wide: "piece_ok quote p \<Longrightarrow> \<not> byte (piece_value p) < 0x80 \<Longrightarrow> piece_text p = [piece_value p]"
  by (cases p) auto

lemma Valid_pieces: "Valid v \<Longrightarrow> v = map piece_value ps \<Longrightarrow> \<forall>p \<in> set ps. piece_ok quote p \<Longrightarrow> Valid (pieces_text ps)"
proof (induction v arbitrary: ps rule: Valid_induct)
  case Nil
  then show ?case by (simp add: pieces_text_def)
next
  case (rune u r v)
  then obtain qs rs where ps: "ps = qs @ rs" "u = map piece_value qs" "v = map piece_value rs"
    by (metis append_eq_map_conv)
  have ok: "\<forall>p \<in> set qs. piece_ok quote p" "\<forall>p \<in> set rs. piece_ok quote p" using rune.prems(2) by (auto simp: ps(1))
  have rest: "Valid (pieces_text rs)" by (rule rune.IH [OF ps(3) ok(2)])
  show ?case
  proof (cases "byte (hd u) < 0x80")
    case True
    then obtain c where "u = [c]" "byte c < 0x80"
      using encodes_ascii [OF rune(1)] encodes_not_Nil [OF rune(1)] by (cases u) auto
    then obtain q where q: "qs = [q]" "byte (piece_value q) < 0x80" using ps(2) by auto
    have "\<forall>c \<in> set (piece_text q). byte c < 0x80" by (rule piece_ascii) (use ok(1) q in auto)
    then show ?thesis using Valid_append [OF ascii_valid rest] by (simp add: pieces_text_def ps(1) q(1))
  next
    case False
    have "piece_text q = [piece_value q]" if q: "q \<in> set qs" for q
    proof -
      have x: "piece_value q \<in> set u" using q ps(2) by simp
      from rune(1) x have "piece_value q = hd u \<or> \<not> RuneStart (piece_value q)" by (cases u) (auto simp: encodes_def)
      with False have "\<not> byte (piece_value q) < 0x80" by (auto simp: RuneStart_def)
      then show ?thesis using piece_wide ok(1) q by blast
    qed
    then have "pieces_text qs = u" unfolding pieces_text_def ps(2) by (induction qs) simp_all
    then show ?thesis using Valid_append_rune [OF rune(1)] rest by (simp add: pieces_text_def ps(1))
  qed
qed

lemma Valid_ascii_append: "\<forall>c \<in> set p. byte c < 0x80 \<Longrightarrow> Valid s \<Longrightarrow> Valid (p @ s)"
  by (rule Valid_append [OF ascii_valid])

lemma space_ascii: "isHorizontalSpace c \<Longrightarrow> byte c < 0x80" "isHorizontalSpace c \<Longrightarrow> c \<noteq> NUL"
  "isHorizontalSpace c \<Longrightarrow> c \<noteq> CHR 0xEF"
  by (auto simp: isHorizontalSpace_def)

lemma spaces_ascii: "spaces s \<Longrightarrow> \<forall>c \<in> set s. byte c < 0x80"
  using space_ascii(1) by blast

lemma print_export_ascii:
  "case x of None \<Rightarrow> True | Some s \<Rightarrow> spaces s \<Longrightarrow> \<forall>c \<in> set (print_export x). byte c < 0x80"
  by (cases x) (simp_all add: print_export_def spaces_ascii)

lemma Valid_line_end [simp]: "Valid (line_end t)"
  by (cases t) (simp_all add: ascii_valid)

lemma Valid_remark: "remark_ok r \<Longrightarrow> Valid (print_remark r)"
  by (cases r) (auto simp: print_remark_def comment_text_def intro: Valid_Cons_ascii)

lemma Valid_text: "text_ok l v \<Longrightarrow> Valid (text_value v) \<Longrightarrow> Valid (print_text v)"
proof (cases v)
  case (Quoted quote ps)
  assume ok: "text_ok l v" and v: "Valid (text_value v)"
  have "byte quote < 0x80" using ok Quoted by auto
  moreover have "Valid (pieces_text ps)" by (rule Valid_pieces [OF _ refl, where quote = quote]) (use ok v Quoted in auto)
  ultimately show ?thesis using Quoted by (simp add: Valid_Cons_ascii Valid_append ascii_valid)
qed simp_all

lemma Valid_print_line:
  assumes "line_ok ln" and "\<forall>e \<in> set (line_entries ln). entry_valid e"
  shows "Valid (print_line ln)"
proof (cases ln)
  case (Blank sp t)
  then have "spaces sp" using assms(1) by simp
  then show ?thesis using Blank by (simp add: Valid_ascii_append spaces_ascii)
next
  case (Comment sp c t)
  with assms show ?thesis
    by (simp add: comment_text_def Valid_ascii_append [OF spaces_ascii] Valid_Cons_ascii Valid_append)
next
  case (Assign l name v)
  then have e: "env_name_ok name" "Valid (text_value v)"
    using assms name_valid_syntax value_valid by (auto simp: entry_valid_def)
  have name: "\<forall>c \<in> set name. byte c < 0x80"
    using e(1) name_ascii by (auto simp: env_name_ok_def)
  have x: "case exported l of None \<Rightarrow> True | Some s \<Rightarrow> spaces s" using assms(1) Assign by (simp split: option.splits)
  have r: "remark_ok (remark l)" and t: "text_ok l v"
    and sp: "spaces (indent l)" "spaces (before_eq l)" "spaces (after_eq l)" "spaces (trailing l)"
    using assms(1) Assign by simp_all
  have "Valid (trailing l @ print_remark (remark l) @ line_end (ending l))"
    by (intro Valid_ascii_append spaces_ascii sp Valid_append Valid_remark r Valid_line_end)
  then have "Valid (print_text v @ trailing l @ print_remark (remark l) @ line_end (ending l))"
    by (rule Valid_append [OF Valid_text [OF t e(2)]])
  then have "Valid (''='' @ after_eq l @ print_text v @ trailing l @ print_remark (remark l) @ line_end (ending l))"
    using Valid_Cons_ascii [of "CHR ''=''", OF _ Valid_ascii_append [OF spaces_ascii [OF sp(3)]]] by simp
  then show ?thesis
    unfolding Assign print_line.simps
    by (intro Valid_ascii_append [OF spaces_ascii [OF sp(1)]] Valid_ascii_append [OF print_export_ascii [OF x]]
        Valid_ascii_append [OF name] Valid_ascii_append [OF spaces_ascii [OF sp(2)]])
qed

lemma NUL_pieces: "NUL \<notin> piece_value ` set ps \<Longrightarrow> NUL \<notin> set (pieces_text ps)"
  unfolding pieces_text_def
proof (induction ps)
  case (Cons p ps)
  have "NUL \<notin> set (piece_text p)" using Cons.prems by (cases p) auto
  with Cons show ?case by auto
qed simp

lemma NUL_print_line:
  assumes "line_ok ln" and "\<forall>e \<in> set (line_entries ln). entry_valid e"
  shows "NUL \<notin> set (print_line ln)"
proof -
  have sp: "NUL \<notin> set s" if "spaces s" for s using that space_ascii(2) by blast
  have le: "NUL \<notin> set (line_end t)" for t by (cases t) simp_all
  show ?thesis
  proof (cases ln)
    case (Assign l name v)
    then have e: "NUL \<notin> set (text_value v)" "NUL \<notin> set name"
      using assms(2) value_valid name_valid_syntax key_not_layout(5) by (auto simp: entry_valid_def env_name_ok_def)
    have "NUL \<notin> set (print_text v)"
    proof (cases v)
      case (Quoted quote ps)
      then have "NUL \<notin> piece_value ` set ps" "quote \<noteq> NUL" using e(1) assms(1) Assign by auto
      then show ?thesis using NUL_pieces Quoted by simp
    qed (use e(1) in simp_all)
    moreover have "NUL \<notin> set (print_remark (remark l))" "NUL \<notin> set (print_export (exported l))"
      using assms(1) Assign sp by (auto simp: print_remark_def print_export_def comment_text_def split: option.splits)
    ultimately show ?thesis using assms(1) Assign sp le e(2) by simp
  qed (use assms(1) sp le in \<open>auto simp: comment_text_def\<close>)
qed

lemma Valid_print_lines:
  assumes "\<forall>ln \<in> set lines. line_ok ln" and "\<forall>e \<in> set (file_entries lines). entry_valid e"
  shows "Valid (concat (map print_line lines))" "NUL \<notin> set (concat (map print_line lines))"
  using assms by (induction lines) (auto intro!: Valid_append Valid_print_line dest: NUL_print_line)

lemma bom_line: "line_ok ln \<Longrightarrow> \<forall>e \<in> set (line_entries ln). entry_valid e \<Longrightarrow> hd (print_line ln) \<noteq> CHR 0xEF"
proof -
  assume ok: "line_ok ln" and e: "\<forall>e \<in> set (line_entries ln). entry_valid e"
  have sp: "hd (s @ cs) \<noteq> CHR 0xEF" if "spaces s" "s \<noteq> [] \<or> hd cs \<noteq> CHR 0xEF" for s cs :: string
    using that space_ascii(3) by (cases s) auto
  show ?thesis
  proof (cases ln)
    case (Blank s t)
    with ok show ?thesis using sp [of s "line_end t"] by (cases t) auto
  next
    case (Comment s c t)
    with ok show ?thesis by (simp add: sp)
  next
    case (Assign l name v)
    then have "env_name_ok name" using e name_valid_syntax by (auto simp: entry_valid_def)
    then have "name \<noteq> []" "byte (hd name) < 0x80"
      using key_start_continue key_not_layout(6) by (auto simp: env_name_ok_def)
    then have "hd (print_export (exported l) @ name @ cs) \<noteq> CHR 0xEF" for cs
      by (cases "exported l") (auto simp: print_export_def)
    then show ?thesis using ok Assign by (simp add: sp)
  qed
qed

lemma TrimPrefix_bom:
  assumes "\<forall>ln \<in> set lines. line_ok ln" and "\<forall>e \<in> set (file_entries lines). entry_valid e"
  shows "TrimPrefix (print_file bom lines) byte_order_mark = concat (map print_line lines)"
proof -
  have "\<not> HasPrefix (concat (map print_line lines)) byte_order_mark"
  proof (cases lines)
    case (Cons ln more)
    with assms bom_line [of ln] have "hd (print_line ln) \<noteq> CHR 0xEF" by simp
    then show ?thesis using Cons print_line_not_Nil [of ln] assms(1)
      by (cases "print_line ln") (auto simp: byte_order_mark_def HasPrefix_def)
  qed (simp add: byte_order_mark_def HasPrefix_def)
  then show ?thesis by (cases bom) (simp_all add: print_file_def TrimPrefix_def byte_order_mark_def HasPrefix_def)
qed

lemma bom_text: "Valid byte_order_mark" "NUL \<notin> set byte_order_mark"
  by (simp_all add: byte_order_mark_def Valid.simps(2) DecodeRune_def cont_in_def accept_lo_def accept_hi_def RuneError_def)

lemma print_file_text:
  assumes "\<forall>ln \<in> set lines. line_ok ln" and "\<forall>e \<in> set (file_entries lines). entry_valid e"
  shows "Valid (print_file bom lines)" "NUL \<notin> set (print_file bom lines)"
  using Valid_print_lines [OF assms] bom_text by (simp_all add: print_file_def Valid_append)

end
