(* ===== verification/Worker_Environment_Load.thy ===== *)
theory Worker_Environment_Load
  imports Worker_Environment_Facts
begin

text \<open>
  The worker environment as a whole: looking a variable up, the loop over the client's overrides and
  its invariant, the environment the worker process is started with, the parser's answer on a printed
  file, and that every file the parser accepts is a printed one.
\<close>

section \<open>Looking a variable up\<close>

definition env_lookup :: "platform \<Rightarrow> workerEnvironmentEntry list \<Rightarrow> string \<Rightarrow> workerEnvironmentEntry option" where
  "env_lookup pf es k = List.find (\<lambda>e. normalizeEnvironmentKey pf (entry_name e) = k) es"

lemma env_lookup_Some:
  assumes "distinct (env_keys pf es)"
  shows "env_lookup pf es k = Some e \<longleftrightarrow> e \<in> set es \<and> normalizeEnvironmentKey pf (entry_name e) = k"
  using assms by (induction es) (auto simp: env_lookup_def env_keys_def)

lemma env_lookup_None: "env_lookup pf es k = None \<longleftrightarrow> k \<notin> set (env_keys pf es)"
  by (auto simp: env_lookup_def find_None_iff env_keys_def)

lemma env_lookup_eqI:
  assumes "distinct (env_keys pf es)" and "gomap_ok vals"
    and "\<And>e. e \<in> set es \<and> normalizeEnvironmentKey pf (entry_name e) = k \<longleftrightarrow> (k, e) \<in> set vals"
  shows "env_lookup pf es k = map_of vals k"
proof (cases "map_of vals k")
  case None
  then have "(k, e) \<notin> set vals" for e using assms(2) by (metis gomap_lookup_iff option.distinct(1))
  then show ?thesis using None env_lookup_Some [OF assms(1)] assms(3) by (metis not_None_eq)
next
  case (Some e)
  then show ?thesis using env_lookup_Some [OF assms(1)] assms(3) by (simp add: map_of_SomeD)
qed

text \<open>A map of values under their own keys, as \<open>loadWorkerEnvironment\<close> keeps it.\<close>

definition keyed :: "platform \<Rightarrow> workerEnvironmentEntry gomap \<Rightarrow> bool" where
  "keyed pf vals \<longleftrightarrow> gomap_ok vals \<and> (\<forall>(k, e) \<in> set vals. normalizeEnvironmentKey pf (entry_name e) = k)"

lemma keyed_put: "keyed pf vals \<Longrightarrow> keyed pf (gomap_put (normalizeEnvironmentKey pf (entry_name e)) e vals)"
  using set_gomap_put_subset [of "normalizeEnvironmentKey pf (entry_name e)" e vals] by (auto simp: keyed_def)

lemma keyed_remove: "keyed pf vals \<Longrightarrow> keyed pf (filter (\<lambda>kv. fst kv \<noteq> k) vals)"
  by (auto simp: keyed_def gomap_ok_def distinct_map_filter)

lemma keyed_keys: "keyed pf vals \<Longrightarrow> env_keys pf (map snd vals) = map fst vals"
  by (auto simp: keyed_def env_keys_def)

lemma mset_env_keys: "mset es = mset fs \<Longrightarrow> distinct (env_keys pf es) = distinct (env_keys pf fs)"
  unfolding env_keys_def by (metis mset_eq_imp_distinct_iff mset_map)

lemma distinct_sorted_entries [simp]:
  "distinct (env_keys pf (sortWorkerEnvironment pf es)) = distinct (env_keys pf es)"
  by (rule mset_env_keys) (simp add: sortWorkerEnvironment_def)

lemma set_sorted_entries [simp]: "set (sortWorkerEnvironment pf es) = set es"
  by (simp add: sortWorkerEnvironment_def)

lemma env_lookup_sorted:
  assumes "keyed pf vals"
  shows "env_lookup pf (sortWorkerEnvironment pf (map snd vals)) k = map_of vals k"
proof (rule env_lookup_eqI)
  show "distinct (env_keys pf (sortWorkerEnvironment pf (map snd vals)))"
    using assms by (simp add: keyed_keys) (simp add: keyed_def gomap_ok_def)
  show "gomap_ok vals" using assms by (simp add: keyed_def)
  show "e \<in> set (sortWorkerEnvironment pf (map snd vals)) \<and> normalizeEnvironmentKey pf (entry_name e) = k
      \<longleftrightarrow> (k, e) \<in> set vals" for e
    using assms by (force simp: keyed_def)
qed

lemma file_values_facts:
  "keyed pf vals \<Longrightarrow> keyed pf (fold (\<lambda>e. gomap_put (normalizeEnvironmentKey pf (entry_name e)) e) es vals)"
  by (induction es arbitrary: vals) (simp_all add: keyed_put)

lemma file_values_lookup:
  assumes "distinct (env_keys pf es)" and "dom (map_of vals) \<inter> set (env_keys pf es) = {}"
  shows "map_of (fold (\<lambda>e. gomap_put (normalizeEnvironmentKey pf (entry_name e)) e) es vals) k =
    (case env_lookup pf es k of Some e \<Rightarrow> Some e | None \<Rightarrow> map_of vals k)"
  using assms
proof (induction es arbitrary: vals)
  case Nil
  then show ?case by (simp add: env_lookup_def)
next
  case (Cons e es)
  have "env_lookup pf es (normalizeEnvironmentKey pf (entry_name e)) = None"
    using Cons.prems(1) by (simp add: env_lookup_None)
  moreover have "dom (map_of (gomap_put (normalizeEnvironmentKey pf (entry_name e)) e vals)) \<inter> set (env_keys pf es) = {}"
    using Cons.prems by auto
  ultimately show ?case using Cons.IH Cons.prems(1) by (auto simp: env_lookup_def split: option.split)
qed

section \<open>Overrides\<close>

definition override_for :: "platform \<Rightarrow> string option gomap \<Rightarrow> string \<Rightarrow> (string \<times> string option) option" where
  "override_for pf ovs k = List.find (\<lambda>nv. normalizeEnvironmentKey pf (fst nv) = k) ovs"

text \<open>What the overrides say of a variable the file gives as \<open>old\<close>.\<close>

definition overridden :: "platform \<Rightarrow> string option gomap \<Rightarrow> workerEnvironmentEntry option \<Rightarrow> string \<Rightarrow> workerEnvironmentEntry option" where
  "overridden pf ovs old k = (case override_for pf ovs k of
     Some (name, v) \<Rightarrow> map_option (env_entry name) v | None \<Rightarrow> old)"

definition override_inv :: "platform \<Rightarrow> workerEnvironmentEntry gomap \<Rightarrow> string option gomap \<Rightarrow>
    string gomap \<times> workerEnvironmentEntry gomap \<Rightarrow> bool" where
  "override_inv pf vals0 ovs st \<longleftrightarrow>
     dom (map_of (fst st)) = (\<lambda>nv. normalizeEnvironmentKey pf (fst nv)) ` set ovs \<and>
     distinct (map (\<lambda>nv. normalizeEnvironmentKey pf (fst nv)) ovs) \<and> keyed pf (snd st) \<and>
     (\<forall>k. map_of (snd st) k = overridden pf ovs (map_of vals0 k) k)"

lemma map_of_remove: "map_of (filter (\<lambda>kv. fst kv \<noteq> k) m) = (map_of m)(k := None)"
  by (induction m) (auto simp: fun_eq_iff)

lemma override_for_snoc:
  "override_for pf (ovs @ [nv]) k = (case override_for pf ovs k of Some r \<Rightarrow> Some r
     | None \<Rightarrow> if normalizeEnvironmentKey pf (fst nv) = k then Some nv else None)"
  by (induction ovs) (simp_all add: override_for_def)

lemma override_step:
  assumes inv: "override_inv pf vals0 ovs st" and step: "apply_override pf nv st = Inr st'"
  shows "override_inv pf vals0 (ovs @ [nv]) st'"
proof -
  obtain name v where nv: "nv = (name, v)" by (cases nv)
  obtain seen vals where st: "st = (seen, vals)" by (cases st)
  let ?k = "normalizeEnvironmentKey pf name"
  from step have fresh: "map_of seen ?k = None"
    by (auto simp: apply_override_def nv st Let_def split: option.splits)
  then have new: "?k \<notin> (\<lambda>nv. normalizeEnvironmentKey pf (fst nv)) ` set ovs"
    using inv by (auto simp: override_inv_def st domIff)
  then have none: "override_for pf ovs ?k = None" by (force simp: override_for_def find_None_iff)
  have st': "st' = (gomap_put ?k name seen, case v of None \<Rightarrow> filter (\<lambda>kv. fst kv \<noteq> ?k) vals
      | Some s \<Rightarrow> gomap_put ?k (env_entry name s) vals)"
    using step fresh by (auto simp: apply_override_def nv st Let_def split: option.splits)
  have keyed: "keyed pf (snd st')"
    using inv keyed_put [of pf vals "env_entry name s" for s]
    by (auto simp: st' st override_inv_def keyed_remove split: option.split)
  have lookup: "map_of (snd st') k = overridden pf (ovs @ [nv]) (map_of vals0 k) k" for k
    using inv none by (auto simp: st' st override_inv_def overridden_def override_for_snoc nv map_of_remove
        split: option.split)
  show ?thesis
    using inv new keyed lookup by (auto simp: override_inv_def st' st nv)
qed

lemma override_for_perm:
  assumes "distinct (map (\<lambda>nv. normalizeEnvironmentKey pf (fst nv)) ovs)" and "mset ovs = mset ovs'"
  shows "override_for pf ovs k = override_for pf ovs' k"
proof -
  have *: "override_for pf xs k = map_of (map (\<lambda>nv. (normalizeEnvironmentKey pf (fst nv), nv)) xs) k" for xs
    by (induction xs) (simp_all add: override_for_def)
  have "distinct (map (\<lambda>nv. normalizeEnvironmentKey pf (fst nv)) ovs')"
    using assms by (metis mset_eq_imp_distinct_iff mset_map)
  with assms show ?thesis unfolding *
    by (intro fun_cong [OF map_of_inject_set [THEN iffD2]])
      (auto simp: comp_def dest!: mset_eq_setD)
qed

lemma load_run:
  assumes "loadWorkerEnvironment pf fs file ovs = Inr es"
  obtains parsed seen vals where
    "(if file \<noteq> [] then readWorkerEnvironmentFile pf fs file else Inr []) = Inr parsed"
    "fold_err (apply_override pf) (sort_overrides pf ovs) ([], file_values pf parsed) = Inr (seen, vals)"
    "es = sortWorkerEnvironment pf (map snd vals)" "validateWorkerEnvironment es = None"
  using assms unfolding loadWorkerEnvironment_def
  by (elim bind_err_InrE) (auto simp: Let_def)

lemma load_values:
  assumes parsed: "distinct (env_keys pf parsed)"
    and run: "fold_err (apply_override pf) (sort_overrides pf ovs) ([], file_values pf parsed) = Inr (seen, vals)"
  shows "keyed pf vals" "map_of vals k = overridden pf ovs (env_lookup pf parsed k) k"
proof -
  have keyed0: "keyed pf (file_values pf parsed)"
    unfolding file_values_def by (rule file_values_facts) (simp add: keyed_def)
  have "override_inv pf (file_values pf parsed) [] ([], file_values pf parsed)"
    by (simp add: override_inv_def keyed0 overridden_def override_for_def)
  from fold_err_inv_prefix [where P = "override_inv pf (file_values pf parsed)", OF run this]
  have inv: "override_inv pf (file_values pf parsed) (sort_overrides pf ovs) (seen, vals)"
    using override_step by blast
  then show "keyed pf vals" by (simp add: override_inv_def)
  have "override_for pf (sort_overrides pf ovs) k = override_for pf ovs k"
    by (rule override_for_perm) (use inv in \<open>simp_all add: override_inv_def sort_overrides_def\<close>)
  moreover have "map_of (file_values pf parsed) k = env_lookup pf parsed k"
    using file_values_lookup [OF parsed, of "[]" k] by (simp add: file_values_def split: option.split)
  ultimately show "map_of vals k = overridden pf ovs (env_lookup pf parsed k) k"
    using inv by (simp add: override_inv_def overridden_def split: option.split)
qed

text \<open>Either source of file entries gives distinct variables.\<close>

lemma read_distinct:
  assumes "(if file \<noteq> [] then readWorkerEnvironmentFile pf fs file else Inr []) = Inr parsed"
  shows "distinct (env_keys pf parsed)"
  using assms parseWorkerEnvironment_safe(2)
  by (auto simp: readWorkerEnvironmentFile_def Let_def split: if_splits sum.splits)


lemma load_safe:
  assumes "loadWorkerEnvironment pf fs file ovs = Inr es"
  shows "validateWorkerEnvironment es = None" "distinct (env_keys pf es)"
proof -
  from load_run [OF assms] obtain parsed seen vals where
    r: "(if file \<noteq> [] then readWorkerEnvironmentFile pf fs file else Inr []) = Inr parsed"
    "fold_err (apply_override pf) (sort_overrides pf ovs) ([], file_values pf parsed) = Inr (seen, vals)"
    "es = sortWorkerEnvironment pf (map snd vals)" "validateWorkerEnvironment es = None" .
  then show "validateWorkerEnvironment es = None" by simp
  from load_values(1) [OF read_distinct [OF r(1)] r(2)] show "distinct (env_keys pf es)"
    by (simp add: r(3) keyed_keys) (simp add: keyed_def gomap_ok_def)
qed

section \<open>The worker process\<close>

lemma process_entries_None:
  "process_entries pf seen es = None \<longleftrightarrow>
     (\<forall>e \<in> set es. env_name_ok (entry_name e) \<and> validateWorkerEnvironmentValue (entry_value e) = None) \<and>
     distinct (env_keys pf es) \<and> set (env_keys pf es) \<inter> dom (map_of seen) = {}"
proof (induction es arbitrary: seen)
  case (Cons e es)
  show ?case
  proof (cases "map_of seen (normalizeEnvironmentKey pf (entry_name e))")
    case None
    then show ?thesis by (auto simp: Cons.IH name_syntax_iff domIff split: if_splits)
  next
    case (Some previous)
    then show ?thesis by auto
  qed
qed simp

definition transport_entries :: "string \<Rightarrow> string \<Rightarrow> string \<Rightarrow> string \<Rightarrow> workerEnvironmentEntry list" where
  "transport_entries tempDirectory network address tokenPath =
     [env_entry ''TMPDIR'' tempDirectory, env_entry ''TMP'' tempDirectory, env_entry ''TEMP'' tempDirectory,
      env_entry ''POGO_WORKER_NETWORK'' network, env_entry ''POGO_WORKER_ADDRESS'' address,
      env_entry ''POGO_WORKER_TOKEN_FILE'' tokenPath]"

definition env_string :: "workerEnvironmentEntry \<Rightarrow> string" where
  "env_string e = entry_name e @ ''='' @ entry_value e"

definition string_key :: "platform \<Rightarrow> string \<Rightarrow> string" where
  "string_key pf s = normalizeEnvironmentKey pf (takeWhile (\<lambda>c. c \<noteq> CHR ''='') s)"

lemma string_key_env: "env_name_ok (entry_name e) \<Longrightarrow> string_key pf (env_string e) = normalizeEnvironmentKey pf (entry_name e)"
proof -
  assume "env_name_ok (entry_name e)"
  then have "\<forall>c \<in> set (entry_name e). c \<noteq> CHR ''=''" using key_not_layout(4) by (auto simp: env_name_ok_def)
  from takeWhile_name(1) [OF this, of "''='' @ entry_value e"] show ?thesis by (simp add: string_key_def env_string_def)
qed

lemma filter_key:
  assumes "distinct (env_keys pf es)" and "e \<in> set es"
  shows "filter (\<lambda>x. normalizeEnvironmentKey pf (entry_name x) = normalizeEnvironmentKey pf (entry_name e)) es = [e]"
  using assms
proof (induction es)
  case (Cons x es)
  have none: "filter (\<lambda>y. normalizeEnvironmentKey pf (entry_name y) = k) es = []" if "k \<notin> set (env_keys pf es)" for k
    using that by (auto simp: filter_empty_conv env_keys_def)
  show ?case
  proof (cases "x = e")
    case True
    with Cons.prems none show ?thesis by simp
  next
    case False
    with Cons.prems have e: "e \<in> set es" by simp
    then have "normalizeEnvironmentKey pf (entry_name x) \<noteq> normalizeEnvironmentKey pf (entry_name e)"
      using Cons.prems(1) by (auto simp: env_keys_def image_iff)
    with Cons.IH e Cons.prems(1) show ?thesis by simp
  qed
qed simp

lemma build_entry:
  assumes "buildWorkerEnvironment pf worker plat python coordinator temp network address token = Inr env"
    and "e \<in> set (process_environment pf worker plat python coordinator temp network address token)"
  shows "filter (\<lambda>s. string_key pf s = normalizeEnvironmentKey pf (entry_name e)) env = [env_string e]"
proof -
  let ?es = "process_environment pf worker plat python coordinator temp network address token"
  let ?k = "normalizeEnvironmentKey pf (entry_name e)"
  from assms(1) have v: "validateWorkerProcessEnvironment pf ?es = None"
    and env: "env = map env_string (sortWorkerEnvironment pf ?es)"
    by (simp_all add: buildWorkerEnvironment_def Let_def env_string_def [abs_def])
  from v have ok: "distinct (env_keys pf ?es)" "\<forall>x \<in> set ?es. env_name_ok (entry_name x)"
    by (simp_all add: validateWorkerProcessEnvironment_def process_entries_None)
  have "filter (\<lambda>s. string_key pf s = ?k) env =
      map env_string (filter (\<lambda>x. normalizeEnvironmentKey pf (entry_name x) = ?k) (sortWorkerEnvironment pf ?es))"
    unfolding env filter_map using ok(2)
    by (intro arg_cong [of _ _ "map env_string"] filter_cong) (simp_all add: string_key_env)
  also have "filter (\<lambda>x. normalizeEnvironmentKey pf (entry_name x) = ?k) (sortWorkerEnvironment pf ?es) = [e]"
    by (rule filter_key) (simp_all add: ok assms(2))
  finally show ?thesis by simp
qed

text \<open>A name the user may set is none of the names the manager adds.\<close>

definition manager_names :: "string list" where
  "manager_names = [''PYTHONDONTWRITEBYTECODE'', ''PYTHONUNBUFFERED'', ''PYTHONUTF8'', ''TMPDIR'', ''TMP'', ''TEMP'',
     ''POGO_WORKER_NETWORK'', ''POGO_WORKER_ADDRESS'', ''POGO_WORKER_TOKEN_FILE'']"

lemma manager_names_reserved:
  "n \<in> set manager_names \<Longrightarrow> HasPrefix (ToLower n) ''pogo_worker_'' \<or> ToLower n \<in> set reservedWorkerEnvironmentNames"
  "ToLower ''SystemRoot'' \<in> set reservedWorkerEnvironmentNames"
  by (auto simp: manager_names_def reservedWorkerEnvironmentNames_def ToLower_def ascii_lower_def HasPrefix_def char_of_def bit_0)

lemma normalize_lower: "normalizeEnvironmentKey pf m = normalizeEnvironmentKey pf n \<Longrightarrow> ToLower m = ToLower n"
  by (cases pf) (simp_all add: normalizeEnvironmentKey_def)

lemma user_name_not_added:
  assumes "validateWorkerEnvironmentName m = None" and "n \<in> set manager_names \<or> n = ''SystemRoot''"
  shows "normalizeEnvironmentKey pf m \<noteq> normalizeEnvironmentKey pf n"
proof
  assume "normalizeEnvironmentKey pf m = normalizeEnvironmentKey pf n"
  then have "ToLower m = ToLower n" by (rule normalize_lower)
  moreover have "HasPrefix (ToLower n) ''pogo_worker_'' \<or> ToLower n \<in> set reservedWorkerEnvironmentNames"
    using assms(2) manager_names_reserved by blast
  moreover have "\<not> HasPrefix (ToLower m) ''pogo_worker_''" "ToLower m \<notin> set reservedWorkerEnvironmentNames"
    using assms(1) by (simp_all add: validateWorkerEnvironmentName_def)
  ultimately show False by metis
qed


lemma added_names_distinct:
  "distinct (map (normalizeEnvironmentKey pf) (''PATH'' # manager_names @ [''SystemRoot'']))"
  by (cases pf) (simp_all add: normalizeEnvironmentKey_def manager_names_def ToLower_def ascii_lower_def char_of_def bit_0)

lemma added_names_ok: "n \<in> set (''PATH'' # manager_names @ [''SystemRoot'']) \<Longrightarrow> env_name_ok n"
  by (auto simp: manager_names_def env_name_ok_def isWorkerEnvironmentKeyContinue_def isWorkerEnvironmentKeyStart_def
      less_eq_char_def maxWorkerEnvironmentKeySize_def)

text \<open>The entries that \<open>buildWorkerEnvironment\<close> adds to the user's.\<close>

definition added_entries :: "platform \<Rightarrow> workerEnvironmentEntry list \<Rightarrow> workerEnvironmentEntry list \<Rightarrow> string \<Rightarrow> string \<Rightarrow>
    string \<Rightarrow> string \<Rightarrow> string \<Rightarrow> string \<Rightarrow> workerEnvironmentEntry list" where
  "added_entries pf worker plat python coordinator temp network address token =
     drop (length worker) (process_environment pf worker plat python coordinator temp network address token)"

lemma process_added:
  "process_environment pf worker plat python coordinator temp network address token =
     worker @ added_entries pf worker plat python coordinator temp network address token"
  by (simp add: added_entries_def process_environment_def)

lemma map_name_added:
  assumes "plat = [] \<or> (\<exists>root. plat = [env_entry ''SystemRoot'' root])"
  shows "map entry_name (added_entries pf worker plat python coordinator temp network address token) =
    (if workerEnvironmentValue pf worker ''PATH'' = None then [''PATH''] else []) @ manager_names @
    (if plat = [] then [] else [''SystemRoot''])"
  using assms by (auto simp: added_entries_def process_environment_def manager_names_def)

lemma env_keys_names: "env_keys pf es = map (normalizeEnvironmentKey pf) (map entry_name es)"
  by (simp add: env_keys_def)

lemma process_distinct:
  assumes plat: "plat = [] \<or> (\<exists>root. plat = [env_entry ''SystemRoot'' root])"
    and worker: "validateWorkerEnvironment worker = None" "distinct (env_keys pf worker)"
  shows "distinct (env_keys pf (process_environment pf worker plat python coordinator temp network address token))"
    and "\<forall>e \<in> set (process_environment pf worker plat python coordinator temp network address token). env_name_ok (entry_name e)"
proof -
  let ?added = "added_entries pf worker plat python coordinator temp network address token"
  let ?names = "(if workerEnvironmentValue pf worker ''PATH'' = None then [''PATH''] else []) @ manager_names @
    (if plat = [] then [] else [''SystemRoot''])"
  have names: "map entry_name ?added = ?names" by (rule map_name_added [OF plat])
  have valid: "validateWorkerEnvironmentName (entry_name e) = None" if "e \<in> set worker" for e
    by (rule validateWorkerEnvironment_entries(1) [OF worker(1) that])
  have "distinct (env_keys pf ?added)"
    unfolding env_keys_names names using added_names_distinct [of pf] by auto
  moreover have "normalizeEnvironmentKey pf (entry_name e) \<notin> set (env_keys pf ?added)" if e: "e \<in> set worker" for e
  proof
    assume "normalizeEnvironmentKey pf (entry_name e) \<in> set (env_keys pf ?added)"
    then obtain n where n: "n \<in> set ?names" "normalizeEnvironmentKey pf (entry_name e) = normalizeEnvironmentKey pf n"
      unfolding env_keys_names names by auto
    show False
    proof (cases "n = ''PATH'' \<and> workerEnvironmentValue pf worker ''PATH'' = None")
      case True
      then show False using n(2) e by (auto simp: workerEnvironmentValue_def find_None_iff)
    next
      case False
      with n(1) have "n \<in> set manager_names \<or> n = ''SystemRoot''" by (auto split: if_splits)
      from user_name_not_added [OF valid [OF e] this] n(2) show False by simp
    qed
  qed
  ultimately show "distinct (env_keys pf (process_environment pf worker plat python coordinator temp network address token))"
    using worker(2) by (auto simp: process_added env_keys_def)
  have "env_name_ok (entry_name e)" if "e \<in> set ?added" for e
  proof -
    have "entry_name e \<in> set ?names" using that names by (metis image_eqI set_map)
    then show ?thesis by (intro added_names_ok) (auto split: if_splits)
  qed
  then show "\<forall>e \<in> set (process_environment pf worker plat python coordinator temp network address token). env_name_ok (entry_name e)"
    using valid name_valid_syntax by (auto simp: process_added)
qed

lemma build_iff:
  assumes plat: "plat = [] \<or> (\<exists>root. plat = [env_entry ''SystemRoot'' root])"
    and worker: "validateWorkerEnvironment worker = None" "distinct (env_keys pf worker)"
  shows "validateWorkerProcessEnvironment pf (process_environment pf worker plat python coordinator temp network address token) = None
    \<longleftrightarrow> (\<forall>e \<in> set (added_entries pf worker plat python coordinator temp network address token).
          validateWorkerEnvironmentValue (entry_value e) = None) \<and>
        check_count (process_environment pf worker plat python coordinator temp network address token) = None \<and>
        check_totals (process_environment pf worker plat python coordinator temp network address token) = None"
proof -
  have "validateWorkerEnvironmentValue (entry_value e) = None" if "e \<in> set worker" for e
    by (rule validateWorkerEnvironment_entries(2) [OF worker(1) that])
  with process_distinct [OF assms, of python coordinator temp network address token] show ?thesis
    by (auto simp: validateWorkerProcessEnvironment_def process_entries_None) (auto simp: process_added)
qed

section \<open>What the parser accepts is a printed file\<close>

lemma Valid_split: "Valid (xs @ ys) \<Longrightarrow> ys = [] \<or> RuneStart (hd ys) \<Longrightarrow> Valid xs \<and> Valid ys"
  using Valid_cut [of "xs @ ys" "length xs"] by (cases ys) (auto simp: nth_append)

lemma Valid_Cons_tl: "Valid (c # cs) \<Longrightarrow> byte c < 0x80 \<Longrightarrow> Valid cs"
  by (simp add: Valid.simps(2) DecodeRune_def split: if_splits)

lemma consumed_line_end:
  assumes "consumeLineEnd path p = Inr p'"
  obtains t where "remaining p = line_end t @ remaining p'" and "at_end t (remaining p')"
proof (cases "remaining p")
  case Nil
  then show thesis using assms that [of TermNone] by (simp add: consumeLineEnd_def at_end_def)
next
  case (Cons c cs)
  then have "remaining p = line_end TermLF @ remaining p' \<or> remaining p = line_end TermCRLF @ remaining p'"
    using assms by (cases cs) (auto simp: consumeLineEnd_def split: if_splits)
  then show thesis using that [of TermLF] that [of TermCRLF] by (auto simp: at_end_def)
qed

text \<open>A comment, if there is one, then the end of the line.\<close>

definition ends_line :: "string \<Rightarrow> string option \<Rightarrow> term_style \<Rightarrow> string \<Rightarrow> bool" where
  "ends_line s r t rest \<longleftrightarrow> s = print_remark r @ line_end t @ rest \<and> at_end t rest \<and>
     (\<forall>c. r = Some c \<longrightarrow> (\<forall>x \<in> set c. \<not> isLineEndByte x))"

lemma comment_consumed:
  assumes "consumeLineEnd path (if remaining p \<noteq> [] \<and> hd (remaining p) = CHR ''#'' then skipComment p else p) = Inr p'"
  obtains r t where "ends_line (remaining p) r t (remaining p')"
    and "r \<noteq> None \<longleftrightarrow> remaining p \<noteq> [] \<and> hd (remaining p) = CHR ''#''"
proof (cases "remaining p \<noteq> [] \<and> hd (remaining p) = CHR ''#''")
  case True
  then obtain s where s: "remaining p = CHR ''#'' # s" by (cases "remaining p") auto
  let ?c = "takeWhile (\<lambda>c. \<not> isLineEndByte c) s"
  from assms True have "consumeLineEnd path (skipComment p) = Inr p'" by simp
  from consumed_line_end [OF this] obtain t where t: "dropWhile (\<lambda>c. \<not> isLineEndByte c) s = line_end t @ remaining p'"
    "at_end t (remaining p')" by (auto simp: skipComment_def s)
  have "s = ?c @ line_end t @ remaining p'" by (simp flip: t(1))
  moreover have "\<forall>x \<in> set ?c. \<not> isLineEndByte x" by (auto dest: set_takeWhileD)
  ultimately have "ends_line (remaining p) (Some ?c) t (remaining p')" using t(2) s by (simp add: ends_line_def print_remark_def)
  then show thesis using that True by blast
next
  case False
  then have "consumeLineEnd path p = Inr p'" using assms by (simp only: if_False)
  from consumed_line_end [OF this] obtain t where "ends_line (remaining p) None t (remaining p')"
    by (auto simp: ends_line_def print_remark_def)
  then show thesis using that False by blast
qed

lemma skip_spaces: "\<exists>sp. spaces sp \<and> remaining p = sp @ remaining (skipHorizontalSpace p) \<and>
    (remaining (skipHorizontalSpace p) = [] \<or> \<not> isHorizontalSpace (hd (remaining (skipHorizontalSpace p))))"
proof (intro exI [of _ "takeWhile isHorizontalSpace (remaining p)"] conjI)
  show "spaces (takeWhile isHorizontalSpace (remaining p))" by (auto dest: set_takeWhileD)
  show "remaining p = takeWhile isHorizontalSpace (remaining p) @ remaining (skipHorizontalSpace p)"
    by (simp add: skipHorizontalSpace_def)
  show "remaining (skipHorizontalSpace p) = [] \<or> \<not> isHorizontalSpace (hd (remaining (skipHorizontalSpace p)))"
  proof (cases "dropWhile isHorizontalSpace (remaining p) = []")
    case False
    from hd_dropWhile [OF this] show ?thesis by (simp add: skipHorizontalSpace_def)
  qed (simp add: skipHorizontalSpace_def)
qed

lemma scan_quoted_layout:
  assumes "quote = SQUOTE \<or> quote = DQUOTE"
  shows "scan_quoted path n quote val p = Inr (v, p') \<Longrightarrow>
    \<exists>ps sp r t rest. remaining p = pieces_text ps @ quote # sp @ rest \<and> ends_line rest r t (remaining p') \<and>
      v = val @ map piece_value ps \<and> (\<forall>p \<in> set ps. piece_ok quote p) \<and> spaces sp"
  using assms
proof (induction path n quote val p rule: scan_quoted.induct)
  case (1 path n quote val p)
  show ?case
  proof (cases "remaining p")
    case Nil
    then show ?thesis using "1.prems" by (simp add: scan_quoted.simps [of path n quote val p])
  next
    case (Cons c cs)
    have more: ?thesis if "piece_ok quote q" "remaining p = piece_text q @ remaining p1"
      "\<exists>ps sp r t rest. remaining p1 = pieces_text ps @ quote # sp @ rest \<and> ends_line rest r t (remaining p') \<and>
        v = (val @ [piece_value q]) @ map piece_value ps \<and> (\<forall>p \<in> set ps. piece_ok quote p) \<and> spaces sp" for q p1
    proof -
      from that(3) obtain ps sp r t rest where "remaining p1 = pieces_text ps @ quote # sp @ rest" "ends_line rest r t (remaining p')"
        "v = (val @ [piece_value q]) @ map piece_value ps" "\<forall>p \<in> set ps. piece_ok quote p" "spaces sp" by blast
      with that(1,2) show ?thesis
        by (intro exI [of _ "q # ps"] exI [of _ sp] exI [of _ r] exI [of _ t] exI [of _ rest]) (simp add: pieces_text_def)
    qed
    consider (quote) "c = quote" | (eol) "c \<noteq> quote" "c = CR \<or> c = LF"
      | (esc) "c \<noteq> quote" "\<not> (c = CR \<or> c = LF)" "quote = DQUOTE \<and> c = BACKSLASH"
      | (plain) "c \<noteq> quote" "\<not> (c = CR \<or> c = LF)" "\<not> (quote = DQUOTE \<and> c = BACKSLASH)" by blast
    then show ?thesis
    proof cases
      case quote
      let ?q = "skipHorizontalSpace (p\<lparr>remaining := cs\<rparr>)"
      have "consumeLineEnd path (if remaining ?q \<noteq> [] \<and> hd (remaining ?q) = CHR ''#'' then skipComment ?q else ?q) = Inr p'" "v = val"
        using "1.prems"(1) quote
        by (auto simp: scan_quoted.simps [of path n quote val p] Cons Let_def split: if_splits sum.splits)
      moreover from comment_consumed [OF this(1)] obtain r t where "ends_line (remaining ?q) r t (remaining p')" by blast
      moreover obtain sp where "spaces sp" "cs = sp @ remaining ?q" using skip_spaces [of "p\<lparr>remaining := cs\<rparr>"] by auto
      ultimately show ?thesis using Cons quote
        by (intro exI [of _ "[]"] exI [of _ sp] exI [of _ r] exI [of _ t] exI [of _ "remaining ?q"]) (simp add: pieces_text_def)
    next
      case eol
      with "1.prems"(1) obtain q where q: "consumeLineEnd path p = Inr q" "scan_quoted path n quote (val @ [LF]) q = Inr (v, p')"
        by (auto simp: scan_quoted.simps [of path n quote val p] Cons split: sum.splits)
      obtain carriage where "remaining p = piece_text (Break carriage) @ remaining q"
        using q(1) Cons eol(2) that [of True] that [of False]
        by (cases "c = CR"; cases cs) (auto simp: consumeLineEnd_def split: if_splits)
      from more [OF _ this] "1.IH"(1) [OF Cons eol q "1.prems"(2)] show ?thesis by simp
    next
      case esc
      with "1.prems"(1) obtain d ds b where d: "cs = d # ds" "escaped_byte d = Some b"
        "scan_quoted path n quote (val @ [b]) (p\<lparr>remaining := ds\<rparr>) = Inr (v, p')"
        by (cases cs) (auto simp: scan_quoted.simps [of path n DQUOTE val p] Cons split: option.splits)
      have "piece_ok quote (Escape b)" "remaining p = piece_text (Escape b) @ remaining (p\<lparr>remaining := ds\<rparr>)"
        using d(1,2) esc Cons by (auto simp: escaped_byte_def split: if_splits)
      from more [OF this] "1.IH"(2) [OF Cons esc d "1.prems"(2)] show ?thesis by simp
    next
      case plain
      with "1.prems"(1) have run: "scan_quoted path n quote (val @ [c]) (p\<lparr>remaining := cs\<rparr>) = Inr (v, p')"
        by (auto simp: scan_quoted.simps [of path n quote val p] Cons)
      have "piece_ok quote (Plain c)" "remaining p = piece_text (Plain c) @ remaining (p\<lparr>remaining := cs\<rparr>)"
        using plain Cons by (auto simp: isLineEndByte_def)
      from more [OF this] "1.IH"(3) [OF Cons plain run "1.prems"(2)] show ?thesis by simp
    qed
  qed
qed

lemma scan_unquoted_layout:
  "scan_unquoted spaced s = (v, comment, rest) \<Longrightarrow> s = v @ rest \<and> hash_free spaced v \<and>
    (if comment then rest \<noteq> [] \<and> hd rest = CHR ''#'' \<and> (if v = [] then spaced else isHorizontalSpace (last v))
     else rest = [] \<or> isLineEndByte (hd rest))"
proof (induction s arbitrary: spaced v comment rest)
  case Nil
  then show ?case by (simp add: hash_free_def)
next
  case (Cons c s)
  show ?case
  proof (cases "isLineEndByte c \<or> c = CHR ''#'' \<and> spaced")
    case True
    then show ?thesis using Cons.prems by (auto simp: hash_free_def split: if_splits)
  next
    case False
    obtain w k r where w: "scan_unquoted (isHorizontalSpace c) s = (w, k, r)" by (cases "scan_unquoted (isHorizontalSpace c) s")
    then have "v = c # w" "comment = k" "rest = r" using Cons.prems False by auto
    with Cons.IH [OF w] False show ?thesis by (auto simp: hash_free_Cons)
  qed
qed

lemma hash_free_prefix: "hash_free spaced (v @ w) \<Longrightarrow> hash_free spaced v"
  by (induction v arbitrary: spaced) (simp add: hash_free_def, simp add: hash_free_Cons)

lemma trim_split:
  assumes "v = [] \<or> \<not> isHorizontalSpace (hd v)"
  obtains sp where "spaces sp" and "v = TrimBytes isHorizontalSpace v @ sp"
    and "TrimBytes isHorizontalSpace v = [] \<or> \<not> isHorizontalSpace (last (TrimBytes isHorizontalSpace v))"
proof -
  let ?w = "rev (dropWhile isHorizontalSpace (rev v))" and ?sp = "rev (takeWhile isHorizontalSpace (rev v))"
  have trim: "TrimBytes isHorizontalSpace v = ?w"
    using dropWhile_solid [of v isHorizontalSpace, OF assms] by (simp add: TrimBytes_def TrimLeft_def TrimRight_def)
  have "v = ?w @ ?sp" by (metis rev_append rev_rev_ident takeWhile_dropWhile_id)
  moreover have "spaces ?sp" by (auto dest: set_takeWhileD)
  moreover have "?w = [] \<or> \<not> isHorizontalSpace (last ?w)" by (metis hd_dropWhile last_rev rev_is_Nil_conv)
  ultimately show thesis using that [of ?sp] unfolding trim by blast
qed

text \<open>The layout of a value: its body and what follows it on the line.\<close>

lemma unquoted_layout:
  assumes run: "parseValue path n lead p = Inr (v, p')" and start: "remaining p \<noteq> []" "\<not> isLineEndByte (hd (remaining p))"
    "\<not> isHorizontalSpace (hd (remaining p))" and plain: "hd (remaining p) \<noteq> SQUOTE" "hd (remaining p) \<noteq> DQUOTE"
  obtains sp r t rest where "remaining p = v @ sp @ rest" and "ends_line rest r t (remaining p')" and "spaces sp"
    and "if v = [] then sp = [] \<and> r \<noteq> None \<and> lead else unquoted_ok lead v \<and> (r \<noteq> None \<longrightarrow> sp \<noteq> [])"
proof -
  obtain w comment rest where scan: "scan_unquoted lead (remaining p) = (w, comment, rest)" by (metis prod_cases3)
  note w = scan_unquoted_layout [OF scan]
  have eol: "consumeLineEnd path (if comment then skipComment (p\<lparr>remaining := rest\<rparr>) else p\<lparr>remaining := rest\<rparr>) = Inr p'"
    and v: "v = TrimBytes isHorizontalSpace w"
    using run start(1,2) plain scan by (auto simp: parseValue_def atLineEnd_hd Let_def bind_err_Inr split: if_splits)
  have comment: "comment \<longleftrightarrow> rest \<noteq> [] \<and> hd rest = CHR ''#''" using w by (auto split: if_splits)
  have "consumeLineEnd path (if remaining (p\<lparr>remaining := rest\<rparr>) \<noteq> [] \<and> hd (remaining (p\<lparr>remaining := rest\<rparr>)) = CHR ''#''
      then skipComment (p\<lparr>remaining := rest\<rparr>) else p\<lparr>remaining := rest\<rparr>) = Inr p'" using eol comment by simp
  from comment_consumed [OF this] obtain r t where rest: "ends_line rest r t (remaining p')" "r \<noteq> None \<longleftrightarrow> comment"
    using comment by auto
  have "w = [] \<or> \<not> isHorizontalSpace (hd w)" using w start(1,3) by (cases w) auto
  from trim_split [OF this] obtain sp where sp: "spaces sp" "w = v @ sp" "v = [] \<or> \<not> isHorizontalSpace (last v)"
    unfolding v by blast
  have "if v = [] then sp = [] \<and> r \<noteq> None \<and> lead else unquoted_ok lead v \<and> (r \<noteq> None \<longrightarrow> sp \<noteq> [])"
  proof (cases "v = []")
    case True
    then have "sp = []" using sp(1,2) w start(1,3) by (cases sp) auto
    then have "w = []" using sp(2) True by simp
    then have "comment" using w start(1,2) by (auto split: if_splits)
    then show ?thesis using True \<open>sp = []\<close> \<open>w = []\<close> w rest(2) by simp
  next
    case False
    have "hash_free lead v" using w sp(2) hash_free_prefix by blast
    moreover have "hd v = hd (remaining p)" using w sp(2) False by simp
    moreover have "comment \<Longrightarrow> sp \<noteq> []" using w sp(2,3) False by auto
    ultimately show ?thesis using False start(3) plain sp(3) rest(2) by (auto simp: unquoted_ok_def hash_free_def)
  qed
  then show thesis using that [of sp rest r t] w sp rest(1) by simp
qed

lemma parseValue_layout:
  assumes run: "parseValue path n (remaining p \<noteq> [] \<and> isHorizontalSpace (hd (remaining p))) (skipHorizontalSpace p) = Inr (v, p')"
  obtains after body sp rest r t where "remaining p = after @ print_text body @ sp @ rest" and "ends_line rest r t (remaining p')"
    and "spaces after" and "spaces sp" and "text_value body = v"
    and "\<forall>l. after_eq l = after \<and> trailing l = sp \<and> remark l = r \<longrightarrow> text_ok l body"
proof -
  let ?q = "skipHorizontalSpace p"
  obtain after where after: "spaces after" "remaining p = after @ remaining ?q"
    "remaining ?q = [] \<or> \<not> isHorizontalSpace (hd (remaining ?q))" using skip_spaces [of p] by blast
  have lead: "(remaining p \<noteq> [] \<and> isHorizontalSpace (hd (remaining p))) \<longleftrightarrow> after \<noteq> []"
    using after skip_value(2) by metis
  show thesis
  proof (cases "atLineEnd ?q")
    case True
    then have "consumeLineEnd path ?q = Inr p'" "v = []" using run by (auto simp: parseValue_def bind_err_Inr)
    moreover from consumed_line_end [OF this(1)] obtain t where "ends_line (remaining ?q) None t (remaining p')"
      by (auto simp: ends_line_def print_remark_def)
    ultimately show thesis using that [of after Missing "[]" "remaining ?q" None t] after by simp
  next
    case False
    then have start: "remaining ?q \<noteq> []" "\<not> isLineEndByte (hd (remaining ?q))" "\<not> isHorizontalSpace (hd (remaining ?q))"
      using after(3) by (auto simp: atLineEnd_hd)
    show thesis
    proof (cases "hd (remaining ?q) = SQUOTE \<or> hd (remaining ?q) = DQUOTE")
      case True
      let ?quote = "hd (remaining ?q)"
      have "scan_quoted path n ?quote [] (?q\<lparr>remaining := tl (remaining ?q)\<rparr>) = Inr (v, p')"
        using run False True by (auto simp: parseValue_def Let_def)
      from scan_quoted_layout [OF True this] obtain ps sp r t rest where
        ps: "tl (remaining ?q) = pieces_text ps @ ?quote # sp @ rest" "ends_line rest r t (remaining p')"
          "v = map piece_value ps" "\<forall>p \<in> set ps. piece_ok ?quote p" "spaces sp" by auto
      have "remaining ?q = ?quote # tl (remaining ?q)" using start(1) by simp
      then have "remaining p = after @ print_text (Quoted ?quote ps) @ sp @ rest" using after(2) ps(1) by simp
      then show thesis using that [of after "Quoted ?quote ps" sp rest r t] after(1) ps(2-5) True by simp
    next
      case unquoted: False
      then have plain: "hd (remaining ?q) \<noteq> SQUOTE" "hd (remaining ?q) \<noteq> DQUOTE" by simp_all
      from unquoted_layout [OF run [unfolded lead] start plain] obtain sp r t rest where
        u: "remaining ?q = v @ sp @ rest" "ends_line rest r t (remaining p')" "spaces sp"
          "if v = [] then sp = [] \<and> r \<noteq> None \<and> after \<noteq> [] else unquoted_ok (after \<noteq> []) v \<and> (r \<noteq> None \<longrightarrow> sp \<noteq> [])" .
      show thesis
      proof (cases "v = []")
        case True
        then show thesis using that [of after Missing sp rest r t] after u by simp
      next
        case False
        then show thesis using that [of after "Unquoted v" sp rest r t] after u by simp
      qed
    qed
  qed
qed

lemma parse_assignment_layout:
  assumes run: "parse_assignment path p = Inr (e, p')" and start: "\<not> isHorizontalSpace (hd (remaining p))"
    and rest: "Valid (remaining p)" "NUL \<notin> set (remaining p)"
  obtains l v where "line_ok (Assign l (entry_name e) v)" and "indent l = []" and "e = env_entry (entry_name e) (text_value v)"
    and "remaining p = print_line (Assign l (entry_name e) v) @ remaining p'" and "at_end (ending l) (remaining p')"
proof -
  define p1 where "p1 = (if hasExportPrefix p then skipHorizontalSpace (p\<lparr>remaining := drop (length ''export'') (remaining p)\<rparr>) else p)"
  obtain x where x: "remaining p = print_export x @ remaining p1" "case x of None \<Rightarrow> p1 = p \<and> \<not> hasExportPrefix p | Some s \<Rightarrow> s \<noteq> [] \<and> spaces s"
  proof (cases "hasExportPrefix p")
    case True
    let ?p = "p\<lparr>remaining := drop (length ''export'') (remaining p)\<rparr>"
    have pre: "remaining p = ''export'' @ remaining ?p" "remaining ?p \<noteq> []" "isHorizontalSpace (hd (remaining ?p))"
      using True by (auto simp: hasExportPrefix_def HasPrefix_iff prefix_def split: list.splits)
    obtain sp where sp: "spaces sp" "remaining ?p = sp @ remaining (skipHorizontalSpace ?p)"
      "remaining (skipHorizontalSpace ?p) = [] \<or> \<not> isHorizontalSpace (hd (remaining (skipHorizontalSpace ?p)))"
      using skip_spaces [of ?p] by blast
    have "sp \<noteq> []" using sp pre(2,3) by (cases sp) auto
    moreover have "remaining p = print_export (Some sp) @ remaining p1"
      using pre(1) sp(2) True by (simp add: p1_def print_export_def)
    ultimately show thesis using that [of "Some sp"] sp(1) by simp
  next
    case False
    then show thesis using that [of None] by (simp add: p1_def print_export_def)
  qed
  define name where "name = hd (remaining p1) # takeWhile isWorkerEnvironmentKeyContinue (tl (remaining p1))"
  define p2 where "p2 = skipHorizontalSpace (p1\<lparr>remaining := dropWhile isWorkerEnvironmentKeyContinue (tl (remaining p1))\<rparr>)"
  have r: "remaining p1 \<noteq> []" "remaining p2 \<noteq> []" "hd (remaining p2) = CHR ''=''"
    and val: "\<exists>v. parseValue path (lineno p) (tl (remaining p2) \<noteq> [] \<and> isHorizontalSpace (hd (tl (remaining p2))))
        (skipHorizontalSpace (p2\<lparr>remaining := tl (remaining p2)\<rparr>)) = Inr (v, p') \<and> e = env_entry name v"
    using run unfolding parse_assignment_def Let_def p1_def [symmetric] p2_def [symmetric] name_def [symmetric]
    by (auto simp: bind_err_Inr split: if_splits)
  obtain before where before: "spaces before" "dropWhile isWorkerEnvironmentKeyContinue (tl (remaining p1)) = before @ remaining p2"
    using skip_spaces [of "p1\<lparr>remaining := dropWhile isWorkerEnvironmentKeyContinue (tl (remaining p1))\<rparr>"]
    by (auto simp: p2_def)
  have name: "remaining p1 = name @ before @ remaining p2"
    using r(1) before(2) by (cases "remaining p1") (simp_all add: name_def, metis takeWhile_dropWhile_id)
  obtain v where v: "parseValue path (lineno p) (tl (remaining p2) \<noteq> [] \<and> isHorizontalSpace (hd (tl (remaining p2))))
        (skipHorizontalSpace (p2\<lparr>remaining := tl (remaining p2)\<rparr>)) = Inr (v, p')" "e = env_entry name v" using val by blast
  have v': "parseValue path (lineno p) (remaining (p2\<lparr>remaining := tl (remaining p2)\<rparr>) \<noteq> [] \<and>
      isHorizontalSpace (hd (remaining (p2\<lparr>remaining := tl (remaining p2)\<rparr>))))
      (skipHorizontalSpace (p2\<lparr>remaining := tl (remaining p2)\<rparr>)) = Inr (v, p')" using v(1) by simp
  from parseValue_layout [OF v'] obtain after body sp tail r' t where
    body: "remaining (p2\<lparr>remaining := tl (remaining p2)\<rparr>) = after @ print_text body @ sp @ tail" "ends_line tail r' t (remaining p')"
      "spaces after" "spaces sp" "text_value body = v"
      "\<forall>l. after_eq l = after \<and> trailing l = sp \<and> remark l = r' \<longrightarrow> text_ok l body" .
  define l where "l = \<lparr>indent = [], exported = x, before_eq = before, after_eq = after, trailing = sp, remark = r', ending = t\<rparr>"
  have p2: "remaining p2 = CHR ''='' # tl (remaining p2)" using r(2,3) by (cases "remaining p2") auto
  have tail: "tail = print_remark r' @ line_end t @ remaining p'" "at_end t (remaining p')"
    using body(2) by (simp_all add: ends_line_def)
  have eq: "remaining p = print_line (Assign l name body) @ remaining p'"
    using x(1) name p2 body(1) tail(1) by (simp add: l_def)
  have "remark_ok r'"
  proof (cases r')
    case (Some c)
    have c: "\<forall>x \<in> set c. \<not> isLineEndByte x" using body(2) Some by (simp add: ends_line_def)
    define pre where "pre = print_export x @ name @ before @ ''='' @ after @ print_text body @ sp"
    have p: "remaining p = pre @ CHR ''#'' # c @ line_end t @ remaining p'"
      using eq Some by (simp add: l_def print_remark_def pre_def)
    then have "NUL \<notin> set c" using rest(2) by simp
    have "Valid (CHR ''#'' # c @ line_end t @ remaining p')"
      using Valid_split [of pre "CHR ''#'' # c @ line_end t @ remaining p'"] rest(1) p by (simp add: RuneStart_def)
    then have "Valid (c @ line_end t @ remaining p')" using Valid_Cons_tl by fastforce
    moreover have "line_end t @ remaining p' = [] \<or> RuneStart (hd (line_end t @ remaining p'))"
      using tail(2) by (cases t) (auto simp: at_end_def RuneStart_def)
    ultimately have "Valid c" using Valid_split by blast
    then show ?thesis using Some c \<open>NUL \<notin> set c\<close> by (simp add: comment_text_def)
  qed simp
  moreover have "text_ok l body" using body(6) by (simp add: l_def)
  moreover have "before = []" if "x = None" "name = ''export''"
  proof (rule ccontr)
    assume "before \<noteq> []"
    then have "hasExportPrefix p" using that x(2) name before(1)
      by (cases before) (simp_all add: hasExportPrefix_def HasPrefix_def)
    then show False using that(1) x(2) by simp
  qed
  ultimately have "line_ok (Assign l name body)"
    using x(2) before(1) body(3,4) by (auto simp: l_def split: option.splits)
  moreover have "entry_name e = name" "e = env_entry name (text_value body)" using v(2) body(5) by simp_all
  ultimately show thesis using that [of l body] eq tail(2) by (simp add: l_def)
qed

lemma line_boundary:
  assumes "line_ok ln" and "at_end (line_term ln) cs" and "Valid (print_line ln @ cs)"
  shows "Valid cs"
proof (cases "line_term ln = TermNone")
  case True
  then show ?thesis using assms(2) by (simp add: at_end_def)
next
  case False
  then obtain xs where "print_line ln = xs @ [LF]"
    by (cases ln; cases "line_term ln") (auto simp flip: append_assoc)
  then have "Valid (xs @ LF # cs)" using assms(3) by simp
  then have "Valid (LF # cs)" using Valid_split [of xs "LF # cs"] by (simp add: RuneStart_def)
  then show ?thesis using Valid_Cons_tl by fastforce
qed

lemma Valid_bom_rest: "Valid ((if bom then byte_order_mark else []) @ cs) \<Longrightarrow> Valid cs"
  by (auto simp: byte_order_mark_def Valid.simps(2) DecodeRune_def cont_in_def accept_lo_def accept_hi_def RuneError_def split: if_splits)

lemma parse_line_layout:
  assumes run: "parse_line pf path st p = Inr (st', p')" and p: "remaining p \<noteq> []" "Valid (remaining p)" "NUL \<notin> set (remaining p)"
  obtains ln where "line_ok ln" and "remaining p = print_line ln @ remaining p'" and "at_end (line_term ln) (remaining p')"
    and "fold_err (add_entry pf path (lineno p)) (line_entries ln) st = Inr st'"
proof -
  let ?q = "skipHorizontalSpace p"
  obtain sp where sp: "spaces sp" "remaining p = sp @ remaining ?q"
    "remaining ?q = [] \<or> \<not> isHorizontalSpace (hd (remaining ?q))" using skip_spaces [of p] by blast
  have q: "Valid (remaining ?q)" "NUL \<notin> set (remaining ?q)"
  proof -
    show "NUL \<notin> set (remaining ?q)" using p(3) sp(2) by (metis UnCI set_append)
    have "\<forall>c \<in> set sp. byte c < 0x80" using sp(1) spaces_ascii by blast
    then have "Valid (sp @ cs) \<Longrightarrow> Valid cs" for cs by (induction sp) (auto dest: Valid_Cons_tl)
    then show "Valid (remaining ?q)" using p(2) sp(2) by metis
  qed
  show thesis
  proof (cases "atLineEnd ?q")
    case True
    then have "consumeLineEnd path ?q = Inr p'" "st' = st" using run by (auto simp: parse_line_def Let_def bind_err_Inr)
    from consumed_line_end [OF this(1)] obtain t where "remaining ?q = line_end t @ remaining p'" "at_end t (remaining p')" .
    then show thesis using that [of "Blank sp t"] sp(1,2) p(1) \<open>st' = st\<close> by (cases t) (auto simp: at_end_def)
  next
    case False
    show thesis
    proof (cases "hd (remaining ?q) = CHR ''#''")
      case True
      then have eol: "consumeLineEnd path (skipComment ?q) = Inr p'" "st' = st"
        using run False by (auto simp: parse_line_def Let_def bind_err_Inr)
      have hash: "remaining ?q \<noteq> [] \<and> hd (remaining ?q) = CHR ''#''" using True False by (auto simp: atLineEnd_hd)
      from comment_consumed [of path ?q p'] hash eol(1) obtain r t where
        r: "ends_line (remaining ?q) r t (remaining p')" "r \<noteq> None" by auto
      then obtain c where c: "r = Some c" by auto
      have eq: "remaining ?q = CHR ''#'' # c @ line_end t @ remaining p'" "at_end t (remaining p')" "\<forall>x \<in> set c. \<not> isLineEndByte x"
        using r(1) c by (simp_all add: ends_line_def print_remark_def)
      have "Valid (c @ line_end t @ remaining p')" using q(1) eq(1) Valid_Cons_tl by fastforce
      moreover have "line_end t @ remaining p' = [] \<or> RuneStart (hd (line_end t @ remaining p'))"
        using eq(2) by (cases t) (auto simp: at_end_def RuneStart_def)
      ultimately have "Valid c" using Valid_split by blast
      then have "line_ok (Comment sp c t)" using sp(1) eq q(2) by (simp add: comment_text_def)
      then show thesis using that [of "Comment sp c t"] sp(2) eq(1,2) eol(2) by simp
    next
      case no_comment: False
      then obtain e p2 where e: "parse_assignment path ?q = Inr (e, p2)" "add_entry pf path (lineno ?q) e st = Inr st'" "p' = p2"
        using run False by (auto simp: parse_line_def Let_def bind_err_Inr)
      have "\<not> isHorizontalSpace (hd (remaining ?q))" using sp(3) False by (auto simp: atLineEnd_hd)
      from parse_assignment_layout [OF e(1) this q] obtain l v where
        l: "line_ok (Assign l (entry_name e) v)" "indent l = []" "e = env_entry (entry_name e) (text_value v)"
          "remaining ?q = print_line (Assign l (entry_name e) v) @ remaining p2" "at_end (ending l) (remaining p2)" by blast
      let ?ln = "Assign (l\<lparr>indent := sp\<rparr>) (entry_name e) v"
      have "text_ok (l\<lparr>indent := sp\<rparr>) v = text_ok l v" by (cases v) simp_all
      then have "line_ok ?ln" using l(1) sp(1) by (auto split: option.splits)
      moreover have "remaining p = print_line ?ln @ remaining p'" using sp(2) l(2,4) e(3) by simp
      moreover have "line_entries ?ln = [e]" using l(3) by simp
      moreover have "lineno ?q = lineno p" by (simp add: skipHorizontalSpace_def)
      ultimately show thesis using that [of ?ln] l(5) e(2,3) by simp
    qed
  qed
qed

lemma fold_add_entries: "fold_err (add_entry pf path n) fs (seen, es) = Inr st' \<Longrightarrow> snd st' = es @ fs"
  by (induction fs arbitrary: seen es) (auto simp: add_entry_Inr bind_err_Inr split: sum.splits)

lemma parse_lines_layout:
  "parse_lines pf path st p = Inr st' \<Longrightarrow> Valid (remaining p) \<Longrightarrow> NUL \<notin> set (remaining p) \<Longrightarrow>
   \<exists>lines. file_ok lines \<and> remaining p = concat (map print_line lines) \<and> snd st' = snd st @ file_entries lines"
proof (induction pf path st p rule: parse_lines.induct)
  case (1 pf path st p)
  show ?case
  proof (cases "remaining p = []")
    case True
    then show ?thesis using "1.prems"(1) by (intro exI [of _ "[]"]) (simp add: parse_lines.simps [of pf path st p] file_ok_def)
  next
    case False
    then obtain st1 p1 where step: "parse_line pf path st p = Inr (st1, p1)" and more: "parse_lines pf path st1 p1 = Inr st'"
      using "1.prems"(1) by (auto simp: parse_lines.simps [of pf path st p] split: sum.splits)
    from parse_line_layout [OF step False "1.prems"(2,3)] obtain ln where
      ln: "line_ok ln" "remaining p = print_line ln @ remaining p1" "at_end (line_term ln) (remaining p1)"
        "fold_err (add_entry pf path (lineno p)) (line_entries ln) st = Inr st1" by blast
    have snd1: "snd st1 = snd st @ line_entries ln" using fold_add_entries ln(4) by (cases st) auto
    have valid1: "Valid (remaining p1)" "NUL \<notin> set (remaining p1)"
      using "1.prems"(2,3) ln(2) line_boundary [OF ln(1,3)] by auto
    from "1.IH" [OF False step refl more valid1] obtain lines where
      lines: "file_ok lines" "remaining p1 = concat (map print_line lines)" "snd st' = snd st1 @ file_entries lines" by blast
    have "file_ok (ln # lines)"
    proof (cases lines)
      case (Cons ln' more)
      then have "remaining p1 \<noteq> []" using lines(1,2) print_line_not_Nil by (auto simp: file_ok_def)
      then show ?thesis using ln(1,3) lines(1) Cons by (simp add: file_ok_def at_end_def)
    qed (simp add: file_ok_def ln(1))
    then show ?thesis using ln(2) lines(2,3) snd1 by (intro exI [of _ "ln # lines"]) simp
  qed
qed

lemma parse_accepts:
  assumes "parseWorkerEnvironment pf path payload = Inr es"
  shows "\<exists>bom lines. file_ok lines \<and> payload = print_file bom lines \<and> file_entries lines = es"
proof -
  let ?rest = "TrimPrefix payload byte_order_mark"
  from assms obtain seen where run: "parse_lines pf path ([], []) \<lparr>remaining = ?rest, lineno = 1\<rparr> = Inr (seen, es)"
    and payload: "Valid payload" "NUL \<notin> set payload"
    by (auto simp: parseWorkerEnvironment_def parse_env_def bind_err_Inr byte_order_mark_def)
  obtain bom where bom: "payload = (if bom then byte_order_mark else []) @ ?rest"
  proof (cases "HasPrefix payload byte_order_mark")
    case True
    then show thesis using that [of True] by (auto simp: TrimPrefix_def HasPrefix_iff prefix_def)
  qed (use that [of False] in \<open>simp add: TrimPrefix_def\<close>)
  have "Valid ?rest" "NUL \<notin> set ?rest"
  proof -
    show "NUL \<notin> set ?rest" using payload(2) bom by (metis UnCI set_append)
    show "Valid ?rest" using payload(1) bom Valid_bom_rest by metis
  qed
  from parse_lines_layout [OF run] this obtain lines where
    "file_ok lines" "?rest = concat (map print_line lines)" "es = file_entries lines" by auto
  then show ?thesis using bom by (intro exI [of _ bom] exI [of _ lines]) (simp add: print_file_def)
qed

lemma parse_printed:
  assumes layout: "file_ok lines" and valid: "validateWorkerEnvironment (file_entries lines) = None"
    and keys: "distinct (env_keys pf (file_entries lines))"
  shows "parseWorkerEnvironment pf path (print_file bom lines) = Inr (file_entries lines)"
proof -
  have ok: "\<forall>ln \<in> set lines. line_ok ln" using layout by (simp add: file_ok_def)
  have entries: "\<forall>e \<in> set (file_entries lines). entry_valid e"
    using validateWorkerEnvironment_entries [OF valid] by (simp add: entry_valid_def)
  have "length (file_entries lines) \<le> maxWorkerEnvironmentCount"
    using valid by (simp add: validateWorkerEnvironment_def check_count_def)
  then obtain seen where "parse_lines pf path ([], []) \<lparr>remaining = concat (map print_line lines), lineno = 1\<rparr>
      = Inr (seen, file_entries lines)"
    using parse_lines_printed [OF layout, of pf "[]" "[]" path 1] entries keys by auto
  then show ?thesis
    using print_file_text [OF ok entries, of bom] TrimPrefix_bom [OF ok entries, of bom]
    by (simp add: parseWorkerEnvironment_def parse_env_def byte_order_mark_def valid)
qed

end
