(* ===== verification/Environment_Properties.thy ===== *)
theory Environment_Properties
  imports Worker_Environment_Load
begin

text \<open>
  The claims about the worker's environment, each with a concrete environment it applies to.
\<close>

section \<open>A file and its entries\<close>

definition sample_layout :: env_layout where
  "sample_layout = \<lparr>indent = '' '', exported = Some '' '', before_eq = [TAB], after_eq = '' '', trailing = '' '',
     remark = Some ''db'', ending = TermCRLF\<rparr>"

definition sample_entry :: workerEnvironmentEntry where
  "sample_entry = env_entry ''KEY'' [CHR ''a'', DQUOTE, LF, BACKSLASH]"

definition sample_key :: env_line where
  "sample_key = Assign sample_layout ''KEY'' (Quoted DQUOTE [Plain (CHR ''a''), Escape DQUOTE, Break True, Escape BACKSLASH])"

text \<open>An unquoted value with a number sign, and a last line with a missing value and no line end.\<close>

definition sample_lines :: "env_line list" where
  "sample_lines = [Comment '' '' ''env'' TermLF, Blank [] TermCRLF, sample_key,
     Assign (sample_layout\<lparr>exported := None\<rparr>) ''URL'' (Unquoted ''h#f''),
     Assign \<lparr>indent = [], exported = None, before_eq = [], after_eq = [], trailing = [], remark = None, ending = TermNone\<rparr>
       ''OFF'' Missing]"

lemma sample_lines_ok: "file_ok sample_lines" "file_ok [sample_key]"
  by (simp_all add: file_ok_def sample_lines_def sample_key_def sample_layout_def comment_text_def isHorizontalSpace_def
      isLineEndByte_def ascii_valid unquoted_ok_def All_less_Suc numeral_2_eq_2)

lemma sample_entries: "file_entries sample_lines = [sample_entry, env_entry ''URL'' ''h#f'', env_entry ''OFF'' []]"
  "line_entries sample_key = [sample_entry]"
  by (simp_all add: sample_lines_def sample_key_def sample_entry_def)

lemma sample_name_valid: "n \<in> {''KEY'', ''URL'', ''OFF''} \<Longrightarrow> validateWorkerEnvironmentName n = None"
proof -
  assume n: "n \<in> {''KEY'', ''URL'', ''OFF''}"
  then have "env_name_ok n"
    by (auto simp: env_name_ok_def isWorkerEnvironmentKeyContinue_def isWorkerEnvironmentKeyStart_def less_eq_char_def
        maxWorkerEnvironmentKeySize_def)
  with n show ?thesis
    by (auto simp: validateWorkerEnvironmentName_def name_syntax_iff ToLower_def ascii_lower_def HasPrefix_def
        reservedWorkerEnvironmentNames_def char_of_def bit_0)
qed

lemmas key_name_valid = sample_name_valid [of "''KEY''", simplified]

lemma ascii_value_valid:
  assumes "\<forall>c \<in> set v. byte c < 0x80" and "NUL \<notin> set v" and "length v \<le> maxWorkerEnvironmentValueSize"
  shows "validateWorkerEnvironmentValue v = None"
  using assms by (simp add: validateWorkerEnvironmentValue_def ascii_valid utf16Units_ascii)

lemma sample_environment_valid: "validateWorkerEnvironment [sample_entry] = None"
  "validateWorkerEnvironment [sample_entry, env_entry ''URL'' ''h#f'', env_entry ''OFF'' []] = None"
proof -
  have "validateWorkerEnvironmentValue v = None" if "v \<in> {entry_value sample_entry, ''h#f'', []}" for v
    by (rule ascii_value_valid) (use that in \<open>auto simp: sample_entry_def maxWorkerEnvironmentValueSize_def\<close>)
  moreover have "utf16Units (entry_name sample_entry) = 3" "utf16Units (entry_value sample_entry) = 4"
    "utf16Units ''URL'' = 3" "utf16Units ''OFF'' = 3" "utf16Units ''h#f'' = 3" "utf16Units [] = 0"
    by (simp_all add: sample_entry_def utf16Units_ascii)
  moreover have "entry_name sample_entry = ''KEY''" "length (entry_value sample_entry) = 4" by (simp_all add: sample_entry_def)
  ultimately show "validateWorkerEnvironment [sample_entry] = None"
    "validateWorkerEnvironment [sample_entry, env_entry ''URL'' ''h#f'', env_entry ''OFF'' []] = None"
    by (simp_all add: validateWorkerEnvironment_def check_count_def check_totals_def bytesTotal_def unitsTotal_def env_limits
        sample_name_valid)
qed

text \<open>C30. The language of environment files. The parser accepts exactly the files that the printer writes, and returns
  exactly the variables that were written, in order. A printed file has any number of blank lines,
  comments and assignments, with either line ending and perhaps none at the end, after a byte order mark
  or not. An assignment has any indentation, perhaps \<open>export\<close>, spaces around the equals sign and behind
  the value, and perhaps a comment. A value is missing, unquoted (a number sign begins a comment only
  behind a space), single-quoted and literal, or double-quoted with the five escapes; a quoted value may
  run over lines, whose breaks it holds as line feeds. The only other condition is that names, values and
  totals are within the limits and that no variable occurs twice.\<close>

theorem environment_file_roundtrip:
  "parseWorkerEnvironment pf path payload = Inr es \<longleftrightarrow>
     (\<exists>bom lines. file_ok lines \<and> payload = print_file bom lines \<and> file_entries lines = es) \<and>
     validateWorkerEnvironment es = None \<and> distinct (env_keys pf es)"
proof
  assume "parseWorkerEnvironment pf path payload = Inr es"
  then show "(\<exists>bom lines. file_ok lines \<and> payload = print_file bom lines \<and> file_entries lines = es) \<and>
     validateWorkerEnvironment es = None \<and> distinct (env_keys pf es)"
    using parse_accepts parseWorkerEnvironment_safe by blast
next
  assume "(\<exists>bom lines. file_ok lines \<and> payload = print_file bom lines \<and> file_entries lines = es) \<and>
     validateWorkerEnvironment es = None \<and> distinct (env_keys pf es)"
  then show "parseWorkerEnvironment pf path payload = Inr es" using parse_printed by auto
qed

theorem environment_file_roundtrip_witness:
  "parseWorkerEnvironment Unix ''/p/.env'' (print_file True sample_lines) =
     Inr [sample_entry, env_entry ''URL'' ''h#f'', env_entry ''OFF'' []]"
  unfolding environment_file_roundtrip
  using sample_lines_ok(1) sample_entries(1) sample_environment_valid(2)
  by (auto simp: sample_entry_def normalizeEnvironmentKey_def)

section \<open>The file and the overrides\<close>

text \<open>The environment the client configures. When loading succeeds, a variable that an override
  names has the override's name and value, or is absent when the override removes it; every other
  variable is the file's. The result is valid, within the limits, sorted, and holds no variable twice
  in the platform's sense of names.\<close>

theorem environment_overrides:
  assumes "loadWorkerEnvironment pf fs file ovs = Inr es"
  shows "\<exists>parsed. (if file \<noteq> [] then readWorkerEnvironmentFile pf fs file else Inr []) = Inr parsed \<and>
    (\<forall>k. env_lookup pf es k = overridden pf ovs (env_lookup pf parsed k) k) \<and>
    validateWorkerEnvironment es = None \<and> distinct (env_keys pf es) \<and>
    sorted (map (\<lambda>e. (normalizeEnvironmentKey pf (entry_name e), entry_name e)) es)"
proof -
  from load_run [OF assms] obtain parsed seen vals where
    r: "(if file \<noteq> [] then readWorkerEnvironmentFile pf fs file else Inr []) = Inr parsed"
    "fold_err (apply_override pf) (sort_overrides pf ovs) ([], file_values pf parsed) = Inr (seen, vals)"
    "es = sortWorkerEnvironment pf (map snd vals)" "validateWorkerEnvironment es = None" .
  note vals = load_values [OF read_distinct [OF r(1)] r(2)]
  have "\<forall>k. env_lookup pf es k = overridden pf ovs (env_lookup pf parsed k) k"
    using env_lookup_sorted [OF vals(1)] vals(2) by (simp add: r(3))
  moreover have "sorted (map (\<lambda>e. (normalizeEnvironmentKey pf (entry_name e), entry_name e)) es)"
    by (simp add: r(3) sortWorkerEnvironment_def)
  ultimately show ?thesis using r(1) load_safe [OF assms] by blast
qed

definition sample_file :: "string \<Rightarrow> environment_file" where
  "sample_file = (\<lambda>_. \<lparr>open_error = None, stat_error = None, is_regular = True, stat_size = 60,
     read_all = Inr (print_file False [sample_key])\<rparr>)"

lemma sample_load: "loadWorkerEnvironment Unix sample_file ''/p/.env'' [(''KEY'', None)] = Inr []"
proof -
  have len: "length (print_file False [sample_key]) \<le> 262144"
    by (simp add: print_file_def sample_key_def sample_layout_def pieces_text_def print_export_def print_remark_def)
  have "readWorkerEnvironmentFile Unix sample_file ''/p/.env'' = Inr [sample_entry]"
    using parse_printed [OF sample_lines_ok(2), of Unix "''/p/.env''" False] len
    by (simp add: readWorkerEnvironmentFile_def sample_file_def Let_def env_limits sample_entries sample_environment_valid)
  then show ?thesis
    by (simp add: loadWorkerEnvironment_def sort_overrides_def apply_override_def key_name_valid file_values_def
        sample_entry_def normalizeEnvironmentKey_def sortWorkerEnvironment_def validateWorkerEnvironment_def
        check_count_def check_totals_def bytesTotal_def unitsTotal_def env_limits)
qed

theorem environment_overrides_witness:
  "\<exists>parsed. readWorkerEnvironmentFile Unix sample_file ''/p/.env'' = Inr parsed \<and>
    (\<forall>k. env_lookup Unix [] k = overridden Unix [(''KEY'', None)] (env_lookup Unix parsed k) k)"
  using environment_overrides [OF sample_load] by auto

section \<open>The worker process\<close>

text \<open>C31. The transport of the worker cannot be taken over. In the environment the process is started
  with, each variable the manager adds for the worker (the temporary directory, the network, its
  address, the token file) occurs exactly once and holds the manager's value, whatever the user's
  file and overrides say.\<close>

theorem worker_transport_protected:
  assumes "buildWorkerEnvironment pf worker plat python coordinator temp network address token = Inr env"
    and "e \<in> set (transport_entries temp network address token)"
  shows "filter (\<lambda>s. string_key pf s = normalizeEnvironmentKey pf (entry_name e)) env = [env_string e]"
  using assms(1) by (rule build_entry) (use assms(2) in \<open>auto simp: transport_entries_def process_environment_def\<close>)

text \<open>Starting the worker fails only for a limit. An environment that loaded holds no name the
  manager adds itself, so building the process environment is refused only when a value the manager
  adds is not valid text or the whole exceeds the count or the size limits; no name clash can occur.\<close>

theorem worker_environment_builds:
  assumes "loadWorkerEnvironment pf fs file ovs = Inr worker"
    and "plat = [] \<or> (\<exists>root. plat = [env_entry ''SystemRoot'' root])"
  shows "(\<exists>env. buildWorkerEnvironment pf worker plat python coordinator temp network address token = Inr env) \<longleftrightarrow>
    (\<forall>e \<in> set (added_entries pf worker plat python coordinator temp network address token).
       validateWorkerEnvironmentValue (entry_value e) = None) \<and>
    check_count (process_environment pf worker plat python coordinator temp network address token) = None \<and>
    check_totals (process_environment pf worker plat python coordinator temp network address token) = None"
  using build_iff [OF assms(2) load_safe [OF assms(1)], of python coordinator temp network address token]
  by (simp add: buildWorkerEnvironment_def Let_def)

lemma empty_load: "loadWorkerEnvironment Unix sample_file [] [] = Inr []"
  by (simp add: loadWorkerEnvironment_def sort_overrides_def file_values_def sortWorkerEnvironment_def
      validateWorkerEnvironment_def check_count_def check_totals_def bytesTotal_def unitsTotal_def env_limits)

theorem worker_environment_builds_witness:
  "(\<exists>env. buildWorkerEnvironment Unix [] [] ''/py'' '''' ''/t'' ''unix'' ''/s'' ''/k'' = Inr env) \<longleftrightarrow>
    (\<forall>e \<in> set (added_entries Unix [] [] ''/py'' '''' ''/t'' ''unix'' ''/s'' ''/k'').
       validateWorkerEnvironmentValue (entry_value e) = None) \<and>
    check_count (process_environment Unix [] [] ''/py'' '''' ''/t'' ''unix'' ''/s'' ''/k'') = None \<and>
    check_totals (process_environment Unix [] [] ''/py'' '''' ''/t'' ''unix'' ''/s'' ''/k'') = None"
  by (rule worker_environment_builds [OF empty_load]) simp

lemma sample_process:
  "process_environment Unix [] [] ''/py'' '''' ''/t'' ''unix'' ''/s'' ''/k'' =
     [env_entry ''PATH'' ''/'', env_entry ''PYTHONDONTWRITEBYTECODE'' ''1'', env_entry ''PYTHONUNBUFFERED'' ''1'',
      env_entry ''PYTHONUTF8'' ''1'', env_entry ''TMPDIR'' ''/t'', env_entry ''TMP'' ''/t'', env_entry ''TEMP'' ''/t'',
      env_entry ''POGO_WORKER_NETWORK'' ''unix'', env_entry ''POGO_WORKER_ADDRESS'' ''/s'',
      env_entry ''POGO_WORKER_TOKEN_FILE'' ''/k'']"
  by (simp add: process_environment_def workerEnvironmentValue_def worker_path_value_def filepath_Dir_def
      up_to_last_slash_def Clean_def render_path_def path_elements_def IsAbs_def HasPrefix_def)

lemma sample_build: "\<exists>env. buildWorkerEnvironment Unix [] [] ''/py'' '''' ''/t'' ''unix'' ''/s'' ''/k'' = Inr env"
proof -
  have "validateWorkerProcessEnvironment Unix (process_environment Unix [] [] ''/py'' '''' ''/t'' ''unix'' ''/s'' ''/k'') = None"
    using build_iff [of "[]" "[]" Unix "''/py''" "''''" "''/t''" "''unix''" "''/s''" "''/k''"] load_safe [OF empty_load]
    by (simp add: added_entries_def sample_process ascii_value_valid check_count_def check_totals_def bytesTotal_def
        unitsTotal_def utf16Units_ascii env_limits)
  then show ?thesis by (simp add: buildWorkerEnvironment_def Let_def)
qed

theorem worker_transport_protected_witness:
  "\<exists>env. filter (\<lambda>s. string_key Unix s = ''POGO_WORKER_TOKEN_FILE'') env = [''POGO_WORKER_TOKEN_FILE=/k'']"
proof -
  obtain env where "buildWorkerEnvironment Unix [] [] ''/py'' '''' ''/t'' ''unix'' ''/s'' ''/k'' = Inr env"
    using sample_build by blast
  from worker_transport_protected [OF this, of "env_entry ''POGO_WORKER_TOKEN_FILE'' ''/k''"]
  show ?thesis by (auto simp: transport_entries_def env_string_def normalizeEnvironmentKey_def)
qed

end
