(* ===== verification/Go_Regexp.thy ===== *)
theory Go_Regexp
  imports Go_Unicode
begin

text \<open>
  Go's \<open>regexp\<close>, as far as the patterns of \<open>internal/analysis\<close> use it: classes, sequences,
  alternatives, greedy and lazy repetition, groups and the anchors. A match is leftmost, and among
  the matches at one place the one a backtracking search tries first, which is Go's rule. The
  patterns only tell ASCII bytes apart, so a class is a set of bytes here: a rune beyond ASCII is a
  sequence of bytes that a class either takes as a whole or stops before.
\<close>

section \<open>Patterns\<close>

datatype regex =
    REps
  | RClass "char \<Rightarrow> bool"
  | RSeq regex regex
  | RAlt regex regex
  | RStar bool regex \<comment> \<open>greedy when the flag is set\<close>
  | RGroup nat regex
  | RBegin
  | RLineBegin
  | REnd
  | RLineEnd
  | RWord

type_synonym submatches = "nat \<Rightarrow> (nat \<times> nat) option"

text \<open>\<open>e*\<close>: the empty iteration ends the loop; \<open>fuel\<close> is what remains of the text.\<close>

fun rx_repeat :: "(nat \<Rightarrow> submatches \<Rightarrow> (nat \<times> submatches) list) \<Rightarrow> bool \<Rightarrow> nat \<Rightarrow> nat \<Rightarrow> submatches \<Rightarrow>
    (nat \<times> submatches) list" where
  "rx_repeat step greedy 0 i caps = [(i, caps)]"
| "rx_repeat step greedy (Suc fuel) i caps =
     (let more = concat (map (\<lambda>(j, caps'). if i < j then rx_repeat step greedy fuel j caps' else []) (step i caps)) in
      if greedy then more @ [(i, caps)] else (i, caps) # more)"

definition is_word :: "char \<Rightarrow> bool" where
  "is_word c \<longleftrightarrow> isIdentifierByte c"

definition word_boundary :: "string \<Rightarrow> nat \<Rightarrow> bool" where
  "word_boundary s i \<longleftrightarrow> (0 < i \<and> is_word (s ! (i - 1))) \<noteq> (i < length s \<and> is_word (s ! i))"

text \<open>The matches from place \<open>i\<close>, in the order a search tries them: where each ends and its groups.\<close>

primrec rx_match :: "regex \<Rightarrow> string \<Rightarrow> nat \<Rightarrow> submatches \<Rightarrow> (nat \<times> submatches) list" where
  "rx_match REps s i caps = [(i, caps)]"
| "rx_match (RClass P) s i caps = (if i < length s \<and> P (s ! i) then [(Suc i, caps)] else [])"
| "rx_match (RSeq r1 r2) s i caps = concat (map (\<lambda>(j, caps'). rx_match r2 s j caps') (rx_match r1 s i caps))"
| "rx_match (RAlt r1 r2) s i caps = rx_match r1 s i caps @ rx_match r2 s i caps"
| "rx_match (RStar greedy r) s i caps = rx_repeat (rx_match r s) greedy (length s - i) i caps"
| "rx_match (RGroup k r) s i caps = map (\<lambda>(j, caps'). (j, caps'(k \<mapsto> (i, j)))) (rx_match r s i caps)"
| "rx_match RBegin s i caps = (if i = 0 then [(i, caps)] else [])"
| "rx_match RLineBegin s i caps = (if i = 0 \<or> s ! (i - 1) = CHR 0x0A then [(i, caps)] else [])"
| "rx_match REnd s i caps = (if i = length s then [(i, caps)] else [])"
| "rx_match RLineEnd s i caps = (if i = length s \<or> s ! i = CHR 0x0A then [(i, caps)] else [])"
| "rx_match RWord s i caps = (if word_boundary s i then [(i, caps)] else [])"

text \<open>The leftmost match from place \<open>i\<close> on: where it ends and its groups.\<close>

definition rx_find :: "regex \<Rightarrow> string \<Rightarrow> nat \<Rightarrow> (nat \<times> submatches) option" where
  "rx_find r s i = (case List.find (\<lambda>j. rx_match r s j Map.empty \<noteq> []) [i..<Suc (length s)] of
     None \<Rightarrow> None | Some j \<Rightarrow> Some (hd (rx_match r s j Map.empty)))"

text \<open>\<open>match[k]\<close>: the empty string when the group took no part in the match.\<close>

definition rx_group :: "string \<Rightarrow> submatches \<Rightarrow> nat \<Rightarrow> string" where
  "rx_group s caps k = (case caps k of None \<Rightarrow> [] | Some (a, b) \<Rightarrow> subslice s a b)"

definition FindStringSubmatch :: "regex \<Rightarrow> string \<Rightarrow> (nat \<Rightarrow> string) option" where
  "FindStringSubmatch r s = map_option (\<lambda>(e, caps). rx_group s caps) (rx_find r s 0)"

definition MatchString :: "regex \<Rightarrow> string \<Rightarrow> bool" where
  "MatchString r s \<longleftrightarrow> rx_find r s 0 \<noteq> None"

text \<open>The matches one after the other; a match ends behind the place where the search for it began.\<close>

function rx_all :: "regex \<Rightarrow> string \<Rightarrow> nat \<Rightarrow> submatches list" where
  "rx_all r s i = (if length s < i then [] else case rx_find r s i of
     None \<Rightarrow> [] | Some (e, caps) \<Rightarrow> caps # rx_all r s (max e (Suc i)))"
  by pat_completeness auto
termination rx_all by (relation "measure (\<lambda>(r, s, i). Suc (length s) - i)") auto

declare rx_all.simps [simp del]

definition FindAllStringSubmatch :: "regex \<Rightarrow> string \<Rightarrow> (nat \<Rightarrow> string) list" where
  "FindAllStringSubmatch r s = map (rx_group s) (rx_all r s 0)"

section \<open>Ways to write a pattern\<close>

definition rx_seq :: "regex list \<Rightarrow> regex" where
  "rx_seq rs = foldr RSeq rs REps"

definition rx_text :: "string \<Rightarrow> regex" where
  "rx_text t = rx_seq (map (\<lambda>c. RClass (\<lambda>d. d = c)) t)"

definition rx_plus :: "regex \<Rightarrow> regex" where
  "rx_plus r = RSeq r (RStar True r)"

definition rx_plus_lazy :: "regex \<Rightarrow> regex" where
  "rx_plus_lazy r = RSeq r (RStar False r)"

definition rx_opt :: "regex \<Rightarrow> regex" where
  "rx_opt r = RAlt r REps"

definition rx_space :: "char \<Rightarrow> bool" where
  "rx_space c \<longleftrightarrow> c = CHR '' '' \<or> c = CHR 0x09 \<or> c = CHR 0x0A \<or> c = CHR 0x0C \<or> c = CHR 0x0D"

definition ident_start :: "char \<Rightarrow> bool" where
  "ident_start c \<longleftrightarrow> isIdentifierByte c \<and> \<not> (byte CHR ''0'' \<le> byte c \<and> byte c \<le> byte CHR ''9'')"

definition rx_spaces :: regex where "rx_spaces = RStar True (RClass rx_space)"
definition rx_spaces1 :: regex where "rx_spaces1 = rx_plus (RClass rx_space)"

text \<open>\<open>[A-Za-z_][A-Za-z0-9_]*\<close> and \<open>[A-Za-z_][A-Za-z0-9_.]*\<close>.\<close>

definition rx_ident :: regex where
  "rx_ident = RSeq (RClass ident_start) (RStar True (RClass isIdentifierByte))"

definition rx_dotted :: regex where
  "rx_dotted = RSeq (RClass ident_start) (RStar True (RClass (\<lambda>c. isIdentifierByte c \<or> c = CHR ''.'')))"

definition rx_any1 :: regex where "rx_any1 = rx_plus (RClass (\<lambda>_. True))"

section \<open>What a match says\<close>

text \<open>A match goes forward and stays in the text, and the fuel of a repetition is enough.\<close>

lemma rx_repeat_cases:
  assumes "(j, caps') \<in> set (rx_repeat step greedy (Suc fuel) i caps)"
  obtains "j = i" "caps' = caps"
  | k caps1 where "(k, caps1) \<in> set (step i caps)" "i < k" "(j, caps') \<in> set (rx_repeat step greedy fuel k caps1)"
proof -
  let ?more = "concat (map (\<lambda>(j, caps'). if i < j then rx_repeat step greedy fuel j caps' else []) (step i caps))"
  from assms have "(j, caps') = (i, caps) \<or> (j, caps') \<in> set ?more"
    by (cases greedy) (auto simp: Let_def)
  then show thesis
  proof
    assume "(j, caps') \<in> set ?more"
    then obtain p where p: "p \<in> set (step i caps)"
      "(j, caps') \<in> set (case p of (j, caps') \<Rightarrow> if i < j then rx_repeat step greedy fuel j caps' else [])"
      unfolding set_concat set_map by blast
    obtain k caps1 where kc: "p = (k, caps1)" by (cases p)
    from p(2) have "i < k" "(j, caps') \<in> set (rx_repeat step greedy fuel k caps1)"
      unfolding kc prod.case by (cases "i < k"; simp)+
    with p(1) kc that(2) show thesis by blast
  qed (use that(1) in simp)
qed

lemma rx_repeat_bounds:
  assumes step: "\<And>i caps j caps'. i \<le> n \<Longrightarrow> (j, caps') \<in> set (step i caps) \<Longrightarrow> i \<le> j \<and> j \<le> n"
    and "i \<le> n" and "(j, caps') \<in> set (rx_repeat step greedy fuel i caps)"
  shows "i \<le> j \<and> j \<le> n"
  using assms(2,3)
proof (induction fuel arbitrary: i caps)
  case 0
  then show ?case by simp
next
  case (Suc fuel)
  from Suc.prems(2) show ?case
  proof (cases rule: rx_repeat_cases)
    case 1
    with Suc.prems(1) show ?thesis by simp
  next
    case (2 k caps1)
    have "k \<le> n" using step [OF Suc.prems(1) 2(1)] by simp
    from Suc.IH [OF this 2(3)] 2(2) show ?thesis by simp
  qed
qed

lemma rx_match_bounds: "i \<le> length s \<Longrightarrow> (j, caps') \<in> set (rx_match r s i caps) \<Longrightarrow> i \<le> j \<and> j \<le> length s"
proof (induction r arbitrary: i j caps caps')
  case (RSeq r1 r2)
  from RSeq.prems(2) obtain k caps1 where k: "(k, caps1) \<in> set (rx_match r1 s i caps)" "(j, caps') \<in> set (rx_match r2 s k caps1)"
    by auto
  have 1: "i \<le> k \<and> k \<le> length s" by (rule RSeq.IH(1) [OF RSeq.prems(1) k(1)])
  then have "k \<le> j \<and> j \<le> length s" by (intro RSeq.IH(2) [OF _ k(2)]) simp
  with 1 show ?case by simp
next
  case (RStar greedy r)
  from RStar.prems(2) have "(j, caps') \<in> set (rx_repeat (rx_match r s) greedy (length s - i) i caps)" by simp
  with RStar.IH RStar.prems(1) show ?case by (rule rx_repeat_bounds)
next
  case (RAlt r1 r2)
  from RAlt.prems(2) consider "(j, caps') \<in> set (rx_match r1 s i caps)" | "(j, caps') \<in> set (rx_match r2 s i caps)" by auto
  then show ?case using RAlt.IH RAlt.prems(1) by cases blast+
next
  case (RGroup k r)
  from RGroup.prems(2) obtain caps1 where "(j, caps1) \<in> set (rx_match r s i caps)" by auto
  with RGroup.IH RGroup.prems(1) show ?case by blast
qed (simp_all split: if_splits)

lemma rx_repeat_fuel:
  assumes step: "\<And>i caps j caps'. i \<le> n \<Longrightarrow> (j, caps') \<in> set (step i caps) \<Longrightarrow> j \<le> n" and "i \<le> n" and "n - i \<le> fuel"
  shows "rx_repeat step greedy (Suc fuel) i caps = rx_repeat step greedy fuel i caps"
  using assms(2,3)
proof (induction fuel arbitrary: i caps)
  case 0
  have "(case p of (j, c) \<Rightarrow> if i < j then rx_repeat step greedy 0 j c else []) = []" if "p \<in> set (step i caps)" for p
  proof (cases p)
    case (Pair j c)
    with step [OF 0(1)] that 0(2) have "\<not> i < j" by fastforce
    then show ?thesis by (simp add: Pair)
  qed
  then have "concat (map (\<lambda>(j, c). if i < j then rx_repeat step greedy 0 j c else []) (step i caps)) = []"
    by (simp add: concat_eq_Nil_conv)
  then show ?case by (simp add: Let_def)
next
  case (Suc fuel)
  have "map (\<lambda>(j, c). if i < j then rx_repeat step greedy (Suc fuel) j c else []) (step i caps) =
      map (\<lambda>(j, c). if i < j then rx_repeat step greedy fuel j c else []) (step i caps)"
  proof (rule map_cong [OF refl])
    fix p
    assume p: "p \<in> set (step i caps)"
    obtain j c where jc: "p = (j, c)" by (cases p)
    have "rx_repeat step greedy (Suc fuel) j c = rx_repeat step greedy fuel j c" if "i < j"
      by (rule Suc.IH) (use step [OF Suc.prems(1)] p jc that Suc.prems in auto)
    then show "(case p of (j, c) \<Rightarrow> if i < j then rx_repeat step greedy (Suc fuel) j c else []) =
        (case p of (j, c) \<Rightarrow> if i < j then rx_repeat step greedy fuel j c else [])"
      unfolding jc prod.case by (cases "i < j") (simp_all del: rx_repeat.simps)
  qed
  then show ?case by (simp only: rx_repeat.simps(2) [of step greedy "Suc fuel"] rx_repeat.simps(2) [of step greedy fuel])
qed

lemma find_SomeD: "List.find P xs = Some x \<Longrightarrow> x \<in> set xs \<and> P x"
  by (induction xs) (auto split: if_splits)

lemma rx_find_bounds:
  assumes "rx_find r s i = Some (e, caps)"
  shows "i \<le> e \<and> e \<le> length s"
proof -
  from assms obtain j where j: "List.find (\<lambda>j. rx_match r s j Map.empty \<noteq> []) [i..<Suc (length s)] = Some j"
    "hd (rx_match r s j Map.empty) = (e, caps)"
    by (auto simp: rx_find_def split: option.splits)
  from find_SomeD [OF j(1)] have "j \<in> set [i..<Suc (length s)]" "rx_match r s j Map.empty \<noteq> []" by blast+
  then have "i \<le> j" "j \<le> length s" "rx_match r s j Map.empty \<noteq> []"
    by (simp_all del: upt_Suc)
  moreover then have "(e, caps) \<in> set (rx_match r s j Map.empty)" using j(2) hd_in_set by metis
  ultimately show ?thesis using rx_match_bounds [of j s e caps r Map.empty] by simp
qed

end
