(* ===== verification/Infer_Text.thy ===== *)
theory Infer_Text
  imports Go_Regexp Python_Lexer
begin

text \<open>
  How the inference of \<open>internal/analysis/infer.go\<close> reads statements and expressions as text: its
  regular expressions, the names a statement binds, the arguments of a call, and the extent of calls
  and identifiers. \<open>wide\<close> is the class of the runes beyond ASCII that an identifier may hold
  (\<open>unicode.IsLetter\<close>, \<open>IsDigit\<close> and \<open>IsMark\<close>).
\<close>

section \<open>Patterns\<close>

definition fromImportPattern :: regex where
  "fromImportPattern = rx_seq [RBegin, rx_spaces, rx_text ''from'', rx_spaces1, RGroup 1 rx_dotted, rx_spaces1,
     rx_text ''import'', rx_spaces1, RGroup 2 rx_any1, REnd]"

definition importPattern :: regex where
  "importPattern = rx_seq [RBegin, rx_spaces, rx_text ''import'', rx_spaces1, RGroup 1 rx_dotted,
     rx_opt (rx_seq [rx_spaces1, rx_text ''as'', rx_spaces1, RGroup 2 rx_ident]), rx_spaces, REnd]"

definition annotationPattern :: regex where
  "annotationPattern = rx_seq [RBegin, rx_spaces, RGroup 1 rx_ident, rx_spaces, rx_text '':'', rx_spaces,
     RGroup 2 (RSeq rx_dotted (rx_opt (rx_seq [rx_text ''['', rx_dotted, rx_text '']'']))),
     rx_opt (rx_seq [rx_spaces, rx_text ''='', rx_spaces, RGroup 3 rx_any1]), REnd]"

definition assignmentPattern :: regex where
  "assignmentPattern = rx_seq [RBegin, rx_spaces, RGroup 1 rx_ident, rx_spaces, rx_text ''='', rx_spaces,
     RGroup 2 rx_any1, REnd]"

definition bindingIdentifierPattern :: regex where
  "bindingIdentifierPattern = rx_ident"

definition definitionBindingPattern :: regex where
  "definitionBindingPattern = rx_seq [RLineBegin, rx_spaces,
     RAlt (rx_seq [rx_text ''async'', rx_spaces1, rx_text ''def'']) (RAlt (rx_text ''def'') (rx_text ''class'')),
     rx_spaces1, RGroup 1 rx_ident, RWord]"

definition forBindingPattern :: regex where
  "forBindingPattern = rx_seq [RWord, rx_text ''for'', rx_spaces1,
     RGroup 1 (rx_plus_lazy (RClass (\<lambda>c. c \<noteq> CHR '':'' \<and> c \<noteq> CHR 0x0A))), rx_spaces1, rx_text ''in'', RWord]"

definition asBindingPattern :: regex where
  "asBindingPattern = rx_seq [RWord, rx_text ''as'', rx_spaces1,
     RGroup 1 (RAlt (rx_seq [rx_text ''('', RStar True (RClass (\<lambda>c. c \<noteq> CHR 0x0A \<and> c \<noteq> CHR '')'')), rx_text '')'']) rx_ident)]"

definition walrusBindingPattern :: regex where
  "walrusBindingPattern = rx_seq [RWord, RGroup 1 rx_ident, rx_spaces, rx_text '':='']"

definition adminRegisterPattern :: regex where
  "adminRegisterPattern = rx_seq [RBegin, rx_text ''@'', RGroup 1 rx_dotted, rx_spaces, rx_text ''('', rx_spaces,
     RGroup 2 rx_dotted, rx_spaces, rx_text '')'', rx_spaces, REnd]"

definition forHeaderPattern :: regex where
  "forHeaderPattern = rx_seq [RBegin, rx_spaces, rx_text ''for'', rx_spaces1, RGroup 1 rx_ident, rx_spaces1,
     rx_text ''in'', rx_spaces1, RGroup 2 (rx_plus (RClass (\<lambda>c. c \<noteq> CHR 0x0A))), rx_spaces, rx_text '':'', rx_spaces, REnd]"

text \<open>\<open>FindAllString(s, -1)\<close>: the whole match is its group 0.\<close>

definition FindAllString :: "regex \<Rightarrow> string \<Rightarrow> string list" where
  "FindAllString r s = map (\<lambda>m. m 0) (FindAllStringSubmatch (RGroup 0 r) s)"

section \<open>\<open>strings.Fields\<close>\<close>

lemma drop_rune_shorter: "length (drop (snd (DecodeRune (c # cs))) (c # cs)) < length (c # cs)"
  by (rule drop_rune_less [of "fst (DecodeRune (c # cs))"]) simp

function word_span :: "string \<Rightarrow> string \<times> string" where
  "word_span [] = ([], [])"
| "word_span (c # cs) = (if IsSpace (fst (DecodeRune (c # cs))) then ([], c # cs)
     else let n = snd (DecodeRune (c # cs)); (w, rest) = word_span (drop n (c # cs)) in (take n (c # cs) @ w, rest))"
  by pat_completeness auto
termination word_span
  by (relation "measure length") (simp, simp only: in_measure, rule drop_rune_shorter)

lemma word_span_append: "fst (word_span s) @ snd (word_span s) = s"
proof (induction s rule: word_span.induct)
  case (2 c cs)
  show ?case
  proof (cases "IsSpace (fst (DecodeRune (c # cs)))")
    case False
    let ?n = "snd (DecodeRune (c # cs))"
    from 2 [OF False refl]
    have "take ?n (c # cs) @ fst (word_span (drop ?n (c # cs))) @ snd (word_span (drop ?n (c # cs))) = c # cs"
      by (metis append_take_drop_id)
    with False show ?thesis by (simp add: Let_def case_prod_unfold)
  qed simp
qed simp

lemma word_span_solid: "s \<noteq> [] \<Longrightarrow> \<not> IsSpace (fst (DecodeRune s)) \<Longrightarrow> fst (word_span s) \<noteq> []"
  using DecodeRune_size [of s] by (cases s) (auto simp: Let_def case_prod_unfold)

lemma length_TrimLeftFunc: "length (TrimLeftFunc f s) \<le> length s"
  using TrimLeftFunc_suffix [of s f] by (metis length_append le_add2)

lemma TrimLeftFunc_first: "TrimLeftFunc f s \<noteq> [] \<Longrightarrow> \<not> f (fst (DecodeRune (TrimLeftFunc f s)))"
proof (induction f s rule: TrimLeftFunc.induct)
  case (2 f c cs)
  obtain r n where d: "DecodeRune (c # cs) = (r, n)" by (cases "DecodeRune (c # cs)")
  show ?case using 2(1) [OF d [symmetric] refl] 2(2) d by (cases "f r") simp_all
qed simp

function Fields :: "string \<Rightarrow> string list" where
  "Fields s = (let t = TrimLeftFunc IsSpace s in
     if t = [] then [] else fst (word_span t) # Fields (snd (word_span t)))"
  by pat_completeness auto
termination Fields
proof (relation "measure length")
  fix s t :: string
  assume t: "t = TrimLeftFunc IsSpace s" "t \<noteq> []"
  then have "\<not> IsSpace (fst (DecodeRune t))" using TrimLeftFunc_first by blast
  then have "fst (word_span t) \<noteq> []" using word_span_solid t(2) by blast
  then have "length (snd (word_span t)) < length t"
    using word_span_append [of t] by (metis length_append length_greater_0_conv less_add_same_cancel2)
  then show "(snd (word_span t), s) \<in> measure length" using t(1) length_TrimLeftFunc [of IsSpace s] by simp
qed simp

declare Fields.simps [simp del]

section \<open>Calls and their arguments\<close>

definition skipExpressionSpace :: "string \<Rightarrow> nat \<Rightarrow> nat" where
  "skipExpressionSpace expression position = skip_while (\<lambda>i. isSpace (expression ! i)) (length expression) position"

text \<open>The \<open>switch\<close> of \<open>skipCall\<close>: it stops behind the parenthesis that closes the call.\<close>

definition skip_call_switch :: "nat \<Rightarrow> lexevent \<Rightarrow> int \<Rightarrow> nat + int" where
  "skip_call_switch index ev depth = (case ev of
     CodeByte c \<Rightarrow>
       if c = CHR ''('' then Inr (depth + 1)
       else if c = CHR '')'' then (if depth - 1 = 0 then Inl (Suc index) else Inr (depth - 1))
       else Inr depth
   | _ \<Rightarrow> Inr depth)"

definition skipCall :: "string \<Rightarrow> nat \<Rightarrow> nat option" where
  "skipCall expression start =
     (case lex_fold line_lexer skip_call_switch (drop start expression) start InCode 0 of
        Inl e \<Rightarrow> Some e | Inr _ \<Rightarrow> None)"

definition first_argument_switch :: "nat \<Rightarrow> lexevent \<Rightarrow> nat \<Rightarrow> nat + nat" where
  "first_argument_switch index ev depth = (case ev of
     CodeByte c \<Rightarrow> if c = CHR '','' \<and> depth = 0 then Inl index else Inr (bracket_depth c depth)
   | _ \<Rightarrow> Inr depth)"

definition firstCallArgument :: "string \<Rightarrow> string" where
  "firstCallArgument arguments =
     (case lex_fold quote_lexer first_argument_switch arguments 0 InCode 0 of
        Inl index \<Rightarrow> take index arguments | Inr _ \<Rightarrow> arguments)"

text \<open>\<open>keywordArgName\<close>: the first bracket or equals sign decides.\<close>

definition keywordArgName :: "(nat \<Rightarrow> bool) \<Rightarrow> string \<Rightarrow> string option" where
  "keywordArgName wide segment =
     (let t = TrimSpace segment;
          i = length (takeWhile (\<lambda>c. \<not> is_open c \<and> c \<noteq> CHR ''='') t) in
      if length t \<le> i \<or> t ! i \<noteq> CHR ''='' \<or> i = 0 then None
      else if t ! (i - 1) \<in> {CHR ''!'', CHR ''<'', CHR ''>''} then None
      else if i + 1 < length t \<and> t ! (i + 1) = CHR ''='' then None
      else let name = TrimSpace (take i t) in if identifierText wide name then Some name else None)"

definition annotation_switch :: "(nat \<Rightarrow> bool) \<Rightarrow> string \<Rightarrow> nat \<Rightarrow> lexevent \<Rightarrow> string list \<times> nat \<times> nat \<Rightarrow>
    unit + string list \<times> nat \<times> nat" where
  "annotation_switch wide args index ev s = (case s of (names, depth, segStart) \<Rightarrow>
     (case ev of
        CodeByte c \<Rightarrow>
          if (c = CHR '','' \<or> c = CHR 0x00) \<and> depth = 0
          then Inr (names @ (case keywordArgName wide (subslice args segStart index) of Some n \<Rightarrow> [n] | None \<Rightarrow> []),
                    depth, Suc index)
          else Inr (names, bracket_depth c depth, segStart)
      | _ \<Rightarrow> Inr s))"

text \<open>The turn at \<open>index = len(args)\<close> ends the last segment, unless a quote is open there.\<close>

definition annotationKeywordNames :: "(nat \<Rightarrow> bool) \<Rightarrow> string \<Rightarrow> string list" where
  "annotationKeywordNames wide args =
     (case lex_fold quote_lexer (annotation_switch wide args) args 0 InCode ([], 0, 0) of
        Inl _ \<Rightarrow> []
      | Inr (mode, names, depth, segStart) \<Rightarrow>
          if mode = InCode \<and> depth = 0
          then names @ (case keywordArgName wide (drop segStart args) of Some n \<Rightarrow> [n] | None \<Rightarrow> []) else names)"

section \<open>The names a statement binds\<close>

definition assignment_at :: "string \<Rightarrow> nat \<Rightarrow> bool" where
  "assignment_at s index \<longleftrightarrow>
     (index = 0 \<or> s ! (index - 1) \<notin> {CHR ''='', CHR ''!'', CHR ''<'', CHR ''>''}) \<and>
     (index + 1 = length s \<or> s ! (index + 1) \<noteq> CHR ''='')"

definition assignment_switch :: "string \<Rightarrow> nat \<Rightarrow> lexevent \<Rightarrow> string list \<times> nat \<times> nat \<Rightarrow> unit + string list \<times> nat \<times> nat" where
  "assignment_switch s index ev st = (case st of (targets, start, depth) \<Rightarrow>
     (case ev of
        CodeByte c \<Rightarrow>
          if c = CHR ''='' \<and> depth = 0 \<and> assignment_at s index
          then Inr (targets @ [subslice s start index], Suc index, depth)
          else Inr (targets, start, bracket_depth c depth)
      | _ \<Rightarrow> Inr st))"

definition assignmentTargets :: "string \<Rightarrow> string list" where
  "assignmentTargets s =
     fst (scan_to_end (lex_fold quote_lexer (assignment_switch s) s 0 InCode ([], 0, 0)) ([], 0, 0))"

text \<open>The loop of \<open>splitBindingTargets\<close> at \<open>target[index:] = rest\<close>.\<close>

fun split_targets :: "string \<Rightarrow> string \<Rightarrow> nat \<Rightarrow> nat \<Rightarrow> nat \<Rightarrow> string list" where
  "split_targets target [] index start depth = (if 0 < start then [drop start target] else [])"
| "split_targets target (c # rest) index start depth =
     (if c = CHR '','' \<and> depth = 0
      then subslice target start index # split_targets target rest (Suc index) (Suc index) depth
      else split_targets target rest (Suc index) start (bracket_depth c depth))"

definition splitBindingTargets :: "string \<Rightarrow> string list" where
  "splitBindingTargets target = split_targets target target 0 0 0"

lemma split_targets_short:
  assumes "length target = index + length rest" and "start \<le> index" and "p \<in> set (split_targets target rest index start depth)"
  shows "length p < length target \<or> start = 0 \<and> length p \<le> length target \<and> False"
  using assms
proof (induction target rest index start depth rule: split_targets.induct)
  case (1 target index start depth)
  then show ?case by (auto split: if_splits)
next
  case (2 target c rest index start depth)
  then show ?case by (fastforce split: if_splits)
qed

lemma splitBindingTargets_short: "p \<in> set (splitBindingTargets target) \<Longrightarrow> length p < length target"
  using split_targets_short [of target 0 target 0 p 0] by (simp add: splitBindingTargets_def)

function strip_stars :: "string \<Rightarrow> string" where
  "strip_stars target = (if HasPrefix target ''*'' then strip_stars (TrimSpace (tl target)) else target)"
  by pat_completeness auto

lemma length_TrimSpace: "length (TrimSpace s) \<le> length s"
  using TrimSpace_sub [of s] by (metis length_append le_add1 le_add2 le_trans add.commute)

termination strip_stars
proof (relation "measure length")
  fix target :: string
  assume "HasPrefix target ''*''"
  then have "target \<noteq> []" by (auto simp: HasPrefix_def)
  then show "(TrimSpace (tl target), target) \<in> measure length"
    using length_TrimSpace [of "tl target"] by (cases target) auto
qed simp

declare strip_stars.simps [simp del]

lemma length_strip_stars: "length (strip_stars s) \<le> length s"
proof (induction s rule: strip_stars.induct)
  case (1 s)
  then show ?case
    using length_TrimSpace [of "tl s"] by (cases "HasPrefix s ''*''") (simp_all add: strip_stars.simps [of s])
qed

definition strip_parens :: "string \<Rightarrow> string" where
  "strip_parens t = (if 2 \<le> length t \<and> (hd t = CHR ''('' \<and> last t = CHR '')'' \<or> hd t = CHR ''['' \<and> last t = CHR '']'')
     then subslice t 1 (length t - 1) else t)"

text \<open>The text of a target without stars, annotation and one pair of brackets.\<close>

definition target_text :: "string \<Rightarrow> string" where
  "target_text target = (let t = strip_stars (TrimSpace target) in
     strip_parens (case IndexByte t CHR '':'' of Some colon \<Rightarrow> TrimSpace (take colon t) | None \<Rightarrow> t))"

lemma length_target_text: "length (target_text t) \<le> length t"
proof -
  have parens: "length (strip_parens s) \<le> length s" for s by (simp add: strip_parens_def)
  have cut: "length (TrimSpace (take n s)) \<le> length s" for n s
    using length_TrimSpace [of "take n s"] by simp
  let ?s = "strip_stars (TrimSpace t)"
  have "length (case IndexByte ?s CHR '':'' of Some colon \<Rightarrow> TrimSpace (take colon ?s) | None \<Rightarrow> ?s) \<le> length ?s"
    using cut by (simp split: option.split)
  also have "length ?s \<le> length t"
    using length_strip_stars [of "TrimSpace t"] length_TrimSpace [of t] by (rule order_trans)
  finally show ?thesis using parens order_trans unfolding target_text_def Let_def by blast
qed

function bindingTargetNames :: "(nat \<Rightarrow> bool) \<Rightarrow> string \<Rightarrow> string list" where
  "bindingTargetNames wide target = (let t = target_text target; parts = splitBindingTargets t in
     if 1 < length parts then concat (map (bindingTargetNames wide) parts)
     else if identifierText wide t then [t] else [])"
  by pat_completeness auto
termination bindingTargetNames
proof (relation "measure (\<lambda>(wide, target). length target)")
  fix wide :: "nat \<Rightarrow> bool" and target t p :: string and parts
  assume "t = target_text target" "parts = splitBindingTargets t" "p \<in> set parts"
  then have "length p < length target"
    using splitBindingTargets_short [of p t] length_target_text [of target] by simp
  then show "((wide, p), wide, target) \<in> measure (\<lambda>(wide, target). length target)" by simp
qed simp

declare bindingTargetNames.simps [simp del]

text \<open>The names an import binds, each with what it stands for: the loop of \<open>buildEnvironmentAtPath\<close> uses both.\<close>

definition import_items :: "string \<Rightarrow> string list list" where
  "import_items items = filter (\<lambda>parts. parts \<noteq> [] \<and> hd parts \<noteq> ''*'')
     (map (\<lambda>item. Fields (TrimSpace item)) (split_byte CHR '','' (TrimBytes (\<lambda>c. c = CHR ''('' \<or> c = CHR '')'') (TrimSpace items))))"

definition import_local :: "string list \<Rightarrow> string" where
  "import_local parts = (if length parts = 3 \<and> parts ! 1 = ''as'' then parts ! 2 else hd parts)"

definition import_line :: "string \<Rightarrow> string" where
  "import_line s = TrimSpace (TrimSuffix s [CHR 0x0D])"

definition importBindingNames :: "string \<Rightarrow> string list" where
  "importBindingNames s = (let line = import_line s in
     case FindStringSubmatch fromImportPattern line of
       Some m \<Rightarrow> map import_local (import_items (m 2))
     | None \<Rightarrow> (case FindStringSubmatch importPattern line of
         Some m \<Rightarrow> [if m 2 \<noteq> [] then m 2 else hd (split_byte CHR ''.'' (m 1))]
       | None \<Rightarrow> []))"

text \<open>The closure \<open>addTarget\<close>: every identifier of the target that is not yet in the list.\<close>

definition add_name :: "string \<Rightarrow> string list \<Rightarrow> string list" where
  "add_name name names = (if name \<in> set names then names else names @ [name])"

definition addTarget :: "string \<Rightarrow> string list \<Rightarrow> string list" where
  "addTarget target names = fold add_name (FindAllString bindingIdentifierPattern target) names"

definition statement_targets :: "(nat \<Rightarrow> bool) \<Rightarrow> string \<Rightarrow> string list" where
  "statement_targets wide s =
     importBindingNames s
     @ (case FindStringSubmatch definitionBindingPattern s of Some m \<Rightarrow> [m 1] | None \<Rightarrow> [])
     @ (case FindStringSubmatch annotationPattern (TrimSpace s) of
          Some m \<Rightarrow> [m 1]
        | None \<Rightarrow> concat (map (bindingTargetNames wide) (assignmentTargets s)))
     @ concat (map (\<lambda>m. bindingTargetNames wide (m 1)) (FindAllStringSubmatch forBindingPattern s))
     @ concat (map (\<lambda>m. bindingTargetNames wide (m 1)) (FindAllStringSubmatch asBindingPattern s))
     @ map (\<lambda>m. m 1) (FindAllStringSubmatch walrusBindingPattern s)"

definition statementBindingNames :: "(nat \<Rightarrow> bool) \<Rightarrow> string \<Rightarrow> string list" where
  "statementBindingNames wide s = fold addTarget (statement_targets wide s) []"

definition recognizedEnvironmentStatement :: "string \<Rightarrow> bool" where
  "recognizedEnvironmentStatement s \<longleftrightarrow> (let line = import_line s in
     MatchString fromImportPattern line \<or> MatchString importPattern line \<or> MatchString annotationPattern line
     \<or> MatchString assignmentPattern line \<or> MatchString forHeaderPattern line)"

definition definitionName :: "string \<Rightarrow> string" where
  "definitionName s = (case FindStringSubmatch definitionBindingPattern s of Some m \<Rightarrow> m 1 | None \<Rightarrow> [])"

section \<open>Identifiers around the cursor\<close>

definition bad_or_stop :: "(nat \<Rightarrow> bool) \<Rightarrow> nat \<times> nat \<Rightarrow> bool" where
  "bad_or_stop wide d \<longleftrightarrow> fst d = RuneError \<and> snd d = 1 \<or> \<not> isIdentifierRune wide (fst d)"

function identifierRange_start :: "(nat \<Rightarrow> bool) \<Rightarrow> string \<Rightarrow> nat \<Rightarrow> nat" where
  "identifierRange_start wide source start =
     (if start = 0 \<or> length source < start then start
      else let d = DecodeLastRune (take start source) in
        if bad_or_stop wide d then start else identifierRange_start wide source (start - snd d))"
  by pat_completeness auto
termination identifierRange_start
proof (relation "measure (\<lambda>(wide, source, start). start)")
  fix wide :: "nat \<Rightarrow> bool" and source :: string and start d
  assume "\<not> (start = 0 \<or> length source < start)" "d = DecodeLastRune (take start source)"
  moreover then have "take start source \<noteq> []" by auto
  then have "1 \<le> snd (DecodeLastRune (take start source))" using DecodeLastRune_size by blast
  ultimately show "((wide, source, start - snd d), wide, source, start) \<in> measure (\<lambda>(wide, source, start). start)" by simp
qed simp

function identifierRange_end :: "(nat \<Rightarrow> bool) \<Rightarrow> string \<Rightarrow> nat \<Rightarrow> nat" where
  "identifierRange_end wide source e =
     (if length source \<le> e then e
      else let d = DecodeRune (drop e source) in
        if bad_or_stop wide d then e else identifierRange_end wide source (e + snd d))"
  by pat_completeness auto
termination identifierRange_end
proof (relation "measure (\<lambda>(wide, source, e). length source - e)")
  fix wide :: "nat \<Rightarrow> bool" and source :: string and e d
  assume "\<not> length source \<le> e" "d = DecodeRune (drop e source)"
  moreover then have "1 \<le> snd (DecodeRune (drop e source))" using DecodeRune_size [of "drop e source"] by auto
  ultimately show "((wide, source, e + snd d), wide, source, e) \<in> measure (\<lambda>(wide, source, e). length source - e)" by simp
qed simp

declare identifierRange_start.simps [simp del] identifierRange_end.simps [simp del]

definition identifierRange :: "(nat \<Rightarrow> bool) \<Rightarrow> string \<Rightarrow> nat \<Rightarrow> ByteRange" where
  "identifierRange wide source offset =
     \<lparr>br_Start = identifierRange_start wide source offset, br_End = identifierRange_end wide source offset\<rparr>"

definition IdentifierPrefix :: "(nat \<Rightarrow> bool) \<Rightarrow> string \<Rightarrow> int \<Rightarrow> string" where
  "IdentifierPrefix wide source offset =
     (if offset \<le> 0 \<or> int (length source) < offset then []
      else subslice source (br_Start (identifierRange wide source (nat offset))) (nat offset))"

end
