(* ===== verification/Infer_Values.thy ===== *)
theory Infer_Values
  imports Infer_Text Schema_Refs
begin

text \<open>
  The values of Python expressions as \<open>internal/analysis/infer.go\<close> infers them: a model class, an
  instance of a model, a manager or a queryset, found by following the members of an expression
  through the schema graph. The two dictionaries of a scope are maps: \<open>imports\<close> from a local name to
  what it stands for, \<open>values\<close> from a variable to its value; a variable without an entry has the
  zero value, as in Go.
\<close>

section \<open>Values\<close>

datatype ValueKind = ValueUnknown | ValueModelClass | ValueModelInstance | ValueManager | ValueQuerySet

record Value =
  val_CanonicalLabel :: string
  val_Kind :: ValueKind
  val_ManagerName :: string
  val_QuerySetClass :: string
  val_Annotations :: "string list"

definition zero_Value :: Value where
  "zero_Value = \<lparr>val_CanonicalLabel = [], val_Kind = ValueUnknown, val_ManagerName = [], val_QuerySetClass = [],
     val_Annotations = []\<rparr>"

definition value_of :: "string \<Rightarrow> ValueKind \<Rightarrow> Value" where
  "value_of label kind = zero_Value\<lparr>val_CanonicalLabel := label, val_Kind := kind\<rparr>"

type_synonym import_map = "string \<Rightarrow> string option"
type_synonym bindings = "string \<Rightarrow> Value option"

definition binding_at :: "bindings \<Rightarrow> string \<Rightarrow> Value" where
  "binding_at vs name = (case vs name of Some v \<Rightarrow> v | None \<Rightarrow> zero_Value)"

section \<open>Names of classes\<close>

definition expandImport :: "string \<Rightarrow> import_map \<Rightarrow> string" where
  "expandImport reference imps = (let (first, rest, hasRest) = cut_byte CHR ''.'' reference in
     case imps first of
       Some imported \<Rightarrow> imported @ (if hasRest then ''.'' @ rest else [])
     | None \<Rightarrow> (case imps reference of Some imported \<Rightarrow> imported | None \<Rightarrow> reference))"

definition resolveClass :: "string \<Rightarrow> import_map \<Rightarrow> graph_ptr \<Rightarrow> string option" where
  "resolveClass reference imps graph = CanonicalLabelForClass graph (expandImport reference imps)"

section \<open>Members\<close>

definition methodForValue :: "graph_ptr \<Rightarrow> Value \<Rightarrow> string \<Rightarrow> Method option" where
  "methodForValue graph v name =
     (case graph of None \<Rightarrow> None | Some g \<Rightarrow>
        if val_Kind v = ValueManager then
          (case graph_Manager graph (val_CanonicalLabel v) (val_ManagerName v) of
             None \<Rightarrow> None
           | Some manager \<Rightarrow> (case ManagerRef_Method (Some manager) name of
               Some m \<Rightarrow> Some m | None \<Rightarrow> ManagerRef_QuerySetMethod (Some manager) name))
        else if val_Kind v = ValueQuerySet \<and> val_QuerySetClass v \<noteq> [] then
          QuerySetMethod graph (val_CanonicalLabel v) (val_QuerySetClass v) name
        else None)"

definition ResolveMethod :: "graph_ptr \<Rightarrow> Value \<Rightarrow> string \<Rightarrow> Method option" where
  "ResolveMethod graph v name = methodForValue graph v name"

definition relatedManagerModel :: "FieldRef option \<Rightarrow> string option" where
  "relatedManagerModel field =
     (if field = None \<or> \<not> FieldRef_IsRelation field then None
      else case FieldRef_RelationCardinality field of
        None \<Rightarrow> None
      | Some cardinality \<Rightarrow>
          if cardinality \<noteq> ''one-to-many'' \<and> cardinality \<noteq> ''many-to-many'' then None
          else FieldRef_RelatedModel field)"

definition singleRelatedInstance :: "FieldRef option \<Rightarrow> string option" where
  "singleRelatedInstance field =
     (if field = None \<or> \<not> FieldRef_IsRelation field then None
      else case FieldRef_RelationCardinality field of
        None \<Rightarrow> None
      | Some cardinality \<Rightarrow>
          if cardinality \<noteq> ''one-to-one'' \<and>
             (cardinality \<noteq> ''many-to-one'' \<or> FieldRef_RelationDirection field \<noteq> Some ''forward'') then None
          else FieldRef_RelatedModel field)"

text \<open>A member access of an expression: its name, and the text between its parentheses if it is called.\<close>

record member =
  mem_name :: string
  mem_args :: "string option"

definition single_row_methods :: "string list" where
  "single_row_methods = [''get'', ''first'', ''last'', ''create'']"

definition annotating_methods :: "string list" where
  "annotating_methods = [''annotate'', ''alias'']"

definition refining_methods :: "string list" where
  "refining_methods = [''all'', ''filter'', ''exclude'', ''distinct'', ''order_by'', ''values'', ''values_list'',
     ''only'', ''defer'', ''select_related'', ''prefetch_related'']"

definition as_queryset :: "Value \<Rightarrow> Value" where
  "as_queryset v = (if val_Kind v = ValueManager then v\<lparr>val_ManagerName := [], val_Kind := ValueQuerySet\<rparr>
     else v\<lparr>val_Kind := ValueQuerySet\<rparr>)"

text \<open>The \<open>switch value.Kind\<close> of the loop: the value of the member, unless it has none.\<close>

definition class_member :: "graph_ptr \<Rightarrow> Value \<Rightarrow> member \<Rightarrow> Value option" where
  "class_member graph v m =
     (if mem_args m \<noteq> None then None
      else case graph_Manager graph (val_CanonicalLabel v) (mem_name m) of
        None \<Rightarrow> None
      | Some manager \<Rightarrow>
          (let v' = v\<lparr>val_Kind := ValueManager, val_ManagerName := mem_name m\<rparr> in
           Some (case ManagerRef_QuerySetClass (Some manager) of
             Some cls \<Rightarrow> v'\<lparr>val_QuerySetClass := cls\<rparr> | None \<Rightarrow> v')))"

definition query_member :: "(nat \<Rightarrow> bool) \<Rightarrow> graph_ptr \<Rightarrow> Value \<Rightarrow> member \<Rightarrow> Value option" where
  "query_member wide graph v m = (case mem_args m of
     None \<Rightarrow> None
   | Some args \<Rightarrow>
       (case methodForValue graph v (mem_name m) of
          Some method \<Rightarrow> (if MethodRef_Chainable (Some method) then Some (as_queryset v) else None)
        | None \<Rightarrow>
            if mem_name m \<in> set single_row_methods
            then Some (v\<lparr>val_Kind := ValueModelInstance, val_ManagerName := [], val_QuerySetClass := []\<rparr>)
            else if mem_name m \<in> set annotating_methods
            then Some ((as_queryset v)\<lparr>val_Annotations := val_Annotations v @ annotationKeywordNames wide args\<rparr>)
            else if mem_name m \<in> set refining_methods then Some (as_queryset v)
            else None))"

definition instance_member :: "graph_ptr \<Rightarrow> Value \<Rightarrow> member \<Rightarrow> Value option" where
  "instance_member graph v m =
     (if mem_args m \<noteq> None then None
      else case InstanceAccess graph (val_CanonicalLabel v) (mem_name m) of
        None \<Rightarrow> None
      | Some access \<Rightarrow>
          (case singleRelatedInstance (Some (fa_Field access)) of
             Some label \<Rightarrow> Some (value_of label ValueModelInstance)
           | None \<Rightarrow> (case relatedManagerModel (Some (fa_Field access)) of
               Some label \<Rightarrow> Some (value_of label ValueManager) | None \<Rightarrow> None)))"

definition member_value :: "(nat \<Rightarrow> bool) \<Rightarrow> graph_ptr \<Rightarrow> Value \<Rightarrow> member \<Rightarrow> Value option" where
  "member_value wide graph v m = (case val_Kind v of
     ValueUnknown \<Rightarrow> None
   | ValueModelClass \<Rightarrow> class_member graph v m
   | ValueManager \<Rightarrow> query_member wide graph v m
   | ValueQuerySet \<Rightarrow> query_member wide graph v m
   | ValueModelInstance \<Rightarrow> instance_member graph v m)"

section \<open>Expressions\<close>

text \<open>\<open>for strings.HasPrefix(expression, "(")\<close>: the parentheses around the whole expression.\<close>

function strip_group :: "string \<Rightarrow> string" where
  "strip_group expression =
     (if HasPrefix expression ''('' \<and> skipCall expression 0 = Some (length expression)
      then strip_group (TrimSpace (subslice expression 1 (length expression - 1))) else expression)"
  by pat_completeness auto
termination strip_group
proof (relation "measure length")
  fix expression :: string
  assume "HasPrefix expression ''('' \<and> skipCall expression 0 = Some (length expression)"
  then have "0 < length expression" by (auto simp: HasPrefix_def)
  then show "(TrimSpace (subslice expression 1 (length expression - 1)), expression) \<in> measure length"
    using length_TrimSpace [of "subslice expression 1 (length expression - 1)"] by (cases expression) auto
qed simp

declare strip_group.simps [simp del]

definition expression_reference :: "string \<Rightarrow> string" where
  "expression_reference expression =
     TrimSuffix (takeWhile (\<lambda>c. isIdentifierByte c \<or> c = CHR ''.'') expression) ''.''"

text \<open>The longest prefix of the reference, cut at its dots, that names a model class.\<close>

function longest_class :: "string \<Rightarrow> import_map \<Rightarrow> graph_ptr \<Rightarrow> nat \<Rightarrow> (string \<times> nat) option" where
  "longest_class reference imps graph boundary =
     (if boundary = 0 then None
      else let candidate = take boundary reference in
        case resolveClass candidate imps graph of
          Some label \<Rightarrow> Some (label, boundary)
        | None \<Rightarrow> (case LastIndexByte candidate CHR ''.'' of
            None \<Rightarrow> None | Some previous \<Rightarrow> longest_class reference imps graph previous))"
  by pat_completeness auto
termination longest_class
  by (relation "measure (\<lambda>(reference, imps, graph, boundary). boundary)") (auto dest: LastIndexByte_Some)

declare longest_class.simps [simp del]

definition first_segment :: "string \<Rightarrow> nat" where
  "first_segment reference = (case IndexByte reference CHR ''.'' of Some i \<Rightarrow> i | None \<Rightarrow> length reference)"

definition base_value :: "string \<Rightarrow> import_map \<Rightarrow> bindings \<Rightarrow> graph_ptr \<Rightarrow> Value \<times> nat" where
  "base_value reference imps vs graph =
     (case longest_class reference imps graph (length reference) of
        Some (label, boundary) \<Rightarrow> (value_of label ValueModelClass, boundary)
      | None \<Rightarrow> (binding_at vs (take (first_segment reference) reference), first_segment reference))"

text \<open>The member behind the dot at \<open>position\<close>, and the place behind it.\<close>

definition parse_member :: "string \<Rightarrow> nat \<Rightarrow> (member \<times> nat) option" where
  "parse_member expression position =
     (let nameStart = skipExpressionSpace expression (Suc position);
          nameEnd = skip_while (\<lambda>i. isIdentifierByte (expression ! i)) (length expression) nameStart;
          name = subslice expression nameStart nameEnd;
          next = skipExpressionSpace expression nameEnd in
      if nameStart = nameEnd then None
      else if next < length expression \<and> expression ! next = CHR ''('' then
        (case skipCall expression next of
           None \<Rightarrow> None
         | Some e \<Rightarrow> Some (\<lparr>mem_name = name, mem_args = Some (subslice expression (Suc next) (e - 1))\<rparr>, e))
      else Some (\<lparr>mem_name = name, mem_args = None\<rparr>, next))"

text \<open>The loop over the members; \<open>segments\<close> counts its turns.\<close>

function follow_members :: "(nat \<Rightarrow> bool) \<Rightarrow> graph_ptr \<Rightarrow> string \<Rightarrow> nat \<Rightarrow> Value \<Rightarrow> nat \<Rightarrow> Value" where
  "follow_members wide graph expression segments v position =
     (if length expression \<le> position then v
      else if MaxPathSegments < Suc segments then zero_Value
      else let p = skipExpressionSpace expression position in
        if p = length expression then v
        else if expression ! p \<noteq> CHR ''.'' then (if TrimSpace (drop p expression) = [] then v else zero_Value)
        else case parse_member expression p of
          None \<Rightarrow> zero_Value
        | Some (m, q) \<Rightarrow> (case member_value wide graph v m of
            None \<Rightarrow> zero_Value | Some v' \<Rightarrow> follow_members wide graph expression (Suc segments) v' q))"
  by pat_completeness auto
termination follow_members
  by (relation "measure (\<lambda>(wide, graph, expression, segments, v, position). MaxPathSegments - segments)") auto

declare follow_members.simps [simp del]

text \<open>A call of the base: only a class can be called, and the result is an instance.\<close>

definition call_base :: "string \<Rightarrow> Value \<Rightarrow> nat \<Rightarrow> (Value \<times> nat) option" where
  "call_base expression v consumed =
     (let position = skipExpressionSpace expression consumed in
      if position < length expression \<and> expression ! position = CHR ''('' then
        (case skipCall expression position of
           None \<Rightarrow> None
         | Some e \<Rightarrow> if val_Kind v \<noteq> ValueModelClass then None else Some (v\<lparr>val_Kind := ValueModelInstance\<rparr>, e))
      else Some (v, position))"

definition resolveExpression :: "(nat \<Rightarrow> bool) \<Rightarrow> string \<Rightarrow> import_map \<Rightarrow> bindings \<Rightarrow> graph_ptr \<Rightarrow> Value" where
  "resolveExpression wide text imps vs graph =
     (let trimmed = TrimSpace text in
      if MaxPathBytes < int (length trimmed) then zero_Value
      else let expression = strip_group trimmed in
        if expression = [] then zero_Value
        else case vs expression of
          Some v \<Rightarrow> v
        | None \<Rightarrow>
            (let (v, consumed) = base_value (expression_reference expression) imps vs graph in
             if val_Kind v = ValueUnknown then zero_Value
             else case call_base expression v consumed of
               None \<Rightarrow> zero_Value
             | Some (v', position) \<Rightarrow> follow_members wide graph expression 0 v' position))"

text \<open>\<open>get_object_or_404(Model, ...)\<close>.\<close>

definition djangoShortcutValue :: "(nat \<Rightarrow> bool) \<Rightarrow> string \<Rightarrow> import_map \<Rightarrow> graph_ptr \<Rightarrow> Value option" where
  "djangoShortcutValue wide text imps graph = (let expression = TrimSpace text in
     case IndexByte expression CHR ''('' of
       None \<Rightarrow> None
     | Some opening \<Rightarrow>
         if opening = 0 \<or> MaxPathBytes < int (length expression) then None
         else let fn = TrimSpace (take opening expression) in
           if \<not> identifierText wide (filter (\<lambda>c. c \<noteq> CHR ''.'') fn)
              \<or> expandImport fn imps \<noteq> ''django.shortcuts.get_object_or_404'' then None
           else case skipCall expression opening of
             None \<Rightarrow> None
           | Some e \<Rightarrow>
               if TrimSpace (drop e expression) \<noteq> [] then None
               else map_option (\<lambda>label. value_of label ValueModelInstance)
                 (resolveClass (TrimSpace (firstCallArgument (subslice expression (Suc opening) (e - 1)))) imps graph))"

section \<open>Visiting the methods of a value\<close>

text \<open>\<open>visitOnce\<close>: a method whose name was shown before is skipped.\<close>

definition visit_once :: "(Method \<Rightarrow> 's \<Rightarrow> bool \<times> 's) \<Rightarrow> Method \<Rightarrow> string list \<times> 's \<Rightarrow> bool \<times> string list \<times> 's" where
  "visit_once visit m st = (let (seen, s) = st in
     if MethodRef_Name (Some m) \<in> set seen then (True, st)
     else let (more, s') = visit m s in (more, MethodRef_Name (Some m) # seen, s'))"

definition VisitMethods :: "graph_ptr \<Rightarrow> Value \<Rightarrow> (Method \<Rightarrow> 's \<Rightarrow> bool \<times> 's) \<Rightarrow> 's \<Rightarrow> bool \<times> 's" where
  "VisitMethods graph v visit s =
     (case graph of None \<Rightarrow> (False, s) | Some g \<Rightarrow>
        if val_Kind v = ValueManager then
          (case graph_Manager graph (val_CanonicalLabel v) (val_ManagerName v) of
             None \<Rightarrow> (False, s)
           | Some manager \<Rightarrow>
               (case ManagerRef_VisitMethods (Some manager) (visit_once visit) ([], s) of
                  (False, seen, s') \<Rightarrow> (False, s')
                | (True, st) \<Rightarrow>
                    (case ManagerRef_VisitQuerySetMethods (Some manager) (visit_once visit) st of
                       (found, seen, s') \<Rightarrow> (found, s'))))
        else if val_Kind v = ValueQuerySet \<and> val_QuerySetClass v \<noteq> [] then
          (case QuerySet graph (val_CanonicalLabel v) (val_QuerySetClass v) of
             None \<Rightarrow> (False, s)
           | Some q \<Rightarrow> (case QuerySetRef_VisitMethods (Some q) (visit_once visit) ([], s) of
               (found, seen, s') \<Rightarrow> (found, s')))
        else (False, s))"

end
