(* ===== verification/Infer_Environment.thy ===== *)
theory Infer_Environment
  imports Infer_Values Document_Syntax
begin

text \<open>
  The scope around a cursor (\<open>internal/analysis/infer.go\<close>): the classes and functions that enclose
  it, and \<open>buildEnvironmentAtPath\<close>, which reads the statements in force at the cursor into the two
  maps an expression is resolved with. \<open>filePath\<close> is the document's path, empty when it has none.
\<close>

section \<open>Scopes\<close>

definition zero_Statement :: SyntaxStatement where
  "zero_Statement = \<lparr>ss_Start = 0, ss_End = 0, ss_Text = [], ss_ScopeStart = 0, ss_ScopeEnd = 0, ss_ScopeKind = [],
     ss_ScopeMarker = False, ss_Guarded = False\<rparr>"

definition scope_width :: "SyntaxStatement \<Rightarrow> int" where
  "scope_width st = int (ss_ScopeEnd st) - int (ss_ScopeStart st)"

text \<open>The loop every search for a scope runs: the first of the smallest statements that qualify.\<close>

definition smallest_scope :: "(SyntaxStatement \<Rightarrow> bool) \<Rightarrow> SyntaxStatement list \<Rightarrow> SyntaxStatement" where
  "smallest_scope qualifies syntax = foldl (\<lambda>selected st.
     if qualifies st \<and> (ss_ScopeEnd selected = 0 \<or> scope_width st < scope_width selected) then st else selected)
     zero_Statement syntax"

definition scope_around :: "nat \<Rightarrow> SyntaxStatement \<Rightarrow> bool" where
  "scope_around offset st \<longleftrightarrow> ss_ScopeMarker st \<and> ss_ScopeStart st \<le> offset \<and> offset \<le> ss_ScopeEnd st"

definition scope_outside :: "SyntaxStatement \<Rightarrow> SyntaxStatement \<Rightarrow> bool" where
  "scope_outside inner st \<longleftrightarrow> ss_ScopeMarker st \<and> \<not> (ss_Start st = ss_Start inner \<and> ss_End st = ss_End inner) \<and>
     ss_ScopeStart st \<le> ss_ScopeStart inner \<and> ss_ScopeEnd inner \<le> ss_ScopeEnd st"

abbreviation is_class :: "SyntaxStatement \<Rightarrow> bool" where
  "is_class st \<equiv> ss_ScopeKind st = ''class_definition''"

abbreviation is_function :: "SyntaxStatement \<Rightarrow> bool" where
  "is_function st \<equiv> ss_ScopeKind st = ''function_definition''"

definition enclosingModelClass :: "SyntaxStatement list \<Rightarrow> nat \<Rightarrow> string \<Rightarrow> graph_ptr \<Rightarrow> (string \<times> string) option" where
  "enclosingModelClass syntax offset filePath graph =
     (if graph = None \<or> filePath = [] then None
      else let selected = smallest_scope (\<lambda>st. scope_around offset st \<and> is_class st) syntax in
        if ss_ScopeEnd selected = 0 then None
        else case FindStringSubmatch definitionBindingPattern (ss_Text selected) of
          None \<Rightarrow> None
        | Some m \<Rightarrow> map_option (\<lambda>label. (label, m 1)) (CanonicalLabelForSourceClass graph filePath (m 1)))"

definition enclosingFunctionAndClass :: "SyntaxStatement list \<Rightarrow> nat \<Rightarrow> (SyntaxStatement \<times> SyntaxStatement) option" where
  "enclosingFunctionAndClass syntax offset =
     (let current = smallest_scope (scope_around offset) syntax in
      if \<not> is_function current then None
      else let parent = smallest_scope (scope_outside current) syntax in
        if \<not> is_class parent then None else Some (current, parent))"

text \<open>The names of the classes, outermost first; none if one of them cannot be read.\<close>

fun class_names :: "SyntaxStatement list \<Rightarrow> string list option" where
  "class_names [] = Some []"
| "class_names (c # cs) = (case FindStringSubmatch definitionBindingPattern (ss_Text c) of
     None \<Rightarrow> None
   | Some m \<Rightarrow> map_option (\<lambda>names. m 1 # names) (class_names cs))"

definition enclosingModelLabel :: "SyntaxStatement list \<Rightarrow> nat \<Rightarrow> string \<Rightarrow> graph_ptr \<Rightarrow> string option" where
  "enclosingModelLabel syntax offset filePath graph =
     (if graph = None \<or> filePath = [] then None
      else case enclosingFunctionAndClass syntax offset of
        None \<Rightarrow> None
      | Some (current, parent) \<Rightarrow>
          (let classes = sort_key (\<lambda>st. (int (ss_ScopeStart st), - int (ss_ScopeEnd st)))
             (filter (\<lambda>st. ss_ScopeMarker st \<and> is_class st \<and> ss_ScopeStart st \<le> ss_ScopeStart current
               \<and> ss_ScopeEnd current \<le> ss_ScopeEnd st) syntax) in
           case class_names classes of
             None \<Rightarrow> None
           | Some qualname \<Rightarrow>
               if qualname = [] \<or> \<not> is_class parent then None
               else CanonicalLabelForSourceClass graph filePath (join_byte CHR ''.'' qualname)))"

text \<open>The model of the class of a \<open>Meta\<close> class around the cursor.\<close>

definition enclosingMetaModel :: "SyntaxStatement list \<Rightarrow> nat \<Rightarrow> string \<Rightarrow> graph_ptr \<Rightarrow> string option" where
  "enclosingMetaModel syntax offset filePath graph =
     (let meta = smallest_scope (\<lambda>st. scope_around offset st \<and> is_class st \<and> definitionName (ss_Text st) = ''Meta'') syntax in
      if ss_ScopeEnd meta = 0 then None
      else let parent = smallest_scope (\<lambda>st. scope_outside meta st \<and> is_class st) syntax in
        if ss_ScopeEnd parent = 0 then None
        else CanonicalLabelForSourceClass graph filePath (definitionName (ss_Text parent)))"

section \<open>The admin decorator\<close>

text \<open>The lines above a class, from the one before \<open>cursor\<close> upwards, as long as they are decorators.\<close>

function admin_decorators :: "string \<Rightarrow> import_map \<Rightarrow> graph_ptr \<Rightarrow> nat \<Rightarrow> string option" where
  "admin_decorators source imps graph cursor =
     (if cursor = 0 \<or> length source < cursor then None
      else let lineEnd = cursor - 1;
          lineStart = line_before source lineEnd;
          line = TrimSpace (subslice source lineStart lineEnd) in
        if \<not> HasPrefix line ''@'' then None
        else case FindStringSubmatch adminRegisterPattern line of
          Some m \<Rightarrow> (if expandImport (m 1) imps = ''django.contrib.admin.register'' then resolveClass (m 2) imps graph
            else admin_decorators source imps graph lineStart)
        | None \<Rightarrow> admin_decorators source imps graph lineStart)"
  by pat_completeness auto

lemma line_before_shorter: "0 < cursor \<Longrightarrow> cursor \<le> length source \<Longrightarrow> line_before source (cursor - 1) < cursor"
proof -
  assume "0 < cursor" "cursor \<le> length source"
  then have "line_before source (cursor - 1) \<le> cursor - 1" "cursor - 1 < cursor"
    using line_before_le [of "cursor - 1" source] by auto
  then show ?thesis by (rule le_less_trans)
qed

termination admin_decorators
  by (relation "measure (\<lambda>(source, imps, graph, cursor). cursor)", simp)
    (simp_all add: line_before_shorter [simplified])

declare admin_decorators.simps [simp del]

definition enclosingAdminModelLabel :: "string \<Rightarrow> SyntaxStatement list \<Rightarrow> nat \<Rightarrow> import_map \<Rightarrow> graph_ptr \<Rightarrow> string option" where
  "enclosingAdminModelLabel source syntax offset imps graph =
     (case enclosingFunctionAndClass syntax offset of
        None \<Rightarrow> None
      | Some (current, cls) \<Rightarrow>
          if graph = None \<or> length source < ss_ScopeStart cls then None
          else case FindStringSubmatch definitionBindingPattern (ss_Text current) of
            None \<Rightarrow> None
          | Some m \<Rightarrow> if m 1 \<noteq> ''get_queryset'' then None
              else admin_decorators source imps graph (line_before source (ss_ScopeStart cls)))"

definition adminQuerySetBinding :: string where
  "adminQuerySetBinding = ''__pogo_admin_queryset__''"

text \<open>\<open>super().get_queryset(...)\<close> becomes the binding, followed by the rest of the expression.\<close>

definition rewriteAdminQuerySetExpression :: "string \<Rightarrow> string option" where
  "rewriteAdminQuerySetExpression expression =
     (let p1 = skipExpressionSpace expression 0 in
      if \<not> HasPrefix (drop p1 expression) ''super'' then None
      else let p2 = skipExpressionSpace expression (p1 + length ''super'') in
        if length expression \<le> p2 \<or> expression ! p2 \<noteq> CHR ''('' then None
        else case skipCall expression p2 of
          None \<Rightarrow> None
        | Some e1 \<Rightarrow>
            if TrimSpace (subslice expression (Suc p2) (e1 - 1)) \<noteq> [] then None
            else let p3 = skipExpressionSpace expression e1 in
              if length expression \<le> p3 \<or> expression ! p3 \<noteq> CHR ''.'' then None
              else let p4 = skipExpressionSpace expression (Suc p3) in
                if \<not> HasPrefix (drop p4 expression) ''get_queryset'' then None
                else let p5 = skipExpressionSpace expression (p4 + length ''get_queryset'') in
                  if length expression \<le> p5 \<or> expression ! p5 \<noteq> CHR ''('' then None
                  else map_option (\<lambda>e2. adminQuerySetBinding @ drop e2 expression) (skipCall expression p5))"

section \<open>Collecting the statements in force\<close>

record forBinding =
  for_variable :: string
  for_iterable :: string

record statementScan =
  scan_lines :: "string list"
  scan_guarded :: "string list"
  scan_future :: "string list"
  scan_opaque :: "string list"
  scan_pending :: "forBinding list"

definition first_line :: "string \<Rightarrow> string" where
  "first_line s = (case IndexByte s CHR 0x0A of Some nl \<Rightarrow> take nl s | None \<Rightarrow> s)"

definition in_scope :: "SyntaxStatement \<Rightarrow> SyntaxStatement \<Rightarrow> bool" where
  "in_scope cur st \<longleftrightarrow> ss_ScopeKind st = [] \<or>
     ss_ScopeStart st = ss_ScopeStart cur \<and> ss_ScopeEnd st = ss_ScopeEnd cur \<and> ss_ScopeKind st = ss_ScopeKind cur"

definition scan_marker :: "SyntaxStatement \<Rightarrow> nat \<Rightarrow> SyntaxStatement \<Rightarrow> statementScan \<Rightarrow> statementScan" where
  "scan_marker cur offset st s =
     (if ss_Start st = ss_Start cur \<and> ss_End st = ss_End cur
         \<or> ss_ScopeEnd cur \<noteq> 0 \<and> (ss_Start st \<le> ss_ScopeStart cur \<or> ss_ScopeEnd cur < ss_End st) then s
      else if is_function cur \<or> ss_End st \<le> offset then
        (case FindStringSubmatch definitionBindingPattern (ss_Text st) of
           Some m \<Rightarrow> s\<lparr>scan_opaque := scan_opaque s @ [m 1]\<rparr> | None \<Rightarrow> s)
      else s)"

text \<open>A guarded statement: only the \<open>for\<close> around the cursor binds its variable to something known.\<close>

definition scan_guarded_statement :: "(nat \<Rightarrow> bool) \<Rightarrow> nat \<Rightarrow> SyntaxStatement \<Rightarrow> statementScan \<Rightarrow> statementScan" where
  "scan_guarded_statement wide offset st s =
     (case (if ss_Start st < offset \<and> offset \<le> ss_End st
            then FindStringSubmatch forHeaderPattern (first_line (ss_Text st)) else None) of
        Some m \<Rightarrow> s\<lparr>scan_pending := scan_pending s @ [\<lparr>for_variable = m 1, for_iterable = TrimSpace (m 2)\<rparr>]\<rparr>
      | None \<Rightarrow> s\<lparr>scan_guarded := scan_guarded s @ statementBindingNames wide (ss_Text st)\<rparr>)"

definition scan_statement :: "(nat \<Rightarrow> bool) \<Rightarrow> SyntaxStatement \<Rightarrow> nat \<Rightarrow> SyntaxStatement \<Rightarrow> statementScan \<Rightarrow> statementScan" where
  "scan_statement wide cur offset st s =
     (if ss_ScopeMarker st then scan_marker cur offset st s
      else if ss_Guarded st then
        (if in_scope cur st \<and> (ss_Start st < offset \<or> is_function cur) then scan_guarded_statement wide offset st s else s)
      else if offset < ss_End st \<and> in_scope cur st \<and> is_function cur then
        s\<lparr>scan_future := scan_future s @ statementBindingNames wide (ss_Text st)\<rparr>
      else if ss_End st \<le> offset \<and> in_scope cur st then
        s\<lparr>scan_lines := scan_lines s @ [ss_Text st],
          scan_opaque := scan_opaque s @ (if recognizedEnvironmentStatement (ss_Text st) then []
            else statementBindingNames wide (ss_Text st))\<rparr>
      else s)"

definition collect_statements :: "(nat \<Rightarrow> bool) \<Rightarrow> string \<Rightarrow> SyntaxStatement list \<Rightarrow> nat \<Rightarrow> statementScan" where
  "collect_statements wide source syntax offset =
     (let empty = \<lparr>scan_lines = [], scan_guarded = [], scan_future = [], scan_opaque = [], scan_pending = []\<rparr> in
      if syntax = [] then empty\<lparr>scan_lines := split_byte CHR 0x0A source\<rparr>
      else let ordered = sort_key ss_Start syntax; cur = smallest_scope (scope_around offset) ordered in
        fold (scan_statement wide cur offset) ordered empty)"

section \<open>Reading a statement\<close>

type_synonym environment = "import_map \<times> bindings"

definition bind_value :: "string \<Rightarrow> Value \<Rightarrow> environment \<Rightarrow> environment" where
  "bind_value name v env = ((fst env)(name := None), (snd env)(name \<mapsto> v))"

definition forget :: "string \<Rightarrow> environment \<Rightarrow> environment" where
  "forget name env = ((fst env)(name := None), (snd env)(name := None))"

definition add_import :: "string \<Rightarrow> string list \<Rightarrow> environment \<Rightarrow> environment" where
  "add_import modname parts env = ((fst env)(import_local parts \<mapsto> modname @ ''.'' @ hd parts), snd env)"

text \<open>The value of an annotation \<open>name: annotation\<close>.\<close>

definition annotation_value :: "string \<Rightarrow> import_map \<Rightarrow> graph_ptr \<Rightarrow> Value" where
  "annotation_value annotation imps graph =
     (let plain = (\<lambda>cls kind. case resolveClass cls imps graph of
        Some label \<Rightarrow> value_of label kind | None \<Rightarrow> zero_Value) in
      case IndexByte annotation CHR ''['' of
        Some opening \<Rightarrow>
          (if HasSuffix annotation '']'' then
             (let container = expandImport (take opening annotation) imps in
              if container \<noteq> ''QuerySet'' \<and> \<not> HasSuffix container ''.QuerySet'' then zero_Value
              else plain (subslice annotation (Suc opening) (length annotation - 1)) ValueQuerySet)
           else plain annotation ValueModelInstance)
      | None \<Rightarrow> plain annotation ValueModelInstance)"

definition read_annotation :: "(nat \<Rightarrow> bool) \<Rightarrow> graph_ptr \<Rightarrow> (nat \<Rightarrow> string) \<Rightarrow> environment \<Rightarrow> environment" where
  "read_annotation wide graph m env =
     (let assigned = (if m 3 \<noteq> [] then resolveExpression wide (m 3) (fst env) (snd env) graph else zero_Value) in
      bind_value (m 1) (if val_Kind assigned \<noteq> ValueUnknown then assigned else annotation_value (m 2) (fst env) graph) env)"

text \<open>The value of a loop variable over an iterable.\<close>

definition element_of :: "Value \<Rightarrow> Value option" where
  "element_of iterable = (if val_Kind iterable = ValueQuerySet
     then Some ((value_of (val_CanonicalLabel iterable) ValueModelInstance)\<lparr>val_Annotations := val_Annotations iterable\<rparr>)
     else None)"

definition read_for :: "(nat \<Rightarrow> bool) \<Rightarrow> graph_ptr \<Rightarrow> (nat \<Rightarrow> string) \<Rightarrow> environment \<Rightarrow> environment" where
  "read_for wide graph m env =
     (let iterable = resolveExpression wide (TrimSpace (m 2)) (fst env) (snd env) graph in
      bind_value (m 1) (case element_of iterable of Some v \<Rightarrow> v | None \<Rightarrow> zero_Value) env)"

definition assigned_value :: "(nat \<Rightarrow> bool) \<Rightarrow> graph_ptr \<Rightarrow> SyntaxStatement list \<Rightarrow> nat \<Rightarrow> string \<Rightarrow> (nat \<Rightarrow> string) \<Rightarrow> environment \<Rightarrow> Value" where
  "assigned_value wide graph syntax offset filePath m env =
     (if m 1 = ''self'' \<and> TrimSpace (m 2) = ''__pogo_model_receiver__'' then
        (case enclosingModelLabel syntax offset filePath graph of
           Some label \<Rightarrow> value_of label ValueModelInstance | None \<Rightarrow> zero_Value)
      else case djangoShortcutValue wide (m 2) (fst env) graph of
        Some shortcut \<Rightarrow> shortcut
      | None \<Rightarrow> resolveExpression wide (m 2) (fst env) (snd env) graph)"

definition read_line :: "(nat \<Rightarrow> bool) \<Rightarrow> graph_ptr \<Rightarrow> SyntaxStatement list \<Rightarrow> nat \<Rightarrow> string \<Rightarrow> string \<Rightarrow> environment \<Rightarrow> environment" where
  "read_line wide graph syntax offset filePath rawLine env = (let line = import_line rawLine in
     case FindStringSubmatch fromImportPattern line of
       Some m \<Rightarrow> fold (add_import (m 1)) (import_items (m 2)) env
     | None \<Rightarrow> (case FindStringSubmatch importPattern line of
       Some m \<Rightarrow> (let top = hd (split_byte CHR ''.'' (m 1)) in
         if m 2 \<noteq> [] then ((fst env)(m 2 \<mapsto> m 1), snd env) else ((fst env)(top \<mapsto> top), snd env))
     | None \<Rightarrow> (case FindStringSubmatch annotationPattern line of
       Some m \<Rightarrow> read_annotation wide graph m env
     | None \<Rightarrow> (case FindStringSubmatch forHeaderPattern line of
       Some m \<Rightarrow> read_for wide graph m env
     | None \<Rightarrow> (case FindStringSubmatch assignmentPattern line of
       Some m \<Rightarrow> bind_value (m 1) (assigned_value wide graph syntax offset filePath m env) env
     | None \<Rightarrow> env)))))"

section \<open>The environment at the cursor\<close>

definition read_pending :: "(nat \<Rightarrow> bool) \<Rightarrow> graph_ptr \<Rightarrow> forBinding \<Rightarrow> environment \<Rightarrow> environment" where
  "read_pending wide graph b env = (let env' = forget (for_variable b) env in
     case element_of (resolveExpression wide (for_iterable b) (fst env') (snd env') graph) of
       Some v \<Rightarrow> (fst env', (snd env')(for_variable b \<mapsto> v))
     | None \<Rightarrow> env')"

definition buildEnvironmentAtPath :: "(nat \<Rightarrow> bool) \<Rightarrow> string \<Rightarrow> graph_ptr \<Rightarrow> SyntaxStatement list \<Rightarrow> nat \<Rightarrow> string \<Rightarrow> environment" where
  "buildEnvironmentAtPath wide source graph syntax offset filePath =
     (let s = collect_statements wide source syntax offset;
          env = fold (read_line wide graph syntax offset filePath) (scan_lines s) (Map.empty, Map.empty);
          env = fold (read_pending wide graph) (scan_pending s) env in
      fold forget (scan_opaque s) (fold forget (scan_future s) (fold forget (scan_guarded s) env)))"

definition buildEnvironment :: "(nat \<Rightarrow> bool) \<Rightarrow> string \<Rightarrow> graph_ptr \<Rightarrow> SyntaxStatement list \<Rightarrow> nat \<Rightarrow> environment" where
  "buildEnvironment wide source graph syntax offset = buildEnvironmentAtPath wide source graph syntax offset []"

definition inferExpressionAtPath :: "(nat \<Rightarrow> bool) \<Rightarrow> string \<Rightarrow> string \<Rightarrow> graph_ptr \<Rightarrow> SyntaxStatement list \<Rightarrow> nat \<Rightarrow> string \<Rightarrow> Value" where
  "inferExpressionAtPath wide expression sourcePrefix graph syntax offset filePath =
     (let (imps, vs) = buildEnvironmentAtPath wide sourcePrefix graph syntax offset filePath;
          vs = (case enclosingModelClass syntax offset filePath graph of
             Some (label, name) \<Rightarrow> if imps name = None \<and> vs name = None then vs(name \<mapsto> value_of label ValueModelClass) else vs
           | None \<Rightarrow> vs) in
      case rewriteAdminQuerySetExpression expression of
        None \<Rightarrow> resolveExpression wide expression imps vs graph
      | Some rewritten \<Rightarrow>
          (case enclosingAdminModelLabel sourcePrefix syntax offset imps graph of
             Some label \<Rightarrow> resolveExpression wide rewritten imps (vs(adminQuerySetBinding \<mapsto> value_of label ValueQuerySet)) graph
           | None \<Rightarrow> resolveExpression wide expression imps vs graph))"

definition inferExpression :: "(nat \<Rightarrow> bool) \<Rightarrow> string \<Rightarrow> string \<Rightarrow> graph_ptr \<Rightarrow> SyntaxStatement list \<Rightarrow> nat \<Rightarrow> Value" where
  "inferExpression wide expression sourcePrefix graph syntax offset =
     inferExpressionAtPath wide expression sourcePrefix graph syntax offset []"

end
