(* ===== verification/Infer_Typing.thy ===== *)
theory Infer_Typing
  imports Infer_Environment Schema_Build Python_Scan_Facts
begin

text \<open>
  The types of inferred values: a value names a model of the graph, a manager it holds is one of that
  model's, and the parts that do not belong to its kind are empty. Every operation of the inference
  keeps this, from the members of an expression to the environment of a scope, for any graph whose
  own answers are models it knows; a built graph is one.
\<close>

section \<open>Graphs that answer with their own models\<close>

definition graph_typed :: "graph_ptr \<Rightarrow> bool" where
  "graph_typed graph \<longleftrightarrow>
     (\<forall>cls label. CanonicalLabelForClass graph cls = Some label \<longrightarrow> HasModel graph label) \<and>
     (\<forall>fp cls label. CanonicalLabelForSourceClass graph fp cls = Some label \<longrightarrow> HasModel graph label) \<and>
     (\<forall>l name access label. InstanceAccess graph l name = Some access \<longrightarrow>
        FieldRef_RelatedModel (Some (fa_Field access)) = Some label \<longrightarrow> HasModel graph label)"

lemma graph_typed_nil: "graph_typed None"
  by (simp add: graph_typed_def CanonicalLabelForClass_def CanonicalLabelForSourceClass_def InstanceAccess_def graph_model_def)

lemma Build_typed:
  assumes "Build ev s = Inr g" and "snapshot_maps_ok s"
  shows "graph_typed (Some g)"
proof -
  note spec = Build_spec [OF assms]
  from spec obtain g0 where inv: "build_inv ev (models_of (snap_Apps s)) g0"
    and g: "g = g0\<lparr>g_canonical := map (\<lambda>(l, index). (l, linked_index index)) (g_canonical g0)\<rparr>"
    by (auto simp: graph_spec_def)
  have keys: "map fst (g_canonical g0) = map label_of (models_of (snap_Apps s))"
    using inv by (simp add: build_inv_def models_inv_def)
  have "HasModel (Some g) l \<longleftrightarrow> l \<in> set (map fst (g_canonical g0))" for l
    by (auto simp: HasModel_def graph_model_def g map_of_linked map_of_eq_None_iff simp flip: not_None_eq)
  then have has: "HasModel (Some g) (model_CanonicalLabel m)" if "m \<in> snd ` set (models_of (snap_Apps s))" for m
    unfolding keys using that by auto
  have exports: "HasModel (Some g) l" if e: "export_entry (export_labels (models_of (snap_Apps s)) p) = Some (Some l)" for p l
  proof -
    have "l \<in> set (export_labels (models_of (snap_Apps s)) p)"
      using e by (auto simp: export_entry_def split: list.splits)
    then obtain am where "am \<in> set (models_of (snap_Apps s))" "label_of am = l" by (auto simp: export_labels_def)
    then show ?thesis using has [of "snd am"] by auto
  qed
  have cls: "HasModel (Some g) label" if c: "CanonicalLabelForClass (Some g) p = Some label" for p label
  proof (cases "map_of (g_classPath g0) p")
    case (Some l)
    with c have "l = label" by (simp add: CanonicalLabelForClass_def g)
    then obtain m where "m \<in> snd ` set (models_of (snap_Apps s))" "model_CanonicalLabel m = label"
      using inv Some unfolding build_inv_def models_inv_def by blast
    then show ?thesis using has by blast
  next
    case None
    with c inv have "export_entry (export_labels (models_of (snap_Apps s)) p) = Some (Some label)"
      by (simp add: CanonicalLabelForClass_def g build_inv_def exports_inv_def bind_eq_Some_conv)
    then show ?thesis by (rule exports)
  qed
  have src: "HasModel (Some g) label" if c: "CanonicalLabelForSourceClass (Some g) fp q = Some label" for fp q label
  proof -
    have "map_of (g_sourceClass g0) (sourceClassKey fp q) = Some label"
      using c by (simp add: CanonicalLabelForSourceClass_def g split: if_splits)
    then obtain m where "m \<in> snd ` set (models_of (snap_Apps s))" "model_CanonicalLabel m = label"
      using inv unfolding build_inv_def sources_inv_def by blast
    then show ?thesis using has by blast
  qed
  have acc: "HasModel (Some g) label"
    if a: "InstanceAccess (Some g) l name = Some access" and r: "FieldRef_RelatedModel (Some (fa_Field access)) = Some label"
    for l name access label
  proof -
    from a obtain index' a0 where known: "graph_model (Some g) l = Some index'" and a0: "access = access_at index' a0"
      by (auto simp: InstanceAccess_def bind_eq_Some_conv)
    from graph_spec_known [OF spec known] obtain m index where index: "index_spec m index" "index' = linked_index index"
      and closed: "\<And>n ref. (n, ref) \<in> set (mi_fields index) \<Longrightarrow>
       (field_SourceModelAbstract (fref_field ref) \<or> HasModel (Some g) (field_SourceModel (fref_field ref))) \<and>
       (\<forall>target. field_RelatedModel (fref_field ref) = Some target \<longrightarrow> HasModel (Some g) target)"
      by metis
    have rel: "fref_related (field_at index' (fa_Field a0)) = Some label"
      using r by (simp add: a0 access_at_def map_access_def FieldRef_RelatedModel_def)
    then obtain ref where ref: "map_of (mi_fields index') (fa_Field a0) = Some ref" "fref_related ref = Some label"
      by (auto simp: field_at_def zero_FieldRef_def split: option.splits)
    have m: "ref = \<lparr>fref_field = model_field m (fa_Field a0), fref_related = field_RelatedModel (model_field m (fa_Field a0))\<rparr>"
      using ref(1) linked_fields [OF index(1), of "fa_Field a0"] by (simp add: index(2) split: if_splits)
    from ref(1) obtain ref0 where r0: "map_of (mi_fields index) (fa_Field a0) = Some ref0" "ref = linked_ref ref0"
      by (auto simp: index(2) linked_index_def map_of_map)
    have "fref_field (linked_ref ref0) = fref_field ref0" by (simp add: linked_ref_def split: option.split)
    then have "field_RelatedModel (fref_field ref0) = Some label" using m r0(2) ref(2) by (metis FieldRef.select_convs)
    with closed [OF map_of_SomeD [OF r0(1)]] show ?thesis by blast
  qed
  show ?thesis unfolding graph_typed_def using cls src acc by blast
qed

section \<open>Values\<close>

definition value_typed :: "(nat \<Rightarrow> bool) \<Rightarrow> graph_ptr \<Rightarrow> Value \<Rightarrow> bool" where
  "value_typed wide graph v \<longleftrightarrow>
     (val_Kind v \<noteq> ValueUnknown \<longrightarrow> HasModel graph (val_CanonicalLabel v)) \<and>
     (val_ManagerName v \<noteq> [] \<longrightarrow> val_Kind v = ValueManager \<and>
        graph_Manager graph (val_CanonicalLabel v) (val_ManagerName v) \<noteq> None) \<and>
     (val_QuerySetClass v \<noteq> [] \<longrightarrow> val_Kind v = ValueManager \<or> val_Kind v = ValueQuerySet) \<and>
     (val_Annotations v \<noteq> [] \<longrightarrow> val_Kind v \<in> {ValueManager, ValueQuerySet, ValueModelInstance}) \<and>
     (\<forall>a \<in> set (val_Annotations v). identifierText wide a)"

definition env_typed :: "(nat \<Rightarrow> bool) \<Rightarrow> graph_ptr \<Rightarrow> bindings \<Rightarrow> bool" where
  "env_typed wide graph vs \<longleftrightarrow> (\<forall>name v. vs name = Some v \<longrightarrow> value_typed wide graph v)"

lemma zero_typed [simp, intro]: "value_typed wide graph zero_Value"
  by (simp add: value_typed_def zero_Value_def)

lemma value_of_typed [simp]: "kind \<noteq> ValueUnknown \<Longrightarrow> value_typed wide graph (value_of label kind) = HasModel graph label"
  by (simp add: value_typed_def value_of_def zero_Value_def)

lemma keywordArgName_identifier: "keywordArgName wide seg = Some n \<Longrightarrow> identifierText wide n"
  by (auto simp: keywordArgName_def Let_def split: if_splits)

lemma annotation_switch_names:
  assumes "annotation_switch wide args i ev s = Inr s'" and "\<forall>n \<in> set (fst s). identifierText wide n"
  shows "\<forall>n \<in> set (fst s'). identifierText wide n"
proof -
  obtain names depth start where s: "s = (names, depth, start)" by (metis prod_cases3)
  show ?thesis
    using assms keywordArgName_identifier
    by (cases ev) (auto simp: s annotation_switch_def split: if_splits option.splits)
qed

lemma annotation_names_identifiers:
  assumes "n \<in> set (annotationKeywordNames wide args)"
  shows "identifierText wide n"
proof (cases "lex_fold quote_lexer (annotation_switch wide args) args 0 InCode ([], 0, 0)")
  case (Inl u)
  with assms show ?thesis by (simp add: annotationKeywordNames_def)
next
  case (Inr st)
  obtain mode names depth start where st: "st = (mode, names, depth, start)" by (cases st) auto
  have "\<forall>n \<in> set (fst (names, depth, start)). identifierText wide n"
    by (rule lex_fold_invariant [where P = "\<lambda>_ s. \<forall>n \<in> set (fst s). identifierText wide n", OF Inr [unfolded st]])
      (use annotation_switch_names in auto)
  then have names: "\<forall>n \<in> set names. identifierText wide n" by simp
  with assms keywordArgName_identifier show ?thesis
    by (auto simp: annotationKeywordNames_def Inr st split: if_splits option.splits)
qed

section \<open>Expressions\<close>

lemma class_member_typed:
  assumes "value_typed wide graph v" and "val_Kind v = ValueModelClass" and "class_member graph v m = Some v'"
  shows "value_typed wide graph v'"
  using assms by (auto simp: class_member_def value_typed_def Let_def split: if_splits option.splits)

lemma as_queryset_typed: "value_typed wide graph v \<Longrightarrow> val_Kind v \<in> {ValueManager, ValueQuerySet} \<Longrightarrow> value_typed wide graph (as_queryset v)"
  by (auto simp: value_typed_def as_queryset_def)

lemma query_member_typed:
  assumes v: "value_typed wide graph v" and k: "val_Kind v \<in> {ValueManager, ValueQuerySet}"
    and m: "query_member wide graph v m = Some v'"
  shows "value_typed wide graph v'"
proof -
  have q: "value_typed wide graph (as_queryset v)" by (rule as_queryset_typed [OF v k])
  have kind: "val_Kind (as_queryset v) = ValueQuerySet" "val_Annotations (as_queryset v) = val_Annotations v"
    by (simp_all add: as_queryset_def)
  consider "v' = as_queryset v" | "v' = v\<lparr>val_Kind := ValueModelInstance, val_ManagerName := [], val_QuerySetClass := []\<rparr>"
    | args where "v' = (as_queryset v)\<lparr>val_Annotations := val_Annotations v @ annotationKeywordNames wide args\<rparr>"
    using m by (auto simp: query_member_def split: option.splits if_splits)
  then show ?thesis
  proof cases
    case 1
    with q show ?thesis by simp
  next
    case 2
    with v k show ?thesis by (auto simp: value_typed_def)
  next
    case 3
    with q kind v annotation_names_identifiers show ?thesis by (auto simp: value_typed_def)
  qed
qed

lemma instance_member_typed:
  assumes g: "graph_typed graph" and m: "instance_member graph v m = Some v'"
  shows "value_typed wide graph v'"
proof -
  obtain access label where a: "InstanceAccess graph (val_CanonicalLabel v) (mem_name m) = Some access"
    and l: "FieldRef_RelatedModel (Some (fa_Field access)) = Some label"
    and v': "v' = value_of label ValueModelInstance \<or> v' = value_of label ValueManager"
    using m by (auto simp: instance_member_def singleRelatedInstance_def relatedManagerModel_def split: if_splits option.splits)
  have "HasModel graph label" using g a l unfolding graph_typed_def by blast
  with v' show ?thesis by auto
qed

lemma member_typed:
  assumes "graph_typed graph" and "value_typed wide graph v" and "member_value wide graph v m = Some v'"
  shows "value_typed wide graph v'"
  using assms class_member_typed [of wide graph v m v'] query_member_typed [of wide graph v m v']
    instance_member_typed [of graph v m v' wide]
  by (cases "val_Kind v") (simp_all add: member_value_def)

lemma follow_members_typed:
  assumes "graph_typed graph" and "value_typed wide graph v"
  shows "value_typed wide graph (follow_members wide graph expression segments v position)"
  using assms
proof (induction wide graph expression segments v position rule: follow_members.induct)
  case (1 wide graph expression segments v position)
  let ?p = "skipExpressionSpace expression position"
  show ?case
  proof (cases "\<not> length expression \<le> position \<and> \<not> MaxPathSegments < Suc segments \<and> ?p \<noteq> length expression \<and> expression ! ?p = CHR ''.''")
    case False
    then show ?thesis
      using "1.prems" by (auto simp: follow_members.simps [of wide graph expression segments v position] Let_def)
  next
    case cont: True
    show ?thesis
    proof (cases "parse_member expression ?p")
      case None
      with cont show ?thesis by (simp add: follow_members.simps [of wide graph expression segments v position] Let_def)
    next
      case (Some mq)
      obtain m q where mq: "mq = (m, q)" by (cases mq)
      show ?thesis
      proof (cases "member_value wide graph v m")
        case None
        with cont Some mq show ?thesis by (simp add: follow_members.simps [of wide graph expression segments v position] Let_def)
      next
        case v': (Some v')
        have "value_typed wide graph (follow_members wide graph expression (Suc segments) v' q)"
          by (rule "1.IH" [OF _ _ refl _ _ Some mq [symmetric] v' "1.prems"(1) member_typed [OF "1.prems" v']]) (use cont in auto)
        with cont Some mq v' show ?thesis by (simp add: follow_members.simps [of wide graph expression segments v position] Let_def)
      qed
    qed
  qed
qed

lemma resolveClass_model: "graph_typed graph \<Longrightarrow> resolveClass cls imps graph = Some label \<Longrightarrow> HasModel graph label"
  unfolding graph_typed_def resolveClass_def by blast

lemma longest_class_model:
  "graph_typed graph \<Longrightarrow> longest_class reference imps graph boundary = Some (label, b) \<Longrightarrow> HasModel graph label"
proof (induction reference imps graph boundary rule: longest_class.induct)
  case (1 reference imps graph boundary)
  note typed = "1.prems"(1) and found = "1.prems"(2)
  note unfold = longest_class.simps [of reference imps graph boundary]
  have nz: "boundary \<noteq> 0"
  proof
    assume "boundary = 0"
    with found unfold show False by simp
  qed
  show ?case
  proof (cases "resolveClass (take boundary reference) imps graph")
    case (Some l)
    with found nz unfold have "l = label" by (simp add: Let_def)
    with Some show ?thesis using resolveClass_model [OF typed] by simp
  next
    case None
    with found nz unfold obtain previous where p: "LastIndexByte (take boundary reference) CHR ''.'' = Some previous"
      "longest_class reference imps graph previous = Some (label, b)"
      by (auto simp: Let_def split: option.splits)
    show ?thesis by (rule "1.IH" [OF nz refl None p(1) typed p(2)])
  qed
qed

lemma base_value_typed:
  assumes "graph_typed graph" and "env_typed wide graph vs" and "base_value reference imps vs graph = (v, n)"
  shows "value_typed wide graph v"
proof (cases "longest_class reference imps graph (length reference)")
  case None
  with assms show ?thesis
    by (auto simp: base_value_def binding_at_def env_typed_def split: option.splits)
next
  case (Some lb)
  obtain label b where lb: "lb = (label, b)" by (cases lb)
  with Some assms(3) have "v = value_of label ValueModelClass" by (simp add: base_value_def)
  with longest_class_model [OF assms(1) Some [unfolded lb]] show ?thesis by simp
qed

lemma call_base_typed:
  assumes "value_typed wide graph v" and "call_base expression v consumed = Some (v', position)"
  shows "value_typed wide graph v'"
proof -
  have "v' = v \<or> val_Kind v = ValueModelClass \<and> v' = v\<lparr>val_Kind := ValueModelInstance\<rparr>"
    using assms(2) by (auto simp: call_base_def Let_def split: if_splits option.splits)
  with assms(1) show ?thesis by (auto simp: value_typed_def)
qed

lemma resolveExpression_typed:
  assumes g: "graph_typed graph" and e: "env_typed wide graph vs"
  shows "value_typed wide graph (resolveExpression wide s imps vs graph)"
proof -
  let ?e = "strip_group (TrimSpace s)"
  obtain v n where b: "base_value (expression_reference ?e) imps vs graph = (v, n)"
    by (cases "base_value (expression_reference ?e) imps vs graph")
  have v: "value_typed wide graph v" by (rule base_value_typed [OF g e b])
  have "value_typed wide graph (case call_base ?e v n of None \<Rightarrow> zero_Value
      | Some (v', position) \<Rightarrow> follow_members wide graph ?e 0 v' position)"
    using call_base_typed [OF v] follow_members_typed [OF g] by (auto split: option.split)
  moreover have "value_typed wide graph w" if "vs ?e = Some w" for w using e that by (auto simp: env_typed_def)
  ultimately show ?thesis
    by (auto simp: resolveExpression_def Let_def b split: option.split)
qed

lemma shortcut_typed:
  assumes "graph_typed graph" and "djangoShortcutValue wide s imps graph = Some v"
  shows "value_typed wide graph v"
proof -
  obtain arg label where "resolveClass arg imps graph = Some label" "v = value_of label ValueModelInstance"
    using assms(2) by (auto simp: djangoShortcutValue_def Let_def split: option.splits if_splits)
  with resolveClass_model [OF assms(1)] show ?thesis by auto
qed

section \<open>Environments\<close>

abbreviation typed_in :: "(nat \<Rightarrow> bool) \<Rightarrow> graph_ptr \<Rightarrow> environment \<Rightarrow> bool" where
  "typed_in wide graph env \<equiv> env_typed wide graph (snd env)"

lemma bind_value_typed: "typed_in wide graph env \<Longrightarrow> value_typed wide graph v \<Longrightarrow> typed_in wide graph (bind_value name v env)"
  by (simp add: env_typed_def bind_value_def)

lemma forget_typed: "typed_in wide graph env \<Longrightarrow> typed_in wide graph (forget name env)"
  by (simp add: env_typed_def forget_def)

lemma forget_all_typed: "typed_in wide graph env \<Longrightarrow> typed_in wide graph (fold forget names env)"
  by (induction names arbitrary: env) (simp_all add: forget_typed)

lemma imports_typed: "typed_in wide graph env \<Longrightarrow> typed_in wide graph (fold (add_import modname) items env)"
  by (induction items arbitrary: env) (simp_all add: add_import_def)

lemma element_of_typed: "value_typed wide graph v \<Longrightarrow> element_of v = Some w \<Longrightarrow> value_typed wide graph w"
  by (auto simp: element_of_def value_typed_def value_of_def zero_Value_def split: if_splits)

lemma annotation_value_typed:
  assumes "graph_typed graph"
  shows "value_typed wide graph (annotation_value annotation imps graph)"
  using resolveClass_model [OF assms]
  by (auto simp: annotation_value_def Let_def split: option.split)

lemma enclosing_label_model:
  "graph_typed graph \<Longrightarrow> enclosingModelLabel syntax offset fp graph = Some label \<Longrightarrow> HasModel graph label"
  "graph_typed graph \<Longrightarrow> enclosingModelClass syntax offset fp graph = Some (label, name) \<Longrightarrow> HasModel graph label"
  unfolding graph_typed_def enclosingModelLabel_def enclosingModelClass_def Let_def
  by (auto split: if_splits option.splits)

lemma read_line_typed:
  assumes g: "graph_typed graph" and e: "typed_in wide graph env"
  shows "typed_in wide graph (read_line wide graph syntax offset fp line env)"
proof -
  note resolve = resolveExpression_typed [OF g e]
  have ann: "typed_in wide graph (read_annotation wide graph m env)" for m
    unfolding read_annotation_def Let_def
    by (rule bind_value_typed [OF e]) (use resolve annotation_value_typed [OF g] in auto)
  have forv: "typed_in wide graph (read_for wide graph m env)" for m
    unfolding read_for_def Let_def
    by (rule bind_value_typed [OF e]) (use element_of_typed [OF resolve] in \<open>auto split: option.split\<close>)
  have asg: "typed_in wide graph (bind_value (m 1) (assigned_value wide graph syntax offset fp m env) env)" for m
    by (rule bind_value_typed [OF e])
      (use resolve shortcut_typed [OF g] enclosing_label_model(1) [OF g] in \<open>auto simp: assigned_value_def split: option.split\<close>)
  show ?thesis
    unfolding read_line_def Let_def
    using ann forv asg imports_typed [OF e] e by (auto split: option.split)
qed

lemma read_pending_typed:
  assumes g: "graph_typed graph" and e: "typed_in wide graph env"
  shows "typed_in wide graph (read_pending wide graph b env)"
proof -
  let ?env = "forget (for_variable b) env"
  have e': "typed_in wide graph ?env" by (rule forget_typed [OF e])
  have "value_typed wide graph w"
    if "element_of (resolveExpression wide (for_iterable b) (fst ?env) (snd ?env) graph) = Some w" for w
    by (rule element_of_typed [OF resolveExpression_typed [OF g e'] that])
  with e' show ?thesis by (auto simp: read_pending_def Let_def env_typed_def split: option.split)
qed

lemma fold_typed:
  assumes "\<And>x env. typed_in wide graph env \<Longrightarrow> typed_in wide graph (f x env)" and "typed_in wide graph env"
  shows "typed_in wide graph (fold f xs env)"
  using assms(2) by (induction xs arbitrary: env) (simp_all add: assms(1))

lemma environment_typed:
  assumes g: "graph_typed graph"
  shows "typed_in wide graph (buildEnvironmentAtPath wide source graph syntax offset fp)"
  unfolding buildEnvironmentAtPath_def Let_def
  by (intro forget_all_typed fold_typed read_pending_typed read_line_typed g) (simp_all add: env_typed_def)

lemma admin_decorators_model:
  "graph_typed graph \<Longrightarrow> admin_decorators source imps graph cursor = Some label \<Longrightarrow> HasModel graph label"
proof (induction source imps graph cursor rule: admin_decorators.induct)
  case (1 source imps graph cursor)
  note typed = "1.prems"(1) and found = "1.prems"(2)
  note unfold = admin_decorators.simps [of source imps graph cursor]
  let ?start = "line_before source (cursor - 1)"
  let ?line = "TrimSpace (subslice source ?start (cursor - 1))"
  have c: "\<not> (cursor = 0 \<or> length source < cursor)" "HasPrefix ?line ''@''"
    using found unfold by (auto simp: Let_def split: if_splits)
  show ?case
  proof (cases "FindStringSubmatch adminRegisterPattern ?line")
    case None
    with found unfold c have "admin_decorators source imps graph ?start = Some label" by (simp add: Let_def)
    with "1.IH"(1) [OF c(1) refl refl refl _ None typed] c(2) show ?thesis by simp
  next
    case (Some m)
    show ?thesis
    proof (cases "expandImport (m 1) imps = ''django.contrib.admin.register''")
      case True
      with found unfold c Some have "resolveClass (m 2) imps graph = Some label" by (simp add: Let_def)
      then show ?thesis by (rule resolveClass_model [OF typed])
    next
      case False
      with found unfold c Some have "admin_decorators source imps graph ?start = Some label" by (simp add: Let_def)
      with "1.IH"(2) [OF c(1) refl refl refl _ Some False typed] c(2) show ?thesis by simp
    qed
  qed
qed

lemma inferred_typed:
  assumes g: "graph_typed graph"
  shows "value_typed wide graph (inferExpressionAtPath wide expression pre graph syntax offset fp)"
proof -
  obtain imps vs where env: "buildEnvironmentAtPath wide pre graph syntax offset fp = (imps, vs)"
    by (cases "buildEnvironmentAtPath wide pre graph syntax offset fp")
  have vs: "env_typed wide graph vs" using environment_typed [OF g, of wide pre "syntax" offset fp] by (simp add: env)
  define vs' where "vs' = (case enclosingModelClass syntax offset fp graph of
             Some (label, name) \<Rightarrow> if imps name = None \<and> vs name = None then vs(name \<mapsto> value_of label ValueModelClass) else vs
           | None \<Rightarrow> vs)"
  have vs': "env_typed wide graph vs'"
    using vs enclosing_label_model(2) [OF g] by (auto simp: vs'_def env_typed_def split: option.split)
  have admin: "HasModel graph label" if "enclosingAdminModelLabel pre syntax offset imps graph = Some label" for label
  proof -
    show ?thesis using that admin_decorators_model [OF g] by (auto simp: enclosingAdminModelLabel_def split: option.splits if_splits)
  qed
  have bound: "env_typed wide graph (vs'(adminQuerySetBinding \<mapsto> value_of label ValueQuerySet))" if "HasModel graph label" for label
    using vs' that by (simp add: env_typed_def)
  have "inferExpressionAtPath wide expression pre graph syntax offset fp =
      (case rewriteAdminQuerySetExpression expression of
         None \<Rightarrow> resolveExpression wide expression imps vs' graph
       | Some rewritten \<Rightarrow> (case enclosingAdminModelLabel pre syntax offset imps graph of
           None \<Rightarrow> resolveExpression wide expression imps vs' graph
         | Some label \<Rightarrow> resolveExpression wide rewritten imps (vs'(adminQuerySetBinding \<mapsto> value_of label ValueQuerySet)) graph))"
    unfolding inferExpressionAtPath_def Let_def env prod.case vs'_def [symmetric] ..
  then show ?thesis
    using resolveExpression_typed [OF g vs'] resolveExpression_typed [OF g bound [OF admin]]
    by (simp split: option.split)
qed

end
