(* ===== verification/Infer_Chain.thy ===== *)
theory Infer_Chain
  imports Infer_Environment
begin

text \<open>
  What \<open>resolveExpression\<close> does with a member chain \<open>name.member.member(...)\<close> as Python prints it: the
  loop over bytes is the fold of \<open>member_value\<close> over the members. Arguments may hold anything, as long
  as the parentheses of the call are closed by the last one.
\<close>

section \<open>Printed chains\<close>

definition name_ok :: "string \<Rightarrow> bool" where
  "name_ok n \<longleftrightarrow> n \<noteq> [] \<and> (\<forall>c \<in> set n. isIdentifierByte c)"

fun print_member :: "member \<Rightarrow> string" where
  "print_member m = CHR ''.'' # mem_name m @ (case mem_args m of None \<Rightarrow> [] | Some a \<Rightarrow> CHR ''('' # a @ '')'')"

definition member_ok :: "member \<Rightarrow> bool" where
  "member_ok m \<longleftrightarrow> name_ok (mem_name m) \<and>
     (case mem_args m of None \<Rightarrow> True | Some a \<Rightarrow> skipCall (CHR ''('' # a @ '')'') 0 = Some (length a + 2))"

definition print_chain :: "string \<Rightarrow> member list \<Rightarrow> string" where
  "print_chain n ms = n @ concat (map print_member ms)"

definition chain_value :: "(nat \<Rightarrow> bool) \<Rightarrow> graph_ptr \<Rightarrow> Value \<Rightarrow> member list \<Rightarrow> Value option" where
  "chain_value wide graph v ms = foldl (\<lambda>w m. Option.bind w (\<lambda>w. member_value wide graph w m)) (Some v) ms"

lemma chain_value_simps [simp]:
  "chain_value wide graph v [] = Some v"
  "chain_value wide graph v (m # ms) = Option.bind (member_value wide graph v m) (\<lambda>w. chain_value wide graph w ms)"
proof -
  have none: "foldl (\<lambda>w m. Option.bind w (\<lambda>w. member_value wide graph w m)) None ms = None" for ms
    by (induction ms) simp_all
  show "chain_value wide graph v [] = Some v" by (simp add: chain_value_def)
  show "chain_value wide graph v (m # ms) = Option.bind (member_value wide graph v m) (\<lambda>w. chain_value wide graph w ms)"
    by (cases "member_value wide graph v m") (simp_all add: chain_value_def none)
qed

lemma identifier_byte:
  assumes "isIdentifierByte c"
  shows "byte c < 0x80" "\<not> IsSpace (byte c)" "\<not> isSpace c" "c \<noteq> CHR ''.''" "c \<noteq> CHR ''(''" "c \<noteq> CHR '')''"
proof -
  show "byte c < 0x80" using assms by (auto simp: isIdentifierByte_def)
  show "\<not> IsSpace (byte c)" using assms by (auto simp: isIdentifierByte_def IsSpace_def)
qed (use assms in \<open>auto simp: isIdentifierByte_def isSpace_def\<close>)

lemma name_okD:
  assumes "name_ok n"
  shows "n \<noteq> []" "CHR ''.'' \<notin> set n" "\<forall>c \<in> set n. isIdentifierByte c"
  using assms identifier_byte(4) by (auto simp: name_ok_def)

section \<open>Calls inside a longer text\<close>

fun mode_flat :: "lexmode \<Rightarrow> bool" where
  "mode_flat (InTriple q) = False"
| "mode_flat mode = True"

lemma lex_step_flat:
  assumes "mode_flat mode"
  shows "lex_step line_lexer mode c (cs @ t) = lex_step line_lexer mode c cs"
    and "lex_step line_lexer mode c cs = (mode', n, e) \<Longrightarrow> mode_flat mode' \<and> n = 1"
  using assms by (cases mode; auto simp: line_lexer_def split: if_splits)+

lemma lex_fold_more:
  "mode_flat mode \<Longrightarrow> lex_fold line_lexer f s index mode st = Inl r \<Longrightarrow> lex_fold line_lexer f (s @ t) index mode st = Inl r"
proof (induction s arbitrary: index mode st)
  case (Cons c cs)
  obtain mode' n e where e: "lex_step line_lexer mode c cs = (mode', n, e)" by (metis prod_cases3)
  with lex_step_flat [OF Cons.prems(1), of c cs] have "mode_flat mode'" "n = 1"
    "lex_step line_lexer mode c (cs @ t) = (mode', 1, e)" by auto
  with Cons.prems(2) e Cons.IH show ?case by (auto split: option.splits sum.splits)
qed simp

lemma skip_call_shift:
  "mode_flat mode \<Longrightarrow> lex_fold line_lexer skip_call_switch s index mode d = Inl r \<Longrightarrow>
   lex_fold line_lexer skip_call_switch s (k + index) mode d = Inl (k + r)"
proof (induction s arbitrary: index mode d)
  case (Cons c cs)
  obtain mode' n e where e: "lex_step line_lexer mode c cs = (mode', n, e)" by (metis prod_cases3)
  with lex_step_flat(2) [OF Cons.prems(1)] have n: "mode_flat mode'" "n = 1" by auto
  note after = Cons.IH [OF n(1), of "Suc index"]
  show ?case
  proof (cases e)
    case None
    then show ?thesis using Cons.prems(2) e n after by simp
  next
    case (Some ev)
    then show ?thesis
      using Cons.prems(2) e n after
      by (cases ev) (auto simp: skip_call_switch_def split: if_splits)
  qed
qed simp

lemma skipCall_inside:
  assumes "skipCall (CHR ''('' # a @ '')'') 0 = Some (length a + 2)"
  shows "skipCall (pre @ CHR ''('' # a @ CHR '')'' # post) (length pre) = Some (length pre + length a + 2)"
proof -
  have "lex_fold line_lexer skip_call_switch (CHR ''('' # a @ '')'') 0 InCode 0 = Inl (length a + 2)"
    using assms by (auto simp: skipCall_def split: sum.splits)
  then have "lex_fold line_lexer skip_call_switch ((CHR ''('' # a @ '')'') @ post) (length pre + 0) InCode 0 =
      Inl (length pre + (length a + 2))"
    by (intro skip_call_shift lex_fold_more) simp_all
  then show ?thesis by (simp add: skipCall_def)
qed

section \<open>Spaces and names\<close>

lemma skip_none: "\<not> (i < e \<and> p i) \<Longrightarrow> skip_while p e i = i"
  by (subst skip_while.simps) auto

lemma skip_name:
  assumes "\<forall>c \<in> set n. q c" and "rest = [] \<or> \<not> q (hd rest)"
  shows "skip_while (\<lambda>i. q ((pre @ n @ rest) ! i)) (length (pre @ n @ rest)) (length pre) = length pre + length n"
  using assms(1)
proof (induction n arbitrary: pre)
  case Nil
  then show ?case using assms(2) by (subst skip_none) (auto simp: nth_append hd_conv_nth)
next
  case (Cons c cs)
  show ?case
    using Cons.IH [of "pre @ [c]"] Cons.prems
    by (subst skip_while.simps) (simp add: nth_append)
qed

lemma skip_space_solid:
  "rest = [] \<or> \<not> isSpace (hd rest) \<Longrightarrow> skipExpressionSpace (pre @ rest) (length pre) = length pre"
  unfolding skipExpressionSpace_def by (rule skip_none) (auto simp: nth_append hd_conv_nth)

lemma TrimSpace_ends:
  assumes "byte c < 0x80" "\<not> IsSpace (byte c)" "byte d < 0x80" "\<not> IsSpace (byte d)" and "c # s = t @ [d]"
  shows "TrimSpace (c # s) = c # s"
proof -
  have "TrimLeftFunc IsSpace (c # s) = c # s" using assms(1,2) by (simp add: TrimLeftFunc_ascii del: TrimLeftFunc.simps)
  moreover have "TrimRightFunc IsSpace (c # s) = c # s" using assms(3-5) by (simp add: TrimRightFunc_ascii)
  ultimately show ?thesis by (simp add: TrimSpace_def)
qed

section \<open>Members\<close>

definition chain_rest :: "string \<Rightarrow> bool" where
  "chain_rest rest \<longleftrightarrow> rest = [] \<or> hd rest = CHR ''.''"

lemma chain_rest_members: "chain_rest (concat (map print_member ms))"
  by (cases ms) (simp_all add: chain_rest_def)

lemma not_identifier [simp]: "\<not> isIdentifierByte CHR ''.''" "\<not> isIdentifierByte CHR ''(''" "\<not> isIdentifierByte CHR '')''"
  by (simp_all add: isIdentifierByte_def)

lemma not_space [simp]: "\<not> isSpace CHR ''.''" "\<not> isSpace CHR ''(''" "\<not> isSpace CHR '')''"
  by (simp_all add: isSpace_def)

lemma parse_member_chain:
  assumes m: "member_ok m" and rest: "chain_rest rest"
  shows "parse_member (pre @ print_member m @ rest) (length pre) = Some (m, length pre + length (print_member m))"
proof -
  define name where "name = mem_name m"
  have name: "name \<noteq> []" "\<forall>c \<in> set name. isIdentifierByte c" using m by (simp_all add: member_ok_def name_ok_def name_def)
  define tail where "tail = (case mem_args m of None \<Rightarrow> rest | Some a \<Rightarrow> CHR ''('' # a @ CHR '')'' # rest)"
  define pre' where "pre' = pre @ ''.''"
  have e: "pre @ print_member m @ rest = pre' @ name @ tail"
    by (simp add: pre'_def tail_def name_def split: option.split)
  have tail_hd: "tail = [] \<or> \<not> isIdentifierByte (hd tail)" "tail = [] \<or> \<not> isSpace (hd tail)"
    using rest by (auto simp: tail_def chain_rest_def split: option.split)
  have start: "skipExpressionSpace (pre' @ name @ tail) (Suc (length pre)) = length pre'"
    using skip_space_solid [of "name @ tail" pre'] name identifier_byte(3) by (cases name) (auto simp: pre'_def)
  have stop: "skip_while (\<lambda>i. isIdentifierByte ((pre' @ name @ tail) ! i)) (length (pre' @ name @ tail)) (length pre') =
      length pre' + length name"
    by (rule skip_name [OF name(2) tail_hd(1)])
  have nxt: "skipExpressionSpace (pre' @ name @ tail) (length pre' + length name) = length pre' + length name"
    using skip_space_solid [OF tail_hd(2), of "pre' @ name"] by simp
  have name_at: "subslice (pre' @ name @ tail) (length pre') (length pre' + length name) = name"
    by (simp add: subslice_def)
  have len: "length pre + length (print_member m) = length pre' + length name + (case mem_args m of None \<Rightarrow> 0 | Some a \<Rightarrow> length a + 2)"
    by (simp add: pre'_def name_def split: option.split)
  note parts = parse_member_def Let_def e start stop nxt name_at len
  show ?thesis
  proof (cases "mem_args m")
    case None
    then have m': "m = \<lparr>mem_name = name, mem_args = None\<rparr>" by (simp add: name_def)
    have "\<not> (length pre' + length name < length (pre' @ name @ tail) \<and>
        (pre' @ name @ tail) ! (length pre' + length name) = CHR ''('')"
      using rest None by (auto simp: tail_def chain_rest_def nth_append hd_conv_nth)
    then show ?thesis using name(1) unfolding parts by (auto simp: m')
  next
    case (Some a)
    then have m': "m = \<lparr>mem_name = name, mem_args = Some a\<rparr>" by (simp add: name_def)
    have tail: "tail = CHR ''('' # a @ CHR '')'' # rest" by (simp add: tail_def Some)
    have "skipCall (CHR ''('' # a @ '')'') 0 = Some (length a + 2)" using m Some by (simp add: member_ok_def)
    then have call: "skipCall (pre' @ name @ tail) (length pre' + length name) = Some (length pre' + length name + length a + 2)"
      using skipCall_inside [of a "pre' @ name" rest] by (simp add: tail)
    have inner: "subslice (pre' @ name @ tail) (Suc (length pre' + length name)) (Suc (length pre' + length name + length a)) = a"
      by (simp add: tail subslice_def)
    have op: "length pre' + length name < length (pre' @ name @ tail)"
      "(pre' @ name @ tail) ! (length pre' + length name) = CHR ''(''"
      by (simp_all add: tail nth_append)
    show ?thesis using name(1) op unfolding parts call by (simp add: m' inner)
  qed
qed

lemma follow_chain:
  assumes "\<forall>m \<in> set ms. member_ok m" and "segments \<le> MaxPathSegments"
  shows "follow_members wide graph (pre @ concat (map print_member ms)) segments v (length pre) =
    (if MaxPathSegments < segments + length ms then zero_Value
     else case chain_value wide graph v ms of Some w \<Rightarrow> w | None \<Rightarrow> zero_Value)"
  using assms
proof (induction ms arbitrary: pre segments v)
  case Nil
  then show ?case by (simp add: follow_members.simps [of wide graph _ segments])
next
  case (Cons m ms)
  define rest where "rest = concat (map print_member ms)"
  have e: "pre @ concat (map print_member (m # ms)) = pre @ print_member m @ rest" by (simp add: rest_def)
  have rest: "chain_rest rest" unfolding rest_def by (rule chain_rest_members)
  have space: "skipExpressionSpace (pre @ print_member m @ rest) (length pre) = length pre"
    using skip_space_solid [of "print_member m @ rest" pre] by simp
  have dot: "length pre < length (pre @ print_member m @ rest)" "(pre @ print_member m @ rest) ! length pre = CHR ''.''"
    by (simp_all add: nth_append)
  have parse: "parse_member (pre @ print_member m @ rest) (length pre) = Some (m, length (pre @ print_member m))"
    using parse_member_chain [OF _ rest, of m pre] Cons.prems(1) by simp
  have step: "follow_members wide graph (pre @ print_member m @ rest) segments v (length pre) =
      (if MaxPathSegments < Suc segments then zero_Value
       else case member_value wide graph v m of None \<Rightarrow> zero_Value
         | Some v' \<Rightarrow> follow_members wide graph (pre @ print_member m @ rest) (Suc segments) v' (length (pre @ print_member m)))"
    using dot
    by (subst follow_members.simps) (simp add: Let_def space parse del: print_member.simps length_append)
  show ?case
  proof (cases "MaxPathSegments < Suc segments")
    case False
    have "follow_members wide graph (pre @ print_member m @ rest) (Suc segments) v' (length (pre @ print_member m)) =
      (if MaxPathSegments < Suc segments + length ms then zero_Value
       else case chain_value wide graph v' ms of Some w \<Rightarrow> w | None \<Rightarrow> zero_Value)" for v'
      using Cons.IH [of "Suc segments" "pre @ print_member m" v'] Cons.prems False
      by (simp add: rest_def del: print_member.simps length_append)
    then show ?thesis unfolding e step using False by (simp split: option.split del: print_member.simps)
  qed (simp only: e step, simp)
qed

section \<open>The base of a chain\<close>

definition chain_base :: "string \<Rightarrow> import_map \<Rightarrow> bindings \<Rightarrow> graph_ptr \<Rightarrow> Value" where
  "chain_base n imps vs graph = (case resolveClass n imps graph of
     Some label \<Rightarrow> value_of label ValueModelClass | None \<Rightarrow> binding_at vs n)"

lemma chain_reference:
  assumes "name_ok n" and "chain_rest rest"
  obtains tail where "expression_reference (n @ rest) = n @ tail" "chain_rest tail" "\<exists>more. rest = tail @ more"
proof -
  let ?p = "\<lambda>c. isIdentifierByte c \<or> c = CHR ''.''"
  let ?w = "takeWhile ?p rest"
  have w: "takeWhile ?p (n @ rest) = n @ ?w" using name_okD(3) [OF assms(1)] by (simp add: takeWhile_append)
  obtain more where more: "rest = ?w @ more" by (metis takeWhile_dropWhile_id)
  have wrest: "chain_rest ?w" using assms(2) by (cases rest) (auto simp: chain_rest_def)
  show thesis
  proof (cases "?w \<noteq> [] \<and> last ?w = CHR ''.''")
    case True
    then obtain u where u: "?w = u @ ''.''" by (metis append_butlast_last_id)
    have "TrimSuffix (n @ ?w) ''.'' = n @ u" unfolding u by (simp add: TrimSuffix_def HasSuffix_def)
    moreover have "chain_rest u" using wrest unfolding u by (cases u) (auto simp: chain_rest_def)
    moreover have "\<exists>more. rest = u @ more" using more u by (metis append_assoc)
    ultimately show thesis using that by (simp add: expression_reference_def w)
  next
    case False
    have "\<not> HasSuffix (n @ ?w) ''.''"
    proof
      assume "HasSuffix (n @ ?w) ''.''"
      then obtain x where "n @ ?w = x @ ''.''" unfolding HasSuffix_def by (metis append_take_drop_id)
      then have "last (n @ ?w) = CHR ''.''" by simp
      moreover have "last n \<noteq> CHR ''.''" using name_okD(1,2) [OF assms(1)] last_in_set by metis
      ultimately show False using False by (cases "?w = []") (auto simp: last_append)
    qed
    then have "TrimSuffix (n @ ?w) ''.'' = n @ ?w" by (simp add: TrimSuffix_def)
    then show thesis using that wrest more by (metis expression_reference_def w)
  qed
qed

lemma longest_class_chain:
  assumes n: "name_ok n" and tail: "chain_rest tail"
    and none: "\<And>k. length n < k \<Longrightarrow> k \<le> length (n @ tail) \<Longrightarrow> resolveClass (take k (n @ tail)) imps graph = None"
  shows "length n \<le> b \<Longrightarrow> b \<le> length (n @ tail) \<Longrightarrow> longest_class (n @ tail) imps graph b =
    map_option (\<lambda>label. (label, length n)) (resolveClass n imps graph)"
proof (induction b rule: less_induct)
  case (less b)
  have b: "b \<noteq> 0" using less.prems(1) name_okD(1) [OF n] by (cases b) auto
  show ?case
  proof (cases "b = length n")
    case True
    then show ?thesis
      using b name_okD(2) [OF n] by (subst longest_class.simps) (simp add: LastIndexByte_None [THEN iffD2] split: option.split)
  next
    case False
    with less.prems have long: "length n < b" by simp
    with less.prems tail obtain t where t: "tail = CHR ''.'' # t" by (cases tail) (auto simp: chain_rest_def)
    let ?c = "take b (n @ tail)"
    obtain d where d: "b - length n = Suc d" using long by (cases "b - length n") auto
    then have c: "?c = n @ CHR ''.'' # take d t" using long by (simp add: t)
    have dot: "?c \<noteq> [] \<and> CHR ''.'' \<in> set ?c" unfolding c by simp
    then obtain p where p: "LastIndexByte ?c CHR ''.'' = Some p" using LastIndexByte_None [of ?c "CHR ''.''"] by (cases "LastIndexByte ?c CHR ''.''") auto
    have pb: "p < b" "CHR ''.'' \<notin> set (drop (Suc p) ?c)" using LastIndexByte_Some [OF p] by auto
    have "length n \<le> p"
    proof (rule ccontr)
      assume "\<not> length n \<le> p"
      then have "CHR ''.'' \<in> set (drop (Suc p) ?c)" unfolding c by (simp add: Suc_le_eq not_le)
      with pb(2) show False by simp
    qed
    with less.IH [OF pb(1)] pb(1) less.prems(2)
    have "longest_class (n @ tail) imps graph p = map_option (\<lambda>label. (label, length n)) (resolveClass n imps graph)" by simp
    then show ?thesis using b p none [OF long less.prems(2)] by (subst longest_class.simps) (simp add: Let_def)
  qed
qed

lemma IndexByte_split: "c \<notin> set b \<Longrightarrow> IndexByte (b @ c # a) c = Some (length b)"
  by (induction b) auto

lemma chain_base_value:
  assumes n: "name_ok n" and rest: "chain_rest rest"
    and none: "\<And>k. length n < k \<Longrightarrow> resolveClass (take k (n @ rest)) imps graph = None"
  shows "base_value (expression_reference (n @ rest)) imps vs graph = (chain_base n imps vs graph, length n)"
proof -
  obtain tail where tail: "expression_reference (n @ rest) = n @ tail" "chain_rest tail" "\<exists>more. rest = tail @ more"
    using chain_reference [OF n rest] by blast
  obtain more where more: "rest = tail @ more" using tail(3) by blast
  have none': "resolveClass (take k (n @ tail)) imps graph = None" if "length n < k" "k \<le> length (n @ tail)" for k
    using none [OF that(1)] that by (simp add: more)
  have long: "longest_class (n @ tail) imps graph (length (n @ tail)) = map_option (\<lambda>label. (label, length n)) (resolveClass n imps graph)"
    by (rule longest_class_chain [OF n tail(2) none']) auto
  have first: "first_segment (n @ tail) = length n"
  proof (cases tail)
    case Nil
    then show ?thesis using name_okD(2) [OF n] by (simp add: first_segment_def IndexByte_None [THEN iffD2])
  next
    case (Cons c t)
    then show ?thesis using tail(2) name_okD(2) [OF n] by (simp add: first_segment_def chain_rest_def IndexByte_split)
  qed
  show ?thesis
    unfolding tail(1) base_value_def long by (simp add: first chain_base_def split: option.split)
qed

lemma last_member_byte:
  assumes "member_ok m"
  obtains d where "print_member m = butlast (print_member m) @ [d]" "byte d < 0x80" "\<not> IsSpace (byte d)"
proof (cases "mem_args m")
  case None
  define name where "name = mem_name m"
  have name: "name \<noteq> []" "\<forall>c \<in> set name. isIdentifierByte c" using assms by (simp_all add: member_ok_def name_ok_def name_def)
  then have "isIdentifierByte (last name)" by simp
  then show thesis
    using that [of "last name"] identifier_byte(1,2) None name(1) by (simp add: name_def)
next
  case (Some a)
  show thesis by (rule that [of "CHR '')''"]) (simp_all add: Some IsSpace_def butlast_append)
qed

lemma print_chain_trimmed:
  assumes n: "name_ok n" and ms: "\<forall>m \<in> set ms. member_ok m"
  shows "TrimSpace (print_chain n ms) = print_chain n ms" and "strip_group (print_chain n ms) = print_chain n ms"
proof -
  obtain c cs where c: "n = c # cs" using name_okD(1) [OF n] by (cases n) auto
  have ci: "isIdentifierByte c" using name_okD(3) [OF n] c by simp
  have "\<exists>t d. print_chain n ms = t @ [d] \<and> byte d < 0x80 \<and> \<not> IsSpace (byte d)"
  proof (cases ms rule: rev_cases)
    case Nil
    have "isIdentifierByte (last n)" using name_okD(1,3) [OF n] by simp
    then show ?thesis using identifier_byte(1,2) name_okD(1) [OF n]
      by (intro exI [of _ "butlast n"] exI [of _ "last n"]) (simp add: Nil print_chain_def)
  next
    case (snoc ms' m)
    from ms snoc obtain d where d: "print_member m = butlast (print_member m) @ [d]" "byte d < 0x80" "\<not> IsSpace (byte d)"
      using last_member_byte [of m] by auto
    have "print_chain n ms = (n @ concat (map print_member ms') @ butlast (print_member m)) @ [d]"
      using d(1) by (simp add: snoc print_chain_def del: print_member.simps)
    with d(2,3) show ?thesis by blast
  qed
  then obtain t d where d: "print_chain n ms = t @ [d]" "byte d < 0x80" "\<not> IsSpace (byte d)" by blast
  show "TrimSpace (print_chain n ms) = print_chain n ms"
    using TrimSpace_ends [OF identifier_byte(1,2) [OF ci] d(2,3)] d(1) by (simp add: print_chain_def c)
  have "\<not> HasPrefix (print_chain n ms) ''(''"
    using identifier_byte(5) [OF ci] by (auto simp: print_chain_def c HasPrefix_def)
  then show "strip_group (print_chain n ms) = print_chain n ms" by (simp add: strip_group.simps)
qed

lemma resolve_chain:
  assumes n: "name_ok n" and ms: "ms \<noteq> []" "\<forall>m \<in> set ms. member_ok m"
    and size: "int (length (print_chain n ms)) \<le> MaxPathBytes" and unbound: "vs (print_chain n ms) = None"
    and none: "\<And>k. length n < k \<Longrightarrow> resolveClass (take k (print_chain n ms)) imps graph = None"
  shows "resolveExpression wide (print_chain n ms) imps vs graph =
    (if MaxPathSegments < length ms then zero_Value
     else case chain_value wide graph (chain_base n imps vs graph) ms of Some w \<Rightarrow> w | None \<Rightarrow> zero_Value)"
proof -
  define rest where "rest = concat (map print_member ms)"
  have e: "print_chain n ms = n @ rest" by (simp add: print_chain_def rest_def)
  have rest: "chain_rest rest" unfolding rest_def by (rule chain_rest_members)
  have solid: "rest = [] \<or> \<not> isSpace (hd rest)" using rest by (auto simp: chain_rest_def)
  have b: "base_value (expression_reference (n @ rest)) imps vs graph = (chain_base n imps vs graph, length n)"
    by (rule chain_base_value [OF n rest]) (use none in \<open>simp add: e\<close>)
  have call: "call_base (n @ rest) v (length n) = Some (v, length n)" for v
    using skip_space_solid [OF solid, of n] rest
    by (auto simp: call_base_def Let_def chain_rest_def nth_append hd_conv_nth)
  have follow: "follow_members wide graph (n @ rest) 0 v (length n) = (if MaxPathSegments < length ms then zero_Value
     else case chain_value wide graph v ms of Some w \<Rightarrow> w | None \<Rightarrow> zero_Value)" for v
    using follow_chain [OF ms(2), of 0 wide graph n v] by (simp add: rest_def MaxPathSegments_def)
  have unknown: "chain_value wide graph v ms = None" if "val_Kind v = ValueUnknown" for v
    using ms(1) that by (cases ms) (simp_all add: member_value_def)
  have trimmed: "TrimSpace (n @ rest) = n @ rest" "strip_group (n @ rest) = n @ rest"
    using print_chain_trimmed [OF n ms(2)] by (simp_all only: e)
  show ?thesis
    using size unbound name_okD(1) [OF n] unknown [of "chain_base n imps vs graph"]
    unfolding resolveExpression_def Let_def e trimmed b prod.case call option.case follow
    by (cases "val_Kind (chain_base n imps vs graph) = ValueUnknown") simp_all
qed

lemma resolve_name:
  assumes n: "name_ok n" and size: "int (length n) \<le> MaxPathBytes" and unbound: "vs n = None" and unclassed: "resolveClass n imps graph = None"
  shows "resolveExpression wide n imps vs graph = zero_Value"
proof -
  have b: "base_value (expression_reference n) imps vs graph = (chain_base n imps vs graph, length n)"
    using chain_base_value [OF n, of "[]" imps graph] unclassed by (simp add: chain_rest_def)
  show ?thesis
    using print_chain_trimmed [OF n, of "[]"] size unbound unclassed name_okD(1) [OF n]
    by (simp add: print_chain_def resolveExpression_def Let_def b chain_base_def binding_at_def zero_Value_def)
qed

end
