(* ===== verification/Infer_Properties.thy ===== *)
theory Infer_Properties
  imports Infer_Typing Infer_Chain Schema_Sample
begin

text \<open>
  The properties of the inference: what it answers is well typed, a member chain is the fold of its
  members, and a name that is bound in a way the inference does not follow has no value.
\<close>

section \<open>Names bound where the inference cannot follow\<close>

definition scope_at :: "SyntaxStatement list \<Rightarrow> nat \<Rightarrow> SyntaxStatement" where
  "scope_at syntax offset = smallest_scope (scope_around offset) (sort_key ss_Start syntax)"

text \<open>
  A statement of the scope around the cursor that may or may not have run there: one under a
  condition, a loop or a \<open>try\<close>, one behind the cursor in the same function, or one before the cursor
  that none of the patterns reads. The header of a \<open>for\<close> around the cursor is not one of them.
\<close>

definition binds_unread :: "SyntaxStatement list \<Rightarrow> nat \<Rightarrow> SyntaxStatement \<Rightarrow> bool" where
  "binds_unread syntax offset st \<longleftrightarrow> (let cur = scope_at syntax offset in
     \<not> ss_ScopeMarker st \<and> in_scope cur st \<and>
     (if ss_Guarded st
      then (ss_Start st < offset \<or> is_function cur) \<and>
        \<not> (ss_Start st < offset \<and> offset \<le> ss_End st \<and> FindStringSubmatch forHeaderPattern (first_line (ss_Text st)) \<noteq> None)
      else if offset < ss_End st then is_function cur else \<not> recognizedEnvironmentStatement (ss_Text st)))"

definition unread_names :: "statementScan \<Rightarrow> string set" where
  "unread_names s = set (scan_guarded s) \<union> set (scan_future s) \<union> set (scan_opaque s)"

lemma scan_marker_mono: "unread_names s \<subseteq> unread_names (scan_marker cur offset st s)"
  unfolding scan_marker_def
  by (cases "FindStringSubmatch definitionBindingPattern (ss_Text st)") (auto simp: unread_names_def)

lemma scan_guarded_mono: "unread_names s \<subseteq> unread_names (scan_guarded_statement wide offset st s)"
  unfolding scan_guarded_statement_def
  by (rule option.induct) (auto simp: unread_names_def split: option.split)

lemma scan_statement_mono: "unread_names s \<subseteq> unread_names (scan_statement wide cur offset st s)"
  unfolding scan_statement_def
  using scan_marker_mono scan_guarded_mono by (simp only: split: if_split) (auto simp: unread_names_def)

lemma scan_statements_mono: "unread_names s \<subseteq> unread_names (fold (scan_statement wide cur offset) sts s)"
proof (induction sts arbitrary: s)
  case (Cons st sts)
  show ?case unfolding fold_simps by (rule order_trans [OF scan_statement_mono Cons.IH])
qed simp

lemma scan_statement_unread:
  assumes "binds_unread syntax offset st" and "n \<in> set (statementBindingNames wide (ss_Text st))"
  shows "n \<in> unread_names (scan_statement wide (scope_at syntax offset) offset st s)"
  using assms
  by (auto simp: binds_unread_def Let_def unread_names_def scan_statement_def scan_guarded_statement_def split: if_splits option.splits)

lemma collected_unread:
  assumes "st \<in> set syntax" and "binds_unread syntax offset st" and "n \<in> set (statementBindingNames wide (ss_Text st))"
  shows "n \<in> unread_names (collect_statements wide source syntax offset)"
proof -
  have "st \<in> set (sort_key ss_Start syntax)" using assms(1) by simp
  then obtain before after where split: "sort_key ss_Start syntax = before @ st # after" by (metis split_list)
  define cur where "cur = scope_at syntax offset"
  define empty where "empty = \<lparr>scan_lines = [], scan_guarded = [], scan_future = [], scan_opaque = [], scan_pending = []\<rparr>"
  have "syntax \<noteq> []" using assms(1) by auto
  then have "collect_statements wide source syntax offset = fold (scan_statement wide cur offset) (sort_key ss_Start syntax) empty"
    by (simp add: collect_statements_def Let_def cur_def scope_at_def empty_def)
  also have "\<dots> = fold (scan_statement wide cur offset) after (scan_statement wide cur offset st
      (fold (scan_statement wide cur offset) before empty))" by (simp add: split)
  finally show ?thesis
    using subsetD [OF scan_statements_mono scan_statement_unread [OF assms(2,3)]] unfolding cur_def by simp
qed

lemma forget_all:
  "fst (fold forget names env) n = (if n \<in> set names then None else fst env n)"
  "snd (fold forget names env) n = (if n \<in> set names then None else snd env n)"
  by (induction names arbitrary: env) (auto simp: forget_def)

lemma unread_unbound:
  assumes "n \<in> unread_names (collect_statements wide source syntax offset)"
  shows "fst (buildEnvironmentAtPath wide source graph syntax offset fp) n = None \<and>
    snd (buildEnvironmentAtPath wide source graph syntax offset fp) n = None"
  using assms by (auto simp: buildEnvironmentAtPath_def Let_def unread_names_def forget_all)

lemma rewrite_name: "name_ok n \<Longrightarrow> rewriteAdminQuerySetExpression n = None"
proof -
  assume n: "name_ok n"
  have "n ! i \<noteq> CHR ''(''" if "i < length n" for i
    using name_okD(3) [OF n] identifier_byte(5) that by auto
  then show ?thesis by (auto simp: rewriteAdminQuerySetExpression_def Let_def not_less)
qed

lemma resolve_unbound_class: "imps n = None \<Longrightarrow> name_ok n \<Longrightarrow> resolveClass n imps graph = CanonicalLabelForClass graph n"
proof -
  assume imp: "imps n = None" and n: "name_ok n"
  obtain b a found where c: "cut_byte CHR ''.'' n = (b, a, found)" by (metis prod_cases3)
  have "\<not> found" using cut_byte_found [of "CHR ''.''" n b a] c name_okD(2) [OF n] by (cases found) auto
  then have "b = n" using cut_byte_not_found [of "CHR ''.''" n b a] c by simp
  with c imp show ?thesis by (simp add: resolveClass_def expandImport_def)
qed

section \<open>Properties\<close>

text \<open>C14. Inference is well typed. Whatever expression is inferred in whatever source, the value names
  a model of the built graph, the manager it holds is one of that model's managers, a queryset class
  is only on managers and querysets, annotations are only on what rows can carry and are identifiers.\<close>

theorem inference_type_sound:
  assumes "Build ev s = Inr g" and "snapshot_maps_ok s"
  shows "value_typed wide (Some g) (inferExpressionAtPath wide expression source (Some g) syntax offset fp)"
  by (rule inferred_typed [OF Build_typed [OF assms]])

text \<open>C15. The expression loop is a fold. A chain of members printed as Python writes it, with arguments
  that may hold anything as long as their own parentheses close, has the value found by taking one
  member after the other from the value of its name; longer than 64 members it is unknown.\<close>

theorem member_chain_is_fold:
  assumes "name_ok n" and "ms \<noteq> []" and "\<forall>m \<in> set ms. member_ok m"
    and "int (length (print_chain n ms)) \<le> MaxPathBytes" and "vs (print_chain n ms) = None"
    and "\<And>k. length n < k \<Longrightarrow> resolveClass (take k (print_chain n ms)) imps graph = None"
  shows "resolveExpression wide (print_chain n ms) imps vs graph =
    (if MaxPathSegments < length ms then zero_Value
     else case chain_value wide graph (chain_base n imps vs graph) ms of Some w \<Rightarrow> w | None \<Rightarrow> zero_Value)"
  by (rule resolve_chain [where n = n and ms = ms and vs = vs and imps = imps and graph = graph, OF assms])

text \<open>C16. A rebinding the inference cannot follow hides the name. If a statement of the scope that may or
  may not have run, or that no pattern reads, binds a name, the environment at the cursor has neither
  an import nor a value for it, and the name alone is inferred as unknown, unless it is the name of the
  class that encloses the cursor or the qualified name of a class of the graph.\<close>

theorem unread_binding_unknown:
  assumes "st \<in> set syntax" and "binds_unread syntax offset st" and "n \<in> set (statementBindingNames wide (ss_Text st))"
    and "name_ok n" and "int (length n) \<le> MaxPathBytes" and "CanonicalLabelForClass graph n = None"
    and "\<And>label. enclosingModelClass syntax offset fp graph \<noteq> Some (label, n)"
  shows "fst (buildEnvironmentAtPath wide source graph syntax offset fp) n = None \<and>
    snd (buildEnvironmentAtPath wide source graph syntax offset fp) n = None \<and>
    inferExpressionAtPath wide n source graph syntax offset fp = zero_Value"
proof -
  obtain imps vs where env: "buildEnvironmentAtPath wide source graph syntax offset fp = (imps, vs)"
    by (cases "buildEnvironmentAtPath wide source graph syntax offset fp")
  have none: "imps n = None" "vs n = None"
    using unread_unbound [OF collected_unread [OF assms(1-3)], of source graph fp] by (simp_all add: env)
  define vs' where "vs' = (case enclosingModelClass syntax offset fp graph of
             Some (label, name) \<Rightarrow> if imps name = None \<and> vs name = None then vs(name \<mapsto> value_of label ValueModelClass) else vs
           | None \<Rightarrow> vs)"
  have "vs' n = None" using assms(7) none by (auto simp: vs'_def split: option.split)
  then have "resolveExpression wide n imps vs' graph = zero_Value"
    using resolve_name [of n vs' imps graph wide, OF assms(4,5)] resolve_unbound_class [of imps n graph, OF none(1) assms(4)] assms(6) by simp
  then have "inferExpressionAtPath wide n source graph syntax offset fp = zero_Value"
    unfolding inferExpressionAtPath_def Let_def env prod.case vs'_def [symmetric] rewrite_name [OF assms(4)] option.case .
  with none show ?thesis by (simp add: env)
qed

section \<open>Witnesses\<close>

lemma inference_type_sound_witness:
  "\<exists>g. Build Some sample_snapshot = Inr g \<and>
     value_typed (\<lambda>_. False) (Some g) (inferExpressionAtPath (\<lambda>_. False) ''x'' ''x = 1'' (Some g) [] 5 ''/m'')"
proof -
  obtain g where g: "Build Some sample_snapshot = Inr g" by (rule sample_graph)
  show ?thesis using inference_type_sound [OF g sample_maps_ok] g by blast
qed

definition sample_chain :: "member list" where
  "sample_chain = [\<lparr>mem_name = ''annotate'', mem_args = Some ''n=1''\<rparr>, \<lparr>mem_name = ''get'', mem_args = Some ''f(1)''\<rparr>]"

lemma sample_members: "list_all member_ok sample_chain"
  by code_simp

lemma sample_printed: "print_chain ''x'' sample_chain = ''x.annotate(n=1).get(f(1))''"
  by code_simp

lemma sample_name: "name_ok ''x''" "identifierText (\<lambda>_. False) ''n''"
  by code_simp+

lemma sample_keyword: "annotationKeywordNames (\<lambda>_. False) ''n=1'' = [''n'']"
proof -
  have "TrimSpace ''n=1'' = ''n=1''" "TrimSpace ''n'' = ''n''"
    by (rule TrimSpace_solid(1); simp add: IsSpace_def)+
  then have "keywordArgName (\<lambda>_. False) ''n=1'' = Some ''n''"
    by (simp add: keywordArgName_def is_open_def sample_name)
  then show ?thesis
    by (simp add: annotationKeywordNames_def annotation_switch_def quote_lexer_def is_quote_def bracket_depth_def is_open_def is_close_def)
qed

lemma member_chain_is_fold_witness:
  "resolveExpression (\<lambda>_. False) ''x.annotate(n=1).get(f(1))'' Map.empty [''x'' \<mapsto> value_of ''s.Book'' ValueQuerySet] None =
     (value_of ''s.Book'' ValueModelInstance)\<lparr>val_Annotations := [''n'']\<rparr>"
proof -
  have res: "chain_value (\<lambda>_. False) None (chain_base ''x'' Map.empty [''x'' \<mapsto> value_of ''s.Book'' ValueQuerySet] None) sample_chain =
      Some ((value_of ''s.Book'' ValueModelInstance)\<lparr>val_Annotations := [''n'']\<rparr>)"
    by (simp add: sample_chain_def chain_base_def resolveClass_def CanonicalLabelForClass_def binding_at_def member_value_def
        query_member_def methodForValue_def single_row_methods_def annotating_methods_def as_queryset_def
        sample_keyword value_of_def zero_Value_def)
  have "resolveExpression (\<lambda>_. False) (print_chain ''x'' sample_chain) Map.empty [''x'' \<mapsto> value_of ''s.Book'' ValueQuerySet] None =
      (if MaxPathSegments < length sample_chain then zero_Value
       else case chain_value (\<lambda>_. False) None (chain_base ''x'' Map.empty [''x'' \<mapsto> value_of ''s.Book'' ValueQuerySet] None) sample_chain of
         Some w \<Rightarrow> w | None \<Rightarrow> zero_Value)"
    by (rule member_chain_is_fold [OF sample_name(1) _ sample_members [unfolded list_all_iff]])
      (simp_all add: sample_printed resolveClass_def CanonicalLabelForClass_def MaxPathBytes_def, simp add: sample_chain_def)
  then show ?thesis by (simp add: res sample_printed, simp add: sample_chain_def MaxPathSegments_def)
qed

definition sample_guarded :: SyntaxStatement where
  "sample_guarded = zero_Statement\<lparr>ss_End := 5, ss_Text := ''x = 1'', ss_Guarded := True\<rparr>"

lemma sample_import: "importBindingNames ''x = 1'' = []"
  by code_simp

lemma sample_definition: "FindStringSubmatch definitionBindingPattern ''x = 1'' = None"
  by code_simp

lemma sample_annotation: "FindStringSubmatch annotationPattern (TrimSpace ''x = 1'') = None"
  by code_simp

lemma sample_targets: "concat (map (bindingTargetNames (\<lambda>_. False)) (assignmentTargets ''x = 1'')) = [''x'']"
  by code_simp

lemma sample_keywords:
  "FindAllStringSubmatch forBindingPattern ''x = 1'' = []" "FindAllStringSubmatch asBindingPattern ''x = 1'' = []"
  "FindAllStringSubmatch walrusBindingPattern ''x = 1'' = []"
  by code_simp+

lemma sample_target: "addTarget ''x'' [] = [''x'']"
  by code_simp

lemma sample_unread: "binds_unread [sample_guarded] 9 sample_guarded"
  by code_simp

lemma unread_binding_unknown_witness:
  "inferExpressionAtPath (\<lambda>_. False) ''x'' [] None [sample_guarded] 9 [] = zero_Value"
proof -
  have names: "''x'' \<in> set (statementBindingNames (\<lambda>_. False) (ss_Text sample_guarded))"
    unfolding statementBindingNames_def statement_targets_def sample_guarded_def SyntaxStatement.simps zero_Statement_def sample_import sample_definition
      sample_annotation option.case sample_targets sample_keywords by (simp add: sample_target)
  show ?thesis
    using unread_binding_unknown [OF _ sample_unread names sample_name(1)]
    by (simp add: CanonicalLabelForClass_def enclosingModelClass_def MaxPathBytes_def)
qed

end
