(* ===== verification/Analysis_Serializer.thy ===== *)
theory Analysis_Serializer
  imports Infer_Environment Python_Arguments
begin

text \<open>
  The configuration of Django REST framework serializers (\<open>internal/analysis/serializer.go\<close>): the
  tokens of a class body's literal expressions, what they say of a serializer's model and fields, and
  the field names that fit at the cursor. The context an analysis answers with
  (\<open>internal/analysis/infer.go\<close>, \<open>path.go\<close>) comes first.
\<close>

section \<open>Contexts\<close>

definition zero_Range :: ByteRange where
  "zero_Range = \<lparr>br_Start = 0, br_End = 0\<rparr>"

record PathContext =
  pc_Method :: string
  pc_Mode :: PathMode
  pc_Segments :: "PathSegment list"
  pc_ActiveSegment :: nat
  pc_Replacement :: ByteRange
  pc_Arguments :: ByteRange
  pc_ActiveArgument :: nat
  pc_OnSeparator :: bool

record SerializerField =
  sf_Name :: string
  sf_Field :: "FieldRef option"
  sf_Declaration :: ByteRange
  sf_Source :: string

definition schema_field :: "FieldRef FieldAccess \<Rightarrow> SerializerField" where
  "schema_field access = \<lparr>sf_Name = fa_Name access, sf_Field = Some (fa_Field access),
     sf_Declaration = zero_Range, sf_Source = []\<rparr>"

datatype ContextKind = ContextUnknown | ContextQueryKeyword | ContextModelMember | ContextInstanceMember
  | ContextMethodMember | ContextORMPath | ContextMetaField | ContextSerializerField

record Context =
  cx_Kind :: ContextKind
  cx_Value :: Value
  cx_Identifier :: string
  cx_Replacement :: ByteRange
  cx_Method :: "Method option"
  cx_Path :: "PathContext option"
  cx_SerializerFields :: "SerializerField list"

definition context_of :: "ContextKind \<Rightarrow> Value \<Rightarrow> string \<Rightarrow> ByteRange \<Rightarrow> Context" where
  "context_of kind v identifier replacement = \<lparr>cx_Kind = kind, cx_Value = v, cx_Identifier = identifier,
     cx_Replacement = replacement, cx_Method = None, cx_Path = None, cx_SerializerFields = []\<rparr>"

section \<open>Tokens\<close>

record serializerToken =
  tok_text :: string
  tok_span :: ByteRange
  tok_literal :: bool

definition maxSerializerTokens :: nat where "maxSerializerTokens = 4096"
definition maxSerializerExpressionBytes :: nat where "maxSerializerExpressionBytes = 64 * 1024"

definition serializerBindingName :: "(nat \<Rightarrow> bool) \<Rightarrow> string \<Rightarrow> string" where
  "serializerBindingName wide s =
     (let t = TrimSpace s; name = takeWhile isIdentifierByte t; rest = TrimSpace (drop (length name) t) in
      if name = [] \<or> \<not> identifierText wide name then []
      else if HasPrefix rest ''='' \<or> HasPrefix rest '':'' then name else [])"

definition bad_in_literal :: "char \<Rightarrow> bool" where
  "bad_in_literal c \<longleftrightarrow> c = backslash \<or> c = CHR 0x0A \<or> c = CHR 0x0D"

text \<open>The loop at position \<open>i\<close> with \<open>n\<close> tokens behind it, on the bytes up to the end of the span.\<close>

function tokens_loop :: "nat \<Rightarrow> nat \<Rightarrow> string \<Rightarrow> serializerToken list option" where
  "tokens_loop n i [] = Some []"
| "tokens_loop n i (c # cs) =
     (if n = maxSerializerTokens then None
      else if isSpace c then tokens_loop n (Suc i) cs
      else if c = CHR ''#'' then
        (let k = length (takeWhile (\<lambda>d. d \<noteq> CHR 0x0A) cs) in tokens_loop n (Suc i + k) (drop k cs))
      else if is_quote c then
        (if take 2 cs = [c, c] then None
         else let body = takeWhile (\<lambda>d. d \<noteq> c) cs; k = length body in
           if list_ex bad_in_literal body \<or> k = length cs then None
           else map_option (Cons \<lparr>tok_text = body, tok_span = \<lparr>br_Start = Suc i, br_End = Suc i + k\<rparr>, tok_literal = True\<rparr>)
             (tokens_loop (Suc n) (i + k + 2) (drop (Suc k) cs)))
      else let k = (if isIdentifierByte c then length (takeWhile isIdentifierByte cs) else 0) in
        map_option (Cons \<lparr>tok_text = c # take k cs, tok_span = \<lparr>br_Start = i, br_End = Suc i + k\<rparr>, tok_literal = False\<rparr>)
          (tokens_loop (Suc n) (Suc i + k) (drop k cs)))"
  by pat_completeness auto
termination tokens_loop
  by (relation "measure (\<lambda>(n, i, cs). length cs)") auto

definition serializerTokens :: "string \<Rightarrow> ByteRange \<Rightarrow> serializerToken list option" where
  "serializerTokens source span =
     (if length source < br_End span \<or> br_End span < br_Start span
         \<or> maxSerializerExpressionBytes < br_End span - br_Start span then None
      else tokens_loop 0 (br_Start span) (subslice source (br_Start span) (br_End span)))"

definition serializerAssignment :: "(nat \<Rightarrow> bool) \<Rightarrow> string \<Rightarrow> SyntaxStatement \<Rightarrow> (string \<times> serializerToken list) option" where
  "serializerAssignment wide source st =
     (case serializerTokens source \<lparr>br_Start = ss_Start st, br_End = ss_End st\<rparr> of
        Some (name # equals # t # ts) \<Rightarrow>
          if \<not> identifierText wide (tok_text name) \<or> tok_literal name \<or> tok_text equals \<noteq> ''='' then None
          else Some (tok_text name, t # ts)
      | _ \<Rightarrow> None)"

text \<open>The turns of \<open>serializerReference\<close>, at an even index when \<open>at_name\<close>.\<close>

fun reference_parts :: "(nat \<Rightarrow> bool) \<Rightarrow> bool \<Rightarrow> serializerToken list \<Rightarrow> bool" where
  "reference_parts wide at_name [] = (\<not> at_name)"
| "reference_parts wide at_name (t # ts) = (\<not> tok_literal t \<and>
     (if at_name then identifierText wide (tok_text t) else tok_text t = ''.'') \<and> reference_parts wide (\<not> at_name) ts)"

definition serializerReference :: "(nat \<Rightarrow> bool) \<Rightarrow> serializerToken list \<Rightarrow> string option" where
  "serializerReference wide tokens =
     (if reference_parts wide True tokens then Some (concat (map tok_text tokens)) else None)"

definition model_serializers :: "string list" where
  "model_serializers = [''rest_framework.serializers.ModelSerializer'',
     ''rest_framework.serializers.HyperlinkedModelSerializer'']"

definition serializerBase :: "(nat \<Rightarrow> bool) \<Rightarrow> string \<Rightarrow> SyntaxStatement \<Rightarrow> import_map \<Rightarrow> bool" where
  "serializerBase wide source cls imps =
     (let e = skip_while (\<lambda>i. source ! i \<noteq> CHR '':'') (min (ss_End cls) (length source)) (ss_Start cls) in
      case serializerTokens source \<lparr>br_Start = ss_Start cls, br_End = e\<rparr> of
        None \<Rightarrow> False
      | Some tokens \<Rightarrow>
          if length tokens < 5 \<or> tok_text (tokens ! 0) \<noteq> ''class'' \<or> tok_text (tokens ! 2) \<noteq> ''(''
             \<or> tok_text (last tokens) \<noteq> '')'' then False
          else let base = butlast (drop 3 tokens);
              base' = (if base \<noteq> [] \<and> tok_text (last base) = '','' then butlast base else base) in
            case serializerReference wide base' of
              None \<Rightarrow> False
            | Some name \<Rightarrow> expandImport name imps \<in> set model_serializers)"

text \<open>The elements between the brackets: strings with commas between them.\<close>

fun string_items :: "serializerToken list \<Rightarrow> serializerToken list option" where
  "string_items [] = Some []"
| "string_items [t] = (if tok_literal t then Some [t] else None)"
| "string_items (t # c # ts) =
     (if \<not> tok_literal t \<or> tok_text c \<noteq> '','' then None else map_option (Cons t) (string_items ts))"

definition serializerStringList :: "serializerToken list \<Rightarrow> serializerToken list option" where
  "serializerStringList tokens =
     (if length tokens < 2 then None
      else let opening = tok_text (hd tokens); closing = (if opening = ''('' then '')'' else '']'') in
        if opening \<noteq> ''('' \<and> opening \<noteq> ''['' \<or> tok_text (last tokens) \<noteq> closing then None
        else case string_items (butlast (tl tokens)) of
          None \<Rightarrow> None
        | Some items \<Rightarrow> if closing = '')'' \<and> length items = 1 \<and> length tokens = 3 then None else Some items)"

text \<open>The brackets from the opening parenthesis on close each other, and only at the last token.\<close>

fun brackets_close :: "string list \<Rightarrow> serializerToken list \<Rightarrow> bool" where
  "brackets_close stack [] = (stack = [])"
| "brackets_close stack (t # ts) =
     (if tok_literal t then brackets_close stack ts
      else if tok_text t \<in> {''('', ''['', ''{''} then brackets_close (tok_text t # stack) ts
      else if tok_text t \<in> {'')'', '']'', ''}''} then
        (case stack of
           [] \<Rightarrow> False
         | opening # below \<Rightarrow>
             if opening = ''('' \<and> tok_text t \<noteq> '')'' \<or> opening = ''['' \<and> tok_text t \<noteq> '']''
                \<or> opening = ''{'' \<and> tok_text t \<noteq> ''}'' then False
             else if below = [] \<and> ts \<noteq> [] then False else brackets_close below ts)
      else brackets_close stack ts)"

definition serializer_fields :: "string list" where
  "serializer_fields = [''Field'', ''BooleanField'', ''CharField'', ''EmailField'', ''RegexField'', ''SlugField'', ''URLField'',
     ''UUIDField'', ''FilePathField'', ''IPAddressField'', ''IntegerField'', ''FloatField'', ''DecimalField'',
     ''DateTimeField'', ''DateField'', ''TimeField'', ''DurationField'', ''ChoiceField'', ''MultipleChoiceField'',
     ''FileField'', ''ImageField'', ''ListField'', ''DictField'', ''HStoreField'', ''JSONField'', ''ReadOnlyField'',
     ''HiddenField'', ''ModelField'', ''SerializerMethodField'', ''RelatedField'', ''PrimaryKeyRelatedField'',
     ''SlugRelatedField'', ''StringRelatedField'', ''HyperlinkedRelatedField'', ''HyperlinkedIdentityField'']"

definition serializerCall :: "(nat \<Rightarrow> bool) \<Rightarrow> serializerToken list \<Rightarrow> import_map \<Rightarrow> serializerToken list option" where
  "serializerCall wide tokens imps =
     (let opening = length (takeWhile (\<lambda>t. tok_text t \<noteq> ''('') tokens) in
      if opening = length tokens \<or> tok_text (last tokens) \<noteq> '')'' then None
      else case serializerReference wide (take opening tokens) of
        None \<Rightarrow> None
      | Some reference \<Rightarrow>
          (let name = expandImport reference imps; p = ''rest_framework.serializers.''; cls = drop (length p) name in
           if \<not> HasPrefix name p \<or> CHR ''.'' \<in> set cls \<or> \<not> HasSuffix name ''Field'' \<or> cls \<notin> set serializer_fields then None
           else if \<not> brackets_close [] (drop opening tokens) then None
           else Some (butlast (drop (Suc opening) tokens))))"

definition zero_Token :: serializerToken where
  "zero_Token = \<lparr>tok_text = [], tok_span = zero_Range, tok_literal = False\<rparr>"

text \<open>
  \<open>serializerSource\<close>: the argument \<open>source=...\<close>, as its token when it is one string, as the zero token
  when it is anything else. \<open>previous\<close> is the text of the token before.
\<close>

fun source_loop :: "int \<Rightarrow> string option \<Rightarrow> serializerToken list \<Rightarrow> serializerToken option" where
  "source_loop depth previous [] = None"
| "source_loop depth previous (t # ts) =
     (if depth = 0 \<and> \<not> tok_literal t \<and> tok_text t = ''source'' \<and> (previous = None \<or> previous = Some '','')
         \<and> 2 \<le> length ts \<and> tok_text (ts ! 0) = ''=''
      then (if tok_literal (ts ! 1) \<and> (length ts = 2 \<or> tok_text (ts ! 2) = '','') then Some (ts ! 1) else Some zero_Token)
      else source_loop
        (if tok_literal t then depth
         else if tok_text t \<in> {''('', ''['', ''{''} then depth + 1
         else if tok_text t \<in> {'')'', '']'', ''}''} then depth - 1 else depth)
        (Some (tok_text t)) ts)"

definition serializerSource :: "serializerToken list \<Rightarrow> serializerToken option" where
  "serializerSource tokens = source_loop 0 None tokens"

section \<open>Attributes\<close>

fun attribute_loop :: "graph_ptr \<Rightarrow> string \<Rightarrow> string list \<Rightarrow> FieldRef option" where
  "attribute_loop graph label [] = None"
| "attribute_loop graph label (segment # segments) = (case InstanceAccess graph label segment of
     None \<Rightarrow> None
   | Some access \<Rightarrow>
       if segments = [] then Some (fa_Field access)
       else if fa_Kind access = FieldAccessAttname then None
       else case singleRelatedInstance (Some (fa_Field access)) of
         None \<Rightarrow> None | Some related \<Rightarrow> attribute_loop graph related segments)"

definition serializerAttribute :: "graph_ptr \<Rightarrow> string \<Rightarrow> string \<Rightarrow> FieldRef option" where
  "serializerAttribute graph label path =
     (if MaxPathBytes < int (length path) then None
      else let segments = split_byte CHR ''.'' path in
        if MaxPathSegments < length segments then None else attribute_loop graph label segments)"

end
