(* ===== verification/Analysis_Serializer_Context.thy ===== *)
theory Analysis_Serializer_Context
  imports Analysis_Serializer Document_Store
begin

text \<open>
  \<open>analyzeSerializerContext\<close> (\<open>internal/analysis/serializer.go\<close>): the serializer class and its
  \<open>Meta\<close> class around the cursor, the options and declarations read from their bodies, and the
  context of a field name in them.
\<close>

section \<open>Classes\<close>

definition span_width :: "SyntaxStatement \<Rightarrow> int" where
  "span_width st = int (ss_End st) - int (ss_Start st)"

definition smallest_span :: "(SyntaxStatement \<Rightarrow> bool) \<Rightarrow> SyntaxStatement list \<Rightarrow> SyntaxStatement" where
  "smallest_span qualifies syntax = foldl (\<lambda>selected st.
     if qualifies st \<and> (ss_End selected = 0 \<or> span_width st < span_width selected) then st else selected)
     zero_Statement syntax"

definition serializerParentScope :: "SyntaxStatement \<Rightarrow> SyntaxStatement list \<Rightarrow> SyntaxStatement" where
  "serializerParentScope child syntax =
     smallest_span (\<lambda>st. ss_ScopeMarker st \<and> ss_Start st < ss_Start child \<and> ss_End child \<le> ss_End st) syntax"

definition serializer_scope :: "SyntaxStatement list \<Rightarrow> nat \<Rightarrow> SyntaxStatement" where
  "serializer_scope syntax offset =
     smallest_span (\<lambda>st. ss_ScopeMarker st \<and> ss_Start st \<le> offset \<and> offset \<le> ss_End st) syntax"

text \<open>The serializer class of the scope, and its \<open>Meta\<close> class when the scope is one.\<close>

definition serializer_class :: "SyntaxStatement list \<Rightarrow> SyntaxStatement \<Rightarrow> SyntaxStatement \<times> SyntaxStatement" where
  "serializer_class syntax scope =
     (if definitionName (ss_Text scope) = ''Meta''
      then (smallest_span (\<lambda>st. ss_ScopeMarker st \<and> is_class st \<and> ss_Start st < ss_Start scope \<and> ss_End scope \<le> ss_End st) syntax, scope)
      else (scope, zero_Statement))"

definition hides_class :: "SyntaxStatement \<Rightarrow> SyntaxStatement \<Rightarrow> bool" where
  "hides_class cls st \<longleftrightarrow>
     ss_Guarded st \<and> ss_Start st \<le> ss_Start cls \<and> ss_End cls \<le> ss_End st \<or>
     ss_ScopeMarker st \<and> is_function st \<and> ss_Start st < ss_Start cls \<and> ss_End cls \<le> ss_End st"

fun find_meta :: "SyntaxStatement list \<Rightarrow> SyntaxStatement \<Rightarrow> SyntaxStatement list \<Rightarrow> SyntaxStatement \<Rightarrow> SyntaxStatement option" where
  "find_meta syntax cls [] meta = Some meta"
| "find_meta syntax cls (st # sts) meta =
     (if hides_class cls st then None
      else if ss_ScopeMarker st \<and> is_class st \<and> definitionName (ss_Text st) = ''Meta'' \<and> ss_Start cls < ss_Start st \<and> ss_End st \<le> ss_End cls
      then (if ss_Start (serializerParentScope st syntax) \<noteq> ss_Start cls then find_meta syntax cls sts meta
        else if ss_End meta \<noteq> 0 \<and> ss_Start meta \<noteq> ss_Start st then None
        else find_meta syntax cls sts st)
      else find_meta syntax cls sts meta)"

definition bound_names :: "(nat \<Rightarrow> bool) \<Rightarrow> SyntaxStatement \<Rightarrow> string list" where
  "bound_names wide st = (let name = serializerBindingName wide (ss_Text st) in
     if name \<noteq> [] then [name] else statementBindingNames wide (ss_Text st))"

definition unbind :: "string \<Rightarrow> import_map \<Rightarrow> import_map" where
  "unbind name imps = imps(name := None)"

definition class_imports :: "(nat \<Rightarrow> bool) \<Rightarrow> SyntaxStatement \<Rightarrow> SyntaxStatement \<Rightarrow> SyntaxStatement list \<Rightarrow> import_map \<Rightarrow> import_map" where
  "class_imports wide cls meta syntax imps = fold (\<lambda>st imps.
     if \<not> ss_ScopeMarker st \<and> (ss_ScopeStart st = ss_Start cls \<or> ss_ScopeStart st = ss_Start meta)
     then fold unbind (bound_names wide st) imps else imps) syntax imps"

section \<open>Options\<close>

record metaOptions =
  mo_label :: string
  mo_option :: string
  mo_active :: "serializerToken list"
  mo_included :: "serializerToken list"
  mo_includeAll :: bool
  mo_hasFields :: bool
  mo_excluded :: "serializerToken list"
  mo_hasExclude :: bool

definition zero_Options :: metaOptions where
  "zero_Options = \<lparr>mo_label = [], mo_option = [], mo_active = [], mo_included = [], mo_includeAll = False,
     mo_hasFields = False, mo_excluded = [], mo_hasExclude = False\<rparr>"

definition items_or_none :: "serializerToken list \<Rightarrow> serializerToken list" where
  "items_or_none tokens = (case serializerStringList tokens of Some items \<Rightarrow> items | None \<Rightarrow> [])"

definition option_model :: "(nat \<Rightarrow> bool) \<Rightarrow> import_map \<Rightarrow> graph_ptr \<Rightarrow> bool \<Rightarrow> string \<Rightarrow> serializerToken list \<Rightarrow> metaOptions \<Rightarrow> metaOptions option" where
  "option_model wide imps graph guarded name tokens opts =
     (if name \<noteq> ''model'' then Some opts
      else if mo_label opts \<noteq> [] \<or> guarded then None
      else case serializerReference wide tokens of
        None \<Rightarrow> None
      | Some reference \<Rightarrow> map_option (\<lambda>label. opts\<lparr>mo_label := label\<rparr>) (resolveClass reference imps graph))"

definition option_fields :: "bool \<Rightarrow> string \<Rightarrow> serializerToken list \<Rightarrow> metaOptions \<Rightarrow> metaOptions" where
  "option_fields guarded name tokens opts =
     (if name = ''fields'' then opts\<lparr>mo_hasFields := True,
        mo_included := (if guarded then [] else items_or_none tokens),
        mo_includeAll := (\<not> guarded \<and> length tokens = 1 \<and> tok_literal (hd tokens) \<and> tok_text (hd tokens) = ''__all__'')\<rparr>
      else opts)"

definition option_exclude :: "bool \<Rightarrow> string \<Rightarrow> serializerToken list \<Rightarrow> metaOptions \<Rightarrow> metaOptions" where
  "option_exclude guarded name tokens opts =
     (if name = ''exclude'' \<and> \<not> guarded
      then opts\<lparr>mo_excluded := items_or_none tokens, mo_hasExclude := serializerStringList tokens \<noteq> None\<rparr> else opts)"

definition read_option :: "(nat \<Rightarrow> bool) \<Rightarrow> string \<Rightarrow> import_map \<Rightarrow> graph_ptr \<Rightarrow> SyntaxStatement \<Rightarrow> nat \<Rightarrow> SyntaxStatement \<Rightarrow> metaOptions \<Rightarrow> metaOptions option" where
  "read_option wide source imps graph meta offset st opts =
     (if ss_ScopeMarker st \<or> ss_ScopeStart st \<noteq> ss_Start meta \<or> ss_ScopeEnd st \<noteq> ss_End meta then Some opts
      else case serializerAssignment wide source st of
        None \<Rightarrow> Some opts
      | Some (name, tokens) \<Rightarrow>
          map_option (\<lambda>opts. (let opts' = option_exclude (ss_Guarded st) name tokens (option_fields (ss_Guarded st) name tokens opts) in
              if ss_Start st \<le> offset \<and> offset \<le> ss_End st \<and> \<not> ss_Guarded st
              then opts'\<lparr>mo_option := name, mo_active := tokens\<rparr> else opts'))
            (option_model wide imps graph (ss_Guarded st) name tokens opts))"

fun read_options :: "(nat \<Rightarrow> bool) \<Rightarrow> string \<Rightarrow> import_map \<Rightarrow> graph_ptr \<Rightarrow> SyntaxStatement \<Rightarrow> nat \<Rightarrow> SyntaxStatement list \<Rightarrow> metaOptions \<Rightarrow> metaOptions option" where
  "read_options wide source imps graph meta offset [] opts = Some opts"
| "read_options wide source imps graph meta offset (st # sts) opts =
     (case read_option wide source imps graph meta offset st opts of
        None \<Rightarrow> None | Some opts' \<Rightarrow> read_options wide source imps graph meta offset sts opts')"

section \<open>Declarations\<close>

text \<open>The loop of \<open>serializerSourceContext\<close> over the dots before the cursor.\<close>

function source_segments :: "string \<Rightarrow> graph_ptr \<Rightarrow> nat \<Rightarrow> nat \<Rightarrow> nat \<Rightarrow> nat \<Rightarrow> string \<Rightarrow> (string \<times> nat) option" where
  "source_segments source graph offset i start segments label =
     (if offset \<le> i then Some (label, start)
      else if source ! i \<noteq> CHR ''.'' then source_segments source graph offset (Suc i) start segments label
      else if MaxPathSegments \<le> Suc segments then None
      else case InstanceAccess graph label (subslice source start i) of
        None \<Rightarrow> None
      | Some access \<Rightarrow>
          if fa_Kind access = FieldAccessAttname then None
          else case singleRelatedInstance (Some (fa_Field access)) of
            None \<Rightarrow> None
          | Some related \<Rightarrow> source_segments source graph offset (Suc i) (Suc i) (Suc segments) related)"
  by pat_completeness auto
termination source_segments
  by (relation "measure (\<lambda>(source, graph, offset, i, start, segments, label). offset - i)") auto

declare source_segments.simps [simp del]

definition every_field :: "graph_ptr \<Rightarrow> string \<Rightarrow> SerializerField list" where
  "every_field graph label = snd (VisitInstanceFields graph label (\<lambda>access fields. (True, fields @ [schema_field access])) [])"

definition serializerSourceContext :: "string \<Rightarrow> nat \<Rightarrow> graph_ptr \<Rightarrow> string \<Rightarrow> serializerToken \<Rightarrow> Context option" where
  "serializerSourceContext source offset graph label token =
     (if tok_text token = ''*'' \<or> MaxPathBytes < int (length (tok_text token)) then None
      else case source_segments source graph offset (br_Start (tok_span token)) (br_Start (tok_span token)) 0 label of
        None \<Rightarrow> None
      | Some (label', start) \<Rightarrow>
          (let e = skip_while (\<lambda>i. source ! i \<noteq> CHR ''.'') (br_End (tok_span token)) start in
           Some ((context_of ContextSerializerField (value_of label' ValueModelInstance) (subslice source start e)
               \<lparr>br_Start = start, br_End = e\<rparr>)\<lparr>cx_SerializerFields := every_field graph label'\<rparr>)))"

definition declared_field :: "graph_ptr \<Rightarrow> string \<Rightarrow> SyntaxStatement \<Rightarrow> string \<Rightarrow> serializerToken list \<Rightarrow> SerializerField" where
  "declared_field graph label st name args =
     (let field = \<lparr>sf_Name = name, sf_Field = None,
        sf_Declaration = \<lparr>br_Start = ss_Start st, br_End = ss_Start st + length name\<rparr>, sf_Source = []\<rparr> in
      case serializerSource args of
        Some token \<Rightarrow> (if tok_literal token
          then field\<lparr>sf_Source := tok_text token, sf_Field := serializerAttribute graph label (tok_text token)\<rparr> else field)
      | None \<Rightarrow> field)"

text \<open>The string a declaration's \<open>source\<close> is, when the cursor is in it.\<close>

definition source_token_at :: "nat \<Rightarrow> serializerToken list \<Rightarrow> serializerToken option" where
  "source_token_at offset args = (case serializerSource args of
     None \<Rightarrow> None
   | Some token \<Rightarrow> if tok_literal token \<and> br_Start (tok_span token) \<le> offset \<and> offset \<le> br_End (tok_span token)
       then Some token else None)"

text \<open>The loop over the class body; \<open>Inl\<close> is a return out of it.\<close>

fun read_declarations :: "(nat \<Rightarrow> bool) \<Rightarrow> string \<Rightarrow> import_map \<Rightarrow> graph_ptr \<Rightarrow> string \<Rightarrow> SyntaxStatement \<Rightarrow> SyntaxStatement \<Rightarrow>
    nat \<Rightarrow> SyntaxStatement list \<Rightarrow> SerializerField list \<Rightarrow> string list \<Rightarrow> Context option + SerializerField list \<times> string list" where
  "read_declarations wide source imps graph label scope cls offset [] declarations blocked = Inr (declarations, blocked)"
| "read_declarations wide source imps graph label scope cls offset (st # sts) declarations blocked =
     (let continue = read_declarations wide source imps graph label scope cls offset sts in
      if ss_ScopeMarker st \<or> ss_ScopeStart st \<noteq> ss_Start cls \<or> ss_ScopeEnd st \<noteq> ss_End cls then continue declarations blocked
      else case serializerAssignment wide source st of
        None \<Rightarrow> continue declarations (blocked @ bound_names wide st)
      | Some (name, tokens) \<Rightarrow>
          if name \<in> set blocked then Inl None
          else (case serializerCall wide tokens imps of
             None \<Rightarrow> continue declarations (blocked @ [name])
           | Some args \<Rightarrow>
               if ss_Guarded st then continue declarations (blocked @ [name])
               else let declarations' = declarations @ [declared_field graph label st name args] in
                 if ss_Start scope = ss_Start cls \<and> ss_Start st \<le> offset \<and> offset \<le> ss_End st
                 then (case source_token_at offset args of
                   Some token \<Rightarrow> Inl (serializerSourceContext source offset graph label token)
                 | None \<Rightarrow> continue declarations' (blocked @ [name]))
                 else continue declarations' (blocked @ [name])))"

section \<open>The name at the cursor\<close>

definition covers :: "nat \<Rightarrow> serializerToken \<Rightarrow> bool" where
  "covers offset token \<longleftrightarrow> br_Start (tok_span token) \<le> offset \<and> offset \<le> br_End (tok_span token)"

text \<open>The keys of \<open>extra_kwargs\<close>; \<open>previous\<close> is the text of the token before.\<close>

fun kwargs_loop :: "nat \<Rightarrow> int \<Rightarrow> string option \<Rightarrow> serializerToken list \<Rightarrow> ByteRange option" where
  "kwargs_loop offset depth previous [] = None"
| "kwargs_loop offset depth previous (t # ts) =
     (if tok_literal t \<and> depth = 1 \<and> (previous = Some ''{'' \<or> previous = Some '','')
         \<and> ts \<noteq> [] \<and> tok_text (hd ts) = '':'' \<and> covers offset t
      then Some (tok_span t)
      else kwargs_loop offset
        (if tok_literal t then depth
         else if tok_text t \<in> {''{'', ''['', ''(''} then depth + 1
         else if tok_text t \<in> {''}'', '']'', '')''} then depth - 1 else depth)
        (Some (tok_text t)) ts)"

definition serializer_replacement :: "nat \<Rightarrow> string \<Rightarrow> serializerToken list \<Rightarrow> ByteRange option" where
  "serializer_replacement offset name active =
     (if name \<in> {''fields'', ''exclude'', ''read_only_fields''} then
        (case serializerStringList active of
           None \<Rightarrow> None | Some items \<Rightarrow> map_option tok_span (List.find (covers offset) items))
      else if name = ''extra_kwargs'' then
        (if length active < 2 \<or> tok_text (hd active) \<noteq> ''{'' \<or> tok_text (last active) \<noteq> ''}'' then None
         else kwargs_loop offset 0 None active)
      else None)"

definition own_field :: "string list \<Rightarrow> FieldRef FieldAccess \<Rightarrow> bool" where
  "own_field blocked access \<longleftrightarrow> fa_Kind access \<noteq> FieldAccessAttname \<and>
     (fa_Kind access = FieldAccessReverse \<or> fa_Name access = FieldRef_Name (fa_Field access)) \<and>
     fa_Name access \<notin> set blocked"

definition model_fields :: "graph_ptr \<Rightarrow> string \<Rightarrow> string list \<Rightarrow> SerializerField list" where
  "model_fields graph label blocked = snd (VisitInstanceFields graph label (\<lambda>access fields.
     (True, if own_field blocked access then fields @ [schema_field access] else fields)) [])"

text \<open>Whether the serializer has the field at all: \<open>read_only_fields\<close> and \<open>extra_kwargs\<close> only offer those.\<close>

definition selected_field :: "metaOptions \<Rightarrow> SerializerField \<Rightarrow> bool" where
  "selected_field opts field \<longleftrightarrow>
     (let byExclude = (\<not> mo_hasFields opts \<and> mo_hasExclude opts) in
      (mo_includeAll opts \<or> byExclude) \<and> \<not> (byExclude \<and> sf_Name field \<in> tok_text ` set (mo_excluded opts))
      \<or> sf_Name field \<in> tok_text ` set (mo_included opts))"

definition offered_fields :: "graph_ptr \<Rightarrow> metaOptions \<Rightarrow> SerializerField list \<Rightarrow> string list \<Rightarrow> SerializerField list" where
  "offered_fields graph opts declarations blocked =
     (let fields = model_fields graph (mo_label opts) blocked
            @ (if mo_option opts \<in> {''fields'', ''read_only_fields''} then declarations else []) in
      sort_key sf_Name (if mo_option opts \<in> {''read_only_fields'', ''extra_kwargs''} then filter (selected_field opts) fields else fields))"

definition serializer_body :: "(nat \<Rightarrow> bool) \<Rightarrow> string \<Rightarrow> import_map \<Rightarrow> graph_ptr \<Rightarrow> SyntaxStatement \<Rightarrow> SyntaxStatement \<Rightarrow>
    SyntaxStatement \<Rightarrow> nat \<Rightarrow> SyntaxStatement list \<Rightarrow> Context option" where
  "serializer_body wide source imps graph scope cls meta offset syntax =
     (case read_options wide source imps graph meta offset syntax zero_Options of
        None \<Rightarrow> None
      | Some opts \<Rightarrow>
          if mo_label opts = [] then None
          else case read_declarations wide source imps graph (mo_label opts) scope cls offset syntax [] [] of
            Inl result \<Rightarrow> result
          | Inr (declarations, blocked) \<Rightarrow>
              if ss_Start scope \<noteq> ss_Start meta then None
              else case serializer_replacement offset (mo_option opts) (mo_active opts) of
                None \<Rightarrow> None
              | Some replacement \<Rightarrow>
                  Some ((context_of ContextSerializerField (value_of (mo_label opts) ValueModelClass)
                      (subslice source (br_Start replacement) (br_End replacement)) replacement)
                    \<lparr>cx_SerializerFields := offered_fields graph opts declarations blocked\<rparr>))"

definition analyzeSerializerContext :: "(nat \<Rightarrow> bool) \<Rightarrow> string \<Rightarrow> nat \<Rightarrow> graph_ptr \<Rightarrow> SyntaxStatement list \<Rightarrow> Context option" where
  "analyzeSerializerContext wide source offset graph syntax =
     (let scope = serializer_scope syntax offset in
      if \<not> is_class scope then None
      else let (cls, meta) = serializer_class syntax scope in
        if ss_End cls = 0 then None
        else let imps = fst (buildEnvironment wide (take (ss_Start cls) source) graph syntax (ss_Start cls)) in
          if \<not> serializerBase wide source cls imps then None
          else case find_meta syntax cls syntax meta of
            None \<Rightarrow> None
          | Some meta' \<Rightarrow>
              if ss_End meta' = 0 then None
              else serializer_body wide source (class_imports wide cls meta' syntax imps) graph scope cls meta' offset syntax)"

definition Context_SerializerField :: "Context \<Rightarrow> SerializerField option" where
  "Context_SerializerField context = List.find (\<lambda>field. sf_Name field = cx_Identifier context) (cx_SerializerFields context)"

definition ResolveSerializerDeclaration :: "(nat \<Rightarrow> bool) \<Rightarrow> DocSnapshot \<Rightarrow> int \<Rightarrow> graph_ptr \<Rightarrow> ByteRange option" where
  "ResolveSerializerDeclaration wide snapshot offset graph =
     (if graph = None \<or> offset < 0 \<or> int (length (ds_Source snapshot)) < offset then None
      else case analyzeSerializerContext wide (ds_Source snapshot) (nat offset) graph (ds_Syntax snapshot) of
        None \<Rightarrow> None
      | Some context \<Rightarrow> (case Context_SerializerField context of
          None \<Rightarrow> None
        | Some field \<Rightarrow> if br_End (sf_Declaration field) \<noteq> 0 then Some (sf_Declaration field) else None))"

end
