(* ===== verification/Analysis_Context.thy ===== *)
theory Analysis_Context
  imports Analysis_Serializer_Context Python_Segments
begin

text \<open>
  What is at the cursor: \<open>analyze\<close> and the analyses it tries in turn, of a serializer, of a \<open>Meta\<close>
  option, of a lookup path in a call, and of a member (\<open>internal/analysis/infer.go\<close>,
  \<open>internal/analysis/path.go\<close>), and the call around the cursor for signature help.
\<close>

section \<open>Options of a \<open>Meta\<close> class\<close>

text \<open>The loop of \<open>metaFieldStringRange\<close>, from the byte before \<open>n\<close> backwards.\<close>

fun meta_string_before :: "string \<Rightarrow> nat \<Rightarrow> nat \<Rightarrow> ByteRange option" where
  "meta_string_before source offset 0 = None"
| "meta_string_before source offset (Suc start) =
     (if \<not> is_quote (source ! start) \<or> 0 < start \<and> source ! (start - 1) = backslash
      then meta_string_before source offset start
      else let quote = source ! start;
          e = skip_while (\<lambda>i. (source ! i \<noteq> quote \<or> source ! (i - 1) = backslash) \<and> source ! i \<noteq> CHR 0x0A)
            (length source) (Suc start) in
        if e < length source \<and> source ! e = quote \<and> start < offset \<and> offset \<le> e
        then Some \<lparr>br_Start = Suc start, br_End = e\<rparr> else meta_string_before source offset start)"

definition metaFieldStringRange :: "string \<Rightarrow> nat \<Rightarrow> ByteRange option" where
  "metaFieldStringRange source offset = meta_string_before source offset offset"

text \<open>\<open>strings.LastIndex\<close> and \<open>strings.Contains\<close>\<close>

definition LastIndex :: "string \<Rightarrow> string \<Rightarrow> nat option" where
  "LastIndex s p = (let found = filter (\<lambda>i. HasPrefix (drop i s) p) [0..<Suc (length s)] in
     if found = [] then None else Some (last found))"

definition Contains :: "string \<Rightarrow> string \<Rightarrow> bool" where
  "Contains s p \<longleftrightarrow> list_ex (\<lambda>i. HasPrefix (drop i s) p) [0..<Suc (length s)]"

definition isSpaceOrEquals :: "char \<Rightarrow> bool" where
  "isSpaceOrEquals c \<longleftrightarrow> c = CHR ''='' \<or> c = CHR '' '' \<or> c = CHR 0x09 \<or> c = CHR 0x0A"

definition meta_options :: "string list" where
  "meta_options = [''fields'', ''ordering'', ''unique_together'', ''index_together'', ''get_latest_by'', ''order_with_respect_to'']"

text \<open>The name and the place of the last option before the string, as the loop over the options finds it.\<close>

definition later_option :: "string \<Rightarrow> string \<Rightarrow> string \<times> int \<Rightarrow> string \<times> int" where
  "later_option text candidate found =
     (case LastIndex text candidate of
        None \<Rightarrow> found
      | Some index \<Rightarrow>
          if length text \<le> index + length candidate \<or> \<not> isSpaceOrEquals (text ! (index + length candidate)) then found
          else if snd found < int index then (candidate, int index) else found)"

definition metaListOpen :: "string \<Rightarrow> nat \<Rightarrow> nat \<Rightarrow> bool" where
  "metaListOpen source start e =
     (let code = pythonCodeMask source e in
      0 < foldl (\<lambda>depth i. if \<not> code ! i then depth
        else if source ! i = CHR ''['' then Suc depth
        else if source ! i = CHR '']'' then depth - 1 else depth) (0 :: nat) [start..<e])"

definition metaFieldOption :: "string \<Rightarrow> nat \<Rightarrow> bool" where
  "metaFieldOption source stringStart =
     (let text = take stringStart source; (name, start) = fold (later_option text) meta_options ([], -1) in
      if name = [] then False
      else let after = nat start + length name in
        case IndexByte (drop after text) CHR ''='' of
          None \<Rightarrow> False
        | Some equals \<Rightarrow>
            if name = ''get_latest_by'' \<or> name = ''order_with_respect_to''
            then TrimSpace (drop (Suc (equals + after)) text) = []
            else metaListOpen source (Suc (equals + after)) stringStart)"

text \<open>A sign before a field name does not belong to the name.\<close>

definition skip_sign :: "string \<Rightarrow> ByteRange \<Rightarrow> ByteRange" where
  "skip_sign source r =
     (if br_Start r < br_End r \<and> (source ! br_Start r = CHR ''-'' \<or> source ! br_Start r = CHR ''+'')
      then r\<lparr>br_Start := Suc (br_Start r)\<rparr> else r)"

definition analyzeMetaFieldContext :: "string \<Rightarrow> nat \<Rightarrow> graph_ptr \<Rightarrow> SyntaxStatement list \<Rightarrow> string \<Rightarrow> Context option" where
  "analyzeMetaFieldContext source offset graph syntax filePath =
     (case enclosingMetaModel syntax offset filePath graph of
        None \<Rightarrow> None
      | Some label \<Rightarrow> (case metaFieldStringRange source offset of
          None \<Rightarrow> None
        | Some r \<Rightarrow>
            if \<not> metaFieldOption source (br_Start r) then None
            else let replacement = skip_sign source r in
              Some (context_of ContextMetaField (value_of label ValueModelClass) (range_text source replacement) replacement)))"

section \<open>Paths\<close>

definition receiver_value :: "(nat \<Rightarrow> bool) \<Rightarrow> string \<Rightarrow> callContext \<Rightarrow> graph_ptr \<Rightarrow> SyntaxStatement list \<Rightarrow> nat \<Rightarrow> string \<Rightarrow> Value" where
  "receiver_value wide source call graph syntax offset filePath =
     inferExpressionAtPath wide (TrimSpace (range_text source (call_receiver call))) (take offset source) graph syntax offset filePath"

definition is_query :: "Value \<Rightarrow> bool" where
  "is_query v \<longleftrightarrow> val_Kind v = ValueManager \<or> val_Kind v = ValueQuerySet"

text \<open>The method is one the project defines itself, not the one of Django's \<open>QuerySet\<close>.\<close>

definition overridden :: "graph_ptr \<Rightarrow> Value \<Rightarrow> string \<Rightarrow> bool" where
  "overridden graph v name = (case ResolveMethod graph v name of
     None \<Rightarrow> False | Some m \<Rightarrow> MethodRef_OwnerClass (Some m) \<noteq> ''django.db.models.query.QuerySet'')"

text \<open>The segments of a path at the cursor, within the limits on its bytes and segments.\<close>

definition path_segments :: "string \<Rightarrow> ByteRange option \<Rightarrow> nat \<Rightarrow> (PathSegment list \<times> nat \<times> bool) option" where
  "path_segments source r offset = (case r of
     None \<Rightarrow> None
   | Some rg \<Rightarrow>
       if MaxPathBytes < int (br_End rg) - int (br_Start rg) then None
       else case splitPath source rg offset of
         None \<Rightarrow> None
       | Some (segments, active, onSeparator) \<Rightarrow>
           if MaxPathSegments < length segments then None else Some (segments, active, onSeparator))"

text \<open>The context each of the analyses ends with; a single keyword is not a path yet.\<close>

definition path_result :: "Value \<Rightarrow> string \<Rightarrow> PathMode \<Rightarrow> bool \<Rightarrow> PathSegment list \<times> nat \<times> bool \<Rightarrow> nat \<Rightarrow> nat \<Rightarrow> nat \<Rightarrow> Context" where
  "path_result v name mode keyword found argumentsStart argument offset =
     (case found of (segments, active, onSeparator) \<Rightarrow>
        let segment = segments ! active in
        if keyword \<and> length segments = 1
        then context_of ContextQueryKeyword v (seg_Text (segments ! 0)) (seg_Range segment)
        else (context_of ContextORMPath v (seg_Text segment) (seg_Range segment))
          \<lparr>cx_Path := Some \<lparr>pc_Method = name, pc_Mode = mode, pc_Segments = segments, pc_ActiveSegment = active,
             pc_Replacement = seg_Range segment, pc_Arguments = \<lparr>br_Start = argumentsStart, br_End = offset\<rparr>,
             pc_ActiveArgument = argument, pc_OnSeparator = onSeparator\<rparr>\<rparr>)"

definition imports_at :: "(nat \<Rightarrow> bool) \<Rightarrow> string \<Rightarrow> nat \<Rightarrow> graph_ptr \<Rightarrow> SyntaxStatement list \<Rightarrow> string \<Rightarrow> import_map" where
  "imports_at wide source offset graph syntax filePath =
     fst (buildEnvironmentAtPath wide (take offset source) graph syntax offset filePath)"

definition analyzeFieldListArgumentContext ::
    "(nat \<Rightarrow> bool) \<Rightarrow> string \<Rightarrow> nat \<Rightarrow> graph_ptr \<Rightarrow> SyntaxStatement list \<Rightarrow> string \<Rightarrow> callContext \<Rightarrow> Context option" where
  "analyzeFieldListArgumentContext wide source offset graph syntax filePath call =
     (let argument = activeArgument source (call_argumentsStart call) offset;
          argumentEnd = activeArgumentEnd source (arg_start argument) in
      case argumentKeyword wide (subslice source (arg_start argument) argumentEnd) of
        None \<Rightarrow> None
      | Some keyword \<Rightarrow>
          if \<not> isFieldListKeyword (call_method call) keyword then None
          else case keywordArgumentValueStart source (arg_start argument) argumentEnd of
            None \<Rightarrow> None
          | Some valueStart \<Rightarrow>
              (let v = receiver_value wide source call graph syntax offset filePath in
               if \<not> is_query v \<or> overridden graph v (call_method call) then None
               else map_option (\<lambda>found. path_result v (call_method call) PathFields False found
                   (call_argumentsStart call) (arg_index argument) offset)
                 (path_segments source (stringListPathRange source valueStart offset) offset)))"

definition analyzeConstructorPathContext ::
    "(nat \<Rightarrow> bool) \<Rightarrow> string \<Rightarrow> nat \<Rightarrow> graph_ptr \<Rightarrow> SyntaxStatement list \<Rightarrow> string \<Rightarrow> Context option" where
  "analyzeConstructorPathContext wide source offset graph syntax filePath =
     (case enclosingFunctionCall source (int offset) of
        None \<Rightarrow> None
      | Some call \<Rightarrow> (case resolveClass (fc_name call) (imports_at wide source offset graph syntax filePath) graph of
          None \<Rightarrow> None
        | Some label \<Rightarrow>
            (let argument = activeArgument source (fc_argumentsStart call) offset in
             map_option (\<lambda>found. path_result (value_of label ValueModelClass) (fc_name call) PathLookup True found
                 (fc_argumentsStart call) (arg_index argument) offset)
               (path_segments source (keywordPathRange wide source argument offset) offset))))"

definition analyzeQPathContext ::
    "(nat \<Rightarrow> bool) \<Rightarrow> string \<Rightarrow> nat \<Rightarrow> graph_ptr \<Rightarrow> SyntaxStatement list \<Rightarrow> string \<Rightarrow> Context option" where
  "analyzeQPathContext wide source offset graph syntax filePath =
     (case enclosingFunctionCall source (int offset) of
        None \<Rightarrow> None
      | Some qCall \<Rightarrow>
          if expandImport (fc_name qCall) (imports_at wide source offset graph syntax filePath) \<noteq> ''django.db.models.Q'' then None
          else case enclosingCallBefore source (int offset) (fc_opening qCall) of
            None \<Rightarrow> None
          | Some call \<Rightarrow> (case pathMethod (call_method call) of
              None \<Rightarrow> None
            | Some (mode, stringPath) \<Rightarrow>
                if stringPath then None
                else let v = receiver_value wide source call graph syntax offset filePath in
                  if \<not> is_query v \<or> overridden graph v (call_method call) then None
                  else let argument = activeArgument source (fc_argumentsStart qCall) offset in
                    map_option (\<lambda>found. path_result v (call_method call) mode True found
                        (fc_argumentsStart qCall) (arg_index argument) offset)
                      (path_segments source (keywordPathRange wide source argument offset) offset)))"

definition analyzeExpressionPathContext ::
    "(nat \<Rightarrow> bool) \<Rightarrow> string \<Rightarrow> nat \<Rightarrow> graph_ptr \<Rightarrow> SyntaxStatement list \<Rightarrow> string \<Rightarrow> Context option" where
  "analyzeExpressionPathContext wide source offset graph syntax filePath =
     (case enclosingFunctionCall source (int offset) of
        None \<Rightarrow> None
      | Some expression \<Rightarrow>
          if \<not> isAnnotationExpressionFunction (expandImport (fc_name expression) (imports_at wide source offset graph syntax filePath))
          then None
          else case enclosingCallBefore source (int offset) (fc_opening expression) of
            None \<Rightarrow> None
          | Some call \<Rightarrow>
              if call_method call \<notin> {''annotate'', ''alias'', ''aggregate''} then None
              else let v = receiver_value wide source call graph syntax offset filePath in
                if \<not> is_query v then None
                else let argument = activeArgument source (fc_argumentsStart expression) offset in
                  map_option (\<lambda>found. path_result v (call_method call) PathProjection False found
                      (fc_argumentsStart expression) (arg_index argument) offset)
                    (path_segments source (stringPathRange source argument offset) offset))"

definition or_else :: "'a option \<Rightarrow> 'a option \<Rightarrow> 'a option" where
  "or_else a b = (case a of Some x \<Rightarrow> Some x | None \<Rightarrow> b)"

definition analyzePathContext ::
    "(nat \<Rightarrow> bool) \<Rightarrow> string \<Rightarrow> nat \<Rightarrow> graph_ptr \<Rightarrow> SyntaxStatement list \<Rightarrow> string \<Rightarrow> Context option" where
  "analyzePathContext wide source offset graph syntax filePath =
     (case enclosingCall source (int offset) of
        None \<Rightarrow> or_else (analyzeQPathContext wide source offset graph syntax filePath)
          (or_else (analyzeConstructorPathContext wide source offset graph syntax filePath)
            (analyzeExpressionPathContext wide source offset graph syntax filePath))
      | Some call \<Rightarrow> or_else (analyzeFieldListArgumentContext wide source offset graph syntax filePath call)
          (case pathMethod (call_method call) of
             None \<Rightarrow> None
           | Some (mode, stringPath) \<Rightarrow>
               (let v = receiver_value wide source call graph syntax offset filePath in
                if \<not> is_query v \<or> overridden graph v (call_method call) then None
                else let argument = activeArgument source (call_argumentsStart call) offset;
                    r = (if stringPath then stringPathRange source argument offset else keywordPathRange wide source argument offset);
                    r' = (if call_method call = ''order_by'' then map_option (skip_sign source) r else r) in
                  map_option (\<lambda>found. path_result v (call_method call) mode (\<not> stringPath) found
                      (call_argumentsStart call) (arg_index argument) offset)
                    (path_segments source r' offset))))"

section \<open>Members\<close>

definition analyzeMemberContext :: "(nat \<Rightarrow> bool) \<Rightarrow> string \<Rightarrow> nat \<Rightarrow> graph_ptr \<Rightarrow> SyntaxStatement list \<Rightarrow> string \<Rightarrow> Context option" where
  "analyzeMemberContext wide source offset graph syntax filePath =
     (let replacement = identifierRange wide source offset; identifier = range_text source replacement in
      if Contains identifier ''__'' \<or> br_Start replacement = 0 \<or> source ! (br_Start replacement - 1) \<noteq> CHR ''.'' then None
      else let receiver = expressionBefore source (br_Start replacement - 1) in
        if br_Start receiver = br_End receiver then None
        else let v = inferExpressionAtPath wide (TrimSpace (range_text source receiver)) (take offset source) graph syntax offset filePath in
          case val_Kind v of
            ValueModelClass \<Rightarrow> Some (context_of ContextModelMember v identifier replacement)
          | ValueModelInstance \<Rightarrow> Some (context_of ContextInstanceMember v identifier replacement)
          | ValueUnknown \<Rightarrow> None
          | _ \<Rightarrow> Some ((context_of ContextMethodMember v identifier replacement)\<lparr>cx_Method := methodForValue graph v identifier\<rparr>))"

definition analyze :: "(nat \<Rightarrow> bool) \<Rightarrow> string \<Rightarrow> int \<Rightarrow> graph_ptr \<Rightarrow> SyntaxStatement list \<Rightarrow> string \<Rightarrow> Context option" where
  "analyze wide source offset graph syntax filePath =
     (if graph = None \<or> offset < 0 \<or> int (length source) < offset then None
      else or_else (analyzeSerializerContext wide source (nat offset) graph syntax)
        (or_else (analyzeMetaFieldContext source (nat offset) graph syntax filePath)
          (or_else (analyzePathContext wide source (nat offset) graph syntax filePath)
            (analyzeMemberContext wide source (nat offset) graph syntax filePath))))"

definition Analyze :: "(nat \<Rightarrow> bool) \<Rightarrow> string \<Rightarrow> int \<Rightarrow> graph_ptr \<Rightarrow> Context option" where
  "Analyze wide source offset graph = analyze wide source offset graph [] []"

definition AnalyzeSyntax :: "(nat \<Rightarrow> bool) \<Rightarrow> string \<Rightarrow> int \<Rightarrow> graph_ptr \<Rightarrow> SyntaxStatement list \<Rightarrow> Context option" where
  "AnalyzeSyntax wide source offset graph syntax = analyze wide source offset graph syntax []"

definition AnalyzeSyntaxFile :: "(nat \<Rightarrow> bool) \<Rightarrow> string \<Rightarrow> int \<Rightarrow> graph_ptr \<Rightarrow> SyntaxStatement list \<Rightarrow> string \<Rightarrow> Context option" where
  "AnalyzeSyntaxFile wide source offset graph syntax filePath = analyze wide source offset graph syntax filePath"

section \<open>Signatures\<close>

record SignatureContext =
  sg_Value :: Value
  sg_Method :: Method
  sg_ActiveArgument :: nat
  sg_PositionalIndex :: nat
  sg_Keyword :: string

definition AnalyzeSignatureSyntax :: "(nat \<Rightarrow> bool) \<Rightarrow> string \<Rightarrow> int \<Rightarrow> graph_ptr \<Rightarrow> SyntaxStatement list \<Rightarrow> SignatureContext option" where
  "AnalyzeSignatureSyntax wide source offset graph syntax =
     (case enclosingCall source offset of
        None \<Rightarrow> None
      | Some call \<Rightarrow>
          (let v = inferExpression wide (TrimSpace (range_text source (call_receiver call))) (take (nat offset) source) graph syntax (nat offset) in
           case ResolveMethod graph v (call_method call) of
             None \<Rightarrow> None
           | Some m \<Rightarrow>
               (let argument = activeArgument source (call_argumentsStart call) (nat offset);
                    e = activeArgumentEnd source (arg_start argument) in
                Some \<lparr>sg_Value = v, sg_Method = m, sg_ActiveArgument = arg_index argument,
                  sg_PositionalIndex = positionalArgumentIndex wide source (call_argumentsStart call) (arg_start argument),
                  sg_Keyword = (case argumentKeyword wide (subslice source (arg_start argument) e) of Some k \<Rightarrow> k | None \<Rightarrow> [])\<rparr>)))"

end
