(* ===== verification/Analysis_Facts.thy ===== *)
theory Analysis_Facts
  imports Analysis_Context Python_Scan_Facts
begin

text \<open>
  Where the ranges of a context lie: every range an analysis replaces is in the source, spells the
  context's identifier and holds the cursor, but for two places where it begins one byte behind it.
\<close>

section \<open>Ranges\<close>

definition in_source :: "string \<Rightarrow> ByteRange \<Rightarrow> bool" where
  "in_source source r \<longleftrightarrow> br_Start r \<le> br_End r \<and> br_End r \<le> length source"

text \<open>
  The two places where a range begins one byte behind the cursor: the cursor is on the sign of a Meta
  option's field name, or between the two underscores of a path's separator.
\<close>

definition starts_behind :: "string \<Rightarrow> nat \<Rightarrow> Context \<Rightarrow> bool" where
  "starts_behind source offset cx \<longleftrightarrow> br_Start (cx_Replacement cx) = Suc offset \<and>
     (cx_Kind cx = ContextMetaField \<and> (source ! offset = CHR ''-'' \<or> source ! offset = CHR ''+'') \<or>
      cx_Kind cx = ContextORMPath \<and> (case cx_Path cx of Some path \<Rightarrow> pc_OnSeparator path | None \<Rightarrow> False) \<and>
        0 < offset \<and> source ! (offset - 1) = CHR ''_'' \<and> source ! offset = CHR ''_'')"

text \<open>The range of the context is in the source, spells its identifier and holds the cursor, but for those two places.\<close>

definition at_cursor :: "string \<Rightarrow> nat \<Rightarrow> Context \<Rightarrow> bool" where
  "at_cursor source offset cx \<longleftrightarrow> (let r = cx_Replacement cx in
     in_source source r \<and> cx_Identifier cx = range_text source r \<and> offset \<le> br_End r \<and>
     (br_Start r \<le> offset \<or> starts_behind source offset cx))"

lemma at_cursor_context:
  assumes "in_source source r" and "br_Start r \<le> offset" and "offset \<le> br_End r"
  shows "at_cursor source offset (context_of kind v (range_text source r) r)"
  using assms by (simp add: at_cursor_def context_of_def)

lemma at_cursor_extend [simp]:
  "at_cursor source offset (cx\<lparr>cx_SerializerFields := fs\<rparr>) = at_cursor source offset cx"
  "at_cursor source offset (cx\<lparr>cx_Method := m\<rparr>) = at_cursor source offset cx"
  by (simp_all add: at_cursor_def starts_behind_def)

lemma or_else_cases: "or_else a b = Some x \<Longrightarrow> (a = Some x \<Longrightarrow> P) \<Longrightarrow> (b = Some x \<Longrightarrow> P) \<Longrightarrow> P"
  by (cases a) (auto simp: or_else_def)

section \<open>Segments\<close>

lemma chained_within: "chained s e rs \<Longrightarrow> r \<in> set rs \<Longrightarrow> s \<le> br_Start r \<and> br_Start r \<le> br_End r \<and> br_End r \<le> e"
  by (induction s e rs arbitrary: r rule: chained.induct) fastforce+

lemma on_dunder_at:
  "chained s e rs \<Longrightarrow> 0 < j \<Longrightarrow> j < length rs \<Longrightarrow> offset + 1 = br_Start (rs ! j) \<Longrightarrow> on_dunder offset rs"
proof (induction s e rs arbitrary: j rule: chained.induct)
  case (3 s e r r' rs)
  show ?case
  proof (cases "j = 1")
    case True
    have "br_Start r' = br_End r + 2" using 3(2) by (cases rs) auto
    then show ?thesis using True 3(5) by simp
  next
    case False
    then obtain k where "j = Suc k" "0 < k" using 3(3) by (cases j) auto
    with 3(1) [of k] 3(2,4,5) show ?thesis by simp
  qed
qed auto

lemma piece_after_dunder:
  "r \<in> set (piece_ranges source e index start) \<Longrightarrow> br_Start r = start \<or>
     2 \<le> br_Start r \<and> source ! (br_Start r - 2) = CHR ''_'' \<and> source ! (br_Start r - 1) = CHR ''_''"
proof (induction source e index start rule: piece_ranges.induct)
  case (1 source e index start)
  show ?case
    using 1 by (cases "e \<le> index"; cases "at_dunder source e index")
      (auto simp: piece_ranges.simps [of source e index start] at_dunder_def)
qed

lemma splitPath_active:
  assumes split: "splitPath source path offset = Some (segments, active, onSeparator)" and le: "br_End path \<le> length source"
  shows "active < length segments" and "seg_Text (segments ! active) = range_text source (seg_Range (segments ! active))"
    and "in_source source (seg_Range (segments ! active))" and "offset \<le> br_End (seg_Range (segments ! active))"
    and "br_Start (seg_Range (segments ! active)) \<le> Suc offset"
    and "br_Start (seg_Range (segments ! active)) = Suc offset \<Longrightarrow> onSeparator \<and> length segments \<noteq> 1 \<and>
      0 < offset \<and> source ! (offset - 1) = CHR ''_'' \<and> source ! offset = CHR ''_''"
proof -
  let ?rs = "piece_ranges source (br_End path) (br_Start path) (br_Start path)"
  let ?segs = "map (piece_segment source) ?rs"
  have off: "br_Start path \<le> offset" "offset \<le> br_End path" using split by (auto simp: splitPath_def split: if_splits)
  then have ch: "chained (br_Start path) (br_End path) ?rs" by (intro piece_ranges_chained) auto
  obtain j where j: "j < length ?rs" "active_of offset 0 ?rs (-1) = int j"
    "br_Start (?rs ! j) \<le> offset \<and> offset \<le> br_End (?rs ! j) \<or> 0 < j \<and> offset + 1 = br_Start (?rs ! j)"
    using active_of_found [OF ch off, of 0 "-1"] by auto
  have "split_loop source path offset (br_Start path) (br_Start path) [] (-1) False = (?segs, int j, on_dunder offset ?rs)"
    using split_loop_pieces [OF order_refl order_trans [OF off], of source offset "[]" "-1" False] j(2) by simp
  then have eq: "segments = ?segs" "active = j" "onSeparator = on_dunder offset ?rs"
    using split off j(1) by (auto simp: splitPath_def)
  have within: "br_Start (?rs ! j) \<le> br_End (?rs ! j)" "br_End (?rs ! j) \<le> br_End path"
    using chained_within [OF ch, of "?rs ! j"] j(1) by auto
  have range: "seg_Range (segments ! active) = ?rs ! j" "seg_Text (segments ! active) = range_text source (?rs ! j)"
    using j(1) by (simp_all add: eq piece_segment_def)
  show "active < length segments" using j(1) by (simp add: eq)
  show "seg_Text (segments ! active) = range_text source (seg_Range (segments ! active))" by (simp add: range)
  show "in_source source (seg_Range (segments ! active))" using within le by (simp add: range in_source_def)
  show "offset \<le> br_End (seg_Range (segments ! active))" using j(3) within by (auto simp: range)
  show "br_Start (seg_Range (segments ! active)) \<le> Suc offset" using j(3) by (auto simp: range)
  show "onSeparator \<and> length segments \<noteq> 1 \<and> 0 < offset \<and> source ! (offset - 1) = CHR ''_'' \<and> source ! offset = CHR ''_''"
    if "br_Start (seg_Range (segments ! active)) = Suc offset"
  proof -
    have start: "br_Start (?rs ! j) = Suc offset" using that by (simp add: range)
    moreover have "0 < offset \<and> source ! (offset - 1) = CHR ''_'' \<and> source ! offset = CHR ''_''"
      using piece_after_dunder [OF nth_mem [OF j(1)]] start off(1) by auto
    ultimately show ?thesis using j(1,3) on_dunder_at [OF ch, of j offset] by (auto simp: eq)
  qed
qed

lemma path_segments_context:
  assumes found: "path_segments source r offset = Some found" and r: "\<And>rg. r = Some rg \<Longrightarrow> br_End rg \<le> length source"
  shows "at_cursor source offset (path_result v name mode keyword found argumentsStart argument offset)"
proof -
  obtain rg where rg: "r = Some rg" using found by (cases r) (simp_all add: path_segments_def)
  have size: "\<not> MaxPathBytes < int (br_End rg) - int (br_Start rg)" using found rg by (simp add: path_segments_def split: if_splits)
  obtain x where x: "splitPath source rg offset = Some x"
    using found rg size by (cases "splitPath source rg offset") (simp_all add: path_segments_def)
  obtain segments active onSeparator where seg: "x = (segments, active, onSeparator)" by (cases x)
  have split: "r = Some rg" "splitPath source rg offset = Some (segments, active, onSeparator)" "found = (segments, active, onSeparator)"
    using found rg size x seg by (simp_all add: path_segments_def split: if_splits)
  note s = splitPath_active [OF split(2) r [OF split(1)]]
  define seg where "seg = segments ! active"
  have seg: "seg_Text seg = range_text source (seg_Range seg)" "in_source source (seg_Range seg)"
    "offset \<le> br_End (seg_Range seg)" "br_Start (seg_Range seg) \<le> Suc offset"
    "br_Start (seg_Range seg) = Suc offset \<longrightarrow> onSeparator \<and> length segments \<noteq> 1 \<and>
      0 < offset \<and> source ! (offset - 1) = CHR ''_'' \<and> source ! offset = CHR ''_''"
    using s by (simp_all add: seg_def)
  show ?thesis
  proof (cases "keyword \<and> length segments = 1")
    case True
    then have "segments ! 0 = seg" using s(1) by (simp add: seg_def)
    then have "path_result v name mode keyword found argumentsStart argument offset =
        context_of ContextQueryKeyword v (range_text source (seg_Range seg)) (seg_Range seg)"
      using True seg(1) by (simp add: path_result_def split(3) Let_def flip: seg_def)
    moreover have "br_Start (seg_Range seg) \<le> offset" using seg(4,5) True by linarith
    ultimately show ?thesis using at_cursor_context [OF seg(2) _ seg(3)] by simp
  next
    case False
    define path where "path = \<lparr>pc_Method = name, pc_Mode = mode, pc_Segments = segments, pc_ActiveSegment = active,
      pc_Replacement = seg_Range seg, pc_Arguments = \<lparr>br_Start = argumentsStart, br_End = offset\<rparr>,
      pc_ActiveArgument = argument, pc_OnSeparator = onSeparator\<rparr>"
    have "path_result v name mode keyword found argumentsStart argument offset =
        (context_of ContextORMPath v (range_text source (seg_Range seg)) (seg_Range seg))\<lparr>cx_Path := Some path\<rparr>"
      using False seg(1) unfolding path_result_def split(3) prod.case Let_def seg_def [symmetric] path_def by auto
    moreover have "pc_OnSeparator path = onSeparator" by (simp add: path_def)
    ultimately show ?thesis using seg(2-5) by (auto simp: at_cursor_def starts_behind_def context_of_def Let_def)
  qed
qed

section \<open>The ranges of paths\<close>

lemma identifier_end_le: "identifier_end wide p e \<le> e + length p"
proof (induction wide p e rule: identifier_end.induct)
  case (2 wide c cs e)
  obtain r size where d: "DecodeRune (c # cs) = (r, size)" by (cases "DecodeRune (c # cs)")
  have size: "size \<le> length (c # cs)" using DecodeRune_size [of "c # cs"] d by simp
  show ?case
  proof (cases "r = RuneError \<and> size = 1 \<or> \<not> isIdentifierRune wide r")
    case True
    then show ?thesis by (simp add: d)
  next
    case False
    then have "identifier_end wide (drop size (c # cs)) (e + size) \<le> e + size + length (drop size (c # cs))"
      using 2 [OF d [symmetric] refl] by blast
    then show ?thesis using False size by (simp add: d)
  qed
qed simp

lemma keywordPathRange_le:
  assumes "keywordPathRange wide source argument offset = Some rg" and "offset \<le> length source"
  shows "br_End rg \<le> length source"
proof -
  have "br_End rg = identifier_end wide (drop offset source) offset"
    using assms(1) by (auto simp: keywordPathRange_def Let_def split: if_splits)
  then show ?thesis using identifier_end_le [of wide "drop offset source" offset] assms(2) by simp
qed

lemma stringListPathRange_le:
  assumes "stringListPathRange source start offset = Some rg"
  shows "br_End rg \<le> length source"
proof -
  obtain elements where e: "stringListElements source start = Some elements"
    using assms by (auto simp: stringListPathRange_def split: option.splits)
  then have "rg \<in> set elements" using assms string_list_elements(3) [OF e] by blast
  then show ?thesis using string_list_elements(2) [OF e] by fastforce
qed

lemma skip_sign_end [simp]: "br_End (skip_sign source r) = br_End r"
  by (simp add: skip_sign_def)

lemmas path_bounds = keywordPathRange_le stringPathRange_found(4) stringListPathRange_le

lemma path_context_at:
  assumes "analyzePathContext wide source offset graph syntax filePath = Some cx" and le: "offset \<le> length source"
  shows "at_cursor source offset cx"
proof -
  have list: "at_cursor source offset cx" if "analyzeFieldListArgumentContext wide source offset graph syntax filePath call = Some cx" for call
    using that by (auto simp: analyzeFieldListArgumentContext_def Let_def split: option.splits if_splits
        intro!: path_segments_context dest: path_bounds)
  have q: "at_cursor source offset cx" if "analyzeQPathContext wide source offset graph syntax filePath = Some cx"
    using that le by (auto simp: analyzeQPathContext_def Let_def split: option.splits if_splits prod.splits
        intro!: path_segments_context dest: path_bounds)
  have c: "at_cursor source offset cx" if "analyzeConstructorPathContext wide source offset graph syntax filePath = Some cx"
    using that le by (auto simp: analyzeConstructorPathContext_def Let_def split: option.splits if_splits
        intro!: path_segments_context dest: path_bounds)
  have e: "at_cursor source offset cx" if "analyzeExpressionPathContext wide source offset graph syntax filePath = Some cx"
    using that le by (auto simp: analyzeExpressionPathContext_def Let_def split: option.splits if_splits
        intro!: path_segments_context dest: path_bounds)
  show ?thesis
  proof (cases "enclosingCall source (int offset)")
    case None
    with assms(1) have "or_else (analyzeQPathContext wide source offset graph syntax filePath)
        (or_else (analyzeConstructorPathContext wide source offset graph syntax filePath)
          (analyzeExpressionPathContext wide source offset graph syntax filePath)) = Some cx"
      by (simp add: analyzePathContext_def)
    then show ?thesis by (elim or_else_cases) (use q c e in blast)+
  next
    case (Some call)
    let ?direct = "case pathMethod (call_method call) of
        None \<Rightarrow> None
      | Some (mode, stringPath) \<Rightarrow>
          (let v = receiver_value wide source call graph syntax offset filePath in
           if \<not> is_query v \<or> overridden graph v (call_method call) then None
           else let argument = activeArgument source (call_argumentsStart call) offset;
               r = (if stringPath then stringPathRange source argument offset else keywordPathRange wide source argument offset);
               r' = (if call_method call = ''order_by'' then map_option (skip_sign source) r else r) in
             map_option (\<lambda>found. path_result v (call_method call) mode (\<not> stringPath) found
                 (call_argumentsStart call) (arg_index argument) offset)
               (path_segments source r' offset))"
    have "?direct = Some cx \<Longrightarrow> at_cursor source offset cx"
      using le by (auto simp: Let_def split: option.splits if_splits prod.splits intro!: path_segments_context dest: path_bounds)
    moreover from assms(1) Some have "or_else (analyzeFieldListArgumentContext wide source offset graph syntax filePath call) ?direct = Some cx"
      by (simp add: analyzePathContext_def)
    ultimately show ?thesis by (elim or_else_cases) (use list in blast)+
  qed
qed

section \<open>Identifiers and options\<close>

lemma identifierRange_bounds:
  assumes "offset \<le> length source"
  shows "br_Start (identifierRange wide source offset) \<le> offset" and "offset \<le> br_End (identifierRange wide source offset)"
    and "br_End (identifierRange wide source offset) \<le> length source"
proof -
  have start: "identifierRange_start wide source i \<le> i" for i
  proof (induction wide source i rule: identifierRange_start.induct)
    case (1 wide source start)
    obtain r n where d: "DecodeLastRune (take start source) = (r, n)" by (cases "DecodeLastRune (take start source)")
    show ?case
    proof (cases "start = 0 \<or> length source < start \<or> bad_or_stop wide (r, n)")
      case True
      then show ?thesis by (subst identifierRange_start.simps) (auto simp: Let_def d)
    next
      case False
      then have "identifierRange_start wide source (start - n) \<le> start - n" using 1 d by auto
      then show ?thesis using False by (subst identifierRange_start.simps) (simp add: Let_def d)
    qed
  qed
  then show "br_Start (identifierRange wide source offset) \<le> offset" by (simp add: identifierRange_def)
  have stop: "i \<le> length source \<Longrightarrow> i \<le> identifierRange_end wide source i \<and> identifierRange_end wide source i \<le> length source" for i
  proof (induction wide source i rule: identifierRange_end.induct)
    case (1 wide source e)
    show ?case
    proof (cases "length source \<le> e \<or> bad_or_stop wide (DecodeRune (drop e source))")
      case True
      then show ?thesis using 1(2) by (subst (1 2) identifierRange_end.simps) (auto simp: Let_def)
    next
      case False
      let ?n = "snd (DecodeRune (drop e source))"
      have n: "e + ?n \<le> length source" using DecodeRune_size [of "drop e source"] False by auto
      then have "e + ?n \<le> identifierRange_end wide source (e + ?n) \<and> identifierRange_end wide source (e + ?n) \<le> length source"
        using 1(1) [OF _ refl] False by auto
      moreover have "identifierRange_end wide source e = identifierRange_end wide source (e + ?n)"
        using False by (subst identifierRange_end.simps) (simp add: Let_def)
      ultimately show ?thesis by linarith
    qed
  qed
  show "offset \<le> br_End (identifierRange wide source offset)" "br_End (identifierRange wide source offset) \<le> length source"
    using stop [OF assms] by (simp_all add: identifierRange_def)
qed

lemma member_context_at:
  assumes "analyzeMemberContext wide source offset graph syntax filePath = Some cx" and "offset \<le> length source"
  shows "at_cursor source offset cx"
proof -
  let ?r = "identifierRange wide source offset"
  have "in_source source ?r" using identifierRange_bounds [OF assms(2)] order_trans by (fastforce simp: in_source_def)
  then have "at_cursor source offset (context_of kind v (range_text source ?r) ?r)" for kind v
    using identifierRange_bounds [OF assms(2)] by (intro at_cursor_context) auto
  then show ?thesis
    using assms(1) by (auto simp: analyzeMemberContext_def Let_def split: if_splits ValueKind.splits)
qed

lemma meta_string_bounds:
  "meta_string_before source offset n = Some r \<Longrightarrow> br_Start r \<le> offset \<and> offset \<le> br_End r \<and> br_End r < length source"
  by (induction n) (auto simp: Let_def split: if_splits)

lemma meta_context_at:
  assumes "analyzeMetaFieldContext source offset graph syntax filePath = Some cx"
  shows "at_cursor source offset cx"
proof -
  obtain label r where r: "metaFieldStringRange source offset = Some r"
    and cx: "cx = context_of ContextMetaField (value_of label ValueModelClass) (range_text source (skip_sign source r)) (skip_sign source r)"
    using assms by (auto simp: analyzeMetaFieldContext_def Let_def split: option.splits if_splits)
  have "br_Start r \<le> offset \<and> offset \<le> br_End r \<and> br_End r < length source"
    using r meta_string_bounds by (simp add: metaFieldStringRange_def)
  moreover from this have "br_Start r = offset \<or> Suc (br_Start r) \<le> offset" by linarith
  ultimately show ?thesis
    by (auto simp: cx at_cursor_def starts_behind_def context_of_def in_source_def skip_sign_def)
qed

end
