(* ===== verification/Analysis_Serializer_Facts.thy ===== *)
theory Analysis_Serializer_Facts
  imports Analysis_Facts
begin

text \<open>
  The ranges of a serializer's tokens, and of the contexts made from them.
\<close>

section \<open>Tokens\<close>

lemma tokens_loop_bounds:
  "tokens_loop n i cs = Some ts \<Longrightarrow> t \<in> set ts \<Longrightarrow>
   br_Start (tok_span t) \<le> br_End (tok_span t) \<and> br_End (tok_span t) \<le> i + length cs"
proof (induction n i cs arbitrary: ts rule: tokens_loop.induct)
  case (1 n i)
  then show ?case by simp
next
  case (2 n i c cs)
  note IH = "2.IH" and p = "2.prems"
  have n: "n \<noteq> maxSerializerTokens" using p(1) by auto
  consider (space) "isSpace c" | (comment) "\<not> isSpace c" "c = CHR ''#''"
    | (literal) "\<not> isSpace c" "c \<noteq> CHR ''#''" "is_quote c" | (word) "\<not> isSpace c" "c \<noteq> CHR ''#''" "\<not> is_quote c" by blast
  then show ?case
  proof cases
    case space
    with n p(1) have "tokens_loop n (Suc i) cs = Some ts" by simp
    from IH(1) [OF n space this p(2)] show ?thesis by simp
  next
    case comment
    define k where "k = length (takeWhile (\<lambda>d. d \<noteq> CHR 0x0A) cs)"
    have k: "k \<le> length cs" by (simp add: k_def length_takeWhile_le)
    from comment n p(1) have "tokens_loop n (Suc i + k) (drop k cs) = Some ts" by (simp add: k_def Let_def)
    from IH(2) [OF n comment k_def this p(2)] k show ?thesis by simp
  next
    case literal
    define body where "body = takeWhile (\<lambda>d. d \<noteq> c) cs"
    define k where "k = length body"
    have ok: "take 2 cs \<noteq> [c, c]" "\<not> (list_ex bad_in_literal body \<or> k = length cs)"
      using p(1) n literal by (auto simp: Let_def body_def k_def split: if_splits)
    then have k: "k < length cs" by (auto simp: k_def body_def intro: le_neq_implies_less length_takeWhile_le)
    from p(1) n literal ok obtain us where us: "tokens_loop (Suc n) (i + k + 2) (drop (Suc k) cs) = Some us"
      "ts = \<lparr>tok_text = body, tok_span = \<lparr>br_Start = Suc i, br_End = Suc i + k\<rparr>, tok_literal = True\<rparr> # us"
      by (auto simp: Let_def simp flip: body_def k_def)
    from p(2) us(2) consider "tok_span t = \<lparr>br_Start = Suc i, br_End = Suc i + k\<rparr>" | "t \<in> set us" by auto
    then show ?thesis
    proof cases
      case 1
      with k show ?thesis by simp
    next
      case 2
      from IH(3) [OF n literal ok(1) body_def k_def ok(2) us(1) 2] k show ?thesis by (cases cs) auto
    qed
  next
    case word
    define k where "k = (if isIdentifierByte c then length (takeWhile isIdentifierByte cs) else 0)"
    have k: "k \<le> length cs" by (simp add: k_def length_takeWhile_le)
    from p(1) n word obtain us where us: "tokens_loop (Suc n) (Suc i + k) (drop k cs) = Some us"
      "ts = \<lparr>tok_text = c # take k cs, tok_span = \<lparr>br_Start = i, br_End = Suc i + k\<rparr>, tok_literal = False\<rparr> # us"
      by (auto simp: Let_def simp flip: k_def)
    from p(2) us(2) consider "tok_span t = \<lparr>br_Start = i, br_End = Suc i + k\<rparr>" | "t \<in> set us" by auto
    then show ?thesis
    proof cases
      case 1
      with k show ?thesis by simp
    next
      case 2
      from IH(4) [OF n word k_def us(1) 2] k show ?thesis by simp
    qed
  qed
qed

definition tokens_in :: "string \<Rightarrow> serializerToken list \<Rightarrow> bool" where
  "tokens_in source ts \<longleftrightarrow> (\<forall>t \<in> set ts. in_source source (tok_span t))"

lemma tokens_in_subset: "tokens_in source ts \<Longrightarrow> set us \<subseteq> set ts \<Longrightarrow> tokens_in source us"
  by (auto simp: tokens_in_def)

lemma serializerTokens_in: "serializerTokens source span = Some ts \<Longrightarrow> tokens_in source ts"
  using tokens_loop_bounds [of 0 "br_Start span" "subslice source (br_Start span) (br_End span)" ts]
  by (fastforce simp: serializerTokens_def tokens_in_def in_source_def split: if_splits)

lemma serializerAssignment_in:
  assumes "serializerAssignment wide source st = Some (name, ts)"
  shows "tokens_in source ts"
proof -
  obtain us where us: "serializerTokens source \<lparr>br_Start = ss_Start st, br_End = ss_End st\<rparr> = Some us" "set ts \<subseteq> set us"
    using assms by (fastforce simp: serializerAssignment_def split: option.splits list.splits if_splits)
  show ?thesis by (rule tokens_in_subset [OF serializerTokens_in [OF us(1)] us(2)])
qed

lemma string_items_subset: "string_items ts = Some items \<Longrightarrow> set items \<subseteq> set ts"
  by (induction ts arbitrary: items rule: string_items.induct) (auto split: if_splits)

lemma serializerStringList_subset:
  assumes "serializerStringList ts = Some items"
  shows "set items \<subseteq> set ts"
proof -
  have "string_items (butlast (tl ts)) = Some items"
    using assms by (auto simp: serializerStringList_def Let_def split: if_splits option.splits)
  then have "set items \<subseteq> set (butlast (tl ts))" by (rule string_items_subset)
  also have "\<dots> \<subseteq> set ts" by (cases ts) (auto dest: in_set_butlastD)
  finally show ?thesis .
qed

lemma serializerCall_subset:
  assumes "serializerCall wide ts imps = Some args"
  shows "set args \<subseteq> set ts"
proof -
  have "args = butlast (drop (Suc (length (takeWhile (\<lambda>t. tok_text t \<noteq> ''('') ts))) ts)"
    using assms by (auto simp: serializerCall_def Let_def split: if_splits option.splits)
  then show ?thesis by (auto dest!: in_set_butlastD in_set_dropD)
qed

lemma source_loop_member: "source_loop depth previous ts = Some t \<Longrightarrow> t \<in> set ts \<or> t = zero_Token"
proof (induction depth previous ts rule: source_loop.induct)
  case (2 depth previous u us)
  have two: "us ! 1 \<in> set us" if "2 \<le> length us" using that by simp
  show ?case
    using 2 two by (auto split: if_splits)
qed simp

lemma source_token_at_in:
  assumes "source_token_at offset args = Some t" and "tokens_in source args"
  shows "in_source source (tok_span t)" and "br_Start (tok_span t) \<le> offset" and "offset \<le> br_End (tok_span t)"
proof -
  have t: "serializerSource args = Some t" "tok_literal t" "br_Start (tok_span t) \<le> offset" "offset \<le> br_End (tok_span t)"
    using assms(1) by (auto simp: source_token_at_def split: option.splits if_splits)
  then have "t \<in> set args" using source_loop_member [of 0 None args t] by (auto simp: serializerSource_def zero_Token_def)
  with assms(2) t show "in_source source (tok_span t)" "br_Start (tok_span t) \<le> offset" "offset \<le> br_End (tok_span t)"
    by (auto simp: tokens_in_def)
qed

section \<open>Contexts\<close>

lemma source_segments_start:
  "source_segments source graph offset i start segments label = Some (label', start') \<Longrightarrow> start \<le> i \<Longrightarrow> i \<le> offset \<Longrightarrow>
   \<forall>k \<in> {start..<i}. source ! k \<noteq> CHR ''.'' \<Longrightarrow>
   start' \<le> offset \<and> (\<forall>k \<in> {start'..<offset}. source ! k \<noteq> CHR ''.'')"
proof (induction source graph offset i start segments label rule: source_segments.induct)
  case (1 source graph offset i start segments label)
  note unfold = source_segments.simps [of source graph offset i start segments label]
  show ?case
  proof (cases "offset \<le> i")
    case True
    then have "label' = label \<and> start' = start" using "1.prems"(1) by (simp add: unfold)
    then show ?thesis using "1.prems"(2-4) True by auto
  next
    case lt: False
    show ?thesis
    proof (cases "source ! i = CHR ''.''")
      case False
      have "source_segments source graph offset (Suc i) start segments label = Some (label', start')"
        using "1.prems"(1) lt False by (simp add: unfold)
      moreover have "\<forall>k \<in> {start..<Suc i}. source ! k \<noteq> CHR ''.''"
        using "1.prems"(4) False by (auto simp: less_Suc_eq)
      ultimately show ?thesis using "1.IH"(1) [OF lt] "1.prems"(2) lt False by simp
    next
      case True
      obtain access related where a: "\<not> MaxPathSegments \<le> Suc segments" "InstanceAccess graph label (subslice source start i) = Some access"
        "fa_Kind access \<noteq> FieldAccessAttname" "singleRelatedInstance (Some (fa_Field access)) = Some related"
        "source_segments source graph offset (Suc i) (Suc i) (Suc segments) related = Some (label', start')"
        using "1.prems"(1) lt True by (auto simp: unfold split: if_splits option.splits)
      from "1.IH"(2) [OF lt _ a] True lt show ?thesis by auto
    qed
  qed
qed

lemma skip_while_covers:
  "i \<le> j \<Longrightarrow> j \<le> e \<Longrightarrow> \<forall>k \<in> {i..<j}. p k \<Longrightarrow> j \<le> skip_while p e i"
proof (induction p e i rule: skip_while.induct)
  case (1 p e i)
  show ?case
  proof (cases "i = j")
    case True
    then show ?thesis by (simp add: skip_while_ge)
  next
    case False
    then have "i < e \<and> p i" using 1 by auto
    moreover have "j \<le> skip_while p e (Suc i)" using 1(1) [OF \<open>i < e \<and> p i\<close>] 1(2-4) False by auto
    ultimately show ?thesis by (subst skip_while.simps) simp
  qed
qed

lemma source_context_at:
  assumes found: "serializerSourceContext source offset graph label t = Some cx"
    and t: "in_source source (tok_span t)" "br_Start (tok_span t) \<le> offset" "offset \<le> br_End (tok_span t)"
  shows "at_cursor source offset cx"
proof -
  obtain label' start where s: "source_segments source graph offset (br_Start (tok_span t)) (br_Start (tok_span t)) 0 label = Some (label', start)"
    and cx: "cx = (let e = skip_while (\<lambda>i. source ! i \<noteq> CHR ''.'') (br_End (tok_span t)) start in
       (context_of ContextSerializerField (value_of label' ValueModelInstance) (subslice source start e)
         \<lparr>br_Start = start, br_End = e\<rparr>)\<lparr>cx_SerializerFields := every_field graph label'\<rparr>)"
    using found by (auto simp: serializerSourceContext_def Let_def split: if_splits option.splits)
  have start: "start \<le> offset" "\<forall>k \<in> {start..<offset}. source ! k \<noteq> CHR ''.''"
    using source_segments_start [OF s order_refl t(2)] by auto
  define e where "e = skip_while (\<lambda>i. source ! i \<noteq> CHR ''.'') (br_End (tok_span t)) start"
  have "offset \<le> e" unfolding e_def by (rule skip_while_covers [OF start(1) t(3) start(2)])
  moreover have "e \<le> br_End (tok_span t)" unfolding e_def using start(1) t(3) by (intro skip_while_le) simp
  ultimately have "in_source source \<lparr>br_Start = start, br_End = e\<rparr>" using start(1) t(1) by (auto simp: in_source_def)
  from at_cursor_context [OF this] start(1) \<open>offset \<le> e\<close> show ?thesis by (simp add: cx e_def Let_def)
qed

lemma read_declarations_context:
  "read_declarations wide source imps graph label scope cls offset sts declarations blocked = Inl (Some cx) \<Longrightarrow> at_cursor source offset cx"
proof (induction sts arbitrary: declarations blocked)
  case (Cons st sts)
  show ?case
  proof (cases "ss_ScopeMarker st \<or> ss_ScopeStart st \<noteq> ss_Start cls \<or> ss_ScopeEnd st \<noteq> ss_End cls")
    case False
    show ?thesis
    proof (cases "serializerAssignment wide source st")
      case None
      with False Cons show ?thesis by (simp add: Let_def)
    next
      case (Some nt)
      obtain name ts where nt: "nt = (name, ts)" by (cases nt)
      have fresh: "name \<notin> set blocked" using Cons.prems False Some nt by (auto simp: Let_def)
      show ?thesis
      proof (cases "serializerCall wide ts imps")
        case None
        with False Some nt fresh Cons show ?thesis by (simp add: Let_def)
      next
        case args: (Some args)
        have "tokens_in source args"
          by (rule tokens_in_subset [OF serializerAssignment_in [OF Some [unfolded nt]] serializerCall_subset [OF args]])
        then have "at_cursor source offset cx"
          if "serializerSourceContext source offset graph label t = Some cx" "source_token_at offset args = Some t" for t
          using source_context_at [OF that(1)] source_token_at_in [OF that(2)] by blast
        with Cons False Some nt fresh args show ?thesis
          by (auto simp: Let_def split: if_splits option.splits)
      qed
    qed
  qed (use Cons in \<open>simp add: Let_def\<close>)
qed simp

lemma read_options_active:
  "read_options wide source imps graph meta offset sts opts = Some opts' \<Longrightarrow> tokens_in source (mo_active opts) \<Longrightarrow>
   tokens_in source (mo_active opts')"
proof (induction sts arbitrary: opts)
  case (Cons st sts)
  then obtain opts1 where 1: "read_option wide source imps graph meta offset st opts = Some opts1"
    "read_options wide source imps graph meta offset sts opts1 = Some opts'" by (auto split: option.splits)
  have model: "mo_active o' = mo_active opts" if "option_model wide imps graph guarded name ts opts = Some o'" for guarded name ts o'
    using that by (auto simp: option_model_def split: if_splits option.splits)
  have lists: "mo_active (option_exclude guarded name ts (option_fields guarded name ts o')) = mo_active o'" for guarded name ts o'
    by (simp add: option_exclude_def option_fields_def)
  have "tokens_in source (mo_active opts1)"
    using 1(1) Cons.prems(2) model lists serializerAssignment_in
    by (auto simp: read_option_def Let_def split: if_splits option.splits)
  with Cons.IH 1(2) show ?case by blast
qed simp

lemma kwargs_loop_member: "kwargs_loop offset depth previous ts = Some r \<Longrightarrow> \<exists>t \<in> set ts. r = tok_span t \<and> covers offset t"
  by (induction offset depth previous ts rule: kwargs_loop.induct) (auto split: if_splits)

lemma replacement_in:
  assumes "serializer_replacement offset name active = Some r" and "tokens_in source active"
  shows "in_source source r \<and> br_Start r \<le> offset \<and> offset \<le> br_End r"
proof -
  have "\<exists>t \<in> set active. r = tok_span t \<and> covers offset t"
    using assms(1) kwargs_loop_member serializerStringList_subset
    by (auto simp: serializer_replacement_def find_Some_iff split: if_splits option.splits) (metis nth_mem subsetD)+
  then show ?thesis using assms(2) by (auto simp: tokens_in_def covers_def)
qed

lemma serializer_context_at:
  assumes "analyzeSerializerContext wide source offset graph syntax = Some cx"
  shows "at_cursor source offset cx"
proof -
  define scope where "scope = serializer_scope syntax offset"
  obtain cls meta0 where cls: "serializer_class syntax scope = (cls, meta0)" by (cases "serializer_class syntax scope")
  define imps0 where "imps0 = fst (buildEnvironment wide (take (ss_Start cls) source) graph syntax (ss_Start cls))"
  obtain meta where meta: "find_meta syntax cls syntax meta0 = Some meta"
    using assms cls by (cases "find_meta syntax cls syntax meta0")
      (simp_all add: analyzeSerializerContext_def Let_def scope_def split: if_splits)
  define imps where "imps = class_imports wide cls meta syntax imps0"
  have body: "serializer_body wide source imps graph scope cls meta offset syntax = Some cx"
    using assms cls meta unfolding analyzeSerializerContext_def Let_def scope_def [symmetric] imps_def imps0_def
    by (simp split: if_splits)
  obtain opts where opts: "read_options wide source imps graph meta offset syntax zero_Options = Some opts" and label: "mo_label opts \<noteq> []"
    using body by (cases "read_options wide source imps graph meta offset syntax zero_Options")
      (simp_all add: serializer_body_def split: if_splits)
  have active: "tokens_in source (mo_active opts)"
    by (rule read_options_active [OF opts]) (simp add: zero_Options_def tokens_in_def)
  show ?thesis
  proof (cases "read_declarations wide source imps graph (mo_label opts) scope cls offset syntax [] []")
    case (Inl result)
    with body opts label have "result = Some cx" by (simp add: serializer_body_def)
    with Inl read_declarations_context show ?thesis by blast
  next
    case (Inr db)
    obtain declarations blocked where db: "db = (declarations, blocked)" by (cases db)
    obtain r where r: "serializer_replacement offset (mo_option opts) (mo_active opts) = Some r"
      and cx: "cx = (context_of ContextSerializerField (value_of (mo_label opts) ValueModelClass) (range_text source r) r)
        \<lparr>cx_SerializerFields := offered_fields graph opts declarations blocked\<rparr>"
      using body opts label Inr db by (cases "serializer_replacement offset (mo_option opts) (mo_active opts)")
        (simp_all add: serializer_body_def split: if_splits)
    show ?thesis using replacement_in [OF r active] by (auto simp: cx intro!: at_cursor_context)
  qed
qed

lemma context_at:
  assumes "analyze wide source offset graph syntax filePath = Some cx"
  shows "at_cursor source (nat offset) cx"
proof -
  have le: "nat offset \<le> length source" using assms by (auto simp: analyze_def split: if_splits)
  from assms have steps: "or_else (analyzeSerializerContext wide source (nat offset) graph syntax)
        (or_else (analyzeMetaFieldContext source (nat offset) graph syntax filePath)
          (or_else (analyzePathContext wide source (nat offset) graph syntax filePath)
            (analyzeMemberContext wide source (nat offset) graph syntax filePath))) = Some cx"
    by (simp add: analyze_def split: if_splits)
  show ?thesis
    by (rule or_else_cases [OF steps], erule serializer_context_at, elim or_else_cases)
      (erule meta_context_at path_context_at [OF _ le] member_context_at [OF _ le])+
qed

end
