(* ===== verification/Analysis_Serializer_Choice.thy ===== *)
theory Analysis_Serializer_Choice
  imports Analysis_Serializer_Context Path_Resolver_Facts
begin

text \<open>
  The field names that a serializer's options are offered: those of the model that the class does not
  bind itself, and those it declares, once each and in order. The model's names come from a listing
  that names every access once, the law that \<open>listed_once\<close> adds to \<open>named_accesses\<close>.
\<close>

section \<open>Instance accesses\<close>

locale listed_once = named_accesses +
  assumes once: "ok g \<Longrightarrow> distinct (listing g l)"
begin

lemma names_distinct: "ok g \<Longrightarrow> distinct (map fa_Name (listing g l))"
  using once one_per_name by (auto simp: distinct_map inj_on_def)

end

lemma accessLess_distinct: "sorted_wrt accessLess xs \<Longrightarrow> distinct xs"
  by (induction xs) (auto simp: accessLess_def)

interpretation instance_names: listed_once built_graph InstanceAccess "\<lambda>g l. snd (VisitInstanceFields g l collect [])"
proof
  fix g l
  assume "built_graph g"
  then obtain g0 ev s where g: "g = Some g0" "graph_spec ev s g0"
    by (auto simp: built_graph_def dest: Build_spec)
  have unknown: "InstanceAccess g l n = None" "snd (VisitInstanceFields g l collect []) = []" if "\<not> HasModel g l" for n
    using that by (simp_all add: HasModel_def InstanceAccess_def VisitInstanceFields_def visitFields_def visit_listing_def)
  show "InstanceAccess g l n = Some a \<longleftrightarrow> a \<in> set (snd (VisitInstanceFields g l collect [])) \<and> fa_Name a = n" for n a
    using graph_views(2) [OF g(2), of l] g(1) unknown by (cases "HasModel g l") (simp_all add: lookup_matches_visit_def)
  show "distinct (snd (VisitInstanceFields g l collect []))"
    using graph_views(2) [OF g(2), of l] g(1) unknown accessLess_distinct
    by (cases "HasModel g l") (auto simp: lookup_matches_visit_def)
qed

section \<open>Fields of the model\<close>

lemma fold_filter_append:
  "fold (\<lambda>a s. if p a then s @ [h a] else s) xs ys = ys @ map h (filter p xs)"
  by (induction xs arbitrary: ys) auto

lemma model_fields_visited:
  "model_fields graph label blocked =
     map schema_field (filter (own_field blocked) (snd (VisitInstanceFields graph label collect [])))"
  by (cases "graph_model graph label")
    (simp_all add: model_fields_def VisitInstanceFields_def visitFields_def visit_listing_def visit_while_True visit_while_collect
      fold_filter_append)

lemma schema_field_name [simp]: "sf_Name (schema_field a) = fa_Name a"
  by (simp add: schema_field_def)

lemma model_fields_names:
  assumes "built_graph graph"
  shows "distinct (map sf_Name (model_fields graph label blocked))"
    and "f \<in> set (model_fields graph label blocked) \<longleftrightarrow>
      (\<exists>a. InstanceAccess graph label (sf_Name f) = Some a \<and> own_field blocked a \<and> f = schema_field a)"
proof -
  have "map sf_Name (model_fields graph label blocked) =
      map fa_Name (filter (own_field blocked) (snd (VisitInstanceFields graph label collect [])))"
    by (simp add: model_fields_visited)
  then show "distinct (map sf_Name (model_fields graph label blocked))"
    using instance_names.names_distinct [OF assms] by (simp add: distinct_map_filter)
  show "f \<in> set (model_fields graph label blocked) \<longleftrightarrow>
      (\<exists>a. InstanceAccess graph label (sf_Name f) = Some a \<and> own_field blocked a \<and> f = schema_field a)"
    unfolding instance_names.find_iff [OF assms] by (auto simp: model_fields_visited)
qed

section \<open>Declared fields\<close>

lemma declared_field_name [simp]: "sf_Name (declared_field graph label st name args) = name"
  by (simp add: declared_field_def Let_def split: option.split)

lemma declared_field_place:
  "sf_Declaration (declared_field graph label st name args) = \<lparr>br_Start = ss_Start st, br_End = ss_Start st + length name\<rparr>"
  by (simp add: declared_field_def Let_def split: option.split)

text \<open>Declared names are bound once and block the model's.\<close>

definition declared_ok :: "SerializerField list \<Rightarrow> string list \<Rightarrow> bool" where
  "declared_ok declarations blocked \<longleftrightarrow> distinct (map sf_Name declarations) \<and> sf_Name ` set declarations \<subseteq> set blocked"

lemma declared_ok_step:
  "declared_ok declarations blocked \<Longrightarrow> declared_ok declarations (blocked @ names)"
  "declared_ok declarations blocked \<Longrightarrow> name \<notin> set blocked \<Longrightarrow>
     declared_ok (declarations @ [declared_field graph label st name args]) (blocked @ [name])"
  by (auto simp: declared_ok_def)

lemma read_declarations_ok:
  "read_declarations wide source imps graph label scope cls offset sts declarations blocked = Inr (ds, bs) \<Longrightarrow>
   declared_ok declarations blocked \<Longrightarrow> declared_ok ds bs"
proof (induction sts arbitrary: declarations blocked)
  case (Cons st sts)
  note IH = Cons.IH and run = Cons.prems(1) and ok = Cons.prems(2)
  show ?case
  proof (cases "ss_ScopeMarker st \<or> ss_ScopeStart st \<noteq> ss_Start cls \<or> ss_ScopeEnd st \<noteq> ss_End cls")
    case True
    then show ?thesis using IH run ok by (simp add: Let_def)
  next
    case False
    show ?thesis
    proof (cases "serializerAssignment wide source st")
      case None
      then show ?thesis using IH run declared_ok_step(1) [OF ok] False by (simp add: Let_def)
    next
      case (Some nt)
      obtain name ts where nt: "nt = (name, ts)" by (cases nt)
      have fresh: "name \<notin> set blocked" using run False Some nt by (auto simp: Let_def)
      show ?thesis
      proof (cases "serializerCall wide ts imps")
        case None
        then show ?thesis using IH run declared_ok_step(1) [OF ok] False Some nt fresh by (simp add: Let_def)
      next
        case args: (Some args)
        show ?thesis
          using IH run declared_ok_step(1) [OF ok] declared_ok_step(2) [OF ok fresh] False Some nt fresh args
          by (auto simp: Let_def split: if_split_asm option.split_asm)
      qed
    qed
  qed
qed simp

section \<open>What is offered\<close>

definition offers_declared :: "metaOptions \<Rightarrow> bool" where
  "offers_declared opts \<longleftrightarrow> mo_option opts \<in> {''fields'', ''read_only_fields''}"

definition offers_selected :: "metaOptions \<Rightarrow> bool" where
  "offers_selected opts \<longleftrightarrow> mo_option opts \<in> {''read_only_fields'', ''extra_kwargs''}"

lemma offered_fields_strict:
  assumes graph: "built_graph graph" and ok: "declared_ok declarations blocked"
  shows "sorted_wrt (<) (map sf_Name (offered_fields graph opts declarations blocked))"
    and "f \<in> set (offered_fields graph opts declarations blocked) \<longleftrightarrow>
      (offers_declared opts \<and> f \<in> set declarations \<or>
        (\<exists>a. InstanceAccess graph (mo_label opts) (sf_Name f) = Some a \<and> own_field blocked a \<and> f = schema_field a)) \<and>
      (offers_selected opts \<longrightarrow> selected_field opts f)"
proof -
  define fields where "fields = model_fields graph (mo_label opts) blocked @ (if offers_declared opts then declarations else [])"
  have offered: "offered_fields graph opts declarations blocked =
      sort_key sf_Name (if offers_selected opts then filter (selected_field opts) fields else fields)"
    by (simp add: offered_fields_def fields_def offers_declared_def offers_selected_def)
  have "sf_Name ` set (model_fields graph (mo_label opts) blocked) \<inter> set blocked = {}"
    using model_fields_names(2) [OF graph] by (auto simp: own_field_def)
  then have "sf_Name ` set (model_fields graph (mo_label opts) blocked) \<inter> sf_Name ` set declarations = {}"
    using ok by (auto simp only: declared_ok_def)
  then have "distinct (map sf_Name fields)"
    using model_fields_names(1) [OF graph] ok by (simp add: fields_def declared_ok_def)
  then have "distinct (map sf_Name (offered_fields graph opts declarations blocked))"
    by (auto simp add: offered distinct_map intro: inj_on_subset)
  then show "sorted_wrt (<) (map sf_Name (offered_fields graph opts declarations blocked))"
    by (metis offered sorted_sort_key strict_sorted_iff)
  show "f \<in> set (offered_fields graph opts declarations blocked) \<longleftrightarrow>
      (offers_declared opts \<and> f \<in> set declarations \<or>
        (\<exists>a. InstanceAccess graph (mo_label opts) (sf_Name f) = Some a \<and> own_field blocked a \<and> f = schema_field a)) \<and>
      (offers_selected opts \<longrightarrow> selected_field opts f)"
    by (auto simp: offered fields_def model_fields_names(2) [OF graph])
qed

end
