(* ===== verification/Analysis_Diagnose.thy ===== *)
theory Analysis_Diagnose
  imports Analysis_Context
begin

text \<open>
  Diagnostics (\<open>internal/analysis/diagnostic.go\<close>): the paths that the calls of a document spell
  statically, and the issues of those that do not resolve. \<open>quote\<close> is Go's \<open>%q\<close> verb.
\<close>

record ORMIssue =
  oi_Code :: PathIssueCode
  oi_Message :: string
  oi_Range :: ByteRange

record staticORMPath =
  sp_value :: Value
  sp_mode :: PathMode
  sp_segments :: "PathSegment list"

fun issue_code :: "PathIssueCode \<Rightarrow> string" where
  "issue_code IssueUnknownPathSegment = ''django-orm.unknown-path-segment''"
| "issue_code IssueNonRelationTraversal = ''django-orm.nonrelation-traversal''"
| "issue_code IssueInvalidLookup = ''django-orm.invalid-lookup-or-transform''"
| "issue_code IssueInvalidProjection = ''django-orm.invalid-projection-path''"
| "issue_code IssueInvalidSelectRelated = ''django-orm.invalid-select-related-target''"

definition issue_field :: "PathIssue \<Rightarrow> string" where
  "issue_field issue = (case issue_Field issue of Some f \<Rightarrow> FieldRef_Name f | None \<Rightarrow> ''field'')"

definition pathIssueMessage :: "(string \<Rightarrow> string) \<Rightarrow> PathIssue \<Rightarrow> string" where
  "pathIssueMessage quote issue = (let segment = quote (seg_Text (issue_Segment issue)); field = quote (issue_field issue) in
     case issue_Code issue of
       IssueNonRelationTraversal \<Rightarrow> ''Cannot traverse non-relation field '' @ field @ '' with segment '' @ segment @ ''.''
     | IssueInvalidLookup \<Rightarrow> ''Invalid Django ORM lookup or transform '' @ segment @ '' for field '' @ field @ ''.''
     | IssueInvalidProjection \<Rightarrow> ''Invalid Django ORM projection segment '' @ segment @ '' after field '' @ field @ ''.''
     | IssueInvalidSelectRelated \<Rightarrow> ''select_related() target '' @ segment @ '' is not a single-valued relation on '' @ quote (issue_Model issue) @ ''.''
     | IssueUnknownPathSegment \<Rightarrow> ''Unknown Django ORM field or relation '' @ segment @ '' on '' @ quote (issue_Model issue) @ ''.'')"

text \<open>The segments of a static path, within the limits on its bytes and segments.\<close>

definition static_path :: "string \<Rightarrow> Value \<Rightarrow> PathMode \<Rightarrow> ByteRange option \<Rightarrow> staticORMPath list" where
  "static_path source v mode r = (case r of
     None \<Rightarrow> []
   | Some rg \<Rightarrow>
       if MaxPathBytes < int (br_End rg) - int (br_Start rg) then []
       else case diagnosticPathSegments source rg of
         None \<Rightarrow> []
       | Some segments \<Rightarrow> if MaxPathSegments < length segments then []
           else [\<lparr>sp_value = v, sp_mode = mode, sp_segments = segments\<rparr>])"

definition call_value :: "(nat \<Rightarrow> bool) \<Rightarrow> DocSnapshot \<Rightarrow> graph_ptr \<Rightarrow> SyntaxCall \<Rightarrow> Value" where
  "call_value wide snapshot graph call =
     inferExpressionAtPath wide (TrimSpace (range_text (ds_Source snapshot) (sc_Receiver call)))
       (take (br_Start (sc_Range call)) (ds_Source snapshot)) graph (ds_Syntax snapshot) (br_Start (sc_Range call)) (ds_FilePath snapshot)"

definition has_receiver :: "DocSnapshot \<Rightarrow> SyntaxCall \<Rightarrow> bool" where
  "has_receiver snapshot call \<longleftrightarrow>
     br_End (sc_Receiver call) \<le> length (ds_Source snapshot) \<and> br_Start (sc_Receiver call) < br_End (sc_Receiver call)"

definition static_call_paths :: "(nat \<Rightarrow> bool) \<Rightarrow> DocSnapshot \<Rightarrow> graph_ptr \<Rightarrow> SyntaxCall \<Rightarrow> staticORMPath list" where
  "static_call_paths wide snapshot graph call = (case pathMethod (sc_Method call) of
     None \<Rightarrow> []
   | Some (mode, stringPaths) \<Rightarrow>
       if \<not> has_receiver snapshot call then []
       else let v = call_value wide snapshot graph call in
         if \<not> is_query v \<or> ResolveMethod graph v (sc_Method call) \<noteq> None then []
         else concat (map (\<lambda>argument. static_path (ds_Source snapshot) v mode
             (if stringPaths then diagnosticStringPath (ds_Source snapshot) argument
              else diagnosticKeywordPath wide (ds_Source snapshot) argument))
           (splitStaticArguments (ds_Source snapshot) (sc_Arguments call))))"

definition staticORMPaths :: "(nat \<Rightarrow> bool) \<Rightarrow> DocSnapshot \<Rightarrow> graph_ptr \<Rightarrow> staticORMPath list" where
  "staticORMPaths wide snapshot graph =
     (if graph = None \<or> \<not> ds_Parsed snapshot then []
      else concat (map (static_call_paths wide snapshot graph) (ds_Calls snapshot)))"

definition static_constructor_paths :: "(nat \<Rightarrow> bool) \<Rightarrow> DocSnapshot \<Rightarrow> graph_ptr \<Rightarrow> SyntaxCall \<Rightarrow> staticORMPath list" where
  "static_constructor_paths wide snapshot graph call =
     (if br_Start (sc_Receiver call) < br_End (sc_Receiver call) then []
      else let start = br_Start (sc_Range call) in
        case resolveClass (sc_Method call) (imports_at wide (ds_Source snapshot) start graph (ds_Syntax snapshot) (ds_FilePath snapshot)) graph of
          None \<Rightarrow> []
        | Some label \<Rightarrow> concat (map (\<lambda>argument. static_path (ds_Source snapshot) (value_of label ValueModelClass) PathLookup
              (diagnosticKeywordPath wide (ds_Source snapshot) argument))
            (splitStaticArguments (ds_Source snapshot) (sc_Arguments call))))"

definition staticConstructorPaths :: "(nat \<Rightarrow> bool) \<Rightarrow> DocSnapshot \<Rightarrow> graph_ptr \<Rightarrow> staticORMPath list" where
  "staticConstructorPaths wide snapshot graph =
     (if graph = None \<or> \<not> ds_Parsed snapshot then []
      else concat (map (static_constructor_paths wide snapshot graph) (ds_Calls snapshot)))"

definition field_list_elements :: "(nat \<Rightarrow> bool) \<Rightarrow> string \<Rightarrow> string \<Rightarrow> ByteRange \<Rightarrow> ByteRange list" where
  "field_list_elements wide source name argument =
     (case argumentKeyword wide (range_text source argument) of
        None \<Rightarrow> []
      | Some keyword \<Rightarrow>
          if \<not> isFieldListKeyword name keyword then []
          else case keywordArgumentValueStart source (br_Start argument) (br_End argument) of
            None \<Rightarrow> []
          | Some valueStart \<Rightarrow> (case stringListElements source valueStart of None \<Rightarrow> [] | Some elements \<Rightarrow> elements))"

definition static_field_list_paths :: "(nat \<Rightarrow> bool) \<Rightarrow> DocSnapshot \<Rightarrow> graph_ptr \<Rightarrow> SyntaxCall \<Rightarrow> staticORMPath list" where
  "static_field_list_paths wide snapshot graph call =
     (if sc_Method call \<noteq> ''bulk_create'' \<and> sc_Method call \<noteq> ''bulk_update'' \<or> \<not> has_receiver snapshot call then []
      else let v = call_value wide snapshot graph call in
        if \<not> is_query v \<or> ResolveMethod graph v (sc_Method call) \<noteq> None then []
        else concat (map (\<lambda>argument. concat (map (\<lambda>element. static_path (ds_Source snapshot) v PathFields (Some element))
              (field_list_elements wide (ds_Source snapshot) (sc_Method call) argument)))
            (splitStaticArguments (ds_Source snapshot) (sc_Arguments call))))"

definition staticFieldListPaths :: "(nat \<Rightarrow> bool) \<Rightarrow> DocSnapshot \<Rightarrow> graph_ptr \<Rightarrow> staticORMPath list" where
  "staticFieldListPaths wide snapshot graph =
     (if graph = None \<or> \<not> ds_Parsed snapshot then []
      else concat (map (static_field_list_paths wide snapshot graph) (ds_Calls snapshot)))"

definition path_issues :: "(string \<Rightarrow> string) \<Rightarrow> graph_ptr \<Rightarrow> staticORMPath \<Rightarrow> ORMIssue list" where
  "path_issues quote graph path =
     (case ValidatePath graph (val_CanonicalLabel (sp_value path)) (sp_mode path) (sp_segments path) (val_Annotations (sp_value path)) of
        None \<Rightarrow> []
      | Some problem \<Rightarrow> [\<lparr>oi_Code = issue_Code problem, oi_Message = pathIssueMessage quote problem,
          oi_Range = seg_Range (issue_Segment problem)\<rparr>])"

definition issue_key :: "ORMIssue \<Rightarrow> nat \<times> nat \<times> string \<times> string" where
  "issue_key issue = (br_Start (oi_Range issue), br_End (oi_Range issue), issue_code (oi_Code issue), oi_Message issue)"

definition DiagnoseORM :: "(nat \<Rightarrow> bool) \<Rightarrow> (string \<Rightarrow> string) \<Rightarrow> DocSnapshot \<Rightarrow> graph_ptr \<Rightarrow> ORMIssue list" where
  "DiagnoseORM wide quote snapshot graph =
     (if graph = None \<or> \<not> ds_Parsed snapshot then []
      else sort_key issue_key (concat (map (path_issues quote graph)
        (staticORMPaths wide snapshot graph @ staticConstructorPaths wide snapshot graph @ staticFieldListPaths wide snapshot graph))))"

end
