(* ===== verification/Analysis_Diagnose_Facts.thy ===== *)
theory Analysis_Diagnose_Facts
  imports Analysis_Facts Analysis_Diagnose Path_Resolver_Facts
begin

text \<open>
  Where the issues of a document lie: in an argument of one of its calls, on the first segment of the
  path there that does not resolve.
\<close>

section \<open>The segments of a static path\<close>

text \<open>A segment is marked in its path: by its own text, or by the separator next to it when it is empty.\<close>

definition marks_segment :: "string \<Rightarrow> ByteRange \<Rightarrow> PathSegment \<Rightarrow> bool" where
  "marks_segment source path seg \<longleftrightarrow> in_source source (seg_Range seg) \<and>
     br_Start path \<le> br_Start (seg_Range seg) \<and> br_End (seg_Range seg) \<le> br_End path \<and>
     (range_text source (seg_Range seg) = seg_Text seg \<or> seg_Text seg = [] \<and> range_text source (seg_Range seg) = ''__'')"

lemma dunder_text:
  assumes "at_dunder source e index" and "e \<le> length source"
  shows "subslice source index (index + 2) = ''__''"
  using assms by (simp add: at_dunder_def subslice_Cons [of index] subslice_Cons [of "Suc index"])

text \<open>The loop is at the start of a segment: of the first one, or of one behind a separator.\<close>

definition segment_start :: "string \<Rightarrow> ByteRange \<Rightarrow> nat \<Rightarrow> bool" where
  "segment_start source path start \<longleftrightarrow> start = br_Start path \<or>
     br_Start path + 2 \<le> start \<and> subslice source (start - 2) start = ''__''"

lemma empty_segment_marked:
  assumes "segment_start source path index" and "index = br_End path \<or> at_dunder source (br_End path) index"
    and "br_End path \<le> length source" and "br_Start path \<le> index" and "index \<le> br_End path"
  shows "marks_segment source path \<lparr>seg_Text = [], seg_Range = empty_segment_range path index\<rparr>"
proof (cases "index < br_End path")
  case True
  then have d: "at_dunder source (br_End path) index" using assms(2) by simp
  then have "index + 2 \<le> br_End path" by (simp add: at_dunder_def)
  then show ?thesis using True dunder_text [OF d assms(3)] assms(3,4)
    by (simp add: marks_segment_def empty_segment_range_def in_source_def)
next
  case False
  then show ?thesis using assms(1,3-5)
    by (auto simp: marks_segment_def empty_segment_range_def in_source_def segment_start_def)
qed

lemma diagnostic_loop_marks:
  "seg \<in> set (diagnostic_loop source path index start) \<Longrightarrow> br_End path \<le> length source \<Longrightarrow>
   segment_start source path start \<Longrightarrow> br_Start path \<le> start \<Longrightarrow> start \<le> index \<Longrightarrow>
   marks_segment source path seg"
proof (induction source path index start rule: diagnostic_loop.induct)
  case (1 source path index start)
  note unfold = diagnostic_loop.simps [of source path index start]
  have le: "index \<le> br_End path" using "1.prems"(1) by (auto simp: unfold split: if_splits)
  show ?case
  proof (cases "index = br_End path \<or> at_dunder source (br_End path) index")
    case False
    then have skip: "\<not> br_End path < index"
      "index \<noteq> br_End path \<and> \<not> (index + 1 < br_End path \<and> source ! index = CHR ''_'' \<and> source ! (index + 1) = CHR ''_'')"
      using le by (auto simp: at_dunder_def)
    then have "seg \<in> set (diagnostic_loop source path (index + 1) start)" using "1.prems"(1) by (simp add: unfold)
    from "1.IH"(1) [OF skip this "1.prems"(2-4)] "1.prems"(5) show ?thesis by simp
  next
    case here: True
    then have stop: "\<not> br_End path < index"
      "\<not> (index \<noteq> br_End path \<and> \<not> (index + 1 < br_End path \<and> source ! index = CHR ''_'' \<and> source ! (index + 1) = CHR ''_''))"
      using le by (auto simp: at_dunder_def)
    define piece where "piece = (if start = index then \<lparr>seg_Text = [], seg_Range = empty_segment_range path index\<rparr>
      else \<lparr>seg_Text = subslice source start index, seg_Range = \<lparr>br_Start = start, br_End = index\<rparr>\<rparr>)"
    have loop: "diagnostic_loop source path index start = piece #
        (if index < br_End path then diagnostic_loop source path (index + 2) (index + 2)
         else diagnostic_loop source path (index + 1) start)"
      unfolding unfold using stop by (simp only: if_False piece_def)
    have piece: "marks_segment source path piece"
      using empty_segment_marked [OF _ here "1.prems"(2) _ le] "1.prems" le
      by (auto simp: piece_def marks_segment_def in_source_def)
    show ?thesis
    proof (cases "index < br_End path")
      case True
      have "at_dunder source (br_End path) index" using here True by simp
      then have "segment_start source path (index + 2)"
        using dunder_text "1.prems"(2-5) by (auto simp: segment_start_def)
      then show ?thesis using "1.IH"(2) [OF stop True] "1.prems"(1,2,4,5) piece True by (auto simp: loop)
    next
      case False
      then have "diagnostic_loop source path (index + 1) start = []"
        using le by (subst diagnostic_loop.simps) simp
      then show ?thesis using "1.prems"(1) piece False by (simp add: loop)
    qed
  qed
qed

lemma diagnosticPathSegments_marks:
  assumes "diagnosticPathSegments source path = Some segments" and "br_End path \<le> length source"
  shows "\<forall>seg \<in> set segments. marks_segment source path seg"
  using assms diagnostic_loop_marks [OF _ assms(2), where index = "br_Start path" and start = "br_Start path"]
  by (auto simp: diagnosticPathSegments_def segment_start_def Let_def split: if_splits)

section \<open>Static paths lie in arguments\<close>

lemma lex_step_code: "lex_step lx mode c cs = (mode', n, Some (CodeByte d)) \<Longrightarrow> d = c"
  by (cases "(lx, mode, c, cs)" rule: lex_step.cases) (auto split: if_splits)

lemma lex_fold_stop_code:
  "lex_fold lx f p i mode s = Inl r \<Longrightarrow> (\<And>j ev t x. f j ev t = Inl x \<Longrightarrow> \<exists>d. ev = CodeByte d \<and> P d \<and> x = j) \<Longrightarrow>
   i \<le> r \<and> r < i + length p \<and> P (p ! (r - i))"
proof (induction lx f p i mode s rule: lex_fold.induct)
  case (2 lx f c cs i mode s)
  obtain mode' n e where st: "lex_step lx mode c cs = (mode', n, e)" by (metis prod_cases3)
  have n: "1 \<le> n" "n \<le> Suc (length cs)" using lex_step_consumes [OF st] by simp_all
  have later: ?case if "i + n \<le> r \<and> r < i + n + length (drop n (c # cs)) \<and> P (drop n (c # cs) ! (r - (i + n)))"
  proof -
    have "drop n (c # cs) ! (r - (i + n)) = (c # cs) ! (n + (r - (i + n)))" using n by (intro nth_drop) simp
    moreover have "n + (r - (i + n)) = r - i" using that by simp
    ultimately have "P ((c # cs) ! (r - i))" using that by (simp only:)
    moreover have "i \<le> r \<and> r < i + length (c # cs)" using that n by auto
    ultimately show ?thesis by blast
  qed
  show ?case
  proof (cases e)
    case None
    then show ?thesis using 2 st later by simp
  next
    case (Some ev)
    show ?thesis
    proof (cases "f i ev s")
      case (Inl x)
      then have "x = r" using 2(3) st Some by simp
      then obtain d where "ev = CodeByte d" "P d" "r = i" using 2(4) [OF Inl] by blast
      moreover from this st Some have "d = c" using lex_step_code by blast
      ultimately show ?thesis by simp
    next
      case (Inr s')
      then show ?thesis using 2 st Some later by simp
    qed
  qed
qed simp

lemma top_level_equals_bounds:
  assumes "top_level_equals source start e = Some index" and "e \<le> length source"
  shows "start \<le> index" and "index < e" and "source ! index = CHR ''=''"
proof -
  have run: "lex_fold quote_lexer equals_switch (subslice source start e) start InCode 0 = Inl index"
    using assms(1) by (auto simp: top_level_equals_def split: sum.splits)
  have "start \<le> index \<and> index < start + length (subslice source start e) \<and>
      (subslice source start e ! (index - start) = CHR ''='')"
    by (rule lex_fold_stop_code [OF run]) (auto simp: equals_switch_def split: lexevent.splits if_splits)
  then show "start \<le> index" "index < e" "source ! index = CHR ''=''" using assms(2) by (auto simp: subslice_def)
qed

text \<open>The keyword of an argument, and the content of an argument that is one string.\<close>

definition keyword_text :: "(nat \<Rightarrow> bool) \<Rightarrow> string \<Rightarrow> ByteRange \<Rightarrow> ByteRange \<Rightarrow> bool" where
  "keyword_text wide source argument rg \<longleftrightarrow> br_Start argument \<le> br_Start rg \<and> br_Start rg < br_End rg \<and>
     identifierText wide (range_text source rg) \<and>
     (\<exists>equals. br_End rg \<le> equals \<and> equals < br_End argument \<and> source ! equals = CHR ''='')"

definition string_text :: "string \<Rightarrow> ByteRange \<Rightarrow> ByteRange \<Rightarrow> bool" where
  "string_text source argument rg \<longleftrightarrow>
     br_Start argument < br_Start rg \<and> br_Start rg \<le> br_End rg \<and> br_End rg < br_End argument \<and>
     is_quote (source ! (br_Start rg - 1)) \<and> source ! br_End rg = source ! (br_Start rg - 1)"

text \<open>
  A string of the list that starts as the value of a field-list keyword. The scanner of the list ends it at
  its own bracket and does not look at the argument's end, so nothing bounds it but the source.
\<close>

definition listed_text :: "(nat \<Rightarrow> bool) \<Rightarrow> string \<Rightarrow> string \<Rightarrow> ByteRange \<Rightarrow> ByteRange \<Rightarrow> bool" where
  "listed_text wide source name argument rg \<longleftrightarrow> (\<exists>keyword start elements.
     argumentKeyword wide (range_text source argument) = Some keyword \<and> isFieldListKeyword name keyword \<and>
     keywordArgumentValueStart source (br_Start argument) (br_End argument) = Some start \<and>
     stringListElements source start = Some elements \<and> rg \<in> set elements \<and>
     br_Start argument < start \<and> start < br_Start rg \<and> br_End rg < length source)"

lemma keyword_path_in:
  assumes "diagnosticKeywordPath wide source argument = Some rg" and "br_End argument \<le> length source"
  shows "keyword_text wide source argument rg"
proof -
  define equals where "equals = topLevelEquals source argument"
  have e: "0 \<le> equals" and rg: "rg = trimByteRange source \<lparr>br_Start = br_Start argument, br_End = nat equals\<rparr>"
    and name: "br_Start rg \<noteq> br_End rg" "identifierText wide (range_text source rg)"
    using assms(1) by (auto simp: diagnosticKeywordPath_def Let_def equals_def split: if_splits)
  obtain index where index: "top_level_equals source (br_Start argument) (br_End argument) = Some index" "equals = int index"
    using e by (auto simp: equals_def topLevelEquals_def split: option.splits)
  note b = top_level_equals_bounds [OF index(1) assms(2)]
  have "br_Start argument \<le> br_Start rg" "br_Start rg \<le> br_End rg" "br_End rg \<le> index"
    using trimByteRange_bounds [of "\<lparr>br_Start = br_Start argument, br_End = index\<rparr>" source] b(1) by (simp_all add: rg index(2))
  with b name show ?thesis unfolding keyword_text_def by (metis le_neq_implies_less)
qed

lemma string_path_in:
  assumes "diagnosticStringPath source argument = Some rg"
  shows "string_text source argument rg"
proof -
  define start where "start = skip_while (\<lambda>i. isIdentifierByte (source ! i)) (br_End argument) (br_Start argument)"
  define w where "w = quote_width source start (br_End argument)"
  have rg: "rg = \<lparr>br_Start = start + w, br_End = br_End argument - w\<rparr>" "start + w + w \<le> br_End argument" "is_quote (source ! start)"
    and closing: "\<forall>i < w. source ! (br_End argument - w + i) = source ! start"
    using assms(1) by (auto simp: diagnosticStringPath_def Let_def list_ex_iff simp flip: start_def w_def split: if_splits)
  have "br_Start argument \<le> start" by (simp add: start_def skip_while_ge)
  moreover have "0 < w" "source ! (start + (w - 1)) = source ! start"
    by (auto simp: w_def quote_width_def)
  ultimately show ?thesis using rg closing by (auto simp: string_text_def)
qed

lemma element_path_in:
  assumes "rg \<in> set (field_list_elements wide source name argument)" and "br_End argument \<le> length source"
  shows "listed_text wide source name argument rg"
proof -
  obtain keyword start elements where s: "argumentKeyword wide (range_text source argument) = Some keyword"
    "isFieldListKeyword name keyword" "keywordArgumentValueStart source (br_Start argument) (br_End argument) = Some start"
    "stringListElements source start = Some elements" "rg \<in> set elements"
    using assms(1) by (auto simp: field_list_elements_def dest: sym [of "Some _"] split: option.split_asm if_split_asm)
  obtain index where index: "top_level_equals source (br_Start argument) (br_End argument) = Some index"
    "start = skip_while (\<lambda>i. isSpace (source ! i)) (br_End argument) (Suc index)"
    using s(3) by (auto simp: keywordArgumentValueStart_def split: option.splits)
  have "br_Start argument < start"
    using top_level_equals_bounds(1) [OF index(1) assms(2)] skip_while_ge [of "Suc index"] index(2)
    by (metis Suc_le_lessD le_imp_less_Suc less_le_trans)
  then show ?thesis using s string_list_elements(2) [OF s(4)] unfolding listed_text_def by blast
qed

text \<open>
  The paths of a call's argument, each with the value and the mode it is looked up with: the keyword or the
  string of an argument of a query method, on the value of the receiver; the keyword of an argument of a class
  that is called, on that class; and the strings of a bulk method's field list.
\<close>

definition query_call :: "(nat \<Rightarrow> bool) \<Rightarrow> DocSnapshot \<Rightarrow> graph_ptr \<Rightarrow> SyntaxCall \<Rightarrow> bool" where
  "query_call wide snapshot graph call \<longleftrightarrow> has_receiver snapshot call \<and>
     is_query (call_value wide snapshot graph call) \<and>
     ResolveMethod graph (call_value wide snapshot graph call) (sc_Method call) = None"

inductive call_path :: "(nat \<Rightarrow> bool) \<Rightarrow> DocSnapshot \<Rightarrow> graph_ptr \<Rightarrow> SyntaxCall \<Rightarrow> ByteRange \<Rightarrow>
    Value \<Rightarrow> PathMode \<Rightarrow> ByteRange \<Rightarrow> bool"
  for wide snapshot graph call argument where
  query_keyword: "query_call wide snapshot graph call \<Longrightarrow> pathMethod (sc_Method call) = Some (mode, False) \<Longrightarrow>
    keyword_text wide (ds_Source snapshot) argument rg \<Longrightarrow>
    call_path wide snapshot graph call argument (call_value wide snapshot graph call) mode rg"
| query_string: "query_call wide snapshot graph call \<Longrightarrow> pathMethod (sc_Method call) = Some (mode, True) \<Longrightarrow>
    string_text (ds_Source snapshot) argument rg \<Longrightarrow>
    call_path wide snapshot graph call argument (call_value wide snapshot graph call) mode rg"
| class_keyword: "br_End (sc_Receiver call) \<le> br_Start (sc_Receiver call) \<Longrightarrow>
    resolveClass (sc_Method call) (imports_at wide (ds_Source snapshot) (br_Start (sc_Range call)) graph
      (ds_Syntax snapshot) (ds_FilePath snapshot)) graph = Some label \<Longrightarrow>
    keyword_text wide (ds_Source snapshot) argument rg \<Longrightarrow>
    call_path wide snapshot graph call argument (value_of label ValueModelClass) PathLookup rg"
| field_list: "query_call wide snapshot graph call \<Longrightarrow> sc_Method call = ''bulk_create'' \<or> sc_Method call = ''bulk_update'' \<Longrightarrow>
    listed_text wide (ds_Source snapshot) (sc_Method call) argument rg \<Longrightarrow>
    call_path wide snapshot graph call argument (call_value wide snapshot graph call) PathFields rg"

inductive_cases call_pathE: "call_path wide snapshot graph call argument v mode rg"

lemma argument_within:
  assumes "argument \<in> set (splitStaticArguments source arguments)"
  shows "br_End argument \<le> length source"
proof -
  have "br_End argument \<le> br_End arguments - 1"
    using splitStaticArguments_ranges [of source arguments] assms by (auto simp: trimmed_range_def)
  moreover have "br_End arguments \<le> length source" using assms by (auto simp: splitStaticArguments_def split: if_splits)
  ultimately show ?thesis by simp
qed

text \<open>A path of a document: of an argument of one of its calls, cut at its separators.\<close>

definition path_of_call :: "(nat \<Rightarrow> bool) \<Rightarrow> DocSnapshot \<Rightarrow> graph_ptr \<Rightarrow> staticORMPath \<Rightarrow> ByteRange \<Rightarrow> bool" where
  "path_of_call wide snapshot graph p rg \<longleftrightarrow> br_End rg \<le> length (ds_Source snapshot) \<and>
     diagnosticPathSegments (ds_Source snapshot) rg = Some (sp_segments p) \<and>
     (\<exists>call \<in> set (ds_Calls snapshot). \<exists>argument \<in> set (splitStaticArguments (ds_Source snapshot) (sc_Arguments call)).
       call_path wide snapshot graph call argument (sp_value p) (sp_mode p) rg)"

lemma static_path_mem:
  "p \<in> set (static_path source v mode r) \<Longrightarrow>
   \<exists>rg. r = Some rg \<and> diagnosticPathSegments source rg = Some (sp_segments p) \<and> sp_value p = v \<and> sp_mode p = mode"
  by (auto simp: static_path_def split: option.splits if_splits)

lemma path_of_callI:
  assumes "call \<in> set (ds_Calls snapshot)" and a: "argument \<in> set (splitStaticArguments (ds_Source snapshot) (sc_Arguments call))"
    and "p \<in> set (static_path (ds_Source snapshot) v mode r)"
    and path: "\<And>rg. r = Some rg \<Longrightarrow> call_path wide snapshot graph call argument v mode rg"
  shows "\<exists>rg. path_of_call wide snapshot graph p rg"
proof -
  obtain rg where rg: "r = Some rg" "diagnosticPathSegments (ds_Source snapshot) rg = Some (sp_segments p)" "sp_value p = v" "sp_mode p = mode"
    using static_path_mem [OF assms(3)] by blast
  have "br_End rg \<le> length (ds_Source snapshot)" using path [OF rg(1)] argument_within [OF a]
    by (auto elim!: call_pathE simp: keyword_text_def string_text_def listed_text_def)
  then show ?thesis using assms rg unfolding path_of_call_def by blast
qed

lemma static_paths_of_calls:
  assumes "p \<in> set (staticORMPaths wide snapshot graph @ staticConstructorPaths wide snapshot graph @ staticFieldListPaths wide snapshot graph)"
  shows "\<exists>rg. path_of_call wide snapshot graph p rg"
proof -
  let ?source = "ds_Source snapshot"
  consider (orm) "p \<in> set (staticORMPaths wide snapshot graph)" | (constructor) "p \<in> set (staticConstructorPaths wide snapshot graph)"
    | (list) "p \<in> set (staticFieldListPaths wide snapshot graph)" using assms by auto
  then show ?thesis
  proof cases
    case orm
    then obtain call where call: "call \<in> set (ds_Calls snapshot)" "p \<in> set (static_call_paths wide snapshot graph call)"
      by (auto simp: staticORMPaths_def split: if_splits)
    then obtain mode stringPaths where mode: "pathMethod (sc_Method call) = Some (mode, stringPaths)"
      by (cases "pathMethod (sc_Method call)") (auto simp: static_call_paths_def)
    define r where "r argument = (if stringPaths then diagnosticStringPath ?source argument
        else diagnosticKeywordPath wide ?source argument)" for argument
    have q: "query_call wide snapshot graph call"
      using call(2) mode by (auto simp: static_call_paths_def query_call_def Let_def split: if_split_asm)
    obtain argument where p: "argument \<in> set (splitStaticArguments ?source (sc_Arguments call))"
      "p \<in> set (static_path ?source (call_value wide snapshot graph call) mode (r argument))"
      using call(2) mode by (auto simp: static_call_paths_def Let_def simp flip: r_def split: if_split_asm)
    have "call_path wide snapshot graph call argument (call_value wide snapshot graph call) mode rg" if "r argument = Some rg" for rg
      using that q mode string_path_in keyword_path_in [OF _ argument_within [OF p(1)]]
      by (cases stringPaths) (auto simp: r_def intro: query_string query_keyword)
    from path_of_callI [OF call(1) p this] show ?thesis by blast
  next
    case constructor
    then obtain call where call: "call \<in> set (ds_Calls snapshot)" "p \<in> set (static_constructor_paths wide snapshot graph call)"
      by (auto simp: staticConstructorPaths_def split: if_splits)
    then obtain argument label where p: "argument \<in> set (splitStaticArguments ?source (sc_Arguments call))"
      "p \<in> set (static_path ?source (value_of label ValueModelClass) PathLookup (diagnosticKeywordPath wide ?source argument))"
      and label: "resolveClass (sc_Method call) (imports_at wide ?source (br_Start (sc_Range call)) graph
        (ds_Syntax snapshot) (ds_FilePath snapshot)) graph = Some label"
      and receiver: "br_End (sc_Receiver call) \<le> br_Start (sc_Receiver call)"
      by (auto simp: static_constructor_paths_def Let_def split: if_split_asm option.split_asm)
    from path_of_callI [OF call(1) p] class_keyword [OF receiver label] keyword_path_in [OF _ argument_within [OF p(1)]]
    show ?thesis by blast
  next
    case list
    then obtain call where call: "call \<in> set (ds_Calls snapshot)" "p \<in> set (static_field_list_paths wide snapshot graph call)"
      by (auto simp: staticFieldListPaths_def split: if_splits)
    have q: "query_call wide snapshot graph call" "sc_Method call = ''bulk_create'' \<or> sc_Method call = ''bulk_update''"
      using call(2) by (auto simp: static_field_list_paths_def query_call_def Let_def split: if_split_asm)
    obtain argument element where p: "argument \<in> set (splitStaticArguments ?source (sc_Arguments call))"
      "p \<in> set (static_path ?source (call_value wide snapshot graph call) PathFields (Some element))"
      and element: "element \<in> set (field_list_elements wide ?source (sc_Method call) argument)"
      using call(2) by (auto simp: static_field_list_paths_def Let_def split: if_split_asm)
    from path_of_callI [OF call(1) p] field_list [OF q element_path_in [OF element argument_within [OF p(1)]]] show ?thesis by blast
  qed
qed

section \<open>Issues\<close>

lemma validated_issue:
  assumes "ValidatePath graph label mode segments annotations = Some problem"
  shows "\<exists>i. fails_first (\<lambda>i. ResolvePathSegment graph label mode segments (int i)) (length segments) i \<and>
    issue_Segment problem = segments ! i"
proof -
  have v: "validate_segments graph mode (start_state label) segments = Some problem"
    using assms by (auto simp: ValidatePath_def split: if_splits)
  have graph: "graph \<noteq> None" using assms by (auto simp: ValidatePath_def split: if_splits)
  obtain i where i: "fails_first (resolve_segments graph mode (start_state label) segments) (length segments) i"
    "issue_Segment problem = segments ! i" using validate_issue [OF v] by blast
  then have "fails_first (\<lambda>i. ResolvePathSegment graph label mode segments (int i)) (length segments) i"
    using graph by (auto simp: fails_first_def ResolvePathSegment_def)
  with i(2) show ?thesis by blast
qed

lemma issue_located:
  assumes "issue \<in> set (DiagnoseORM wide quote snapshot graph)"
  shows "\<exists>call \<in> set (ds_Calls snapshot). \<exists>argument \<in> set (splitStaticArguments (ds_Source snapshot) (sc_Arguments call)).
    \<exists>v mode path segments i. call_path wide snapshot graph call argument v mode path \<and>
      diagnosticPathSegments (ds_Source snapshot) path = Some segments \<and>
      fails_first (\<lambda>i. ResolvePathSegment graph (val_CanonicalLabel v) mode segments (int i)) (length segments) i \<and>
      oi_Range issue = seg_Range (segments ! i) \<and> marks_segment (ds_Source snapshot) path (segments ! i)"
proof -
  obtain p where p: "p \<in> set (staticORMPaths wide snapshot graph @ staticConstructorPaths wide snapshot graph @ staticFieldListPaths wide snapshot graph)"
    and i: "issue \<in> set (path_issues quote graph p)"
    using assms by (auto simp: DiagnoseORM_def split: if_splits)
  obtain problem where v: "ValidatePath graph (val_CanonicalLabel (sp_value p)) (sp_mode p) (sp_segments p) (val_Annotations (sp_value p)) = Some problem"
    and r: "oi_Range issue = seg_Range (issue_Segment problem)"
    using i by (cases "ValidatePath graph (val_CanonicalLabel (sp_value p)) (sp_mode p) (sp_segments p) (val_Annotations (sp_value p))")
      (auto simp: path_issues_def)
  obtain i where i: "fails_first (\<lambda>i. ResolvePathSegment graph (val_CanonicalLabel (sp_value p)) (sp_mode p) (sp_segments p) (int i)) (length (sp_segments p)) i"
    "issue_Segment problem = sp_segments p ! i" using validated_issue [OF v] by blast
  obtain rg where path: "path_of_call wide snapshot graph p rg" using static_paths_of_calls [OF p] by blast
  then have "marks_segment (ds_Source snapshot) rg (sp_segments p ! i)"
    using i(1) diagnosticPathSegments_marks by (fastforce simp: path_of_call_def fails_first_def)
  with path i r show ?thesis unfolding path_of_call_def by metis
qed

lemma issues_sorted: "sorted (map issue_key (DiagnoseORM wide quote snapshot graph))"
  by (simp add: DiagnoseORM_def)

end
