(* ===== verification/Analysis_Properties.thy ===== *)
theory Analysis_Properties
  imports Analysis_Serializer_Facts Analysis_Serializer_Choice Analysis_Diagnose_Facts Schema_Sample
begin

text \<open>
  The properties of the analyses that answer the editor: where a completion is put, which names of a
  serializer are offered, and where a diagnostic points.
\<close>

section \<open>Properties\<close>

text \<open>C17. A completion replaces what is at the cursor. Whatever analysis answers, its range lies in the
  source, spells the context's identifier, ends at or after the cursor and begins at or before it, but
  for two places where it begins one byte behind the cursor: between the underscores of a path's
  separator, and on the sign of a Meta option's field name.\<close>

theorem context_range_at_cursor:
  assumes "analyze wide source offset graph syntax filePath = Some cx"
  shows "at_cursor source (nat offset) cx"
  by (rule context_at [OF assms])

text \<open>C18. The names a serializer's option is offered are strictly ordered. They are the model's own
  instance accesses that the class body does not bind, and for \<open>fields\<close> and \<open>read_only_fields\<close> the
  declared fields; \<open>read_only_fields\<close> and \<open>extra_kwargs\<close> only offer the fields the serializer has.\<close>

theorem serializer_offers:
  assumes "Build ev s = Inr g" and "snapshot_maps_ok s"
    and "read_declarations wide source imps (Some g) (mo_label opts) scope cls offset syntax [] [] = Inr (declarations, blocked)"
  shows "sorted_wrt (<) (map sf_Name (offered_fields (Some g) opts declarations blocked)) \<and>
    (\<forall>f. f \<in> set (offered_fields (Some g) opts declarations blocked) \<longleftrightarrow>
      (offers_declared opts \<and> f \<in> set declarations \<or>
        (\<exists>a. InstanceAccess (Some g) (mo_label opts) (sf_Name f) = Some a \<and> own_field blocked a \<and> f = schema_field a)) \<and>
      (offers_selected opts \<longrightarrow> selected_field opts f))"
proof -
  have graph: "built_graph (Some g)" using assms(1,2) by (auto simp: built_graph_def)
  have ok: "declared_ok declarations blocked"
    using read_declarations_ok [OF assms(3)] by (simp add: declared_ok_def)
  show ?thesis using offered_fields_strict [OF graph ok] by blast
qed

text \<open>C19. A diagnostic is in order and in place. The issues of a document are sorted. Each is about a path
  of an argument of one of the document's calls, resolved from the model and in the mode of that call:
  the keyword or the string of an argument of a query method on the receiver's value, the keyword of an
  argument of a model class that is called, or a string of the list that starts as the value of a bulk
  method's field-list keyword; keyword and string lie within the argument. The issue lies on the first
  segment of the path that does not resolve; its range is in the path and spells that segment, or the
  separator next to it when the segment is empty.\<close>

theorem diagnostics_located:
  "sorted (map issue_key (DiagnoseORM wide quote snapshot graph)) \<and>
   (\<forall>issue \<in> set (DiagnoseORM wide quote snapshot graph).
     \<exists>call \<in> set (ds_Calls snapshot). \<exists>argument \<in> set (splitStaticArguments (ds_Source snapshot) (sc_Arguments call)).
     \<exists>v mode path segments i. call_path wide snapshot graph call argument v mode path \<and>
       diagnosticPathSegments (ds_Source snapshot) path = Some segments \<and>
       fails_first (\<lambda>i. ResolvePathSegment graph (val_CanonicalLabel v) mode segments (int i)) (length segments) i \<and>
       oi_Range issue = seg_Range (segments ! i) \<and> marks_segment (ds_Source snapshot) path (segments ! i))"
  using issues_sorted issue_located by blast

section \<open>Witnesses\<close>

text \<open>A graph that knows one class, without fields, and the start of a call of it.\<close>

definition sample_class_graph :: graph_ptr where
  "sample_class_graph = Some ((empty_graph \<lparr>snap_SchemaVersion = 3, snap_PositionEncoding = [],
     snap_LookupTransformMaxDepth = 2, snap_LookupPathMaxCount = 512, snap_SchemaSources = [], snap_SchemaSourcesComplete = True,
     snap_QuerySetMethodDefs = [], snap_Apps = []\<rparr>)\<lparr>g_classPath := [(''B'', ''s.B'')]\<rparr>)"

lemma sample_line:
  "import_line ''B(a'' = ''B(a''"
  by (simp add: import_line_def TrimSuffix_def HasSuffix_def) (rule TrimSpace_solid(1); simp add: IsSpace_def)

lemma sample_patterns:
  "FindStringSubmatch fromImportPattern ''B(a'' = None" "FindStringSubmatch importPattern ''B(a'' = None"
  "FindStringSubmatch annotationPattern ''B(a'' = None" "FindStringSubmatch forHeaderPattern ''B(a'' = None"
  "FindStringSubmatch assignmentPattern ''B(a'' = None" "split_byte CHR 0x0A ''B(a'' = [''B(a'']"
  by code_simp+

lemma sample_imports: "imports_at (\<lambda>_. False) ''B(a'' 3 graph [] [] = Map.empty"
  by (simp add: imports_at_def buildEnvironmentAtPath_def collect_statements_def Let_def read_line_def sample_line sample_patterns)

lemma sample_class: "resolveClass ''B'' Map.empty sample_class_graph = Some ''s.B''"
  by (simp add: resolveClass_def expandImport_def CanonicalLabelForClass_def sample_class_graph_def)

lemma sample_scan:
  "enclosingCall ''B(a'' 3 = None"
  "enclosingFunctionCall ''B(a'' 3 = Some \<lparr>fc_name = ''B'', fc_opening = 1, fc_argumentsStart = 2\<rparr>"
  "keywordPathRange (\<lambda>_. False) ''B(a'' (activeArgument ''B(a'' 2 3) 3 = Some \<lparr>br_Start = 2, br_End = 3\<rparr>"
  "splitPath ''B(a'' \<lparr>br_Start = 2, br_End = 3\<rparr> 3 = Some ([\<lparr>seg_Text = ''a'', seg_Range = \<lparr>br_Start = 2, br_End = 3\<rparr>\<rparr>], 0, False)"
  by code_simp+

lemma sample_path:
  "analyzePathContext (\<lambda>_. False) ''B(a'' 3 sample_class_graph [] [] =
     Some (context_of ContextQueryKeyword (value_of ''s.B'' ValueModelClass) ''a'' \<lparr>br_Start = 2, br_End = 3\<rparr>)"
  by (simp add: analyzePathContext_def sample_scan analyzeQPathContext_def sample_imports expandImport_def or_else_def
      analyzeConstructorPathContext_def sample_class path_segments_def path_result_def MaxPathBytes_def MaxPathSegments_def)

lemma context_range_at_cursor_witness:
  "\<exists>cx. analyze (\<lambda>_. False) ''B(a'' 3 sample_class_graph [] [] = Some cx \<and> cx_Identifier cx = ''a'' \<and>
     at_cursor ''B(a'' 3 cx"
proof -
  let ?cx = "context_of ContextQueryKeyword (value_of ''s.B'' ValueModelClass) ''a'' \<lparr>br_Start = 2, br_End = 3\<rparr>"
  have "analyzeSerializerContext (\<lambda>_. False) ''B(a'' 3 sample_class_graph [] = None"
    "analyzeMetaFieldContext ''B(a'' 3 sample_class_graph [] [] = None"
    by code_simp+
  then have a: "analyze (\<lambda>_. False) ''B(a'' 3 sample_class_graph [] [] = Some ?cx"
    using sample_path by (simp add: analyze_def or_else_def sample_class_graph_def)
  then show ?thesis using context_range_at_cursor [OF a] by (intro exI [of _ ?cx]) (simp add: context_of_def)
qed

lemma serializer_offers_witness:
  "\<exists>g. Build Some sample_snapshot = Inr g \<and>
     sorted_wrt (<) (map sf_Name (offered_fields (Some g) (zero_Options\<lparr>mo_label := ''s.Book'', mo_option := ''fields''\<rparr>) [] []))"
proof -
  obtain g where g: "Build Some sample_snapshot = Inr g" by (rule sample_graph)
  have none: "read_declarations (\<lambda>_. False) [] Map.empty (Some g) (mo_label (zero_Options\<lparr>mo_label := ''s.Book'', mo_option := ''fields''\<rparr>))
      zero_Statement zero_Statement 0 [] [] [] = Inr ([], [])" by simp
  show ?thesis using serializer_offers [OF g sample_maps_ok none] g by blast
qed

definition sample_call_snapshot :: DocSnapshot where
  "sample_call_snapshot = \<lparr>ds_URI = [], ds_FilePath = [], ds_Version = 1, ds_Source = ''B(a=1)'', ds_Parsed = True, ds_Syntax = [],
     ds_Calls = [\<lparr>sc_Range = \<lparr>br_Start = 0, br_End = 6\<rparr>, sc_Receiver = zero_Range, sc_Arguments = \<lparr>br_Start = 1, br_End = 6\<rparr>,
       sc_Method = ''B''\<rparr>]\<rparr>"

lemma sample_call_class:
  assumes "call \<in> set (ds_Calls sample_call_snapshot)"
  shows "\<not> query_call (\<lambda>_. False) sample_call_snapshot sample_class_graph call"
    and "resolveClass (sc_Method call) (imports_at (\<lambda>_. False) (ds_Source sample_call_snapshot) (br_Start (sc_Range call))
      sample_class_graph (ds_Syntax sample_call_snapshot) (ds_FilePath sample_call_snapshot)) sample_class_graph = Some ''s.B''"
proof -
  have call: "sc_Method call = ''B''" "sc_Receiver call = zero_Range" "br_Start (sc_Range call) = 0"
    using assms by (simp_all add: sample_call_snapshot_def)
  show "\<not> query_call (\<lambda>_. False) sample_call_snapshot sample_class_graph call"
    by (simp add: query_call_def has_receiver_def call zero_Range_def)
  show "resolveClass (sc_Method call) (imports_at (\<lambda>_. False) (ds_Source sample_call_snapshot) (br_Start (sc_Range call))
      sample_class_graph (ds_Syntax sample_call_snapshot) (ds_FilePath sample_call_snapshot)) sample_class_graph = Some ''s.B''"
    unfolding call by code_simp
qed

lemma sample_issue:
  "map oi_Range (DiagnoseORM (\<lambda>_. False) (\<lambda>s. s) sample_call_snapshot sample_class_graph) = [\<lparr>br_Start = 2, br_End = 3\<rparr>]"
  by code_simp

lemma diagnostics_located_witness:
  "\<exists>issue \<in> set (DiagnoseORM (\<lambda>_. False) (\<lambda>s. s) sample_call_snapshot sample_class_graph).
     oi_Range issue = \<lparr>br_Start = 2, br_End = 3\<rparr> \<and>
     (\<exists>call argument mode path segments. call_path (\<lambda>_. False) sample_call_snapshot sample_class_graph call argument
         (value_of ''s.B'' ValueModelClass) mode path \<and> diagnosticPathSegments ''B(a=1)'' path = Some segments)"
proof -
  obtain issue where issue: "issue \<in> set (DiagnoseORM (\<lambda>_. False) (\<lambda>s. s) sample_call_snapshot sample_class_graph)"
    "oi_Range issue = \<lparr>br_Start = 2, br_End = 3\<rparr>"
    using sample_issue by (metis (no_types, lifting) imageE list.set_intros(1) set_map)
  have source: "ds_Source sample_call_snapshot = ''B(a=1)''" by (simp add: sample_call_snapshot_def)
  from diagnostics_located [of "\<lambda>_. False" "\<lambda>s. s" sample_call_snapshot sample_class_graph] issue
  obtain call argument v mode path segments where c: "call \<in> set (ds_Calls sample_call_snapshot)"
    "call_path (\<lambda>_. False) sample_call_snapshot sample_class_graph call argument v mode path"
    "diagnosticPathSegments ''B(a=1)'' path = Some segments" unfolding source by metis
  from c(2) sample_call_class [OF c(1)] have "v = value_of ''s.B'' ValueModelClass"
    by (auto elim!: call_pathE)
  with c issue show ?thesis by blast
qed

end
