(* ===== verification/Analysis_Definition.thy ===== *)
theory Analysis_Definition
  imports Analysis_Context
begin

text \<open>
  Definitions (\<open>internal/analysis/definition.go\<close>): the place in the project that the name at the
  cursor comes from, and the annotation of a queryset that it refers to, with its Python type.
  \<open>isFloat\<close> says what \<open>strconv.ParseFloat\<close> accepts.
\<close>

section \<open>Definitions of contexts\<close>

definition access_range :: "FieldRef FieldAccess option \<Rightarrow> SourceRange option" where
  "access_range access = (case access of None \<Rightarrow> None | Some a \<Rightarrow> FieldRef_SourceRange (Some (fa_Field a)))"

definition contextSourceRange :: "Context \<Rightarrow> graph_ptr \<Rightarrow> SourceRange option" where
  "contextSourceRange context graph = (let label = val_CanonicalLabel (cx_Value context); name = cx_Identifier context in
     case cx_Kind context of
       ContextSerializerField \<Rightarrow> (case Context_SerializerField context of
           None \<Rightarrow> None
         | Some field \<Rightarrow> if br_End (sf_Declaration field) \<noteq> 0 then None else FieldRef_SourceRange (sf_Field field))
     | ContextORMPath \<Rightarrow> (case cx_Path context of
           None \<Rightarrow> None
         | Some path \<Rightarrow>
             if pc_OnSeparator path then None
             else case ResolvePathSegment graph label (pc_Mode path) (pc_Segments path) (int (pc_ActiveSegment path)) of
               None \<Rightarrow> None
             | Some resolved \<Rightarrow> if seg_Text (rps_Segment resolved) = [] then None else FieldRef_SourceRange (Some (rps_Field resolved)))
     | ContextMethodMember \<Rightarrow> MethodRef_SourceRange (cx_Method context)
     | ContextQueryKeyword \<Rightarrow> access_range (QueryAccess graph label name)
     | ContextMetaField \<Rightarrow> access_range (InstanceAccess graph label name)
     | ContextInstanceMember \<Rightarrow> access_range (InstanceAccess graph label name)
     | ContextModelMember \<Rightarrow> (case graph_Manager graph label name of
           Some manager \<Rightarrow> ManagerRef_SourceRange (Some manager)
         | None \<Rightarrow> access_range (InstanceAccess graph label name))
     | ContextUnknown \<Rightarrow> None)"

section \<open>Model references\<close>

definition importedNamePattern :: regex where
  "importedNamePattern = rx_seq [RGroup 1 rx_ident, rx_spaces,
     rx_opt (rx_seq [rx_text ''as'', rx_spaces1, RGroup 2 rx_ident]), rx_spaces, RAlt (rx_text '','') RLineEnd]"

definition referenceIsCode :: "string \<Rightarrow> ByteRange \<Rightarrow> bool" where
  "referenceIsCode source r = (let mask = pythonCodeMask source (length source) in
     list_all (\<lambda>i. i < length mask \<and> mask ! i) [br_Start r..<br_End r])"

text \<open>The loop that goes back over \<open>name.\<close> before the reference.\<close>

function dotted_start :: "string \<Rightarrow> nat \<Rightarrow> nat" where
  "dotted_start source start =
     (if 0 < start \<and> source ! (start - 1) = CHR ''.''
      then let component = back_while (\<lambda>i. isIdentifierByte (source ! i)) (start - 1) in
        if component = start - 1 then start else dotted_start source component
      else start)"
  by pat_completeness auto
termination dotted_start
  by (relation "measure (\<lambda>(source, start). start)")
    (auto intro: le_less_trans [OF back_while_le])

declare dotted_start.simps [simp del]

text \<open>\<open>strings.Index\<close>\<close>

definition Index :: "string \<Rightarrow> string \<Rightarrow> nat option" where
  "Index s p = List.find (\<lambda>i. HasPrefix (drop i s) p) [0..<Suc (length s)]"

fun first_label :: "graph_ptr \<Rightarrow> string \<Rightarrow> string \<Rightarrow> (nat \<Rightarrow> string) list \<Rightarrow> string option" where
  "first_label graph modname identifier [] = None"
| "first_label graph modname identifier (item # items) =
     (if item 1 = identifier \<or> item 2 = identifier
      then or_else (CanonicalLabelForClass graph (modname @ ''.'' @ item 1)) (first_label graph modname identifier items)
      else first_label graph modname identifier items)"

definition imported_label :: "string \<Rightarrow> ByteRange \<Rightarrow> graph_ptr \<Rightarrow> SyntaxStatement \<Rightarrow> string option" where
  "imported_label source reference graph st =
     (if ss_Guarded st \<or> br_Start reference < ss_Start st \<or> ss_End st < br_End reference \<or> length source < ss_End st then None
      else let s = subslice source (ss_Start st) (ss_End st) in
        case FindStringSubmatch fromImportPattern s of
          None \<Rightarrow> None
        | Some m \<Rightarrow> (case Index s ''import'' of
            None \<Rightarrow> None
          | Some importAt \<Rightarrow>
              if br_Start reference - ss_Start st \<le> importAt + length ''import'' then None
              else first_label graph (m 1) (range_text source reference)
                (FindAllStringSubmatch importedNamePattern
                  (TrimBytes (\<lambda>c. c = CHR ''('' \<or> c = CHR '')'') (TrimSpace (m 2))))))"

fun first_import :: "string \<Rightarrow> ByteRange \<Rightarrow> graph_ptr \<Rightarrow> SyntaxStatement list \<Rightarrow> string option" where
  "first_import source reference graph [] = None"
| "first_import source reference graph (st # sts) =
     or_else (imported_label source reference graph st) (first_import source reference graph sts)"

definition resolveModelReference :: "(nat \<Rightarrow> bool) \<Rightarrow> string \<Rightarrow> nat \<Rightarrow> graph_ptr \<Rightarrow> SyntaxStatement list \<Rightarrow> string option" where
  "resolveModelReference wide source offset graph syntax =
     (let reference = identifierRange wide source offset in
      if br_Start reference = br_End reference \<or> \<not> referenceIsCode source reference then None
      else let imps = fst (buildEnvironment wide (take offset source) graph syntax offset);
               start = dotted_start source (br_Start reference) in
        or_else (resolveClass (subslice source start (br_End reference)) imps graph)
          (first_import source reference graph syntax))"

definition ResolveDefinitionSyntaxFile ::
    "(nat \<Rightarrow> bool) \<Rightarrow> string \<Rightarrow> int \<Rightarrow> graph_ptr \<Rightarrow> SyntaxStatement list \<Rightarrow> string \<Rightarrow> SourceRange option" where
  "ResolveDefinitionSyntaxFile wide source offset graph syntax filePath =
     (if graph = None \<or> offset < 0 \<or> int (length source) < offset then None
      else or_else
        (case AnalyzeSyntaxFile wide source offset graph syntax filePath of
           None \<Rightarrow> None | Some context \<Rightarrow> if cx_Identifier context = [] then None else contextSourceRange context graph)
        (case resolveModelReference wide source (nat offset) graph syntax of
           None \<Rightarrow> None | Some label \<Rightarrow> ModelSourceRange graph label))"

definition ResolveDefinitionSyntax :: "(nat \<Rightarrow> bool) \<Rightarrow> string \<Rightarrow> int \<Rightarrow> graph_ptr \<Rightarrow> SyntaxStatement list \<Rightarrow> SourceRange option" where
  "ResolveDefinitionSyntax wide source offset graph syntax = ResolveDefinitionSyntaxFile wide source offset graph syntax []"

section \<open>The keywords of a call\<close>

record annotationAliasRef =
  ar_name :: string
  ar_span :: ByteRange
  ar_value :: ByteRange

definition keywordArgRef :: "(nat \<Rightarrow> bool) \<Rightarrow> string \<Rightarrow> nat \<Rightarrow> nat \<Rightarrow> annotationAliasRef option" where
  "keywordArgRef wide args start e =
     (let r = trimByteRange args \<lparr>br_Start = start, br_End = e\<rparr>; segment = range_text args r;
          i = length (takeWhile (\<lambda>c. \<not> is_open c \<and> c \<noteq> CHR ''='') segment) in
      if length segment \<le> i \<or> segment ! i \<noteq> CHR ''='' \<or> i = 0 then None
      else if segment ! (i - 1) \<in> {CHR ''!'', CHR ''<'', CHR ''>''} then None
      else if i + 1 < length segment \<and> segment ! (i + 1) = CHR ''='' then None
      else let name = TrimSpace (take i segment) in
        if \<not> identifierText wide name then None
        else Some \<lparr>ar_name = name, ar_span = \<lparr>br_Start = br_Start r, br_End = br_Start r + length name\<rparr>,
          ar_value = \<lparr>br_Start = skip_while (\<lambda>i. isSpace (args ! i)) (br_End r) (br_Start r + i + 1), br_End = br_End r\<rparr>\<rparr>)"

definition ref_list :: "annotationAliasRef option \<Rightarrow> annotationAliasRef list" where
  "ref_list r = (case r of Some ref \<Rightarrow> [ref] | None \<Rightarrow> [])"

definition alias_switch :: "(nat \<Rightarrow> bool) \<Rightarrow> string \<Rightarrow> nat \<Rightarrow> lexevent \<Rightarrow> annotationAliasRef list \<times> nat \<times> nat \<Rightarrow>
    unit + annotationAliasRef list \<times> nat \<times> nat" where
  "alias_switch wide args index ev s = (case s of (refs, depth, segStart) \<Rightarrow>
     (case ev of
        CodeByte c \<Rightarrow>
          if (c = CHR '','' \<or> c = CHR 0x00) \<and> depth = 0
          then Inr (refs @ ref_list (keywordArgRef wide args segStart index), depth, Suc index)
          else Inr (refs, bracket_depth c depth, segStart)
      | _ \<Rightarrow> Inr s))"

definition annotationAliasRefs :: "(nat \<Rightarrow> bool) \<Rightarrow> string \<Rightarrow> annotationAliasRef list" where
  "annotationAliasRefs wide args =
     (case lex_fold quote_lexer (alias_switch wide args) args 0 InCode ([], 0, 0) of
        Inl _ \<Rightarrow> []
      | Inr (mode, refs, depth, segStart) \<Rightarrow>
          if mode = InCode \<and> depth = 0 then refs @ ref_list (keywordArgRef wide args segStart (length args)) else refs)"

section \<open>Annotations in a chain\<close>

lemma skipCall_after: "skipCall expression start = Some e \<Longrightarrow> start < e"
  by (auto simp: skipCall_def skip_call_switch_def split: sum.splits lexevent.splits if_splits dest!: lex_fold_stop)

text \<open>
  The end of the name behind the dot at \<open>index\<close>, and the call behind it, when it is \<open>annotate\<close> or
  \<open>alias\<close>.
\<close>

definition annotating_call :: "string \<Rightarrow> nat \<Rightarrow> nat option" where
  "annotating_call s index =
     (let nameEnd = skip_while (\<lambda>i. isIdentifierByte (s ! i)) (length s) (Suc index);
          callStart = skip_while (\<lambda>i. s ! i = CHR '' '' \<or> s ! i = CHR 0x09) (length s) nameEnd in
      if subslice s (Suc index) nameEnd \<notin> {''annotate'', ''alias''} then None
      else if length s \<le> callStart \<or> s ! callStart \<noteq> CHR ''('' then None else Some callStart)"

definition shift_range :: "nat \<Rightarrow> ByteRange \<Rightarrow> ByteRange" where
  "shift_range base r = \<lparr>br_Start = base + br_Start r, br_End = base + br_End r\<rparr>"

text \<open>The last reference with the name, moved to its place in the source.\<close>

definition named_ref :: "nat \<Rightarrow> string \<Rightarrow> annotationAliasRef list \<Rightarrow> annotationAliasRef option \<Rightarrow> annotationAliasRef option" where
  "named_ref base name refs found = foldl (\<lambda>found ref. if ar_name ref = name
     then Some (ref\<lparr>ar_span := shift_range base (ar_span ref), ar_value := shift_range base (ar_value ref)\<rparr>) else found) found refs"

function chain_ref :: "(nat \<Rightarrow> bool) \<Rightarrow> string \<Rightarrow> bool list \<Rightarrow> nat \<Rightarrow> string \<Rightarrow> nat \<Rightarrow> nat \<Rightarrow> annotationAliasRef option \<Rightarrow>
    annotationAliasRef option" where
  "chain_ref wide s code base name index depth found =
     (if length s \<le> index then found
      else if \<not> code ! index then chain_ref wide s code base name (Suc index) depth found
      else if is_open (s ! index) \<or> is_close (s ! index)
      then chain_ref wide s code base name (Suc index) (bracket_depth (s ! index) depth) found
      else if depth \<noteq> 0 \<or> s ! index \<noteq> CHR ''.'' then chain_ref wide s code base name (Suc index) depth found
      else case annotating_call s index of
        None \<Rightarrow> chain_ref wide s code base name (Suc index) depth found
      | Some callStart \<Rightarrow> (case skipCall s callStart of
          None \<Rightarrow> found
        | Some callEnd \<Rightarrow> chain_ref wide s code base name callEnd depth
            (named_ref (base + callStart + 1) name (annotationAliasRefs wide (subslice s (Suc callStart) (callEnd - 1))) found)))"
  by pat_completeness auto

lemma annotating_call_after: "annotating_call s index = Some callStart \<Longrightarrow> index < callStart"
proof -
  have "Suc index \<le> skip_while p e (skip_while q f (Suc index))" for p e q f
    using skip_while_ge [of "Suc index" q f] skip_while_ge [of "skip_while q f (Suc index)" p e] by (rule order_trans)
  then show "annotating_call s index = Some callStart \<Longrightarrow> index < callStart"
    by (auto simp: annotating_call_def Let_def Suc_le_eq split: if_splits)
qed

termination chain_ref
  by (relation "measure (\<lambda>(wide, s, code, base, name, index, depth, found). length s - index)")
    (auto dest!: skipCall_after annotating_call_after intro!: diff_less_mono2)

declare chain_ref.simps [simp del]

definition findChainAnnotationRef :: "(nat \<Rightarrow> bool) \<Rightarrow> string \<Rightarrow> ByteRange \<Rightarrow> string \<Rightarrow> annotationAliasRef option" where
  "findChainAnnotationRef wide source chain name =
     (if name = [] \<or> length source < br_End chain \<or> br_End chain \<le> br_Start chain then None
      else let s = range_text source chain in chain_ref wide s (pythonCodeMask s (length s)) (br_Start chain) name 0 0 None)"

end
