(* ===== verification/Analysis_Annotation.thy ===== *)
theory Analysis_Annotation
  imports Analysis_Definition
begin

text \<open>
  The annotation an alias at the cursor refers to, and the Python type of its values
  (\<open>internal/analysis/definition.go\<close>). \<open>isFloat\<close> says what \<open>strconv.ParseFloat\<close> accepts.
\<close>

section \<open>The chain that carries the annotation\<close>

definition enclosing_receiver :: "string \<Rightarrow> nat \<Rightarrow> ByteRange option" where
  "enclosing_receiver source offset = map_option call_receiver (enclosingCall source (int offset))"

definition ormPathChainReceiver :: "(nat \<Rightarrow> bool) \<Rightarrow> string \<Rightarrow> nat \<Rightarrow> graph_ptr \<Rightarrow> SyntaxStatement list \<Rightarrow> string \<Rightarrow> ByteRange option" where
  "ormPathChainReceiver wide source offset graph syntax filePath =
     (case enclosingFunctionCall source (int offset) of
        None \<Rightarrow> enclosing_receiver source offset
      | Some expression \<Rightarrow>
          if isAnnotationExpressionFunction (expandImport (fc_name expression) (imports_at wide source offset graph syntax filePath))
          then (case enclosingCallBefore source (int offset) (fc_opening expression) of
              None \<Rightarrow> None
            | Some call \<Rightarrow> if call_method call \<in> {''annotate'', ''alias'', ''aggregate''} then Some (call_receiver call) else None)
          else enclosing_receiver source offset)"

definition queryKeywordReceiver :: "string \<Rightarrow> nat \<Rightarrow> import_map \<Rightarrow> ByteRange option" where
  "queryKeywordReceiver source offset imps =
     (case enclosingFunctionCall source (int offset) of
        None \<Rightarrow> enclosing_receiver source offset
      | Some expression \<Rightarrow>
          if expandImport (fc_name expression) imps = ''django.db.models.Q''
          then map_option call_receiver (enclosingCallBefore source (int offset) (fc_opening expression))
          else enclosing_receiver source offset)"

definition annotation_chain :: "(nat \<Rightarrow> bool) \<Rightarrow> string \<Rightarrow> nat \<Rightarrow> graph_ptr \<Rightarrow> SyntaxStatement list \<Rightarrow> string \<Rightarrow> Context \<Rightarrow> ByteRange option" where
  "annotation_chain wide source offset graph syntax filePath context = (case cx_Kind context of
     ContextInstanceMember \<Rightarrow>
       (let replacement = identifierRange wide source offset in
        if br_Start replacement = 0 \<or> source ! (br_Start replacement - 1) \<noteq> CHR ''.'' then None
        else Some (expressionBefore source (br_Start replacement - 1)))
   | ContextQueryKeyword \<Rightarrow> queryKeywordReceiver source offset (imports_at wide source offset graph syntax filePath)
   | ContextORMPath \<Rightarrow> (case cx_Path context of
       None \<Rightarrow> None
     | Some path \<Rightarrow>
         if pc_OnSeparator path \<or> pc_ActiveSegment path \<noteq> 0 \<or> pc_Mode path \<noteq> PathLookup \<and> pc_Mode path \<noteq> PathProjection then None
         else ormPathChainReceiver wide source offset graph syntax filePath)
   | _ \<Rightarrow> None)"

definition resolveAnnotationUsage ::
    "(nat \<Rightarrow> bool) \<Rightarrow> string \<Rightarrow> int \<Rightarrow> graph_ptr \<Rightarrow> SyntaxStatement list \<Rightarrow> string \<Rightarrow> (annotationAliasRef \<times> string) option" where
  "resolveAnnotationUsage wide source offset graph syntax filePath =
     (if graph = None \<or> offset < 0 \<or> int (length source) < offset then None
      else case AnalyzeSyntaxFile wide source offset graph syntax filePath of
        None \<Rightarrow> None
      | Some context \<Rightarrow>
          if cx_Identifier context = [] \<or> \<not> isAnnotationAlias (val_Annotations (cx_Value context)) (cx_Identifier context) then None
          else case annotation_chain wide source (nat offset) graph syntax filePath context of
            None \<Rightarrow> None
          | Some chain \<Rightarrow> map_option (\<lambda>ref. (ref, val_CanonicalLabel (cx_Value context)))
              (findChainAnnotationRef wide source chain (cx_Identifier context)))"

definition ResolveAnnotationAliasDefinition ::
    "(nat \<Rightarrow> bool) \<Rightarrow> string \<Rightarrow> int \<Rightarrow> graph_ptr \<Rightarrow> SyntaxStatement list \<Rightarrow> string \<Rightarrow> ByteRange option" where
  "ResolveAnnotationAliasDefinition wide source offset graph syntax filePath =
     map_option (\<lambda>(ref, label). ar_span ref) (resolveAnnotationUsage wide source offset graph syntax filePath)"

section \<open>Types of annotations\<close>

definition isDottedIdentifier :: "(nat \<Rightarrow> bool) \<Rightarrow> string \<Rightarrow> bool" where
  "isDottedIdentifier wide name \<longleftrightarrow> list_all (identifierText wide) (split_byte CHR ''.'' name)"

definition topLevelCall :: "(nat \<Rightarrow> bool) \<Rightarrow> string \<Rightarrow> (string \<times> string) option" where
  "topLevelCall wide expr = (case IndexByte expr CHR ''('' of
     None \<Rightarrow> None
   | Some opening \<Rightarrow>
       if last expr \<noteq> CHR '')'' then None
       else let name = TrimSpace (take opening expr) in
         if name = [] \<or> \<not> isDottedIdentifier wide name then None
         else if skipCall expr opening \<noteq> Some (length expr) then None
         else Some (name, subslice expr (Suc opening) (length expr - 1)))"

definition baseFunctionName :: "string \<Rightarrow> string" where
  "baseFunctionName name = (case LastIndexByte name CHR ''.'' of Some i \<Rightarrow> drop (Suc i) name | None \<Rightarrow> name)"

definition topLevelCallName :: "(nat \<Rightarrow> bool) \<Rightarrow> string \<Rightarrow> string option" where
  "topLevelCallName wide expr = map_option (\<lambda>(name, args). baseFunctionName name) (topLevelCall wide expr)"

definition firstPositionalArg :: "string \<Rightarrow> string option" where
  "firstPositionalArg args = (case lex_fold quote_lexer first_argument_switch args 0 InCode 0 of
     Inl index \<Rightarrow> Some (TrimSpace (take index args))
   | Inr _ \<Rightarrow> if TrimSpace args = [] then None else Some (TrimSpace args))"

definition firstStringLiteralArg :: "string \<Rightarrow> string option" where
  "firstStringLiteralArg args = (case firstPositionalArg args of
     None \<Rightarrow> None
   | Some literal \<Rightarrow>
       if length literal < 2 \<or> \<not> is_quote (hd literal) \<or> last literal \<noteq> hd literal then None
       else Some (subslice literal 1 (length literal - 1)))"

fun field_type_loop :: "graph_ptr \<Rightarrow> string \<Rightarrow> string list \<Rightarrow> string option" where
  "field_type_loop graph model [] = None"
| "field_type_loop graph model (segment # segments) = (case QueryAccess graph model segment of
     None \<Rightarrow> None
   | Some access \<Rightarrow>
       if segments = [] then Some (FieldRef_Type (fa_Field access))
       else case FieldRef_RelatedModel (Some (fa_Field access)) of
         None \<Rightarrow> None | Some related \<Rightarrow> field_type_loop graph related segments)"

definition resolveFieldType :: "string \<Rightarrow> string \<Rightarrow> graph_ptr \<Rightarrow> string option" where
  "resolveFieldType canonicalLabel fieldPath graph =
     (if canonicalLabel = [] \<or> fieldPath = [] \<or> graph = None then None
      else field_type_loop graph canonicalLabel (split_dunder fieldPath))"

text \<open>What \<open>strconv.Atoi\<close> accepts: a sign and digits, within 64 bits.\<close>

definition digit_value :: "char \<Rightarrow> nat" where
  "digit_value c = byte c - byte CHR ''0''"

definition Atoi_accepts :: "string \<Rightarrow> bool" where
  "Atoi_accepts s =
     (let digits = (if s \<noteq> [] \<and> (hd s = CHR ''+'' \<or> hd s = CHR ''-'') then tl s else s);
          n = foldl (\<lambda>n c. 10 * n + digit_value c) 0 digits in
      digits \<noteq> [] \<and> list_all (\<lambda>c. byte CHR ''0'' \<le> byte c \<and> byte c \<le> byte CHR ''9'') digits
      \<and> n < 2 ^ 63 + (if hd s = CHR ''-'' then 1 else 0))"

definition literalPythonType :: "(string \<Rightarrow> bool) \<Rightarrow> string \<Rightarrow> string option" where
  "literalPythonType isFloat literal =
     (if literal = [] then None
      else if literal = ''True'' \<or> literal = ''False'' then Some ''bool''
      else if literal = ''None'' then Some ''None''
      else if 2 \<le> length literal \<and> is_quote (hd literal) \<and> last literal = hd literal then Some ''str''
      else if Atoi_accepts literal then Some ''int''
      else if isFloat literal then Some ''float'' else None)"

text \<open>The class of the first \<open>output_field=...\<close> that is a call.\<close>

fun output_field :: "(nat \<Rightarrow> bool) \<Rightarrow> string \<Rightarrow> annotationAliasRef list \<Rightarrow> string option" where
  "output_field wide args [] = None"
| "output_field wide args (ref # refs) =
     (if ar_name ref = ''output_field''
      then or_else (topLevelCallName wide (TrimSpace (range_text args (ar_value ref)))) (output_field wide args refs)
      else output_field wide args refs)"

definition function_type :: "(string \<Rightarrow> bool) \<Rightarrow> string \<Rightarrow> string \<Rightarrow> string \<Rightarrow> graph_ptr \<Rightarrow> string option" where
  "function_type isFloat name args canonicalLabel graph =
     (if name = ''Count'' \<or> name = ''Length'' then Some ''int''
      else if name = ''Exists'' then Some ''bool''
      else if name = ''Concat'' then Some ''str''
      else if name \<in> {''Sum'', ''Avg'', ''Min'', ''Max'', ''F''} then
        (case firstStringLiteralArg args of None \<Rightarrow> None | Some fieldPath \<Rightarrow> resolveFieldType canonicalLabel fieldPath graph)
      else if name = ''Value'' then
        (case firstPositionalArg args of None \<Rightarrow> None | Some literal \<Rightarrow> literalPythonType isFloat literal)
      else None)"

definition inferAnnotationReturnType :: "(nat \<Rightarrow> bool) \<Rightarrow> (string \<Rightarrow> bool) \<Rightarrow> string \<Rightarrow> string \<Rightarrow> graph_ptr \<Rightarrow> string option" where
  "inferAnnotationReturnType wide isFloat valueText canonicalLabel graph =
     (case topLevelCall wide (TrimSpace valueText) of
        None \<Rightarrow> None
      | Some (name, args) \<Rightarrow> or_else (output_field wide args (annotationAliasRefs wide args))
          (function_type isFloat (baseFunctionName name) args canonicalLabel graph))"

definition AnnotationReturnType ::
    "(nat \<Rightarrow> bool) \<Rightarrow> (string \<Rightarrow> bool) \<Rightarrow> string \<Rightarrow> int \<Rightarrow> graph_ptr \<Rightarrow> SyntaxStatement list \<Rightarrow> string \<Rightarrow> string option" where
  "AnnotationReturnType wide isFloat source offset graph syntax filePath =
     (case resolveAnnotationUsage wide source offset graph syntax filePath of
        None \<Rightarrow> None
      | Some (ref, label) \<Rightarrow> inferAnnotationReturnType wide isFloat (range_text source (ar_value ref)) label graph)"

end
