(* ===== verification/Analysis_Links.thy ===== *)
theory Analysis_Links
  imports Analysis_Context
begin

text \<open>
  The strings of relation fields that name a model (\<open>internal/analysis/document_link.go\<close>):
  \<open>ForeignKey('app.Model', related_name='...')\<close> in the class the schema says it was loaded from.
  \<open>ev\<close> is \<open>EvalSymlinks\<close> and \<open>sha256\<close> the hash of a source.
\<close>

record RelationStringReference =
  rsr_Range :: ByteRange
  rsr_TargetModel :: string

definition classNamePattern :: regex where
  "classNamePattern = rx_seq [RBegin, rx_spaces, rx_text ''class'', rx_spaces1, RGroup 1 rx_ident, RWord]"

definition sourceBytePosition :: "string \<Rightarrow> nat \<Rightarrow> Position" where
  "sourceBytePosition source offset = foldl (\<lambda>p c. if c = CHR 0x0A
     then \<lparr>pos_Line = pos_Line p + 1, pos_Column = 0\<rparr> else p\<lparr>pos_Column := pos_Column p + 1\<rparr>)
     \<lparr>pos_Line = 1, pos_Column = 0\<rparr> (take offset source)"

definition staticKeywordArgument :: "(nat \<Rightarrow> bool) \<Rightarrow> string \<Rightarrow> ByteRange \<Rightarrow> string \<times> ByteRange" where
  "staticKeywordArgument wide source argument =
     (let equals = topLevelEquals source argument in
      if equals < 0 then ([], argument)
      else let name = trimByteRange source \<lparr>br_Start = br_Start argument, br_End = nat equals\<rparr>;
          v = trimByteRange source \<lparr>br_Start = Suc (nat equals), br_End = br_End argument\<rparr> in
        if \<not> identifierText wide (range_text source name) then ([], zero_Range) else (range_text source name, v))"

definition sameFieldOrigin :: "FieldRef \<Rightarrow> FieldRef \<Rightarrow> bool" where
  "sameFieldOrigin left right \<longleftrightarrow> FieldRef_SourceModel (Some left) = FieldRef_SourceModel (Some right) \<and> sameSourceRange left right"

definition relation_constructors :: "string list" where
  "relation_constructors = [''django.db.models.ForeignKey'', ''django.db.models.OneToOneField'', ''django.db.models.ManyToManyField'']"

definition isRelationConstructor :: "(nat \<Rightarrow> bool) \<Rightarrow> DocSnapshot \<Rightarrow> graph_ptr \<Rightarrow> SyntaxCall \<Rightarrow> bool" where
  "isRelationConstructor wide snapshot graph call =
     (let source = ds_Source snapshot; start = br_Start (sc_Range call); receiver = sc_Receiver call in
      if length source < start then False
      else let expression = (if br_Start receiver < br_End receiver \<and> br_End receiver \<le> length source
            then range_text source receiver @ ''.'' @ sc_Method call else sc_Method call) in
        expandImport expression (fst (buildEnvironment wide (take start source) graph (ds_Syntax snapshot) start))
          \<in> set relation_constructors)"

text \<open>The name of the smallest class around the call that the source spells, and its size.\<close>

definition class_around :: "string \<Rightarrow> ByteRange \<Rightarrow> SyntaxStatement \<Rightarrow> string \<times> int \<Rightarrow> string \<times> int" where
  "class_around source call st found =
     (if \<not> ss_ScopeMarker st \<or> \<not> is_class st \<or> br_Start call < ss_ScopeStart st \<or> ss_ScopeEnd st < br_End call then found
      else if scope_width st < snd found \<and> ss_ScopeEnd st \<le> length source
      then (case FindStringSubmatch classNamePattern (subslice source (ss_ScopeStart st) (ss_ScopeEnd st)) of
          None \<Rightarrow> found | Some m \<Rightarrow> (m 1, scope_width st))
      else found)"

definition declared_relation ::
    "(nat \<Rightarrow> bool) \<Rightarrow> (string \<Rightarrow> string option) \<Rightarrow> string \<Rightarrow> string \<Rightarrow> string \<Rightarrow> graph_ptr \<Rightarrow> ByteRange \<Rightarrow> SyntaxStatement \<Rightarrow> FieldRef option" where
  "declared_relation wide ev source filePath className graph call st =
     (if ss_ScopeMarker st \<or> \<not> is_class st \<or> br_Start call < ss_ScopeStart st \<or> ss_ScopeEnd st < br_End call
         \<or> br_Start call < ss_Start st \<or> ss_End st < br_End call then None
      else let equals = topLevelEquals source \<lparr>br_Start = ss_Start st, br_End = br_Start call\<rparr> in
        if equals < 0 then None
        else if trimByteRange source \<lparr>br_Start = Suc (nat equals), br_End = ss_End st\<rparr> \<noteq> call then None
        else let name = range_text source (trimByteRange source \<lparr>br_Start = ss_Start st, br_End = nat equals\<rparr>) in
          if \<not> identifierText wide name then None
          else RelationFieldForSource ev graph filePath className name
            (sourceBytePosition source (ss_Start st)) (sourceBytePosition source (ss_End st)))"

fun first_relation :: "(SyntaxStatement \<Rightarrow> FieldRef option) \<Rightarrow> SyntaxStatement list \<Rightarrow> FieldRef option" where
  "first_relation declared [] = None"
| "first_relation declared (st # sts) = or_else (declared st) (first_relation declared sts)"

definition relationDeclaration ::
    "(nat \<Rightarrow> bool) \<Rightarrow> (string \<Rightarrow> string option) \<Rightarrow> DocSnapshot \<Rightarrow> string \<Rightarrow> graph_ptr \<Rightarrow> SyntaxCall \<Rightarrow> FieldRef option" where
  "relationDeclaration wide ev snapshot filePath graph call =
     (let source = ds_Source snapshot;
          className = fst (fold (class_around source (sc_Range call)) (ds_Syntax snapshot) ([], int (length source) + 1)) in
      if className = [] then None
      else first_relation (declared_relation wide ev source filePath className graph (sc_Range call)) (ds_Syntax snapshot))"

text \<open>The references of one argument: the model a relation points to, and the name of its reverse.\<close>

definition argument_references ::
    "(nat \<Rightarrow> bool) \<Rightarrow> string \<Rightarrow> graph_ptr \<Rightarrow> FieldRef \<Rightarrow> string \<Rightarrow> nat \<Rightarrow> ByteRange \<Rightarrow> RelationStringReference list" where
  "argument_references wide source graph field target index argument =
     (let (keyword, v) = staticKeywordArgument wide source argument;
          reference = (\<lambda>r. [\<lparr>rsr_Range = r, rsr_TargetModel = target\<rparr>]) in
      (if keyword = [] \<and> index = 0 \<or> keyword = ''to''
       then (case diagnosticStringPath source v of Some r \<Rightarrow> reference r | None \<Rightarrow> []) else [])
      @ (if keyword \<noteq> ''related_name'' then []
         else case diagnosticStringPath source v of
           None \<Rightarrow> []
         | Some r \<Rightarrow>
             if br_Start r = br_End r \<or> HasSuffix (range_text source r) ''+'' then []
             else (case InstanceAccess graph target (range_text source r) of
               None \<Rightarrow> [] | Some access \<Rightarrow> if sameFieldOrigin (fa_Field access) field then reference r else [])))"

definition call_references ::
    "(nat \<Rightarrow> bool) \<Rightarrow> (string \<Rightarrow> string option) \<Rightarrow> (string \<Rightarrow> string) \<Rightarrow> DocSnapshot \<Rightarrow> string \<Rightarrow> graph_ptr \<Rightarrow> SyntaxCall \<Rightarrow> RelationStringReference list" where
  "call_references wide ev sha256 snapshot filePath graph call =
     (if \<not> isRelationConstructor wide snapshot graph call then []
      else case relationDeclaration wide ev snapshot filePath graph call of
        None \<Rightarrow> []
      | Some field \<Rightarrow> (case FieldRef_SourceRange (Some field) of
          None \<Rightarrow> []
        | Some sourceRange \<Rightarrow>
            if \<not> MatchesSourceDigest sha256 (ds_Source snapshot) (sr_SourceDigest sourceRange) then []
            else (case relation_target field of
              None \<Rightarrow> []
            | Some target \<Rightarrow>
                concat (map (\<lambda>(index, argument). argument_references wide (ds_Source snapshot) graph field target index argument)
                  (enumerate 0 (splitStaticArguments (ds_Source snapshot) (sc_Arguments call)))))))"

definition reference_key :: "RelationStringReference \<Rightarrow> nat \<times> nat \<times> string" where
  "reference_key r = (br_Start (rsr_Range r), br_End (rsr_Range r), rsr_TargetModel r)"

definition ResolveRelationStringReferences ::
    "(nat \<Rightarrow> bool) \<Rightarrow> (string \<Rightarrow> string option) \<Rightarrow> (string \<Rightarrow> string) \<Rightarrow> DocSnapshot \<Rightarrow> string \<Rightarrow> graph_ptr \<Rightarrow> RelationStringReference list" where
  "ResolveRelationStringReferences wide ev sha256 snapshot filePath graph =
     (if graph = None \<or> \<not> ds_Parsed snapshot \<or> filePath = [] then []
      else sort_key reference_key (concat (map (call_references wide ev sha256 snapshot filePath graph) (ds_Calls snapshot))))"

definition ResolveRelationStringDefinition ::
    "(nat \<Rightarrow> bool) \<Rightarrow> (string \<Rightarrow> string option) \<Rightarrow> (string \<Rightarrow> string) \<Rightarrow> DocSnapshot \<Rightarrow> string \<Rightarrow> graph_ptr \<Rightarrow> int \<Rightarrow> SourceRange option" where
  "ResolveRelationStringDefinition wide ev sha256 snapshot filePath graph offset =
     (if offset < 0 \<or> int (length (ds_Source snapshot)) < offset then None
      else case List.find (\<lambda>r. int (br_Start (rsr_Range r)) \<le> offset \<and> offset < int (br_End (rsr_Range r)))
          (ResolveRelationStringReferences wide ev sha256 snapshot filePath graph) of
        None \<Rightarrow> None | Some r \<Rightarrow> ModelSourceRange graph (rsr_TargetModel r))"

end
