(* ===== verification/Lsp_Signature.thy ===== *)
theory Lsp_Signature
  imports Python_Lexer
begin

text \<open>
  Signature help (\<open>internal/lsp/signature.go\<close>): the parameters of a Python signature, as
  \<open>inspect.signature\<close> prints it, and the one that an argument is for. The scanners are those of the
  lexers without triple quotes and comments, one byte at a time.
\<close>

section \<open>Definitions\<close>

record signatureParameter =
  sigp_label :: string
  sigp_name :: string
  sigp_positional :: bool
  sigp_keyword :: bool
  sigp_variadic :: bool
  sigp_keywords :: bool

record parsedSignature =
  sig_parameters :: "signatureParameter list"

definition matchingDelimiter :: "char \<Rightarrow> char \<Rightarrow> bool" where
  "matchingDelimiter opening closing \<longleftrightarrow> opening = CHR ''('' \<and> closing = CHR '')'' \<or>
     opening = CHR ''['' \<and> closing = CHR '']'' \<or> opening = CHR ''{'' \<and> closing = CHR ''}''"

text \<open>One byte of either scanner: the mode after it, and the byte when it is code.\<close>

definition quote_step :: "lexmode \<Rightarrow> char \<Rightarrow> lexmode \<times> char option" where
  "quote_step mode c = (case lex_step quote_lexer mode c [] of
     (mode', n, Some (CodeByte d)) \<Rightarrow> (mode', Some d) | (mode', n, _) \<Rightarrow> (mode', None))"

text \<open>The stack after a bracket, unless it closes nothing.\<close>

definition delimit :: "char \<Rightarrow> string \<Rightarrow> string option" where
  "delimit c stack = (if is_open c then Some (c # stack)
     else if is_close c then (case stack of [] \<Rightarrow> None | d # below \<Rightarrow> if matchingDelimiter d c then Some below else None)
     else Some stack)"

fun matching_from :: "nat \<Rightarrow> lexmode \<Rightarrow> string \<Rightarrow> string \<Rightarrow> nat option" where
  "matching_from index mode stack [] = None"
| "matching_from index mode stack (c # cs) = (case quote_step mode c of
     (mode', None) \<Rightarrow> matching_from (Suc index) mode' stack cs
   | (mode', Some d) \<Rightarrow> (case delimit d stack of
       None \<Rightarrow> None
     | Some below \<Rightarrow>
         if is_close d \<and> below = [] then (if d = CHR '')'' then Some index else None)
         else matching_from (Suc index) mode' below cs))"

definition matchingParenthesis :: "string \<Rightarrow> nat option" where
  "matchingParenthesis signature = matching_from 0 InCode [] signature"

text \<open>The rest of the content, with the part before it that the last comma began.\<close>

fun split_from :: "lexmode \<Rightarrow> string \<Rightarrow> string \<Rightarrow> string \<Rightarrow> string list option" where
  "split_from mode stack part [] = (if mode = InCode \<and> stack = [] then Some [part] else None)"
| "split_from mode stack part (c # cs) = (case quote_step mode c of
     (mode', None) \<Rightarrow> split_from mode' stack (part @ [c]) cs
   | (mode', Some d) \<Rightarrow> (case delimit d stack of
       None \<Rightarrow> None
     | Some below \<Rightarrow>
         if d = CHR '','' \<and> stack = [] then map_option (Cons part) (split_from mode' [] [] cs)
         else split_from mode' below (part @ [c]) cs))"

definition splitSignatureParameters :: "string \<Rightarrow> string list option" where
  "splitSignatureParameters content = (if TrimSpace content = [] then Some [] else split_from InCode [] [] content)"

definition signatureParameterName :: "string \<Rightarrow> string" where
  "signatureParameterName label = TrimSpace (takeWhile (\<lambda>c. c \<notin> {CHR '':'', CHR ''='', CHR '' '', CHR 0x09}) label)"

text \<open>The parameter a label that is not a separator stands for; its name is empty when it has none.\<close>

definition new_parameter :: "bool \<Rightarrow> string \<Rightarrow> signatureParameter" where
  "new_parameter keywordOnly label =
     (if HasPrefix label ''**''
      then \<lparr>sigp_label = label, sigp_name = signatureParameterName (TrimPrefix label ''**''), sigp_positional = False,
        sigp_keyword = True, sigp_variadic = False, sigp_keywords = True\<rparr>
      else if HasPrefix label ''*''
      then \<lparr>sigp_label = label, sigp_name = signatureParameterName (TrimPrefix label ''*''), sigp_positional = True,
        sigp_keyword = False, sigp_variadic = True, sigp_keywords = False\<rparr>
      else \<lparr>sigp_label = label, sigp_name = signatureParameterName label, sigp_positional = (\<not> keywordOnly),
        sigp_keyword = True, sigp_variadic = False, sigp_keywords = False\<rparr>)"

fun read_parameters :: "string list \<Rightarrow> signatureParameter list \<Rightarrow> bool \<Rightarrow> signatureParameter list option" where
  "read_parameters [] parameters keywordOnly = Some parameters"
| "read_parameters (raw # parts) parameters keywordOnly =
     (let label = TrimSpace raw in
      if label = [] then read_parameters parts parameters keywordOnly
      else if label = ''/'' then read_parameters parts (map (\<lambda>p. p\<lparr>sigp_keyword := False\<rparr>) parameters) keywordOnly
      else if label = ''*'' then read_parameters parts parameters True
      else let parameter = new_parameter keywordOnly label in
        if sigp_name parameter = [] then None
        else read_parameters parts (parameters @ [parameter]) (keywordOnly \<or> HasPrefix label ''*''))"

definition parseSignature :: "string \<Rightarrow> parsedSignature option" where
  "parseSignature text = (let signature = TrimSpace text in
     if signature = [] \<or> hd signature \<noteq> CHR ''('' then None
     else case matchingParenthesis signature of
       None \<Rightarrow> None
     | Some closing \<Rightarrow>
         (let trailing = TrimSpace (drop (Suc closing) signature) in
          if trailing \<noteq> [] \<and> \<not> HasPrefix trailing ''->'' then None
          else case splitSignatureParameters (subslice signature 1 closing) of
            None \<Rightarrow> None
          | Some parts \<Rightarrow> map_option (\<lambda>parameters. \<lparr>sig_parameters = parameters\<rparr>) (read_parameters parts [] False)))"

text \<open>The loops of \<open>activeParameter\<close>: \<open>index\<close> is that of the first of the parameters left.\<close>

fun active_keyword :: "string \<Rightarrow> nat \<Rightarrow> nat option \<Rightarrow> signatureParameter list \<Rightarrow> nat option" where
  "active_keyword keyword index fallback [] = fallback"
| "active_keyword keyword index fallback (p # ps) =
     (if sigp_keyword p \<and> sigp_name p = keyword then Some index
      else active_keyword keyword (Suc index) (if sigp_keywords p then Some index else fallback) ps)"

fun active_positional :: "nat \<Rightarrow> nat \<Rightarrow> nat \<Rightarrow> signatureParameter list \<Rightarrow> nat option" where
  "active_positional positional position index [] = None"
| "active_positional positional position index (p # ps) =
     (if \<not> sigp_positional p then active_positional positional position (Suc index) ps
      else if sigp_variadic p \<or> position = positional then Some index
      else active_positional positional (Suc position) (Suc index) ps)"

definition activeParameter :: "parsedSignature \<Rightarrow> nat \<Rightarrow> string \<Rightarrow> nat option" where
  "activeParameter signature positional keyword =
     (if keyword \<noteq> [] then active_keyword keyword 0 None (sig_parameters signature)
      else active_positional positional 0 0 (sig_parameters signature))"

section \<open>Python's signatures\<close>

text \<open>
  A parameter with what follows its name, an annotation or a default, and a signature as Python has
  it: positional-only parameters, parameters of either kind, the variadic one, keyword-only ones, the
  one for other keywords, and the annotation of what it returns.
\<close>

record pyparam =
  par_name :: string
  par_rest :: string

record pysignature =
  ps_posonly :: "pyparam list"
  ps_either :: "pyparam list"
  ps_var :: "pyparam option"
  ps_kwonly :: "pyparam list"
  ps_kwargs :: "pyparam option"
  ps_return :: "string option"

definition par_text :: "pyparam \<Rightarrow> string" where
  "par_text p = par_name p @ par_rest p"

definition opt_list :: "'a option \<Rightarrow> 'a list" where
  "opt_list x = (case x of None \<Rightarrow> [] | Some a \<Rightarrow> [a])"

definition print_items :: "pysignature \<Rightarrow> string list" where
  "print_items s = map par_text (ps_posonly s) @ (if ps_posonly s = [] then [] else [''/'']) @ map par_text (ps_either s) @
     (case ps_var s of Some v \<Rightarrow> [''*'' @ par_text v] | None \<Rightarrow> if ps_kwonly s = [] then [] else [''*'']) @
     map par_text (ps_kwonly s) @ map (\<lambda>v. ''**'' @ par_text v) (opt_list (ps_kwargs s))"

fun join_items :: "string list \<Rightarrow> string" where
  "join_items [] = []"
| "join_items [p] = p"
| "join_items (p # ps) = p @ '', '' @ join_items ps"

definition print_signature :: "pysignature \<Rightarrow> string" where
  "print_signature s = ''('' @ join_items (print_items s) @ '')'' @
     (case ps_return s of None \<Rightarrow> [] | Some annotation \<Rightarrow> '' -> '' @ annotation)"

text \<open>The parameter that Python binds an argument to, by its place among the signature's parameters.\<close>

definition bound_positional :: "pysignature \<Rightarrow> nat \<Rightarrow> nat option" where
  "bound_positional s i = (let n = length (ps_posonly s) + length (ps_either s) in
     if i < n then Some i else if ps_var s \<noteq> None then Some n else None)"

fun index_named :: "string \<Rightarrow> pyparam list \<Rightarrow> nat option" where
  "index_named k [] = None"
| "index_named k (p # ps) = (if par_name p = k then Some 0 else map_option Suc (index_named k ps))"

definition bound_keyword :: "pysignature \<Rightarrow> string \<Rightarrow> nat option" where
  "bound_keyword s k =
     (let a = length (ps_posonly s); b = a + length (ps_either s) + length (opt_list (ps_var s)) in
      case index_named k (ps_either s) of
        Some i \<Rightarrow> Some (a + i)
      | None \<Rightarrow> (case index_named k (ps_kwonly s) of
          Some i \<Rightarrow> Some (b + i)
        | None \<Rightarrow> if ps_kwargs s = None then None else Some (b + length (ps_kwonly s))))"

text \<open>Text whose quotes and brackets close, with no comma outside them.\<close>

fun delim_run :: "lexmode \<Rightarrow> string \<Rightarrow> string \<Rightarrow> (lexmode \<times> string) option" where
  "delim_run mode stack [] = Some (mode, stack)"
| "delim_run mode stack (c # cs) = (case quote_step mode c of
     (mode', None) \<Rightarrow> delim_run mode' stack cs
   | (mode', Some d) \<Rightarrow> (case delimit d stack of
       None \<Rightarrow> None
     | Some below \<Rightarrow> if d = CHR '','' \<and> stack = [] then None else delim_run mode' below cs))"

definition closed_text :: "string \<Rightarrow> bool" where
  "closed_text p \<longleftrightarrow> delim_run InCode [] p = Some (InCode, [])"

definition solid :: "char \<Rightarrow> bool" where
  "solid c \<longleftrightarrow> of_char c < (0x80 :: nat) \<and> \<not> IsSpace (of_char c)"

definition pyparam_ok :: "pyparam \<Rightarrow> bool" where
  "pyparam_ok p \<longleftrightarrow> par_name p \<noteq> [] \<and> list_all isIdentifierByte (par_name p) \<and>
     (par_rest p = [] \<or> (hd (par_rest p) = CHR '':'' \<or> hd (par_rest p) = CHR ''='') \<and> solid (last (par_rest p)) \<and> closed_text (par_rest p))"

definition pysignature_ok :: "pysignature \<Rightarrow> bool" where
  "pysignature_ok s \<longleftrightarrow> list_all pyparam_ok (ps_posonly s @ ps_either s @ opt_list (ps_var s) @ ps_kwonly s @ opt_list (ps_kwargs s)) \<and>
     (case ps_return s of None \<Rightarrow> True | Some annotation \<Rightarrow> annotation \<noteq> [] \<and> solid (last annotation))"

end
