(* ===== verification/Lsp_Signature_Facts.thy ===== *)
theory Lsp_Signature_Facts
  imports Lsp_Signature
begin

text \<open>Parsing a printed signature, and the parameter an argument is for.\<close>

section \<open>Bytes\<close>

lemma identifier_solid: "isIdentifierByte c \<Longrightarrow> solid c"
  by (auto simp: isIdentifierByte_def solid_def IsSpace_def)

lemma identifier_plain:
  assumes "isIdentifierByte c"
  shows "quote_step InCode c = (InCode, Some c)" and "delimit c stack = Some stack" and "c \<noteq> CHR '',''"
    and "c \<notin> {CHR '':'', CHR ''='', CHR '' '', CHR 0x09}" and "c \<noteq> CHR ''*''" and "c \<noteq> CHR ''/''"
  using assms by (auto simp: isIdentifierByte_def quote_step_def quote_lexer_def is_quote_def delimit_def is_open_def is_close_def)

lemma trim_ends:
  assumes "s \<noteq> []" and "solid (hd s)" and "solid (last s)"
  shows "TrimSpace s = s" and "TrimSpace (CHR '' '' # s) = s"
proof -
  obtain c cs where s: "s = c # cs" using assms(1) by (cases s) auto
  have left: "TrimLeftFunc IsSpace s = s" using assms(2) s by (simp add: TrimLeftFunc_ascii solid_def del: TrimLeftFunc.simps)
  obtain ds d where s': "s = ds @ [d]" using assms(1) by (metis rev_exhaust)
  have right: "TrimRightFunc IsSpace s = s" using assms(3) s' by (simp add: TrimRightFunc_ascii solid_def)
  show "TrimSpace s = s" by (simp add: TrimSpace_def left right)
  show "TrimSpace (CHR '' '' # s) = s"
    using left right by (simp add: TrimSpace_def TrimLeftFunc_ascii IsSpace_def [of 32] del: TrimLeftFunc.simps)
qed

lemma trim_nothing: "TrimSpace [] = []"
  by code_simp

section \<open>Scanning closed text\<close>

lemma delim_run_append:
  "delim_run m st (p @ q) = Option.bind (delim_run m st p) (\<lambda>(m', st'). delim_run m' st' q)"
proof (induction m st p rule: delim_run.induct)
  case (2 m st c cs)
  obtain m' e where "quote_step m c = (m', e)" by (cases "quote_step m c")
  then show ?case using 2 by (auto split: option.splits)
qed simp

lemma split_from_run:
  "delim_run m st p = Some (m', st') \<Longrightarrow> split_from m st part (p @ q) = split_from m' st' (part @ p) q"
proof (induction m st p arbitrary: part rule: delim_run.induct)
  case (2 m st c cs)
  obtain m1 e where "quote_step m c = (m1, e)" by (cases "quote_step m c")
  then show ?case using 2 by (auto split: option.splits if_splits)
qed simp

text \<open>The stack of a scan may be longer below: it never closes what is below.\<close>

lemma delimit_below:
  "delimit d st = Some below \<Longrightarrow> delimit d (st @ base) = Some (below @ base) \<and> (is_close d \<longrightarrow> st \<noteq> [])"
  by (cases st) (auto simp: delimit_def is_open_def is_close_def split: if_splits)

lemma matching_from_run:
  "delim_run m st p = Some (m', st') \<Longrightarrow> base \<noteq> [] \<Longrightarrow>
   matching_from i m (st @ base) (p @ q) = matching_from (i + length p) m' (st' @ base) q"
proof (induction m st p arbitrary: i rule: delim_run.induct)
  case (2 m st c cs)
  obtain m1 e where q: "quote_step m c = (m1, e)" by (cases "quote_step m c")
  show ?case
  proof (cases e)
    case None
    then show ?thesis using 2 q by simp
  next
    case (Some d)
    then obtain below where b: "delimit d st = Some below" using 2(3) q by (auto split: option.splits)
    have r: "delim_run m1 below cs = Some (m', st')" using 2(3) q Some b by (auto split: if_splits)
    have "\<not> (d = CHR '','' \<and> st = [])" using 2(3) q Some b by (auto split: if_splits)
    then show ?thesis using 2(2) [OF q [symmetric] Some b _ r] 2(4) q Some delimit_below [OF b, of base] by simp
  qed
qed simp

lemma delim_code:
  "\<not> is_quote c \<Longrightarrow> delim_run InCode st (c # cs) = (case delimit c st of None \<Rightarrow> None
     | Some below \<Rightarrow> if c = CHR '','' \<and> st = [] then None else delim_run InCode below cs)"
  by (simp add: quote_step_def quote_lexer_def)

lemma closed_append: "closed_text p \<Longrightarrow> closed_text q \<Longrightarrow> closed_text (p @ q)"
  by (simp add: closed_text_def delim_run_append)

lemma identifier_closed: "list_all isIdentifierByte n \<Longrightarrow> closed_text n"
  by (induction n) (auto simp: closed_text_def identifier_plain split: option.splits)

lemma stars_closed: "closed_text ''*''" "closed_text ''**''" "closed_text ''/''"
  by code_simp+

lemma space_run: "delim_run InCode [] (CHR '' '' # p) = delim_run InCode [] p"
  by (simp add: quote_step_def quote_lexer_def is_quote_def delimit_def is_open_def is_close_def)

lemma space_closed: "pre = [] \<or> pre = '' '' \<Longrightarrow> closed_text p \<Longrightarrow> delim_run InCode [] (pre @ p) = Some (InCode, [])"
  by (elim disjE) (simp_all add: closed_text_def space_run del: delim_run.simps)

lemma comma_step: "split_from InCode [] part (CHR '','' # q) = map_option (Cons part) (split_from InCode [] [] q)"
  by (simp add: quote_step_def quote_lexer_def is_quote_def delimit_def is_open_def is_close_def)

lemma split_items:
  assumes "ps \<noteq> []" and "\<forall>p \<in> set ps. closed_text p"
  shows "split_from InCode [] [] (join_items ps) = Some (hd ps # map (Cons (CHR '' '')) (tl ps))"
    and "split_from InCode [] [] (CHR '' '' # join_items ps) = Some (map (Cons (CHR '' '')) ps)"
proof -
  have step: "split_from InCode [] [] (pre @ join_items ps) = Some ((pre @ hd ps) # map (Cons (CHR '' '')) (tl ps))"
    if "pre = [] \<or> pre = '' ''" for pre
    using assms that
  proof (induction ps arbitrary: pre rule: join_items.induct)
    case (2 p)
    then have "delim_run InCode [] (pre @ p) = Some (InCode, [])" by (intro space_closed) auto
    from split_from_run [OF this, of "[]" "[]"] show ?case by (simp del: split_from.simps(2))
  next
    case (3 p q qs)
    then have "delim_run InCode [] (pre @ p) = Some (InCode, [])" by (intro space_closed) auto
    from split_from_run [OF this, of "[]" "'', '' @ join_items (q # qs)"]
    have "split_from InCode [] [] (pre @ join_items (p # q # qs)) =
        map_option (Cons (pre @ p)) (split_from InCode [] [] ('' '' @ join_items (q # qs)))"
      by (simp add: comma_step del: split_from.simps(2))
    then show ?case using 3(1) [of "'' ''"] 3(3) by (simp del: split_from.simps(2))
  qed simp
  show "split_from InCode [] [] (join_items ps) = Some (hd ps # map (Cons (CHR '' '')) (tl ps))"
    using step [of "[]"] by (simp del: split_from.simps(2))
  show "split_from InCode [] [] (CHR '' '' # join_items ps) = Some (map (Cons (CHR '' '')) ps)"
    using step [of "'' ''"] assms(1) by (cases ps) (simp_all del: split_from.simps(2))
qed

lemma matching_items:
  assumes "\<forall>p \<in> set ps. closed_text p"
  shows "matchingParenthesis (''('' @ join_items ps @ '')'' @ tail) = Some (Suc (length (join_items ps)))"
proof -
  have close: "matching_from i InCode ''('' (CHR '')'' # tail) = Some i" for i by (simp add: quote_step_def quote_lexer_def is_quote_def delimit_def is_open_def is_close_def matchingDelimiter_def)
  have comma: "matching_from i InCode ''('' ('', '' @ q) = matching_from (i + 2) InCode ''('' q" for i q
    by (simp add: quote_step_def quote_lexer_def is_quote_def delimit_def is_open_def is_close_def)
  have step: "matching_from i InCode ''('' (p @ q) = matching_from (i + length p) InCode ''('' q" if "closed_text p" for i p q
    using matching_from_run [of InCode "[]" p InCode "[]" "''(''" i q] that by (simp add: closed_text_def)
  have "matching_from i InCode ''('' (join_items ps @ CHR '')'' # tail) = Some (i + length (join_items ps))" for i
    using assms
  proof (induction ps arbitrary: i rule: join_items.induct)
    case (3 p q qs)
    have "matching_from i InCode ''('' (p @ '', '' @ join_items (q # qs) @ CHR '')'' # tail) =
        matching_from (i + length p + 2) InCode ''('' (join_items (q # qs) @ CHR '')'' # tail)"
      using step comma 3(2) by simp
    then show ?case using 3 by simp
  qed (use step close in \<open>simp_all add: step\<close>)
  then have "matching_from 1 InCode ''('' (join_items ps @ CHR '')'' # tail) = Some (1 + length (join_items ps))" .
  then show ?thesis
    by (simp add: matchingParenthesis_def quote_step_def quote_lexer_def is_quote_def delimit_def is_open_def is_close_def)
qed

section \<open>The items of a printed signature\<close>

definition item_ok :: "string \<Rightarrow> bool" where
  "item_ok p \<longleftrightarrow> p \<noteq> [] \<and> solid (hd p) \<and> solid (last p) \<and> closed_text p"

lemma item_trim: "item_ok p \<Longrightarrow> TrimSpace p = p" "item_ok p \<Longrightarrow> TrimSpace (CHR '' '' # p) = p"
  using trim_ends by (auto simp: item_ok_def)

lemma par_text_item: "pyparam_ok p \<Longrightarrow> item_ok (par_text p)"
proof -
  assume ok: "pyparam_ok p"
  then have n: "par_name p \<noteq> []" "list_all isIdentifierByte (par_name p)" by (auto simp: pyparam_ok_def)
  then have "solid (hd (par_name p))" "solid (last (par_name p))"
    by (auto simp: list_all_iff intro!: identifier_solid)
  moreover have "closed_text (par_text p)"
    using ok identifier_closed [OF n(2)] unfolding par_text_def by (intro closed_append) (auto simp: pyparam_ok_def closed_text_def)
  ultimately show "item_ok (par_text p)" using ok n by (cases "par_rest p = []") (auto simp: item_ok_def par_text_def pyparam_ok_def)
qed

lemma star_item: "item_ok p \<Longrightarrow> item_ok (''*'' @ p)" "item_ok p \<Longrightarrow> item_ok (''**'' @ p)"
  "item_ok ''*''" "item_ok ''/''"
  using closed_append [OF stars_closed(1), of p] closed_append [OF stars_closed(2), of p] stars_closed
  by (auto simp: item_ok_def solid_def IsSpace_def)

lemma items_ok: "pysignature_ok s \<Longrightarrow> p \<in> set (print_items s) \<Longrightarrow> item_ok p"
  using star_item par_text_item
  by (auto simp: print_items_def pysignature_ok_def list_all_iff opt_list_def split: option.splits if_splits)

lemma join_ends:
  "ps \<noteq> [] \<Longrightarrow> \<forall>p \<in> set ps. item_ok p \<Longrightarrow> join_items ps \<noteq> [] \<and> solid (hd (join_items ps)) \<and> solid (last (join_items ps))"
  by (induction ps rule: join_items.induct) (auto simp: item_ok_def)

lemma read_trimmed:
  "list_all2 (\<lambda>raw label. TrimSpace raw = label \<and> TrimSpace label = label) parts ps \<Longrightarrow>
   read_parameters parts ds k = read_parameters ps ds k"
  by (induction parts ps arbitrary: ds k rule: list_all2_induct) (simp_all add: Let_def)

lemma signature_parse_printed:
  assumes "pysignature_ok s"
  shows "parseSignature (print_signature s) = map_option (\<lambda>ps. \<lparr>sig_parameters = ps\<rparr>) (read_parameters (print_items s) [] False)"
proof -
  let ?ps = "print_items s"
  define tail where "tail = (case ps_return s of None \<Rightarrow> [] | Some annotation \<Rightarrow> '' -> '' @ annotation)"
  let ?text = "''('' @ join_items ?ps @ '')'' @ tail"
  have tail: "tail = [] \<or> solid (last tail)" "TrimSpace tail = [] \<or> HasPrefix (TrimSpace tail) ''->''"
  proof -
    show "tail = [] \<or> solid (last tail)" using assms by (auto simp: tail_def pysignature_ok_def split: option.splits)
    show "TrimSpace tail = [] \<or> HasPrefix (TrimSpace tail) ''->''"
    proof (cases "ps_return s")
      case (Some annotation)
      then have "solid (last (''-> '' @ annotation))" using assms by (simp add: pysignature_ok_def)
      then have "TrimSpace tail = ''-> '' @ annotation"
        using trim_ends(2) [of "''-> '' @ annotation"] Some by (simp add: tail_def solid_def IsSpace_def)
      then show ?thesis by (simp add: HasPrefix_def)
    qed (simp add: tail_def trim_nothing)
  qed
  have ok: "\<forall>p \<in> set ?ps. item_ok p" using items_ok [OF assms] by blast
  then have closed: "\<forall>p \<in> set ?ps. closed_text p" by (simp add: item_ok_def)
  have trim: "TrimSpace ?text = ?text" by (rule trim_ends) (use tail(1) in \<open>auto simp: solid_def IsSpace_def\<close>)
  have content: "subslice ?text 1 (Suc (length (join_items ?ps))) = join_items ?ps" by (simp add: subslice_def)
  have "\<exists>parts. splitSignatureParameters (join_items ?ps) = Some parts \<and>
      read_parameters parts [] False = read_parameters ?ps [] False"
  proof (cases "?ps = []")
    case True
    then show ?thesis by (simp add: splitSignatureParameters_def trim_nothing)
  next
    case False
    have "TrimSpace (join_items ?ps) \<noteq> []" using trim_ends(1) join_ends [OF False ok] by auto
    then have "splitSignatureParameters (join_items ?ps) = Some (hd ?ps # map (Cons (CHR '' '')) (tl ?ps))"
      using split_items(1) [OF False closed] by (simp add: splitSignatureParameters_def)
    moreover have "list_all2 (\<lambda>raw label. TrimSpace raw = label \<and> TrimSpace label = label)
        (hd ?ps # map (Cons (CHR '' '')) (tl ?ps)) ?ps"
      using False ok item_trim by (cases ?ps) (auto simp: list_all2_map1 list_all2_same)
    ultimately show ?thesis using read_trimmed by blast
  qed
  then show ?thesis
    using matching_items [OF closed, of tail] trim content tail(2)
    by (auto simp: parseSignature_def print_signature_def Let_def trim_nothing simp flip: tail_def)
qed

section \<open>The parameters of a printed signature\<close>

definition plain :: "bool \<Rightarrow> pyparam \<Rightarrow> signatureParameter" where
  "plain keywordOnly p = \<lparr>sigp_label = par_text p, sigp_name = par_name p, sigp_positional = (\<not> keywordOnly),
     sigp_keyword = True, sigp_variadic = False, sigp_keywords = False\<rparr>"

definition variadic :: "pyparam \<Rightarrow> signatureParameter" where
  "variadic p = \<lparr>sigp_label = ''*'' @ par_text p, sigp_name = par_name p, sigp_positional = True,
     sigp_keyword = False, sigp_variadic = True, sigp_keywords = False\<rparr>"

definition other_keywords :: "pyparam \<Rightarrow> signatureParameter" where
  "other_keywords p = \<lparr>sigp_label = ''**'' @ par_text p, sigp_name = par_name p, sigp_positional = False,
     sigp_keyword = True, sigp_variadic = False, sigp_keywords = True\<rparr>"

definition read_signature :: "pysignature \<Rightarrow> signatureParameter list" where
  "read_signature s = map (\<lambda>p. (plain False p)\<lparr>sigp_keyword := False\<rparr>) (ps_posonly s) @ map (plain False) (ps_either s) @
     map variadic (opt_list (ps_var s)) @ map (plain True) (ps_kwonly s) @ map other_keywords (opt_list (ps_kwargs s))"

lemma parameter_name: "pyparam_ok p \<Longrightarrow> signatureParameterName (par_text p) = par_name p"
proof -
  assume ok: "pyparam_ok p"
  then have n: "par_name p \<noteq> []" "list_all isIdentifierByte (par_name p)" by (auto simp: pyparam_ok_def)
  have "takeWhile (\<lambda>c. c \<notin> {CHR '':'', CHR ''='', CHR '' '', CHR 0x09}) (par_rest p) = []"
    using ok by (cases "par_rest p") (auto simp: pyparam_ok_def)
  then have "takeWhile (\<lambda>c. c \<notin> {CHR '':'', CHR ''='', CHR '' '', CHR 0x09}) (par_text p) = par_name p"
    using n(2) identifier_plain(4) unfolding par_text_def by (subst takeWhile_append2) (auto simp: list_all_iff)
  moreover have "TrimSpace (par_name p) = par_name p"
    using n by (intro trim_ends) (auto simp: list_all_iff intro!: identifier_solid)
  ultimately show ?thesis by (simp add: signatureParameterName_def)
qed

lemma par_text_head:
  assumes "pyparam_ok p"
  shows "par_text p \<noteq> []" and "par_name p \<noteq> []" and "hd (par_text p) \<noteq> CHR ''*''" and "hd (par_text p) \<noteq> CHR ''/''"
  using assms identifier_plain(5,6) by (auto simp: pyparam_ok_def par_text_def list_all_iff)

lemma new_parameters:
  assumes "pyparam_ok p"
  shows "new_parameter k (par_text p) = plain k p"
    and "new_parameter k (''*'' @ par_text p) = variadic p"
    and "new_parameter k (''**'' @ par_text p) = other_keywords p"
  using parameter_name [OF assms] par_text_head [OF assms]
  by (cases "par_text p"; auto simp: new_parameter_def plain_def variadic_def other_keywords_def HasPrefix_def TrimPrefix_def)+

lemma read_plain:
  "list_all pyparam_ok ps \<Longrightarrow>
   read_parameters (map par_text ps @ rest) ds k = read_parameters rest (ds @ map (plain k) ps) k"
proof (induction ps arbitrary: ds)
  case (Cons p ps)
  then have ok: "pyparam_ok p" by simp
  have "TrimSpace (par_text p) = par_text p" using item_trim(1) par_text_item [OF ok] .
  moreover have "sigp_name (plain k p) \<noteq> []" using par_text_head(2) [OF ok] by (simp add: plain_def)
  moreover have "\<not> HasPrefix (par_text p) ''*''" "par_text p \<noteq> ''/''" "par_text p \<noteq> ''*''"
    using par_text_head [OF ok] by (cases "par_text p"; auto simp: HasPrefix_def)+
  ultimately show ?case
    using Cons new_parameters(1) [OF ok, of k] par_text_head(1) [OF ok] by (simp add: Let_def)
qed simp

lemma read_starred:
  assumes "pyparam_ok p"
  shows "read_parameters ((''*'' @ par_text p) # rest) ds k = read_parameters rest (ds @ [variadic p]) True"
    and "read_parameters [''**'' @ par_text p] ds k = Some (ds @ [other_keywords p])"
  using item_trim(1) [OF star_item(1) [OF par_text_item [OF assms]]] item_trim(1) [OF star_item(2) [OF par_text_item [OF assms]]]
    new_parameters [OF assms] par_text_head [OF assms]
  by (simp_all add: Let_def variadic_def other_keywords_def HasPrefix_def)

lemma read_separators:
  "read_parameters (''/'' # rest) ds k = read_parameters rest (map (\<lambda>p. p\<lparr>sigp_keyword := False\<rparr>) ds) k"
  "read_parameters (''*'' # rest) ds k = read_parameters rest ds True"
  using item_trim(1) [OF star_item(3)] item_trim(1) [OF star_item(4)] by (simp_all add: Let_def)

lemma read_printed:
  assumes "pysignature_ok s"
  shows "read_parameters (print_items s) [] False = Some (read_signature s)"
proof -
  have ok: "list_all pyparam_ok (ps_posonly s)" "list_all pyparam_ok (ps_either s)" "list_all pyparam_ok (opt_list (ps_var s))"
    "list_all pyparam_ok (ps_kwonly s)" "list_all pyparam_ok (opt_list (ps_kwargs s))"
    using assms by (auto simp: pysignature_ok_def)
  define pos where "pos = map (\<lambda>p. (plain False p)\<lparr>sigp_keyword := False\<rparr>) (ps_posonly s)"
  define star where "star = (case ps_var s of Some v \<Rightarrow> [''*'' @ par_text v] | None \<Rightarrow> if ps_kwonly s = [] then [] else [''*''])"
  define kw where "kw = map (\<lambda>v. ''**'' @ par_text v) (opt_list (ps_kwargs s))"
  have first: "read_parameters (map par_text (ps_posonly s) @ (if ps_posonly s = [] then [] else [''/'']) @ rest) [] False =
      read_parameters rest pos False" for rest
    using read_plain [OF ok(1)] read_separators(1) by (auto simp: pos_def o_def simp del: read_parameters.simps)
  have last: "read_parameters kw ds k = Some (ds @ map other_keywords (opt_list (ps_kwargs s)))" for ds k
    using ok(5) read_starred(2) by (cases "ps_kwargs s") (auto simp: kw_def opt_list_def simp del: read_parameters.simps(2))
  have middle: "read_parameters (star @ map par_text (ps_kwonly s) @ kw) ds False =
      Some (ds @ map variadic (opt_list (ps_var s)) @ map (plain True) (ps_kwonly s) @ map other_keywords (opt_list (ps_kwargs s)))" for ds
    using ok(3) read_plain [OF ok(4), of kw _ True] read_starred(1) read_separators(2) last
    by (auto simp: star_def opt_list_def simp del: read_parameters.simps(2) split: option.splits)
  have "print_items s = map par_text (ps_posonly s) @ (if ps_posonly s = [] then [] else [''/'']) @
      map par_text (ps_either s) @ star @ map par_text (ps_kwonly s) @ kw"
    by (simp add: print_items_def star_def kw_def)
  then show ?thesis
    by (simp only: first read_plain [OF ok(2)] middle) (simp add: read_signature_def pos_def)
qed

section \<open>The active parameter\<close>

lemma positional_plain:
  assumes "\<forall>p \<in> set qs. sigp_positional p \<and> \<not> sigp_variadic p" and "p \<le> i"
  shows "active_positional i p index (qs @ rest) =
    (if i < p + length qs then Some (index + (i - p)) else active_positional i (p + length qs) (index + length qs) rest)"
  using assms
proof (induction qs arbitrary: p index)
  case (Cons q qs)
  show ?case
  proof (cases "p = i")
    case False
    then show ?thesis using Cons.IH [of "Suc p" "Suc index"] Cons.prems by (auto simp: Suc_diff_le)
  qed (use Cons.prems in simp)
qed simp

lemma positional_none:
  "\<forall>p \<in> set qs. \<not> sigp_positional p \<Longrightarrow> active_positional i p index qs = None"
  by (induction qs arbitrary: index) auto

lemma keyword_skip:
  "\<forall>p \<in> set qs. \<not> sigp_keyword p \<and> \<not> sigp_keywords p \<Longrightarrow>
   active_keyword k index fb (qs @ rest) = active_keyword k (index + length qs) fb rest"
  by (induction qs arbitrary: index) auto

lemma keyword_plain:
  "active_keyword k index fb (map (plain b) ps @ rest) =
   (case index_named k ps of Some i \<Rightarrow> Some (index + i) | None \<Rightarrow> active_keyword k (index + length ps) fb rest)"
  by (induction ps arbitrary: index) (auto simp: plain_def split: option.splits)

lemma active_signature:
  "active_positional i 0 0 (read_signature s) = bound_positional s i"
  "active_keyword k 0 None (read_signature s) = bound_keyword s k"
proof -
  let ?pos = "map (\<lambda>p. (plain False p)\<lparr>sigp_keyword := False\<rparr>) (ps_posonly s)"
  let ?tail = "map (plain True) (ps_kwonly s) @ map other_keywords (opt_list (ps_kwargs s))"
  have none: "active_positional i p index ?tail = None" for p index
    by (rule positional_none) (auto simp: plain_def other_keywords_def)
  have "active_positional i 0 0 ((?pos @ map (plain False) (ps_either s)) @ map variadic (opt_list (ps_var s)) @ ?tail) = bound_positional s i"
    using none by (subst positional_plain) (auto simp: plain_def variadic_def bound_positional_def opt_list_def Let_def split: option.splits)
  then show "active_positional i 0 0 (read_signature s) = bound_positional s i" by (simp add: read_signature_def)
  have skip: "active_keyword k 0 None (?pos @ rest) = active_keyword k (length (ps_posonly s)) None rest" for rest
    by (subst keyword_skip) (auto simp: plain_def)
  have var: "active_keyword k index None (map variadic (opt_list (ps_var s)) @ rest) =
      active_keyword k (index + length (opt_list (ps_var s))) None rest" for index rest
    by (subst keyword_skip) (auto simp: variadic_def)
  have last: "active_keyword k index None (map other_keywords (opt_list (ps_kwargs s))) =
      (if ps_kwargs s = None then None else Some index)" for index
    by (cases "ps_kwargs s") (auto simp: opt_list_def other_keywords_def)
  show "active_keyword k 0 None (read_signature s) = bound_keyword s k"
    unfolding read_signature_def skip keyword_plain var last bound_keyword_def Let_def by (simp add: add.assoc cong: option.case_cong)
qed

end
