(* ===== verification/Lsp_Properties.thy ===== *)
theory Lsp_Properties
  imports Lsp_Signature_Facts
begin

text \<open>The properties of the language server's own parts.\<close>

section \<open>Signature help\<close>

lemma signature_labels:
  assumes "pysignature_ok s"
  shows "map sigp_label (read_signature s) = filter (\<lambda>item. item \<notin> {''/'', ''*''}) (print_items s)"
proof -
  have tagged: "par_text p \<notin> {''/'', ''*''} \<and> ''*'' @ par_text p \<notin> {''/'', ''*''} \<and> ''**'' @ par_text p \<notin> {''/'', ''*''}"
    if "pyparam_ok p" for p
    using par_text_head [OF that] by (cases "par_text p") auto
  have kept: "filter (\<lambda>item. item \<notin> {''/'', ''*''}) (map par_text ps) = map par_text ps" if "list_all pyparam_ok ps" for ps
    using that tagged by (induction ps) auto
  show ?thesis
    using assms kept tagged
    by (auto simp: pysignature_ok_def read_signature_def print_items_def plain_def variadic_def other_keywords_def
        opt_list_def o_def split: option.splits)
qed

text \<open>C40.
  Reading back a signature that \<open>inspect.signature\<close> printed, with the annotation of what it returns if it has one,
  finds its parameters, each under the
  label it was printed with and the separators left out, and the parameter shown as active is the one
  that Python binds the argument to: a positional argument to the parameter at its place or, past the
  last one, to the variadic parameter; a keyword argument to the first parameter of that name that
  keywords reach, positional-only ones not, and else to the one for other keywords.
\<close>

theorem signature_bindings:
  assumes "pysignature_ok s"
  shows "\<exists>parsed. parseSignature (print_signature s) = Some parsed \<and>
    map sigp_label (sig_parameters parsed) = filter (\<lambda>item. item \<notin> {''/'', ''*''}) (print_items s) \<and>
    (\<forall>i. activeParameter parsed i [] = bound_positional s i) \<and>
    (\<forall>n c k. activeParameter parsed n (c # k) = bound_keyword s (c # k))"
  using signature_parse_printed [OF assms] read_printed [OF assms] signature_labels [OF assms] active_signature
  by (simp add: activeParameter_def)

definition sample_signature :: pysignature where
  "sample_signature = \<lparr>ps_posonly = [\<lparr>par_name = ''self'', par_rest = []\<rparr>],
     ps_either = [\<lparr>par_name = ''a'', par_rest = '': list[int, str] = (1, 2)''\<rparr>],
     ps_var = None, ps_kwonly = [\<lparr>par_name = ''key'', par_rest = ''=None''\<rparr>],
     ps_kwargs = Some \<lparr>par_name = ''rest'', par_rest = []\<rparr>, ps_return = Some ''dict[str, int]''\<rparr>"

lemma signature_bindings_witness:
  "\<exists>parsed. parseSignature (print_signature sample_signature) = Some parsed \<and>
    map sigp_label (sig_parameters parsed) = filter (\<lambda>item. item \<notin> {''/'', ''*''}) (print_items sample_signature) \<and>
    (\<forall>i. activeParameter parsed i [] = bound_positional sample_signature i) \<and>
    (\<forall>n c k. activeParameter parsed n (c # k) = bound_keyword sample_signature (c # k))"
  by (rule signature_bindings)
    (simp add: sample_signature_def pysignature_ok_def pyparam_ok_def closed_text_def solid_def opt_list_def isIdentifierByte_def
      IsSpace_def delim_code is_quote_def delimit_def is_open_def is_close_def matchingDelimiter_def del: delim_run.simps(2))

lemma sample_signature_printed:
  "print_signature sample_signature = ''(self, /, a: list[int, str] = (1, 2), *, key=None, **rest) -> dict[str, int]''"
  "bound_keyword sample_signature ''key'' = Some 2" "bound_keyword sample_signature ''self'' = Some 3"
  "bound_positional sample_signature 2 = None"
  by code_simp+

end
