(* ===== verification/Lsp_Server.thy ===== *)
theory Lsp_Server
  imports Analysis_Diagnose Document_Store Schema_Cache Go_Filepath
begin

text \<open>
  The state of the language server (\<open>Lifecycle\<close> of \<open>internal/lsp/lifecycle.go\<close> and \<open>Features\<close> of
  \<open>internal/lsp/features.go\<close>) and what each goroutine does to it, one atomic step at a time: the
  goroutine of the requests, which \<open>Handle\<close> serialises, and those the server starts. A goroutine is
  the list of what it has left to do.

  The library that reads requests is outside: a request comes with what the library makes of it, a
  callback and its parameters, or a refusal. Outside are also \<open>url.Parse\<close>, the links of the file
  system, the parser, and what the worker's \<open>Stop\<close> returns; the calls to the worker and the
  notifications sent are recorded in order. Logging is left out.
\<close>

section \<open>Data\<close>

datatype lspmethod = MInitialize | MInitialized | MShutdown | MExit | MCancelRequest | MSetTrace
  | MDidOpen | MDidChange | MDidClose | MDidSave | MQuery | MOther string

datatype lifecycleState = stateNew | stateInitialized | stateRunning | stateShutdown

record Diagnostic =
  dg_Range :: DocRange
  dg_Severity :: nat
  dg_Code :: string
  dg_Source :: string
  dg_Message :: string

record PublishDiagnosticsParams =
  pd_URI :: string
  pd_Version :: "32 word option"
  pd_Diagnostics :: "Diagnostic list"

datatype outgoing = PublishDiagnostics PublishDiagnosticsParams | ShowMessage

text \<open>The function that \<open>Features\<close> sends with: \<open>Lifecycle.notify\<close>, or that of a request's context.\<close>

datatype notifier = ViaLifecycle | OfContext

datatype workercall = WorkerStart | WorkerDidSave string | WorkerStop

record parsedURL =
  url_Scheme :: string
  url_Host :: string
  url_Path :: string

record 'tree surroundings =
  su_grammar :: "'tree grammar"
  su_quote :: "string \<Rightarrow> string"
  su_parse :: "string \<Rightarrow> parsedURL option"
  su_symlinks :: "string \<Rightarrow> string option"

datatype work =
    PublishURI string
  | LoadCache DocSnapshot
  | PublishSnapshot DocSnapshot graph_ptr "64 word"
  | ClearDiagnostics string
  | Decide
  | Send
  | RevalidateAll "64 word"
  | RevalidateDocuments graph_ptr "64 word"
  | SaveToWorker string
  | CloseFeatures
  | CloseDocuments
  | NotifyFailure
  | ShowFailure

text \<open>
  \<open>sv_lock\<close> is \<open>diagnosticMu\<close>: what its holder is about to send. The requests' goroutine is
  \<open>sv_handler\<close>, the others are \<open>sv_background\<close>. A worker is what its \<open>Stop\<close> returns.
\<close>

record 'tree server =
  ft_documents :: "'tree store"
  ft_cache :: "Graph Cache"
  ft_notify :: "notifier option"
  ft_closed :: bool
  lc_features :: bool
  lc_state :: lifecycleState
  lc_exited :: bool
  lc_exitCode :: int
  lc_notifier :: bool
  lc_worker :: "goerror option option"
  lc_workerStopped :: bool
  lc_workerStopErr :: "goerror option"
  lc_configurationError :: "goerror option"
  sv_cancelled :: bool
  sv_lock :: "outgoing option"
  sv_handler :: "work list"
  sv_background :: "work list list"
  sv_worker_calls :: "workercall list"
  sv_sent :: "outgoing list"

definition NewLifecycle :: "'tree store \<Rightarrow> Graph Cache \<Rightarrow> bool \<Rightarrow> goerror option option \<Rightarrow> 'tree server" where
  "NewLifecycle documents cache features worker =
     \<lparr>ft_documents = documents, ft_cache = cache, ft_notify = None, ft_closed = False, lc_features = features,
      lc_state = stateNew, lc_exited = False, lc_exitCode = 0, lc_notifier = False, lc_worker = worker,
      lc_workerStopped = False, lc_workerStopErr = None, lc_configurationError = None, sv_cancelled = False,
      sv_lock = None, sv_handler = [], sv_background = [], sv_worker_calls = [], sv_sent = []\<rparr>"

section \<open>Notifications\<close>

text \<open>What \<open>Lifecycle.notify\<close> decides before it calls the client's function.\<close>

definition lifecycle_allows :: "'tree server \<Rightarrow> bool" where
  "lifecycle_allows s \<longleftrightarrow> \<not> lc_exited s \<and> lc_state s \<noteq> stateShutdown \<and> lc_notifier s"

text \<open>
  What \<open>sendNotification\<close> decides. The holder of \<open>diagnosticMu\<close> calls it, and \<open>Close\<close> needs that
  mutex to set \<open>closed\<close>, so the reads of it and of the lifecycle are as one.
\<close>

definition notification_allowed :: "'tree server \<Rightarrow> bool" where
  "notification_allowed s \<longleftrightarrow> \<not> ft_closed s \<and> (case ft_notify s of
     None \<Rightarrow> False | Some OfContext \<Rightarrow> True | Some ViaLifecycle \<Rightarrow> lifecycle_allows s)"

definition SetNotifier :: "notifier option \<Rightarrow> 'tree server \<Rightarrow> 'tree server" where
  "SetNotifier notify s = (if \<not> lc_features s then s else if ft_closed s then s else s\<lparr>ft_notify := notify\<rparr>)"

definition setNotifier :: "bool \<Rightarrow> 'tree server \<Rightarrow> 'tree server" where
  "setNotifier present s = (if \<not> lc_features s \<or> \<not> present then s
     else if \<not> ft_closed s \<and> ft_notify s = None then s\<lparr>ft_notify := Some OfContext\<rparr> else s)"

section \<open>Diagnostics\<close>

definition protocolRange :: "string \<Rightarrow> ByteRange \<Rightarrow> DocRange option" where
  "protocolRange source byteRange = (case PositionAt source (int (br_Start byteRange)) of
     None \<Rightarrow> None
   | Some start \<Rightarrow> (case PositionAt source (int (br_End byteRange)) of
       None \<Rightarrow> None
     | Some e \<Rightarrow> Some \<lparr>rng_Start = start, rng_End = e\<rparr>))"

definition diagnosticSource :: string where "diagnosticSource = ''pogo''"
definition DiagnosticSeverityError :: nat where "DiagnosticSeverityError = 1"

definition issue_diagnostic :: "string \<Rightarrow> ORMIssue \<Rightarrow> Diagnostic option" where
  "issue_diagnostic source issue = map_option (\<lambda>rg. \<lparr>dg_Range = rg, dg_Severity = DiagnosticSeverityError,
     dg_Code = issue_code (oi_Code issue), dg_Source = diagnosticSource, dg_Message = oi_Message issue\<rparr>)
     (protocolRange source (oi_Range issue))"

text \<open>The parameters of \<open>publishSnapshot\<close>, with the version as a \<open>uint32\<close> when it is not negative.\<close>

definition publish_params :: "'tree surroundings \<Rightarrow> DocSnapshot \<Rightarrow> graph_ptr \<Rightarrow> PublishDiagnosticsParams" where
  "publish_params su snapshot graph =
     \<lparr>pd_URI = ds_URI snapshot,
      pd_Version = (if 0 \<le> ds_Version snapshot then Some (word_of_int (ds_Version snapshot)) else None),
      pd_Diagnostics = List.map_filter (issue_diagnostic (ds_Source snapshot))
        (DiagnoseORM (g_wide (su_grammar su)) (su_quote su) snapshot graph)\<rparr>"

definition clear_params :: "string \<Rightarrow> PublishDiagnosticsParams" where
  "clear_params uri = \<lparr>pd_URI = uri, pd_Version = None, pd_Diagnostics = []\<rparr>"

text \<open>The check of \<open>publishSnapshot\<close> under the mutex.\<close>

definition still_current :: "DocSnapshot \<Rightarrow> 64 word \<Rightarrow> 'tree server \<Rightarrow> bool" where
  "still_current snapshot generation s \<longleftrightarrow> (case SnapshotDocument (ft_documents s) (ds_URI snapshot) of
     None \<Rightarrow> False
   | Some current \<Rightarrow> ds_Version current = ds_Version snapshot \<and> ds_Source current = ds_Source snapshot \<and>
       snd (cache_Load (ft_cache s)) = generation)"

text \<open>
  Taking the mutex to send this. The version and the source are read before the generation, which
  only grows, so the check is as one read; the decision to send comes after it, and the sending after that.
\<close>

definition hold :: "PublishDiagnosticsParams \<Rightarrow> 'tree server \<Rightarrow> work list \<times> 'tree server" where
  "hold params s = ([Decide], s\<lparr>sv_lock := Some (PublishDiagnostics params)\<rparr>)"

section \<open>Local files\<close>

definition localFilePath :: "(string \<Rightarrow> parsedURL option) \<Rightarrow> string \<Rightarrow> string option" where
  "localFilePath url uri = (case url uri of
     None \<Rightarrow> None
   | Some parsed \<Rightarrow>
       if url_Scheme parsed \<noteq> ''file'' then None
       else if url_Host parsed \<noteq> [] \<and> url_Host parsed \<noteq> ''localhost'' then None
       else if url_Path parsed = [] then None
       else Some (Clean (url_Path parsed)))"

section \<open>Steps\<close>

text \<open>
  The step of a goroutine that has this to do next: what it then has to do first, and the state.
  \<open>None\<close> when it waits for the mutex.
\<close>

fun perform :: "'tree surroundings \<Rightarrow> work \<Rightarrow> 'tree server \<Rightarrow> (work list \<times> 'tree server) option" where
  "perform su (PublishURI uri) s = Some (case SnapshotDocument (ft_documents s) uri of
     None \<Rightarrow> ([], s) | Some snapshot \<Rightarrow> ([LoadCache snapshot], s))"
| "perform su (LoadCache snapshot) s = Some (let (graph, generation) = cache_Load (ft_cache s) in
     ([PublishSnapshot snapshot graph generation], s))"
| "perform su (PublishSnapshot snapshot graph generation) s = (if sv_lock s \<noteq> None then None
     else Some (if still_current snapshot generation s then hold (publish_params su snapshot graph) s else ([], s)))"
| "perform su (ClearDiagnostics uri) s = (if sv_lock s \<noteq> None then None else Some (hold (clear_params uri) s))"
| "perform su Decide s = Some (if notification_allowed s then ([Send], s) else ([], s\<lparr>sv_lock := None\<rparr>))"
| "perform su Send s = Some ([], case sv_lock s of
     None \<Rightarrow> s | Some params \<Rightarrow> s\<lparr>sv_sent := sv_sent s @ [params], sv_lock := None\<rparr>)"
| "perform su (RevalidateAll generation) s = Some (let (graph, currentGeneration) = cache_Load (ft_cache s) in
     if graph = None \<or> currentGeneration \<noteq> generation then ([], s) else ([RevalidateDocuments graph generation], s))"
| "perform su (RevalidateDocuments graph generation) s =
     Some (map (\<lambda>snapshot. PublishSnapshot snapshot graph generation) (Snapshots (ft_documents s)), s)"
| "perform su (SaveToWorker uri) s = Some ([], if lc_worker s = None then s
     else case localFilePath (su_parse su) uri of
       None \<Rightarrow> s | Some path \<Rightarrow> s\<lparr>sv_worker_calls := sv_worker_calls s @ [WorkerDidSave path]\<rparr>)"
| "perform su CloseFeatures s = (if sv_lock s \<noteq> None then None
     else Some ([CloseDocuments], s\<lparr>ft_closed := True, ft_notify := None\<rparr>))"
| "perform su CloseDocuments s = Some ([], s\<lparr>ft_documents := CloseAll (ft_documents s)\<rparr>)"
| "perform su NotifyFailure s = Some (if lifecycle_allows s then [ShowFailure] else [], s)"
| "perform su ShowFailure s = Some ([], s\<lparr>sv_sent := sv_sent s @ [ShowMessage]\<rparr>)"

end
