(* ===== verification/Lsp_Lifecycle.thy ===== *)
theory Lsp_Lifecycle
  imports Lsp_Server
begin

text \<open>
  The requests of a session (\<open>Lifecycle.Handle\<close> of \<open>internal/lsp/lifecycle.go\<close> and the callbacks of
  \<open>internal/lsp/features.go\<close> that change state), the reports of the worker, and the runs of the server:
  the goroutines in any order, a request only when the one before it is done.
\<close>

section \<open>Requests\<close>

datatype rawChange = ChangeEvent "DocRange option" string | ChangeWhole string | ChangeOther string

text \<open>
  What the library makes of a request: what it returns without a callback (valid method, valid
  parameters, error), or the callback with its parameters. \<open>initialize\<close> comes with what the factory
  returns, when there is one: an error, or a worker. Queries change nothing.
\<close>

datatype call =
    NoCall bool bool "goerror option"
  | CallInitialize "(goerror + goerror option) option"
  | CallInitialized
  | CallShutdown
  | CallNothing
  | CallDidOpen string int string
  | CallDidChange string int "rawChange list"
  | CallDidClose string
  | CallDidSave string "string option"
  | CallQuery "goerror option"

record lspRequest =
  rq_method :: lspmethod
  rq_notify :: bool
  rq_call :: call

record response =
  rs_validMethod :: bool
  rs_validParams :: bool
  rs_error :: "goerror option"

definition refuse :: "string \<Rightarrow> response" where
  "refuse message = \<lparr>rs_validMethod = True, rs_validParams = True, rs_error = Some (errorf message [])\<rparr>"

section \<open>The worker\<close>

definition stopWorker :: "'tree server \<Rightarrow> goerror option \<times> 'tree server" where
  "stopWorker s = (case lc_worker s of
     None \<Rightarrow> (None, s)
   | Some err \<Rightarrow>
       if lc_workerStopped s then (lc_workerStopErr s, s)
       else (err, s\<lparr>lc_workerStopped := True, lc_workerStopErr := err, sv_worker_calls := sv_worker_calls s @ [WorkerStop]\<rparr>))"

definition StopWorker :: "'tree server \<Rightarrow> 'tree server" where
  "StopWorker s = snd (stopWorker s)"

text \<open>The function that \<open>initialized\<close> gives to the worker.\<close>

definition worker_report :: "64 word \<Rightarrow> goerror option \<Rightarrow> 'tree server \<Rightarrow> 'tree server" where
  "worker_report generation err s =
     (if err \<noteq> None then s\<lparr>sv_background := sv_background s @ [[NotifyFailure]]\<rparr>
      else if 0 < generation \<and> lc_features s then s\<lparr>sv_background := sv_background s @ [[RevalidateAll generation]]\<rparr>
      else s)"

section \<open>Callbacks\<close>

definition initialize :: "(goerror + goerror option) option \<Rightarrow> 'tree server \<Rightarrow> 'tree server" where
  "initialize factory s = (if lc_worker s \<noteq> None then s
     else case factory of
       None \<Rightarrow> s
     | Some (Inl err) \<Rightarrow> s\<lparr>lc_configurationError := Some err\<rparr>
     | Some (Inr worker) \<Rightarrow> s\<lparr>lc_worker := Some worker\<rparr>)"

definition initialized :: "bool \<Rightarrow> 'tree server \<Rightarrow> 'tree server" where
  "initialized notify s = (let s1 = SetNotifier (Some ViaLifecycle) (s\<lparr>lc_notifier := notify\<rparr>) in
     if lc_configurationError s1 \<noteq> None then s1\<lparr>sv_handler := [NotifyFailure]\<rparr>
     else if lc_worker s1 \<noteq> None then s1\<lparr>sv_worker_calls := sv_worker_calls s1 @ [WorkerStart]\<rparr>
     else s1)"

definition lsp_shutdown :: "'tree server \<Rightarrow> goerror option \<times> 'tree server" where
  "lsp_shutdown s = (let (stopErr, s1) = stopWorker (s\<lparr>lc_state := stateShutdown, lc_notifier := False\<rparr>) in
     (stopErr, if lc_features s1 then s1\<lparr>sv_handler := [CloseFeatures]\<rparr> else s1))"

definition didOpen :: "'tree surroundings \<Rightarrow> bool \<Rightarrow> string \<Rightarrow> int \<Rightarrow> string \<Rightarrow> 'tree server \<Rightarrow> goerror option \<times> 'tree server" where
  "didOpen su notify uri version content s = (let s1 = setNotifier notify s;
      filePath = (case localFilePath (su_parse su) uri of
        None \<Rightarrow> [] | Some path \<Rightarrow> (case su_symlinks su path of Some resolved \<Rightarrow> resolved | None \<Rightarrow> path));
      (err, documents) = OpenFile (su_grammar su) uri filePath version content (ft_documents s1);
      s2 = s1\<lparr>ft_documents := documents\<rparr> in
    (err, if err \<noteq> None then s2 else s2\<lparr>sv_handler := [PublishURI uri]\<rparr>))"

fun decode_changes :: "rawChange list \<Rightarrow> goerror + Change list" where
  "decode_changes [] = Inr []"
| "decode_changes (ChangeEvent None content # raws) = Inl (errorf ''incremental content change is missing its range'' [])"
| "decode_changes (ChangeEvent (Some rg) content # raws) = (case decode_changes raws of
     Inl e \<Rightarrow> Inl e | Inr changes \<Rightarrow> Inr (\<lparr>ch_Range = Some rg, ch_Text = content\<rparr> # changes))"
| "decode_changes (ChangeWhole content # raws) = (case decode_changes raws of
     Inl e \<Rightarrow> Inl e | Inr changes \<Rightarrow> Inr (\<lparr>ch_Range = None, ch_Text = content\<rparr> # changes))"
| "decode_changes (ChangeOther type # raws) = Inl (errorf ''unsupported content change type %T'' [AStr type])"

definition didChange :: "'tree surroundings \<Rightarrow> bool \<Rightarrow> string \<Rightarrow> int \<Rightarrow> rawChange list \<Rightarrow> 'tree server \<Rightarrow> goerror option \<times> 'tree server" where
  "didChange su notify uri version raws s = (case decode_changes raws of
     Inl e \<Rightarrow> (Some e, s)
   | Inr changes \<Rightarrow>
       let s1 = setNotifier notify s;
         (err, documents) = ChangeDocument (su_grammar su) uri version changes (ft_documents s1);
         s2 = s1\<lparr>ft_documents := documents\<rparr> in
       (err, if err \<noteq> None then s2 else s2\<lparr>sv_handler := [PublishURI uri]\<rparr>))"

definition didClose :: "bool \<Rightarrow> string \<Rightarrow> 'tree server \<Rightarrow> 'tree server" where
  "didClose notify uri s = (let s1 = setNotifier notify s in
     s1\<lparr>ft_documents := CloseDocument uri (ft_documents s1), sv_handler := [ClearDiagnostics uri]\<rparr>)"

definition didSave :: "'tree surroundings \<Rightarrow> bool \<Rightarrow> string \<Rightarrow> string option \<Rightarrow> 'tree server \<Rightarrow> goerror option \<times> 'tree server" where
  "didSave su notify uri content s = (if \<not> lc_features s then (None, s)
     else let s1 = setNotifier notify s;
       (err, documents) = Save (su_grammar su) uri content (ft_documents s1);
       s2 = s1\<lparr>ft_documents := documents\<rparr> in
     (err, if err \<noteq> None then s2 else s2\<lparr>sv_handler := [PublishURI uri, SaveToWorker uri]\<rparr>))"

text \<open>What the library returns of a request, and the state; a callback it calls is valid in both respects.\<close>

definition called :: "goerror option \<times> 'tree server \<Rightarrow> response \<times> 'tree server" where
  "called r = (\<lparr>rs_validMethod = True, rs_validParams = True, rs_error = fst r\<rparr>, snd r)"

fun dispatch :: "'tree surroundings \<Rightarrow> bool \<Rightarrow> call \<Rightarrow> 'tree server \<Rightarrow> response \<times> 'tree server" where
  "dispatch su notify (NoCall method params err) s = (\<lparr>rs_validMethod = method, rs_validParams = params, rs_error = err\<rparr>, s)"
| "dispatch su notify (CallInitialize factory) s = called (None, initialize factory s)"
| "dispatch su notify CallInitialized s = called (None, initialized notify s)"
| "dispatch su notify CallShutdown s = called (lsp_shutdown s)"
| "dispatch su notify CallNothing s = called (None, s)"
| "dispatch su notify (CallDidOpen uri version content) s = called (didOpen su notify uri version content s)"
| "dispatch su notify (CallDidChange uri version raws) s = called (didChange su notify uri version raws s)"
| "dispatch su notify (CallDidClose uri) s = called (None, didClose notify uri s)"
| "dispatch su notify (CallDidSave uri content) s = called (didSave su notify uri content s)"
| "dispatch su notify (CallQuery err) s = called (err, s)"

section \<open>Handle\<close>

definition handle_exit :: "'tree server \<Rightarrow> 'tree server" where
  "handle_exit s = (let s1 = s\<lparr>lc_exited := True, lc_exitCode := (if lc_state s = stateShutdown then 0 else 1)\<rparr> in
     (snd (stopWorker s1))\<lparr>sv_cancelled := True\<rparr>)"

text \<open>The refusals by state.\<close>

definition state_refuses :: "lifecycleState \<Rightarrow> lspmethod \<Rightarrow> string option" where
  "state_refuses st method = (case st of
     stateNew \<Rightarrow> if method \<noteq> MInitialize then Some ''server not initialized'' else None
   | stateInitialized \<Rightarrow>
       if method = MInitialize then Some ''initialize may only be sent once''
       else if method \<noteq> MInitialized \<and> method \<noteq> MCancelRequest \<and> method \<noteq> MSetTrace
       then Some ''initialized notification not received'' else None
   | stateRunning \<Rightarrow>
       if method = MInitialize then Some ''initialize may only be sent once''
       else if method = MInitialized then Some ''initialized may only be sent once'' else None
   | stateShutdown \<Rightarrow> Some ''server has shut down'')"

definition after_request :: "lspmethod \<Rightarrow> 'tree server \<Rightarrow> 'tree server" where
  "after_request method s = (case method of
     MInitialize \<Rightarrow> s\<lparr>lc_state := stateInitialized\<rparr>
   | MInitialized \<Rightarrow> s\<lparr>lc_state := stateRunning\<rparr>
   | MShutdown \<Rightarrow> s\<lparr>lc_state := stateShutdown\<rparr>
   | _ \<Rightarrow> s)"

definition Handle :: "'tree surroundings \<Rightarrow> lspRequest \<Rightarrow> 'tree server \<Rightarrow> response \<times> 'tree server" where
  "Handle su rq s =
     (if rq_method rq = MExit
      then (\<lparr>rs_validMethod = True, rs_validParams = True, rs_error = None\<rparr>, handle_exit s)
      else case state_refuses (lc_state s) (rq_method rq) of
        Some message \<Rightarrow> (refuse message, s)
      | None \<Rightarrow>
          let (r, s1) = dispatch su (rq_notify rq) (rq_call rq) s in
          if rs_error r \<noteq> None \<or> \<not> rs_validMethod r \<or> \<not> rs_validParams r then (r, s1)
          else (r, after_request (rq_method rq) s1))"

section \<open>Runs\<close>

text \<open>What the library promises: the callback it calls is that of the method.\<close>

fun call_of :: "lspmethod \<Rightarrow> call \<Rightarrow> bool" where
  "call_of method (NoCall valid params err) = (\<not> valid \<or> \<not> params \<or> err \<noteq> None)"
| "call_of method (CallInitialize factory) = (method = MInitialize)"
| "call_of method CallInitialized = (method = MInitialized)"
| "call_of method CallShutdown = (method = MShutdown)"
| "call_of method CallNothing = (method = MCancelRequest \<or> method = MSetTrace)"
| "call_of method (CallDidOpen uri version content) = (method = MDidOpen)"
| "call_of method (CallDidChange uri version raws) = (method = MDidChange)"
| "call_of method (CallDidClose uri) = (method = MDidClose)"
| "call_of method (CallDidSave uri content) = (method = MDidSave)"
| "call_of method (CallQuery err) = (method = MQuery)"

text \<open>Document callbacks are installed only with features.\<close>

definition dispatched :: "bool \<Rightarrow> lspRequest \<Rightarrow> bool" where
  "dispatched features rq \<longleftrightarrow> call_of (rq_method rq) (rq_call rq) \<and>
     (features \<or> rq_method rq \<notin> {MDidOpen, MDidChange, MDidClose, MDidSave, MQuery} \<or> (\<exists>v p e. rq_call rq = NoCall v p e))"

text \<open>A step of one of the goroutines.\<close>

inductive thread_step :: "'tree surroundings \<Rightarrow> 'tree server \<Rightarrow> 'tree server \<Rightarrow> bool" for su where
  handler_step: "sv_handler s = w # ws \<Longrightarrow> perform su w s = Some (ws', s') \<Longrightarrow>
    thread_step su s (s'\<lparr>sv_handler := ws' @ ws\<rparr>)"
| background_step: "i < length (sv_background s) \<Longrightarrow> sv_background s ! i = w # ws \<Longrightarrow> perform su w s = Some (ws', s') \<Longrightarrow>
    thread_step su s (s'\<lparr>sv_background := (sv_background s)[i := ws' @ ws]\<rparr>)"

text \<open>
  A step of the server: of a goroutine; a request, once the one before it is done; the worker
  publishing a graph, fewer than \<open>2 ^ 64\<close> times, or failing; the end of the connection.
\<close>

inductive server_step :: "'tree surroundings \<Rightarrow> 'tree server \<Rightarrow> 'tree server \<Rightarrow> bool" for su where
  goroutine: "thread_step su s s' \<Longrightarrow> server_step su s s'"
| request: "sv_handler s = [] \<Longrightarrow> dispatched (lc_features s) rq \<Longrightarrow> Handle su rq s = (r, s') \<Longrightarrow> server_step su s s'"
| graph_loaded: "WorkerStart \<in> set (sv_worker_calls s) \<Longrightarrow> cache_Replace (Some graph) (ft_cache s) = (cache, generation) \<Longrightarrow>
    generation \<noteq> 0 \<Longrightarrow> server_step su s (worker_report generation None (s\<lparr>ft_cache := cache\<rparr>))"
| worker_failed: "WorkerStart \<in> set (sv_worker_calls s) \<Longrightarrow> server_step su s (worker_report 0 (Some err) s)"
| connection_closed: "server_step su s (StopWorker s)"

inductive session :: "'tree surroundings \<Rightarrow> 'tree server \<Rightarrow> bool" for su where
  session_new: "session su (NewLifecycle NewStore newCache features worker)"
| session_step: "session su s \<Longrightarrow> server_step su s s' \<Longrightarrow> session su s'"

end
