(* ===== verification/Lsp_Session_Facts.thy ===== *)
theory Lsp_Session_Facts
  imports Lsp_Lifecycle Document_Sync
begin

text \<open>
  Facts of the server's runs: what a step of a goroutine leaves in the lists of work, who holds the
  mutex of the diagnostics, and that what was published last for a document is what its present text
  gives, or some goroutine is still to publish it.
\<close>

section \<open>Documents\<close>

lemma snapshot_cong: "st_documents s' = st_documents s \<Longrightarrow> SnapshotDocument s' = SnapshotDocument s"
  by (simp add: SnapshotDocument_def fun_eq_iff)

lemma snapshot_uri: "SnapshotDocument s u = Some snap \<Longrightarrow> ds_URI snap = u"
  by (auto simp: SnapshotDocument_def snapshot_of_def)

lemma OpenFile_elsewhere:
  assumes "OpenFile g uri filePath version content s = (e, s')" and "e \<noteq> None \<or> u \<noteq> uri"
  shows "SnapshotDocument s' u = SnapshotDocument s u"
proof -
  obtain q s1 where p: "open_parse g uri content s = (q, s1)" by (cases "open_parse g uri content s")
  note facts = open_parse_facts [OF p]
  show ?thesis
    using assms p facts snapshot_cong [of s1 s]
    by (cases q) (auto simp: OpenFile_def SnapshotDocument_def open_commit_def Let_def split: option.splits)
qed

lemma update_elsewhere: "u \<noteq> uri \<Longrightarrow> SnapshotDocument (update_document g uri current content version tree s) u = SnapshotDocument s u"
  by (simp add: SnapshotDocument_def update_document_def Let_def)

lemma ChangeDocument_elsewhere:
  assumes "ChangeDocument g uri version changes s = (e, s')" and "e \<noteq> None \<or> u \<noteq> uri"
  shows "SnapshotDocument s' u = SnapshotDocument s u"
  using assms(1)
proof (cases rule: ChangeDocument_cases)
  case (stored current l tree s3)
  then show ?thesis using assms(2) snapshot_cong [OF reparse_documents [OF stored(5)]] by (auto simp: update_elsewhere)
next
  case (unparsed current l tree x)
  then show ?thesis using snapshot_cong [OF reparse_documents [OF unparsed(2)]] by simp
qed simp

lemma Save_elsewhere:
  assumes "Save g uri content s = (e, s')" and "e \<noteq> None \<or> u \<noteq> uri"
  shows "SnapshotDocument s' u = SnapshotDocument s u"
proof (cases content)
  case None
  then show ?thesis using assms by (auto simp: Save_def)
next
  case (Some source)
  show ?thesis
  proof (cases "map_of (st_documents s) uri")
    case None
    then show ?thesis using assms Some by (auto simp: Save_def save_version_def)
  next
    case d: (Some d)
    obtain q s1 where p: "save_parse g source s = (q, s1)" by (cases "save_parse g source s")
    then have view: "SnapshotDocument s1 = SnapshotDocument s"
      by (intro snapshot_cong) (auto simp: save_parse_def split: option.splits prod.splits dest: parse_documents)
    show ?thesis
      using assms Some d p view snapshot_cong [of "release_unless _ None s1" s1]
      by (auto simp: update_elsewhere Save_def save_version_def saveText_def save_commit_def Let_def split: sum.splits option.splits if_splits)
  qed
qed

lemma stored_snapshot:
  "OpenFile g uri filePath version content s = (None, s') \<Longrightarrow> SnapshotDocument s' uri \<noteq> None"
  "ChangeDocument g uri version changes s = (None, s') \<Longrightarrow> SnapshotDocument s' uri \<noteq> None"
  "Save g uri saved s = (None, s') \<Longrightarrow> SnapshotDocument s' uri \<noteq> None"
proof -
  have update: "SnapshotDocument (update_document g uri current content version tree s) uri \<noteq> None" for current content version tree s
    by (simp add: SnapshotDocument_def update_document_def Let_def)
  show "OpenFile g uri filePath version content s = (None, s') \<Longrightarrow> SnapshotDocument s' uri \<noteq> None"
    by (auto simp: OpenFile_def SnapshotDocument_def open_commit_def Let_def split: prod.splits sum.splits option.splits)
  show "ChangeDocument g uri version changes s = (None, s') \<Longrightarrow> SnapshotDocument s' uri \<noteq> None"
    using update by (auto elim: ChangeDocument_cases)
  show "Save g uri saved s = (None, s') \<Longrightarrow> SnapshotDocument s' uri \<noteq> None"
    using update by (auto simp: Save_def saveText_def save_commit_def Let_def split: option.splits sum.splits prod.splits if_splits)
qed

lemma CloseDocument_snapshot:
  "SnapshotDocument (CloseDocument uri s) = (SnapshotDocument s)(uri := None)"
  by (auto simp: SnapshotDocument_def CloseDocument_def Let_def fun_eq_iff map_of_gomap_delete split: option.splits)

lemma Snapshots_member: "SnapshotDocument s u = Some snap \<Longrightarrow> snap \<in> set (Snapshots s)"
  by (auto simp: SnapshotDocument_def Snapshots_def dest!: map_of_SomeD intro!: image_eqI)

lemma Snapshots_snapshot:
  "gomap_ok (st_documents s) \<Longrightarrow> snap \<in> set (Snapshots s) \<Longrightarrow> SnapshotDocument s (ds_URI snap) = Some snap"
  by (auto simp: Snapshots_def SnapshotDocument_def snapshot_of_def gomap_ok_def)

section \<open>The work left\<close>

definition all_work :: "'tree server \<Rightarrow> work set" where
  "all_work s = set (sv_handler s) \<union> \<Union> (set ` set (sv_background s))"

definition background_work :: "'tree server \<Rightarrow> work set" where
  "background_work s = \<Union> (set ` set (sv_background s))"

lemma all_work_split: "all_work s = set (sv_handler s) \<union> background_work s"
  by (simp add: all_work_def background_work_def)

text \<open>The part of the state that a step of the work itself changes.\<close>

lemma perform_threads:
  "perform su w s = Some (ws, s') \<Longrightarrow> sv_handler s' = sv_handler s \<and> sv_background s' = sv_background s \<and>
     lc_features s' = lc_features s \<and> lc_state s' = lc_state s \<and> lc_exited s' = lc_exited s \<and>
     lc_exitCode s' = lc_exitCode s \<and> lc_notifier s' = lc_notifier s \<and> lc_worker s' = lc_worker s \<and>
     lc_configurationError s' = lc_configurationError s \<and> lc_workerStopped s' = lc_workerStopped s \<and> ft_cache s' = ft_cache s"
  by (cases "(su, w, s)" rule: perform.cases) (auto simp: hold_def Let_def split: if_splits option.splits prod.splits)

text \<open>A step of a goroutine: it does the first of its work, and puts what follows in its place.\<close>

lemma thread_stepE:
  assumes "thread_step su s s'"
  obtains w ws s1 h b where "perform su w s = Some (ws, s1)" "s' = s1\<lparr>sv_handler := h, sv_background := b\<rparr>"
    "w \<in> all_work s" "all_work s \<subseteq> insert w (all_work s')" "set ws \<subseteq> all_work s'" "all_work s' \<subseteq> all_work s \<union> set ws"
    "(w \<in> set (sv_handler s) \<and> set (sv_handler s') \<subseteq> set (sv_handler s) \<union> set ws \<and> b = sv_background s) \<or>
     (w \<in> background_work s \<and> h = sv_handler s \<and> background_work s' \<subseteq> background_work s \<union> set ws)"
  using assms
proof (cases rule: thread_step.cases)
  case (handler_step w rest ws s1)
  have s': "s' = s1\<lparr>sv_handler := ws @ rest, sv_background := sv_background s\<rparr>"
    using perform_threads [OF handler_step(3)] handler_step(1) by (cases s1) simp
  have work: "all_work s = insert w (set rest \<union> \<Union> (set ` set (sv_background s)))"
    "all_work s' = set ws \<union> set rest \<union> \<Union> (set ` set (sv_background s))"
    using handler_step(2) by (simp_all add: all_work_def s')
  show thesis by (rule that [OF handler_step(3) s']) (unfold work, use handler_step(2) in \<open>auto simp: s'\<close>)
next
  case (background_step i w rest ws s1)
  let ?b = "(sv_background s)[i := ws @ rest]"
  have s': "s' = s1\<lparr>sv_handler := sv_handler s, sv_background := ?b\<rparr>" using perform_threads [OF background_step(4)] background_step(1) by (cases s1) simp
  have in_s: "w # rest \<in> set (sv_background s)" using background_step(2,3) nth_mem by metis
  have in_b: "ws @ rest \<in> set ?b" using background_step(2) by (simp add: set_update_memI)
  have others: "t \<in> set ?b \<or> t = w # rest" if "t \<in> set (sv_background s)" for t
    using that background_step(2,3) by (metis in_set_conv_nth length_list_update nth_list_update_neq)
  have backward: "t \<in> set (sv_background s) \<or> t = ws @ rest" if "t \<in> set ?b" for t
    using that set_update_subset_insert [of "sv_background s" i "ws @ rest"] by auto
  let ?old = "\<Union> (set ` set (sv_background s))" and ?new = "\<Union> (set ` set ?b)"
  have sets: "?old \<subseteq> insert w ?new" "?new \<subseteq> ?old \<union> set ws" "w \<in> ?old" "set ws \<subseteq> ?new"
  proof -
    have "x \<in> insert w ?new" if "t \<in> set (sv_background s)" "x \<in> set t" for t x
      using others [OF that(1)] that(2) in_b by (cases "t = w # rest") force+
    then show "?old \<subseteq> insert w ?new" by blast
    have "set rest \<subseteq> ?old" using UN_upper [OF in_s, of set] by auto
    then have "x \<in> ?old \<union> set ws" if "t \<in> set ?b" "x \<in> set t" for t x
      using backward [OF that(1)] that(2) by auto
    then show "?new \<subseteq> ?old \<union> set ws" by blast
    show "w \<in> ?old" using UN_upper [OF in_s, of set] by auto
    show "set ws \<subseteq> ?new" using UN_upper [OF in_b, of set] by auto
  qed
  have work: "all_work s = set (sv_handler s) \<union> ?old" "all_work s' = set (sv_handler s) \<union> ?new"
    by (simp_all add: all_work_def s')
  show thesis
  proof (rule that [OF background_step(4) s'])
    show "w \<in> all_work s" unfolding work using sets(3) by (rule UnI2)
    show "all_work s \<subseteq> insert w (all_work s')" unfolding work using sets(1) by blast
    show "set ws \<subseteq> all_work s'" unfolding work using sets(4) by (rule le_supI2)
    show "all_work s' \<subseteq> all_work s \<union> set ws" unfolding work using sets(2) by blast
  qed (use sets(2,3) in \<open>simp add: background_work_def s'\<close>)
qed

end
