(* ===== verification/Lsp_Session_Invariant.thy ===== *)
theory Lsp_Session_Invariant
  imports Lsp_Session_Facts
begin

text \<open>
  What holds of the server in every state of a session: the phases of the lifecycle, the mutex of the
  diagnostics, and the diagnostics that were published last.
\<close>

section \<open>Requests\<close>

lemma stopWorker_frame:
  "stopWorker s = (e, s') \<Longrightarrow> \<exists>stopped err calls. s' = s\<lparr>lc_workerStopped := stopped, lc_workerStopErr := err,
     sv_worker_calls := sv_worker_calls s @ calls\<rparr> \<and> set calls \<subseteq> {WorkerStop}"
  by (cases s) (auto simp: stopWorker_def split: option.splits if_splits)

text \<open>What a notification about a document does: it may touch that document, and leaves it to be published.\<close>

definition document_effect :: "string \<Rightarrow> 'tree server \<Rightarrow> 'tree server \<Rightarrow> bool" where
  "document_effect uri s s' \<longleftrightarrow> (\<exists>notify documents works.
     s' = s\<lparr>ft_notify := notify, ft_documents := documents, sv_handler := works\<rparr> \<and>
     (ft_notify s \<noteq> None \<longrightarrow> notify = ft_notify s) \<and>
     (\<forall>u. u \<noteq> uri \<or> works = [] \<longrightarrow> SnapshotDocument documents u = SnapshotDocument (ft_documents s) u) \<and>
     (works = [] \<or> (works = [PublishURI uri] \<or> works = [PublishURI uri, SaveToWorker uri]) \<and> SnapshotDocument documents uri \<noteq> None \<or>
      works = [ClearDiagnostics uri] \<and> SnapshotDocument documents uri = None))"

lemma setNotifier_frame:
  obtains notify where "setNotifier present s = s\<lparr>ft_notify := notify\<rparr>" "ft_notify s \<noteq> None \<longrightarrow> notify = ft_notify s"
proof -
  have "setNotifier present s = s\<lparr>ft_notify := ft_notify (setNotifier present s)\<rparr>"
    by (cases s) (simp add: setNotifier_def)
  moreover have "ft_notify s \<noteq> None \<longrightarrow> ft_notify (setNotifier present s) = ft_notify s"
    by (simp add: setNotifier_def)
  ultimately show thesis using that by blast
qed

lemma document_effects:
  assumes idle: "sv_handler s = []" and features: "lc_features s"
  shows "document_effect uri s (snd (didOpen su notify uri version content s))"
    and "document_effect uri s (snd (didChange su notify uri version raws s))"
    and "document_effect uri s (didClose notify uri s)"
    and "document_effect uri s (snd (didSave su notify uri text' s))"
proof -
  obtain n where n: "setNotifier notify s = s\<lparr>ft_notify := n\<rparr>" "ft_notify s \<noteq> None \<longrightarrow> n = ft_notify s"
    by (rule setNotifier_frame)
  have same: "document_effect uri s (s\<lparr>ft_notify := n, ft_documents := d\<rparr>)"
    if "\<forall>u. SnapshotDocument d u = SnapshotDocument (ft_documents s) u" for d
    unfolding document_effect_def using n(2) that idle by (intro exI [of _ n] exI [of _ d] exI [of _ "[]"]) (cases s; simp)
  have touched: "document_effect uri s (s\<lparr>ft_notify := n, ft_documents := d, sv_handler := works\<rparr>)"
    if "\<forall>u. u \<noteq> uri \<longrightarrow> SnapshotDocument d u = SnapshotDocument (ft_documents s) u"
      "(works = [PublishURI uri] \<or> works = [PublishURI uri, SaveToWorker uri]) \<and> SnapshotDocument d uri \<noteq> None \<or>
       works = [ClearDiagnostics uri] \<and> SnapshotDocument d uri = None" for d works
    unfolding document_effect_def using n(2) that by (intro exI [of _ n] exI [of _ d] exI [of _ works]) auto
  show "document_effect uri s (snd (didOpen su notify uri version content s))"
    by (auto simp: didOpen_def Let_def n(1) split: prod.splits intro!: same touched elim: OpenFile_elsewhere dest: stored_snapshot)
  have "document_effect uri s s" using idle
    unfolding document_effect_def by (intro exI [of _ "ft_notify s"] exI [of _ "ft_documents s"] exI [of _ "[]"]) (cases s; simp)
  then show "document_effect uri s (snd (didChange su notify uri version raws s))"
    by (auto simp: didChange_def Let_def n(1) split: prod.splits sum.splits intro!: same touched elim: ChangeDocument_elsewhere dest: stored_snapshot)
  show "document_effect uri s (didClose notify uri s)"
    using touched by (auto simp: didClose_def Let_def n(1) CloseDocument_snapshot)
  show "document_effect uri s (snd (didSave su notify uri text' s))"
    using features by (auto simp: didSave_def Let_def n(1) split: prod.splits intro!: same touched elim: Save_elsewhere dest: stored_snapshot)
qed

text \<open>What a request does, by the phase it is handled in.\<close>

lemma HandleE:
  assumes h: "Handle su rq s = (r, s')" and d: "dispatched (lc_features s) rq" and idle: "sv_handler s = []"
  obtains (exit) "s' = handle_exit s"
  | (unchanged) "s' = s"
  | (initialize) factory where "lc_state s = stateNew" "s' = (initialize factory s)\<lparr>lc_state := stateInitialized\<rparr>"
  | (initialized) "lc_state s = stateInitialized" "s' = (initialized (rq_notify rq) s)\<lparr>lc_state := stateRunning\<rparr>"
  | (shutdown) "lc_state s = stateRunning" "s' = snd (lsp_shutdown s)"
  | (document) uri where "lc_state s = stateRunning" "lc_features s" "document_effect uri s s'"
proof (cases "rq_method rq = MExit")
  case True
  then show thesis using h exit by (simp add: Handle_def)
next
  case other: False
  show thesis
  proof (cases "state_refuses (lc_state s) (rq_method rq)")
    case (Some message)
    then show thesis using h other unchanged by (simp add: Handle_def)
  next
    case None
    obtain r1 s1 where c: "dispatch su (rq_notify rq) (rq_call rq) s = (r1, s1)" by (metis prod.exhaust)
    have s': "s' = (if rs_error r1 \<noteq> None \<or> \<not> rs_validMethod r1 \<or> \<not> rs_validParams r1 then s1 else after_request (rq_method rq) s1)"
      using h other None c by (auto simp: Handle_def split: if_splits)
    note phase = None [unfolded state_refuses_def]
    have shut: "(snd (lsp_shutdown s))\<lparr>lc_state := stateShutdown\<rparr> = snd (lsp_shutdown s)"
      using stopWorker_frame [of "s\<lparr>lc_state := stateShutdown, lc_notifier := False\<rparr>"]
      by (cases s) (auto simp: lsp_shutdown_def Let_def split: prod.splits if_splits)
    have running: thesis if "document_effect uri s s1" "rq_method rq \<in> {MDidOpen, MDidChange, MDidClose, MDidSave}" "lc_features s" for uri
      using that phase s' document by (auto simp: after_request_def split: lifecycleState.splits if_splits)
    show thesis
    proof (cases "rq_call rq")
      case (NoCall valid params err)
      then show thesis using s' c d unchanged by (auto simp: dispatched_def split: if_splits)
    next
      case (CallInitialize factory)
      then have "rq_method rq = MInitialize" using d by (simp add: dispatched_def)
      then show thesis using s' c CallInitialize phase initialize
        by (auto simp: called_def after_request_def split: lifecycleState.splits)
    next
      case CallInitialized
      then have "rq_method rq = MInitialized" using d by (simp add: dispatched_def)
      then show thesis using s' c CallInitialized phase initialized
        by (auto simp: called_def after_request_def split: lifecycleState.splits)
    next
      case CallShutdown
      then have m: "rq_method rq = MShutdown" using d by (simp add: dispatched_def)
      have "s' = s1" using s' m shut c CallShutdown by (auto simp: called_def after_request_def split: if_splits)
      then show thesis using c CallShutdown phase shutdown m by (auto simp: called_def split: lifecycleState.splits)
    next
      case CallNothing
      then have "rq_method rq = MCancelRequest \<or> rq_method rq = MSetTrace" using d by (simp add: dispatched_def)
      then show thesis using s' c CallNothing unchanged by (auto simp: called_def after_request_def)
    next
      case (CallDidOpen uri version content)
      then show thesis using running [of uri] c d document_effects [OF idle] by (auto simp: dispatched_def called_def)
    next
      case (CallDidChange uri version raws)
      then show thesis using running [of uri] c d document_effects [OF idle] by (auto simp: dispatched_def called_def)
    next
      case (CallDidClose uri)
      then show thesis using running [of uri] c d document_effects [OF idle] by (auto simp: dispatched_def called_def)
    next
      case (CallDidSave uri content)
      then show thesis using running [of uri] c d document_effects [OF idle] by (auto simp: dispatched_def called_def)
    next
      case (CallQuery err)
      then have "rq_method rq = MQuery" using d by (simp add: dispatched_def)
      then show thesis using s' c CallQuery unchanged by (auto simp: called_def after_request_def split: if_splits)
    qed
  qed
qed

section \<open>Phases\<close>

definition live :: "'tree server \<Rightarrow> bool" where
  "live s \<longleftrightarrow> lc_state s = stateRunning \<and> \<not> lc_exited s \<and> lc_notifier s \<and> lc_features s"

fun closing :: "work \<Rightarrow> bool" where
  "closing CloseFeatures = True"
| "closing CloseDocuments = True"
| "closing w = False"

fun handler_only :: "work \<Rightarrow> bool" where
  "handler_only (ClearDiagnostics u) = True"
| "handler_only w = closing w"

lemma closing_handler: "closing w \<Longrightarrow> handler_only w"
  by (cases w) auto

text \<open>Before the session runs nothing is open and no goroutine has anything to do.\<close>

definition quiet :: "'tree server \<Rightarrow> bool" where
  "quiet s \<longleftrightarrow> all_work s = {} \<and> sv_lock s = None \<and> sv_sent s = [] \<and> st_documents (ft_documents s) = [] \<and>
     ft_notify s = None \<and> \<not> ft_closed s \<and> WorkerStart \<notin> set (sv_worker_calls s)"

definition phase_inv :: "'tree server \<Rightarrow> bool" where
  "phase_inv s \<longleftrightarrow>
     (lc_state s = stateNew \<or> lc_state s = stateInitialized \<longrightarrow> quiet s) \<and>
     (lc_state s = stateRunning \<and> lc_features s \<longrightarrow> \<not> ft_closed s \<and> ft_notify s = Some ViaLifecycle) \<and>
     (\<forall>w \<in> set (sv_handler s). closing w \<longrightarrow> lc_state s = stateShutdown) \<and>
     (\<forall>w \<in> background_work s. \<not> handler_only w) \<and>
     (\<forall>u. ClearDiagnostics u \<in> set (sv_handler s) \<longrightarrow> SnapshotDocument (ft_documents s) u = None)"

lemma perform_new: "perform su w s = Some (ws, s') \<Longrightarrow> x \<in> set ws \<Longrightarrow> handler_only x \<Longrightarrow> w = CloseFeatures \<and> x = CloseDocuments"
  by (cases "(su, w, s)" rule: perform.cases) (auto simp: hold_def Let_def split: if_splits option.splits prod.splits)

lemma perform_features:
  "perform su w s = Some (ws, s') \<Longrightarrow> w \<noteq> CloseFeatures \<Longrightarrow> ft_closed s' = ft_closed s \<and> ft_notify s' = ft_notify s"
  "perform su w s = Some (ws, s') \<Longrightarrow> w \<noteq> CloseDocuments \<Longrightarrow> ft_documents s' = ft_documents s"
  by (cases "(su, w, s)" rule: perform.cases; auto simp: hold_def Let_def split: if_splits option.splits prod.splits)+

lemma CloseAll_snapshot: "SnapshotDocument (CloseAll s) u = None"
  by (simp add: SnapshotDocument_def CloseAll_def release_all_documents)

lemma phase_thread:
  assumes inv: "phase_inv s" and step: "thread_step su s s'"
  shows "phase_inv s'"
  using step
proof (cases rule: thread_stepE)
  case (1 w ws s1 h b)
  note frame = perform_threads [OF 1(1)]
  have state: "lc_state s' = lc_state s" "lc_features s' = lc_features s" using frame 1(2) by simp_all
  have started: "lc_state s \<noteq> stateNew" "lc_state s \<noteq> stateInitialized" using inv 1(3) by (auto simp: phase_inv_def quiet_def)
  have closer: "w = CloseFeatures \<or> w = CloseDocuments \<Longrightarrow> w \<in> set (sv_handler s) \<and> lc_state s = stateShutdown"
  proof -
    assume w: "w = CloseFeatures \<or> w = CloseDocuments"
    then have "closing w" by auto
    moreover from this have "w \<notin> background_work s" using inv closing_handler by (auto simp: phase_inv_def)
    ultimately show ?thesis using inv 1(3) by (auto simp: phase_inv_def all_work_split)
  qed
  have features: "lc_state s = stateRunning \<and> lc_features s \<longrightarrow> \<not> ft_closed s' \<and> ft_notify s' = Some ViaLifecycle"
  proof (cases "w = CloseFeatures")
    case True
    then show ?thesis using closer by simp
  next
    case False
    have "ft_closed s' = ft_closed s1" "ft_notify s' = ft_notify s1" using 1(2) by simp_all
    then show ?thesis using perform_features(1) [OF 1(1) False] inv by (simp add: phase_inv_def)
  qed
  have "SnapshotDocument (ft_documents s') u = None" if "SnapshotDocument (ft_documents s) u = None" for u
  proof (cases "w = CloseDocuments")
    case True
    then show ?thesis using 1(1,2) CloseAll_snapshot by auto
  next
    case False
    then show ?thesis using perform_features(2) [OF 1(1)] that 1(2) by simp
  qed
  then have clear: "SnapshotDocument (ft_documents s') u = None" if "ClearDiagnostics u \<in> set (sv_handler s)" for u
    using inv that by (simp add: phase_inv_def)
  have new: "x \<in> set ws \<Longrightarrow> handler_only x \<Longrightarrow> w \<in> set (sv_handler s) \<and> lc_state s = stateShutdown \<and> x = CloseDocuments" for x
    using perform_new [OF 1(1)] closer by blast
  have fields: "sv_handler s' = h" "sv_background s' = b" using 1(2) by simp_all
  have h: "x \<in> set (sv_handler s) \<or> x \<in> set ws" if "x \<in> set (sv_handler s')" for x
    using 1(7) that fields(1) by (elim disjE conjE) auto
  have b: "x \<in> background_work s \<or> x \<in> set ws \<and> w \<in> background_work s" if "x \<in> background_work s'" for x
    using 1(7)
  proof (elim disjE conjE)
    assume "b = sv_background s"
    then have "background_work s' = background_work s" using fields(2) by (simp add: background_work_def)
    then show ?thesis using that by simp
  qed (use that in blast)
  have "w \<in> background_work s \<Longrightarrow> \<not> handler_only w" using inv by (simp add: phase_inv_def)
  then have "\<not> handler_only x" if "x \<in> background_work s'" for x
  proof -
    have "\<forall>y \<in> background_work s. \<not> handler_only y" using inv by (simp add: phase_inv_def)
    then show ?thesis using b [OF that] perform_new [OF 1(1), of x] by auto
  qed
  moreover have "lc_state s = stateShutdown" if "x \<in> set (sv_handler s')" "closing x" for x
    using h [OF that(1)] new [of x] closing_handler [OF that(2)] inv that(2) by (auto simp: phase_inv_def)
  moreover have "SnapshotDocument (ft_documents s') u = None" if "ClearDiagnostics u \<in> set (sv_handler s')" for u
    using h [OF that] new [of "ClearDiagnostics u"] clear by auto
  ultimately show ?thesis using started features unfolding phase_inv_def state by simp
qed

lemma stopWorker_simps:
  "sv_handler (snd (stopWorker s)) = sv_handler s" "sv_background (snd (stopWorker s)) = sv_background s"
  "ft_documents (snd (stopWorker s)) = ft_documents s" "ft_cache (snd (stopWorker s)) = ft_cache s"
  "ft_notify (snd (stopWorker s)) = ft_notify s" "ft_closed (snd (stopWorker s)) = ft_closed s"
  "lc_features (snd (stopWorker s)) = lc_features s" "lc_state (snd (stopWorker s)) = lc_state s"
  "lc_exited (snd (stopWorker s)) = lc_exited s" "lc_exitCode (snd (stopWorker s)) = lc_exitCode s"
  "lc_notifier (snd (stopWorker s)) = lc_notifier s" "lc_configurationError (snd (stopWorker s)) = lc_configurationError s"
  "sv_lock (snd (stopWorker s)) = sv_lock s" "sv_sent (snd (stopWorker s)) = sv_sent s"
  "lc_worker (snd (stopWorker s)) = lc_worker s"
  "WorkerStart \<in> set (sv_worker_calls (snd (stopWorker s))) \<longleftrightarrow> WorkerStart \<in> set (sv_worker_calls s)"
  by (auto simp: stopWorker_def split: option.splits)

lemma all_work_stop [simp]:
  "all_work (snd (stopWorker s)) = all_work s" "background_work (snd (stopWorker s)) = background_work s"
  by (simp_all add: all_work_def background_work_def stopWorker_simps)

lemma phase_request:
  assumes inv: "phase_inv s" and idle: "sv_handler s = []" and d: "dispatched (lc_features s) rq"
    and h: "Handle su rq s = (r, s')"
  shows "phase_inv s'"
  using h d idle
proof (cases rule: HandleE)
  case exit
  then show ?thesis using inv idle
    by (simp add: phase_inv_def handle_exit_def quiet_def all_work_split background_work_def stopWorker_simps)
next
  case unchanged
  then show ?thesis using inv by simp
next
  case (initialize factory)
  then show ?thesis using inv idle
    by (auto simp: phase_inv_def initialize_def quiet_def all_work_split background_work_def split: option.splits sum.splits)
next
  case initialized
  then show ?thesis using inv idle
    by (auto simp: phase_inv_def initialized_def SetNotifier_def quiet_def all_work_split background_work_def Let_def split: option.splits)
next
  case shutdown
  then show ?thesis using inv idle
    by (auto simp: phase_inv_def lsp_shutdown_def Let_def background_work_def stopWorker_simps case_prod_beta)
next
  case (document uri)
  then show ?thesis using inv idle
    by (auto simp: phase_inv_def document_effect_def background_work_def)
qed

lemma report_frame:
  "sv_handler (worker_report generation err s) = sv_handler s" "ft_documents (worker_report generation err s) = ft_documents s"
  "ft_notify (worker_report generation err s) = ft_notify s" "ft_closed (worker_report generation err s) = ft_closed s"
  "ft_cache (worker_report generation err s) = ft_cache s"
  "lc_features (worker_report generation err s) = lc_features s" "lc_state (worker_report generation err s) = lc_state s"
  "lc_exited (worker_report generation err s) = lc_exited s" "lc_notifier (worker_report generation err s) = lc_notifier s"
  "sv_lock (worker_report generation err s) = sv_lock s" "sv_sent (worker_report generation err s) = sv_sent s"
  "sv_worker_calls (worker_report generation err s) = sv_worker_calls s"
  by (simp_all add: worker_report_def)

lemma report_work:
  "background_work (worker_report generation err s) = background_work s \<union>
     (if err \<noteq> None then {NotifyFailure} else if 0 < generation \<and> lc_features s then {RevalidateAll generation} else {})"
  by (auto simp: worker_report_def background_work_def)

lemma cache_work: "background_work (s\<lparr>ft_cache := cache\<rparr>) = background_work s"
  by (simp add: background_work_def)

lemma phase_step:
  assumes inv: "phase_inv s" and step: "server_step su s s'"
  shows "phase_inv s'"
  using step
proof (cases rule: server_step.cases)
  case goroutine
  then show ?thesis using phase_thread inv by blast
next
  case (request rq r)
  then show ?thesis using phase_request [OF inv] by blast
next
  case (graph_loaded graph cache generation)
  then have "\<not> quiet s" by (simp add: quiet_def)
  then show ?thesis using inv unfolding graph_loaded(1) phase_inv_def
    by (simp add: report_frame report_work cache_work)
next
  case (worker_failed err)
  then have "\<not> quiet s" by (simp add: quiet_def)
  then show ?thesis using inv unfolding worker_failed(1) phase_inv_def
    by (simp add: report_frame report_work)
next
  case connection_closed
  then show ?thesis using inv by (simp add: phase_inv_def StopWorker_def stopWorker_simps quiet_def)
qed

lemma session_phase: "session su s \<Longrightarrow> phase_inv s"
proof (induction rule: session.induct)
  case (session_new features worker)
  show ?case by (simp add: phase_inv_def NewLifecycle_def NewStore_def quiet_def all_work_def background_work_def)
qed (rule phase_step)

end
