(* ===== verification/Lsp_Session_Publish.thy ===== *)
theory Lsp_Session_Publish
  imports Lsp_Session_Invariant
begin

text \<open>
  The mutex of the diagnostics has one holder, which can go on, so work never gets stuck; work left
  alone runs out; and what was published last for a document is right, or is still to be published.
\<close>

section \<open>The holder of the mutex\<close>

definition threads :: "'tree server \<Rightarrow> work list list" where
  "threads s = sv_handler s # sv_background s"

fun holds :: "work \<Rightarrow> bool" where
  "holds Decide = True"
| "holds Send = True"
| "holds w = False"

fun head_holds :: "work list \<Rightarrow> nat" where
  "head_holds [] = 0"
| "head_holds (w # ws) = (if holds w then 1 else 0)"

definition lock_inv :: "'tree server \<Rightarrow> bool" where
  "lock_inv s \<longleftrightarrow> (\<forall>t \<in> set (threads s). \<forall>w \<in> set (tl t). \<not> holds w) \<and>
     sum_list (map head_holds (threads s)) = (if sv_lock s = None then 0 else 1)"

lemma thread_stepI:
  assumes "i < length (threads s)" and "threads s ! i = w # ws" and "perform su w s = Some (ws', s1)"
  obtains s' where "thread_step su s s'"
  using assms
proof (cases i)
  case 0
  then show thesis using that handler_step [of s w ws su ws' s1] assms by (simp add: threads_def)
next
  case (Suc j)
  then show thesis using that background_step [of j s w ws su ws' s1] assms by (simp add: threads_def)
qed

lemma thread_step_nth:
  assumes "thread_step su s s'"
  obtains i w ws ws' s1 where "i < length (threads s)" "threads s ! i = w # ws" "perform su w s = Some (ws', s1)"
    "threads s' = (threads s)[i := ws' @ ws]" "sv_lock s' = sv_lock s1" "sv_sent s' = sv_sent s1"
    "ft_closed s' = ft_closed s1"
  using assms
proof (cases rule: thread_step.cases)
  case (handler_step w ws ws' s1)
  then show thesis using that [of 0 w ws ws' s1] perform_threads [OF handler_step(3)] by (simp add: threads_def)
next
  case (background_step j w ws ws' s1)
  then show thesis using that [of "Suc j" w ws ws' s1] perform_threads [OF background_step(4)] by (simp add: threads_def)
qed

lemma perform_holds:
  assumes "perform su w s = Some (ws, s')"
  shows "\<forall>x \<in> set (tl ws). \<not> holds x"
    and "(holds w \<longrightarrow> sv_lock s \<noteq> None) \<Longrightarrow> head_holds ws + (if sv_lock s = None then 0 else 1) =
      (if sv_lock s' = None then 0 else 1) + (if holds w then 1 else 0 :: nat)"
proof -
  have many: "\<forall>x \<in> set (map (\<lambda>snap. PublishSnapshot snap gr gen) xs). \<not> holds x" for gr gen xs by auto
  then have tail: "\<forall>x \<in> set (tl (map (\<lambda>snap. PublishSnapshot snap gr gen) xs)). \<not> holds x"
    "head_holds (map (\<lambda>snap. PublishSnapshot snap gr gen) xs) = 0" for gr gen xs by (cases xs; force)+
  show "\<forall>x \<in> set (tl ws). \<not> holds x"
    using assms tail by (cases "(su, w, s)" rule: perform.cases) (auto simp: hold_def Let_def split: if_splits option.splits prod.splits)
  show "(holds w \<longrightarrow> sv_lock s \<noteq> None) \<Longrightarrow> head_holds ws + (if sv_lock s = None then 0 else 1) =
      (if sv_lock s' = None then 0 else 1) + (if holds w then 1 else 0 :: nat)"
    using assms tail by (cases "(su, w, s)" rule: perform.cases) (auto simp: hold_def Let_def split: if_splits option.splits prod.splits)
qed

lemma in_set_tlD: "x \<in> set (tl t) \<Longrightarrow> x \<in> set t"
  by (cases t) auto

lemma head_holds_append: "head_holds (ws @ rest) = (if ws = [] then head_holds rest else head_holds ws)"
  by (cases ws) auto

lemma head_holds_tail: "\<forall>w \<in> set ws. \<not> holds w \<Longrightarrow> head_holds ws = 0"
  by (cases ws) auto

lemma head_holds_le: "i < length ts \<Longrightarrow> head_holds (ts ! i) \<le> sum_list (map head_holds ts)"
  by (simp add: member_le_sum_list)

lemma lock_thread:
  assumes inv: "lock_inv s" and step: "thread_step su s s'"
  shows "lock_inv s'"
  using step
proof (cases rule: thread_step_nth)
  case (1 i w ws ws' s1)
  have tails: "\<forall>t \<in> set (threads s). \<forall>x \<in> set (tl t). \<not> holds x"
    and total: "sum_list (map head_holds (threads s)) = (if sv_lock s = None then 0 else 1)"
    using inv by (simp_all add: lock_inv_def)
  have tail: "\<forall>x \<in> set ws. \<not> holds x" using tails 1(1,2) nth_mem [OF 1(1)] by fastforce
  have new: "\<forall>x \<in> set (tl (ws' @ ws)). \<not> holds x"
    using perform_holds(1) [OF 1(3)] tail in_set_tlD [of _ ws] by (cases ws') auto
  have own: "head_holds (threads s ! i) = (if holds w then 1 else 0)" using 1(2) by simp
  have le: "head_holds (threads s ! i) \<le> sum_list (map head_holds (threads s))" by (rule head_holds_le [OF 1(1)])
  then have locked: "holds w \<longrightarrow> sv_lock s \<noteq> None" using own total by (auto split: if_splits)
  have "head_holds (ws' @ ws) = head_holds ws'" using head_holds_tail [OF tail] by (simp add: head_holds_append)
  moreover have "sum_list (map head_holds (threads s')) =
      sum_list (map head_holds (threads s)) + head_holds (ws' @ ws) - head_holds (threads s ! i)"
    using 1(1) by (simp add: 1(4) map_update sum_list_update)
  ultimately have "sum_list (map head_holds (threads s')) = (if sv_lock s' = None then 0 else 1)"
    using perform_holds(2) [OF 1(3) locked] own total 1(5) by (auto split: if_splits)
  moreover have "\<forall>t \<in> set (threads s'). \<forall>x \<in> set (tl t). \<not> holds x"
    using tails new set_update_subset_insert [of "threads s" i "ws' @ ws"] 1(4) by auto
  ultimately show ?thesis by (simp add: lock_inv_def)
qed

lemma lock_frame:
  assumes inv: "lock_inv s" and "sv_lock s' = sv_lock s"
    and h: "sv_handler s' = sv_handler s \<or> sv_handler s = [] \<and> (\<forall>w \<in> set (sv_handler s'). \<not> holds w)"
    and "sv_background s' = sv_background s @ ts" and ts: "\<forall>t \<in> set ts. \<forall>w \<in> set t. \<not> holds w"
  shows "lock_inv s'"
proof -
  have none: "sum_list (map head_holds ts) = 0" using ts head_holds_tail by (auto simp: sum_list_eq_0_iff)
  moreover have "\<forall>t \<in> set ts. \<forall>w \<in> set (tl t). \<not> holds w" using ts in_set_tlD by metis
  moreover have "head_holds (sv_handler s') = head_holds (sv_handler s) \<and>
      ((\<forall>w \<in> set (tl (sv_handler s)). \<not> holds w) \<longrightarrow> (\<forall>w \<in> set (tl (sv_handler s')). \<not> holds w))"
    using h head_holds_tail [of "sv_handler s'"] in_set_tlD by (elim disjE) (simp, fastforce)
  ultimately show ?thesis using inv assms(2,4) unfolding lock_inv_def threads_def
    by (simp add: none del: sum_list_eq_0_iff) blast
qed

lemma lock_step:
  assumes inv: "lock_inv s" and step: "server_step su s s'"
  shows "lock_inv s'"
  using step
proof (cases rule: server_step.cases)
  case goroutine
  then show ?thesis using lock_thread [OF inv] by blast
next
  case (request rq r)
  have "sv_lock s' = sv_lock s \<and> sv_background s' = sv_background s \<and> (\<forall>w \<in> set (sv_handler s'). \<not> holds w)"
    using request(3,2,1)
  proof (cases rule: HandleE)
    case (initialize factory)
    then show ?thesis using request(1) by (auto simp: initialize_def split: option.splits sum.splits)
  next
    case (document uri)
    then show ?thesis by (auto simp: document_effect_def)
  qed (use request(1) in \<open>auto simp: handle_exit_def stopWorker_simps initialized_def SetNotifier_def lsp_shutdown_def Let_def case_prod_beta\<close>)
  then show ?thesis using lock_frame [OF inv, of s' "[]"] request(1) by simp
next
  case (graph_loaded graph cache generation)
  show ?thesis unfolding graph_loaded(1)
    by (rule lock_frame [OF inv, of _ "if lc_features s then [[RevalidateAll generation]] else []"])
      (use graph_loaded(4) in \<open>auto simp: worker_report_def word_gt_0\<close>)
next
  case (worker_failed err)
  show ?thesis unfolding worker_failed(1)
    by (rule lock_frame [OF inv, of _ "[[NotifyFailure]]"]) (auto simp: worker_report_def)
next
  case connection_closed
  show ?thesis unfolding connection_closed(1) StopWorker_def
    by (rule lock_frame [OF inv, of _ "[]"]) (simp_all add: stopWorker_simps)
qed

lemma session_lock: "session su s \<Longrightarrow> lock_inv s"
proof (induction rule: session.induct)
  case (session_new features worker)
  show ?case by (simp add: lock_inv_def threads_def NewLifecycle_def)
qed (rule lock_step)

section \<open>Work runs out\<close>

lemma all_work_threads: "all_work s = set (concat (threads s))"
  by (simp add: all_work_def threads_def)

lemma can_go_on:
  assumes inv: "lock_inv s" and left: "all_work s \<noteq> {}"
  shows "\<exists>s'. thread_step su s s'"
proof (cases "sv_lock s")
  case None
  obtain t where "t \<in> set (threads s)" "t \<noteq> []" using left by (auto simp: all_work_threads)
  then obtain i w ws where i: "i < length (threads s)" "threads s ! i = w # ws" by (metis in_set_conv_nth neq_Nil_conv)
  have "perform su w s \<noteq> None" using None by (cases w) auto
  then obtain ws' s1 where "perform su w s = Some (ws', s1)" by auto
  then show ?thesis using thread_stepI [OF i] by blast
next
  case (Some params)
  then have "sum_list (map head_holds (threads s)) \<noteq> 0" using inv by (simp add: lock_inv_def)
  then obtain t where "t \<in> set (threads s)" "head_holds t \<noteq> 0" by (auto simp: sum_list_eq_0_iff)
  then obtain i where n: "i < length (threads s)" "head_holds (threads s ! i) \<noteq> 0" unfolding in_set_conv_nth by blast
  then obtain w ws where "threads s ! i = w # ws" "holds w" by (cases "threads s ! i") (simp_all split: if_splits)
  note i = n(1) this
  have "perform su w s \<noteq> None" using i(3) by (cases w) auto
  then obtain ws' s1 where "perform su w s = Some (ws', s1)" by auto
  then show ?thesis using thread_stepI [OF i(1,2)] by blast
qed

fun weight :: "work \<Rightarrow> nat" where
  "weight (PublishURI uri) = 4"
| "weight (LoadCache snapshot) = 3"
| "weight (PublishSnapshot snapshot graph generation) = 2"
| "weight (ClearDiagnostics uri) = 2"
| "weight (RevalidateAll generation) = 4"
| "weight (RevalidateDocuments graph generation) = 3"
| "weight Decide = 1"
| "weight CloseFeatures = 1"
| "weight NotifyFailure = 1"
| "weight w = 0"

lemma perform_lighter: "perform su w s = Some (ws, s') \<Longrightarrow> x \<in> set ws \<Longrightarrow> weight x < weight w"
  by (cases "(su, w, s)" rule: perform.cases) (auto simp: hold_def Let_def split: if_splits option.splits prod.splits)

definition work_left :: "'tree server \<Rightarrow> nat multiset" where
  "work_left s = image_mset weight (mset (concat (threads s)))"

lemma mset_concat_update:
  assumes "i < length ts"
  shows "mset (concat (ts[i := t])) + mset (ts ! i) = mset (concat ts) + mset t"
  using assms
proof (induction ts arbitrary: i)
  case (Cons u us)
  then show ?case by (cases i) (simp_all add: ac_simps)
qed simp

lemma step_lighter:
  assumes "thread_step su s s'"
  shows "(work_left s', work_left s) \<in> mult {(m, n). m < n}"
  using assms
proof (cases rule: thread_step_nth)
  case (1 i w ws ws' s1)
  obtain rest where rest: "mset (concat (threads s)) = add_mset w (mset ws) + rest"
    using 1(1,2) nth_mem [OF 1(1)] by (metis mset.simps(2) mset_concat_update [OF 1(1), of "[]"] mset.simps(1) add.right_neutral add.commute)
  have "mset (concat (threads s')) + add_mset w (mset ws) = mset (concat (threads s)) + (mset ws' + mset ws)"
    using mset_concat_update [OF 1(1), of "ws' @ ws"] 1(2,4) by simp
  then have "mset (concat (threads s')) = rest + mset ws + mset ws'" by (simp add: rest)
  then have "work_left s' = image_mset weight (rest + mset ws) + image_mset weight (mset ws')"
    and "work_left s = image_mset weight (rest + mset ws) + {#weight w#}"
    by (simp_all add: work_left_def rest)
  moreover have "\<forall>k \<in> set_mset (image_mset weight (mset ws')). \<exists>j \<in> set_mset {#weight w#}. (k, j) \<in> {(m, n). m < n}"
    using perform_lighter [OF 1(3)] by auto
  ultimately show ?thesis using one_step_implies_mult [of "{#weight w#}" "image_mset weight (mset ws')"] by simp
qed

lemma steps_end: "wf {(s', s). thread_step su s s'}"
proof (rule wf_subset)
  show "wf (inv_image (mult {(m, n :: nat). m < n}) work_left)" by (intro wf_inv_image wf_mult wf)
  show "{(s', s). thread_step su s s'} \<subseteq> inv_image (mult {(m, n). m < n}) work_left" using step_lighter by auto
qed

end
