(* ===== verification/Lsp_Session_Diagnostics.thy ===== *)
theory Lsp_Session_Diagnostics
  imports Lsp_Session_Publish
begin

text \<open>
  What was published last for a document, counting what the holder of the mutex is about to send, is
  right for the present documents and graph, or some goroutine still has to publish it.
\<close>

section \<open>Right and still to be published\<close>

fun for_uri :: "string \<Rightarrow> outgoing \<Rightarrow> bool" where
  "for_uri uri (PublishDiagnostics params) = (pd_URI params = uri)"
| "for_uri uri ShowMessage = False"

text \<open>The notification published last for a document.\<close>

definition last_publication :: "string \<Rightarrow> outgoing list \<Rightarrow> outgoing option" where
  "last_publication uri sent = (let ps = filter (for_uri uri) sent in if ps = [] then None else Some (last ps))"

definition about_to :: "'tree server \<Rightarrow> outgoing list" where
  "about_to s = sv_sent s @ (case sv_lock s of None \<Rightarrow> [] | Some params \<Rightarrow> [params])"

text \<open>A snapshot of a document that the store held in the course of the session.\<close>

definition taken :: "'tree surroundings \<Rightarrow> DocSnapshot \<Rightarrow> bool" where
  "taken su snapshot \<longleftrightarrow> (\<exists>s uri current. session su s \<and> (uri, current) \<in> set (st_documents (ft_documents s)) \<and>
     snapshot = snapshot_of uri current)"

text \<open>A snapshot with the text and the version that the document has now.\<close>

definition same_text :: "DocSnapshot \<Rightarrow> 'tree server \<Rightarrow> bool" where
  "same_text snapshot s \<longleftrightarrow> (\<exists>current. SnapshotDocument (ft_documents s) (ds_URI snapshot) = Some current \<and>
     ds_Version current = ds_Version snapshot \<and> ds_Source current = ds_Source snapshot)"

definition published_right :: "'tree surroundings \<Rightarrow> string \<Rightarrow> 'tree server \<Rightarrow> outgoing list \<Rightarrow> bool" where
  "published_right su uri s sent \<longleftrightarrow>
     (if SnapshotDocument (ft_documents s) uri = None
      then last_publication uri sent \<in> {None, Some (PublishDiagnostics (clear_params uri))}
      else \<exists>snapshot. ds_URI snapshot = uri \<and> taken su snapshot \<and> same_text snapshot s \<and>
        last_publication uri sent = Some (PublishDiagnostics (publish_params su snapshot (fst (cache_Load (ft_cache s))))))"

fun will_publish :: "string \<Rightarrow> 'tree server \<Rightarrow> work \<Rightarrow> bool" where
  "will_publish uri s (PublishURI u) = (u = uri \<and> SnapshotDocument (ft_documents s) uri \<noteq> None)"
| "will_publish uri s (LoadCache snapshot) = (ds_URI snapshot = uri \<and> same_text snapshot s)"
| "will_publish uri s (PublishSnapshot snapshot graph generation) =
     (ds_URI snapshot = uri \<and> same_text snapshot s \<and> generation = snd (cache_Load (ft_cache s)))"
| "will_publish uri s (ClearDiagnostics u) = (u = uri \<and> SnapshotDocument (ft_documents s) uri = None)"
| "will_publish uri s (RevalidateAll generation) = (SnapshotDocument (ft_documents s) uri \<noteq> None \<and>
     fst (cache_Load (ft_cache s)) \<noteq> None \<and> generation = snd (cache_Load (ft_cache s)))"
| "will_publish uri s (RevalidateDocuments graph generation) = (SnapshotDocument (ft_documents s) uri \<noteq> None \<and>
     generation = snd (cache_Load (ft_cache s)))"
| "will_publish uri s w = False"

definition publish_inv :: "'tree surroundings \<Rightarrow> string \<Rightarrow> 'tree server \<Rightarrow> bool" where
  "publish_inv su uri s \<longleftrightarrow> published_right su uri s (about_to s) \<or> (\<exists>w \<in> all_work s. will_publish uri s w)"

text \<open>What a goroutine holds was read in this session, and is not newer than what is there.\<close>

fun work_ok :: "'tree surroundings \<Rightarrow> 'tree server \<Rightarrow> work \<Rightarrow> bool" where
  "work_ok su s (LoadCache snapshot) = taken su snapshot"
| "work_ok su s (PublishSnapshot snapshot graph generation) = (taken su snapshot \<and>
     generation \<le> snd (cache_Load (ft_cache s)) \<and> (generation = snd (cache_Load (ft_cache s)) \<longrightarrow> graph = fst (cache_Load (ft_cache s))))"
| "work_ok su s (RevalidateAll generation) = (generation \<le> snd (cache_Load (ft_cache s)))"
| "work_ok su s (RevalidateDocuments graph generation) = (generation \<le> snd (cache_Load (ft_cache s)) \<and>
     (generation = snd (cache_Load (ft_cache s)) \<longrightarrow> graph = fst (cache_Load (ft_cache s))))"
| "work_ok su s w = True"

lemma last_publication_simps [simp]:
  "last_publication uri [] = None"
  "last_publication uri (sent @ [p]) = (if for_uri uri p then Some p else last_publication uri sent)"
  "last_publication uri (sent @ ShowMessage # rest) = last_publication uri (sent @ rest)"
  by (auto simp: last_publication_def Let_def)

section \<open>Each step of a goroutine\<close>

lemma taken_snapshot:
  "session su s \<Longrightarrow> SnapshotDocument (ft_documents s) u = Some snapshot \<Longrightarrow> taken su snapshot"
  "session su s \<Longrightarrow> snapshot \<in> set (Snapshots (ft_documents s)) \<Longrightarrow> taken su snapshot"
  by (auto simp: taken_def SnapshotDocument_def Snapshots_def dest!: map_of_SomeD)

lemma perform_ok:
  assumes "perform su w s = Some (ws, s')" and "session su s" and "work_ok su s w" and "x \<in> set ws"
  shows "work_ok su s x"
  using assms
  by (cases "(su, w, s)" rule: perform.cases)
    (auto simp: hold_def Let_def taken_snapshot split: if_splits option.splits prod.splits)

lemma still_current_iff: "still_current snapshot generation s \<longleftrightarrow> same_text snapshot s \<and> snd (cache_Load (ft_cache s)) = generation"
  by (auto simp: still_current_def same_text_def split: option.splits)

lemma running_allowed: "phase_inv s \<Longrightarrow> live s \<Longrightarrow> notification_allowed s"
  by (auto simp: phase_inv_def live_def notification_allowed_def lifecycle_allows_def)

text \<open>What a step does to what is published, while notifications are allowed.\<close>

lemma about_to_hold: "hold params s = (ws, s') \<Longrightarrow> sv_lock s = None \<Longrightarrow> about_to s' = about_to s @ [PublishDiagnostics params]"
  by (auto simp: about_to_def hold_def)

lemma perform_about_to:
  assumes "perform su w s = Some (ws, s')" and "notification_allowed s"
    and "\<And>snapshot graph generation. w \<noteq> PublishSnapshot snapshot graph generation" and "\<And>u. w \<noteq> ClearDiagnostics u"
  shows "last_publication uri (about_to s') = last_publication uri (about_to s)"
  using assms
  by (cases "(su, w, s)" rule: perform.cases) (auto simp: Let_def about_to_def split: if_splits option.splits prod.splits)

text \<open>Work that is to publish for a document and does not itself lead to its publication leads to more such work.\<close>

lemma perform_passes_on:
  assumes "perform su w s = Some (ws, s')" and "will_publish uri s w"
    and "\<And>snapshot graph generation. w \<noteq> PublishSnapshot snapshot graph generation" and "\<And>u. w \<noteq> ClearDiagnostics u"
  shows "\<exists>x \<in> set ws. will_publish uri s x"
proof -
  have own: "ds_URI snap = uri \<and> same_text snap s \<and> snap \<in> set (Snapshots (ft_documents s))"
    if "SnapshotDocument (ft_documents s) uri = Some snap" for snap
    using Snapshots_member [OF that] snapshot_uri [OF that] that by (auto simp: same_text_def)
  show ?thesis
    using assms own
    by (cases "(su, w, s)" rule: perform.cases) (auto simp: Let_def split: if_splits option.splits prod.splits)
qed

lemma right_last:
  "last_publication uri a = last_publication uri b \<Longrightarrow> published_right su uri s a = published_right su uri s b"
  by (simp add: published_right_def)

lemma perform_publishes:
  assumes p: "perform su w s = Some (ws, s')" and allowed: "notification_allowed s" and ok: "work_ok su s w"
    and clear: "\<And>u. w = ClearDiagnostics u \<Longrightarrow> SnapshotDocument (ft_documents s) u = None"
    and right: "published_right su uri s (about_to s) \<or> will_publish uri s w"
  shows "published_right su uri s (about_to s') \<or> (\<exists>x \<in> set ws. will_publish uri s x)"
proof (cases w)
  case (PublishSnapshot snapshot graph generation)
  show ?thesis
  proof (cases "still_current snapshot generation s")
    case True
    then have current: "same_text snapshot s" "generation = snd (cache_Load (ft_cache s))" by (simp_all add: still_current_iff)
    have s': "about_to s' = about_to s @ [PublishDiagnostics (publish_params su snapshot graph)]"
      using p PublishSnapshot True by (auto split: if_splits dest: about_to_hold)
    have graph: "graph = fst (cache_Load (ft_cache s))" "taken su snapshot" using ok PublishSnapshot current by auto
    have uri: "pd_URI (publish_params su snapshot g) = ds_URI snapshot" for g by (simp add: publish_params_def)
    show ?thesis
    proof (cases "ds_URI snapshot = uri")
      case True
      then have "published_right su uri s (about_to s')"
        using current graph unfolding published_right_def s' by (auto simp: uri same_text_def)
      then show ?thesis ..
    next
      case False
      then have "last_publication uri (about_to s') = last_publication uri (about_to s)" by (simp add: s' uri)
      from right_last [OF this, of su s] show ?thesis using right PublishSnapshot False by simp
    qed
  next
    case False
    then show ?thesis using p right PublishSnapshot by (auto simp: still_current_iff split: if_splits)
  qed
next
  case (ClearDiagnostics u)
  then have s': "about_to s' = about_to s @ [PublishDiagnostics (clear_params u)]"
    using p by (auto split: if_splits dest: about_to_hold)
  have u: "pd_URI (clear_params v) = v" for v by (simp add: clear_params_def)
  show ?thesis
  proof (cases "u = uri")
    case True
    then show ?thesis using clear [OF ClearDiagnostics] by (simp add: published_right_def s' u)
  next
    case False
    then have "last_publication uri (about_to s') = last_publication uri (about_to s)" by (simp add: s' u)
    from right_last [OF this, of su s] show ?thesis using right ClearDiagnostics False by simp
  qed
qed (use right perform_passes_on [OF p] perform_about_to [OF p allowed] in \<open>auto simp: published_right_def\<close>)

section \<open>Each step of the server\<close>

lemma publish_cong:
  assumes "SnapshotDocument (ft_documents s') uri = SnapshotDocument (ft_documents s) uri" and "ft_cache s' = ft_cache s"
  shows "published_right su uri s' sent = published_right su uri s sent" and "will_publish uri s' w = will_publish uri s w"
proof -
  have same: "ds_URI snapshot = uri \<Longrightarrow> same_text snapshot s' = same_text snapshot s" for snapshot
    using assms(1) by (simp add: same_text_def)
  show "published_right su uri s' sent = published_right su uri s sent"
    using assms same by (simp add: published_right_def cong: conj_cong)
  show "will_publish uri s' w = will_publish uri s w"
    using assms same by (cases w) (auto cong: conj_cong)
qed

lemma work_ok_cong: "ft_cache s' = ft_cache s \<Longrightarrow> work_ok su s' w = work_ok su s w"
  by (cases w) simp_all

lemma thread_documents:
  assumes phase: "phase_inv s" and step: "thread_step su s s'" and live: "live s"
  obtains w ws s1 where "perform su w s = Some (ws, s1)" "w \<in> all_work s" "all_work s \<subseteq> insert w (all_work s')"
    "set ws \<subseteq> all_work s'" "ft_documents s' = ft_documents s" "ft_cache s' = ft_cache s" "about_to s' = about_to s1"
  using step
proof (cases rule: thread_stepE)
  case (1 w ws s1 h b)
  have "w \<noteq> CloseDocuments"
  proof
    assume "w = CloseDocuments"
    then have "closing w" "handler_only w" by auto
    then show False using phase 1(3) live by (auto simp: phase_inv_def all_work_split live_def)
  qed
  then show thesis
    using that [OF 1(1,3,4,5)] perform_features(2) [OF 1(1)] perform_threads [OF 1(1)] by (simp add: 1(2) about_to_def)
qed

lemma thread_frame: "thread_step su s s' \<Longrightarrow> live s' = live s \<and> ft_cache s' = ft_cache s"
  by (erule thread_stepE) (auto dest!: perform_threads simp: live_def)

lemma publish_thread:
  assumes phase: "phase_inv s" and ok: "\<forall>w \<in> all_work s. work_ok su s w" and live: "live s"
    and inv: "publish_inv su uri s" and step: "thread_step su s s'"
  shows "publish_inv su uri s'"
proof -
  obtain w ws s1 where w: "perform su w s = Some (ws, s1)" "w \<in> all_work s" "all_work s \<subseteq> insert w (all_work s')"
    "set ws \<subseteq> all_work s'" "ft_documents s' = ft_documents s" "ft_cache s' = ft_cache s" "about_to s' = about_to s1"
    using thread_documents [OF phase step live] by metis
  note cong = publish_cong [of s' uri s, OF _ w(6), unfolded w(5), OF refl]
  have clear: "SnapshotDocument (ft_documents s) u = None" if "w = ClearDiagnostics u" for u
    using phase w(2) that by (auto simp: phase_inv_def all_work_split)
  consider (right) "published_right su uri s (about_to s) \<or> will_publish uri s w"
    | (other) x where "x \<in> all_work s'" "will_publish uri s x"
    using inv w(3) by (auto simp: publish_inv_def)
  then show ?thesis
  proof cases
    case right
    have "work_ok su s w" using ok w(2) by simp
    from perform_publishes [OF w(1) running_allowed [OF phase live] this clear right]
    show ?thesis using w(4) unfolding publish_inv_def cong w(7) by blast
  next
    case other
    then show ?thesis unfolding publish_inv_def cong by blast
  qed
qed

lemma publish_request:
  assumes phase: "phase_inv s" and inv: "live s \<Longrightarrow> publish_inv su uri s" and idle: "sv_handler s = []"
    and d: "dispatched (lc_features s) rq" and h: "Handle su rq s = (r, s')" and live: "live s'"
  shows "publish_inv su uri s'"
  using h d idle
proof (cases rule: HandleE)
  case exit
  then show ?thesis using live by (simp add: live_def handle_exit_def stopWorker_simps)
next
  case unchanged
  then show ?thesis using inv live by simp
next
  case (initialize factory)
  then show ?thesis using live by (simp add: live_def)
next
  case initialized
  then have q: "quiet s" using phase by (simp add: phase_inv_def)
  have "ft_documents s' = ft_documents s" "about_to s' = about_to s"
    by (simp_all add: initialized(2) initialized_def SetNotifier_def Let_def about_to_def)
  then show ?thesis using q by (simp add: publish_inv_def published_right_def quiet_def SnapshotDocument_def about_to_def)
next
  case shutdown
  then show ?thesis using live by (auto simp: live_def lsp_shutdown_def Let_def stopWorker_simps case_prod_beta split: if_splits)
next
  case (document u)
  then obtain notify documents works where s': "s' = s\<lparr>ft_notify := notify, ft_documents := documents, sv_handler := works\<rparr>"
    and same: "\<forall>v. v \<noteq> u \<or> works = [] \<longrightarrow> SnapshotDocument documents v = SnapshotDocument (ft_documents s) v"
    and works: "works = [] \<or> (works = [PublishURI u] \<or> works = [PublishURI u, SaveToWorker u]) \<and> SnapshotDocument documents u \<noteq> None \<or>
      works = [ClearDiagnostics u] \<and> SnapshotDocument documents u = None"
    by (auto simp: document_effect_def)
  have fields: "ft_documents s' = documents" "ft_cache s' = ft_cache s" "about_to s' = about_to s"
    "all_work s \<subseteq> all_work s'" "set works \<subseteq> all_work s'"
    using idle by (simp_all add: s' about_to_def all_work_def)
  have "publish_inv su uri s" using inv live document(1,2) by (simp add: live_def s')
  then consider (other) "uri \<noteq> u \<or> works = []" | (own) w where "w \<in> all_work s'" "will_publish uri s' w"
    using works fields(1,5) by (cases "uri = u"; cases "works = []") auto
  then show ?thesis
  proof cases
    case other
    then have "SnapshotDocument (ft_documents s') uri = SnapshotDocument (ft_documents s) uri" using same fields(1) by auto
    note cong = publish_cong [OF this fields(2)]
    show ?thesis using \<open>publish_inv su uri s\<close> fields(4) unfolding publish_inv_def cong fields(3) by blast
  next
    case own
    then show ?thesis unfolding publish_inv_def by blast
  qed
qed

lemma cache_Replace_load:
  "cache_Replace (Some graph) c = (c', generation) \<Longrightarrow> cache_Load c' = (Some graph, generation) \<and> generation = snd (cache_Load c) + 1"
  by (auto simp: cache_Replace_def cache_Load_def Let_def split: option.splits)

lemma next_generation: "(g :: 64 word) + 1 \<noteq> 0 \<Longrightarrow> g < g + 1"
  by (metis add.commute lessI unatSuc word_less_nat_alt)

lemma work_ok_newer:
  assumes "work_ok su s w" and "snd (cache_Load (ft_cache s)) < snd (cache_Load (ft_cache s'))"
  shows "work_ok su s' w"
  using assms by (cases w) auto

lemma work_step:
  assumes ok: "\<forall>w \<in> all_work s. work_ok su s w" and s: "session su s" and step: "server_step su s s'"
  shows "\<forall>w \<in> all_work s'. work_ok su s' w"
  using step
proof (cases rule: server_step.cases)
  case goroutine
  then show ?thesis
  proof (cases rule: thread_stepE)
    case (1 w ws s1 h b)
    then have "\<forall>x \<in> set ws. work_ok su s x" using perform_ok [OF 1(1) s] ok by blast
    then show ?thesis using ok 1(6) work_ok_cong [of s' s] thread_frame [OF goroutine] by blast
  qed
next
  case (request rq r)
  have easy: "ft_cache s' = ft_cache s \<and> sv_background s' = sv_background s \<and> (\<forall>w \<in> set (sv_handler s'). work_ok su s' w)"
    using request(3,2,1)
  proof (cases rule: HandleE)
    case (initialize factory)
    then show ?thesis using request(1) by (auto simp: initialize_def split: option.splits sum.splits)
  next
    case (document uri)
    then show ?thesis by (auto simp: document_effect_def)
  qed (use request(1) in \<open>auto simp: handle_exit_def stopWorker_simps initialized_def SetNotifier_def lsp_shutdown_def Let_def case_prod_beta\<close>)
  then have "work_ok su s' w = work_ok su s w" for w by (intro work_ok_cong) simp
  then show ?thesis using ok easy request(1) by (auto simp: all_work_def)
next
  case (graph_loaded graph cache generation)
  note load = cache_Replace_load [OF graph_loaded(3)]
  have cache: "ft_cache s' = cache" by (simp add: graph_loaded(1) report_frame)
  then have newer: "snd (cache_Load (ft_cache s)) < snd (cache_Load (ft_cache s'))"
    using load graph_loaded(4) next_generation [of "snd (cache_Load (ft_cache s))"] by simp
  have "w \<in> all_work s' \<Longrightarrow> w \<in> all_work s \<or> w = RevalidateAll generation" for w
    by (auto simp: graph_loaded(1) all_work_split report_frame report_work cache_work split: if_splits)
  then show ?thesis using ok work_ok_newer [OF _ newer] load cache by fastforce
next
  case (worker_failed err)
  have "w \<in> all_work s' \<Longrightarrow> w \<in> all_work s \<or> w = NotifyFailure" for w
    by (auto simp: worker_failed(1) all_work_split report_frame report_work)
  moreover have "work_ok su s' w = work_ok su s w" for w by (rule work_ok_cong) (simp add: worker_failed(1) report_frame)
  ultimately show ?thesis using ok by fastforce
next
  case connection_closed
  then show ?thesis using ok work_ok_cong [of s' s] by (simp add: StopWorker_def stopWorker_simps)
qed

lemma publish_step:
  assumes ok: "\<forall>w \<in> all_work s. work_ok su s w" and s: "session su s" and step: "server_step su s s'"
    and inv: "live s \<Longrightarrow> publish_inv su uri s" and live: "live s'"
  shows "publish_inv su uri s'"
  using step
proof (cases rule: server_step.cases)
  case goroutine
  then show ?thesis using publish_thread [OF session_phase [OF s] ok _ inv] thread_frame live by blast
next
  case (request rq r)
  then show ?thesis using publish_request [OF session_phase [OF s] inv] live by blast
next
  case (graph_loaded graph cache generation)
  note load = cache_Replace_load [OF graph_loaded(3)]
  have fields: "ft_documents s' = ft_documents s" "about_to s' = about_to s" "ft_cache s' = cache"
    by (simp_all add: graph_loaded(1) about_to_def report_frame)
  have now: "live s" and features: "lc_features s" using live by (simp_all add: live_def graph_loaded(1) report_frame)
  show ?thesis
  proof (cases "SnapshotDocument (ft_documents s) uri = None")
    case False
    then have "will_publish uri s' (RevalidateAll generation)" using load fields by simp
    moreover have "RevalidateAll generation \<in> all_work s'"
      using features graph_loaded(4) by (simp add: graph_loaded(1) all_work_split report_work cache_work word_gt_0)
    ultimately show ?thesis unfolding publish_inv_def by blast
  next
    case True
    have subset: "all_work s \<subseteq> all_work s'" by (auto simp: graph_loaded(1) all_work_split report_work report_frame cache_work)
    have "published_right su uri s' sent = published_right su uri s sent" for sent
      using True fields(1) by (simp add: published_right_def)
    moreover have "will_publish uri s w \<Longrightarrow> will_publish uri s' w" for w
      using True fields(1) by (cases w) (auto simp: same_text_def)
    ultimately show ?thesis using inv [OF now] subset unfolding publish_inv_def fields(2) by blast
  qed
next
  case (worker_failed err)
  have fields: "ft_documents s' = ft_documents s" "about_to s' = about_to s" "ft_cache s' = ft_cache s" "all_work s \<subseteq> all_work s'"
    by (auto simp: worker_failed(1) about_to_def report_frame report_work all_work_split)
  have "live s" using live by (simp add: live_def worker_failed(1) report_frame)
  then have "publish_inv su uri s" using inv by simp
  moreover have "SnapshotDocument (ft_documents s') uri = SnapshotDocument (ft_documents s) uri" by (simp add: fields(1))
  note cong = publish_cong [OF this fields(3)]
  ultimately show ?thesis using fields(4) unfolding publish_inv_def fields(2) cong by blast
next
  case connection_closed
  have fields: "ft_documents s' = ft_documents s" "about_to s' = about_to s" "ft_cache s' = ft_cache s" "all_work s' = all_work s"
    by (simp_all add: connection_closed(1) StopWorker_def about_to_def stopWorker_simps)
  have "live s" using live by (simp add: live_def connection_closed(1) StopWorker_def stopWorker_simps)
  then have "publish_inv su uri s" using inv by simp
  moreover have "SnapshotDocument (ft_documents s') uri = SnapshotDocument (ft_documents s) uri" by (simp add: fields(1))
  note cong = publish_cong [OF this fields(3)]
  ultimately show ?thesis unfolding publish_inv_def fields(2,4) cong by blast
qed

lemma session_publication: "session su s \<Longrightarrow> (\<forall>w \<in> all_work s. work_ok su s w) \<and> (live s \<longrightarrow> publish_inv su uri s)"
proof (induction rule: session.induct)
  case (session_new features worker)
  show ?case by (simp add: live_def NewLifecycle_def all_work_def)
next
  case (session_step s s')
  then show ?case using work_step publish_step by blast
qed

section \<open>After the features are closed\<close>

definition silent :: "'tree server \<Rightarrow> bool" where
  "silent s \<longleftrightarrow> (ft_closed s \<longrightarrow> Send \<notin> all_work s)"

lemma perform_send: "perform su w s = Some (ws, s') \<Longrightarrow> Send \<in> set ws \<Longrightarrow> \<not> ft_closed s'"
  by (cases "(su, w, s)" rule: perform.cases)
    (auto simp: hold_def Let_def notification_allowed_def split: if_splits option.splits prod.splits)

lemma silent_thread:
  assumes inv: "silent s" and lock: "lock_inv s" and step: "thread_step su s s'"
  shows "silent s'"
  using step
proof (cases rule: thread_stepE)
  case (1 w ws s1 h b)
  have closed: "ft_closed s' = ft_closed s1" using 1(2) by simp
  show ?thesis
  proof (cases "ft_closed s' \<and> Send \<in> all_work s'")
    case True
    then have send: "Send \<in> all_work s" using 1(6) perform_send [OF 1(1)] closed by auto
    then have "\<not> ft_closed s" using inv by (simp add: silent_def)
    then have "w = CloseFeatures" using perform_features(1) [OF 1(1)] True closed by auto
    then have "sv_lock s = None" using 1(1) by (auto split: if_splits)
    then have "sum_list (map head_holds (threads s)) = 0" and tails: "\<forall>t \<in> set (threads s). \<forall>x \<in> set (tl t). \<not> holds x"
      using lock by (simp_all add: lock_inv_def)
    then have heads: "\<forall>t \<in> set (threads s). head_holds t = 0" by (simp add: sum_list_eq_0_iff)
    obtain t where t: "t \<in> set (threads s)" "Send \<in> set t" using send by (auto simp: all_work_threads)
    have "head_holds t = 0" "\<forall>x \<in> set (tl t). \<not> holds x" using heads tails t(1) by auto
    then show ?thesis using t(2) by (cases t) (auto split: if_splits)
  qed (simp add: silent_def)
qed

lemma silent_step:
  assumes inv: "silent s" and s: "session su s" and step: "server_step su s s'"
  shows "silent s'"
  using step
proof (cases rule: server_step.cases)
  case goroutine
  then show ?thesis using silent_thread [OF inv session_lock [OF s]] by blast
next
  case (request rq r)
  have "ft_closed s' = ft_closed s \<and> sv_background s' = sv_background s \<and> Send \<notin> set (sv_handler s')"
    using request(3,2,1)
  proof (cases rule: HandleE)
    case (initialize factory)
    then show ?thesis using request(1) by (auto simp: initialize_def split: option.splits sum.splits)
  next
    case (document uri)
    then show ?thesis by (auto simp: document_effect_def)
  qed (use request(1) in \<open>auto simp: handle_exit_def stopWorker_simps initialized_def SetNotifier_def lsp_shutdown_def Let_def case_prod_beta\<close>)
  then show ?thesis using inv by (simp add: silent_def all_work_def)
next
  case (graph_loaded graph cache generation)
  then show ?thesis using inv by (simp add: silent_def all_work_split report_frame report_work cache_work)
next
  case (worker_failed err)
  then show ?thesis using inv by (simp add: silent_def all_work_split report_frame report_work)
next
  case connection_closed
  then show ?thesis using inv by (simp add: silent_def StopWorker_def stopWorker_simps)
qed

lemma session_silent: "session su s \<Longrightarrow> silent s"
proof (induction rule: session.induct)
  case (session_new features worker)
  show ?case by (simp add: silent_def NewLifecycle_def)
qed (rule silent_step)

text \<open>The shutdown request is answered once the features are closed.\<close>

definition closes :: "'tree server \<Rightarrow> bool" where
  "closes s \<longleftrightarrow> (lc_state s = stateShutdown \<and> lc_features s \<longrightarrow> ft_closed s \<or> CloseFeatures \<in> set (sv_handler s))"

lemma closes_thread:
  assumes inv: "closes s" and step: "thread_step su s s'"
  shows "closes s'"
  using step
proof (cases rule: thread_step.cases)
  case (handler_step w ws ws' s1)
  note frame = perform_threads [OF handler_step(3)]
  show ?thesis
  proof (cases "w = CloseFeatures")
    case True
    then have "ft_closed s1" using handler_step(3) by (auto split: if_splits)
    then show ?thesis by (simp add: closes_def handler_step(1))
  next
    case False
    then show ?thesis using inv frame perform_features(1) [OF handler_step(3) False] handler_step(2)
      by (auto simp: closes_def handler_step(1))
  qed
next
  case (background_step i w ws ws' s1)
  note frame = perform_threads [OF background_step(4)]
  show ?thesis
  proof (cases "w = CloseFeatures")
    case True
    then have "ft_closed s1" using background_step(4) by (auto split: if_splits)
    then show ?thesis by (simp add: closes_def background_step(1))
  next
    case False
    then show ?thesis using inv frame perform_features(1) [OF background_step(4) False] by (simp add: closes_def background_step(1))
  qed
qed

lemma closes_step:
  assumes inv: "closes s" and step: "server_step su s s'"
  shows "closes s'"
  using step
proof (cases rule: server_step.cases)
  case goroutine
  then show ?thesis using closes_thread inv by blast
next
  case (request rq r)
  show ?thesis using request(3,2,1)
  proof (cases rule: HandleE)
    case shutdown
    then show ?thesis by (auto simp: closes_def lsp_shutdown_def Let_def stopWorker_simps case_prod_beta)
  next
    case (document uri)
    then show ?thesis by (auto simp: closes_def document_effect_def)
  qed (use inv in \<open>auto simp: closes_def handle_exit_def Let_def stopWorker_simps\<close>)
next
  case (graph_loaded graph cache generation)
  then show ?thesis using inv by (simp add: closes_def report_frame)
next
  case (worker_failed err)
  then show ?thesis using inv by (simp add: closes_def report_frame)
next
  case connection_closed
  then show ?thesis using inv by (simp add: closes_def StopWorker_def stopWorker_simps)
qed

lemma session_closes: "session su s \<Longrightarrow> closes s"
proof (induction rule: session.induct)
  case (session_new features worker)
  show ?case by (simp add: closes_def NewLifecycle_def)
qed (rule closes_step)

definition publications :: "outgoing list \<Rightarrow> outgoing list" where
  "publications sent = filter (\<lambda>p. p \<noteq> ShowMessage) sent"

lemma perform_sends:
  "perform su w s = Some (ws, s') \<Longrightarrow> w \<noteq> Send \<Longrightarrow> publications (sv_sent s') = publications (sv_sent s)"
  "perform su w s = Some (ws, s') \<Longrightarrow> ft_closed s \<Longrightarrow> ft_closed s'"
  by (cases "(su, w, s)" rule: perform.cases;
      auto simp: hold_def Let_def publications_def split: if_splits option.splits prod.splits)+

lemma closed_step:
  assumes s: "session su s" and closed: "ft_closed s" and step: "server_step su s s'"
  shows "ft_closed s' \<and> publications (sv_sent s') = publications (sv_sent s)"
  using step
proof (cases rule: server_step.cases)
  case goroutine
  then show ?thesis
  proof (cases rule: thread_stepE)
    case (1 w ws s1 h b)
    have "w \<noteq> Send" using session_silent [OF s] closed 1(3) by (auto simp: silent_def)
    then show ?thesis using perform_sends [OF 1(1)] closed by (simp add: 1(2))
  qed
next
  case (request rq r)
  show ?thesis using request(3,2,1)
  proof (cases rule: HandleE)
    case (initialize factory)
    then show ?thesis using closed by (auto simp: initialize_def split: option.splits sum.splits)
  next
    case (document uri)
    then show ?thesis using closed by (auto simp: document_effect_def)
  qed (use closed in \<open>auto simp: handle_exit_def stopWorker_simps initialized_def SetNotifier_def lsp_shutdown_def Let_def case_prod_beta\<close>)
next
  case (graph_loaded graph cache generation)
  then show ?thesis using closed by (simp add: report_frame)
next
  case (worker_failed err)
  then show ?thesis using closed by (simp add: report_frame)
next
  case connection_closed
  then show ?thesis using closed by (simp add: StopWorker_def stopWorker_simps)
qed

lemma closed_steps:
  assumes steps: "(server_step su)\<^sup>*\<^sup>* s s'" and s: "session su s" and closed: "ft_closed s"
  shows "session su s' \<and> ft_closed s' \<and> publications (sv_sent s') = publications (sv_sent s)"
  using steps
proof (induction rule: rtranclp_induct)
  case base
  show ?case using s closed by simp
next
  case (step a b)
  then show ?case using closed_step [of su a b] session_step [of su a b] by auto
qed

end
