(* ===== verification/Lsp_Lifecycle_Facts.thy ===== *)
theory Lsp_Lifecycle_Facts
  imports Lsp_Session_Invariant "HOL-Library.Sublist"
begin

text \<open>How a session ends, from the requests it got, and how it uses the worker.\<close>

section \<open>The requests of a run\<close>

inductive history :: "'tree surroundings \<Rightarrow> 'tree server \<Rightarrow> lspRequest list \<Rightarrow> bool" for su where
  history_new: "history su (NewLifecycle NewStore newCache features worker) []"
| history_request: "history su s rqs \<Longrightarrow> sv_handler s = [] \<Longrightarrow> dispatched (lc_features s) rq \<Longrightarrow> Handle su rq s = (r, s') \<Longrightarrow>
    history su s' (rqs @ [rq])"
| history_other: "history su s rqs \<Longrightarrow> thread_step su s s' \<or> s' = worker_report generation err (s\<lparr>ft_cache := cache\<rparr>) \<or> s' = StopWorker s \<Longrightarrow>
    history su s' rqs"

datatype milestone = Initializing | Initialised | ShuttingDown

fun milestone_of :: "call \<Rightarrow> milestone option" where
  "milestone_of (CallInitialize factory) = Some Initializing"
| "milestone_of CallInitialized = Some Initialised"
| "milestone_of CallShutdown = Some ShuttingDown"
| "milestone_of call = None"

definition milestones :: "lspRequest list \<Rightarrow> milestone list" where
  "milestones rqs = List.map_filter (\<lambda>rq. milestone_of (rq_call rq)) rqs"

text \<open>The phase that a sequence of milestones leads to: each phase waits for its own.\<close>

fun phase_after :: "milestone \<Rightarrow> lifecycleState \<Rightarrow> lifecycleState" where
  "phase_after Initializing stateNew = stateInitialized"
| "phase_after Initialised stateInitialized = stateRunning"
| "phase_after ShuttingDown stateRunning = stateShutdown"
| "phase_after m p = p"

definition phase_of :: "lspRequest list \<Rightarrow> lifecycleState" where
  "phase_of rqs = fold phase_after (milestones rqs) stateNew"

definition exits :: "lspRequest \<Rightarrow> bool" where
  "exits rq \<longleftrightarrow> rq_method rq = MExit"

text \<open>The requests before the last \<open>exit\<close>.\<close>

definition before_exit :: "lspRequest list \<Rightarrow> lspRequest list" where
  "before_exit rqs = butlast (rev (dropWhile (\<lambda>rq. \<not> exits rq) (rev rqs)))"

lemma milestones_append: "milestones (rqs @ [rq]) = milestones rqs @ (case milestone_of (rq_call rq) of None \<Rightarrow> [] | Some m \<Rightarrow> [m])"
  by (simp add: milestones_def map_filter_def split: option.splits)

lemma phase_of_append: "phase_of (rqs @ [rq]) = (case milestone_of (rq_call rq) of None \<Rightarrow> phase_of rqs | Some m \<Rightarrow> phase_after m (phase_of rqs))"
  by (simp add: phase_of_def milestones_append split: option.splits)

lemma stopWorker_state: "lc_state (snd (stopWorker s)) = lc_state s" "lc_exited (snd (stopWorker s)) = lc_exited s"
  "lc_exitCode (snd (stopWorker s)) = lc_exitCode s"
  by (simp_all add: stopWorker_simps)

lemma exit_no_call: "dispatched features rq \<Longrightarrow> exits rq \<Longrightarrow> milestone_of (rq_call rq) = None"
  by (cases "rq_call rq") (auto simp: dispatched_def exits_def)

lemma setNotifier_state [simp]: "lc_state (setNotifier b s) = lc_state s" "lc_exited (setNotifier b s) = lc_exited s"
  "lc_exitCode (setNotifier b s) = lc_exitCode s" "lc_features (setNotifier b s) = lc_features s"
  by (simp_all add: setNotifier_def)

lemma document_state:
  "lc_state (snd (didOpen su b uri v c s)) = lc_state s" "lc_exited (snd (didOpen su b uri v c s)) = lc_exited s"
  "lc_exitCode (snd (didOpen su b uri v c s)) = lc_exitCode s"
  "lc_state (snd (didChange su b uri v raws s)) = lc_state s" "lc_exited (snd (didChange su b uri v raws s)) = lc_exited s"
  "lc_exitCode (snd (didChange su b uri v raws s)) = lc_exitCode s"
  "lc_state (didClose b uri s) = lc_state s" "lc_exited (didClose b uri s) = lc_exited s" "lc_exitCode (didClose b uri s) = lc_exitCode s"
  "lc_state (snd (didSave su b uri x s)) = lc_state s" "lc_exited (snd (didSave su b uri x s)) = lc_exited s"
  "lc_exitCode (snd (didSave su b uri x s)) = lc_exitCode s"
  by (auto simp: didOpen_def didChange_def didClose_def didSave_def Let_def split: prod.splits sum.splits)

lemma initialize_state:
  "lc_state (initialize factory s) = lc_state s" "lc_exited (initialize factory s) = lc_exited s" "lc_exitCode (initialize factory s) = lc_exitCode s"
  by (auto simp: initialize_def split: option.splits sum.splits)

lemma initialized_state:
  "lc_state (initialized n s) = lc_state s" "lc_exited (initialized n s) = lc_exited s" "lc_exitCode (initialized n s) = lc_exitCode s"
  by (auto simp: initialized_def SetNotifier_def Let_def)

lemma shutdown_state:
  "lc_state (snd (lsp_shutdown s)) = stateShutdown" "lc_exited (snd (lsp_shutdown s)) = lc_exited s" "lc_exitCode (snd (lsp_shutdown s)) = lc_exitCode s"
  by (auto simp: lsp_shutdown_def Let_def case_prod_beta stopWorker_simps)

lemma Handle_phase:
  assumes h: "Handle su rq s = (r, s')" and d: "dispatched (lc_features s) rq" and n: "\<not> exits rq"
  shows "lc_state s' = (case milestone_of (rq_call rq) of None \<Rightarrow> lc_state s | Some m \<Rightarrow> phase_after m (lc_state s))"
    and "lc_exited s' = lc_exited s" and "lc_exitCode s' = lc_exitCode s"
  using assms
  by (cases "rq_call rq"; cases "lc_state s";
      auto simp: Handle_def dispatched_def exits_def state_refuses_def called_def after_request_def document_state
        initialize_state initialized_state shutdown_state split: if_splits lspmethod.splits)+

lemma Handle_exit:
  "Handle su rq s = (r, s') \<Longrightarrow> exits rq \<Longrightarrow> lc_state s' = lc_state s \<and> lc_exited s' \<and>
     lc_exitCode s' = (if lc_state s = stateShutdown then 0 else 1)"
  by (auto simp: Handle_def exits_def handle_exit_def stopWorker_simps Let_def)

lemma before_exit_append: "before_exit (rqs @ [rq]) = (if exits rq then rqs else before_exit rqs)"
  by (simp add: before_exit_def)

lemma history_state:
  "history su s rqs \<Longrightarrow> lc_state s = phase_of rqs \<and> (lc_exited s \<longleftrightarrow> (\<exists>rq \<in> set rqs. exits rq)) \<and>
     (lc_exited s \<longrightarrow> lc_exitCode s = (if phase_of (before_exit rqs) = stateShutdown then 0 else 1))"
proof (induction rule: history.induct)
  case (history_new features worker)
  show ?case by (simp add: NewLifecycle_def phase_of_def milestones_def map_filter_def)
next
  case (history_request s rqs rq r s')
  show ?case
  proof (cases "exits rq")
    case True
    then show ?thesis
      using Handle_exit [OF history_request(4) True] exit_no_call [OF history_request(3) True] history_request.IH by (simp add: before_exit_append phase_of_append)
  next
    case False
    note h = Handle_phase [OF history_request(4,3) False]
    show ?thesis using h history_request.IH False by (simp add: before_exit_append phase_of_append split: option.splits)
  qed
next
  case (history_other s rqs s' generation err cache)
  then have "lc_state s' = lc_state s \<and> lc_exited s' = lc_exited s \<and> lc_exitCode s' = lc_exitCode s"
    by (elim disjE) (auto elim!: thread_stepE dest!: perform_threads simp: worker_report_def StopWorker_def stopWorker_simps)
  then show ?case using history_other.IH by simp
qed

lemma subseq_snoc: "subseq (xs @ [x]) (ys @ [y]) \<longleftrightarrow> subseq (xs @ [x]) ys \<or> x = y \<and> subseq xs ys"
proof
  assume "subseq (xs @ [x]) (ys @ [y])"
  then show "subseq (xs @ [x]) ys \<or> x = y \<and> subseq xs ys"
  proof (cases rule: subseq_appendE)
    case (append a b)
    have "b = [] \<or> b = [y]" using append(3) by (cases b) (auto split: if_splits)
    then show ?thesis using append(1,2) by auto
  qed
qed (auto intro: subseq_rev_drop_many list_emb_append_mono)

lemma milestones_phase:
  "let p = fold phase_after ms stateNew in (p \<noteq> stateNew \<longleftrightarrow> subseq [Initializing] ms) \<and>
     (p = stateRunning \<or> p = stateShutdown \<longleftrightarrow> subseq [Initializing, Initialised] ms) \<and>
     (p = stateShutdown \<longleftrightarrow> subseq [Initializing, Initialised, ShuttingDown] ms)"
proof (induction ms rule: rev_induct)
  case (snoc m ms)
  have "subseq [Initializing] (ms @ [m]) \<longleftrightarrow> subseq [Initializing] ms \<or> m = Initializing"
    "subseq [Initializing, Initialised] (ms @ [m]) \<longleftrightarrow> subseq [Initializing, Initialised] ms \<or> m = Initialised \<and> subseq [Initializing] ms"
    "subseq [Initializing, Initialised, ShuttingDown] (ms @ [m]) \<longleftrightarrow>
       subseq [Initializing, Initialised, ShuttingDown] ms \<or> m = ShuttingDown \<and> subseq [Initializing, Initialised] ms"
    using subseq_snoc [of "[]" Initializing ms m] subseq_snoc [of "[Initializing]" Initialised ms m]
      subseq_snoc [of "[Initializing, Initialised]" ShuttingDown ms m] by auto
  then show ?case using snoc by (cases m; cases "fold phase_after ms stateNew") (auto simp: Let_def)
qed simp

section \<open>The worker\<close>

text \<open>Every save comes after the start.\<close>

definition saves_started :: "workercall list \<Rightarrow> bool" where
  "saves_started calls \<longleftrightarrow> (\<forall>before path after. calls = before @ WorkerDidSave path # after \<longrightarrow> WorkerStart \<in> set before)"

definition worker_inv :: "'tree server \<Rightarrow> bool" where
  "worker_inv s \<longleftrightarrow>
     count_list (sv_worker_calls s) WorkerStop = (if lc_workerStopped s then 1 else 0) \<and>
     count_list (sv_worker_calls s) WorkerStart \<le> 1 \<and>
     saves_started (sv_worker_calls s) \<and>
     (lc_worker s \<noteq> None \<or> lc_state s = stateNew \<longrightarrow> lc_configurationError s = None) \<and>
     (lc_state s = stateRunning \<or> lc_state s = stateShutdown \<longrightarrow> lc_worker s \<noteq> None \<longrightarrow> WorkerStart \<in> set (sv_worker_calls s))"

lemma calls_append:
  assumes saves: "saves_started calls" and new: "\<And>path. c = WorkerDidSave path \<Longrightarrow> WorkerStart \<in> set calls"
  shows "saves_started (calls @ [c])"
  unfolding saves_started_def
proof (intro allI impI)
  fix before path after
  assume eq: "calls @ [c] = before @ WorkerDidSave path # after"
  show "WorkerStart \<in> set before"
  proof (cases after rule: rev_cases)
    case Nil
    then show ?thesis using eq new by auto
  next
    case (snoc more d)
    then have "calls = before @ WorkerDidSave path # more" using eq by auto
    then show ?thesis using saves by (simp add: saves_started_def)
  qed
qed

lemma saves_append:
  "saves_started calls \<Longrightarrow> saves_started (calls @ [WorkerStop])"
  "saves_started calls \<Longrightarrow> saves_started (calls @ [WorkerStart])"
  "saves_started calls \<Longrightarrow> WorkerStart \<in> set calls \<Longrightarrow> saves_started (calls @ [WorkerDidSave path])"
  by (rule calls_append; simp)+

lemma worker_stop:
  assumes "worker_inv s"
  shows "worker_inv (snd (stopWorker s))"
  using assms by (auto simp: worker_inv_def stopWorker_def saves_append split: option.splits)

lemma worker_cong:
  assumes "worker_inv s" and "sv_worker_calls s' = sv_worker_calls s" and "lc_workerStopped s' = lc_workerStopped s"
    and "lc_worker s' = lc_worker s" and "lc_configurationError s' = lc_configurationError s"
    and "lc_state s' = stateNew \<longrightarrow> lc_state s = stateNew"
    and "lc_state s' = stateRunning \<or> lc_state s' = stateShutdown \<longrightarrow> lc_state s = stateRunning \<or> lc_state s = stateShutdown"
  shows "worker_inv s'"
  using assms unfolding worker_inv_def by auto

lemma perform_calls:
  assumes "perform su w s = Some (ws, s')"
  shows "sv_worker_calls s' = sv_worker_calls s \<or>
    lc_worker s \<noteq> None \<and> (\<exists>path. sv_worker_calls s' = sv_worker_calls s @ [WorkerDidSave path])"
  using assms
  by (cases "(su, w, s)" rule: perform.cases) (auto simp: hold_def Let_def split: if_splits option.splits prod.splits)

lemma worker_thread:
  assumes inv: "worker_inv s" and phase: "phase_inv s" and step: "thread_step su s s'"
  shows "worker_inv s'"
  using step
proof (cases rule: thread_stepE)
  case (1 w ws s1 h b)
  note frame = perform_threads [OF 1(1)]
  have started: "lc_state s = stateRunning \<or> lc_state s = stateShutdown"
    using phase 1(3) by (cases "lc_state s") (auto simp: phase_inv_def quiet_def)
  have fields: "lc_worker s' = lc_worker s" "lc_configurationError s' = lc_configurationError s" "lc_state s' = lc_state s"
    "lc_workerStopped s' = lc_workerStopped s" "sv_worker_calls s' = sv_worker_calls s1"
    using frame by (simp_all add: 1(2))
  consider "sv_worker_calls s1 = sv_worker_calls s"
    | path where "lc_worker s \<noteq> None" "sv_worker_calls s1 = sv_worker_calls s @ [WorkerDidSave path]"
    using perform_calls [OF 1(1)] by auto
  then show ?thesis
  proof cases
    case 1
    then show ?thesis by (intro worker_cong [OF inv]) (simp_all add: fields)
  next
    case (2 path)
    then have "WorkerStart \<in> set (sv_worker_calls s)" using inv started by (auto simp: worker_inv_def)
    then show ?thesis
      using inv unfolding worker_inv_def fields 2(2) by (simp add: saves_append)
  qed
qed

lemma worker_request:
  assumes inv: "worker_inv s" and phase: "phase_inv s" and idle: "sv_handler s = []" and d: "dispatched (lc_features s) rq"
    and h: "Handle su rq s = (r, s')"
  shows "worker_inv s'"
  using h d idle
proof (cases rule: HandleE)
  case exit
  let ?s = "s\<lparr>lc_exited := True, lc_exitCode := (if lc_state s = stateShutdown then 0 else 1)\<rparr>"
  have "worker_inv (snd (stopWorker ?s))" by (rule worker_stop [OF worker_cong [OF inv]]) simp_all
  then show ?thesis unfolding exit handle_exit_def Let_def by (rule worker_cong) simp_all
next
  case unchanged
  then show ?thesis using inv by simp
next
  case (initialize factory)
  then show ?thesis using inv
    by (auto simp: worker_inv_def initialize_def split: option.splits sum.splits)
next
  case initialized
  have "count_list (sv_worker_calls s) WorkerStart = 0" using phase initialized(1) by (simp add: phase_inv_def quiet_def count_list_0_iff)
  then show ?thesis using inv
    unfolding worker_inv_def initialized(2) by (simp add: saves_append initialized_def SetNotifier_def Let_def)
next
  case shutdown
  let ?s = "s\<lparr>lc_state := stateShutdown, lc_notifier := False\<rparr>"
  have "worker_inv (snd (stopWorker ?s))" by (rule worker_stop [OF worker_cong [OF inv]]) (simp_all add: shutdown)
  moreover have "snd (lsp_shutdown s) = (let s1 = snd (stopWorker ?s) in if lc_features s1 then s1\<lparr>sv_handler := [CloseFeatures]\<rparr> else s1)"
    by (simp add: lsp_shutdown_def Let_def case_prod_beta)
  ultimately show ?thesis unfolding shutdown(2) by (auto simp: Let_def intro: worker_cong)
next
  case (document uri)
  then show ?thesis using worker_cong [OF inv, of s'] by (auto simp: document_effect_def)
qed

lemma session_worker: "session su s \<Longrightarrow> worker_inv s"
proof (induction rule: session.induct)
  case (session_new features worker)
  show ?case by (simp add: worker_inv_def NewLifecycle_def saves_started_def)
next
  case (session_step s s')
  note phase = session_phase [OF session_step(1)]
  show ?case
    using session_step(2)
  proof (cases rule: server_step.cases)
    case goroutine
    then show ?thesis using worker_thread session_step.IH phase by blast
  next
    case (request rq r)
    then show ?thesis using worker_request session_step.IH phase by blast
  next
    case (graph_loaded graph cache generation)
    then show ?thesis by (intro worker_cong [OF session_step.IH]) (simp_all add: worker_report_def split: if_split)
  next
    case (worker_failed err)
    then show ?thesis by (intro worker_cong [OF session_step.IH]) (simp_all add: worker_report_def split: if_split)
  next
    case connection_closed
    then show ?thesis using worker_stop [OF session_step.IH] by (simp add: StopWorker_def)
  qed
qed

end
