(* ===== verification/Lsp_Session_Properties.thy ===== *)
theory Lsp_Session_Properties
  imports Lsp_Session_Diagnostics Lsp_Lifecycle_Facts
begin

text \<open>The properties of a session of the language server, for every interleaving of its goroutines.\<close>

section \<open>A sample session\<close>

text \<open>The handler's goroutine alone, for some steps.\<close>

fun run_handler :: "'tree surroundings \<Rightarrow> nat \<Rightarrow> 'tree server \<Rightarrow> 'tree server" where
  "run_handler su 0 s = s"
| "run_handler su (Suc n) s = (case sv_handler s of
     [] \<Rightarrow> s
   | w # ws \<Rightarrow> (case perform su w s of None \<Rightarrow> s | Some (ws', s') \<Rightarrow> run_handler su n (s'\<lparr>sv_handler := ws' @ ws\<rparr>)))"

lemma run_handler_session: "session su s \<Longrightarrow> session su (run_handler su n s)"
proof (induction n arbitrary: s)
  case (Suc n)
  show ?case
  proof (cases "sv_handler s")
    case (Cons w ws)
    show ?thesis
    proof (cases "perform su w s")
      case (Some r)
      obtain ws' s' where r: "r = (ws', s')" by (cases r)
      have "thread_step su s (s'\<lparr>sv_handler := ws' @ ws\<rparr>)" using handler_step [OF Cons] Some r by simp
      then have "session su (s'\<lparr>sv_handler := ws' @ ws\<rparr>)" using session_step [OF Suc.prems] goroutine by blast
      then show ?thesis using Suc.IH Cons Some r by simp
    qed (use Cons Suc.prems in simp)
  qed (use Suc.prems in simp)
qed simp

definition serve :: "'tree surroundings \<Rightarrow> 'tree server \<Rightarrow> lspRequest \<Rightarrow> 'tree server" where
  "serve su s rq = run_handler su 8 (snd (Handle su rq s))"

lemma serve_session:
  "session su s \<Longrightarrow> sv_handler s = [] \<Longrightarrow> dispatched (lc_features s) rq \<Longrightarrow> session su (serve su s rq)"
  unfolding serve_def using run_handler_session session_step request prod.collapse by metis

definition session_grammar :: "unit grammar" where
  "session_grammar = \<lparr>g_parse = (\<lambda>source old. (NewTree (), None)), g_root_error = (\<lambda>t. Some False), g_copy = Some, g_edit = (\<lambda>e t. t),
     g_captures = (\<lambda>t source. \<lparr>scope_captures = [], guarded_captures = [], statement_captures = []\<rparr>), g_calls = (\<lambda>t source. []), g_wide = (\<lambda>r. False), g_annotated = (\<lambda>t. False)\<rparr>"

definition sample_surroundings :: "unit surroundings" where
  "sample_surroundings = \<lparr>su_grammar = session_grammar, su_quote = (\<lambda>q. q), su_parse = (\<lambda>u. None), su_symlinks = (\<lambda>p. None)\<rparr>"

definition sample_request :: "lspmethod \<Rightarrow> call \<Rightarrow> lspRequest" where
  "sample_request method call = \<lparr>rq_method = method, rq_notify = True, rq_call = call\<rparr>"

definition sample_running :: "unit server" where
  "sample_running = serve sample_surroundings (serve sample_surroundings (NewLifecycle NewStore newCache True None)
     (sample_request MInitialize (CallInitialize (Some (Inr None))))) (sample_request MInitialized CallInitialized)"

definition sample_open :: "unit server" where
  "sample_open = serve sample_surroundings sample_running (sample_request MDidOpen (CallDidOpen ''u'' 3 ''x''))"

lemma run_handler_idle: "sv_handler s = [] \<Longrightarrow> run_handler su n s = s"
  by (cases n) simp_all

lemma sample_running_state:
  "sample_running = (NewLifecycle NewStore newCache True (Some None))\<lparr>lc_state := stateRunning, lc_notifier := True,
     ft_notify := Some ViaLifecycle, sv_worker_calls := [WorkerStart]\<rparr>"
  by (simp add: sample_running_def serve_def sample_request_def Handle_def NewLifecycle_def state_refuses_def called_def
      initialize_def initialized_def SetNotifier_def after_request_def Let_def run_handler_idle)

lemma sample_running_session: "session sample_surroundings sample_running"
  unfolding sample_running_def
  by (intro serve_session session_new)
    (simp_all add: serve_def sample_request_def Handle_def NewLifecycle_def state_refuses_def called_def dispatched_def
      initialize_def after_request_def Let_def run_handler_idle)

definition sample_store :: "unit store" where
  "sample_store = open_commit session_grammar ''u'' [] 3 ''x'' (Some 0)
     (NewStore\<lparr>st_heap := (st_heap NewStore)(0 \<mapsto> ()), st_next := Suc 0\<rparr>)"

lemma sample_opens: "OpenFile session_grammar ''u'' [] 3 ''x'' NewStore = (None, sample_store)"
  using ascii_valid [of "''x''"] validateSource_None [of "''x''"]
  by (simp add: OpenFile_def sample_store_def open_parse_def parse_def session_grammar_def alloc_def NewStore_def
      MaxDocumentSize_def del: Valid.simps)

definition open_snapshot :: DocSnapshot where
  "open_snapshot = snapshot_of ''u'' \<lparr>doc_filePath = [], doc_version = 3, doc_source = ''x'', doc_tree = Some 0,
     doc_syntax = store_syntax session_grammar (Some ()) ''x'', doc_calls = store_calls session_grammar (Some ()) ''x''\<rparr>"

lemma sample_store_snapshot: "SnapshotDocument sample_store ''u'' = Some open_snapshot"
  by (simp add: sample_store_def open_snapshot_def SnapshotDocument_def open_commit_def NewStore_def Let_def tree_at_def)

lemma sample_open_state:
  "sample_open = sample_running\<lparr>ft_documents := sample_store,
     sv_sent := [PublishDiagnostics (publish_params sample_surroundings open_snapshot None)]\<rparr>"
proof -
  have opened: "snd (Handle sample_surroundings (sample_request MDidOpen (CallDidOpen ''u'' 3 ''x'')) sample_running) =
      sample_running\<lparr>ft_documents := sample_store, sv_handler := [PublishURI ''u'']\<rparr>"
    using sample_opens
    by (simp add: sample_running_state NewLifecycle_def Handle_def sample_request_def state_refuses_def didOpen_def setNotifier_def
        localFilePath_def sample_surroundings_def called_def after_request_def Let_def)
  have uri: "ds_URI open_snapshot = ''u''" by (simp add: open_snapshot_def snapshot_of_def)
  have "still_current open_snapshot 0 (sample_running\<lparr>ft_documents := sample_store, sv_handler := []\<rparr>)"
    by (simp add: still_current_def uri sample_store_snapshot sample_running_state NewLifecycle_def newCache_def cache_Load_def)
  then show ?thesis unfolding sample_open_def serve_def opened
    by (simp add: eval_nat_numeral sample_store_snapshot sample_running_state NewLifecycle_def newCache_def cache_Load_def
        still_current_def uri hold_def notification_allowed_def lifecycle_allows_def)
qed

lemma sample_open_session: "session sample_surroundings sample_open"
  unfolding sample_open_def
  by (intro serve_session sample_running_session)
    (simp_all add: sample_running_state NewLifecycle_def sample_request_def dispatched_def)

lemma sample_open_facts:
  "live sample_open" "all_work sample_open = {}" "ft_documents sample_open = sample_store" "ft_cache sample_open = newCache"
  by (simp_all add: sample_open_state sample_running_state NewLifecycle_def live_def all_work_def)

section \<open>Diagnostics\<close>

text \<open>C35.
  Once no goroutine has anything left to do in a session that is running, the diagnostics sent last
  for a document that is not open are none, and those for an open document were computed from a
  snapshot with its present version and text and from the graph that the cache holds now. This is so
  for every interleaving of edits, publications, revalidations and new graphs.
\<close>

theorem diagnostics_converge:
  assumes "session su s" and "live s" and "all_work s = {}"
  shows "case SnapshotDocument (ft_documents s) uri of
      None \<Rightarrow> last_publication uri (sv_sent s) \<in> {None, Some (PublishDiagnostics (clear_params uri))}
    | Some current \<Rightarrow> \<exists>snapshot. taken su snapshot \<and> ds_URI snapshot = uri \<and> ds_Version snapshot = ds_Version current \<and>
        ds_Source snapshot = ds_Source current \<and>
        last_publication uri (sv_sent s) = Some (PublishDiagnostics (publish_params su snapshot (fst (cache_Load (ft_cache s)))))"
proof -
  have "sv_lock s = None"
  proof -
    have "sum_list (map head_holds (threads s)) = 0" using assms(3) by (auto simp: all_work_threads sum_list_eq_0_iff)
    then show ?thesis using session_lock [OF assms(1)] unfolding lock_inv_def by (metis zero_neq_one)
  qed
  then have "published_right su uri s (sv_sent s)"
    using session_publication [OF assms(1)] assms(2,3) by (auto simp: publish_inv_def about_to_def)
  then show ?thesis by (auto simp: published_right_def same_text_def split: option.splits if_splits)
qed

lemma diagnostics_converge_witness:
  "\<exists>snapshot. taken sample_surroundings snapshot \<and> ds_URI snapshot = ''u'' \<and> ds_Version snapshot = 3 \<and>
     ds_Source snapshot = ''x'' \<and>
     last_publication ''u'' (sv_sent sample_open) = Some (PublishDiagnostics (publish_params sample_surroundings snapshot None))"
  using diagnostics_converge [OF sample_open_session sample_open_facts(1,2), of "''u''"]
  by (simp add: sample_open_facts sample_store_snapshot open_snapshot_def snapshot_of_def newCache_def cache_Load_def)

text \<open>C36.
  The work of the goroutines always comes to an end: without new requests and reports there is no
  infinite run of their steps, and as long as there is work left some goroutine can go on, so that
  the mutex of the diagnostics never blocks them all.
\<close>

theorem work_drains:
  assumes "session su s"
  shows "wf {(b, a). thread_step su a b} \<and> ((\<exists>s'. thread_step su s s') \<longleftrightarrow> all_work s \<noteq> {})"
  using steps_end [of su] can_go_on [OF session_lock [OF assms]] by (auto elim: thread_stepE)

lemma work_drains_witness: "\<not> (\<exists>s'. thread_step sample_surroundings sample_open s')"
  using work_drains [OF sample_open_session] sample_open_facts(2) by simp

text \<open>C37.
  Once the shutdown request has been answered, nothing more is published: whatever the goroutines that
  are still running, later requests and the worker do, the diagnostics sent stay the same.
\<close>

theorem shutdown_silences:
  assumes "session su s" and "lc_state s = stateShutdown" and "lc_features s" and "sv_handler s = []"
    and "(server_step su)\<^sup>*\<^sup>* s s'"
  shows "publications (sv_sent s') = publications (sv_sent s)"
  using session_closes [OF assms(1)] closed_steps [OF assms(5,1)] assms(2-4) by (auto simp: closes_def)

definition sample_shutdown :: "unit server" where
  "sample_shutdown = serve sample_surroundings sample_open (sample_request MShutdown CallShutdown)"

lemma sample_shutdown_session: "session sample_surroundings sample_shutdown"
  unfolding sample_shutdown_def
  by (intro serve_session sample_open_session)
    (simp_all add: sample_open_state sample_running_state NewLifecycle_def sample_request_def dispatched_def)

lemma sample_shutdown_facts: "lc_state sample_shutdown = stateShutdown" "lc_features sample_shutdown" "sv_handler sample_shutdown = []"
  by (simp_all add: sample_shutdown_def serve_def sample_request_def sample_open_state sample_running_state NewLifecycle_def
      Handle_def state_refuses_def called_def lsp_shutdown_def stopWorker_def after_request_def eval_nat_numeral)

lemma shutdown_silences_witness:
  "publications (sv_sent (worker_report 0 (Some (errorf ''failed'' [])) (StopWorker sample_shutdown))) = publications (sv_sent sample_shutdown)"
proof -
  have "WorkerStart \<in> set (sv_worker_calls (StopWorker sample_shutdown))"
    by (simp add: StopWorker_def sample_shutdown_def serve_def sample_request_def sample_open_state sample_running_state NewLifecycle_def
      Handle_def state_refuses_def called_def lsp_shutdown_def stopWorker_def after_request_def eval_nat_numeral)
  then have "(server_step sample_surroundings)\<^sup>*\<^sup>* sample_shutdown (worker_report 0 (Some (errorf ''failed'' [])) (StopWorker sample_shutdown))"
    using connection_closed worker_failed by (metis (no_types) r_into_rtranclp rtranclp.rtrancl_into_rtrancl)
  then show ?thesis by (rule shutdown_silences [OF sample_shutdown_session sample_shutdown_facts])
qed

section \<open>The lifecycle\<close>

text \<open>C38.
  The server has exited exactly when it got an \<open>exit\<close>, and its exit code is 0 exactly when the
  requests before the last \<open>exit\<close> had an \<open>initialize\<close>, an \<open>initialized\<close> and a \<open>shutdown\<close> in
  this order, whatever other requests it got and refused in between.
\<close>

theorem exit_code_of_requests:
  assumes "history su s rqs"
  shows "(lc_exited s \<longleftrightarrow> (\<exists>rq \<in> set rqs. exits rq)) \<and>
    (lc_exited s \<longrightarrow> (if subseq [Initializing, Initialised, ShuttingDown] (milestones (before_exit rqs))
      then lc_exitCode s = 0 else lc_exitCode s = 1))"
  using history_state [OF assms] milestones_phase [of "milestones (before_exit rqs)"] by (auto simp: phase_of_def Let_def)

lemma exit_code_of_requests_witness:
  "\<exists>s. history sample_surroundings s [sample_request MInitialize (CallInitialize None), sample_request MInitialized CallInitialized,
     sample_request MExit (NoCall False False None)] \<and> lc_exited s \<and> lc_exitCode s = 1"
proof -
  let ?a = "sample_request MInitialize (CallInitialize None)" and ?b = "sample_request MInitialized CallInitialized"
    and ?c = "sample_request MExit (NoCall False False None)"
  define s0 :: "unit server" where "s0 = NewLifecycle NewStore newCache False None"
  define s1 where "s1 = snd (Handle sample_surroundings ?a s0)"
  define s2 where "s2 = snd (Handle sample_surroundings ?b s1)"
  define s3 where "s3 = snd (Handle sample_surroundings ?c s2)"
  note defs = s0_def s1_def s2_def s3_def sample_request_def Handle_def NewLifecycle_def state_refuses_def called_def dispatched_def
    initialize_def initialized_def SetNotifier_def after_request_def Let_def exits_def
  have "history sample_surroundings s0 []" unfolding s0_def by (rule history_new)
  then have "history sample_surroundings s1 ([] @ [?a])"
    by (rule history_request) (simp_all add: defs)
  then have "history sample_surroundings s2 (([] @ [?a]) @ [?b])"
    by (rule history_request) (simp_all add: defs)
  then have h: "history sample_surroundings s3 ((([] @ [?a]) @ [?b]) @ [?c])"
    by (rule history_request) (simp_all add: defs)
  from exit_code_of_requests [OF this] have "lc_exited s3 \<and> lc_exitCode s3 = 1"
    by (simp add: before_exit_def milestones_def map_filter_def sample_request_def exits_def)
  then show ?thesis using h by auto
qed

text \<open>C39.
  The worker is started at most once and stopped at most once in a session, and it is told of saved
  files only after it was started.
\<close>

theorem worker_used_in_order:
  assumes "session su s"
  shows "count_list (sv_worker_calls s) WorkerStart \<le> 1 \<and> count_list (sv_worker_calls s) WorkerStop \<le> 1 \<and>
    (\<forall>before path after. sv_worker_calls s = before @ WorkerDidSave path # after \<longrightarrow> WorkerStart \<in> set before)"
  using session_worker [OF assms] by (simp add: worker_inv_def saves_started_def)

text \<open>After a shutdown and an exit, which both stop the worker.\<close>

definition sample_exit :: "unit server" where
  "sample_exit = serve sample_surroundings sample_shutdown (sample_request MExit (NoCall False False None))"

lemma sample_exit_calls: "sv_worker_calls sample_exit = [WorkerStart, WorkerStop]"
  by (simp add: sample_exit_def sample_shutdown_def serve_def sample_request_def sample_open_state sample_running_state NewLifecycle_def
      Handle_def state_refuses_def called_def lsp_shutdown_def stopWorker_def after_request_def handle_exit_def eval_nat_numeral)

lemma sample_exit_session: "session sample_surroundings sample_exit"
  unfolding sample_exit_def
  by (intro serve_session sample_shutdown_session)
    (simp_all add: sample_shutdown_facts sample_request_def dispatched_def)

lemma worker_used_in_order_witness:
  "sv_worker_calls sample_exit = [WorkerStart, WorkerStop] \<and>
   count_list (sv_worker_calls sample_exit) WorkerStart \<le> 1 \<and> count_list (sv_worker_calls sample_exit) WorkerStop \<le> 1"
  using worker_used_in_order [OF sample_exit_session] sample_exit_calls by blast

end
