(* ===== verification/Schema_Wire.thy ===== *)
theory Schema_Wire
  imports Worker_Client
begin

text \<open>
  The check of a snapshot's JSON before it is decoded (\<open>internal/schema/wire.go\<close>): every key that
  the structs of \<open>dto.go\<close> read is present and has its kind. A raw message is the JSON value it holds,
  \<open>None\<close> for the empty message of a missing key. The maps of kinds are lists in the order of their
  literals: Go ranges over them in any order, which changes only what error is reported when there
  are several.
\<close>

section \<open>Kinds of values\<close>

type_synonym raw = "json option"

datatype jsonKind = kindArray | kindBool | kindNullableBool | kindNumber | kindObject | kindString | kindNullableString
  | kindNull | kindMissing

fun kind_text :: "jsonKind \<Rightarrow> string" where
  "kind_text kindArray = ''array''"
| "kind_text kindBool = ''boolean''"
| "kind_text kindNullableBool = ''boolean or null''"
| "kind_text kindNumber = ''number''"
| "kind_text kindObject = ''object''"
| "kind_text kindString = ''string''"
| "kind_text kindNullableString = ''string or null''"
| "kind_text kindNull = ''null''"
| "kind_text kindMissing = ''missing''"

fun detectJSONKind :: "raw \<Rightarrow> jsonKind" where
  "detectJSONKind None = kindMissing"
| "detectJSONKind (Some (JObject _)) = kindObject"
| "detectJSONKind (Some (JArray _)) = kindArray"
| "detectJSONKind (Some (JString _)) = kindString"
| "detectJSONKind (Some (JBool _)) = kindBool"
| "detectJSONKind (Some JNull) = kindNull"
| "detectJSONKind (Some (JInt _)) = kindNumber"
| "detectJSONKind (Some JFloat) = kindNumber"

definition kind_valid :: "jsonKind \<Rightarrow> jsonKind \<Rightarrow> bool" where
  "kind_valid expected actual = (if expected = kindNullableString then actual = kindString \<or> actual = kindNull
     else if expected = kindNullableBool then actual = kindBool \<or> actual = kindNull
     else actual = expected)"

definition requireKeys :: "json gomap \<Rightarrow> string list \<Rightarrow> goerror option" where
  "requireKeys object keys = check_each (\<lambda>key. check (map_of object key = None) (errorf ''missing required key %q'' [AStr key])) keys"

definition requireKinds :: "json gomap \<Rightarrow> (string \<times> jsonKind) list \<Rightarrow> goerror option" where
  "requireKinds object kinds = first_err
     [requireKeys object (map fst kinds),
      check_each (\<lambda>(key, expected). check (\<not> kind_valid expected (detectJSONKind (map_of object key)))
        (errorf ''key %q must be %s, got %s''
          [AStr key, AStr (kind_text expected), AStr (kind_text (detectJSONKind (map_of object key)))])) kinds]"

section \<open>Objects and arrays\<close>

definition end_of_input :: goerror where
  "end_of_input = errorf ''unexpected end of JSON input'' []"

definition unmarshal_object :: "raw \<Rightarrow> goerror + json gomap" where
  "unmarshal_object payload = (case payload of None \<Rightarrow> Inl end_of_input | Some j \<Rightarrow> unmarshal_map j)"

fun unmarshal_list :: "raw \<Rightarrow> goerror + json list" where
  "unmarshal_list None = Inl end_of_input"
| "unmarshal_list (Some (JArray js)) = Inr js"
| "unmarshal_list (Some JNull) = Inr []"
| "unmarshal_list (Some _) = Inl type_error"

definition rawObject :: "raw \<Rightarrow> goerror + json gomap" where
  "rawObject payload = (if payload = Some JNull then Inl (errorf ''expected object'' []) else unmarshal_object payload)"

text \<open>\<open>object, err := rawObject(payload); if err != nil { return err }\<close> and the checks on the object.\<close>

definition with_object :: "goerror + json gomap \<Rightarrow> (json gomap \<Rightarrow> goerror option list) \<Rightarrow> goerror option" where
  "with_object object checks = (case object of Inl e \<Rightarrow> Some e | Inr m \<Rightarrow> first_err (checks m))"

definition validateTypedObject :: "raw \<Rightarrow> (string \<times> jsonKind) list \<Rightarrow> goerror option" where
  "validateTypedObject payload kinds = with_object (rawObject payload) (\<lambda>object. [requireKinds object kinds])"

definition validateSimpleObject :: "raw \<Rightarrow> string list \<Rightarrow> goerror option" where
  "validateSimpleObject payload keys = with_object (rawObject payload) (\<lambda>object. [requireKeys object keys])"

definition item_checks :: "string \<Rightarrow> (json \<Rightarrow> goerror option) \<Rightarrow> json list \<Rightarrow> goerror option" where
  "item_checks format validate values = check_each (\<lambda>(index, v). on_err (wrapf format [AInt (int index)]) (validate v)) (enumerate 0 values)"

definition validateArray :: "raw \<Rightarrow> (raw \<Rightarrow> goerror option) \<Rightarrow> goerror option" where
  "validateArray payload validate = (case unmarshal_list payload of
     Inl e \<Rightarrow> Some e
   | Inr values \<Rightarrow> item_checks ''item %d: %w'' (\<lambda>v. validate (Some v)) values)"

definition validateStringArray :: "raw \<Rightarrow> goerror option" where
  "validateStringArray payload = (case unmarshal_list payload of
     Inl e \<Rightarrow> Some e
   | Inr values \<Rightarrow> first_err
       [check (payload = Some JNull) (errorf ''expected array'' []),
        check_each (\<lambda>(index, v). check (detectJSONKind (Some v) \<noteq> kindString) (errorf ''item %d must be string'' [AInt (int index)]))
          (enumerate 0 values)])"

text \<open>The string arrays of an object, by key.\<close>

definition string_arrays :: "json gomap \<Rightarrow> string list \<Rightarrow> goerror option" where
  "string_arrays object keys = check_each (\<lambda>key. on_err (wrapf ''%s: %w'' [AStr key]) (validateStringArray (map_of object key))) keys"

text \<open>The entries of a map, each by its name.\<close>

definition map_entries :: "raw \<Rightarrow> (goerror \<Rightarrow> goerror) \<Rightarrow> string \<Rightarrow> (raw \<Rightarrow> goerror option) \<Rightarrow> goerror option" where
  "map_entries payload wrap format validate = (case unmarshal_object payload of
     Inl e \<Rightarrow> Some (wrap e)
   | Inr entries \<Rightarrow> check_each (\<lambda>(name, v). on_err (wrapf format [AStr name]) (validate (Some v))) entries)"

section \<open>The structs\<close>

definition source_range_kinds :: "(string \<times> jsonKind) list" where
  "source_range_kinds = [(''file_path'', kindString), (''source_digest'', kindString), (''start'', kindObject), (''end'', kindObject)]"

definition position_kinds :: "(string \<times> jsonKind) list" where
  "position_kinds = [(''line'', kindNumber), (''column'', kindNumber)]"

definition validateSourceRangeWire :: "raw \<Rightarrow> goerror option" where
  "validateSourceRangeWire payload = with_object (rawObject payload) (\<lambda>object.
     [requireKinds object source_range_kinds,
      check_each (\<lambda>key. on_err (wrapf ''%s: %w'' [AStr key]) (validateTypedObject (map_of object key) position_kinds))
        [''start'', ''end'']])"

definition method_key_kinds :: "(string \<times> jsonKind) list" where
  "method_key_kinds = [(''name'', kindString), (''owner_class'', kindString)]"

definition validateMethodKeyWire :: "raw \<Rightarrow> goerror option" where
  "validateMethodKeyWire payload = with_object (rawObject payload) (\<lambda>object. [requireKinds object method_key_kinds])"

definition method_kinds :: "(string \<times> jsonKind) list" where
  "method_kinds = [(''name'', kindString), (''owner_class'', kindString), (''signature'', kindNullableString),
     (''docstring'', kindNullableString), (''source_range'', kindObject), (''chainable'', kindBool), (''assumed_chainable'', kindBool)]"

definition validateMethodWire :: "raw \<Rightarrow> goerror option" where
  "validateMethodWire payload = with_object (rawObject payload) (\<lambda>object.
     [requireKinds object method_kinds, validateSourceRangeWire (map_of object ''source_range'')])"

definition binding_kinds :: "(string \<times> jsonKind) list" where
  "binding_kinds = [(''method'', kindObject), (''available_on_manager'', kindBool)]"

definition validateBindingWire :: "raw \<Rightarrow> goerror option" where
  "validateBindingWire payload = with_object (rawObject payload) (\<lambda>binding.
     [requireKeys binding [''method'', ''available_on_manager''], requireKinds binding binding_kinds,
      validateMethodKeyWire (map_of binding ''method'')])"

definition manager_keys :: "string list" where
  "manager_keys = [''name'', ''owner_class'', ''queryset_class'', ''default'', ''local'', ''auto_created'', ''source_range'', ''methods'',
     ''queryset_methods'']"

definition manager_kinds :: "(string \<times> jsonKind) list" where
  "manager_kinds = [(''name'', kindString), (''owner_class'', kindString), (''queryset_class'', kindNullableString), (''default'', kindBool),
     (''local'', kindBool), (''auto_created'', kindBool), (''source_range'', kindObject), (''methods'', kindArray),
     (''queryset_methods'', kindArray)]"

definition validateManagerWire :: "raw \<Rightarrow> goerror option" where
  "validateManagerWire payload = with_object (rawObject payload) (\<lambda>object.
     [requireKeys object manager_keys, requireKinds object manager_kinds,
      validateSourceRangeWire (map_of object ''source_range''),
      validateArray (map_of object ''methods'') validateMethodWire,
      validateArray (map_of object ''queryset_methods'') validateBindingWire])"

definition lookup_path_kinds :: "(string \<times> jsonKind) list" where
  "lookup_path_kinds = [(''transforms'', kindArray), (''kinds'', kindArray), (''lookups'', kindArray)]"

definition validateLookupPathWire :: "raw \<Rightarrow> goerror option" where
  "validateLookupPathWire payload = with_object (rawObject payload) (\<lambda>path.
     [requireKinds path lookup_path_kinds, string_arrays path [''transforms'', ''kinds'', ''lookups'']])"

definition field_keys :: "string list" where
  "field_keys = [''type'', ''is_relation'', ''related_model'', ''runtime_related_model'', ''lookups'', ''unsupported_lookups'', ''help_text'',
     ''name'', ''attname'', ''db_column'', ''db_type'', ''internal_type'', ''null'', ''db_index'', ''unique'', ''primary_key'',
     ''effective_primary_key'', ''concrete'', ''auto_created'', ''relation_cardinality'', ''relation_direction'', ''accessor_name'',
     ''query_name'', ''source_model'', ''source_model_abstract'', ''source_range'', ''parent_link'', ''transforms'', ''lookup_paths'',
     ''lookup_paths_truncated'']"

definition field_kinds :: "(string \<times> jsonKind) list" where
  "field_kinds = [(''type'', kindString), (''is_relation'', kindBool), (''related_model'', kindNullableString),
     (''runtime_related_model'', kindNullableString), (''lookups'', kindArray), (''unsupported_lookups'', kindArray),
     (''help_text'', kindString), (''name'', kindString), (''attname'', kindNullableString), (''db_column'', kindNullableString),
     (''db_type'', kindNullableString), (''internal_type'', kindString), (''null'', kindBool), (''db_index'', kindBool),
     (''unique'', kindBool), (''primary_key'', kindBool), (''effective_primary_key'', kindBool), (''concrete'', kindBool),
     (''auto_created'', kindBool), (''relation_cardinality'', kindNullableString), (''relation_direction'', kindNullableString),
     (''accessor_name'', kindNullableString), (''query_name'', kindNullableString), (''source_model'', kindString),
     (''source_model_abstract'', kindBool), (''source_range'', kindObject), (''parent_link'', kindBool),
     (''transforms'', kindArray), (''lookup_paths'', kindArray), (''lookup_paths_truncated'', kindBool)]"

definition validateFieldWire :: "raw \<Rightarrow> goerror option" where
  "validateFieldWire payload = with_object (rawObject payload) (\<lambda>object.
     [requireKeys object field_keys, requireKinds object field_kinds, validateSourceRangeWire (map_of object ''source_range''),
      string_arrays object [''lookups'', ''unsupported_lookups'', ''transforms''],
      validateArray (map_of object ''lookup_paths'') validateLookupPathWire])"

definition parent_kinds :: "(string \<times> jsonKind) list" where
  "parent_kinds = [(''canonical_label'', kindString), (''class_path'', kindString), (''abstract'', kindBool), (''proxy'', kindBool),
     (''parent_link'', kindNullableString), (''source_range'', kindObject)]"

definition validateParentWire :: "raw \<Rightarrow> goerror option" where
  "validateParentWire payload = with_object (rawObject payload) (\<lambda>parent.
     [requireKinds parent parent_kinds, validateSourceRangeWire (map_of parent ''source_range'')])"

definition index_kinds :: "(string \<times> jsonKind) list" where
  "index_kinds = [(''name'', kindString), (''fields'', kindArray), (''expressions'', kindArray), (''condition'', kindNullableString),
     (''include'', kindArray), (''opclasses'', kindArray), (''db_tablespace'', kindNullableString), (''source_range'', kindObject)]"

definition index_field_kinds :: "(string \<times> jsonKind) list" where
  "index_field_kinds = [(''name'', kindString), (''order'', kindString)]"

definition validateIndexWire :: "raw \<Rightarrow> goerror option" where
  "validateIndexWire payload = with_object (rawObject payload) (\<lambda>index.
     [requireKinds index index_kinds,
      validateArray (map_of index ''fields'') (\<lambda>field. validateTypedObject field index_field_kinds),
      string_arrays index [''expressions'', ''include'', ''opclasses''],
      validateSourceRangeWire (map_of index ''source_range'')])"

definition constraint_kinds :: "(string \<times> jsonKind) list" where
  "constraint_kinds = [(''name'', kindString), (''type'', kindString), (''fields'', kindArray), (''expressions'', kindArray),
     (''condition'', kindNullableString), (''include'', kindArray), (''opclasses'', kindArray), (''deferrable'', kindNullableString),
     (''nulls_distinct'', kindNullableBool), (''violation_error_code'', kindNullableString),
     (''violation_error_message'', kindNullableString), (''source_range'', kindObject)]"

definition validateConstraintWire :: "raw \<Rightarrow> goerror option" where
  "validateConstraintWire payload = with_object (rawObject payload) (\<lambda>constraint.
     [requireKinds constraint constraint_kinds,
      string_arrays constraint [''fields'', ''expressions'', ''include'', ''opclasses''],
      validateSourceRangeWire (map_of constraint ''source_range'')])"

definition base_manager_kinds :: "(string \<times> jsonKind) list" where
  "base_manager_kinds = [(''name'', kindString), (''owner_class'', kindString)]"

definition model_keys :: "string list" where
  "model_keys = [''canonical_label'', ''module'', ''qualname'', ''file_path'', ''line_number'', ''source_range'', ''docstring'',
     ''abstract'', ''proxy'', ''managed'', ''swapped'', ''has_abstract_parent'', ''multi_table_child'', ''parents'',
     ''default_manager'', ''base_manager'', ''custom_managers'', ''managers'', ''queryset_methods'', ''indexes'', ''constraints'', ''fields'']"

definition model_kinds :: "(string \<times> jsonKind) list" where
  "model_kinds = [(''canonical_label'', kindString), (''module'', kindString), (''qualname'', kindString), (''file_path'', kindString),
     (''line_number'', kindNumber), (''source_range'', kindObject), (''docstring'', kindNullableString), (''abstract'', kindBool),
     (''proxy'', kindBool), (''managed'', kindBool), (''swapped'', kindBool), (''has_abstract_parent'', kindBool),
     (''multi_table_child'', kindBool), (''parents'', kindArray), (''default_manager'', kindString), (''base_manager'', kindObject),
     (''custom_managers'', kindArray), (''managers'', kindArray), (''queryset_methods'', kindArray), (''indexes'', kindArray),
     (''constraints'', kindArray), (''fields'', kindObject)]"

definition validateModelWire :: "raw \<Rightarrow> goerror option" where
  "validateModelWire payload = with_object (rawObject payload) (\<lambda>object.
     [requireKeys object model_keys, requireKinds object model_kinds,
      on_err (wrapf ''source_range: %w'' []) (validateSourceRangeWire (map_of object ''source_range'')),
      on_err (wrapf ''custom_managers: %w'' []) (validateStringArray (map_of object ''custom_managers'')),
      on_err (wrapf ''base_manager: %w'' []) (validateTypedObject (map_of object ''base_manager'') base_manager_kinds),
      on_err (wrapf ''parents: %w'' []) (validateArray (map_of object ''parents'') validateParentWire),
      on_err (wrapf ''managers: %w'' []) (validateArray (map_of object ''managers'') validateManagerWire),
      on_err (wrapf ''queryset_methods: %w'' []) (validateArray (map_of object ''queryset_methods'') validateMethodKeyWire),
      on_err (wrapf ''indexes: %w'' []) (validateArray (map_of object ''indexes'') validateIndexWire),
      on_err (wrapf ''constraints: %w'' []) (validateArray (map_of object ''constraints'') validateConstraintWire),
      map_entries (map_of object ''fields'') (\<lambda>e. e) ''field %s: %w'' validateFieldWire])"

definition app_kinds :: "(string \<times> jsonKind) list" where
  "app_kinds = [(''label'', kindString), (''import_name'', kindString), (''root_path'', kindString), (''models'', kindObject)]"

definition validateAppWire :: "raw \<Rightarrow> goerror option" where
  "validateAppWire payload = with_object (rawObject payload) (\<lambda>object.
     [requireKeys object [''label'', ''import_name'', ''root_path'', ''models''], requireKinds object app_kinds,
      map_entries (map_of object ''models'') (\<lambda>e. e) ''model %s: %w'' validateModelWire])"

definition snapshot_keys :: "string list" where
  "snapshot_keys = [''schema_version'', ''position_encoding'', ''lookup_transform_max_depth'', ''lookup_path_max_count'', ''schema_sources'',
     ''schema_sources_complete'', ''queryset_method_defs'', ''apps'']"

definition snapshot_kinds :: "(string \<times> jsonKind) list" where
  "snapshot_kinds = [(''schema_version'', kindNumber), (''position_encoding'', kindString), (''lookup_transform_max_depth'', kindNumber),
     (''lookup_path_max_count'', kindNumber), (''schema_sources'', kindArray), (''schema_sources_complete'', kindBool),
     (''queryset_method_defs'', kindArray), (''apps'', kindObject)]"

definition ValidateWire :: "json \<Rightarrow> goerror option" where
  "ValidateWire payload = with_object (unmarshal_object (Some payload)) (\<lambda>root.
     [on_err (wrapf ''snapshot: %w'' []) (requireKeys root snapshot_keys),
      on_err (wrapf ''snapshot: %w'' []) (requireKinds root snapshot_kinds),
      on_err (wrapf ''schema_sources: %w'' []) (validateStringArray (map_of root ''schema_sources'')),
      on_err (wrapf ''queryset_method_defs: %w'' []) (validateArray (map_of root ''queryset_method_defs'') validateMethodWire),
      map_entries (map_of root ''apps'') (wrapf ''snapshot apps: %w'' []) ''app %s: %w'' validateAppWire])"

text \<open>
  What the check of the wire form accepts: the JSON values of one shape, which spells the structs of
  \<open>dto.go\<close> with their keys, their nullable members and their nesting.
\<close>

section \<open>Shapes\<close>

datatype shape =
    Text | Number | Flag | NullableText | NullableFlag
  | Sequence shape
  | Struct "(string \<times> shape) list"
  | Dictionary shape

definition last_members :: "(string \<times> json) list \<Rightarrow> json gomap" where
  "last_members ms = fold (\<lambda>(k, j). gomap_put k j) ms []"

fun fits :: "shape \<Rightarrow> json \<Rightarrow> bool" where
  "fits Text j \<longleftrightarrow> (\<exists>s. j = JString s)"
| "fits Number j \<longleftrightarrow> (\<exists>n. j = JInt n) \<or> j = JFloat"
| "fits Flag j \<longleftrightarrow> (\<exists>b. j = JBool b)"
| "fits NullableText j \<longleftrightarrow> (\<exists>s. j = JString s) \<or> j = JNull"
| "fits NullableFlag j \<longleftrightarrow> (\<exists>b. j = JBool b) \<or> j = JNull"
| "fits (Sequence s) j \<longleftrightarrow> (\<exists>js. j = JArray js \<and> list_all (fits s) js)"
| "fits (Struct members) j \<longleftrightarrow> (\<exists>ms. j = JObject ms \<and>
     list_all (\<lambda>(key, s). case map_of (last_members ms) key of None \<Rightarrow> False | Some v \<Rightarrow> fits s v) members)"
| "fits (Dictionary s) j \<longleftrightarrow> (\<exists>ms. j = JObject ms \<and> list_all (\<lambda>(key, v). fits s v) (last_members ms))"

definition position_shape :: shape where
  "position_shape = Struct [(''line'', Number), (''column'', Number)]"

definition source_range_shape :: shape where
  "source_range_shape = Struct [(''file_path'', Text), (''source_digest'', Text), (''start'', position_shape), (''end'', position_shape)]"

definition method_key_shape :: shape where
  "method_key_shape = Struct [(''name'', Text), (''owner_class'', Text)]"

definition method_shape :: shape where
  "method_shape = Struct [(''name'', Text), (''owner_class'', Text), (''signature'', NullableText), (''docstring'', NullableText),
     (''source_range'', source_range_shape), (''chainable'', Flag), (''assumed_chainable'', Flag)]"

definition binding_shape :: shape where
  "binding_shape = Struct [(''method'', method_key_shape), (''available_on_manager'', Flag)]"

definition manager_shape :: shape where
  "manager_shape = Struct [(''name'', Text), (''owner_class'', Text), (''queryset_class'', NullableText), (''default'', Flag), (''local'', Flag),
     (''auto_created'', Flag), (''source_range'', source_range_shape), (''methods'', Sequence method_shape),
     (''queryset_methods'', Sequence binding_shape)]"

definition lookup_path_shape :: shape where
  "lookup_path_shape = Struct [(''transforms'', Sequence Text), (''kinds'', Sequence Text), (''lookups'', Sequence Text)]"

definition field_shape :: shape where
  "field_shape = Struct [(''type'', Text), (''is_relation'', Flag), (''related_model'', NullableText), (''runtime_related_model'', NullableText),
     (''lookups'', Sequence Text), (''unsupported_lookups'', Sequence Text), (''help_text'', Text), (''name'', Text), (''attname'', NullableText),
     (''db_column'', NullableText), (''db_type'', NullableText), (''internal_type'', Text), (''null'', Flag), (''db_index'', Flag),
     (''unique'', Flag), (''primary_key'', Flag), (''effective_primary_key'', Flag), (''concrete'', Flag), (''auto_created'', Flag),
     (''relation_cardinality'', NullableText), (''relation_direction'', NullableText), (''accessor_name'', NullableText),
     (''query_name'', NullableText), (''source_model'', Text), (''source_model_abstract'', Flag), (''source_range'', source_range_shape),
     (''parent_link'', Flag), (''transforms'', Sequence Text), (''lookup_paths'', Sequence lookup_path_shape),
     (''lookup_paths_truncated'', Flag)]"

definition parent_shape :: shape where
  "parent_shape = Struct [(''canonical_label'', Text), (''class_path'', Text), (''abstract'', Flag), (''proxy'', Flag),
     (''parent_link'', NullableText), (''source_range'', source_range_shape)]"

definition index_field_shape :: shape where
  "index_field_shape = Struct [(''name'', Text), (''order'', Text)]"

definition base_manager_shape :: shape where
  "base_manager_shape = Struct [(''name'', Text), (''owner_class'', Text)]"

definition index_shape :: shape where
  "index_shape = Struct [(''name'', Text), (''fields'', Sequence index_field_shape), (''expressions'', Sequence Text),
     (''condition'', NullableText), (''include'', Sequence Text), (''opclasses'', Sequence Text), (''db_tablespace'', NullableText),
     (''source_range'', source_range_shape)]"

definition constraint_shape :: shape where
  "constraint_shape = Struct [(''name'', Text), (''type'', Text), (''fields'', Sequence Text), (''expressions'', Sequence Text),
     (''condition'', NullableText), (''include'', Sequence Text), (''opclasses'', Sequence Text), (''deferrable'', NullableText),
     (''nulls_distinct'', NullableFlag), (''violation_error_code'', NullableText), (''violation_error_message'', NullableText),
     (''source_range'', source_range_shape)]"

definition model_shape :: shape where
  "model_shape = Struct [(''canonical_label'', Text), (''module'', Text), (''qualname'', Text), (''file_path'', Text), (''line_number'', Number),
     (''source_range'', source_range_shape), (''docstring'', NullableText), (''abstract'', Flag), (''proxy'', Flag), (''managed'', Flag),
     (''swapped'', Flag), (''has_abstract_parent'', Flag), (''multi_table_child'', Flag), (''parents'', Sequence parent_shape),
     (''default_manager'', Text), (''base_manager'', base_manager_shape), (''custom_managers'', Sequence Text),
     (''managers'', Sequence manager_shape), (''queryset_methods'', Sequence method_key_shape), (''indexes'', Sequence index_shape),
     (''constraints'', Sequence constraint_shape), (''fields'', Dictionary field_shape)]"

definition app_shape :: shape where
  "app_shape = Struct [(''label'', Text), (''import_name'', Text), (''root_path'', Text), (''models'', Dictionary model_shape)]"

definition snapshot_shape :: shape where
  "snapshot_shape = Struct [(''schema_version'', Number), (''position_encoding'', Text), (''lookup_transform_max_depth'', Number),
     (''lookup_path_max_count'', Number), (''schema_sources'', Sequence Text), (''schema_sources_complete'', Flag),
     (''queryset_method_defs'', Sequence method_shape), (''apps'', Dictionary app_shape)]"

section \<open>What each check accepts\<close>

definition raw_fits :: "shape \<Rightarrow> raw \<Rightarrow> bool" where
  "raw_fits s payload \<longleftrightarrow> (case payload of None \<Rightarrow> False | Some j \<Rightarrow> fits s j)"

lemma raw_fits_simps [simp]: "raw_fits s (Some j) = fits s j" "\<not> raw_fits s None"
  by (simp_all add: raw_fits_def)

text \<open>The shape of a kind, and what the kind alone says of an array or an object.\<close>

fun kind_fits :: "jsonKind \<Rightarrow> raw \<Rightarrow> bool" where
  "kind_fits kindArray payload \<longleftrightarrow> (\<exists>js. payload = Some (JArray js))"
| "kind_fits kindObject payload \<longleftrightarrow> (\<exists>ms. payload = Some (JObject ms))"
| "kind_fits kindBool payload \<longleftrightarrow> raw_fits Flag payload"
| "kind_fits kindNullableBool payload \<longleftrightarrow> raw_fits NullableFlag payload"
| "kind_fits kindNumber payload \<longleftrightarrow> raw_fits Number payload"
| "kind_fits kindString payload \<longleftrightarrow> raw_fits Text payload"
| "kind_fits kindNullableString payload \<longleftrightarrow> raw_fits NullableText payload"
| "kind_fits kindNull payload \<longleftrightarrow> payload = Some JNull"
| "kind_fits kindMissing payload \<longleftrightarrow> payload = None"

lemma kind_valid_fits: "kind_valid k (detectJSONKind payload) \<longleftrightarrow> kind_fits k payload"
  by (cases k; cases payload rule: detectJSONKind.cases) (auto simp: kind_valid_def)

lemma kind_fits_present: "kind_fits k payload \<Longrightarrow> k \<noteq> kindMissing \<Longrightarrow> payload \<noteq> None"
  by (cases k) (auto simp: raw_fits_def split: option.splits)

lemma requireKeys_None [err_simps]: "requireKeys object keys = None \<longleftrightarrow> (\<forall>key \<in> set keys. map_of object key \<noteq> None)"
  by (simp add: requireKeys_def)

lemma requireKinds_None [err_simps]:
  assumes "kindMissing \<notin> snd ` set kinds"
  shows "requireKinds object kinds = None \<longleftrightarrow> list_all (\<lambda>(key, k). kind_fits k (map_of object key)) kinds"
proof -
  have "\<forall>key \<in> fst ` set kinds. map_of object key \<noteq> None"
    if "\<forall>(key, k) \<in> set kinds. kind_fits k (map_of object key)"
    using that assms kind_fits_present by (force simp: image_iff)
  then show ?thesis by (auto simp: requireKinds_def requireKeys_None kind_valid_fits list_all_iff split: prod.splits)
qed

lemma requireKinds_keys: "requireKinds object kinds = None \<Longrightarrow> set keys \<subseteq> fst ` set kinds \<Longrightarrow> requireKeys object keys = None"
  by (auto simp: requireKinds_def requireKeys_None)

lemma struct_check:
  assumes "set keys \<subseteq> fst ` set kinds"
  shows "with_object object (\<lambda>m. requireKeys m keys # requireKinds m kinds # checks m) = None \<longleftrightarrow>
    with_object object (\<lambda>m. requireKinds m kinds # checks m) = None"
  using requireKinds_keys [OF _ assms] by (auto simp: with_object_def split: sum.splits)

lemma with_object_None:
  "with_object (rawObject payload) checks = None \<longleftrightarrow>
     (\<exists>ms. payload = Some (JObject ms) \<and> (\<forall>c \<in> set (checks (last_members ms)). c = None))"
  by (cases payload rule: detectJSONKind.cases)
    (auto simp: with_object_def rawObject_def unmarshal_object_def last_members_def)

lemma enumerate_all: "(\<forall>x \<in> set (enumerate n xs). P (snd x)) \<longleftrightarrow> list_all P xs"
  by (induction xs arbitrary: n) auto

lemma item_checks_None [err_simps]: "item_checks format validate js = None \<longleftrightarrow> list_all (\<lambda>j. validate j = None) js"
  using enumerate_all [of 0 js "\<lambda>j. validate j = None"] by (simp add: item_checks_def case_prod_beta)

lemma validateArray_None [err_simps]:
  "validateArray payload validate = None \<longleftrightarrow>
     payload = Some JNull \<or> (\<exists>js. payload = Some (JArray js) \<and> list_all (\<lambda>j. validate (Some j) = None) js)"
  by (cases payload rule: unmarshal_list.cases) (auto simp: validateArray_def item_checks_None)

lemma map_entries_None [err_simps]:
  "map_entries payload wrap format validate = None \<longleftrightarrow>
     payload = Some JNull \<or> (\<exists>ms. payload = Some (JObject ms) \<and> list_all (\<lambda>(k, j). validate (Some j) = None) (last_members ms))"
  by (cases payload rule: detectJSONKind.cases)
    (auto simp: map_entries_def unmarshal_object_def last_members_def list_all_iff split: prod.splits)

lemma validateStringArray_None [err_simps]: "validateStringArray payload = None \<longleftrightarrow> raw_fits (Sequence Text) payload"
proof -
  have kind: "detectJSONKind (Some j) = kindString \<longleftrightarrow> fits Text j" for j by (cases j) auto
  show ?thesis
    using enumerate_all [of 0 _ "fits Text"]
    by (cases payload rule: unmarshal_list.cases) (auto simp: validateStringArray_def kind case_prod_beta)
qed

lemma string_arrays_None [err_simps]:
  "string_arrays object keys = None \<longleftrightarrow> list_all (\<lambda>key. raw_fits (Sequence Text) (map_of object key)) keys"
  by (simp add: string_arrays_def err_simps list_all_iff)

lemma validateTypedObject_None:
  assumes "kindMissing \<notin> snd ` set kinds"
  shows "validateTypedObject payload kinds = None \<longleftrightarrow>
    (\<exists>ms. payload = Some (JObject ms) \<and> list_all (\<lambda>(key, k). kind_fits k (map_of (last_members ms) key)) kinds)"
  by (simp add: validateTypedObject_def with_object_None requireKinds_None [OF assms])

lemma raw_fits_Struct:
  "raw_fits (Struct members) payload \<longleftrightarrow>
     (\<exists>ms. payload = Some (JObject ms) \<and> list_all (\<lambda>(key, s). raw_fits s (map_of (last_members ms) key)) members)"
  by (cases payload) (auto simp: raw_fits_def)

text \<open>The kind of a shape's values; beyond it only arrays and objects are checked further.\<close>

fun kind_of :: "shape \<Rightarrow> jsonKind" where
  "kind_of Text = kindString"
| "kind_of Number = kindNumber"
| "kind_of Flag = kindBool"
| "kind_of NullableText = kindNullableString"
| "kind_of NullableFlag = kindNullableBool"
| "kind_of (Sequence _) = kindArray"
| "kind_of (Struct _) = kindObject"
| "kind_of (Dictionary _) = kindObject"

fun deep :: "shape \<Rightarrow> bool" where
  "deep (Sequence _) \<longleftrightarrow> True"
| "deep (Struct _) \<longleftrightarrow> True"
| "deep (Dictionary _) \<longleftrightarrow> True"
| "deep _ \<longleftrightarrow> False"

lemma fits_kind: "raw_fits s payload \<longleftrightarrow> kind_fits (kind_of s) payload \<and> (deep s \<longrightarrow> raw_fits s payload)"
  by (cases s; cases payload) auto

lemma deep_not_null: "kind_fits (kind_of s) payload \<Longrightarrow> deep s \<Longrightarrow> payload \<noteq> Some JNull"
  by (cases s) auto

lemma kind_of_present [simp]: "kind_of s \<noteq> kindMissing"
  "kindMissing \<noteq> kind_of s"
  by (cases s; simp)+

definition deep_members :: "(string \<times> shape) list \<Rightarrow> json gomap \<Rightarrow> bool" where
  "deep_members members m \<longleftrightarrow> list_all (\<lambda>(key, s). raw_fits s (map_of m key)) (filter (\<lambda>(key, s). deep s) members)"

lemma kinds_and_deep:
  "list_all (\<lambda>(key, s). raw_fits s (map_of m key)) members \<longleftrightarrow>
     list_all (\<lambda>(key, s). kind_fits (kind_of s) (map_of m key)) members \<and> deep_members members m"
  by (subst fits_kind) (auto simp: list_all_iff deep_members_def)

lemma requireKinds_members:
  "requireKinds m (map (\<lambda>(key, s). (key, kind_of s)) members) = None \<longleftrightarrow>
     list_all (\<lambda>(key, s). kind_fits (kind_of s) (map_of m key)) members"
  by (subst requireKinds_None) (auto simp: list_all_iff split: prod.splits)

lemma struct_accepts:
  assumes "kinds = map (\<lambda>(key, s). (key, kind_of s)) members"
    and "\<And>m. list_all (\<lambda>(key, s). map_of m key \<noteq> Some JNull) (filter (\<lambda>(key, s). deep s) members) \<Longrightarrow>
      (\<forall>c \<in> set (checks m). c = None) \<longleftrightarrow> deep_members members m"
  shows "with_object (rawObject payload) (\<lambda>m. requireKinds m kinds # checks m) = None \<longleftrightarrow> raw_fits (Struct members) payload"
proof -
  have "requireKinds m kinds = None \<and> (\<forall>c \<in> set (checks m). c = None) \<longleftrightarrow>
      list_all (\<lambda>(key, s). raw_fits s (map_of m key)) members" for m
    using assms(2) [of m] deep_not_null unfolding kinds_and_deep assms(1) requireKinds_members
    by (fastforce simp: list_all_iff)
  then show ?thesis by (simp add: with_object_None raw_fits_Struct)
qed

lemma typed_accepts:
  "kinds = map (\<lambda>(key, s). (key, kind_of s)) members \<Longrightarrow> \<forall>(key, s) \<in> set members. \<not> deep s \<Longrightarrow>
     validateTypedObject payload kinds = None \<longleftrightarrow> raw_fits (Struct members) payload"
  unfolding validateTypedObject_def by (rule struct_accepts) (auto simp: deep_members_def list_all_iff)

text \<open>Arrays and maps whose kind is known; \<open>json.Unmarshal\<close> would take a null for an empty one.\<close>

lemma validateArray_accepts:
  assumes "\<And>j. validate (Some j) = None \<longleftrightarrow> fits s j"
  shows "validateArray payload validate = None \<longleftrightarrow> payload = Some JNull \<or> raw_fits (Sequence s) payload"
  by (cases payload) (auto simp: validateArray_None assms)

lemma map_entries_accepts:
  assumes "\<And>j. validate (Some j) = None \<longleftrightarrow> fits s j"
  shows "map_entries payload wrap format validate = None \<longleftrightarrow> payload = Some JNull \<or> raw_fits (Dictionary s) payload"
  by (cases payload) (auto simp: map_entries_None assms)

lemmas struct_simps = deep_members_def on_err_None string_arrays_None validateStringArray_None

lemma shape_facts [simp]:
  "deep position_shape" "deep source_range_shape" "deep method_key_shape" "deep base_manager_shape"
  "kind_of position_shape = kindObject" "kind_of source_range_shape = kindObject" "kind_of method_key_shape = kindObject"
  "kind_of base_manager_shape = kindObject"
  by (simp_all add: position_shape_def source_range_shape_def method_key_shape_def base_manager_shape_def)

subsection \<open>Struct by struct\<close>

lemma position_accepts: "validateTypedObject payload position_kinds = None \<longleftrightarrow> raw_fits position_shape payload"
  unfolding position_shape_def by (rule typed_accepts) (simp_all add: position_kinds_def)

lemma source_range_accepts: "validateSourceRangeWire payload = None \<longleftrightarrow> raw_fits source_range_shape payload"
  unfolding validateSourceRangeWire_def source_range_shape_def
  by (rule struct_accepts) (simp_all add: source_range_kinds_def struct_simps position_accepts)

lemma method_key_accepts: "validateMethodKeyWire payload = None \<longleftrightarrow> raw_fits method_key_shape payload"
  unfolding validateMethodKeyWire_def method_key_shape_def
  by (rule struct_accepts) (simp_all add: method_key_kinds_def struct_simps)

lemma base_manager_accepts: "validateTypedObject payload base_manager_kinds = None \<longleftrightarrow> raw_fits base_manager_shape payload"
  unfolding base_manager_shape_def by (rule typed_accepts) (simp_all add: base_manager_kinds_def)

lemma index_field_accepts: "validateTypedObject payload index_field_kinds = None \<longleftrightarrow> raw_fits index_field_shape payload"
  unfolding index_field_shape_def by (rule typed_accepts) (simp_all add: index_field_kinds_def)

lemma method_accepts: "validateMethodWire payload = None \<longleftrightarrow> raw_fits method_shape payload"
  unfolding validateMethodWire_def method_shape_def
  by (rule struct_accepts) (simp_all add: method_kinds_def struct_simps source_range_accepts)

lemma binding_accepts: "validateBindingWire payload = None \<longleftrightarrow> raw_fits binding_shape payload"
  unfolding validateBindingWire_def binding_shape_def
  by (subst struct_check, simp add: binding_kinds_def, rule struct_accepts)
    (simp_all add: binding_kinds_def struct_simps method_key_accepts)

lemmas method_arrays = validateArray_accepts [of validateMethodWire, OF method_accepts [of "Some _", unfolded raw_fits_simps]]
  validateArray_accepts [of validateBindingWire, OF binding_accepts [of "Some _", unfolded raw_fits_simps]]
  validateArray_accepts [of validateMethodKeyWire, OF method_key_accepts [of "Some _", unfolded raw_fits_simps]]

lemma manager_accepts: "validateManagerWire payload = None \<longleftrightarrow> raw_fits manager_shape payload"
  unfolding validateManagerWire_def manager_shape_def
  by (subst struct_check, simp add: manager_keys_def manager_kinds_def, rule struct_accepts)
    (simp_all add: manager_kinds_def struct_simps source_range_accepts method_arrays)

lemma lookup_path_accepts: "validateLookupPathWire payload = None \<longleftrightarrow> raw_fits lookup_path_shape payload"
  unfolding validateLookupPathWire_def lookup_path_shape_def
  by (rule struct_accepts) (simp_all add: lookup_path_kinds_def struct_simps)

lemma field_accepts: "validateFieldWire payload = None \<longleftrightarrow> raw_fits field_shape payload"
  unfolding validateFieldWire_def field_shape_def
  by (subst struct_check, simp add: field_keys_def field_kinds_def, rule struct_accepts)
    (simp_all add: field_kinds_def struct_simps source_range_accepts conj_ac
      validateArray_accepts [of validateLookupPathWire, OF lookup_path_accepts [of "Some _", unfolded raw_fits_simps]])

lemma parent_accepts: "validateParentWire payload = None \<longleftrightarrow> raw_fits parent_shape payload"
  unfolding validateParentWire_def parent_shape_def
  by (rule struct_accepts) (simp_all add: parent_kinds_def struct_simps source_range_accepts)

lemma index_accepts: "validateIndexWire payload = None \<longleftrightarrow> raw_fits index_shape payload"
  unfolding validateIndexWire_def index_shape_def
  by (rule struct_accepts) (simp_all add: index_kinds_def struct_simps source_range_accepts
      validateArray_accepts [of "\<lambda>field. validateTypedObject field index_field_kinds", OF index_field_accepts [of "Some _", unfolded raw_fits_simps]])

lemma constraint_accepts: "validateConstraintWire payload = None \<longleftrightarrow> raw_fits constraint_shape payload"
  unfolding validateConstraintWire_def constraint_shape_def
  by (rule struct_accepts) (simp_all add: constraint_kinds_def struct_simps source_range_accepts)

lemmas model_arrays = method_arrays
  validateArray_accepts [of validateParentWire, OF parent_accepts [of "Some _", unfolded raw_fits_simps]]
  validateArray_accepts [of validateManagerWire, OF manager_accepts [of "Some _", unfolded raw_fits_simps]]
  validateArray_accepts [of validateIndexWire, OF index_accepts [of "Some _", unfolded raw_fits_simps]]
  validateArray_accepts [of validateConstraintWire, OF constraint_accepts [of "Some _", unfolded raw_fits_simps]]
  map_entries_accepts [of validateFieldWire, OF field_accepts [of "Some _", unfolded raw_fits_simps]]

lemma model_accepts: "validateModelWire payload = None \<longleftrightarrow> raw_fits model_shape payload"
  unfolding validateModelWire_def model_shape_def
  by (subst struct_check, simp add: model_keys_def model_kinds_def, rule struct_accepts)
    (simp add: model_kinds_def, auto simp: struct_simps source_range_accepts base_manager_accepts model_arrays)

lemma app_accepts: "validateAppWire payload = None \<longleftrightarrow> raw_fits app_shape payload"
  unfolding validateAppWire_def app_shape_def
  by (subst struct_check, simp add: app_kinds_def, rule struct_accepts)
    (simp_all add: app_kinds_def struct_simps map_entries_accepts [of validateModelWire, OF model_accepts [of "Some _", unfolded raw_fits_simps]])

section \<open>The snapshot\<close>

lemma wire_of_null: "ValidateWire JNull \<noteq> None"
  by (simp add: ValidateWire_def with_object_def unmarshal_object_def requireKeys_None snapshot_keys_def ex_disj_distrib)

lemma wire_as_struct:
  "j \<noteq> JNull \<Longrightarrow> ValidateWire j = None \<longleftrightarrow> with_object (rawObject (Some j)) (\<lambda>root.
     [requireKeys root snapshot_keys, requireKinds root snapshot_kinds, validateStringArray (map_of root ''schema_sources''),
      validateArray (map_of root ''queryset_method_defs'') validateMethodWire,
      map_entries (map_of root ''apps'') (wrapf ''snapshot apps: %w'' []) ''app %s: %w'' validateAppWire]) = None"
  by (simp add: ValidateWire_def rawObject_def with_object_def split: sum.splits)

text \<open>C3.
  The check of the wire form accepts exactly the values of the snapshot's shape: every member that
  the structs read is there with its kind, down to the positions of every source range, and null
  passes only for the members that are pointers to scalars. So what the strict decoder sees after
  the check leaves no field at a zero value that the worker did not send.
\<close>

theorem wire_accepts_shape: "ValidateWire j = None \<longleftrightarrow> fits snapshot_shape j"
proof (cases "j = JNull")
  case True
  then show ?thesis using wire_of_null by (simp add: snapshot_shape_def)
next
  case False
  have "ValidateWire j = None \<longleftrightarrow> raw_fits snapshot_shape (Some j)"
    unfolding wire_as_struct [OF False] snapshot_shape_def
    by (subst struct_check, simp add: snapshot_keys_def snapshot_kinds_def, rule struct_accepts)
      (simp_all add: snapshot_kinds_def struct_simps method_arrays
        map_entries_accepts [of validateAppWire, OF app_accepts [of "Some _", unfolded raw_fits_simps]])
  then show ?thesis by simp
qed

text \<open>A snapshot without applications is accepted, and refused without the flag of its sources.\<close>

definition bare_wire :: "(string \<times> json) list" where
  "bare_wire = [(''schema_version'', JInt 3), (''position_encoding'', JString ''utf-8-bytes''), (''lookup_transform_max_depth'', JInt 8),
     (''lookup_path_max_count'', JInt 64), (''schema_sources'', JArray [JString ''/p/models.py'']), (''queryset_method_defs'', JArray []),
     (''apps'', JObject [])]"

lemma bare_wire_accepted:
  "ValidateWire (JObject ((''schema_sources_complete'', JBool True) # bare_wire)) = None"
  "ValidateWire (JObject bare_wire) \<noteq> None"
  by code_simp+

end
