(* ===== verification/Worker_Schema_Cache.thy ===== *)
theory Worker_Schema_Cache
  imports Schema_Wire Schema_Graph Worker_Environment
begin

text \<open>
  The snapshot of the schema that is kept on disk between runs (\<open>internal/python/schema_cache.go\<close>):
  the identity of a configuration and of the schema's sources, the entry that is read and written,
  and the replacement of the entry. What the operating system answers is data: the results of the
  calls a function makes, in the order it makes them. Encoding and parsing JSON text and the hash
  function are parameters.
\<close>

section \<open>What the operating system says of a file\<close>

text \<open>\<open>fi_File\<close> is what \<open>os.SameFile\<close> compares; the times are in nanoseconds.\<close>

record FileInfo =
  fi_Size :: int
  fi_Mode :: "32 word"
  fi_ModTime :: int
  fi_File :: nat

definition ModeDir :: "32 word" where "ModeDir = push_bit 31 1"
definition ModeSymlink :: "32 word" where "ModeSymlink = push_bit 27 1"

text \<open>Directory, symbolic link, device, pipe, socket, character device and irregular file.\<close>

definition ModeType :: "32 word" where
  "ModeType = 0x8F280000"

definition is_regular_mode :: "FileInfo \<Rightarrow> bool" where
  "is_regular_mode info \<longleftrightarrow> and (fi_Mode info) ModeType = 0"

definition is_symlink :: "FileInfo \<Rightarrow> bool" where
  "is_symlink info \<longleftrightarrow> and (fi_Mode info) ModeSymlink \<noteq> 0"

definition is_directory :: "FileInfo \<Rightarrow> bool" where
  "is_directory info \<longleftrightarrow> and (fi_Mode info) ModeDir \<noteq> 0"

definition Perm :: "FileInfo \<Rightarrow> 32 word" where
  "Perm info = and (fi_Mode info) 0x1FF"

definition shared_mode :: "platform \<Rightarrow> FileInfo \<Rightarrow> bool" where
  "shared_mode pf info \<longleftrightarrow> pf \<noteq> Windows \<and> and (Perm info) 0x3F \<noteq> 0"

definition SameFile :: "FileInfo \<Rightarrow> FileInfo \<Rightarrow> bool" where
  "SameFile a b \<longleftrightarrow> fi_File a = fi_File b"

text \<open>One \<open>Read\<close>: the error of the context before it, the bytes that are there and the error after them.\<close>

record read_outcome =
  ro_ctx :: "goerror option"
  ro_bytes :: string
  ro_err :: "goerror option"

definition copy_buffer :: nat where "copy_buffer = 64 * 1024"

text \<open>
  \<open>readAllContext\<close>: bytes that do not fit into the buffer of a read are there for the next one.
\<close>

function readAllContext :: "read_outcome list \<Rightarrow> nat \<Rightarrow> string \<Rightarrow> goerror + string" where
  "readAllContext [] maximum payload = Inr payload"
| "readAllContext (r # rs) maximum payload =
     (if maximum \<le> length payload then Inr payload
      else case ro_ctx r of
        Some e \<Rightarrow> Inl e
      | None \<Rightarrow>
          let limit = min copy_buffer (maximum - length payload) in
          if limit < length (ro_bytes r)
          then readAllContext (r\<lparr>ro_bytes := drop limit (ro_bytes r)\<rparr> # rs) maximum (payload @ take limit (ro_bytes r))
          else (case ro_err r of
              None \<Rightarrow> readAllContext rs maximum (payload @ ro_bytes r)
            | Some e \<Rightarrow> if e = EOF then Inr (payload @ ro_bytes r) else Inl e))"
  by pat_completeness auto
termination
  by (relation "measure (\<lambda>(rs, _, _). length rs + sum_list (map (length \<circ> ro_bytes) rs))") (auto simp: copy_buffer_def min_def)

text \<open>\<open>hashFileContext\<close>: what it adds to the hash.\<close>

function hashFileContext :: "read_outcome list \<Rightarrow> nat \<Rightarrow> string \<Rightarrow> goerror + string" where
  "hashFileContext [] left hashed = (if left = 0 then Inr hashed else Inl EOF)"
| "hashFileContext (r # rs) left hashed =
     (if left = 0 then Inr hashed
      else case ro_ctx r of
        Some e \<Rightarrow> Inl e
      | None \<Rightarrow>
          let limit = min copy_buffer left in
          if limit < length (ro_bytes r)
          then hashFileContext (r\<lparr>ro_bytes := drop limit (ro_bytes r)\<rparr> # rs) (left - limit) (hashed @ take limit (ro_bytes r))
          else (case ro_err r of
              None \<Rightarrow> hashFileContext rs (left - length (ro_bytes r)) (hashed @ ro_bytes r)
            | Some e \<Rightarrow> Inl e))"
  by pat_completeness auto
termination
  by (relation "measure (\<lambda>(rs, _, _). length rs + sum_list (map (length \<circ> ro_bytes) rs))") (auto simp: copy_buffer_def min_def)

section \<open>Identities\<close>

definition FormatInt :: "int \<Rightarrow> string" where
  "FormatInt i = (if i < 0 then ''-'' @ decimal (nat (- i)) else decimal (nat i))"

text \<open>Eight bytes, the most significant first.\<close>

definition PutUint64 :: "nat \<Rightarrow> string" where
  "PutUint64 n = map (\<lambda>i. char_of (n div 256 ^ (7 - i))) [0..<8]"

definition writeCacheIdentityField :: "string \<Rightarrow> string \<Rightarrow> string" where
  "writeCacheIdentityField name v = PutUint64 (length name) @ name @ PutUint64 (length v) @ v"

definition write_fields :: "(string \<times> string) list \<Rightarrow> string" where
  "write_fields members = concat (map (\<lambda>(name, v). writeCacheIdentityField name v) members)"

definition writeCacheFileIdentity :: "FileInfo \<Rightarrow> string" where
  "writeCacheFileIdentity info = write_fields
     [(''file-size'', FormatInt (fi_Size info)), (''file-mode'', decimal (unat (fi_Mode info))), (''file-modtime'', FormatInt (fi_ModTime info))]"

definition schemaCacheFormatVersion :: int where "schemaCacheFormatVersion = 1"
definition schemaExtractionFormatVersion :: int where "schemaExtractionFormatVersion = 1"
definition schemaCacheFileOverhead :: nat where "schemaCacheFileOverhead = 4096"
definition maxSchemaSourceIdentityBytes :: int where "maxSchemaSourceIdentityBytes = int MaxFrameSize"
definition maxSettingsSelectionBytes :: int where "maxSettingsSelectionBytes = 1024 * 1024"
definition maxProjectRootEntries :: nat where "maxProjectRootEntries = 4096"

text \<open>The manager's configuration without its timings, which are those of \<open>Worker_Manager\<close>.\<close>

record Config =
  cf_ProjectRoot :: string
  cf_PythonPath :: string
  cf_SettingsModule :: string
  cf_EnvironmentFile :: string
  cf_Environment :: "string option gomap"
  cf_CacheDirectory :: string

record persistentSchemaCacheConfig =
  pc_config :: Config
  pc_pythonSize :: int
  pc_pythonMode :: "32 word"
  pc_pythonModTime :: int
  pc_workerEnvironment :: "workerEnvironmentEntry list"
  pc_platformEnvironment :: "workerEnvironmentEntry list"
  pc_coordinatorPath :: string
  pc_workerDigest :: string

record persistentSchemaCache =
  sc_directory :: string
  sc_identity :: string
  sc_directoryInfo :: "FileInfo option"

definition newPersistentSchemaCacheConfig ::
    "(string \<Rightarrow> string) \<Rightarrow> Config \<Rightarrow> FileInfo \<Rightarrow> workerEnvironmentEntry list \<Rightarrow> workerEnvironmentEntry list \<Rightarrow> string \<Rightarrow> string \<Rightarrow>
     persistentSchemaCacheConfig option" where
  "newPersistentSchemaCacheConfig sha256 config pythonInfo worker platform_env coordinatorPath workerScript =
     (if cf_CacheDirectory config = [] then None
      else Some \<lparr>pc_config = config, pc_pythonSize = fi_Size pythonInfo, pc_pythonMode = fi_Mode pythonInfo,
        pc_pythonModTime = fi_ModTime pythonInfo, pc_workerEnvironment = worker, pc_platformEnvironment = platform_env,
        pc_coordinatorPath = coordinatorPath, pc_workerDigest = sha256 workerScript\<rparr>)"

text \<open>A file that may select the settings; \<open>sel_missing\<close> when opening it says that it does not exist.\<close>

record selection_file =
  sel_ctx :: "goerror option"
  sel_missing :: bool
  sel_open :: "goerror option"
  sel_stat :: "goerror + FileInfo"
  sel_reads :: "read_outcome list"

record project_listing =
  pl_entries :: "goerror + (string \<times> bool) list"
  pl_file :: "string \<Rightarrow> selection_file"

definition selection_source :: "(string \<Rightarrow> string option) \<Rightarrow> (string \<Rightarrow> selection_file) \<Rightarrow> string \<Rightarrow> int \<times> string \<Rightarrow> goerror + int \<times> string" where
  "selection_source ev files path st = (case st of (left, hashed) \<Rightarrow>
     let file = files path in
     guard_err (sel_ctx file)
     (if sel_missing file then Inr (left, hashed)
      else guard_err (sel_open file)
        (case sel_stat file of
           Inl _ \<Rightarrow> Inl (errorf ''settings identity is incomplete or exceeds size limit'' [])
         | Inr info \<Rightarrow>
             if \<not> is_regular_mode info \<or> fi_Size info < 0 \<or> left < fi_Size info
             then Inl (errorf ''settings identity is incomplete or exceeds size limit'' [])
             else bind_err (hashFileContext (sel_reads file) (nat (fi_Size info))
                 (hashed @ write_fields [(''selection-source'', ResolvedPath ev path), (''selection-size'', FormatInt (fi_Size info))]))
               (\<lambda>hashed'. Inr (left - fi_Size info, hashed')))))"

definition selection_paths :: "string \<Rightarrow> (string \<times> bool) list \<Rightarrow> string list" where
  "selection_paths projectRoot entries = sort (filepath_Join [projectRoot, ''manage.py''] #
     map (\<lambda>(name, _). filepath_Join [projectRoot, name, ''settings.py'']) (filter snd entries))"

definition settingsSelectionIdentity ::
    "platform \<Rightarrow> (string \<Rightarrow> string option) \<Rightarrow> (string \<Rightarrow> string) \<Rightarrow> project_listing \<Rightarrow> string \<Rightarrow> string \<Rightarrow> workerEnvironmentEntry list \<Rightarrow>
     goerror + string" where
  "settingsSelectionIdentity pf ev sha256 project projectRoot explicitSettings environment =
     (if explicitSettings \<noteq> [] then Inr ''explicit''
      else if workerEnvironmentValue pf environment ''DJANGO_SETTINGS_MODULE'' \<noteq> None then Inr ''environment''
      else bind_err (pl_entries project) (\<lambda>entries.
        if maxProjectRootEntries < length entries then Inl (errorf ''project root exceeds settings identity entry limit'' [])
        else bind_err (fold_err (selection_source ev (pl_file project)) (selection_paths projectRoot entries) (maxSettingsSelectionBytes, []))
          (\<lambda>(_, hashed). Inr (EncodeToString (sha256 hashed)))))"

definition environment_fields :: "string \<Rightarrow> workerEnvironmentEntry list \<Rightarrow> (string \<times> string) list" where
  "environment_fields kind entries =
     concat (map (\<lambda>entry. [(kind @ ''-name'', entry_name entry), (kind @ ''-value'', entry_value entry)]) entries)"

definition identity_fields ::
    "platform \<Rightarrow> (string \<Rightarrow> string option) \<Rightarrow> persistentSchemaCacheConfig \<Rightarrow> string \<Rightarrow> (string \<times> string) list" where
  "identity_fields pf ev configuration settingsIdentity =
     (let config = pc_config configuration; worker = pc_workerEnvironment configuration in
      [(''format'', FormatInt schemaCacheFormatVersion),
       (''extraction-format'', FormatInt schemaExtractionFormatVersion),
       (''protocol'', FormatInt ProtocolVersion),
       (''schema'', FormatInt Version),
       (''position'', PositionEncoding),
       (''frame-limit'', FormatInt (int MaxFrameSize)),
       (''project'', ResolvedPath ev (cf_ProjectRoot config)),
       (''python'', ResolvedPath ev (cf_PythonPath config)),
       (''file-size'', FormatInt (pc_pythonSize configuration)),
       (''file-mode'', decimal (unat (pc_pythonMode configuration))),
       (''file-modtime'', FormatInt (pc_pythonModTime configuration)),
       (''settings'', cf_SettingsModule config),
       (''effective-settings'', (case workerEnvironmentValue pf worker ''DJANGO_SETTINGS_MODULE'' of
          Some settings \<Rightarrow> settings | None \<Rightarrow> cf_SettingsModule config)),
       (''settings-selection'', settingsIdentity)]
      @ environment_fields ''environment'' worker
      @ environment_fields ''platform-environment'' (pc_platformEnvironment configuration)
      @ [(''coordinator-path'', pc_coordinatorPath configuration), (''worker'', pc_workerDigest configuration)])"

text \<open>\<open>open\<close>: \<open>before\<close> is the hook that runs first.\<close>

definition cache_open ::
    "platform \<Rightarrow> (string \<Rightarrow> string option) \<Rightarrow> (string \<Rightarrow> string) \<Rightarrow> goerror option \<Rightarrow> goerror option \<Rightarrow> project_listing \<Rightarrow>
     persistentSchemaCacheConfig \<Rightarrow> goerror + persistentSchemaCache" where
  "cache_open pf ev sha256 cancelled before project configuration =
     guard_err cancelled (guard_err before
     (bind_err (settingsSelectionIdentity pf ev sha256 project (cf_ProjectRoot (pc_config configuration))
         (cf_SettingsModule (pc_config configuration)) (pc_workerEnvironment configuration))
       (\<lambda>settingsIdentity. Inr \<lparr>sc_directory = cf_CacheDirectory (pc_config configuration),
          sc_identity = sha256 (write_fields (identity_fields pf ev configuration settingsIdentity)), sc_directoryInfo = None\<rparr>)))"

section \<open>The sources of a schema\<close>

record source_file =
  sf_ctx :: "goerror option"
  sf_lstat :: "goerror + FileInfo"
  sf_open :: "goerror option"
  sf_stat :: "goerror + FileInfo"
  sf_reads :: "read_outcome list"
  sf_close :: "goerror option"
  sf_after :: "goerror + FileInfo"

definition hash_source :: "(string \<Rightarrow> string option) \<Rightarrow> (string \<Rightarrow> source_file) \<Rightarrow> string \<Rightarrow> int \<times> string \<Rightarrow> goerror + int \<times> string" where
  "hash_source ev files path st = (case st of (left, hashed) \<Rightarrow>
     let file = files path in
     guard_err (sf_ctx file)
     (case sf_lstat file of
        Inl _ \<Rightarrow> Inl (errorf ''schema source is unavailable or not regular'' [])
      | Inr before \<Rightarrow>
          if is_symlink before then Inl (errorf ''schema source is unavailable or not regular'' [])
          else guard_err (sf_open file) (bind_err (sf_stat file) (\<lambda>info.
            guard_err (check (\<not> SameFile before info \<or> \<not> is_regular_mode info) (errorf ''schema source %q is not regular'' [AStr path]))
            (guard_err (check (fi_Size info < 0 \<or> left < fi_Size info) (errorf ''schema source identity exceeds maximum size'' []))
            (bind_err (hashFileContext (sf_reads file) (nat (fi_Size info))
                (hashed @ write_fields [(''source'', ResolvedPath ev path), (''source-size'', FormatInt (fi_Size info))]))
              (\<lambda>hashed'. guard_err (sf_close file) (bind_err (sf_after file) (\<lambda>after.
                 guard_err (check (fi_Size after \<noteq> fi_Size info \<or> fi_ModTime after \<noteq> fi_ModTime info \<or> fi_Mode after \<noteq> fi_Mode info)
                   (errorf ''schema source %q changed while hashing'' [AStr path]))
                 (Inr (left - fi_Size info, hashed')))))))))))"

definition schemaSourceIdentity ::
    "(string \<Rightarrow> string option) \<Rightarrow> (string \<Rightarrow> string) \<Rightarrow> (string \<Rightarrow> source_file) \<Rightarrow> string list \<Rightarrow> goerror + string" where
  "schemaSourceIdentity ev sha256 files paths =
     bind_err (fold_err (hash_source ev files) (sort paths) (maxSchemaSourceIdentityBytes, []))
       (\<lambda>(_, hashed). Inr (EncodeToString (sha256 hashed)))"

section \<open>An entry\<close>

text \<open>
  The record of an entry; \<open>cr_Schema\<close> is the raw JSON text of the snapshot. The codec is the JSON
  library: the text of a record (its raw message compacted), the strict decoders of \<open>protocol.go\<close>
  into a record and into a snapshot, and the value of a text.
\<close>

record schemaCacheRecord =
  cr_FormatVersion :: int
  cr_Identity :: string
  cr_SourceIdentity :: string
  cr_Checksum :: string
  cr_Schema :: string

record cache_codec =
  cy_encode :: "schemaCacheRecord \<Rightarrow> goerror + string"
  cy_record :: "string \<Rightarrow> goerror + schemaCacheRecord"
  cy_value :: "string \<Rightarrow> goerror + json"
  cy_snapshot :: "string \<Rightarrow> goerror + Snapshot"

text \<open>\<open>marshalStrict\<close>: the buffer takes \<open>MaxFrameSize + 1\<close> bytes, the line feed that \<open>Encode\<close> adds among them.\<close>

definition marshalStrict :: "goerror + string \<Rightarrow> goerror + string" where
  "marshalStrict encoded = (case encoded of
     Inl e \<Rightarrow> Inl (wrapf ''encode IPC JSON: %w'' [] e)
   | Inr payload \<Rightarrow> if MaxFrameSize + 1 < length payload + 1 then Inl (wrapf ''encode IPC JSON: %w'' [] ErrFrameTooLarge) else Inr payload)"

definition cache_path :: "persistentSchemaCache \<Rightarrow> string" where
  "cache_path cache = filepath_Join [sc_directory cache, EncodeToString (sc_identity cache) @ ''.schema'']"

definition decode_entry ::
    "(string \<Rightarrow> string option) \<Rightarrow> (string \<Rightarrow> string) \<Rightarrow> cache_codec \<Rightarrow> (string \<Rightarrow> source_file) \<Rightarrow> persistentSchemaCache \<Rightarrow> string \<Rightarrow>
     goerror + Graph" where
  "decode_entry ev sha256 codec files cache payload =
     (case cy_record codec payload of
        Inl e \<Rightarrow> Inl (wrapf ''decode schema cache: %w'' [] e)
      | Inr entry \<Rightarrow>
          guard_err (check (cr_FormatVersion entry \<noteq> schemaCacheFormatVersion \<or> cr_Identity entry \<noteq> EncodeToString (sc_identity cache))
            (errorf ''schema cache identity mismatch'' []))
          (guard_err (check (cr_Schema entry = [] \<or> MaxFrameSize < length (cr_Schema entry))
            (errorf ''schema cache payload has invalid size'' []))
          (guard_err (check (cr_Checksum entry \<noteq> EncodeToString (sha256 (cr_Schema entry))) (errorf ''schema cache checksum mismatch'' []))
          (guard_err (on_err (wrapf ''validate cached schema wire: %w'' [])
             (case cy_value codec (cr_Schema entry) of Inl e \<Rightarrow> Some e | Inr j \<Rightarrow> ValidateWire j))
          (case cy_snapshot codec (cr_Schema entry) of
             Inl e \<Rightarrow> Inl (wrapf ''decode cached schema: %w'' [] e)
           | Inr snapshot \<Rightarrow>
               guard_err (check (\<not> snap_SchemaSourcesComplete snapshot) (errorf ''cached schema source manifest is incomplete'' []))
               (guard_err (check (schemaSourceIdentity ev sha256 files (snap_SchemaSources snapshot) \<noteq> Inr (cr_SourceIdentity entry))
                 (errorf ''schema cache source identity mismatch'' []))
               (case Build ev snapshot of
                  Inl e \<Rightarrow> Inl (wrapf ''build cached schema: %w'' [] e)
                | Inr graph \<Rightarrow> Inr graph)))))))"

definition marshal_entry ::
    "(string \<Rightarrow> string option) \<Rightarrow> (string \<Rightarrow> string) \<Rightarrow> cache_codec \<Rightarrow> (string \<Rightarrow> source_file) \<Rightarrow> persistentSchemaCache \<Rightarrow> string \<Rightarrow>
     goerror + string" where
  "marshal_entry ev sha256 codec files cache snapshotJSON =
     guard_err (check (snapshotJSON = [] \<or> MaxFrameSize < length snapshotJSON) (errorf ''schema cache payload has invalid size'' []))
     (bind_err (cy_snapshot codec snapshotJSON) (\<lambda>snapshot.
       guard_err (check (\<not> snap_SchemaSourcesComplete snapshot) (errorf ''schema source manifest is incomplete'' []))
       (bind_err (schemaSourceIdentity ev sha256 files (snap_SchemaSources snapshot)) (\<lambda>sourceIdentity.
         marshalStrict (cy_encode codec \<lparr>cr_FormatVersion = schemaCacheFormatVersion,
           cr_Identity = EncodeToString (sc_identity cache), cr_SourceIdentity = sourceIdentity,
           cr_Checksum = EncodeToString (sha256 snapshotJSON), cr_Schema = snapshotJSON\<rparr>)))))"

section \<open>Reading the entry\<close>

definition validateDirectory :: "platform \<Rightarrow> goerror + FileInfo \<Rightarrow> goerror + FileInfo" where
  "validateDirectory pf lstat = bind_err lstat (\<lambda>info.
     guard_err (check (is_symlink info \<or> \<not> is_directory info) (errorf ''schema cache directory is not a regular directory'' []))
     (guard_err (check (pf \<noteq> Windows \<and> Perm info \<noteq> 0x1C0) (errorf ''schema cache directory is not private'' []))
     (Inr info)))"

record cache_file =
  ce_directory :: "goerror + FileInfo"
  ce_lstat :: "goerror + FileInfo"
  ce_open :: "goerror option"
  ce_stat :: "goerror + FileInfo"
  ce_reads :: "read_outcome list"
  ce_directory_after :: "goerror + FileInfo"

definition same_directory :: "FileInfo \<Rightarrow> goerror + FileInfo \<Rightarrow> bool" where
  "same_directory info current = (case current of Inl _ \<Rightarrow> False | Inr c \<Rightarrow> SameFile info c)"

definition cache_load ::
    "platform \<Rightarrow> (string \<Rightarrow> string option) \<Rightarrow> (string \<Rightarrow> string) \<Rightarrow> cache_codec \<Rightarrow> (string \<Rightarrow> source_file) \<Rightarrow> cache_file \<Rightarrow>
     persistentSchemaCache \<Rightarrow> goerror + Graph" where
  "cache_load pf ev sha256 codec files file cache =
     bind_err (validateDirectory pf (ce_directory file)) (\<lambda>directoryInfo.
     bind_err (ce_lstat file) (\<lambda>pathInfo.
     guard_err (check (is_symlink pathInfo \<or> \<not> is_regular_mode pathInfo) (errorf ''schema cache entry is not a regular file'' []))
     (guard_err (check (shared_mode pf pathInfo) (errorf ''schema cache entry is not private'' []))
     (guard_err (ce_open file)
     (bind_err (ce_stat file) (\<lambda>info.
     guard_err (check (\<not> SameFile pathInfo info \<or> \<not> is_regular_mode info) (errorf ''schema cache entry is not a regular file'' []))
     (guard_err (check (shared_mode pf info) (errorf ''schema cache entry is not private'' []))
     (guard_err (check (fi_Size info \<le> 0 \<or> int (MaxFrameSize + schemaCacheFileOverhead) < fi_Size info)
        (errorf ''schema cache entry has invalid size'' []))
     (bind_err (readAllContext (ce_reads file) (MaxFrameSize + schemaCacheFileOverhead + 1) []) (\<lambda>payload.
     guard_err (check (MaxFrameSize + schemaCacheFileOverhead < length payload) (errorf ''schema cache entry is oversized'' []))
     (guard_err (check (\<not> same_directory directoryInfo (ce_directory_after file)) (errorf ''schema cache directory changed while reading'' []))
     (decode_entry ev sha256 codec files cache payload))))))))))))"

section \<open>Replacing the entry\<close>

text \<open>The files of the disk, by path, with their permissions and their bytes.\<close>

type_synonym disk = "(nat \<times> string) gomap"

definition disk_remove :: "string \<Rightarrow> disk \<Rightarrow> disk" where
  "disk_remove path d = filter (\<lambda>f. fst f \<noteq> path) d"

record schemaCacheTemporary =
  tmp_path :: string
  tmp_directoryInfo :: FileInfo

text \<open>
  What the calls of \<open>writeTemp\<close> answer: \<open>wt_mkdir\<close> and whether it says that the directory exists, the
  name that \<open>CreateTemp\<close> made, the bytes that reached the file when the write fails, and whether
  removing the file works.
\<close>

record write_calls =
  wt_mkdir :: "goerror option"
  wt_exists :: bool
  wt_directory :: "goerror + FileInfo"
  wt_create :: "goerror + string"
  wt_chmod :: "goerror option"
  wt_lstat :: "goerror + FileInfo"
  wt_write :: "(nat \<times> goerror) option"
  wt_sync :: "goerror option"
  wt_close :: "goerror option"
  wt_removes :: bool

definition ensureDirectory :: "platform \<Rightarrow> write_calls \<Rightarrow> goerror + FileInfo" where
  "ensureDirectory pf calls = guard_err (if wt_exists calls then None else wt_mkdir calls) (validateDirectory pf (wt_directory calls))"

text \<open>The writing of the temporary file: the error, if any, and the disk before the deferred removal.\<close>

definition fill_temporary :: "write_calls \<Rightarrow> FileInfo \<Rightarrow> string \<Rightarrow> string \<Rightarrow> disk \<Rightarrow> goerror option \<times> disk" where
  "fill_temporary calls directoryInfo name payload d =
     (if wt_chmod calls \<noteq> None then (wt_chmod calls, d)
      else if \<not> same_directory directoryInfo (wt_lstat calls) then (Some (errorf ''schema cache directory changed before write'' []), d)
      else case wt_write calls of
        Some (n, e) \<Rightarrow> (Some e, gomap_put name (0x180, take n payload) d)
      | None \<Rightarrow> let d' = gomap_put name (0x180, payload) d in
          if wt_sync calls \<noteq> None then (wt_sync calls, d') else (wt_close calls, d'))"

definition writeTemp ::
    "platform \<Rightarrow> (string \<Rightarrow> string option) \<Rightarrow> (string \<Rightarrow> string) \<Rightarrow> cache_codec \<Rightarrow> (string \<Rightarrow> source_file) \<Rightarrow> write_calls \<Rightarrow>
     persistentSchemaCache \<Rightarrow> string \<Rightarrow> disk \<Rightarrow> (goerror + schemaCacheTemporary) \<times> disk" where
  "writeTemp pf ev sha256 codec files calls cache snapshotJSON d =
     (case marshal_entry ev sha256 codec files cache snapshotJSON of
        Inl e \<Rightarrow> (Inl e, d)
      | Inr payload \<Rightarrow>
          (case ensureDirectory pf calls of
             Inl e \<Rightarrow> (Inl e, d)
           | Inr directoryInfo \<Rightarrow>
               (case wt_create calls of
                  Inl e \<Rightarrow> (Inl e, d)
                | Inr name \<Rightarrow>
                    (case fill_temporary calls directoryInfo name payload (gomap_put name (0x180, []) d) of
                       (Some e, d') \<Rightarrow> (Inl e, if wt_removes calls then disk_remove name d' else d')
                     | (None, d') \<Rightarrow> (Inr \<lparr>tmp_path = name, tmp_directoryInfo = directoryInfo\<rparr>, d')))))"

text \<open>The rename of \<open>install\<close> replaces the entry at once, or fails and changes nothing.\<close>

definition install :: "schemaCacheTemporary \<Rightarrow> goerror + FileInfo \<Rightarrow> goerror option \<Rightarrow> persistentSchemaCache \<Rightarrow> disk \<Rightarrow>
    (goerror option \<times> persistentSchemaCache) \<times> disk" where
  "install temporary current renamed cache d =
     (if \<not> same_directory (tmp_directoryInfo temporary) current
      then ((Some (errorf ''schema cache directory changed before install'' []), cache), d)
      else case renamed of
        Some e \<Rightarrow> ((Some e, cache), d)
      | None \<Rightarrow> ((None, cache\<lparr>sc_directoryInfo := Some (tmp_directoryInfo temporary)\<rparr>),
          (case map_of d (tmp_path temporary) of
             None \<Rightarrow> d | Some f \<Rightarrow> gomap_put (cache_path cache) f (disk_remove (tmp_path temporary) d))))"

definition syncDirectory :: "persistentSchemaCache \<Rightarrow> goerror + FileInfo \<Rightarrow> goerror option \<Rightarrow> goerror option \<Rightarrow> goerror option" where
  "syncDirectory cache current opened synced =
     (if (case current of Inl _ \<Rightarrow> True | Inr c \<Rightarrow> (case sc_directoryInfo cache of None \<Rightarrow> False | Some info \<Rightarrow> \<not> SameFile info c))
      then Some (errorf ''schema cache directory changed before sync'' [])
      else case opened of Some e \<Rightarrow> Some e | None \<Rightarrow> synced)"

text \<open>
  What \<open>persistGraph\<close> of \<open>manager.go\<close> does to the disk: \<open>superseded\<close> says that the graph is no longer the
  newest when the temporary file is complete, \<open>removes\<close> that removing the file then works.
\<close>

definition persist_on_disk ::
    "platform \<Rightarrow> (string \<Rightarrow> string option) \<Rightarrow> (string \<Rightarrow> string) \<Rightarrow> cache_codec \<Rightarrow> (string \<Rightarrow> source_file) \<Rightarrow> write_calls \<Rightarrow> bool \<Rightarrow>
     goerror + FileInfo \<Rightarrow> goerror option \<Rightarrow> bool \<Rightarrow> persistentSchemaCache \<Rightarrow> string \<Rightarrow> disk \<Rightarrow> disk" where
  "persist_on_disk pf ev sha256 codec files calls superseded current renamed removes cache snapshotJSON d =
     (case writeTemp pf ev sha256 codec files calls cache snapshotJSON d of
        (Inl _, d1) \<Rightarrow> d1
      | (Inr temporary, d1) \<Rightarrow>
          let abandon = (\<lambda>d2. if removes then disk_remove (tmp_path temporary) d2 else d2) in
          if superseded then abandon d1
          else (case install temporary current renamed cache d1 of
              ((None, _), d2) \<Rightarrow> d2
            | ((Some _, _), d2) \<Rightarrow> abandon d2))"

end
