(* ===== verification/Lsp_Features.thy ===== *)
theory Lsp_Features
  imports Lsp_Server Lsp_Signature Analysis_Annotation Analysis_Links Worker_Schema_Cache Go_Io
begin

text \<open>
  The answers to the editor's questions (\<open>internal/lsp/features.go\<close>): completion, hover and signature
  help, as functions of the snapshot of the document and the graph at the time of the question, and
  the Markdown they show. \<open>isFloat\<close> is \<open>strconv.ParseFloat\<close>; a nil pointer that the code follows is
  a panic.
\<close>

section \<open>Markdown\<close>

abbreviation backtick :: char where "backtick \<equiv> CHR 0x60"
abbreviation nl :: string where "nl \<equiv> [newline]"

definition markdown_special :: "char list" where
  "markdown_special = [backslash, CHR ''*'', CHR ''_'', backtick, CHR ''['', CHR '']'']"

definition markdownText :: "string \<Rightarrow> string" where
  "markdownText value = concat (map (\<lambda>c. if c \<in> set markdown_special then [backslash, c] else [c]) value)"

definition markdownCode :: "string \<Rightarrow> string" where
  "markdownCode value = concat (map (\<lambda>c. if c = backtick then [backslash, c] else [c]) value)"

definition code_span :: "string \<Rightarrow> string" where
  "code_span value = [backtick] @ markdownCode value @ [backtick]"

definition strong :: "string \<Rightarrow> string" where
  "strong value = ''**'' @ markdownText value @ ''**''"

definition show_bool :: "bool \<Rightarrow> string" where
  "show_bool b = (if b then ''true'' else ''false'')"

definition bullet :: "string \<Rightarrow> string \<Rightarrow> string" where
  "bullet label value = nl @ ''- '' @ label @ '': '' @ value"

definition present :: "string option \<Rightarrow> (string \<Rightarrow> string) \<Rightarrow> string" where
  "present value line = (case value of Some v \<Rightarrow> if v \<noteq> [] then line v else [] | None \<Rightarrow> [])"

definition fieldMarkdown :: "FieldRef FieldAccess \<Rightarrow> string" where
  "fieldMarkdown access = (let field = fa_Field access; f = Some field in
     strong (fa_Name access) @ ''  '' @ nl @ code_span (FieldRef_Type field) @
     present (FieldRef_DBType f) (\<lambda>dbType. nl @ bullet ''Database type'' (code_span dbType)) @
     present (FieldRef_DBColumn f) (\<lambda>column. bullet ''Database column'' (code_span column)) @
     bullet ''Null'' ([backtick] @ show_bool (FieldRef_IsNullable f) @ [backtick]) @
     bullet ''Indexed'' ([backtick] @ show_bool (FieldRef_IsDBIndexed f) @ [backtick]) @
     bullet ''Unique'' ([backtick] @ show_bool (FieldRef_IsUnique f) @ [backtick]) @
     bullet ''Primary key'' ([backtick] @ show_bool (FieldRef_IsPrimaryKey f) @ [backtick]) @
     (case FieldRef_RelatedModel f of Some related \<Rightarrow> bullet ''Related model'' (code_span related) | None \<Rightarrow> []) @
     present (Some (FieldRef_SourceModel f)) (\<lambda>source. bullet ''Source model'' (code_span source)) @
     present (Some (TrimSpace (FieldRef_HelpText field))) (\<lambda>help. nl @ nl @ markdownText help))"

definition managerMarkdown :: "ManagerRef \<Rightarrow> string" where
  "managerMarkdown manager = strong (ManagerRef_Name (Some manager)) @ ''  '' @ nl @ ''Django manager '' @
     code_span (ManagerRef_OwnerClass (Some manager))"

definition method_signature :: "Method \<Rightarrow> string" where
  "method_signature m = (case MethodRef_Signature (Some m) of Some signature \<Rightarrow> signature | None \<Rightarrow> [])"

definition method_docstring :: "Method \<Rightarrow> string" where
  "method_docstring m = (case MethodRef_Docstring (Some m) of Some docstring \<Rightarrow> TrimSpace docstring | None \<Rightarrow> [])"

definition methodMarkdown :: "Method \<Rightarrow> string" where
  "methodMarkdown m = strong (MethodRef_Name (Some m)) @ ''  '' @ nl @ [backtick] @ markdownCode (MethodRef_OwnerClass (Some m)) @ ''.'' @
     markdownCode (MethodRef_Name (Some m)) @ markdownCode (method_signature m) @ [backtick] @
     present (Some (method_docstring m)) (\<lambda>docstring. nl @ nl @ markdownText docstring) @
     (if MethodRef_AssumedChainable (Some m)
      then nl @ nl @ ''_Chainability inferred from the custom QuerySet contract._'' else [])"

definition annotationHoverMarkdown ::
    "(nat \<Rightarrow> bool) \<Rightarrow> (string \<Rightarrow> bool) \<Rightarrow> string \<Rightarrow> string \<Rightarrow> int \<Rightarrow> graph_ptr \<Rightarrow> SyntaxStatement list \<Rightarrow> string \<Rightarrow> string" where
  "annotationHoverMarkdown wide isFloat alias source offset graph syntax filePath =
     strong alias @ ''  '' @ nl @ ''QuerySet annotation'' @
     (case AnnotationReturnType wide isFloat source offset graph syntax filePath of
        Some returnType \<Rightarrow> nl @ bullet ''Return type'' (code_span returnType) | None \<Rightarrow> [])"

definition named_access :: "string \<Rightarrow> FieldRef \<Rightarrow> FieldRef FieldAccess" where
  "named_access name field = \<lparr>fa_Name = name, fa_Kind = FieldAccessDeclared, fa_Field = field\<rparr>"

definition serializerFieldMarkdown :: "SerializerField \<Rightarrow> string" where
  "serializerFieldMarkdown field = strong (sf_Name field) @ ''  '' @ nl @ ''DRF serializer field'' @
     (if sf_Source field \<noteq> [] then nl @ nl @ ''Source attribute: '' @ code_span (sf_Source field) else []) @
     (case sf_Field field of None \<Rightarrow> [] | Some f \<Rightarrow> nl @ nl @ fieldMarkdown (named_access (FieldRef_Name f) f))"

section \<open>Completion items\<close>

datatype CompletionItemKind = ItemMethod | ItemField | ItemProperty | ItemKeyword

record CompletionItem =
  ci_Label :: string
  ci_Kind :: CompletionItemKind
  ci_Detail :: string
  ci_Documentation :: string
  ci_SortText :: "string option"
  ci_FilterText :: "string option"
  ci_Range :: DocRange
  ci_NewText :: string

definition completion_item :: "string \<Rightarrow> CompletionItemKind \<Rightarrow> string \<Rightarrow> string \<Rightarrow> string option \<Rightarrow> DocRange \<Rightarrow> CompletionItem" where
  "completion_item label kind detail documentation sortText replacement =
     \<lparr>ci_Label = label, ci_Kind = kind, ci_Detail = detail, ci_Documentation = documentation, ci_SortText = sortText,
      ci_FilterText = None, ci_Range = replacement, ci_NewText = label\<rparr>"

definition access_number :: "FieldAccessKind \<Rightarrow> nat" where
  "access_number kind = (case kind of FieldAccessDeclared \<Rightarrow> 0 | FieldAccessAttname \<Rightarrow> 1 | FieldAccessReverse \<Rightarrow> 2)"

definition show_int :: "int \<Rightarrow> string" where
  "show_int i = (if i < 0 then ''-'' @ decimal (nat (- i)) else decimal (nat i))"

definition fieldCompletion :: "FieldRef FieldAccess \<Rightarrow> DocRange \<Rightarrow> CompletionItem" where
  "fieldCompletion access replacement = completion_item (fa_Name access) ItemField (FieldRef_Type (fa_Field access))
     (fieldMarkdown access) (Some (decimal (access_number (fa_Kind access)) @ ''-'' @ fa_Name access)) replacement"

definition annotationCompletion :: "string \<Rightarrow> DocRange \<Rightarrow> CompletionItem" where
  "annotationCompletion name replacement = completion_item name ItemField ''QuerySet annotation''
     (strong name @ ''  '' @ nl @ ''QuerySet annotation'') (Some (''1-'' @ name)) replacement"

definition managerCompletion :: "ManagerRef \<Rightarrow> DocRange \<Rightarrow> CompletionItem" where
  "managerCompletion manager replacement = (let name = ManagerRef_Name (Some manager) in
     completion_item name ItemProperty (ManagerRef_OwnerClass (Some manager)) (managerMarkdown manager) (Some (''0-'' @ name)) replacement)"

definition pathCompletion :: "PathCandidate \<Rightarrow> DocRange \<Rightarrow> CompletionItem" where
  "pathCompletion candidate replacement =
     (let sortText = Some (show_int (pc_Rank candidate) @ ''-'' @ pc_Name candidate) in
      if pc_Kind candidate = PathCandidateField
      then (fieldCompletion (named_access (pc_Name candidate) (pc_Field candidate)) replacement)\<lparr>ci_SortText := sortText\<rparr>
      else let detail = (if pc_Kind candidate = PathCandidateLookup then ''Django lookup'' else ''Django transform'') in
        completion_item (pc_Name candidate) ItemKeyword detail (detail @ '' on '' @ code_span (FieldRef_Type (pc_Field candidate)))
          sortText replacement)"

definition methodCompletion :: "Method \<Rightarrow> DocRange \<Rightarrow> CompletionItem" where
  "methodCompletion m replacement = (let name = MethodRef_Name (Some m) in
     completion_item name ItemMethod (MethodRef_OwnerClass (Some m) @ ''.'' @ name @ method_signature m) (methodMarkdown m)
       (Some (''0-'' @ name)) replacement)"

definition serializerCompletion :: "DocRange \<Rightarrow> SerializerField \<Rightarrow> CompletionItem" where
  "serializerCompletion replacement candidate = (case sf_Field candidate of
     Some f \<Rightarrow> if br_End (sf_Declaration candidate) = 0 then fieldCompletion (named_access (sf_Name candidate) f) replacement
       else completion_item (sf_Name candidate) ItemField ''DRF serializer field'' (serializerFieldMarkdown candidate) None replacement
   | None \<Rightarrow> completion_item (sf_Name candidate) ItemField ''DRF serializer field'' (serializerFieldMarkdown candidate) None replacement)"

section \<open>Completion\<close>

text \<open>A visitor that collects an item for each name with the prefix at the cursor.\<close>

definition offer :: "string \<Rightarrow> ('a \<Rightarrow> string) \<Rightarrow> ('a \<Rightarrow> CompletionItem) \<Rightarrow> 'a \<Rightarrow> CompletionItem list \<Rightarrow> bool \<times> CompletionItem list" where
  "offer identifier name item x items = (True, if HasPrefix (name x) identifier then items @ [item x] else items)"

definition annotation_items :: "Context \<Rightarrow> DocRange \<Rightarrow> CompletionItem list \<Rightarrow> CompletionItem list" where
  "annotation_items context replacement items = items @ map (\<lambda>alias. annotationCompletion alias replacement)
     (filter (\<lambda>alias. HasPrefix alias (cx_Identifier context)) (val_Annotations (cx_Value context)))"

definition path_items :: "graph_ptr \<Rightarrow> Context \<Rightarrow> PathContext \<Rightarrow> DocRange \<Rightarrow> CompletionItem list" where
  "path_items graph context path replacement =
     (let items = map (\<lambda>candidate. pathCompletion candidate replacement)
          (CompletePath graph (val_CanonicalLabel (cx_Value context)) (PathContext.pc_Mode path) (pc_Segments path) (int (pc_ActiveSegment path))) in
      if pc_ActiveSegment path = 0 \<and> (PathContext.pc_Mode path = PathLookup \<or> PathContext.pc_Mode path = PathProjection)
      then annotation_items context replacement items else items)"

text \<open>The items of a context; \<open>None\<close> where the code returns nothing at once, or follows a nil path.\<close>

definition context_items :: "graph_ptr \<Rightarrow> Context \<Rightarrow> DocRange \<Rightarrow> goerror + CompletionItem list" where
  "context_items graph context replacement =
     (let label = val_CanonicalLabel (cx_Value context); identifier = cx_Identifier context;
        fields = (\<lambda>visit. snd (visit graph label (offer identifier fa_Name (\<lambda>access. fieldCompletion access replacement)) [])) in
      case cx_Kind context of
        ContextSerializerField \<Rightarrow> Inr (map (serializerCompletion replacement)
          (filter (\<lambda>candidate. HasPrefix (sf_Name candidate) identifier) (cx_SerializerFields context)))
      | ContextQueryKeyword \<Rightarrow> Inr (annotation_items context replacement (fields VisitQueryFields))
      | ContextMetaField \<Rightarrow> Inr (fields VisitInstanceFields)
      | ContextInstanceMember \<Rightarrow> Inr (annotation_items context replacement (fields VisitInstanceFields))
      | ContextModelMember \<Rightarrow> Inr (snd (VisitManagers graph label
          (offer identifier (\<lambda>manager. ManagerRef_Name (Some manager)) (\<lambda>manager. managerCompletion manager replacement))
          (fields VisitInstanceFields)))
      | ContextORMPath \<Rightarrow> (case cx_Path context of
          None \<Rightarrow> Inl (GoPanic ''invalid memory address or nil pointer dereference'')
        | Some path \<Rightarrow> Inr (if pc_OnSeparator path then [] else path_items graph context path replacement))
      | ContextMethodMember \<Rightarrow> Inr (snd (VisitMethods graph (cx_Value context)
          (offer identifier (\<lambda>m. MethodRef_Name (Some m)) (\<lambda>m. methodCompletion m replacement)) []))
      | ContextUnknown \<Rightarrow> Inr [])"

definition document_path :: "(string \<Rightarrow> parsedURL option) \<Rightarrow> string \<Rightarrow> DocSnapshot \<Rightarrow> string" where
  "document_path url uri snapshot = (if ds_FilePath snapshot = [] then (case localFilePath url uri of Some path \<Rightarrow> path | None \<Rightarrow> [])
     else ds_FilePath snapshot)"

text \<open>\<open>Completion\<close> on the snapshot of the document, \<open>None\<close> when it is not open.\<close>

definition Completion :: "(nat \<Rightarrow> bool) \<Rightarrow> (string \<Rightarrow> parsedURL option) \<Rightarrow> DocSnapshot option \<Rightarrow> graph_ptr \<Rightarrow> string \<Rightarrow> DocPosition \<Rightarrow>
    goerror + CompletionItem list option" where
  "Completion wide url document graph uri position = (case document of
     None \<Rightarrow> Inr None
   | Some snapshot \<Rightarrow>
       (case ByteOffset (ds_Source snapshot) position of
          None \<Rightarrow> Inl (errorf ''completion position is not valid for the document'' [])
        | Some offset \<Rightarrow>
            (case AnalyzeSyntaxFile wide (ds_Source snapshot) (int offset) graph (ds_Syntax snapshot) (document_path url uri snapshot) of
               None \<Rightarrow> Inr None
             | Some context \<Rightarrow>
                 (case protocolRange (ds_Source snapshot) (cx_Replacement context) of
                    None \<Rightarrow> Inl (errorf ''completion replacement range is invalid'' [])
                  | Some replacement \<Rightarrow>
                      (case context_items graph context replacement of
                         Inl e \<Rightarrow> Inl e
                       | Inr items \<Rightarrow>
                           let pre = IdentifierPrefix wide (ds_Source snapshot) (int (br_Start (cx_Replacement context))) in
                           if items = [] then Inr None
                           else Inr (Some (if pre \<noteq> []
                             then map (\<lambda>item. item\<lparr>ci_FilterText := Some (pre @ ci_Label item)\<rparr>) items else items)))))))"

section \<open>Hover\<close>

record Hover =
  hv_Value :: string
  hv_Range :: DocRange

definition hover_at :: "string \<Rightarrow> ByteRange \<Rightarrow> string \<Rightarrow> Hover option" where
  "hover_at source rg value = map_option (\<lambda>shown. \<lparr>hv_Value = value, hv_Range = shown\<rparr>) (protocolRange source rg)"

definition annotation_hover :: "(nat \<Rightarrow> bool) \<Rightarrow> (string \<Rightarrow> bool) \<Rightarrow> DocSnapshot \<Rightarrow> int \<Rightarrow> graph_ptr \<Rightarrow> string \<Rightarrow> Context \<Rightarrow> Hover option" where
  "annotation_hover wide isFloat snapshot offset graph filePath context =
     hover_at (ds_Source snapshot) (cx_Replacement context)
       (annotationHoverMarkdown wide isFloat (cx_Identifier context) (ds_Source snapshot) offset graph (ds_Syntax snapshot) filePath)"

definition field_hover :: "DocSnapshot \<Rightarrow> Context \<Rightarrow> FieldRef FieldAccess option \<Rightarrow> Hover option" where
  "field_hover snapshot context access = (case access of
     None \<Rightarrow> None | Some a \<Rightarrow> hover_at (ds_Source snapshot) (cx_Replacement context) (fieldMarkdown a))"

definition path_hover :: "DocSnapshot \<Rightarrow> graph_ptr \<Rightarrow> Context \<Rightarrow> PathContext \<Rightarrow> Hover option \<Rightarrow> Hover option" where
  "path_hover snapshot graph context path annotation =
     (case ResolvePathSegment graph (val_CanonicalLabel (cx_Value context)) (PathContext.pc_Mode path) (pc_Segments path)
         (int (pc_ActiveSegment path)) of
        Some resolved \<Rightarrow>
          if seg_Text (rps_Segment resolved) \<noteq> [] then hover_at (ds_Source snapshot) (seg_Range (rps_Segment resolved))
            (fieldMarkdown (named_access (seg_Text (rps_Segment resolved)) (rps_Field resolved)) @
             (case rps_Kind resolved of
                PathCandidateTransform \<Rightarrow> nl @ nl @ ''Django transform: '' @ code_span (seg_Text (rps_Segment resolved))
              | PathCandidateLookup \<Rightarrow> nl @ nl @ ''Django lookup: '' @ code_span (seg_Text (rps_Segment resolved))
              | PathCandidateField \<Rightarrow> []))
          else annotation
      | None \<Rightarrow> annotation)"

definition context_hover :: "(nat \<Rightarrow> bool) \<Rightarrow> (string \<Rightarrow> bool) \<Rightarrow> DocSnapshot \<Rightarrow> int \<Rightarrow> graph_ptr \<Rightarrow> string \<Rightarrow> Context \<Rightarrow>
    goerror + Hover option" where
  "context_hover wide isFloat snapshot offset graph filePath context =
     (let label = val_CanonicalLabel (cx_Value context); identifier = cx_Identifier context;
        annotated = identifier \<in> set (val_Annotations (cx_Value context));
        annotation = annotation_hover wide isFloat snapshot offset graph filePath context;
        show_text = hover_at (ds_Source snapshot) (cx_Replacement context) in
      case cx_Kind context of
        ContextSerializerField \<Rightarrow> Inr (case Context_SerializerField context of
          None \<Rightarrow> None | Some candidate \<Rightarrow> show_text (serializerFieldMarkdown candidate))
      | ContextORMPath \<Rightarrow> (case cx_Path context of
          None \<Rightarrow> Inl (GoPanic ''invalid memory address or nil pointer dereference'')
        | Some path \<Rightarrow> Inr (if pc_OnSeparator path then None
            else path_hover snapshot graph context path
              (if pc_ActiveSegment path = 0 \<and> (PathContext.pc_Mode path = PathLookup \<or> PathContext.pc_Mode path = PathProjection) \<and> annotated
               then annotation else None)))
      | ContextMethodMember \<Rightarrow> Inr (case cx_Method context of None \<Rightarrow> None | Some m \<Rightarrow> show_text (methodMarkdown m))
      | ContextQueryKeyword \<Rightarrow> Inr (case QueryAccess graph label identifier of
          Some access \<Rightarrow> field_hover snapshot context (Some access)
        | None \<Rightarrow> if annotated then annotation else None)
      | ContextMetaField \<Rightarrow> Inr (field_hover snapshot context (InstanceAccess graph label identifier))
      | ContextInstanceMember \<Rightarrow> Inr (if annotated then annotation
          else field_hover snapshot context (InstanceAccess graph label identifier))
      | ContextModelMember \<Rightarrow> Inr (case graph_Manager graph label identifier of
          Some manager \<Rightarrow> show_text (managerMarkdown manager)
        | None \<Rightarrow> field_hover snapshot context (InstanceAccess graph label identifier))
      | ContextUnknown \<Rightarrow> Inr None)"

definition HoverAt :: "(nat \<Rightarrow> bool) \<Rightarrow> (string \<Rightarrow> bool) \<Rightarrow> (string \<Rightarrow> parsedURL option) \<Rightarrow> DocSnapshot option \<Rightarrow> graph_ptr \<Rightarrow>
    string \<Rightarrow> DocPosition \<Rightarrow> goerror + Hover option" where
  "HoverAt wide isFloat url document graph uri position = (case document of
     None \<Rightarrow> Inr None
   | Some snapshot \<Rightarrow>
       (case ByteOffset (ds_Source snapshot) position of
          None \<Rightarrow> Inl (errorf ''hover position is not valid for the document'' [])
        | Some offset \<Rightarrow>
            (let filePath = document_path url uri snapshot in
             case AnalyzeSyntaxFile wide (ds_Source snapshot) (int offset) graph (ds_Syntax snapshot) filePath of
               None \<Rightarrow> Inr None
             | Some context \<Rightarrow> if cx_Identifier context = [] then Inr None
                 else context_hover wide isFloat snapshot (int offset) graph filePath context)))"

section \<open>Signature help\<close>

record SignatureHelp =
  sh_Label :: string
  sh_Parameters :: "string list"
  sh_Documentation :: "string option"
  sh_ActiveParameter :: "32 word option"

definition help_of :: "Method \<Rightarrow> string \<Rightarrow> parsedSignature \<Rightarrow> nat \<Rightarrow> string \<Rightarrow> SignatureHelp" where
  "help_of m signature parsed positional keyword =
     \<lparr>sh_Label = MethodRef_Name (Some m) @ signature, sh_Parameters = map sigp_label (sig_parameters parsed),
      sh_Documentation = (if method_docstring m \<noteq> [] then Some (markdownText (method_docstring m)) else None),
      sh_ActiveParameter = map_option word_of_nat (Lsp_Signature.activeParameter parsed positional keyword)\<rparr>"

definition SignatureHelpAt :: "(nat \<Rightarrow> bool) \<Rightarrow> DocSnapshot option \<Rightarrow> graph_ptr \<Rightarrow> DocPosition \<Rightarrow> goerror + SignatureHelp option" where
  "SignatureHelpAt wide document graph position = (case document of
     None \<Rightarrow> Inr None
   | Some snapshot \<Rightarrow>
       (case ByteOffset (ds_Source snapshot) position of
          None \<Rightarrow> Inl (errorf ''signature help position is not valid for the document'' [])
        | Some offset \<Rightarrow> Inr
            (case AnalyzeSignatureSyntax wide (ds_Source snapshot) (int offset) graph (ds_Syntax snapshot) of
               None \<Rightarrow> None
             | Some context \<Rightarrow>
                 (case MethodRef_Signature (Some (sg_Method context)) of
                    None \<Rightarrow> None
                  | Some signature \<Rightarrow>
                      (case parseSignature signature of
                         None \<Rightarrow> None
                       | Some parsed \<Rightarrow> Some (help_of (sg_Method context) signature parsed (sg_PositionalIndex context) (sg_Keyword context)))))))"

section \<open>Navigation\<close>

text \<open>
  \<open>internal/lsp/navigation.go\<close>. The file system answers what it says of a path at the two times the
  code asks, and the bytes of a file; a position of the schema counts lines from one and columns in
  bytes, as Python does.
\<close>

definition maxNavigationSourceSize :: int where "maxNavigationSourceSize = 16 * 1024 * 1024"

text \<open>The loop that looks for the line: the line it stopped at and where that starts.\<close>

fun source_line :: "string \<Rightarrow> int \<Rightarrow> nat \<Rightarrow> int \<Rightarrow> nat \<Rightarrow> int \<times> nat" where
  "source_line [] target index line start = (line, start)"
| "source_line (c # cs) target index line start =
     (if target \<le> line then (line, start)
      else if c = newline then source_line cs target (Suc index) (line + 1) (Suc index)
      else if c = carriage_return \<and> (cs = [] \<or> hd cs \<noteq> newline) then source_line cs target (Suc index) (line + 1) (Suc index)
      else source_line cs target (Suc index) line start)"

definition sourcePosition :: "string \<Rightarrow> Position \<Rightarrow> DocPosition option" where
  "sourcePosition source position =
     (if pos_Line position < 1 \<or> pos_Column position < 0 then None
      else let (line, start) = source_line source (pos_Line position) 0 1 0 in
        if line \<noteq> pos_Line position then None
        else let width = length (takeWhile (\<lambda>c. c \<noteq> newline \<and> c \<noteq> carriage_return) (drop start source));
            spelled = subslice source start (start + nat (pos_Column position)) in
          if int width < pos_Column position \<or> \<not> Valid spelled then None
          else Some \<lparr>dp_Line = of_int (pos_Line position - 1), dp_Character = of_nat (utf16_len spelled)\<rparr>)"

text \<open>\<open>url.URL{Scheme: "file", Path: path}.String()\<close>: the bytes of a path that are not escaped.\<close>

definition hex_upper :: "nat \<Rightarrow> char" where
  "hex_upper n = ''0123456789ABCDEF'' ! n"

definition path_byte :: "char \<Rightarrow> bool" where
  "path_byte c \<longleftrightarrow> byte c < 0x80 \<and> (isIdentifierByte c \<or> c \<in> set ''-.~$&+,/:;=@'')"

definition escape_path :: "string \<Rightarrow> string" where
  "escape_path path = concat (map (\<lambda>c. if path_byte c then [c]
     else [CHR ''%'', hex_upper (of_char c div 16), hex_upper (of_char c mod 16)]) path)"

definition sourceFileURI :: "string \<Rightarrow> string option" where
  "sourceFileURI path =
     (if path = [] \<or> CHR 0x00 \<in> set path \<or> \<not> Valid path \<or> \<not> IsAbs path then None
      else Some (''file://'' @ escape_path (Clean path)))"

record Location =
  loc_URI :: string
  loc_Range :: DocRange

record navigation =
  nv_stat :: "string \<Rightarrow> FileInfo option"
  nv_read :: "string \<Rightarrow> string option"
  nv_stat_after :: "string \<Rightarrow> FileInfo option"

definition trim_mark :: "string \<Rightarrow> string" where
  "trim_mark source = (if take 3 source = [CHR 0xEF, CHR 0xBB, CHR 0xBF] then drop 3 source else source)"

definition source_text_location :: "SourceRange \<Rightarrow> string \<Rightarrow> Location option" where
  "source_text_location sourceRange source =
     (if \<not> Valid source then None
      else case sourcePosition source (sr_Start sourceRange) of
        None \<Rightarrow> None
      | Some start \<Rightarrow>
          (case sourcePosition source (sr_End sourceRange) of
             None \<Rightarrow> None
           | Some stop \<Rightarrow>
               if dp_Line stop < dp_Line start \<or> dp_Line stop = dp_Line start \<and> dp_Character stop < dp_Character start then None
               else map_option (\<lambda>uri. \<lparr>loc_URI = uri, loc_Range = \<lparr>rng_Start = start, rng_End = stop\<rparr>\<rparr>)
                 (sourceFileURI (sr_FilePath sourceRange))))"

definition sourceLocation :: "(string \<Rightarrow> string) \<Rightarrow> navigation \<Rightarrow> SourceRange \<Rightarrow> Location option" where
  "sourceLocation sha256 disk sourceRange =
     (let path = sr_FilePath sourceRange in
      if path = [] \<or> CHR 0x00 \<in> set path \<or> \<not> IsAbs path then None
      else case nv_stat disk path of
        None \<Rightarrow> None
      | Some info \<Rightarrow>
          if \<not> is_regular_mode info \<or> maxNavigationSourceSize < fi_Size info then None
          else (case nv_read disk path of
              None \<Rightarrow> None
            | Some source \<Rightarrow>
                if \<not> MatchesSourceDigest sha256 source (sr_SourceDigest sourceRange) then None
                else source_text_location sourceRange (trim_mark source)))"

text \<open>An open document of the same file that no longer has the text the schema was read from.\<close>

definition stale_document :: "(string \<Rightarrow> string) \<Rightarrow> (string \<Rightarrow> parsedURL option) \<Rightarrow> navigation \<Rightarrow> SourceRange \<Rightarrow> DocSnapshot \<Rightarrow> bool" where
  "stale_document sha256 url disk sourceRange snapshot = (case localFilePath url (ds_URI snapshot) of
     None \<Rightarrow> False
   | Some openPath \<Rightarrow>
       (let sameFile = (case (nv_stat_after disk (sr_FilePath sourceRange), nv_stat_after disk openPath) of
            (Some a, Some b) \<Rightarrow> SameFile a b | _ \<Rightarrow> False) in
        (sameFile \<or> Clean openPath = Clean (sr_FilePath sourceRange)) \<and>
        \<not> MatchesSourceDigest sha256 (ds_Source snapshot) (sr_SourceDigest sourceRange)))"

definition open_source_location ::
    "(string \<Rightarrow> string) \<Rightarrow> (string \<Rightarrow> parsedURL option) \<Rightarrow> navigation \<Rightarrow> DocSnapshot list \<Rightarrow> SourceRange \<Rightarrow> Location option" where
  "open_source_location sha256 url disk snapshots sourceRange = (case sourceLocation sha256 disk sourceRange of
     None \<Rightarrow> None
   | Some location \<Rightarrow> if list_ex (stale_document sha256 url disk sourceRange) snapshots then None else Some location)"

definition document_location :: "string \<Rightarrow> string \<Rightarrow> ByteRange \<Rightarrow> Location option" where
  "document_location uri source byteRange = map_option (\<lambda>shown. \<lparr>loc_URI = uri, loc_Range = shown\<rparr>) (protocolRange source byteRange)"

text \<open>The definition behind a position of an open document; the documents are those of the store.\<close>

definition Definition ::
    "(nat \<Rightarrow> bool) \<Rightarrow> (string \<Rightarrow> string option) \<Rightarrow> (string \<Rightarrow> string) \<Rightarrow> (string \<Rightarrow> parsedURL option) \<Rightarrow> navigation \<Rightarrow>
     DocSnapshot list \<Rightarrow> DocSnapshot option \<Rightarrow> graph_ptr \<Rightarrow> string \<Rightarrow> DocPosition \<Rightarrow> goerror + Location option" where
  "Definition wide ev sha256 url disk snapshots document graph uri position = (case document of
     None \<Rightarrow> Inr None
   | Some snapshot \<Rightarrow>
       (case ByteOffset (ds_Source snapshot) position of
          None \<Rightarrow> Inl (errorf ''definition position is not valid for the document'' [])
        | Some offset \<Rightarrow>
            (let source = ds_Source snapshot; filePath = document_path url uri snapshot;
               declaration = (case ResolveSerializerDeclaration wide snapshot (int offset) graph of
                 None \<Rightarrow> None | Some d \<Rightarrow> document_location uri source d) in
             Inr (if declaration \<noteq> None then declaration
               else case or_else (ResolveRelationStringDefinition wide ev sha256 snapshot filePath graph (int offset))
                   (ResolveDefinitionSyntaxFile wide source (int offset) graph (ds_Syntax snapshot) filePath) of
                 Some sourceRange \<Rightarrow> open_source_location sha256 url disk snapshots sourceRange
               | None \<Rightarrow>
                   (case ResolveAnnotationAliasDefinition wide source (int offset) graph (ds_Syntax snapshot) filePath of
                      None \<Rightarrow> None | Some aliasRange \<Rightarrow> document_location uri source aliasRange)))))"

end
