(* ===== verification/Lsp_Feature_Properties.thy ===== *)
theory Lsp_Feature_Properties
  imports Lsp_Features Analysis_Properties
begin

text \<open>The properties of the answers to the editor's questions.\<close>

section \<open>The items of a listing\<close>

lemma offer_items:
  "fold (\<lambda>x s. snd (offer identifier name item x s)) xs items = items @ map item (filter (\<lambda>x. HasPrefix (name x) identifier) xs)"
  by (induction xs arbitrary: items) (auto simp: offer_def)

lemma visit_offer:
  "visit_while (offer identifier name item) xs items = items @ map item (filter (\<lambda>x. HasPrefix (name x) identifier) xs)"
  by (induction xs arbitrary: items) (auto simp: offer_def)

lemma offered_accesses:
  "snd (VisitQueryFields graph label (offer identifier fa_Name item) []) =
     map item (filter (\<lambda>a. HasPrefix (fa_Name a) identifier) (snd (VisitQueryFields graph label collect [])))"
  "snd (VisitInstanceFields graph label (offer identifier fa_Name item) []) =
     map item (filter (\<lambda>a. HasPrefix (fa_Name a) identifier) (snd (VisitInstanceFields graph label collect [])))"
  by (cases "graph_model graph label";
      simp add: VisitQueryFields_def VisitInstanceFields_def visitFields_def visit_listing_def visit_offer visit_while_collect)+

lemma item_labels [simp]:
  "ci_Label (fieldCompletion access replacement) = fa_Name access"
  "ci_Label (annotationCompletion alias replacement) = alias"
  "ci_Label (managerCompletion manager replacement) = ManagerRef_Name (Some manager)"
  "ci_Label (methodCompletion m replacement) = MethodRef_Name (Some m)"
  "ci_Label (pathCompletion candidate replacement) = pc_Name candidate"
  "ci_Label (serializerCompletion replacement field) = sf_Name field"
  by (auto simp: fieldCompletion_def annotationCompletion_def managerCompletion_def methodCompletion_def pathCompletion_def
      serializerCompletion_def completion_item_def named_access_def Let_def split: option.splits)

text \<open>The names that mean something at the cursor, by the kind of context.\<close>

fun name_resolves :: "graph_ptr \<Rightarrow> Context \<Rightarrow> string \<Rightarrow> bool" where
  "name_resolves graph context n =
     (let label = val_CanonicalLabel (cx_Value context); annotated = n \<in> set (val_Annotations (cx_Value context)) in
      case cx_Kind context of
        ContextQueryKeyword \<Rightarrow> QueryAccess graph label n \<noteq> None \<or> annotated
      | ContextMetaField \<Rightarrow> InstanceAccess graph label n \<noteq> None
      | ContextInstanceMember \<Rightarrow> InstanceAccess graph label n \<noteq> None \<or> annotated
      | _ \<Rightarrow> False)"

lemma access_names:
  assumes "built_graph graph"
  shows "(\<exists>access. QueryAccess graph l n = Some access) \<longleftrightarrow> n \<in> fa_Name ` set (snd (VisitQueryFields graph l collect []))"
    and "(\<exists>access. InstanceAccess graph l n = Some access) \<longleftrightarrow> n \<in> fa_Name ` set (snd (VisitInstanceFields graph l collect []))"
  using query_names.find_iff [OF assms] instance_names.find_iff [OF assms] by (auto simp: image_iff)

lemma names_of_filter:
  "f ` set (filter (\<lambda>x. P (f x)) xs) = {n. P n \<and> n \<in> f ` set xs}"
  by auto

text \<open>C20.
  Completion offers exactly what resolves. For the keyword of a query, a field option of a \<open>Meta\<close>
  class or the member of an instance, over a graph that was built, the labels offered are the names
  that begin with the identifier at the cursor and that the graph's lookup, or the annotations of the
  query, know. So every offered name is one that hover and navigation resolve, and none is missing.
\<close>

theorem completion_offers_names:
  assumes "Build ev s = Inr g" and "snapshot_maps_ok s"
    and "cx_Kind context \<in> {ContextQueryKeyword, ContextMetaField, ContextInstanceMember}"
    and "context_items (Some g) context replacement = Inr items"
  shows "ci_Label ` set items = {n. HasPrefix n (cx_Identifier context) \<and> name_resolves (Some g) context n}"
proof -
  have built: "built_graph (Some g)" using assms(1,2) by (auto simp: built_graph_def)
  note names = names_of_filter names_of_filter [of "\<lambda>n. n", simplified] access_names [OF built]
  consider "cx_Kind context = ContextQueryKeyword" | "cx_Kind context = ContextMetaField"
    | "cx_Kind context = ContextInstanceMember" using assms(3) by blast
  then show ?thesis
  proof cases
    case 1
    then show ?thesis using assms(4) [symmetric]
      by (simp add: context_items_def Let_def offered_accesses annotation_items_def image_Un image_image names, blast?)
  next
    case 2
    then show ?thesis using assms(4) [symmetric]
      by (simp add: context_items_def Let_def offered_accesses image_image names, blast?)
  next
    case 3
    then show ?thesis using assms(4) [symmetric]
      by (simp add: context_items_def Let_def offered_accesses annotation_items_def image_Un image_image names, blast?)
  qed
qed

lemma completion_offers_names_witness:
  "\<forall>rg. \<exists>g items. Build Some sample_snapshot = Inr g \<and>
     context_items (Some g) (context_of ContextQueryKeyword (value_of ''s.Book'' ValueModelClass) ''au'' \<lparr>br_Start = 2, br_End = 4\<rparr>) rg =
       Inr items \<and>
     ci_Label ` set items = {n. HasPrefix n ''au'' \<and> QueryAccess (Some g) ''s.Book'' n \<noteq> None}"
proof
  fix rg
  obtain g where g: "Build Some sample_snapshot = Inr g" by (rule sample_graph)
  let ?cx = "context_of ContextQueryKeyword (value_of ''s.Book'' ValueModelClass) ''au'' \<lparr>br_Start = 2, br_End = 4\<rparr>"
  have kind: "cx_Kind ?cx \<in> {ContextQueryKeyword, ContextMetaField, ContextInstanceMember}" by (simp add: context_of_def)
  obtain items where items: "context_items (Some g) ?cx rg = Inr items" by (simp add: context_items_def context_of_def Let_def)
  show "\<exists>g items. Build Some sample_snapshot = Inr g \<and> context_items (Some g) ?cx rg = Inr items \<and>
      ci_Label ` set items = {n. HasPrefix n ''au'' \<and> QueryAccess (Some g) ''s.Book'' n \<noteq> None}"
    using completion_offers_names [OF g sample_maps_ok kind items] g items
    by (auto simp: context_of_def value_of_def zero_Value_def)
qed

section \<open>Positions of the schema\<close>

text \<open>
  Python ends a line at a lone carriage return too, \<open>sourcePosition\<close> follows it and the document store
  does not; without one both count the same lines.
\<close>

definition no_lone_return :: "string \<Rightarrow> bool" where
  "no_lone_return source \<longleftrightarrow> (\<forall>i < length source. source ! i = carriage_return \<longrightarrow> Suc i < length source \<and> source ! Suc i = newline)"

lemma Valid_rest: "Valid p \<Longrightarrow> Valid (p @ q) \<Longrightarrow> Valid q"
  by (induction p rule: Valid_induct) (simp_all add: Valid_append_rune)

lemma at_line_start:
  "newlines (take (line_start p) p) = newlines p" "line_start (take (line_start p) p) = line_start p"
  using same_line [of "line_start p" "length p" p] line_start_le [of p] drop_line_start [of p]
  by (simp_all add: subslice_def)

lemma source_line_starts:
  assumes "source_line rest target (length pre) (1 + int (newlines pre)) (line_start pre) = (line, start)"
    and "no_lone_return (pre @ rest)"
  shows "start \<le> length (pre @ rest) \<and> int (newlines (take start (pre @ rest))) = line - 1 \<and>
    line_start (take start (pre @ rest)) = start"
  using assms
proof (induction rest arbitrary: pre)
  case Nil
  then show ?case using at_line_start [of pre] line_start_le [of pre] by auto
next
  case (Cons c cs)
  have lone: "\<not> (c = carriage_return \<and> (cs = [] \<or> hd cs \<noteq> newline))"
    using Cons.prems(2) [unfolded no_lone_return_def, rule_format, of "length pre"] by (cases cs) (auto simp: nth_append)
  show ?case
  proof (cases "target \<le> 1 + int (newlines pre)")
    case True
    then show ?thesis using Cons.prems(1) at_line_start [of pre] line_start_le [of pre] by auto
  next
    case False
    have "source_line cs target (length (pre @ [c])) (1 + int (newlines (pre @ [c]))) (line_start (pre @ [c])) = (line, start)"
      using Cons.prems(1) False lone by (auto simp: line_start_append split: if_splits)
    then show ?thesis using Cons.IH [of "pre @ [c]"] Cons.prems(2) by simp
  qed
qed

text \<open>C21.
  A definition's position is found again. In a source without lone carriage returns, the position
  that navigation sends for a line and a byte column of the schema is one that the document store
  resolves, and to the byte in that line and column.
\<close>

theorem navigation_position_resolves:
  assumes "Valid source" and "length source < 2 ^ 32" and "no_lone_return source"
    and "sourcePosition source position = Some p"
  shows "\<exists>offset. ByteOffset source p = Some offset \<and> int (newlines (take offset source)) = pos_Line position - 1 \<and>
    int (offset - line_start (take offset source)) = pos_Column position"
proof -
  obtain start where line: "source_line source (pos_Line position) 0 1 0 = (pos_Line position, start)"
    using assms(4) by (auto simp: sourcePosition_def Let_def split: prod.splits if_splits)
  define column where "column = nat (pos_Column position)"
  define width where "width = length (takeWhile (\<lambda>c. c \<noteq> newline \<and> c \<noteq> carriage_return) (drop start source))"
  let ?off = "start + column" and ?part = "subslice source start (start + column)"
  have p: "0 \<le> pos_Column position" "column \<le> width" "Valid ?part" "1 \<le> pos_Line position"
    "p = \<lparr>dp_Line = of_int (pos_Line position - 1), dp_Character = of_nat (utf16_len ?part)\<rparr>"
    using assms(4) line by (auto simp: sourcePosition_def Let_def column_def width_def nat_le_iff split: if_splits)
  have start: "start \<le> length source" "int (newlines (take start source)) = pos_Line position - 1" "line_start (take start source) = start"
    using source_line_starts [of source "pos_Line position" "[]"] line assms(3) by (simp_all add: line_start_def)
  have "width \<le> length (drop start source)" unfolding width_def by (rule length_takeWhile_le)
  then have off: "?off \<le> length source" using start p(2) by simp
  have "takeWhile (\<lambda>c. c \<noteq> newline \<and> c \<noteq> carriage_return) (drop start source) = take width (drop start source)"
    unfolding width_def by (rule takeWhile_eq_take)
  then have part: "?part = take column (takeWhile (\<lambda>c. c \<noteq> newline \<and> c \<noteq> carriage_return) (drop start source))"
    using p(2) by (simp add: subslice_def min_absorb1)
  have plain: "newline \<notin> set ?part" "carriage_return \<notin> set ?part"
    unfolding part by (auto dest!: in_set_takeD set_takeWhileD)
  have here: "newlines (take ?off source) = newlines (take start source)" "line_start (take ?off source) = start"
    using same_line [of start ?off source] off plain(1) start(3) by simp_all
  let ?e = "start + length (takeWhile (\<lambda>c. c \<noteq> newline) (drop start source))"
  have "at_line_end source ?e" "line_start (take ?e source) = start"
    using next_line_end [OF start(1)] same_line(2) [of start ?e source] start(3) by (simp_all add: at_line_end_def)
  then have "boundary source start" using boundary_at_ends(2) [OF assms(1)] by metis
  then have "Valid (drop start source)" using Valid_boundary [OF assms(1)] by simp
  moreover have "drop start source = ?part @ drop ?off source"
    using append_take_drop_id [of column "drop start source"] by (simp add: subslice_def add.commute)
  ultimately have "Valid (drop ?off source)" using Valid_rest [OF p(3)] by metis
  then have boundary: "boundary source ?off"
    using Valid_hd [of "drop ?off source"] off by (auto simp: boundary_def hd_drop_conv_nth)
  have "\<not> inside_crlf source ?off"
  proof
    assume inside: "inside_crlf source ?off"
    show False
    proof (cases "column = 0")
      case True
      then show False using inside before_line_start [of "take start source"] start by (auto simp: inside_crlf_def)
    next
      case False
      then have "source ! (?off - 1) = ?part ! (column - 1)" "column - 1 < length ?part" using off by (simp_all add: subslice_def)
      then show False using inside plain(2) nth_mem [of "column - 1" ?part] by (simp add: inside_crlf_def)
    qed
  qed
  moreover have "PositionAt source (int ?off) = Some p"
    using PositionAt_counts [OF assms(1) boundary] here start(2) p(5)
    by (simp flip: start(2))
  ultimately have "ByteOffset source p = Some ?off" using ByteOffset_iff [OF assms(1,2)] by blast
  moreover have "int (?off - start) = pos_Column position" using p(1) by (simp add: column_def)
  ultimately show ?thesis using here start(2) by (intro exI [of _ ?off]) simp
qed

lemma navigation_position_resolves_witness:
  "\<exists>offset. ByteOffset (''a'' @ [newline] @ ''bc'') \<lparr>dp_Line = 1, dp_Character = 1\<rparr> = Some offset \<and>
     int (offset - line_start (take offset (''a'' @ [newline] @ ''bc''))) = 1"
proof -
  let ?source = "''a'' @ [newline] @ ''bc''" and ?position = "\<lparr>pos_Line = 2, pos_Column = 1\<rparr>"
  have "Valid ?source" "sourcePosition ?source ?position = Some \<lparr>dp_Line = 1, dp_Character = 1\<rparr>"
    by (simp_all add: sourcePosition_def subslice_def DecodeRune_def RuneError_def)
  moreover have "no_lone_return ?source" by (auto simp: no_lone_return_def less_Suc_eq numeral_nat)
  ultimately show ?thesis using navigation_position_resolves [of ?source ?position] by auto
qed

text \<open>With one, the store and the navigation name different lines: the second line of the schema is
  line 1 for the editor, and the store has no such line.\<close>

lemma lone_return_diverges:
  "sourcePosition (''a'' @ [carriage_return] @ ''b'') \<lparr>pos_Line = 2, pos_Column = 0\<rparr> = Some \<lparr>dp_Line = 1, dp_Character = 0\<rparr>"
  "ByteOffset (''a'' @ [carriage_return] @ ''b'') \<lparr>dp_Line = 1, dp_Character = 0\<rparr> = None"
  by (simp_all add: sourcePosition_def subslice_def ByteOffset_def lineBounds_def)

end
