(* ===== verification/Worker_Schema_Cache_Properties.thy ===== *)
theory Worker_Schema_Cache_Properties
  imports Worker_Schema_Cache Schema_Sample
begin

text \<open>
  What an entry of the schema cache says of the past: it was written for the same configuration and
  the sources have not changed since. The hash is only as good as the texts are unambiguous, which
  the length prefixes of the identity fields make them.
\<close>

section \<open>Unambiguous texts\<close>

lemma length_PutUint64 [simp]: "length (PutUint64 n) = 8"
  by (simp add: PutUint64_def)

text \<open>The eight bytes are the digits of the number to the base 256.\<close>

lemma horner_bytes:
  "n < 256 ^ k \<Longrightarrow> foldl (\<lambda>v c. 256 * v + (of_char c :: nat)) 0 (map (\<lambda>i. char_of (n div 256 ^ (k - Suc i))) [0..<k]) = n"
proof (induction k arbitrary: n)
  case (Suc k)
  have digits: "map (\<lambda>i. char_of (n div 256 ^ (Suc k - Suc i))) [0..<k] =
      (map (\<lambda>i. char_of (n div 256 div 256 ^ (k - Suc i))) [0..<k] :: string)"
  proof (rule map_cong)
    fix i assume "i \<in> set [0..<k]"
    then have "Suc k - Suc i = Suc (k - Suc i)" by auto
    then show "char_of (n div 256 ^ (Suc k - Suc i)) = (char_of (n div 256 div 256 ^ (k - Suc i)) :: char)"
      by (simp add: div_mult2_eq)
  qed simp
  have "n div 256 < 256 ^ k" using Suc.prems by (simp add: less_mult_imp_div_less mult.commute)
  then show ?case using Suc.IH [of "n div 256"] by (simp only: upt_Suc_append [OF le0] map_append digits) simp
qed simp

lemma PutUint64_inject:
  assumes "PutUint64 m = PutUint64 n" and "m < 2 ^ 64" and "n < 2 ^ 64"
  shows "m = n"
proof -
  have "foldl (\<lambda>v c. 256 * v + (of_char c :: nat)) 0 (PutUint64 k) = k" if "k < 2 ^ 64" for k
    using horner_bytes [of k 8] that by (simp add: PutUint64_def)
  then show ?thesis using assms by metis
qed

abbreviation fits_length :: "string \<Rightarrow> bool" where
  "fits_length s \<equiv> length s < 2 ^ 64"

lemma writeCacheIdentityField_inject:
  assumes "writeCacheIdentityField a v @ r = writeCacheIdentityField b w @ s"
    and "fits_length a" "fits_length b" "fits_length v" "fits_length w"
  shows "a = b \<and> v = w \<and> r = s"
proof -
  have "PutUint64 (length a) = PutUint64 (length b)" and rest: "a @ PutUint64 (length v) @ v @ r = b @ PutUint64 (length w) @ w @ s"
    using assms(1) by (simp_all add: writeCacheIdentityField_def)
  then have "length a = length b" using assms(2,3) by (auto dest: PutUint64_inject)
  then have "a = b" "PutUint64 (length v) = PutUint64 (length w)" "v @ r = w @ s" using rest by simp_all
  moreover from this have "length v = length w" using assms(4,5) by (auto dest: PutUint64_inject)
  ultimately show ?thesis by simp
qed

definition fields_fit :: "(string \<times> string) list \<Rightarrow> bool" where
  "fields_fit members \<longleftrightarrow> list_all (\<lambda>(name, v). fits_length name \<and> fits_length v) members"

lemma write_fields_simps [simp]:
  "write_fields [] = []" "write_fields ((name, v) # members) = writeCacheIdentityField name v @ write_fields members"
  "write_fields (xs @ ys) = write_fields xs @ write_fields ys"
  by (simp_all add: write_fields_def)

lemma writeCacheIdentityField_not_Nil [simp]: "writeCacheIdentityField name v \<noteq> []" "[] \<noteq> writeCacheIdentityField name v"
  by (auto simp: writeCacheIdentityField_def PutUint64_def)

lemma write_fields_inject: "write_fields xs = write_fields ys \<Longrightarrow> fields_fit xs \<Longrightarrow> fields_fit ys \<Longrightarrow> xs = ys"
proof (induction xs arbitrary: ys)
  case Nil
  then show ?case by (cases ys) auto
next
  case (Cons x xs)
  obtain y ys' where ys: "ys = y # ys'" using Cons.prems(1) by (cases ys; cases x) auto
  show ?case
    using Cons.prems Cons.IH [of ys'] writeCacheIdentityField_inject [of "fst x" "snd x" "write_fields xs" "fst y" "snd y" "write_fields ys'"]
    by (cases x; cases y) (auto simp: ys fields_fit_def)
qed

section \<open>The identity of a configuration\<close>

lemma environment_fields_inject:
  assumes "environment_fields kind xs @ r = environment_fields kind ys @ s"
    and "\<forall>v. (kind @ ''-name'', v) \<notin> set r \<union> set s"
  shows "xs = ys \<and> r = s"
  using assms
proof (induction xs arbitrary: ys)
  case Nil
  then show ?case by (cases ys) (auto simp: environment_fields_def)
next
  case (Cons x xs)
  obtain y ys' where ys: "ys = y # ys'" using Cons.prems by (cases ys) (auto simp: environment_fields_def)
  then show ?case using Cons.prems Cons.IH [of ys']
    by (cases x; cases y) (auto simp: environment_fields_def)
qed

text \<open>What an identity covers.\<close>

lemma decimal_inject [simp]: "decimal m = decimal n \<longleftrightarrow> m = n"
  by (metis digits_value_decimal)

lemma decimal_no_sign: "decimal n \<noteq> CHR ''-'' # s"
  using decimal_digits [of n] by (auto simp: is_digit_def)

lemma FormatInt_inject [simp]: "FormatInt i = FormatInt j \<longleftrightarrow> i = j"
  using decimal_no_sign decimal_no_sign [symmetric] by (auto simp: FormatInt_def)

definition same_configuration :: "(string \<Rightarrow> string option) \<Rightarrow> persistentSchemaCacheConfig \<Rightarrow> persistentSchemaCacheConfig \<Rightarrow> bool" where
  "same_configuration ev a b \<longleftrightarrow>
     ResolvedPath ev (cf_ProjectRoot (pc_config a)) = ResolvedPath ev (cf_ProjectRoot (pc_config b)) \<and>
     ResolvedPath ev (cf_PythonPath (pc_config a)) = ResolvedPath ev (cf_PythonPath (pc_config b)) \<and>
     cf_SettingsModule (pc_config a) = cf_SettingsModule (pc_config b) \<and>
     pc_pythonSize a = pc_pythonSize b \<and> pc_pythonMode a = pc_pythonMode b \<and> pc_pythonModTime a = pc_pythonModTime b \<and>
     pc_workerEnvironment a = pc_workerEnvironment b \<and> pc_platformEnvironment a = pc_platformEnvironment b \<and>
     pc_coordinatorPath a = pc_coordinatorPath b \<and> pc_workerDigest a = pc_workerDigest b"

lemma environment_names: "(name, v) \<in> set (environment_fields kind entries) \<Longrightarrow> name = kind @ ''-name'' \<or> name = kind @ ''-value''"
  by (auto simp: environment_fields_def)

lemma identity_fields_inject:
  assumes "identity_fields pf ev a selA = identity_fields pf ev b selB"
  shows "same_configuration ev a b \<and> selA = selB"
proof -
  let ?tail = "\<lambda>c. environment_fields ''platform-environment'' (pc_platformEnvironment c) @
      [(''coordinator-path'', pc_coordinatorPath c), (''worker'', pc_workerDigest c)]"
  have env: "environment_fields ''environment'' (pc_workerEnvironment a) @ ?tail a =
      environment_fields ''environment'' (pc_workerEnvironment b) @ ?tail b"
    using assms by (simp add: identity_fields_def Let_def)
  have worker: "pc_workerEnvironment a = pc_workerEnvironment b \<and> ?tail a = ?tail b"
    by (rule environment_fields_inject [OF env]) (auto dest: environment_names)
  have rest: "pc_platformEnvironment a = pc_platformEnvironment b \<and>
      [(''coordinator-path'', pc_coordinatorPath a), (''worker'', pc_workerDigest a)] =
      [(''coordinator-path'', pc_coordinatorPath b), (''worker'', pc_workerDigest b)]"
    by (rule environment_fields_inject [OF worker [THEN conjunct2]]) auto
  show ?thesis using assms worker rest by (simp add: identity_fields_def Let_def same_configuration_def word_unat_eq_iff)
qed

section \<open>What is hashed\<close>

definition delivered :: "read_outcome list \<Rightarrow> string" where
  "delivered rs = concat (map ro_bytes rs)"

lemma hashFileContext_adds:
  "hashFileContext rs n hashed = Inr h \<Longrightarrow> h = hashed @ take n (delivered rs) \<and> n \<le> length (delivered rs)"
proof (induction rs n hashed rule: hashFileContext.induct)
  case (2 r rs n hashed)
  show ?case
  proof (cases "n = 0 \<or> ro_ctx r \<noteq> None")
    case True
    then show ?thesis using "2.prems" by (auto split: option.splits if_splits)
  next
    case False
    show ?thesis
    proof (cases "min copy_buffer n < length (ro_bytes r)")
      case True
      let ?l = "min copy_buffer n" let ?r = "r\<lparr>ro_bytes := drop ?l (ro_bytes r)\<rparr>"
      have next_read: "hashFileContext (?r # rs) (n - ?l) (hashed @ take ?l (ro_bytes r)) = Inr h"
        using "2.prems" False True by (simp add: Let_def)
      have "h = (hashed @ take ?l (ro_bytes r)) @ take (n - ?l) (delivered (?r # rs)) \<and> n - ?l \<le> length (delivered (?r # rs))"
        by (rule "2.IH"(1) [OF _ _ refl True next_read]) (use False in auto)
      moreover have "delivered (r # rs) = take ?l (ro_bytes r) @ delivered (?r # rs)" by (simp add: delivered_def)
      moreover have "length (take ?l (ro_bytes r)) = ?l" using True by simp
      ultimately show ?thesis by (auto simp: take_append)
    next
      case short: False
      then have l: "ro_err r = None" "hashFileContext rs (n - length (ro_bytes r)) (hashed @ ro_bytes r) = Inr h" "length (ro_bytes r) \<le> copy_buffer"
        using "2.prems" False by (auto simp: Let_def split: option.splits)
      have "h = (hashed @ ro_bytes r) @ take (n - length (ro_bytes r)) (delivered rs) \<and> n - length (ro_bytes r) \<le> length (delivered rs)"
        by (rule "2.IH"(2) [OF _ _ refl short l(1,2)]) (use False in auto)
      moreover have "length (ro_bytes r) \<le> n" using short by simp
      ultimately show ?thesis by (auto simp: delivered_def)
    qed
  qed
qed (auto simp: delivered_def split: if_splits)

text \<open>The contents of a source at the time of its hashing.\<close>

definition source_content :: "(string \<Rightarrow> source_file) \<Rightarrow> string \<Rightarrow> string" where
  "source_content files path = (case sf_stat (files path) of
     Inl _ \<Rightarrow> [] | Inr info \<Rightarrow> take (nat (fi_Size info)) (delivered (sf_reads (files path))))"

definition source_text :: "(string \<Rightarrow> string option) \<Rightarrow> (string \<Rightarrow> source_file) \<Rightarrow> string \<Rightarrow> string" where
  "source_text ev files path = write_fields [(''source'', ResolvedPath ev path),
     (''source-size'', FormatInt (int (length (source_content files path))))] @ source_content files path"

definition sources_text :: "(string \<Rightarrow> string option) \<Rightarrow> (string \<Rightarrow> source_file) \<Rightarrow> string list \<Rightarrow> string" where
  "sources_text ev files paths = concat (map (source_text ev files) (sort paths))"

lemma hash_source_adds:
  assumes "hash_source ev files path (left, hashed) = Inr (left', hashed')"
  shows "hashed' = hashed @ source_text ev files path \<and> left' = left - int (length (source_content files path)) \<and> 0 \<le> left'"
proof -
  obtain info where info: "sf_stat (files path) = Inr info" "0 \<le> fi_Size info" "fi_Size info \<le> left" "left' = left - fi_Size info"
    "hashFileContext (sf_reads (files path)) (nat (fi_Size info))
       (hashed @ write_fields [(''source'', ResolvedPath ev path), (''source-size'', FormatInt (fi_Size info))]) = Inr hashed'"
    using assms by (auto simp: hash_source_def Let_def bind_err_Inr split: sum.splits if_splits)
  note added = hashFileContext_adds [OF info(5)]
  have "length (source_content files path) = nat (fi_Size info)" using added info by (simp add: source_content_def)
  then show ?thesis using added info by (simp add: source_text_def source_content_def)
qed

lemma hash_sources_add:
  "fold_err (hash_source ev files) paths (left, hashed) = Inr (left', hashed') \<Longrightarrow> 0 \<le> left \<Longrightarrow>
     hashed' = hashed @ concat (map (source_text ev files) paths) \<and>
     (\<forall>path \<in> set paths. int (length (source_content files path)) \<le> left)"
proof (induction paths arbitrary: left hashed)
  case (Cons path paths)
  obtain left1 hashed1 where step: "hash_source ev files path (left, hashed) = Inr (left1, hashed1)"
    "fold_err (hash_source ev files) paths (left1, hashed1) = Inr (left', hashed')"
    using Cons.prems by (auto split: sum.splits)
  note added = hash_source_adds [OF step(1)]
  show ?case using Cons.IH [OF step(2)] added by force
qed auto

lemma schemaSourceIdentity_text:
  assumes "schemaSourceIdentity ev sha256 files paths = Inr identity"
  shows "identity = EncodeToString (sha256 (sources_text ev files paths))"
    and "\<forall>path \<in> set paths. length (source_content files path) \<le> MaxFrameSize"
proof -
  obtain left hashed where run: "fold_err (hash_source ev files) (sort paths) (maxSchemaSourceIdentityBytes, []) = Inr (left, hashed)"
    "identity = EncodeToString (sha256 hashed)"
    using assms by (auto simp: schemaSourceIdentity_def bind_err_Inr)
  have "hashed = concat (map (source_text ev files) (sort paths)) \<and>
      (\<forall>path \<in> set (sort paths). int (length (source_content files path)) \<le> maxSchemaSourceIdentityBytes)"
    using hash_sources_add [OF run(1)] by (simp add: maxSchemaSourceIdentityBytes_def)
  then show "identity = EncodeToString (sha256 (sources_text ev files paths))"
    "\<forall>path \<in> set paths. length (source_content files path) \<le> MaxFrameSize"
    using run(2) by (auto simp: sources_text_def maxSchemaSourceIdentityBytes_def)
qed

lemma decimal_length: "length (decimal n) \<le> Suc n"
proof (induction n rule: decimal.induct)
  case (1 n)
  then show ?case by (cases "n < 10") (simp_all add: decimal.simps [of n])
qed

lemma source_texts_inject:
  assumes "concat (map (source_text ev f) paths) = concat (map (source_text ev g) paths)"
    and "\<forall>path \<in> set paths. fits_length (ResolvedPath ev path) \<and> length (source_content f path) \<le> MaxFrameSize \<and>
      length (source_content g path) \<le> MaxFrameSize"
  shows "\<forall>path \<in> set paths. source_content f path = source_content g path"
  using assms
proof (induction paths)
  case (Cons path paths)
  let ?r = "\<lambda>h. concat (map (source_text ev h) paths)" and ?c = "\<lambda>h. source_content h path"
  let ?size = "\<lambda>h. FormatInt (int (length (?c h)))"
  have size: "fits_length (?size h)" if "length (?c h) \<le> MaxFrameSize" for h
    using decimal_length [of "length (?c h)"] that by (simp add: FormatInt_def MaxFrameSize_def)
  have eq: "writeCacheIdentityField ''source'' (ResolvedPath ev path) @ writeCacheIdentityField ''source-size'' (?size f) @ ?c f @ ?r f =
      writeCacheIdentityField ''source'' (ResolvedPath ev path) @ writeCacheIdentityField ''source-size'' (?size g) @ ?c g @ ?r g"
    using Cons.prems(1) by (simp add: source_text_def [of ev f path] source_text_def [of ev g path])
  have "?size f = ?size g \<and> ?c f @ ?r f = ?c g @ ?r g"
    using writeCacheIdentityField_inject [OF eq [THEN same_append_eq [THEN iffD1]]] size Cons.prems(2) by simp
  then have "?c f = ?c g \<and> ?r f = ?r g" by auto
  then show ?case using Cons.IH Cons.prems(2) by simp
qed simp

section \<open>Entries\<close>

lemma hex_digit_inject: "m < 16 \<Longrightarrow> n < 16 \<Longrightarrow> hex_digit m = hex_digit n \<longleftrightarrow> m = n"
  unfolding hex_digit_def by (subst nth_eq_iff_index_eq) auto

lemma EncodeToString_inject [simp]: "EncodeToString a = EncodeToString b \<longleftrightarrow> a = b"
proof (induction a arbitrary: b)
  case Nil
  then show ?case by (cases b) (auto simp: EncodeToString_def)
next
  case (Cons x a)
  have digits: "hex_digit (of_char x div 16) = hex_digit (of_char y div 16) \<and> hex_digit (of_char x mod 16) = hex_digit (of_char y mod 16)
      \<longleftrightarrow> x = y" for y :: char
  proof -
    have "hex_digit (of_char x div 16) = hex_digit (of_char y div 16) \<longleftrightarrow> (of_char x div 16 :: nat) = of_char y div 16"
      by (rule hex_digit_inject) (simp_all add: less_mult_imp_div_less)
    moreover have "hex_digit (of_char x mod 16) = hex_digit (of_char y mod 16) \<longleftrightarrow> (of_char x mod 16 :: nat) = of_char y mod 16"
      by (rule hex_digit_inject) simp_all
    moreover have "(of_char x :: nat) = of_char y" if "(of_char x div 16 :: nat) = of_char y div 16" "(of_char x mod 16 :: nat) = of_char y mod 16"
      using that by (metis div_mult_mod_eq)
    ultimately show ?thesis by auto
  qed
  show ?case using Cons.IH digits by (cases b) (auto simp: EncodeToString_def)
qed

text \<open>
  The records that are written hold hexadecimal digests besides the schema. The library's strict
  decoder reads back what its encoder wrote of them, with the raw message compacted.
\<close>

definition hex_text :: "string \<Rightarrow> bool" where
  "hex_text s \<longleftrightarrow> list_all (\<lambda>c. c \<in> set ''0123456789abcdef'') s"

definition written_record :: "schemaCacheRecord \<Rightarrow> bool" where
  "written_record entry \<longleftrightarrow> cr_FormatVersion entry = schemaCacheFormatVersion \<and> hex_text (cr_Identity entry) \<and>
     hex_text (cr_SourceIdentity entry) \<and> hex_text (cr_Checksum entry)"

definition codec_faithful :: "cache_codec \<Rightarrow> (string \<Rightarrow> string) \<Rightarrow> bool" where
  "codec_faithful codec compact \<longleftrightarrow> (\<forall>entry text. written_record entry \<and> cy_encode codec entry = Inr text \<longrightarrow>
     text \<noteq> [] \<and> cy_record codec text = Inr (entry\<lparr>cr_Schema := compact (cr_Schema entry)\<rparr>))"

lemma hex_digits: "d < 16 \<Longrightarrow> hex_digit d \<in> set ''0123456789abcdef''"
  unfolding hex_digit_def by (rule nth_mem) simp

lemma hex_EncodeToString: "hex_text (EncodeToString s)"
proof (induction s)
  case (Cons c s)
  have "hex_digit (of_char c div 16) \<in> set ''0123456789abcdef''" "hex_digit (of_char c mod 16) \<in> set ''0123456789abcdef''"
    by (rule hex_digits, simp add: less_mult_imp_div_less)+
  with Cons show ?case by (simp add: hex_text_def EncodeToString_def del: set_simps)
qed (simp add: hex_text_def EncodeToString_def)

lemma entry_read_back:
  assumes faithful: "codec_faithful codec compact" and source: "schemaSourceIdentity ev sha256 files paths = Inr sourceIdentity"
    and encoded: "cy_encode codec \<lparr>cr_FormatVersion = schemaCacheFormatVersion, cr_Identity = EncodeToString a,
      cr_SourceIdentity = sourceIdentity, cr_Checksum = EncodeToString b, cr_Schema = json\<rparr> = Inr payload"
  shows "payload \<noteq> [] \<and> cy_record codec payload = Inr \<lparr>cr_FormatVersion = schemaCacheFormatVersion, cr_Identity = EncodeToString a,
      cr_SourceIdentity = sourceIdentity, cr_Checksum = EncodeToString b, cr_Schema = compact json\<rparr>"
proof -
  let ?entry = "\<lparr>cr_FormatVersion = schemaCacheFormatVersion, cr_Identity = EncodeToString a,
      cr_SourceIdentity = sourceIdentity, cr_Checksum = EncodeToString b, cr_Schema = json\<rparr>"
  have "written_record ?entry"
    using source hex_EncodeToString by (auto simp: written_record_def schemaSourceIdentity_def bind_err_Inr)
  then have "payload \<noteq> [] \<and> cy_record codec payload = Inr (?entry\<lparr>cr_Schema := compact (cr_Schema ?entry)\<rparr>)"
    using faithful encoded unfolding codec_faithful_def by blast
  then show ?thesis by simp
qed

lemma marshalStrict_Inr: "marshalStrict encoded = Inr payload \<longleftrightarrow> encoded = Inr payload \<and> length payload \<le> MaxFrameSize"
  by (auto simp: marshalStrict_def split: sum.splits)

lemma marshal_entry_cases:
  assumes "marshal_entry ev sha256 codec files cache json = Inr payload"
  obtains snapshot sourceIdentity where "cy_snapshot codec json = Inr snapshot" "snap_SchemaSourcesComplete snapshot"
    "schemaSourceIdentity ev sha256 files (snap_SchemaSources snapshot) = Inr sourceIdentity"
    "cy_encode codec \<lparr>cr_FormatVersion = schemaCacheFormatVersion, cr_Identity = EncodeToString (sc_identity cache),
       cr_SourceIdentity = sourceIdentity, cr_Checksum = EncodeToString (sha256 json), cr_Schema = json\<rparr> = Inr payload"
    "json \<noteq> []" "length json \<le> MaxFrameSize"
  using assms by (auto simp: marshal_entry_def marshalStrict_Inr bind_err_Inr)

lemma decode_entry_cases:
  assumes "decode_entry ev sha256 codec files cache payload = Inr graph"
  obtains entry snapshot where "cy_record codec payload = Inr entry" "cr_Identity entry = EncodeToString (sc_identity cache)"
    "cr_Checksum entry = EncodeToString (sha256 (cr_Schema entry))" "cy_snapshot codec (cr_Schema entry) = Inr snapshot"
    "schemaSourceIdentity ev sha256 files (snap_SchemaSources snapshot) = Inr (cr_SourceIdentity entry)" "Build ev snapshot = Inr graph"
  using assms by (auto simp: decode_entry_def split: sum.splits)

lemma cache_open_identity:
  assumes "cache_open pf ev sha256 cancelled before project conf = Inr cache"
    and "settingsSelectionIdentity pf ev sha256 project (cf_ProjectRoot (pc_config conf)) (cf_SettingsModule (pc_config conf))
      (pc_workerEnvironment conf) = Inr selection"
  shows "sc_identity cache = sha256 (write_fields (identity_fields pf ev conf selection))"
  using assms by (auto simp: cache_open_def bind_err_Inr)

text \<open>C32.
  A cached schema stands for unchanged inputs. If an entry that was written for one configuration is
  loaded for another, then both have the same project, interpreter (path, size, mode and time),
  settings, environments and worker scripts, every source of the schema has the contents it had when
  the entry was written, and the graph is the one that the written snapshot builds. This assumes that
  the hash has no collision among the texts that were hashed, and lengths within 64 bits.
\<close>

theorem cached_schema_unchanged:
  assumes opened: "cache_open pf ev sha256 cancelledA beforeA projectA confA = Inr cacheA"
      "cache_open pf ev sha256 cancelledB beforeB projectB confB = Inr cacheB"
    and selected: "settingsSelectionIdentity pf ev sha256 projectA (cf_ProjectRoot (pc_config confA)) (cf_SettingsModule (pc_config confA))
        (pc_workerEnvironment confA) = Inr selA"
      "settingsSelectionIdentity pf ev sha256 projectB (cf_ProjectRoot (pc_config confB)) (cf_SettingsModule (pc_config confB))
        (pc_workerEnvironment confB) = Inr selB"
    and written: "marshal_entry ev sha256 codec filesA cacheA json = Inr payload"
    and loaded: "decode_entry ev sha256 codec filesB cacheB payload = Inr graph"
    and library: "codec_faithful codec compact" "cy_snapshot codec json = Inr snapshot"
    and hash: "inj_on sha256 {write_fields (identity_fields pf ev confA selA), write_fields (identity_fields pf ev confB selB),
        json, compact json, sources_text ev filesA (snap_SchemaSources snapshot), sources_text ev filesB (snap_SchemaSources snapshot)}"
    and lengths: "fields_fit (identity_fields pf ev confA selA)" "fields_fit (identity_fields pf ev confB selB)"
      "\<forall>path \<in> set (snap_SchemaSources snapshot). fits_length (ResolvedPath ev path)"
  shows "same_configuration ev confA confB \<and>
    (\<forall>path \<in> set (snap_SchemaSources snapshot). source_content filesA path = source_content filesB path) \<and>
    Build ev snapshot = Inr graph"
proof -
  let ?srcs = "snap_SchemaSources snapshot"
  from written obtain sourceIdentity where w: "schemaSourceIdentity ev sha256 filesA ?srcs = Inr sourceIdentity"
    "cy_encode codec \<lparr>cr_FormatVersion = schemaCacheFormatVersion, cr_Identity = EncodeToString (sc_identity cacheA),
       cr_SourceIdentity = sourceIdentity, cr_Checksum = EncodeToString (sha256 json), cr_Schema = json\<rparr> = Inr payload"
    using library(2) by (auto elim!: marshal_entry_cases)
  from loaded obtain entry read where r: "cy_record codec payload = Inr entry" "cr_Identity entry = EncodeToString (sc_identity cacheB)"
    "cr_Checksum entry = EncodeToString (sha256 (cr_Schema entry))" "cy_snapshot codec (cr_Schema entry) = Inr read"
    "schemaSourceIdentity ev sha256 filesB (snap_SchemaSources read) = Inr (cr_SourceIdentity entry)" "Build ev read = Inr graph"
    by (rule decode_entry_cases)
  have entry: "entry = \<lparr>cr_FormatVersion = schemaCacheFormatVersion, cr_Identity = EncodeToString (sc_identity cacheA),
       cr_SourceIdentity = sourceIdentity, cr_Checksum = EncodeToString (sha256 json), cr_Schema = compact json\<rparr>"
    using entry_read_back [OF library(1) w] r(1) by simp
  have "compact json = json" using r(3) by (auto simp: entry dest: inj_onD [OF hash])
  then have same: "read = snapshot" using r(4) library(2) by (simp add: entry)
  have "write_fields (identity_fields pf ev confA selA) = write_fields (identity_fields pf ev confB selB)"
    using r(2) cache_open_identity [OF opened(1) selected(1)] cache_open_identity [OF opened(2) selected(2)]
    by (auto simp: entry dest: inj_onD [OF hash])
  then have "same_configuration ev confA confB"
    using write_fields_inject [OF _ lengths(1,2)] identity_fields_inject by blast
  moreover have "sources_text ev filesA ?srcs = sources_text ev filesB ?srcs"
    using schemaSourceIdentity_text(1) [OF w(1)] schemaSourceIdentity_text(1) [OF r(5)]
    by (auto simp: entry same dest: inj_onD [OF hash])
  then have "\<forall>path \<in> set ?srcs. source_content filesA path = source_content filesB path"
    using source_texts_inject [of ev filesA "sort ?srcs" filesB] lengths(3)
      schemaSourceIdentity_text(2) [OF w(1)] schemaSourceIdentity_text(2) [OF r(5)]
    by (simp add: sources_text_def same)
  ultimately show ?thesis using r(6) by (simp add: same)
qed

section \<open>Writing, replacing and reading\<close>

text \<open>Reads that deliver the whole file, in any pieces.\<close>

definition clean_reads :: "read_outcome list \<Rightarrow> bool" where
  "clean_reads rs \<longleftrightarrow> list_all (\<lambda>r. ro_ctx r = None \<and> ro_err r = None) rs"

lemma readAllContext_clean:
  "clean_reads rs \<Longrightarrow> length payload + length (delivered rs) < maximum \<Longrightarrow> readAllContext rs maximum payload = Inr (payload @ delivered rs)"
proof (induction rs maximum payload rule: readAllContext.induct)
  case (2 r rs maximum payload)
  let ?l = "min copy_buffer (maximum - length payload)"
  have r: "ro_ctx r = None" "ro_err r = None" "\<not> maximum \<le> length payload" "clean_reads rs"
    using "2.prems" by (auto simp: clean_reads_def)
  show ?case
  proof (cases "?l < length (ro_bytes r)")
    case True
    let ?r = "r\<lparr>ro_bytes := drop ?l (ro_bytes r)\<rparr>"
    have d: "delivered (r # rs) = take ?l (ro_bytes r) @ delivered (?r # rs)" by (simp add: delivered_def)
    have "readAllContext (?r # rs) maximum (payload @ take ?l (ro_bytes r)) = Inr ((payload @ take ?l (ro_bytes r)) @ delivered (?r # rs))"
    proof (rule "2.IH"(1) [OF r(3,1) refl True])
      show "clean_reads (?r # rs)" using r by (simp add: clean_reads_def)
      show "length (payload @ take ?l (ro_bytes r)) + length (delivered (?r # rs)) < maximum"
        using "2.prems"(2) unfolding d by simp
    qed
    then show ?thesis using r True unfolding d by (simp add: Let_def)
  next
    case False
    have d: "delivered (r # rs) = ro_bytes r @ delivered rs" by (simp add: delivered_def)
    have "readAllContext rs maximum (payload @ ro_bytes r) = Inr ((payload @ ro_bytes r) @ delivered rs)"
      by (rule "2.IH"(2) [OF r(3,1) refl False r(2,4)]) (use "2.prems"(2) d in simp)
    then show ?thesis using r False by (simp add: Let_def d)
  qed
qed (simp add: delivered_def)

text \<open>What is at a path after a write and after a rename.\<close>

lemma map_of_disk_remove [simp]: "map_of (disk_remove path d) q = (if q = path then None else map_of d q)"
  by (induction d) (auto simp: disk_remove_def)

lemma writeTemp_disk:
  assumes "writeTemp pf ev sha256 codec files calls cache json d = (Inr temporary, d')"
  obtains payload where "marshal_entry ev sha256 codec files cache json = Inr payload"
    "map_of d' (tmp_path temporary) = Some (0x180, payload)" "\<And>q. q \<noteq> tmp_path temporary \<Longrightarrow> map_of d' q = map_of d q"
    "wt_create calls = Inr (tmp_path temporary)"
  using assms by (auto simp: writeTemp_def fill_temporary_def Let_def split: sum.splits option.splits prod.splits if_splits)

lemma writeTemp_failed_disk:
  assumes "writeTemp pf ev sha256 codec files calls cache json d = (Inl e, d')"
    and "\<And>name. wt_create calls = Inr name \<Longrightarrow> map_of d name = None \<and> name \<noteq> path"
  shows "map_of d' path = map_of d path" and "wt_removes calls \<Longrightarrow> map_of d' q = map_of d q"
  using assms by (auto simp: writeTemp_def fill_temporary_def Let_def split: sum.splits option.splits prod.splits if_splits)

lemma entry_decodes:
  assumes "marshal_entry ev sha256 codec filesA cacheA json = Inr payload"
    and "codec_faithful codec compact" "compact json = json" "cy_snapshot codec json = Inr snapshot"
    and "cy_value codec json = Inr j" "ValidateWire j = None"
    and "sc_identity cacheB = sc_identity cacheA"
    and "schemaSourceIdentity ev sha256 filesB (snap_SchemaSources snapshot) = schemaSourceIdentity ev sha256 filesA (snap_SchemaSources snapshot)"
    and "Build ev snapshot = Inr graph"
  shows "decode_entry ev sha256 codec filesB cacheB payload = Inr graph"
proof -
  from assms(1) obtain sourceIdentity where w: "schemaSourceIdentity ev sha256 filesA (snap_SchemaSources snapshot) = Inr sourceIdentity"
    "snap_SchemaSourcesComplete snapshot" "json \<noteq> []" "length json \<le> MaxFrameSize"
    "cy_encode codec \<lparr>cr_FormatVersion = schemaCacheFormatVersion, cr_Identity = EncodeToString (sc_identity cacheA),
       cr_SourceIdentity = sourceIdentity, cr_Checksum = EncodeToString (sha256 json), cr_Schema = json\<rparr> = Inr payload"
    using assms(4) by (auto elim!: marshal_entry_cases)
  have "cy_record codec payload = Inr \<lparr>cr_FormatVersion = schemaCacheFormatVersion, cr_Identity = EncodeToString (sc_identity cacheA),
       cr_SourceIdentity = sourceIdentity, cr_Checksum = EncodeToString (sha256 json), cr_Schema = json\<rparr>"
    using entry_read_back [OF assms(2) w(1,5)] assms(3) by simp
  then show ?thesis using assms w by (simp add: decode_entry_def)
qed

text \<open>The status of a private, regular file and of its private directory, as another run finds them.\<close>

definition readable_entry :: "cache_file \<Rightarrow> string \<Rightarrow> bool" where
  "readable_entry file payload \<longleftrightarrow> (\<exists>directory info.
     ce_directory file = Inr directory \<and> \<not> is_symlink directory \<and> is_directory directory \<and> Perm directory = 0x1C0 \<and>
     ce_lstat file = Inr info \<and> \<not> is_symlink info \<and> is_regular_mode info \<and> Perm info = 0x180 \<and>
     ce_open file = None \<and> ce_stat file = Inr info \<and> fi_Size info = int (length payload) \<and>
     clean_reads (ce_reads file) \<and> delivered (ce_reads file) = payload \<and>
     same_directory directory (ce_directory_after file))"

lemma load_readable:
  assumes "readable_entry file payload" and "payload \<noteq> []" and "length payload \<le> MaxFrameSize"
  shows "cache_load pf ev sha256 codec files file cache = decode_entry ev sha256 codec files cache payload"
proof -
  obtain directory info where f: "ce_directory file = Inr directory" "\<not> is_symlink directory" "is_directory directory"
    "Perm directory = 0x1C0" "ce_lstat file = Inr info" "\<not> is_symlink info" "is_regular_mode info" "Perm info = 0x180"
    "ce_open file = None" "ce_stat file = Inr info" "fi_Size info = int (length payload)" "clean_reads (ce_reads file)"
    "delivered (ce_reads file) = payload" "same_directory directory (ce_directory_after file)"
    using assms(1) by (auto simp: readable_entry_def)
  have "readAllContext (ce_reads file) (MaxFrameSize + schemaCacheFileOverhead + 1) [] = Inr payload"
    using readAllContext_clean [of "ce_reads file" "[]"] f assms(3) by simp
  moreover have "\<not> shared_mode pf info" by (simp add: shared_mode_def f)
  ultimately show ?thesis using f assms(2,3)
    by (simp add: cache_load_def validateDirectory_def SameFile_def schemaCacheFileOverhead_def)
qed

text \<open>C33.
  What was persisted is loaded again: an entry that was written to a temporary file and renamed into
  place, and that a later run finds private and reads to its end, gives the graph of the snapshot, as
  long as the identity of the configuration and of the sources is the one at the time of the writing.
\<close>

theorem persisted_schema_reloads:
  assumes written: "writeTemp pf ev sha256 codec filesA calls cacheA json d = (Inr temporary, d1)"
    and installed: "install temporary current None cacheA d1 = ((None, cacheA'), d2)"
    and found: "map_of d2 (cache_path cacheA) = Some (mode, payload)" "readable_entry file payload"
    and library: "codec_faithful codec compact" "compact json = json" "cy_snapshot codec json = Inr snapshot"
      "cy_value codec json = Inr j" "ValidateWire j = None"
    and unchanged: "sc_identity cacheB = sc_identity cacheA"
      "schemaSourceIdentity ev sha256 filesB (snap_SchemaSources snapshot) = schemaSourceIdentity ev sha256 filesA (snap_SchemaSources snapshot)"
    and built: "Build ev snapshot = Inr graph"
  shows "cache_load pf ev sha256 codec filesB file cacheB = Inr graph"
proof -
  from written obtain p where p: "marshal_entry ev sha256 codec filesA cacheA json = Inr p" "map_of d1 (tmp_path temporary) = Some (0x180, p)"
    by (rule writeTemp_disk)
  have "payload = p" using installed found(1) p(2) by (auto simp: install_def split: if_splits option.splits)
  moreover have "p \<noteq> [] \<and> length p \<le> MaxFrameSize"
    using p(1) by (auto simp: marshal_entry_def marshalStrict_Inr bind_err_Inr dest: entry_read_back [OF library(1)])
  ultimately show ?thesis
    using load_readable [OF found(2)] entry_decodes [OF p(1) library unchanged built] by simp
qed

text \<open>C34.
  The entry is never partial. Whatever fails while a graph is persisted, afterwards the path of the
  entry holds what it held before or a complete entry with mode 0600, and no other file has changed
  as long as removing the temporary file works; the temporary file has a new name.
\<close>

theorem entry_replaced_whole:
  assumes fresh: "\<And>name. wt_create calls = Inr name \<Longrightarrow> map_of d name = None \<and> name \<noteq> cache_path cache"
    and persisted: "persist_on_disk pf ev sha256 codec files calls superseded current renamed removes cache json d = d'"
  shows "(map_of d' (cache_path cache) = map_of d (cache_path cache) \<or>
      (\<exists>payload. marshal_entry ev sha256 codec files cache json = Inr payload \<and> map_of d' (cache_path cache) = Some (0x180, payload))) \<and>
    (wt_removes calls \<and> removes \<longrightarrow> (\<forall>q. q \<noteq> cache_path cache \<longrightarrow> map_of d' q = map_of d q))"
proof (cases "writeTemp pf ev sha256 codec files calls cache json d")
  case (Pair result d1)
  show ?thesis
  proof (cases result)
    case (Inl e)
    then have "d' = d1" using persisted Pair by (simp add: persist_on_disk_def)
    then show ?thesis using writeTemp_failed_disk [OF Pair [unfolded Inl] fresh] by simp
  next
    case (Inr temporary)
    obtain payload where p: "marshal_entry ev sha256 codec files cache json = Inr payload" "map_of d1 (tmp_path temporary) = Some (0x180, payload)"
      "\<And>q. q \<noteq> tmp_path temporary \<Longrightarrow> map_of d1 q = map_of d q" "wt_create calls = Inr (tmp_path temporary)"
      using Pair unfolding Inr by (rule writeTemp_disk) blast
    then show ?thesis using persisted Pair Inr fresh [OF p(4)]
      by (auto simp: persist_on_disk_def Let_def install_def split: if_splits option.splits)
  qed
qed

section \<open>A run\<close>

text \<open>One project with one source, whose entry is written and loaded; the hash is the text itself.\<close>

definition sample_source :: source_file where
  "sample_source = (let info = \<lparr>fi_Size = 2, fi_Mode = 0x1A4, fi_ModTime = 9, fi_File = 3\<rparr> in
     \<lparr>sf_ctx = None, sf_lstat = Inr info, sf_open = None, sf_stat = Inr info,
      sf_reads = [\<lparr>ro_ctx = None, ro_bytes = ''pa'', ro_err = None\<rparr>], sf_close = None, sf_after = Inr info\<rparr>)"

definition sample_cache :: persistentSchemaCache where
  "sample_cache = \<lparr>sc_directory = ''/c'', sc_identity = ''i'', sc_directoryInfo = None\<rparr>"

definition sample_directory :: FileInfo where
  "sample_directory = \<lparr>fi_Size = 64, fi_Mode = 0x800001C0, fi_ModTime = 1, fi_File = 1\<rparr>"

definition sample_record :: "persistentSchemaCache \<Rightarrow> schemaCacheRecord" where
  "sample_record cache = \<lparr>cr_FormatVersion = 1, cr_Identity = EncodeToString (sc_identity cache),
     cr_SourceIdentity = EncodeToString (sources_text Some (\<lambda>_. sample_source) [''/m'']),
     cr_Checksum = EncodeToString ''s'', cr_Schema = ''s''\<rparr>"

definition sample_codec :: "persistentSchemaCache \<Rightarrow> cache_codec" where
  "sample_codec cache = \<lparr>cy_encode = (\<lambda>r. if r = sample_record cache then Inr ''p'' else Inl EOF),
     cy_record = (\<lambda>text. if text = ''p'' then Inr (sample_record cache) else Inl EOF),
     cy_value = (\<lambda>text. Inr (JObject ((''schema_sources_complete'', JBool True) # bare_wire))),
     cy_snapshot = (\<lambda>text. Inr sample_snapshot)\<rparr>"

lemma sample_codec_faithful: "codec_faithful (sample_codec cache) (\<lambda>text. text)"
  by (simp add: codec_faithful_def sample_codec_def)

lemma sample_source_identity: "schemaSourceIdentity Some (\<lambda>text. text) (\<lambda>_. sample_source) [''/m''] =
    Inr (EncodeToString (sources_text Some (\<lambda>_. sample_source) [''/m'']))"
  by (simp add: schemaSourceIdentity_def hash_source_def sample_source_def Let_def is_symlink_def is_regular_mode_def ModeSymlink_def
      ModeType_def SameFile_def maxSchemaSourceIdentityBytes_def MaxFrameSize_def copy_buffer_def sources_text_def source_text_def
      source_content_def delivered_def)

lemma sample_marshal: "marshal_entry Some (\<lambda>text. text) (sample_codec cache) (\<lambda>_. sample_source) cache ''s'' = Inr ''p''"
  using sample_source_identity
  by (simp add: marshal_entry_def marshalStrict_def sample_codec_def sample_snapshot_def MaxFrameSize_def sample_record_def
      schemaCacheFormatVersion_def)

lemma sample_decode:
  assumes "Build Some sample_snapshot = Inr g"
  shows "decode_entry Some (\<lambda>text. text) (sample_codec cache) (\<lambda>_. sample_source) cache ''p'' = Inr g"
  by (rule entry_decodes [OF sample_marshal sample_codec_faithful refl _ _ bare_wire_accepted(1) refl refl assms])
    (simp_all add: sample_codec_def)

definition sample_config :: persistentSchemaCacheConfig where
  "sample_config = \<lparr>pc_config = \<lparr>cf_ProjectRoot = ''/p'', cf_PythonPath = ''/y'', cf_SettingsModule = ''s'', cf_EnvironmentFile = [],
       cf_Environment = [], cf_CacheDirectory = ''/c''\<rparr>,
     pc_pythonSize = 7, pc_pythonMode = 0x1ED, pc_pythonModTime = 5, pc_workerEnvironment = [env_entry ''A'' ''b''],
     pc_platformEnvironment = [], pc_coordinatorPath = ''/bin'', pc_workerDigest = ''w''\<rparr>"

definition sample_project :: project_listing where
  "sample_project = \<lparr>pl_entries = Inr [], pl_file = (\<lambda>_. \<lparr>sel_ctx = None, sel_missing = True, sel_open = None,
     sel_stat = Inl EOF, sel_reads = []\<rparr>)\<rparr>"

lemma sample_resolved: "ResolvedPath Some ''/p'' = ''/p''" "ResolvedPath Some ''/y'' = ''/y''" "ResolvedPath Some ''/m'' = ''/m''"
  by code_simp+

lemma fits_decimal: "n < 2 ^ 63 \<Longrightarrow> fits_length (decimal n)"
  using decimal_length [of n] by simp

lemma sample_fields_fit: "fields_fit (identity_fields Unix Some sample_config ''explicit'')"
  by (simp add: fields_fit_def identity_fields_def sample_config_def sample_resolved FormatInt_def fits_decimal [simplified]
      schemaCacheFormatVersion_def schemaExtractionFormatVersion_def ProtocolVersion_def Version_def PositionEncoding_def MaxFrameSize_def
      environment_fields_def workerEnvironmentValue_def normalizeEnvironmentKey_def)

lemma cached_schema_unchanged_witness:
  "\<exists>cache g. cache_open Unix Some (\<lambda>text. text) None None sample_project sample_config = Inr cache \<and>
     decode_entry Some (\<lambda>text. text) (sample_codec cache) (\<lambda>_. sample_source) cache ''p'' = Inr g \<and>
     same_configuration Some sample_config sample_config \<and> Build Some sample_snapshot = Inr g"
proof -
  let ?id = "\<lambda>text :: string. text"
  obtain g where g: "Build Some sample_snapshot = Inr g" by (rule sample_graph)
  have selected: "settingsSelectionIdentity Unix Some ?id sample_project (cf_ProjectRoot (pc_config sample_config))
      (cf_SettingsModule (pc_config sample_config)) (pc_workerEnvironment sample_config) = Inr ''explicit''"
    by (simp add: settingsSelectionIdentity_def sample_config_def)
  then obtain cache where opened: "cache_open Unix Some ?id None None sample_project sample_config = Inr cache"
    by (simp add: cache_open_def)
  have snapshot: "cy_snapshot (sample_codec cache) ''s'' = Inr sample_snapshot" by (simp add: sample_codec_def)
  have paths: "\<forall>path \<in> set (snap_SchemaSources sample_snapshot). fits_length (ResolvedPath Some path)"
    by (simp add: sample_snapshot_def sample_resolved)
  show ?thesis
    using cached_schema_unchanged [OF opened opened selected selected sample_marshal sample_decode [OF g] sample_codec_faithful snapshot
        inj_on_id2 sample_fields_fit sample_fields_fit paths] opened sample_decode [OF g]
    by blast
qed

definition sample_calls :: write_calls where
  "sample_calls = \<lparr>wt_mkdir = None, wt_exists = False, wt_directory = Inr sample_directory, wt_create = Inr ''/c/.pogo-schema-1'',
     wt_chmod = None, wt_lstat = Inr sample_directory, wt_write = None, wt_sync = None, wt_close = None, wt_removes = True\<rparr>"

definition sample_file :: cache_file where
  "sample_file = (let info = \<lparr>fi_Size = 1, fi_Mode = 0x180, fi_ModTime = 2, fi_File = 8\<rparr> in
     \<lparr>ce_directory = Inr sample_directory, ce_lstat = Inr info, ce_open = None, ce_stat = Inr info,
      ce_reads = [\<lparr>ro_ctx = None, ro_bytes = ''p'', ro_err = None\<rparr>], ce_directory_after = Inr sample_directory\<rparr>)"

lemma sample_modes:
  "\<not> is_symlink sample_directory" "is_directory sample_directory" "Perm sample_directory = 0x1C0" "SameFile sample_directory sample_directory"
  by (simp_all add: sample_directory_def is_symlink_def is_directory_def Perm_def ModeSymlink_def ModeDir_def SameFile_def)

lemma sample_write:
  "writeTemp Unix Some (\<lambda>text. text) (sample_codec sample_cache) (\<lambda>_. sample_source) sample_calls sample_cache ''s'' [] =
     (Inr \<lparr>tmp_path = ''/c/.pogo-schema-1'', tmp_directoryInfo = sample_directory\<rparr>, [(''/c/.pogo-schema-1'', 0x180, ''p'')])"
  by (simp add: writeTemp_def sample_marshal ensureDirectory_def validateDirectory_def sample_calls_def sample_modes
      fill_temporary_def same_directory_def)

lemma sample_cache_path: "cache_path sample_cache = ''/c/69.schema''"
  unfolding sample_cache_def by code_simp

lemma sample_readable: "readable_entry sample_file ''p''"
  by (simp add: readable_entry_def sample_file_def sample_directory_def Let_def is_symlink_def is_directory_def ModeDir_def SameFile_def is_regular_mode_def Perm_def ModeSymlink_def ModeType_def
      clean_reads_def delivered_def same_directory_def)

lemma persisted_schema_reloads_witness:
  "\<exists>g. Build Some sample_snapshot = Inr g \<and>
     cache_load Unix Some (\<lambda>text. text) (sample_codec sample_cache) (\<lambda>_. sample_source) sample_file sample_cache = Inr g"
proof -
  obtain g where g: "Build Some sample_snapshot = Inr g" by (rule sample_graph)
  have installed: "install \<lparr>tmp_path = ''/c/.pogo-schema-1'', tmp_directoryInfo = sample_directory\<rparr> (Inr sample_directory) None sample_cache
      [(''/c/.pogo-schema-1'', 0x180, ''p'')] =
      ((None, sample_cache\<lparr>sc_directoryInfo := Some sample_directory\<rparr>), [(''/c/69.schema'', 0x180, ''p'')])"
    by (simp add: install_def same_directory_def sample_modes sample_cache_path disk_remove_def)
  have found: "map_of [(''/c/69.schema'', 0x180 :: nat, ''p'')] (cache_path sample_cache) = Some (0x180, ''p'')" by (simp add: sample_cache_path)
  have "cache_load Unix Some (\<lambda>text. text) (sample_codec sample_cache) (\<lambda>_. sample_source) sample_file sample_cache = Inr g"
    by (rule persisted_schema_reloads [OF sample_write installed found sample_readable sample_codec_faithful refl _ _
          bare_wire_accepted(1) refl refl g]) (simp_all add: sample_codec_def)
  then show ?thesis using g by blast
qed

lemma entry_replaced_whole_witness:
  "map_of (persist_on_disk Unix Some (\<lambda>text. text) (sample_codec sample_cache) (\<lambda>_. sample_source) sample_calls True
      (Inr sample_directory) None True sample_cache ''s'' [(''/c/69.schema'', 0x180, ''old'')]) ''/c/.pogo-schema-1'' = None"
proof -
  let ?d = "[(''/c/69.schema'', 0x180 :: nat, ''old'')]"
  have fresh: "map_of ?d name = None \<and> name \<noteq> cache_path sample_cache" if "wt_create sample_calls = Inr name" for name
    using that by (auto simp: sample_calls_def sample_cache_path)
  have "wt_removes sample_calls" by (simp add: sample_calls_def)
  then show ?thesis using entry_replaced_whole [OF fresh refl] by (simp add: sample_cache_path)
qed

end
