(* ===== verification/Spec2Isabelle.thy ===== *)
theory Spec2Isabelle
  imports Schema_Properties Path_Properties Document_Properties Python_Properties Worker_Properties Manager_Refresh Manager_Stop Environment_Properties Infer_Properties
    Analysis_Properties Analysis_Annotation Analysis_Links Lsp_Properties Lsp_Session_Properties Lsp_Feature_Properties
    Schema_Wire Worker_Schema_Cache_Properties
begin

text \<open>
  Pogo: a verification of the Django language server.

  Pogo is a Go program. It starts a Python worker that loads the Django project and sends a snapshot
  of its models; it indexes the snapshot as a graph; it keeps the documents an editor has open; and it
  answers the editor's questions about lookup paths, members and serializers in Python source with
  that graph, and publishes diagnostics.

  How the parts interact. \<open>lsp\<close> receives the editor's messages and changes the store of documents
  (\<open>analysis\<close>), from whose snapshots and the graph in the cache (\<open>schema\<close>) the answers are computed.
  \<open>python\<close> supervises the worker: a session starts it, exchanges frames with it, builds the graph and
  replaces the one in the cache; a save refreshes it; a graph that was kept on disk stands in until the
  worker has answered. A new graph makes \<open>lsp\<close> publish the diagnostics of every document again.

  \<^bold>\<open>The theories, bottom up.\<close>

  Shared:
  \<^item> \<open>Pogo_Prelude\<close>: Go errors as values, early returns, loops that stop at an error, Go maps as
    association lists in the order in which a run ranges over them.
  \<^item> \<open>Go_Strings\<close>, \<open>Go_Filepath\<close>, \<open>Go_Utf8\<close>, \<open>Go_Unicode\<close>, \<open>Go_Io\<close>, \<open>Go_Regexp\<close>: what the program uses of
    the standard library, on byte strings (\<open>string\<close>, one \<open>char\<close> per byte). The regular expressions are
    terms of a backtracking matcher; \<open>rx_repeat\<close> has fuel, the length of the remaining text, which is
    enough because an iteration that matches nothing ends the loop.

  The schema (\<open>internal/schema\<close>):
  \<^item> \<open>Schema_DTO\<close> (\<open>dto.go\<close>): the structs as records. \<open>Schema_Wire\<close> (\<open>wire.go\<close>): the check of the JSON
    before it is decoded; it accepts exactly the values of one shape. \<open>Schema_Cache\<close> (\<open>cache.go\<close>).
  \<^item> \<open>Schema_Validate\<close>, \<open>Schema_Index\<close>, \<open>Schema_Graph\<close>, \<open>Schema_Refs\<close> (\<open>graph.go\<close>): \<open>Build\<close> and every
    operation of a graph and of the references it gives out. A pointer between models is the canonical
    label of its target. \<open>Schema_Listings\<close> and \<open>Schema_Build\<close> prove what \<open>Build\<close> guarantees,
    \<open>Schema_Properties\<close> states it over the operations, \<open>Schema_Sample\<close> is the snapshot of the witnesses.

  Analysis (\<open>internal/analysis\<close>):
  \<^item> \<open>Path_Resolver\<close>, \<open>Path_Resolver_Facts\<close>, \<open>Path_Properties\<close> (the resolver of \<open>path.go\<close>): completion is
    sound for resolution and complete but for the names that only a wildcard transform accepts, validation
    reports the first failure.
  \<^item> \<open>Document_Position\<close>, \<open>Document_Syntax\<close>, \<open>Document_Store\<close> (\<open>document.go\<close>): positions in UTF-16 with
    32-bit counters, the extraction of statements and calls, and the store with its trees in a heap.
    \<open>Document_Store_Facts\<close> has the invariants and who owns each tree, \<open>Document_Changes\<close> and
    \<open>Document_Sync\<close> the specification of text synchronisation that the store refines,
    \<open>Document_Properties\<close> the properties. Documents have at most \<open>MaxDocumentSize\<close> bytes, so no counter wraps.
  \<^item> \<open>Python_Lexer\<close>, \<open>Python_Arguments\<close>, \<open>Python_Segments\<close>, \<open>Python_Scan_Facts\<close>, \<open>Python_Properties\<close>: the
    byte scanners of \<open>path.go\<close>, \<open>infer.go\<close> and \<open>diagnostic.go\<close> as one fold over lexical events, the calls,
    arguments and strings they find, and paths split into segments.
  \<^item> \<open>Infer_Text\<close>, \<open>Infer_Values\<close>, \<open>Infer_Environment\<close>, \<open>Infer_Typing\<close>, \<open>Infer_Chain\<close>, \<open>Infer_Properties\<close>
    (\<open>infer.go\<close>): the values that statements bind and expressions have; inference is type sound, and the
    member loop is a fold.
  \<^item> \<open>Analysis_Serializer\<close>, \<open>Analysis_Serializer_Context\<close> (\<open>serializer.go\<close>), \<open>Analysis_Context\<close> (\<open>analyze\<close>),
    \<open>Analysis_Diagnose\<close> (\<open>diagnostic.go\<close>), \<open>Analysis_Definition\<close>, \<open>Analysis_Annotation\<close> (\<open>definition.go\<close>),
    \<open>Analysis_Links\<close> (\<open>document_link.go\<close>); their facts in \<open>Analysis_Facts\<close>, \<open>Analysis_Serializer_Facts\<close>,
    \<open>Analysis_Serializer_Choice\<close>, \<open>Analysis_Diagnose_Facts\<close>, and the properties in \<open>Analysis_Properties\<close>:
    every range lies at the cursor or in a path of an argument, resolved from the model of its call, and
    what a serializer's options are offered.

  The worker (\<open>internal/python\<close>, and the frames of \<open>internal/harness/frame.go\<close>):
  \<^item> \<open>Worker_Frames\<close>, \<open>Harness_Frames\<close>, \<open>Worker_Protocol\<close>, \<open>Worker_Client\<close>, \<open>Worker_Properties\<close> (\<open>frame.go\<close>,
    \<open>protocol.go\<close>, \<open>client.go\<close>): both framings, the check for duplicate keys, responses, and the client
    that keeps requests and responses in step.
  \<^item> \<open>Worker_Environment\<close>, \<open>Worker_Environment_Facts\<close>, \<open>Worker_Environment_Load\<close>, \<open>Environment_Properties\<close>
    (\<open>environment.go\<close>): parsing, merging, validating and completing the environment of the worker; the
    files the parser accepts are exactly the printed ones, in every style of value.
  \<^item> \<open>Worker_Manager\<close>, \<open>Worker_Manager_Facts\<close>, \<open>Manager_Refresh\<close>, \<open>Manager_Stop\<close> (\<open>manager.go\<close>): the supervisor
    as a step relation over what each goroutine does under the mutex, \<open>Stop\<close> in its three parts; what a published graph has seen, and
    when the supervisor stops.
  \<^item> \<open>Worker_Schema_Cache\<close>, \<open>Worker_Schema_Cache_Properties\<close> (\<open>schema_cache.go\<close>, the disk of
    \<open>persistGraph\<close>): the identity of a configuration, the entry on disk, and that an entry which loads
    stands for unchanged inputs.

  The server (\<open>internal/lsp\<close>):
  \<^item> \<open>Lsp_Signature\<close>, \<open>Lsp_Signature_Facts\<close>, \<open>Lsp_Properties\<close> (\<open>signature.go\<close>): Python signatures.
  \<^item> \<open>Lsp_Features\<close>, \<open>Lsp_Feature_Properties\<close> (\<open>features.go\<close>, \<open>navigation.go\<close>): completion, hover, signature
    help and definitions as functions of a snapshot and a graph.
  \<^item> \<open>Lsp_Server\<close>, \<open>Lsp_Lifecycle\<close> (\<open>lifecycle.go\<close>, \<open>diagnostics.go\<close>): the state of the server, the messages it
    handles and the work of its goroutines as steps in any order. \<open>Lsp_Session_Facts\<close>,
    \<open>Lsp_Session_Invariant\<close>, \<open>Lsp_Session_Publish\<close>, \<open>Lsp_Session_Diagnostics\<close>, \<open>Lsp_Lifecycle_Facts\<close> have the
    invariants of a session, \<open>Lsp_Session_Properties\<close> the properties: diagnostics converge, work ends,
    nothing is sent after shutdown, the exit code, and the order of the worker's calls.

  \<^bold>\<open>Bounds.\<close> Generations of the cache are 64-bit words, and a session is assumed to publish fewer than
  \<open>2^64\<close> graphs; the epochs of the supervisor are natural numbers, and its delays integers that
  wrap where a \<open>time.Duration\<close> does. \<open>MaxPathSegments\<close>, \<open>MaxPathBytes\<close>, \<open>MaxFrameSize\<close> and the other limits
  are the code's. Loops are structural or have a termination proof; nothing else has fuel.

  \<^bold>\<open>Parameters.\<close> \<open>ev\<close> is \<open>filepath.EvalSymlinks\<close>, \<open>sha256\<close> the digest, \<open>quote\<close> the verb \<open>%q\<close>, \<open>isFloat\<close>
  \<open>strconv.ParseFloat\<close>, \<open>wide\<close> the letters and digits of Unicode beyond ASCII, \<open>g\<close> the tree-sitter library
  with the contract \<open>parser_contract\<close> (no new tree with an error; the copy it was given is returned without
  an error only if its root has none), the codecs the JSON library, \<open>url\<close> and \<open>surroundings\<close> \<open>url.Parse\<close> and the
  rest of the world of the server, and \<open>call_of\<close> how the protocol library dispatches a message.

  \<^bold>\<open>Simplifications.\<close> A supervisor is started again only when no \<open>Stop\<close> is under way (the server
  starts it once); a callback of \<open>Handle\<close> starts atomically and its
  publishing is then done by the steps of a goroutine; logging is left out; regular expressions match
  bytes; paths are those of systems other than Windows.

  \<^bold>\<open>Not modelled.\<close> The sockets, pipes and process groups of a session (\<open>endpoint*.go\<close>, \<open>process_*.go\<close>, and in
  \<open>manager.go\<close> starting the worker, its handshake, reading its output and cleaning up after it): system calls whose outcomes
  the supervisor's steps take as given. The constructor of the manager and its checks of paths, and the
  choice of files whose saves matter. The capabilities and the loop over the standard streams
  (\<open>features.go\<close>, \<open>server.go\<close>): constants and a library call. The command line (\<open>cmd/pogo\<close>) and the test client
  (\<open>internal/harness/runner.go\<close>, \<open>scenario.go\<close>, \<open>cmd/testclient\<close>): flags, processes and files. The Python
  daemon and the editors' extensions: other languages.
\<close>

end
